(* ===== verification/TOL_Prelude.thy ===== *)
theory TOL_Prelude
  imports Main "HOL-Library.Multiset" "HOL-Library.List_Lexorder" "HOL-Library.Char_ord"
    "HOL-Library.Product_Lexorder"
begin

text \<open>
  Shared vocabulary of the development: results of code that may throw, closed string
  vocabularies (TypeScript unions of string literals), the stable array sort of the language,
  and the list facts the component theories use.
\<close>

section \<open>Results of code that may throw\<close>

text \<open>
  A function of the source that may throw returns \<open>'e + 'a\<close>: \<open>Inl\<close> carries the
  exception, \<open>Inr\<close> the returned value. \<open>ebind\<close> is sequencing (the rest of the body
  is skipped once something was thrown); \<open>throw_if\<close> is a guard with a \<open>throw\<close>.
\<close>

definition ebind :: "'e + 'a \<Rightarrow> ('a \<Rightarrow> 'e + 'b) \<Rightarrow> 'e + 'b" where
  "ebind r k = (case r of Inl e \<Rightarrow> Inl e | Inr x \<Rightarrow> k x)"

definition throw_if :: "bool \<Rightarrow> 'e \<Rightarrow> 'e + unit" where
  "throw_if c e = (if c then Inl e else Inr ())"

fun emap :: "('a \<Rightarrow> 'e + 'b) \<Rightarrow> 'a list \<Rightarrow> 'e + 'b list" where
  "emap f [] = Inr []"
| "emap f (x # xs) = ebind (f x) (\<lambda>y. ebind (emap f xs) (\<lambda>ys. Inr (y # ys)))"

fun efor :: "('a \<Rightarrow> 'e + unit) \<Rightarrow> 'a list \<Rightarrow> 'e + unit" where
  "efor f [] = Inr ()"
| "efor f (x # xs) = ebind (f x) (\<lambda>_. efor f xs)"

named_theorems result_simps \<open>evaluation of sequenced results\<close>

lemma ebind_simps [simp, result_simps]:
  "ebind (Inl e) k = Inl e" "ebind (Inr x) k = k x"
  by (simp_all add: ebind_def)

lemma ebind_eq_Inr [result_simps]: "ebind r k = Inr y \<longleftrightarrow> (\<exists>x. r = Inr x \<and> k x = Inr y)"
  by (cases r) auto

lemma ebind_eq_Inl [result_simps]:
  "ebind r k = Inl e \<longleftrightarrow> r = Inl e \<or> (\<exists>x. r = Inr x \<and> k x = Inl e)"
  by (cases r) auto

lemma throw_if_eq_Inr [simp, result_simps]: "throw_if c e = Inr u \<longleftrightarrow> \<not> c"
  by (simp add: throw_if_def)

lemma throw_if_eq_Inl [simp, result_simps]: "throw_if c e = Inl e' \<longleftrightarrow> c \<and> e' = e"
  by (auto simp: throw_if_def)

text \<open>A \<open>try\<close>/\<open>catch\<close> or a wrapper that turns one error type into another.\<close>

lemma case_sum_eq_Inr [result_simps]:
  "(case r of Inl e \<Rightarrow> Inl (f e) | Inr x \<Rightarrow> k x) = Inr y \<longleftrightarrow> (\<exists>x. r = Inr x \<and> k x = Inr y)"
  by (cases r) auto

lemma efor_eq_Inr: "efor f xs = Inr u \<longleftrightarrow> (\<forall>x \<in> set xs. f x = Inr ())"
  by (induction xs) (auto simp: ebind_eq_Inr)

lemma emap_eq_Inr: "emap f xs = Inr ys \<longleftrightarrow> list_all2 (\<lambda>x y. f x = Inr y) xs ys"
  by (induction xs arbitrary: ys) (auto simp: ebind_eq_Inr list_all2_Cons1)

section \<open>Closed string vocabularies\<close>

text \<open>
  A union of string literals is a datatype together with the literal of each constructor;
  reading a string back is a search through the \<open>as const\<close> array of the source.
\<close>

definition enum_of :: "'s list \<Rightarrow> ('s \<Rightarrow> string) \<Rightarrow> string \<Rightarrow> 's option" where
  "enum_of all name v = find (\<lambda>s. name s = v) all"

lemma enum_of_SomeD: "enum_of all name v = Some s \<Longrightarrow> s \<in> set all \<and> name s = v"
  by (auto simp: enum_of_def find_Some_iff)

lemma enum_of_name: "inj name \<Longrightarrow> s \<in> set all \<Longrightarrow> enum_of all name (name s) = Some s"
  by (induction all) (auto simp: enum_of_def inj_eq)

lemma enum_of_None: "enum_of all name v = None \<longleftrightarrow> v \<notin> name ` set all"
  by (auto simp: enum_of_def find_None_iff)

section \<open>Lists\<close>

text \<open>\<open>Array.indexOf\<close>, with \<open>None\<close> for -1.\<close>

fun index_of :: "'a list \<Rightarrow> 'a \<Rightarrow> nat option" where
  "index_of [] x = None"
| "index_of (y # ys) x = (if y = x then Some 0 else map_option Suc (index_of ys x))"

lemma find_SomeD: "find P xs = Some x \<Longrightarrow> x \<in> set xs \<and> P x"
  by (auto simp: find_Some_iff)

lemma sum_list_filter_partition:
  fixes f :: "'a \<Rightarrow> 'b::comm_monoid_add"
  shows "sum_list (map f (filter P xs)) + sum_list (map f (filter (\<lambda>x. \<not> P x) xs)) =
    sum_list (map f xs)"
  by (induction xs) (auto simp: ac_simps)

lemma sum_list_mset_eq:
  fixes f :: "'a \<Rightarrow> 'b::comm_monoid_add"
  shows "mset xs = mset ys \<Longrightarrow> sum_list (map f xs) = sum_list (map f ys)"
  by (metis mset_map sum_mset_sum_list)

section \<open>The stable sort of the language\<close>

text \<open>
  \<open>Array.prototype.sort\<close> with a comparator is a stable sort; every stable sort gives the
  same list when the comparator is a consistent total preorder, so it is modelled by stable
  insertion. A comparator returns a number of which only the sign matters.
\<close>

fun js_insert :: "('a \<Rightarrow> 'a \<Rightarrow> int) \<Rightarrow> 'a \<Rightarrow> 'a list \<Rightarrow> 'a list" where
  "js_insert cmp x [] = [x]"
| "js_insert cmp x (y # ys) = (if cmp x y \<le> 0 then x # y # ys else y # js_insert cmp x ys)"

definition js_sort :: "('a \<Rightarrow> 'a \<Rightarrow> int) \<Rightarrow> 'a list \<Rightarrow> 'a list" where
  "js_sort cmp xs = foldr (js_insert cmp) xs []"

text \<open>
  What a comparator promises to the sort: its sign is the order of a key. From it the sort is
  a permutation, is sorted by the key, and does not depend on the order of its input when the
  key separates the elements.
\<close>

locale js_comparator =
  fixes cmp :: "'a \<Rightarrow> 'a \<Rightarrow> int"
    and key :: "'a \<Rightarrow> 'k::linorder"
  assumes cmp_sign: "cmp x y \<le> 0 \<longleftrightarrow> key x \<le> key y"
begin

lemma js_insert_insort: "js_insert cmp x xs = insort_key key x xs"
  by (induction xs) (auto simp: cmp_sign)

lemma js_sort_sort_key: "js_sort cmp xs = sort_key key xs"
  by (simp add: js_sort_def sort_key_def js_insert_insort cong: foldr_cong)

lemma mset_js_sort: "mset (js_sort cmp xs) = mset xs"
  by (simp add: js_sort_sort_key)

lemma set_js_sort: "set (js_sort cmp xs) = set xs"
  by (simp add: js_sort_sort_key)

lemma sorted_js_sort: "sorted (map key (js_sort cmp xs))"
  by (simp add: js_sort_sort_key)

lemma js_sort_permutation:
  assumes "mset xs = mset ys" and "inj_on key (set xs)"
  shows "js_sort cmp xs = js_sort cmp ys"
proof -
  have "mset (map key (sort_key key xs)) = mset (map key (sort_key key ys))"
    using assms(1) by simp
  then have "map key (sort_key key xs) = map key (sort_key key ys)"
    using properties_for_sort sorted_sort_key by metis
  moreover have "set xs = set ys"
    using assms(1) by (metis set_mset_mset)
  ultimately have "sort_key key xs = sort_key key ys"
    using assms(2) by (metis map_inj_on set_sort sup.idem)
  then show ?thesis
    by (simp add: js_sort_sort_key)
qed

end

end
