(* ===== verification/Transition_Guard.thy ===== *)
theory Transition_Guard
  imports TOL_Prelude
begin

text \<open>
  The contract every \<open>assertValid*Transition\<close> guard of \<open>packages/domain\<close> keeps, stated
  once. A guard receives two strings (the current and the requested status, possibly outside
  the enumeration) and throws or returns. A row whose status changes only through its guard
  follows \<open>lifecycle\<close>; the contract gives closure under the enumeration, terminal
  statuses, invariant sets of statuses and bounds on the number of changes.
\<close>

text \<open>The typed errors of the \<open>*-states.ts\<close> files, all subclasses of \<open>DomainTransitionError\<close>.\<close>

datatype DomainTransitionError =
    InvalidOpportunityTransitionError string string
  | InvalidRfqTransitionError string string string
  | InvalidDealTransitionError string string string
  | InvalidClaimTransitionError string string string
  | InvalidLockboxTransitionError string string string
  | InvalidPassportTransitionError string string
  | InvalidCommissionScheduleTransitionError string string string

text \<open>A status column written only when the guard accepts the requested value.\<close>

definition apply_transition :: "(string \<Rightarrow> string \<Rightarrow> 'e + unit) \<Rightarrow> string \<Rightarrow> string \<Rightarrow> string" where
  "apply_transition guard cur req = (case guard cur req of Inr _ \<Rightarrow> req | Inl _ \<Rightarrow> cur)"

fun lifecycle :: "(string \<Rightarrow> string \<Rightarrow> 'e + unit) \<Rightarrow> string \<Rightarrow> string list \<Rightarrow> string" where
  "lifecycle guard cur [] = cur"
| "lifecycle guard cur (r # rs) = lifecycle guard (apply_transition guard cur r) rs"

text \<open>The number of requests of a run that the guard accepted.\<close>

fun accepted :: "(string \<Rightarrow> string \<Rightarrow> 'e + unit) \<Rightarrow> string \<Rightarrow> string list \<Rightarrow> nat" where
  "accepted guard cur [] = 0"
| "accepted guard cur (r # rs) =
     (case guard cur r of Inr _ \<Rightarrow> Suc (accepted guard r rs) | Inl _ \<Rightarrow> accepted guard cur rs)"

lemma lifecycle_append:
  "lifecycle guard cur (rs @ rs') = lifecycle guard (lifecycle guard cur rs) rs'"
  by (induction rs arbitrary: cur) auto

locale transition_guard =
  fixes all :: "'s list"
    and name :: "'s \<Rightarrow> string"
    and edges :: "'s \<Rightarrow> 's list"
    and guard :: "string \<Rightarrow> string \<Rightarrow> 'e + unit"
  assumes all_complete: "s \<in> set all"
    and name_inj: "name s = name t \<Longrightarrow> s = t"
    and guard_accepts: "guard (name s) (name t) = Inr () \<longleftrightarrow> t \<in> set (edges s)"
    and guard_closed: "v \<notin> range name \<or> w \<notin> range name \<Longrightarrow> \<exists>e. guard v w = Inl e"
begin

lemma inj_name: "inj name"
  by (rule injI) (rule name_inj)

lemma guard_acceptsE:
  assumes "guard v w = Inr u"
  obtains s t where "v = name s" and "w = name t" and "t \<in> set (edges s)"
proof -
  have "v \<in> range name" "w \<in> range name"
    using guard_closed [of v w] assms by auto
  then show thesis
    using that assms guard_accepts by auto
qed

lemma apply_transition_name:
  "apply_transition guard (name s) r = name s \<or>
   (\<exists>t \<in> set (edges s). r = name t \<and> apply_transition guard (name s) r = name t)"
proof (cases "guard (name s) r")
  case (Inl e)
  then show ?thesis by (simp add: apply_transition_def)
next
  case (Inr u)
  then obtain s' t where "name s = name s'" "r = name t" "t \<in> set (edges s')"
    by (rule guard_acceptsE)
  then show ?thesis
    using Inr name_inj by (auto simp: apply_transition_def)
qed

text \<open>A set of statuses closed under the table is never left.\<close>

lemma lifecycle_invariant:
  assumes closed: "\<And>s t. s \<in> S \<Longrightarrow> t \<in> set (edges s) \<Longrightarrow> t \<in> S" and start: "s \<in> S"
  shows "\<exists>t \<in> S. lifecycle guard (name s) rs = name t"
  using start
proof (induction rs arbitrary: s)
  case Nil
  then show ?case by auto
next
  case (Cons r rs)
  then show ?case
    using apply_transition_name [of s r] closed by fastforce
qed

lemma lifecycle_in_vocabulary: "\<exists>t. lifecycle guard (name s) rs = name t"
  using lifecycle_invariant [of UNIV s rs] by auto

lemma lifecycle_terminal: "edges s = [] \<Longrightarrow> lifecycle guard (name s) rs = name s"
  using lifecycle_invariant [of "{s}" s rs] by auto

text \<open>A rank that every edge decreases bounds the number of accepted requests.\<close>

lemma accepted_bound:
  assumes "\<And>s t. t \<in> set (edges s) \<Longrightarrow> rank t < rank s"
  shows "accepted guard (name s) rs \<le> rank s"
proof (induction rs arbitrary: s)
  case Nil
  then show ?case by simp
next
  case (Cons r rs)
  show ?case
  proof (cases "guard (name s) r")
    case (Inl e)
    then show ?thesis using Cons by simp
  next
    case (Inr u)
    then obtain s' t where st: "name s = name s'" "r = name t" "t \<in> set (edges s')"
      by (rule guard_acceptsE)
    then have "rank t < rank s"
      using assms name_inj by metis
    then show ?thesis
      using Inr st Cons.IH [of t] by simp
  qed
qed

end

text \<open>
  The shape all the guards have: both strings are looked up in the enumeration, an unknown
  string throws, and so does a pair outside the table. The guards that also throw on
  \<open>from === to\<close> (all but the RFQ's own) have a table without loops, so the extra test
  never decides. The shape gives the contract.
\<close>

locale status_table =
  fixes all :: "'s list"
    and name :: "'s \<Rightarrow> string"
    and edges :: "'s \<Rightarrow> 's list"
    and strict :: bool
    and err :: "string \<Rightarrow> string \<Rightarrow> 'e"
    and guard :: "string \<Rightarrow> string \<Rightarrow> 'e + unit"
  assumes complete: "s \<in> set all"
    and injective: "name s = name t \<Longrightarrow> s = t"
    and loop_free: "strict \<Longrightarrow> s \<notin> set (edges s)"
    and guard_eq: "guard v w =
      (case (enum_of all name v, enum_of all name w) of
         (Some s, Some t) \<Rightarrow>
           if (strict \<and> s = t) \<or> t \<notin> set (edges s) then Inl (err v w) else Inr ()
       | _ \<Rightarrow> Inl (err v w))"

sublocale status_table \<subseteq> transition_guard all name edges guard
proof unfold_locales
  have inj: "inj name" by (rule injI) (rule injective)
  fix s t
  show "s \<in> set all" by (rule complete)
  show "s = t" if "name s = name t" using that by (rule injective)
  show "guard (name s) (name t) = Inr () \<longleftrightarrow> t \<in> set (edges s)"
    using loop_free [of s] enum_of_name [OF inj complete] by (auto simp: guard_eq)
next
  fix v w
  assume "v \<notin> range name \<or> w \<notin> range name"
  then have "enum_of all name v = None \<or> enum_of all name w = None"
    by (auto simp: enum_of_None)
  then show "\<exists>e. guard v w = Inl e"
    by (auto simp: guard_eq split: option.splits)
qed

context status_table
begin

text \<open>A refusal always carries the two strings the caller passed.\<close>

lemma guard_error: "guard v w = Inl e \<Longrightarrow> e = err v w"
  by (auto simp: guard_eq split: option.splits if_splits)

lemma guard_refuses: "guard (name s) (name t) = Inl (err (name s) (name t)) \<longleftrightarrow> t \<notin> set (edges s)"
  using guard_accepts [of s t] guard_error by (cases "guard (name s) (name t)") auto

end

end
