(* ===== verification/Opportunity_States.thy ===== *)
theory Opportunity_States
  imports Transition_Guard
begin

text \<open>
  The opportunity lifecycle of \<open>packages/domain/src/opportunity-states.ts\<close>: the statuses, the
  transition table and its guard.
\<close>

datatype OpportunityStatus =
    Opp_DRAFT
  | Opp_READINESS_BLOCKED
  | Opp_MATCH_READY
  | Opp_INVITED
  | Opp_QUOTED
  | Opp_SELECTED
  | Opp_ACTIVATING
  | Opp_LIVE
  | Opp_CLOSED

definition OPPORTUNITY_STATUSES :: "OpportunityStatus list" where
  "OPPORTUNITY_STATUSES = [Opp_DRAFT, Opp_READINESS_BLOCKED, Opp_MATCH_READY, Opp_INVITED, Opp_QUOTED, Opp_SELECTED, Opp_ACTIVATING, Opp_LIVE, Opp_CLOSED]"

fun opportunityStatus_name :: "OpportunityStatus \<Rightarrow> string" where
  "opportunityStatus_name Opp_DRAFT = ''DRAFT''"
| "opportunityStatus_name Opp_READINESS_BLOCKED = ''READINESS_BLOCKED''"
| "opportunityStatus_name Opp_MATCH_READY = ''MATCH_READY''"
| "opportunityStatus_name Opp_INVITED = ''INVITED''"
| "opportunityStatus_name Opp_QUOTED = ''QUOTED''"
| "opportunityStatus_name Opp_SELECTED = ''SELECTED''"
| "opportunityStatus_name Opp_ACTIVATING = ''ACTIVATING''"
| "opportunityStatus_name Opp_LIVE = ''LIVE''"
| "opportunityStatus_name Opp_CLOSED = ''CLOSED''"

definition opportunityStatus_of :: "string \<Rightarrow> OpportunityStatus option" where
  "opportunityStatus_of = enum_of OPPORTUNITY_STATUSES opportunityStatus_name"

definition isOpportunityStatus :: "string \<Rightarrow> bool" where
  "isOpportunityStatus value = (opportunityStatus_of value \<noteq> None)"

fun OPPORTUNITY_TRANSITIONS :: "OpportunityStatus \<Rightarrow> OpportunityStatus list" where
  "OPPORTUNITY_TRANSITIONS Opp_DRAFT = [Opp_READINESS_BLOCKED, Opp_MATCH_READY]"
| "OPPORTUNITY_TRANSITIONS Opp_READINESS_BLOCKED = [Opp_DRAFT, Opp_MATCH_READY]"
| "OPPORTUNITY_TRANSITIONS Opp_MATCH_READY = [Opp_READINESS_BLOCKED, Opp_INVITED]"
| "OPPORTUNITY_TRANSITIONS Opp_INVITED = [Opp_MATCH_READY, Opp_QUOTED]"
| "OPPORTUNITY_TRANSITIONS Opp_QUOTED = [Opp_INVITED, Opp_SELECTED]"
| "OPPORTUNITY_TRANSITIONS Opp_SELECTED = [Opp_ACTIVATING, Opp_QUOTED]"
| "OPPORTUNITY_TRANSITIONS Opp_ACTIVATING = [Opp_LIVE, Opp_SELECTED]"
| "OPPORTUNITY_TRANSITIONS Opp_LIVE = [Opp_CLOSED]"
| "OPPORTUNITY_TRANSITIONS Opp_CLOSED = []"

definition assertValidOpportunityTransition :: "string \<Rightarrow> string \<Rightarrow> DomainTransitionError + unit" where
  "assertValidOpportunityTransition from to =
     (case (opportunityStatus_of from, opportunityStatus_of to) of
        (Some s, Some t) \<Rightarrow>
          if s = t \<or> t \<notin> set (OPPORTUNITY_TRANSITIONS s)
          then Inl (InvalidOpportunityTransitionError from to)
          else Inr ()
      | _ \<Rightarrow> Inl (InvalidOpportunityTransitionError from to))"

interpretation opportunity: status_table OPPORTUNITY_STATUSES opportunityStatus_name OPPORTUNITY_TRANSITIONS True
  "\<lambda>v w. InvalidOpportunityTransitionError v w" assertValidOpportunityTransition
proof unfold_locales
  show "s \<in> set OPPORTUNITY_STATUSES" for s
    by (cases s) (simp_all add: OPPORTUNITY_STATUSES_def)
  show "opportunityStatus_name s = opportunityStatus_name t \<Longrightarrow> s = t" for s t
    by (cases s; cases t) simp_all
  show "True \<Longrightarrow> s \<notin> set (OPPORTUNITY_TRANSITIONS s)" for s
    by (cases s) simp_all
qed (simp add: assertValidOpportunityTransition_def opportunityStatus_of_def split: option.split)

section \<open>Properties\<close>

lemma opportunity_live_stays:
  "lifecycle assertValidOpportunityTransition ''LIVE'' rs \<in> {''LIVE'', ''CLOSED''}"
proof -
  have "\<exists>t \<in> {Opp_LIVE, Opp_CLOSED}.
      lifecycle assertValidOpportunityTransition (opportunityStatus_name Opp_LIVE) rs =
        opportunityStatus_name t"
    by (rule opportunity.lifecycle_invariant) auto
  then show ?thesis by auto
qed

end
