(* ===== verification/Rfq_States.thy ===== *)
theory Rfq_States
  imports Transition_Guard
begin

text \<open>
  \<open>packages/domain/src/rfq-states.ts\<close>: the RFQ, its recipients and its quotes, each with its own
  table and guard. The RFQ is the one aggregate whose guard accepts a loop (a second provider
  quoting keeps \<open>QUOTED\<close>).
\<close>

section \<open>RFQ\<close>

datatype RfqStatus =
    Rfq_DRAFT
  | Rfq_SENT
  | Rfq_ACKNOWLEDGED
  | Rfq_QUESTIONS
  | Rfq_QUOTED
  | Rfq_EXPIRED
  | Rfq_DECLINED
  | Rfq_SELECTED

definition RFQ_STATUSES :: "RfqStatus list" where
  "RFQ_STATUSES = [Rfq_DRAFT, Rfq_SENT, Rfq_ACKNOWLEDGED, Rfq_QUESTIONS, Rfq_QUOTED, Rfq_EXPIRED, Rfq_DECLINED, Rfq_SELECTED]"

fun rfqStatus_name :: "RfqStatus \<Rightarrow> string" where
  "rfqStatus_name Rfq_DRAFT = ''DRAFT''"
| "rfqStatus_name Rfq_SENT = ''SENT''"
| "rfqStatus_name Rfq_ACKNOWLEDGED = ''ACKNOWLEDGED''"
| "rfqStatus_name Rfq_QUESTIONS = ''QUESTIONS''"
| "rfqStatus_name Rfq_QUOTED = ''QUOTED''"
| "rfqStatus_name Rfq_EXPIRED = ''EXPIRED''"
| "rfqStatus_name Rfq_DECLINED = ''DECLINED''"
| "rfqStatus_name Rfq_SELECTED = ''SELECTED''"

definition rfqStatus_of :: "string \<Rightarrow> RfqStatus option" where
  "rfqStatus_of = enum_of RFQ_STATUSES rfqStatus_name"

definition isRfqStatus :: "string \<Rightarrow> bool" where
  "isRfqStatus value = (rfqStatus_of value \<noteq> None)"

fun RFQ_TRANSITIONS :: "RfqStatus \<Rightarrow> RfqStatus list" where
  "RFQ_TRANSITIONS Rfq_DRAFT = [Rfq_SENT]"
| "RFQ_TRANSITIONS Rfq_SENT = [Rfq_ACKNOWLEDGED, Rfq_QUESTIONS, Rfq_QUOTED, Rfq_EXPIRED, Rfq_DECLINED]"
| "RFQ_TRANSITIONS Rfq_ACKNOWLEDGED = [Rfq_QUESTIONS, Rfq_QUOTED, Rfq_EXPIRED, Rfq_DECLINED]"
| "RFQ_TRANSITIONS Rfq_QUESTIONS = [Rfq_QUOTED, Rfq_EXPIRED, Rfq_DECLINED]"
| "RFQ_TRANSITIONS Rfq_QUOTED = [Rfq_SELECTED, Rfq_QUOTED, Rfq_EXPIRED, Rfq_DECLINED]"
| "RFQ_TRANSITIONS Rfq_EXPIRED = []"
| "RFQ_TRANSITIONS Rfq_DECLINED = []"
| "RFQ_TRANSITIONS Rfq_SELECTED = []"

definition assertValidRfqTransition :: "string \<Rightarrow> string \<Rightarrow> DomainTransitionError + unit" where
  "assertValidRfqTransition from to =
     (case (rfqStatus_of from, rfqStatus_of to) of
        (Some s, Some t) \<Rightarrow>
          if t \<notin> set (RFQ_TRANSITIONS s)
          then Inl (InvalidRfqTransitionError ''RFQ'' from to)
          else Inr ()
      | _ \<Rightarrow> Inl (InvalidRfqTransitionError ''RFQ'' from to))"

interpretation rfq: status_table RFQ_STATUSES rfqStatus_name RFQ_TRANSITIONS False
  "\<lambda>v w. InvalidRfqTransitionError ''RFQ'' v w" assertValidRfqTransition
proof unfold_locales
  show "s \<in> set RFQ_STATUSES" for s
    by (cases s) (simp_all add: RFQ_STATUSES_def)
  show "rfqStatus_name s = rfqStatus_name t \<Longrightarrow> s = t" for s t
    by (cases s; cases t) simp_all
qed (simp_all add: assertValidRfqTransition_def rfqStatus_of_def split: option.split)

section \<open>RFQ recipient\<close>

datatype RfqRecipientState =
    Rcp_INVITED
  | Rcp_ACKNOWLEDGED
  | Rcp_DECLINED
  | Rcp_QUOTED
  | Rcp_EXPIRED

definition RFQ_RECIPIENT_STATES :: "RfqRecipientState list" where
  "RFQ_RECIPIENT_STATES = [Rcp_INVITED, Rcp_ACKNOWLEDGED, Rcp_DECLINED, Rcp_QUOTED, Rcp_EXPIRED]"

fun rfqRecipientState_name :: "RfqRecipientState \<Rightarrow> string" where
  "rfqRecipientState_name Rcp_INVITED = ''INVITED''"
| "rfqRecipientState_name Rcp_ACKNOWLEDGED = ''ACKNOWLEDGED''"
| "rfqRecipientState_name Rcp_DECLINED = ''DECLINED''"
| "rfqRecipientState_name Rcp_QUOTED = ''QUOTED''"
| "rfqRecipientState_name Rcp_EXPIRED = ''EXPIRED''"

definition rfqRecipientState_of :: "string \<Rightarrow> RfqRecipientState option" where
  "rfqRecipientState_of = enum_of RFQ_RECIPIENT_STATES rfqRecipientState_name"

definition isRfqRecipientState :: "string \<Rightarrow> bool" where
  "isRfqRecipientState value = (rfqRecipientState_of value \<noteq> None)"

fun RFQ_RECIPIENT_TRANSITIONS :: "RfqRecipientState \<Rightarrow> RfqRecipientState list" where
  "RFQ_RECIPIENT_TRANSITIONS Rcp_INVITED = [Rcp_ACKNOWLEDGED, Rcp_DECLINED, Rcp_QUOTED, Rcp_EXPIRED]"
| "RFQ_RECIPIENT_TRANSITIONS Rcp_ACKNOWLEDGED = [Rcp_DECLINED, Rcp_QUOTED, Rcp_EXPIRED]"
| "RFQ_RECIPIENT_TRANSITIONS Rcp_DECLINED = []"
| "RFQ_RECIPIENT_TRANSITIONS Rcp_QUOTED = [Rcp_DECLINED, Rcp_EXPIRED]"
| "RFQ_RECIPIENT_TRANSITIONS Rcp_EXPIRED = []"

definition assertValidRfqRecipientTransition :: "string \<Rightarrow> string \<Rightarrow> DomainTransitionError + unit" where
  "assertValidRfqRecipientTransition from to =
     (case (rfqRecipientState_of from, rfqRecipientState_of to) of
        (Some s, Some t) \<Rightarrow>
          if s = t \<or> t \<notin> set (RFQ_RECIPIENT_TRANSITIONS s)
          then Inl (InvalidRfqTransitionError ''RFQRecipient'' from to)
          else Inr ()
      | _ \<Rightarrow> Inl (InvalidRfqTransitionError ''RFQRecipient'' from to))"

interpretation recipient: status_table RFQ_RECIPIENT_STATES rfqRecipientState_name RFQ_RECIPIENT_TRANSITIONS True
  "\<lambda>v w. InvalidRfqTransitionError ''RFQRecipient'' v w" assertValidRfqRecipientTransition
proof unfold_locales
  show "s \<in> set RFQ_RECIPIENT_STATES" for s
    by (cases s) (simp_all add: RFQ_RECIPIENT_STATES_def)
  show "rfqRecipientState_name s = rfqRecipientState_name t \<Longrightarrow> s = t" for s t
    by (cases s; cases t) simp_all
  show "True \<Longrightarrow> s \<notin> set (RFQ_RECIPIENT_TRANSITIONS s)" for s
    by (cases s) simp_all
qed (simp add: assertValidRfqRecipientTransition_def rfqRecipientState_of_def split: option.split)

section \<open>Quote\<close>

datatype QuoteStatus =
    Qt_SUBMITTED
  | Qt_SELECTED
  | Qt_REJECTED
  | Qt_EXPIRED
  | Qt_WITHDRAWN

definition QUOTE_STATUSES :: "QuoteStatus list" where
  "QUOTE_STATUSES = [Qt_SUBMITTED, Qt_SELECTED, Qt_REJECTED, Qt_EXPIRED, Qt_WITHDRAWN]"

fun quoteStatus_name :: "QuoteStatus \<Rightarrow> string" where
  "quoteStatus_name Qt_SUBMITTED = ''SUBMITTED''"
| "quoteStatus_name Qt_SELECTED = ''SELECTED''"
| "quoteStatus_name Qt_REJECTED = ''REJECTED''"
| "quoteStatus_name Qt_EXPIRED = ''EXPIRED''"
| "quoteStatus_name Qt_WITHDRAWN = ''WITHDRAWN''"

definition quoteStatus_of :: "string \<Rightarrow> QuoteStatus option" where
  "quoteStatus_of = enum_of QUOTE_STATUSES quoteStatus_name"

definition isQuoteStatus :: "string \<Rightarrow> bool" where
  "isQuoteStatus value = (quoteStatus_of value \<noteq> None)"

fun QUOTE_TRANSITIONS :: "QuoteStatus \<Rightarrow> QuoteStatus list" where
  "QUOTE_TRANSITIONS Qt_SUBMITTED = [Qt_SELECTED, Qt_REJECTED, Qt_EXPIRED, Qt_WITHDRAWN]"
| "QUOTE_TRANSITIONS Qt_SELECTED = []"
| "QUOTE_TRANSITIONS Qt_REJECTED = []"
| "QUOTE_TRANSITIONS Qt_EXPIRED = []"
| "QUOTE_TRANSITIONS Qt_WITHDRAWN = []"

definition assertValidQuoteTransition :: "string \<Rightarrow> string \<Rightarrow> DomainTransitionError + unit" where
  "assertValidQuoteTransition from to =
     (case (quoteStatus_of from, quoteStatus_of to) of
        (Some s, Some t) \<Rightarrow>
          if s = t \<or> t \<notin> set (QUOTE_TRANSITIONS s)
          then Inl (InvalidRfqTransitionError ''Quote'' from to)
          else Inr ()
      | _ \<Rightarrow> Inl (InvalidRfqTransitionError ''Quote'' from to))"

interpretation quote: status_table QUOTE_STATUSES quoteStatus_name QUOTE_TRANSITIONS True
  "\<lambda>v w. InvalidRfqTransitionError ''Quote'' v w" assertValidQuoteTransition
proof unfold_locales
  show "s \<in> set QUOTE_STATUSES" for s
    by (cases s) (simp_all add: QUOTE_STATUSES_def)
  show "quoteStatus_name s = quoteStatus_name t \<Longrightarrow> s = t" for s t
    by (cases s; cases t) simp_all
  show "True \<Longrightarrow> s \<notin> set (QUOTE_TRANSITIONS s)" for s
    by (cases s) simp_all
qed (simp add: assertValidQuoteTransition_def quoteStatus_of_def split: option.split)

section \<open>Properties\<close>

fun quote_rank :: "QuoteStatus \<Rightarrow> nat" where
  "quote_rank Qt_SUBMITTED = 1"
| "quote_rank _ = 0"

fun recipient_rank :: "RfqRecipientState \<Rightarrow> nat" where
  "recipient_rank Rcp_INVITED = 3"
| "recipient_rank Rcp_ACKNOWLEDGED = 2"
| "recipient_rank Rcp_QUOTED = 1"
| "recipient_rank _ = 0"

lemma quote_edges_decrease: "t \<in> set (QUOTE_TRANSITIONS s) \<Longrightarrow> quote_rank t < quote_rank s"
  by (cases s; cases t) simp_all

lemma recipient_edges_decrease:
  "t \<in> set (RFQ_RECIPIENT_TRANSITIONS s) \<Longrightarrow> recipient_rank t < recipient_rank s"
  by (cases s; cases t) simp_all

text \<open>A submitted quote is settled at most once and an invitation changes state at most three
  times, whatever is requested: a selected, rejected, expired or withdrawn quote can never be
  selected again.\<close>

theorem quote_settled_once:
  "accepted assertValidQuoteTransition ''SUBMITTED'' rs \<le> 1 \<and>
   accepted assertValidRfqRecipientTransition ''INVITED'' rs' \<le> 3"
  using quote.accepted_bound [of quote_rank Qt_SUBMITTED rs]
    recipient.accepted_bound [of recipient_rank Rcp_INVITED rs']
    quote_edges_decrease recipient_edges_decrease
  by simp

lemma rfq_closed_final:
  "s \<in> {Rfq_EXPIRED, Rfq_DECLINED, Rfq_SELECTED} \<Longrightarrow>
   lifecycle assertValidRfqTransition (rfqStatus_name s) rs = rfqStatus_name s"
  by (rule rfq.lifecycle_terminal) auto

end
