(* ===== verification/Deal_States.thy ===== *)
theory Deal_States
  imports Transition_Guard
begin

text \<open>
  \<open>packages/domain/src/deal-states.ts\<close>: the deal room, its conditions and the vocabulary of
  decisions.
\<close>

section \<open>Deal room\<close>

datatype DealRoomStatus =
    Deal_OPEN
  | Deal_CONDITIONS
  | Deal_APPROVED
  | Deal_DECLINED
  | Deal_ACTIVATION
  | Deal_LIVE
  | Deal_ARCHIVED

definition DEAL_ROOM_STATUSES :: "DealRoomStatus list" where
  "DEAL_ROOM_STATUSES = [Deal_OPEN, Deal_CONDITIONS, Deal_APPROVED, Deal_DECLINED, Deal_ACTIVATION, Deal_LIVE, Deal_ARCHIVED]"

fun dealRoomStatus_name :: "DealRoomStatus \<Rightarrow> string" where
  "dealRoomStatus_name Deal_OPEN = ''OPEN''"
| "dealRoomStatus_name Deal_CONDITIONS = ''CONDITIONS''"
| "dealRoomStatus_name Deal_APPROVED = ''APPROVED''"
| "dealRoomStatus_name Deal_DECLINED = ''DECLINED''"
| "dealRoomStatus_name Deal_ACTIVATION = ''ACTIVATION''"
| "dealRoomStatus_name Deal_LIVE = ''LIVE''"
| "dealRoomStatus_name Deal_ARCHIVED = ''ARCHIVED''"

definition dealRoomStatus_of :: "string \<Rightarrow> DealRoomStatus option" where
  "dealRoomStatus_of = enum_of DEAL_ROOM_STATUSES dealRoomStatus_name"

definition isDealRoomStatus :: "string \<Rightarrow> bool" where
  "isDealRoomStatus value = (dealRoomStatus_of value \<noteq> None)"

fun DEAL_ROOM_TRANSITIONS :: "DealRoomStatus \<Rightarrow> DealRoomStatus list" where
  "DEAL_ROOM_TRANSITIONS Deal_OPEN = [Deal_CONDITIONS, Deal_APPROVED, Deal_DECLINED]"
| "DEAL_ROOM_TRANSITIONS Deal_CONDITIONS = [Deal_APPROVED, Deal_DECLINED]"
| "DEAL_ROOM_TRANSITIONS Deal_APPROVED = [Deal_ACTIVATION, Deal_DECLINED]"
| "DEAL_ROOM_TRANSITIONS Deal_DECLINED = []"
| "DEAL_ROOM_TRANSITIONS Deal_ACTIVATION = [Deal_LIVE, Deal_DECLINED]"
| "DEAL_ROOM_TRANSITIONS Deal_LIVE = [Deal_ARCHIVED]"
| "DEAL_ROOM_TRANSITIONS Deal_ARCHIVED = []"

definition assertValidDealRoomTransition :: "string \<Rightarrow> string \<Rightarrow> DomainTransitionError + unit" where
  "assertValidDealRoomTransition from to =
     (case (dealRoomStatus_of from, dealRoomStatus_of to) of
        (Some s, Some t) \<Rightarrow>
          if s = t \<or> t \<notin> set (DEAL_ROOM_TRANSITIONS s)
          then Inl (InvalidDealTransitionError ''DealRoom'' from to)
          else Inr ()
      | _ \<Rightarrow> Inl (InvalidDealTransitionError ''DealRoom'' from to))"

interpretation deal_room: status_table DEAL_ROOM_STATUSES dealRoomStatus_name DEAL_ROOM_TRANSITIONS True
  "\<lambda>v w. InvalidDealTransitionError ''DealRoom'' v w" assertValidDealRoomTransition
proof unfold_locales
  show "s \<in> set DEAL_ROOM_STATUSES" for s
    by (cases s) (simp_all add: DEAL_ROOM_STATUSES_def)
  show "dealRoomStatus_name s = dealRoomStatus_name t \<Longrightarrow> s = t" for s t
    by (cases s; cases t) simp_all
  show "True \<Longrightarrow> s \<notin> set (DEAL_ROOM_TRANSITIONS s)" for s
    by (cases s) simp_all
qed (simp add: assertValidDealRoomTransition_def dealRoomStatus_of_def split: option.split)

section \<open>Conditions\<close>

datatype DealConditionState =
    Cond_PENDING
  | Cond_SATISFIED
  | Cond_WAIVED
  | Cond_REJECTED

definition DEAL_CONDITION_STATES :: "DealConditionState list" where
  "DEAL_CONDITION_STATES = [Cond_PENDING, Cond_SATISFIED, Cond_WAIVED, Cond_REJECTED]"

fun dealConditionState_name :: "DealConditionState \<Rightarrow> string" where
  "dealConditionState_name Cond_PENDING = ''PENDING''"
| "dealConditionState_name Cond_SATISFIED = ''SATISFIED''"
| "dealConditionState_name Cond_WAIVED = ''WAIVED''"
| "dealConditionState_name Cond_REJECTED = ''REJECTED''"

definition dealConditionState_of :: "string \<Rightarrow> DealConditionState option" where
  "dealConditionState_of = enum_of DEAL_CONDITION_STATES dealConditionState_name"

definition isDealConditionState :: "string \<Rightarrow> bool" where
  "isDealConditionState value = (dealConditionState_of value \<noteq> None)"

fun DEAL_CONDITION_TRANSITIONS :: "DealConditionState \<Rightarrow> DealConditionState list" where
  "DEAL_CONDITION_TRANSITIONS Cond_PENDING = [Cond_SATISFIED, Cond_WAIVED, Cond_REJECTED]"
| "DEAL_CONDITION_TRANSITIONS Cond_SATISFIED = []"
| "DEAL_CONDITION_TRANSITIONS Cond_WAIVED = []"
| "DEAL_CONDITION_TRANSITIONS Cond_REJECTED = [Cond_PENDING]"

definition assertValidDealConditionTransition :: "string \<Rightarrow> string \<Rightarrow> DomainTransitionError + unit" where
  "assertValidDealConditionTransition from to =
     (case (dealConditionState_of from, dealConditionState_of to) of
        (Some s, Some t) \<Rightarrow>
          if s = t \<or> t \<notin> set (DEAL_CONDITION_TRANSITIONS s)
          then Inl (InvalidDealTransitionError ''DealCondition'' from to)
          else Inr ()
      | _ \<Rightarrow> Inl (InvalidDealTransitionError ''DealCondition'' from to))"

interpretation deal_condition: status_table DEAL_CONDITION_STATES dealConditionState_name DEAL_CONDITION_TRANSITIONS True
  "\<lambda>v w. InvalidDealTransitionError ''DealCondition'' v w" assertValidDealConditionTransition
proof unfold_locales
  show "s \<in> set DEAL_CONDITION_STATES" for s
    by (cases s) (simp_all add: DEAL_CONDITION_STATES_def)
  show "dealConditionState_name s = dealConditionState_name t \<Longrightarrow> s = t" for s t
    by (cases s; cases t) simp_all
  show "True \<Longrightarrow> s \<notin> set (DEAL_CONDITION_TRANSITIONS s)" for s
    by (cases s) simp_all
qed (simp add: assertValidDealConditionTransition_def dealConditionState_of_def split: option.split)

section \<open>Decisions\<close>

datatype DealDecisionType =
    Dec_QUOTE_SELECTED
  | Dec_APPROVAL
  | Dec_DECLINE
  | Dec_EXCEPTION

definition DEAL_DECISION_TYPES :: "DealDecisionType list" where
  "DEAL_DECISION_TYPES = [Dec_QUOTE_SELECTED, Dec_APPROVAL, Dec_DECLINE, Dec_EXCEPTION]"

fun dealDecisionType_name :: "DealDecisionType \<Rightarrow> string" where
  "dealDecisionType_name Dec_QUOTE_SELECTED = ''QUOTE_SELECTED''"
| "dealDecisionType_name Dec_APPROVAL = ''APPROVAL''"
| "dealDecisionType_name Dec_DECLINE = ''DECLINE''"
| "dealDecisionType_name Dec_EXCEPTION = ''EXCEPTION''"

definition dealDecisionType_of :: "string \<Rightarrow> DealDecisionType option" where
  "dealDecisionType_of = enum_of DEAL_DECISION_TYPES dealDecisionType_name"

definition isDealDecisionType :: "string \<Rightarrow> bool" where
  "isDealDecisionType value = (dealDecisionType_of value \<noteq> None)"

section \<open>Properties\<close>

fun deal_rank :: "DealRoomStatus \<Rightarrow> nat" where
  "deal_rank Deal_OPEN = 5"
| "deal_rank Deal_CONDITIONS = 4"
| "deal_rank Deal_APPROVED = 3"
| "deal_rank Deal_ACTIVATION = 2"
| "deal_rank Deal_LIVE = 1"
| "deal_rank _ = 0"

lemma deal_edges_decrease: "t \<in> set (DEAL_ROOM_TRANSITIONS s) \<Longrightarrow> deal_rank t < deal_rank s"
  by (cases s; cases t) simp_all

lemma deal_room_progress: "accepted assertValidDealRoomTransition ''OPEN'' rs \<le> 5"
  using deal_room.accepted_bound [of deal_rank Deal_OPEN rs] deal_edges_decrease by simp

lemma deal_declined_final:
  "lifecycle assertValidDealRoomTransition ''DECLINED'' rs = ''DECLINED''"
  using deal_room.lifecycle_terminal [of Deal_DECLINED rs] by simp

lemma resolved_condition_final:
  "s \<in> {Cond_SATISFIED, Cond_WAIVED} \<Longrightarrow>
   lifecycle assertValidDealConditionTransition (dealConditionState_name s) rs =
     dealConditionState_name s"
  by (rule deal_condition.lifecycle_terminal) auto

end
