(* ===== verification/Claim_States.thy ===== *)
theory Claim_States
  imports Transition_Guard
begin

text \<open>
  \<open>packages/domain/src/claim-states.ts\<close>: the claim and dispute lifecycles, the closed
  vocabularies of decisions and the on-demand expiry test.
\<close>

section \<open>Scoring vocabularies\<close>

datatype DirectnessTier =
    Tier_D5
  | Tier_D4
  | Tier_D3
  | Tier_D2
  | Tier_D1
  | Tier_D0

definition DIRECTNESS_TIERS :: "DirectnessTier list" where
  "DIRECTNESS_TIERS =
     [Tier_D5, Tier_D4, Tier_D3, Tier_D2, Tier_D1, Tier_D0]"

fun directnessTier_name :: "DirectnessTier \<Rightarrow> string" where
  "directnessTier_name Tier_D5 = ''D5''"
| "directnessTier_name Tier_D4 = ''D4''"
| "directnessTier_name Tier_D3 = ''D3''"
| "directnessTier_name Tier_D2 = ''D2''"
| "directnessTier_name Tier_D1 = ''D1''"
| "directnessTier_name Tier_D0 = ''D0''"

definition directnessTier_of :: "string \<Rightarrow> DirectnessTier option" where
  "directnessTier_of = enum_of DIRECTNESS_TIERS directnessTier_name"

definition isDirectnessTier :: "string \<Rightarrow> bool" where
  "isDirectnessTier value = (directnessTier_of value \<noteq> None)"

datatype ClaimEvidenceType =
    Ev_CONTRACT
  | Ev_COUNTERPARTY_ACKNOWLEDGMENT
  | Ev_EMAIL_THREAD
  | Ev_CRM_RECORD
  | Ev_OTHER

definition CLAIM_EVIDENCE_TYPES :: "ClaimEvidenceType list" where
  "CLAIM_EVIDENCE_TYPES =
     [Ev_CONTRACT, Ev_COUNTERPARTY_ACKNOWLEDGMENT, Ev_EMAIL_THREAD, Ev_CRM_RECORD, Ev_OTHER]"

fun claimEvidenceType_name :: "ClaimEvidenceType \<Rightarrow> string" where
  "claimEvidenceType_name Ev_CONTRACT = ''CONTRACT''"
| "claimEvidenceType_name Ev_COUNTERPARTY_ACKNOWLEDGMENT = ''COUNTERPARTY_ACKNOWLEDGMENT''"
| "claimEvidenceType_name Ev_EMAIL_THREAD = ''EMAIL_THREAD''"
| "claimEvidenceType_name Ev_CRM_RECORD = ''CRM_RECORD''"
| "claimEvidenceType_name Ev_OTHER = ''OTHER''"

definition claimEvidenceType_of :: "string \<Rightarrow> ClaimEvidenceType option" where
  "claimEvidenceType_of = enum_of CLAIM_EVIDENCE_TYPES claimEvidenceType_name"

definition isClaimEvidenceType :: "string \<Rightarrow> bool" where
  "isClaimEvidenceType value = (claimEvidenceType_of value \<noteq> None)"

datatype EvidenceVerificationState =
    Vs_SELF_REPORTED
  | Vs_DOCUMENT_EXTRACTED
  | Vs_API_VERIFIED
  | Vs_COUNTERPARTY_CONFIRMED
  | Vs_OPERATOR_VERIFIED

definition EVIDENCE_VERIFICATION_STATES :: "EvidenceVerificationState list" where
  "EVIDENCE_VERIFICATION_STATES =
     [Vs_SELF_REPORTED, Vs_DOCUMENT_EXTRACTED, Vs_API_VERIFIED, Vs_COUNTERPARTY_CONFIRMED, Vs_OPERATOR_VERIFIED]"

fun evidenceVerificationState_name :: "EvidenceVerificationState \<Rightarrow> string" where
  "evidenceVerificationState_name Vs_SELF_REPORTED = ''SELF_REPORTED''"
| "evidenceVerificationState_name Vs_DOCUMENT_EXTRACTED = ''DOCUMENT_EXTRACTED''"
| "evidenceVerificationState_name Vs_API_VERIFIED = ''API_VERIFIED''"
| "evidenceVerificationState_name Vs_COUNTERPARTY_CONFIRMED = ''COUNTERPARTY_CONFIRMED''"
| "evidenceVerificationState_name Vs_OPERATOR_VERIFIED = ''OPERATOR_VERIFIED''"

definition evidenceVerificationState_of :: "string \<Rightarrow> EvidenceVerificationState option" where
  "evidenceVerificationState_of = enum_of EVIDENCE_VERIFICATION_STATES evidenceVerificationState_name"

definition isEvidenceVerificationState :: "string \<Rightarrow> bool" where
  "isEvidenceVerificationState value = (evidenceVerificationState_of value \<noteq> None)"

section \<open>Claim\<close>

datatype ClaimStatus =
    Clm_FILED
  | Clm_SCORED
  | Clm_VERIFIED
  | Clm_PARTIAL
  | Clm_DISPUTED
  | Clm_REJECTED
  | Clm_EXPIRED
  | Clm_WITHDRAWN

definition CLAIM_STATUSES :: "ClaimStatus list" where
  "CLAIM_STATUSES = [Clm_FILED, Clm_SCORED, Clm_VERIFIED, Clm_PARTIAL, Clm_DISPUTED, Clm_REJECTED, Clm_EXPIRED, Clm_WITHDRAWN]"

fun claimStatus_name :: "ClaimStatus \<Rightarrow> string" where
  "claimStatus_name Clm_FILED = ''FILED''"
| "claimStatus_name Clm_SCORED = ''SCORED''"
| "claimStatus_name Clm_VERIFIED = ''VERIFIED''"
| "claimStatus_name Clm_PARTIAL = ''PARTIAL''"
| "claimStatus_name Clm_DISPUTED = ''DISPUTED''"
| "claimStatus_name Clm_REJECTED = ''REJECTED''"
| "claimStatus_name Clm_EXPIRED = ''EXPIRED''"
| "claimStatus_name Clm_WITHDRAWN = ''WITHDRAWN''"

definition claimStatus_of :: "string \<Rightarrow> ClaimStatus option" where
  "claimStatus_of = enum_of CLAIM_STATUSES claimStatus_name"

definition isClaimStatus :: "string \<Rightarrow> bool" where
  "isClaimStatus value = (claimStatus_of value \<noteq> None)"

fun CLAIM_TRANSITIONS :: "ClaimStatus \<Rightarrow> ClaimStatus list" where
  "CLAIM_TRANSITIONS Clm_FILED = [Clm_SCORED, Clm_WITHDRAWN]"
| "CLAIM_TRANSITIONS Clm_SCORED = [Clm_VERIFIED, Clm_PARTIAL, Clm_REJECTED, Clm_DISPUTED, Clm_EXPIRED, Clm_WITHDRAWN]"
| "CLAIM_TRANSITIONS Clm_VERIFIED = [Clm_DISPUTED]"
| "CLAIM_TRANSITIONS Clm_PARTIAL = [Clm_DISPUTED]"
| "CLAIM_TRANSITIONS Clm_DISPUTED = [Clm_VERIFIED, Clm_PARTIAL, Clm_REJECTED]"
| "CLAIM_TRANSITIONS Clm_REJECTED = []"
| "CLAIM_TRANSITIONS Clm_EXPIRED = []"
| "CLAIM_TRANSITIONS Clm_WITHDRAWN = []"

definition assertValidClaimTransition :: "string \<Rightarrow> string \<Rightarrow> DomainTransitionError + unit" where
  "assertValidClaimTransition from to =
     (case (claimStatus_of from, claimStatus_of to) of
        (Some s, Some t) \<Rightarrow>
          if s = t \<or> t \<notin> set (CLAIM_TRANSITIONS s)
          then Inl (InvalidClaimTransitionError ''Claim'' from to)
          else Inr ()
      | _ \<Rightarrow> Inl (InvalidClaimTransitionError ''Claim'' from to))"

interpretation claim_st: status_table CLAIM_STATUSES claimStatus_name CLAIM_TRANSITIONS True
  "\<lambda>v w. InvalidClaimTransitionError ''Claim'' v w" assertValidClaimTransition
proof unfold_locales
  show "s \<in> set CLAIM_STATUSES" for s
    by (cases s) (simp_all add: CLAIM_STATUSES_def)
  show "claimStatus_name s = claimStatus_name t \<Longrightarrow> s = t" for s t
    by (cases s; cases t) simp_all
  show "True \<Longrightarrow> s \<notin> set (CLAIM_TRANSITIONS s)" for s
    by (cases s) simp_all
qed (simp add: assertValidClaimTransition_def claimStatus_of_def split: option.split)

section \<open>Dispute\<close>

datatype ClaimDisputeStatus =
    Dsp_OPEN
  | Dsp_DECIDED

definition CLAIM_DISPUTE_STATUSES :: "ClaimDisputeStatus list" where
  "CLAIM_DISPUTE_STATUSES = [Dsp_OPEN, Dsp_DECIDED]"

fun claimDisputeStatus_name :: "ClaimDisputeStatus \<Rightarrow> string" where
  "claimDisputeStatus_name Dsp_OPEN = ''OPEN''"
| "claimDisputeStatus_name Dsp_DECIDED = ''DECIDED''"

definition claimDisputeStatus_of :: "string \<Rightarrow> ClaimDisputeStatus option" where
  "claimDisputeStatus_of = enum_of CLAIM_DISPUTE_STATUSES claimDisputeStatus_name"

definition isClaimDisputeStatus :: "string \<Rightarrow> bool" where
  "isClaimDisputeStatus value = (claimDisputeStatus_of value \<noteq> None)"

fun CLAIM_DISPUTE_TRANSITIONS :: "ClaimDisputeStatus \<Rightarrow> ClaimDisputeStatus list" where
  "CLAIM_DISPUTE_TRANSITIONS Dsp_OPEN = [Dsp_DECIDED]"
| "CLAIM_DISPUTE_TRANSITIONS Dsp_DECIDED = []"

definition assertValidClaimDisputeTransition :: "string \<Rightarrow> string \<Rightarrow> DomainTransitionError + unit" where
  "assertValidClaimDisputeTransition from to =
     (case (claimDisputeStatus_of from, claimDisputeStatus_of to) of
        (Some s, Some t) \<Rightarrow>
          if s = t \<or> t \<notin> set (CLAIM_DISPUTE_TRANSITIONS s)
          then Inl (InvalidClaimTransitionError ''ClaimDispute'' from to)
          else Inr ()
      | _ \<Rightarrow> Inl (InvalidClaimTransitionError ''ClaimDispute'' from to))"

interpretation dispute_st: status_table CLAIM_DISPUTE_STATUSES claimDisputeStatus_name CLAIM_DISPUTE_TRANSITIONS True
  "\<lambda>v w. InvalidClaimTransitionError ''ClaimDispute'' v w" assertValidClaimDisputeTransition
proof unfold_locales
  show "s \<in> set CLAIM_DISPUTE_STATUSES" for s
    by (cases s) (simp_all add: CLAIM_DISPUTE_STATUSES_def)
  show "claimDisputeStatus_name s = claimDisputeStatus_name t \<Longrightarrow> s = t" for s t
    by (cases s; cases t) simp_all
  show "True \<Longrightarrow> s \<notin> set (CLAIM_DISPUTE_TRANSITIONS s)" for s
    by (cases s) simp_all
qed (simp add: assertValidClaimDisputeTransition_def claimDisputeStatus_of_def split: option.split)

section \<open>Decision vocabularies\<close>

datatype ClaimDisputeResolution =
    Res_UPHELD_ORIGINAL
  | Res_PARTIAL_ATTRIBUTION
  | Res_REJECTED_ORIGINAL

definition CLAIM_DISPUTE_RESOLUTIONS :: "ClaimDisputeResolution list" where
  "CLAIM_DISPUTE_RESOLUTIONS = [Res_UPHELD_ORIGINAL, Res_PARTIAL_ATTRIBUTION, Res_REJECTED_ORIGINAL]"

fun claimDisputeResolution_name :: "ClaimDisputeResolution \<Rightarrow> string" where
  "claimDisputeResolution_name Res_UPHELD_ORIGINAL = ''UPHELD_ORIGINAL''"
| "claimDisputeResolution_name Res_PARTIAL_ATTRIBUTION = ''PARTIAL_ATTRIBUTION''"
| "claimDisputeResolution_name Res_REJECTED_ORIGINAL = ''REJECTED_ORIGINAL''"

definition claimDisputeResolution_of :: "string \<Rightarrow> ClaimDisputeResolution option" where
  "claimDisputeResolution_of = enum_of CLAIM_DISPUTE_RESOLUTIONS claimDisputeResolution_name"

definition isClaimDisputeResolution :: "string \<Rightarrow> bool" where
  "isClaimDisputeResolution value = (claimDisputeResolution_of value \<noteq> None)"

datatype ClaimDecisionOutcome =
    Out_VERIFIED
  | Out_PARTIAL
  | Out_REJECTED

definition CLAIM_DECISION_OUTCOMES :: "ClaimDecisionOutcome list" where
  "CLAIM_DECISION_OUTCOMES = [Out_VERIFIED, Out_PARTIAL, Out_REJECTED]"

fun claimDecisionOutcome_name :: "ClaimDecisionOutcome \<Rightarrow> string" where
  "claimDecisionOutcome_name Out_VERIFIED = ''VERIFIED''"
| "claimDecisionOutcome_name Out_PARTIAL = ''PARTIAL''"
| "claimDecisionOutcome_name Out_REJECTED = ''REJECTED''"

definition claimDecisionOutcome_of :: "string \<Rightarrow> ClaimDecisionOutcome option" where
  "claimDecisionOutcome_of = enum_of CLAIM_DECISION_OUTCOMES claimDecisionOutcome_name"

definition isClaimDecisionOutcome :: "string \<Rightarrow> bool" where
  "isClaimDecisionOutcome value = (claimDecisionOutcome_of value \<noteq> None)"

datatype ClaimAppealStatus =
    App_NONE
  | App_PENDING
  | App_GRANTED
  | App_DENIED

definition CLAIM_APPEAL_STATUSES :: "ClaimAppealStatus list" where
  "CLAIM_APPEAL_STATUSES = [App_NONE, App_PENDING, App_GRANTED, App_DENIED]"

fun claimAppealStatus_name :: "ClaimAppealStatus \<Rightarrow> string" where
  "claimAppealStatus_name App_NONE = ''NONE''"
| "claimAppealStatus_name App_PENDING = ''PENDING''"
| "claimAppealStatus_name App_GRANTED = ''GRANTED''"
| "claimAppealStatus_name App_DENIED = ''DENIED''"

definition claimAppealStatus_of :: "string \<Rightarrow> ClaimAppealStatus option" where
  "claimAppealStatus_of = enum_of CLAIM_APPEAL_STATUSES claimAppealStatus_name"

definition isClaimAppealStatus :: "string \<Rightarrow> bool" where
  "isClaimAppealStatus value = (claimAppealStatus_of value \<noteq> None)"

section \<open>Provisional expiry\<close>

text \<open>Instants are milliseconds since the epoch (\<open>Date.getTime()\<close>).\<close>

definition isClaimProvisionalExpired :: "ClaimStatus \<Rightarrow> int option \<Rightarrow> int \<Rightarrow> bool" where
  "isClaimProvisionalExpired status provisionalExpiresAt now =
     (if status \<noteq> Clm_SCORED then False
      else case provisionalExpiresAt of None \<Rightarrow> False | Some expires \<Rightarrow> now > expires)"

section \<open>Properties\<close>

text \<open>A claim that a reviewer has decided or that is disputed never expires and is never
  withdrawn: every run of requested transitions from \<open>VERIFIED\<close>, \<open>PARTIAL\<close> or
  \<open>DISPUTED\<close> stays within the decided and disputed statuses.\<close>

theorem decided_claim_stays_decided:
  "s \<in> {Clm_VERIFIED, Clm_PARTIAL, Clm_DISPUTED} \<Longrightarrow>
   lifecycle assertValidClaimTransition (claimStatus_name s) rs \<in>
     {''VERIFIED'', ''PARTIAL'', ''DISPUTED'', ''REJECTED''}"
proof -
  assume s: "s \<in> {Clm_VERIFIED, Clm_PARTIAL, Clm_DISPUTED}"
  let ?S = "{Clm_VERIFIED, Clm_PARTIAL, Clm_DISPUTED, Clm_REJECTED}"
  have "\<exists>t \<in> ?S. lifecycle assertValidClaimTransition (claimStatus_name s) rs = claimStatus_name t"
    by (rule claim_st.lifecycle_invariant) (use s in auto)
  then show ?thesis by auto
qed

theorem decided_claim_stays_decided_witness:
  "lifecycle assertValidClaimTransition ''VERIFIED'' [''EXPIRED'', ''DISPUTED'', ''REJECTED''] \<in>
     {''VERIFIED'', ''PARTIAL'', ''DISPUTED'', ''REJECTED''}"
  using decided_claim_stays_decided [of Clm_VERIFIED "[''EXPIRED'', ''DISPUTED'', ''REJECTED'']"]
  by simp

lemma provisional_expiry_only_scored:
  "isClaimProvisionalExpired s expires now \<Longrightarrow>
   assertValidClaimTransition (claimStatus_name s) ''EXPIRED'' = Inr ()"
  using claim_st.guard_accepts [of s Clm_EXPIRED]
  by (auto simp: isClaimProvisionalExpired_def split: if_splits)

end
