(* ===== verification/Lockbox_States.thy ===== *)
theory Lockbox_States
  imports Transition_Guard
begin

text \<open>
  \<open>packages/domain/src/lockbox-states.ts\<close>: the lockbox lifecycle, the release cascade and the
  withdrawal test.
\<close>

section \<open>Lockbox\<close>

datatype LockboxStatus =
    Lbx_DRAFT
  | Lbx_SEALED
  | Lbx_COMMITTED
  | Lbx_FROZEN
  | Lbx_OPENED
  | Lbx_MATCH_ELIGIBLE
  | Lbx_WITHDRAWN
  | Lbx_DISPUTED

definition LOCKBOX_STATUSES :: "LockboxStatus list" where
  "LOCKBOX_STATUSES = [Lbx_DRAFT, Lbx_SEALED, Lbx_COMMITTED, Lbx_FROZEN, Lbx_OPENED, Lbx_MATCH_ELIGIBLE, Lbx_WITHDRAWN, Lbx_DISPUTED]"

fun lockboxStatus_name :: "LockboxStatus \<Rightarrow> string" where
  "lockboxStatus_name Lbx_DRAFT = ''DRAFT''"
| "lockboxStatus_name Lbx_SEALED = ''SEALED''"
| "lockboxStatus_name Lbx_COMMITTED = ''COMMITTED''"
| "lockboxStatus_name Lbx_FROZEN = ''FROZEN''"
| "lockboxStatus_name Lbx_OPENED = ''OPENED''"
| "lockboxStatus_name Lbx_MATCH_ELIGIBLE = ''MATCH_ELIGIBLE''"
| "lockboxStatus_name Lbx_WITHDRAWN = ''WITHDRAWN''"
| "lockboxStatus_name Lbx_DISPUTED = ''DISPUTED''"

definition lockboxStatus_of :: "string \<Rightarrow> LockboxStatus option" where
  "lockboxStatus_of = enum_of LOCKBOX_STATUSES lockboxStatus_name"

definition isLockboxStatus :: "string \<Rightarrow> bool" where
  "isLockboxStatus value = (lockboxStatus_of value \<noteq> None)"

fun LOCKBOX_TRANSITIONS :: "LockboxStatus \<Rightarrow> LockboxStatus list" where
  "LOCKBOX_TRANSITIONS Lbx_DRAFT = [Lbx_SEALED]"
| "LOCKBOX_TRANSITIONS Lbx_SEALED = [Lbx_COMMITTED, Lbx_WITHDRAWN]"
| "LOCKBOX_TRANSITIONS Lbx_COMMITTED = [Lbx_FROZEN, Lbx_WITHDRAWN, Lbx_DISPUTED]"
| "LOCKBOX_TRANSITIONS Lbx_FROZEN = [Lbx_OPENED, Lbx_DISPUTED]"
| "LOCKBOX_TRANSITIONS Lbx_OPENED = [Lbx_MATCH_ELIGIBLE, Lbx_DISPUTED]"
| "LOCKBOX_TRANSITIONS Lbx_MATCH_ELIGIBLE = [Lbx_WITHDRAWN, Lbx_DISPUTED]"
| "LOCKBOX_TRANSITIONS Lbx_WITHDRAWN = []"
| "LOCKBOX_TRANSITIONS Lbx_DISPUTED = [Lbx_FROZEN, Lbx_WITHDRAWN]"

definition assertValidLockboxTransition :: "string \<Rightarrow> string \<Rightarrow> DomainTransitionError + unit" where
  "assertValidLockboxTransition from to =
     (case (lockboxStatus_of from, lockboxStatus_of to) of
        (Some s, Some t) \<Rightarrow>
          if s = t \<or> t \<notin> set (LOCKBOX_TRANSITIONS s)
          then Inl (InvalidLockboxTransitionError ''Lockbox'' from to)
          else Inr ()
      | _ \<Rightarrow> Inl (InvalidLockboxTransitionError ''Lockbox'' from to))"

interpretation lockbox_st: status_table LOCKBOX_STATUSES lockboxStatus_name LOCKBOX_TRANSITIONS True
  "\<lambda>v w. InvalidLockboxTransitionError ''Lockbox'' v w" assertValidLockboxTransition
proof unfold_locales
  show "s \<in> set LOCKBOX_STATUSES" for s
    by (cases s) (simp_all add: LOCKBOX_STATUSES_def)
  show "lockboxStatus_name s = lockboxStatus_name t \<Longrightarrow> s = t" for s t
    by (cases s; cases t) simp_all
  show "True \<Longrightarrow> s \<notin> set (LOCKBOX_TRANSITIONS s)" for s
    by (cases s) simp_all
qed (simp add: assertValidLockboxTransition_def lockboxStatus_of_def split: option.split)

section \<open>Release cascade\<close>

definition LOCKBOX_RELEASE_CASCADE :: "LockboxStatus list" where
  "LOCKBOX_RELEASE_CASCADE = [Lbx_SEALED, Lbx_COMMITTED, Lbx_FROZEN, Lbx_OPENED]"

text \<open>The loop \<open>for (let i = startIdx; i < length - 1; i++)\<close> walks neighbouring pairs.\<close>

fun cascade_hops :: "LockboxStatus list \<Rightarrow> DomainTransitionError + unit" where
  "cascade_hops (s # t # rest) =
     ebind (assertValidLockboxTransition (lockboxStatus_name s) (lockboxStatus_name t))
       (\<lambda>_. cascade_hops (t # rest))"
| "cascade_hops _ = Inr ()"

definition assertValidLockboxReleaseCascade :: "LockboxStatus \<Rightarrow> DomainTransitionError + unit" where
  "assertValidLockboxReleaseCascade currentStatus =
     (case index_of LOCKBOX_RELEASE_CASCADE currentStatus of
        None \<Rightarrow> Inl (InvalidLockboxTransitionError ''Lockbox'' (lockboxStatus_name currentStatus)
                  ''OPENED (via release cascade)'')
      | Some startIdx \<Rightarrow>
          if startIdx = length LOCKBOX_RELEASE_CASCADE - 1
          then Inl (InvalidLockboxTransitionError ''Lockbox'' (lockboxStatus_name currentStatus)
                  ''OPENED (already released - nothing to do)'')
          else cascade_hops (drop startIdx LOCKBOX_RELEASE_CASCADE))"

definition canWithdrawFrom :: "LockboxStatus \<Rightarrow> bool" where
  "canWithdrawFrom status = (Lbx_WITHDRAWN \<in> set (LOCKBOX_TRANSITIONS status))"

section \<open>Vocabularies\<close>

datatype LockboxRelationshipType =
    Rel_ACQUIRER_RELATIONSHIP
  | Rel_PROCESSOR_RELATIONSHIP
  | Rel_PSP_RELATIONSHIP
  | Rel_MERCHANT_RELATIONSHIP
  | Rel_BANKING_RELATIONSHIP
  | Rel_INFRASTRUCTURE_RELATIONSHIP
  | Rel_QUALIFIED_OPPORTUNITY

definition LOCKBOX_RELATIONSHIP_TYPES :: "LockboxRelationshipType list" where
  "LOCKBOX_RELATIONSHIP_TYPES = [Rel_ACQUIRER_RELATIONSHIP, Rel_PROCESSOR_RELATIONSHIP, Rel_PSP_RELATIONSHIP, Rel_MERCHANT_RELATIONSHIP, Rel_BANKING_RELATIONSHIP, Rel_INFRASTRUCTURE_RELATIONSHIP, Rel_QUALIFIED_OPPORTUNITY]"

fun lockboxRelationshipType_name :: "LockboxRelationshipType \<Rightarrow> string" where
  "lockboxRelationshipType_name Rel_ACQUIRER_RELATIONSHIP = ''ACQUIRER_RELATIONSHIP''"
| "lockboxRelationshipType_name Rel_PROCESSOR_RELATIONSHIP = ''PROCESSOR_RELATIONSHIP''"
| "lockboxRelationshipType_name Rel_PSP_RELATIONSHIP = ''PSP_RELATIONSHIP''"
| "lockboxRelationshipType_name Rel_MERCHANT_RELATIONSHIP = ''MERCHANT_RELATIONSHIP''"
| "lockboxRelationshipType_name Rel_BANKING_RELATIONSHIP = ''BANKING_RELATIONSHIP''"
| "lockboxRelationshipType_name Rel_INFRASTRUCTURE_RELATIONSHIP = ''INFRASTRUCTURE_RELATIONSHIP''"
| "lockboxRelationshipType_name Rel_QUALIFIED_OPPORTUNITY = ''QUALIFIED_OPPORTUNITY''"

definition lockboxRelationshipType_of :: "string \<Rightarrow> LockboxRelationshipType option" where
  "lockboxRelationshipType_of = enum_of LOCKBOX_RELATIONSHIP_TYPES lockboxRelationshipType_name"

definition isLockboxRelationshipType :: "string \<Rightarrow> bool" where
  "isLockboxRelationshipType value = (lockboxRelationshipType_of value \<noteq> None)"

datatype LockboxRegion =
    Reg_EU
  | Reg_UK
  | Reg_US
  | Reg_LATAM
  | Reg_APAC
  | Reg_MENA
  | Reg_GLOBAL

definition LOCKBOX_REGIONS :: "LockboxRegion list" where
  "LOCKBOX_REGIONS = [Reg_EU, Reg_UK, Reg_US, Reg_LATAM, Reg_APAC, Reg_MENA, Reg_GLOBAL]"

fun lockboxRegion_name :: "LockboxRegion \<Rightarrow> string" where
  "lockboxRegion_name Reg_EU = ''EU''"
| "lockboxRegion_name Reg_UK = ''UK''"
| "lockboxRegion_name Reg_US = ''US''"
| "lockboxRegion_name Reg_LATAM = ''LATAM''"
| "lockboxRegion_name Reg_APAC = ''APAC''"
| "lockboxRegion_name Reg_MENA = ''MENA''"
| "lockboxRegion_name Reg_GLOBAL = ''GLOBAL''"

definition lockboxRegion_of :: "string \<Rightarrow> LockboxRegion option" where
  "lockboxRegion_of = enum_of LOCKBOX_REGIONS lockboxRegion_name"

definition isLockboxRegion :: "string \<Rightarrow> bool" where
  "isLockboxRegion value = (lockboxRegion_of value \<noteq> None)"

datatype LockboxShareRole =
    Shr_SEALER
  | Shr_OPERATOR
  | Shr_ESCROW

definition LOCKBOX_SHARE_ROLES :: "LockboxShareRole list" where
  "LOCKBOX_SHARE_ROLES =
     [Shr_SEALER, Shr_OPERATOR, Shr_ESCROW]"

fun lockboxShareRole_name :: "LockboxShareRole \<Rightarrow> string" where
  "lockboxShareRole_name Shr_SEALER = ''SEALER''"
| "lockboxShareRole_name Shr_OPERATOR = ''OPERATOR''"
| "lockboxShareRole_name Shr_ESCROW = ''ESCROW''"

definition lockboxShareRole_of :: "string \<Rightarrow> LockboxShareRole option" where
  "lockboxShareRole_of = enum_of LOCKBOX_SHARE_ROLES lockboxShareRole_name"

definition isLockboxShareRole :: "string \<Rightarrow> bool" where
  "isLockboxShareRole value = (lockboxShareRole_of value \<noteq> None)"

section \<open>Properties\<close>

lemma cascade_edges:
  "assertValidLockboxTransition ''SEALED'' ''COMMITTED'' = Inr ()"
  "assertValidLockboxTransition ''COMMITTED'' ''FROZEN'' = Inr ()"
  "assertValidLockboxTransition ''FROZEN'' ''OPENED'' = Inr ()"
  using lockbox_st.guard_accepts [of Lbx_SEALED Lbx_COMMITTED]
    lockbox_st.guard_accepts [of Lbx_COMMITTED Lbx_FROZEN]
    lockbox_st.guard_accepts [of Lbx_FROZEN Lbx_OPENED]
  by simp_all

text \<open>\<open>assertValidLockboxReleaseCascade\<close> accepts exactly the statuses from which a release can
  start (sealed, committed, frozen); every other status, withdrawn, disputed and already opened
  included, is refused, so the documented shortcut never skips an illegal edge.\<close>

theorem release_cascade_accepts:
  "assertValidLockboxReleaseCascade s = Inr () \<longleftrightarrow> s \<in> {Lbx_SEALED, Lbx_COMMITTED, Lbx_FROZEN}"
  by (cases s)
    (simp_all add: assertValidLockboxReleaseCascade_def LOCKBOX_RELEASE_CASCADE_def cascade_edges)

lemma lockbox_withdrawn_stays: "lifecycle assertValidLockboxTransition ''WITHDRAWN'' rs = ''WITHDRAWN''"
  using lockbox_st.lifecycle_terminal [of Lbx_WITHDRAWN rs] by simp

lemma canWithdrawFrom_guard:
  "canWithdrawFrom s \<longleftrightarrow> assertValidLockboxTransition (lockboxStatus_name s) ''WITHDRAWN'' = Inr ()"
  using lockbox_st.guard_accepts [of s Lbx_WITHDRAWN] by (simp add: canWithdrawFrom_def)

text \<open>Withdrawal is final for a sealed payload: from \<open>WITHDRAWN\<close> no sequence of requested
  transitions ever changes the status, and the release cascade refuses it. Withdrawal itself is
  possible exactly where the guard has an edge to \<open>WITHDRAWN\<close>, which excludes \<open>FROZEN\<close>.\<close>

theorem lockbox_withdrawal_final:
  "lifecycle assertValidLockboxTransition ''WITHDRAWN'' rs = ''WITHDRAWN'' \<and>
   assertValidLockboxReleaseCascade Lbx_WITHDRAWN \<noteq> Inr () \<and>
   (canWithdrawFrom s \<longleftrightarrow> assertValidLockboxTransition (lockboxStatus_name s) ''WITHDRAWN'' = Inr ()) \<and>
   (canWithdrawFrom s \<longleftrightarrow> s \<in> {Lbx_SEALED, Lbx_COMMITTED, Lbx_MATCH_ELIGIBLE, Lbx_DISPUTED})"
proof -
  have "canWithdrawFrom s \<longleftrightarrow> s \<in> {Lbx_SEALED, Lbx_COMMITTED, Lbx_MATCH_ELIGIBLE, Lbx_DISPUTED}"
    by (cases s) (simp_all add: canWithdrawFrom_def)
  moreover have "assertValidLockboxReleaseCascade Lbx_WITHDRAWN \<noteq> Inr ()"
    by (simp add: assertValidLockboxReleaseCascade_def LOCKBOX_RELEASE_CASCADE_def)
  ultimately show ?thesis
    using lockbox_withdrawn_stays canWithdrawFrom_guard by blast
qed

end
