(* ===== verification/Passport_States.thy ===== *)
theory Passport_States
  imports Transition_Guard
begin

text \<open>
  \<open>packages/domain/src/passport-states.ts\<close>: the passport lifecycle, the staleness test and the
  status a readiness recompute moves to.
\<close>

section \<open>Passport\<close>

datatype PassportStatus =
    Psp_DRAFT
  | Psp_INCOMPLETE
  | Psp_READY
  | Psp_VERIFIED
  | Psp_STALE
  | Psp_SUSPENDED

definition PASSPORT_STATUSES :: "PassportStatus list" where
  "PASSPORT_STATUSES = [Psp_DRAFT, Psp_INCOMPLETE, Psp_READY, Psp_VERIFIED, Psp_STALE, Psp_SUSPENDED]"

fun passportStatus_name :: "PassportStatus \<Rightarrow> string" where
  "passportStatus_name Psp_DRAFT = ''DRAFT''"
| "passportStatus_name Psp_INCOMPLETE = ''INCOMPLETE''"
| "passportStatus_name Psp_READY = ''READY''"
| "passportStatus_name Psp_VERIFIED = ''VERIFIED''"
| "passportStatus_name Psp_STALE = ''STALE''"
| "passportStatus_name Psp_SUSPENDED = ''SUSPENDED''"

definition passportStatus_of :: "string \<Rightarrow> PassportStatus option" where
  "passportStatus_of = enum_of PASSPORT_STATUSES passportStatus_name"

definition isPassportStatus :: "string \<Rightarrow> bool" where
  "isPassportStatus value = (passportStatus_of value \<noteq> None)"

fun PASSPORT_TRANSITIONS :: "PassportStatus \<Rightarrow> PassportStatus list" where
  "PASSPORT_TRANSITIONS Psp_DRAFT = [Psp_INCOMPLETE, Psp_READY, Psp_SUSPENDED]"
| "PASSPORT_TRANSITIONS Psp_INCOMPLETE = [Psp_READY, Psp_SUSPENDED]"
| "PASSPORT_TRANSITIONS Psp_READY = [Psp_INCOMPLETE, Psp_VERIFIED, Psp_STALE, Psp_SUSPENDED]"
| "PASSPORT_TRANSITIONS Psp_VERIFIED = [Psp_INCOMPLETE, Psp_READY, Psp_STALE, Psp_SUSPENDED]"
| "PASSPORT_TRANSITIONS Psp_STALE = [Psp_INCOMPLETE, Psp_READY, Psp_VERIFIED, Psp_SUSPENDED]"
| "PASSPORT_TRANSITIONS Psp_SUSPENDED = [Psp_INCOMPLETE]"

definition assertValidPassportTransition :: "string \<Rightarrow> string \<Rightarrow> DomainTransitionError + unit" where
  "assertValidPassportTransition from to =
     (case (passportStatus_of from, passportStatus_of to) of
        (Some s, Some t) \<Rightarrow>
          if s = t \<or> t \<notin> set (PASSPORT_TRANSITIONS s)
          then Inl (InvalidPassportTransitionError from to)
          else Inr ()
      | _ \<Rightarrow> Inl (InvalidPassportTransitionError from to))"

interpretation passport_st: status_table PASSPORT_STATUSES passportStatus_name PASSPORT_TRANSITIONS True
  "\<lambda>v w. InvalidPassportTransitionError v w" assertValidPassportTransition
proof unfold_locales
  show "s \<in> set PASSPORT_STATUSES" for s
    by (cases s) (simp_all add: PASSPORT_STATUSES_def)
  show "passportStatus_name s = passportStatus_name t \<Longrightarrow> s = t" for s t
    by (cases s; cases t) simp_all
  show "True \<Longrightarrow> s \<notin> set (PASSPORT_TRANSITIONS s)" for s
    by (cases s) simp_all
qed (simp add: assertValidPassportTransition_def passportStatus_of_def split: option.split)

section \<open>Vocabularies\<close>

datatype FreshnessClass =
    Fr_FRESH
  | Fr_AGING
  | Fr_STALE
  | Fr_UNKNOWN

definition FRESHNESS_CLASSES :: "FreshnessClass list" where
  "FRESHNESS_CLASSES =
     [Fr_FRESH, Fr_AGING, Fr_STALE, Fr_UNKNOWN]"

fun freshnessClass_name :: "FreshnessClass \<Rightarrow> string" where
  "freshnessClass_name Fr_FRESH = ''FRESH''"
| "freshnessClass_name Fr_AGING = ''AGING''"
| "freshnessClass_name Fr_STALE = ''STALE''"
| "freshnessClass_name Fr_UNKNOWN = ''UNKNOWN''"

definition freshnessClass_of :: "string \<Rightarrow> FreshnessClass option" where
  "freshnessClass_of = enum_of FRESHNESS_CLASSES freshnessClass_name"

definition isFreshnessClass :: "string \<Rightarrow> bool" where
  "isFreshnessClass value = (freshnessClass_of value \<noteq> None)"

datatype FactProvenance =
    Prov_SELF_REPORTED
  | Prov_DOCUMENT_EXTRACTED
  | Prov_API_VERIFIED
  | Prov_COUNTERPARTY_CONFIRMED
  | Prov_OPERATOR_VERIFIED
  | Prov_OUTCOME_LEARNED
  | Prov_INFERRED

definition FACT_PROVENANCE_STATES :: "FactProvenance list" where
  "FACT_PROVENANCE_STATES =
     [Prov_SELF_REPORTED, Prov_DOCUMENT_EXTRACTED, Prov_API_VERIFIED, Prov_COUNTERPARTY_CONFIRMED, Prov_OPERATOR_VERIFIED, Prov_OUTCOME_LEARNED, Prov_INFERRED]"

fun factProvenance_name :: "FactProvenance \<Rightarrow> string" where
  "factProvenance_name Prov_SELF_REPORTED = ''SELF_REPORTED''"
| "factProvenance_name Prov_DOCUMENT_EXTRACTED = ''DOCUMENT_EXTRACTED''"
| "factProvenance_name Prov_API_VERIFIED = ''API_VERIFIED''"
| "factProvenance_name Prov_COUNTERPARTY_CONFIRMED = ''COUNTERPARTY_CONFIRMED''"
| "factProvenance_name Prov_OPERATOR_VERIFIED = ''OPERATOR_VERIFIED''"
| "factProvenance_name Prov_OUTCOME_LEARNED = ''OUTCOME_LEARNED''"
| "factProvenance_name Prov_INFERRED = ''INFERRED''"

definition factProvenance_of :: "string \<Rightarrow> FactProvenance option" where
  "factProvenance_of = enum_of FACT_PROVENANCE_STATES factProvenance_name"

definition isFactProvenance :: "string \<Rightarrow> bool" where
  "isFactProvenance value = (factProvenance_of value \<noteq> None)"

datatype PassportSectionType =
    Sec_IDENTITY
  | Sec_RELATIONSHIP_HISTORY
  | Sec_PROCESSING_METRICS
  | Sec_RISK
  | Sec_COMMERCIAL
  | Sec_TECHNICAL

definition PASSPORT_SECTION_TYPES :: "PassportSectionType list" where
  "PASSPORT_SECTION_TYPES =
     [Sec_IDENTITY, Sec_RELATIONSHIP_HISTORY, Sec_PROCESSING_METRICS, Sec_RISK, Sec_COMMERCIAL, Sec_TECHNICAL]"

fun passportSectionType_name :: "PassportSectionType \<Rightarrow> string" where
  "passportSectionType_name Sec_IDENTITY = ''IDENTITY''"
| "passportSectionType_name Sec_RELATIONSHIP_HISTORY = ''RELATIONSHIP_HISTORY''"
| "passportSectionType_name Sec_PROCESSING_METRICS = ''PROCESSING_METRICS''"
| "passportSectionType_name Sec_RISK = ''RISK''"
| "passportSectionType_name Sec_COMMERCIAL = ''COMMERCIAL''"
| "passportSectionType_name Sec_TECHNICAL = ''TECHNICAL''"

definition passportSectionType_of :: "string \<Rightarrow> PassportSectionType option" where
  "passportSectionType_of = enum_of PASSPORT_SECTION_TYPES passportSectionType_name"

definition isPassportSectionType :: "string \<Rightarrow> bool" where
  "isPassportSectionType value = (passportSectionType_of value \<noteq> None)"

datatype EvidenceSourceKind =
    Src_FILE
  | Src_API
  | Src_ATTESTATION

definition EVIDENCE_SOURCE_KINDS :: "EvidenceSourceKind list" where
  "EVIDENCE_SOURCE_KINDS =
     [Src_FILE, Src_API, Src_ATTESTATION]"

fun evidenceSourceKind_name :: "EvidenceSourceKind \<Rightarrow> string" where
  "evidenceSourceKind_name Src_FILE = ''FILE''"
| "evidenceSourceKind_name Src_API = ''API''"
| "evidenceSourceKind_name Src_ATTESTATION = ''ATTESTATION''"

definition evidenceSourceKind_of :: "string \<Rightarrow> EvidenceSourceKind option" where
  "evidenceSourceKind_of = enum_of EVIDENCE_SOURCE_KINDS evidenceSourceKind_name"

definition isEvidenceSourceKind :: "string \<Rightarrow> bool" where
  "isEvidenceSourceKind value = (evidenceSourceKind_of value \<noteq> None)"

section \<open>Readiness decisions\<close>

text \<open>
  \<open>maxAgeDays\<close> is a positive whole number of days; \<open>None\<close> stands for the \<open>TypeError\<close>
  thrown on a non-positive value.
\<close>

definition isPassportReadinessStale :: "PassportStatus \<Rightarrow> int option \<Rightarrow> int \<Rightarrow> int \<Rightarrow> bool option" where
  "isPassportReadinessStale status lastComputedAt now maxAgeDays =
     (if maxAgeDays \<le> 0 then None
      else if status \<noteq> Psp_READY \<and> status \<noteq> Psp_VERIFIED then Some False
      else case lastComputedAt of
             None \<Rightarrow> Some False
           | Some computed \<Rightarrow> Some (now - computed > maxAgeDays * 24 * 60 * 60 * 1000))"

definition targetStatusAfterRecompute :: "PassportStatus \<Rightarrow> bool \<Rightarrow> bool \<Rightarrow> PassportStatus" where
  "targetStatusAfterRecompute current hasFacts blocked =
     (if current = Psp_SUSPENDED then current
      else if blocked then
        (if current = Psp_DRAFT \<and> \<not> hasFacts then Psp_DRAFT else Psp_INCOMPLETE)
      else if current = Psp_VERIFIED then Psp_VERIFIED
      else Psp_READY)"

section \<open>Properties\<close>

text \<open>Whatever the current status, the facts and the blockers, the status a readiness recompute
  moves to is either the current one (no write happens) or a transition the guard accepts: the
  decision table and the transition table agree.\<close>

theorem recompute_target_legal:
  "targetStatusAfterRecompute s hasFacts blocked = s \<or>
   assertValidPassportTransition (passportStatus_name s)
     (passportStatus_name (targetStatusAfterRecompute s hasFacts blocked)) = Inr ()"
proof -
  have "targetStatusAfterRecompute s hasFacts blocked \<in> set (s # PASSPORT_TRANSITIONS s)"
    by (cases s; cases hasFacts; cases blocked) (simp_all add: targetStatusAfterRecompute_def)
  then show ?thesis
    using passport_st.guard_accepts [of s "targetStatusAfterRecompute s hasFacts blocked"] by auto
qed

lemma suspended_only_to_incomplete:
  "assertValidPassportTransition ''SUSPENDED'' (passportStatus_name t) = Inr () \<longleftrightarrow> t = Psp_INCOMPLETE"
  using passport_st.guard_accepts [of Psp_SUSPENDED t] by (cases t) simp_all

lemma recompute_ready_iff:
  "targetStatusAfterRecompute s hasFacts blocked \<in> {Psp_READY, Psp_VERIFIED} \<longleftrightarrow>
   s \<noteq> Psp_SUSPENDED \<and> \<not> blocked"
  by (cases s) (simp_all add: targetStatusAfterRecompute_def)

end
