(* ===== verification/Money.thy ===== *)
theory Money
  imports TOL_Prelude Complex_Main
begin

text \<open>
  \<open>packages/domain/src/money.ts\<close>: the guards every monetary value passes. A JavaScript
  number is a finite rational or one of the three non-finite values; a \<open>bigint\<close> is an
  integer; strings are read by the language's \<open>BigInt(string)\<close> conversion.
\<close>

section \<open>Numbers and strings of the language\<close>

datatype js_number = NaN | PosInfinity | NegInfinity | Fin rat

fun js_isFinite :: "js_number \<Rightarrow> bool" where
  "js_isFinite (Fin _) = True"
| "js_isFinite _ = False"

fun js_isInteger :: "js_number \<Rightarrow> bool" where
  "js_isInteger (Fin q) = (snd (quotient_of q) = 1)"
| "js_isInteger _ = False"

fun js_less0 :: "js_number \<Rightarrow> bool" where
  "js_less0 (Fin q) = (q < 0)"
| "js_less0 NegInfinity = True"
| "js_less0 _ = False"

fun js_greater :: "js_number \<Rightarrow> rat \<Rightarrow> bool" where
  "js_greater (Fin q) m = (q > m)"
| "js_greater PosInfinity m = True"
| "js_greater _ m = False"

text \<open>
  \<open>BigInt(string)\<close>: surrounding white space is dropped, the empty string is 0, a decimal
  literal may carry a sign, and \<open>0x\<close>, \<open>0o\<close>, \<open>0b\<close> literals may not. Anything else
  throws a \<open>SyntaxError\<close>, here \<open>None\<close>. Characters are bytes, so the white space is the
  ASCII part of the language's white space and line terminators.
\<close>

definition js_whitespace :: "char \<Rightarrow> bool" where
  "js_whitespace c = (of_char c \<in> {9, 10, 11, 12, 13, 32 :: nat})"

definition js_trim :: "string \<Rightarrow> string" where
  "js_trim s = rev (dropWhile js_whitespace (rev (dropWhile js_whitespace s)))"

definition digit_value :: "char \<Rightarrow> nat option" where
  "digit_value c =
     (let n = of_char c :: nat in
      if 48 \<le> n \<and> n \<le> 57 then Some (n - 48)
      else if 97 \<le> n \<and> n \<le> 102 then Some (n - 87)
      else if 65 \<le> n \<and> n \<le> 70 then Some (n - 55)
      else None)"

fun digits_value :: "nat \<Rightarrow> nat \<Rightarrow> string \<Rightarrow> nat option" where
  "digits_value base acc [] = Some acc"
| "digits_value base acc (c # cs) =
     (case digit_value c of
        None \<Rightarrow> None
      | Some d \<Rightarrow> if d < base then digits_value base (acc * base + d) cs else None)"

definition literal_value :: "nat \<Rightarrow> string \<Rightarrow> int option" where
  "literal_value base ds = (if ds = [] then None else map_option int (digits_value base 0 ds))"

fun js_BigInt_trimmed :: "string \<Rightarrow> int option" where
  "js_BigInt_trimmed [] = Some 0"
| "js_BigInt_trimmed (c # cs) =
     (if c = CHR ''-'' then map_option uminus (literal_value 10 cs)
      else if c = CHR ''+'' then literal_value 10 cs
      else if c = CHR ''0'' then
        (case cs of
           p # ds \<Rightarrow>
             if p \<in> {CHR ''x'', CHR ''X''} then literal_value 16 ds
             else if p \<in> {CHR ''o'', CHR ''O''} then literal_value 8 ds
             else if p \<in> {CHR ''b'', CHR ''B''} then literal_value 2 ds
             else literal_value 10 (c # cs)
         | [] \<Rightarrow> literal_value 10 (c # cs))
      else literal_value 10 (c # cs))"

definition js_BigInt :: "string \<Rightarrow> int option" where
  "js_BigInt s = js_BigInt_trimmed (js_trim s)"

text \<open>The decimal rendering of an integer (\<open>String(n)\<close>, template literals).\<close>

fun nat_digits :: "nat \<Rightarrow> nat list" where
  "nat_digits n = (if n < 10 then [n] else nat_digits (n div 10) @ [n mod 10])"

declare nat_digits.simps [simp del]

definition digit_char :: "nat \<Rightarrow> char" where
  "digit_char d = char_of (48 + d)"

definition decimal :: "int \<Rightarrow> string" where
  "decimal i = (if i < 0 then CHR ''-'' # map digit_char (nat_digits (nat (- i)))
                else map digit_char (nat_digits (nat i)))"

section \<open>Guards\<close>

text \<open>Each \<open>throw\<close> site of the file, with the field name it reports; \<open>NegativeSlice\<close> is
  the one of \<open>volume-reconciliation.ts\<close>, with the amount.\<close>

datatype MoneyInvariantError =
    NotFinite string
  | NotInteger string
  | Negative string
  | NotIntegerString string
  | NotIntegerBps string
  | ExceedsMaxBps string
  | MalformedCurrency string
  | NegativeSlice int

definition assertIntegerMinorUnits :: "js_number \<Rightarrow> string \<Rightarrow> MoneyInvariantError + unit" where
  "assertIntegerMinorUnits value fieldName =
     (if \<not> js_isFinite value then Inl (NotFinite fieldName)
      else if \<not> js_isInteger value then Inl (NotInteger fieldName)
      else if js_less0 value then Inl (Negative fieldName)
      else Inr ())"

definition assertBigIntMinorUnits :: "int \<Rightarrow> string \<Rightarrow> MoneyInvariantError + unit" where
  "assertBigIntMinorUnits value fieldName = throw_if (value < 0) (Negative fieldName)"

definition parseBigIntMinorUnits :: "string option \<Rightarrow> string \<Rightarrow> MoneyInvariantError + int" where
  "parseBigIntMinorUnits value fieldName =
     (case value of
        None \<Rightarrow> Inr 0
      | Some s \<Rightarrow>
          (case js_BigInt s of
             None \<Rightarrow> Inl (NotIntegerString fieldName)
           | Some parsed \<Rightarrow> ebind (assertBigIntMinorUnits parsed fieldName) (\<lambda>_. Inr parsed)))"

text \<open>The default of the \<open>max\<close> parameter is 1000000.\<close>

definition assertIntegerBps :: "js_number \<Rightarrow> string \<Rightarrow> rat \<Rightarrow> MoneyInvariantError + unit" where
  "assertIntegerBps value fieldName maxBps =
     (if \<not> js_isFinite value \<or> \<not> js_isInteger value then Inl (NotIntegerBps fieldName)
      else if js_less0 value then Inl (Negative fieldName)
      else if js_greater value maxBps then Inl (ExceedsMaxBps fieldName)
      else Inr ())"

definition upper_ascii :: "char \<Rightarrow> bool" where
  "upper_ascii c = (65 \<le> (of_char c :: nat) \<and> of_char c \<le> (90 :: nat))"

definition assertCurrencyCode :: "string \<Rightarrow> string \<Rightarrow> MoneyInvariantError + unit" where
  "assertCurrencyCode value fieldName =
     throw_if (\<not> (length value = 3 \<and> list_all upper_ascii value)) (MalformedCurrency fieldName)"

section \<open>Properties\<close>

lemma assertBigIntMinorUnits_ok [simp]: "assertBigIntMinorUnits v f = Inr u \<longleftrightarrow> 0 \<le> v"
  by (auto simp: assertBigIntMinorUnits_def)

lemma js_isInteger_Fin: "js_isInteger (Fin q) \<longleftrightarrow> (\<exists>i. q = of_int i)"
proof
  assume "js_isInteger (Fin q)"
  then have "quotient_of q = (fst (quotient_of q), 1)"
    by (metis js_isInteger.simps(1) prod.collapse)
  then show "\<exists>i. q = of_int i"
    by (metis Fract_of_int_quotient div_by_1 of_int_1 quotient_of_div)
qed (auto simp: quotient_of_int)

text \<open>The minor-unit guard accepts a JavaScript number exactly when it is a non-negative
  integer: fractions, negative amounts, \<open>NaN\<close> and the infinities all throw.\<close>

theorem assertIntegerMinorUnits_exact:
  "assertIntegerMinorUnits v f = Inr () \<longleftrightarrow> (\<exists>n::nat. v = Fin (of_nat n))"
proof (cases v)
  case (Fin q)
  show ?thesis
  proof
    assume "assertIntegerMinorUnits v f = Inr ()"
    then have "js_isInteger (Fin q)" and "\<not> q < 0"
      by (auto simp: assertIntegerMinorUnits_def Fin split: if_splits)
    then obtain i where "q = of_int i" and "0 \<le> i"
      by (metis js_isInteger_Fin not_less of_int_0_le_iff)
    then show "\<exists>n. v = Fin (of_nat n)"
      using Fin by (metis of_int_of_nat_eq zero_le_imp_eq_int)
  next
    assume "\<exists>n. v = Fin (of_nat n)"
    then obtain n where n: "v = Fin (of_nat n)" ..
    then have "js_isInteger v"
      using js_isInteger_Fin of_int_of_nat_eq by metis
    then show "assertIntegerMinorUnits v f = Inr ()"
      using n by (simp add: assertIntegerMinorUnits_def del: js_isInteger.simps)
  qed
qed (simp_all add: assertIntegerMinorUnits_def)

lemma digit_value_digit_char: "d < 10 \<Longrightarrow> digit_value (digit_char d) = Some d"
  by (simp add: digit_value_def digit_char_def)

lemma nat_digits_small: "d \<in> set (nat_digits n) \<Longrightarrow> d < 10"
proof (induction n rule: nat_digits.induct)
  case (1 n)
  then show ?case
    by (subst (asm) (2) nat_digits.simps) (auto split: if_splits)
qed

lemma digits_value_append:
  "digits_value b acc (xs @ ys) = Option.bind (digits_value b acc xs) (\<lambda>a. digits_value b a ys)"
  by (induction xs arbitrary: acc) (auto split: option.splits)

lemma digits_value_nat_digits: "digits_value 10 0 (map digit_char (nat_digits n)) = Some n"
proof (induction n rule: nat_digits.induct)
  case (1 n)
  then show ?case
    by (subst nat_digits.simps) (auto simp: digits_value_append digit_value_digit_char)
qed

lemma nat_digits_nonempty: "nat_digits n \<noteq> []"
  by (subst nat_digits.simps) simp

lemma nat_digits_leading: "10 \<le> n \<Longrightarrow> hd (nat_digits n) \<noteq> 0"
proof (induction n rule: nat_digits.induct)
  case (1 n)
  have "nat_digits (n div 10) = [n div 10]" if "n div 10 < 10"
    using that by (subst nat_digits.simps) simp
  with 1 show ?case
    by (subst nat_digits.simps) (cases "n div 10 < 10", auto simp: nat_digits_nonempty)
qed

lemma digit_char_plain:
  "d < 10 \<Longrightarrow> digit_char d \<notin> {CHR ''-'', CHR ''+''} \<and> \<not> js_whitespace (digit_char d) \<and>
     (digit_char d = CHR ''0'' \<longleftrightarrow> d = 0)"
proof -
  assume "d < 10"
  then have "d \<in> {0, 1, 2, 3, 4, 5, 6, 7, 8, 9}" by auto
  then show ?thesis
    by (auto simp: digit_char_def js_whitespace_def char_of_def bit_0)
qed

lemma js_trim_plain: "(\<And>c. c \<in> set s \<Longrightarrow> \<not> js_whitespace c) \<Longrightarrow> js_trim s = s"
proof -
  assume plain: "\<And>c. c \<in> set s \<Longrightarrow> \<not> js_whitespace c"
  have "dropWhile js_whitespace t = t" if "set t \<subseteq> set s" for t
    using that plain by (cases t) auto
  then show ?thesis by (simp add: js_trim_def)
qed

lemma js_BigInt_decimal: "js_BigInt (decimal (int n)) = Some (int n)"
proof -
  let ?ds = "map digit_char (nat_digits n)"
  have plain: "\<not> js_whitespace c" if "c \<in> set ?ds" for c
    using that nat_digits_small digit_char_plain by auto
  have lit: "literal_value 10 ?ds = Some (int n)"
    by (simp add: literal_value_def nat_digits_nonempty digits_value_nat_digits)
  obtain d ds where d: "nat_digits n = d # ds" and "d < 10"
    using nat_digits_nonempty nat_digits_small by (metis list.exhaust list.set_intros(1))
  moreover have "ds = []" if "d = 0"
    using that d nat_digits_leading [of n] nat_digits.simps [of n] by (cases "n < 10") auto
  ultimately have "js_BigInt_trimmed ?ds = Some (int n)"
    using lit digit_char_plain [of d] by (cases "d = 0") auto
  then show ?thesis
    using js_trim_plain [of ?ds] plain by (simp add: js_BigInt_def decimal_def)
qed

text \<open>Wire amounts round-trip: the decimal string of a non-negative integer parses back to that
  integer, an absent field is 0, and whatever string is given, a returned amount is never
  negative.\<close>

theorem parseBigIntMinorUnits_roundtrip:
  "parseBigIntMinorUnits (Some (decimal (int n))) f = Inr (int n) \<and>
   parseBigIntMinorUnits None f = Inr 0 \<and>
   (parseBigIntMinorUnits s f = Inr r \<longrightarrow> 0 \<le> r)"
  by (auto simp: parseBigIntMinorUnits_def js_BigInt_decimal assertBigIntMinorUnits_def
      ebind_eq_Inr throw_if_def split: option.splits if_splits)

theorem parseBigIntMinorUnits_roundtrip_witness:
  "parseBigIntMinorUnits (Some ''4999'') ''amountMinor'' = Inr 4999 \<and> (0::int) \<le> 4999"
proof -
  have "js_BigInt ''4999'' = Some 4999"
    by code_simp
  then have "parseBigIntMinorUnits (Some ''4999'') ''amountMinor'' = Inr 4999"
    by (simp add: parseBigIntMinorUnits_def assertBigIntMinorUnits_def throw_if_def)
  then show ?thesis
    using parseBigIntMinorUnits_roundtrip [of 4999 "''amountMinor''" "Some ''4999''" 4999] by simp
qed

end
