(* ===== verification/Economics_States.thy ===== *)
theory Economics_States
  imports Transition_Guard
begin

text \<open>
  \<open>packages/domain/src/economics-states.ts\<close>: the commission schedule lifecycle and the closed
  vocabularies of the ledger.
\<close>

section \<open>Commission schedule\<close>

datatype CommissionScheduleStatus =
    Sch_DRAFT
  | Sch_ACTIVE
  | Sch_SUPERSEDED
  | Sch_RETIRED

definition COMMISSION_SCHEDULE_STATUSES :: "CommissionScheduleStatus list" where
  "COMMISSION_SCHEDULE_STATUSES = [Sch_DRAFT, Sch_ACTIVE, Sch_SUPERSEDED, Sch_RETIRED]"

fun commissionScheduleStatus_name :: "CommissionScheduleStatus \<Rightarrow> string" where
  "commissionScheduleStatus_name Sch_DRAFT = ''DRAFT''"
| "commissionScheduleStatus_name Sch_ACTIVE = ''ACTIVE''"
| "commissionScheduleStatus_name Sch_SUPERSEDED = ''SUPERSEDED''"
| "commissionScheduleStatus_name Sch_RETIRED = ''RETIRED''"

definition commissionScheduleStatus_of :: "string \<Rightarrow> CommissionScheduleStatus option" where
  "commissionScheduleStatus_of = enum_of COMMISSION_SCHEDULE_STATUSES commissionScheduleStatus_name"

definition isCommissionScheduleStatus :: "string \<Rightarrow> bool" where
  "isCommissionScheduleStatus value = (commissionScheduleStatus_of value \<noteq> None)"

fun COMMISSION_SCHEDULE_TRANSITIONS :: "CommissionScheduleStatus \<Rightarrow> CommissionScheduleStatus list" where
  "COMMISSION_SCHEDULE_TRANSITIONS Sch_DRAFT = [Sch_ACTIVE, Sch_RETIRED]"
| "COMMISSION_SCHEDULE_TRANSITIONS Sch_ACTIVE = [Sch_SUPERSEDED, Sch_RETIRED]"
| "COMMISSION_SCHEDULE_TRANSITIONS Sch_SUPERSEDED = []"
| "COMMISSION_SCHEDULE_TRANSITIONS Sch_RETIRED = []"

definition assertValidCommissionScheduleTransition :: "string \<Rightarrow> string \<Rightarrow> DomainTransitionError + unit" where
  "assertValidCommissionScheduleTransition from to =
     (case (commissionScheduleStatus_of from, commissionScheduleStatus_of to) of
        (Some s, Some t) \<Rightarrow>
          if s = t \<or> t \<notin> set (COMMISSION_SCHEDULE_TRANSITIONS s)
          then Inl (InvalidCommissionScheduleTransitionError ''CommissionSchedule'' from to)
          else Inr ()
      | _ \<Rightarrow> Inl (InvalidCommissionScheduleTransitionError ''CommissionSchedule'' from to))"

interpretation schedule_st: status_table COMMISSION_SCHEDULE_STATUSES commissionScheduleStatus_name COMMISSION_SCHEDULE_TRANSITIONS True
  "\<lambda>v w. InvalidCommissionScheduleTransitionError ''CommissionSchedule'' v w" assertValidCommissionScheduleTransition
proof unfold_locales
  show "s \<in> set COMMISSION_SCHEDULE_STATUSES" for s
    by (cases s) (simp_all add: COMMISSION_SCHEDULE_STATUSES_def)
  show "commissionScheduleStatus_name s = commissionScheduleStatus_name t \<Longrightarrow> s = t" for s t
    by (cases s; cases t) simp_all
  show "True \<Longrightarrow> s \<notin> set (COMMISSION_SCHEDULE_TRANSITIONS s)" for s
    by (cases s) simp_all
qed (simp add: assertValidCommissionScheduleTransition_def commissionScheduleStatus_of_def split: option.split)

section \<open>Vocabularies\<close>

datatype CommissionBasis =
    Basis_GROSS_PROCESSING_VOLUME
  | Basis_NET_PLATFORM_REVENUE
  | Basis_RECEIVED_COMMISSION
  | Basis_FIXED_FEE
  | Basis_SETUP_FEE
  | Basis_OTHER

definition COMMISSION_BASIS_VALUES :: "CommissionBasis list" where
  "COMMISSION_BASIS_VALUES = [Basis_GROSS_PROCESSING_VOLUME, Basis_NET_PLATFORM_REVENUE, Basis_RECEIVED_COMMISSION, Basis_FIXED_FEE, Basis_SETUP_FEE, Basis_OTHER]"

fun commissionBasis_name :: "CommissionBasis \<Rightarrow> string" where
  "commissionBasis_name Basis_GROSS_PROCESSING_VOLUME = ''GROSS_PROCESSING_VOLUME''"
| "commissionBasis_name Basis_NET_PLATFORM_REVENUE = ''NET_PLATFORM_REVENUE''"
| "commissionBasis_name Basis_RECEIVED_COMMISSION = ''RECEIVED_COMMISSION''"
| "commissionBasis_name Basis_FIXED_FEE = ''FIXED_FEE''"
| "commissionBasis_name Basis_SETUP_FEE = ''SETUP_FEE''"
| "commissionBasis_name Basis_OTHER = ''OTHER''"

definition commissionBasis_of :: "string \<Rightarrow> CommissionBasis option" where
  "commissionBasis_of = enum_of COMMISSION_BASIS_VALUES commissionBasis_name"

definition isCommissionBasis :: "string \<Rightarrow> bool" where
  "isCommissionBasis value = (commissionBasis_of value \<noteq> None)"

datatype CommissionRecipientType =
    Recip_CONTRIBUTOR
  | Recip_PLATFORM
  | Recip_OTHER

definition COMMISSION_RECIPIENT_TYPES :: "CommissionRecipientType list" where
  "COMMISSION_RECIPIENT_TYPES = [Recip_CONTRIBUTOR, Recip_PLATFORM, Recip_OTHER]"

fun commissionRecipientType_name :: "CommissionRecipientType \<Rightarrow> string" where
  "commissionRecipientType_name Recip_CONTRIBUTOR = ''CONTRIBUTOR''"
| "commissionRecipientType_name Recip_PLATFORM = ''PLATFORM''"
| "commissionRecipientType_name Recip_OTHER = ''OTHER''"

definition commissionRecipientType_of :: "string \<Rightarrow> CommissionRecipientType option" where
  "commissionRecipientType_of = enum_of COMMISSION_RECIPIENT_TYPES commissionRecipientType_name"

definition isCommissionRecipientType :: "string \<Rightarrow> bool" where
  "isCommissionRecipientType value = (commissionRecipientType_of value \<noteq> None)"

datatype CommissionComponentType =
    PERCENTAGE_BPS
  | FIXED_AMOUNT

definition COMMISSION_COMPONENT_TYPES :: "CommissionComponentType list" where
  "COMMISSION_COMPONENT_TYPES = [PERCENTAGE_BPS, FIXED_AMOUNT]"

fun commissionComponentType_name :: "CommissionComponentType \<Rightarrow> string" where
  "commissionComponentType_name PERCENTAGE_BPS = ''PERCENTAGE_BPS''"
| "commissionComponentType_name FIXED_AMOUNT = ''FIXED_AMOUNT''"

definition commissionComponentType_of :: "string \<Rightarrow> CommissionComponentType option" where
  "commissionComponentType_of = enum_of COMMISSION_COMPONENT_TYPES commissionComponentType_name"

definition isCommissionComponentType :: "string \<Rightarrow> bool" where
  "isCommissionComponentType value = (commissionComponentType_of value \<noteq> None)"

datatype LedgerEntryType =
    ACCRUAL
  | ADJUSTMENT
  | PAYMENT
  | REVERSAL

definition LEDGER_ENTRY_TYPES :: "LedgerEntryType list" where
  "LEDGER_ENTRY_TYPES = [ACCRUAL, ADJUSTMENT, PAYMENT, REVERSAL]"

fun ledgerEntryType_name :: "LedgerEntryType \<Rightarrow> string" where
  "ledgerEntryType_name ACCRUAL = ''ACCRUAL''"
| "ledgerEntryType_name ADJUSTMENT = ''ADJUSTMENT''"
| "ledgerEntryType_name PAYMENT = ''PAYMENT''"
| "ledgerEntryType_name REVERSAL = ''REVERSAL''"

definition ledgerEntryType_of :: "string \<Rightarrow> LedgerEntryType option" where
  "ledgerEntryType_of = enum_of LEDGER_ENTRY_TYPES ledgerEntryType_name"

definition isLedgerEntryType :: "string \<Rightarrow> bool" where
  "isLedgerEntryType value = (ledgerEntryType_of value \<noteq> None)"

datatype LedgerDirection =
    CREDIT
  | DEBIT

definition LEDGER_DIRECTIONS :: "LedgerDirection list" where
  "LEDGER_DIRECTIONS = [CREDIT, DEBIT]"

fun ledgerDirection_name :: "LedgerDirection \<Rightarrow> string" where
  "ledgerDirection_name CREDIT = ''CREDIT''"
| "ledgerDirection_name DEBIT = ''DEBIT''"

definition ledgerDirection_of :: "string \<Rightarrow> LedgerDirection option" where
  "ledgerDirection_of = enum_of LEDGER_DIRECTIONS ledgerDirection_name"

definition isLedgerDirection :: "string \<Rightarrow> bool" where
  "isLedgerDirection value = (ledgerDirection_of value \<noteq> None)"

datatype AccrualDerivedStatus =
    ACCRUED
  | ADJUSTED
  | PARTIALLY_PAID
  | PAID
  | REVERSED

definition ACCRUAL_DERIVED_STATUSES :: "AccrualDerivedStatus list" where
  "ACCRUAL_DERIVED_STATUSES = [ACCRUED, ADJUSTED, PARTIALLY_PAID, PAID, REVERSED]"

fun accrualDerivedStatus_name :: "AccrualDerivedStatus \<Rightarrow> string" where
  "accrualDerivedStatus_name ACCRUED = ''ACCRUED''"
| "accrualDerivedStatus_name ADJUSTED = ''ADJUSTED''"
| "accrualDerivedStatus_name PARTIALLY_PAID = ''PARTIALLY_PAID''"
| "accrualDerivedStatus_name PAID = ''PAID''"
| "accrualDerivedStatus_name REVERSED = ''REVERSED''"

definition accrualDerivedStatus_of :: "string \<Rightarrow> AccrualDerivedStatus option" where
  "accrualDerivedStatus_of = enum_of ACCRUAL_DERIVED_STATUSES accrualDerivedStatus_name"

definition isAccrualDerivedStatus :: "string \<Rightarrow> bool" where
  "isAccrualDerivedStatus value = (accrualDerivedStatus_of value \<noteq> None)"

section \<open>Properties\<close>

fun schedule_rank :: "CommissionScheduleStatus \<Rightarrow> nat" where
  "schedule_rank Sch_DRAFT = 2"
| "schedule_rank Sch_ACTIVE = 1"
| "schedule_rank _ = 0"

lemma schedule_edges_decrease:
  "t \<in> set (COMMISSION_SCHEDULE_TRANSITIONS s) \<Longrightarrow> schedule_rank t < schedule_rank s"
  by (cases s; cases t) simp_all

lemma schedule_changes_bounded:
  "accepted assertValidCommissionScheduleTransition ''DRAFT'' rs \<le> 2"
  using schedule_st.accepted_bound [of schedule_rank Sch_DRAFT rs] schedule_edges_decrease by simp

lemma historical_schedule_final:
  "s \<in> {Sch_SUPERSEDED, Sch_RETIRED} \<Longrightarrow>
   lifecycle assertValidCommissionScheduleTransition (commissionScheduleStatus_name s) rs =
     commissionScheduleStatus_name s"
  by (rule schedule_st.lifecycle_terminal) auto

end
