(* ===== verification/Economics_Engine.thy ===== *)
theory Economics_Engine
  imports Money Economics_States "HOL-Library.Signed_Division"
begin

text \<open>
  \<open>packages/domain/src/economics-engine.ts\<close>: the commission split (largest remainder over
  integer minor units), the balance derived from an accrual's ledger chain, the reconciliation
  of a revenue event and the cap/floor disclosure. A \<open>bigint\<close> is an \<open>int\<close>; a component's
  \<open>bps\<close> is an integer column, so its JavaScript number is an \<open>int\<close> as well; BigInt
  division truncates, which is \<open>sdiv\<close>/\<open>smod\<close>. Instants are milliseconds.
\<close>

section \<open>Commission splits\<close>

definition ECONOMICS_ENGINE_VERSION :: string where
  "ECONOMICS_ENGINE_VERSION = ''economics-ledger-v1''"

text \<open>One constructor per \<open>throw\<close> of the file; \<open>EconMoney\<close> is a \<open>MoneyInvariantError\<close>
  raised by a guard of \<open>money.ts\<close>.\<close>

datatype EconomicsInvariantError =
    NoComponents
  | DuplicateComponentId string
  | FixedAmountNull string
  | FixedExceedsNet int int
  | RemainderWithoutBps int
  | BpsMissingOrNegative string
  | BpsNotFull int
  | LeftoverNegative int
  | LeftoverBeyondOnePass int
  | SumLeak int int
  | AccrualCount nat
  | EconMoney MoneyInvariantError

record EconomicsComponentInput =
  componentId :: string
  recipientOrgId :: string
  componentType :: CommissionComponentType
  bps :: "int option"
  fixedAmountMinor :: "int option"
  claimId :: "string option"
  priority :: int

record ComputedLedgerEntry =
  entry_componentId :: string
  entry_recipientOrgId :: string
  entry_claimId :: "string option"
  entry_amountMinor :: int
  entry_direction :: LedgerDirection

record ComputeCommissionSplitsInput =
  netDistributableMinor :: int
  components :: "EconomicsComponentInput list"
  scheduleId :: string
  scheduleVersion :: int
  now :: int
  inputVersions :: "string list option"

record ComputeCommissionSplitsResult =
  result_entries :: "ComputedLedgerEntry list"
  calculationVersion :: string
  computedAt :: int
  result_inputVersions :: "string list"

definition money_check :: "int \<Rightarrow> string \<Rightarrow> EconomicsInvariantError + unit" where
  "money_check v f =
     (case assertBigIntMinorUnits v f of Inl e \<Rightarrow> Inl (EconMoney e) | Inr u \<Rightarrow> Inr u)"

text \<open>The loop over \<open>seenComponentIds\<close>.\<close>

fun checkDistinctIds :: "string list \<Rightarrow> EconomicsComponentInput list \<Rightarrow> EconomicsInvariantError + unit" where
  "checkDistinctIds seen [] = Inr ()"
| "checkDistinctIds seen (c # cs) =
     (if componentId c \<in> set seen then Inl (DuplicateComponentId (componentId c))
      else checkDistinctIds (componentId c # seen) cs)"

text \<open>The loop that sums the fixed components.\<close>

fun sumFixed :: "int \<Rightarrow> EconomicsComponentInput list \<Rightarrow> EconomicsInvariantError + int" where
  "sumFixed fixedTotal [] = Inr fixedTotal"
| "sumFixed fixedTotal (c # cs) =
     (case fixedAmountMinor c of
        None \<Rightarrow> Inl (FixedAmountNull (componentId c))
      | Some amount \<Rightarrow>
          ebind (money_check amount (''component '' @ componentId c @ ''.fixedAmountMinor''))
            (\<lambda>_. sumFixed (fixedTotal + amount) cs))"

text \<open>The loop that sums the basis points.\<close>

fun sumBps :: "int \<Rightarrow> EconomicsComponentInput list \<Rightarrow> EconomicsInvariantError + int" where
  "sumBps bpsTotal [] = Inr bpsTotal"
| "sumBps bpsTotal (c # cs) =
     (case bps c of
        None \<Rightarrow> Inl (BpsMissingOrNegative (componentId c))
      | Some b \<Rightarrow>
          if b < 0 then Inl (BpsMissingOrNegative (componentId c)) else sumBps (bpsTotal + b) cs)"

record bps_share =
  share_component :: EconomicsComponentInput
  floorShare :: int
  remainder :: int

definition share_of :: "int \<Rightarrow> EconomicsComponentInput \<Rightarrow> bps_share" where
  "share_of remainingAfterFixed c =
     (let numerator = remainingAfterFixed * the (bps c) in
      \<lparr>share_component = c, floorShare = numerator sdiv 10000, remainder = numerator smod 10000\<rparr>)"

definition share_id :: "bps_share \<Rightarrow> string" where
  "share_id s = componentId (share_component s)"

text \<open>The comparator of the ranking: larger remainder first, then component id.\<close>

definition rank_cmp :: "bps_share \<Rightarrow> bps_share \<Rightarrow> int" where
  "rank_cmp a b =
     (if remainder a \<noteq> remainder b then (if remainder a > remainder b then -1 else 1)
      else if share_id a < share_id b then -1 else if share_id a > share_id b then 1 else 0)"

text \<open>The bonus loop: one unit per ranked component while the pool lasts.\<close>

fun giveBonus :: "bps_share list \<Rightarrow> int \<Rightarrow> (string \<rightharpoonup> int) \<Rightarrow> (string \<rightharpoonup> int) \<times> int" where
  "giveBonus [] leftoverPool bonusUnits = (bonusUnits, leftoverPool)"
| "giveBonus (s # ss) leftoverPool bonusUnits =
     (if leftoverPool > 0
      then giveBonus ss (leftoverPool - 1)
             (bonusUnits(share_id s \<mapsto> (case bonusUnits (share_id s) of None \<Rightarrow> 0 | Some b \<Rightarrow> b) + 1))
      else (bonusUnits, leftoverPool))"

definition fixed_entry :: "EconomicsComponentInput \<Rightarrow> ComputedLedgerEntry" where
  "fixed_entry c = \<lparr>entry_componentId = componentId c, entry_recipientOrgId = recipientOrgId c,
     entry_claimId = claimId c, entry_amountMinor = the (fixedAmountMinor c),
     entry_direction = CREDIT\<rparr>"

definition share_entry :: "(string \<rightharpoonup> int) \<Rightarrow> bps_share \<Rightarrow> ComputedLedgerEntry" where
  "share_entry bonusUnits s =
     \<lparr>entry_componentId = share_id s,
      entry_recipientOrgId = recipientOrgId (share_component s),
      entry_claimId = claimId (share_component s),
      entry_amountMinor =
        floorShare s + (case bonusUnits (share_id s) of None \<Rightarrow> 0 | Some b \<Rightarrow> b),
      entry_direction = CREDIT\<rparr>"

text \<open>The \<open>else\<close> branch: the percentage components share what the fixed ones left.\<close>

definition splitBps ::
  "int \<Rightarrow> EconomicsComponentInput list \<Rightarrow> EconomicsInvariantError + ComputedLedgerEntry list" where
  "splitBps remainingAfterFixed bpsComponents =
     ebind (sumBps 0 bpsComponents) (\<lambda>bpsTotal.
     ebind (throw_if (bpsTotal \<noteq> 10000) (BpsNotFull bpsTotal)) (\<lambda>_.
     let shares = map (share_of remainingAfterFixed) bpsComponents;
         flooredTotal = sum_list (map floorShare shares);
         leftoverPool = remainingAfterFixed - flooredTotal
     in ebind (throw_if (leftoverPool < 0) (LeftoverNegative leftoverPool)) (\<lambda>_.
        let ranked = js_sort rank_cmp shares;
            (bonusUnits, left) = giveBonus ranked leftoverPool Map.empty
        in ebind (throw_if (left > 0) (LeftoverBeyondOnePass left)) (\<lambda>_.
           Inr (map (share_entry bonusUnits) shares)))))"

definition splitRemaining ::
  "int \<Rightarrow> EconomicsComponentInput list \<Rightarrow> EconomicsInvariantError + ComputedLedgerEntry list" where
  "splitRemaining remainingAfterFixed bpsComponents =
     (if bpsComponents = []
      then ebind (throw_if (remainingAfterFixed \<noteq> 0) (RemainderWithoutBps remainingAfterFixed))
             (\<lambda>_. Inr [])
      else splitBps remainingAfterFixed bpsComponents)"

definition computeCommissionSplits ::
  "ComputeCommissionSplitsInput \<Rightarrow> EconomicsInvariantError + ComputeCommissionSplitsResult" where
  "computeCommissionSplits inp =
     (let net = netDistributableMinor inp; cs = components inp in
      ebind (money_check net ''netDistributableMinor'') (\<lambda>_.
      ebind (throw_if (cs = []) NoComponents) (\<lambda>_.
      ebind (checkDistinctIds [] cs) (\<lambda>_.
      let fixedComponents = filter (\<lambda>c. componentType c = FIXED_AMOUNT) cs;
          bpsComponents = filter (\<lambda>c. componentType c = PERCENTAGE_BPS) cs
      in
      ebind (sumFixed 0 fixedComponents) (\<lambda>fixedTotal.
      ebind (throw_if (fixedTotal > net) (FixedExceedsNet fixedTotal net)) (\<lambda>_.
      let remainingAfterFixed = net - fixedTotal;
          fixedEntries = map fixed_entry fixedComponents
      in
      ebind (splitRemaining remainingAfterFixed bpsComponents) (\<lambda>bpsEntries.
      let entries = fixedEntries @ bpsEntries;
          sumCheck = sum_list (map entry_amountMinor entries)
      in
      ebind (throw_if (sumCheck \<noteq> net) (SumLeak sumCheck net)) (\<lambda>_.
      Inr \<lparr>result_entries = entries, calculationVersion = ECONOMICS_ENGINE_VERSION,
           computedAt = now inp,
           result_inputVersions =
             (case inputVersions inp of
                Some vs \<Rightarrow> vs
              | None \<Rightarrow> [''schedule:'' @ scheduleId inp @ '':v'' @ decimal (scheduleVersion inp)])\<rparr>))))))))"

text \<open>\<open>componentBasisOverride.get(id) ?? scheduleBasis\<close>: a missing key and a stored \<open>null\<close>
  both fall back.\<close>

definition selectComponentsForBasis ::
  "EconomicsComponentInput list \<Rightarrow> CommissionBasis \<Rightarrow> CommissionBasis \<Rightarrow>
   (string \<rightharpoonup> CommissionBasis option) \<Rightarrow> EconomicsComponentInput list" where
  "selectComponentsForBasis cs scheduleBasis targetBasis componentBasisOverride =
     filter (\<lambda>c. (case componentBasisOverride (componentId c) of
                    Some (Some b) \<Rightarrow> b
                  | _ \<Rightarrow> scheduleBasis) = targetBasis) cs"

section \<open>Accrual balance\<close>

record AccrualLedgerEntryLike =
  entryType :: LedgerEntryType
  direction :: LedgerDirection
  amountMinor :: int

record AccrualBalance =
  balance_status :: AccrualDerivedStatus
  originalAmountMinor :: int
  netAmountMinor :: int
  paidAmountMinor :: int
  outstandingAmountMinor :: int

text \<open>The four variables of the loop over the entries.\<close>

record balance_acc =
  acc_net :: int
  acc_paid :: int
  hasAdjustment :: bool
  hasReversal :: bool

definition signed_amount :: "AccrualLedgerEntryLike \<Rightarrow> int" where
  "signed_amount e = (if direction e = CREDIT then amountMinor e else - amountMinor e)"

definition balance_step :: "balance_acc \<Rightarrow> AccrualLedgerEntryLike \<Rightarrow> balance_acc" where
  "balance_step a e =
     (case entryType e of
        ADJUSTMENT \<Rightarrow> a\<lparr>hasAdjustment := True, acc_net := acc_net a + signed_amount e\<rparr>
      | PAYMENT \<Rightarrow> a\<lparr>acc_paid := acc_paid a + amountMinor e\<rparr>
      | REVERSAL \<Rightarrow> a\<lparr>hasReversal := True\<rparr>
      | ACCRUAL \<Rightarrow> a)"

definition computeAccrualBalance ::
  "AccrualLedgerEntryLike list \<Rightarrow> EconomicsInvariantError + AccrualBalance" where
  "computeAccrualBalance entries =
     (let accrualEntries = filter (\<lambda>e. entryType e = ACCRUAL) entries in
      case accrualEntries of
        [a] \<Rightarrow>
          (let original = amountMinor a;
               acc = foldl balance_step
                 \<lparr>acc_net = original, acc_paid = 0, hasAdjustment = False, hasReversal = False\<rparr> entries;
               outstanding = (if hasReversal acc then 0 else acc_net acc - acc_paid acc);
               status = (if hasReversal acc then REVERSED
                         else if outstanding \<le> 0 then PAID
                         else if acc_paid acc > 0 then PARTIALLY_PAID
                         else if hasAdjustment acc then ADJUSTED
                         else ACCRUED)
           in Inr \<lparr>balance_status = status, originalAmountMinor = original,
                   netAmountMinor = acc_net acc, paidAmountMinor = acc_paid acc,
                   outstandingAmountMinor = outstanding\<rparr>)
      | _ \<Rightarrow> Inl (AccrualCount (length accrualEntries)))"

section \<open>Reconciliation of a revenue event\<close>

datatype RevenueEventMismatchCode = basis_mismatch | distribution_mismatch

record RevenueEventReconciliationInput =
  grossAmountMinor :: int
  deductionsMinor :: int
  recon_netDistributableMinor :: int
  ledgerEntries :: "AccrualLedgerEntryLike list"

record RevenueEventReconciliation =
  reconciled :: bool
  distributedMinor :: int
  paidMinor :: int
  outstandingMinor :: int
  mismatches :: "RevenueEventMismatchCode list"

record recon_acc =
  rec_distributed :: int
  rec_paid :: int
  rec_adjustment :: int
  rec_reversed :: int

definition recon_step :: "recon_acc \<Rightarrow> AccrualLedgerEntryLike \<Rightarrow> recon_acc" where
  "recon_step a e =
     (case entryType e of
        ACCRUAL \<Rightarrow> a\<lparr>rec_distributed := rec_distributed a + amountMinor e\<rparr>
      | PAYMENT \<Rightarrow> a\<lparr>rec_paid := rec_paid a + amountMinor e\<rparr>
      | ADJUSTMENT \<Rightarrow> a\<lparr>rec_adjustment := rec_adjustment a + signed_amount e\<rparr>
      | REVERSAL \<Rightarrow> a\<lparr>rec_reversed := rec_reversed a + amountMinor e\<rparr>)"

definition reconcileRevenueEvent :: "RevenueEventReconciliationInput \<Rightarrow> RevenueEventReconciliation" where
  "reconcileRevenueEvent inp =
     (let expectedNet = grossAmountMinor inp - deductionsMinor inp;
          ms1 = (if expectedNet \<noteq> recon_netDistributableMinor inp then [basis_mismatch] else []);
          acc = foldl recon_step
            \<lparr>rec_distributed = 0, rec_paid = 0, rec_adjustment = 0, rec_reversed = 0\<rparr> (ledgerEntries inp);
          ms2 = (if rec_distributed acc \<noteq> recon_netDistributableMinor inp
                 then [distribution_mismatch] else []);
          ms = ms1 @ ms2
      in \<lparr>reconciled = (ms = []), distributedMinor = rec_distributed acc, paidMinor = rec_paid acc,
          outstandingMinor =
            rec_distributed acc + rec_adjustment acc - rec_paid acc - rec_reversed acc,
          mismatches = ms\<rparr>)"

section \<open>Cap and floor disclosure\<close>

record ScheduleCapFloorInput =
  capMinor :: "int option"
  floorMinor :: "int option"
  cumulativeDistributedMinor :: int

record ScheduleCapFloorStatus =
  withinCap :: bool
  capExceededByMinor :: "int option"
  withinFloor :: bool
  floorShortfallMinor :: "int option"

definition opt_money_check :: "int option \<Rightarrow> string \<Rightarrow> EconomicsInvariantError + unit" where
  "opt_money_check v f = (case v of None \<Rightarrow> Inr () | Some x \<Rightarrow> money_check x f)"

definition evaluateScheduleCapFloor ::
  "ScheduleCapFloorInput \<Rightarrow> EconomicsInvariantError + ScheduleCapFloorStatus" where
  "evaluateScheduleCapFloor inp =
     ebind (money_check (cumulativeDistributedMinor inp) ''cumulativeDistributedMinor'') (\<lambda>_.
     ebind (opt_money_check (capMinor inp) ''capMinor'') (\<lambda>_.
     ebind (opt_money_check (floorMinor inp) ''floorMinor'') (\<lambda>_.
     let exceeded = (case capMinor inp of
           Some cap \<Rightarrow> if cumulativeDistributedMinor inp > cap
                       then Some (cumulativeDistributedMinor inp - cap) else None
         | None \<Rightarrow> None);
         shortfall = (case floorMinor inp of
           Some flr \<Rightarrow> if cumulativeDistributedMinor inp < flr
                       then Some (flr - cumulativeDistributedMinor inp) else None
         | None \<Rightarrow> None)
     in Inr \<lparr>withinCap = (exceeded = None), capExceededByMinor = exceeded,
             withinFloor = (shortfall = None), floorShortfallMinor = shortfall\<rparr>)))"

section \<open>Guards and loops\<close>

lemma money_check_ok [simp]: "money_check v f = Inr u \<longleftrightarrow> 0 \<le> v"
  by (auto simp: money_check_def assertBigIntMinorUnits_def throw_if_def)

lemma money_check_Inr: "0 \<le> v \<Longrightarrow> money_check v f = Inr ()"
  by simp

lemma checkDistinctIds_ok:
  "checkDistinctIds seen cs = Inr () \<longleftrightarrow>
   distinct (map componentId cs) \<and> set (map componentId cs) \<inter> set seen = {}"
  by (induction cs arbitrary: seen) auto

definition fixed_amount :: "EconomicsComponentInput \<Rightarrow> int" where
  "fixed_amount c = (case fixedAmountMinor c of None \<Rightarrow> -1 | Some a \<Rightarrow> a)"

definition bps_value :: "EconomicsComponentInput \<Rightarrow> int" where
  "bps_value c = (case bps c of None \<Rightarrow> -1 | Some b \<Rightarrow> b)"

lemma sumFixed_ok:
  "sumFixed acc cs = Inr t \<longleftrightarrow>
   (\<forall>c \<in> set cs. 0 \<le> fixed_amount c) \<and> t = acc + sum_list (map fixed_amount cs)"
  by (induction cs arbitrary: acc)
    (auto simp: ebind_eq_Inr fixed_amount_def split: option.splits)

lemma sumBps_ok:
  "sumBps acc cs = Inr t \<longleftrightarrow>
   (\<forall>c \<in> set cs. 0 \<le> bps_value c) \<and> t = acc + sum_list (map bps_value cs)"
  by (induction cs arbitrary: acc) (auto simp: bps_value_def split: option.splits)

lemma fixed_amount_the: "0 \<le> fixed_amount c \<Longrightarrow> the (fixedAmountMinor c) = fixed_amount c"
  by (auto simp: fixed_amount_def split: option.splits)

lemma bps_value_the: "0 \<le> bps_value c \<Longrightarrow> the (bps c) = bps_value c"
  by (auto simp: bps_value_def split: option.splits)

section \<open>Largest remainder\<close>

interpretation ranking: js_comparator rank_cmp "\<lambda>s. (- remainder s, share_id s)"
  by unfold_locales (auto simp: rank_cmp_def less_eq_prod_def)

lemma sdiv_smod_nonneg:
  fixes a :: int
  assumes "0 \<le> a"
  shows "a sdiv 10000 = a div 10000" and "a smod 10000 = a mod 10000"
  using assms by (auto simp: signed_divide_int_def signed_modulo_int_def sgn_if)

lemma share_of_split:
  assumes "0 \<le> R" and "0 \<le> bps_value c"
  shows "10000 * floorShare (share_of R c) + remainder (share_of R c) = R * bps_value c"
    and "0 \<le> remainder (share_of R c)" and "remainder (share_of R c) < 10000"
    and "0 \<le> floorShare (share_of R c)"
proof -
  have n: "0 \<le> R * bps_value c" using assms by simp
  have eq: "floorShare (share_of R c) = R * bps_value c div 10000"
    "remainder (share_of R c) = R * bps_value c mod 10000"
    using assms n by (simp_all add: share_of_def Let_def bps_value_the sdiv_smod_nonneg)
  show "10000 * floorShare (share_of R c) + remainder (share_of R c) = R * bps_value c"
    "0 \<le> remainder (share_of R c)" "remainder (share_of R c) < 10000"
    "0 \<le> floorShare (share_of R c)"
    using n by (simp_all add: eq pos_imp_zdiv_nonneg_iff)
qed

lemma share_of_simps [simp]:
  "share_component (share_of R c) = c" "share_id (share_of R c) = componentId c"
  by (simp_all add: share_of_def share_id_def Let_def)

text \<open>Ten thousand times what the floors leave over is the sum of the remainders.\<close>

lemma leftover_remainders:
  assumes "0 \<le> R" and "\<forall>c \<in> set cs. 0 \<le> bps_value c"
  shows "10000 * sum_list (map (\<lambda>c. floorShare (share_of R c)) cs) +
         sum_list (map (\<lambda>c. remainder (share_of R c)) cs) = R * sum_list (map bps_value cs)"
  using assms(2)
proof (induction cs)
  case (Cons c cs)
  then show ?case
    using share_of_split(1) [OF assms(1), of c] by (simp add: algebra_simps)
qed simp

lemma remainders_bounds:
  assumes "0 \<le> R" and "\<forall>c \<in> set cs. 0 \<le> bps_value c"
  shows "0 \<le> sum_list (map (\<lambda>c. remainder (share_of R c)) cs)"
    and "sum_list (map (\<lambda>c. remainder (share_of R c)) cs) \<le> 9999 * int (length cs)"
  using assms(2)
proof (induction cs)
  case (Cons c cs)
  { case 1 with Cons share_of_split(2) [OF assms(1), of c] show ?case by simp }
  { case 2 with Cons share_of_split(3) [OF assms(1), of c] show ?case by (simp add: algebra_simps) }
qed simp_all

lemma leftover_bounds:
  assumes "0 \<le> R" and "\<forall>c \<in> set cs. 0 \<le> bps_value c" and "sum_list (map bps_value cs) = 10000"
  defines "leftover \<equiv> R - sum_list (map (\<lambda>c. floorShare (share_of R c)) cs)"
  shows "0 \<le> leftover" and "leftover \<le> int (length cs)"
proof -
  have "10000 * leftover = sum_list (map (\<lambda>c. remainder (share_of R c)) cs)"
    using leftover_remainders [OF assms(1,2)] assms(3) by (simp add: leftover_def algebra_simps)
  then show "0 \<le> leftover" and "leftover \<le> int (length cs)"
    using remainders_bounds [OF assms(1,2)] by linarith+
qed

text \<open>The bonus loop gives one unit to each of the first \<open>k\<close> ranked components.\<close>

definition bonus_of :: "(string \<rightharpoonup> int) \<Rightarrow> bps_share \<Rightarrow> int" where
  "bonus_of m s = (case m (share_id s) of None \<Rightarrow> 0 | Some b \<Rightarrow> b)"

lemma giveBonus_result:
  assumes "distinct (map share_id ss)" and "\<forall>s \<in> set ss. m (share_id s) = None"
  shows "giveBonus ss (int k) m =
    (\<lambda>i. if i \<in> share_id ` set (take k ss) then Some 1 else m i, int (k - length ss))"
  using assms
proof (induction ss arbitrary: k m)
  case (Cons s ss)
  show ?case
  proof (cases k)
    case (Suc k')
    let ?m = "m(share_id s \<mapsto> 1)"
    have "giveBonus (s # ss) (int k) m = giveBonus ss (int k') ?m"
      using Suc Cons.prems by simp
    also have "\<dots> = (\<lambda>i. if i \<in> share_id ` set (take k' ss) then Some 1 else ?m i,
        int (k' - length ss))"
      using Cons.prems by (intro Cons.IH) (auto simp: image_iff)
    finally show ?thesis
      using Suc by auto
  qed simp
qed auto

lemma bonus_total:
  assumes "distinct (map share_id ss)" and "k \<le> length ss"
  shows "sum_list (map (\<lambda>s. if share_id s \<in> share_id ` set (take k ss) then 1 else 0) ss) = int k"
proof -
  let ?f = "\<lambda>s. if share_id s \<in> share_id ` set (take k ss) then 1 else (0::int)"
  have d: "distinct (map share_id (take k ss) @ map share_id (drop k ss))"
    unfolding map_append [symmetric] append_take_drop_id by (rule assms(1))
  have "sum_list (map ?f (take k ss @ drop k ss)) =
      sum_list (map ?f (take k ss)) + sum_list (map ?f (drop k ss))"
    by (simp only: map_append sum_list_append)
  then have "sum_list (map ?f ss) = sum_list (map ?f (take k ss)) + sum_list (map ?f (drop k ss))"
    by (simp only: append_take_drop_id)
  also have "map ?f (take k ss) = map (\<lambda>_. 1) (take k ss)"
    by (rule map_cong) auto
  also have "map ?f (drop k ss) = map (\<lambda>_. 0) (drop k ss)"
    using d by (intro map_cong) auto
  finally show ?thesis
    using assms(2) by (simp add: sum_list_triv)
qed

section \<open>The split is total and exact\<close>

text \<open>The ranked shares, the size of the pool and the components that receive a unit of it.\<close>

definition ranked_shares :: "int \<Rightarrow> EconomicsComponentInput list \<Rightarrow> bps_share list" where
  "ranked_shares R cs = js_sort rank_cmp (map (share_of R) cs)"

definition pool_size :: "int \<Rightarrow> EconomicsComponentInput list \<Rightarrow> int" where
  "pool_size R cs = R - sum_list (map (\<lambda>c. floorShare (share_of R c)) cs)"

definition bonus_ids :: "int \<Rightarrow> EconomicsComponentInput list \<Rightarrow> string set" where
  "bonus_ids R cs = share_id ` set (take (nat (pool_size R cs)) (ranked_shares R cs))"

definition bps_amount :: "int \<Rightarrow> EconomicsComponentInput list \<Rightarrow> EconomicsComponentInput \<Rightarrow> int" where
  "bps_amount R cs c = floorShare (share_of R c) + (if componentId c \<in> bonus_ids R cs then 1 else 0)"

definition bps_entry :: "int \<Rightarrow> EconomicsComponentInput list \<Rightarrow> EconomicsComponentInput \<Rightarrow> ComputedLedgerEntry" where
  "bps_entry R cs c =
     \<lparr>entry_componentId = componentId c, entry_recipientOrgId = recipientOrgId c,
      entry_claimId = claimId c, entry_amountMinor = bps_amount R cs c, entry_direction = CREDIT\<rparr>"

lemma ranked_shares_mset: "mset (ranked_shares R cs) = mset (map (share_of R) cs)"
  by (simp only: ranked_shares_def ranking.mset_js_sort)

lemma ranked_shares_set: "set (ranked_shares R cs) = share_of R ` set cs"
  using ranked_shares_mset [of R cs] by (metis list.set_map set_mset_mset)

lemma ranked_shares_length: "length (ranked_shares R cs) = length cs"
  using ranked_shares_mset [of R cs] by (metis length_map size_mset)

lemma ranked_shares_ids: "mset (map share_id (ranked_shares R cs)) = mset (map componentId cs)"
proof -
  have "image_mset share_id (mset (map (share_of R) cs)) = mset (map componentId cs)"
    by (simp only: mset_map [symmetric] map_map comp_def share_of_simps)
  then show ?thesis
    by (simp only: mset_map ranked_shares_mset)
qed

lemma ranked_shares_distinct:
  "distinct (map componentId cs) \<Longrightarrow> distinct (map share_id (ranked_shares R cs))"
  by (metis distinct_count_atmost_1 ranked_shares_ids set_mset_mset)

lemma splitBps_result:
  assumes R: "0 \<le> R" and b: "\<forall>c \<in> set cs. 0 \<le> bps_value c"
    and full: "sum_list (map bps_value cs) = 10000" and d: "distinct (map componentId cs)"
  shows "splitBps R cs = Inr (map (bps_entry R cs) cs)"
proof -
  let ?ss = "ranked_shares R cs" and ?k = "nat (pool_size R cs)"
  have pool: "0 \<le> pool_size R cs" "pool_size R cs \<le> int (length cs)"
    using leftover_bounds [OF R b full] by (simp_all add: pool_size_def)
  have dr: "distinct (map share_id ?ss)"
    by (rule ranked_shares_distinct [OF d])
  have give: "giveBonus ?ss (pool_size R cs) Map.empty =
      (\<lambda>i. if i \<in> bonus_ids R cs then Some 1 else None, 0)"
    using giveBonus_result [OF dr, of Map.empty ?k] pool
    by (simp add: bonus_ids_def ranked_shares_length)
  have "share_entry (\<lambda>i. if i \<in> bonus_ids R cs then Some 1 else None) (share_of R c) =
      bps_entry R cs c" for c
    by (simp add: share_entry_def bps_entry_def bps_amount_def)
  moreover have "sumBps 0 cs = Inr 10000"
    using b full by (simp add: sumBps_ok)
  moreover have "sum_list (map floorShare (map (share_of R) cs)) = R - pool_size R cs"
    by (simp add: pool_size_def comp_def)
  ultimately show ?thesis
    using pool give
    by (simp add: splitBps_def Let_def ranked_shares_def [symmetric] throw_if_def comp_def)
qed

lemma bps_amounts_total:
  assumes R: "0 \<le> R" and b: "\<forall>c \<in> set cs. 0 \<le> bps_value c"
    and full: "sum_list (map bps_value cs) = 10000" and d: "distinct (map componentId cs)"
  shows "sum_list (map (bps_amount R cs) cs) = R"
proof -
  let ?ss = "ranked_shares R cs" and ?k = "nat (pool_size R cs)"
  let ?f = "\<lambda>i. if i \<in> bonus_ids R cs then 1 else (0::int)"
  have pool: "0 \<le> pool_size R cs" "?k \<le> length ?ss"
    using leftover_bounds [OF R b full] by (simp_all add: pool_size_def ranked_shares_length)
  have "sum_list (map (\<lambda>c. ?f (componentId c)) cs) = sum_list (map ?f (map componentId cs))"
    by (simp add: comp_def)
  also have "\<dots> = sum_list (map ?f (map share_id ?ss))"
    by (rule sum_list_mset_eq) (simp only: ranked_shares_ids)
  also have "\<dots> = int ?k"
    using bonus_total [OF ranked_shares_distinct [OF d] pool(2)]
    by (simp add: bonus_ids_def comp_def)
  finally show ?thesis
    using pool by (simp add: bps_amount_def [abs_def] sum_list_addf pool_size_def)
qed

text \<open>The inputs the split accepts, stated over the schedule's components.\<close>

definition fixed_components :: "EconomicsComponentInput list \<Rightarrow> EconomicsComponentInput list" where
  "fixed_components cs = filter (\<lambda>c. componentType c = FIXED_AMOUNT) cs"

definition bps_components :: "EconomicsComponentInput list \<Rightarrow> EconomicsComponentInput list" where
  "bps_components cs = filter (\<lambda>c. componentType c = PERCENTAGE_BPS) cs"

definition splittable :: "int \<Rightarrow> EconomicsComponentInput list \<Rightarrow> bool" where
  "splittable net cs \<longleftrightarrow>
     0 \<le> net \<and> cs \<noteq> [] \<and> distinct (map componentId cs) \<and>
     (\<forall>c \<in> set (fixed_components cs). 0 \<le> fixed_amount c) \<and>
     (\<forall>c \<in> set (bps_components cs). 0 \<le> bps_value c) \<and>
     sum_list (map fixed_amount (fixed_components cs)) \<le> net \<and>
     (if bps_components cs = [] then sum_list (map fixed_amount (fixed_components cs)) = net
      else sum_list (map bps_value (bps_components cs)) = 10000)"

definition after_fixed :: "int \<Rightarrow> EconomicsComponentInput list \<Rightarrow> int" where
  "after_fixed net cs = net - sum_list (map fixed_amount (fixed_components cs))"

lemma fixed_entries_total:
  "\<forall>c \<in> set cs. 0 \<le> fixed_amount c \<Longrightarrow>
   sum_list (map (\<lambda>c. entry_amountMinor (fixed_entry c)) cs) = sum_list (map fixed_amount cs)"
  by (induction cs) (auto simp: fixed_entry_def fixed_amount_the)

lemma splitBps_accepts:
  assumes "splitBps R cs = Inr es"
  shows "(\<forall>c \<in> set cs. 0 \<le> bps_value c) \<and> sum_list (map bps_value cs) = 10000"
  using assms by (auto simp: splitBps_def ebind_eq_Inr sumBps_ok)

lemma compute_splittable:
  assumes ok: "splittable (netDistributableMinor inp) (components inp)"
  defines "cs \<equiv> components inp"
  defines "R \<equiv> after_fixed (netDistributableMinor inp) cs"
  shows "\<exists>r. computeCommissionSplits inp = Inr r \<and>
    result_entries r = map fixed_entry (fixed_components cs) @
      map (bps_entry R (bps_components cs)) (bps_components cs) \<and>
    calculationVersion r = ECONOMICS_ENGINE_VERSION \<and> computedAt r = now inp \<and>
    sum_list (map entry_amountMinor (result_entries r)) = netDistributableMinor inp"
proof -
  let ?net = "netDistributableMinor inp" and ?F = "fixed_components cs" and ?B = "bps_components cs"
  have F: "\<forall>c \<in> set ?F. 0 \<le> fixed_amount c" and B: "\<forall>c \<in> set ?B. 0 \<le> bps_value c"
    and d: "distinct (map componentId cs)" and le: "sum_list (map fixed_amount ?F) \<le> ?net"
    and rest: "if ?B = [] then sum_list (map fixed_amount ?F) = ?net
      else sum_list (map bps_value ?B) = 10000"
    and cs: "cs \<noteq> []" and net: "0 \<le> ?net"
    using ok by (simp_all add: splittable_def cs_def)
  have R: "0 \<le> R" "?net - sum_list (map fixed_amount ?F) = R"
    using le by (simp_all add: R_def after_fixed_def)
  have dB: "distinct (map componentId ?B)"
    using d by (simp add: bps_components_def distinct_map_filter)
  have sF: "sumFixed 0 ?F = Inr (sum_list (map fixed_amount ?F))"
    using F by (simp add: sumFixed_ok)
  have part: "splitRemaining R ?B = Inr (map (bps_entry R ?B) ?B)"
    using rest R splitBps_result [OF R(1) B _ dB]
    by (cases "?B = []") (simp_all add: splitRemaining_def throw_if_def)
  have tot: "sum_list (map (bps_amount R ?B) ?B) = R"
    using rest R bps_amounts_total [OF R(1) B _ dB] by (cases "?B = []") auto
  have amt: "sum_list (map entry_amountMinor (map fixed_entry ?F @ map (bps_entry R ?B) ?B)) = ?net"
    using fixed_entries_total [OF F] tot R by (simp add: comp_def bps_entry_def)
  have "checkDistinctIds [] cs = Inr ()"
    using d by (simp add: checkDistinctIds_ok)
  then show ?thesis
    using net cs sF part amt le
    by (simp add: computeCommissionSplits_def Let_def cs_def [symmetric] money_check_Inr R(2)
        fixed_components_def [symmetric] bps_components_def [symmetric] throw_if_def
        del: map_append sum_list_append)
qed

lemma compute_accepts:
  assumes "computeCommissionSplits inp = Inr r"
  shows "splittable (netDistributableMinor inp) (components inp)"
proof -
  obtain es where "netDistributableMinor inp \<ge> 0" "components inp \<noteq> []"
    "checkDistinctIds [] (components inp) = Inr ()"
    "\<forall>c \<in> set (fixed_components (components inp)). 0 \<le> fixed_amount c"
    "sum_list (map fixed_amount (fixed_components (components inp))) \<le> netDistributableMinor inp"
    and split: "splitRemaining (after_fixed (netDistributableMinor inp) (components inp))
      (bps_components (components inp)) = Inr es"
    using assms
    by (auto simp: computeCommissionSplits_def Let_def ebind_eq_Inr sumFixed_ok after_fixed_def
        fixed_components_def bps_components_def not_less)
  moreover have "if bps_components (components inp) = []
    then sum_list (map fixed_amount (fixed_components (components inp))) = netDistributableMinor inp
    else (\<forall>c \<in> set (bps_components (components inp)). 0 \<le> bps_value c) \<and>
      sum_list (map bps_value (bps_components (components inp))) = 10000"
    using split splitBps_accepts
    by (auto simp: splitRemaining_def after_fixed_def ebind_eq_Inr split: if_splits)
  ultimately show ?thesis
    by (auto simp: splittable_def checkDistinctIds_ok)
qed

text \<open>The three throws the source marks as structurally unreachable.\<close>

fun internal_error :: "EconomicsInvariantError \<Rightarrow> bool" where
  "internal_error (LeftoverNegative _) = True"
| "internal_error (LeftoverBeyondOnePass _) = True"
| "internal_error (SumLeak _ _) = True"
| "internal_error _ = False"

lemma early_throws_not_internal:
  "money_check v f = Inl e \<Longrightarrow> \<not> internal_error e"
  "checkDistinctIds seen cs = Inl e \<Longrightarrow> \<not> internal_error e"
  "sumFixed acc cs = Inl e \<Longrightarrow> \<not> internal_error e"
  "sumBps acc cs = Inl e \<Longrightarrow> \<not> internal_error e"
proof -
  show m: "money_check v f = Inl e \<Longrightarrow> \<not> internal_error e" for v f
    by (auto simp: money_check_def split: sum.splits)
  show "checkDistinctIds seen cs = Inl e \<Longrightarrow> \<not> internal_error e"
    by (induction cs arbitrary: seen) (auto split: if_splits)
  show "sumFixed acc cs = Inl e \<Longrightarrow> \<not> internal_error e"
    by (induction cs arbitrary: acc) (auto simp: ebind_eq_Inl m split: option.splits)
  show "sumBps acc cs = Inl e \<Longrightarrow> \<not> internal_error e"
    by (induction cs arbitrary: acc) (auto split: option.splits if_splits)
qed

lemma internal_error_splittable:
  assumes fails: "computeCommissionSplits inp = Inl e" and internal: "internal_error e"
  shows "splittable (netDistributableMinor inp) (components inp)"
proof -
  have tail: "(\<forall>c \<in> set B. 0 \<le> bps_value c) \<and> sum_list (map bps_value B) = 10000"
    if "splitBps R B = Inl e" for R B
    using that internal early_throws_not_internal(4)
    by (auto simp: splitBps_def Let_def ebind_eq_Inl sumBps_ok split: prod.splits)
  have rem: "if B = [] then R = 0
      else (\<forall>c \<in> set B. 0 \<le> bps_value c) \<and> sum_list (map bps_value B) = 10000"
    if "splitRemaining R B = Inl e \<or> (\<exists>es. splitRemaining R B = Inr es)" for R B
    using that internal tail [of R B] splitBps_accepts [of R B]
    by (auto simp: splitRemaining_def ebind_eq_Inl ebind_eq_Inr split: if_splits)
  have "0 \<le> netDistributableMinor inp \<and> components inp \<noteq> [] \<and>
      checkDistinctIds [] (components inp) = Inr () \<and>
      (\<forall>c \<in> set (fixed_components (components inp)). 0 \<le> fixed_amount c) \<and>
      sum_list (map fixed_amount (fixed_components (components inp))) \<le> netDistributableMinor inp \<and>
      (splitRemaining (after_fixed (netDistributableMinor inp) (components inp))
         (bps_components (components inp)) = Inl e \<or>
       (\<exists>es. splitRemaining (after_fixed (netDistributableMinor inp) (components inp))
         (bps_components (components inp)) = Inr es))"
    using fails internal early_throws_not_internal(1-3)
    by (auto simp: computeCommissionSplits_def Let_def ebind_eq_Inl sumFixed_ok after_fixed_def
        fixed_components_def bps_components_def not_less)
  then show ?thesis
    using rem [of "after_fixed (netDistributableMinor inp) (components inp)"
        "bps_components (components inp)"]
    by (auto simp: splittable_def checkDistinctIds_ok after_fixed_def split: if_splits)
qed

lemma split_ids:
  "mset (map entry_componentId (map fixed_entry (fixed_components cs) @
     map (bps_entry R B) (bps_components cs))) = mset (map componentId cs)"
proof (induction cs)
  case (Cons c cs)
  then show ?case
    by (cases "componentType c")
      (auto simp: fixed_components_def bps_components_def fixed_entry_def bps_entry_def)
qed (simp add: fixed_components_def bps_components_def)

lemma split_amounts_nonneg:
  assumes "splittable net cs" and "0 \<le> R"
  shows "\<forall>e \<in> set (map fixed_entry (fixed_components cs) @
     map (bps_entry R B) (bps_components cs)). 0 \<le> entry_amountMinor e"
  using assms share_of_split(4)
  by (auto simp: splittable_def fixed_entry_def bps_entry_def bps_amount_def fixed_amount_the)

text \<open>C1. Zero leakage: a commission split either is refused before any money is assigned, by one of
  the input checks and never by an internal-invariant throw, or it assigns every minor unit: one
  non-negative entry per component, whose amounts sum to exactly the distributable amount. It
  succeeds on exactly the well-formed inputs.\<close>

theorem commission_split_exact:
  "case computeCommissionSplits inp of
     Inl e \<Rightarrow> \<not> splittable (netDistributableMinor inp) (components inp) \<and> \<not> internal_error e
   | Inr r \<Rightarrow>
       splittable (netDistributableMinor inp) (components inp) \<and>
       sum_list (map entry_amountMinor (result_entries r)) = netDistributableMinor inp \<and>
       mset (map entry_componentId (result_entries r)) = mset (map componentId (components inp)) \<and>
       list_all (\<lambda>e. 0 \<le> entry_amountMinor e) (result_entries r)"
proof (cases "computeCommissionSplits inp")
  case (Inl e)
  then show ?thesis
    using compute_splittable internal_error_splittable by fastforce
next
  case (Inr r)
  then have ok: "splittable (netDistributableMinor inp) (components inp)"
    by (rule compute_accepts)
  then have "0 \<le> after_fixed (netDistributableMinor inp) (components inp)"
    by (simp add: splittable_def after_fixed_def)
  then show ?thesis
    using Inr ok compute_splittable [OF ok] split_ids split_amounts_nonneg
    by (fastforce simp: list_all_iff)
qed

section \<open>Fairness and order independence\<close>

text \<open>Sorting puts every component that receives a unit before every one that does not.\<close>

lemma ranked_take_drop:
  assumes "s \<in> set (take k (ranked_shares R cs))" and "t \<in> set (drop k (ranked_shares R cs))"
  shows "remainder t \<le> remainder s"
proof -
  let ?ss = "ranked_shares R cs"
  have "sorted (map (\<lambda>s. (- remainder s, share_id s)) (take k ?ss @ drop k ?ss))"
    unfolding append_take_drop_id ranked_shares_def by (rule ranking.sorted_js_sort)
  then have "(- remainder s, share_id s) \<le> (- remainder t, share_id t)"
    using assms by (auto simp: sorted_append simp del: append_take_drop_id)
  then show ?thesis by (auto simp: less_eq_prod_def)
qed

lemma bonus_idsD:
  assumes "componentId c \<in> bonus_ids R cs" and "c \<in> set cs" and "distinct (map componentId cs)"
  shows "share_of R c \<in> set (take (nat (pool_size R cs)) (ranked_shares R cs))"
proof -
  obtain s where s: "s \<in> set (take (nat (pool_size R cs)) (ranked_shares R cs))"
    "share_id s = componentId c"
    using assms(1) by (auto simp: bonus_ids_def)
  have "s \<in> share_of R ` set cs"
    unfolding ranked_shares_set [symmetric] using s(1) by (rule in_set_takeD)
  then obtain b where "b \<in> set cs" "s = share_of R b"
    by auto
  with s assms(2,3) show ?thesis by (auto simp: distinct_map dest: inj_onD)
qed

lemma not_bonus_idsD:
  assumes "componentId c \<notin> bonus_ids R cs" and "c \<in> set cs"
  shows "share_of R c \<in> set (drop (nat (pool_size R cs)) (ranked_shares R cs))"
proof -
  let ?k = "nat (pool_size R cs)" and ?ss = "ranked_shares R cs"
  have "share_of R c \<in> set (take ?k ?ss @ drop ?k ?ss)"
    using assms(2) ranked_shares_set [of R cs] by simp
  moreover have "share_of R c \<notin> set (take ?k ?ss)"
  proof
    assume "share_of R c \<in> set (take ?k ?ss)"
    then have "share_id (share_of R c) \<in> bonus_ids R cs"
      unfolding bonus_ids_def by (rule imageI)
    with assms(1) show False by simp
  qed
  ultimately show ?thesis
    unfolding set_append by blast
qed

lemma sum_list_bounded:
  fixes f :: "'a \<Rightarrow> int"
  shows "(\<And>x. x \<in> set xs \<Longrightarrow> f x \<le> b) \<Longrightarrow> sum_list (map f xs) \<le> b * int (length xs)"
  by (induction xs) (auto simp: algebra_simps add_mono)

text \<open>A component with nothing left over by the floor is never rounded up.\<close>

lemma bonus_remainder_pos:
  assumes R: "0 \<le> R" and b: "\<forall>c \<in> set cs. 0 \<le> bps_value c"
    and full: "sum_list (map bps_value cs) = 10000" and d: "distinct (map componentId cs)"
    and c: "c \<in> set cs" "componentId c \<in> bonus_ids R cs"
  shows "0 < remainder (share_of R c)"
proof (rule ccontr)
  assume z: "\<not> 0 < remainder (share_of R c)"
  let ?k = "nat (pool_size R cs)" and ?ss = "ranked_shares R cs"
  have nn: "0 \<le> remainder s \<and> remainder s \<le> 9999" if "s \<in> set ?ss" for s
    using that share_of_split(2,3) [OF R] b ranked_shares_set [of R cs] by fastforce
  have pool: "0 \<le> pool_size R cs" "?k \<le> length ?ss"
    using leftover_bounds [OF R b full] by (simp_all add: pool_size_def ranked_shares_length)
  have "10000 * pool_size R cs = sum_list (map remainder (map (share_of R) cs))"
    using leftover_remainders [OF R b] full by (simp add: pool_size_def comp_def algebra_simps)
  also have "\<dots> = sum_list (map remainder (take ?k ?ss @ drop ?k ?ss))"
    unfolding append_take_drop_id by (rule sum_list_mset_eq) (simp only: ranked_shares_mset)
  also have "\<dots> = sum_list (map remainder (take ?k ?ss)) + sum_list (map remainder (drop ?k ?ss))"
    by (simp only: map_append sum_list_append)
  also have "sum_list (map remainder (drop ?k ?ss)) \<le> 0 * int (length (drop ?k ?ss))"
    using z ranked_take_drop [OF bonus_idsD [OF c(2) c(1) d]] by (intro sum_list_bounded) force
  also have "sum_list (map remainder (take ?k ?ss)) \<le> 9999 * int (length (take ?k ?ss))"
    using nn in_set_takeD by (intro sum_list_bounded) force
  finally have "?k = 0"
    using pool by simp
  then show False
    using bonus_idsD [OF c(2) c(1) d] by simp
qed

lemma filter_key_single:
  "distinct (map f xs) \<Longrightarrow> x \<in> set xs \<Longrightarrow> filter (\<lambda>y. f y = f x) xs = [x]"
  by (induction xs) (auto simp: filter_empty_conv image_iff)

text \<open>Between equal remainders the smaller identifier comes first, and no two are equal in both.\<close>

lemma ranked_take_drop_strict:
  assumes "s \<in> set (take k (ranked_shares R cs))" and "t \<in> set (drop k (ranked_shares R cs))"
    and "distinct (map componentId cs)"
  shows "remainder t < remainder s \<or> remainder t = remainder s \<and> share_id s < share_id t"
proof -
  let ?ss = "ranked_shares R cs"
  have "sorted (map (\<lambda>s. (- remainder s, share_id s)) (take k ?ss @ drop k ?ss))"
    unfolding append_take_drop_id ranked_shares_def by (rule ranking.sorted_js_sort)
  then have "(- remainder s, share_id s) \<le> (- remainder t, share_id t)"
    using assms by (auto simp: sorted_append simp del: append_take_drop_id)
  moreover have "share_id s \<noteq> share_id t"
  proof -
    have "mset (map share_id ?ss) = mset (map componentId cs)"
      unfolding mset_map ranked_shares_mset by (induction cs) auto
    then have "distinct (map share_id (take k ?ss @ drop k ?ss))"
      using assms(3) mset_eq_imp_distinct_iff unfolding append_take_drop_id by metis
    then show ?thesis
      using assms(1,2) unfolding map_append distinct_append by (metis disjoint_iff image_eqI list.set_map)
  qed
  ultimately show ?thesis by (auto simp: less_eq_prod_def)
qed

text \<open>Each component has exactly one entry in the result.\<close>

lemma split_entry:
  assumes ok: "computeCommissionSplits inp = Inr r" and c: "c \<in> set (components inp)"
  defines "R \<equiv> after_fixed (netDistributableMinor inp) (components inp)"
  shows "filter (\<lambda>e. entry_componentId e = componentId c) (result_entries r) =
     [if componentType c = FIXED_AMOUNT then fixed_entry c else bps_entry R (bps_components (components inp)) c]"
proof -
  let ?cs = "components inp"
  have s: "splittable (netDistributableMinor inp) ?cs"
    using ok by (rule compute_accepts)
  then have entries: "result_entries r = map fixed_entry (fixed_components ?cs) @
      map (bps_entry R (bps_components ?cs)) (bps_components ?cs)"
    using compute_splittable [OF s] ok by (auto simp: R_def)
  have "distinct (map entry_componentId (result_entries r))"
    using s mset_eq_imp_distinct_iff [OF split_ids [where R = R and B = "bps_components ?cs" and cs = ?cs]]
    by (simp add: entries splittable_def)
  moreover have "(if componentType c = FIXED_AMOUNT then fixed_entry c else bps_entry R (bps_components ?cs) c)
      \<in> set (result_entries r)"
    using c by (cases "componentType c") (auto simp: entries fixed_components_def bps_components_def)
  ultimately show ?thesis
    by (drule_tac filter_key_single) (auto simp: fixed_entry_def bps_entry_def split: if_splits)
qed

text \<open>C9. Largest remainder: in the result of \<open>computeCommissionSplits\<close> every percentage component
  has exactly one entry, its exact share (\<open>remaining * bps / 10000\<close>, where \<open>remaining\<close> is what the
  fixed amounts leave) rounded down or up by less than one minor unit; a component that is rounded up
  has a larger fractional part than one that is not, or the same one and the smaller identifier; and
  a fixed component gets exactly its amount.\<close>

theorem largest_remainder_fair:
  assumes "computeCommissionSplits inp = Inr r"
    and "remaining = netDistributableMinor inp -
      (\<Sum>c\<leftarrow>filter (\<lambda>c. componentType c = FIXED_AMOUNT) (components inp). the (fixedAmountMinor c))"
    and "c \<in> set (components inp)" and "componentType c = PERCENTAGE_BPS" and "bps c = Some p"
    and "c' \<in> set (components inp)" and "componentType c' = PERCENTAGE_BPS" and "bps c' = Some p'"
  shows "\<exists>e e'. filter (\<lambda>e. entry_componentId e = componentId c) (result_entries r) = [e] \<and>
    filter (\<lambda>e. entry_componentId e = componentId c') (result_entries r) = [e'] \<and>
    \<bar>10000 * entry_amountMinor e - remaining * p\<bar> < 10000 \<and>
    (remaining * p < 10000 * entry_amountMinor e \<and> 10000 * entry_amountMinor e' \<le> remaining * p' \<longrightarrow>
       remaining * p' mod 10000 < remaining * p mod 10000 \<or>
       remaining * p' mod 10000 = remaining * p mod 10000 \<and> componentId c < componentId c') \<and>
    (\<forall>f \<in> set (components inp). componentType f = FIXED_AMOUNT \<longrightarrow>
       map entry_amountMinor (filter (\<lambda>e. entry_componentId e = componentId f) (result_entries r)) =
         [the (fixedAmountMinor f)])"
proof -
  let ?R = "after_fixed (netDistributableMinor inp) (components inp)" and ?B = "bps_components (components inp)"
  have s: "splittable (netDistributableMinor inp) (components inp)"
    using assms(1) by (rule compute_accepts)
  have B: "c \<in> set ?B" "c' \<in> set ?B"
    using assms by (simp_all add: bps_components_def)
  then have R: "0 \<le> ?R" and b: "\<forall>c \<in> set ?B. 0 \<le> bps_value c"
    and full: "sum_list (map bps_value ?B) = 10000"
    using s by (auto simp: splittable_def after_fixed_def split: if_splits)
  have d: "distinct (map componentId ?B)"
    using s by (simp add: splittable_def bps_components_def distinct_map_filter)
  have p: "bps_value c = p" "bps_value c' = p'"
    using assms by (simp_all add: bps_value_def)
  have rem: "remaining = ?R"
    using s unfolding assms(2) after_fixed_def fixed_components_def [symmetric]
    by (auto simp: splittable_def fixed_amount_the intro!: arg_cong [of _ _ sum_list] map_cong)
  have m: "10000 * floorShare (share_of ?R a) + ?R * bps_value a mod 10000 = ?R * bps_value a"
    "remainder (share_of ?R a) = ?R * bps_value a mod 10000" if "a \<in> set ?B" for a
    using share_of_split [OF R, of a] that b
    by (metis add.commute mod_mult_self2 mod_pos_pos_trivial)+
  have up: "?R * bps_value a < 10000 * bps_amount ?R ?B a \<longleftrightarrow> componentId a \<in> bonus_ids ?R ?B" if "a \<in> set ?B" for a
    using m(1) [OF that] by (simp add: bps_amount_def) (smt (verit) pos_mod_bound pos_mod_sign)
  have "\<bar>10000 * bps_amount ?R ?B c - ?R * bps_value c\<bar> < 10000"
    using share_of_split [OF R, of c] B(1) b bonus_remainder_pos [OF R b full d B(1)]
    by (auto simp: bps_amount_def)
  moreover have "?R * p' mod 10000 < ?R * p mod 10000 \<or>
       ?R * p' mod 10000 = ?R * p mod 10000 \<and> componentId c < componentId c'"
    if "?R * p < 10000 * bps_amount ?R ?B c" "10000 * bps_amount ?R ?B c' \<le> ?R * p'"
  proof -
    have "componentId c \<in> bonus_ids ?R ?B" "componentId c' \<notin> bonus_ids ?R ?B"
      using that up [OF B(1)] up [OF B(2)] by (simp_all add: p)
    then show ?thesis
      using ranked_take_drop_strict [OF bonus_idsD [OF _ B(1) d, of ?R] not_bonus_idsD [OF _ B(2), of ?R] d]
      by (simp add: m(2) [OF B(1)] m(2) [OF B(2)] p)
  qed
  ultimately show ?thesis
    using split_entry [OF assms(1,3)] split_entry [OF assms(1,6)] split_entry [OF assms(1)] assms(4,7)
    unfolding rem by (auto simp: bps_entry_def fixed_entry_def p)
qed

text \<open>The ranking, the pool and hence every amount depend on the set of components only.\<close>

lemma bps_amount_permutation:
  assumes "mset cs = mset cs'" and "distinct (map componentId cs)"
  shows "bps_amount R cs = bps_amount R cs'"
proof -
  have "inj_on (\<lambda>s. (- remainder s, share_id s)) (set (map (share_of R) cs))"
    using assms(2) by (auto simp: inj_on_def distinct_map)
  then have "ranked_shares R cs = ranked_shares R cs'"
    unfolding ranked_shares_def using assms(1) by (intro ranking.js_sort_permutation) simp_all
  moreover have "pool_size R cs = pool_size R cs'"
    unfolding pool_size_def using sum_list_mset_eq [OF assms(1)] by metis
  ultimately show ?thesis
    by (simp add: bps_amount_def [abs_def] bonus_ids_def)
qed

lemma splittable_permutation:
  assumes "mset cs = mset cs'" and "splittable net cs"
  shows "splittable net cs'"
proof -
  have ids: "mset (map componentId cs) = mset (map componentId cs')"
    using assms(1) by simp
  have F: "mset (fixed_components cs) = mset (fixed_components cs')"
    and B: "mset (bps_components cs) = mset (bps_components cs')"
    using assms(1) by (simp_all add: fixed_components_def bps_components_def)
  have "cs' \<noteq> []" "distinct (map componentId cs')"
    using assms ids mset_eq_imp_distinct_iff [OF ids] by (auto simp: splittable_def)
  moreover have "bps_components cs = [] \<longleftrightarrow> bps_components cs' = []"
    using B by (metis mset_zero_iff)
  ultimately show ?thesis
    using assms(2) sum_list_mset_eq [OF F, of fixed_amount] sum_list_mset_eq [OF B, of bps_value]
      mset_eq_setD [OF F] mset_eq_setD [OF B]
    by (auto simp: splittable_def)
qed

text \<open>The split does not depend on the order of the components: permuting the schedule's
  component list permutes the entries and changes no recipient's amount.\<close>

theorem split_order_independent:
  assumes split: "computeCommissionSplits inp = Inr r"
    and perm: "mset cs' = mset (components inp)"
  shows "\<exists>r'. computeCommissionSplits (inp\<lparr>components := cs'\<rparr>) = Inr r' \<and>
    mset (result_entries r') = mset (result_entries r)"
proof -
  let ?net = "netDistributableMinor inp" and ?cs = "components inp" and ?inp = "inp\<lparr>components := cs'\<rparr>"
  have ok: "splittable ?net ?cs" and ok': "splittable (netDistributableMinor ?inp) (components ?inp)"
    using compute_accepts [OF split] splittable_permutation [OF perm [symmetric]] by simp_all
  have F: "mset (fixed_components cs') = mset (fixed_components ?cs)"
    and B: "mset (bps_components cs') = mset (bps_components ?cs)"
    using perm by (simp_all add: fixed_components_def bps_components_def)
  have R: "after_fixed ?net cs' = after_fixed ?net ?cs"
    using sum_list_mset_eq [OF F, of fixed_amount] by (simp add: after_fixed_def)
  have "distinct (map componentId (bps_components cs'))"
    using ok' by (simp add: splittable_def bps_components_def distinct_map_filter)
  then have "bps_entry R (bps_components cs') = bps_entry R (bps_components ?cs)" for R
    using bps_amount_permutation [OF B] by (simp add: bps_entry_def [abs_def])
  then show ?thesis
    using compute_splittable [OF ok] compute_splittable [OF ok'] split F B R
    by (auto simp del: mset_map simp: mset_map [of _ "_ :: EconomicsComponentInput list"])
qed

text \<open>A schedule with one fixed and three percentage components, for the witnesses.\<close>

definition example_component ::
  "string \<Rightarrow> CommissionComponentType \<Rightarrow> int option \<Rightarrow> int option \<Rightarrow> EconomicsComponentInput" where
  "example_component i t b f = \<lparr>componentId = i, recipientOrgId = ''org-'' @ i, componentType = t,
     bps = b, fixedAmountMinor = f, claimId = None, priority = 0\<rparr>"

definition example_schedule :: "EconomicsComponentInput list" where
  "example_schedule =
     [example_component ''b'' PERCENTAGE_BPS (Some 3333) None,
      example_component ''a'' PERCENTAGE_BPS (Some 3333) None,
      example_component ''f'' FIXED_AMOUNT None (Some 25),
      example_component ''c'' PERCENTAGE_BPS (Some 3334) None]"

definition example_split :: "EconomicsComponentInput list \<Rightarrow> ComputeCommissionSplitsInput" where
  "example_split cs = \<lparr>netDistributableMinor = 125, components = cs, scheduleId = ''s'',
     scheduleVersion = 1, now = 0, inputVersions = None\<rparr>"

lemmas example_defs = example_schedule_def example_split_def example_component_def

lemma example_splittable:
  "splittable 125 example_schedule"
  "bps_components example_schedule =
     [example_component ''b'' PERCENTAGE_BPS (Some 3333) None,
      example_component ''a'' PERCENTAGE_BPS (Some 3333) None,
      example_component ''c'' PERCENTAGE_BPS (Some 3334) None]"
  by (simp_all add: splittable_def example_defs fixed_components_def bps_components_def
      fixed_amount_def bps_value_def)

lemma example_result:
  "computeCommissionSplits (example_split example_schedule) = Inr
      \<lparr>result_entries = map (\<lambda>(i, a). \<lparr>entry_componentId = i, entry_recipientOrgId = ''org-'' @ i,
         entry_claimId = None, entry_amountMinor = a, entry_direction = CREDIT\<rparr>)
         [(''f'', 25), (''b'', 33), (''a'', 33), (''c'', 34)],
       calculationVersion = ECONOMICS_ENGINE_VERSION, computedAt = 0,
       result_inputVersions = [''schedule:s:v1'']\<rparr>"
  by code_simp

theorem largest_remainder_fair_witness:
  "\<exists>r e. computeCommissionSplits (example_split example_schedule) = Inr r \<and>
     filter (\<lambda>e. entry_componentId e = ''c'') (result_entries r) = [e] \<and>
     \<bar>10000 * entry_amountMinor e - 100 * 3334\<bar> < 10000 \<and>
     map entry_amountMinor (filter (\<lambda>e. entry_componentId e = ''f'') (result_entries r)) = [25]"
proof -
  obtain r where r: "computeCommissionSplits (example_split example_schedule) = Inr r"
    using example_result by blast
  have comps: "netDistributableMinor (example_split example_schedule) = 125"
    "components (example_split example_schedule) = example_schedule"
    by (simp_all add: example_split_def)
  have "example_component ''c'' PERCENTAGE_BPS (Some 3334) None \<in> set example_schedule"
    "example_component ''a'' PERCENTAGE_BPS (Some 3333) None \<in> set example_schedule"
    by (simp_all add: example_schedule_def)
  from largest_remainder_fair [OF r refl, unfolded comps, OF this(1) _ _ this(2), of 3334 3333] r
  show ?thesis
    by (auto simp: example_schedule_def example_component_def)
qed

theorem split_order_independent_witness:
  "\<exists>r'. computeCommissionSplits (example_split example_schedule
       \<lparr>components := rev example_schedule\<rparr>) = Inr r' \<and>
     mset (map entry_amountMinor (result_entries r')) = {#25, 33, 33, 34#}"
  using split_order_independent [OF example_result, of "rev example_schedule"]
  by (auto simp: example_split_def)

section \<open>The ledger's balance\<close>

text \<open>What the entries of one type add up to; adjustments count with their direction.\<close>

definition type_total :: "LedgerEntryType \<Rightarrow> AccrualLedgerEntryLike list \<Rightarrow> int" where
  "type_total t es = sum_list (map (\<lambda>e. if t = ADJUSTMENT then signed_amount e else amountMinor e)
     (filter (\<lambda>e. entryType e = t) es))"

definition has_type :: "LedgerEntryType \<Rightarrow> AccrualLedgerEntryLike list \<Rightarrow> bool" where
  "has_type t es \<longleftrightarrow> t \<in> entryType ` set es"

lemma type_total_simps [simp]:
  "type_total t [] = 0"
  "type_total t (e # es) =
     (if entryType e = t then (if t = ADJUSTMENT then signed_amount e else amountMinor e) else 0) +
     type_total t es"
  by (simp_all add: type_total_def)

lemma type_total_append [simp]: "type_total t (xs @ ys) = type_total t xs + type_total t ys"
  by (simp add: type_total_def)

lemma type_total_mset: "mset xs = mset ys \<Longrightarrow> type_total t xs = type_total t ys"
  unfolding type_total_def by (rule sum_list_mset_eq) simp

lemma has_type_simps [simp]:
  "\<not> has_type t []" "has_type t (e # es) \<longleftrightarrow> entryType e = t \<or> has_type t es"
  by (auto simp: has_type_def)

lemma has_type_mset: "mset xs = mset ys \<Longrightarrow> has_type t xs = has_type t ys"
  unfolding has_type_def by (drule mset_eq_setD) simp

lemma balance_fold:
  "foldl balance_step a es = a\<lparr>acc_net := acc_net a + type_total ADJUSTMENT es,
     acc_paid := acc_paid a + type_total PAYMENT es,
     hasAdjustment := (hasAdjustment a \<or> has_type ADJUSTMENT es),
     hasReversal := (hasReversal a \<or> has_type REVERSAL es)\<rparr>"
  by (induction es arbitrary: a) (auto simp: balance_step_def split: LedgerEntryType.split)

lemma recon_fold:
  "foldl recon_step a es = a\<lparr>rec_distributed := rec_distributed a + type_total ACCRUAL es,
     rec_paid := rec_paid a + type_total PAYMENT es,
     rec_adjustment := rec_adjustment a + type_total ADJUSTMENT es,
     rec_reversed := rec_reversed a + type_total REVERSAL es\<rparr>"
  by (induction es arbitrary: a) (auto simp: recon_step_def split: LedgerEntryType.split)

text \<open>A chain is one accrual and the rows that refer to it.\<close>

definition is_chain :: "AccrualLedgerEntryLike list \<Rightarrow> bool" where
  "is_chain es \<longleftrightarrow> length (filter (\<lambda>e. entryType e = ACCRUAL) es) = 1"

text \<open>The ledger's view of a chain, as totals.\<close>

definition net_owed :: "AccrualLedgerEntryLike list \<Rightarrow> int" where
  "net_owed es = type_total ACCRUAL es + type_total ADJUSTMENT es"

definition still_owed :: "AccrualLedgerEntryLike list \<Rightarrow> int" where
  "still_owed es = (if has_type REVERSAL es then 0 else net_owed es - type_total PAYMENT es)"

definition derived_status :: "AccrualLedgerEntryLike list \<Rightarrow> AccrualDerivedStatus" where
  "derived_status es =
     (if has_type REVERSAL es then REVERSED
      else if net_owed es \<le> type_total PAYMENT es then PAID
      else if type_total PAYMENT es > 0 then PARTIALLY_PAID
      else if has_type ADJUSTMENT es then ADJUSTED
      else ACCRUED)"

lemma computeAccrualBalance_eq:
  "computeAccrualBalance es =
     (if is_chain es
      then Inr \<lparr>balance_status = derived_status es, originalAmountMinor = type_total ACCRUAL es,
                netAmountMinor = net_owed es, paidAmountMinor = type_total PAYMENT es,
                outstandingAmountMinor = still_owed es\<rparr>
      else Inl (AccrualCount (length (filter (\<lambda>e. entryType e = ACCRUAL) es))))"
proof (cases "is_chain es")
  case True
  then obtain a where a: "filter (\<lambda>e. entryType e = ACCRUAL) es = [a]"
    by (auto simp: is_chain_def length_Suc_conv)
  then have "type_total ACCRUAL es = amountMinor a"
    by (simp add: type_total_def)
  then show ?thesis
    using True by (simp add: computeAccrualBalance_def Let_def a balance_fold net_owed_def still_owed_def
        derived_status_def)
next
  case False
  then show ?thesis
    by (auto simp: computeAccrualBalance_def Let_def is_chain_def split: list.split)
qed

lemma is_chain_mset: "mset xs = mset ys \<Longrightarrow> is_chain xs = is_chain ys"
  unfolding is_chain_def by (metis mset_filter size_mset)

text \<open>The balance of an accrual is a function of its rows and not of the order in which the
  ledger returns them.\<close>

theorem accrual_balance_order_independent:
  assumes "mset es = mset es'"
  shows "computeAccrualBalance es = computeAccrualBalance es'"
proof -
  have "length (filter P es) = length (filter P es')" for P
    using assms by (metis mset_filter size_mset)
  then show ?thesis
    unfolding computeAccrualBalance_eq net_owed_def still_owed_def derived_status_def
    using type_total_mset [OF assms] has_type_mset [OF assms] is_chain_mset [OF assms] by simp
qed

definition example_chain :: "AccrualLedgerEntryLike list" where
  "example_chain =
     [\<lparr>entryType = ACCRUAL, direction = CREDIT, amountMinor = 100\<rparr>,
      \<lparr>entryType = PAYMENT, direction = DEBIT, amountMinor = 30\<rparr>,
      \<lparr>entryType = ADJUSTMENT, direction = DEBIT, amountMinor = 20\<rparr>]"

theorem accrual_balance_order_independent_witness:
  "computeAccrualBalance (rev example_chain) = Inr
     \<lparr>balance_status = PARTIALLY_PAID, originalAmountMinor = 100, netAmountMinor = 80,
      paidAmountMinor = 30, outstandingAmountMinor = 50\<rparr>"
proof -
  have "computeAccrualBalance example_chain = Inr
     \<lparr>balance_status = PARTIALLY_PAID, originalAmountMinor = 100, netAmountMinor = 80,
      paidAmountMinor = 30, outstandingAmountMinor = 50\<rparr>"
    by code_simp
  then show ?thesis
    using accrual_balance_order_independent [of "rev example_chain" example_chain] by simp
qed

text \<open>A reversal closes its chain: it is absent, or its amount is what the chain still owed.\<close>

definition closes_chain :: "AccrualLedgerEntryLike list \<Rightarrow> bool" where
  "closes_chain es \<longleftrightarrow>
     type_total REVERSAL es = (if has_type REVERSAL es then net_owed es - type_total PAYMENT es else 0)"

lemma still_owed_closed:
  "closes_chain es \<Longrightarrow> still_owed es = net_owed es - type_total PAYMENT es - type_total REVERSAL es"
  by (auto simp: closes_chain_def still_owed_def split: if_splits)

lemma reconcile_outstanding:
  "outstandingMinor (reconcileRevenueEvent inp) =
     net_owed (ledgerEntries inp) - type_total PAYMENT (ledgerEntries inp) -
     type_total REVERSAL (ledgerEntries inp)"
  by (simp add: reconcileRevenueEvent_def recon_fold net_owed_def)

text \<open>The period view and the per-accrual view of the ledger agree: for a revenue event whose
  rows are the chains of its accruals, each reversed in full or not at all, the outstanding
  amount of the reconciliation is the sum of the outstanding amounts of the accruals.\<close>

theorem period_outstanding_is_sum_of_accruals:
  assumes rows: "mset (ledgerEntries inp) = mset (concat cs)"
    and ok: "list_all (\<lambda>es. is_chain es \<and> closes_chain es) cs"
  shows "\<exists>balances. emap computeAccrualBalance cs = Inr balances \<and>
    outstandingMinor (reconcileRevenueEvent inp) = sum_list (map outstandingAmountMinor balances)"
proof -
  have "\<exists>balances. emap computeAccrualBalance cs = Inr balances \<and>
      net_owed (concat cs) - type_total PAYMENT (concat cs) - type_total REVERSAL (concat cs)
      = sum_list (map outstandingAmountMinor balances)"
    using ok
    by (induction cs)
      (auto simp: computeAccrualBalance_eq still_owed_closed net_owed_def)
  then show ?thesis
    using rows by (simp add: reconcile_outstanding net_owed_def type_total_mset [OF rows])
qed

theorem period_outstanding_is_sum_of_accruals_witness:
  "\<exists>balances. emap computeAccrualBalance [example_chain, rev example_chain] = Inr balances \<and>
     outstandingMinor (reconcileRevenueEvent \<lparr>grossAmountMinor = 200, deductionsMinor = 0,
       recon_netDistributableMinor = 200, ledgerEntries = rev example_chain @ example_chain\<rparr>)
     = sum_list (map outstandingAmountMinor balances)"
  by (rule period_outstanding_is_sum_of_accruals)
    (simp_all add: example_chain_def is_chain_def closes_chain_def)

text \<open>The cap and floor disclosure is exact: it refuses exactly negative inputs, reports an
  excess or a shortfall only when there is one, and the reported amount brings the total back to
  the cap or up to the floor.\<close>

theorem cap_floor_exact:
  "case evaluateScheduleCapFloor inp of
     Inl e \<Rightarrow> cumulativeDistributedMinor inp < 0 \<or>
       (\<exists>c. capMinor inp = Some c \<and> c < 0) \<or> (\<exists>f. floorMinor inp = Some f \<and> f < 0)
   | Inr s \<Rightarrow>
       0 \<le> cumulativeDistributedMinor inp \<and>
       withinCap s = (case capMinor inp of None \<Rightarrow> True | Some c \<Rightarrow> cumulativeDistributedMinor inp \<le> c) \<and>
       withinFloor s = (case floorMinor inp of None \<Rightarrow> True | Some f \<Rightarrow> f \<le> cumulativeDistributedMinor inp) \<and>
       (case capExceededByMinor s of
          None \<Rightarrow> withinCap s
        | Some x \<Rightarrow> 0 < x \<and> capMinor inp = Some (cumulativeDistributedMinor inp - x)) \<and>
       (case floorShortfallMinor s of
          None \<Rightarrow> withinFloor s
        | Some x \<Rightarrow> 0 < x \<and> floorMinor inp = Some (cumulativeDistributedMinor inp + x))"
  by (auto simp: evaluateScheduleCapFloor_def Let_def ebind_eq_Inl ebind_eq_Inr opt_money_check_def
      money_check_def assertBigIntMinorUnits_def split: sum.splits option.splits if_splits)

end
