(* ===== verification/Volume_Reconciliation.thy ===== *)
theory Volume_Reconciliation
  imports Money
begin

text \<open>
  \<open>packages/domain/src/volume-reconciliation.ts\<close>: the mandatory reconciliation of an
  opportunity's volume slices with its offered volume. The loop over the slices is
  \<open>slice_step\<close>; mismatches carry their code (the message texts are not modelled).
\<close>

record VolumeSliceInput =
  jurisdiction :: string
  mcc :: string
  cardOrigin :: string
  channel :: string
  period :: string
  slice_currency :: string
  slice_amountMinor :: int

record OpportunityVolumeSummary =
  summary_currency :: string
  offeredCardGpvMinor :: int
  movableNowMinor :: int
  movable30dMinor :: int
  movable90dMinor :: int

datatype VolumeMismatchCode = duplicate_cell | sum_mismatch | movability_order | currency_mismatch

record VolumeReconciliationResult =
  vol_reconciled :: bool
  sliceTotalMinor :: int
  vol_offeredCardGpvMinor :: int
  vol_mismatches :: "VolumeMismatchCode list"

definition cellKey :: "VolumeSliceInput \<Rightarrow> string" where
  "cellKey s = jurisdiction s @ ''|'' @ mcc s @ ''|'' @ cardOrigin s @ ''|'' @ channel s @ ''|'' @ period s"

text \<open>The variables of the loop: the cells seen, the running total, the mismatches so far.\<close>

record volume_acc =
  seenCells :: "string list"
  acc_total :: int
  acc_mismatches :: "VolumeMismatchCode list"

definition slice_step ::
  "OpportunityVolumeSummary \<Rightarrow> volume_acc \<Rightarrow> VolumeSliceInput \<Rightarrow> MoneyInvariantError + volume_acc" where
  "slice_step summary a s =
     ebind (throw_if (slice_amountMinor s < 0) (NegativeSlice (slice_amountMinor s))) (\<lambda>_.
     let dup = (if cellKey s \<in> set (seenCells a) then [duplicate_cell] else []);
         a = a\<lparr>seenCells := cellKey s # seenCells a, acc_mismatches := acc_mismatches a @ dup\<rparr>
     in Inr (if slice_currency s \<noteq> summary_currency summary
             then a\<lparr>acc_mismatches := acc_mismatches a @ [currency_mismatch]\<rparr>
             else a\<lparr>acc_total := acc_total a + slice_amountMinor s\<rparr>))"

fun slice_loop ::
  "OpportunityVolumeSummary \<Rightarrow> volume_acc \<Rightarrow> VolumeSliceInput list \<Rightarrow> MoneyInvariantError + volume_acc" where
  "slice_loop summary a [] = Inr a"
| "slice_loop summary a (s # ss) = ebind (slice_step summary a s) (\<lambda>a. slice_loop summary a ss)"

definition reconcileOpportunityVolume ::
  "VolumeSliceInput list \<Rightarrow> OpportunityVolumeSummary \<Rightarrow> MoneyInvariantError + VolumeReconciliationResult" where
  "reconcileOpportunityVolume slices summary =
     ebind (slice_loop summary \<lparr>seenCells = [], acc_total = 0, acc_mismatches = []\<rparr> slices) (\<lambda>a.
     let ms1 = (if acc_total a \<noteq> offeredCardGpvMinor summary then [sum_mismatch] else []);
         ms2 = (if \<not> (movableNowMinor summary \<le> movable30dMinor summary \<and>
                       movable30dMinor summary \<le> movable90dMinor summary \<and>
                       movable90dMinor summary \<le> offeredCardGpvMinor summary)
                then [movability_order] else []);
         ms = acc_mismatches a @ ms1 @ ms2
     in Inr \<lparr>vol_reconciled = (ms = []), sliceTotalMinor = acc_total a,
             vol_offeredCardGpvMinor = offeredCardGpvMinor summary, vol_mismatches = ms\<rparr>)"

section \<open>The loop\<close>

definition in_currency :: "OpportunityVolumeSummary \<Rightarrow> VolumeSliceInput list \<Rightarrow> VolumeSliceInput list" where
  "in_currency summary ss = filter (\<lambda>s. slice_currency s = summary_currency summary) ss"

lemma slice_loop_result:
  "slice_loop summary a ss = Inr a' \<Longrightarrow>
     (\<forall>s \<in> set ss. 0 \<le> slice_amountMinor s) \<and>
     acc_total a' = acc_total a + sum_list (map slice_amountMinor (in_currency summary ss)) \<and>
     (acc_mismatches a' = [] \<longleftrightarrow>
        acc_mismatches a = [] \<and> (\<forall>s \<in> set ss. slice_currency s = summary_currency summary) \<and>
        distinct (map cellKey ss) \<and> set (map cellKey ss) \<inter> set (seenCells a) = {})"
proof (induction ss arbitrary: a)
  case (Cons s ss)
  from Cons.prems obtain b where b: "slice_step summary a s = Inr b" "slice_loop summary b ss = Inr a'"
    by (auto simp: ebind_eq_Inr)
  have keys: "set (map cellKey ss) \<inter> insert k S = {} \<longleftrightarrow>
      k \<notin> set (map cellKey ss) \<and> set (map cellKey ss) \<inter> S = {}" for k S
    by blast
  show ?case
    using Cons.IH [OF b(2), unfolded keys] b(1)
    by (auto simp del: set_map simp: keys slice_step_def Let_def in_currency_def ebind_eq_Inr split: if_splits)
qed (simp add: in_currency_def)

lemma slice_loop_throws:
  "slice_loop summary a ss = Inl e \<Longrightarrow> \<exists>s \<in> set ss. slice_amountMinor s < 0 \<and> e = NegativeSlice (slice_amountMinor s)"
  by (induction ss arbitrary: a) (auto simp: ebind_eq_Inl slice_step_def Let_def split: if_splits)

text \<open>The specification's invariant, one conjunct per rule.\<close>

definition volume_invariant :: "VolumeSliceInput list \<Rightarrow> OpportunityVolumeSummary \<Rightarrow> bool" where
  "volume_invariant ss summary \<longleftrightarrow>
     distinct (map cellKey ss) \<and>
     (\<forall>s \<in> set ss. slice_currency s = summary_currency summary) \<and>
     sum_list (map slice_amountMinor ss) = offeredCardGpvMinor summary \<and>
     movableNowMinor summary \<le> movable30dMinor summary \<and>
     movable30dMinor summary \<le> movable90dMinor summary \<and>
     movable90dMinor summary \<le> offeredCardGpvMinor summary"

lemma reconcile_volume_result:
  assumes "reconcileOpportunityVolume ss summary = Inr r"
  shows "(\<forall>s \<in> set ss. 0 \<le> slice_amountMinor s) \<and>
    vol_reconciled r = volume_invariant ss summary \<and>
    sliceTotalMinor r = sum_list (map slice_amountMinor (in_currency summary ss))"
proof -
  obtain a where a: "slice_loop summary \<lparr>seenCells = [], acc_total = 0, acc_mismatches = []\<rparr> ss = Inr a"
    using assms by (auto simp: reconcileOpportunityVolume_def ebind_eq_Inr)
  have "in_currency summary ss = ss" if "\<forall>s \<in> set ss. slice_currency s = summary_currency summary"
    using that by (simp add: in_currency_def)
  then show ?thesis
    using assms slice_loop_result [OF a] a
    by (auto simp: reconcileOpportunityVolume_def Let_def volume_invariant_def split: if_splits)
qed

text \<open>Volume reconciliation is exact: it throws only on a negative slice and otherwise reports
  \<open>reconciled\<close> exactly when no cell is repeated, every slice is in the opportunity's currency,
  the slices sum to the offered volume and the movable amounts are ordered below it; the total
  it reports never mixes currencies.\<close>

theorem volume_reconciled_iff:
  "case reconcileOpportunityVolume ss summary of
     Inl e \<Rightarrow> list_ex (\<lambda>s. slice_amountMinor s < 0 \<and> e = NegativeSlice (slice_amountMinor s)) ss
   | Inr r \<Rightarrow>
       list_all (\<lambda>s. 0 \<le> slice_amountMinor s) ss \<and>
       vol_reconciled r = volume_invariant ss summary \<and>
       sliceTotalMinor r = sum_list (map slice_amountMinor (in_currency summary ss))"
proof (cases "reconcileOpportunityVolume ss summary")
  case (Inl e)
  then have "slice_loop summary \<lparr>seenCells = [], acc_total = 0, acc_mismatches = []\<rparr> ss = Inl e"
    by (auto simp: reconcileOpportunityVolume_def Let_def ebind_eq_Inl)
  then show ?thesis
    using Inl slice_loop_throws by (fastforce simp: list_ex_iff)
next
  case (Inr r)
  then show ?thesis
    using reconcile_volume_result [OF Inr] by (simp add: list_all_iff)
qed

section \<open>One total for every grouping\<close>

text \<open>The volume per value of a grouping key: by jurisdiction, by merchant category or by both.\<close>

definition volume_by :: "(VolumeSliceInput \<Rightarrow> 'k) \<Rightarrow> VolumeSliceInput list \<Rightarrow> 'k \<Rightarrow> int" where
  "volume_by g ss k = sum_list (map slice_amountMinor (filter (\<lambda>s. g s = k) ss))"

lemma volume_by_Cons:
  "volume_by g (s # ss) k = (if g s = k then slice_amountMinor s else 0) + volume_by g ss k"
  by (simp add: volume_by_def)

lemma volume_by_total:
  "distinct ks \<Longrightarrow> g ` set ss \<subseteq> set ks \<Longrightarrow>
   sum_list (map (volume_by g ss) ks) = sum_list (map slice_amountMinor ss)"
proof (induction ss)
  case (Cons s ss)
  have "sum_list (map (\<lambda>k. if g s = k then slice_amountMinor s else 0) ks) = slice_amountMinor s"
    using Cons.prems by (simp add: sum_list_distinct_conv_sum_set sum.delta)
  then show ?case
    using Cons by (simp add: volume_by_Cons [abs_def] sum_list_addf)
qed (simp add: volume_by_def [abs_def])

text \<open>The three sums of the mandatory reconciliation are one: when the volume reconciles, grouping
  the slices by any key (jurisdiction, merchant category, the pair) and summing the groups gives
  the offered volume, and no two slices describe the same cell.\<close>

theorem volume_groupings_agree:
  assumes "reconcileOpportunityVolume ss summary = Inr r" and "vol_reconciled r"
  shows "sum_list (map (volume_by g ss) (remdups (map g ss))) = offeredCardGpvMinor summary \<and>
    distinct (map (\<lambda>s. (jurisdiction s, mcc s, cardOrigin s, channel s, period s)) ss)"
proof -
  have inv: "volume_invariant ss summary"
    using reconcile_volume_result [OF assms(1)] assms(2) by simp
  have "distinct (map (\<lambda>s. (jurisdiction s, mcc s, cardOrigin s, channel s, period s)) ss)"
    using inv by (auto simp: volume_invariant_def distinct_map inj_on_def cellKey_def)
  moreover have "sum_list (map (volume_by g ss) (remdups (map g ss))) = sum_list (map slice_amountMinor ss)"
    by (rule volume_by_total) simp_all
  ultimately show ?thesis
    using inv by (simp add: volume_invariant_def)
qed

theorem volume_groupings_agree_witness:
  "sum_list (map (volume_by jurisdiction
     [\<lparr>jurisdiction = ''DE'', mcc = ''5411'', cardOrigin = ''EU'', channel = ''ECOM'', period = ''Q1'',
       slice_currency = ''EUR'', slice_amountMinor = 70\<rparr>,
      \<lparr>jurisdiction = ''FR'', mcc = ''5411'', cardOrigin = ''EU'', channel = ''ECOM'', period = ''Q1'',
       slice_currency = ''EUR'', slice_amountMinor = 30\<rparr>]) [''DE'', ''FR'']) = 100"
  (is "sum_list (map (volume_by jurisdiction ?ss) ?ks) = 100")
proof -
  let ?summary = "\<lparr>summary_currency = ''EUR'', offeredCardGpvMinor = 100, movableNowMinor = 10,
    movable30dMinor = 20, movable90dMinor = 100\<rparr>"
  have run: "reconcileOpportunityVolume ?ss ?summary = Inr \<lparr>vol_reconciled = True,
      sliceTotalMinor = 100, vol_offeredCardGpvMinor = 100, vol_mismatches = []\<rparr>"
    by code_simp
  show ?thesis
    using volume_groupings_agree [OF run, of jurisdiction] by simp
qed

text \<open>Without the separator inside a field the cell key is the cell.\<close>

lemma append_sep_inject:
  "c \<notin> set xs \<Longrightarrow> c \<notin> set xs' \<Longrightarrow> xs @ c # ys = xs' @ c # ys' \<longleftrightarrow> xs = xs' \<and> ys = ys'"
proof (induction xs arbitrary: xs')
  case Nil
  then show ?case by (cases xs') auto
next
  case (Cons x xs)
  then show ?case by (cases xs') auto
qed

lemma cellKey_inject:
  assumes "list_all (\<lambda>f. CHR ''|'' \<notin> set f) [jurisdiction s, mcc s, cardOrigin s, channel s]"
    and "list_all (\<lambda>f. CHR ''|'' \<notin> set f) [jurisdiction t, mcc t, cardOrigin t, channel t]"
  shows "cellKey s = cellKey t \<longleftrightarrow>
    (jurisdiction s, mcc s, cardOrigin s, channel s, period s) =
    (jurisdiction t, mcc t, cardOrigin t, channel t, period t)"
  using assms by (simp add: cellKey_def append_sep_inject)

end
