(* ===== verification/GF256.thy ===== *)
theory GF256
  imports "HOL-Library.Word" TOL_Prelude
begin

unbundle bit_operations_syntax

text \<open>
  \<open>packages/crypto/src/gf256.ts\<close>: byte arithmetic in GF(256) by logarithm tables. A byte is
  an \<open>8 word\<close>; bitwise operators of the language work on 32-bit integers, so \<open>xtime\<close>
  computes in \<open>32 word\<close>. The tables are the result of the loop of \<open>buildTables\<close>, run on
  zero-filled arrays.
\<close>

type_synonym byte = "8 word"

section \<open>The code\<close>

definition xtime :: "byte \<Rightarrow> byte" where
  "xtime x =
     (let n = ucast x :: 32 word; shifted = push_bit 1 n in
      ucast (if n AND 0x80 \<noteq> 0 then (shifted XOR 0x11b) AND 0xff else shifted AND 0xff))"

record gf_tables =
  tab_EXP :: "byte list"
  tab_LOG :: "byte list"
  tab_x :: byte

definition table_step :: "gf_tables \<Rightarrow> nat \<Rightarrow> gf_tables" where
  "table_step t i =
     \<lparr>tab_EXP = (tab_EXP t)[i := tab_x t],
      tab_LOG = (tab_LOG t)[unat (tab_x t) := of_nat i],
      tab_x = xtime (tab_x t) XOR tab_x t\<rparr>"

definition buildTables :: gf_tables where
  "buildTables = foldl table_step
     \<lparr>tab_EXP = replicate 256 0, tab_LOG = replicate 256 0, tab_x = 1\<rparr> [0..<255]"

definition EXP :: "byte list" where
  "EXP = tab_EXP buildTables"

definition LOG :: "byte list" where
  "LOG = tab_LOG buildTables"

definition gfAdd :: "byte \<Rightarrow> byte \<Rightarrow> byte" where
  "gfAdd a b = a XOR b"

definition gfMul :: "byte \<Rightarrow> byte \<Rightarrow> byte" where
  "gfMul a b =
     (if a = 0 \<or> b = 0 then 0
      else EXP ! ((unat (LOG ! unat a) + unat (LOG ! unat b)) mod 255))"

text \<open>\<open>DivisionByZero\<close> is the \<open>RangeError\<close> of \<open>gfDiv\<close>.\<close>

datatype gf_error = DivisionByZero

definition gfDiv :: "byte \<Rightarrow> byte \<Rightarrow> gf_error + byte" where
  "gfDiv a b =
     (if b = 0 then Inl DivisionByZero
      else if a = 0 then Inr 0
      else Inr (EXP ! nat ((int (unat (LOG ! unat a)) - int (unat (LOG ! unat b)) + 255) mod 255)))"

section \<open>The generator\<close>

definition mul3 :: "byte \<Rightarrow> byte" where
  "mul3 x = xtime x XOR x"

lemma reduction_low_byte: "n < 8 \<Longrightarrow> bit (0x11b :: 32 word) n = bit (0x1b :: byte) n"
proof -
  assume "n < 8"
  then have "n = 0 \<or> n = 1 \<or> n = 2 \<or> n = 3 \<or> n = 4 \<or> n = 5 \<or> n = 6 \<or> n = 7"
    by linarith
  then show ?thesis
    by (elim disjE) simp_all
qed

lemma high_bit_test: "(ucast (x :: byte) :: 32 word) AND 0x80 \<noteq> 0 \<longleftrightarrow> bit x 7"
proof -
  have "(ucast x :: 32 word) AND 2 ^ 7 \<noteq> 0 \<longleftrightarrow> bit (ucast x :: 32 word) 7"
    by (simp only: and_exp_eq_0_iff_not_bit not_not)
  then show ?thesis
    by (simp add: bit_simps)
qed

lemma low_byte:
  assumes "n < 8"
  shows "bit (ucast ((w :: 32 word) AND 0xff) :: byte) n = bit w n"
proof -
  have "bit (ucast (w AND mask 8) :: byte) n = bit w n"
    using assms by (simp add: bit_simps)
  then show ?thesis
    by (simp add: mask_eq_exp_minus_1)
qed

lemma shift_bit:
  assumes "n < 8"
  shows "bit (push_bit 1 (ucast (x :: byte) :: 32 word)) n = bit (push_bit 1 x) n"
  unfolding bit_push_bit_iff bit_unsigned_iff using assms by auto

lemma xtime_alt: "xtime x = push_bit 1 x XOR (if bit x 7 then 0x1b else 0)"
proof (rule bit_word_eqI)
  fix n assume "n < LENGTH(8)"
  then have n: "n < 8" by simp
  show "bit (xtime x) n = bit (push_bit 1 x XOR (if bit x 7 then 0x1b else 0)) n"
    unfolding xtime_def Let_def high_bit_test
    by (cases "bit x 7")
      (simp_all only: if_True if_False low_byte [OF n] bit_xor_iff shift_bit [OF n]
        reduction_low_byte [OF n] bit_0_eq bot_fun_def bot_bool_def simp_thms)
qed

lemma xtime_xor: "xtime (x XOR y) = xtime x XOR xtime y"
  by (auto simp: xtime_alt bit_simps ac_simps)

lemma mul3_xor: "mul3 (x XOR y) = mul3 x XOR mul3 y"
  by (simp add: mul3_def xtime_xor ac_simps)

text \<open>The orbit of the generator, one application of \<open>mul3\<close> at a time.\<close>

definition orbit3 :: "byte list" where
  "orbit3 =
    [1, 3, 5, 15, 17, 51, 85, 255, 26, 46, 114, 150, 161, 248, 19, 53, 95, 225, 56, 72, 216, 115,
     149, 164, 247, 2, 6, 10, 30, 34, 102, 170, 229, 52, 92, 228, 55, 89, 235, 38, 106, 190, 217,
     112, 144, 171, 230, 49, 83, 245, 4, 12, 20, 60, 68, 204, 79, 209, 104, 184, 211, 110, 178,
     205, 76, 212, 103, 169, 224, 59, 77, 215, 98, 166, 241, 8, 24, 40, 120, 136, 131, 158, 185,
     208, 107, 189, 220, 127, 129, 152, 179, 206, 73, 219, 118, 154, 181, 196, 87, 249, 16, 48,
     80, 240, 11, 29, 39, 105, 187, 214, 97, 163, 254, 25, 43, 125, 135, 146, 173, 236, 47, 113,
     147, 174, 233, 32, 96, 160, 251, 22, 58, 78, 210, 109, 183, 194, 93, 231, 50, 86, 250, 21,
     63, 65, 195, 94, 226, 61, 71, 201, 64, 192, 91, 237, 44, 116, 156, 191, 218, 117, 159, 186,
     213, 100, 172, 239, 42, 126, 130, 157, 188, 223, 122, 142, 137, 128, 155, 182, 193, 88, 232,
     35, 101, 175, 234, 37, 111, 177, 200, 67, 197, 84, 252, 31, 33, 99, 165, 244, 7, 9, 27, 45,
     119, 153, 176, 203, 70, 202, 69, 207, 74, 222, 121, 139, 134, 145, 168, 227, 62, 66, 198,
     81, 243, 14, 18, 54, 90, 238, 41, 123, 141, 140, 143, 138, 133, 148, 167, 242, 13, 23, 57,
     75, 221, 124, 132, 151, 162, 253, 28, 36, 108, 180, 199, 82, 246]"

lemma mul3_orbit3: "map mul3 orbit3 = tl orbit3 @ [1]"
  unfolding orbit3_def by (simp add: mul3_def xtime_def)


abbreviation g :: "nat \<Rightarrow> byte" where
  "g n \<equiv> (mul3 ^^ n) 1"

lemma orbit3_length [simp]: "length orbit3 = 255"
  by (simp add: orbit3_def)

lemma orbit3_Suc: "i < 254 \<Longrightarrow> orbit3 ! Suc i = mul3 (orbit3 ! i)"
proof -
  assume i: "i < 254"
  then have "mul3 (orbit3 ! i) = (tl orbit3 @ [1]) ! i"
    unfolding mul3_orbit3 [symmetric] by simp
  with i show ?thesis by (simp add: nth_append nth_tl)
qed

lemma g_orbit3: "i < 255 \<Longrightarrow> g i = orbit3 ! i"
proof (induction i)
  case 0
  then show ?case by (simp add: orbit3_def)
next
  case (Suc i)
  then show ?case using orbit3_Suc [of i] by simp
qed

lemma g_powers:
  "g 255 = 1" "g 85 \<noteq> 1" "g 51 \<noteq> 1" "g 15 \<noteq> 1"
proof -
  have "g 255 = mul3 (orbit3 ! 254)"
    using g_orbit3 [of 254] funpow.simps(2) [of 254 mul3] by simp
  then show "g 255 = 1"
    by (simp add: orbit3_def mul3_def xtime_def)
qed (simp_all add: g_orbit3 orbit3_def)

lemma mul3_0 [simp]: "(mul3 ^^ n) 0 = 0"
  by (induction n) (simp_all add: mul3_def xtime_def)

lemma g_add: "g (m + n) = (mul3 ^^ m) (g n)"
  by (simp add: funpow_add)

lemma g_mult: "g n = 1 \<Longrightarrow> g (n * k) = 1"
  by (induction k) (simp_all add: funpow_add)

lemma g_mod: "g (n mod 255) = g n"
proof -
  have "g n = g (n mod 255 + 255 * (n div 255))" by simp
  also have "\<dots> = g (n mod 255)"
    using g_mult [OF g_powers(1)] by (simp only: g_add)
  finally show ?thesis by simp
qed

lemma divisors_255:
  assumes "e dvd 255" and "e < (255 :: nat)"
  shows "e dvd 15 \<or> e dvd 51 \<or> e dvd 85"
proof -
  have "list_all (\<lambda>e. e dvd 255 \<longrightarrow> e dvd 15 \<or> e dvd 51 \<or> e dvd (85 :: nat)) [2..<255]"
    by (simp add: upt_rec_numeral)
  then have "2 \<le> e \<Longrightarrow> ?thesis"
    using assms by (simp only: list_all_iff set_upt) auto
  moreover have "e \<noteq> 0"
    using assms(1) by (rule contrapos_pn) simp
  ultimately show ?thesis by (cases "e = 1") auto
qed

lemma g_order: "0 < d \<Longrightarrow> d < 255 \<Longrightarrow> g d \<noteq> 1"
proof
  assume d: "0 < d" "d < 255" "g d = 1"
  let ?e = "gcd d 255"
  obtain x y where xy: "d * x = 255 * y + ?e"
    using bezout_nat [of d 255] d(1) by auto
  have "?e \<le> d"
    using d(1) by (simp add: gcd_le1_nat)
  then have "?e dvd 15 \<or> ?e dvd 51 \<or> ?e dvd 85"
    using d(2) by (intro divisors_255) (simp_all only: gcd_dvd2 order.strict_trans1)
  moreover have "g ?e = 1"
  proof -
    have "g (255 * y + ?e) = 1"
      unfolding xy [symmetric] using d(3) by (rule g_mult)
    then have "(mul3 ^^ ?e) (g (255 * y)) = 1"
      by (simp only: add.commute [of "255 * y"] g_add)
    then show ?thesis
      by (simp only: g_mult [OF g_powers(1)])
  qed
  ultimately show False
    using g_mult g_powers(2-4) by (elim disjE dvdE) metis+
qed

lemma g_inj: "inj_on g {..<255}"
proof (rule linorder_inj_onI')
  fix i j :: nat
  assume "i \<in> {..<255}" "j \<in> {..<255}" "i < j"
  then have d: "0 < 255 - j + i" "255 - j + i < 255" "255 - j + j = 255" by auto
  show "g i \<noteq> g j"
  proof
    assume "g i = g j"
    then have "g (255 - j + i) = g (255 - j + j)"
      by (simp only: g_add)
    with g_order [OF d(1,2)] d(3) g_powers(1) show False by simp
  qed
qed

lemma g_nonzero [simp]: "g i \<noteq> 0"
proof
  assume "g i = 0"
  then have "g (255 * i - i + i) = 0"
    by (simp only: g_add mul3_0)
  moreover have "255 * i - i + i = 255 * i" by simp
  ultimately show False using g_mult [OF g_powers(1), of i] by simp
qed

lemma g_range: "g ` {..<255} = UNIV - {0}"
proof (rule card_subset_eq)
  show "card (g ` {..<255}) = card (UNIV - {0 :: byte})"
    using card_image [OF g_inj] by (simp add: card_Diff_singleton card_word)
qed auto

lemma byte_cases [case_names zero power]:
  fixes a :: byte
  obtains "a = 0" | i where "i < 255" and "a = g i"
  using g_range by blast

section \<open>The tables\<close>

lemma table_step_simps [simp]:
  "tab_EXP (table_step t i) = (tab_EXP t)[i := tab_x t]"
  "tab_LOG (table_step t i) = (tab_LOG t)[unat (tab_x t) := of_nat i]"
  "tab_x (table_step t i) = mul3 (tab_x t)"
  by (simp_all add: table_step_def mul3_def)

lemma table_loop:
  assumes "k \<le> 255"
  defines "t \<equiv> foldl table_step
    \<lparr>tab_EXP = replicate 256 0, tab_LOG = replicate 256 0, tab_x = 1\<rparr> [0..<k]"
  shows "tab_x t = g k \<and> length (tab_EXP t) = 256 \<and> length (tab_LOG t) = 256 \<and>
    (\<forall>i<k. tab_EXP t ! i = g i \<and> tab_LOG t ! unat (g i) = of_nat i)"
  using assms(1) unfolding t_def
proof (induction k)
  case (Suc k)
  have "unat (g i) \<noteq> unat (g k)" "unat (g k) \<noteq> unat (g i)" if "i < k" for i
    using that Suc.prems inj_onD [OF g_inj, of i k] by (auto dest: word_unat_eq_iff [THEN iffD2])
  moreover have "unat (g k) < 256"
    using unsigned_less [of "g k"] by simp
  ultimately show ?case
    using Suc by (auto simp: less_Suc_eq nth_list_update)
qed simp

lemma EXP_nth: "i < 255 \<Longrightarrow> EXP ! i = g i"
  and LOG_g: "i < 255 \<Longrightarrow> unat (LOG ! unat (g i)) = i"
  and tables_length: "length EXP = 256" "length LOG = 256"
  using table_loop [of 255] by (auto simp: EXP_def LOG_def buildTables_def unat_of_nat)

lemma gfMul_g: "gfMul (g i) (g j) = g (i + j)"
proof -
  have "gfMul (g (i mod 255)) (g (j mod 255)) = g ((i mod 255 + j mod 255) mod 255)"
    by (simp add: gfMul_def LOG_g EXP_nth)
  then show ?thesis by (simp only: g_mod mod_add_eq)
qed

lemma gfMul_zero [simp]: "gfMul 0 a = 0" "gfMul a 0 = 0"
  by (simp_all add: gfMul_def)

lemma gfMul_commute: "gfMul a b = gfMul b a"
  by (simp add: gfMul_def add.commute)

text \<open>Multiplication by a power of the generator is that many applications of \<open>mul3\<close>.\<close>

lemma gfMul_power: "gfMul (g i) b = (mul3 ^^ i) b"
  by (cases b rule: byte_cases) (simp_all add: gfMul_g g_add)

lemma mul3_pow_xor: "(mul3 ^^ i) (b XOR c) = (mul3 ^^ i) b XOR (mul3 ^^ i) c"
  by (induction i) (simp_all add: mul3_xor)

lemma gfMul_assoc: "gfMul (gfMul a b) c = gfMul a (gfMul b c)"
  by (cases a rule: byte_cases; cases b rule: byte_cases; cases c rule: byte_cases)
    (simp_all add: gfMul_g add.assoc)

lemma gfMul_one: "gfMul 1 a = a"
  using gfMul_power [of 0 a] by simp

lemma gfMul_distrib: "gfMul a (gfAdd b c) = gfAdd (gfMul a b) (gfMul a c)"
  by (cases a rule: byte_cases) (simp_all add: gfAdd_def gfMul_power mul3_pow_xor)

lemma gfDiv_g: "gfDiv (g i) (g j) = Inr (g (i mod 255 + (255 - j mod 255)))"
proof -
  have "int (i mod 255) - int (j mod 255) + 255 = int (i mod 255 + (255 - j mod 255))"
    using mod_less_divisor [of 255 j] by linarith
  then have "nat ((int (i mod 255) - int (j mod 255) + 255) mod 255) = (i mod 255 + (255 - j mod 255)) mod 255"
    by (simp only: nat_mod_as_int of_nat_numeral)
  moreover have "gfDiv (g (i mod 255)) (g (j mod 255)) =
      Inr (EXP ! nat ((int (i mod 255) - int (j mod 255) + 255) mod 255))"
    by (simp add: gfDiv_def LOG_g)
  ultimately have "gfDiv (g (i mod 255)) (g (j mod 255)) =
      Inr (g ((i mod 255 + (255 - j mod 255)) mod 255))"
    by (simp add: EXP_nth)
  then show ?thesis by (simp only: g_mod)
qed

text \<open>Division undoes multiplication.\<close>

lemma gfDiv_correct:
  assumes "b \<noteq> 0"
  obtains q where "gfDiv a b = Inr q" and "gfMul q b = a"
proof (cases a rule: byte_cases)
  case zero
  then show ?thesis using that [of 0] assms by (simp add: gfDiv_def)
next
  case (power i)
  obtain j where j: "j < 255" "b = g j"
    using assms by (cases b rule: byte_cases) auto
  have "gfMul (g (i mod 255 + (255 - j mod 255))) (g j) = g i"
    using j power(1) g_add [of i 255] g_powers(1) by (simp add: gfMul_g)
  then show ?thesis
    using that power(2) j(2) by (simp add: gfDiv_g)
qed

section \<open>The field\<close>

text \<open>The bytes with the operations of the code, as a type of class \<open>field\<close>.\<close>

typedef gf = "UNIV :: byte set"
  morphisms byte_of gf_of ..

setup_lifting type_definition_gf

instantiation gf :: field
begin

lift_definition zero_gf :: gf is "0 :: byte" .
lift_definition one_gf :: gf is "1 :: byte" .
lift_definition plus_gf :: "gf \<Rightarrow> gf \<Rightarrow> gf" is gfAdd .
lift_definition minus_gf :: "gf \<Rightarrow> gf \<Rightarrow> gf" is gfAdd .
lift_definition uminus_gf :: "gf \<Rightarrow> gf" is "\<lambda>a. a" .
lift_definition times_gf :: "gf \<Rightarrow> gf \<Rightarrow> gf" is gfMul .
lift_definition divide_gf :: "gf \<Rightarrow> gf \<Rightarrow> gf" is
  "\<lambda>a b. case gfDiv a b of Inl _ \<Rightarrow> 0 | Inr q \<Rightarrow> q" .
lift_definition inverse_gf :: "gf \<Rightarrow> gf" is "\<lambda>b. case gfDiv 1 b of Inl _ \<Rightarrow> 0 | Inr q \<Rightarrow> q" .

instance
proof
  fix a b c :: gf
  show "a * b * c = a * (b * c)"
    by transfer (rule gfMul_assoc)
  show "a * b = b * a"
    by transfer (rule gfMul_commute)
  show "1 * a = a"
    by transfer (rule gfMul_one)
  show "(a + b) * c = a * c + b * c"
    by transfer (simp only: gfMul_commute [of _ c for c] gfMul_distrib)
  show "a + b + c = a + (b + c)" "a + b = b + a" "0 + a = a" "- a + a = 0" "a - b = a + - b"
    by (transfer, simp add: gfAdd_def ac_simps)+
  show "(0 :: gf) \<noteq> 1"
    by transfer simp
  show "inverse (0 :: gf) = 0"
    by transfer (simp add: gfDiv_def)
  show "a \<noteq> 0 \<Longrightarrow> inverse a * a = 1"
  proof transfer
    fix a :: byte assume "a \<noteq> 0"
    then obtain q where "gfDiv 1 a = Inr q" "gfMul q a = 1"
      by (rule gfDiv_correct)
    then show "gfMul (case gfDiv 1 a of Inl _ \<Rightarrow> 0 | Inr q \<Rightarrow> q) a = 1" by simp
  qed
  show "a div b = a * inverse b"
  proof transfer
    fix a b :: byte
    show "(case gfDiv a b of Inl _ \<Rightarrow> 0 | Inr q \<Rightarrow> q) =
        gfMul a (case gfDiv 1 b of Inl _ \<Rightarrow> 0 | Inr q \<Rightarrow> q)"
    proof (cases "b = 0")
      case True
      then show ?thesis by (simp add: gfDiv_def)
    next
      case False
      obtain q r where q: "gfDiv a b = Inr q" "gfMul q b = a" and r: "gfDiv 1 b = Inr r" "gfMul r b = 1"
        using gfDiv_correct [OF False, of a] gfDiv_correct [OF False, of 1] by metis
      have "gfMul a r = gfMul q (gfMul r b)"
        by (metis q(2) gfMul_assoc gfMul_commute)
      with q r show ?thesis by (simp add: gfMul_commute [of q] gfMul_one)
    qed
  qed
qed

end

section \<open>Correctness of the tables and of the arithmetic\<close>

text \<open>The tables are what the header of the file requires: every nonzero byte appears exactly once
  among the first 255 entries of \<open>EXP\<close>, and \<open>LOG\<close> is its inverse.\<close>

theorem gf_tables_inverse:
  "distinct (take 255 EXP) \<and> set (take 255 EXP) = UNIV - {0} \<and>
   map (\<lambda>i. unat (LOG ! unat (EXP ! i))) [0..<255] = [0..<255]"
proof -
  have E: "take 255 EXP = map g [0..<255]"
    by (rule nth_equalityI) (simp_all add: tables_length EXP_nth)
  have "set (take 255 EXP) = g ` {..<255}"
    unfolding E by (simp add: lessThan_atLeast0)
  moreover have "distinct (take 255 EXP)"
    unfolding E using g_inj by (simp add: distinct_map lessThan_atLeast0)
  moreover have "map (\<lambda>i. unat (LOG ! unat (EXP ! i))) [0..<255] = map (\<lambda>i. i) [0..<255]"
    by (rule map_cong) (simp_all add: EXP_nth LOG_g)
  ultimately show ?thesis
    by (simp only: g_range list.map_ident simp_thms)
qed

text \<open>The reference the tests compare with (\<open>referenceMul\<close> of \<open>gf256.test.ts\<close>): shift-and-add
  multiplication on bytes, reducing as it goes. Like there, it shares no code with \<open>xtime\<close>.\<close>

fun peasant_mul :: "nat \<Rightarrow> byte \<Rightarrow> byte \<Rightarrow> byte" where
  "peasant_mul 0 a b = 0"
| "peasant_mul (Suc n) a b = (if odd b then a else 0) XOR
     peasant_mul n (push_bit 1 a XOR (if bit a 7 then 0x1b else 0)) (drop_bit 1 b)"

lemma g_small: "g 0 = 1" "mul3 1 = 3"
  by (simp_all add: mul3_def xtime_def)

lemma gfMul_two: "gfMul 2 a = xtime a"
proof -
  have "gfMul 3 a = mul3 a"
    using gfMul_power [of 1 a] g_small by simp
  moreover have "gfMul (3 XOR 1) a = gfMul 3 a XOR gfMul 1 a"
    using gfMul_distrib [of a 3 1] by (simp only: gfAdd_def gfMul_commute [of a])
  ultimately show ?thesis
    by (simp add: gfMul_one mul3_def ac_simps)
qed

lemma split_low_bit: "b = (if odd b then 1 else 0) XOR xtime (drop_bit 1 b)" for b :: byte
proof (rule bit_word_eqI)
  fix n assume n: "n < LENGTH(8)"
  have "\<not> bit (drop_bit 1 b) 7"
    by (auto simp: bit_simps dest: bit_imp_le_length)
  then have x: "xtime (drop_bit 1 b) = push_bit 1 (drop_bit 1 b)"
    by (simp add: xtime_alt)
  have "bit (push_bit 1 (drop_bit 1 b)) n \<longleftrightarrow> 1 \<le> n \<and> bit b n"
    using n unfolding bit_push_bit_iff bit_drop_bit_eq by auto
  moreover have "bit (if odd b then 1 else 0 :: byte) n \<longleftrightarrow> n = 0 \<and> bit b n"
    by (auto simp: bit_1_iff bit_0)
  ultimately show "bit b n = bit ((if odd b then 1 else 0) XOR xtime (drop_bit 1 b)) n"
    unfolding x bit_xor_iff by auto
qed

lemma gfMul_step: "gfMul a b = (if odd b then a else 0) XOR gfMul (xtime a) (drop_bit 1 b)"
proof -
  have "gfMul a b = gfMul a ((if odd b then 1 else 0) XOR xtime (drop_bit 1 b))"
    using split_low_bit [of b] by simp
  also have "\<dots> = gfMul a (if odd b then 1 else 0) XOR gfMul a (xtime (drop_bit 1 b))"
    using gfMul_distrib by (simp add: gfAdd_def)
  also have "gfMul a (xtime (drop_bit 1 b)) = gfMul (xtime a) (drop_bit 1 b)"
    unfolding gfMul_two [symmetric] by (metis gfMul_assoc gfMul_commute)
  also have "gfMul a (if odd b then 1 else 0) = (if odd b then a else 0)"
    by (simp add: gfMul_commute [of a] gfMul_one)
  finally show ?thesis .
qed

lemma peasant_mul_correct: "drop_bit n b = 0 \<Longrightarrow> peasant_mul n a b = gfMul a b"
proof (induction n arbitrary: a b)
  case (Suc n)
  then have "drop_bit n (drop_bit 1 b) = 0"
    by (simp add: drop_bit_drop_bit)
  then show ?case
    using Suc.IH [of "drop_bit 1 b" "xtime a"] gfMul_step [of a b] by (simp add: xtime_alt)
qed simp

text \<open>C12. Table multiplication is multiplication of polynomials modulo \<open>x\<^sup>8+x\<^sup>4+x\<^sup>3+x+1\<close>: on all
  pairs of bytes it agrees with the shift-and-add reference.\<close>

theorem gfMul_reference: "gfMul a b = peasant_mul 8 a b"
proof -
  have "drop_bit 8 b = 0"
    by (rule bit_word_eqI) (simp add: bit_simps)
  then show ?thesis using peasant_mul_correct [of 8 b a] by simp
qed

text \<open>Division throws exactly on a zero divisor and otherwise returns the quotient: the one byte
  whose product with the divisor is the dividend.\<close>

theorem gfDiv_exact:
  "case gfDiv a b of Inl e \<Rightarrow> b = 0 | Inr q \<Rightarrow> b \<noteq> 0 \<and> (\<forall>r. gfMul r b = a \<longleftrightarrow> r = q)"
proof (cases "b = 0")
  case False
  obtain q where q: "gfDiv a b = Inr q" "gfMul q b = a"
    using gfDiv_correct [OF False] by metis
  obtain c where c: "gfMul c b = 1"
    using gfDiv_correct [OF False, of 1] by metis
  have "gfMul (gfMul r b) c = r" for r
    by (metis c gfMul_assoc gfMul_commute gfMul_one)
  then have "gfMul r b = gfMul q b \<longleftrightarrow> r = q" for r
    by metis
  with q False show ?thesis by simp
qed (simp add: gfDiv_def)

end
