(* ===== verification/Field_Interpolation.thy ===== *)
theory Field_Interpolation
  imports Main
begin

text \<open>
  Polynomial functions over a field and Lagrange interpolation, as far as secret sharing needs
  them: a polynomial function with fewer coefficients than distinct roots vanishes, the
  interpolating function through given points exists and is unique, and its value at zero is
  the weighted sum the code computes.
\<close>

section \<open>Polynomial functions\<close>

definition is_poly :: "nat \<Rightarrow> ('a::field \<Rightarrow> 'a) \<Rightarrow> bool" where
  "is_poly n F \<longleftrightarrow> (\<exists>a. \<forall>x. F x = (\<Sum>i<n. a i * x ^ i))"

lemma is_polyI: "(\<And>x. F x = (\<Sum>i<n. a i * x ^ i)) \<Longrightarrow> is_poly n F"
  unfolding is_poly_def by blast

lemma is_poly_zero: "is_poly n (\<lambda>x. 0)"
  by (rule is_polyI [where a = "\<lambda>_. 0"]) simp

lemma is_poly_const: "is_poly (Suc n) (\<lambda>x. c)"
  by (rule is_polyI [where a = "\<lambda>i. if i = 0 then c else 0"])
    (simp add: sum.lessThan_Suc_shift del: sum.lessThan_Suc)

lemma is_poly_add: "is_poly n F \<Longrightarrow> is_poly n G \<Longrightarrow> is_poly n (\<lambda>x. F x + G x)"
  unfolding is_poly_def
proof (elim exE)
  fix a b
  assume "\<forall>x. F x = (\<Sum>i<n. a i * x ^ i)" and "\<forall>x. G x = (\<Sum>i<n. b i * x ^ i)"
  then have "\<forall>x. F x + G x = (\<Sum>i<n. (a i + b i) * x ^ i)"
    by (simp add: sum.distrib distrib_right)
  then show "\<exists>c. \<forall>x. F x + G x = (\<Sum>i<n. c i * x ^ i)" by (rule exI [where x = "\<lambda>i. a i + b i"])
qed

lemma is_poly_scale: "is_poly n F \<Longrightarrow> is_poly n (\<lambda>x. c * F x)"
  unfolding is_poly_def
proof (elim exE)
  fix a
  assume "\<forall>x. F x = (\<Sum>i<n. a i * x ^ i)"
  then have "\<forall>x. c * F x = (\<Sum>i<n. (c * a i) * x ^ i)"
    by (simp add: sum_distrib_left mult.assoc)
  then show "\<exists>b. \<forall>x. c * F x = (\<Sum>i<n. b i * x ^ i)" by (rule exI [where x = "\<lambda>i. c * a i"])
qed

lemma is_poly_diff: "is_poly n F \<Longrightarrow> is_poly n G \<Longrightarrow> is_poly n (\<lambda>x. F x - G x)"
  using is_poly_add [of n F "\<lambda>x. - 1 * G x"] is_poly_scale [of n G "- 1"] by simp

lemma is_poly_sum: "(\<And>i. i \<in> A \<Longrightarrow> is_poly n (F i)) \<Longrightarrow> is_poly n (\<lambda>x. \<Sum>i\<in>A. F i x)"
  by (induction A rule: infinite_finite_induct) (auto intro: is_poly_add is_poly_zero)

lemma is_poly_mono:
  assumes "is_poly m F" and "m \<le> n"
  shows "is_poly n F"
proof -
  obtain a where a: "\<forall>x. F x = (\<Sum>i<m. a i * x ^ i)"
    using assms(1) by (auto simp: is_poly_def)
  have "(\<Sum>i<n. (if i < m then a i else 0) * x ^ i) = (\<Sum>i<m. a i * x ^ i)" for x
    using assms(2) by (intro sum.mono_neutral_cong_right) auto
  with a show ?thesis
    by (intro is_polyI [where a = "\<lambda>i. if i < m then a i else 0"]) simp
qed

lemma is_poly_times_x: "is_poly n F \<Longrightarrow> is_poly (Suc n) (\<lambda>x. x * F x)"
  unfolding is_poly_def
proof (elim exE)
  fix a
  assume a: "\<forall>x. F x = (\<Sum>i<n. a i * x ^ i)"
  have "\<forall>x. x * F x = (\<Sum>i<Suc n. (case i of 0 \<Rightarrow> 0 | Suc j \<Rightarrow> a j) * x ^ i)"
    by (simp add: a sum.lessThan_Suc_shift sum_distrib_left mult.left_commute del: sum.lessThan_Suc)
  then show "\<exists>b. \<forall>x. x * F x = (\<Sum>i<Suc n. b i * x ^ i)"
    by (rule exI [where x = "\<lambda>i. case i of 0 \<Rightarrow> 0 | Suc j \<Rightarrow> a j"])
qed

lemma is_poly_linear_factor: "is_poly n F \<Longrightarrow> is_poly (Suc n) (\<lambda>x. (c - x) * F x)"
  using is_poly_diff [of "Suc n" "\<lambda>x. c * F x" "\<lambda>x. x * F x"]
    is_poly_mono [of n "\<lambda>x. c * F x" "Suc n"] is_poly_scale [of n F c] is_poly_times_x [of n F]
  by (simp add: left_diff_distrib)

section \<open>Roots\<close>

lemma is_poly_divide_root:
  assumes "is_poly (Suc n) F" and "F r = 0"
  shows "\<exists>G. is_poly n G \<and> (\<forall>x. F x = (x - r) * G x)"
proof -
  obtain a where a: "\<And>x. F x = (\<Sum>i<Suc n. a i * x ^ i)"
    using assms(1) by (auto simp: is_poly_def)
  define G where "G x = (\<Sum>i<Suc n. a i * (\<Sum>j<i. r ^ (i - Suc j) * x ^ j))" for x
  have "is_poly n (\<lambda>x. a i * (\<Sum>j<i. r ^ (i - Suc j) * x ^ j))" if "i \<in> {..<Suc n}" for i
    using that by (intro is_poly_scale is_poly_mono [where m = i and n = n])
      (auto intro: is_polyI [where a = "\<lambda>j. r ^ (i - Suc j)"])
  then have "is_poly n G"
    unfolding G_def [abs_def] by (rule is_poly_sum)
  moreover have "F x = (x - r) * G x" for x
  proof -
    have "F x = F x - F r"
      using assms(2) by simp
    also have "\<dots> = (\<Sum>i<Suc n. a i * (x ^ i - r ^ i))"
      unfolding a by (simp only: right_diff_distrib sum_subtractf)
    also have "\<dots> = (x - r) * G x"
      unfolding G_def by (simp only: power_diff_sumr2 sum_distrib_left mult.left_commute)
    finally show ?thesis .
  qed
  ultimately show ?thesis by blast
qed

lemma is_poly_no_coefficients: "is_poly 0 F \<Longrightarrow> F x = 0"
  by (simp add: is_poly_def)

lemma is_poly_many_roots:
  "is_poly n F \<Longrightarrow> distinct rs \<Longrightarrow> n \<le> length rs \<Longrightarrow> (\<And>r. r \<in> set rs \<Longrightarrow> F r = 0) \<Longrightarrow> F x = 0"
proof (induction n arbitrary: F rs)
  case 0
  then show ?case by (simp add: is_poly_no_coefficients)
next
  case (Suc n)
  then obtain r rs' where rs: "rs = r # rs'"
    by (cases rs) auto
  obtain G where G: "is_poly n G" "\<And>x. F x = (x - r) * G x"
    using is_poly_divide_root [of n F r] Suc.prems rs by auto
  have "G x = 0"
    using Suc.prems rs by (intro Suc.IH [OF G(1), of rs']) (auto simp: G(2))
  then show ?case by (simp add: G(2))
qed

lemma is_poly_agree:
  assumes "is_poly n F" "is_poly n G" "distinct rs" "n \<le> length rs" "\<And>r. r \<in> set rs \<Longrightarrow> F r = G r"
  shows "F x = G x"
  using is_poly_many_roots [OF is_poly_diff [OF assms(1,2)] assms(3,4), of x] assms(5) by simp

section \<open>Lagrange interpolation\<close>

text \<open>The basis functions: \<open>lagrange_basis xs i\<close> is one at \<open>xs ! i\<close> and zero at the other points.\<close>

definition lagrange_basis :: "'a::field list \<Rightarrow> nat \<Rightarrow> 'a \<Rightarrow> 'a" where
  "lagrange_basis xs i x =
     (\<Prod>j\<in>{..<length xs} - {i}. xs ! j - x) / (\<Prod>j\<in>{..<length xs} - {i}. xs ! j - xs ! i)"

definition interpolate :: "('a::field \<times> 'a) list \<Rightarrow> 'a \<Rightarrow> 'a" where
  "interpolate ps x = (\<Sum>i<length ps. snd (ps ! i) * lagrange_basis (map fst ps) i x)"

lemma is_poly_prod_linear: "finite A \<Longrightarrow> is_poly (Suc (card A)) (\<lambda>x. \<Prod>j\<in>A. c j - x)"
  by (induction A rule: finite_induct) (auto intro: is_poly_const is_poly_linear_factor)

lemma lagrange_basis_poly:
  assumes "i < length xs"
  shows "is_poly (length xs) (lagrange_basis xs i)"
proof -
  have "Suc (card ({..<length xs} - {i})) = length xs"
    using assms by simp
  then show ?thesis
    using is_poly_scale [OF is_poly_prod_linear, of "{..<length xs} - {i}"
        "1 / (\<Prod>j\<in>{..<length xs} - {i}. xs ! j - xs ! i)" "\<lambda>j. xs ! j"]
    by (simp only: finite_Diff finite_lessThan simp_thms) (simp add: lagrange_basis_def [abs_def])
qed

lemma lagrange_basis_at:
  assumes "distinct xs" and "i < length xs" and "k < length xs"
  shows "lagrange_basis xs i (xs ! k) = (if i = k then 1 else 0)"
proof (cases "i = k")
  case True
  have "xs ! j - xs ! i \<noteq> 0" if "j \<in> {..<length xs} - {i}" for j
    using that assms by (simp add: nth_eq_iff_index_eq)
  then have "(\<Prod>j\<in>{..<length xs} - {i}. xs ! j - xs ! i) \<noteq> 0"
    by (simp add: prod_zero_iff)
  with True show ?thesis by (simp add: lagrange_basis_def)
next
  case False
  then have "k \<in> {..<length xs} - {i}"
    using assms by simp
  then have "(\<Prod>j\<in>{..<length xs} - {i}. xs ! j - xs ! k) = 0"
    using prod_zero [of "{..<length xs} - {i}" "\<lambda>j. xs ! j - xs ! k"] by fastforce
  with False show ?thesis by (simp add: lagrange_basis_def)
qed

lemma interpolate_poly: "is_poly (length ps) (interpolate ps)"
  unfolding interpolate_def [abs_def]
  by (intro is_poly_sum is_poly_scale) (metis lagrange_basis_poly length_map lessThan_iff)

lemma interpolate_at:
  assumes "distinct (map fst ps)" and "k < length ps"
  shows "interpolate ps (fst (ps ! k)) = snd (ps ! k)"
proof -
  have "interpolate ps (fst (ps ! k)) =
      (\<Sum>i<length ps. if i = k then snd (ps ! i) else 0)"
    unfolding interpolate_def
    using lagrange_basis_at [OF assms(1), of _ k] assms(2) by (intro sum.cong) simp_all
  then show ?thesis using assms(2) by simp
qed

text \<open>Enough values of a polynomial function determine it, hence its value at zero.\<close>

lemma interpolate_unique:
  assumes "is_poly n F" "distinct (map fst ps)" "n \<le> length ps" "\<And>p. p \<in> set ps \<Longrightarrow> F (fst p) = snd p"
  shows "interpolate ps x = F x"
proof (rule is_poly_agree [where F = "interpolate ps" and G = F and n = "length ps" and rs = "map fst ps"])
  show "is_poly (length ps) F"
    using assms(1,3) by (rule is_poly_mono)
next
  fix r assume "r \<in> set (map fst ps)"
  then obtain k where "k < length ps" "r = fst (ps ! k)"
    by (auto simp: in_set_conv_nth)
  then show "interpolate ps r = F r"
    using interpolate_at [OF assms(2)] assms(4) by simp
qed (use assms(2) interpolate_poly in simp_all)

section \<open>Coefficient lists\<close>

text \<open>The function \<open>s + a\<^sub>1 x + a\<^sub>2 x\<^sup>2 + ...\<close> of a constant and a list of coefficients.\<close>

definition poly_of :: "'a::field \<Rightarrow> 'a list \<Rightarrow> 'a \<Rightarrow> 'a" where
  "poly_of s as x = s + (\<Sum>i<length as. as ! i * x ^ Suc i)"

lemma poly_of_zero [simp]: "poly_of s as 0 = s"
  by (simp add: poly_of_def)

lemma poly_of_is_poly: "is_poly (Suc (length as)) (poly_of s as)"
  by (rule is_polyI [where a = "\<lambda>i. case i of 0 \<Rightarrow> s | Suc j \<Rightarrow> as ! j"])
    (simp add: poly_of_def sum.lessThan_Suc_shift del: sum.lessThan_Suc)

lemma is_poly_poly_of:
  assumes "is_poly (Suc n) F"
  obtains as where "length as = n" and "F = poly_of (F 0) as"
proof -
  obtain a where a: "\<And>x. F x = (\<Sum>i<Suc n. a i * x ^ i)"
    using assms by (auto simp: is_poly_def)
  have "F = poly_of (F 0) (map (\<lambda>i. a (Suc i)) [0..<n])"
    by (rule ext) (simp add: a poly_of_def sum.lessThan_Suc_shift del: sum.lessThan_Suc)
  then show ?thesis using that [of "map (\<lambda>i. a (Suc i)) [0..<n]"] by simp
qed

lemma is_poly_trunc:
  "poly_of s (a # as) x = s + x * poly_of a as x"
  by (simp add: poly_of_def sum.lessThan_Suc_shift sum_distrib_left algebra_simps del: sum.lessThan_Suc)

end
