(* ===== verification/Shamir.thy ===== *)
theory Shamir
  imports GF256 Field_Interpolation
begin

text \<open>
  \<open>packages/crypto/src/shamir.ts\<close>: threshold secret sharing of a byte string over GF(256).
  \<open>randomBytes\<close> of \<open>node:crypto\<close> is a parameter: the bytes of call number \<open>b\<close> for size
  \<open>k\<close>; the only property used is that it returns \<open>k\<close> bytes.
\<close>

section \<open>The code\<close>

record ShamirShare =
  index :: nat
  ys :: "byte list"

datatype shamir_error =
    ThresholdTooSmall nat
  | FewerSharesThanThreshold nat nat
  | TooManyShares nat
  | EmptySecret
  | TooFewShares nat
  | LengthMismatch
  | IndexOutOfRange nat
  | DuplicateIndex
  | Interpolation gf_error

text \<open>The innermost loop of \<open>splitSecret\<close> over the coefficients, with its variables \<open>y\<close> and \<open>xPow\<close>.\<close>

fun evalShare :: "byte \<Rightarrow> byte \<Rightarrow> byte \<Rightarrow> byte list \<Rightarrow> byte" where
  "evalShare x y xPow [] = y"
| "evalShare x y xPow (c # coeffs) =
     (let xPow = gfMul xPow x in evalShare x (gfAdd y (gfMul c xPow)) xPow coeffs)"

definition writeByte :: "nat \<Rightarrow> byte \<Rightarrow> byte list \<Rightarrow> ShamirShare \<Rightarrow> ShamirShare" where
  "writeByte byteIdx secretByte coeffs share =
     share\<lparr>ys := (ys share)[byteIdx := evalShare (of_nat (index share)) secretByte 1 coeffs]\<rparr>"

definition splitSecret ::
  "(nat \<Rightarrow> nat \<Rightarrow> byte list) \<Rightarrow> byte list \<Rightarrow> nat \<Rightarrow> nat \<Rightarrow> shamir_error + ShamirShare list" where
  "splitSecret randomBytes secret threshold n =
     ebind (throw_if (threshold < 2) (ThresholdTooSmall threshold)) (\<lambda>_.
     ebind (throw_if (n < threshold) (FewerSharesThanThreshold n threshold)) (\<lambda>_.
     ebind (throw_if (n > 255) (TooManyShares n)) (\<lambda>_.
     ebind (throw_if (secret = []) EmptySecret) (\<lambda>_.
     let shares = map (\<lambda>shareIdx. \<lparr>index = shareIdx, ys = replicate (length secret) 0\<rparr>) [1..<n + 1]
     in Inr (foldl (\<lambda>shares byteIdx.
               map (writeByte byteIdx (secret ! byteIdx) (randomBytes byteIdx (threshold - 1))) shares)
             shares [0..<length secret])))))"

text \<open>The loop over \<open>j\<close> that accumulates numerator and denominator of \<open>L\<^sub>i(0)\<close>.\<close>

definition lagrangeFraction :: "ShamirShare list \<Rightarrow> nat \<Rightarrow> byte \<times> byte" where
  "lagrangeFraction shares i =
     foldl (\<lambda>(num, den) j.
        if j = i then (num, den)
        else (gfMul num (of_nat (index (shares ! j))),
              gfMul den (gfAdd (of_nat (index (shares ! j))) (of_nat (index (shares ! i))))))
       (1, 1) [0..<length shares]"

text \<open>The loop over \<open>i\<close> for one byte position.\<close>

fun combineByte :: "ShamirShare list \<Rightarrow> nat \<Rightarrow> byte \<Rightarrow> nat list \<Rightarrow> shamir_error + byte" where
  "combineByte shares byteIdx acc [] = Inr acc"
| "combineByte shares byteIdx acc (i # is) =
     (case lagrangeFraction shares i of
        (num, den) \<Rightarrow>
          (case gfDiv num den of
             Inl e \<Rightarrow> Inl (Interpolation e)
           | Inr li0 \<Rightarrow>
               combineByte shares byteIdx (gfAdd acc (gfMul (ys (shares ! i) ! byteIdx) li0)) is))"

definition checkShare :: "nat \<Rightarrow> ShamirShare \<Rightarrow> shamir_error + unit" where
  "checkShare secretLength s =
     ebind (throw_if (length (ys s) \<noteq> secretLength) LengthMismatch) (\<lambda>_.
     throw_if (index s = 0 \<or> index s > 255) (IndexOutOfRange (index s)))"

definition combineShares :: "ShamirShare list \<Rightarrow> shamir_error + byte list" where
  "combineShares shares =
     ebind (throw_if (length shares < 2) (TooFewShares (length shares))) (\<lambda>_.
     let secretLength = length (ys (hd shares)) in
     ebind (efor (checkShare secretLength) shares) (\<lambda>_.
     ebind (throw_if (length (remdups (map index shares)) \<noteq> length (map index shares)) DuplicateIndex)
       (\<lambda>_. emap (\<lambda>byteIdx. combineByte shares byteIdx 0 [0..<length shares]) [0..<secretLength])))"

section \<open>The arithmetic of the loops in the field\<close>

lemma byte_of_ops:
  "gfAdd (byte_of a) (byte_of b) = byte_of (a + b)"
  "gfMul (byte_of a) (byte_of b) = byte_of (a * b)"
  "(1 :: byte) = byte_of 1" "(0 :: byte) = byte_of 0"
  by (simp_all add: plus_gf.rep_eq times_gf.rep_eq one_gf.rep_eq zero_gf.rep_eq)

lemma gf_minus: "(a :: gf) - b = a + b"
  by transfer simp

lemma byte_of_gf_of [simp]: "byte_of (gf_of a) = a" "gf_of (byte_of b) = b"
  by (simp_all add: gf_of_inverse byte_of_inverse)

lemma byte_of_inject [simp]: "byte_of a = byte_of b \<longleftrightarrow> a = b"
  by (metis byte_of_gf_of(2))

lemma gf_of_ops:
  "gf_of (gfAdd a b) = gf_of a + gf_of b" "gf_of (gfMul a b) = gf_of a * gf_of b"
  "gf_of 1 = 1" "gf_of 0 = 0"
  by (simp_all flip: byte_of_inject add: plus_gf.rep_eq times_gf.rep_eq one_gf.rep_eq zero_gf.rep_eq)

text \<open>The point of a share.\<close>

definition xcoord :: "nat \<Rightarrow> gf" where
  "xcoord i = gf_of (of_nat i)"

lemma xcoord_byte: "byte_of (xcoord i) = of_nat i"
  by (simp add: xcoord_def)

lemma xcoord_inject: "i < 256 \<Longrightarrow> j < 256 \<Longrightarrow> xcoord i = xcoord j \<longleftrightarrow> i = j"
proof -
  assume "i < 256" "j < 256"
  then have "(of_nat i :: byte) = of_nat j \<longleftrightarrow> i = j"
    by (simp add: word_of_nat_eq_iff take_bit_nat_eq_self)
  then show ?thesis
    by (metis byte_of_gf_of(1) xcoord_def)
qed

lemma xcoord_nonzero: "0 < i \<Longrightarrow> i < 256 \<Longrightarrow> xcoord i \<noteq> 0"
  using xcoord_inject [of i 0] by (simp add: xcoord_def gf_of_ops)

text \<open>The evaluation loop computes the polynomial.\<close>

lemma evalShare_poly:
  "gf_of (evalShare (byte_of x) y (byte_of p) coeffs) =
     gf_of y + p * (\<Sum>i<length coeffs. gf_of (coeffs ! i) * x ^ Suc i)"
proof (induction coeffs arbitrary: y p)
  case (Cons c coeffs)
  show ?case
    by (simp add: Let_def byte_of_ops(2) Cons.IH gf_of_ops sum.lessThan_Suc_shift sum_distrib_left
        algebra_simps del: sum.lessThan_Suc)
qed simp

lemma evalShare_eq:
  "gf_of (evalShare (of_nat i) s 1 coeffs) = poly_of (gf_of s) (map gf_of coeffs) (xcoord i)"
  using evalShare_poly [of "xcoord i" s 1 coeffs]
  by (simp add: xcoord_def poly_of_def flip: byte_of_ops(3))

lemma foldl_fraction:
  "foldl (\<lambda>(num, den) j.
      if j = i then (num, den)
      else (gfMul num (byte_of (f j)), gfMul den (gfAdd (byte_of (f j)) (byte_of (f i)))))
     (byte_of a, byte_of b) js =
   (byte_of (a * prod_list (map f (filter (\<lambda>j. j \<noteq> i) js))),
    byte_of (b * prod_list (map (\<lambda>j. f j - f i) (filter (\<lambda>j. j \<noteq> i) js))))"
  by (induction js arbitrary: a b) (auto simp: byte_of_ops gf_minus mult.assoc)

lemma lagrangeFraction_eq:
  fixes shares :: "ShamirShare list"
  defines "xs \<equiv> map (xcoord \<circ> index) shares"
  assumes "i < length shares"
  shows "lagrangeFraction shares i =
    (byte_of (\<Prod>j\<in>{..<length xs} - {i}. xs ! j - 0), byte_of (\<Prod>j\<in>{..<length xs} - {i}. xs ! j - xs ! i))"
proof -
  have prod: "prod_list (map h (filter (\<lambda>j. j \<noteq> i) [0..<n])) = (\<Prod>j\<in>{..<n} - {i}. h j)"
    for h :: "nat \<Rightarrow> gf" and n
  proof -
    have "prod_list (map h (filter (\<lambda>j. j \<noteq> i) [0..<n])) = prod h (set (filter (\<lambda>j. j \<noteq> i) [0..<n]))"
      by (rule prod.distinct_set_conv_list [symmetric]) simp
    also have "set (filter (\<lambda>j. j \<noteq> i) [0..<n]) = {..<n} - {i}" by auto
    finally show ?thesis .
  qed
  let ?f = "\<lambda>j. xcoord (index (shares ! j))"
  have "lagrangeFraction shares i =
     (byte_of (1 * prod_list (map ?f (filter (\<lambda>j. j \<noteq> i) [0..<length shares]))),
      byte_of (1 * prod_list (map (\<lambda>j. ?f j - ?f i) (filter (\<lambda>j. j \<noteq> i) [0..<length shares]))))"
    using foldl_fraction [of i ?f 1 1 "[0..<length shares]", unfolded xcoord_byte]
    by (simp add: lagrangeFraction_def flip: byte_of_ops(3))
  moreover have "(\<Prod>j\<in>{..<length shares} - {i}. ?f j) = (\<Prod>j\<in>{..<length xs} - {i}. xs ! j - 0)"
    unfolding xs_def by (intro prod.cong) auto
  moreover have "(\<Prod>j\<in>{..<length shares} - {i}. ?f j - ?f i) =
      (\<Prod>j\<in>{..<length xs} - {i}. xs ! j - xs ! i)"
    unfolding xs_def using assms(2) by (intro prod.cong) auto
  ultimately show ?thesis by (simp only: prod mult_1)
qed

lemma gfDiv_byte_of: "b \<noteq> 0 \<Longrightarrow> gfDiv (byte_of a) (byte_of b) = Inr (byte_of (a / b))"
proof -
  assume "b \<noteq> 0"
  then have "byte_of b \<noteq> 0"
    by (metis byte_of_inject byte_of_ops(4))
  then obtain q where "gfDiv (byte_of a) (byte_of b) = Inr q"
    using gfDiv_correct by metis
  then show ?thesis by (simp add: divide_gf.rep_eq)
qed

lemma prod_nonzero:
  fixes xs :: "gf list"
  assumes "distinct xs" and "i < length xs"
  shows "(\<Prod>j\<in>{..<length xs} - {i}. xs ! j - xs ! i) \<noteq> 0"
  using assms by (auto simp: nth_eq_iff_index_eq)

text \<open>The points a byte position is interpolated through.\<close>

definition points :: "ShamirShare list \<Rightarrow> nat \<Rightarrow> (gf \<times> gf) list" where
  "points shares byteIdx = map (\<lambda>s. (xcoord (index s), gf_of (ys s ! byteIdx))) shares"

lemma combineByte_eq:
  assumes d: "distinct (map (xcoord \<circ> index) shares)" and "set is \<subseteq> {..<length shares}"
  shows "combineByte shares byteIdx (byte_of acc) is =
    Inr (byte_of (acc + (\<Sum>i\<leftarrow>is. snd (points shares byteIdx ! i) *
      lagrange_basis (map fst (points shares byteIdx)) i 0)))"
  using assms(2)
proof (induction "is" arbitrary: acc)
  case (Cons i "is")
  let ?xs = "map (xcoord \<circ> index) shares"
  let ?d = "\<Prod>j\<in>{..<length ?xs} - {i}. ?xs ! j - ?xs ! i"
  have i: "i < length shares" using Cons.prems by simp
  have "gfDiv (byte_of (\<Prod>j\<in>{..<length ?xs} - {i}. ?xs ! j - 0)) (byte_of ?d) =
      Inr (byte_of (lagrange_basis ?xs i 0))"
    unfolding lagrange_basis_def using prod_nonzero [OF d, of i] i by (intro gfDiv_byte_of) simp
  moreover have "map fst (points shares byteIdx) = ?xs"
    by (simp add: points_def comp_def)
  moreover have "ys (shares ! i) ! byteIdx = byte_of (snd (points shares byteIdx ! i))"
    using i by (simp add: points_def)
  ultimately show ?case
    using Cons lagrangeFraction_eq [OF i] by (simp add: byte_of_ops add.assoc)
qed simp

lemma combineByte_interpolate:
  assumes "distinct (map (xcoord \<circ> index) shares)"
  shows "combineByte shares byteIdx 0 [0..<length shares] =
    Inr (byte_of (interpolate (points shares byteIdx) 0))"
proof -
  have "set [0..<length shares] \<subseteq> {..<length shares}" by auto
  from combineByte_eq [OF assms this, of byteIdx 0] show ?thesis
    by (simp add: interpolate_def points_def sum_list_distinct_conv_sum_set lessThan_atLeast0
        flip: byte_of_ops(4))
qed

section \<open>Splitting\<close>

lemma writeByte_loop:
  "foldl (\<lambda>shares b. map (writeByte b (secret ! b) (coeffs b)) shares)
     (map (\<lambda>i. \<lparr>index = i, ys = zs\<rparr>) idxs) [0..<k] =
   map (\<lambda>i. \<lparr>index = i,
      ys = foldl (\<lambda>zs b. zs[b := evalShare (of_nat i) (secret ! b) 1 (coeffs b)]) zs [0..<k]\<rparr>) idxs"
  by (induction k) (simp_all add: writeByte_def)

lemma update_loop:
  "k \<le> length zs \<Longrightarrow> foldl (\<lambda>zs b. zs[b := f b]) zs [0..<k] = map f [0..<k] @ drop k zs"
proof (induction k)
  case (Suc k)
  then show ?case
    by (simp add: list_update_append Cons_nth_drop_Suc [symmetric])
qed simp

text \<open>The shares of an accepted split: one evaluation per secret byte at each index.\<close>

definition share_at :: "(nat \<Rightarrow> byte list) \<Rightarrow> byte list \<Rightarrow> nat \<Rightarrow> ShamirShare" where
  "share_at coeffs secret i = \<lparr>index = i,
     ys = map (\<lambda>b. evalShare (of_nat i) (secret ! b) 1 (coeffs b)) [0..<length secret]\<rparr>"

lemma splitSecret_eq:
  "splitSecret randomBytes secret threshold n =
     (if threshold < 2 then Inl (ThresholdTooSmall threshold)
      else if n < threshold then Inl (FewerSharesThanThreshold n threshold)
      else if n > 255 then Inl (TooManyShares n)
      else if secret = [] then Inl EmptySecret
      else Inr (map (share_at (\<lambda>b. randomBytes b (threshold - 1)) secret) [1..<n + 1]))"
  unfolding splitSecret_def writeByte_loop [of secret "\<lambda>b. randomBytes b (threshold - 1)"] Let_def
  by (simp add: throw_if_def update_loop share_at_def)

lemma share_at_simps [simp]:
  "index (share_at coeffs secret i) = i"
  "length (ys (share_at coeffs secret i)) = length secret"
  "b < length secret \<Longrightarrow>
     ys (share_at coeffs secret i) ! b = evalShare (of_nat i) (secret ! b) 1 (coeffs b)"
  by (simp_all add: share_at_def)

text \<open>Any family of shares on one polynomial per byte interpolates to its constants.\<close>

lemma interpolate_shares:
  assumes sel: "\<forall>s \<in> set sel. \<exists>i. s = share_at coeffs secret i \<and> 0 < i \<and> i < 256"
    and d: "distinct (map index sel)" and len: "length (coeffs b) < length sel" and b: "b < length secret"
  shows "interpolate (points sel b) 0 = gf_of (secret ! b)"
proof -
  let ?F = "poly_of (gf_of (secret ! b)) (map gf_of (coeffs b))"
  have idx: "index s < 256" if "s \<in> set sel" for s
    using sel that by fastforce
  have "map fst (points sel b) = map xcoord (map index sel)"
    by (simp add: points_def)
  moreover have "inj_on xcoord (set (map index sel))"
    using idx xcoord_inject by (auto simp: inj_on_def)
  ultimately have dx: "distinct (map fst (points sel b))"
    using d by (simp add: distinct_map comp_inj_on)
  have "interpolate (points sel b) 0 = ?F 0"
  proof (rule interpolate_unique [OF poly_of_is_poly dx])
    show "Suc (length (map gf_of (coeffs b))) \<le> length (points sel b)"
      using len by (simp add: points_def)
    show "?F (fst p) = snd p" if "p \<in> set (points sel b)" for p
      using that sel b by (auto simp: points_def evalShare_eq)
  qed
  then show ?thesis by simp
qed

lemma combineShares_checks:
  assumes "2 \<le> length sel" and "\<forall>s \<in> set sel. length (ys s) = l \<and> 0 < index s \<and> index s < 256"
    and "distinct (map index sel)"
  shows "combineShares sel =
    emap (\<lambda>b. combineByte sel b 0 [0..<length sel]) [0..<l]"
proof -
  have "hd sel \<in> set sel"
    using assms(1) by (cases sel) auto
  then have "length (ys (hd sel)) = l"
    using assms(2) by auto
  moreover have "efor (checkShare l) sel = Inr ()"
    using assms(2) by (auto simp: efor_eq_Inr checkShare_def throw_if_def)
  ultimately show ?thesis
    using assms(1) distinct_remdups_id [OF assms(3)]
    by (simp add: combineShares_def throw_if_def del: length_map)
qed

lemma emap_Inr_map: "(\<And>x. x \<in> set xs \<Longrightarrow> f x = Inr (h x)) \<Longrightarrow> emap f xs = Inr (map h xs)"
  by (induction xs) auto

lemma combineShares_reconstructs:
  assumes sel: "\<forall>s \<in> set sel. \<exists>i. s = share_at coeffs secret i \<and> 0 < i \<and> i < 256"
    and d: "distinct (map index sel)" and len: "\<And>b. length (coeffs b) < length sel" "2 \<le> length sel"
  shows "combineShares sel = Inr secret"
proof -
  have ok: "\<forall>s \<in> set sel. length (ys s) = length secret \<and> 0 < index s \<and> index s < 256"
    using sel by fastforce
  have "inj_on xcoord (set (map index sel))"
    using ok xcoord_inject by (auto simp: inj_on_def)
  then have dx: "distinct (map (xcoord \<circ> index) sel)"
    using d by (simp add: distinct_map comp_inj_on)
  have "combineByte sel b 0 [0..<length sel] = Inr (secret ! b)" if "b \<in> set [0..<length secret]" for b
    using that combineByte_interpolate [OF dx] interpolate_shares [OF sel d len(1)] by simp
  then have "emap (\<lambda>b. combineByte sel b 0 [0..<length sel]) [0..<length secret] =
      Inr (map (\<lambda>b. secret ! b) [0..<length secret])"
    by (rule emap_Inr_map)
  then show ?thesis
    using combineShares_checks [OF len(2) ok d] by (simp add: map_nth)
qed

text \<open>C10. Threshold reconstruction: any selection of at least \<open>threshold\<close> different shares of an
  accepted split, in any order, combines to exactly the secret that was split, for every outcome
  of the random coefficients.\<close>

theorem shamir_reconstructs:
  assumes random: "\<And>b k. length (randomBytes b k) = k"
    and split: "splitSecret randomBytes secret threshold n = Inr shares"
    and sel: "set sel \<subseteq> set shares" "distinct sel" "threshold \<le> length sel"
  shows "combineShares sel = Inr secret"
proof (rule combineShares_reconstructs)
  let ?share = "share_at (\<lambda>b. randomBytes b (threshold - 1)) secret"
  have ok: "2 \<le> threshold" "n \<le> 255" "shares = map ?share [1..<n + 1]"
    using split by (auto simp: splitSecret_eq simp del: upt.simps split: if_splits)
  have shape: "\<exists>i. s = ?share i \<and> 0 < i \<and> i < 256" if "s \<in> set sel" for s
    using that subsetD [OF sel(1)] ok by (force simp del: upt.simps)
  then show "\<forall>s \<in> set sel. \<exists>i. s = ?share i \<and> 0 < i \<and> i < 256" by blast
  have "inj_on index (set sel)"
    using shape by (intro inj_onI) (metis share_at_simps(1))
  with sel(2) show "distinct (map index sel)"
    by (simp add: distinct_map)
  show "length (randomBytes b (threshold - 1)) < length sel" for b
    using random ok(1) sel(3) by simp
  show "2 \<le> length sel"
    using ok(1) sel(3) by simp
qed

theorem shamir_reconstructs_witness:
  "\<exists>shares. splitSecret (\<lambda>b k. replicate k 7) [1, 2, 3] 2 3 = Inr shares \<and>
     combineShares [shares ! 2, shares ! 0] = Inr [1, 2, 3]"
proof -
  let ?share = "share_at (\<lambda>b. replicate (2 - 1) 7) [1, 2, 3]"
  have split: "splitSecret (\<lambda>b k. replicate k 7) [1, 2, 3] 2 3 = Inr [?share 1, ?share 2, ?share 3]"
    by (simp add: splitSecret_eq upt_rec_numeral numeral_2_eq_2 numeral_3_eq_3)
  have "?share 1 \<noteq> ?share 3"
    by (metis share_at_simps(1) numeral_eq_one_iff num.distinct(3))
  then have "combineShares [[?share 1, ?share 2, ?share 3] ! 2, [?share 1, ?share 2, ?share 3] ! 0] =
      Inr [1, 2, 3]"
    by (intro shamir_reconstructs [OF _ split]) auto
  with split show ?thesis by blast
qed

section \<open>Secrecy\<close>

text \<open>Through any prescribed values at fewer points than the threshold there is a polynomial with
  any prescribed constant.\<close>

lemma coefficients_exist:
  assumes "distinct is" and "\<forall>i \<in> set is. 0 < i \<and> i < 256" and "length vs = length is"
  shows "\<exists>coeffs. length coeffs = length is \<and> map (\<lambda>i. evalShare (of_nat i) s 1 coeffs) is = vs"
proof -
  let ?ps = "(0, gf_of s) # zip (map xcoord is) (map gf_of vs)"
  have len: "length ?ps = Suc (length is)"
    using assms(3) by simp
  have "inj_on xcoord (set is)"
    using assms(2) xcoord_inject by (auto simp: inj_on_def)
  then have d: "distinct (map fst ?ps)"
    using assms xcoord_nonzero by (auto simp: distinct_map)
  obtain as where as: "length as = length is" "interpolate ?ps = poly_of (interpolate ?ps 0) as"
    using is_poly_poly_of [OF interpolate_poly [of ?ps, unfolded len]] by blast
  have zero: "interpolate ?ps 0 = gf_of s"
    using interpolate_at [OF d, of 0] by simp
  have "evalShare (of_nat (is ! k)) s 1 (map byte_of as) = vs ! k" if "k < length is" for k
  proof -
    have "poly_of (gf_of s) as (xcoord (is ! k)) = gf_of (vs ! k)"
      using interpolate_at [OF d, of "Suc k"] that assms(3) as(2) zero by simp
    then have "gf_of (evalShare (of_nat (is ! k)) s 1 (map byte_of as)) = gf_of (vs ! k)"
      by (simp add: evalShare_eq comp_def)
    then show ?thesis by (metis byte_of_gf_of(1))
  qed
  then have "map (\<lambda>i. evalShare (of_nat i) s 1 (map byte_of as)) is = vs"
    using assms(3) by (intro nth_equalityI) simp_all
  with as(1) show ?thesis by (metis length_map)
qed

lemma finite_byte_lists: "finite {l :: byte list. length l = k}"
  using finite_lists_length_eq [of "UNIV :: byte set" k] by simp

text \<open>C11. Perfect secrecy below the threshold: for every secret byte, the values at any \<open>threshold - 1\<close>
  share indices run through all possible values exactly once as the random coefficients do. The
  shares below the threshold are therefore distributed the same way whatever the secret is.\<close>

theorem shamir_perfect_secrecy:
  assumes "distinct is" and "\<forall>i \<in> set is. 0 < i \<and> i < 256" and "length is = threshold - 1"
  shows "bij_betw (\<lambda>coeffs. map (\<lambda>i. evalShare (of_nat i) secretByte 1 coeffs) is)
    {coeffs. length coeffs = threshold - 1} {vs. length vs = threshold - 1}"
proof -
  let ?f = "\<lambda>coeffs. map (\<lambda>i. evalShare (of_nat i) secretByte 1 coeffs) is"
  have surj: "?f ` {c. length c = threshold - 1} = {vs. length vs = threshold - 1}"
    using coefficients_exist [OF assms(1,2), of _ secretByte] assms(3) by fastforce
  then have "inj_on ?f {c. length c = threshold - 1}"
    using finite_byte_lists by (intro eq_card_imp_inj_on) simp_all
  with surj show ?thesis by (simp add: bij_betw_def)
qed

theorem shamir_perfect_secrecy_witness:
  "bij_betw (\<lambda>coeffs. map (\<lambda>i. evalShare (of_nat i) 42 1 coeffs) [3]) {coeffs. length coeffs = 2 - 1}
     {vs. length vs = 2 - 1}"
  by (rule shamir_perfect_secrecy) auto

definition well_formed_shares :: "ShamirShare list \<Rightarrow> bool" where
  "well_formed_shares shares \<longleftrightarrow>
     2 \<le> length shares \<and> distinct (map index shares) \<and>
     (\<forall>s \<in> set shares. length (ys s) = length (ys (hd shares)) \<and> 0 < index s \<and> index s < 256)"

lemma well_formed_combine:
  assumes "well_formed_shares shares"
  shows "combineShares shares = Inr (map (\<lambda>b. byte_of (interpolate (points shares b) 0))
      [0..<length (ys (hd shares))])"
proof -
  have ok: "\<forall>s \<in> set shares. length (ys s) = length (ys (hd shares)) \<and> 0 < index s \<and> index s < 256"
    and l: "2 \<le> length shares" and d: "distinct (map index shares)"
    using assms by (simp_all add: well_formed_shares_def)
  have "inj_on xcoord (set (map index shares))"
    using ok xcoord_inject by (auto simp: inj_on_def)
  then have "distinct (map (xcoord \<circ> index) shares)"
    using d by (simp add: distinct_map comp_inj_on)
  then show ?thesis
    using combineShares_checks [OF l ok d] combineByte_interpolate by (simp add: emap_Inr_map)
qed

lemma efor_eq_Inl: "efor f xs = Inl e \<Longrightarrow> \<exists>x \<in> set xs. f x = Inl e"
  by (induction xs) (auto simp: ebind_eq_Inl)

lemma malformed_combine:
  assumes "\<not> well_formed_shares shares"
  shows "\<exists>e. combineShares shares = Inl e \<and> (\<forall>g. e \<noteq> Interpolation g)"
proof (cases "efor (checkShare (length (ys (hd shares)))) shares")
  case (Inl e)
  then obtain s where "checkShare (length (ys (hd shares))) s = Inl e"
    using efor_eq_Inl by metis
  then have "\<forall>g. e \<noteq> Interpolation g"
    by (auto simp: checkShare_def ebind_eq_Inl)
  with Inl show ?thesis
    by (auto simp: combineShares_def throw_if_def)
next
  case (Inr u)
  then have "\<forall>s \<in> set shares. length (ys s) = length (ys (hd shares)) \<and> 0 < index s \<and> index s < 256"
    by (auto simp: efor_eq_Inr checkShare_def ebind_eq_Inr)
  then have "length shares < 2 \<or> \<not> distinct (map index shares)"
    using assms by (auto simp: well_formed_shares_def)
  with Inr show ?thesis
    by (auto simp: combineShares_def throw_if_def remdups_id_iff_distinct simp del: length_map)
qed

text \<open>Malformed share sets never interpolate: fewer than two shares, shares of different lengths, an
  index outside 1..255 and a repeated index are each refused, and once the checks pass the division
  by zero of the interpolation cannot happen, so a well-formed share set always yields a byte
  string of the shares' length.\<close>

theorem combineShares_exact:
  "case combineShares shares of
     Inl e \<Rightarrow> well_formed_shares shares = False \<and> (\<forall>g. e \<noteq> Interpolation g)
   | Inr secret \<Rightarrow> well_formed_shares shares \<and> length secret = length (ys (hd shares))"
proof (cases "well_formed_shares shares")
  case True
  then show ?thesis by (simp add: well_formed_combine)
next
  case False
  then show ?thesis using malformed_combine by fastforce
qed

end
