(* ===== verification/Envelope.thy ===== *)
theory Envelope
  imports Shamir Lockbox_States
begin

text \<open>
  \<open>packages/crypto/src/aes-gcm.ts\<close>, \<open>errors.ts\<close> and \<open>envelope.ts\<close>: authenticated
  encryption under a 32-byte key and the lockbox envelope, a random data key shared two of three
  among the custodian roles, each share wrapped under its role's key.

  \<open>node:crypto\<close> is the parameter \<open>node_crypto\<close>: \<open>rand i k\<close> are the bytes of the \<open>i\<close>-th
  call of \<open>randomBytes\<close> for \<open>k\<close> bytes, \<open>gcm_seal\<close> is AES-256-GCM encryption (ciphertext
  and tag), \<open>gcm_open\<close> decryption (\<open>None\<close> when \<open>final()\<close> throws) and \<open>sha256_hex\<close> the
  hex digest. Random calls are numbered through the code by a counter. The scrubbing of the data
  key in the \<open>finally\<close> blocks has no effect on results and is left out.
\<close>

record node_crypto =
  rand :: "nat \<Rightarrow> nat \<Rightarrow> byte list"
  gcm_seal :: "byte list \<Rightarrow> byte list \<Rightarrow> byte list option \<Rightarrow> byte list \<Rightarrow> byte list \<times> byte list"
  gcm_open :: "byte list \<Rightarrow> byte list \<Rightarrow> byte list option \<Rightarrow> byte list \<Rightarrow> byte list \<Rightarrow> byte list option"
  sha256_hex :: "byte list \<Rightarrow> string"

text \<open>What the code relies on. \<open>randomBytes\<close> returns as many bytes as asked; what was encrypted
  under a 32-byte key and a 12-byte nonce carries a 16-byte tag and decrypts to the plaintext.\<close>

definition random_sized :: "node_crypto \<Rightarrow> bool" where
  "random_sized nc \<longleftrightarrow> (\<forall>i k. length (rand nc i k) = k)"

definition gcm_correct :: "node_crypto \<Rightarrow> bool" where
  "gcm_correct nc \<longleftrightarrow>
     (\<forall>key iv aad pt. length key = 32 \<longrightarrow> length iv = 12 \<longrightarrow>
        length (snd (gcm_seal nc key iv aad pt)) = 16 \<and>
        gcm_open nc key iv aad (fst (gcm_seal nc key iv aad pt)) (snd (gcm_seal nc key iv aad pt)) = Some pt)"

text \<open>Decryption accepts only what encryption under the same key, nonce and additional data
  produces (the tag is a function of the other inputs and is compared).\<close>

definition gcm_authentic :: "node_crypto \<Rightarrow> bool" where
  "gcm_authentic nc \<longleftrightarrow>
     (\<forall>key iv aad ct tag pt. length tag = 16 \<longrightarrow> gcm_open nc key iv aad ct tag = Some pt \<longrightarrow>
        gcm_seal nc key iv aad pt = (ct, tag))"

section \<open>Authenticated encryption\<close>

datatype CryptoError =
    TamperOrWrongKeyError
  | KeyLengthError nat
  | InsufficientSharesError
  | DuplicateRolesError
  | CombineError shamir_error
  | SplitError shamir_error
  | NoRoleForIndex nat

definition AES_KEY_BYTES :: nat where "AES_KEY_BYTES = 32"
definition GCM_IV_BYTES :: nat where "GCM_IV_BYTES = 12"
definition GCM_AUTH_TAG_BYTES :: nat where "GCM_AUTH_TAG_BYTES = 16"

record AesGcmCiphertext =
  iv :: "byte list"
  ciphertext :: "byte list"
  authTag :: "byte list"

definition generateKey :: "node_crypto \<Rightarrow> nat \<Rightarrow> byte list \<times> nat" where
  "generateKey nc k = (rand nc k AES_KEY_BYTES, k + 1)"

definition assertKeyLength :: "byte list \<Rightarrow> CryptoError + unit" where
  "assertKeyLength key = throw_if (length key \<noteq> AES_KEY_BYTES) (KeyLengthError (length key))"

definition encrypt ::
  "node_crypto \<Rightarrow> nat \<Rightarrow> byte list \<Rightarrow> byte list \<Rightarrow> byte list option \<Rightarrow> CryptoError + (AesGcmCiphertext \<times> nat)" where
  "encrypt nc k plaintext key aad =
     ebind (assertKeyLength key) (\<lambda>_.
     let v = rand nc k GCM_IV_BYTES; (ct, tag) = gcm_seal nc key v aad plaintext
     in Inr (\<lparr>iv = v, ciphertext = ct, authTag = tag\<rparr>, k + 1))"

definition decrypt ::
  "node_crypto \<Rightarrow> AesGcmCiphertext \<Rightarrow> byte list \<Rightarrow> byte list option \<Rightarrow> CryptoError + byte list" where
  "decrypt nc input key aad =
     ebind (assertKeyLength key) (\<lambda>_.
     ebind (throw_if (length (authTag input) \<noteq> GCM_AUTH_TAG_BYTES) TamperOrWrongKeyError) (\<lambda>_.
     case gcm_open nc key (iv input) aad (ciphertext input) (authTag input) of
       Some pt \<Rightarrow> Inr pt
     | None \<Rightarrow> Inl TamperOrWrongKeyError))"

section \<open>The envelope\<close>

definition LOCKBOX_SHARE_THRESHOLD :: nat where "LOCKBOX_SHARE_THRESHOLD = 2"
definition LOCKBOX_SHARE_TOTAL :: nat where "LOCKBOX_SHARE_TOTAL = 3"

record WrappedShare =
  share_role :: LockboxShareRole
  share_index :: nat
  wrapped :: AesGcmCiphertext

record SealedEnvelope =
  env_ciphertext :: "byte list"
  env_iv :: "byte list"
  env_authTag :: "byte list"
  ciphertextHash :: string
  shares :: "WrappedShare list"

record RoleKeks =
  kek_SEALER :: "byte list"
  kek_OPERATOR :: "byte list"
  kek_ESCROW :: "byte list"

fun kek_of :: "RoleKeks \<Rightarrow> LockboxShareRole \<Rightarrow> byte list" where
  "kek_of keks Shr_SEALER = kek_SEALER keks"
| "kek_of keks Shr_OPERATOR = kek_OPERATOR keks"
| "kek_of keks Shr_ESCROW = kek_ESCROW keks"

text \<open>\<open>indexOf\<close> is at least \<open>0\<close> here: the roles are the array.\<close>

definition roleToIndex :: "LockboxShareRole \<Rightarrow> nat" where
  "roleToIndex r = (case index_of LOCKBOX_SHARE_ROLES r of Some i \<Rightarrow> i + 1 | None \<Rightarrow> 0)"

definition indexToRole :: "nat \<Rightarrow> CryptoError + LockboxShareRole" where
  "indexToRole i =
     (if 1 \<le> i \<and> i \<le> length LOCKBOX_SHARE_ROLES then Inr (LOCKBOX_SHARE_ROLES ! (i - 1))
      else Inl (NoRoleForIndex i))"

text \<open>The \<open>map\<close> of \<open>sealPayload\<close> over the raw shares.\<close>

fun wrapShares ::
  "node_crypto \<Rightarrow> RoleKeks \<Rightarrow> nat \<Rightarrow> ShamirShare list \<Rightarrow> CryptoError + WrappedShare list" where
  "wrapShares nc keks k [] = Inr []"
| "wrapShares nc keks k (s # ss) =
     ebind (indexToRole (index s)) (\<lambda>role.
     ebind (encrypt nc k (ys s) (kek_of keks role) None) (\<lambda>(w, k).
     ebind (wrapShares nc keks k ss) (\<lambda>ws.
     Inr (\<lparr>share_role = role, share_index = index s, wrapped = w\<rparr> # ws))))"

definition sealPayload ::
  "node_crypto \<Rightarrow> nat \<Rightarrow> byte list \<Rightarrow> RoleKeks \<Rightarrow> byte list option \<Rightarrow> CryptoError + SealedEnvelope" where
  "sealPayload nc k plaintext keks aad =
     (let (dek, k) = generateKey nc k in
      ebind (encrypt nc k plaintext dek aad) (\<lambda>(c, k).
      let hash = sha256_hex nc (ciphertext c) in
      case splitSecret (\<lambda>b n. rand nc (k + b) n) dek LOCKBOX_SHARE_THRESHOLD LOCKBOX_SHARE_TOTAL of
        Inl e \<Rightarrow> Inl (SplitError e)
      | Inr rawShares \<Rightarrow>
          ebind (wrapShares nc keks (k + length dek) rawShares) (\<lambda>ws.
          Inr \<lparr>env_ciphertext = ciphertext c, env_iv = iv c, env_authTag = authTag c,
               ciphertextHash = hash, shares = ws\<rparr>)))"

definition unwrapShare :: "node_crypto \<Rightarrow> RoleKeks \<Rightarrow> WrappedShare \<Rightarrow> CryptoError + ShamirShare" where
  "unwrapShare nc keks s =
     ebind (decrypt nc (wrapped s) (kek_of keks (share_role s)) None) (\<lambda>v.
     Inr \<lparr>index = share_index s, ys = v\<rparr>)"

definition releasePayload ::
  "node_crypto \<Rightarrow> AesGcmCiphertext \<Rightarrow> WrappedShare list \<Rightarrow> RoleKeks \<Rightarrow> byte list option \<Rightarrow>
   CryptoError + byte list" where
  "releasePayload nc envelope wrappedShares keks aad =
     ebind (throw_if (length wrappedShares < LOCKBOX_SHARE_THRESHOLD) InsufficientSharesError) (\<lambda>_.
     ebind (throw_if (length (remdups (map share_role wrappedShares)) < length wrappedShares)
       DuplicateRolesError) (\<lambda>_.
     ebind (emap (unwrapShare nc keks) wrappedShares) (\<lambda>unwrapped.
     case combineShares unwrapped of
       Inl e \<Rightarrow> Inl (CombineError e)
     | Inr dek \<Rightarrow> decrypt nc envelope dek aad)))"

definition payload_part :: "SealedEnvelope \<Rightarrow> AesGcmCiphertext" where
  "payload_part e = \<lparr>iv = env_iv e, ciphertext = env_ciphertext e, authTag = env_authTag e\<rparr>"

section \<open>Encryption round trip\<close>

lemma encrypt_decrypt:
  assumes "gcm_correct nc" "random_sized nc" "length key = 32"
  shows "\<exists>c. encrypt nc k pt key aad = Inr (c, k + 1) \<and> decrypt nc c key aad = Inr pt"
proof -
  let ?v = "rand nc k GCM_IV_BYTES"
  have v: "length ?v = 12"
    using assms(2) by (simp add: random_sized_def GCM_IV_BYTES_def)
  obtain ct tag where ct: "gcm_seal nc key ?v aad pt = (ct, tag)"
    by fastforce
  then have "length tag = 16" "gcm_open nc key ?v aad ct tag = Some pt"
    using assms(1,3) v unfolding gcm_correct_def by (metis fst_conv snd_conv)+
  then show ?thesis
    using assms(3) ct
    by (simp add: encrypt_def decrypt_def assertKeyLength_def throw_if_def AES_KEY_BYTES_def
        GCM_AUTH_TAG_BYTES_def)
qed

lemma indexToRole_total:
  "indexToRole i = Inr r \<longleftrightarrow> roleToIndex r = i"
  by (cases r) (auto simp: indexToRole_def roleToIndex_def LOCKBOX_SHARE_ROLES_def nth_Cons'
      split: if_splits)

lemma roleToIndex_values:
  "roleToIndex Shr_SEALER = 1" "roleToIndex Shr_OPERATOR = 2" "roleToIndex Shr_ESCROW = 3"
  by (simp_all add: roleToIndex_def LOCKBOX_SHARE_ROLES_def)

lemma roleToIndex_inject: "roleToIndex r = roleToIndex r' \<longleftrightarrow> r = r'"
  by (cases r; cases r') (simp_all add: roleToIndex_values)

definition keks_ok :: "RoleKeks \<Rightarrow> bool" where
  "keks_ok keks \<longleftrightarrow> length (kek_SEALER keks) = 32 \<and> length (kek_OPERATOR keks) = 32 \<and> length (kek_ESCROW keks) = 32"

lemma kek_of_length: "keks_ok keks \<Longrightarrow> length (kek_of keks r) = 32"
  by (cases r) (simp_all add: keks_ok_def)

text \<open>A wrapped share belongs to a raw share: the role of its index, and it unwraps to it.\<close>

definition wraps :: "node_crypto \<Rightarrow> RoleKeks \<Rightarrow> ShamirShare \<Rightarrow> WrappedShare \<Rightarrow> bool" where
  "wraps nc keks s w \<longleftrightarrow> share_index w = index s \<and> roleToIndex (share_role w) = index s \<and>
     unwrapShare nc keks w = Inr s"

lemma wrapShares_ok:
  assumes nc: "gcm_correct nc" "random_sized nc" "keks_ok keks"
  shows "\<forall>s \<in> set ss. 1 \<le> index s \<and> index s \<le> 3 \<Longrightarrow>
    \<exists>ws. wrapShares nc keks k ss = Inr ws \<and> list_all2 (wraps nc keks) ss ws"
proof (induction ss arbitrary: k)
  case (Cons s ss)
  then have "index s = 1 \<or> index s = 2 \<or> index s = 3" by auto
  then obtain r where r: "indexToRole (index s) = Inr r" "roleToIndex r = index s"
    using indexToRole_total roleToIndex_values by metis
  obtain c where c: "encrypt nc k (ys s) (kek_of keks r) None = Inr (c, k + 1)"
      "decrypt nc c (kek_of keks r) None = Inr (ys s)"
    using encrypt_decrypt [OF nc(1,2) kek_of_length [OF nc(3)]] by blast
  obtain ws where "wrapShares nc keks (k + 1) ss = Inr ws" "list_all2 (wraps nc keks) ss ws"
    using Cons by fastforce
  moreover have "wraps nc keks s \<lparr>share_role = r, share_index = index s, wrapped = c\<rparr>"
    using r c by (simp add: wraps_def unwrapShare_def)
  ultimately show ?case
    using r c by simp
qed simp

text \<open>What an accepted seal produces.\<close>

definition sealed_as ::
  "node_crypto \<Rightarrow> RoleKeks \<Rightarrow> byte list \<Rightarrow> byte list option \<Rightarrow> SealedEnvelope \<Rightarrow> bool" where
  "sealed_as nc keks plaintext aad env \<longleftrightarrow>
     (\<exists>dek coeffs. length dek = 32 \<and> (\<forall>b. length (coeffs b) = 1) \<and>
        decrypt nc (payload_part env) dek aad = Inr plaintext \<and>
        list_all2 (wraps nc keks) (map (share_at coeffs dek) [1, 2, 3]) (shares env))"

lemma sealPayload_ok:
  assumes nc: "gcm_correct nc" "random_sized nc" "keks_ok keks"
  shows "\<exists>env. sealPayload nc k plaintext keks aad = Inr env \<and> sealed_as nc keks plaintext aad env \<and>
    ciphertextHash env = sha256_hex nc (env_ciphertext env)"
proof -
  let ?dek = "rand nc k AES_KEY_BYTES"
  let ?raw = "map (share_at (\<lambda>b. rand nc (k + 2 + b) 1) ?dek) [1, 2, 3]"
  have dek: "length ?dek = 32"
    using nc(2) by (simp add: random_sized_def AES_KEY_BYTES_def)
  obtain c where c: "encrypt nc (k + 1) plaintext ?dek aad = Inr (c, k + 2)" "decrypt nc c ?dek aad = Inr plaintext"
    using encrypt_decrypt [OF nc(1,2) dek] by (metis add.assoc one_add_one)
  have split: "splitSecret (\<lambda>b n. rand nc (k + 2 + b) n) ?dek LOCKBOX_SHARE_THRESHOLD LOCKBOX_SHARE_TOTAL = Inr ?raw"
    using dek by (auto simp: splitSecret_eq LOCKBOX_SHARE_THRESHOLD_def LOCKBOX_SHARE_TOTAL_def upt_rec_numeral
        numeral_2_eq_2 numeral_3_eq_3)
  obtain ws where ws: "wrapShares nc keks (k + 2 + length ?dek) ?raw = Inr ws" "list_all2 (wraps nc keks) ?raw ws"
    using wrapShares_ok [OF nc, of ?raw] by auto
  let ?env = "\<lparr>env_ciphertext = ciphertext c, env_iv = iv c, env_authTag = authTag c,
    ciphertextHash = sha256_hex nc (ciphertext c), shares = ws\<rparr>"
  have "sealPayload nc k plaintext keks aad = Inr ?env"
    using c(1) split ws(1) by (simp add: sealPayload_def generateKey_def)
  moreover have "sealed_as nc keks plaintext aad ?env"
    unfolding sealed_as_def payload_part_def
  proof (intro exI conjI)
    show "length ?dek = 32" by (rule dek)
    show "\<forall>b. length (rand nc (k + 2 + b) 1) = 1"
      using nc(2) by (simp add: random_sized_def)
    show "decrypt nc \<lparr>iv = env_iv ?env, ciphertext = env_ciphertext ?env, authTag = env_authTag ?env\<rparr>
        ?dek aad = Inr plaintext"
      using c(2) by (cases c) simp
  qed (use ws(2) in simp)
  ultimately show ?thesis by simp
qed

lemma release_sealed:
  assumes sealed: "sealed_as nc keks plaintext aad env"
    and sel: "set sel \<subseteq> set (shares env)" "distinct (map share_role sel)" "2 \<le> length sel"
  shows "releasePayload nc (payload_part env) sel keks aad = Inr plaintext"
proof -
  obtain dek coeffs where dek: "length dek = 32" "\<forall>b. length (coeffs b) = 1"
    and pt: "decrypt nc (payload_part env) dek aad = Inr plaintext"
    and w: "list_all2 (wraps nc keks) (map (share_at coeffs dek) [1, 2, 3]) (shares env)"
    using sealed by (auto simp: sealed_as_def)
  have wraps: "wraps nc keks (share_at coeffs dek (share_index w)) w \<and> 0 < share_index w \<and> share_index w < 256"
    if "w \<in> set sel" for w
  proof -
    have "w \<in> set (shares env)"
      using that sel(1) by blast
    then show ?thesis using w by (auto simp: list_all2_Cons1 wraps_def)
  qed
  let ?unwrapped = "map (\<lambda>w. share_at coeffs dek (share_index w)) sel"
  have "emap (unwrapShare nc keks) sel = Inr ?unwrapped"
    using wraps by (intro emap_Inr_map) (simp add: wraps_def)
  moreover have "combineShares ?unwrapped = Inr dek"
  proof (rule combineShares_reconstructs [where coeffs = coeffs])
    show "\<forall>s \<in> set ?unwrapped. \<exists>i. s = share_at coeffs dek i \<and> 0 < i \<and> i < 256"
      using wraps by auto
    have "map index ?unwrapped = map roleToIndex (map share_role sel)"
      using wraps by (simp add: wraps_def)
    then show "distinct (map index ?unwrapped)"
      using sel(2) by (simp only: distinct_map) (auto simp: inj_on_def roleToIndex_inject distinct_map)
  qed (use dek(2) sel(3) in auto)
  moreover have "length (remdups (map share_role sel)) = length sel"
    using distinct_remdups_id [OF sel(2)] by (metis length_map)
  ultimately show ?thesis
    using sel(3) pt by (simp add: releasePayload_def throw_if_def LOCKBOX_SHARE_THRESHOLD_def)
qed

text \<open>Seal and release: with sound primitives and 32-byte role keys, sealing succeeds, records the
  digest of the ciphertext, and any two (or all three) different custodian roles release exactly
  the sealed payload.\<close>

theorem seal_release_roundtrip:
  assumes "gcm_correct nc" and "random_sized nc" and "keks_ok keks"
  shows "\<exists>env. sealPayload nc k plaintext keks aad = Inr env \<and>
    ciphertextHash env = sha256_hex nc (env_ciphertext env) \<and>
    (\<forall>sel. set sel \<subseteq> set (shares env) \<longrightarrow> distinct (map share_role sel) \<longrightarrow> 2 \<le> length sel \<longrightarrow>
       releasePayload nc (payload_part env) sel keks aad = Inr plaintext)"
  using sealPayload_ok [OF assms] release_sealed by metis

section \<open>A concrete primitive for the witnesses\<close>

text \<open>A cipher that shows the hypotheses can hold: identity with a tag that depends on the key.\<close>

definition demo_tag :: "byte list \<Rightarrow> byte list" where
  "demo_tag key = take 16 (key @ replicate 16 0)"

definition demo_crypto :: node_crypto where
  "demo_crypto =
     \<lparr>rand = (\<lambda>i k. replicate k (of_nat i)),
      gcm_seal = (\<lambda>key v aad pt. (pt, demo_tag key)),
      gcm_open = (\<lambda>key v aad ct tag. if tag = demo_tag key then Some ct else None),
      sha256_hex = (\<lambda>b. [])\<rparr>"

lemma demo_crypto_ok: "gcm_correct demo_crypto" "random_sized demo_crypto" "gcm_authentic demo_crypto"
  by (auto simp: gcm_correct_def random_sized_def gcm_authentic_def demo_crypto_def demo_tag_def
      split: if_splits)

definition demo_keks :: RoleKeks where
  "demo_keks = \<lparr>kek_SEALER = replicate 32 1, kek_OPERATOR = replicate 32 2, kek_ESCROW = replicate 32 3\<rparr>"

lemma demo_keks_ok: "keks_ok demo_keks"
  by (simp add: keks_ok_def demo_keks_def)

theorem seal_release_roundtrip_witness:
  "\<exists>env. sealPayload demo_crypto 0 [1, 2, 3] demo_keks (Some [7]) = Inr env \<and>
    releasePayload demo_crypto (payload_part env) (shares env) demo_keks (Some [7]) = Inr [1, 2, 3]"
proof -
  obtain env where env: "sealPayload demo_crypto 0 [1, 2, 3] demo_keks (Some [7]) = Inr env"
    and rel: "\<And>sel. set sel \<subseteq> set (shares env) \<Longrightarrow> distinct (map share_role sel) \<Longrightarrow> 2 \<le> length sel \<Longrightarrow>
      releasePayload demo_crypto (payload_part env) sel demo_keks (Some [7]) = Inr [1, 2, 3]"
    using seal_release_roundtrip [OF demo_crypto_ok(1,2) demo_keks_ok, of 0 "[1, 2, 3]" "Some [7]"] by blast
  have "sealed_as demo_crypto demo_keks [1, 2, 3] (Some [7]) env"
    using sealPayload_ok [OF demo_crypto_ok(1,2) demo_keks_ok, of 0 "[1, 2, 3]" "Some [7]"] env by auto
  then obtain dek coeffs where
    "list_all2 (wraps demo_crypto demo_keks) (map (share_at coeffs dek) [1, 2, 3]) (shares env)"
    by (auto simp: sealed_as_def)
  then have "map roleToIndex (map share_role (shares env)) = [1, 2, 3] \<and> length (shares env) = 3"
    by (auto simp: list_all2_Cons1 wraps_def)
  then have "distinct (map roleToIndex (map share_role (shares env)))" "length (shares env) = 3"
    by simp_all
  then have "releasePayload demo_crypto (payload_part env) (shares env) demo_keks (Some [7]) = Inr [1, 2, 3]"
    by (intro rel) (auto simp: distinct_map dest: inj_on_imageI2)
  with env show ?thesis by blast
qed

section \<open>Fail closed\<close>

text \<open>Release fails closed: whatever it returns was authenticated. At least two shares of pairwise
  different roles were supplied, each opened under its own role's key, they combined to a 32-byte
  data key, and the returned bytes are the ones whose encryption under that key, with the
  record's additional data, is the stored ciphertext and tag.\<close>

theorem release_authentic:
  assumes auth: "gcm_authentic nc"
    and rel: "releasePayload nc envelope sel keks aad = Inr plaintext"
  shows "2 \<le> length sel \<and> distinct (map share_role sel) \<and>
    (\<exists>unwrapped dek. list_all2 (\<lambda>w s. unwrapShare nc keks w = Inr s) sel unwrapped \<and>
       combineShares unwrapped = Inr dek \<and> length dek = 32 \<and>
       gcm_seal nc dek (iv envelope) aad plaintext = (ciphertext envelope, authTag envelope))"
proof -
  obtain unwrapped dek where u: "emap (unwrapShare nc keks) sel = Inr unwrapped" "combineShares unwrapped = Inr dek"
    and d: "decrypt nc envelope dek aad = Inr plaintext"
    and l: "2 \<le> length sel" "\<not> length (remdups (map share_role sel)) < length sel"
    using rel by (auto simp: releasePayload_def ebind_eq_Inr case_sum_eq_Inr
        LOCKBOX_SHARE_THRESHOLD_def)
  have "length (remdups (map share_role sel)) = length (map share_role sel)"
    using l(2) length_remdups_leq [of "map share_role sel"] by simp
  then have "distinct (map share_role sel)"
    by (metis length_remdups_eq remdups_id_iff_distinct)
  moreover have "length dek = 32" "length (authTag envelope) = 16"
      "gcm_open nc dek (iv envelope) aad (ciphertext envelope) (authTag envelope) = Some plaintext"
    using d by (auto simp: decrypt_def assertKeyLength_def ebind_eq_Inr AES_KEY_BYTES_def
        GCM_AUTH_TAG_BYTES_def split: option.splits)
  ultimately show ?thesis
    using l(1) u auth unfolding gcm_authentic_def emap_eq_Inr by blast
qed

theorem release_authentic_witness:
  "\<exists>env. sealPayload demo_crypto 0 [1] demo_keks None = Inr env \<and>
    (\<exists>pt. releasePayload demo_crypto (payload_part env) (take 2 (shares env)) demo_keks None = Inr pt) \<and>
    2 \<le> length (take 2 (shares env))"
proof -
  obtain env where env: "sealPayload demo_crypto 0 [1] demo_keks None = Inr env"
    and sealed: "sealed_as demo_crypto demo_keks [1] None env"
    using sealPayload_ok [OF demo_crypto_ok(1,2) demo_keks_ok, of 0 "[1]" None] by blast
  then obtain dek coeffs where
    "list_all2 (wraps demo_crypto demo_keks) (map (share_at coeffs dek) [1, 2, 3]) (shares env)"
    by (auto simp: sealed_as_def)
  then obtain w1 w2 w3 where "shares env = [w1, w2, w3]" "roleToIndex (share_role w1) = 1" "roleToIndex (share_role w2) = 2"
    by (auto simp: list_all2_Cons1 wraps_def)
  then have "releasePayload demo_crypto (payload_part env) (take 2 (shares env)) demo_keks None = Inr [1]"
    by (intro release_sealed [OF sealed]) auto
  with env release_authentic [OF demo_crypto_ok(3)] show ?thesis by blast
qed

end
