(* ===== verification/Receipt.thy ===== *)
theory Receipt
  imports Money GF256
begin

text \<open>
  \<open>packages/crypto/src/keys.ts\<close> and \<open>receipt.ts\<close>: key material as hex strings and the signed
  lockbox receipt. HMAC-SHA256 of \<open>node:crypto\<close> is the parameter \<open>hmac\<close>, from a key and a
  message to the hex digest. Strings are sequences of 8-bit code units.
\<close>

section \<open>Key material\<close>

text \<open>\<open>MissingKeyMaterialError\<close>, with the label it names.\<close>

datatype MissingKeyMaterialError = KeyMissing string | KeyMalformed string nat

definition is_hex :: "string \<Rightarrow> bool" where
  "is_hex s = list_all (\<lambda>c. digit_value c \<noteq> None) s"

text \<open>\<open>Buffer.from(s, "hex")\<close> on a string of hex digits of even length.\<close>

fun bufferFromHex :: "string \<Rightarrow> byte list" where
  "bufferFromHex (c # d # cs) =
     of_nat (16 * the (digit_value c) + the (digit_value d)) # bufferFromHex cs"
| "bufferFromHex _ = []"

definition KEY_HEX_LENGTH :: nat where "KEY_HEX_LENGTH = 64"

definition parseKeyHex :: "string option \<Rightarrow> string \<Rightarrow> MissingKeyMaterialError + byte list" where
  "parseKeyHex hex label =
     (case hex of
        None \<Rightarrow> Inl (KeyMissing label)
      | Some h \<Rightarrow>
          if h = [] then Inl (KeyMissing label)
          else let trimmed = js_trim h in
            if \<not> (length trimmed = KEY_HEX_LENGTH \<and> is_hex trimmed)
            then Inl (KeyMalformed label (length trimmed))
            else Inr (bufferFromHex trimmed))"

section \<open>Canonical JSON and signatures\<close>

text \<open>The values a receipt is built from; numbers are integers.\<close>

datatype json =
    JUndefined
  | JNull
  | JBool bool
  | JInt int
  | JString string
  | JArray "json list"
  | JObject "(string \<times> json) list"

definition hex_digit :: "nat \<Rightarrow> char" where
  "hex_digit d = char_of (if d < 10 then 48 + d else 87 + d)"

text \<open>\<open>JSON.stringify\<close> of a string: quotes, backslashes and control characters are escaped.\<close>

definition json_escape :: "char \<Rightarrow> string" where
  "json_escape c =
     (let n = of_char c :: nat in
      if n = 0x22 \<or> n = 0x5C then [CHR 0x5C, c]
      else if n = 8 then [CHR 0x5C, CHR ''b'']
      else if n = 12 then [CHR 0x5C, CHR ''f'']
      else if n = 10 then [CHR 0x5C, CHR ''n'']
      else if n = 13 then [CHR 0x5C, CHR ''r'']
      else if n = 9 then [CHR 0x5C, CHR ''t'']
      else if n < 32 then [CHR 0x5C, CHR ''u'', CHR ''0'', CHR ''0'', hex_digit (n div 16), hex_digit (n mod 16)]
      else [c])"

definition json_string :: "string \<Rightarrow> string" where
  "json_string s = CHR 0x22 # concat (map json_escape s) @ [CHR 0x22]"

fun join :: "string \<Rightarrow> string list \<Rightarrow> string" where
  "join sep [] = []"
| "join sep [x] = x"
| "join sep (x # xs) = x @ sep @ join sep xs"

text \<open>The entries are rendered and then put in the order of their keys.\<close>

fun canonicalJson :: "json \<Rightarrow> string" where
  "canonicalJson JUndefined = ''null''"
| "canonicalJson JNull = ''null''"
| "canonicalJson (JBool b) = (if b then ''true'' else ''false'')"
| "canonicalJson (JInt i) = decimal i"
| "canonicalJson (JString s) = json_string s"
| "canonicalJson (JArray vs) = ''['' @ join '','' (map canonicalJson vs) @ '']''"
| "canonicalJson (JObject kvs) =
     ''{'' @ join '','' (map (\<lambda>(k, v). json_string k @ '':'' @ v)
               (sort_key fst (map (\<lambda>(k, v). (k, canonicalJson v)) kvs))) @ ''}''"

record LockboxReceiptPayload =
  receipt_lockboxId :: string
  receipt_ciphertextHash :: string
  receipt_sealerOrgId :: string
  receipt_sealedAt :: string
  receipt_state :: string

definition receipt_json :: "LockboxReceiptPayload \<Rightarrow> json" where
  "receipt_json p = JObject
     [(''lockboxId'', JString (receipt_lockboxId p)),
      (''ciphertextHash'', JString (receipt_ciphertextHash p)),
      (''sealerOrgId'', JString (receipt_sealerOrgId p)),
      (''sealedAt'', JString (receipt_sealedAt p)),
      (''state'', JString (receipt_state p))]"

definition signReceipt ::
  "(byte list \<Rightarrow> string \<Rightarrow> string) \<Rightarrow> LockboxReceiptPayload \<Rightarrow> byte list \<Rightarrow> string" where
  "signReceipt hmac payload hmacKey = hmac hmacKey (canonicalJson (receipt_json payload))"

definition verifyReceipt ::
  "(byte list \<Rightarrow> string \<Rightarrow> string) \<Rightarrow> LockboxReceiptPayload \<Rightarrow> string \<Rightarrow> byte list \<Rightarrow> bool" where
  "verifyReceipt hmac payload signature hmacKey =
     (let expected = signReceipt hmac payload hmacKey;
          expectedBuf = bufferFromHex expected
      in if \<not> is_hex signature \<or> length signature mod 2 \<noteq> 0 then False
         else let actualBuf = bufferFromHex signature
              in if length actualBuf \<noteq> length expectedBuf then False
                 else expectedBuf = actualBuf)"

section \<open>Hex strings\<close>

definition hexOf :: "byte list \<Rightarrow> string" where
  "hexOf bs = concat (map (\<lambda>b. [hex_digit (unat b div 16), hex_digit (unat b mod 16)]) bs)"

definition to_lower :: "char \<Rightarrow> char" where
  "to_lower c = (let n = of_char c :: nat in if 65 \<le> n \<and> n \<le> 90 then char_of (n + 32) else c)"

lemma digit_value_hex_digit: "d < 16 \<Longrightarrow> digit_value (hex_digit d) = Some d"
  by (simp add: digit_value_def hex_digit_def)

lemma digit_value_lt: "digit_value c = Some d \<Longrightarrow> d < 16"
  by (auto simp: digit_value_def Let_def split: if_splits)

lemma hex_digit_lower: "digit_value c = Some d \<Longrightarrow> hex_digit d = to_lower c"
proof -
  assume "digit_value c = Some d"
  moreover have "char_of (of_char c :: nat) = c" by simp
  ultimately show ?thesis
    by (auto simp: digit_value_def hex_digit_def to_lower_def Let_def split: if_splits)
qed

lemma unat_byte_lt: "unat (b :: byte) < 256"
  using unsigned_less [of b] by simp

lemma unat_byte_of_nat: "n < 256 \<Longrightarrow> unat (of_nat n :: byte) = n"
  by (simp add: unat_of_nat)

lemma bufferFromHex_hexOf [simp]: "bufferFromHex (hexOf bs) = bs"
proof (induction bs)
  case (Cons b bs)
  have "unat b div 16 < 16"
    using unat_byte_lt [of b] by simp
  then have "of_nat (16 * the (digit_value (hex_digit (unat b div 16))) +
      the (digit_value (hex_digit (unat b mod 16)))) = b"
    by (simp add: digit_value_hex_digit)
  then show ?case using Cons by (simp add: hexOf_def)
qed (simp add: hexOf_def)

lemma hexOf_is_hex: "is_hex (hexOf bs)"
proof -
  have "digit_value (hex_digit (unat (b :: byte) div 16)) \<noteq> None" for b
    using unat_byte_lt [of b] digit_value_hex_digit [of "unat b div 16"] by simp
  then show ?thesis
    by (auto simp: is_hex_def hexOf_def list_all_iff digit_value_hex_digit)
qed

lemma hexOf_length [simp]: "length (hexOf bs) = 2 * length bs"
  by (induction bs) (simp_all add: hexOf_def)

lemma bufferFromHex_length: "length (bufferFromHex s) = length s div 2"
  by (induction s rule: bufferFromHex.induct) auto

lemma hexOf_bufferFromHex: "is_hex s \<Longrightarrow> even (length s) \<Longrightarrow> hexOf (bufferFromHex s) = map to_lower s"
proof (induction s rule: bufferFromHex.induct)
  case (1 c d cs)
  then obtain x y where x: "digit_value c = Some x" "digit_value d = Some y"
    by (auto simp: is_hex_def)
  then have lt: "x < 16" "y < 16"
    using digit_value_lt by auto
  then have "unat (16 * of_nat x + of_nat y :: byte) = 16 * x + y"
    using unat_byte_of_nat [of "16 * x + y"] by simp
  with 1 x lt show ?case
    using hex_digit_lower by (simp add: hexOf_def is_hex_def)
qed (auto simp: hexOf_def)

text \<open>Key parsing is exact: a missing or empty setting is reported as missing, a key is accepted only
  as 64 hex digits once surrounding white space is removed, and then it has exactly 32 bytes whose
  hex rendering is the setting in lower case.\<close>

theorem parseKeyHex_exact:
  "case parseKeyHex hex label of
     Inl (KeyMissing l) \<Rightarrow> l = label \<and> hex \<in> {None, Some []}
   | Inl (KeyMalformed l n) \<Rightarrow> l = label \<and> (\<exists>h. hex = Some h \<and> n = length (js_trim h) \<and>
       (length (js_trim h) = 64 \<and> is_hex (js_trim h)) = False)
   | Inr key \<Rightarrow> length key = 32 \<and> (\<exists>h. hex = Some h \<and> hexOf key = map to_lower (js_trim h))"
  by (auto simp: parseKeyHex_def Let_def KEY_HEX_LENGTH_def bufferFromHex_length hexOf_bufferFromHex
      split: option.split)

section \<open>Unique reading of canonical receipts\<close>

text \<open>One escaped unit can be read back from the front of a string.\<close>

fun read_unit :: "string \<Rightarrow> (char \<times> string) option" where
  "read_unit [] = None"
| "read_unit (c # cs) =
     (if c \<noteq> CHR 0x5C then Some (c, cs)
      else case cs of
        [] \<Rightarrow> None
      | d # ds \<Rightarrow>
          if d = CHR ''u'' then
            (case ds of
               z # z' # h # l # rest \<Rightarrow>
                 Some (char_of (16 * the (digit_value h) + the (digit_value l)), rest)
             | _ \<Rightarrow> None)
          else Some (if d = CHR ''b'' then CHR 8 else if d = CHR ''f'' then CHR 12
                     else if d = CHR ''n'' then CHR 10 else if d = CHR ''r'' then CHR 13
                     else if d = CHR ''t'' then CHR 9 else d, ds))"

lemma json_escape_quote: "json_escape (CHR 0x22) = [CHR 0x5C, CHR 0x22]" "json_escape (CHR 0x5C) = [CHR 0x5C, CHR 0x5C]"
  by (simp_all add: json_escape_def)

lemma char_literals:
  "CHR 8 = char_of (8 :: nat)" "CHR 9 = char_of (9 :: nat)" "CHR 10 = char_of (10 :: nat)"
  "CHR 12 = char_of (12 :: nat)" "CHR 13 = char_of (13 :: nat)"
  "CHR 0x22 = char_of (0x22 :: nat)" "CHR 0x5C = char_of (0x5C :: nat)"
  by (simp_all add: char_of_def bit_0)

lemma json_escape_plain:
  assumes "c \<noteq> CHR 0x22" and "c \<noteq> CHR 0x5C" and "\<not> of_char c < (32 :: nat)"
  shows "json_escape c = [c]"
proof -
  have "of_char c \<noteq> (n :: nat)" if "c \<noteq> char_of n" for n
    using that by (metis char_of_char)
  then have "of_char c \<noteq> (0x22 :: nat)" "of_char c \<noteq> (0x5C :: nat)"
    using assms(1,2) by (simp_all only: char_literals)
  with assms(3) show ?thesis by (simp add: json_escape_def)
qed

lemma json_escape_cases:
  obtains "c = CHR 0x22" | "c = CHR 0x5C"
  | "json_escape c = [c]" and "c \<noteq> CHR 0x5C" and "c \<noteq> CHR 0x22"
  | n where "c = char_of n" and "n < (32 :: nat)"
proof -
  have "c = char_of (of_char c :: nat)" by simp
  then show thesis
    using that json_escape_plain [of c] by metis
qed

lemma read_unit_control:
  assumes "n < (32 :: nat)"
  shows "read_unit (json_escape (char_of n) @ u) = Some (char_of n, u)"
proof -
  have "n div 16 < 16" "16 * (n div 16) + n mod 16 = n"
    using assms by auto
  then show ?thesis
    using assms by (auto simp: json_escape_def digit_value_hex_digit char_literals(1-5))
qed

lemma read_unit_escape: "read_unit (json_escape c @ u) = Some (c, u)"
  by (cases c rule: json_escape_cases) (auto simp: json_escape_quote read_unit_control)

lemma control_escape: "n < (32 :: nat) \<Longrightarrow> \<exists>t. json_escape (char_of n) = CHR 0x5C # t"
  by (simp add: json_escape_def)

lemma escape_no_quote: "json_escape c @ u \<noteq> CHR 0x22 # v"
proof (cases c rule: json_escape_cases)
  case (4 n)
  then show ?thesis using control_escape [of n] by auto
qed (auto simp: json_escape_quote)

lemma escape_inject: "json_escape c @ u = json_escape d @ v \<longleftrightarrow> c = d \<and> u = v"
proof
  assume "json_escape c @ u = json_escape d @ v"
  then have "Some (c, u) = Some (d, v)"
    unfolding read_unit_escape [symmetric] by (rule arg_cong)
  then show "c = d \<and> u = v" by simp
qed simp

lemma escaped_body_inject:
  "concat (map json_escape a) @ CHR 0x22 # u = concat (map json_escape b) @ CHR 0x22 # v \<longleftrightarrow> a = b \<and> u = v"
proof (induction a arbitrary: b)
  case Nil
  show ?case
    by (cases b) (simp_all add: escape_no_quote [THEN not_sym])
next
  case (Cons c a)
  show ?case
  proof (cases b)
    case Nil
    then show ?thesis by (simp add: escape_no_quote)
  next
    case (Cons d b')
    then show ?thesis
      using Cons.IH [of b'] by (simp add: escape_inject)
  qed
qed

lemma json_string_inject: "json_string a @ u = json_string b @ v \<longleftrightarrow> a = b \<and> u = v"
  using escaped_body_inject [of a u b v] by (simp add: json_string_def)

lemma sort_key_unique:
  assumes "mset xs = mset ys" and "distinct (map fst xs)"
  shows "sort_key fst xs = sort_key fst (ys :: (string \<times> 'a) list)"
proof (rule sort_key_inj_key_eq)
  show "inj_on fst (set xs)"
    using assms(2) by (simp add: distinct_map)
qed (use assms(1) in simp_all)

text \<open>The canonical encoding does not depend on the order in which an object's fields were
  written.\<close>

theorem canonicalJson_order_independent:
  assumes "mset kvs = mset kvs'" and "distinct (map fst kvs)"
  shows "canonicalJson (JObject kvs) = canonicalJson (JObject kvs')"
proof -
  let ?r = "map (\<lambda>(k, v). (k, canonicalJson v))"
  have "map fst (?r kvs) = map fst kvs"
    by auto
  then have "sort_key fst (?r kvs) = sort_key fst (?r kvs')"
    using assms by (intro sort_key_unique) (simp, metis)
  then show ?thesis by simp
qed

theorem canonicalJson_order_independent_witness:
  "canonicalJson (JObject [(''state'', JString ''SEALED''), (''lockboxId'', JString ''x'')]) =
   canonicalJson (JObject [(''lockboxId'', JString ''x''), (''state'', JString ''SEALED'')])"
  by (rule canonicalJson_order_independent) simp_all

lemma receipt_fields_sorted:
  "sort_key fst [(''lockboxId'', a), (''ciphertextHash'', b), (''sealerOrgId'', c), (''sealedAt'', d), (''state'', e)] =
   [(''ciphertextHash'', b), (''lockboxId'', a), (''sealedAt'', d), (''sealerOrgId'', c), (''state'', e :: string)]"
  by (simp add: sort_key_def less_char_def less_eq_char_def)

lemma receipt_canonical:
  "canonicalJson (receipt_json p) =
     ''{'' @ json_string ''ciphertextHash'' @ '':'' @ json_string (receipt_ciphertextHash p) @
     '','' @ json_string ''lockboxId'' @ '':'' @ json_string (receipt_lockboxId p) @
     '','' @ json_string ''sealedAt'' @ '':'' @ json_string (receipt_sealedAt p) @
     '','' @ json_string ''sealerOrgId'' @ '':'' @ json_string (receipt_sealerOrgId p) @
     '','' @ json_string ''state'' @ '':'' @ json_string (receipt_state p) @ ''}''"
  by (simp add: receipt_json_def receipt_fields_sorted)

lemma receipt_canonical_inject:
  "canonicalJson (receipt_json p) = canonicalJson (receipt_json q) \<longleftrightarrow> p = q"
proof
  assume "canonicalJson (receipt_json p) = canonicalJson (receipt_json q)"
  moreover have "json_string a = json_string b \<longleftrightarrow> a = b" for a b
    using json_string_inject [of a "[]" b "[]"] by simp
  ultimately show "p = q"
    unfolding receipt_canonical by (cases p; cases q) (simp add: json_string_inject)
qed simp

text \<open>What the code relies on: the hex digest is 32 bytes in lower case.\<close>

definition hmac_hex_digest :: "(byte list \<Rightarrow> string \<Rightarrow> string) \<Rightarrow> bool" where
  "hmac_hex_digest hmac \<longleftrightarrow> (\<forall>key m. \<exists>bs. length bs = 32 \<and> hmac key m = hexOf bs)"

lemma verifyReceipt_iff:
  assumes "hmac_hex_digest hmac"
  shows "verifyReceipt hmac p sig key \<longleftrightarrow> is_hex sig \<and> map to_lower sig = signReceipt hmac p key"
proof -
  obtain bs where bs: "length bs = 32" "signReceipt hmac p key = hexOf bs"
    using assms by (auto simp: hmac_hex_digest_def signReceipt_def)
  show ?thesis
  proof
    assume v: "verifyReceipt hmac p sig key"
    then have "is_hex sig" "even (length sig)" "bufferFromHex sig = bs"
      by (auto simp: verifyReceipt_def Let_def bs(2) split: if_splits)
    then show "is_hex sig \<and> map to_lower sig = signReceipt hmac p key"
      using hexOf_bufferFromHex [of sig] bs(2) by simp
  next
    assume s: "is_hex sig \<and> map to_lower sig = signReceipt hmac p key"
    then have "length (map to_lower sig) = length (hexOf bs)"
      using bs(2) by simp
    then have ev: "even (length sig)" by simp
    then have "hexOf (bufferFromHex sig) = hexOf bs"
      using s hexOf_bufferFromHex [of sig] bs(2) by simp
    then have "bufferFromHex sig = bs"
      by (metis bufferFromHex_hexOf)
    with s ev bs show "verifyReceipt hmac p sig key"
      by (simp add: verifyReceipt_def even_iff_mod_2_eq_zero)
  qed
qed

lemma to_lower_hexOf: "map to_lower (hexOf bs) = hexOf bs"
  using hexOf_bufferFromHex [OF hexOf_is_hex, of bs] by simp

text \<open>Receipts verify exactly under their own signature: a signed receipt verifies, and if one
  signature verifies for two receipts under the same key, then the receipts are equal or the
  HMAC takes the same value on two different messages. Tampering with any field of a receipt
  therefore needs an HMAC collision.\<close>

theorem receipt_signature_binds:
  assumes "hmac_hex_digest hmac"
  shows "verifyReceipt hmac p (signReceipt hmac p key) key \<and>
    (verifyReceipt hmac p sig key \<and> verifyReceipt hmac q sig key \<longrightarrow>
     p = q \<or> (\<exists>m m'. m \<noteq> m' \<and> hmac key m = hmac key m'))"
proof -
  obtain bs where "signReceipt hmac p key = hexOf bs"
    using assms by (auto simp: hmac_hex_digest_def signReceipt_def)
  then have "verifyReceipt hmac p (signReceipt hmac p key) key"
    unfolding verifyReceipt_iff [OF assms] by (simp add: hexOf_is_hex to_lower_hexOf)
  moreover have "p = q \<or> (\<exists>m m'. m \<noteq> m' \<and> hmac key m = hmac key m')"
    if "verifyReceipt hmac p sig key" "verifyReceipt hmac q sig key"
    using that unfolding verifyReceipt_iff [OF assms] signReceipt_def
    by (metis receipt_canonical_inject)
  ultimately show ?thesis by blast
qed

theorem receipt_signature_binds_witness:
  "verifyReceipt (\<lambda>key m. hexOf (replicate 32 7))
     \<lparr>receipt_lockboxId = ''lb'', receipt_ciphertextHash = ''ab'', receipt_sealerOrgId = ''org'',
      receipt_sealedAt = ''2024'', receipt_state = ''SEALED''\<rparr>
     (signReceipt (\<lambda>key m. hexOf (replicate 32 7))
        \<lparr>receipt_lockboxId = ''lb'', receipt_ciphertextHash = ''ab'', receipt_sealerOrgId = ''org'',
         receipt_sealedAt = ''2024'', receipt_state = ''SEALED''\<rparr> []) []"
proof -
  have "hmac_hex_digest (\<lambda>key m. hexOf (replicate 32 7))"
    unfolding hmac_hex_digest_def by (metis length_replicate)
  then show ?thesis
    by (rule conjunct1 [OF receipt_signature_binds])
qed

end
