(* ===== verification/Authz_Vocabulary.thy ===== *)
theory Authz_Vocabulary
  imports TOL_Prelude
begin

text \<open>
  \<open>packages/authz/src/roles.ts\<close>, \<open>actions.ts\<close> and \<open>matrix.ts\<close>: the persona roles, the
  disclosure ladder, the actions and resource types, and the authority matrix, one grant per
  role, with the checks the module runs when it is loaded. The sets of a grant are lists.
\<close>

section \<open>Vocabulary\<close>

datatype PersonaRole =
    PLATFORM_OWNER | MARKETPLACE_OPERATOR | PARTNERSHIP_LEAD | UNDERWRITING_ANALYST
     | COMPLIANCE_REVIEWER | FINANCE_OPERATOR | CONTRIBUTOR_AGENT | MERCHANT_PSP_USER
     | ACQUIRER_PROVIDER_USER | AUDITOR_READONLY

definition PERSONA_ROLES :: "PersonaRole list" where
  "PERSONA_ROLES =
     [PLATFORM_OWNER, MARKETPLACE_OPERATOR, PARTNERSHIP_LEAD, UNDERWRITING_ANALYST,
      COMPLIANCE_REVIEWER, FINANCE_OPERATOR, CONTRIBUTOR_AGENT, MERCHANT_PSP_USER,
      ACQUIRER_PROVIDER_USER, AUDITOR_READONLY]"

fun personaRole_name :: "PersonaRole \<Rightarrow> string" where
  "personaRole_name PLATFORM_OWNER = ''PLATFORM_OWNER''"
| "personaRole_name MARKETPLACE_OPERATOR = ''MARKETPLACE_OPERATOR''"
| "personaRole_name PARTNERSHIP_LEAD = ''PARTNERSHIP_LEAD''"
| "personaRole_name UNDERWRITING_ANALYST = ''UNDERWRITING_ANALYST''"
| "personaRole_name COMPLIANCE_REVIEWER = ''COMPLIANCE_REVIEWER''"
| "personaRole_name FINANCE_OPERATOR = ''FINANCE_OPERATOR''"
| "personaRole_name CONTRIBUTOR_AGENT = ''CONTRIBUTOR_AGENT''"
| "personaRole_name MERCHANT_PSP_USER = ''MERCHANT_PSP_USER''"
| "personaRole_name ACQUIRER_PROVIDER_USER = ''ACQUIRER_PROVIDER_USER''"
| "personaRole_name AUDITOR_READONLY = ''AUDITOR_READONLY''"

definition personaRole_of :: "string \<Rightarrow> PersonaRole option" where
  "personaRole_of = enum_of PERSONA_ROLES personaRole_name"

definition isPersonaRole :: "string \<Rightarrow> bool" where
  "isPersonaRole value = (personaRole_of value \<noteq> None)"

datatype DisclosureClass =
    Cls_PUBLIC_MARKET | Cls_MEMBER_MARKET | Cls_MATCH_SUMMARY | Cls_DEAL_ROOM | Cls_RESTRICTED
     | Cls_SECRET

definition DISCLOSURE_CLASSES :: "DisclosureClass list" where
  "DISCLOSURE_CLASSES =
     [Cls_PUBLIC_MARKET, Cls_MEMBER_MARKET, Cls_MATCH_SUMMARY, Cls_DEAL_ROOM, Cls_RESTRICTED,
      Cls_SECRET]"

fun disclosureClass_name :: "DisclosureClass \<Rightarrow> string" where
  "disclosureClass_name Cls_PUBLIC_MARKET = ''PUBLIC_MARKET''"
| "disclosureClass_name Cls_MEMBER_MARKET = ''MEMBER_MARKET''"
| "disclosureClass_name Cls_MATCH_SUMMARY = ''MATCH_SUMMARY''"
| "disclosureClass_name Cls_DEAL_ROOM = ''DEAL_ROOM''"
| "disclosureClass_name Cls_RESTRICTED = ''RESTRICTED''"
| "disclosureClass_name Cls_SECRET = ''SECRET''"

definition disclosureClass_of :: "string \<Rightarrow> DisclosureClass option" where
  "disclosureClass_of = enum_of DISCLOSURE_CLASSES disclosureClass_name"

definition isDisclosureClass :: "string \<Rightarrow> bool" where
  "isDisclosureClass value = (disclosureClass_of value \<noteq> None)"

text \<open>\<open>disclosureRank\<close> takes the class as the string that reached it; \<open>None\<close> is the \<open>TypeError\<close>
  for a string outside the ladder.\<close>

definition disclosureRank :: "string \<Rightarrow> nat option" where
  "disclosureRank cls = index_of (map disclosureClass_name DISCLOSURE_CLASSES) cls"

datatype Action =
    A_organization_read | A_organization_list | A_organization_update | A_membership_read
     | A_membership_list | A_membership_create | A_membership_update_role
     | A_membership_update_status | A_person_read | A_person_update | A_audit_read
     | A_opportunity_create | A_opportunity_read | A_opportunity_list | A_opportunity_update
     | A_capacity_create | A_capacity_read | A_capacity_list | A_rfq_create | A_rfq_read
     | A_rfq_list | A_rfq_decline | A_rfq_submit_quote | A_rfq_withdraw_quote | A_rfq_select_quote
     | A_deal_read | A_deal_list | A_deal_post_condition | A_deal_resolve_condition
     | A_deal_record_decision | A_lockbox_seal | A_lockbox_read_receipt | A_lockbox_withdraw
     | A_lockbox_release | A_claim_create | A_claim_read | A_claim_list | A_claim_dispute
     | A_claim_decide | A_passport_create | A_passport_read | A_passport_list | A_passport_update
     | A_passport_verify | A_opportunity_browse_market | A_capacity_browse_market
     | A_matching_evaluate | A_match_read | A_match_list | A_schedule_read | A_schedule_list
     | A_schedule_manage | A_economics_read | A_economics_list | A_economics_record
     | A_ledger_read | A_ledger_list | A_ledger_record_payment | A_ledger_adjust

definition ACTIONS :: "Action list" where
  "ACTIONS =
     [A_organization_read, A_organization_list, A_organization_update, A_membership_read,
      A_membership_list, A_membership_create, A_membership_update_role,
      A_membership_update_status, A_person_read, A_person_update, A_audit_read,
      A_opportunity_create, A_opportunity_read, A_opportunity_list, A_opportunity_update,
      A_capacity_create, A_capacity_read, A_capacity_list, A_rfq_create, A_rfq_read, A_rfq_list,
      A_rfq_decline, A_rfq_submit_quote, A_rfq_withdraw_quote, A_rfq_select_quote, A_deal_read,
      A_deal_list, A_deal_post_condition, A_deal_resolve_condition, A_deal_record_decision,
      A_lockbox_seal, A_lockbox_read_receipt, A_lockbox_withdraw, A_lockbox_release,
      A_claim_create, A_claim_read, A_claim_list, A_claim_dispute, A_claim_decide,
      A_passport_create, A_passport_read, A_passport_list, A_passport_update, A_passport_verify,
      A_opportunity_browse_market, A_capacity_browse_market, A_matching_evaluate, A_match_read,
      A_match_list, A_schedule_read, A_schedule_list, A_schedule_manage, A_economics_read,
      A_economics_list, A_economics_record, A_ledger_read, A_ledger_list, A_ledger_record_payment,
      A_ledger_adjust]"

datatype ResourceType =
    R_organization | R_membership | R_person | R_audit_event | R_opportunity
     | R_capacity_profile | R_rfq | R_deal_room | R_lockbox | R_claim | R_passport
     | R_match_result | R_commission_schedule | R_revenue_event | R_commission_accrual

record Actor =
  userId :: string
  organizationId :: "string option"
  role :: "PersonaRole option"
  membershipId :: "string option"

record Resource =
  rtype :: ResourceType
  rid :: "string option"
  ownerOrgId :: "string option"
  privacyClass :: "string option"

text \<open>An absent flag of the context reads as \<open>False\<close>.\<close>

record AuthContext =
  isSelf :: bool
  isParticipant :: bool

section \<open>The authority matrix\<close>

record RoleGrant =
  allowedActions :: "Action list"
  crossOrgActions :: "Action list"
  participantActions :: "Action list"
  managesOtherPeopleInOwnOrg :: bool

definition grant_PLATFORM_OWNER :: RoleGrant where
  "grant_PLATFORM_OWNER =
     \<lparr>allowedActions =
        [A_organization_read, A_organization_list, A_organization_update, A_membership_read,
         A_membership_list, A_membership_create, A_membership_update_role,
         A_membership_update_status, A_person_read, A_person_update, A_audit_read,
         A_opportunity_create, A_opportunity_update, A_opportunity_read, A_opportunity_list,
         A_capacity_create, A_capacity_read, A_capacity_list, A_rfq_create, A_rfq_read,
         A_rfq_list, A_rfq_decline, A_rfq_submit_quote, A_rfq_withdraw_quote, A_rfq_select_quote,
         A_deal_read, A_deal_list, A_deal_post_condition, A_deal_resolve_condition,
         A_deal_record_decision, A_lockbox_seal, A_lockbox_read_receipt, A_lockbox_withdraw,
         A_lockbox_release, A_claim_create, A_claim_read, A_claim_list, A_claim_dispute,
         A_claim_decide, A_passport_create, A_passport_read, A_passport_list, A_passport_update,
         A_passport_verify, A_opportunity_browse_market, A_capacity_browse_market,
         A_matching_evaluate, A_match_read, A_match_list, A_schedule_read, A_schedule_list,
         A_schedule_manage, A_economics_read, A_economics_list, A_economics_record, A_ledger_read,
         A_ledger_list, A_ledger_record_payment, A_ledger_adjust],
      crossOrgActions =
        [A_organization_read, A_organization_list, A_organization_update, A_membership_read,
         A_membership_list, A_membership_create, A_membership_update_role,
         A_membership_update_status, A_person_read, A_person_update, A_audit_read,
         A_opportunity_create, A_opportunity_update, A_opportunity_read, A_opportunity_list,
         A_capacity_create, A_capacity_read, A_capacity_list, A_rfq_create, A_rfq_read,
         A_rfq_list, A_rfq_decline, A_rfq_submit_quote, A_rfq_withdraw_quote, A_rfq_select_quote,
         A_deal_read, A_deal_list, A_deal_post_condition, A_deal_resolve_condition,
         A_deal_record_decision, A_lockbox_seal, A_lockbox_read_receipt, A_lockbox_release,
         A_claim_read, A_claim_list, A_claim_decide, A_passport_read, A_passport_list,
         A_passport_verify, A_opportunity_browse_market, A_capacity_browse_market,
         A_matching_evaluate, A_match_read, A_match_list, A_schedule_read, A_schedule_list,
         A_schedule_manage, A_economics_read, A_economics_list, A_economics_record, A_ledger_read,
         A_ledger_list, A_ledger_record_payment, A_ledger_adjust],
      participantActions = [],
      managesOtherPeopleInOwnOrg = True\<rparr>"

definition grant_MARKETPLACE_OPERATOR :: RoleGrant where
  "grant_MARKETPLACE_OPERATOR =
     \<lparr>allowedActions =
        [A_organization_read, A_organization_list, A_membership_read, A_membership_list,
         A_membership_create, A_membership_update_status, A_person_read, A_audit_read,
         A_opportunity_read, A_opportunity_list, A_capacity_read, A_capacity_list, A_rfq_create,
         A_rfq_read, A_rfq_list, A_deal_read, A_deal_list, A_deal_post_condition,
         A_deal_resolve_condition, A_deal_record_decision, A_lockbox_read_receipt,
         A_lockbox_release, A_claim_read, A_claim_list, A_claim_decide, A_passport_read,
         A_passport_list, A_passport_verify, A_opportunity_browse_market,
         A_capacity_browse_market, A_matching_evaluate, A_match_read, A_match_list],
      crossOrgActions =
        [A_organization_read, A_organization_list, A_membership_read, A_membership_list,
         A_membership_create, A_membership_update_status, A_person_read, A_audit_read,
         A_opportunity_read, A_opportunity_list, A_capacity_read, A_capacity_list, A_rfq_create,
         A_rfq_read, A_rfq_list, A_deal_read, A_deal_list, A_deal_post_condition,
         A_deal_resolve_condition, A_deal_record_decision, A_lockbox_read_receipt,
         A_lockbox_release, A_claim_read, A_claim_list, A_claim_decide, A_passport_read,
         A_passport_list, A_passport_verify, A_opportunity_browse_market,
         A_capacity_browse_market, A_matching_evaluate, A_match_read, A_match_list],
      participantActions = [],
      managesOtherPeopleInOwnOrg = False\<rparr>"

definition grant_PARTNERSHIP_LEAD :: RoleGrant where
  "grant_PARTNERSHIP_LEAD =
     \<lparr>allowedActions =
        [A_organization_read, A_membership_read, A_membership_list, A_person_read,
         A_person_update, A_capacity_create, A_capacity_read, A_capacity_list, A_claim_read,
         A_claim_list, A_claim_decide, A_passport_read, A_passport_list,
         A_opportunity_browse_market, A_capacity_browse_market, A_match_read, A_match_list],
      crossOrgActions =
        [A_capacity_create, A_capacity_read, A_capacity_list, A_claim_read, A_claim_list,
         A_claim_decide, A_passport_read, A_passport_list, A_opportunity_browse_market,
         A_capacity_browse_market, A_match_read, A_match_list],
      participantActions = [],
      managesOtherPeopleInOwnOrg = True\<rparr>"

definition grant_UNDERWRITING_ANALYST :: RoleGrant where
  "grant_UNDERWRITING_ANALYST =
     \<lparr>allowedActions =
        [A_organization_read, A_person_read, A_opportunity_read, A_opportunity_list, A_claim_read,
         A_claim_list, A_passport_read, A_passport_list, A_opportunity_browse_market,
         A_capacity_browse_market, A_match_read, A_match_list],
      crossOrgActions =
        [A_opportunity_read, A_opportunity_list, A_claim_read, A_claim_list, A_passport_read,
         A_passport_list, A_opportunity_browse_market, A_capacity_browse_market, A_match_read,
         A_match_list],
      participantActions = [],
      managesOtherPeopleInOwnOrg = False\<rparr>"

definition grant_COMPLIANCE_REVIEWER :: RoleGrant where
  "grant_COMPLIANCE_REVIEWER =
     \<lparr>allowedActions =
        [A_organization_read, A_organization_list, A_membership_read, A_membership_list,
         A_person_read, A_audit_read, A_opportunity_read, A_opportunity_list, A_capacity_read,
         A_capacity_list, A_rfq_read, A_rfq_list, A_deal_read, A_deal_list,
         A_lockbox_read_receipt, A_claim_read, A_claim_list, A_claim_decide, A_passport_read,
         A_passport_list, A_passport_verify, A_opportunity_browse_market,
         A_capacity_browse_market, A_match_read, A_match_list],
      crossOrgActions =
        [A_organization_read, A_organization_list, A_membership_read, A_membership_list,
         A_person_read, A_audit_read, A_opportunity_read, A_opportunity_list, A_capacity_read,
         A_capacity_list, A_rfq_read, A_rfq_list, A_deal_read, A_deal_list,
         A_lockbox_read_receipt, A_claim_read, A_claim_list, A_claim_decide, A_passport_read,
         A_passport_list, A_passport_verify, A_opportunity_browse_market,
         A_capacity_browse_market, A_match_read, A_match_list],
      participantActions = [],
      managesOtherPeopleInOwnOrg = False\<rparr>"

definition grant_FINANCE_OPERATOR :: RoleGrant where
  "grant_FINANCE_OPERATOR =
     \<lparr>allowedActions =
        [A_organization_read, A_membership_read, A_membership_list, A_claim_read, A_claim_list,
         A_opportunity_browse_market, A_capacity_browse_market, A_schedule_read, A_schedule_list,
         A_economics_read, A_economics_list, A_economics_record, A_ledger_read, A_ledger_list,
         A_ledger_record_payment, A_ledger_adjust],
      crossOrgActions =
        [A_claim_read, A_claim_list, A_opportunity_browse_market, A_capacity_browse_market,
         A_schedule_read, A_schedule_list, A_economics_read, A_economics_list, A_economics_record,
         A_ledger_read, A_ledger_list, A_ledger_record_payment, A_ledger_adjust],
      participantActions = [],
      managesOtherPeopleInOwnOrg = False\<rparr>"

definition grant_CONTRIBUTOR_AGENT :: RoleGrant where
  "grant_CONTRIBUTOR_AGENT =
     \<lparr>allowedActions =
        [A_organization_read, A_person_read, A_person_update, A_opportunity_create,
         A_opportunity_update, A_opportunity_read, A_opportunity_list, A_lockbox_seal,
         A_lockbox_read_receipt, A_lockbox_withdraw, A_claim_create, A_claim_read, A_claim_list,
         A_claim_dispute, A_passport_create, A_passport_read, A_passport_update,
         A_opportunity_browse_market, A_capacity_browse_market, A_ledger_read, A_ledger_list],
      crossOrgActions =
        [A_opportunity_browse_market, A_capacity_browse_market],
      participantActions =
        [A_claim_dispute, A_ledger_read, A_ledger_list],
      managesOtherPeopleInOwnOrg = False\<rparr>"

definition grant_MERCHANT_PSP_USER :: RoleGrant where
  "grant_MERCHANT_PSP_USER =
     \<lparr>allowedActions =
        [A_organization_read, A_organization_update, A_membership_read, A_membership_list,
         A_person_read, A_person_update, A_opportunity_create, A_opportunity_update,
         A_opportunity_read, A_opportunity_list, A_rfq_read, A_rfq_list, A_rfq_select_quote,
         A_deal_read, A_deal_list, A_deal_post_condition, A_deal_resolve_condition,
         A_deal_record_decision, A_lockbox_seal, A_lockbox_read_receipt, A_lockbox_withdraw,
         A_claim_create, A_claim_read, A_claim_list, A_claim_dispute, A_passport_create,
         A_passport_read, A_passport_update, A_opportunity_browse_market,
         A_capacity_browse_market, A_match_read, A_match_list, A_ledger_read, A_ledger_list],
      crossOrgActions =
        [A_opportunity_browse_market, A_capacity_browse_market],
      participantActions =
        [A_claim_dispute, A_ledger_read, A_ledger_list],
      managesOtherPeopleInOwnOrg = False\<rparr>"

definition grant_ACQUIRER_PROVIDER_USER :: RoleGrant where
  "grant_ACQUIRER_PROVIDER_USER =
     \<lparr>allowedActions =
        [A_organization_read, A_organization_update, A_membership_read, A_membership_list,
         A_person_read, A_person_update, A_capacity_create, A_capacity_read, A_capacity_list,
         A_rfq_read, A_rfq_list, A_rfq_decline, A_rfq_submit_quote, A_rfq_withdraw_quote,
         A_deal_read, A_deal_list, A_deal_post_condition, A_deal_resolve_condition,
         A_deal_record_decision, A_lockbox_seal, A_lockbox_read_receipt, A_lockbox_withdraw,
         A_claim_create, A_claim_read, A_claim_list, A_claim_dispute, A_passport_create,
         A_passport_read, A_passport_update, A_opportunity_browse_market,
         A_capacity_browse_market, A_match_read, A_match_list, A_ledger_read, A_ledger_list],
      crossOrgActions =
        [A_opportunity_browse_market, A_capacity_browse_market],
      participantActions =
        [A_rfq_read, A_rfq_list, A_rfq_decline, A_rfq_submit_quote, A_rfq_withdraw_quote,
         A_deal_read, A_deal_list, A_deal_post_condition, A_deal_resolve_condition,
         A_deal_record_decision, A_claim_dispute, A_match_read, A_match_list, A_ledger_read,
         A_ledger_list],
      managesOtherPeopleInOwnOrg = False\<rparr>"

definition grant_AUDITOR_READONLY :: RoleGrant where
  "grant_AUDITOR_READONLY =
     \<lparr>allowedActions =
        [A_organization_read, A_organization_list, A_membership_read, A_membership_list,
         A_person_read, A_audit_read, A_opportunity_read, A_opportunity_list, A_capacity_read,
         A_capacity_list, A_rfq_read, A_rfq_list, A_deal_read, A_deal_list,
         A_lockbox_read_receipt, A_claim_read, A_claim_list, A_passport_read, A_passport_list,
         A_opportunity_browse_market, A_capacity_browse_market, A_match_read, A_match_list,
         A_schedule_read, A_schedule_list, A_economics_read, A_economics_list, A_ledger_read,
         A_ledger_list],
      crossOrgActions =
        [A_organization_read, A_organization_list, A_membership_read, A_membership_list,
         A_person_read, A_audit_read, A_opportunity_read, A_opportunity_list, A_capacity_read,
         A_capacity_list, A_rfq_read, A_rfq_list, A_deal_read, A_deal_list,
         A_lockbox_read_receipt, A_claim_read, A_claim_list, A_passport_read, A_passport_list,
         A_opportunity_browse_market, A_capacity_browse_market, A_match_read, A_match_list,
         A_schedule_read, A_schedule_list, A_economics_read, A_economics_list, A_ledger_read,
         A_ledger_list],
      participantActions = [],
      managesOtherPeopleInOwnOrg = False\<rparr>"

fun AUTHORITY_MATRIX :: "PersonaRole \<Rightarrow> RoleGrant" where
  "AUTHORITY_MATRIX PLATFORM_OWNER = grant_PLATFORM_OWNER"
| "AUTHORITY_MATRIX MARKETPLACE_OPERATOR = grant_MARKETPLACE_OPERATOR"
| "AUTHORITY_MATRIX PARTNERSHIP_LEAD = grant_PARTNERSHIP_LEAD"
| "AUTHORITY_MATRIX UNDERWRITING_ANALYST = grant_UNDERWRITING_ANALYST"
| "AUTHORITY_MATRIX COMPLIANCE_REVIEWER = grant_COMPLIANCE_REVIEWER"
| "AUTHORITY_MATRIX FINANCE_OPERATOR = grant_FINANCE_OPERATOR"
| "AUTHORITY_MATRIX CONTRIBUTOR_AGENT = grant_CONTRIBUTOR_AGENT"
| "AUTHORITY_MATRIX MERCHANT_PSP_USER = grant_MERCHANT_PSP_USER"
| "AUTHORITY_MATRIX ACQUIRER_PROVIDER_USER = grant_ACQUIRER_PROVIDER_USER"
| "AUTHORITY_MATRIX AUDITOR_READONLY = grant_AUDITOR_READONLY"

lemmas grant_defs =
  grant_PLATFORM_OWNER_def
  grant_MARKETPLACE_OPERATOR_def
  grant_PARTNERSHIP_LEAD_def
  grant_UNDERWRITING_ANALYST_def
  grant_COMPLIANCE_REVIEWER_def
  grant_FINANCE_OPERATOR_def
  grant_CONTRIBUTOR_AGENT_def
  grant_MERCHANT_PSP_USER_def
  grant_ACQUIRER_PROVIDER_USER_def
  grant_AUDITOR_READONLY_def

fun ACTION_RESOURCE_TYPE :: "Action \<Rightarrow> ResourceType" where
  "ACTION_RESOURCE_TYPE A_organization_read = R_organization"
| "ACTION_RESOURCE_TYPE A_organization_list = R_organization"
| "ACTION_RESOURCE_TYPE A_organization_update = R_organization"
| "ACTION_RESOURCE_TYPE A_membership_read = R_membership"
| "ACTION_RESOURCE_TYPE A_membership_list = R_membership"
| "ACTION_RESOURCE_TYPE A_membership_create = R_membership"
| "ACTION_RESOURCE_TYPE A_membership_update_role = R_membership"
| "ACTION_RESOURCE_TYPE A_membership_update_status = R_membership"
| "ACTION_RESOURCE_TYPE A_person_read = R_person"
| "ACTION_RESOURCE_TYPE A_person_update = R_person"
| "ACTION_RESOURCE_TYPE A_audit_read = R_audit_event"
| "ACTION_RESOURCE_TYPE A_opportunity_create = R_opportunity"
| "ACTION_RESOURCE_TYPE A_opportunity_read = R_opportunity"
| "ACTION_RESOURCE_TYPE A_opportunity_list = R_opportunity"
| "ACTION_RESOURCE_TYPE A_opportunity_update = R_opportunity"
| "ACTION_RESOURCE_TYPE A_capacity_create = R_capacity_profile"
| "ACTION_RESOURCE_TYPE A_capacity_read = R_capacity_profile"
| "ACTION_RESOURCE_TYPE A_capacity_list = R_capacity_profile"
| "ACTION_RESOURCE_TYPE A_rfq_create = R_rfq"
| "ACTION_RESOURCE_TYPE A_rfq_read = R_rfq"
| "ACTION_RESOURCE_TYPE A_rfq_list = R_rfq"
| "ACTION_RESOURCE_TYPE A_rfq_decline = R_rfq"
| "ACTION_RESOURCE_TYPE A_rfq_submit_quote = R_rfq"
| "ACTION_RESOURCE_TYPE A_rfq_withdraw_quote = R_rfq"
| "ACTION_RESOURCE_TYPE A_rfq_select_quote = R_rfq"
| "ACTION_RESOURCE_TYPE A_deal_read = R_deal_room"
| "ACTION_RESOURCE_TYPE A_deal_list = R_deal_room"
| "ACTION_RESOURCE_TYPE A_deal_post_condition = R_deal_room"
| "ACTION_RESOURCE_TYPE A_deal_resolve_condition = R_deal_room"
| "ACTION_RESOURCE_TYPE A_deal_record_decision = R_deal_room"
| "ACTION_RESOURCE_TYPE A_lockbox_seal = R_lockbox"
| "ACTION_RESOURCE_TYPE A_lockbox_read_receipt = R_lockbox"
| "ACTION_RESOURCE_TYPE A_lockbox_withdraw = R_lockbox"
| "ACTION_RESOURCE_TYPE A_lockbox_release = R_lockbox"
| "ACTION_RESOURCE_TYPE A_claim_create = R_claim"
| "ACTION_RESOURCE_TYPE A_claim_read = R_claim"
| "ACTION_RESOURCE_TYPE A_claim_list = R_claim"
| "ACTION_RESOURCE_TYPE A_claim_dispute = R_claim"
| "ACTION_RESOURCE_TYPE A_claim_decide = R_claim"
| "ACTION_RESOURCE_TYPE A_passport_create = R_passport"
| "ACTION_RESOURCE_TYPE A_passport_read = R_passport"
| "ACTION_RESOURCE_TYPE A_passport_list = R_passport"
| "ACTION_RESOURCE_TYPE A_passport_update = R_passport"
| "ACTION_RESOURCE_TYPE A_passport_verify = R_passport"
| "ACTION_RESOURCE_TYPE A_opportunity_browse_market = R_opportunity"
| "ACTION_RESOURCE_TYPE A_capacity_browse_market = R_capacity_profile"
| "ACTION_RESOURCE_TYPE A_matching_evaluate = R_match_result"
| "ACTION_RESOURCE_TYPE A_match_read = R_match_result"
| "ACTION_RESOURCE_TYPE A_match_list = R_match_result"
| "ACTION_RESOURCE_TYPE A_schedule_read = R_commission_schedule"
| "ACTION_RESOURCE_TYPE A_schedule_list = R_commission_schedule"
| "ACTION_RESOURCE_TYPE A_schedule_manage = R_commission_schedule"
| "ACTION_RESOURCE_TYPE A_economics_read = R_revenue_event"
| "ACTION_RESOURCE_TYPE A_economics_list = R_revenue_event"
| "ACTION_RESOURCE_TYPE A_economics_record = R_revenue_event"
| "ACTION_RESOURCE_TYPE A_ledger_read = R_commission_accrual"
| "ACTION_RESOURCE_TYPE A_ledger_list = R_commission_accrual"
| "ACTION_RESOURCE_TYPE A_ledger_record_payment = R_commission_accrual"
| "ACTION_RESOURCE_TYPE A_ledger_adjust = R_commission_accrual"

section \<open>The checks at load time\<close>

datatype MatrixError =
    CrossOrgNotAllowed PersonaRole Action
  | ParticipantNotAllowed PersonaRole Action
  | BothPaths PersonaRole Action

definition checkGrant :: "PersonaRole \<Rightarrow> MatrixError + unit" where
  "checkGrant r =
     (let grant = AUTHORITY_MATRIX r in
      ebind (efor (\<lambda>a. throw_if (a \<notin> set (allowedActions grant)) (CrossOrgNotAllowed r a))
               (crossOrgActions grant)) (\<lambda>_.
      efor (\<lambda>a. ebind (throw_if (a \<notin> set (allowedActions grant)) (ParticipantNotAllowed r a)) (\<lambda>_.
                throw_if (a \<in> set (crossOrgActions grant)) (BothPaths r a)))
        (participantActions grant)))"

definition checkMatrix :: "MatrixError + unit" where
  "checkMatrix = efor checkGrant PERSONA_ROLES"

end
