(* ===== verification/Authz.thy ===== *)
theory Authz
  imports Authz_Vocabulary
begin

text \<open>
  \<open>packages/authz/src/can.ts\<close> and \<open>field-policy.ts\<close>: the authorization decision and the
  disclosure ceiling. A decision is an \<open>allow\<close> or \<open>deny\<close> with the branch that gave it; the
  \<open>reason\<close> texts are not modelled. The branch for a role without a matrix entry cannot be
  taken, because the matrix is a function of the role.
\<close>

section \<open>The decision\<close>

text \<open>The reasons \<open>can\<close> gives; \<open>SelfCertification\<close> is the one the claims service gives on its own
  when a reviewer would decide a claim of its organization.\<close>

datatype AllowReason = CrossOrgAuthority | ParticipantAuthority | OwnOrganization

datatype DenyReason =
    ResourceTypeMismatch
  | NoActiveMembership
  | NotGranted
  | OnlyOwnPerson
  | LedgerHasNoOwnerPath
  | NoOwnerOrg
  | TenantIsolation
  | SelfCertification

datatype AuthDecision = allow AllowReason | deny DenyReason

definition can :: "Actor \<Rightarrow> Action \<Rightarrow> Resource \<Rightarrow> AuthContext \<Rightarrow> AuthDecision" where
  "can actor action resource context =
     (if rtype resource \<noteq> ACTION_RESOURCE_TYPE action then deny ResourceTypeMismatch
      else case (role actor, organizationId actor) of
        (Some r, Some org) \<Rightarrow>
          (let grant = AUTHORITY_MATRIX r in
           if action \<notin> set (allowedActions grant) then deny NotGranted
           else if action = A_person_update \<and> \<not> isSelf context \<and> \<not> managesOtherPeopleInOwnOrg grant
           then deny OnlyOwnPerson
           else if action \<in> set (crossOrgActions grant) then allow CrossOrgAuthority
           else if isParticipant context \<and> action \<in> set (participantActions grant)
           then allow ParticipantAuthority
           else if rtype resource = R_commission_accrual then deny LedgerHasNoOwnerPath
           else case ownerOrgId resource of
             None \<Rightarrow> deny NoOwnerOrg
           | Some owner \<Rightarrow> if owner \<noteq> org then deny TenantIsolation else allow OwnOrganization)
      | _ \<Rightarrow> deny NoActiveMembership)"

fun allowed :: "AuthDecision \<Rightarrow> bool" where
  "allowed (allow _) = True"
| "allowed (deny _) = False"

definition canBool :: "Actor \<Rightarrow> Action \<Rightarrow> Resource \<Rightarrow> AuthContext \<Rightarrow> bool" where
  "canBool actor action resource context = allowed (can actor action resource context)"

section \<open>Field policy\<close>

record FieldPolicyResult =
  isOwnerView :: bool
  maxVisibleClass :: DisclosureClass

fun CROSS_ORG_CEILING :: "PersonaRole \<Rightarrow> DisclosureClass option" where
  "CROSS_ORG_CEILING PLATFORM_OWNER = Some Cls_SECRET"
| "CROSS_ORG_CEILING MARKETPLACE_OPERATOR = Some Cls_RESTRICTED"
| "CROSS_ORG_CEILING COMPLIANCE_REVIEWER = Some Cls_RESTRICTED"
| "CROSS_ORG_CEILING AUDITOR_READONLY = Some Cls_RESTRICTED"
| "CROSS_ORG_CEILING _ = None"

definition fieldPolicy :: "Actor \<Rightarrow> Resource \<Rightarrow> FieldPolicyResult" where
  "fieldPolicy actor resource =
     (let isPlatformOwner = (role actor = Some PLATFORM_OWNER);
          isOwner = (ownerOrgId resource \<noteq> None \<and> ownerOrgId resource = organizationId actor)
      in if isPlatformOwner \<or> isOwner
         then \<lparr>isOwnerView = (isPlatformOwner \<or> isOwner), maxVisibleClass = Cls_SECRET\<rparr>
         else case role actor of
           None \<Rightarrow> \<lparr>isOwnerView = False, maxVisibleClass = Cls_PUBLIC_MARKET\<rparr>
         | Some r \<Rightarrow> \<lparr>isOwnerView = False,
             maxVisibleClass = (case CROSS_ORG_CEILING r of Some c \<Rightarrow> c | None \<Rightarrow> Cls_MEMBER_MARKET)\<rparr>)"

text \<open>The comparison of two ranks; \<open>None\<close> when the field's class is not in the ladder.\<close>

definition visible_under :: "DisclosureClass \<Rightarrow> string \<Rightarrow> bool option" where
  "visible_under ceiling cls =
     (case (disclosureRank cls, disclosureRank (disclosureClass_name ceiling)) of
        (Some f, Some c) \<Rightarrow> Some (f \<le> c)
      | _ \<Rightarrow> None)"

definition isFieldVisible :: "Actor \<Rightarrow> Resource \<Rightarrow> string \<Rightarrow> bool option" where
  "isFieldVisible actor resource fieldClass =
     visible_under (maxVisibleClass (fieldPolicy actor resource)) fieldClass"

definition DANGEROUS_KEYS :: "string list" where
  "DANGEROUS_KEYS = [''__proto__'', ''constructor'', ''prototype'']"

text \<open>\<open>fs\<close> are the own keys of the object in their order, \<open>fieldClasses\<close> the classes given per
  key; \<open>None\<close> when \<open>disclosureRank\<close> throws.\<close>

fun redactLoop ::
  "DisclosureClass \<Rightarrow> (string \<rightharpoonup> string) \<Rightarrow> string \<Rightarrow> (string \<times> 'v) list \<Rightarrow> (string \<times> 'v) list option" where
  "redactLoop ceiling fieldClasses fallbackClass [] = Some []"
| "redactLoop ceiling fieldClasses fallbackClass ((key, v) # fs) =
     (if key \<in> set DANGEROUS_KEYS then redactLoop ceiling fieldClasses fallbackClass fs
      else let cls = (case fieldClasses key of Some c \<Rightarrow> c | None \<Rightarrow> fallbackClass) in
        case visible_under ceiling cls of
          None \<Rightarrow> None
        | Some visible \<Rightarrow>
            map_option (\<lambda>out. if visible then (key, v) # out else out)
              (redactLoop ceiling fieldClasses fallbackClass fs))"

definition redactFields ::
  "Actor \<Rightarrow> Resource \<Rightarrow> (string \<times> 'v) list \<Rightarrow> (string \<rightharpoonup> string) \<Rightarrow> string option \<Rightarrow> (string \<times> 'v) list option" where
  "redactFields actor resource fs fieldClasses defaultClass =
     (let fallbackClass = (case defaultClass of
            Some c \<Rightarrow> c
          | None \<Rightarrow> (case privacyClass resource of Some c \<Rightarrow> c | None \<Rightarrow> ''MEMBER_MARKET''))
      in redactLoop (maxVisibleClass (fieldPolicy actor resource)) fieldClasses fallbackClass fs)"

section \<open>Facts of the matrix\<close>

lemma matrix_subsets:
  "set (crossOrgActions (AUTHORITY_MATRIX r)) \<subseteq> set (allowedActions (AUTHORITY_MATRIX r))"
  "set (participantActions (AUTHORITY_MATRIX r)) \<subseteq> set (allowedActions (AUTHORITY_MATRIX r))"
  "set (crossOrgActions (AUTHORITY_MATRIX r)) \<inter> set (participantActions (AUTHORITY_MATRIX r)) = {}"
  by (cases r; simp add: grant_defs)+

definition party_roles :: "PersonaRole list" where
  "party_roles = [CONTRIBUTOR_AGENT, MERCHANT_PSP_USER, ACQUIRER_PROVIDER_USER]"

lemma party_cross_org:
  "r \<in> set party_roles \<Longrightarrow> set (crossOrgActions (AUTHORITY_MATRIX r)) = {A_opportunity_browse_market, A_capacity_browse_market}"
  by (auto simp: party_roles_def grant_defs)

lemma withdraw_not_cross_org:
  "A_lockbox_withdraw \<notin> set (crossOrgActions (AUTHORITY_MATRIX r))"
  "A_lockbox_withdraw \<notin> set (participantActions (AUTHORITY_MATRIX r))"
  by (cases r; simp add: grant_defs)+

lemma can_allow_cases:
  assumes "allowed (can actor action resource context)"
  obtains r org where "role actor = Some r" "organizationId actor = Some org"
    "rtype resource = ACTION_RESOURCE_TYPE action"
    "action \<in> set (allowedActions (AUTHORITY_MATRIX r))"
    "action \<in> set (crossOrgActions (AUTHORITY_MATRIX r)) \<or>
     isParticipant context \<and> action \<in> set (participantActions (AUTHORITY_MATRIX r)) \<or>
     rtype resource \<noteq> R_commission_accrual \<and> ownerOrgId resource = Some org"
    "action = A_person_update \<Longrightarrow> isSelf context \<or> managesOtherPeopleInOwnOrg (AUTHORITY_MATRIX r)"
proof -
  obtain r org where ro: "role actor = Some r" "organizationId actor = Some org"
    using assms by (auto simp: can_def split: if_splits option.splits)
  with assms show thesis
    using that [of r org] by (auto simp: can_def Let_def split: if_splits option.splits)
qed

text \<open>C2. Tenant isolation: whatever is allowed is allowed to an actor with an organization and a
  role in it that is granted the action, so nothing is allowed without an active membership; and a
  contributor, merchant or provider is allowed nothing on a resource its organization does not own
  (one without an owner included), except browsing the market and the actions granted to a verified
  participant of that very resource.\<close>

theorem tenant_isolation:
  assumes "allowed (can actor action resource context)"
  shows "\<exists>r org. role actor = Some r \<and> organizationId actor = Some org \<and>
    action \<in> set (allowedActions (AUTHORITY_MATRIX r)) \<and>
    (r \<in> set party_roles \<and> ownerOrgId resource \<noteq> Some org \<longrightarrow>
       action \<in> {A_opportunity_browse_market, A_capacity_browse_market} \<or>
       isParticipant context \<and> action \<in> set (participantActions (AUTHORITY_MATRIX r)))"
  using assms
proof (rule can_allow_cases)
  fix r org
  assume r: "role actor = Some r" and org: "organizationId actor = Some org"
    and granted: "action \<in> set (allowedActions (AUTHORITY_MATRIX r))"
    and path: "action \<in> set (crossOrgActions (AUTHORITY_MATRIX r)) \<or>
      isParticipant context \<and> action \<in> set (participantActions (AUTHORITY_MATRIX r)) \<or>
      rtype resource \<noteq> R_commission_accrual \<and> ownerOrgId resource = Some org"
  show ?thesis
    using r org granted path party_cross_org [of r] by auto
qed

definition example_actor :: "PersonaRole \<Rightarrow> string \<Rightarrow> Actor" where
  "example_actor r org = \<lparr>userId = ''u'', organizationId = Some org, role = Some r, membershipId = Some ''m''\<rparr>"

definition example_resource :: "ResourceType \<Rightarrow> string option \<Rightarrow> Resource" where
  "example_resource t owner = \<lparr>rtype = t, rid = None, ownerOrgId = owner, privacyClass = None\<rparr>"

lemma example_decisions:
  "allowed (can (example_actor ACQUIRER_PROVIDER_USER ''p'') A_rfq_submit_quote
     (example_resource R_rfq (Some ''m'')) \<lparr>isSelf = False, isParticipant = True\<rparr>)"
  "allowed (can (example_actor MERCHANT_PSP_USER ''m'') A_lockbox_withdraw
     (example_resource R_lockbox (Some ''m'')) \<lparr>isSelf = False, isParticipant = False\<rparr>)"
  "allowed (can (example_actor PLATFORM_OWNER ''t'') A_schedule_manage
     (example_resource R_commission_schedule None) \<lparr>isSelf = False, isParticipant = False\<rparr>)"
  by (simp_all add: can_def example_actor_def example_resource_def grant_defs)

theorem tenant_isolation_witness:
  "A_rfq_submit_quote \<in> {A_opportunity_browse_market, A_capacity_browse_market} \<or>
     A_rfq_submit_quote \<in> set (participantActions (AUTHORITY_MATRIX ACQUIRER_PROVIDER_USER))"
  using tenant_isolation [OF example_decisions(1)]
  by (simp add: example_actor_def example_resource_def party_roles_def)

text \<open>Only the sealer withdraws: whatever the role (platform owner included) and whatever the context
  claims, withdrawing a lockbox is allowed only to an actor of the organization that owns it.\<close>

theorem lockbox_withdraw_sealer_only:
  assumes "allowed (can actor A_lockbox_withdraw resource context)"
  shows "ownerOrgId resource = organizationId actor \<and> organizationId actor \<noteq> None"
  using assms by (rule can_allow_cases) (use withdraw_not_cross_org in auto)

theorem lockbox_withdraw_sealer_only_witness:
  "ownerOrgId (example_resource R_lockbox (Some ''m'')) = organizationId (example_actor MERCHANT_PSP_USER ''m'')"
  by (rule conjunct1 [OF lockbox_withdraw_sealer_only [OF example_decisions(2)]])

text \<open>The commission ledger has no owner path: a decision on a ledger resource does not depend on the
  owner organization the caller passes, so owning the deal never opens the ledger.\<close>

theorem ledger_ignores_ownership:
  "can actor action (resource\<lparr>rtype := R_commission_accrual, ownerOrgId := owner\<rparr>) context =
   can actor action (resource\<lparr>rtype := R_commission_accrual, ownerOrgId := owner'\<rparr>) context"
  by (cases "role actor"; cases "organizationId actor") (auto simp: can_def Let_def)

definition reading_actions :: "Action list" where
  "reading_actions =
     [A_organization_read, A_organization_list, A_membership_read, A_membership_list, A_person_read,
      A_audit_read, A_opportunity_read, A_opportunity_list, A_capacity_read, A_capacity_list,
      A_rfq_read, A_rfq_list, A_deal_read, A_deal_list, A_lockbox_read_receipt, A_claim_read,
      A_claim_list, A_passport_read, A_passport_list, A_opportunity_browse_market,
      A_capacity_browse_market, A_match_read, A_match_list, A_schedule_read, A_schedule_list,
      A_economics_read, A_economics_list, A_ledger_read, A_ledger_list]"

lemma reserved_grants:
  "A_schedule_manage \<in> set (allowedActions (AUTHORITY_MATRIX r)) \<longleftrightarrow> r = PLATFORM_OWNER"
  "A_membership_update_role \<in> set (allowedActions (AUTHORITY_MATRIX r)) \<longleftrightarrow> r = PLATFORM_OWNER"
  "managesOtherPeopleInOwnOrg (AUTHORITY_MATRIX r) \<longleftrightarrow> r \<in> {PLATFORM_OWNER, PARTNERSHIP_LEAD}"
  by (cases r; simp add: grant_defs)+

lemma auditor_grants: "set (allowedActions (AUTHORITY_MATRIX AUDITOR_READONLY)) \<subseteq> set reading_actions"
  by (simp add: grant_defs reading_actions_def)

text \<open>Reserved authority: setting commission rates and changing roles is the platform owner's alone,
  updating somebody else's person record belongs to the platform owner and the partnership lead,
  and an auditor is allowed nothing but reading.\<close>

theorem reserved_authority:
  assumes "allowed (can actor action resource context)"
  shows "(action \<in> {A_schedule_manage, A_membership_update_role} \<longrightarrow> role actor = Some PLATFORM_OWNER) \<and>
    (action = A_person_update \<and> \<not> isSelf context \<longrightarrow>
       role actor \<in> {Some PLATFORM_OWNER, Some PARTNERSHIP_LEAD}) \<and>
    (role actor = Some AUDITOR_READONLY \<longrightarrow> action \<in> set reading_actions)"
  using assms
proof (rule can_allow_cases)
  fix r
  assume r: "role actor = Some r" and a: "action \<in> set (allowedActions (AUTHORITY_MATRIX r))"
    and p: "action = A_person_update \<Longrightarrow> isSelf context \<or> managesOtherPeopleInOwnOrg (AUTHORITY_MATRIX r)"
  show ?thesis
    using r a p reserved_grants [of r] auditor_grants by auto
qed

theorem reserved_authority_witness:
  "role (example_actor PLATFORM_OWNER ''t'') = Some PLATFORM_OWNER"
  using reserved_authority [OF example_decisions(3)] by simp

text \<open>The matrix passes its own load-time checks: cross-organization and participant grants are among
  the allowed actions and are never both given for one action.\<close>

theorem authority_matrix_loads: "checkMatrix = Inr ()"
proof -
  have "checkGrant r = Inr ()" for r
    unfolding checkGrant_def Let_def using matrix_subsets [of r]
    by (auto simp: ebind_eq_Inr efor_eq_Inr disjoint_iff)
  then show ?thesis
    by (simp add: checkMatrix_def efor_eq_Inr)
qed

section \<open>Redaction\<close>

lemma rank_ladder: "disclosureRank (disclosureClass_name c) \<noteq> None"
  by (cases c) (simp_all add: disclosureRank_def DISCLOSURE_CLASSES_def)

lemma redactLoop_sound:
  "redactLoop ceiling classes fallback fs = Some out \<Longrightarrow>
   out = filter (\<lambda>(k, v). k \<notin> set DANGEROUS_KEYS \<and>
     visible_under ceiling (case classes k of Some c \<Rightarrow> c | None \<Rightarrow> fallback) = Some True) fs"
proof (induction fs arbitrary: out)
  case (Cons e fs)
  then show ?case
    by (cases e) (auto split: if_splits option.splits)
qed simp

text \<open>Redaction never leaks: every field it returns was in the input, has a harmless name and a
  disclosure class at or below the viewer's ceiling, and that ceiling is \<open>SECRET\<close> exactly for the
  platform owner and the owning organization.\<close>

theorem redactFields_never_leaks:
  assumes "redactFields actor resource fs classes defaultClass = Some out" and "(k, v) \<in> set out"
  shows "(k, v) \<in> set fs \<and> k \<notin> set DANGEROUS_KEYS \<and>
    isFieldVisible actor resource (case classes k of Some c \<Rightarrow> c | None \<Rightarrow>
      (case defaultClass of Some c \<Rightarrow> c | None \<Rightarrow>
        (case privacyClass resource of Some c \<Rightarrow> c | None \<Rightarrow> ''MEMBER_MARKET''))) = Some True \<and>
    (maxVisibleClass (fieldPolicy actor resource) = Cls_SECRET \<longleftrightarrow>
       role actor = Some PLATFORM_OWNER \<or> ownerOrgId resource \<noteq> None \<and> ownerOrgId resource = organizationId actor)"
proof -
  have "maxVisibleClass (fieldPolicy actor resource) = Cls_SECRET \<longleftrightarrow>
      role actor = Some PLATFORM_OWNER \<or> ownerOrgId resource \<noteq> None \<and> ownerOrgId resource = organizationId actor"
  proof (cases "role actor")
    case (Some r)
    then show ?thesis by (cases r; cases "ownerOrgId resource") (auto simp: fieldPolicy_def Let_def)
  qed (cases "ownerOrgId resource", auto simp: fieldPolicy_def Let_def)
  then show ?thesis
    using assms redactLoop_sound unfolding redactFields_def isFieldVisible_def Let_def by fastforce
qed

definition example_fields :: "(string \<times> nat) list" where
  "example_fields = [(''name'', 1), (''registrationId'', 2), (''__proto__'', 3)]"

theorem redactFields_never_leaks_witness:
  "(''name'', 1 :: nat) \<in> set example_fields \<and> ''name'' \<notin> set DANGEROUS_KEYS"
proof -
  have "redactFields (example_actor MERCHANT_PSP_USER ''m'') (example_resource R_organization (Some ''o''))
      example_fields [''registrationId'' \<mapsto> ''RESTRICTED''] None = Some [(''name'', 1)]"
    by (simp add: redactFields_def fieldPolicy_def example_actor_def example_resource_def example_fields_def
        DANGEROUS_KEYS_def visible_under_def disclosureRank_def DISCLOSURE_CLASSES_def)
  from redactFields_never_leaks [OF this] show ?thesis by auto
qed

end
