(* ===== verification/Service_Base.thy ===== *)
theory Service_Base
  imports Authz Money Transition_Guard
begin

text \<open>
  What every service of \<open>apps/api\<close> shares: the errors it throws and the response the error
  handler of \<open>app.ts\<close> gives to them, the authorization check at the start of an operation,
  and the audit and timeline records every mutation writes (\<open>shared/errors.ts\<close>,
  \<open>shared/audit.ts\<close>, \<open>shared/timeline.ts\<close>). Message texts are not modelled; where a
  service throws the same kind of problem from several places, the reason is a constructor of a
  datatype of that service.
\<close>

section \<open>Errors and responses\<close>

text \<open>\<open>'r\<close> names the \<open>badRequest\<close> sites of a service and \<open>'u\<close> the errors of the code below
  it that the error handler does not recognize. \<open>internalFinal\<close> is the problem without retry that the
  lockbox service builds when a release fails its cryptographic checks.\<close>

datatype 'r ProblemError =
    badRequest 'r
  | unauthorized
  | forbidden DenyReason
  | notFound
  | conflict bool
  | internal
  | internalFinal

datatype ('r, 'u) failure =
    Problem "'r ProblemError"
  | Transition DomainTransitionError
  | MoneyFailure MoneyInvariantError
  | Unhandled 'u

record problem_response =
  response_status :: nat
  response_code :: string
  retryable :: bool

fun problem_of :: "'r ProblemError \<Rightarrow> problem_response" where
  "problem_of (badRequest r) =
     \<lparr>response_status = 400, response_code = ''bad_request'', retryable = False\<rparr>"
| "problem_of unauthorized =
     \<lparr>response_status = 401, response_code = ''unauthorized'', retryable = False\<rparr>"
| "problem_of (forbidden r) =
     \<lparr>response_status = 403, response_code = ''forbidden'', retryable = False\<rparr>"
| "problem_of notFound =
     \<lparr>response_status = 404, response_code = ''not_found'', retryable = False\<rparr>"
| "problem_of (conflict retry) =
     \<lparr>response_status = 409, response_code = ''conflict'', retryable = retry\<rparr>"
| "problem_of internal =
     \<lparr>response_status = 500, response_code = ''internal_error'', retryable = True\<rparr>"
| "problem_of internalFinal =
     \<lparr>response_status = 500, response_code = ''internal_error'', retryable = False\<rparr>"

fun errorHandler :: "('r, 'u) failure \<Rightarrow> problem_response" where
  "errorHandler (Problem p) = problem_of p"
| "errorHandler (Transition e) =
     \<lparr>response_status = 400, response_code = ''invalid_state_transition'', retryable = False\<rparr>"
| "errorHandler (MoneyFailure e) =
     \<lparr>response_status = 400, response_code = ''invalid_money_value'', retryable = False\<rparr>"
| "errorHandler (Unhandled u) =
     \<lparr>response_status = 500, response_code = ''internal_error'', retryable = True\<rparr>"

text \<open>An exception that passes through to the caller as another kind of failure.\<close>

definition map_err :: "('e \<Rightarrow> 'f) \<Rightarrow> 'e + 'a \<Rightarrow> 'f + 'a" where
  "map_err f r = (case r of Inl e \<Rightarrow> Inl (f e) | Inr x \<Rightarrow> Inr x)"

lemma map_err_simps [simp, result_simps]:
  "map_err f (Inl e) = Inl (f e)" "map_err f (Inr x) = Inr x"
  by (simp_all add: map_err_def)

lemma map_err_eq_Inr [simp, result_simps]: "map_err f r = Inr x \<longleftrightarrow> r = Inr x"
  by (cases r) auto

lemma map_err_eq_Inl [result_simps]: "map_err f r = Inl e \<longleftrightarrow> (\<exists>e'. r = Inl e' \<and> e = f e')"
  by (cases r) auto

section \<open>Authorization\<close>

definition no_context :: AuthContext where
  "no_context = \<lparr>isSelf = False, isParticipant = False\<rparr>"

text \<open>\<open>can(actor, action, resource, context)\<close> followed by
  \<open>if (!decision.allowed) throw ProblemError.forbidden(decision.reason)\<close>.\<close>

definition authorize ::
  "Actor \<Rightarrow> Action \<Rightarrow> ResourceType \<Rightarrow> string option \<Rightarrow> AuthContext \<Rightarrow> ('r, 'u) failure + unit" where
  "authorize actor action rt owner context =
     (case can actor action \<lparr>rtype = rt, rid = None, ownerOrgId = owner, privacyClass = None\<rparr> context of
        allow _ \<Rightarrow> Inr ()
      | deny r \<Rightarrow> Inl (Problem (forbidden r)))"

lemma authorize_ok [result_simps]:
  "authorize actor action rt owner context = Inr u \<longleftrightarrow>
   allowed (can actor action \<lparr>rtype = rt, rid = None, ownerOrgId = owner, privacyClass = None\<rparr> context)"
  by (auto simp: authorize_def split: AuthDecision.split)

section \<open>The environment of a call\<close>

text \<open>What a call finds around it: the identifier generator, the time of the call and of its
  transaction, and \<open>Date.toISOString\<close>.\<close>

record Env =
  uuid :: "nat \<Rightarrow> string"
  clock :: int
  toISOString :: "int \<Rightarrow> string"

section \<open>JavaScript truthiness of optional strings\<close>

text \<open>\<open>if (x)\<close> on an optional string: an absent value, \<open>null\<close> and the empty string are false.\<close>

fun truthy :: "string option \<Rightarrow> bool" where
  "truthy None = False"
| "truthy (Some s) = (s \<noteq> [])"

section \<open>Audit and timeline\<close>

text \<open>The JSON values the audit and timeline payloads hold.\<close>

datatype jvalue = JNull | JStr string | JNum int | JDouble js_number | JBool bool | JStrs "string list"

record RequestContext =
  requestId :: string
  correlationId :: string
  ipClass :: string
  userAgentClass :: string

record AuditWriteInput =
  au_actorUserId :: "string option"
  au_actorOrgId :: "string option"
  au_actorRole :: "PersonaRole option"
  au_subjectOrgId :: "string option"
  au_action :: string
  au_resourceType :: string
  au_resourceId :: "string option"
  au_beforeValue :: "(string \<times> jvalue) list option"
  au_afterValue :: "(string \<times> jvalue) list option"
  au_reason :: "string option"

record AuditEvent =
  audit_id :: string
  audit_input :: AuditWriteInput
  audit_context :: "RequestContext option"

record TimelineWriteInput =
  tl_eventType :: string
  tl_aggregateType :: string
  tl_aggregateId :: string
  tl_payload :: "(string \<times> jvalue) list"
  tl_actorUserId :: "string option"
  tl_actorOrgId :: "string option"
  tl_actorRole :: "PersonaRole option"

record DomainEvent =
  event_id :: string
  event_input :: TimelineWriteInput
  event_context :: "RequestContext option"

text \<open>The part of an audit record that names who did what to which resource.\<close>

definition audit_by :: "Actor \<Rightarrow> string option \<Rightarrow> string \<Rightarrow> string \<Rightarrow> string \<Rightarrow>
    (string \<times> jvalue) list \<Rightarrow> AuditWriteInput" where
  "audit_by actor subject act resType resId after =
     \<lparr>au_actorUserId = Some (userId actor), au_actorOrgId = organizationId actor,
      au_actorRole = role actor, au_subjectOrgId = subject, au_action = act,
      au_resourceType = resType, au_resourceId = Some resId, au_beforeValue = None,
      au_afterValue = Some after, au_reason = None\<rparr>"

definition event_by :: "Actor \<Rightarrow> string \<Rightarrow> string \<Rightarrow> string \<Rightarrow> (string \<times> jvalue) list \<Rightarrow> TimelineWriteInput" where
  "event_by actor etype atype aid payload =
     \<lparr>tl_eventType = etype, tl_aggregateType = atype, tl_aggregateId = aid, tl_payload = payload,
      tl_actorUserId = Some (userId actor), tl_actorOrgId = organizationId actor,
      tl_actorRole = role actor\<rparr>"

end
