(* ===== verification/Idempotency.thy ===== *)
theory Idempotency
  imports Service_Base
begin

text \<open>
  \<open>apps/api/src/shared/idempotency.ts\<close> and \<open>apps/worker/src/shared/job-idempotency.ts\<close> over the
  \<open>idempotency_keys\<close> table. A handler is a function of the state \<open>'s\<close> it may change: it throws
  and changes nothing, or returns a response and the new state. The SHA-256 digest of a request is
  part of the request. \<open>snap\<close> is the table the first \<open>find\<close> reads; another request may have
  committed since, so the reservation runs on a later table.
\<close>

section \<open>The key table\<close>

record 'b IdempotencyKey =
  ik_id :: string
  ik_key :: string
  ik_scope :: string
  ik_requestHash :: string
  ik_response :: "'b option"
  ik_organizationId :: "string option"
  ik_userId :: "string option"
  ik_expiresAt :: int

record IdempotencyRequestInfo =
  info_key :: "string option"
  info_scope :: string
  info_hash :: string
  info_organizationId :: "string option"
  info_userId :: "string option"

definition IDEMPOTENCY_KEY_TTL_MS :: int where
  "IDEMPOTENCY_KEY_TTL_MS = 24 * 60 * 60 * 1000"

definition idempotency_find :: "'b IdempotencyKey list \<Rightarrow> string \<Rightarrow> string \<Rightarrow> 'b IdempotencyKey option" where
  "idempotency_find tab sc k = find (\<lambda>r. ik_scope r = sc \<and> ik_key r = k) tab"

text \<open>\<open>@@unique([scope, key])\<close> refuses a second row.\<close>

definition idempotency_reserve ::
  "string \<Rightarrow> int \<Rightarrow> IdempotencyRequestInfo \<Rightarrow> 'b IdempotencyKey list \<Rightarrow> 'b IdempotencyKey list option" where
  "idempotency_reserve newId now_ms info tab =
     (if idempotency_find tab (info_scope info) (the (info_key info)) \<noteq> None then None
      else Some (tab @ [\<lparr>ik_id = newId, ik_key = the (info_key info), ik_scope = info_scope info,
             ik_requestHash = info_hash info, ik_response = None,
             ik_organizationId = info_organizationId info, ik_userId = info_userId info,
             ik_expiresAt = now_ms + IDEMPOTENCY_KEY_TTL_MS\<rparr>]))"

definition idempotency_complete :: "string \<Rightarrow> string \<Rightarrow> 'b \<Rightarrow> 'b IdempotencyKey list \<Rightarrow> 'b IdempotencyKey list" where
  "idempotency_complete sc k b tab =
     map (\<lambda>r. if ik_scope r = sc \<and> ik_key r = k then r\<lparr>ik_response := Some b\<rparr> else r) tab"

section \<open>Requests\<close>

type_synonym ('s, 'b, 'r, 'u) handler = "'s \<Rightarrow> ('r, 'u) failure + 'b \<times> 's"

fun run_handler :: "('s, 'b, 'r, 'u) handler \<Rightarrow> 's \<Rightarrow> 's \<times> (('r, 'u) failure + 'b)" where
  "run_handler h s = (case h s of Inl e \<Rightarrow> (s, Inl e) | Inr (b, s') \<Rightarrow> (s', Inr b))"

definition withIdempotency ::
  "string \<Rightarrow> int \<Rightarrow> IdempotencyRequestInfo \<Rightarrow> ('s, 'b, 'r, 'u) handler \<Rightarrow> 'b IdempotencyKey list \<Rightarrow>
   'b IdempotencyKey list \<Rightarrow> 's \<Rightarrow> 'b IdempotencyKey list \<times> 's \<times> (('r, 'u) failure + 'b)" where
  "withIdempotency newId now_ms info h snap tab s =
     (if \<not> truthy (info_key info) then (tab, run_handler h s)
      else
        let sc = info_scope info; k = the (info_key info) in
        case idempotency_find snap sc k of
          Some existing \<Rightarrow>
            if ik_requestHash existing \<noteq> info_hash info then (tab, s, Inl (Problem (conflict False)))
            else (case ik_response existing of
                    Some b \<Rightarrow> (tab, s, Inr b)
                  | None \<Rightarrow> (tab, s, Inl (Problem (conflict True))))
        | None \<Rightarrow>
            (case idempotency_reserve newId now_ms info tab of
               None \<Rightarrow> (tab, s, Inl (Problem (conflict True)))
             | Some tab' \<Rightarrow>
                 (case h s of
                    Inl e \<Rightarrow> (tab', s, Inl e)
                  | Inr (b, s') \<Rightarrow> (idempotency_complete sc k b tab', s', Inr b))))"

section \<open>Jobs\<close>

datatype job_error = JobIdempotencyConflictError string string | JobFailed string

definition withJobIdempotency ::
  "string \<Rightarrow> int \<Rightarrow> string \<Rightarrow> string \<Rightarrow> string \<Rightarrow> ('s \<Rightarrow> job_error + 'b \<times> 's) \<Rightarrow> 'b IdempotencyKey list \<Rightarrow> 's \<Rightarrow>
   job_error + 'b IdempotencyKey list \<times> 's \<times> 'b" where
  "withJobIdempotency newId now_ms sc k hash h tab s =
     (let info = \<lparr>info_key = Some k, info_scope = sc, info_hash = hash,
            info_organizationId = None, info_userId = None\<rparr>;
          run = ebind (h s) (\<lambda>(b, s').
            case idempotency_reserve newId now_ms info tab of
              None \<Rightarrow> Inr (tab, s', b)
            | Some tab' \<Rightarrow> Inr (idempotency_complete sc k b tab', s', b))
      in case idempotency_find tab sc k of
           None \<Rightarrow> run
         | Some existing \<Rightarrow>
             (case ik_response existing of
                None \<Rightarrow> run
              | Some b \<Rightarrow>
                  if ik_requestHash existing \<noteq> hash then Inl (JobIdempotencyConflictError sc k)
                  else Inr (tab, s, b)))"

section \<open>Properties\<close>

lemma find_append_None: "find P xs = None \<Longrightarrow> find P (xs @ ys) = find P ys"
  by (induction xs) auto

lemma find_append_Some: "find P xs = Some x \<Longrightarrow> find P (xs @ ys) = Some x"
  by (induction xs) auto

lemma find_map_same:
  "(\<And>x. P (f x) = P x) \<Longrightarrow> find P (map f xs) = map_option f (find P xs)"
  by (induction xs) auto

lemma idempotency_find_complete:
  "idempotency_find (idempotency_complete sc k b tab) sc' k' =
     map_option (\<lambda>r. if sc' = sc \<and> k' = k then r\<lparr>ik_response := Some b\<rparr> else r) (idempotency_find tab sc' k')"
proof -
  have "idempotency_find (idempotency_complete sc k b tab) sc' k' =
      map_option (\<lambda>r. if ik_scope r = sc \<and> ik_key r = k then r\<lparr>ik_response := Some b\<rparr> else r)
        (idempotency_find tab sc' k')"
    unfolding idempotency_find_def idempotency_complete_def by (rule find_map_same) auto
  then show ?thesis
    by (cases "idempotency_find tab sc' k'") (auto simp: idempotency_find_def dest: find_SomeD)
qed

lemma idempotency_find_reserve:
  assumes "idempotency_reserve i t info tab = Some tab'"
  shows "idempotency_find tab (info_scope info) (the (info_key info)) = None"
    "idempotency_find tab' sc k =
      (if sc = info_scope info \<and> k = the (info_key info) then
         Some \<lparr>ik_id = i, ik_key = k, ik_scope = sc, ik_requestHash = info_hash info, ik_response = None,
           ik_organizationId = info_organizationId info, ik_userId = info_userId info,
           ik_expiresAt = t + IDEMPOTENCY_KEY_TTL_MS\<rparr>
       else idempotency_find tab sc k)"
proof -
  show none: "idempotency_find tab (info_scope info) (the (info_key info)) = None"
    using assms by (simp add: idempotency_reserve_def split: if_splits)
  show "idempotency_find tab' sc k =
      (if sc = info_scope info \<and> k = the (info_key info) then
         Some \<lparr>ik_id = i, ik_key = k, ik_scope = sc, ik_requestHash = info_hash info, ik_response = None,
           ik_organizationId = info_organizationId info, ik_userId = info_userId info,
           ik_expiresAt = t + IDEMPOTENCY_KEY_TTL_MS\<rparr>
       else idempotency_find tab sc k)"
  proof (cases "idempotency_find tab sc k")
    case None
    then show ?thesis
      using assms none by (auto simp: idempotency_reserve_def idempotency_find_def find_append_None)
  next
    case (Some r)
    then show ?thesis
      using assms none by (auto simp: idempotency_reserve_def idempotency_find_def find_append_Some)
  qed
qed

text \<open>A call with a key whose row exists changes nothing, whatever its first read saw.\<close>

lemma withIdempotency_present:
  assumes "truthy (info_key info)" and "idempotency_find tab (info_scope info) (the (info_key info)) \<noteq> None"
  shows "\<exists>r. withIdempotency i t info h snap tab s = (tab, s, r)"
  using assms by (auto simp: withIdempotency_def Let_def idempotency_reserve_def split: option.splits)

text \<open>A call without a row either finds one in its first read or reserves one.\<close>

lemma withIdempotency_absent:
  assumes "truthy (info_key info)" and "withIdempotency i t info h snap tab s = (tab', s', r)"
  shows "tab' = tab \<and> s' = s \<or>
    idempotency_find tab' (info_scope info) (the (info_key info)) \<noteq> None \<and>
    (s' = s \<or> (\<exists>b. h s = Inr (b, s')))"
  using assms
  by (auto simp: withIdempotency_def Let_def idempotency_find_complete idempotency_find_reserve(2)
      split: option.splits sum.splits if_splits)

text \<open>Retries of one request; each reads a table of its own first.\<close>

fun retries ::
  "string \<Rightarrow> int \<Rightarrow> IdempotencyRequestInfo \<Rightarrow> ('s, 'b, 'r, 'u) handler \<Rightarrow> 'b IdempotencyKey list list \<Rightarrow>
   'b IdempotencyKey list \<Rightarrow> 's \<Rightarrow> 'b IdempotencyKey list \<times> 's \<times> (('r, 'u) failure + 'b) list" where
  "retries i t info h [] tab s = (tab, s, [])"
| "retries i t info h (snap # snaps) tab s =
     (case withIdempotency i t info h snap tab s of
        (tab', s', r) \<Rightarrow> (case retries i t info h snaps tab' s' of (tab'', s'', rs) \<Rightarrow> (tab'', s'', r # rs)))"

lemma retries_present:
  assumes "truthy (info_key info)" and "idempotency_find tab (info_scope info) (the (info_key info)) \<noteq> None"
  shows "fst (snd (retries i t info h snaps tab s)) = s \<and> fst (retries i t info h snaps tab s) = tab"
  using assms
proof (induction snaps)
  case (Cons snap snaps)
  then obtain r where "withIdempotency i t info h snap tab s = (tab, s, r)"
    using withIdempotency_present [OF assms, of i t h snap s] by blast
  then show ?case
    using Cons by (auto split: prod.splits)
qed simp

text \<open>C8. However often a keyed request is retried, and whatever its retries saw of the key table, the
  handler's effect is applied at most once.\<close>

theorem retries_effect_once:
  assumes "truthy (info_key info)" and "retries i t info h snaps tab s = (tab', s', rs)"
  shows "s' = s \<or> (\<exists>b. h s = Inr (b, s'))"
  using assms(2)
proof (induction snaps arbitrary: tab s rs)
  case (Cons snap snaps)
  obtain tab1 s1 r where step: "withIdempotency i t info h snap tab s = (tab1, s1, r)"
    by (metis prod_cases3)
  obtain rs1 where rest: "retries i t info h snaps tab1 s1 = (tab', s', rs1)"
    using Cons.prems step by (auto split: prod.splits)
  from withIdempotency_absent [OF assms(1) step] show ?case
  proof
    assume "tab1 = tab \<and> s1 = s"
    then show ?thesis
      using Cons.IH rest by blast
  next
    assume "idempotency_find tab1 (info_scope info) (the (info_key info)) \<noteq> None \<and>
      (s1 = s \<or> (\<exists>b. h s = Inr (b, s1)))"
    then show ?thesis
      using retries_present [OF assms(1), of tab1 i t h snaps s1] rest by auto
  qed
qed simp

text \<open>Replaying a completed request returns the recorded response without running any
  handler: the answer does not depend on who asks, since neither the key nor the request digest
  names the caller. A request whose handler failed is never run again: its reservation has no
  response, and every repetition is refused as still being processed.\<close>

theorem replay_ignores_caller:
  fixes h :: "('s, 'b, 'r, 'u) handler"
  assumes "truthy (info_key info)" and "idempotency_find tab (info_scope info) (the (info_key info)) = None"
  shows "case h s of
      Inr (b, s') \<Rightarrow> \<exists>tab'. withIdempotency i t info h tab tab s = (tab', s', Inr b) \<and>
         (\<forall>i' t' org user (h' :: ('s, 'b, 'r, 'u) handler) u. withIdempotency i' t'
            (info\<lparr>info_organizationId := org, info_userId := user\<rparr>) h' tab' tab' u = (tab', u, Inr b))
    | Inl e \<Rightarrow> \<exists>tab'. withIdempotency i t info h tab tab s = (tab', s, Inl e) \<and>
         (\<forall>i' t' (h' :: ('s, 'b, 'r, 'u) handler) u. withIdempotency i' t' info h' tab' tab' u = (tab', u, Inl (Problem (conflict True))))"
proof -
  obtain tab1 where tab1: "idempotency_reserve i t info tab = Some tab1"
    using assms(2) by (simp add: idempotency_reserve_def)
  note found = idempotency_find_reserve(2) [OF tab1]
  show ?thesis
  proof (cases "h s")
    case (Inl e)
    then show ?thesis
      using assms tab1 by (simp add: withIdempotency_def Let_def found)
  next
    case (Inr p)
    then show ?thesis
      using assms tab1 by (simp add: withIdempotency_def Let_def idempotency_find_complete found split: prod.split)
  qed
qed

definition example_info :: IdempotencyRequestInfo where
  "example_info = \<lparr>info_key = Some ''k1'', info_scope = ''lockbox.seal'', info_hash = ''h'',
     info_organizationId = Some ''org'', info_userId = Some ''u''\<rparr>"

definition example_handler :: "(nat, string, unit, unit) handler" where
  "example_handler s = (if s < 2 then Inr (''sealed'', Suc s) else Inl (Problem notFound))"

theorem retries_effect_once_witness:
  "fst (snd (retries ''i'' 0 example_info example_handler [[], [], []] [] 0)) = 1"
proof -
  obtain tab rs where "retries ''i'' 0 example_info example_handler [[], [], []] [] 0 = (tab, 1, rs)"
    by (simp add: example_info_def example_handler_def withIdempotency_def idempotency_find_def
        idempotency_reserve_def idempotency_complete_def)
  then show ?thesis
    using retries_effect_once [of example_info "''i''" 0 example_handler "[[], [], []]" "[]" 0 tab 1 rs]
    by (simp add: example_info_def example_handler_def)
qed

theorem replay_ignores_caller_witness:
  "\<exists>tab'. withIdempotency ''i'' 0 example_info example_handler [] [] 1 = (tab', 2, Inr ''sealed'') \<and>
     withIdempotency ''j'' 1 (example_info\<lparr>info_organizationId := Some ''other'', info_userId := Some ''v''\<rparr>)
       example_handler tab' tab' 2 = (tab', 2, Inr ''sealed'')"
  using replay_ignores_caller [where info = example_info and tab = "[]" and h = example_handler and s = 1
      and i = "''i''" and t = 0]
  by (auto simp: example_info_def example_handler_def idempotency_find_def numeral_2_eq_2)

end
