(* ===== verification/Economics_Store.thy ===== *)
theory Economics_Store
  imports Service_Base Economics_Engine Deal_States
begin

text \<open>
  The tables of the economics module and the repositories that write them
  (\<open>packages/db/src/repositories/commission-*.repository.ts\<close>, \<open>revenue-event.repository.ts\<close>).
  A table is the list of its rows in insertion order. Rows hold the columns some operation reads
  or sets from its input; constant columns (\<open>privacyClass\<close>, \<open>sourceType\<close>) are left out,
  and so are foreign keys and the 64-bit range of the amount columns. Instants are milliseconds.
  \<open>uuid\<close> stands for the identifier generator: \<open>uuid n\<close> is the identifier of its \<open>n\<close>-th call.
\<close>

section \<open>Rows\<close>

record DealRoom =
  dr_id :: string
  dr_merchantOrgId :: string
  dr_providerOrgId :: string
  dr_status :: DealRoomStatus

record CommissionSchedule =
  cs_id :: string
  cs_dealRoomId :: string
  cs_scheduleFamilyId :: string
  cs_versionNumber :: int
  cs_previousVersionId :: "string option"
  cs_basis :: CommissionBasis
  cs_status :: CommissionScheduleStatus
  cs_capMinor :: "int option"
  cs_floorMinor :: "int option"
  cs_survivalMonths :: "int option"
  cs_description :: "string option"
  cs_createdByUserId :: "string option"
  cs_createdByOrgId :: "string option"
  cs_updatedByUserId :: "string option"
  cs_version :: int
  cs_createdAt :: int

record CreateCommissionScheduleInput =
  ics_dealRoomId :: string
  ics_basis :: CommissionBasis
  ics_status :: CommissionScheduleStatus
  ics_capMinor :: "int option"
  ics_floorMinor :: "int option"
  ics_survivalMonths :: "int option"
  ics_description :: "string option"
  ics_previousVersionId :: "string option"
  ics_createdByUserId :: "string option"
  ics_createdByOrgId :: "string option"

text \<open>\<open>bps\<close> reaches the repository as a JavaScript number and is stored in an integer column.\<close>

record CreateCommissionComponentInput =
  icc_scheduleId :: string
  icc_recipientType :: CommissionRecipientType
  icc_recipientOrgId :: string
  icc_componentType :: CommissionComponentType
  icc_bps :: "js_number option"
  icc_fixedAmountMinor :: "int option"
  icc_calculationBasis :: "CommissionBasis option"
  icc_priority :: int
  icc_claimId :: "string option"
  icc_createdByUserId :: "string option"
  icc_createdByOrgId :: "string option"

record CommissionComponent =
  cc_id :: string
  cc_scheduleId :: string
  cc_recipientType :: CommissionRecipientType
  cc_recipientOrgId :: string
  cc_componentType :: CommissionComponentType
  cc_bps :: "int option"
  cc_fixedAmountMinor :: "int option"
  cc_calculationBasis :: "CommissionBasis option"
  cc_priority :: int
  cc_claimId :: "string option"
  cc_createdByUserId :: "string option"
  cc_createdByOrgId :: "string option"

record CreateRevenueEventInput =
  re_dealRoomId :: string
  re_scheduleId :: string
  re_basis :: CommissionBasis
  re_period :: string
  re_source :: string
  re_grossAmountMinor :: int
  re_deductionsMinor :: int
  re_netDistributableMinor :: int
  re_currency :: string
  re_recognizedAt :: int
  re_createdByUserId :: "string option"
  re_createdByOrgId :: "string option"

record RevenueEvent = CreateRevenueEventInput +
  re_id :: string
  re_createdAt :: int

text \<open>The columns a ledger row takes from its input unchanged.\<close>

record LedgerColumns =
  l_entryType :: LedgerEntryType
  l_direction :: LedgerDirection
  l_amountMinor :: int
  l_currency :: string
  l_dealRoomId :: string
  l_revenueEventId :: string
  l_scheduleId :: string
  l_scheduleVersion :: int
  l_componentId :: string
  l_recipientOrgId :: string
  l_claimId :: "string option"
  l_paymentId :: "string option"
  l_reason :: "string option"
  l_approverUserId :: "string option"
  l_approverOrgId :: "string option"
  l_calculationVersion :: string
  l_inputVersions :: "string list"
  l_computedAt :: int
  l_createdByUserId :: "string option"
  l_createdByOrgId :: "string option"

record CreateCommissionAccrualInput =
  ica_accrualRootId :: "string option"
  ica_columns :: LedgerColumns

record CommissionAccrual =
  ca_id :: string
  ca_accrualRootId :: string
  ca_columns :: LedgerColumns
  ca_createdAt :: int

record CreateCommissionPaymentInput =
  cp_dealRoomId :: string
  cp_recipientOrgId :: string
  cp_totalAmountMinor :: int
  cp_currency :: string
  cp_paidAt :: int
  cp_reference :: string
  cp_evidenceRef :: "string option"
  cp_createdByUserId :: "string option"
  cp_createdByOrgId :: "string option"

record CommissionPayment = CreateCommissionPaymentInput +
  cp_id :: string
  cp_createdAt :: int

text \<open>\<open>db_jobs\<close> is the queue of \<open>economics-accrual\<close> jobs and \<open>db_ids\<close> the number of
  identifiers handed out.\<close>

record Store =
  db_dealRooms :: "DealRoom list"
  db_schedules :: "CommissionSchedule list"
  db_components :: "CommissionComponent list"
  db_revenueEvents :: "RevenueEvent list"
  db_accruals :: "CommissionAccrual list"
  db_payments :: "CommissionPayment list"
  db_audit :: "AuditEvent list"
  db_timeline :: "DomainEvent list"
  db_jobs :: "string list"
  db_ids :: nat

text \<open>The errors of the repositories and of the database.\<close>

datatype StoreError =
    RecordNotFound
  | UniqueViolation
  | InvalidAccrual string
  | InvalidComponent string
  | InvalidRevenueEvent string
  | EmptyBatch
  | LedgerCorrupt EconomicsInvariantError

section \<open>Repositories\<close>

definition newId :: "Env \<Rightarrow> Store \<Rightarrow> string \<times> Store" where
  "newId env db = (uuid env (db_ids db), db\<lparr>db_ids := Suc (db_ids db)\<rparr>)"

definition dealRoom_findById :: "Store \<Rightarrow> string \<Rightarrow> DealRoom option" where
  "dealRoom_findById db i = find (\<lambda>r. dr_id r = i) (db_dealRooms db)"

definition schedule_findById :: "Store \<Rightarrow> string \<Rightarrow> CommissionSchedule option" where
  "schedule_findById db i = find (\<lambda>r. cs_id r = i) (db_schedules db)"

definition schedule_listByDealRoom :: "Store \<Rightarrow> string \<Rightarrow> CommissionSchedule list" where
  "schedule_listByDealRoom db d =
     sort_key cs_scheduleFamilyId
       (sort_key (\<lambda>r. - cs_versionNumber r) (filter (\<lambda>r. cs_dealRoomId r = d) (db_schedules db)))"

definition schedule_listActiveByDealRoom :: "Store \<Rightarrow> string \<Rightarrow> CommissionSchedule list" where
  "schedule_listActiveByDealRoom db d =
     sort_key (\<lambda>r. - cs_createdAt r)
       (filter (\<lambda>r. cs_dealRoomId r = d \<and> cs_status r = Sch_ACTIVE) (db_schedules db))"

text \<open>\<open>create\<close> continues the family of the previous version, or starts its own.\<close>

definition schedule_create ::
  "Env \<Rightarrow> CreateCommissionScheduleInput \<Rightarrow> Store \<Rightarrow> StoreError + CommissionSchedule \<times> Store" where
  "schedule_create env inp db =
     (let (i, db) = newId env db in
      ebind (if truthy (ics_previousVersionId inp)
             then (case schedule_findById db (the (ics_previousVersionId inp)) of
                     None \<Rightarrow> Inl RecordNotFound
                   | Some previous \<Rightarrow> Inr (cs_scheduleFamilyId previous, cs_versionNumber previous + 1))
             else Inr (i, 1))
        (\<lambda>(family, versionNumber).
          let row = \<lparr>cs_id = i, cs_dealRoomId = ics_dealRoomId inp, cs_scheduleFamilyId = family,
                cs_versionNumber = versionNumber, cs_previousVersionId = ics_previousVersionId inp,
                cs_basis = ics_basis inp, cs_status = ics_status inp,
                cs_capMinor = ics_capMinor inp, cs_floorMinor = ics_floorMinor inp,
                cs_survivalMonths = ics_survivalMonths inp, cs_description = ics_description inp,
                cs_createdByUserId = ics_createdByUserId inp,
                cs_createdByOrgId = ics_createdByOrgId inp, cs_updatedByUserId = None,
                cs_version = 1, cs_createdAt = clock env\<rparr>
          in Inr (row, db\<lparr>db_schedules := db_schedules db @ [row]\<rparr>)))"

definition schedule_updateStatus ::
  "string \<Rightarrow> CommissionScheduleStatus \<Rightarrow> string option \<Rightarrow> Store \<Rightarrow> StoreError + CommissionSchedule \<times> Store" where
  "schedule_updateStatus i status user db =
     (case schedule_findById db i of
        None \<Rightarrow> Inl RecordNotFound
      | Some r \<Rightarrow>
          let upd = (\<lambda>r. r\<lparr>cs_status := status, cs_updatedByUserId := user,
                           cs_version := cs_version r + 1\<rparr>)
          in Inr (upd r, db\<lparr>db_schedules :=
               map (\<lambda>r. if cs_id r = i then upd r else r) (db_schedules db)\<rparr>))"

text \<open>The integer a checked \<open>bps\<close> is stored as.\<close>

fun int_column :: "js_number \<Rightarrow> int" where
  "int_column (Fin q) = fst (quotient_of q)"
| "int_column _ = 0"

definition validateComponentTypeFields :: "CreateCommissionComponentInput \<Rightarrow> StoreError + unit" where
  "validateComponentTypeFields inp =
     (case icc_componentType inp of
        PERCENTAGE_BPS \<Rightarrow>
          (case icc_bps inp of
             None \<Rightarrow> Inl (InvalidComponent ''bps missing'')
           | Some b \<Rightarrow>
               ebind (throw_if (\<not> js_isInteger b \<or> js_less0 b \<or> js_greater b 10000)
                 (InvalidComponent ''bps range'')) (\<lambda>_.
               throw_if (icc_fixedAmountMinor inp \<noteq> None) (InvalidComponent ''stray fixedAmountMinor'')))
      | FIXED_AMOUNT \<Rightarrow>
          (case icc_fixedAmountMinor inp of
             None \<Rightarrow> Inl (InvalidComponent ''fixedAmountMinor missing'')
           | Some a \<Rightarrow>
               ebind (throw_if (a < 0) (InvalidComponent ''fixedAmountMinor negative'')) (\<lambda>_.
               throw_if (icc_bps inp \<noteq> None) (InvalidComponent ''stray bps''))))"

definition component_listBySchedule :: "Store \<Rightarrow> string \<Rightarrow> CommissionComponent list" where
  "component_listBySchedule db s =
     sort_key cc_priority (filter (\<lambda>r. cc_scheduleId r = s) (db_components db))"

definition component_create ::
  "Env \<Rightarrow> CreateCommissionComponentInput \<Rightarrow> Store \<Rightarrow> StoreError + CommissionComponent \<times> Store" where
  "component_create env inp db =
     ebind (validateComponentTypeFields inp) (\<lambda>_.
     let (i, db) = newId env db;
         row = \<lparr>cc_id = i, cc_scheduleId = icc_scheduleId inp, cc_recipientType = icc_recipientType inp,
           cc_recipientOrgId = icc_recipientOrgId inp, cc_componentType = icc_componentType inp,
           cc_bps = map_option int_column (icc_bps inp),
           cc_fixedAmountMinor = icc_fixedAmountMinor inp,
           cc_calculationBasis = icc_calculationBasis inp, cc_priority = icc_priority inp,
           cc_claimId = icc_claimId inp, cc_createdByUserId = icc_createdByUserId inp,
           cc_createdByOrgId = icc_createdByOrgId inp\<rparr>
     in Inr (row, db\<lparr>db_components := db_components db @ [row]\<rparr>))"

text \<open>The loops of the \<open>createMany\<close> functions.\<close>

fun create_many :: "('i \<Rightarrow> Store \<Rightarrow> 'e + 'r \<times> Store) \<Rightarrow> 'i list \<Rightarrow> Store \<Rightarrow> 'e + 'r list \<times> Store" where
  "create_many create [] db = Inr ([], db)"
| "create_many create (i # is) db =
     ebind (create i db) (\<lambda>(row, db).
     ebind (create_many create is db) (\<lambda>(rows, db). Inr (row # rows, db)))"

definition component_createMany ::
  "Env \<Rightarrow> CreateCommissionComponentInput list \<Rightarrow> Store \<Rightarrow> StoreError + CommissionComponent list \<times> Store" where
  "component_createMany env = create_many (component_create env)"

definition revenueEvent_findById :: "Store \<Rightarrow> string \<Rightarrow> RevenueEvent option" where
  "revenueEvent_findById db i = find (\<lambda>r. re_id r = i) (db_revenueEvents db)"

definition revenueEvent_findByDealPeriodSource ::
  "Store \<Rightarrow> string \<Rightarrow> string \<Rightarrow> string \<Rightarrow> RevenueEvent option" where
  "revenueEvent_findByDealPeriodSource db d p s =
     find (\<lambda>r. re_dealRoomId r = d \<and> re_period r = p \<and> re_source r = s) (db_revenueEvents db)"

definition revenueEvent_listByDealRoom :: "Store \<Rightarrow> string \<Rightarrow> RevenueEvent list" where
  "revenueEvent_listByDealRoom db d =
     sort_key (\<lambda>r. - re_recognizedAt r) (filter (\<lambda>r. re_dealRoomId r = d) (db_revenueEvents db))"

text \<open>The insert is refused by \<open>@@unique([dealRoomId, period, source])\<close>.\<close>

definition revenueEvent_create ::
  "Env \<Rightarrow> CreateRevenueEventInput \<Rightarrow> Store \<Rightarrow> StoreError + RevenueEvent \<times> Store" where
  "revenueEvent_create env inp db =
     ebind (throw_if (re_grossAmountMinor inp < 0) (InvalidRevenueEvent ''grossAmountMinor'')) (\<lambda>_.
     ebind (throw_if (re_deductionsMinor inp < 0) (InvalidRevenueEvent ''deductionsMinor'')) (\<lambda>_.
     ebind (throw_if (re_netDistributableMinor inp < 0) (InvalidRevenueEvent ''netDistributableMinor'')) (\<lambda>_.
     let (i, db) = newId env db;
         row = CreateRevenueEventInput.extend inp (RevenueEvent.fields i (clock env))
     in ebind (throw_if (revenueEvent_findByDealPeriodSource db (re_dealRoomId inp) (re_period inp)
                 (re_source inp) \<noteq> None) UniqueViolation) (\<lambda>_.
        Inr (row, db\<lparr>db_revenueEvents := db_revenueEvents db @ [row]\<rparr>)))))"

definition accrual_listByAccrualRoot :: "Store \<Rightarrow> string \<Rightarrow> CommissionAccrual list" where
  "accrual_listByAccrualRoot db rootId =
     sort_key ca_createdAt (filter (\<lambda>r. ca_accrualRootId r = rootId) (db_accruals db))"

definition accrual_listByRevenueEvent :: "Store \<Rightarrow> string \<Rightarrow> CommissionAccrual list" where
  "accrual_listByRevenueEvent db ev =
     sort_key ca_createdAt (filter (\<lambda>r. l_revenueEventId (ca_columns r) = ev) (db_accruals db))"

definition accrual_listByDealRoom :: "Store \<Rightarrow> string \<Rightarrow> CommissionAccrual list" where
  "accrual_listByDealRoom db d =
     sort_key (\<lambda>r. - ca_createdAt r) (filter (\<lambda>r. l_dealRoomId (ca_columns r) = d) (db_accruals db))"

definition sumAccrualAmountByScheduleId :: "Store \<Rightarrow> string \<Rightarrow> int" where
  "sumAccrualAmountByScheduleId db s =
     sum_list (map (\<lambda>r. l_amountMinor (ca_columns r))
       (filter (\<lambda>r. l_scheduleId (ca_columns r) = s \<and> l_entryType (ca_columns r) = ACCRUAL)
         (db_accruals db)))"

definition checkAccrualInput :: "CreateCommissionAccrualInput \<Rightarrow> StoreError + unit" where
  "checkAccrualInput inp =
     (let c = ica_columns inp in
      ebind (throw_if (l_inputVersions c = []) (InvalidAccrual ''inputVersions'')) (\<lambda>_.
      if l_entryType c = ACCRUAL then
        ebind (throw_if (truthy (l_paymentId c) \<or> truthy (l_reason c) \<or> truthy (l_approverUserId c) \<or>
                 truthy (l_approverOrgId c)) (InvalidAccrual ''accrual extras'')) (\<lambda>_.
        throw_if (l_direction c \<noteq> CREDIT) (InvalidAccrual ''accrual direction''))
      else
        ebind (throw_if (\<not> truthy (ica_accrualRootId inp)) (InvalidAccrual ''accrualRootId'')) (\<lambda>_.
        ebind (throw_if (l_entryType c = PAYMENT \<and> \<not> truthy (l_paymentId c))
          (InvalidAccrual ''paymentId'')) (\<lambda>_.
        ebind (throw_if (l_entryType c = PAYMENT \<and> l_direction c \<noteq> DEBIT)
          (InvalidAccrual ''payment direction'')) (\<lambda>_.
        ebind (throw_if (l_entryType c = REVERSAL \<and> l_direction c \<noteq> DEBIT)
          (InvalidAccrual ''reversal direction'')) (\<lambda>_.
        throw_if ((l_entryType c = ADJUSTMENT \<or> l_entryType c = REVERSAL) \<and> \<not> truthy (l_reason c))
          (InvalidAccrual ''reason'')))))))"

definition accrual_create ::
  "Env \<Rightarrow> CreateCommissionAccrualInput \<Rightarrow> Store \<Rightarrow> StoreError + CommissionAccrual \<times> Store" where
  "accrual_create env inp db =
     ebind (checkAccrualInput inp) (\<lambda>_.
     let (i, db) = newId env db;
         row = \<lparr>ca_id = i,
           ca_accrualRootId = (if l_entryType (ica_columns inp) = ACCRUAL then i
                               else the (ica_accrualRootId inp)),
           ca_columns = ica_columns inp, ca_createdAt = clock env\<rparr>
     in Inr (row, db\<lparr>db_accruals := db_accruals db @ [row]\<rparr>))"

definition accrual_createMany ::
  "Env \<Rightarrow> CreateCommissionAccrualInput list \<Rightarrow> Store \<Rightarrow> StoreError + CommissionAccrual list \<times> Store" where
  "accrual_createMany env = create_many (accrual_create env)"

text \<open>The insert is refused by the unique \<open>reference\<close> column.\<close>

definition payment_create ::
  "Env \<Rightarrow> CreateCommissionPaymentInput \<Rightarrow> Store \<Rightarrow> StoreError + CommissionPayment \<times> Store" where
  "payment_create env inp db =
     (let (i, db) = newId env db;
          row = CreateCommissionPaymentInput.extend inp (CommissionPayment.fields i (clock env))
      in ebind (throw_if (\<exists>p \<in> set (db_payments db). cp_reference p = cp_reference inp) UniqueViolation)
           (\<lambda>_. Inr (row, db\<lparr>db_payments := db_payments db @ [row]\<rparr>)))"

definition audit_write :: "Env \<Rightarrow> RequestContext option \<Rightarrow> AuditWriteInput \<Rightarrow> Store \<Rightarrow> Store" where
  "audit_write env ctx inp db =
     (let (i, db) = newId env db in
      db\<lparr>db_audit := db_audit db @ [\<lparr>audit_id = i, audit_input = inp, audit_context = ctx\<rparr>]\<rparr>)"

definition timeline_write :: "Env \<Rightarrow> RequestContext option \<Rightarrow> TimelineWriteInput \<Rightarrow> Store \<Rightarrow> Store" where
  "timeline_write env ctx inp db =
     (let (i, db) = newId env db in
      db\<lparr>db_timeline := db_timeline db @ [\<lparr>event_id = i, event_input = inp, event_context = ctx\<rparr>]\<rparr>)"

text \<open>What the engine reads of a ledger row.\<close>

definition ledger_entry :: "CommissionAccrual \<Rightarrow> AccrualLedgerEntryLike" where
  "ledger_entry r = \<lparr>entryType = l_entryType (ca_columns r), direction = l_direction (ca_columns r),
     amountMinor = l_amountMinor (ca_columns r)\<rparr>"

end
