(* ===== verification/Economics_Service.thy ===== *)
theory Economics_Service
  imports Economics_Store
begin

text \<open>
  \<open>apps/api/src/modules/economics/service.ts\<close>: schedules, revenue events, the ledger, payments
  and adjustments. A mutation reads the committed state before it opens its transaction and again
  inside it; other requests may commit in between, so an operation takes both states: \<open>snap\<close>,
  what the reads before the transaction saw, and \<open>db\<close>, the state the transaction runs on (the
  state at the time the advisory lock is granted, for the operations that take it). It returns
  the state the transaction commits, or the failure, in which case nothing is committed.
  A requested instant is the instant it denotes.
\<close>

section \<open>Errors, requests and results\<close>

text \<open>The \<open>ProblemError.badRequest\<close> sites of the file.\<close>

datatype EconomicsProblem =
    CapBelowFloor int int
  | SupersedesUnknown
  | SupersedesNotActive CommissionScheduleStatus
  | DealNotEligible DealRoomStatus
  | NoActiveScheduleForBasis CommissionBasis
  | DeductionsExceedGross
  | NoComponentsForBasis string CommissionBasis
  | CannotSplit EconomicsInvariantError
  | UnknownAccrual string
  | AccrualReversed string
  | PaymentNotPositive string
  | PaymentExceedsOutstanding string int int
  | SeveralRecipients
  | SeveralCurrencies
  | AdjustmentNotPositive

type_synonym econ_failure = "(EconomicsProblem, StoreError) failure"

abbreviation bad :: "EconomicsProblem \<Rightarrow> econ_failure" where
  "bad r \<equiv> Problem (badRequest r)"

record ComponentRequest =
  rq_recipientType :: CommissionRecipientType
  rq_recipientOrgId :: string
  rq_componentType :: CommissionComponentType
  rq_bps :: "js_number option"
  rq_fixedAmountMinor :: "string option"
  rq_calculationBasis :: "CommissionBasis option"
  rq_priority :: int
  rq_claimId :: "string option"

record CreateScheduleRequest =
  rq_basis :: CommissionBasis
  rq_capMinor :: "string option"
  rq_floorMinor :: "string option"
  rq_survivalMonths :: "int option"
  rq_description :: "string option"
  rq_supersedesScheduleId :: "string option"
  rq_components :: "ComponentRequest list"

record RecordRevenueEventRequest =
  rv_basis :: CommissionBasis
  rv_period :: string
  rv_source :: string
  rv_grossAmountMinor :: string
  rv_deductionsMinor :: "string option"
  rv_currency :: string
  rv_recognizedAt :: "int option"

record PaymentItem =
  pi_accrualRootId :: string
  pi_amountMinor :: string

record RecordPaymentRequest =
  rp_payments :: "PaymentItem list"
  rp_reference :: string
  rp_evidenceRef :: "string option"
  rp_paidAt :: "int option"

record AdjustLedgerRequest =
  ra_direction :: LedgerDirection
  ra_amountMinor :: string
  ra_reason :: string

record ScheduleDetail =
  sd_schedule :: CommissionSchedule
  sd_components :: "CommissionComponent list"
  sd_capFloorStatus :: "ScheduleCapFloorStatus option"

record AccrualWithBalance =
  ab_accrualRootId :: string
  ab_root :: CommissionAccrual
  ab_balance :: AccrualBalance
  ab_entries :: "CommissionAccrual list"

record LoadedPayment =
  lp_accrualRootId :: string
  lp_amountMinor :: int
  lp_root :: CommissionAccrual

section \<open>Helpers\<close>

definition CROSS_ORG_ECONOMICS_ROLES :: "PersonaRole list" where
  "CROSS_ORG_ECONOMICS_ROLES = [PLATFORM_OWNER, FINANCE_OPERATOR, AUDITOR_READONLY]"

definition LEDGER_PARTY_ROLES :: "PersonaRole list" where
  "LEDGER_PARTY_ROLES = [CONTRIBUTOR_AGENT, MERCHANT_PSP_USER, ACQUIRER_PROVIDER_USER]"

definition ECONOMICS_ELIGIBLE_DEAL_STATUSES :: "DealRoomStatus list" where
  "ECONOMICS_ELIGIBLE_DEAL_STATUSES = [Deal_ACTIVATION, Deal_LIVE, Deal_ARCHIVED]"

text \<open>An error of the layers below surfaces as an unhandled one, except that a unique violation
  inside \<open>runUniqueConstraintSafe\<close> becomes a retryable conflict.\<close>

definition store :: "StoreError + 'a \<Rightarrow> econ_failure + 'a" where
  "store = map_err Unhandled"

definition runUniqueConstraintSafe :: "econ_failure + 'a \<Rightarrow> econ_failure + 'a" where
  "runUniqueConstraintSafe =
     map_err (\<lambda>e. if e = Unhandled UniqueViolation then Problem (conflict True) else e)"

definition money :: "MoneyInvariantError + 'a \<Rightarrow> econ_failure + 'a" where
  "money = map_err MoneyFailure"

text \<open>An engine error that is not caught: a money error is a client error, any other is not.\<close>

definition engine :: "EconomicsInvariantError + 'a \<Rightarrow> econ_failure + 'a" where
  "engine = map_err (\<lambda>e. case e of EconMoney m \<Rightarrow> MoneyFailure m | _ \<Rightarrow> Unhandled (LedgerCorrupt e))"

lemma failure_lifts [simp, result_simps]:
  "store r = Inr x \<longleftrightarrow> r = Inr x" "money s = Inr y \<longleftrightarrow> s = Inr y" "engine t = Inr z \<longleftrightarrow> t = Inr z"
  "runUniqueConstraintSafe u = Inr w \<longleftrightarrow> u = Inr w"
  by (simp_all add: store_def money_def engine_def runUniqueConstraintSafe_def)

definition loadDealRoom :: "Store \<Rightarrow> string \<Rightarrow> econ_failure + DealRoom" where
  "loadDealRoom db dealRoomId =
     (case dealRoom_findById db dealRoomId of None \<Rightarrow> Inl (Problem notFound) | Some d \<Rightarrow> Inr d)"

text \<open>The balance of the rows of one accrual.\<close>

definition chain_balance :: "CommissionAccrual list \<Rightarrow> econ_failure + AccrualBalance" where
  "chain_balance chain = engine (computeAccrualBalance (map ledger_entry chain))"

definition loadPayment :: "Store \<Rightarrow> string \<Rightarrow> PaymentItem \<Rightarrow> econ_failure + LoadedPayment" where
  "loadPayment db dealRoomId p =
     (let rootId = pi_accrualRootId p; chain = accrual_listByAccrualRoot db rootId in
      ebind (throw_if (chain = [] \<or> l_dealRoomId (ca_columns (hd chain)) \<noteq> dealRoomId)
        (bad (UnknownAccrual rootId))) (\<lambda>_.
      ebind (chain_balance chain) (\<lambda>balance.
      ebind (throw_if (balance_status balance = REVERSED) (bad (AccrualReversed rootId))) (\<lambda>_.
      ebind (money (parseBigIntMinorUnits (Some (pi_amountMinor p)) ''payment.amountMinor'')) (\<lambda>amount.
      ebind (throw_if (amount \<le> 0) (bad (PaymentNotPositive rootId))) (\<lambda>_.
      ebind (throw_if (amount > outstandingAmountMinor balance)
        (bad (PaymentExceedsOutstanding rootId amount (outstandingAmountMinor balance)))) (\<lambda>_.
      Inr \<lparr>lp_accrualRootId = rootId, lp_amountMinor = amount, lp_root = hd chain\<rparr>)))))))"

definition loadAndValidatePayments ::
  "Store \<Rightarrow> string \<Rightarrow> PaymentItem list \<Rightarrow> econ_failure + LoadedPayment list" where
  "loadAndValidatePayments db dealRoomId payments = emap (loadPayment db dealRoomId) payments"

definition validateSingleRecipientAndCurrency :: "LoadedPayment list \<Rightarrow> econ_failure + string \<times> string" where
  "validateSingleRecipientAndCurrency loaded =
     (let recipientOrgIds = remdups (map (\<lambda>l. l_recipientOrgId (ca_columns (lp_root l))) loaded);
          currencies = remdups (map (\<lambda>l. l_currency (ca_columns (lp_root l))) loaded)
      in
      ebind (throw_if (length recipientOrgIds > 1) (bad SeveralRecipients)) (\<lambda>_.
      ebind (throw_if (length currencies > 1) (bad SeveralCurrencies)) (\<lambda>_.
      case loaded of
        [] \<Rightarrow> Inl (Unhandled EmptyBatch)
      | l # _ \<Rightarrow> Inr (l_recipientOrgId (ca_columns (lp_root l)), l_currency (ca_columns (lp_root l))))))"

text \<open>The map of \<open>groupIntoAccruals\<close> keeps the order in which the root ids first occur.\<close>

definition root_ids :: "CommissionAccrual list \<Rightarrow> string list" where
  "root_ids rows = rev (remdups (rev (map ca_accrualRootId rows)))"

fun groupLoop :: "CommissionAccrual list \<Rightarrow> string list \<Rightarrow> econ_failure + AccrualWithBalance list" where
  "groupLoop rows [] = Inr []"
| "groupLoop rows (rootId # ids) =
     (let entries = filter (\<lambda>r. ca_accrualRootId r = rootId) rows in
      case find (\<lambda>r. l_entryType (ca_columns r) = ACCRUAL) entries of
        None \<Rightarrow> groupLoop rows ids
      | Some r \<Rightarrow>
          (let sorted_entries = sort_key ca_createdAt entries in
           ebind (chain_balance sorted_entries) (\<lambda>balance.
           ebind (groupLoop rows ids) (\<lambda>rest.
           Inr (\<lparr>ab_accrualRootId = rootId, ab_root = r, ab_balance = balance,
                 ab_entries = sorted_entries\<rparr> # rest)))))"

definition groupIntoAccruals :: "CommissionAccrual list \<Rightarrow> econ_failure + AccrualWithBalance list" where
  "groupIntoAccruals rows = groupLoop rows (root_ids rows)"

definition toCapFloorStatus ::
  "CommissionSchedule \<Rightarrow> int \<Rightarrow> econ_failure + ScheduleCapFloorStatus option" where
  "toCapFloorStatus schedule cumulative =
     (if cs_capMinor schedule = None \<and> cs_floorMinor schedule = None then Inr None
      else ebind (engine (evaluateScheduleCapFloor
             \<lparr>capMinor = cs_capMinor schedule, floorMinor = cs_floorMinor schedule,
              cumulativeDistributedMinor = cumulative\<rparr>)) (\<lambda>st. Inr (Some st)))"

text \<open>\<open>x ? parseBigIntMinorUnits(x) : null\<close>.\<close>

definition parse_optional :: "string option \<Rightarrow> string \<Rightarrow> econ_failure + int option" where
  "parse_optional v f =
     (if truthy v then ebind (money (parseBigIntMinorUnits v f)) (\<lambda>n. Inr (Some n)) else Inr None)"

section \<open>Schedules\<close>

definition toComponentInput ::
  "Actor \<Rightarrow> string \<Rightarrow> ComponentRequest \<Rightarrow> econ_failure + CreateCommissionComponentInput" where
  "toComponentInput actor sid c =
     ebind (parse_optional (rq_fixedAmountMinor c) ''component.fixedAmountMinor'') (\<lambda>fixed.
     Inr \<lparr>icc_scheduleId = sid, icc_recipientType = rq_recipientType c,
          icc_recipientOrgId = rq_recipientOrgId c, icc_componentType = rq_componentType c,
          icc_bps = rq_bps c, icc_fixedAmountMinor = fixed,
          icc_calculationBasis = rq_calculationBasis c, icc_priority = rq_priority c,
          icc_claimId = rq_claimId c, icc_createdByUserId = Some (userId actor),
          icc_createdByOrgId = organizationId actor\<rparr>)"

definition checkComponentBps :: "ComponentRequest \<Rightarrow> econ_failure + unit" where
  "checkComponentBps c =
     (case rq_bps c of None \<Rightarrow> Inr () | Some b \<Rightarrow> money (assertIntegerBps b ''component.bps'' 10000))"

definition loadPrevious ::
  "Store \<Rightarrow> string \<Rightarrow> string option \<Rightarrow> econ_failure + CommissionSchedule option" where
  "loadPrevious snap dealRoomId supersedes =
     (if \<not> truthy supersedes then Inr None
      else case schedule_findById snap (the supersedes) of
        None \<Rightarrow> Inl (bad SupersedesUnknown)
      | Some previous \<Rightarrow>
          ebind (throw_if (cs_dealRoomId previous \<noteq> dealRoomId) (bad SupersedesUnknown)) (\<lambda>_.
          ebind (throw_if (cs_status previous \<noteq> Sch_ACTIVE)
            (bad (SupersedesNotActive (cs_status previous)))) (\<lambda>_.
          ebind (map_err Transition (assertValidCommissionScheduleTransition
            (commissionScheduleStatus_name (cs_status previous)) ''SUPERSEDED'')) (\<lambda>_.
          Inr (Some previous)))))"

definition createSchedule ::
  "Env \<Rightarrow> Actor \<Rightarrow> string \<Rightarrow> CreateScheduleRequest \<Rightarrow> RequestContext \<Rightarrow> Store \<Rightarrow> Store \<Rightarrow>
   econ_failure + Store \<times> ScheduleDetail" where
  "createSchedule env actor dealRoomId inp ctx snap db =
     ebind (loadDealRoom snap dealRoomId) (\<lambda>dealRoom.
     ebind (authorize actor A_schedule_manage R_commission_schedule
       (Some (dr_merchantOrgId dealRoom)) no_context) (\<lambda>_.
     ebind (parse_optional (rq_capMinor inp) ''capMinor'') (\<lambda>cap.
     ebind (parse_optional (rq_floorMinor inp) ''floorMinor'') (\<lambda>flr.
     ebind (case (cap, flr) of
              (Some c, Some f) \<Rightarrow> throw_if (c < f) (bad (CapBelowFloor c f))
            | _ \<Rightarrow> Inr ()) (\<lambda>_.
     ebind (loadPrevious snap dealRoomId (rq_supersedesScheduleId inp)) (\<lambda>previous.
     ebind (store (schedule_create env
       \<lparr>ics_dealRoomId = dealRoomId, ics_basis = rq_basis inp, ics_status = Sch_DRAFT,
        ics_capMinor = cap, ics_floorMinor = flr, ics_survivalMonths = rq_survivalMonths inp,
        ics_description = rq_description inp, ics_previousVersionId = map_option cs_id previous,
        ics_createdByUserId = Some (userId actor), ics_createdByOrgId = organizationId actor\<rparr> db))
       (\<lambda>(schedule, db).
     ebind (map_err Transition (assertValidCommissionScheduleTransition ''DRAFT'' ''ACTIVE'')) (\<lambda>_.
     ebind (store (schedule_updateStatus (cs_id schedule) Sch_ACTIVE (Some (userId actor)) db))
       (\<lambda>(activated, db).
     ebind (efor checkComponentBps (rq_components inp)) (\<lambda>_.
     ebind (emap (toComponentInput actor (cs_id schedule)) (rq_components inp)) (\<lambda>inputs.
     ebind (store (component_createMany env inputs db)) (\<lambda>(comps, db).
     ebind (case previous of
              None \<Rightarrow> Inr db
            | Some p \<Rightarrow> ebind (store (schedule_updateStatus (cs_id p) Sch_SUPERSEDED
                          (Some (userId actor)) db)) (\<lambda>(_, db). Inr db)) (\<lambda>db.
     let db = audit_write env (Some ctx) (audit_by actor (Some (dr_merchantOrgId dealRoom))
           ''economics.schedule_created'' ''commission_schedule'' (cs_id activated)
           [(''dealRoomId'', JStr dealRoomId),
            (''basis'', JStr (commissionBasis_name (cs_basis activated))),
            (''versionNumber'', JNum (cs_versionNumber activated)),
            (''componentCount'', JNum (int (length comps))),
            (''supersedes'', case previous of None \<Rightarrow> JNull | Some p \<Rightarrow> JStr (cs_id p))]) db;
         db = timeline_write env (Some ctx) (event_by actor
           (if previous = None then ''economics.schedule_created'' else ''economics.schedule_superseded'')
           ''deal_room'' dealRoomId
           [(''scheduleId'', JStr (cs_id activated)),
            (''versionNumber'', JNum (cs_versionNumber activated)),
            (''basis'', JStr (commissionBasis_name (cs_basis activated)))]) db
     in ebind (toCapFloorStatus activated 0) (\<lambda>status.
        Inr (db, \<lparr>sd_schedule = activated, sd_components = comps, sd_capFloorStatus = status\<rparr>)))))))))))))))"

definition scheduleDetail :: "Store \<Rightarrow> CommissionSchedule \<Rightarrow> econ_failure + ScheduleDetail" where
  "scheduleDetail db schedule =
     (let cumulative = (if cs_capMinor schedule = None \<and> cs_floorMinor schedule = None then 0
                        else sumAccrualAmountByScheduleId db (cs_id schedule)) in
      ebind (toCapFloorStatus schedule cumulative) (\<lambda>status.
      Inr \<lparr>sd_schedule = schedule, sd_components = component_listBySchedule db (cs_id schedule),
           sd_capFloorStatus = status\<rparr>))"

definition listSchedules :: "Actor \<Rightarrow> string \<Rightarrow> Store \<Rightarrow> econ_failure + ScheduleDetail list" where
  "listSchedules actor dealRoomId db =
     ebind (loadDealRoom db dealRoomId) (\<lambda>dealRoom.
     ebind (authorize actor A_schedule_list R_commission_schedule
       (Some (dr_merchantOrgId dealRoom)) no_context) (\<lambda>_.
     emap (scheduleDetail db) (schedule_listByDealRoom db dealRoomId)))"

section \<open>Revenue events\<close>

definition toComponentInputs :: "CommissionComponent list \<Rightarrow> EconomicsComponentInput list" where
  "toComponentInputs cs = map (\<lambda>c. \<lparr>componentId = cc_id c, recipientOrgId = cc_recipientOrgId c,
     componentType = cc_componentType c, bps = cc_bps c, fixedAmountMinor = cc_fixedAmountMinor c,
     claimId = cc_claimId c, priority = cc_priority c\<rparr>) cs"

definition basisOverrides :: "CommissionComponent list \<Rightarrow> string \<rightharpoonup> CommissionBasis option" where
  "basisOverrides cs = map_of (rev (map (\<lambda>c. (cc_id c, cc_calculationBasis c)) cs))"

text \<open>The ledger rows of a computed split, with the columns they share.\<close>

definition accrualInput ::
  "LedgerColumns \<Rightarrow> ComputedLedgerEntry \<Rightarrow> CreateCommissionAccrualInput" where
  "accrualInput shared e =
     \<lparr>ica_accrualRootId = None,
      ica_columns = shared\<lparr>l_direction := entry_direction e, l_amountMinor := entry_amountMinor e,
        l_componentId := entry_componentId e, l_recipientOrgId := entry_recipientOrgId e,
        l_claimId := entry_claimId e\<rparr>\<rparr>"

definition accrual_columns ::
  "RevenueEvent \<Rightarrow> CommissionSchedule \<Rightarrow> ComputeCommissionSplitsResult \<Rightarrow> string option \<Rightarrow>
   string option \<Rightarrow> LedgerColumns" where
  "accrual_columns ev schedule split user org =
     \<lparr>l_entryType = ACCRUAL, l_direction = CREDIT, l_amountMinor = 0, l_currency = re_currency ev,
      l_dealRoomId = re_dealRoomId ev, l_revenueEventId = re_id ev, l_scheduleId = cs_id schedule,
      l_scheduleVersion = cs_versionNumber schedule, l_componentId = [], l_recipientOrgId = [],
      l_claimId = None, l_paymentId = None, l_reason = None, l_approverUserId = None,
      l_approverOrgId = None, l_calculationVersion = calculationVersion split,
      l_inputVersions = result_inputVersions split, l_computedAt = re_recognizedAt ev,
      l_createdByUserId = user, l_createdByOrgId = org\<rparr>"

definition activeScheduleFor :: "Store \<Rightarrow> string \<Rightarrow> CommissionBasis \<Rightarrow> econ_failure + CommissionSchedule" where
  "activeScheduleFor snap dealRoomId basis =
     (case find (\<lambda>s. cs_basis s = basis) (schedule_listActiveByDealRoom snap dealRoomId) of
        None \<Rightarrow> Inl (bad (NoActiveScheduleForBasis basis))
      | Some schedule \<Rightarrow> Inr schedule)"

definition parseDeductions :: "string option \<Rightarrow> econ_failure + int" where
  "parseDeductions deductions =
     (if truthy deductions then money (parseBigIntMinorUnits deductions ''deductionsMinor'') else Inr 0)"

definition recordRevenueEvent ::
  "Env \<Rightarrow> Actor \<Rightarrow> string \<Rightarrow> RecordRevenueEventRequest \<Rightarrow> RequestContext \<Rightarrow> Store \<Rightarrow> Store \<Rightarrow>
   econ_failure + Store \<times> RevenueEvent \<times> CommissionAccrual list \<times> RevenueEventReconciliation" where
  "recordRevenueEvent env actor dealRoomId inp ctx snap db =
     ebind (loadDealRoom snap dealRoomId) (\<lambda>dealRoom.
     ebind (authorize actor A_economics_record R_revenue_event
       (Some (dr_merchantOrgId dealRoom)) no_context) (\<lambda>_.
     ebind (throw_if (dr_status dealRoom \<notin> set ECONOMICS_ELIGIBLE_DEAL_STATUSES)
       (bad (DealNotEligible (dr_status dealRoom)))) (\<lambda>_.
     ebind (money (assertCurrencyCode (rv_currency inp) ''currency'')) (\<lambda>_.
     ebind (throw_if (revenueEvent_findByDealPeriodSource snap dealRoomId (rv_period inp) (rv_source inp)
         \<noteq> None) (Problem (conflict False))) (\<lambda>_.
     ebind (activeScheduleFor snap dealRoomId (rv_basis inp)) (\<lambda>schedule.
     ebind (money (parseBigIntMinorUnits (Some (rv_grossAmountMinor inp)) ''grossAmountMinor'')) (\<lambda>gross.
     ebind (parseDeductions (rv_deductionsMinor inp)) (\<lambda>deductions.
     let net = gross - deductions in
     ebind (throw_if (net < 0) (bad DeductionsExceedGross)) (\<lambda>_.
     let allComponents = component_listBySchedule snap (cs_id schedule);
         targeted = selectComponentsForBasis (toComponentInputs allComponents) (cs_basis schedule)
           (rv_basis inp) (basisOverrides allComponents);
         recognizedAt = (case rv_recognizedAt inp of Some t \<Rightarrow> t | None \<Rightarrow> clock env)
     in
     ebind (throw_if (targeted = []) (bad (NoComponentsForBasis (cs_id schedule) (rv_basis inp)))) (\<lambda>_.
     ebind (map_err (\<lambda>e. case e of EconMoney m \<Rightarrow> MoneyFailure m | _ \<Rightarrow> bad (CannotSplit e))
       (computeCommissionSplits \<lparr>netDistributableMinor = net, components = targeted,
          scheduleId = cs_id schedule, scheduleVersion = cs_versionNumber schedule,
          now = recognizedAt, inputVersions = None\<rparr>)) (\<lambda>split.
     ebind (store (revenueEvent_create env
       \<lparr>re_dealRoomId = dealRoomId, re_scheduleId = cs_id schedule, re_basis = rv_basis inp,
        re_period = rv_period inp, re_source = rv_source inp, re_grossAmountMinor = gross,
        re_deductionsMinor = deductions, re_netDistributableMinor = net,
        re_currency = rv_currency inp, re_recognizedAt = recognizedAt,
        re_createdByUserId = Some (userId actor), re_createdByOrgId = organizationId actor\<rparr> db))
       (\<lambda>(ev, db).
     ebind (store (accrual_createMany env (map (accrualInput (accrual_columns ev schedule split
         (Some (userId actor)) (organizationId actor))) (result_entries split)) db)) (\<lambda>(entries, db).
     let db = audit_write env (Some ctx) (audit_by actor (Some (dr_merchantOrgId dealRoom))
           ''commission.accrued'' ''revenue_event'' (re_id ev)
           [(''dealRoomId'', JStr dealRoomId), (''period'', JStr (rv_period inp)),
            (''source'', JStr (rv_source inp)), (''netDistributableMinor'', JStr (decimal net)),
            (''entryCount'', JNum (int (length entries))),
            (''calculationVersion'', JStr (calculationVersion split))]) db;
         db = timeline_write env (Some ctx) (event_by actor ''commission.accrued'' ''deal_room'' dealRoomId
           [(''revenueEventId'', JStr (re_id ev)), (''scheduleId'', JStr (cs_id schedule)),
            (''netDistributableMinor'', JStr (decimal net)),
            (''entryCount'', JNum (int (length entries)))]) db;
         db = db\<lparr>db_jobs := db_jobs db @ [re_id ev]\<rparr>
     in Inr (db, ev, entries, reconcileRevenueEvent
          \<lparr>grossAmountMinor = re_grossAmountMinor ev, deductionsMinor = re_deductionsMinor ev,
           recon_netDistributableMinor = re_netDistributableMinor ev,
           ledgerEntries = map ledger_entry entries\<rparr>))))))))))))))"

definition listRevenueEvents :: "Actor \<Rightarrow> string \<Rightarrow> Store \<Rightarrow> econ_failure + RevenueEvent list" where
  "listRevenueEvents actor dealRoomId db =
     ebind (loadDealRoom db dealRoomId) (\<lambda>dealRoom.
     ebind (authorize actor A_economics_list R_revenue_event
       (Some (dr_merchantOrgId dealRoom)) no_context) (\<lambda>_.
     Inr (revenueEvent_listByDealRoom db dealRoomId)))"

section \<open>The ledger\<close>

definition getLedger :: "Actor \<Rightarrow> string \<Rightarrow> Store \<Rightarrow> econ_failure + AccrualWithBalance list" where
  "getLedger actor dealRoomId db =
     ebind (loadDealRoom db dealRoomId) (\<lambda>_.
     let isCrossOrg = (case role actor of None \<Rightarrow> False | Some r \<Rightarrow> r \<in> set CROSS_ORG_ECONOMICS_ROLES);
         allRows = accrual_listByDealRoom db dealRoomId;
         isRecipient = (case organizationId actor of None \<Rightarrow> False
           | Some org \<Rightarrow> \<exists>r \<in> set allRows. l_recipientOrgId (ca_columns r) = org);
         participant = (\<not> isCrossOrg \<and>
           (case role actor of None \<Rightarrow> False | Some r \<Rightarrow> r \<in> set LEDGER_PARTY_ROLES) \<and> isRecipient)
     in
     ebind (authorize actor A_ledger_list R_commission_accrual None
       \<lparr>isSelf = False, isParticipant = participant\<rparr>) (\<lambda>_.
     let visibleRows = (if isCrossOrg then allRows
           else filter (\<lambda>r. Some (l_recipientOrgId (ca_columns r)) = organizationId actor) allRows)
     in groupIntoAccruals visibleRows))"

section \<open>Payments\<close>

text \<open>The ledger row of one item of a batch.\<close>

definition paymentInput ::
  "Actor \<Rightarrow> string \<Rightarrow> string \<Rightarrow> CommissionPayment \<Rightarrow> int \<Rightarrow> LoadedPayment \<Rightarrow> CreateCommissionAccrualInput" where
  "paymentInput actor dealRoomId currency payment paidAt l =
     (let r = ca_columns (lp_root l) in
      \<lparr>ica_accrualRootId = Some (lp_accrualRootId l),
       ica_columns =
         \<lparr>l_entryType = PAYMENT, l_direction = DEBIT, l_amountMinor = lp_amountMinor l,
          l_currency = currency, l_dealRoomId = dealRoomId, l_revenueEventId = l_revenueEventId r,
          l_scheduleId = l_scheduleId r, l_scheduleVersion = l_scheduleVersion r,
          l_componentId = l_componentId r, l_recipientOrgId = l_recipientOrgId r,
          l_claimId = l_claimId r, l_paymentId = Some (cp_id payment), l_reason = None,
          l_approverUserId = None, l_approverOrgId = None,
          l_calculationVersion = ECONOMICS_ENGINE_VERSION,
          l_inputVersions = [''payment:'' @ cp_id payment], l_computedAt = paidAt,
          l_createdByUserId = Some (userId actor), l_createdByOrgId = organizationId actor\<rparr>\<rparr>)"

definition recordPayment ::
  "Env \<Rightarrow> Actor \<Rightarrow> string \<Rightarrow> RecordPaymentRequest \<Rightarrow> RequestContext \<Rightarrow> Store \<Rightarrow> Store \<Rightarrow>
   econ_failure + Store \<times> CommissionPayment \<times> CommissionAccrual list" where
  "recordPayment env actor dealRoomId inp ctx snap db =
     ebind (loadDealRoom snap dealRoomId) (\<lambda>dealRoom.
     ebind (authorize actor A_ledger_record_payment R_commission_accrual None no_context) (\<lambda>_.
     ebind (loadAndValidatePayments snap dealRoomId (rp_payments inp)) (\<lambda>loaded.
     ebind (validateSingleRecipientAndCurrency loaded) (\<lambda>_.
     let paidAt = (case rp_paidAt inp of Some t \<Rightarrow> t | None \<Rightarrow> clock env) in
     runUniqueConstraintSafe (
     ebind (loadAndValidatePayments db dealRoomId (rp_payments inp)) (\<lambda>freshLoaded.
     ebind (validateSingleRecipientAndCurrency freshLoaded) (\<lambda>(recipient, currency).
     let total = sum_list (map lp_amountMinor freshLoaded) in
     ebind (store (payment_create env
       \<lparr>cp_dealRoomId = dealRoomId, cp_recipientOrgId = recipient, cp_totalAmountMinor = total,
        cp_currency = currency, cp_paidAt = paidAt, cp_reference = rp_reference inp,
        cp_evidenceRef = rp_evidenceRef inp, cp_createdByUserId = Some (userId actor),
        cp_createdByOrgId = organizationId actor\<rparr> db)) (\<lambda>(payment, db).
     ebind (store (accrual_createMany env
       (map (paymentInput actor dealRoomId currency payment paidAt) freshLoaded) db)) (\<lambda>(entries, db).
     let db = audit_write env (Some ctx) (audit_by actor (Some (dr_merchantOrgId dealRoom))
           ''commission.paid'' ''commission_accrual'' (cp_id payment)
           [(''dealRoomId'', JStr dealRoomId), (''recipientOrgId'', JStr recipient),
            (''totalAmountMinor'', JStr (decimal total)),
            (''accrualCount'', JNum (int (length freshLoaded))),
            (''reference'', JStr (rp_reference inp))]) db;
         db = timeline_write env (Some ctx) (event_by actor ''commission.paid'' ''deal_room'' dealRoomId
           [(''paymentId'', JStr (cp_id payment)), (''recipientOrgId'', JStr recipient),
            (''totalAmountMinor'', JStr (decimal total)),
            (''accrualRootIds'', JStrs (map lp_accrualRootId freshLoaded))]) db
     in Inr (db, payment, entries))))))))))"

section \<open>Adjustments\<close>

text \<open>The check made before and again inside the transaction.\<close>

definition loadAdjustable ::
  "Store \<Rightarrow> string \<Rightarrow> string \<Rightarrow> econ_failure + CommissionAccrual list" where
  "loadAdjustable db dealRoomId rootId =
     (let chain = accrual_listByAccrualRoot db rootId in
      ebind (throw_if (chain = [] \<or> l_dealRoomId (ca_columns (hd chain)) \<noteq> dealRoomId)
        (Problem notFound)) (\<lambda>_.
      ebind (chain_balance chain) (\<lambda>balance.
      ebind (throw_if (balance_status balance = REVERSED) (bad (AccrualReversed rootId))) (\<lambda>_.
      Inr chain))))"

definition adjustmentInput ::
  "Env \<Rightarrow> Actor \<Rightarrow> string \<Rightarrow> string \<Rightarrow> AdjustLedgerRequest \<Rightarrow> int \<Rightarrow> CommissionAccrual \<Rightarrow>
   CreateCommissionAccrualInput" where
  "adjustmentInput env actor dealRoomId rootId inp amount freshRoot =
     (let r = ca_columns freshRoot in
      \<lparr>ica_accrualRootId = Some rootId,
       ica_columns =
         \<lparr>l_entryType = ADJUSTMENT, l_direction = ra_direction inp, l_amountMinor = amount,
          l_currency = l_currency r, l_dealRoomId = dealRoomId,
          l_revenueEventId = l_revenueEventId r, l_scheduleId = l_scheduleId r,
          l_scheduleVersion = l_scheduleVersion r, l_componentId = l_componentId r,
          l_recipientOrgId = l_recipientOrgId r, l_claimId = l_claimId r, l_paymentId = None,
          l_reason = Some (ra_reason inp), l_approverUserId = Some (userId actor),
          l_approverOrgId = organizationId actor, l_calculationVersion = ECONOMICS_ENGINE_VERSION,
          l_inputVersions = [''adjustment:'' @ rootId @ '':'' @ toISOString env (clock env)],
          l_computedAt = clock env, l_createdByUserId = Some (userId actor),
          l_createdByOrgId = organizationId actor\<rparr>\<rparr>)"

text \<open>The balance of the response is computed after the commit, from the rows read in the
  transaction and the new one.\<close>

definition adjustLedger ::
  "Env \<Rightarrow> Actor \<Rightarrow> string \<Rightarrow> string \<Rightarrow> AdjustLedgerRequest \<Rightarrow> RequestContext \<Rightarrow> Store \<Rightarrow> Store \<Rightarrow>
   econ_failure + Store \<times> CommissionAccrual \<times> AccrualBalance" where
  "adjustLedger env actor dealRoomId rootId inp ctx snap db =
     ebind (loadDealRoom snap dealRoomId) (\<lambda>dealRoom.
     ebind (authorize actor A_ledger_adjust R_commission_accrual None no_context) (\<lambda>_.
     ebind (loadAdjustable snap dealRoomId rootId) (\<lambda>_.
     ebind (money (parseBigIntMinorUnits (Some (ra_amountMinor inp)) ''amountMinor'')) (\<lambda>amount.
     ebind (throw_if (amount \<le> 0) (bad AdjustmentNotPositive)) (\<lambda>_.
     ebind (loadAdjustable db dealRoomId rootId) (\<lambda>freshChain.
     ebind (store (accrual_create env
       (adjustmentInput env actor dealRoomId rootId inp amount (hd freshChain)) db)) (\<lambda>(entry, db).
     let db = audit_write env (Some ctx) (audit_by actor (Some (dr_merchantOrgId dealRoom))
           ''commission.adjusted'' ''commission_accrual'' (ca_id entry)
           [(''accrualRootId'', JStr rootId),
            (''direction'', JStr (ledgerDirection_name (ra_direction inp))),
            (''amountMinor'', JStr (decimal amount)), (''reason'', JStr (ra_reason inp))]) db;
         db = timeline_write env (Some ctx) (event_by actor ''commission.adjusted'' ''deal_room'' dealRoomId
           [(''accrualRootId'', JStr rootId),
            (''direction'', JStr (ledgerDirection_name (ra_direction inp))),
            (''amountMinor'', JStr (decimal amount))]) db
     in ebind (chain_balance (freshChain @ [entry])) (\<lambda>balance.
        Inr (db, entry, balance)))))))))"

end
