(* ===== verification/Economics_Accrual_Job.thy ===== *)
theory Economics_Accrual_Job
  imports Economics_Service Idempotency
begin

text \<open>
  \<open>apps/worker/src/jobs/economics-accrual.job.ts\<close>: the reconciliation job the revenue-event
  operation enqueues. It runs in one transaction that holds the lock of the revenue event and
  writes the missing accruals of an event that has none. \<open>hashPayload\<close> stands for the digest of the
  request payload; log output is not modelled.
\<close>

datatype AccrualJobStatus = already_accrued | accrued | skipped_no_active_schedule

record EconomicsAccrualJobResult =
  job_status :: AccrualJobStatus
  job_entryCount :: nat

definition skipped :: EconomicsAccrualJobResult where
  "skipped = \<lparr>job_status = skipped_no_active_schedule, job_entryCount = 0\<rparr>"

text \<open>The handler that runs under the job's idempotency key.\<close>

definition accrueMissing ::
  "Env \<Rightarrow> DealRoom \<Rightarrow> CommissionSchedule \<Rightarrow> RevenueEvent \<Rightarrow> Store \<Rightarrow>
   job_error + EconomicsAccrualJobResult \<times> Store" where
  "accrueMissing env dealRoom schedule ev db =
     (let allComponents = component_listBySchedule db (cs_id schedule);
          targeted = selectComponentsForBasis (toComponentInputs allComponents) (cs_basis schedule)
            (re_basis ev) (basisOverrides allComponents)
      in
      ebind (throw_if (targeted = []) (JobFailed ''no components for basis'')) (\<lambda>_.
      ebind (map_err (\<lambda>e. JobFailed ''split'') (computeCommissionSplits
        \<lparr>netDistributableMinor = re_netDistributableMinor ev, components = targeted,
         scheduleId = cs_id schedule, scheduleVersion = cs_versionNumber schedule,
         now = re_recognizedAt ev, inputVersions = None\<rparr>)) (\<lambda>split.
      ebind (map_err (\<lambda>e. JobFailed ''ledger row'') (accrual_createMany env
        (map (accrualInput (accrual_columns ev schedule split None None)) (result_entries split)) db))
        (\<lambda>(entries, db).
      let db = audit_write env None \<lparr>au_actorUserId = None, au_actorOrgId = None, au_actorRole = None,
            au_subjectOrgId = Some (dr_merchantOrgId dealRoom), au_action = ''commission.accrued'',
            au_resourceType = ''revenue_event'', au_resourceId = Some (re_id ev), au_beforeValue = None,
            au_afterValue = Some [(''dealRoomId'', JStr (re_dealRoomId ev)),
              (''netDistributableMinor'', JStr (decimal (re_netDistributableMinor ev))),
              (''entryCount'', JNum (int (length entries))),
              (''calculationVersion'', JStr (calculationVersion split)),
              (''trigger'', JStr ''worker_reconciliation'')], au_reason = None\<rparr> db;
          db = timeline_write env None \<lparr>tl_eventType = ''commission.accrued'',
            tl_aggregateType = ''deal_room'', tl_aggregateId = re_dealRoomId ev,
            tl_payload = [(''revenueEventId'', JStr (re_id ev)), (''scheduleId'', JStr (cs_id schedule)),
              (''netDistributableMinor'', JStr (decimal (re_netDistributableMinor ev))),
              (''entryCount'', JNum (int (length entries)))],
            tl_actorUserId = None, tl_actorOrgId = None, tl_actorRole = None\<rparr> db
      in Inr (\<lparr>job_status = accrued, job_entryCount = length entries\<rparr>, db)))))"

definition economicsAccrualJob ::
  "Env \<Rightarrow> string \<Rightarrow> (string \<Rightarrow> string \<Rightarrow> int \<Rightarrow> string) \<Rightarrow> string \<Rightarrow> Store \<Rightarrow>
   EconomicsAccrualJobResult IdempotencyKey list \<Rightarrow> Store \<Rightarrow>
   job_error + EconomicsAccrualJobResult IdempotencyKey list \<times> Store \<times> EconomicsAccrualJobResult" where
  "economicsAccrualJob env keyId hashPayload revenueEventId snap tab db =
     (if revenueEvent_findById snap revenueEventId = None then Inr (tab, db, skipped)
      else case revenueEvent_findById db revenueEventId of
        None \<Rightarrow> Inr (tab, db, skipped)
      | Some ev \<Rightarrow>
          (let existing = accrual_listByRevenueEvent db revenueEventId in
           if existing \<noteq> [] then
             Inr (tab, db, \<lparr>job_status = already_accrued, job_entryCount = length existing\<rparr>)
           else case dealRoom_findById db (re_dealRoomId ev) of
             None \<Rightarrow> Inl (JobFailed ''deal room missing'')
           | Some dealRoom \<Rightarrow>
               (case schedule_findById db (re_scheduleId ev) of
                  None \<Rightarrow> Inr (tab, db, skipped)
                | Some schedule \<Rightarrow>
                    if cs_status schedule \<noteq> Sch_ACTIVE then Inr (tab, db, skipped)
                    else withJobIdempotency keyId (clock env) ''worker.economics-accrual'' revenueEventId
                      (hashPayload revenueEventId (cs_id schedule) (cs_versionNumber schedule))
                      (accrueMissing env dealRoom schedule ev) tab db)))"

end
