(* ===== verification/Economics_Ledger.thy ===== *)
theory Economics_Ledger
  imports Economics_Accrual_Job
begin

text \<open>
  The economics module as a state machine: the committed effect of each operation, the invariant
  of the tables under every interleaving of requests, and the properties of the ledger that rest
  on it.
\<close>

section \<open>What the repositories write\<close>

definition accrual_row :: "Env \<Rightarrow> nat \<Rightarrow> CreateCommissionAccrualInput \<Rightarrow> CommissionAccrual" where
  "accrual_row env n inp =
     \<lparr>ca_id = uuid env n,
      ca_accrualRootId = (if l_entryType (ica_columns inp) = ACCRUAL then uuid env n
                          else the (ica_accrualRootId inp)),
      ca_columns = ica_columns inp, ca_createdAt = clock env\<rparr>"

fun accrual_rows :: "Env \<Rightarrow> nat \<Rightarrow> CreateCommissionAccrualInput list \<Rightarrow> CommissionAccrual list" where
  "accrual_rows env n [] = []"
| "accrual_rows env n (i # is) = accrual_row env n i # accrual_rows env (Suc n) is"

lemma accrual_create_result:
  "accrual_create env inp db = Inr (row, db') \<longleftrightarrow>
     checkAccrualInput inp = Inr () \<and> row = accrual_row env (db_ids db) inp \<and>
     db' = db\<lparr>db_accruals := db_accruals db @ [row], db_ids := Suc (db_ids db)\<rparr>"
  by (auto simp: accrual_create_def newId_def Let_def accrual_row_def ebind_eq_Inr)

lemma accrual_createMany_result:
  "accrual_createMany env ins db = Inr (rows, db') \<longleftrightarrow>
     (\<forall>i \<in> set ins. checkAccrualInput i = Inr ()) \<and> rows = accrual_rows env (db_ids db) ins \<and>
     db' = db\<lparr>db_accruals := db_accruals db @ rows, db_ids := db_ids db + length ins\<rparr>"
proof (induction ins arbitrary: db rows db')
  case Nil
  then show ?case by (auto simp: accrual_createMany_def)
next
  case (Cons i ins)
  have *: "create_many (accrual_create env) ins d = Inr (rs, d') \<longleftrightarrow>
     (\<forall>i \<in> set ins. checkAccrualInput i = Inr ()) \<and> rs = accrual_rows env (db_ids d) ins \<and>
     d' = d\<lparr>db_accruals := db_accruals d @ rs, db_ids := db_ids d + length ins\<rparr>" for d rs d'
    using Cons.IH by (simp add: accrual_createMany_def)
  show ?case
    by (auto simp: accrual_createMany_def ebind_eq_Inr accrual_create_result *)
qed

lemma length_accrual_rows [simp]: "length (accrual_rows env n ins) = length ins"
  by (induction ins arbitrary: n) auto

lemma accrual_rows_nth:
  "k < length ins \<Longrightarrow> accrual_rows env n ins ! k = accrual_row env (n + k) (ins ! k)"
proof (induction ins arbitrary: n k)
  case (Cons i ins)
  then show ?case by (cases k) auto
qed simp

lemma accrual_row_columns [simp]: "ca_columns (accrual_row env n i) = ica_columns i"
  by (simp add: accrual_row_def)

lemma accrual_row_id [simp]: "ca_id (accrual_row env n i) = uuid env n"
  by (simp add: accrual_row_def)

lemma accrual_rows_columns: "map ca_columns (accrual_rows env n ins) = map ica_columns ins"
  by (induction ins arbitrary: n) auto

lemma accrual_rows_ids: "map ca_id (accrual_rows env n ins) = map (uuid env) [n..<n + length ins]"
proof (induction ins arbitrary: n)
  case (Cons i ins)
  have "[n..<n + length (i # ins)] = n # [Suc n..<Suc n + length ins]"
    by (simp add: upt_conv_Cons del: upt_Suc)
  then show ?case using Cons by simp
qed simp

lemma accrual_rowsE:
  assumes "r \<in> set (accrual_rows env n ins)"
  obtains k i where "k < length ins" "i \<in> set ins" "r = accrual_row env (n + k) i"
  using assms by (metis in_set_conv_nth accrual_rows_nth length_accrual_rows)

definition payment_row :: "Env \<Rightarrow> nat \<Rightarrow> CreateCommissionPaymentInput \<Rightarrow> CommissionPayment" where
  "payment_row env n inp = CreateCommissionPaymentInput.extend inp (CommissionPayment.fields (uuid env n) (clock env))"

lemma payment_row_simps [simp]:
  "cp_id (payment_row env n inp) = uuid env n"
  "cp_dealRoomId (payment_row env n inp) = cp_dealRoomId inp"
  "cp_recipientOrgId (payment_row env n inp) = cp_recipientOrgId inp"
  "cp_totalAmountMinor (payment_row env n inp) = cp_totalAmountMinor inp"
  "cp_currency (payment_row env n inp) = cp_currency inp"
  "cp_reference (payment_row env n inp) = cp_reference inp"
  by (simp_all add: payment_row_def CreateCommissionPaymentInput.defs CommissionPayment.defs)

lemma payment_create_result:
  "payment_create env inp db = Inr (row, db') \<longleftrightarrow>
     (\<forall>p \<in> set (db_payments db). cp_reference p \<noteq> cp_reference inp) \<and>
     row = payment_row env (db_ids db) inp \<and>
     db' = db\<lparr>db_payments := db_payments db @ [row], db_ids := Suc (db_ids db)\<rparr>"
  by (auto simp: payment_create_def newId_def Let_def payment_row_def ebind_eq_Inr)

definition event_row :: "Env \<Rightarrow> nat \<Rightarrow> CreateRevenueEventInput \<Rightarrow> RevenueEvent" where
  "event_row env n inp = CreateRevenueEventInput.extend inp (RevenueEvent.fields (uuid env n) (clock env))"

lemma event_row_simps [simp]:
  "re_id (event_row env n inp) = uuid env n"
  "re_dealRoomId (event_row env n inp) = re_dealRoomId inp"
  "re_scheduleId (event_row env n inp) = re_scheduleId inp"
  "re_period (event_row env n inp) = re_period inp"
  "re_source (event_row env n inp) = re_source inp"
  "re_grossAmountMinor (event_row env n inp) = re_grossAmountMinor inp"
  "re_deductionsMinor (event_row env n inp) = re_deductionsMinor inp"
  "re_netDistributableMinor (event_row env n inp) = re_netDistributableMinor inp"
  "re_currency (event_row env n inp) = re_currency inp"
  by (simp_all add: event_row_def CreateRevenueEventInput.defs RevenueEvent.defs)

lemma revenueEvent_create_result:
  "revenueEvent_create env inp db = Inr (row, db') \<longleftrightarrow>
     0 \<le> re_grossAmountMinor inp \<and> 0 \<le> re_deductionsMinor inp \<and> 0 \<le> re_netDistributableMinor inp \<and>
     (\<forall>e \<in> set (db_revenueEvents db). \<not> (re_dealRoomId e = re_dealRoomId inp \<and>
        re_period e = re_period inp \<and> re_source e = re_source inp)) \<and>
     row = event_row env (db_ids db) inp \<and>
     db' = db\<lparr>db_revenueEvents := db_revenueEvents db @ [row], db_ids := Suc (db_ids db)\<rparr>"
  by (auto simp: revenueEvent_create_def newId_def Let_def event_row_def ebind_eq_Inr
      revenueEvent_findByDealPeriodSource_def find_None_iff)

lemma writes_simps [simp]:
  "db_accruals (audit_write env c a db) = db_accruals db"
  "db_revenueEvents (audit_write env c a db) = db_revenueEvents db"
  "db_payments (audit_write env c a db) = db_payments db"
  "db_schedules (audit_write env c a db) = db_schedules db"
  "db_components (audit_write env c a db) = db_components db"
  "db_dealRooms (audit_write env c a db) = db_dealRooms db"
  "db_jobs (audit_write env c a db) = db_jobs db"
  "db_timeline (audit_write env c a db) = db_timeline db"
  "db_ids (audit_write env c a db) = Suc (db_ids db)"
  "db_accruals (timeline_write env c t db) = db_accruals db"
  "db_revenueEvents (timeline_write env c t db) = db_revenueEvents db"
  "db_payments (timeline_write env c t db) = db_payments db"
  "db_schedules (timeline_write env c t db) = db_schedules db"
  "db_components (timeline_write env c t db) = db_components db"
  "db_dealRooms (timeline_write env c t db) = db_dealRooms db"
  "db_jobs (timeline_write env c t db) = db_jobs db"
  "db_audit (timeline_write env c t db) = db_audit db"
  "db_ids (timeline_write env c t db) = Suc (db_ids db)"
  by (simp_all add: audit_write_def timeline_write_def newId_def)

section \<open>The committed effect of each operation\<close>

lemma chain_balance_result [result_simps]:
  "chain_balance c = Inr b \<longleftrightarrow> is_chain (map ledger_entry c) \<and>
     b = \<lparr>balance_status = derived_status (map ledger_entry c),
          originalAmountMinor = type_total ACCRUAL (map ledger_entry c),
          netAmountMinor = net_owed (map ledger_entry c),
          paidAmountMinor = type_total PAYMENT (map ledger_entry c),
          outstandingAmountMinor = still_owed (map ledger_entry c)\<rparr>"
  by (auto simp: chain_balance_def computeAccrualBalance_eq)

lemma derived_status_REVERSED [simp]: "derived_status es = REVERSED \<longleftrightarrow> has_type REVERSAL es"
  by (simp add: derived_status_def)

lemma loadPayment_result:
  assumes "loadPayment db d p = Inr l"
  defines "chain \<equiv> accrual_listByAccrualRoot db (pi_accrualRootId p)"
  shows "lp_accrualRootId l = pi_accrualRootId p" "lp_root l = hd chain" "chain \<noteq> []"
    "l_dealRoomId (ca_columns (hd chain)) = d" "is_chain (map ledger_entry chain)"
    "\<not> has_type REVERSAL (map ledger_entry chain)"
    "0 < lp_amountMinor l" "lp_amountMinor l \<le> still_owed (map ledger_entry chain)"
    "parseBigIntMinorUnits (Some (pi_amountMinor p)) ''payment.amountMinor'' = Inr (lp_amountMinor l)"
proof -
  obtain amount where *: "chain \<noteq> []" "l_dealRoomId (ca_columns (hd chain)) = d"
    "is_chain (map ledger_entry chain)" "\<not> has_type REVERSAL (map ledger_entry chain)"
    "parseBigIntMinorUnits (Some (pi_amountMinor p)) ''payment.amountMinor'' = Inr amount"
    "0 < amount" "amount \<le> still_owed (map ledger_entry chain)"
    "l = \<lparr>lp_accrualRootId = pi_accrualRootId p, lp_amountMinor = amount, lp_root = hd chain\<rparr>"
    using assms(1) [unfolded loadPayment_def Let_def, folded chain_def]
    by (auto simp: ebind_eq_Inr chain_balance_result)
  show "lp_accrualRootId l = pi_accrualRootId p" "lp_root l = hd chain" "chain \<noteq> []"
    "l_dealRoomId (ca_columns (hd chain)) = d" "is_chain (map ledger_entry chain)"
    "\<not> has_type REVERSAL (map ledger_entry chain)"
    "0 < lp_amountMinor l" "lp_amountMinor l \<le> still_owed (map ledger_entry chain)"
    "parseBigIntMinorUnits (Some (pi_amountMinor p)) ''payment.amountMinor'' = Inr (lp_amountMinor l)"
    using * by simp_all
qed

lemma loadPayments_roots:
  "loadAndValidatePayments db d ps = Inr ls \<Longrightarrow> map lp_accrualRootId ls = map pi_accrualRootId ps"
  unfolding loadAndValidatePayments_def emap_eq_Inr
  by (induction ps ls rule: list_all2_induct) (auto simp: loadPayment_result(1))

lemma loadPayments_loaded:
  assumes "loadAndValidatePayments db d ps = Inr ls" and "l \<in> set ls"
  obtains p where "p \<in> set ps" "loadPayment db d p = Inr l"
proof -
  have "list_all2 (\<lambda>p l. loadPayment db d p = Inr l) ps ls"
    using assms(1) by (simp add: loadAndValidatePayments_def emap_eq_Inr)
  moreover obtain k where "k < length ls" "l = ls ! k"
    using assms(2) by (auto simp: in_set_conv_nth)
  ultimately show thesis
    using that [of "ps ! k"] by (auto simp: list_all2_conv_all_nth)
qed

lemma recordPayment_effect:
  assumes "recordPayment env actor d inp ctx snap db = Inr (db', payment, entries)"
  obtains fresh recipient currency where
    "loadAndValidatePayments db d (rp_payments inp) = Inr fresh"
    "validateSingleRecipientAndCurrency fresh = Inr (recipient, currency)"
    "cp_id payment = uuid env (db_ids db)" "cp_reference payment = rp_reference inp"
    "cp_recipientOrgId payment = recipient" "cp_currency payment = currency" "cp_dealRoomId payment = d"
    "cp_totalAmountMinor payment = sum_list (map lp_amountMinor fresh)"
    "\<forall>p \<in> set (db_payments db). cp_reference p \<noteq> rp_reference inp"
    "entries = accrual_rows env (Suc (db_ids db)) (map (paymentInput actor d currency payment
       (case rp_paidAt inp of Some t \<Rightarrow> t | None \<Rightarrow> clock env)) fresh)"
    "db_accruals db' = db_accruals db @ entries" "db_payments db' = db_payments db @ [payment]"
    "db_revenueEvents db' = db_revenueEvents db" "db_schedules db' = db_schedules db"
    "db_components db' = db_components db" "db_dealRooms db' = db_dealRooms db"
    "db_ids db' = db_ids db + length fresh + 3"
    "\<exists>a e. db_audit db' = db_audit db @ [a] \<and> db_timeline db' = db_timeline db @ [e]"
    "allowed (can actor A_ledger_record_payment \<lparr>rtype = R_commission_accrual, rid = None,
       ownerOrgId = None, privacyClass = None\<rparr> no_context)"
  using assms unfolding recordPayment_def Let_def
  by (auto simp: ebind_eq_Inr authorize_ok payment_create_result newId_def
      accrual_createMany_result audit_write_def timeline_write_def)

lemma adjustLedger_effect:
  assumes "adjustLedger env actor d rootId inp ctx snap db = Inr (db', entry, balance)"
  defines "chain \<equiv> accrual_listByAccrualRoot db rootId"
  obtains amount where
    "chain \<noteq> []" "l_dealRoomId (ca_columns (hd chain)) = d" "is_chain (map ledger_entry chain)"
    "\<not> has_type REVERSAL (map ledger_entry chain)" "0 < amount"
    "parseBigIntMinorUnits (Some (ra_amountMinor inp)) ''amountMinor'' = Inr amount"
    "entry = accrual_row env (db_ids db)
       (adjustmentInput env actor d rootId inp amount (hd chain))"
    "chain_balance (chain @ [entry]) = Inr balance"
    "db_accruals db' = db_accruals db @ [entry]" "db_payments db' = db_payments db"
    "db_revenueEvents db' = db_revenueEvents db" "db_schedules db' = db_schedules db"
    "db_components db' = db_components db" "db_dealRooms db' = db_dealRooms db"
    "db_ids db' = db_ids db + 3"
    "\<exists>a e. db_audit db' = db_audit db @ [a] \<and> db_timeline db' = db_timeline db @ [e]"
    "allowed (can actor A_ledger_adjust \<lparr>rtype = R_commission_accrual, rid = None,
       ownerOrgId = None, privacyClass = None\<rparr> no_context)"
  using assms(1) [unfolded adjustLedger_def Let_def] unfolding chain_def
  by (auto simp: ebind_eq_Inr authorize_ok loadAdjustable_def Let_def chain_balance_result
      accrual_create_result audit_write_def timeline_write_def newId_def)

lemma compute_split_facts:
  assumes "computeCommissionSplits inp = Inr r" and "inputVersions inp = None"
  shows "sum_list (map entry_amountMinor (result_entries r)) = netDistributableMinor inp"
    "result_entries r \<noteq> []" "e \<in> set (result_entries r) \<Longrightarrow> 0 \<le> entry_amountMinor e"
    "e \<in> set (result_entries r) \<Longrightarrow> entry_direction e = CREDIT" "result_inputVersions r \<noteq> []"
proof -
  let ?cs = "components inp"
  let ?R = "after_fixed (netDistributableMinor inp) ?cs"
  have ok: "splittable (netDistributableMinor inp) ?cs"
    using assms(1) by (rule compute_accepts)
  have entries: "result_entries r = map fixed_entry (fixed_components ?cs) @
      map (bps_entry ?R (bps_components ?cs)) (bps_components ?cs)"
    and total: "sum_list (map entry_amountMinor (result_entries r)) = netDistributableMinor inp"
    using compute_splittable [OF ok] assms(1) by auto
  show "sum_list (map entry_amountMinor (result_entries r)) = netDistributableMinor inp"
    by (rule total)
  have "mset (map entry_componentId (result_entries r)) = mset (map componentId ?cs)"
    unfolding entries by (rule split_ids)
  then show "result_entries r \<noteq> []"
    using ok by (auto simp: splittable_def)
  have R: "0 \<le> ?R"
    using ok by (simp add: splittable_def after_fixed_def)
  show "0 \<le> entry_amountMinor e" if "e \<in> set (result_entries r)"
    using split_amounts_nonneg [OF ok R] that unfolding entries by blast
  show "entry_direction e = CREDIT" if "e \<in> set (result_entries r)"
    using that unfolding entries by (auto simp: fixed_entry_def bps_entry_def)
  show "result_inputVersions r \<noteq> []"
    using assms by (auto simp: computeCommissionSplits_def Let_def ebind_eq_Inr)
qed

lemma activeScheduleFor_result:
  "activeScheduleFor snap d b = Inr s \<Longrightarrow>
   s \<in> set (db_schedules snap) \<and> cs_dealRoomId s = d \<and> cs_status s = Sch_ACTIVE \<and> cs_basis s = b"
  by (auto simp: activeScheduleFor_def schedule_listActiveByDealRoom_def
      split: option.splits dest!: find_SomeD)

lemma recordRevenueEvent_effect:
  assumes "recordRevenueEvent env actor d inp ctx snap db = Inr (db', ev, entries, recon)"
  obtains schedule split targeted where
    "schedule \<in> set (db_schedules snap)" "cs_dealRoomId schedule = d" "cs_status schedule = Sch_ACTIVE"
    "cs_basis schedule = rv_basis inp"
    "computeCommissionSplits \<lparr>netDistributableMinor = re_netDistributableMinor ev, components = targeted,
       scheduleId = cs_id schedule, scheduleVersion = cs_versionNumber schedule,
       now = (case rv_recognizedAt inp of Some t \<Rightarrow> t | None \<Rightarrow> clock env), inputVersions = None\<rparr> = Inr split"
    "re_id ev = uuid env (db_ids db)" "re_dealRoomId ev = d" "re_period ev = rv_period inp"
    "re_source ev = rv_source inp" "re_currency ev = rv_currency inp"
    "re_netDistributableMinor ev = re_grossAmountMinor ev - re_deductionsMinor ev"
    "0 \<le> re_grossAmountMinor ev" "0 \<le> re_deductionsMinor ev" "0 \<le> re_netDistributableMinor ev"
    "\<forall>e \<in> set (db_revenueEvents db). \<not> (re_dealRoomId e = d \<and> re_period e = rv_period inp \<and>
       re_source e = rv_source inp)"
    "entries = accrual_rows env (Suc (db_ids db)) (map (accrualInput (accrual_columns ev schedule split
       (Some (userId actor)) (organizationId actor))) (result_entries split))"
    "recon = reconcileRevenueEvent \<lparr>grossAmountMinor = re_grossAmountMinor ev,
       deductionsMinor = re_deductionsMinor ev,
       recon_netDistributableMinor = re_netDistributableMinor ev,
       ledgerEntries = map ledger_entry entries\<rparr>"
    "db_accruals db' = db_accruals db @ entries" "db_payments db' = db_payments db"
    "db_revenueEvents db' = db_revenueEvents db @ [ev]" "db_schedules db' = db_schedules db"
    "db_components db' = db_components db" "db_dealRooms db' = db_dealRooms db"
    "db_jobs db' = db_jobs db @ [re_id ev]" "db_ids db' = db_ids db + length entries + 3"
    "\<exists>a e. db_audit db' = db_audit db @ [a] \<and> db_timeline db' = db_timeline db @ [e]"
  using assms [unfolded recordRevenueEvent_def Let_def]
  by (auto simp: ebind_eq_Inr revenueEvent_create_result accrual_createMany_result
      audit_write_def timeline_write_def newId_def split: prod.splits dest!: activeScheduleFor_result)

section \<open>The invariant of the tables\<close>

abbreviation row_type :: "CommissionAccrual \<Rightarrow> LedgerEntryType" where
  "row_type r \<equiv> l_entryType (ca_columns r)"

abbreviation row_amount :: "CommissionAccrual \<Rightarrow> int" where
  "row_amount r \<equiv> l_amountMinor (ca_columns r)"

abbreviation event_of :: "CommissionAccrual \<Rightarrow> string" where
  "event_of r \<equiv> l_revenueEventId (ca_columns r)"

text \<open>The columns all rows of one accrual agree on.\<close>

definition same_accrual :: "CommissionAccrual \<Rightarrow> CommissionAccrual \<Rightarrow> bool" where
  "same_accrual a b \<longleftrightarrow> (let x = ca_columns a; y = ca_columns b in
     l_dealRoomId x = l_dealRoomId y \<and> l_revenueEventId x = l_revenueEventId y \<and>
     l_scheduleId x = l_scheduleId y \<and> l_scheduleVersion x = l_scheduleVersion y \<and>
     l_componentId x = l_componentId y \<and> l_recipientOrgId x = l_recipientOrgId y \<and>
     l_claimId x = l_claimId y \<and> l_currency x = l_currency y)"

text \<open>\<open>a\<close> is the accrual that row \<open>r\<close> belongs to.\<close>

definition opens :: "CommissionAccrual \<Rightarrow> CommissionAccrual \<Rightarrow> bool" where
  "opens a r \<longleftrightarrow> row_type a = ACCRUAL \<and> ca_id a = ca_accrualRootId r \<and> same_accrual a r"

definition ids_ok :: "(nat \<Rightarrow> string) \<Rightarrow> nat \<Rightarrow> string list \<Rightarrow> bool" where
  "ids_ok U n ids \<longleftrightarrow> distinct ids \<and> set ids \<subseteq> U ` {..<n}"

definition chains_ok :: "CommissionAccrual list \<Rightarrow> bool" where
  "chains_ok rows \<longleftrightarrow> (\<forall>r \<in> set rows. (\<exists>a \<in> set rows. opens a r) \<and>
     (row_type r = ACCRUAL \<longrightarrow> ca_accrualRootId r = ca_id r) \<and> 0 \<le> row_amount r \<and>
     row_type r \<noteq> REVERSAL)"

definition accrued_for :: "CommissionAccrual list \<Rightarrow> string \<Rightarrow> int" where
  "accrued_for rows ev = sum_list (map row_amount (filter (\<lambda>r. event_of r = ev \<and> row_type r = ACCRUAL) rows))"

definition events_ok :: "CommissionAccrual list \<Rightarrow> RevenueEvent list \<Rightarrow> bool" where
  "events_ok rows evs \<longleftrightarrow>
     distinct (map (\<lambda>e. (re_dealRoomId e, re_period e, re_source e)) evs) \<and>
     (\<forall>r \<in> set rows. event_of r \<in> re_id ` set evs) \<and>
     (\<forall>e \<in> set evs. re_netDistributableMinor e = re_grossAmountMinor e - re_deductionsMinor e \<and>
        0 \<le> re_netDistributableMinor e \<and> (\<exists>r \<in> set rows. event_of r = re_id e) \<and>
        accrued_for rows (re_id e) = re_netDistributableMinor e)"

definition paid_with :: "CommissionAccrual list \<Rightarrow> string \<Rightarrow> int" where
  "paid_with rows p = sum_list (map row_amount (filter (\<lambda>r. l_paymentId (ca_columns r) = Some p) rows))"

definition payments_ok :: "CommissionAccrual list \<Rightarrow> CommissionPayment list \<Rightarrow> bool" where
  "payments_ok rows ps \<longleftrightarrow>
     distinct (map cp_reference ps) \<and>
     (\<forall>r \<in> set rows. case l_paymentId (ca_columns r) of
        None \<Rightarrow> row_type r \<noteq> PAYMENT
      | Some i \<Rightarrow> row_type r = PAYMENT \<and> (\<exists>p \<in> set ps. cp_id p = i \<and>
          cp_recipientOrgId p = l_recipientOrgId (ca_columns r) \<and>
          cp_currency p = l_currency (ca_columns r))) \<and>
     (\<forall>p \<in> set ps. paid_with rows (cp_id p) = cp_totalAmountMinor p)"

definition ledger_ok :: "(nat \<Rightarrow> string) \<Rightarrow> Store \<Rightarrow> bool" where
  "ledger_ok U db \<longleftrightarrow>
     ids_ok U (db_ids db) (map ca_id (db_accruals db)) \<and>
     ids_ok U (db_ids db) (map re_id (db_revenueEvents db)) \<and>
     ids_ok U (db_ids db) (map cp_id (db_payments db)) \<and>
     chains_ok (db_accruals db) \<and> events_ok (db_accruals db) (db_revenueEvents db) \<and>
     payments_ok (db_accruals db) (db_payments db)"

lemma same_accrual_refl [simp]: "same_accrual a a"
  by (simp add: same_accrual_def)

lemma same_accrual_trans: "same_accrual a b \<Longrightarrow> same_accrual b c \<Longrightarrow> same_accrual a c"
  by (simp add: same_accrual_def Let_def)

lemma ids_ok_mono: "ids_ok U n ids \<Longrightarrow> n \<le> m \<Longrightarrow> ids_ok U m ids"
  by (fastforce simp: ids_ok_def)

lemma ids_ok_fresh: "ids_ok U n ids \<Longrightarrow> inj U \<Longrightarrow> n \<le> k \<Longrightarrow> U k \<notin> set ids"
  by (fastforce simp: ids_ok_def dest: injD)

lemma ids_ok_append:
  assumes "ids_ok U n ids" and "inj U" and "n \<le> k" and "k + m \<le> m'"
  shows "ids_ok U m' (ids @ map U [k..<k + m])"
proof -
  have "set ids \<inter> U ` {k..<k + m} = {}"
    using ids_ok_fresh [OF assms(1,2)] assms(3) by auto
  moreover have "inj_on U {k..<k + m}"
    using \<open>inj U\<close> by (rule inj_on_subset) simp
  moreover have "U ` {..<n} \<subseteq> U ` {..<m'}" "U ` {k..<k + m} \<subseteq> U ` {..<m'}"
    using assms(3,4) by (auto intro!: imageI)
  ultimately show ?thesis
    using assms(1) by (simp add: ids_ok_def distinct_map) blast
qed

lemma ids_ok_snoc:
  assumes "ids_ok U n ids" and "inj U" and "n < m"
  shows "ids_ok U m (ids @ [U n])"
  using ids_ok_append [OF assms(1,2), of n 1 m] assms(3) by simp

lemma chain_member:
  assumes "accrual_listByAccrualRoot db rootId \<noteq> []"
  shows "hd (accrual_listByAccrualRoot db rootId) \<in> set (db_accruals db)"
    "ca_accrualRootId (hd (accrual_listByAccrualRoot db rootId)) = rootId"
  using hd_in_set [OF assms] by (auto simp: accrual_listByAccrualRoot_def)

text \<open>Every accrual has exactly one opening row.\<close>

lemma chain_is_chain:
  assumes "ledger_ok U db" and "accrual_listByAccrualRoot db rootId \<noteq> []"
  shows "is_chain (map ledger_entry (accrual_listByAccrualRoot db rootId))"
proof -
  let ?rows = "db_accruals db"
  let ?opening = "\<lambda>r. ca_accrualRootId r = rootId \<and> row_type r = ACCRUAL"
  have d: "distinct (map ca_id ?rows)" and c: "chains_ok ?rows"
    using assms(1) by (simp_all add: ledger_ok_def ids_ok_def)
  obtain r where r: "r \<in> set ?rows" "ca_accrualRootId r = rootId"
    using chain_member [OF assms(2)] by blast
  then obtain a where a: "a \<in> set ?rows" "opens a r"
    using c by (auto simp: chains_ok_def)
  have only: "b = a" if "b \<in> set ?rows" "?opening b" for b
  proof -
    have "ca_id b = ca_id a"
      using that a r c by (auto simp: chains_ok_def opens_def)
    then show ?thesis
      using that a d by (meson distinct_map inj_onD)
  qed
  have "?opening a"
    using a r c by (auto simp: chains_ok_def opens_def)
  then have "{x. ?opening x} \<inter> set ?rows = {a}"
    using a(1) only by blast
  then have "length (filter ?opening ?rows) = 1"
    using d by (simp add: distinct_length_filter distinct_map)
  moreover have "length (filter (\<lambda>e. entryType e = ACCRUAL) (map ledger_entry (sort_key k xs))) =
      length (filter (\<lambda>r. row_type r = ACCRUAL) xs)" for k :: "CommissionAccrual \<Rightarrow> int" and xs
    by (simp add: filter_map comp_def ledger_entry_def filter_sort)
  ultimately show ?thesis
    by (simp add: is_chain_def accrual_listByAccrualRoot_def filter_filter conj_commute)
qed

section \<open>Every operation keeps the invariant\<close>

text \<open>Rows written after the opening row: payments and adjustments.\<close>

definition follows :: "CommissionAccrual list \<Rightarrow> CommissionAccrual \<Rightarrow> bool" where
  "follows rows r \<longleftrightarrow> row_type r \<in> {PAYMENT, ADJUSTMENT} \<and> 0 \<le> row_amount r \<and>
     (\<exists>a \<in> set rows. opens a r)"

lemma chains_ok_follow:
  assumes "chains_ok rows" and "\<forall>r \<in> set new. follows rows r"
  shows "chains_ok (rows @ new)"
  using assms by (fastforce simp: chains_ok_def follows_def)

lemma accrued_for_follow:
  assumes "\<forall>r \<in> set new. follows rows r"
  shows "accrued_for (rows @ new) ev = accrued_for rows ev"
proof -
  have "filter (\<lambda>r. event_of r = ev \<and> row_type r = ACCRUAL) new = []"
    using assms by (auto simp: follows_def filter_empty_conv)
  then show ?thesis
    by (simp add: accrued_for_def)
qed

lemma events_ok_follow:
  assumes "events_ok rows evs" and "\<forall>r \<in> set new. follows rows r"
  shows "events_ok (rows @ new) evs"
proof -
  have "event_of r \<in> re_id ` set evs" if r: "r \<in> set new" for r
  proof -
    obtain a where "a \<in> set rows" "opens a r"
      using r assms(2) unfolding follows_def by blast
    then have "a \<in> set rows" "event_of a = event_of r"
      by (simp_all add: opens_def same_accrual_def Let_def)
    then show ?thesis
      using assms(1) unfolding events_ok_def by metis
  qed
  then show ?thesis
    using assms(1) by (auto simp: events_ok_def accrued_for_follow [OF assms(2)])
qed

lemma paid_with_append: "paid_with (rows @ new) p = paid_with rows p + paid_with new p"
  by (simp add: paid_with_def)

lemma paid_with_none: "\<forall>r \<in> set rows. l_paymentId (ca_columns r) \<noteq> Some p \<Longrightarrow> paid_with rows p = 0"
  by (simp add: paid_with_def)

text \<open>Adding one payment with its rows.\<close>

lemma payments_ok_pay:
  assumes ok: "payments_ok rows ps" and fresh: "cp_id p \<notin> cp_id ` set ps"
    and ref: "cp_reference p \<notin> cp_reference ` set ps"
    and new: "\<forall>r \<in> set new. l_paymentId (ca_columns r) = Some (cp_id p) \<and> row_type r = PAYMENT \<and>
       cp_recipientOrgId p = l_recipientOrgId (ca_columns r) \<and> cp_currency p = l_currency (ca_columns r)"
    and total: "sum_list (map row_amount new) = cp_totalAmountMinor p"
  shows "payments_ok (rows @ new) (ps @ [p])"
proof -
  have "paid_with new (cp_id p) = cp_totalAmountMinor p"
    using new total by (simp add: paid_with_def)
  moreover have "paid_with new (cp_id q) = 0" if "q \<in> set ps" for q
    using that new fresh by (intro paid_with_none) auto
  moreover have "paid_with rows (cp_id p) = 0"
  proof (rule paid_with_none, rule ballI, rule notI)
    fix r
    assume r: "r \<in> set rows" "l_paymentId (ca_columns r) = Some (cp_id p)"
    have "\<forall>r \<in> set rows. case l_paymentId (ca_columns r) of None \<Rightarrow> True
      | Some i \<Rightarrow> \<exists>q \<in> set ps. cp_id q = i"
      using ok unfolding payments_ok_def by (auto split: option.splits)
    then have "\<exists>q \<in> set ps. cp_id q = cp_id p"
      using r by (auto split: option.splits)
    then show False
      using fresh by (metis imageI)
  qed
  ultimately have "\<forall>q \<in> set (ps @ [p]). paid_with (rows @ new) (cp_id q) = cp_totalAmountMinor q"
    using ok by (auto simp: paid_with_append payments_ok_def)
  moreover have "\<forall>r \<in> set (rows @ new). case l_paymentId (ca_columns r) of
        None \<Rightarrow> row_type r \<noteq> PAYMENT
      | Some i \<Rightarrow> row_type r = PAYMENT \<and> (\<exists>q \<in> set (ps @ [p]). cp_id q = i \<and>
          cp_recipientOrgId q = l_recipientOrgId (ca_columns r) \<and>
          cp_currency q = l_currency (ca_columns r))"
  proof (rule ballI)
    fix r
    assume "r \<in> set (rows @ new)"
    then consider "r \<in> set rows" | "r \<in> set new" by auto
    then show "case l_paymentId (ca_columns r) of None \<Rightarrow> row_type r \<noteq> PAYMENT
      | Some i \<Rightarrow> row_type r = PAYMENT \<and> (\<exists>q \<in> set (ps @ [p]). cp_id q = i \<and>
          cp_recipientOrgId q = l_recipientOrgId (ca_columns r) \<and>
          cp_currency q = l_currency (ca_columns r))"
    proof cases
      case 1
      then show ?thesis
        using ok unfolding payments_ok_def by (force split: option.splits)
    next
      case 2
      then show ?thesis using new by simp
    qed
  qed
  ultimately show ?thesis
    using ok ref by (simp add: payments_ok_def)
qed

lemma payments_ok_unpaid:
  assumes "payments_ok rows ps"
    and "\<forall>r \<in> set new. l_paymentId (ca_columns r) = None \<and> row_type r \<noteq> PAYMENT"
  shows "payments_ok (rows @ new) ps"
  using assms by (auto simp: payments_ok_def paid_with_append paid_with_none)

lemma single_value:
  "length (remdups (map f xs)) \<le> 1 \<Longrightarrow> x \<in> set xs \<Longrightarrow> y \<in> set xs \<Longrightarrow> f x = f y"
proof -
  assume *: "length (remdups (map f xs)) \<le> 1" "x \<in> set xs" "y \<in> set xs"
  then have "card (f ` set xs) \<le> 1"
    by (metis length_remdups_card_conv set_map)
  then show "f x = f y"
    using *(2,3) card_le_Suc0_iff_eq [of "f ` set xs"]
    by (metis One_nat_def finite_imageI finite_set imageI)
qed

lemma validateSingle_result:
  assumes "validateSingleRecipientAndCurrency ls = Inr (recipient, currency)" and "l \<in> set ls"
  shows "l_recipientOrgId (ca_columns (lp_root l)) = recipient"
    "l_currency (ca_columns (lp_root l)) = currency"
proof -
  obtain l0 ls' where ls: "ls = l0 # ls'"
    using assms(2) by (cases ls) auto
  have "length (remdups (map (\<lambda>l. l_recipientOrgId (ca_columns (lp_root l))) ls)) \<le> 1"
    "length (remdups (map (\<lambda>l. l_currency (ca_columns (lp_root l))) ls)) \<le> 1"
    "l_recipientOrgId (ca_columns (lp_root l0)) = recipient"
    "l_currency (ca_columns (lp_root l0)) = currency"
    using assms(1) unfolding validateSingleRecipientAndCurrency_def Let_def ls
    by (auto simp: ebind_eq_Inr simp del: remdups.simps list.map)
  moreover have l0: "l0 \<in> set ls"
    by (simp add: ls)
  ultimately show "l_recipientOrgId (ca_columns (lp_root l)) = recipient"
    "l_currency (ca_columns (lp_root l)) = currency"
    using single_value [OF _ assms(2) l0] by auto
qed

lemma follows_member:
  assumes "chains_ok rows" and "h \<in> set rows" and "same_accrual h r"
    and "ca_accrualRootId r = ca_accrualRootId h"
    and "row_type r \<in> {PAYMENT, ADJUSTMENT}" and "0 \<le> row_amount r"
  shows "follows rows r"
proof -
  obtain a where "a \<in> set rows" "opens a h"
    using assms(1,2) unfolding chains_ok_def by blast
  then have "opens a r"
    using assms(3,4) same_accrual_trans by (auto simp: opens_def)
  then show ?thesis
    using assms \<open>a \<in> set rows\<close> unfolding follows_def by blast
qed

lemma paymentInput_columns:
  "row_type (accrual_row env n (paymentInput actor d currency payment t l)) = PAYMENT"
  "row_amount (accrual_row env n (paymentInput actor d currency payment t l)) = lp_amountMinor l"
  "ca_accrualRootId (accrual_row env n (paymentInput actor d currency payment t l)) = lp_accrualRootId l"
  "l_direction (ca_columns (accrual_row env n (paymentInput actor d currency payment t l))) = DEBIT"
  "l_paymentId (ca_columns (accrual_row env n (paymentInput actor d currency payment t l))) =
     Some (cp_id payment)"
  by (simp_all add: accrual_row_def paymentInput_def Let_def)

lemma paymentInput_same:
  assumes "l_dealRoomId (ca_columns (lp_root l)) = d" and "l_currency (ca_columns (lp_root l)) = currency"
  shows "same_accrual (lp_root l) (accrual_row env n (paymentInput actor d currency payment t l))"
  using assms by (simp add: same_accrual_def paymentInput_def Let_def)

lemma payment_rows_follow:
  assumes ok: "ledger_ok U db"
    and load: "loadAndValidatePayments db d ps = Inr fresh"
    and single: "validateSingleRecipientAndCurrency fresh = Inr (recipient, currency)"
    and r: "r \<in> set (accrual_rows env n (map (paymentInput actor d currency payment t) fresh))"
  shows "follows (db_accruals db) r \<and> row_type r = PAYMENT \<and>
    l_paymentId (ca_columns r) = Some (cp_id payment) \<and>
    l_recipientOrgId (ca_columns r) = recipient \<and> l_currency (ca_columns r) = currency"
proof -
  obtain k l where l: "l \<in> set fresh" and rl: "r = accrual_row env (n + k) (paymentInput actor d currency payment t l)"
    using r by (auto elim!: accrual_rowsE)
  obtain p where p: "loadPayment db d p = Inr l"
    using load l by (rule loadPayments_loaded)
  note lp = loadPayment_result [OF p]
  have same: "same_accrual (lp_root l) r"
    unfolding rl using lp validateSingle_result [OF single l] by (intro paymentInput_same) auto
  have "follows (db_accruals db) r"
  proof (rule follows_member [OF _ _ same])
    show "chains_ok (db_accruals db)"
      using ok by (simp add: ledger_ok_def)
    show "lp_root l \<in> set (db_accruals db)" "ca_accrualRootId r = ca_accrualRootId (lp_root l)"
      using chain_member [OF lp(3)] lp(1,2) by (simp_all add: rl paymentInput_columns)
    show "row_type r \<in> {PAYMENT, ADJUSTMENT}" "0 \<le> row_amount r"
      using lp(7) by (simp_all add: rl paymentInput_columns del: accrual_row_columns)
  qed
  moreover have "l_recipientOrgId (ca_columns r) = recipient" "l_currency (ca_columns r) = currency"
    using same validateSingle_result [OF single l] by (simp_all add: same_accrual_def Let_def)
  ultimately show ?thesis
    by (simp add: rl paymentInput_columns del: accrual_row_columns)
qed

lemma recordPayment_keeps:
  assumes ok: "ledger_ok U db" and U: "inj U" "uuid env = U"
    and step: "recordPayment env actor d inp ctx snap db = Inr (db', payment, entries)"
  shows "ledger_ok U db'"
  using step
proof (rule recordPayment_effect)
  fix fresh recipient currency
  let ?n = "db_ids db"
  assume load: "loadAndValidatePayments db d (rp_payments inp) = Inr fresh"
    and single: "validateSingleRecipientAndCurrency fresh = Inr (recipient, currency)"
    and pid: "cp_id payment = uuid env ?n" and ref: "cp_reference payment = rp_reference inp"
    and pr: "cp_recipientOrgId payment = recipient" and pc: "cp_currency payment = currency"
    and total: "cp_totalAmountMinor payment = sum_list (map lp_amountMinor fresh)"
    and unique: "\<forall>p \<in> set (db_payments db). cp_reference p \<noteq> rp_reference inp"
    and entries: "entries = accrual_rows env (Suc ?n) (map (paymentInput actor d currency payment
       (case rp_paidAt inp of Some t \<Rightarrow> t | None \<Rightarrow> clock env)) fresh)"
    and db': "db_accruals db' = db_accruals db @ entries" "db_payments db' = db_payments db @ [payment]"
      "db_revenueEvents db' = db_revenueEvents db" "db_ids db' = ?n + length fresh + 3"
  have new: "\<forall>r \<in> set entries. follows (db_accruals db) r \<and> row_type r = PAYMENT \<and>
    l_paymentId (ca_columns r) = Some (cp_id payment) \<and>
    l_recipientOrgId (ca_columns r) = recipient \<and> l_currency (ca_columns r) = currency"
    unfolding entries using payment_rows_follow [OF ok load single] by blast
  have ids: "ids_ok U ?n (map ca_id (db_accruals db))" "ids_ok U ?n (map re_id (db_revenueEvents db))"
    "ids_ok U ?n (map cp_id (db_payments db))"
    using ok by (simp_all add: ledger_ok_def)
  have "map row_amount entries = map lp_amountMinor fresh"
    unfolding entries by (simp add: list_eq_iff_nth_eq accrual_rows_nth paymentInput_columns
        del: accrual_row_columns)
  then have "payments_ok (db_accruals db') (db_payments db')"
    unfolding db' using ok new total pid ref pr pc unique ids_ok_fresh [OF ids(3) U(1), of ?n] U(2)
    by (intro payments_ok_pay) (auto simp: ledger_ok_def)
  moreover have "chains_ok (db_accruals db')" "events_ok (db_accruals db') (db_revenueEvents db')"
    unfolding db' using ok new by (auto simp: ledger_ok_def intro!: chains_ok_follow events_ok_follow)
  moreover have "ids_ok U (db_ids db') (map ca_id (db_accruals db'))"
    using ids_ok_append [OF ids(1) U(1), of "Suc ?n" "length fresh" "db_ids db'"] db' U(2)
    by (simp add: entries accrual_rows_ids)
  moreover have "ids_ok U (db_ids db') (map cp_id (db_payments db'))"
    using ids_ok_snoc [OF ids(3) U(1), of "db_ids db'"] db' U(2) pid by simp
  moreover have "ids_ok U (db_ids db') (map re_id (db_revenueEvents db'))"
    using ids_ok_mono [OF ids(2)] db' by simp
  ultimately show ?thesis
    by (simp add: ledger_ok_def)
qed

lemma adjustLedger_keeps:
  assumes ok: "ledger_ok U db" and U: "inj U" "uuid env = U"
    and step: "adjustLedger env actor d rootId inp ctx snap db = Inr (db', entry, balance)"
  shows "ledger_ok U db'"
  using step
proof (rule adjustLedger_effect)
  fix amount
  let ?chain = "accrual_listByAccrualRoot db rootId" and ?n = "db_ids db"
  assume ne: "?chain \<noteq> []" and deal: "l_dealRoomId (ca_columns (hd ?chain)) = d" and pos: "0 < amount"
    and entry: "entry = accrual_row env ?n (adjustmentInput env actor d rootId inp amount (hd ?chain))"
    and db': "db_accruals db' = db_accruals db @ [entry]" "db_payments db' = db_payments db"
      "db_revenueEvents db' = db_revenueEvents db" "db_ids db' = ?n + 3"
  have cols: "row_type entry = ADJUSTMENT" "row_amount entry = amount" "ca_accrualRootId entry = rootId"
    "l_paymentId (ca_columns entry) = None" "ca_id entry = U ?n"
    using U(2) by (simp_all add: entry accrual_row_def adjustmentInput_def Let_def)
  have "same_accrual (hd ?chain) entry"
    using deal by (simp add: entry same_accrual_def adjustmentInput_def Let_def)
  then have "follows (db_accruals db) entry"
    using ok chain_member [OF ne] cols pos by (intro follows_member) (auto simp: ledger_ok_def)
  then have new: "\<forall>r \<in> set [entry]. follows (db_accruals db) r"
    by simp
  have "ids_ok U (db_ids db') (map ca_id (db_accruals db'))"
    using ids_ok_snoc [of U ?n _ "db_ids db'"] ok U db' cols(5) by (simp add: ledger_ok_def)
  moreover have "payments_ok (db_accruals db') (db_payments db')"
    unfolding db' using ok cols by (intro payments_ok_unpaid) (auto simp: ledger_ok_def)
  ultimately show ?thesis
    using ok chains_ok_follow [OF _ new] events_ok_follow [OF _ new] db'
    by (auto simp: ledger_ok_def intro: ids_ok_mono)
qed

text \<open>The opening rows of a new revenue event.\<close>

lemma accrualInput_columns:
  "row_type (accrual_row env n (accrualInput (accrual_columns ev schedule split u org) e)) = ACCRUAL"
  "row_amount (accrual_row env n (accrualInput (accrual_columns ev schedule split u org) e)) =
     entry_amountMinor e"
  "event_of (accrual_row env n (accrualInput (accrual_columns ev schedule split u org) e)) = re_id ev"
  "l_dealRoomId (ca_columns (accrual_row env n (accrualInput (accrual_columns ev schedule split u org) e))) =
     re_dealRoomId ev"
  "l_paymentId (ca_columns (accrual_row env n (accrualInput (accrual_columns ev schedule split u org) e))) = None"
  "ca_accrualRootId (accrual_row env n (accrualInput (accrual_columns ev schedule split u org) e)) = uuid env n"
  by (simp_all add: accrual_row_def accrualInput_def accrual_columns_def)

lemma accrual_rows_open:
  assumes "r \<in> set (accrual_rows env n (map (accrualInput (accrual_columns ev schedule split u org)) es))"
  obtains e where "e \<in> set es" "row_type r = ACCRUAL" "row_amount r = entry_amountMinor e"
    "event_of r = re_id ev" "l_paymentId (ca_columns r) = None" "ca_accrualRootId r = ca_id r"
    "l_dealRoomId (ca_columns r) = re_dealRoomId ev"
proof -
  obtain k e where "e \<in> set es"
    "r = accrual_row env (n + k) (accrualInput (accrual_columns ev schedule split u org) e)"
    using assms by (auto elim!: accrual_rowsE)
  then show thesis
    using that [of e] by (simp add: accrualInput_columns del: accrual_row_columns)
qed

lemma accrual_rows_amounts:
  "map row_amount (accrual_rows env n (map (accrualInput (accrual_columns ev schedule split u org)) es)) =
   map entry_amountMinor es"
  by (simp add: list_eq_iff_nth_eq accrual_rows_nth accrualInput_columns del: accrual_row_columns)

lemma chains_ok_open:
  assumes "chains_ok rows"
    and "\<forall>r \<in> set new. row_type r = ACCRUAL \<and> ca_accrualRootId r = ca_id r \<and> 0 \<le> row_amount r"
  shows "chains_ok (rows @ new)"
proof -
  have "opens r r" if "r \<in> set new" for r
    using that assms(2) by (simp add: opens_def)
  then show ?thesis
    using assms unfolding chains_ok_def by fastforce
qed

lemma events_ok_open:
  assumes ok: "events_ok rows evs" and fresh: "re_id ev \<notin> re_id ` set evs"
    and new: "\<forall>r \<in> set new. row_type r = ACCRUAL \<and> event_of r = re_id ev" "new \<noteq> []"
    and total: "sum_list (map row_amount new) = re_netDistributableMinor ev"
    and net: "re_netDistributableMinor ev = re_grossAmountMinor ev - re_deductionsMinor ev"
      "0 \<le> re_netDistributableMinor ev"
    and key: "\<forall>e \<in> set evs. \<not> (re_dealRoomId e = re_dealRoomId ev \<and> re_period e = re_period ev \<and>
       re_source e = re_source ev)"
  shows "events_ok (rows @ new) (evs @ [ev])"
proof -
  have old: "\<forall>r \<in> set rows. event_of r \<in> re_id ` set evs"
    using ok by (simp add: events_ok_def)
  then have "filter (\<lambda>r. event_of r = re_id ev \<and> row_type r = ACCRUAL) rows = []"
    using fresh unfolding filter_empty_conv by metis
  moreover have "filter (\<lambda>r. event_of r = re_id ev \<and> row_type r = ACCRUAL) new = new"
    using new(1) by (simp add: filter_id_conv)
  ultimately have "accrued_for (rows @ new) (re_id ev) = re_netDistributableMinor ev"
    using total by (simp add: accrued_for_def)
  moreover have "accrued_for (rows @ new) (re_id e) = re_netDistributableMinor e" if "e \<in> set evs" for e
  proof -
    have "filter (\<lambda>r. event_of r = re_id e \<and> row_type r = ACCRUAL) new = []"
      using that new(1) fresh by (auto simp: filter_empty_conv)
    then show ?thesis
      using ok that by (simp add: accrued_for_def events_ok_def)
  qed
  moreover obtain r where "r \<in> set new" "event_of r = re_id ev"
    using new by (cases new) auto
  ultimately have "\<forall>e \<in> set (evs @ [ev]). re_netDistributableMinor e = re_grossAmountMinor e - re_deductionsMinor e \<and>
        0 \<le> re_netDistributableMinor e \<and> (\<exists>r \<in> set (rows @ new). event_of r = re_id e) \<and>
        accrued_for (rows @ new) (re_id e) = re_netDistributableMinor e"
    using ok net unfolding events_ok_def by auto
  moreover have "distinct (map (\<lambda>e. (re_dealRoomId e, re_period e, re_source e)) (evs @ [ev]))"
    using ok key by (auto simp: events_ok_def)
  moreover have "\<forall>r \<in> set (rows @ new). event_of r \<in> re_id ` set (evs @ [ev])"
    using old new(1) by auto
  ultimately show ?thesis
    unfolding events_ok_def by blast
qed

lemma recordRevenueEvent_keeps:
  assumes ok: "ledger_ok U db" and U: "inj U" "uuid env = U"
    and step: "recordRevenueEvent env actor d inp ctx snap db = Inr (db', ev, entries, recon)"
  shows "ledger_ok U db'"
  using step
proof (rule recordRevenueEvent_effect)
  fix schedule split targeted
  let ?n = "db_ids db"
  assume comp: "computeCommissionSplits \<lparr>netDistributableMinor = re_netDistributableMinor ev, components = targeted,
       scheduleId = cs_id schedule, scheduleVersion = cs_versionNumber schedule,
       now = (case rv_recognizedAt inp of Some t \<Rightarrow> t | None \<Rightarrow> clock env), inputVersions = None\<rparr> = Inr split"
    and eid: "re_id ev = uuid env ?n"
    and key: "re_dealRoomId ev = d" "re_period ev = rv_period inp" "re_source ev = rv_source inp"
    and net: "re_netDistributableMinor ev = re_grossAmountMinor ev - re_deductionsMinor ev"
      "0 \<le> re_netDistributableMinor ev"
    and unique: "\<forall>e \<in> set (db_revenueEvents db). \<not> (re_dealRoomId e = d \<and> re_period e = rv_period inp \<and>
       re_source e = rv_source inp)"
    and entries: "entries = accrual_rows env (Suc ?n) (map (accrualInput (accrual_columns ev schedule split
       (Some (userId actor)) (organizationId actor))) (result_entries split))"
    and db': "db_accruals db' = db_accruals db @ entries" "db_payments db' = db_payments db"
      "db_revenueEvents db' = db_revenueEvents db @ [ev]" "db_ids db' = ?n + length entries + 3"
  note facts = compute_split_facts [OF comp, simplified]
  have ids: "ids_ok U ?n (map ca_id (db_accruals db))" "ids_ok U ?n (map re_id (db_revenueEvents db))"
    "ids_ok U ?n (map cp_id (db_payments db))"
    using ok by (simp_all add: ledger_ok_def)
  have new: "\<forall>r \<in> set entries. row_type r = ACCRUAL \<and> ca_accrualRootId r = ca_id r \<and> 0 \<le> row_amount r \<and>
      event_of r = re_id ev \<and> l_paymentId (ca_columns r) = None"
    unfolding entries by (auto elim!: accrual_rows_open dest: facts(3))
  have total: "sum_list (map row_amount entries) = re_netDistributableMinor ev"
    unfolding entries accrual_rows_amounts by (rule facts(1))
  have "entries \<noteq> []"
    using facts(2) by (simp add: entries flip: length_greater_0_conv)
  moreover have "re_id ev \<notin> re_id ` set (db_revenueEvents db)"
    using ids_ok_fresh [OF ids(2) U(1), of ?n] eid U(2) by simp
  ultimately have "events_ok (db_accruals db') (db_revenueEvents db')"
    unfolding db' using ok new total net unique key by (intro events_ok_open) (auto simp: ledger_ok_def)
  moreover have "chains_ok (db_accruals db')" "payments_ok (db_accruals db') (db_payments db')"
    unfolding db' using ok new by (auto simp: ledger_ok_def intro!: chains_ok_open payments_ok_unpaid)
  moreover have "ids_ok U (db_ids db') (map ca_id (db_accruals db'))"
    using ids_ok_append [OF ids(1) U(1), of "Suc ?n" "length entries" "db_ids db'"] db' U(2)
    by (simp add: entries accrual_rows_ids)
  moreover have "ids_ok U (db_ids db') (map re_id (db_revenueEvents db'))"
    using ids_ok_snoc [OF ids(2) U(1), of "db_ids db'"] db' U(2) eid by simp
  moreover have "ids_ok U (db_ids db') (map cp_id (db_payments db'))"
    using ids_ok_mono [OF ids(3)] db' by simp
  ultimately show ?thesis
    by (simp add: ledger_ok_def)
qed

text \<open>Schedules do not touch the ledger.\<close>

definition ledger_frame :: "Store \<Rightarrow> Store \<Rightarrow> bool" where
  "ledger_frame db db' \<longleftrightarrow> db_accruals db' = db_accruals db \<and> db_payments db' = db_payments db \<and>
     db_revenueEvents db' = db_revenueEvents db \<and> db_ids db \<le> db_ids db' \<and>
     db_dealRooms db' = db_dealRooms db"

lemma ledger_frame_trans: "ledger_frame a b \<Longrightarrow> ledger_frame b c \<Longrightarrow> ledger_frame a c"
  by (auto simp: ledger_frame_def)

lemma ledger_frame_keeps: "ledger_frame db db' \<Longrightarrow> ledger_ok U db \<Longrightarrow> ledger_ok U db'"
  by (auto simp: ledger_frame_def ledger_ok_def intro: ids_ok_mono)

lemma create_many_frame:
  assumes "\<And>i db r db'. create i db = Inr (r, db') \<Longrightarrow> ledger_frame db db'"
    and "create_many create is db = Inr (rs, db')"
  shows "ledger_frame db db'"
  using assms(2)
proof (induction "is" arbitrary: db rs db')
  case Nil
  then show ?case by (simp add: ledger_frame_def)
next
  case (Cons i "is")
  then show ?case
    by (auto simp: ebind_eq_Inr dest!: assms(1) intro: ledger_frame_trans)
qed

lemma schedule_frames:
  "schedule_create env inp db = Inr (s, db') \<Longrightarrow> ledger_frame db db'"
  "schedule_updateStatus i st u db = Inr (s, db') \<Longrightarrow> ledger_frame db db'"
  "component_create env cinp db = Inr (c, db') \<Longrightarrow> ledger_frame db db'"
  by (auto simp: schedule_create_def schedule_updateStatus_def component_create_def newId_def Let_def
      ebind_eq_Inr ledger_frame_def split: option.splits if_splits)

lemma component_createMany_frame:
  "component_createMany env ins db = Inr (cs, db') \<Longrightarrow> ledger_frame db db'"
  unfolding component_createMany_def by (rule create_many_frame) (rule schedule_frames(3))

lemma write_frames: "ledger_frame db (audit_write env c a db)" "ledger_frame db (timeline_write env c t db)"
  by (simp_all add: ledger_frame_def)

lemma createSchedule_frame:
  assumes "createSchedule env actor d inp ctx snap db = Inr (db', r)"
  shows "ledger_frame db db'"
proof -
  have prev: "ledger_frame s s'"
    if "(case p of None \<Rightarrow> Inr s
       | Some p \<Rightarrow> ebind (store (schedule_updateStatus (cs_id p) Sch_SUPERSEDED u s)) (\<lambda>(_, db). Inr db))
       = (Inr s' :: econ_failure + Store)" for p u s s'
    using that by (auto simp: ebind_eq_Inr ledger_frame_def split: option.splits
        dest!: schedule_frames(2) [unfolded ledger_frame_def])
  show ?thesis
    using assms unfolding createSchedule_def Let_def
    by (auto simp: ebind_eq_Inr ledger_frame_def dest!: prev [unfolded ledger_frame_def]
        schedule_frames [unfolded ledger_frame_def] component_createMany_frame [unfolded ledger_frame_def])
qed

text \<open>In a state that satisfies the invariant every revenue event has its accruals.\<close>

lemma job_no_change:
  assumes ok: "ledger_ok U db"
    and job: "economicsAccrualJob env keyId h i snap tab db = r"
  shows "\<exists>res. r = Inr (tab, db, res) \<and> (job_status res = already_accrued \<or> res = skipped)"
proof (cases "revenueEvent_findById db i")
  case None
  then show ?thesis
    using job by (auto simp: economicsAccrualJob_def)
next
  case (Some ev)
  then have ev: "ev \<in> set (db_revenueEvents db)" "re_id ev = i"
    by (auto simp: revenueEvent_findById_def dest: find_SomeD)
  then obtain r where "r \<in> set (db_accruals db)" "event_of r = i"
    using ok unfolding ledger_ok_def events_ok_def by blast
  then have "set (accrual_listByRevenueEvent db i) \<noteq> {}"
    by (auto simp: accrual_listByRevenueEvent_def)
  then show ?thesis
    using job Some by (auto simp: economicsAccrualJob_def)
qed

section \<open>The module as a state machine\<close>

text \<open>One committed request. The state the request read before its transaction, the actor, the
  clock and the job's key table are arbitrary, so every interleaving is covered. \<open>deals\<close> is any
  change the deal module makes to the deal rooms.\<close>

inductive econ_step :: "(nat \<Rightarrow> string) \<Rightarrow> Store \<Rightarrow> Store \<Rightarrow> bool" for U where
  schedule: "uuid env = U \<Longrightarrow> createSchedule env actor d inp ctx snap db = Inr (db', r) \<Longrightarrow> econ_step U db db'"
| revenue: "uuid env = U \<Longrightarrow> recordRevenueEvent env actor d inp ctx snap db = Inr (db', r) \<Longrightarrow> econ_step U db db'"
| payment: "uuid env = U \<Longrightarrow> recordPayment env actor d inp ctx snap db = Inr (db', r) \<Longrightarrow> econ_step U db db'"
| adjustment: "uuid env = U \<Longrightarrow> adjustLedger env actor d rootId inp ctx snap db = Inr (db', r) \<Longrightarrow> econ_step U db db'"
| job: "uuid env = U \<Longrightarrow> economicsAccrualJob env keyId h i snap tab db = Inr (tab', db', r) \<Longrightarrow> econ_step U db db'"
| deals: "econ_step U db (db\<lparr>db_dealRooms := ds\<rparr>)"

inductive econ_reach :: "(nat \<Rightarrow> string) \<Rightarrow> Store \<Rightarrow> bool" for U where
  start: "db_accruals db = [] \<Longrightarrow> db_revenueEvents db = [] \<Longrightarrow> db_payments db = [] \<Longrightarrow> econ_reach U db"
| step: "econ_reach U db \<Longrightarrow> econ_step U db db' \<Longrightarrow> econ_reach U db'"

lemma econ_step_keeps:
  assumes "econ_step U db db'" and "inj U" and "ledger_ok U db"
  shows "ledger_ok U db'"
  using assms(1)
proof cases
  case (schedule env actor d inp ctx snap r)
  then show ?thesis
    using assms(3) createSchedule_frame ledger_frame_keeps by blast
next
  case (revenue env actor d inp ctx snap r)
  then show ?thesis
    using assms(2,3) recordRevenueEvent_keeps by (metis prod_cases3)
next
  case (payment env actor d inp ctx snap r)
  then show ?thesis
    using assms(2,3) recordPayment_keeps by (metis prod.collapse)
next
  case (adjustment env actor d rootId inp ctx snap r)
  then show ?thesis
    using assms(2,3) adjustLedger_keeps by (metis prod.collapse)
next
  case (job env keyId h i snap tab tab' r)
  then show ?thesis
    using assms(3) job_no_change [OF assms(3) job(2)] by auto
next
  case (deals ds)
  then show ?thesis
    using assms(3) by (simp add: ledger_ok_def)
qed

lemma reachable_ledger_ok:
  assumes "econ_reach U db" and "inj U"
  shows "ledger_ok U db"
  using assms(1)
proof induction
  case (start db)
  then show ?case
    by (simp add: ledger_ok_def ids_ok_def chains_ok_def events_ok_def payments_ok_def)
next
  case (step db db')
  then show ?case
    using econ_step_keeps assms(2) by blast
qed

end
