(* ===== verification/Economics_Guarantees.thy ===== *)
theory Economics_Guarantees
  imports Economics_Ledger "HOL-Library.Sublist"
begin

text \<open>
  What the economics module guarantees of its reachable states, over the invariant of
  \<open>Economics_Ledger\<close>: the ledger is append-only and balances, it implements a plain map from
  accruals to outstanding amounts, parties see only their own rows, and only two roles move money.
\<close>

section \<open>The ledger as accounts\<close>

text \<open>The abstract state: what is outstanding on each accrual.\<close>

definition accounts :: "Store \<Rightarrow> string \<rightharpoonup> int" where
  "accounts db rootId =
     (let chain = accrual_listByAccrualRoot db rootId in
      if chain = [] then None else Some (still_owed (map ledger_entry chain)))"

text \<open>What a row adds to the outstanding amount of its accrual.\<close>

definition row_effect :: "CommissionAccrual \<Rightarrow> int" where
  "row_effect r = (case row_type r of
     ACCRUAL \<Rightarrow> row_amount r
   | ADJUSTMENT \<Rightarrow> (if l_direction (ca_columns r) = CREDIT then row_amount r else - row_amount r)
   | PAYMENT \<Rightarrow> - row_amount r
   | REVERSAL \<Rightarrow> 0)"

definition rows_account :: "CommissionAccrual list \<Rightarrow> string \<rightharpoonup> int" where
  "rows_account rows rootId =
     (let chain = filter (\<lambda>r. ca_accrualRootId r = rootId) rows in
      if chain = [] then None else Some (sum_list (map row_effect chain)))"

lemma net_minus_paid_effects:
  "\<not> has_type REVERSAL (map ledger_entry c) \<Longrightarrow>
   still_owed (map ledger_entry c) = sum_list (map row_effect c)"
proof (induction c)
  case (Cons r c)
  then show ?case
    by (cases "row_type r")
      (auto simp: still_owed_def net_owed_def row_effect_def ledger_entry_def signed_amount_def)
qed (simp add: still_owed_def net_owed_def)

lemma no_reversals:
  assumes "ledger_ok U db"
  shows "\<not> has_type REVERSAL (map ledger_entry (accrual_listByAccrualRoot db rootId))"
  using assms
  by (auto simp: ledger_ok_def chains_ok_def has_type_def ledger_entry_def accrual_listByAccrualRoot_def)

lemma sort_key_Nil [simp]: "sort_key k xs = [] \<longleftrightarrow> xs = []"
  by (metis length_0_conv length_sort)

lemma filter_key_Nil: "r \<notin> f ` set xs \<Longrightarrow> filter (\<lambda>x. f x = r) xs = []"
  by (auto simp: filter_empty_conv)

lemma accounts_rows:
  assumes "ledger_ok U db"
  shows "accounts db rootId = rows_account (db_accruals db) rootId"
proof -
  have "sum_list (map row_effect (sort_key k c)) = sum_list (map row_effect c)" for k :: "CommissionAccrual \<Rightarrow> int" and c
    by (rule sum_list_mset_eq) simp
  then show ?thesis
    using net_minus_paid_effects [OF no_reversals [OF assms]]
    by (auto simp: accounts_def rows_account_def Let_def accrual_listByAccrualRoot_def)
qed

lemma rows_account_append:
  "rows_account (rows @ new) rootId =
     (case rows_account rows rootId of
        None \<Rightarrow> rows_account new rootId
      | Some n \<Rightarrow> Some (n + (case rows_account new rootId of None \<Rightarrow> 0 | Some m \<Rightarrow> m)))"
  by (simp add: rows_account_def Let_def)

lemma rows_account_follows:
  assumes "chains_ok rows" and "\<forall>r \<in> set new. follows rows r" and "rows_account rows rootId = None"
  shows "rows_account new rootId = None"
proof -
  have "ca_accrualRootId r \<noteq> rootId" if r: "r \<in> set new" for r
  proof
    assume eq: "ca_accrualRootId r = rootId"
    obtain a where "a \<in> set rows" "opens a r"
      using assms(2) r unfolding follows_def by blast
    moreover from this have "ca_accrualRootId a = ca_id a" "ca_id a = rootId"
      using assms(1) eq by (auto simp: chains_ok_def opens_def)
    ultimately show False
      using assms(3) by (auto simp: rows_account_def Let_def filter_empty_conv split: if_splits)
  qed
  then show ?thesis
    by (simp add: rows_account_def filter_empty_conv)
qed

text \<open>The abstract operations.\<close>

definition pay :: "(string \<times> int) list \<Rightarrow> (string \<rightharpoonup> int) \<Rightarrow> (string \<rightharpoonup> int)" where
  "pay items acc = (\<lambda>r. map_option (\<lambda>n. n - sum_list (map snd (filter (\<lambda>i. fst i = r) items))) (acc r))"

definition adjust :: "string \<Rightarrow> int \<Rightarrow> (string \<rightharpoonup> int) \<Rightarrow> (string \<rightharpoonup> int)" where
  "adjust rootId delta acc = (\<lambda>r. if r = rootId then map_option (\<lambda>n. n + delta) (acc r) else acc r)"

definition loaded_items :: "LoadedPayment list \<Rightarrow> (string \<times> int) list" where
  "loaded_items ls = map (\<lambda>l. (lp_accrualRootId l, lp_amountMinor l)) ls"

lemma payment_rows_account:
  "(case rows_account (accrual_rows env n (map (paymentInput actor d currency payment t) ls)) r of
      None \<Rightarrow> 0 | Some m \<Rightarrow> m) =
   - sum_list (map snd (filter (\<lambda>i. fst i = r) (loaded_items ls)))"
proof (induction ls arbitrary: n)
  case Nil
  then show ?case by (simp add: rows_account_def loaded_items_def)
next
  case (Cons l ls)
  have "row_effect (accrual_row env n (paymentInput actor d currency payment t l)) = - lp_amountMinor l"
    by (simp add: row_effect_def paymentInput_columns del: accrual_row_columns)
  then show ?case
    using Cons.IH [of "Suc n"]
    by (auto simp: rows_account_def Let_def loaded_items_def paymentInput_columns split: if_splits)
qed

lemma recordPayment_accounts:
  assumes ok: "ledger_ok U db"
    and U: "inj U" "uuid env = U"
    and step: "recordPayment env actor d inp ctx snap db = Inr (db', payment, entries)"
  obtains items where
    "map fst items = map pi_accrualRootId (rp_payments inp)"
    "\<forall>(r, n) \<in> set items. 0 < n \<and> (\<exists>m. accounts db r = Some m \<and> n \<le> m)"
    "accounts db' = pay items (accounts db)" "cp_totalAmountMinor payment = sum_list (map snd items)"
  using step
proof (rule recordPayment_effect)
  fix fresh recipient currency
  assume load: "loadAndValidatePayments db d (rp_payments inp) = Inr fresh"
    and single: "validateSingleRecipientAndCurrency fresh = Inr (recipient, currency)"
    and total: "cp_totalAmountMinor payment = sum_list (map lp_amountMinor fresh)"
    and entries: "entries = accrual_rows env (Suc (db_ids db)) (map (paymentInput actor d currency payment
       (case rp_paidAt inp of Some t \<Rightarrow> t | None \<Rightarrow> clock env)) fresh)"
    and db': "db_accruals db' = db_accruals db @ entries"
  have ok': "ledger_ok U db'"
    using recordPayment_keeps [OF ok U step] .
  have new: "\<forall>r \<in> set entries. follows (db_accruals db) r"
    unfolding entries using payment_rows_follow [OF ok load single] by blast
  have ch: "chains_ok (db_accruals db)"
    using ok by (simp add: ledger_ok_def)
  have "accounts db' r = pay (loaded_items fresh) (accounts db) r" for r
    using rows_account_follows [OF ch new, of r]
      payment_rows_account [of env "Suc (db_ids db)" actor d currency payment _ fresh r]
    by (auto simp: accounts_rows [OF ok] accounts_rows [OF ok'] db' entries rows_account_append pay_def
        split: option.splits)
  then have "accounts db' = pay (loaded_items fresh) (accounts db)" ..
  moreover have "0 < lp_amountMinor l \<and> (\<exists>m. accounts db (lp_accrualRootId l) = Some m \<and> lp_amountMinor l \<le> m)"
    if l: "l \<in> set fresh" for l
  proof -
    obtain p where "loadPayment db d p = Inr l"
      using load l by (rule loadPayments_loaded)
    then show ?thesis
      using loadPayment_result(1,3,7,8) by (auto simp: accounts_def Let_def)
  qed
  ultimately show thesis
    using that [of "loaded_items fresh"] loadPayments_roots [OF load] total
    by (auto simp: loaded_items_def comp_def)
qed

lemma adjustLedger_accounts:
  assumes ok: "ledger_ok U db" and U: "inj U" "uuid env = U"
    and step: "adjustLedger env actor d rootId inp ctx snap db = Inr (db', entry, balance)"
  obtains amount m where "0 < amount" "accounts db rootId = Some m"
    "accounts db' = adjust rootId (if ra_direction inp = CREDIT then amount else - amount) (accounts db)"
    "accounts db' rootId = Some (outstandingAmountMinor balance)"
  using step
proof (rule adjustLedger_effect)
  fix amount :: int
  let ?chain = "accrual_listByAccrualRoot db rootId"
  let ?delta = "if ra_direction inp = CREDIT then amount else - amount"
  assume ne: "?chain \<noteq> []" and pos: "0 < amount"
    and entry: "entry = accrual_row env (db_ids db) (adjustmentInput env actor d rootId inp amount (hd ?chain))"
    and bal: "chain_balance (?chain @ [entry]) = Inr balance"
    and db': "db_accruals db' = db_accruals db @ [entry]"
  have cols: "ca_accrualRootId entry = rootId" "row_effect entry = ?delta" "row_type entry = ADJUSTMENT"
    by (simp_all add: entry accrual_row_def adjustmentInput_def Let_def row_effect_def)
  have ok': "ledger_ok U db'"
    using adjustLedger_keeps [OF ok U step] .
  obtain m where m: "accounts db rootId = Some m" "m = still_owed (map ledger_entry ?chain)"
    using ne by (simp add: accounts_def)
  have acc: "accounts db' = adjust rootId ?delta (accounts db)"
    using cols m(1) unfolding accounts_rows [OF ok, abs_def] accounts_rows [OF ok', abs_def] db'
    by (auto simp: rows_account_append adjust_def fun_eq_iff rows_account_def Let_def
        split: option.splits if_splits)
  have "\<not> has_type REVERSAL (map ledger_entry (?chain @ [entry]))"
    using no_reversals [OF ok, of rootId] cols(3) by (auto simp: has_type_def ledger_entry_def)
  then have "outstandingAmountMinor balance = sum_list (map row_effect (?chain @ [entry]))"
    using bal by (simp add: chain_balance_result net_minus_paid_effects del: map_append)
  then have "outstandingAmountMinor balance = m + ?delta"
    using cols(2) m(2) no_reversals [OF ok, of rootId] by (simp add: net_minus_paid_effects)
  then show thesis
    using that [OF pos m(1) acc] m(1) acc by (simp add: adjust_def)
qed

lemma opening_rows_account:
  assumes "\<forall>e \<in> set es. row_type e = ACCRUAL \<and> ca_accrualRootId e = ca_id e" and "distinct (map ca_id es)"
  shows "rows_account es r = map_of (map (\<lambda>e. (ca_id e, row_amount e)) es) r"
  using assms
proof (induction es)
  case Nil
  then show ?case by (simp add: rows_account_def)
next
  case (Cons e es)
  show ?case
  proof (cases "ca_id e = r")
    case True
    then have "r \<notin> ca_id ` set es"
      using Cons.prems(2) by simp
    then have "filter (\<lambda>x. ca_accrualRootId x = r) es = []"
      using Cons.prems(1) unfolding filter_empty_conv by (metis imageI list.set_intros(2))
    then show ?thesis
      using True Cons.prems by (simp add: rows_account_def row_effect_def)
  next
    case False
    then show ?thesis
      using Cons by (simp add: rows_account_def)
  qed
qed

lemma recordRevenueEvent_accounts:
  assumes ok: "ledger_ok U db" and U: "inj U" "uuid env = U"
    and step: "recordRevenueEvent env actor d inp ctx snap db = Inr (db', ev, entries, recon)"
  shows "accounts db' = accounts db ++ map_of (map (\<lambda>e. (ca_id e, row_amount e)) entries)"
    "sum_list (map row_amount entries) = re_netDistributableMinor ev"
    "\<forall>e \<in> set entries. accounts db (ca_id e) = None \<and> 0 \<le> row_amount e"
    "\<forall>e \<in> set entries. row_type e = ACCRUAL \<and> ca_accrualRootId e = ca_id e \<and> event_of e = re_id ev"
    "entries \<noteq> []" "re_netDistributableMinor ev = re_grossAmountMinor ev - re_deductionsMinor ev"
    "recon = reconcileRevenueEvent \<lparr>grossAmountMinor = re_grossAmountMinor ev,
       deductionsMinor = re_deductionsMinor ev, recon_netDistributableMinor = re_netDistributableMinor ev,
       ledgerEntries = map ledger_entry entries\<rparr>"
    "distinct (map ca_id entries)"
proof -
  have ok': "ledger_ok U db'"
    using recordRevenueEvent_keeps [OF ok U step] .
  obtain schedule split targeted where
    comp: "computeCommissionSplits \<lparr>netDistributableMinor = re_netDistributableMinor ev, components = targeted,
       scheduleId = cs_id schedule, scheduleVersion = cs_versionNumber schedule,
       now = (case rv_recognizedAt inp of Some t \<Rightarrow> t | None \<Rightarrow> clock env), inputVersions = None\<rparr> = Inr split"
    and entries: "entries = accrual_rows env (Suc (db_ids db)) (map (accrualInput (accrual_columns ev schedule split
       (Some (userId actor)) (organizationId actor))) (result_entries split))"
    and db': "db_accruals db' = db_accruals db @ entries"
    and net: "re_netDistributableMinor ev = re_grossAmountMinor ev - re_deductionsMinor ev"
    and rec: "recon = reconcileRevenueEvent \<lparr>grossAmountMinor = re_grossAmountMinor ev,
       deductionsMinor = re_deductionsMinor ev, recon_netDistributableMinor = re_netDistributableMinor ev,
       ledgerEntries = map ledger_entry entries\<rparr>"
    using step by (rule recordRevenueEvent_effect) (rule that)
  note facts = compute_split_facts [OF comp, simplified]
  have new: "\<forall>e \<in> set entries. row_type e = ACCRUAL \<and> ca_accrualRootId e = ca_id e \<and> event_of e = re_id ev"
    and amounts: "\<forall>e \<in> set entries. 0 \<le> row_amount e"
    unfolding entries by (auto elim!: accrual_rows_open dest: facts(3))
  have ids: "distinct (map ca_id (db_accruals db @ entries))"
    using ok' by (simp add: ledger_ok_def ids_ok_def db')
  have roots: "ca_accrualRootId r \<in> ca_id ` set (db_accruals db)" if "r \<in> set (db_accruals db)" for r
    using ok that by (auto simp: ledger_ok_def chains_ok_def opens_def) (metis image_eqI)
  have fresh: "accounts db (ca_id e) = None" if "e \<in> set entries" for e
    using ids roots that
    by (fastforce simp: accounts_rows [OF ok] rows_account_def Let_def filter_empty_conv)
  have "accounts db' r = (accounts db ++ map_of (map (\<lambda>e. (ca_id e, row_amount e)) entries)) r" for r
  proof -
    have "rows_account entries r = map_of (map (\<lambda>e. (ca_id e, row_amount e)) entries) r"
      using new ids by (intro opening_rows_account) auto
    moreover have "rows_account (db_accruals db) r = None" if "rows_account entries r \<noteq> None"
      using that fresh new
      by (fastforce simp: accounts_rows [OF ok] rows_account_def Let_def filter_empty_conv split: if_splits)
    ultimately show ?thesis
      unfolding accounts_rows [OF ok] accounts_rows [OF ok'] db'
      by (auto simp: rows_account_append map_add_def accounts_rows [OF ok] split: option.splits)
  qed
  then show "accounts db' = accounts db ++ map_of (map (\<lambda>e. (ca_id e, row_amount e)) entries)" ..
  show "sum_list (map row_amount entries) = re_netDistributableMinor ev"
    unfolding entries accrual_rows_amounts by (rule facts(1))
  show "\<forall>e \<in> set entries. accounts db (ca_id e) = None \<and> 0 \<le> row_amount e"
    using fresh amounts by blast
  show "\<forall>e \<in> set entries. row_type e = ACCRUAL \<and> ca_accrualRootId e = ca_id e \<and> event_of e = re_id ev"
    by (rule new)
  show "entries \<noteq> []"
    using facts(2) by (simp add: entries flip: length_greater_0_conv)
  show "distinct (map ca_id entries)"
    using ids by simp
  show "re_netDistributableMinor ev = re_grossAmountMinor ev - re_deductionsMinor ev"
    "recon = reconcileRevenueEvent \<lparr>grossAmountMinor = re_grossAmountMinor ev,
       deductionsMinor = re_deductionsMinor ev, recon_netDistributableMinor = re_netDistributableMinor ev,
       ledgerEntries = map ledger_entry entries\<rparr>"
    by (fact net) (fact rec)
qed

text \<open>The rows written for an event, component by component.\<close>

lemma split_components:
  "image_mset (\<lambda>x. (entry_componentId x, entry_recipientOrgId x, entry_claimId x))
     (mset (map fixed_entry (fixed_components cs) @ map (bps_entry R B) (bps_components cs))) =
   image_mset (\<lambda>c. (componentId c, recipientOrgId c, claimId c)) (mset cs)"
proof (induction cs)
  case (Cons c cs)
  then show ?case
    by (cases "componentType c") (auto simp: fixed_components_def bps_components_def fixed_entry_def bps_entry_def)
qed (simp add: fixed_components_def bps_components_def)

lemma accrual_rows_entries:
  "map (\<lambda>e. (l_componentId (ca_columns e), l_recipientOrgId (ca_columns e), l_claimId (ca_columns e), row_amount e))
     (accrual_rows env n (map (accrualInput shared) es)) =
   map (\<lambda>x. (entry_componentId x, entry_recipientOrgId x, entry_claimId x, entry_amountMinor x)) es"
  by (simp add: list_eq_iff_nth_eq accrual_rows_nth accrualInput_def)

lemma recordRevenueEvent_split:
  assumes "recordRevenueEvent env actor d inp ctx snap db = Inr (db', ev, entries, recon)"
  shows "\<exists>schedule rows targeted split. activeScheduleFor snap d (rv_basis inp) = Inr schedule \<and>
    rows = component_listBySchedule snap (cs_id schedule) \<and>
    targeted = selectComponentsForBasis (toComponentInputs rows) (cs_basis schedule) (rv_basis inp)
      (basisOverrides rows) \<and>
    image_mset (\<lambda>e. (l_componentId (ca_columns e), l_recipientOrgId (ca_columns e), l_claimId (ca_columns e)))
      (mset entries) = image_mset (\<lambda>c. (componentId c, recipientOrgId c, claimId c)) (mset targeted) \<and>
    computeCommissionSplits \<lparr>netDistributableMinor = re_netDistributableMinor ev, components = targeted,
      scheduleId = cs_id schedule, scheduleVersion = cs_versionNumber schedule,
      now = (case rv_recognizedAt inp of Some t \<Rightarrow> t | None \<Rightarrow> clock env), inputVersions = None\<rparr> = Inr split \<and>
    map (\<lambda>e. (l_componentId (ca_columns e), row_amount e)) entries =
      map (\<lambda>x. (entry_componentId x, entry_amountMinor x)) (result_entries split)"
proof -
  obtain schedule targeted split shared where
    active: "activeScheduleFor snap d (rv_basis inp) = Inr schedule" and
    targeted: "targeted = selectComponentsForBasis (toComponentInputs (component_listBySchedule snap (cs_id schedule)))
      (cs_basis schedule) (rv_basis inp) (basisOverrides (component_listBySchedule snap (cs_id schedule)))" and
    split: "computeCommissionSplits \<lparr>netDistributableMinor = re_netDistributableMinor ev, components = targeted,
      scheduleId = cs_id schedule, scheduleVersion = cs_versionNumber schedule,
      now = (case rv_recognizedAt inp of Some t \<Rightarrow> t | None \<Rightarrow> clock env), inputVersions = None\<rparr> = Inr split" and
    entries: "entries = accrual_rows env (Suc (db_ids db)) (map (accrualInput shared) (result_entries split))"
    using assms [unfolded recordRevenueEvent_def Let_def]
    by (auto simp: ebind_eq_Inr revenueEvent_create_result accrual_createMany_result newId_def split: prod.splits)
  have rows: "map (\<lambda>e. (l_componentId (ca_columns e), l_recipientOrgId (ca_columns e), l_claimId (ca_columns e),
      row_amount e)) entries =
    map (\<lambda>x. (entry_componentId x, entry_recipientOrgId x, entry_claimId x, entry_amountMinor x)) (result_entries split)"
    unfolding entries by (rule accrual_rows_entries)
  have "image_mset (\<lambda>x. (entry_componentId x, entry_recipientOrgId x, entry_claimId x)) (mset (result_entries split)) =
      image_mset (\<lambda>c. (componentId c, recipientOrgId c, claimId c)) (mset targeted)"
    using compute_splittable [OF compute_accepts [OF split]] split split_components by auto
  moreover have "map (\<lambda>e. (l_componentId (ca_columns e), l_recipientOrgId (ca_columns e), l_claimId (ca_columns e))) entries =
      map (\<lambda>x. (entry_componentId x, entry_recipientOrgId x, entry_claimId x)) (result_entries split)"
    using arg_cong [OF rows, of "map (\<lambda>(a, b, c, n). (a, b, c))"] by (simp add: comp_def)
  moreover have "map (\<lambda>e. (l_componentId (ca_columns e), row_amount e)) entries =
      map (\<lambda>x. (entry_componentId x, entry_amountMinor x)) (result_entries split)"
    using arg_cong [OF rows, of "map (\<lambda>(a, b, c, n). (a, n))"] by (simp add: comp_def)
  ultimately have comps: "image_mset (\<lambda>e. (l_componentId (ca_columns e), l_recipientOrgId (ca_columns e),
      l_claimId (ca_columns e))) (mset entries) =
      image_mset (\<lambda>c. (componentId c, recipientOrgId c, claimId c)) (mset targeted)"
    and amounts: "map (\<lambda>e. (l_componentId (ca_columns e), row_amount e)) entries =
      map (\<lambda>x. (entry_componentId x, entry_amountMinor x)) (result_entries split)"
    unfolding mset_map [symmetric] by simp_all
  show ?thesis
    by (intro exI conjI) (rule active refl targeted comps split amounts)+
qed

section \<open>Guarantees\<close>

text \<open>C3. The books balance in every reachable state: each revenue event is distributed in full to its
  accruals, each payment is the sum of its ledger rows, no event or payment is recorded twice, and the
  balance of every accrual can be computed.\<close>

theorem ledger_balances:
  assumes "econ_reach U db" and "inj U"
  shows "(\<forall>ev \<in> set (db_revenueEvents db).
       re_netDistributableMinor ev = re_grossAmountMinor ev - re_deductionsMinor ev \<and>
       accrued_for (db_accruals db) (re_id ev) = re_netDistributableMinor ev) \<and>
    (\<forall>p \<in> set (db_payments db). paid_with (db_accruals db) (cp_id p) = cp_totalAmountMinor p) \<and>
    distinct (map (\<lambda>e. (re_dealRoomId e, re_period e, re_source e)) (db_revenueEvents db)) \<and>
    distinct (map cp_reference (db_payments db)) \<and>
    (\<forall>r \<in> set (db_accruals db). \<exists>b.
       chain_balance (accrual_listByAccrualRoot db (ca_accrualRootId r)) = Inr b)"
proof -
  have ok: "ledger_ok U db"
    using assms by (rule reachable_ledger_ok)
  have "\<exists>b. chain_balance (accrual_listByAccrualRoot db (ca_accrualRootId r)) = Inr b"
    if "r \<in> set (db_accruals db)" for r
  proof -
    have "accrual_listByAccrualRoot db (ca_accrualRootId r) \<noteq> []"
      using that by (auto simp: accrual_listByAccrualRoot_def filter_empty_conv)
    then show ?thesis
      using chain_is_chain [OF ok] by (simp add: chain_balance_result)
  qed
  then show ?thesis
    using ok by (simp add: ledger_ok_def events_ok_def payments_ok_def)
qed

text \<open>C4. The ledger is append-only: no request changes or removes a ledger row, a revenue event or a
  payment, and a request that adds ledger rows also adds one audit record and one timeline event.\<close>

theorem ledger_append_only:
  assumes "econ_reach U db" and "inj U" and "econ_step U db db'"
  shows "prefix (db_accruals db) (db_accruals db') \<and> prefix (db_revenueEvents db) (db_revenueEvents db') \<and>
    prefix (db_payments db) (db_payments db') \<and>
    (db_accruals db' = db_accruals db \<or>
     (\<exists>a e. db_audit db' = db_audit db @ [a] \<and> db_timeline db' = db_timeline db @ [e]))"
  using assms(3)
proof cases
  case (schedule env actor d inp ctx snap r)
  then show ?thesis
    using createSchedule_frame by (fastforce simp: ledger_frame_def)
next
  case (revenue env actor d inp ctx snap r)
  then obtain ev entries recon where "recordRevenueEvent env actor d inp ctx snap db = Inr (db', ev, entries, recon)"
    by (cases r) auto
  then show ?thesis
    by (rule recordRevenueEvent_effect) simp
next
  case (payment env actor d inp ctx snap r)
  then obtain p entries where "recordPayment env actor d inp ctx snap db = Inr (db', p, entries)"
    by (cases r) auto
  then show ?thesis
    by (rule recordPayment_effect) simp
next
  case (adjustment env actor d rootId inp ctx snap r)
  then obtain e b where "adjustLedger env actor d rootId inp ctx snap db = Inr (db', e, b)"
    by (cases r) auto
  then show ?thesis
    by (rule adjustLedger_effect) simp
next
  case (job env keyId h i snap tab tab' r)
  then show ?thesis
    using job_no_change [OF reachable_ledger_ok [OF assms(1,2)] job(2)] by auto
next
  case (deals ds)
  then show ?thesis by simp
qed

text \<open>C5. A recorded payment implements the abstract operation \<open>pay\<close> on the outstanding amounts: each
  item is positive and covered by what its accrual owed when the lock was granted, and when the batch
  names no accrual twice, no accrual is paid beyond what it owes.\<close>

theorem recordPayment_refines_accounts:
  assumes "econ_reach U db" and "inj U" and "uuid env = U"
    and "recordPayment env actor d inp ctx snap db = Inr (db', payment, entries)"
  shows "\<exists>items. map fst items = map pi_accrualRootId (rp_payments inp) \<and>
    (\<forall>(r, n) \<in> set items. 0 < n \<and> (\<exists>m. accounts db r = Some m \<and> n \<le> m)) \<and>
    accounts db' = pay items (accounts db) \<and>
    cp_totalAmountMinor payment = sum_list (map snd items) \<and>
    (distinct (map pi_accrualRootId (rp_payments inp)) \<longrightarrow>
     (\<forall>r m. accounts db r = Some m \<longrightarrow> 0 \<le> m \<longrightarrow> (\<exists>m'. accounts db' r = Some m' \<and> 0 \<le> m')))"
proof -
  obtain items where items: "map fst items = map pi_accrualRootId (rp_payments inp)"
    "\<forall>(r, n) \<in> set items. 0 < n \<and> (\<exists>m. accounts db r = Some m \<and> n \<le> m)"
    "accounts db' = pay items (accounts db)" "cp_totalAmountMinor payment = sum_list (map snd items)"
    using recordPayment_accounts [OF reachable_ledger_ok [OF assms(1,2)] assms(2-4)] by blast
  have covered: "sum_list (map snd (filter (\<lambda>i. fst i = r) items)) \<le> m"
    if "distinct (map fst items)" "accounts db r = Some m" "0 \<le> m" for r m
    using that items(2)
  proof (induction items)
    case (Cons i items)
    show ?case
    proof (cases "fst i = r")
      case True
      then have "filter (\<lambda>i. fst i = r) items = []"
        using Cons.prems(1) by (intro filter_key_Nil) simp
      then show ?thesis
        using True Cons.prems by (cases i) auto
    next
      case False
      then show ?thesis
        using Cons by simp
    qed
  qed simp
  then have "\<exists>m'. accounts db' r = Some m' \<and> 0 \<le> m'"
    if "distinct (map pi_accrualRootId (rp_payments inp))" "accounts db r = Some m" "0 \<le> m" for r m
    using that covered [of r m] items(1,3) by (simp add: pay_def)
  then show ?thesis
    using items by blast
qed

text \<open>C6. Recording a revenue event opens one account per component of the deal's active schedule that
  shares the event's basis, owed to that component's recipient, with the amount the split engine
  computes for it; together they are worth exactly the net amount. It leaves the other accounts alone
  and returns a reconciliation that balances.\<close>

theorem recordRevenueEvent_refines_accounts:
  assumes "econ_reach U db" and "inj U" and "uuid env = U"
    and "recordRevenueEvent env actor d inp ctx snap db = Inr (db', ev, entries, recon)"
  shows "accounts db' = accounts db ++ map_of (map (\<lambda>e. (ca_id e, row_amount e)) entries) \<and>
    entries \<noteq> [] \<and> distinct (map ca_id entries) \<and>
    (\<forall>e \<in> set entries. accounts db (ca_id e) = None \<and> 0 \<le> row_amount e) \<and>
    (\<exists>schedule rows targeted split. activeScheduleFor snap d (rv_basis inp) = Inr schedule \<and>
       rows = component_listBySchedule snap (cs_id schedule) \<and>
       targeted = selectComponentsForBasis (toComponentInputs rows) (cs_basis schedule) (rv_basis inp)
         (basisOverrides rows) \<and>
       image_mset (\<lambda>e. (l_componentId (ca_columns e), l_recipientOrgId (ca_columns e), l_claimId (ca_columns e)))
         (mset entries) = image_mset (\<lambda>c. (componentId c, recipientOrgId c, claimId c)) (mset targeted) \<and>
       computeCommissionSplits \<lparr>netDistributableMinor = re_netDistributableMinor ev, components = targeted,
         scheduleId = cs_id schedule, scheduleVersion = cs_versionNumber schedule,
         now = (case rv_recognizedAt inp of Some t \<Rightarrow> t | None \<Rightarrow> clock env), inputVersions = None\<rparr> = Inr split \<and>
       map (\<lambda>e. (l_componentId (ca_columns e), row_amount e)) entries =
         map (\<lambda>x. (entry_componentId x, entry_amountMinor x)) (result_entries split)) \<and>
    sum_list (map row_amount entries) = re_netDistributableMinor ev \<and>
    reconciled recon \<and> outstandingMinor recon = re_netDistributableMinor ev \<and> paidMinor recon = 0"
proof -
  note facts = recordRevenueEvent_accounts [OF reachable_ledger_ok [OF assms(1,2)] assms(2-4)]
  have "type_total t (map ledger_entry es) = (if t = ACCRUAL then sum_list (map row_amount es) else 0)"
    if "\<forall>e \<in> set es. row_type e = ACCRUAL" for es t
    using that by (induction es) (auto simp: ledger_entry_def)
  then have totals: "type_total t (map ledger_entry entries) =
      (if t = ACCRUAL then re_netDistributableMinor ev else 0)" for t
    using facts(2,4) by simp
  have "reconciled recon" "outstandingMinor recon = re_netDistributableMinor ev" "paidMinor recon = 0"
    using facts(6) by (simp_all add: facts(7) reconcileRevenueEvent_def recon_fold totals)
  with recordRevenueEvent_split [OF assms(4)] show ?thesis
    using facts(1-5,8) by (intro conjI) (assumption | blast)+
qed

text \<open>An adjustment moves one account by its signed amount and nothing else, and the balance it
  returns is the new one. A debit may exceed the balance: the account then becomes negative.\<close>

theorem adjustLedger_refines_accounts:
  assumes "econ_reach U db" and "inj U" and "uuid env = U"
    and "adjustLedger env actor d rootId inp ctx snap db = Inr (db', entry, balance)"
  shows "\<exists>amount m. 0 < amount \<and> accounts db rootId = Some m \<and>
    accounts db' = adjust rootId (if ra_direction inp = CREDIT then amount else - amount) (accounts db) \<and>
    accounts db' rootId = Some (outstandingAmountMinor balance)"
  using adjustLedger_accounts [OF reachable_ledger_ok [OF assms(1,2)] assms(2-4)] by metis

text \<open>The accrual job never writes a second set of accruals: in a reachable state it leaves the
  database and its key table as they are.\<close>

theorem accrual_job_never_doubles:
  assumes "econ_reach U db" and "inj U"
  shows "\<exists>res. economicsAccrualJob env keyId h i snap tab db = Inr (tab, db, res) \<and>
    (job_status res = already_accrued \<or> job_status res = skipped_no_active_schedule)"
  using job_no_change [OF reachable_ledger_ok [OF assms] refl, of env keyId h i snap tab]
  by (auto simp: skipped_def)

section \<open>Reading the ledger\<close>

lemma groupLoop_sound:
  assumes "groupLoop rows ids = Inr as" and "a \<in> set as"
  shows "ab_accrualRootId a \<in> set ids \<and>
    ab_entries a = sort_key ca_createdAt (filter (\<lambda>r. ca_accrualRootId r = ab_accrualRootId a) rows) \<and>
    chain_balance (ab_entries a) = Inr (ab_balance a)"
  using assms
proof (induction ids arbitrary: as)
  case (Cons i ids)
  then show ?case
    by (auto simp: ebind_eq_Inr Let_def split: option.splits)
qed simp

lemma groupLoop_complete:
  assumes "groupLoop rows ids = Inr as" and "r \<in> set rows" and "row_type r = ACCRUAL"
    and "ca_accrualRootId r \<in> set ids"
  shows "\<exists>a \<in> set as. ab_accrualRootId a = ca_accrualRootId r"
  using assms(1,4)
proof (induction ids arbitrary: as)
  case (Cons i ids)
  show ?case
  proof (cases "find (\<lambda>r. row_type r = ACCRUAL) (filter (\<lambda>r. ca_accrualRootId r = i) rows)")
    case None
    then have "ca_accrualRootId r \<noteq> i"
      using assms(2,3) by (auto simp: find_None_iff)
    then show ?thesis
      using Cons None by (auto simp: Let_def)
  next
    case (Some x)
    then obtain b rest where "groupLoop rows ids = Inr rest"
      "as = \<lparr>ab_accrualRootId = i, ab_root = x, ab_balance = b,
         ab_entries = sort_key ca_createdAt (filter (\<lambda>r. ca_accrualRootId r = i) rows)\<rparr> # rest"
      using Cons.prems(1) by (auto simp: Let_def ebind_eq_Inr)
    then show ?thesis
      using Cons.IH Cons.prems(2) by (cases "ca_accrualRootId r = i") auto
  qed
qed simp

definition sees_all :: "Actor \<Rightarrow> bool" where
  "sees_all actor = (case role actor of None \<Rightarrow> False | Some r \<Rightarrow> r \<in> set CROSS_ORG_ECONOMICS_ROLES)"

text \<open>The rows of a deal room the actor may see.\<close>

definition may_see :: "Actor \<Rightarrow> string \<Rightarrow> CommissionAccrual \<Rightarrow> bool" where
  "may_see actor d r \<longleftrightarrow> l_dealRoomId (ca_columns r) = d \<and>
     (sees_all actor \<or> Some (l_recipientOrgId (ca_columns r)) = organizationId actor)"

lemma getLedger_rows:
  assumes "getLedger actor d db = Inr as"
  obtains rows where "groupLoop rows (root_ids rows) = Inr as"
    "rows = sort_key (\<lambda>r. - ca_createdAt r) (filter (may_see actor d) (db_accruals db))"
proof -
  let ?all = "accrual_listByDealRoom db d"
  let ?vis = "if sees_all actor then ?all
    else filter (\<lambda>r. Some (l_recipientOrgId (ca_columns r)) = organizationId actor) ?all"
  have group: "groupLoop ?vis (root_ids ?vis) = Inr as"
    using assms unfolding getLedger_def Let_def ebind_eq_Inr groupIntoAccruals_def sees_all_def [symmetric]
    by auto
  have "?vis = sort_key (\<lambda>r. - ca_createdAt r) (filter (may_see actor d) (db_accruals db))"
    by (cases "sees_all actor") (simp_all add: accrual_listByDealRoom_def may_see_def [abs_def] filter_sort)
  with group show thesis
    by (rule that)
qed

lemma may_see_same: "same_accrual a b \<Longrightarrow> may_see actor d a = may_see actor d b"
  by (simp add: may_see_def same_accrual_def Let_def)

lemma chain_agrees:
  assumes "ledger_ok U db" and "r \<in> set (db_accruals db)" and "s \<in> set (db_accruals db)"
    and "ca_accrualRootId r = ca_accrualRootId s"
  shows "same_accrual r s"
proof -
  have c: "chains_ok (db_accruals db)" and d: "distinct (map ca_id (db_accruals db))"
    using assms(1) by (simp_all add: ledger_ok_def ids_ok_def)
  obtain a b where ab: "a \<in> set (db_accruals db)" "opens a r" "b \<in> set (db_accruals db)" "opens b s"
    using c assms(2,3) unfolding chains_ok_def by metis
  then have "ca_id a = ca_id b"
    using assms(4) by (simp add: opens_def)
  then have "a = b"
    using ab d by (meson distinct_map inj_onD)
  then show ?thesis
    using ab by (auto simp: opens_def same_accrual_def Let_def)
qed

text \<open>The ledger view: an actor outside the oversight roles sees exactly the rows of the deal room
  whose recipient is its own organization, an oversight role sees all of them, and the balance shown
  with each accrual is the true outstanding amount although rows were filtered.\<close>

theorem getLedger_view:
  assumes "econ_reach U db" and "inj U" and "getLedger actor d db = Inr as"
  shows "(\<forall>a \<in> set as. accounts db (ab_accrualRootId a) = Some (outstandingAmountMinor (ab_balance a)) \<and>
      list_all (may_see actor d) (ab_entries a)) \<and>
    (\<forall>r \<in> set (db_accruals db). may_see actor d r \<longrightarrow> (\<exists>a \<in> set as. r \<in> set (ab_entries a)))"
proof -
  have ok: "ledger_ok U db"
    using assms(1,2) by (rule reachable_ledger_ok)
  obtain rows where group: "groupLoop rows (root_ids rows) = Inr as"
    and rows: "rows = sort_key (\<lambda>r. - ca_createdAt r) (filter (may_see actor d) (db_accruals db))"
    using assms(3) by (rule getLedger_rows)
  have ids: "set (root_ids rows) = ca_accrualRootId ` set rows"
    by (simp add: root_ids_def)
  have whole: "filter (\<lambda>r. ca_accrualRootId r = i) (filter (may_see actor d) (db_accruals db)) =
      filter (\<lambda>r. ca_accrualRootId r = i) (db_accruals db)" if i: "i \<in> ca_accrualRootId ` set rows" for i
  proof -
    obtain s where s: "s \<in> set (db_accruals db)" "may_see actor d s" "ca_accrualRootId s = i"
      using i by (auto simp: rows)
    have "may_see actor d r" if "r \<in> set (db_accruals db)" "ca_accrualRootId r = i" for r
      using chain_agrees [OF ok s(1) that(1)] s that(2) may_see_same by metis
    then show ?thesis
      unfolding filter_filter by (intro filter_cong) auto
  qed
  have one: "accounts db (ab_accrualRootId a) = Some (outstandingAmountMinor (ab_balance a)) \<and>
      list_all (may_see actor d) (ab_entries a)" if a: "a \<in> set as" for a
  proof -
    note sound = groupLoop_sound [OF group a]
    let ?chain = "filter (\<lambda>r. ca_accrualRootId r = ab_accrualRootId a) (db_accruals db)"
    have shown: "ab_accrualRootId a \<in> ca_accrualRootId ` set rows"
      using sound ids by simp
    then have m: "mset (ab_entries a) = mset ?chain"
      using sound whole [of "ab_accrualRootId a"] by (simp add: rows filter_sort del: filter_filter)
    have "\<not> has_type REVERSAL (map ledger_entry (ab_entries a))"
      using no_reversals [OF ok, of "ab_accrualRootId a"] mset_eq_setD [OF m]
      by (auto simp: has_type_def accrual_listByAccrualRoot_def)
    then have "outstandingAmountMinor (ab_balance a) = sum_list (map row_effect ?chain)"
      using sound sum_list_mset_eq [OF m] by (simp add: chain_balance_result net_minus_paid_effects)
    moreover have "?chain \<noteq> []"
      using shown by (force simp: rows filter_empty_conv)
    moreover have "list_all (may_see actor d) (ab_entries a)"
      using sound by (auto simp: list_all_iff rows)
    ultimately show ?thesis
      by (simp add: accounts_rows [OF ok] rows_account_def)
  qed
  have all: "\<exists>a \<in> set as. r \<in> set (ab_entries a)" if r: "r \<in> set (db_accruals db)" "may_see actor d r" for r
  proof -
    obtain q where q: "q \<in> set (db_accruals db)" "opens q r"
      using ok r(1) unfolding ledger_ok_def chains_ok_def by blast
    have root: "ca_accrualRootId q = ca_accrualRootId r" "row_type q = ACCRUAL" "may_see actor d q"
      using ok q r(2) may_see_same by (auto simp: ledger_ok_def chains_ok_def opens_def)
    have "q \<in> set rows" "r \<in> set rows"
      using q(1) root(3) r by (simp_all add: rows)
    then obtain a where a: "a \<in> set as" "ab_accrualRootId a = ca_accrualRootId r"
      using groupLoop_complete [OF group _ root(2)] ids root(1) by auto
    then show ?thesis
      using groupLoop_sound [OF group a(1)] \<open>r \<in> set rows\<close> by (intro bexI [OF _ a(1)]) simp
  qed
  show ?thesis
    using one all by blast
qed

lemma ledger_grants:
  "A_ledger_record_payment \<in> set (allowedActions (AUTHORITY_MATRIX r)) \<Longrightarrow> r \<in> {PLATFORM_OWNER, FINANCE_OPERATOR}"
  "A_ledger_adjust \<in> set (allowedActions (AUTHORITY_MATRIX r)) \<Longrightarrow> r \<in> {PLATFORM_OWNER, FINANCE_OPERATOR}"
  by (cases r; simp add: grant_defs)+

text \<open>Only the platform owner and the finance operator record a payment or adjust the ledger.\<close>

theorem money_moves_by_finance_only:
  assumes "recordPayment env actor d inp ctx snap db = Inr (db', payment, entries) \<or>
    adjustLedger env actor d rootId inp2 ctx snap db = Inr (db', entry, balance)"
  shows "role actor \<in> {Some PLATFORM_OWNER, Some FINANCE_OPERATOR} \<and> organizationId actor \<noteq> None"
  using assms
proof
  assume "recordPayment env actor d inp ctx snap db = Inr (db', payment, entries)"
  then have "allowed (can actor A_ledger_record_payment \<lparr>rtype = R_commission_accrual, rid = None,
       ownerOrgId = None, privacyClass = None\<rparr> no_context)"
    by (rule recordPayment_effect)
  then show ?thesis
    by (rule can_allow_cases) (auto dest: ledger_grants)
next
  assume "adjustLedger env actor d rootId inp2 ctx snap db = Inr (db', entry, balance)"
  then have "allowed (can actor A_ledger_adjust \<lparr>rtype = R_commission_accrual, rid = None,
       ownerOrgId = None, privacyClass = None\<rparr> no_context)"
    by (rule adjustLedger_effect)
  then show ?thesis
    by (rule can_allow_cases) (auto dest: ledger_grants)
qed

section \<open>A concrete run\<close>

definition example_env :: Env where
  "example_env = \<lparr>uuid = (\<lambda>n. replicate (Suc n) (CHR ''x'')), clock = 1000, toISOString = (\<lambda>_. ''t'')\<rparr>"

definition example_finance :: Actor where
  "example_finance = \<lparr>userId = ''u'', organizationId = Some ''fin'', role = Some FINANCE_OPERATOR, membershipId = Some ''m''\<rparr>"

definition example_request_context :: RequestContext where
  "example_request_context = \<lparr>requestId = ''r'', correlationId = ''c'', ipClass = ''private'', userAgentClass = ''browser''\<rparr>"

definition example_comp :: "string \<Rightarrow> string \<Rightarrow> int \<Rightarrow> CommissionComponent" where
  "example_comp i org b = \<lparr>cc_id = i, cc_scheduleId = ''s'', cc_recipientType = Recip_CONTRIBUTOR,
     cc_recipientOrgId = org, cc_componentType = PERCENTAGE_BPS, cc_bps = Some b, cc_fixedAmountMinor = None,
     cc_calculationBasis = None, cc_priority = 1, cc_claimId = None, cc_createdByUserId = None, cc_createdByOrgId = None\<rparr>"

definition example_store :: Store where
  "example_store = \<lparr>
     db_dealRooms = [\<lparr>dr_id = ''deal'', dr_merchantOrgId = ''shop'', dr_providerOrgId = ''acq'', dr_status = Deal_LIVE\<rparr>],
     db_schedules = [\<lparr>cs_id = ''s'', cs_dealRoomId = ''deal'', cs_scheduleFamilyId = ''s'', cs_versionNumber = 1,
        cs_previousVersionId = None, cs_basis = Basis_SETUP_FEE, cs_status = Sch_ACTIVE, cs_capMinor = None,
        cs_floorMinor = None, cs_survivalMonths = None, cs_description = None, cs_createdByUserId = None,
        cs_createdByOrgId = None, cs_updatedByUserId = None, cs_version = 1, cs_createdAt = 0\<rparr>],
     db_components = [example_comp ''c1'' ''agent'' 7000, example_comp ''c2'' ''tol'' 3000],
     db_revenueEvents = [], db_accruals = [], db_payments = [], db_audit = [], db_timeline = [],
     db_jobs = [], db_ids = 0\<rparr>"

definition example_revenue :: RecordRevenueEventRequest where
  "example_revenue = \<lparr>rv_basis = Basis_SETUP_FEE, rv_period = ''2026-01'', rv_source = ''psp'',
     rv_grossAmountMinor = ''101'', rv_deductionsMinor = None, rv_currency = ''EUR'', rv_recognizedAt = None\<rparr>"

definition example_recorded :: "econ_failure + Store \<times> RevenueEvent \<times> CommissionAccrual list \<times> RevenueEventReconciliation" where
  "example_recorded = recordRevenueEvent example_env example_finance ''deal'' example_revenue example_request_context example_store example_store"

definition example_payment :: "string \<Rightarrow> PaymentItem list \<Rightarrow> RecordPaymentRequest" where
  "example_payment ref items = \<lparr>rp_payments = items, rp_reference = ref, rp_evidenceRef = None, rp_paidAt = None\<rparr>"

definition committed :: "econ_failure + Store \<times> 'a \<Rightarrow> Store" where
  "committed r = (case r of Inr (db, _) \<Rightarrow> db | Inl _ \<Rightarrow> example_store)"

definition example_paid :: "econ_failure + Store \<times> CommissionPayment \<times> CommissionAccrual list" where
  "example_paid = recordPayment example_env example_finance ''deal''
     (example_payment ''wire-1'' [\<lparr>pi_accrualRootId = ''xx'', pi_amountMinor = ''40''\<rparr>])
     example_request_context (committed example_recorded) (committed example_recorded)"

definition example_twice :: "econ_failure + Store \<times> CommissionPayment \<times> CommissionAccrual list" where
  "example_twice = recordPayment example_env example_finance ''deal''
     (example_payment ''wire-2'' [\<lparr>pi_accrualRootId = ''xx'', pi_amountMinor = ''71''\<rparr>,
        \<lparr>pi_accrualRootId = ''xx'', pi_amountMinor = ''71''\<rparr>])
     example_request_context (committed example_recorded) (committed example_recorded)"

definition example_adjusted :: "econ_failure + Store \<times> CommissionAccrual \<times> AccrualBalance" where
  "example_adjusted = adjustLedger example_env example_finance ''deal'' ''xx''
     \<lparr>ra_direction = DEBIT, ra_amountMinor = ''80'', ra_reason = ''clawback''\<rparr>
     example_request_context (committed example_recorded) (committed example_recorded)"

lemma example_inj: "inj (uuid example_env)"
  by (auto simp: example_env_def inj_def)

lemma committed_result: "\<not> isl r \<Longrightarrow> \<exists>x. r = Inr (committed r, x)"
  by (cases r) (auto simp: committed_def)

lemma example_recorded_ok: "\<not> isl example_recorded"
  by code_simp

lemma example_paid_ok: "\<not> isl example_paid"
  by code_simp

lemma example_adjusted_ok: "\<not> isl example_adjusted"
  by code_simp

lemma example_twice_ok: "\<not> isl example_twice"
  by code_simp

lemma example_reach_start: "econ_reach (uuid example_env) example_store"
  by (rule econ_reach.start) (simp_all add: example_store_def)

lemma example_reach: "econ_reach (uuid example_env) (committed example_recorded)"
proof -
  obtain x where "example_recorded = Inr (committed example_recorded, x)"
    using committed_result [OF example_recorded_ok] by blast
  then have "econ_step (uuid example_env) example_store (committed example_recorded)"
    unfolding example_recorded_def by (rule econ_step.revenue [OF refl])
  with example_reach_start show ?thesis
    by (rule econ_reach.step)
qed

theorem ledger_balances_witness:
  "length (db_revenueEvents (committed example_recorded)) = 1 \<and>
   map (\<lambda>ev. accrued_for (db_accruals (committed example_recorded)) (re_id ev))
     (db_revenueEvents (committed example_recorded)) = [101]"
proof -
  have "map re_netDistributableMinor (db_revenueEvents (committed example_recorded)) = [101]"
    by code_simp
  then show ?thesis
    using ledger_balances [OF example_reach example_inj] by (auto simp: length_Suc_conv map_eq_Cons_conv)
qed

theorem ledger_append_only_witness:
  "prefix (db_accruals (committed example_recorded)) (db_accruals (committed example_paid)) \<and>
   length (db_accruals (committed example_paid)) = 3"
proof -
  obtain x where "example_paid = Inr (committed example_paid, x)"
    using committed_result [OF example_paid_ok] by blast
  then have "econ_step (uuid example_env) (committed example_recorded) (committed example_paid)"
    unfolding example_paid_def by (rule econ_step.payment [OF refl])
  moreover have "length (db_accruals (committed example_paid)) = 3"
    by code_simp
  ultimately show ?thesis
    using ledger_append_only [OF example_reach example_inj] by blast
qed

theorem recordPayment_refines_accounts_witness:
  "\<exists>m. accounts (committed example_paid) ''xx'' = Some m \<and> 0 \<le> m"
proof -
  obtain p es where r: "example_paid = Inr (committed example_paid, p, es)"
    using committed_result [OF example_paid_ok] by (metis prod.collapse)
  note refines = recordPayment_refines_accounts [OF example_reach example_inj refl r [unfolded example_paid_def]]
  have "accounts (committed example_recorded) ''xx'' = Some 71"
    by code_simp
  with refines show ?thesis
    unfolding example_paid_def [symmetric] by (auto simp: example_payment_def)
qed

theorem recordRevenueEvent_refines_accounts_witness:
  "\<exists>ev entries recon. example_recorded = Inr (committed example_recorded, ev, entries, recon) \<and>
     reconciled recon \<and> outstandingMinor recon = re_netDistributableMinor ev"
proof -
  obtain ev es rc where r: "example_recorded = Inr (committed example_recorded, ev, es, rc)"
    using committed_result [OF example_recorded_ok] by (metis prod.collapse)
  show ?thesis
    using r recordRevenueEvent_refines_accounts [OF example_reach_start example_inj refl
        r [unfolded example_recorded_def]] by blast
qed

theorem adjustLedger_refines_accounts_witness:
  "\<exists>entry balance. example_adjusted = Inr (committed example_adjusted, entry, balance) \<and>
     accounts (committed example_adjusted) ''xx'' = Some (outstandingAmountMinor balance) \<and>
     outstandingAmountMinor balance = - 9"
proof -
  obtain e b where r: "example_adjusted = Inr (committed example_adjusted, e, b)"
    using committed_result [OF example_adjusted_ok] by (metis prod.collapse)
  have "accounts (committed example_adjusted) ''xx'' = Some (- 9)"
    by code_simp
  then show ?thesis
    using r adjustLedger_refines_accounts [OF example_reach example_inj refl
        r [unfolded example_adjusted_def]] unfolding example_adjusted_def [symmetric] by auto
qed

theorem accrual_job_never_doubles_witness:
  "\<exists>res. economicsAccrualJob example_env ''k'' (\<lambda>e s v. ''h'') ''x'' (committed example_recorded) []
     (committed example_recorded) = Inr ([], committed example_recorded, res) \<and>
     (job_status res = already_accrued \<or> job_status res = skipped_no_active_schedule)"
  by (rule accrual_job_never_doubles [OF example_reach example_inj])

definition example_agent :: Actor where
  "example_agent = \<lparr>userId = ''a'', organizationId = Some ''agent'', role = Some CONTRIBUTOR_AGENT,
     membershipId = Some ''m2''\<rparr>"

theorem getLedger_view_witness:
  "\<exists>a. getLedger example_agent ''deal'' (committed example_recorded) = Inr [a] \<and>
     accounts (committed example_recorded) (ab_accrualRootId a) = Some (outstandingAmountMinor (ab_balance a)) \<and>
     list_all (may_see example_agent ''deal'') (ab_entries a)"
proof -
  have "case getLedger example_agent ''deal'' (committed example_recorded) of
      Inr as \<Rightarrow> length as = 1 | Inl e \<Rightarrow> False"
    by code_simp
  then obtain a where a: "getLedger example_agent ''deal'' (committed example_recorded) = Inr [a]"
    by (auto split: sum.splits simp: length_Suc_conv)
  then show ?thesis
    using getLedger_view [OF example_reach example_inj a] by simp
qed

theorem money_moves_by_finance_only_witness:
  "role example_finance \<in> {Some PLATFORM_OWNER, Some FINANCE_OPERATOR}"
proof -
  obtain p es where "example_paid = Inr (committed example_paid, p, es)"
    using committed_result [OF example_paid_ok] by (metis prod.collapse)
  then show ?thesis
    using money_moves_by_finance_only unfolding example_paid_def by blast
qed

text \<open>C7. Defect: every item of a payment batch is checked against the balance before the batch, so a batch
  that names one accrual twice is accepted and pays it beyond what it owes. The state is reachable.\<close>

theorem duplicate_batch_overpays:
  "econ_reach (uuid example_env) (committed example_twice) \<and>
   accounts (committed example_recorded) ''xx'' = Some 71 \<and>
   accounts (committed example_twice) ''xx'' = Some (- 71)"
proof -
  obtain x where "example_twice = Inr (committed example_twice, x)"
    using committed_result [OF example_twice_ok] by blast
  then have "econ_step (uuid example_env) (committed example_recorded) (committed example_twice)"
    unfolding example_twice_def by (rule econ_step.payment [OF refl])
  with example_reach have "econ_reach (uuid example_env) (committed example_twice)"
    by (rule econ_reach.step)
  moreover have "accounts (committed example_recorded) ''xx'' = Some 71"
    by code_simp
  moreover have "accounts (committed example_twice) ''xx'' = Some (- 71)"
    by code_simp
  ultimately show ?thesis by blast
qed

end
