(* ===== verification/JS_Number.thy ===== *)
theory JS_Number
  imports Money "HOL-Library.Log_Nat"
begin

text \<open>
  Arithmetic of JavaScript numbers, which the scoring and freshness code computes with. A finite
  number is the rational it denotes; an operation takes the exact rational result and rounds it
  to the nearest number with a 53-bit significand, ties to even (IEEE 754 binary64), with gradual
  underflow at exponent \<open>-1074\<close> and overflow to an infinity. The sign of zero is not modelled:
  no modelled code divides by a computed zero or otherwise tells the two zeros apart.
\<close>

section \<open>Rounding to binary64\<close>

text \<open>The exponent of the leading bit of a positive rational.\<close>

definition ilog2 :: "rat \<Rightarrow> int" where
  "ilog2 q = (case quotient_of q of (a, b) \<Rightarrow>
     let k = bitlen a - bitlen b in if 2 powi k \<le> q then k else k - 1)"

definition round_half_even :: "rat \<Rightarrow> int" where
  "round_half_even r =
     (let f = \<lfloor>r\<rfloor>; d = r - of_int f in
      if d < 1 / 2 then f
      else if 1 / 2 < d then f + 1
      else if even f then f else f + 1)"

text \<open>The spacing exponent of the numbers around \<open>q\<close>.\<close>

definition grid :: "rat \<Rightarrow> int" where
  "grid q = max (ilog2 \<bar>q\<bar> - 52) (- 1074)"

definition dbl :: "rat \<Rightarrow> rat" where
  "dbl q = (if q = 0 then 0 else of_int (round_half_even (q / 2 powi grid q)) * 2 powi grid q)"

text \<open>The first value that overflows, \<open>2 ^ 1024\<close>.\<close>

definition js_overflow :: rat where
  "js_overflow = 179769313486231590772930519078902473361797697894230657273430081157732675805500963132708477322407536021120113879871393357658789768814416622492847430639474124377767893424865485276302219601246094119453082952085005768838150682342462881473913110540827237163350510684586298239947245938479716304835356329624224137216"

lemma js_overflow_eq: "js_overflow = 2 ^ 1024"
  by (simp add: js_overflow_def)

definition js_fl :: "rat \<Rightarrow> js_number" where
  "js_fl q = (let r = dbl q in
     if js_overflow \<le> r then PosInfinity else if r \<le> - js_overflow then NegInfinity else Fin r)"

section \<open>Operators\<close>

fun js_neg :: "js_number \<Rightarrow> js_number" where
  "js_neg NaN = NaN"
| "js_neg PosInfinity = NegInfinity"
| "js_neg NegInfinity = PosInfinity"
| "js_neg (Fin a) = Fin (- a)"

fun js_add :: "js_number \<Rightarrow> js_number \<Rightarrow> js_number" where
  "js_add (Fin a) (Fin b) = js_fl (a + b)"
| "js_add NaN y = NaN"
| "js_add x NaN = NaN"
| "js_add PosInfinity NegInfinity = NaN"
| "js_add NegInfinity PosInfinity = NaN"
| "js_add PosInfinity y = PosInfinity"
| "js_add NegInfinity y = NegInfinity"
| "js_add x PosInfinity = PosInfinity"
| "js_add x NegInfinity = NegInfinity"

definition js_sub :: "js_number \<Rightarrow> js_number \<Rightarrow> js_number" where
  "js_sub x y = js_add x (js_neg y)"

text \<open>The sign of a number, \<open>None\<close> for NaN, and the infinity of a sign.\<close>

fun js_sgn :: "js_number \<Rightarrow> int option" where
  "js_sgn NaN = None"
| "js_sgn PosInfinity = Some 1"
| "js_sgn NegInfinity = Some (- 1)"
| "js_sgn (Fin a) = Some (if 0 < a then 1 else if a < 0 then - 1 else 0)"

definition js_inf :: "int \<Rightarrow> js_number" where
  "js_inf s = (if 0 < s then PosInfinity else if s < 0 then NegInfinity else NaN)"

fun js_mul :: "js_number \<Rightarrow> js_number \<Rightarrow> js_number" where
  "js_mul (Fin a) (Fin b) = js_fl (a * b)"
| "js_mul x y = (case (js_sgn x, js_sgn y) of (Some s, Some t) \<Rightarrow> js_inf (s * t) | _ \<Rightarrow> NaN)"

fun js_div :: "js_number \<Rightarrow> js_number \<Rightarrow> js_number" where
  "js_div (Fin a) (Fin b) =
     (if b = 0 then (case js_sgn (Fin a) of Some s \<Rightarrow> js_inf s | None \<Rightarrow> NaN) else js_fl (a / b))"
| "js_div NaN y = NaN"
| "js_div x NaN = NaN"
| "js_div (Fin a) y = Fin 0"
| "js_div x (Fin b) = (case js_sgn x of Some s \<Rightarrow> js_inf (if b < 0 then - s else s) | None \<Rightarrow> NaN)"
| "js_div x y = NaN"

fun js_lt :: "js_number \<Rightarrow> js_number \<Rightarrow> bool" where
  "js_lt (Fin a) (Fin b) = (a < b)"
| "js_lt NegInfinity y = (y \<noteq> NaN \<and> y \<noteq> NegInfinity)"
| "js_lt x PosInfinity = (x \<noteq> NaN \<and> x \<noteq> PosInfinity)"
| "js_lt _ _ = False"

definition js_eq :: "js_number \<Rightarrow> js_number \<Rightarrow> bool" where
  "js_eq x y = (x = y \<and> x \<noteq> NaN)"

definition js_le :: "js_number \<Rightarrow> js_number \<Rightarrow> bool" where
  "js_le x y = (js_lt x y \<or> js_eq x y)"

text \<open>\<open>Math.min\<close>, \<open>Math.max\<close>, \<open>Math.abs\<close> and \<open>Math.round\<close> (halves go up).\<close>

definition js_min :: "js_number \<Rightarrow> js_number \<Rightarrow> js_number" where
  "js_min x y = (if x = NaN \<or> y = NaN then NaN else if js_lt y x then y else x)"

definition js_max :: "js_number \<Rightarrow> js_number \<Rightarrow> js_number" where
  "js_max x y = (if x = NaN \<or> y = NaN then NaN else if js_lt x y then y else x)"

fun js_abs :: "js_number \<Rightarrow> js_number" where
  "js_abs (Fin a) = Fin \<bar>a\<bar>"
| "js_abs NaN = NaN"
| "js_abs _ = PosInfinity"

fun js_round :: "js_number \<Rightarrow> js_number" where
  "js_round (Fin a) = Fin (of_int \<lfloor>a + 1 / 2\<rfloor>)"
| "js_round x = x"

text \<open>\<open>Number(bigint)\<close> rounds like every operation.\<close>

definition js_Number :: "int \<Rightarrow> js_number" where
  "js_Number n = js_fl (of_int n)"

text \<open>The sign of a comparator's result, of which the sort reads only the sign; NaN counts as 0.\<close>

definition js_sign :: "js_number \<Rightarrow> int" where
  "js_sign x = (case js_sgn x of Some s \<Rightarrow> s | None \<Rightarrow> 0)"

section \<open>Rounding is monotone, odd and exact on short integers\<close>

lemma quotient_of_pos:
  assumes "0 < q" and "quotient_of q = (a, b)"
  shows "0 < a \<and> 0 < b \<and> q = of_int a / of_int b"
proof -
  have b: "0 < b" and q: "q = of_int a / of_int b"
    using assms(2) quotient_of_denom_pos quotient_of_div by blast+
  then have "0 < a"
    using assms(1) by (simp add: zero_less_divide_iff)
  then show ?thesis
    using b q by simp
qed

lemma bitlen_powi:
  assumes "0 < (x::int)"
  shows "(2::rat) powi (bitlen x - 1) \<le> of_int x \<and> of_int x < (2::rat) powi bitlen x"
proof -
  have b: "1 \<le> bitlen x"
    using assms by (simp add: bitlen_ge_iff_power)
  have "(2::int) ^ nat (bitlen x - 1) \<le> x" "x < 2 ^ nat (bitlen x)"
    using bitlen_bounds [OF assms] by auto
  then have "(2::rat) ^ nat (bitlen x - 1) \<le> of_int x" "of_int x < (2::rat) ^ nat (bitlen x)"
    by (metis of_int_le_iff of_int_numeral of_int_power, metis of_int_less_iff of_int_numeral of_int_power)
  then show ?thesis
    using b by (simp add: power_int_nonneg_exp)
qed

lemma ilog2_bounds:
  assumes "0 < q"
  shows "2 powi ilog2 q \<le> q \<and> q < 2 powi (ilog2 q + 1)"
proof -
  obtain a b where ab: "quotient_of q = (a, b)"
    by (cases "quotient_of q")
  let ?A = "bitlen a" and ?B = "bitlen b"
  have pos: "0 < a" "0 < b" "q = of_int a / of_int b"
    using quotient_of_pos [OF assms ab] by auto
  have A: "(2::rat) powi (?A - 1) \<le> of_int a" "of_int a < (2::rat) powi ?A"
    and B: "(2::rat) powi (?B - 1) \<le> of_int b" "of_int b < (2::rat) powi ?B"
    using bitlen_powi pos(1,2) by auto
  have "q < 2 powi ?A / 2 powi (?B - 1)"
    unfolding pos(3) using A(2) B(1) pos by (intro frac_less) auto
  then have up: "q < 2 powi (?A - ?B + 1)"
    by (simp add: power_int_diff power_int_add algebra_simps flip: power_int_diff)
  have "2 powi (?A - 1) / 2 powi ?B \<le> q"
    unfolding pos(3) using A(1) B(2) pos by (intro frac_le) auto
  then have low: "2 powi (?A - ?B - 1) \<le> q"
    by (simp add: power_int_diff power_int_add field_simps)
  show ?thesis
    using up low by (auto simp: ilog2_def ab Let_def)
qed

lemma powi_mono_less: "(2::rat) powi m < 2 powi n \<longleftrightarrow> m < n"
  using power_int_strict_increasing [of m n "2::rat"] power_int_increasing [of n m "2::rat"]
  by (metis linorder_not_less numeral_less_iff one_less_numeral_iff order_less_imp_le order_less_irrefl
      order_less_le_trans semiring_norm(76) zero_neq_numeral)

lemma ilog2_unique:
  assumes "2 powi k \<le> q" "q < 2 powi (k + 1)"
  shows "ilog2 q = k"
proof -
  have "0 < q"
    using assms(1) by (metis less_le_trans zero_less_numeral zero_less_power_int)
  then have "(2::rat) powi k < 2 powi (ilog2 q + 1)" "(2::rat) powi ilog2 q < 2 powi (k + 1)"
    using assms ilog2_bounds [of q] by auto
  then show ?thesis
    unfolding powi_mono_less by simp
qed

lemma ilog2_mono:
  assumes "0 < x" "x \<le> y"
  shows "ilog2 x \<le> ilog2 y"
proof -
  have "(2::rat) powi ilog2 x < 2 powi (ilog2 y + 1)"
    using assms ilog2_bounds [of x] ilog2_bounds [of y] by auto
  then show ?thesis
    unfolding powi_mono_less by simp
qed

lemma round_half_even_bounds: "\<lfloor>r\<rfloor> \<le> round_half_even r \<and> round_half_even r \<le> \<lfloor>r\<rfloor> + 1"
  by (simp add: round_half_even_def Let_def)

lemma round_half_even_of_int [simp]: "round_half_even (of_int n) = n"
  by (simp add: round_half_even_def)

lemma round_half_even_mono:
  assumes "x \<le> y"
  shows "round_half_even x \<le> round_half_even y"
proof (cases "\<lfloor>x\<rfloor> = \<lfloor>y\<rfloor>")
  case True
  then show ?thesis
    using assms by (auto simp: round_half_even_def Let_def)
next
  case False
  then have "\<lfloor>x\<rfloor> + 1 \<le> \<lfloor>y\<rfloor>"
    using floor_mono [OF assms] by linarith
  then show ?thesis
    using round_half_even_bounds [of x] round_half_even_bounds [of y] by linarith
qed

lemma round_half_even_minus: "round_half_even (- r) = - round_half_even r"
proof (cases "r \<in> \<int>")
  case True
  then obtain n where "r = of_int n"
    by (elim Ints_cases)
  then show ?thesis
    by (metis of_int_minus round_half_even_of_int)
next
  case False
  then have "r \<noteq> of_int \<lfloor>r\<rfloor>"
    by (metis Ints_of_int)
  then have "\<lfloor>- r\<rfloor> = - \<lfloor>r\<rfloor> - 1"
    by (simp add: floor_minus ceiling_altdef)
  then show ?thesis
    by (auto simp: round_half_even_def Let_def)
qed

lemma grid_abs [simp]: "grid (- q) = grid q"
  by (simp add: grid_def)

lemma dbl_minus: "dbl (- q) = - dbl q"
  by (simp add: dbl_def round_half_even_minus)

lemma dbl_zero [simp]: "dbl 0 = 0"
  by (simp add: dbl_def)

lemma dbl_nonneg: "0 \<le> q \<Longrightarrow> 0 \<le> dbl q"
  using round_half_even_mono [of 0 "q / 2 powi grid q"] round_half_even_of_int [of 0]
  by (simp add: dbl_def)

lemma dbl_binade:
  assumes "0 < q"
  shows "dbl q \<le> 2 powi (grid q + 53)" and "- 1074 < grid q \<Longrightarrow> 2 powi (grid q + 52) \<le> dbl q"
proof -
  let ?e = "grid q"
  have "q < 2 powi (ilog2 q + 1)" "ilog2 q + 1 \<le> ?e + 53"
    using ilog2_bounds [OF assms] assms by (auto simp: grid_def)
  then have "q \<le> 2 powi (?e + 53)"
    using power_int_increasing [of "ilog2 q + 1" "?e + 53" "2::rat"] by simp
  then have "q / 2 powi ?e \<le> of_int (2 ^ 53)"
    by (simp add: power_int_add divide_le_eq mult.commute)
  then have "round_half_even (q / 2 powi ?e) \<le> 2 ^ 53"
    using round_half_even_mono round_half_even_of_int by metis
  then have "(of_int (round_half_even (q / 2 powi ?e)) :: rat) \<le> of_int (2 ^ 53)"
    by (simp only: of_int_le_iff)
  then show "dbl q \<le> 2 powi (?e + 53)"
    using assms by (simp add: dbl_def power_int_add mult_right_mono mult.commute)
  show "2 powi (?e + 52) \<le> dbl q" if "- 1074 < ?e"
  proof -
    have "?e + 52 = ilog2 q"
      using that assms by (auto simp: grid_def max_def split: if_splits)
    then have "2 powi (?e + 52) \<le> q"
      using ilog2_bounds [OF assms] by simp
    then have "of_int (2 ^ 52) \<le> q / 2 powi ?e"
      by (simp add: power_int_add le_divide_eq mult.commute)
    then have "2 ^ 52 \<le> round_half_even (q / 2 powi ?e)"
      using round_half_even_mono round_half_even_of_int by metis
    then have "(of_int (2 ^ 52) :: rat) \<le> of_int (round_half_even (q / 2 powi ?e))"
      by (simp only: of_int_le_iff)
    then show ?thesis
      using assms by (simp add: dbl_def power_int_add mult_right_mono mult.commute)
  qed
qed

lemma dbl_mono_pos:
  assumes "0 < x" "x \<le> y"
  shows "dbl x \<le> dbl y"
proof (cases "grid x = grid y")
  case True
  have "round_half_even (x / 2 powi grid x) \<le> round_half_even (y / 2 powi grid x)"
    using assms(2) by (intro round_half_even_mono divide_right_mono) auto
  then have "(of_int (round_half_even (x / 2 powi grid x)) :: rat) \<le> of_int (round_half_even (y / 2 powi grid x))"
    by (simp only: of_int_le_iff)
  then show ?thesis
    using assms True by (simp add: dbl_def mult_right_mono)
next
  case False
  have "grid x \<le> grid y"
    using assms ilog2_mono [of x y] by (auto simp: grid_def)
  moreover have "- 1074 \<le> grid x"
    by (simp add: grid_def)
  ultimately have e: "grid x + 53 \<le> grid y + 52" "- 1074 < grid y"
    using False by linarith+
  have "dbl x \<le> 2 powi (grid x + 53)"
    using dbl_binade(1) assms(1) .
  also have "\<dots> \<le> 2 powi (grid y + 52)"
    using e(1) by (intro power_int_increasing) auto
  also have "\<dots> \<le> dbl y"
    using dbl_binade(2) assms e(2) by simp
  finally show ?thesis .
qed

lemma dbl_mono:
  assumes "x \<le> y"
  shows "dbl x \<le> dbl y"
proof -
  consider "0 < x" | "x \<le> 0" "0 \<le> y" | "y < 0"
    by linarith
  then show ?thesis
  proof cases
    case 1
    then show ?thesis using assms by (rule dbl_mono_pos)
  next
    case 2
    then show ?thesis
      using dbl_nonneg [of y] dbl_nonneg [of "- x"] by (simp add: dbl_minus)
  next
    case 3
    then show ?thesis
      using dbl_mono_pos [of "- y" "- x"] assms by (simp add: dbl_minus)
  qed
qed

text \<open>A multiple of the grid spacing is not changed; in particular every integer of at most 53 bits.\<close>

lemma dbl_grid:
  assumes "q = of_int m * 2 powi e" and "e \<ge> grid q"
  shows "dbl q = q"
proof -
  define g where "g = grid q"
  obtain n where n: "e = g + int n"
    using assms(2) zle_iff_zadd g_def by metis
  have q: "q = of_int (m * 2 ^ n) * 2 powi g"
    using assms(1) by (simp add: n power_int_add mult_ac)
  then have "q / 2 powi g = of_int (m * 2 ^ n)"
    by (metis nonzero_mult_div_cancel_right power_int_not_zero zero_neq_numeral)
  then have "round_half_even (q / 2 powi g) = m * 2 ^ n"
    by (metis round_half_even_of_int)
  then have "q \<noteq> 0 \<Longrightarrow> dbl q = of_int (m * 2 ^ n) * 2 powi g"
    by (simp only: dbl_def g_def if_False)
  then show ?thesis
    using q by (metis dbl_zero)
qed

lemma dbl_int:
  assumes "\<bar>n\<bar> \<le> 2 ^ 53"
  shows "dbl (of_int n) = of_int n"
proof (cases "n = 0 \<or> \<bar>n\<bar> = 2 ^ 53")
  case True
  have "ilog2 (2 ^ 53) = 53"
    by (rule ilog2_unique) simp_all
  then have "grid (2 ^ 53) = 1"
    by (simp add: grid_def)
  then have "dbl (2 ^ 53) = 2 ^ 53"
    by (intro dbl_grid [where m = "2 ^ 52" and e = 1]) simp_all
  moreover have "n = 0 \<or> n = 2 ^ 53 \<or> n = - (2 ^ 53)"
    using True by arith
  ultimately show ?thesis
    using dbl_minus [of "2 ^ 53"] by auto
next
  case False
  then have "\<bar>n\<bar> < 2 ^ 53" "n \<noteq> 0"
    using assms by auto
  then have "(of_int \<bar>n\<bar> :: rat) < of_int (2 ^ 53)" "n \<noteq> 0"
    by (simp_all only: of_int_less_iff not_False_eq_True)
  then have "(2::rat) powi ilog2 \<bar>of_int n\<bar> < 2 powi 53"
    using ilog2_bounds [of "\<bar>of_int n\<bar>"] by simp
  then have "grid (of_int n) \<le> 0"
    unfolding powi_mono_less by (simp add: grid_def)
  then show ?thesis
    by (intro dbl_grid [where m = n and e = 0]) simp_all
qed

section \<open>Range and order of results\<close>

lemma dbl_pow2: "- 1074 \<le> k - 52 \<Longrightarrow> dbl (2 powi k) = 2 powi k"
proof -
  assume k: "- 1074 \<le> k - 52"
  have "ilog2 (2 powi k) = k"
    by (rule ilog2_unique) (simp_all add: power_int_add)
  then have "grid (2 powi k) = k - 52"
    using k by (simp add: grid_def)
  then show ?thesis
    by (intro dbl_grid [where m = 1 and e = k]) simp_all
qed

lemma dbl_le_int: "q \<le> of_int n \<Longrightarrow> \<bar>n\<bar> \<le> 2 ^ 53 \<Longrightarrow> dbl q \<le> of_int n"
  using dbl_mono [of q "of_int n"] dbl_int by simp

lemma dbl_ge_int: "of_int n \<le> q \<Longrightarrow> \<bar>n\<bar> \<le> 2 ^ 53 \<Longrightarrow> of_int n \<le> dbl q"
  using dbl_mono [of "of_int n" q] dbl_int by simp

lemma inside_bound:
  fixes d :: rat
  shows "d \<le> m \<Longrightarrow> - m \<le> d \<Longrightarrow> m < M \<Longrightarrow> (M \<le> d) = False \<and> (d \<le> - M) = False"
  by auto

lemma js_fl_Fin:
  assumes "\<bar>q\<bar> \<le> 2 ^ 1023"
  shows "js_fl q = Fin (dbl q)"
proof -
  have top: "dbl (2 ^ 1023) = 2 ^ 1023"
    using dbl_pow2 [of 1023] by (simp only: power_int_numeral)
  have "dbl q \<le> 2 ^ 1023" "- (2 ^ 1023) \<le> dbl q"
    using assms dbl_mono [of q "2 ^ 1023"] dbl_mono [of "- (2 ^ 1023)" q]
    unfolding dbl_minus top by (auto simp only: abs_le_iff minus_le_iff)
  moreover have "(2::rat) ^ 1023 < 2 ^ 1024"
    by (rule power_strict_increasing) auto
  ultimately show ?thesis
    unfolding js_fl_def Let_def js_overflow_eq using inside_bound [of "dbl q" "2 ^ 1023" "2 ^ 1024"] by (simp only: if_False)
qed

text \<open>A number that is finite and lies between two bounds.\<close>

definition js_within :: "rat \<Rightarrow> rat \<Rightarrow> js_number \<Rightarrow> bool" where
  "js_within lo hi x = (case x of Fin q \<Rightarrow> lo \<le> q \<and> q \<le> hi | _ \<Rightarrow> False)"

named_theorems js_bounds \<open>range facts of number operations\<close>

lemma js_within_Fin [simp]: "js_within lo hi (Fin q) \<longleftrightarrow> lo \<le> q \<and> q \<le> hi"
  by (simp add: js_within_def)

lemma js_within_special [simp]:
  "\<not> js_within lo hi NaN" "\<not> js_within lo hi PosInfinity" "\<not> js_within lo hi NegInfinity"
  by (simp_all add: js_within_def)

lemma js_withinE:
  assumes "js_within lo hi x"
  obtains q where "x = Fin q" "lo \<le> q" "q \<le> hi"
  using assms by (cases x) (auto simp: js_within_def)

lemma js_within_fl:
  assumes "lo \<le> q" "q \<le> hi" "- (2 ^ 1023) \<le> lo" "hi \<le> 2 ^ 1023"
  shows "js_within (dbl lo) (dbl hi) (js_fl q)"
  using assms dbl_mono [of lo q] dbl_mono [of q hi] by (simp add: js_fl_Fin abs_le_iff)

lemma js_within_fl_int:
  assumes "of_int m \<le> q" "q \<le> of_int n" "\<bar>m\<bar> \<le> 2 ^ 53" "\<bar>n\<bar> \<le> 2 ^ 53"
  shows "js_within (of_int m) (of_int n) (js_fl q)"
proof -
  have "(2::int) ^ 53 \<le> 2 ^ 1023"
    by (rule power_increasing) auto
  then have "\<bar>m\<bar> \<le> 2 ^ 1023" "\<bar>n\<bar> \<le> 2 ^ 1023"
    using assms(3,4) by linarith+
  then have "(of_int \<bar>m\<bar> :: rat) \<le> of_int (2 ^ 1023)" "(of_int \<bar>n\<bar> :: rat) \<le> of_int (2 ^ 1023)"
    by (simp_all only: of_int_le_iff)
  then have "- (2 ^ 1023) \<le> (of_int m :: rat)" "(of_int n :: rat) \<le> 2 ^ 1023"
    by (auto simp only: of_int_abs of_int_power of_int_numeral abs_le_iff minus_le_iff)
  then show ?thesis
    using js_within_fl [of "of_int m" q "of_int n"] assms by (simp only: dbl_int)
qed

lemma js_Number_small: "\<bar>n\<bar> \<le> 2 ^ 53 \<Longrightarrow> js_Number n = Fin (of_int n)"
  using js_within_fl_int [of n "of_int n" n] by (auto simp: js_Number_def elim: js_withinE)

lemma js_le_simps [simp]:
  "js_le (Fin a) (Fin b) \<longleftrightarrow> a \<le> b" "js_le NegInfinity y \<longleftrightarrow> y \<noteq> NaN" "js_le x PosInfinity \<longleftrightarrow> x \<noteq> NaN"
  "\<not> js_le NaN y" "\<not> js_le x NaN" "\<not> js_le PosInfinity (Fin b)" "\<not> js_le (Fin a) NegInfinity"
  "\<not> js_le PosInfinity NegInfinity"
  by (cases x; cases y; auto simp: js_le_def js_eq_def)+

lemma js_fl_not_NaN [simp]: "js_fl q \<noteq> NaN"
  by (simp add: js_fl_def Let_def)

lemma js_fl_mono: "q \<le> r \<Longrightarrow> js_le (js_fl q) (js_fl r)"
  using dbl_mono [of q r] by (auto simp: js_fl_def Let_def)

lemma js_le_trans: "js_le x y \<Longrightarrow> js_le y z \<Longrightarrow> js_le x z"
  by (cases x; cases y; cases z) auto

lemma js_le_refl: "x \<noteq> NaN \<Longrightarrow> js_le x x"
  by (simp add: js_le_def js_eq_def)

lemma small_below_overflow:
  assumes "\<bar>n\<bar> \<le> (2::int) ^ 53"
  shows "of_int n < (2::rat) ^ 1024" "- ((2::rat) ^ 1024) < of_int n"
proof -
  have "(2::int) ^ 53 < 2 ^ 1024"
    by (rule power_strict_increasing) auto
  then have "n < 2 ^ 1024" "- (2 ^ 1024) < n"
    using assms by linarith+
  then have "(of_int n :: rat) < of_int (2 ^ 1024)" "of_int (- (2 ^ 1024)) < (of_int n :: rat)"
    by (simp_all only: of_int_less_iff)
  then show "of_int n < (2::rat) ^ 1024" "- ((2::rat) ^ 1024) < of_int n"
    by (simp_all only: of_int_power of_int_numeral of_int_minus)
qed

lemma js_fl_le_int:
  assumes "\<bar>n\<bar> \<le> 2 ^ 53"
  shows "js_le (js_fl q) (Fin (of_int n)) \<longleftrightarrow> dbl q \<le> of_int n"
  using small_below_overflow [OF assms] unfolding js_fl_def Let_def js_overflow_eq
  by (auto simp del: of_int_less_iff)

lemma js_fl_lt_int:
  assumes "\<bar>n\<bar> \<le> 2 ^ 53"
  shows "js_lt (js_fl q) (Fin (of_int n)) \<longleftrightarrow> dbl q < of_int n"
  using small_below_overflow [OF assms] unfolding js_fl_def Let_def js_overflow_eq
  by auto

end
