(* ===== verification/Evidence.thy ===== *)
theory Evidence
  imports JS_Number Passport_States
begin

text \<open>
  \<open>packages/evidence/src\<close>: freshness of a capacity profile and of a passport fact, and the
  readiness engine. Instants are milliseconds (\<open>Date.getTime()\<close> of a valid date, at most
  \<open>8.64e15\<close> in absolute value); ages and day counts are JavaScript numbers. Message texts are a
  constructor per message. The vocabularies are the datatypes of \<open>Passport_States\<close>; the
  package's own arrays of their literals are below, shown equal to those of the domain package.
\<close>

section \<open>Vocabularies\<close>

definition evidence_FRESHNESS_CLASSES :: "string list" where
  "evidence_FRESHNESS_CLASSES = [''FRESH'', ''AGING'', ''STALE'', ''UNKNOWN'']"

definition evidence_isFreshnessClass :: "string \<Rightarrow> bool" where
  "evidence_isFreshnessClass value = (value \<in> set evidence_FRESHNESS_CLASSES)"

definition evidence_FACT_PROVENANCE_STATES :: "string list" where
  "evidence_FACT_PROVENANCE_STATES =
     [''SELF_REPORTED'', ''DOCUMENT_EXTRACTED'', ''API_VERIFIED'', ''COUNTERPARTY_CONFIRMED'',
      ''OPERATOR_VERIFIED'', ''OUTCOME_LEARNED'', ''INFERRED'']"

definition evidence_isFactProvenance :: "string \<Rightarrow> bool" where
  "evidence_isFactProvenance value = (value \<in> set evidence_FACT_PROVENANCE_STATES)"

definition evidence_PASSPORT_SECTION_TYPES :: "string list" where
  "evidence_PASSPORT_SECTION_TYPES =
     [''IDENTITY'', ''RELATIONSHIP_HISTORY'', ''PROCESSING_METRICS'', ''RISK'', ''COMMERCIAL'', ''TECHNICAL'']"

definition evidence_isPassportSectionType :: "string \<Rightarrow> bool" where
  "evidence_isPassportSectionType value = (value \<in> set evidence_PASSPORT_SECTION_TYPES)"

section \<open>Freshness\<close>

definition ms_per_day :: rat where
  "ms_per_day = 24 * 60 * 60 * 1000"

record CapacityFreshnessInput =
  cf_asOf :: int
  cf_sourceType :: string

record FreshnessWindows =
  w_fresh :: js_number
  w_aging :: js_number

definition capacityFreshnessWindowDays :: FreshnessWindows where
  "capacityFreshnessWindowDays = \<lparr>w_fresh = Fin 30, w_aging = Fin 90\<rparr>"

definition factFreshnessWarnWithinDays :: js_number where
  "factFreshnessWarnWithinDays = Fin 30"

definition classifyCapacityFreshness ::
  "CapacityFreshnessInput \<Rightarrow> int \<Rightarrow> FreshnessWindows \<Rightarrow> FreshnessClass" where
  "classifyCapacityFreshness input now windows =
     (if cf_sourceType input \<noteq> ''PLATFORM'' then Fr_UNKNOWN
      else let ageMs = js_sub (Fin (of_int now)) (Fin (of_int (cf_asOf input))) in
        if js_lt ageMs (Fin 0) then Fr_FRESH
        else let ageDays = js_div ageMs (Fin ms_per_day) in
          if js_le ageDays (w_fresh windows) then Fr_FRESH
          else if js_le ageDays (w_aging windows) then Fr_AGING
          else Fr_STALE)"

definition classifyFactFreshness :: "int option \<Rightarrow> int \<Rightarrow> js_number \<Rightarrow> FreshnessClass" where
  "classifyFactFreshness expiresAt now warnWithinDays =
     (case expiresAt of
        None \<Rightarrow> Fr_UNKNOWN
      | Some t \<Rightarrow>
          let msUntilExpiry = js_sub (Fin (of_int t)) (Fin (of_int now)) in
          if js_lt msUntilExpiry (Fin 0) then Fr_STALE
          else if js_le (js_div msUntilExpiry (Fin ms_per_day)) warnWithinDays then Fr_AGING
          else Fr_FRESH)"

section \<open>Readiness\<close>

record FactSnapshot =
  fs_fieldKey :: string
  fs_sectionType :: PassportSectionType
  fs_hasValue :: bool
  fs_verification :: FactProvenance
  fs_expiresAt :: "int option"
  fs_updatedAt :: int

record RequiredFact =
  rf_fieldKey :: string
  rf_sectionType :: PassportSectionType
  rf_blocking :: bool

datatype ReadinessMessage = MissingFact | ExpiredFact | ApproachingExpiry | SelfReportedOnly

text \<open>A blocker and a warning have the same fields.\<close>

record ReadinessNote =
  rn_fieldKey :: string
  rn_sectionType :: PassportSectionType
  rn_message :: ReadinessMessage

record ReadinessResultShape =
  rr_score :: js_number
  rr_blockers :: "ReadinessNote list"
  rr_warnings :: "ReadinessNote list"
  rr_ruleVersion :: string
  rr_algorithmVersion :: string
  rr_inputVersions :: "string list"

datatype ReadinessError = duplicateFieldKey string

definition evidence_algorithmVersion :: string where
  "evidence_algorithmVersion = ''evidence-readiness-v1''"

definition evidence_ruleVersion :: string where
  "evidence_ruleVersion = ''evidence-rules-v1''"

definition requiredFact :: "string \<Rightarrow> PassportSectionType \<Rightarrow> bool \<Rightarrow> RequiredFact" where
  "requiredFact k s b = \<lparr>rf_fieldKey = k, rf_sectionType = s, rf_blocking = b\<rparr>"

definition requiredFacts :: "RequiredFact list" where
  "requiredFacts =
     [requiredFact ''legalEntityConfirmed'' Sec_IDENTITY True,
      requiredFact ''primaryContactConfirmed'' Sec_IDENTITY True,
      requiredFact ''processingHistorySummary'' Sec_PROCESSING_METRICS True,
      requiredFact ''riskProfileSummary'' Sec_RISK True,
      requiredFact ''settlementCapability'' Sec_COMMERCIAL True,
      requiredFact ''technicalIntegrationProfile'' Sec_TECHNICAL True,
      requiredFact ''priorAcquirerRelationships'' Sec_RELATIONSHIP_HISTORY False,
      requiredFact ''chargebackHistoryDetail'' Sec_RISK False]"

text \<open>The loop over \<open>facts\<close> with its set of keys seen so far.\<close>

fun checkDistinctKeys :: "string set \<Rightarrow> FactSnapshot list \<Rightarrow> ReadinessError + unit" where
  "checkDistinctKeys seen [] = Inr ()"
| "checkDistinctKeys seen (f # fs) =
     (if fs_fieldKey f \<in> seen then Inl (duplicateFieldKey (fs_fieldKey f))
      else checkDistinctKeys (insert (fs_fieldKey f) seen) fs)"

text \<open>\<open>new Map(...)\<close> keeps the last entry of a key.\<close>

definition factByKey :: "FactSnapshot list \<Rightarrow> string \<Rightarrow> FactSnapshot option" where
  "factByKey facts k = find (\<lambda>f. fs_fieldKey f = k) (rev facts)"

definition noteFor :: "RequiredFact \<Rightarrow> ReadinessMessage \<Rightarrow> ReadinessNote" where
  "noteFor req m = \<lparr>rn_fieldKey = rf_fieldKey req, rn_sectionType = rf_sectionType req, rn_message = m\<rparr>"

text \<open>The state of the loop over the required facts.\<close>

record readiness_state =
  rs_present :: nat
  rs_blockers :: "ReadinessNote list"
  rs_warnings :: "ReadinessNote list"

definition pushNote :: "bool \<Rightarrow> ReadinessNote \<Rightarrow> readiness_state \<Rightarrow> readiness_state" where
  "pushNote blocking n st =
     (if blocking then st\<lparr>rs_blockers := rs_blockers st @ [n]\<rparr> else st\<lparr>rs_warnings := rs_warnings st @ [n]\<rparr>)"

definition checkRequiredFact ::
  "FactSnapshot list \<Rightarrow> int \<Rightarrow> RequiredFact \<Rightarrow> readiness_state \<Rightarrow> readiness_state" where
  "checkRequiredFact facts now req st =
     (case factByKey facts (rf_fieldKey req) of
        Some f \<Rightarrow>
          if fs_hasValue f then
            (let st1 = st\<lparr>rs_present := rs_present st + 1\<rparr>;
                 st2 = (case classifyFactFreshness (fs_expiresAt f) now factFreshnessWarnWithinDays of
                          Fr_STALE \<Rightarrow> pushNote (rf_blocking req) (noteFor req ExpiredFact) st1
                        | Fr_AGING \<Rightarrow> pushNote False (noteFor req ApproachingExpiry) st1
                        | _ \<Rightarrow> st1)
             in if fs_verification f = Prov_SELF_REPORTED
                then pushNote False (noteFor req SelfReportedOnly) st2 else st2)
          else pushNote (rf_blocking req) (noteFor req MissingFact) st
      | None \<Rightarrow> pushNote (rf_blocking req) (noteFor req MissingFact) st)"

definition computeReadiness ::
  "FactSnapshot list \<Rightarrow> int \<Rightarrow> string list \<Rightarrow> RequiredFact list \<Rightarrow> ReadinessError + ReadinessResultShape" where
  "computeReadiness facts now inputVersions required =
     ebind (checkDistinctKeys {} facts) (\<lambda>_.
       let st = fold (checkRequiredFact facts now) required
                  \<lparr>rs_present = 0, rs_blockers = [], rs_warnings = []\<rparr>
       in Inr \<lparr>rr_score = (if required = [] then Fin 100
                            else js_mul (js_div (Fin (of_nat (rs_present st))) (Fin (of_nat (length required)))) (Fin 100)),
               rr_blockers = rs_blockers st, rr_warnings = rs_warnings st,
               rr_ruleVersion = evidence_ruleVersion, rr_algorithmVersion = evidence_algorithmVersion,
               rr_inputVersions = inputVersions\<rparr>)"

definition isReadinessBlocked :: "ReadinessResultShape \<Rightarrow> bool" where
  "isReadinessBlocked result = (rr_blockers result \<noteq> [])"

section \<open>The vocabularies of the two packages agree\<close>

lemma vocabularies_agree:
  "evidence_isFreshnessClass = isFreshnessClass"
  "evidence_isFactProvenance = isFactProvenance"
  "evidence_isPassportSectionType = isPassportSectionType"
  by (auto simp: fun_eq_iff evidence_isFreshnessClass_def evidence_FRESHNESS_CLASSES_def isFreshnessClass_def
      freshnessClass_of_def enum_of_None FRESHNESS_CLASSES_def evidence_isFactProvenance_def
      evidence_FACT_PROVENANCE_STATES_def isFactProvenance_def factProvenance_of_def
      FACT_PROVENANCE_STATES_def evidence_isPassportSectionType_def evidence_PASSPORT_SECTION_TYPES_def
      isPassportSectionType_def passportSectionType_of_def PASSPORT_SECTION_TYPES_def)

section \<open>Freshness is exact to the millisecond\<close>

lemma huge_instants:
  assumes "\<bar>t\<bar> \<le> 8640000000000000" "\<bar>now\<bar> \<le> 8640000000000000"
  shows "js_sub (Fin (of_int now)) (Fin (of_int t)) = Fin (dbl (of_int (now - t)))"
proof -
  have "\<bar>now - t\<bar> \<le> 2 ^ 60"
    using assms by simp
  then have "(of_int \<bar>now - t\<bar> :: rat) \<le> of_int (2 ^ 60)"
    by (simp only: of_int_le_iff)
  moreover have "(2::rat) ^ 60 \<le> 2 ^ 1023"
    by (rule power_increasing) auto
  ultimately have "\<bar>of_int (now - t)\<bar> \<le> (2::rat) ^ 1023"
    by (simp only: of_int_abs of_int_power of_int_numeral)
  then show ?thesis
    using js_fl_Fin [of "of_int (now - t)"] by (simp add: js_sub_def)
qed

text \<open>A difference of instants in days compares with a whole number of days as the milliseconds do.\<close>

lemma days_le_iff:
  assumes "\<bar>t\<bar> \<le> 8640000000000000" "\<bar>now\<bar> \<le> 8640000000000000" "d \<in> {30, 90 :: int}"
  shows "js_le (js_div (js_sub (Fin (of_int now)) (Fin (of_int t))) (Fin ms_per_day)) (Fin (of_int d)) \<longleftrightarrow>
    now - t \<le> d * 86400000"
proof -
  let ?a = "now - t" and ?b = "d * 86400000"
  have small: "\<bar>d\<bar> \<le> 2 ^ 53" "\<bar>?b\<bar> \<le> 2 ^ 53" "\<bar>?b + 1\<bar> \<le> 2 ^ 53"
    using assms(3) by auto
  have "dbl (dbl (of_int ?a) / ms_per_day) \<le> of_int d" if "?a \<le> ?b"
  proof (rule dbl_le_int)
    have "dbl (of_int ?a) \<le> of_int ?b"
      using that small(2) by (intro dbl_le_int) (simp_all only: of_int_le_iff)
    then show "dbl (of_int ?a) / ms_per_day \<le> of_int d"
      by (simp add: ms_per_day_def divide_le_eq)
  qed (rule small(1))
  moreover have "of_int d < dbl (dbl (of_int ?a) / ms_per_day)" if "\<not> ?a \<le> ?b"
  proof -
    have "of_int (?b + 1) \<le> dbl (of_int ?a)"
      using that small(3) by (intro dbl_ge_int) (simp_all only: of_int_le_iff)
    then have "of_int d + 1 / 86400000 \<le> dbl (of_int ?a) / ms_per_day"
      by (simp add: ms_per_day_def field_simps)
    moreover have "dbl (30 + 1 / 86400000) > 30" "dbl (90 + 1 / 86400000) > 90"
      by code_simp+
    then have "of_int d < dbl (of_int d + 1 / 86400000)"
      using assms(3) by auto
    ultimately show ?thesis
      using dbl_mono by (meson less_le_trans)
  qed
  moreover have "ms_per_day \<noteq> 0"
    by (simp add: ms_per_day_def)
  ultimately show ?thesis
    using huge_instants [OF assms(1,2)] js_fl_le_int [OF small(1)]
    by (cases "?a \<le> ?b") (auto simp: not_le)
qed

lemma instants_less_iff:
  assumes "\<bar>t\<bar> \<le> 8640000000000000" "\<bar>now\<bar> \<le> 8640000000000000"
  shows "js_lt (js_sub (Fin (of_int now)) (Fin (of_int t))) (Fin 0) \<longleftrightarrow> now < t"
  using dbl_le_int [of "of_int (now - t)" "- 1"] dbl_ge_int [of 0 "of_int (now - t)"]
  by (cases "now < t") (auto simp: huge_instants [OF assms] not_less)

lemma classifyFactFreshness_exact:
  assumes "\<bar>t\<bar> \<le> 8640000000000000" "\<bar>now\<bar> \<le> 8640000000000000"
  shows "classifyFactFreshness (Some t) now factFreshnessWarnWithinDays =
    (if t < now then Fr_STALE else if t - now \<le> 30 * 86400000 then Fr_AGING else Fr_FRESH)"
  using days_le_iff [OF assms(2,1), of 30] instants_less_iff [OF assms(2,1)]
  by (auto simp: classifyFactFreshness_def factFreshnessWarnWithinDays_def Let_def)

text \<open>The freshness class of a capacity profile is exact to the millisecond although it is computed
  in floating point days: a profile that was not confirmed on the platform is UNKNOWN whatever its
  age; otherwise it is FRESH up to and including 30 days after its confirmation (and when the
  confirmation lies in the future), AGING up to and including 90 days, and STALE one millisecond
  later. Instants range over all valid dates.\<close>

theorem capacity_freshness_exact:
  assumes "\<bar>cf_asOf input\<bar> \<le> 8640000000000000" "\<bar>now\<bar> \<le> 8640000000000000"
  shows "classifyCapacityFreshness input now capacityFreshnessWindowDays =
    (if cf_sourceType input \<noteq> ''PLATFORM'' then Fr_UNKNOWN
     else if now - cf_asOf input \<le> 30 * 86400000 then Fr_FRESH
     else if now - cf_asOf input \<le> 90 * 86400000 then Fr_AGING
     else Fr_STALE)"
proof -
  let ?t = "cf_asOf input"
  have "js_le (js_div (js_sub (Fin (of_int now)) (Fin (of_int ?t))) (Fin ms_per_day)) (Fin 30) \<longleftrightarrow>
      now - ?t \<le> 30 * 86400000"
    using days_le_iff [OF assms, of 30] by simp
  moreover have "js_le (js_div (js_sub (Fin (of_int now)) (Fin (of_int ?t))) (Fin ms_per_day)) (Fin 90) \<longleftrightarrow>
      now - ?t \<le> 90 * 86400000"
    using days_le_iff [OF assms, of 90] by simp
  ultimately show ?thesis
    using instants_less_iff [OF assms]
    by (simp add: classifyCapacityFreshness_def capacityFreshnessWindowDays_def Let_def)
qed

theorem capacity_freshness_exact_witness:
  "classifyCapacityFreshness \<lparr>cf_asOf = 1700000000000, cf_sourceType = ''PLATFORM''\<rparr>
     (1700000000000 + 90 * 86400000) capacityFreshnessWindowDays = Fr_AGING \<and>
   classifyCapacityFreshness \<lparr>cf_asOf = 1700000000000, cf_sourceType = ''PLATFORM''\<rparr>
     (1700000000000 + 90 * 86400000 + 1) capacityFreshnessWindowDays = Fr_STALE"
  using capacity_freshness_exact
    [of "\<lparr>cf_asOf = 1700000000000, cf_sourceType = ''PLATFORM''\<rparr>" "1700000000000 + 90 * 86400000"]
    capacity_freshness_exact
    [of "\<lparr>cf_asOf = 1700000000000, cf_sourceType = ''PLATFORM''\<rparr>" "1700000000000 + 90 * 86400000 + 1"]
  by simp

section \<open>What blocks readiness\<close>

lemma checkDistinctKeys_ok:
  "checkDistinctKeys seen facts = Inr u \<longleftrightarrow>
   distinct (map fs_fieldKey facts) \<and> set (map fs_fieldKey facts) \<inter> seen = {}"
  by (induction seen facts rule: checkDistinctKeys.induct) auto

text \<open>A required fact is met when it has a value whose evidence has not expired.\<close>

definition fact_present :: "FactSnapshot list \<Rightarrow> RequiredFact \<Rightarrow> bool" where
  "fact_present facts req = (\<exists>f \<in> set facts. fs_fieldKey f = rf_fieldKey req \<and> fs_hasValue f)"

definition fact_met :: "FactSnapshot list \<Rightarrow> int \<Rightarrow> RequiredFact \<Rightarrow> bool" where
  "fact_met facts now req =
     (\<exists>f \<in> set facts. fs_fieldKey f = rf_fieldKey req \<and> fs_hasValue f \<and>
        (case fs_expiresAt f of None \<Rightarrow> True | Some t \<Rightarrow> now \<le> t))"

definition instants_ok :: "FactSnapshot list \<Rightarrow> int \<Rightarrow> bool" where
  "instants_ok facts now = (\<bar>now\<bar> \<le> 8640000000000000 \<and>
     (\<forall>f \<in> set facts. case fs_expiresAt f of None \<Rightarrow> True | Some t \<Rightarrow> \<bar>t\<bar> \<le> 8640000000000000))"

lemma factByKey_distinct:
  assumes "distinct (map fs_fieldKey facts)"
  shows "factByKey facts k = Some f \<longleftrightarrow> f \<in> set facts \<and> fs_fieldKey f = k"
    and "factByKey facts k = None \<longleftrightarrow> (\<forall>g \<in> set facts. fs_fieldKey g \<noteq> k)"
proof -
  have "f = g" if "f \<in> set facts" "g \<in> set facts" "fs_fieldKey f = fs_fieldKey g" for f g
    using assms that by (metis distinct_map inj_onD)
  moreover have "factByKey facts k = Some g \<Longrightarrow> g \<in> set facts \<and> fs_fieldKey g = k" for g
    by (auto simp: factByKey_def dest: find_SomeD)
  moreover show *: "factByKey facts k = None \<longleftrightarrow> (\<forall>g \<in> set facts. fs_fieldKey g \<noteq> k)"
    by (auto simp: factByKey_def find_None_iff)
  ultimately show "factByKey facts k = Some f \<longleftrightarrow> f \<in> set facts \<and> fs_fieldKey f = k"
    by (metis option.exhaust)
qed

text \<open>What one required fact adds to the blockers, and the blockers of the whole loop.\<close>

lemma classify_STALE_iff:
  assumes "instants_ok facts now" "f \<in> set facts"
  shows "classifyFactFreshness (fs_expiresAt f) now factFreshnessWarnWithinDays = Fr_STALE \<longleftrightarrow>
    (\<exists>t. fs_expiresAt f = Some t \<and> t < now)"
proof (cases "fs_expiresAt f")
  case None
  then show ?thesis
    by (simp add: classifyFactFreshness_def)
next
  case (Some t)
  then have "\<bar>t\<bar> \<le> 8640000000000000" "\<bar>now\<bar> \<le> 8640000000000000"
    using assms by (auto simp: instants_ok_def split: option.splits)
  then show ?thesis
    by (simp add: Some classifyFactFreshness_exact)
qed

lemma checkRequiredFact_result:
  assumes "distinct (map fs_fieldKey facts)" "instants_ok facts now"
  shows "rs_blockers (checkRequiredFact facts now req st) =
      rs_blockers st @ (if rf_blocking req \<and> \<not> fact_met facts now req
        then [noteFor req (if fact_present facts req then ExpiredFact else MissingFact)] else []) \<and>
    rs_present (checkRequiredFact facts now req st) =
      rs_present st + (if fact_present facts req then 1 else 0)"
proof (cases "factByKey facts (rf_fieldKey req)")
  case None
  then have "\<not> fact_present facts req" "\<not> fact_met facts now req"
    using factByKey_distinct(2) [OF assms(1)] by (auto simp: fact_present_def fact_met_def)
  then show ?thesis
    using None by (simp add: checkRequiredFact_def pushNote_def)
next
  case (Some f)
  then have f: "f \<in> set facts" "fs_fieldKey f = rf_fieldKey req"
    using factByKey_distinct(1) [OF assms(1)] by auto
  then have ex: "(\<exists>g \<in> set facts. fs_fieldKey g = rf_fieldKey req \<and> P g) = P f" for P
    using assms(1) by (metis distinct_map inj_onD)
  define c where "c = classifyFactFreshness (fs_expiresAt f) now factFreshnessWarnWithinDays"
  have "fact_present facts req = fs_hasValue f"
    "fact_met facts now req = (fs_hasValue f \<and> c \<noteq> Fr_STALE)"
    unfolding fact_present_def fact_met_def ex c_def classify_STALE_iff [OF assms(2) f(1)]
    by (auto simp: not_less split: option.splits)
  then show ?thesis
    using Some
    by (cases c) (simp_all add: checkRequiredFact_def pushNote_def Let_def flip: c_def)
qed

lemma readiness_loop:
  assumes "distinct (map fs_fieldKey facts)" "instants_ok facts now"
  shows "rs_blockers (fold (checkRequiredFact facts now) required st) =
      rs_blockers st @ map (\<lambda>req. noteFor req (if fact_present facts req then ExpiredFact else MissingFact))
        (filter (\<lambda>req. rf_blocking req \<and> \<not> fact_met facts now req) required)"
    and "rs_present (fold (checkRequiredFact facts now) required st) =
      rs_present st + length (filter (fact_present facts) required)"
  by (induction required arbitrary: st) (auto simp: checkRequiredFact_result [OF assms])

text \<open>The readiness engine names exactly what blocks a passport, and nothing else: its blockers
  are, in the order of the configuration, one entry for each blocking required fact without an
  unexpired value, saying whether it is missing or expired. So a passport is unblocked exactly when
  every blocking fact has a value that has not expired. A duplicate field key is refused.\<close>

theorem readiness_blockers_exact:
  assumes "instants_ok facts now"
  shows "(case computeReadiness facts now versions required of
      Inl e \<Rightarrow> \<not> distinct (map fs_fieldKey facts)
    | Inr r \<Rightarrow> distinct (map fs_fieldKey facts) \<and>
        rr_blockers r = map (\<lambda>req. noteFor req (if fact_present facts req then ExpiredFact else MissingFact))
          (filter (\<lambda>req. rf_blocking req \<and> \<not> fact_met facts now req) required) \<and>
        (isReadinessBlocked r \<longleftrightarrow> (\<exists>req \<in> set required. rf_blocking req \<and> \<not> fact_met facts now req)))"
proof (cases "checkDistinctKeys {} facts")
  case (Inl e)
  then have "\<not> distinct (map fs_fieldKey facts)"
    using checkDistinctKeys_ok [of "{}" facts "()"] by simp
  then show ?thesis
    using Inl by (simp add: computeReadiness_def)
next
  case (Inr u)
  then have "distinct (map fs_fieldKey facts)"
    using checkDistinctKeys_ok [of "{}" facts u] by simp
  then show ?thesis
    using Inr readiness_loop [OF _ assms]
    by (auto simp: computeReadiness_def Let_def isReadinessBlocked_def filter_empty_conv)
qed

definition example_facts :: "FactSnapshot list" where
  "example_facts =
     [\<lparr>fs_fieldKey = ''legalEntityConfirmed'', fs_sectionType = Sec_IDENTITY, fs_hasValue = True,
       fs_verification = Prov_API_VERIFIED, fs_expiresAt = Some 1699999999999, fs_updatedAt = 0\<rparr>,
      \<lparr>fs_fieldKey = ''primaryContactConfirmed'', fs_sectionType = Sec_IDENTITY, fs_hasValue = True,
       fs_verification = Prov_SELF_REPORTED, fs_expiresAt = None, fs_updatedAt = 0\<rparr>]"

theorem readiness_blockers_exact_witness:
  "\<exists>r. computeReadiness example_facts 1700000000000 [] requiredFacts = Inr r \<and> isReadinessBlocked r \<and>
     rr_blockers r = map (\<lambda>req. noteFor req (if fact_present example_facts req then ExpiredFact else MissingFact))
       (filter (\<lambda>req. rf_blocking req \<and> \<not> fact_met example_facts 1700000000000 req) requiredFacts)"
proof -
  have ok: "instants_ok example_facts 1700000000000" "distinct (map fs_fieldKey example_facts)"
    "\<exists>req \<in> set requiredFacts. rf_blocking req \<and> \<not> fact_met example_facts 1700000000000 req"
    by (simp_all add: instants_ok_def example_facts_def requiredFacts_def requiredFact_def fact_met_def)
  then show ?thesis
    using readiness_blockers_exact [OF ok(1), where versions = "[]" and required = requiredFacts]
    by (cases "computeReadiness example_facts 1700000000000 [] requiredFacts") auto
qed

text \<open>The readiness score of the configured facts is exactly the percentage of them that have a
  value: with eight facts the floating point quotient and product are exact. It says nothing about
  blockers (a passport can score 75 and be unblocked), and 100 means that every fact has a value.\<close>

theorem readiness_score_exact:
  assumes "computeReadiness facts now versions requiredFacts = Inr r" "instants_ok facts now"
  shows "rr_score r = Fin (of_nat (length (filter (fact_present facts) requiredFacts)) * 100 / 8)"
proof -
  have distinct: "distinct (map fs_fieldKey facts)"
    using assms(1) checkDistinctKeys_ok [of "{}" facts "()"] by (auto simp: computeReadiness_def ebind_eq_Inr)
  define k where "k = length (filter (fact_present facts) requiredFacts)"
  have eight: "length requiredFacts = 8" "requiredFacts \<noteq> []"
    by (simp_all add: requiredFacts_def)
  then have "k \<le> 8"
    using length_filter_le [of "fact_present facts" requiredFacts] by (simp add: k_def)
  then have "k \<in> {0, 1, 2, 3, 4, 5, 6, 7, 8}"
    by auto
  then have k: "(of_nat k :: rat) \<in> {0, 1, 2, 3, 4, 5, 6, 7, 8}"
    by auto
  have "js_mul (js_div (Fin q) (Fin 8)) (Fin 100) = Fin (q * 100 / 8)"
    if "q \<in> {0, 1, 2, 3, 4, 5, 6, 7, 8}" for q
    using that by (elim insertE emptyE; hypsubst) code_simp+
  note this [OF k]
  then show ?thesis
    using assms(1) distinct eight readiness_loop [OF distinct assms(2), of requiredFacts]
    by (auto simp: computeReadiness_def ebind_eq_Inr Let_def k_def)
qed

theorem readiness_score_exact_witness:
  "\<exists>r. computeReadiness example_facts 1700000000000 [] requiredFacts = Inr r \<and> rr_score r = Fin 25"
proof -
  have ok: "instants_ok example_facts 1700000000000" "distinct (map fs_fieldKey example_facts)"
    "length (filter (fact_present example_facts) requiredFacts) = 2"
    by (simp_all add: instants_ok_def example_facts_def requiredFacts_def requiredFact_def fact_present_def)
  then obtain r where "computeReadiness example_facts 1700000000000 [] requiredFacts = Inr r"
    using checkDistinctKeys_ok [of "{}" example_facts "()"] by (simp add: computeReadiness_def Let_def)
  then show ?thesis
    using readiness_score_exact [OF _ ok(1)] ok(3) by auto
qed

end
