(* ===== verification/Matching_Eligibility.thy ===== *)
theory Matching_Eligibility
  imports Evidence
begin

text \<open>
  \<open>packages/matching/src/eligibility.ts\<close> with its types and configuration: the ten families of
  hard rules that decide whether a provider's capacity may serve an opportunity. Messages are not
  modelled; \<open>toISOString\<close> of the injected clock is the instant itself.
\<close>

section \<open>Inputs and results\<close>

datatype EligibilityRuleFamily =
  ROLE | JURISDICTION | MCC_PRODUCT | VOLUME_TICKET | EVIDENCE_LICENSE | RISK | SETTLEMENT
| TECHNICAL | FRESHNESS | COMPLIANCE_HOLD

definition ELIGIBILITY_RULE_FAMILIES :: "EligibilityRuleFamily list" where
  "ELIGIBILITY_RULE_FAMILIES =
     [ROLE, JURISDICTION, MCC_PRODUCT, VOLUME_TICKET, EVIDENCE_LICENSE, RISK, SETTLEMENT, TECHNICAL,
      FRESHNESS, COMPLIANCE_HOLD]"

datatype RuleResultStatus = PASS | INELIGIBLE | BLOCKED | REFRESH_REQUIRED | UNKNOWN

record RuleResult =
  ru_rule :: EligibilityRuleFamily
  ru_code :: string
  ru_status :: RuleResultStatus
  ru_blocking :: bool
  ru_overridable :: bool

definition matching_FRESHNESS_CLASSES :: "string list" where
  "matching_FRESHNESS_CLASSES = [''FRESH'', ''AGING'', ''STALE'', ''UNKNOWN'']"

definition isFreshnessClassLike :: "string \<Rightarrow> bool" where
  "isFreshnessClassLike value = (value \<in> set matching_FRESHNESS_CLASSES)"

record MatchOpportunityInput =
  mo_id :: string
  mo_currency :: string
  mo_jurisdictions :: "string list"
  mo_mccs :: "string list"
  mo_movable30dMinor :: int

record MatchCommercialTerms =
  ct_mdrBps :: js_number
  ct_fixedFeeMinor :: js_number
  ct_model :: string

record MatchCapacityInput =
  mc_id :: string
  mc_currency :: string
  mc_jurisdictions :: "string list"
  mc_mccsAccepted :: "string list"
  mc_mccsExcluded :: "string list"
  mc_acceptingNewVolume :: bool
  mc_monthlyCapacityMinor :: int
  mc_minTicketMinor :: js_number
  mc_maxTicketMinor :: js_number
  mc_maxChargebackBps :: js_number
  mc_maxFraudBps :: js_number
  mc_maxRefundBps :: js_number
  mc_settlementRail :: string
  mc_settlementCadenceDays :: js_number
  mc_freshnessClass :: string
  mc_commercialTerms :: "MatchCommercialTerms option"

record MerchantRiskProfileInput =
  rp_chargebackBps :: "js_number option"
  rp_fraudBps :: "js_number option"
  rp_refundBps :: "js_number option"

text \<open>\<open>complianceHold\<close> is reduced to its \<open>active\<close> flag: the reason only enters a message.\<close>

record MatchContext =
  mx_now :: int
  mx_providerPassportStatus :: "PassportStatus option"
  mx_merchantRiskProfile :: "MerchantRiskProfileInput option"
  mx_averageTicketMinor :: "js_number option"
  mx_requiredSettlementRail :: "string option"
  mx_complianceHold :: "bool option"
  mx_ruleVersion :: "string option"
  mx_inputVersions :: "string list option"

record EligibilityResult =
  er_eligible :: bool
  er_results :: "RuleResult list"
  er_blockers :: "RuleResult list"
  er_warnings :: "RuleResult list"
  er_ruleVersion :: string
  er_inputVersions :: "string list"
  er_evaluatedAt :: int

datatype EligibilityInputError =
    notFinite string
  | negativeValue string
  | badCurrency string
  | emptySettlementRail
  | unknownFreshnessClass
  | invertedTicketRange

section \<open>Configuration\<close>

definition matching_ruleVersion :: string where
  "matching_ruleVersion = ''matching-eligibility-v1''"

definition volumeHeadroomRatioBand_min :: js_number where
  "volumeHeadroomRatioBand_min = Fin 1"

definition overridableByCode :: "(string \<times> bool) list" where
  "overridableByCode =
     [(''ROLE_ASSUMED_COMPATIBLE'', True),
      (''JURISDICTION_UNSPECIFIED'', False),
      (''JURISDICTION_NO_OVERLAP'', False),
      (''JURISDICTION_OVERLAP_OK'', True),
      (''MCC_UNSPECIFIED'', False),
      (''MCC_ACCEPTED_LIST_EMPTY'', False),
      (''MCC_EXCLUDED'', False),
      (''MCC_NOT_ACCEPTED'', False),
      (''MCC_COVERED'', True),
      (''VOLUME_NOT_ACCEPTING'', True),
      (''VOLUME_CURRENCY_MISMATCH'', True),
      (''VOLUME_INSUFFICIENT_HEADROOM'', True),
      (''VOLUME_HEADROOM_OK'', True),
      (''TICKET_SIZE_NOT_SUPPLIED'', True),
      (''TICKET_SIZE_OUT_OF_RANGE'', True),
      (''TICKET_SIZE_OK'', True),
      (''EVIDENCE_LICENSE_NOT_READY'', False),
      (''EVIDENCE_LICENSE_UNKNOWN'', False),
      (''EVIDENCE_LICENSE_READY'', True),
      (''RISK_NO_HISTORY'', True),
      (''RISK_CEILING_EXCEEDED'', True),
      (''RISK_WITHIN_CEILING'', True),
      (''SETTLEMENT_CURRENCY_UNSUPPORTED'', True),
      (''SETTLEMENT_RAIL_UNSUPPORTED'', True),
      (''SETTLEMENT_OK'', True),
      (''TECHNICAL_NOT_EVALUATED'', True),
      (''FRESHNESS_STALE'', True),
      (''FRESHNESS_UNKNOWN'', False),
      (''FRESHNESS_AGING'', True),
      (''FRESHNESS_FRESH'', True),
      (''COMPLIANCE_HOLD_ACTIVE'', False),
      (''COMPLIANCE_HOLD_NONE_KNOWN'', True)]"

text \<open>The codes looked up are the literals of the rules below, never a name every object inherits.\<close>

definition overridableFor :: "string \<Rightarrow> bool" where
  "overridableFor code = (case map_of overridableByCode code of Some b \<Rightarrow> b | None \<Rightarrow> False)"

section \<open>Validation\<close>

definition overlap :: "string list \<Rightarrow> string list \<Rightarrow> string list" where
  "overlap a b = filter (\<lambda>x. x \<in> set b) a"

definition assertFiniteNonNegative :: "js_number \<Rightarrow> string \<Rightarrow> EligibilityInputError + unit" where
  "assertFiniteNonNegative value fieldName =
     ebind (throw_if (\<not> js_isFinite value) (notFinite fieldName)) (\<lambda>_.
       throw_if (js_lt value (Fin 0)) (negativeValue fieldName))"

definition assertNonNegativeBigInt :: "int \<Rightarrow> string \<Rightarrow> EligibilityInputError + unit" where
  "assertNonNegativeBigInt value fieldName = throw_if (value < 0) (negativeValue fieldName)"

definition bigintRatio :: "int \<Rightarrow> int \<Rightarrow> js_number" where
  "bigintRatio numerator denominator =
     (if denominator = 0 then (if numerator = 0 then Fin 1 else PosInfinity)
      else js_div (js_Number numerator) (js_Number denominator))"

definition validateOpportunity :: "MatchOpportunityInput \<Rightarrow> EligibilityInputError + unit" where
  "validateOpportunity opportunity =
     ebind (throw_if (length (mo_currency opportunity) \<noteq> 3) (badCurrency ''opportunity.currency'')) (\<lambda>_.
       assertNonNegativeBigInt (mo_movable30dMinor opportunity) ''opportunity.movable30dMinor'')"

definition validateCapacity :: "MatchCapacityInput \<Rightarrow> EligibilityInputError + unit" where
  "validateCapacity capacity =
     ebind (throw_if (length (mc_currency capacity) \<noteq> 3) (badCurrency ''capacity.currency'')) (\<lambda>_.
     ebind (throw_if (js_trim (mc_settlementRail capacity) = []) emptySettlementRail) (\<lambda>_.
     ebind (throw_if (\<not> isFreshnessClassLike (mc_freshnessClass capacity)) unknownFreshnessClass) (\<lambda>_.
     ebind (assertNonNegativeBigInt (mc_monthlyCapacityMinor capacity) ''capacity.monthlyCapacityMinor'') (\<lambda>_.
     ebind (assertFiniteNonNegative (mc_minTicketMinor capacity) ''capacity.minTicketMinor'') (\<lambda>_.
     ebind (assertFiniteNonNegative (mc_maxTicketMinor capacity) ''capacity.maxTicketMinor'') (\<lambda>_.
     ebind (throw_if (\<not> js_eq (mc_maxTicketMinor capacity) (Fin 0) \<and>
         js_lt (mc_maxTicketMinor capacity) (mc_minTicketMinor capacity)) invertedTicketRange) (\<lambda>_.
     ebind (assertFiniteNonNegative (mc_maxChargebackBps capacity) ''capacity.maxChargebackBps'') (\<lambda>_.
     ebind (assertFiniteNonNegative (mc_maxFraudBps capacity) ''capacity.maxFraudBps'') (\<lambda>_.
     ebind (assertFiniteNonNegative (mc_maxRefundBps capacity) ''capacity.maxRefundBps'') (\<lambda>_.
       assertFiniteNonNegative (mc_settlementCadenceDays capacity) ''capacity.settlementCadenceDays''))))))))))"

section \<open>The rules\<close>

definition pass :: "EligibilityRuleFamily \<Rightarrow> string \<Rightarrow> RuleResult" where
  "pass rule code =
     \<lparr>ru_rule = rule, ru_code = code, ru_status = PASS, ru_blocking = False,
      ru_overridable = overridableFor code\<rparr>"

text \<open>The object literal of a finding that is not a pass.\<close>

definition finding ::
  "EligibilityRuleFamily \<Rightarrow> string \<Rightarrow> RuleResultStatus \<Rightarrow> bool \<Rightarrow> RuleResult" where
  "finding rule code status blocking =
     \<lparr>ru_rule = rule, ru_code = code, ru_status = status, ru_blocking = blocking,
      ru_overridable = overridableFor code\<rparr>"

definition checkRole :: RuleResult where
  "checkRole = pass ROLE ''ROLE_ASSUMED_COMPATIBLE''"

definition checkJurisdiction :: "MatchOpportunityInput \<Rightarrow> MatchCapacityInput \<Rightarrow> RuleResult" where
  "checkJurisdiction opportunity capacity =
     (if mo_jurisdictions opportunity = [] \<or> mc_jurisdictions capacity = []
      then finding JURISDICTION ''JURISDICTION_UNSPECIFIED'' UNKNOWN True
      else if overlap (mo_jurisdictions opportunity) (mc_jurisdictions capacity) = []
      then finding JURISDICTION ''JURISDICTION_NO_OVERLAP'' INELIGIBLE True
      else pass JURISDICTION ''JURISDICTION_OVERLAP_OK'')"

definition checkMccProduct :: "MatchOpportunityInput \<Rightarrow> MatchCapacityInput \<Rightarrow> RuleResult" where
  "checkMccProduct opportunity capacity =
     (if mo_mccs opportunity = [] then finding MCC_PRODUCT ''MCC_UNSPECIFIED'' UNKNOWN True
      else if mc_mccsAccepted capacity = [] then finding MCC_PRODUCT ''MCC_ACCEPTED_LIST_EMPTY'' UNKNOWN True
      else if filter (\<lambda>m. m \<in> set (mc_mccsExcluded capacity)) (mo_mccs opportunity) \<noteq> []
      then finding MCC_PRODUCT ''MCC_EXCLUDED'' INELIGIBLE True
      else if filter (\<lambda>m. m \<notin> set (mc_mccsAccepted capacity)) (mo_mccs opportunity) \<noteq> []
      then finding MCC_PRODUCT ''MCC_NOT_ACCEPTED'' INELIGIBLE True
      else pass MCC_PRODUCT ''MCC_COVERED'')"

text \<open>The two findings of the volume rule: capacity headroom, then ticket size.\<close>

definition checkHeadroom :: "MatchOpportunityInput \<Rightarrow> MatchCapacityInput \<Rightarrow> RuleResult" where
  "checkHeadroom opportunity capacity =
     (if \<not> mc_acceptingNewVolume capacity then finding VOLUME_TICKET ''VOLUME_NOT_ACCEPTING'' INELIGIBLE True
      else if mo_currency opportunity \<noteq> mc_currency capacity
      then finding VOLUME_TICKET ''VOLUME_CURRENCY_MISMATCH'' UNKNOWN False
      else if js_lt (bigintRatio (mc_monthlyCapacityMinor capacity) (mo_movable30dMinor opportunity))
                volumeHeadroomRatioBand_min
      then finding VOLUME_TICKET ''VOLUME_INSUFFICIENT_HEADROOM'' INELIGIBLE True
      else pass VOLUME_TICKET ''VOLUME_HEADROOM_OK'')"

definition checkTicket :: "MatchCapacityInput \<Rightarrow> MatchContext \<Rightarrow> EligibilityInputError + RuleResult" where
  "checkTicket capacity context =
     (case mx_averageTicketMinor context of
        None \<Rightarrow> Inr (finding VOLUME_TICKET ''TICKET_SIZE_NOT_SUPPLIED'' UNKNOWN False)
      | Some ticket \<Rightarrow>
          ebind (assertFiniteNonNegative ticket ''context.averageTicketMinor'') (\<lambda>_.
            let belowMin = js_lt ticket (mc_minTicketMinor capacity);
                aboveMax = js_lt (Fin 0) (mc_maxTicketMinor capacity) \<and> js_lt (mc_maxTicketMinor capacity) ticket
            in Inr (if belowMin \<or> aboveMax
                    then finding VOLUME_TICKET ''TICKET_SIZE_OUT_OF_RANGE'' INELIGIBLE True
                    else pass VOLUME_TICKET ''TICKET_SIZE_OK'')))"

definition checkVolumeTicket ::
  "MatchOpportunityInput \<Rightarrow> MatchCapacityInput \<Rightarrow> MatchContext \<Rightarrow> EligibilityInputError + RuleResult list" where
  "checkVolumeTicket opportunity capacity context =
     ebind (checkTicket capacity context) (\<lambda>ticket. Inr [checkHeadroom opportunity capacity, ticket])"

definition checkEvidenceLicense :: "MatchContext \<Rightarrow> RuleResult" where
  "checkEvidenceLicense context =
     (case mx_providerPassportStatus context of
        None \<Rightarrow> finding EVIDENCE_LICENSE ''EVIDENCE_LICENSE_UNKNOWN'' UNKNOWN True
      | Some status \<Rightarrow>
          if status = Psp_READY \<or> status = Psp_VERIFIED then pass EVIDENCE_LICENSE ''EVIDENCE_LICENSE_READY''
          else finding EVIDENCE_LICENSE ''EVIDENCE_LICENSE_NOT_READY'' BLOCKED True)"

text \<open>One dimension of the risk rule: whether the supplied rate breaches its ceiling.\<close>

definition riskBreach :: "js_number option \<Rightarrow> js_number \<Rightarrow> string \<Rightarrow> EligibilityInputError + bool" where
  "riskBreach rate ceil fieldName =
     (case rate of
        None \<Rightarrow> Inr False
      | Some r \<Rightarrow> ebind (assertFiniteNonNegative r fieldName) (\<lambda>_. Inr (js_lt ceil r)))"

definition checkRisk :: "MatchCapacityInput \<Rightarrow> MatchContext \<Rightarrow> EligibilityInputError + RuleResult" where
  "checkRisk capacity context =
     (case mx_merchantRiskProfile context of
        None \<Rightarrow> Inr (finding RISK ''RISK_NO_HISTORY'' UNKNOWN False)
      | Some rp \<Rightarrow>
          if rp_chargebackBps rp = None \<and> rp_fraudBps rp = None \<and> rp_refundBps rp = None
          then Inr (finding RISK ''RISK_NO_HISTORY'' UNKNOWN False)
          else
            ebind (riskBreach (rp_chargebackBps rp) (mc_maxChargebackBps capacity)
                     ''context.merchantRiskProfile.chargebackBps'') (\<lambda>b1.
            ebind (riskBreach (rp_fraudBps rp) (mc_maxFraudBps capacity)
                     ''context.merchantRiskProfile.fraudBps'') (\<lambda>b2.
            ebind (riskBreach (rp_refundBps rp) (mc_maxRefundBps capacity)
                     ''context.merchantRiskProfile.refundBps'') (\<lambda>b3.
              Inr (if b1 \<or> b2 \<or> b3 then finding RISK ''RISK_CEILING_EXCEEDED'' INELIGIBLE True
                   else pass RISK ''RISK_WITHIN_CEILING'')))))"

definition checkSettlement ::
  "MatchOpportunityInput \<Rightarrow> MatchCapacityInput \<Rightarrow> MatchContext \<Rightarrow> RuleResult" where
  "checkSettlement opportunity capacity context =
     (if mo_currency opportunity \<noteq> mc_currency capacity
      then finding SETTLEMENT ''SETTLEMENT_CURRENCY_UNSUPPORTED'' INELIGIBLE True
      else case mx_requiredSettlementRail context of
             Some rail \<Rightarrow>
               if rail \<noteq> [] \<and> rail \<noteq> mc_settlementRail capacity
               then finding SETTLEMENT ''SETTLEMENT_RAIL_UNSUPPORTED'' INELIGIBLE True
               else pass SETTLEMENT ''SETTLEMENT_OK''
           | None \<Rightarrow> pass SETTLEMENT ''SETTLEMENT_OK'')"

definition checkTechnical :: RuleResult where
  "checkTechnical = finding TECHNICAL ''TECHNICAL_NOT_EVALUATED'' UNKNOWN False"

definition checkFreshness :: "MatchCapacityInput \<Rightarrow> EligibilityInputError + RuleResult" where
  "checkFreshness capacity =
     (if mc_freshnessClass capacity = ''FRESH'' then Inr (pass FRESHNESS ''FRESHNESS_FRESH'')
      else if mc_freshnessClass capacity = ''AGING''
      then Inr (finding FRESHNESS ''FRESHNESS_AGING'' REFRESH_REQUIRED False)
      else if mc_freshnessClass capacity = ''STALE''
      then Inr (finding FRESHNESS ''FRESHNESS_STALE'' REFRESH_REQUIRED True)
      else if mc_freshnessClass capacity = ''UNKNOWN''
      then Inr (finding FRESHNESS ''FRESHNESS_UNKNOWN'' REFRESH_REQUIRED True)
      else Inl unknownFreshnessClass)"

definition checkComplianceHold :: "MatchContext \<Rightarrow> RuleResult" where
  "checkComplianceHold context =
     (if mx_complianceHold context = Some True
      then finding COMPLIANCE_HOLD ''COMPLIANCE_HOLD_ACTIVE'' BLOCKED True
      else pass COMPLIANCE_HOLD ''COMPLIANCE_HOLD_NONE_KNOWN'')"

definition evaluateEligibility ::
  "MatchOpportunityInput \<Rightarrow> MatchCapacityInput \<Rightarrow> MatchContext \<Rightarrow> EligibilityInputError + EligibilityResult" where
  "evaluateEligibility opportunity capacity context =
     ebind (validateOpportunity opportunity) (\<lambda>_.
     ebind (validateCapacity capacity) (\<lambda>_.
     ebind (checkVolumeTicket opportunity capacity context) (\<lambda>volume.
     ebind (checkRisk capacity context) (\<lambda>risk.
     ebind (checkFreshness capacity) (\<lambda>fresh.
       let results = [checkRole, checkJurisdiction opportunity capacity, checkMccProduct opportunity capacity]
             @ volume @
             [checkEvidenceLicense context, risk, checkSettlement opportunity capacity context,
              checkTechnical, fresh, checkComplianceHold context];
           blockers = filter (\<lambda>r. ru_status r \<noteq> PASS \<and> ru_blocking r) results;
           warnings = filter (\<lambda>r. ru_status r \<noteq> PASS \<and> \<not> ru_blocking r) results
       in Inr \<lparr>er_eligible = (length blockers = 0), er_results = results, er_blockers = blockers,
               er_warnings = warnings,
               er_ruleVersion = (case mx_ruleVersion context of Some v \<Rightarrow> v | None \<Rightarrow> matching_ruleVersion),
               er_inputVersions = (case mx_inputVersions context of Some v \<Rightarrow> v | None \<Rightarrow> []),
               er_evaluatedAt = mx_now context\<rparr>)))))"

section \<open>Headroom in floating point\<close>

text \<open>
  Enough capacity is never reported as insufficient, whatever the size of the amounts; and for a
  demand of at most 2^53 minor units, too little capacity is always reported. Above that bound the
  conversion to a number can hide a shortfall.
\<close>

lemma js_Number_mono: "m \<le> n \<Longrightarrow> js_le (js_Number m) (js_Number n)"
  by (simp add: js_Number_def js_fl_mono)

lemma js_Number_pos:
  assumes "0 < n"
  shows "js_Number n = PosInfinity \<or> (\<exists>q. js_Number n = Fin q \<and> 1 \<le> q)"
proof -
  have "js_le (Fin 1) (js_Number n)"
    using js_Number_mono [of 1 n] js_Number_small [of 1] assms by simp
  then show ?thesis
    by (cases "js_Number n") auto
qed

lemma enough_capacity:
  assumes "d \<le> n" "0 \<le> d"
  shows "\<not> js_lt (bigintRatio n d) (Fin 1)"
proof (cases "d = 0")
  case True
  then show ?thesis
    by (simp add: bigintRatio_def)
next
  case False
  then have le: "js_le (js_Number d) (js_Number n)" and d: "0 < d"
    using assms js_Number_mono by auto
  have "\<not> js_lt (js_fl (q / r)) (Fin 1)" if "r \<le> q" "1 \<le> r" for q r
  proof -
    have "(1::rat) \<le> q / r"
      using that by (simp add: le_divide_eq)
    then have "1 \<le> dbl (q / r)"
      using dbl_ge_int [of 1 "q / r"] by simp
    then show ?thesis
      using js_fl_lt_int [of 1 "q / r"] by simp
  qed
  then show ?thesis
    using le False js_Number_pos [OF d] js_Number_pos [of n] d assms(1)
    by (auto simp: bigintRatio_def js_inf_def)
qed

lemma short_capacity:
  assumes "0 \<le> n" "n < d" "d \<le> 2 ^ 53"
  shows "js_lt (bigintRatio n d) (Fin 1)"
proof -
  have num: "js_Number n = Fin (of_int n)" "js_Number d = Fin (of_int d)"
    using assms by (auto intro!: js_Number_small)
  let ?p = "1 - 1 / 9007199254740992 :: rat"
  have "(of_int d :: rat) \<le> of_int (2 ^ 53)" "(of_int n :: rat) \<le> of_int (d - 1)"
    using assms by (simp_all only: of_int_le_iff)
  then have "of_int n / of_int d \<le> ?p"
    using assms by (simp add: divide_le_eq field_simps)
  moreover have "dbl ?p < 1"
    by code_simp
  ultimately have "dbl (of_int n / of_int d) < 1"
    using dbl_mono by (meson le_less_trans)
  then show ?thesis
    using assms js_fl_lt_int [of 1 "of_int n / of_int d"] by (simp add: bigintRatio_def num)
qed

lemma headroom_iff:
  assumes "0 \<le> n" "0 \<le> d" "d \<le> 2 ^ 53"
  shows "js_lt (bigintRatio n d) volumeHeadroomRatioBand_min \<longleftrightarrow> n < d"
  using enough_capacity [of d n] short_capacity [of n d] assms
  by (cases "n < d") (auto simp: volumeHeadroomRatioBand_min_def)

section \<open>What eligible means\<close>

named_theorems eligibility_rules \<open>definitions of the rules of the eligibility engine\<close>

lemmas [eligibility_rules] = checkRole_def checkJurisdiction_def checkMccProduct_def checkHeadroom_def
  checkEvidenceLicense_def checkSettlement_def checkTechnical_def checkComplianceHold_def

text \<open>A rule blocks when its finding is a blocker.\<close>

definition blocks :: "RuleResult \<Rightarrow> bool" where
  "blocks r = (ru_status r \<noteq> PASS \<and> ru_blocking r)"

lemma blocks_simps [simp]:
  "\<not> blocks (pass rule code)"
  "blocks (finding rule code status b) \<longleftrightarrow> status \<noteq> PASS \<and> b"
  by (simp_all add: blocks_def pass_def finding_def)

definition within_ceiling :: "js_number option \<Rightarrow> js_number \<Rightarrow> bool" where
  "within_ceiling rate ceil = (case rate of None \<Rightarrow> True | Some r \<Rightarrow> js_le r ceil)"

definition ticket_in_range :: "js_number option \<Rightarrow> MatchCapacityInput \<Rightarrow> bool" where
  "ticket_in_range ticket capacity = (case ticket of None \<Rightarrow> True | Some t \<Rightarrow>
     js_le (mc_minTicketMinor capacity) t \<and>
     (mc_maxTicketMinor capacity = Fin 0 \<or> js_le t (mc_maxTicketMinor capacity)))"

text \<open>The hard requirements, as the rule table of the specification lists them.\<close>

definition requirements_met :: "MatchOpportunityInput \<Rightarrow> MatchCapacityInput \<Rightarrow> MatchContext \<Rightarrow> bool" where
  "requirements_met p c x \<longleftrightarrow>
     (\<exists>j. j \<in> set (mo_jurisdictions p) \<and> j \<in> set (mc_jurisdictions c)) \<and>
     mo_mccs p \<noteq> [] \<and> set (mo_mccs p) \<subseteq> set (mc_mccsAccepted c) - set (mc_mccsExcluded c) \<and>
     mc_acceptingNewVolume c \<and> mo_currency p = mc_currency c \<and>
     mo_movable30dMinor p \<le> mc_monthlyCapacityMinor c \<and>
     ticket_in_range (mx_averageTicketMinor x) c \<and>
     mx_providerPassportStatus x \<in> {Some Psp_READY, Some Psp_VERIFIED} \<and>
     (case mx_merchantRiskProfile x of None \<Rightarrow> True | Some rp \<Rightarrow>
        within_ceiling (rp_chargebackBps rp) (mc_maxChargebackBps c) \<and>
        within_ceiling (rp_fraudBps rp) (mc_maxFraudBps c) \<and>
        within_ceiling (rp_refundBps rp) (mc_maxRefundBps c)) \<and>
     (case mx_requiredSettlementRail x of None \<Rightarrow> True | Some rail \<Rightarrow> rail = [] \<or> rail = mc_settlementRail c) \<and>
     mc_freshnessClass c \<in> {''FRESH'', ''AGING''} \<and>
     mx_complianceHold x \<noteq> Some True"

lemma assertFiniteNonNegative_ok [result_simps]:
  "assertFiniteNonNegative v f = Inr u \<longleftrightarrow> (\<exists>q. v = Fin q \<and> 0 \<le> q)"
  by (cases v) (auto simp: assertFiniteNonNegative_def ebind_eq_Inr)

lemma riskBreach_ok:
  assumes "riskBreach rate ceil f = Inr b" "ceil = Fin q"
  shows "b \<longleftrightarrow> \<not> within_ceiling rate ceil"
  using assms by (cases rate) (auto simp: riskBreach_def within_ceiling_def result_simps)

lemma checkRisk_blocks:
  assumes "checkRisk c x = Inr r" "mc_maxChargebackBps c = Fin q1" "mc_maxFraudBps c = Fin q2"
    "mc_maxRefundBps c = Fin q3"
  shows "blocks r \<longleftrightarrow> (case mx_merchantRiskProfile x of None \<Rightarrow> False | Some rp \<Rightarrow>
      \<not> (within_ceiling (rp_chargebackBps rp) (mc_maxChargebackBps c) \<and>
         within_ceiling (rp_fraudBps rp) (mc_maxFraudBps c) \<and> within_ceiling (rp_refundBps rp) (mc_maxRefundBps c)))"
proof (cases "mx_merchantRiskProfile x")
  case None
  then show ?thesis
    using assms(1) by (auto simp: checkRisk_def)
next
  case (Some rp)
  show ?thesis
  proof (cases "rp_chargebackBps rp = None \<and> rp_fraudBps rp = None \<and> rp_refundBps rp = None")
    case True
    then show ?thesis
      using assms(1) Some by (auto simp: checkRisk_def within_ceiling_def)
  next
    case False
    then obtain b1 b2 b3 where
      "riskBreach (rp_chargebackBps rp) (mc_maxChargebackBps c) ''context.merchantRiskProfile.chargebackBps'' = Inr b1"
      "riskBreach (rp_fraudBps rp) (mc_maxFraudBps c) ''context.merchantRiskProfile.fraudBps'' = Inr b2"
      "riskBreach (rp_refundBps rp) (mc_maxRefundBps c) ''context.merchantRiskProfile.refundBps'' = Inr b3"
      and r: "r = (if b1 \<or> b2 \<or> b3 then finding RISK ''RISK_CEILING_EXCEEDED'' INELIGIBLE True
        else pass RISK ''RISK_WITHIN_CEILING'')"
      using assms(1) Some by (auto simp: checkRisk_def ebind_eq_Inr)
    then show ?thesis
      unfolding r using Some riskBreach_ok assms(2-) by simp
  qed
qed

lemma checkTicket_blocks:
  assumes "checkTicket c x = Inr r" "mc_minTicketMinor c = Fin q1" "mc_maxTicketMinor c = Fin q2" "0 \<le> q2"
  shows "blocks r \<longleftrightarrow> \<not> ticket_in_range (mx_averageTicketMinor x) c"
  using assms
  by (auto simp: checkTicket_def ticket_in_range_def Let_def result_simps split: option.splits if_splits)

lemma checkFreshness_blocks:
  "checkFreshness c = Inr r \<Longrightarrow> blocks r \<longleftrightarrow> mc_freshnessClass c \<notin> {''FRESH'', ''AGING''}"
  by (auto simp: checkFreshness_def split: if_splits)

lemma validateCapacity_ok:
  "validateCapacity c = Inr u \<longleftrightarrow>
     length (mc_currency c) = 3 \<and> js_trim (mc_settlementRail c) \<noteq> [] \<and>
     isFreshnessClassLike (mc_freshnessClass c) \<and> 0 \<le> mc_monthlyCapacityMinor c \<and>
     (\<exists>q1 q2. mc_minTicketMinor c = Fin q1 \<and> mc_maxTicketMinor c = Fin q2 \<and> 0 \<le> q1 \<and> 0 \<le> q2 \<and>
        (q2 = 0 \<or> q1 \<le> q2)) \<and>
     (\<exists>q. mc_maxChargebackBps c = Fin q \<and> 0 \<le> q) \<and> (\<exists>q. mc_maxFraudBps c = Fin q \<and> 0 \<le> q) \<and>
     (\<exists>q. mc_maxRefundBps c = Fin q \<and> 0 \<le> q) \<and> (\<exists>q. mc_settlementCadenceDays c = Fin q \<and> 0 \<le> q)"
  by (auto simp: validateCapacity_def ebind_eq_Inr assertFiniteNonNegative_ok assertNonNegativeBigInt_def
      js_eq_def not_less)

lemma evaluateEligibility_ok:
  assumes "evaluateEligibility p c x = Inr r"
  obtains ticket risk fresh where
    "validateOpportunity p = Inr ()" "validateCapacity c = Inr ()"
    "checkTicket c x = Inr ticket" "checkRisk c x = Inr risk" "checkFreshness c = Inr fresh"
    "er_results r = [checkRole, checkJurisdiction p c, checkMccProduct p c, checkHeadroom p c, ticket,
       checkEvidenceLicense x, risk, checkSettlement p c x, checkTechnical, fresh, checkComplianceHold x]"
    "er_blockers r = filter blocks (er_results r)"
    "er_warnings r = filter (\<lambda>f. ru_status f \<noteq> PASS \<and> \<not> ru_blocking f) (er_results r)"
    "er_eligible r \<longleftrightarrow> er_blockers r = []" "er_evaluatedAt r = mx_now x"
proof -
  obtain u v ticket risk fresh where "validateOpportunity p = Inr u" "validateCapacity c = Inr v"
    "checkTicket c x = Inr ticket" "checkRisk c x = Inr risk" "checkFreshness c = Inr fresh"
    using assms unfolding evaluateEligibility_def checkVolumeTicket_def ebind_eq_Inr
    by (elim exE conjE) fast
  note ok = this
  define res where "res = [checkRole, checkJurisdiction p c, checkMccProduct p c, checkHeadroom p c, ticket,
    checkEvidenceLicense x, risk, checkSettlement p c x, checkTechnical, fresh, checkComplianceHold x]"
  have blocks: "(\<lambda>f. ru_status f \<noteq> PASS \<and> ru_blocking f) = blocks"
    by (simp add: fun_eq_iff blocks_def)
  have r: "r = \<lparr>er_eligible = (length (filter blocks res) = 0), er_results = res,
      er_blockers = filter blocks res,
      er_warnings = filter (\<lambda>f. ru_status f \<noteq> PASS \<and> \<not> ru_blocking f) res,
      er_ruleVersion = (case mx_ruleVersion x of Some v \<Rightarrow> v | None \<Rightarrow> matching_ruleVersion),
      er_inputVersions = (case mx_inputVersions x of Some v \<Rightarrow> v | None \<Rightarrow> []), er_evaluatedAt = mx_now x\<rparr>"
    using assms unfolding evaluateEligibility_def checkVolumeTicket_def ok ebind_simps Let_def append.simps
      blocks res_def [symmetric] by (simp only: sum.inject)
  have results: "er_results r = [checkRole, checkJurisdiction p c, checkMccProduct p c, checkHeadroom p c, ticket,
    checkEvidenceLicense x, risk, checkSettlement p c x, checkTechnical, fresh, checkComplianceHold x]"
    unfolding r by (simp add: res_def)
  have "er_blockers r = filter blocks (er_results r)"
    "er_warnings r = filter (\<lambda>f. ru_status f \<noteq> PASS \<and> \<not> ru_blocking f) (er_results r)"
    "er_eligible r \<longleftrightarrow> er_blockers r = []" "er_evaluatedAt r = mx_now x"
    unfolding r by simp_all
  moreover have "validateOpportunity p = Inr ()" "validateCapacity c = Inr ()"
    using ok(1,2) by simp_all
  ultimately show thesis
    using ok(3-5) results by (intro that)
qed

lemma checkJurisdiction_blocks:
  "blocks (checkJurisdiction p c) \<longleftrightarrow>
   \<not> (\<exists>j. j \<in> set (mo_jurisdictions p) \<and> j \<in> set (mc_jurisdictions c))"
  by (auto simp: checkJurisdiction_def overlap_def filter_empty_conv)

lemma checkMccProduct_blocks:
  "blocks (checkMccProduct p c) \<longleftrightarrow>
   \<not> (mo_mccs p \<noteq> [] \<and> set (mo_mccs p) \<subseteq> set (mc_mccsAccepted c) - set (mc_mccsExcluded c))"
  by (cases "mo_mccs p") (auto simp: checkMccProduct_def filter_empty_conv)

lemma checkHeadroom_blocks:
  assumes "0 \<le> mc_monthlyCapacityMinor c" "0 \<le> mo_movable30dMinor p" "mo_movable30dMinor p \<le> 2 ^ 53"
    "mo_currency p = mc_currency c"
  shows "blocks (checkHeadroom p c) \<longleftrightarrow>
    \<not> (mc_acceptingNewVolume c \<and> mo_movable30dMinor p \<le> mc_monthlyCapacityMinor c)"
  using headroom_iff [OF assms(1-3)] assms(4) by (auto simp: checkHeadroom_def)

lemma other_blocks:
  "\<not> blocks checkRole" "\<not> blocks checkTechnical"
  "blocks (checkEvidenceLicense x) \<longleftrightarrow> mx_providerPassportStatus x \<notin> {Some Psp_READY, Some Psp_VERIFIED}"
  "blocks (checkSettlement p c x) \<longleftrightarrow> \<not> (mo_currency p = mc_currency c \<and>
     (case mx_requiredSettlementRail x of None \<Rightarrow> True | Some rail \<Rightarrow> rail = [] \<or> rail = mc_settlementRail c))"
  "blocks (checkComplianceHold x) \<longleftrightarrow> mx_complianceHold x = Some True"
  by (auto simp: eligibility_rules split: option.splits)

text \<open>C38. Eligibility decides exactly the hard requirements of the rule table: once the inputs pass
  validation, a capacity is eligible if and only if a jurisdiction is shared, there are MCCs and
  every one of them is accepted and none excluded, the provider accepts volume in the opportunity's
  currency and can carry the demanded volume, a supplied ticket size, risk profile or settlement rail
  fits, the provider's passport is READY or VERIFIED, the capacity is FRESH or AGING, and no
  compliance hold is active. The volume test is computed in floating point; it is exact for a demand
  of at most 2^53 minor units.\<close>

theorem eligible_iff_requirements:
  assumes "evaluateEligibility p c x = Inr r" "mo_movable30dMinor p \<le> 2 ^ 53"
  shows "er_eligible r \<longleftrightarrow> requirements_met p c x"
proof -
  obtain ticket risk fresh where ok:
    "validateOpportunity p = Inr ()" "validateCapacity c = Inr ()"
    "checkTicket c x = Inr ticket" "checkRisk c x = Inr risk" "checkFreshness c = Inr fresh"
    and res: "er_results r = [checkRole, checkJurisdiction p c, checkMccProduct p c, checkHeadroom p c, ticket,
       checkEvidenceLicense x, risk, checkSettlement p c x, checkTechnical, fresh, checkComplianceHold x]"
    "er_blockers r = filter blocks (er_results r)" "er_eligible r \<longleftrightarrow> er_blockers r = []"
    using assms(1) by (elim evaluateEligibility_ok)
  have "0 \<le> mo_movable30dMinor p"
    using ok(1) by (auto simp: validateOpportunity_def assertNonNegativeBigInt_def ebind_eq_Inr)
  moreover obtain q1 q2 q3 q4 q5 where cap: "0 \<le> mc_monthlyCapacityMinor c"
    "mc_minTicketMinor c = Fin q1" "mc_maxTicketMinor c = Fin q2" "0 \<le> q2"
    "mc_maxChargebackBps c = Fin q3" "mc_maxFraudBps c = Fin q4" "mc_maxRefundBps c = Fin q5"
    using ok(2) unfolding validateCapacity_ok by auto
  ultimately have head: "mo_currency p = mc_currency c \<Longrightarrow> blocks (checkHeadroom p c) \<longleftrightarrow>
      \<not> (mc_acceptingNewVolume c \<and> mo_movable30dMinor p \<le> mc_monthlyCapacityMinor c)"
    using checkHeadroom_blocks assms(2) by blast
  have "er_eligible r \<longleftrightarrow> \<not> blocks (checkJurisdiction p c) \<and> \<not> blocks (checkMccProduct p c) \<and>
      \<not> blocks (checkHeadroom p c) \<and> \<not> blocks ticket \<and> \<not> blocks (checkEvidenceLicense x) \<and> \<not> blocks risk \<and>
      \<not> blocks (checkSettlement p c x) \<and> \<not> blocks fresh \<and> \<not> blocks (checkComplianceHold x)"
    unfolding res(3) res(2) res(1) by (simp add: filter_empty_conv other_blocks(1,2))
  also have "\<dots> \<longleftrightarrow> requirements_met p c x"
    unfolding requirements_met_def checkJurisdiction_blocks checkMccProduct_blocks other_blocks
      checkTicket_blocks [OF ok(3) cap(2-4)] checkRisk_blocks [OF ok(4) cap(5-7)]
      checkFreshness_blocks [OF ok(5)]
    using head by (auto split: option.splits)
  finally show ?thesis .
qed

section \<open>The rule trace\<close>

text \<open>Families whose blockers no operator may override.\<close>

definition prohibited_families :: "EligibilityRuleFamily set" where
  "prohibited_families = {JURISDICTION, MCC_PRODUCT, EVIDENCE_LICENSE, COMPLIANCE_HOLD}"

definition well_formed_finding :: "EligibilityRuleFamily \<Rightarrow> RuleResult \<Rightarrow> bool" where
  "well_formed_finding rule f \<longleftrightarrow> ru_rule f = rule \<and>
     map_of overridableByCode (ru_code f) = Some (ru_overridable f) \<and>
     (blocks f \<and> rule \<in> prohibited_families \<longrightarrow> \<not> ru_overridable f)"

lemma well_formed_simps:
  "well_formed_finding rule (pass rule' code) \<longleftrightarrow> rule' = rule \<and> map_of overridableByCode code \<noteq> None"
  "well_formed_finding rule (finding rule' code status b) \<longleftrightarrow> rule' = rule \<and>
     map_of overridableByCode code \<noteq> None \<and>
     (status \<noteq> PASS \<and> b \<and> rule \<in> prohibited_families \<longrightarrow> map_of overridableByCode code = Some False)"
  by (auto simp: well_formed_finding_def pass_def finding_def overridableFor_def blocks_def split: option.splits)

lemma overridable_entries:
  "map_of overridableByCode ''ROLE_ASSUMED_COMPATIBLE'' = Some True"
  "map_of overridableByCode ''JURISDICTION_UNSPECIFIED'' = Some False"
  "map_of overridableByCode ''JURISDICTION_NO_OVERLAP'' = Some False"
  "map_of overridableByCode ''JURISDICTION_OVERLAP_OK'' = Some True"
  "map_of overridableByCode ''MCC_UNSPECIFIED'' = Some False"
  "map_of overridableByCode ''MCC_ACCEPTED_LIST_EMPTY'' = Some False"
  "map_of overridableByCode ''MCC_EXCLUDED'' = Some False"
  "map_of overridableByCode ''MCC_NOT_ACCEPTED'' = Some False"
  "map_of overridableByCode ''MCC_COVERED'' = Some True"
  "map_of overridableByCode ''VOLUME_NOT_ACCEPTING'' = Some True"
  "map_of overridableByCode ''VOLUME_CURRENCY_MISMATCH'' = Some True"
  "map_of overridableByCode ''VOLUME_INSUFFICIENT_HEADROOM'' = Some True"
  "map_of overridableByCode ''VOLUME_HEADROOM_OK'' = Some True"
  "map_of overridableByCode ''TICKET_SIZE_NOT_SUPPLIED'' = Some True"
  "map_of overridableByCode ''TICKET_SIZE_OUT_OF_RANGE'' = Some True"
  "map_of overridableByCode ''TICKET_SIZE_OK'' = Some True"
  "map_of overridableByCode ''EVIDENCE_LICENSE_NOT_READY'' = Some False"
  "map_of overridableByCode ''EVIDENCE_LICENSE_UNKNOWN'' = Some False"
  "map_of overridableByCode ''EVIDENCE_LICENSE_READY'' = Some True"
  "map_of overridableByCode ''RISK_NO_HISTORY'' = Some True"
  "map_of overridableByCode ''RISK_CEILING_EXCEEDED'' = Some True"
  "map_of overridableByCode ''RISK_WITHIN_CEILING'' = Some True"
  "map_of overridableByCode ''SETTLEMENT_CURRENCY_UNSUPPORTED'' = Some True"
  "map_of overridableByCode ''SETTLEMENT_RAIL_UNSUPPORTED'' = Some True"
  "map_of overridableByCode ''SETTLEMENT_OK'' = Some True"
  "map_of overridableByCode ''TECHNICAL_NOT_EVALUATED'' = Some True"
  "map_of overridableByCode ''FRESHNESS_STALE'' = Some True"
  "map_of overridableByCode ''FRESHNESS_UNKNOWN'' = Some False"
  "map_of overridableByCode ''FRESHNESS_AGING'' = Some True"
  "map_of overridableByCode ''FRESHNESS_FRESH'' = Some True"
  "map_of overridableByCode ''COMPLIANCE_HOLD_ACTIVE'' = Some False"
  "map_of overridableByCode ''COMPLIANCE_HOLD_NONE_KNOWN'' = Some True"
  by code_simp+

lemma rule_codes:
  "well_formed_finding ROLE checkRole"
  "well_formed_finding JURISDICTION (checkJurisdiction p c)"
  "well_formed_finding MCC_PRODUCT (checkMccProduct p c)"
  "well_formed_finding VOLUME_TICKET (checkHeadroom p c)"
  "well_formed_finding EVIDENCE_LICENSE (checkEvidenceLicense x)"
  "well_formed_finding SETTLEMENT (checkSettlement p c x)"
  "well_formed_finding TECHNICAL checkTechnical"
  "well_formed_finding COMPLIANCE_HOLD (checkComplianceHold x)"
  by (auto simp: eligibility_rules well_formed_simps overridable_entries prohibited_families_def
      split: option.splits)

lemma checked_rule_codes:
  "checkTicket c x = Inr f \<Longrightarrow> well_formed_finding VOLUME_TICKET f"
  "checkRisk c x = Inr f \<Longrightarrow> well_formed_finding RISK f"
  "checkFreshness c = Inr f \<Longrightarrow> well_formed_finding FRESHNESS f"
  by (auto simp: checkTicket_def checkRisk_def checkFreshness_def Let_def ebind_eq_Inr well_formed_simps
      overridable_entries prohibited_families_def split: option.splits if_splits)

text \<open>An evaluation reports every rule family, in a fixed order (volume twice: headroom and
  ticket size), and no finding is dropped: each one passes, or is a blocker, or is a warning, so an
  UNKNOWN is never treated as a pass. Every code is registered in the override table, and a blocker
  of the jurisdiction, MCC, evidence or compliance family is never overridable. The result is
  eligible exactly when there is no blocker.\<close>

theorem eligibility_trace_complete:
  assumes "evaluateEligibility p c x = Inr r"
  shows "map ru_rule (er_results r) =
      [ROLE, JURISDICTION, MCC_PRODUCT, VOLUME_TICKET, VOLUME_TICKET, EVIDENCE_LICENSE, RISK, SETTLEMENT,
       TECHNICAL, FRESHNESS, COMPLIANCE_HOLD]
    \<and> set (er_results r) = {f \<in> set (er_results r). ru_status f = PASS} \<union> set (er_blockers r) \<union> set (er_warnings r)
    \<and> set (er_blockers r) \<inter> set (er_warnings r) = {}
    \<and> (\<forall>f \<in> set (er_results r). map_of overridableByCode (ru_code f) = Some (ru_overridable f))
    \<and> (\<forall>f \<in> set (er_blockers r). ru_rule f \<in> prohibited_families \<longrightarrow> \<not> ru_overridable f)
    \<and> (er_eligible r \<longleftrightarrow> er_blockers r = [])"
proof -
  obtain ticket risk fresh where ok:
    "checkTicket c x = Inr ticket" "checkRisk c x = Inr risk" "checkFreshness c = Inr fresh"
    and res: "er_results r = [checkRole, checkJurisdiction p c, checkMccProduct p c, checkHeadroom p c, ticket,
       checkEvidenceLicense x, risk, checkSettlement p c x, checkTechnical, fresh, checkComplianceHold x]"
    and parts: "er_blockers r = filter blocks (er_results r)"
    "er_warnings r = filter (\<lambda>f. ru_status f \<noteq> PASS \<and> \<not> ru_blocking f) (er_results r)"
    and el: "er_eligible r \<longleftrightarrow> er_blockers r = []"
    using assms by (elim evaluateEligibility_ok)
  let ?fams = "[ROLE, JURISDICTION, MCC_PRODUCT, VOLUME_TICKET, VOLUME_TICKET, EVIDENCE_LICENSE, RISK,
    SETTLEMENT, TECHNICAL, FRESHNESS, COMPLIANCE_HOLD]"
  have shape: "list_all2 well_formed_finding ?fams (er_results r)"
    unfolding res using rule_codes checked_rule_codes(1) [OF ok(1)] checked_rule_codes(2) [OF ok(2)]
      checked_rule_codes(3) [OF ok(3)] by simp
  have "list_all2 (\<lambda>fam f. ru_rule f = fam) ?fams (er_results r)"
    using shape by (rule list.rel_mono_strong) (simp add: well_formed_finding_def)
  then have fams: "map ru_rule (er_results r) = ?fams"
    by (auto simp: list_all2_conv_all_nth intro!: nth_equalityI)
  have each: "well_formed_finding (ru_rule f) f" if "f \<in> set (er_results r)" for f
    using shape that by (auto simp: list_all2_conv_all_nth in_set_conv_nth well_formed_finding_def)
  show ?thesis
  proof (intro conjI)
    show "set (er_results r) = {f \<in> set (er_results r). ru_status f = PASS} \<union> set (er_blockers r) \<union> set (er_warnings r)"
      "set (er_blockers r) \<inter> set (er_warnings r) = {}"
      unfolding parts by (auto simp: blocks_def)
    show "\<forall>f \<in> set (er_results r). map_of overridableByCode (ru_code f) = Some (ru_overridable f)"
      "\<forall>f \<in> set (er_blockers r). ru_rule f \<in> prohibited_families \<longrightarrow> \<not> ru_overridable f"
      using each unfolding parts by (auto simp: well_formed_finding_def)
  qed (rule fams, rule el)
qed

section \<open>Examples\<close>

definition example_opportunity :: MatchOpportunityInput where
  "example_opportunity =
     \<lparr>mo_id = ''opp'', mo_currency = ''EUR'', mo_jurisdictions = [''DE'', ''FR''], mo_mccs = [''5812''],
      mo_movable30dMinor = 1000000\<rparr>"

definition example_capacity :: MatchCapacityInput where
  "example_capacity =
     \<lparr>mc_id = ''cap-a'', mc_currency = ''EUR'', mc_jurisdictions = [''FR''], mc_mccsAccepted = [''5812'', ''5814''],
      mc_mccsExcluded = [''7995''], mc_acceptingNewVolume = True, mc_monthlyCapacityMinor = 3000000,
      mc_minTicketMinor = Fin 100, mc_maxTicketMinor = Fin 0, mc_maxChargebackBps = Fin 90,
      mc_maxFraudBps = Fin 40, mc_maxRefundBps = Fin 300, mc_settlementRail = ''SEPA'',
      mc_settlementCadenceDays = Fin 2, mc_freshnessClass = ''AGING'', mc_commercialTerms = None\<rparr>"

definition example_match_context :: MatchContext where
  "example_match_context =
     \<lparr>mx_now = 1700000000000, mx_providerPassportStatus = Some Psp_READY, mx_merchantRiskProfile = None,
      mx_averageTicketMinor = Some (Fin 2500), mx_requiredSettlementRail = Some ''SEPA'',
      mx_complianceHold = None, mx_ruleVersion = None, mx_inputVersions = None\<rparr>"

lemma example_evaluates: "\<exists>r. evaluateEligibility example_opportunity example_capacity example_match_context = Inr r"
proof -
  have "validateOpportunity example_opportunity = Inr ()"
    by (simp add: validateOpportunity_def example_opportunity_def assertNonNegativeBigInt_def throw_if_def)
  moreover have "js_trim ''SEPA'' \<noteq> []"
    by code_simp
  then have "validateCapacity example_capacity = Inr ()"
    by (simp add: validateCapacity_ok example_capacity_def isFreshnessClassLike_def matching_FRESHNESS_CLASSES_def)
  moreover have "\<exists>f. checkTicket example_capacity example_match_context = Inr f"
    by (simp add: checkTicket_def example_match_context_def assertFiniteNonNegative_def throw_if_def Let_def)
  moreover have "\<exists>f. checkRisk example_capacity example_match_context = Inr f"
    "\<exists>f. checkFreshness example_capacity = Inr f"
    by (simp_all add: checkRisk_def checkFreshness_def example_match_context_def example_capacity_def)
  ultimately show ?thesis
    by (auto simp: evaluateEligibility_def checkVolumeTicket_def Let_def simp del: filter.simps)
qed

theorem eligible_iff_requirements_witness:
  "\<exists>r. evaluateEligibility example_opportunity example_capacity example_match_context = Inr r \<and> er_eligible r"
proof -
  obtain r where r: "evaluateEligibility example_opportunity example_capacity example_match_context = Inr r"
    using example_evaluates by blast
  have "mo_movable30dMinor example_opportunity \<le> 2 ^ 53"
    "requirements_met example_opportunity example_capacity example_match_context"
    by (auto simp: requirements_met_def example_opportunity_def example_capacity_def example_match_context_def
        ticket_in_range_def)
  then show ?thesis
    using eligible_iff_requirements [OF r] r by auto
qed

theorem eligibility_trace_complete_witness:
  "\<exists>r. evaluateEligibility example_opportunity example_capacity example_match_context = Inr r \<and>
     length (er_results r) = 11 \<and> (er_eligible r \<longleftrightarrow> er_blockers r = [])"
proof -
  obtain r where r: "evaluateEligibility example_opportunity example_capacity example_match_context = Inr r"
    using example_evaluates by blast
  have "length (map ru_rule (er_results r)) = 11"
    unfolding eligibility_trace_complete [OF r, THEN conjunct1] by simp
  then show ?thesis
    using eligibility_trace_complete [OF r] r by auto
qed

text \<open>The limit of the floating point headroom test: a demand of 2^53 + 1 minor units against a
  capacity of 2^53 is short by one unit, but both convert to the same number and the rule passes.\<close>

theorem headroom_shortfall_hidden:
  "checkHeadroom (example_opportunity\<lparr>mo_movable30dMinor := 2 ^ 53 + 1\<rparr>)
     (example_capacity\<lparr>mc_monthlyCapacityMinor := 2 ^ 53\<rparr>) = pass VOLUME_TICKET ''VOLUME_HEADROOM_OK''"
proof -
  have "\<not> js_lt (bigintRatio 9007199254740992 9007199254740993) volumeHeadroomRatioBand_min"
    by code_simp
  then show ?thesis
    by (simp add: checkHeadroom_def example_opportunity_def example_capacity_def)
qed

end
