(* ===== verification/Matching_Ranking.thy ===== *)
theory Matching_Ranking
  imports Matching_Eligibility
begin

text \<open>
  \<open>packages/matching/src/scoring.ts\<close> and \<open>ranking.ts\<close>: the nine weighted factors of a match
  and the ranking of the eligible capacities. All arithmetic is JavaScript number arithmetic; a
  decimal literal of the source is the nearest number. Notes are not modelled.
\<close>

section \<open>Configuration\<close>

datatype RankingFactor =
    mccProductFit | geographyLicensingFit | volumeTicketFit | riskHistoryFit | settlementCurrencyFit
  | commercialUtility | technicalLaunchFit | providerReliabilityFreshness | outcomeCalibratedLikelihood

definition RANKING_FACTORS :: "RankingFactor list" where
  "RANKING_FACTORS =
     [mccProductFit, geographyLicensingFit, volumeTicketFit, riskHistoryFit, settlementCurrencyFit,
      commercialUtility, technicalLaunchFit, providerReliabilityFreshness, outcomeCalibratedLikelihood]"

fun rankingWeights :: "RankingFactor \<Rightarrow> js_number" where
  "rankingWeights mccProductFit = js_fl (22 / 100)"
| "rankingWeights geographyLicensingFit = js_fl (17 / 100)"
| "rankingWeights volumeTicketFit = js_fl (13 / 100)"
| "rankingWeights riskHistoryFit = js_fl (13 / 100)"
| "rankingWeights settlementCurrencyFit = js_fl (1 / 10)"
| "rankingWeights commercialUtility = js_fl (1 / 10)"
| "rankingWeights technicalLaunchFit = js_fl (7 / 100)"
| "rankingWeights providerReliabilityFreshness = js_fl (5 / 100)"
| "rankingWeights outcomeCalibratedLikelihood = js_fl (3 / 100)"

definition matching_algorithmVersion :: string where
  "matching_algorithmVersion = ''matching-ranking-v1''"

definition outcomeCalibratedLikelihoodPlaceholder :: js_number where
  "outcomeCalibratedLikelihoodPlaceholder = Fin 50"

definition volumeHeadroomRatioBand_max :: js_number where
  "volumeHeadroomRatioBand_max = Fin 5"

definition settlementCadenceDaysBand :: "js_number \<times> js_number" where
  "settlementCadenceDaysBand = (Fin 1, Fin 10)"

definition commercialUtilityFeeBpsBand :: "js_number \<times> js_number" where
  "commercialUtilityFeeBpsBand = (Fin 80, Fin 450)"

definition mccSpecificityPenaltyPerExtra :: js_number where
  "mccSpecificityPenaltyPerExtra = Fin 2"

definition mccSpecificityPenaltyCap :: js_number where
  "mccSpecificityPenaltyCap = Fin 20"

definition technicalLaunchFitNeutralDefault :: js_number where
  "technicalLaunchFitNeutralDefault = Fin 70"

definition riskHistoryFitNeutralDefault :: js_number where
  "riskHistoryFitNeutralDefault = Fin 50"

definition neutralFactorDefault :: js_number where
  "neutralFactorDefault = Fin 50"

lemmas matching_config = outcomeCalibratedLikelihoodPlaceholder_def volumeHeadroomRatioBand_min_def
  volumeHeadroomRatioBand_max_def settlementCadenceDaysBand_def commercialUtilityFeeBpsBand_def
  mccSpecificityPenaltyPerExtra_def mccSpecificityPenaltyCap_def technicalLaunchFitNeutralDefault_def
  riskHistoryFitNeutralDefault_def neutralFactorDefault_def

text \<open>The two checks run when the module is loaded.\<close>

definition assertRankingWeightsSumToOne :: bool where
  "assertRankingWeightsSumToOne =
     (let w = rankingWeights;
          sum = js_add (js_add (js_add (js_add (js_add (js_add (js_add (js_add (w mccProductFit)
            (w geographyLicensingFit)) (w volumeTicketFit)) (w riskHistoryFit)) (w settlementCurrencyFit))
            (w commercialUtility)) (w technicalLaunchFit)) (w providerReliabilityFreshness))
            (w outcomeCalibratedLikelihood)
      in \<not> js_lt (js_fl (1 / 10 ^ 9)) (js_abs (js_sub sum (Fin 1))))"

definition assertNeutralDefaultsInRange :: bool where
  "assertNeutralDefaultsInRange =
     list_all (\<lambda>v. js_isFinite v \<and> \<not> js_lt v (Fin 0) \<and> \<not> js_lt (Fin 100) v)
       [outcomeCalibratedLikelihoodPlaceholder, technicalLaunchFitNeutralDefault,
        riskHistoryFitNeutralDefault, neutralFactorDefault]"

section \<open>Helpers\<close>

datatype RankingInputError = degenerateBand | unrecognizedFreshness

definition clamp0to100 :: "js_number \<Rightarrow> js_number" where
  "clamp0to100 n = js_max (Fin 0) (js_min (Fin 100) n)"

definition normalize :: "js_number \<Rightarrow> js_number \<Rightarrow> js_number \<Rightarrow> RankingInputError + js_number" where
  "normalize value mn mx =
     (if js_eq mx mn then Inl degenerateBand
      else Inr (clamp0to100 (js_mul (js_div (js_sub value mn) (js_sub mx mn)) (Fin 100))))"

definition normalizeInvert :: "js_number \<Rightarrow> js_number \<Rightarrow> js_number \<Rightarrow> RankingInputError + js_number" where
  "normalizeInvert value mn mx =
     (if js_eq mx mn then Inl degenerateBand
      else Inr (clamp0to100 (js_mul (js_sub (Fin 1) (js_div (js_sub value mn) (js_sub mx mn))) (Fin 100))))"

definition round1 :: "js_number \<Rightarrow> js_number" where
  "round1 n = js_div (js_round (js_mul n (Fin 10))) (Fin 10)"

definition overlapCount :: "string list \<Rightarrow> string list \<Rightarrow> js_number" where
  "overlapCount a b = Fin (of_nat (length (filter (\<lambda>x. x \<in> set b) a)))"

section \<open>The nine factors\<close>

definition scoreMccProductFit :: "MatchOpportunityInput \<Rightarrow> MatchCapacityInput \<Rightarrow> js_number" where
  "scoreMccProductFit opportunity capacity =
     (if mo_mccs opportunity = [] then Fin 0
      else let matched = overlapCount (mo_mccs opportunity) (mc_mccsAccepted capacity);
               coverage = js_div matched (Fin (of_nat (length (mo_mccs opportunity))));
               extras = js_max (Fin 0) (js_sub (Fin (of_nat (length (mc_mccsAccepted capacity)))) matched);
               penalty = js_min mccSpecificityPenaltyCap (js_mul extras mccSpecificityPenaltyPerExtra);
               score = clamp0to100 (js_sub (js_mul coverage (Fin 100)) penalty)
           in round1 score)"

definition scoreGeographyLicensingFit :: "MatchOpportunityInput \<Rightarrow> MatchCapacityInput \<Rightarrow> js_number" where
  "scoreGeographyLicensingFit opportunity capacity =
     (if mo_jurisdictions opportunity = [] then Fin 0
      else let matched = overlapCount (mo_jurisdictions opportunity) (mc_jurisdictions capacity);
               coverage = js_div matched (Fin (of_nat (length (mo_jurisdictions opportunity))))
           in round1 (js_mul coverage (Fin 100)))"

definition scoreVolumeTicketFit ::
  "MatchOpportunityInput \<Rightarrow> MatchCapacityInput \<Rightarrow> RankingInputError + js_number" where
  "scoreVolumeTicketFit opportunity capacity =
     (if mo_currency opportunity \<noteq> mc_currency capacity then Inr neutralFactorDefault
      else if mo_movable30dMinor opportunity = 0 then Inr neutralFactorDefault
      else let ratio = bigintRatio (mc_monthlyCapacityMinor capacity) (mo_movable30dMinor opportunity) in
        ebind (if js_isFinite ratio
               then normalize ratio volumeHeadroomRatioBand_min volumeHeadroomRatioBand_max
               else Inr (Fin 100)) (\<lambda>score. Inr (round1 score)))"

text \<open>The utilization of one ceiling, when the rate is supplied and the ceiling is positive.\<close>

definition utilization :: "js_number option \<Rightarrow> js_number \<Rightarrow> js_number list" where
  "utilization rate ceil =
     (case rate of Some r \<Rightarrow> if js_lt (Fin 0) ceil then [js_div r ceil] else [] | None \<Rightarrow> [])"

definition scoreRiskHistoryFit :: "MatchCapacityInput \<Rightarrow> MatchContext \<Rightarrow> js_number" where
  "scoreRiskHistoryFit capacity context =
     (let utilizations =
            (case mx_merchantRiskProfile context of
               None \<Rightarrow> []
             | Some rp \<Rightarrow> utilization (rp_chargebackBps rp) (mc_maxChargebackBps capacity)
                 @ utilization (rp_fraudBps rp) (mc_maxFraudBps capacity)
                 @ utilization (rp_refundBps rp) (mc_maxRefundBps capacity))
      in if utilizations = [] then riskHistoryFitNeutralDefault
         else let avgUtilization = js_div (foldl js_add (Fin 0) utilizations) (Fin (of_nat (length utilizations)))
              in round1 (clamp0to100 (js_mul (js_sub (Fin 1) avgUtilization) (Fin 100))))"

definition scoreSettlementCurrencyFit ::
  "MatchOpportunityInput \<Rightarrow> MatchCapacityInput \<Rightarrow> RankingInputError + js_number" where
  "scoreSettlementCurrencyFit opportunity capacity =
     (if mo_currency opportunity \<noteq> mc_currency capacity then Inr (Fin 0)
      else ebind (normalizeInvert (mc_settlementCadenceDays capacity) (fst settlementCadenceDaysBand)
                    (snd settlementCadenceDaysBand)) (\<lambda>score. Inr (round1 score)))"

definition scoreCommercialUtility :: "MatchCapacityInput \<Rightarrow> RankingInputError + js_number" where
  "scoreCommercialUtility capacity =
     (case mc_commercialTerms capacity of
        None \<Rightarrow> Inr neutralFactorDefault
      | Some terms \<Rightarrow> ebind (normalizeInvert (ct_mdrBps terms) (fst commercialUtilityFeeBpsBand)
                              (snd commercialUtilityFeeBpsBand)) (\<lambda>score. Inr (round1 score)))"

definition scoreTechnicalLaunchFit :: js_number where
  "scoreTechnicalLaunchFit = technicalLaunchFitNeutralDefault"

definition scoreByFreshness :: "(string \<times> js_number) list" where
  "scoreByFreshness = [(''FRESH'', Fin 100), (''AGING'', Fin 60), (''STALE'', Fin 20), (''UNKNOWN'', Fin 0)]"

text \<open>The table of the source is an object literal; the class was validated before a capacity gets
  here, so the names an object inherits are not looked up.\<close>

definition scoreProviderReliabilityFreshness :: "MatchCapacityInput \<Rightarrow> RankingInputError + js_number" where
  "scoreProviderReliabilityFreshness capacity =
     (case map_of scoreByFreshness (mc_freshnessClass capacity) of
        Some score \<Rightarrow> Inr score
      | None \<Rightarrow> Inl unrecognizedFreshness)"

definition scoreOutcomeCalibratedLikelihood :: js_number where
  "scoreOutcomeCalibratedLikelihood = outcomeCalibratedLikelihoodPlaceholder"

section \<open>A match and the ranking\<close>

record RankingFactorContribution =
  fc_factor :: RankingFactor
  fc_score :: js_number
  fc_weight :: js_number
  fc_contribution :: js_number

record MatchRankingBreakdown =
  mb_factors :: "RankingFactorContribution list"
  mb_total :: js_number
  mb_algorithmVersion :: string
  mb_inputVersions :: "string list"

record RankedMatch =
  rm_capacityId :: string
  rm_rank :: nat
  rm_breakdown :: MatchRankingBreakdown
  rm_tiedWith :: "string list"

definition contribution :: "RankingFactor \<Rightarrow> js_number \<Rightarrow> RankingFactorContribution" where
  "contribution factor score =
     \<lparr>fc_factor = factor, fc_score = score, fc_weight = rankingWeights factor,
      fc_contribution = round1 (js_mul score (rankingWeights factor))\<rparr>"

definition scoreMatch ::
  "MatchOpportunityInput \<Rightarrow> MatchCapacityInput \<Rightarrow> MatchContext \<Rightarrow> RankingInputError + MatchRankingBreakdown" where
  "scoreMatch opportunity capacity context =
     (let mcc = scoreMccProductFit opportunity capacity;
          geo = scoreGeographyLicensingFit opportunity capacity in
      ebind (scoreVolumeTicketFit opportunity capacity) (\<lambda>vol.
      let risk = scoreRiskHistoryFit capacity context in
      ebind (scoreSettlementCurrencyFit opportunity capacity) (\<lambda>settle.
      ebind (scoreCommercialUtility capacity) (\<lambda>comm.
      ebind (scoreProviderReliabilityFreshness capacity) (\<lambda>fresh.
        let factors = map2 contribution RANKING_FACTORS
              [mcc, geo, vol, risk, settle, comm, scoreTechnicalLaunchFit, fresh, scoreOutcomeCalibratedLikelihood]
        in Inr \<lparr>mb_factors = factors,
                mb_total = round1 (foldl (\<lambda>sum f. js_add sum (fc_contribution f)) (Fin 0) factors),
                mb_algorithmVersion = matching_algorithmVersion,
                mb_inputVersions = (case mx_inputVersions context of Some v \<Rightarrow> v | None \<Rightarrow> [])\<rparr>)))))"

text \<open>The comparator: higher total first, then ascending identifier.\<close>

definition match_cmp ::
  "string \<times> MatchRankingBreakdown \<Rightarrow> string \<times> MatchRankingBreakdown \<Rightarrow> int" where
  "match_cmp a b =
     (if \<not> js_eq (mb_total (snd b)) (mb_total (snd a)) then js_sign (js_sub (mb_total (snd b)) (mb_total (snd a)))
      else if fst a < fst b then - 1 else if fst b < fst a then 1 else 0)"

definition ranked_entry ::
  "(string \<times> MatchRankingBreakdown) list \<Rightarrow> nat \<Rightarrow> string \<times> MatchRankingBreakdown \<Rightarrow> RankedMatch" where
  "ranked_entry ranking i entry =
     \<lparr>rm_capacityId = fst entry, rm_rank = i + 1, rm_breakdown = snd entry,
      rm_tiedWith = map fst (filter (\<lambda>other. fst other \<noteq> fst entry \<and>
        js_eq (mb_total (snd other)) (mb_total (snd entry))) ranking)\<rparr>"

definition rankMatches ::
  "MatchOpportunityInput \<Rightarrow> MatchCapacityInput list \<Rightarrow> MatchContext \<Rightarrow> RankingInputError + RankedMatch list" where
  "rankMatches opportunity eligibleCapacities context =
     ebind (emap (\<lambda>capacity. ebind (scoreMatch opportunity capacity context) (\<lambda>b. Inr (mc_id capacity, b)))
             eligibleCapacities) (\<lambda>scored.
       let ordered = js_sort match_cmp scored
       in Inr (map2 (ranked_entry ordered) [0..<length ordered] ordered))"

section \<open>Scores stay within 0 and 100\<close>

lemma clamp_range:
  assumes "n \<noteq> NaN"
  shows "js_within 0 100 (clamp0to100 n)"
  using assms by (cases n) (auto simp: clamp0to100_def js_max_def js_min_def)

lemma round1_bound:
  assumes "0 \<le> q" "q \<le> of_int m" "\<bar>m\<bar> \<le> 2 ^ 40" "dbl (q * 10) < of_int (n * 10) + 1 / 2" "0 \<le> n" "n \<le> 2 ^ 40"
  shows "js_within 0 (of_int n) (round1 (Fin q)) \<and> (\<exists>r. round1 (Fin q) = js_fl r)"
proof -
  have "js_within (of_int 0) (of_int (m * 10)) (js_fl (q * 10))"
    using assms by (intro js_within_fl_int) auto
  then have t: "js_mul (Fin q) (Fin 10) = Fin (dbl (q * 10))" "0 \<le> dbl (q * 10)"
    using dbl_nonneg [of "q * 10"] assms(1) by (auto simp: js_fl_def Let_def split: if_splits)
  let ?k = "\<lfloor>dbl (q * 10) + 1 / 2\<rfloor>"
  have k: "0 \<le> ?k" "?k \<le> n * 10"
    using t(2) assms(4) by linarith+
  have "(of_int ?k :: rat) \<le> of_int (n * 10)"
    using k(2) by (simp only: of_int_le_iff)
  then have "js_within (of_int 0) (of_int n) (js_fl (of_int ?k / 10))"
    using k(1) assms by (intro js_within_fl_int) (auto simp: divide_le_eq)
  then show ?thesis
    unfolding round1_def t(1) by auto
qed

lemma round1_Fin:
  assumes "0 \<le> q" "q \<le> of_int n" "0 \<le> n" "n \<le> 2 ^ 40"
  shows "js_within 0 (of_int n) (round1 (Fin q)) \<and> (\<exists>r. round1 (Fin q) = js_fl r)"
proof -
  have "dbl (q * 10) \<le> of_int (n * 10)"
    using assms by (intro dbl_le_int) auto
  then show ?thesis
    using assms by (intro round1_bound [where m = n]) auto
qed

abbreviation score_range :: "js_number \<Rightarrow> bool" where
  "score_range \<equiv> js_within 0 100"

lemma round1_range [js_bounds]: "score_range n \<Longrightarrow> score_range (round1 n)"
  using round1_Fin [of _ 100] by (auto elim!: js_withinE)

lemma not_NaN [simp]:
  "js_sub (Fin a) (Fin b) \<noteq> NaN"
  "x \<noteq> NaN \<Longrightarrow> js_sub (Fin a) x \<noteq> NaN"
  "x \<noteq> NaN \<Longrightarrow> b \<noteq> 0 \<Longrightarrow> js_div x (Fin b) \<noteq> NaN"
  "x \<noteq> NaN \<Longrightarrow> b \<noteq> 0 \<Longrightarrow> js_mul x (Fin b) \<noteq> NaN"
  "x \<noteq> NaN \<Longrightarrow> y \<noteq> NaN \<Longrightarrow> js_min x y \<noteq> NaN"
  "x \<noteq> NaN \<Longrightarrow> y \<noteq> NaN \<Longrightarrow> js_max x y \<noteq> NaN"
  by (cases x; cases y; simp add: js_sub_def js_inf_def js_min_def js_max_def)+

lemma normalize_range:
  "normalize (Fin v) (Fin a) (Fin b) = Inr s \<Longrightarrow> b - a \<in> {4, 9, 370} \<Longrightarrow> score_range s"
  "normalizeInvert (Fin v) (Fin a) (Fin b) = Inr s \<Longrightarrow> b - a \<in> {4, 9, 370} \<Longrightarrow> score_range s"
proof -
  assume ab: "b - a \<in> {4, 9, 370}"
  have "js_sub (Fin b) (Fin a) = Fin (b - a)"
    using ab js_Number_small [of 4] js_Number_small [of 9] js_Number_small [of 370]
    by (auto simp: js_sub_def js_Number_def)
  moreover have "b - a \<noteq> 0"
    using ab by auto
  ultimately show "normalize (Fin v) (Fin a) (Fin b) = Inr s \<Longrightarrow> score_range s"
    "normalizeInvert (Fin v) (Fin a) (Fin b) = Inr s \<Longrightarrow> score_range s"
    by (auto simp: normalize_def normalizeInvert_def split: if_splits intro!: clamp_range)
qed

lemma coverage_range:
  assumes "as \<noteq> []"
  shows "js_within 0 100 (js_mul (js_div (overlapCount as bs) (Fin (of_nat (length as)))) (Fin 100))"
proof -
  let ?m = "length (filter (\<lambda>x. x \<in> set bs) as)" and ?l = "length as"
  have "(of_nat ?m :: rat) \<le> of_nat ?l" "0 < ?l"
    using assms by (simp_all only: of_nat_le_iff length_filter_le length_greater_0_conv not_False_eq_True)
  then have "js_within (of_int 0) (of_int 1) (js_fl (of_nat ?m / of_nat ?l))"
    by (intro js_within_fl_int) (simp_all add: divide_le_eq)
  then obtain q where q: "js_div (overlapCount as bs) (Fin (of_nat ?l)) = Fin q" "0 \<le> q" "q \<le> 1"
    using assms by (auto simp: overlapCount_def elim: js_withinE)
  have "js_within (of_int 0) (of_int 100) (js_fl (q * 100))"
    using q(2,3) by (intro js_within_fl_int) auto
  then show ?thesis
    unfolding q(1) by simp
qed

lemma scoreMcc_range: "score_range (scoreMccProductFit p c)"
proof (cases "mo_mccs p = []")
  case False
  obtain q where q: "js_mul (js_div (overlapCount (mo_mccs p) (mc_mccsAccepted c))
      (Fin (of_nat (length (mo_mccs p))))) (Fin 100) = Fin q"
    using coverage_range [OF False] by (auto elim: js_withinE)
  show ?thesis
    unfolding scoreMccProductFit_def Let_def q using False
    by (auto simp: matching_config overlapCount_def intro!: round1_range clamp_range)
qed (simp add: scoreMccProductFit_def)

lemma scoreGeography_range: "score_range (scoreGeographyLicensingFit p c)"
  using coverage_range by (auto simp: scoreGeographyLicensingFit_def Let_def intro!: round1_range)

lemma scoreVolume_range: "scoreVolumeTicketFit p c = Inr s \<Longrightarrow> score_range s"
  by (cases "bigintRatio (mc_monthlyCapacityMinor c) (mo_movable30dMinor p)")
    (auto simp: scoreVolumeTicketFit_def matching_config Let_def ebind_eq_Inr split: if_splits
      intro!: round1_range dest!: normalize_range(1))

lemma scoreSettlement_range:
  "scoreSettlementCurrencyFit p c = Inr s \<Longrightarrow> mc_settlementCadenceDays c = Fin q \<Longrightarrow> score_range s"
  by (auto simp: scoreSettlementCurrencyFit_def matching_config ebind_eq_Inr split: if_splits
      intro!: round1_range dest!: normalize_range(2))

lemma scoreCommercial_range:
  assumes "scoreCommercialUtility c = Inr s"
    "\<And>t. mc_commercialTerms c = Some t \<Longrightarrow> js_isFinite (ct_mdrBps t)"
  shows "score_range s"
proof (cases "mc_commercialTerms c")
  case (Some t)
  then obtain q where "ct_mdrBps t = Fin q"
    using assms(2) by (cases "ct_mdrBps t") auto
  then show ?thesis
    using assms(1) Some by (auto simp: scoreCommercialUtility_def matching_config ebind_eq_Inr
        intro!: round1_range dest!: normalize_range(2))
qed (use assms(1) in \<open>auto simp: scoreCommercialUtility_def matching_config\<close>)

lemma scoreFreshness_range: "scoreProviderReliabilityFreshness c = Inr s \<Longrightarrow> score_range s"
  by (auto simp: scoreProviderReliabilityFreshness_def scoreByFreshness_def split: if_splits)

text \<open>Risk rates that passed the eligibility rule are finite and not negative.\<close>

definition rates_ok :: "MatchContext \<Rightarrow> bool" where
  "rates_ok x = (case mx_merchantRiskProfile x of None \<Rightarrow> True | Some rp \<Rightarrow>
     list_all (\<lambda>r. case r of None \<Rightarrow> True | Some v \<Rightarrow> \<exists>q. v = Fin q \<and> 0 \<le> q)
       [rp_chargebackBps rp, rp_fraudBps rp, rp_refundBps rp])"

definition nonneg :: "js_number \<Rightarrow> bool" where
  "nonneg x = js_le (Fin 0) x"

lemma nonneg_fl: "0 \<le> q \<Longrightarrow> nonneg (js_fl q)"
  using js_fl_mono [of 0 q] js_Number_small [of 0] by (simp add: nonneg_def js_Number_def)

lemma nonneg_add: "nonneg x \<Longrightarrow> nonneg y \<Longrightarrow> nonneg (js_add x y)"
  using nonneg_fl by (cases x; cases y) (auto simp: nonneg_def)

lemma nonneg_sum: "nonneg a \<Longrightarrow> \<forall>x \<in> set xs. nonneg x \<Longrightarrow> nonneg (foldl js_add a xs)"
  by (induction xs arbitrary: a) (auto simp: nonneg_add)

lemma utilization_nonneg:
  "u \<in> set (utilization rate (Fin m)) \<Longrightarrow> (\<And>v. rate = Some v \<Longrightarrow> \<exists>q. v = Fin q \<and> 0 \<le> q) \<Longrightarrow> nonneg u"
  by (auto simp: utilization_def split: option.splits if_splits intro!: nonneg_fl)

lemma scoreRisk_range:
  assumes "rates_ok x" "validateCapacity c = Inr ()"
  shows "score_range (scoreRiskHistoryFit c x)"
proof -
  define us where "us = (case mx_merchantRiskProfile x of None \<Rightarrow> [] | Some rp \<Rightarrow>
    utilization (rp_chargebackBps rp) (mc_maxChargebackBps c)
    @ utilization (rp_fraudBps rp) (mc_maxFraudBps c) @ utilization (rp_refundBps rp) (mc_maxRefundBps c))"
  obtain q1 q2 q3 where "mc_maxChargebackBps c = Fin q1" "mc_maxFraudBps c = Fin q2" "mc_maxRefundBps c = Fin q3"
    using assms(2) unfolding validateCapacity_ok by blast
  then have "\<forall>u \<in> set us. nonneg u"
    using assms(1) unfolding us_def rates_ok_def
    by (auto split: option.splits intro!: utilization_nonneg)
  then have "foldl js_add (Fin 0) us \<noteq> NaN"
    using nonneg_sum [of "Fin 0" us] by (auto simp: nonneg_def)
  then show ?thesis
    unfolding scoreRiskHistoryFit_def us_def [symmetric]
    by (auto simp: Let_def matching_config intro!: round1_range clamp_range)
qed

text \<open>The most a factor can contribute: its weight in percent.\<close>

definition factor_bound :: "RankingFactor \<Rightarrow> int" where
  "factor_bound f = (case f of mccProductFit \<Rightarrow> 22 | geographyLicensingFit \<Rightarrow> 17 | volumeTicketFit \<Rightarrow> 13
    | riskHistoryFit \<Rightarrow> 13 | settlementCurrencyFit \<Rightarrow> 10 | commercialUtility \<Rightarrow> 10 | technicalLaunchFit \<Rightarrow> 7
    | providerReliabilityFreshness \<Rightarrow> 5 | outcomeCalibratedLikelihood \<Rightarrow> 3)"

lemma factor_bound_nonneg [simp]: "0 \<le> factor_bound f"
  by (cases f) (simp_all add: factor_bound_def)

lemma weights_evaluated:
  "\<exists>w. rankingWeights f = Fin w \<and> 0 \<le> w \<and> w \<le> 1 \<and> dbl (dbl (100 * w) * 10) < of_int (factor_bound f * 10) + 1 / 2"
proof -
  have "(case rankingWeights f of Fin w \<Rightarrow> 0 \<le> w \<and> w \<le> 1 \<and>
      dbl (dbl (100 * w) * 10) < of_int (factor_bound f * 10) + 1 / 2 | _ \<Rightarrow> False)"
    by (cases f; hypsubst; code_simp)
  then show ?thesis
    by (cases "rankingWeights f") auto
qed

lemma contribution_range:
  assumes "score_range s"
  shows "js_within 0 (of_int (factor_bound f)) (fc_contribution (contribution f s))"
proof -
  obtain q where q: "s = Fin q" "0 \<le> q" "q \<le> 100"
    using assms by (auto elim: js_withinE)
  obtain w where w: "rankingWeights f = Fin w" "0 \<le> w" "w \<le> 1"
    "dbl (dbl (100 * w) * 10) < of_int (factor_bound f * 10) + 1 / 2"
    using weights_evaluated by blast
  have qw: "0 \<le> q * w" "q * w \<le> 100 * w" "q * w \<le> of_int 100"
    using q w mult_mono [of q 100 w 1] by (auto intro: mult_right_mono)
  then have "js_within (of_int 0) (of_int 100) (js_fl (q * w))"
    by (intro js_within_fl_int) auto
  then have t: "js_fl (q * w) = Fin (dbl (q * w))" "dbl (q * w) \<le> of_int 100"
    by (auto simp: js_fl_def Let_def split: if_splits)
  have "dbl (q * w) * 10 \<le> dbl (100 * w) * 10"
    using dbl_mono [OF qw(2)] by simp
  then have "dbl (dbl (q * w) * 10) < of_int (factor_bound f * 10) + 1 / 2"
    using dbl_mono w(4) by (meson le_less_trans)
  moreover have "0 \<le> factor_bound f" "factor_bound f \<le> 2 ^ 40"
    by (cases f; simp add: factor_bound_def)+
  ultimately show ?thesis
    using round1_bound [OF dbl_nonneg [OF qw(1)] t(2)]
    unfolding contribution_def RankingFactorContribution.simps q(1) w(1) js_mul.simps t(1) by auto
qed

lemma add_range:
  assumes "js_within 0 (of_int m) x" "js_within 0 (of_int n) y" "0 \<le> m" "0 \<le> n" "m + n \<le> 2 ^ 50"
  shows "js_within 0 (of_int (m + n)) (js_add x y)"
proof -
  obtain a b where "x = Fin a" "y = Fin b" "0 \<le> a" "a \<le> of_int m" "0 \<le> b" "b \<le> of_int n"
    using assms(1,2) by (auto elim!: js_withinE)
  then have "js_within (of_int 0) (of_int (m + n)) (js_fl (a + b))"
    using assms(3-) by (intro js_within_fl_int) auto
  then show ?thesis
    by (simp add: \<open>x = Fin a\<close> \<open>y = Fin b\<close>)
qed

lemma sum_range:
  assumes "list_all2 (\<lambda>c n. js_within 0 (of_int n) c \<and> 0 \<le> n) cs ns" "js_within 0 (of_int m) a" "0 \<le> m"
    "m + sum_list ns \<le> 2 ^ 50"
  shows "js_within 0 (of_int (m + sum_list ns)) (foldl js_add a cs)"
  using assms
proof (induction cs ns arbitrary: a m rule: list_all2_induct)
  case (Cons c cs n ns)
  have "0 \<le> sum_list ns"
    using Cons.hyps(2) by (auto simp: list_all2_conv_all_nth in_set_conv_nth intro!: sum_list_nonneg)
  then have "js_within 0 (of_int (m + n)) (js_add a c)"
    using Cons by (intro add_range) auto
  then show ?case
    using Cons.IH [of "m + n" "js_add a c"] Cons by (simp add: add.assoc)
qed simp

text \<open>What the caller of the ranking guarantees: a capacity that passed validation, with numbers in
  its commercial terms, and risk rates that passed the risk rule.\<close>

definition rankable :: "MatchContext \<Rightarrow> MatchCapacityInput \<Rightarrow> bool" where
  "rankable x c \<longleftrightarrow> validateCapacity c = Inr () \<and> rates_ok x \<and>
     (case mc_commercialTerms c of None \<Rightarrow> True | Some t \<Rightarrow> js_isFinite (ct_mdrBps t))"

lemma scoreMatch_ok:
  assumes "scoreMatch p c x = Inr b"
  obtains vol settle comm fresh where
    "scoreVolumeTicketFit p c = Inr vol" "scoreSettlementCurrencyFit p c = Inr settle"
    "scoreCommercialUtility c = Inr comm" "scoreProviderReliabilityFreshness c = Inr fresh"
    "mb_factors b = map2 contribution RANKING_FACTORS
       [scoreMccProductFit p c, scoreGeographyLicensingFit p c, vol, scoreRiskHistoryFit c x, settle, comm,
        scoreTechnicalLaunchFit, fresh, scoreOutcomeCalibratedLikelihood]"
    "mb_total b = round1 (foldl js_add (Fin 0) (map fc_contribution (mb_factors b)))"
proof -
  obtain vol settle comm fresh where ok:
    "scoreVolumeTicketFit p c = Inr vol" "scoreSettlementCurrencyFit p c = Inr settle"
    "scoreCommercialUtility c = Inr comm" "scoreProviderReliabilityFreshness c = Inr fresh"
    using assms unfolding scoreMatch_def Let_def ebind_eq_Inr by blast
  let ?fs = "map2 contribution RANKING_FACTORS
       [scoreMccProductFit p c, scoreGeographyLicensingFit p c, vol, scoreRiskHistoryFit c x, settle, comm,
        scoreTechnicalLaunchFit, fresh, scoreOutcomeCalibratedLikelihood]"
  have b: "b = \<lparr>mb_factors = ?fs, mb_total = round1 (foldl (\<lambda>sum f. js_add sum (fc_contribution f)) (Fin 0) ?fs),
      mb_algorithmVersion = matching_algorithmVersion,
      mb_inputVersions = (case mx_inputVersions x of Some v \<Rightarrow> v | None \<Rightarrow> [])\<rparr>"
    using assms unfolding scoreMatch_def Let_def ok ebind_simps by (simp only: sum.inject)
  show thesis
    by (rule that [OF ok]) (simp_all only: b MatchRankingBreakdown.simps foldl_map)
qed

lemma scoreMatch_range:
  assumes "scoreMatch p c x = Inr b" "rankable x c"
  shows "(\<forall>f \<in> set (mb_factors b). score_range (fc_score f)) \<and> score_range (mb_total b) \<and>
    (\<exists>r. mb_total b = js_fl r)"
proof -
  obtain vol settle comm fresh where ok:
    "scoreVolumeTicketFit p c = Inr vol" "scoreSettlementCurrencyFit p c = Inr settle"
    "scoreCommercialUtility c = Inr comm" "scoreProviderReliabilityFreshness c = Inr fresh"
    and fs: "mb_factors b = map2 contribution RANKING_FACTORS
       [scoreMccProductFit p c, scoreGeographyLicensingFit p c, vol, scoreRiskHistoryFit c x, settle, comm,
        scoreTechnicalLaunchFit, fresh, scoreOutcomeCalibratedLikelihood]"
    and total: "mb_total b = round1 (foldl js_add (Fin 0) (map fc_contribution (mb_factors b)))"
    using assms(1) by (elim scoreMatch_ok)
  obtain q where "mc_settlementCadenceDays c = Fin q"
    using assms(2) by (auto simp: rankable_def validateCapacity_ok)
  moreover have "js_isFinite (ct_mdrBps t)" if "mc_commercialTerms c = Some t" for t
    using assms(2) that by (simp add: rankable_def)
  ultimately have scores: "score_range (scoreMccProductFit p c)" "score_range (scoreGeographyLicensingFit p c)"
    "score_range vol" "score_range (scoreRiskHistoryFit c x)" "score_range settle" "score_range comm"
    "score_range scoreTechnicalLaunchFit" "score_range fresh" "score_range scoreOutcomeCalibratedLikelihood"
    using assms(2) scoreMcc_range scoreGeography_range scoreVolume_range [OF ok(1)] scoreRisk_range
      scoreSettlement_range [OF ok(2)] scoreCommercial_range [OF ok(3)] scoreFreshness_range [OF ok(4)]
    by (auto simp: rankable_def scoreTechnicalLaunchFit_def scoreOutcomeCalibratedLikelihood_def matching_config)
  have "list_all2 (\<lambda>c n. js_within 0 (of_int n) c \<and> 0 \<le> n) (map fc_contribution (mb_factors b))
      (map factor_bound RANKING_FACTORS)"
    unfolding fs RANKING_FACTORS_def using scores [THEN contribution_range] by simp
  moreover have "0 + sum_list (map factor_bound RANKING_FACTORS) = 100"
    by (simp add: factor_bound_def RANKING_FACTORS_def)
  ultimately have "js_within 0 (of_int 100) (foldl js_add (Fin 0) (map fc_contribution (mb_factors b)))"
    using sum_range [where m = 0 and a = "Fin 0"] by fastforce
  then have "score_range (mb_total b) \<and> (\<exists>r. mb_total b = js_fl r)"
    unfolding total using round1_Fin [of _ 100] by (auto elim!: js_withinE)
  moreover have "\<forall>f \<in> set (mb_factors b). score_range (fc_score f)"
    unfolding fs RANKING_FACTORS_def using scores by (simp add: contribution_def)
  ultimately show ?thesis
    by blast
qed

section \<open>The order of the ranking\<close>

text \<open>Two finite results of rounding that differ also differ after a rounded subtraction.\<close>

lemma dbl_multiple: "\<exists>m. dbl q = of_int m * 2 powi (- 1074)"
proof (cases "q = 0")
  case False
  obtain n where n: "grid q = - 1074 + int n"
    using zle_iff_zadd [of "- 1074" "grid q"] by (auto simp: grid_def)
  have "dbl q = of_int (k * 2 ^ n) * 2 powi e" if "k = round_half_even (q / 2 powi grid q)" "grid q = e + int n" for k e
    using False that by (simp add: dbl_def power_int_add mult_ac)
  note this [OF refl n]
  then show ?thesis
    by blast
qed (auto intro: exI [of _ 0])

lemma dbl_tiny: "dbl (2 powi (- 1074)) = 2 powi (- 1074)"
proof -
  have "ilog2 (2 powi (- 1074)) = - 1074"
    by (rule ilog2_unique) (simp_all add: power_int_strict_increasing)
  then have "grid (2 powi (- 1074)) = - 1074"
    by (simp add: grid_def)
  then show ?thesis
    by (intro dbl_grid [where m = 1 and e = "- 1074"]) simp_all
qed

lemma dbl_difference_pos:
  assumes "dbl a < dbl b"
  shows "0 < dbl (dbl b - dbl a)"
proof -
  let ?u = "2 powi (- 1074) :: rat"
  obtain m n where mn: "dbl a = of_int m * ?u" "dbl b = of_int n * ?u"
    using dbl_multiple by metis
  have "0 < ?u"
    by simp
  then have "m < n"
    using assms unfolding mn by (simp add: mult_less_cancel_right)
  then have "(of_int 1 :: rat) \<le> of_int (n - m)"
    by (simp only: of_int_le_iff)
  then have "of_int 1 * ?u \<le> of_int (n - m) * ?u"
    using \<open>0 < ?u\<close> by (intro mult_right_mono) (auto simp only: less_imp_le)
  then have "?u \<le> dbl b - dbl a"
    unfolding mn by (simp only: of_int_diff left_diff_distrib of_int_1 mult_1)
  then show ?thesis
    using dbl_mono [of ?u "dbl b - dbl a"] dbl_tiny \<open>0 < ?u\<close> by simp
qed

text \<open>The total as a rational, and the comparator it induces: this is the order the sort sees.\<close>

definition total_of :: "string \<times> MatchRankingBreakdown \<Rightarrow> rat" where
  "total_of e = (case mb_total (snd e) of Fin q \<Rightarrow> q | _ \<Rightarrow> 0)"

definition rank_order :: "string \<times> MatchRankingBreakdown \<Rightarrow> string \<times> MatchRankingBreakdown \<Rightarrow> int" where
  "rank_order a b =
     (if total_of b < total_of a then - 1 else if total_of a < total_of b then 1
      else if fst a < fst b then - 1 else if fst b < fst a then 1 else 0)"

interpretation match_ranking: js_comparator rank_order "\<lambda>e. (- total_of e, fst e)"
  by unfold_locales (auto simp: rank_order_def less_eq_prod_def)

text \<open>A total that came out of a rounded division and lies in the score range.\<close>

definition total_ok :: "js_number \<Rightarrow> bool" where
  "total_ok n \<longleftrightarrow> score_range n \<and> (\<exists>r. n = js_fl r)"

lemma total_okE:
  assumes "total_ok n"
  obtains r where "n = Fin (dbl r)" "0 \<le> dbl r" "dbl r \<le> 100"
  using assms by (auto simp: total_ok_def js_fl_def Let_def split: if_splits)

lemma total_order:
  assumes "total_ok (Fin q)" "total_ok (Fin r)"
  shows "js_sign (js_sub (Fin r) (Fin q)) = (if q < r then 1 else if r < q then - 1 else 0)"
proof -
  obtain q' r' where qr: "q = dbl q'" "0 \<le> q" "q \<le> 100" "r = dbl r'" "0 \<le> r" "r \<le> 100"
    using assms by (auto elim!: total_okE)
  have "js_within (of_int (- 100)) (of_int 100) (js_fl (r - q))"
    using qr by (intro js_within_fl_int) auto
  then have d: "js_sub (Fin r) (Fin q) = Fin (dbl (r - q))"
    by (auto simp: js_sub_def js_fl_def Let_def split: if_splits)
  have "dbl (r - q) < 0" if "r < q"
    using dbl_difference_pos [of r' q'] dbl_minus [of "r - q"] that qr(1,4) by simp
  moreover have "0 < dbl (r - q)" if "q < r"
    using dbl_difference_pos [of q' r'] that qr(1,4) by simp
  ultimately show ?thesis
    unfolding d by (cases q r rule: linorder_cases) (auto simp: js_sign_def)
qed

definition scored_ok :: "string \<times> MatchRankingBreakdown \<Rightarrow> bool" where
  "scored_ok e = total_ok (mb_total (snd e))"

lemma scored_ok_total:
  assumes "scored_ok e"
  shows "\<exists>r. mb_total (snd e) = Fin (dbl r) \<and> total_of e = dbl r \<and> 0 \<le> dbl r \<and> dbl r \<le> 100"
  using assms unfolding scored_ok_def by (elim total_okE) (auto simp: total_of_def)

lemma match_cmp_rank_order:
  assumes "scored_ok a" "scored_ok b"
  shows "match_cmp a b = rank_order a b"
proof -
  obtain q r where qr: "mb_total (snd a) = Fin q" "total_of a = q" "mb_total (snd b) = Fin r" "total_of b = r"
    using assms scored_ok_total by metis
  then show ?thesis
    using total_order [of q r] assms
    unfolding match_cmp_def rank_order_def scored_ok_def qr by (simp add: js_eq_def)
qed

lemma js_insert_cong:
  "\<forall>y \<in> set ys. cmp x y = cmp' x y \<Longrightarrow> js_insert cmp x ys = js_insert cmp' x ys"
  by (induction ys) auto

lemma js_sort_cong:
  "\<forall>x \<in> set xs. \<forall>y \<in> set xs. cmp x y = cmp' x y \<Longrightarrow> js_sort cmp xs = js_sort cmp' xs"
proof (induction xs)
  case (Cons x xs)
  have "set (foldr (js_insert cmp') xs []) \<subseteq> set xs" for xs
  proof (induction xs)
    case (Cons y ys)
    have "set (js_insert cmp' y zs) = insert y (set zs)" for zs
      by (induction zs) auto
    then show ?case
      using Cons by auto
  qed simp
  then show ?case
    using Cons by (auto simp: js_sort_def intro!: js_insert_cong)
qed (simp add: js_sort_def)

lemma ordered_scored:
  assumes "\<forall>e \<in> set scored. scored_ok e"
  shows "js_sort match_cmp scored = js_sort rank_order scored"
  using assms match_cmp_rank_order by (intro js_sort_cong) blast

lemma scored_entries:
  assumes "emap (\<lambda>capacity. ebind (scoreMatch p capacity x) (\<lambda>b. Inr (mc_id capacity, b))) caps = Inr scored"
  shows "list_all2 (\<lambda>c e. scoreMatch p c x = Inr (snd e) \<and> fst e = mc_id c) caps scored"
  using assms unfolding emap_eq_Inr
  by (rule list.rel_mono_strong) (auto simp: ebind_eq_Inr)

lemma scored_entries_ok:
  assumes "list_all2 (\<lambda>c e. scoreMatch p c x = Inr (snd e) \<and> fst e = mc_id c) caps scored"
    "\<forall>c \<in> set caps. rankable x c"
  shows "\<forall>e \<in> set scored. scored_ok e" "map fst scored = map mc_id caps"
proof -
  show "\<forall>e \<in> set scored. scored_ok e"
  proof
    fix e assume "e \<in> set scored"
    then obtain c where c: "c \<in> set caps" "scoreMatch p c x = Inr (snd e)"
      using assms(1) by (fastforce simp: list_all2_conv_all_nth in_set_conv_nth)
    then show "scored_ok e"
      using scoreMatch_range assms(2) by (fastforce simp: scored_ok_def total_ok_def)
  qed
  show "map fst scored = map mc_id caps"
    using assms(1) by (auto simp: list_all2_conv_all_nth intro!: nth_equalityI)
qed

lemma emap_map:
  "emap f xs = Inr ys \<longleftrightarrow> (\<forall>x \<in> set xs. \<exists>y. f x = Inr y) \<and> ys = map (\<lambda>x. projr (f x)) xs"
  by (induction xs arbitrary: ys) (auto simp: ebind_eq_Inr)

lemma rankMatches_ok:
  assumes "rankMatches p caps x = Inr ms" "\<forall>c \<in> set caps. rankable x c"
  obtains scored where
    "emap (\<lambda>capacity. ebind (scoreMatch p capacity x) (\<lambda>b. Inr (mc_id capacity, b))) caps = Inr scored"
    "list_all2 (\<lambda>c e. scoreMatch p c x = Inr (snd e) \<and> fst e = mc_id c) caps scored"
    "\<forall>e \<in> set scored. scored_ok e" "map fst scored = map mc_id caps"
    "ms = map2 (ranked_entry (js_sort rank_order scored)) [0..<length (js_sort rank_order scored)] (js_sort rank_order scored)"
proof -
  let ?f = "\<lambda>capacity. ebind (scoreMatch p capacity x) (\<lambda>b. Inr (mc_id capacity, b))"
  obtain scored where s: "emap ?f caps = Inr scored"
    using assms(1) unfolding rankMatches_def ebind_eq_Inr by blast
  note e = scored_entries [OF s] scored_entries_ok [OF scored_entries [OF s] assms(2)]
  show thesis
    using assms(1) unfolding rankMatches_def s ebind_simps Let_def ordered_scored [OF e(2)] sum.inject
    by (intro that [OF s e]) (rule sym)
qed

text \<open>C39. Every factor of a match scores between 0 and 100 and so does the total, in floating point
  and after all roundings: each contribution is at most its weight in percent, and the weights sum
  to one. The capacity must have passed validation with finite commercial terms and the risk rates
  the risk rule; the volumes, counts and cadences are arbitrary.\<close>

theorem match_scores_bounded:
  assumes "scoreMatch p c x = Inr b" "rankable x c"
  shows "map fc_factor (mb_factors b) = RANKING_FACTORS \<and>
    (\<forall>f \<in> set (mb_factors b). js_within 0 100 (fc_score f) \<and>
       js_within 0 (of_int (factor_bound (fc_factor f))) (fc_contribution f)) \<and>
    js_within 0 100 (mb_total b) \<and> assertRankingWeightsSumToOne \<and> assertNeutralDefaultsInRange"
proof -
  obtain scores where fs: "mb_factors b = map2 contribution RANKING_FACTORS scores"
    and len: "length scores = length RANKING_FACTORS"
    using assms(1) by (elim scoreMatch_ok) (rule that, assumption, simp add: RANKING_FACTORS_def)
  have "map fc_factor (map2 contribution fs ss) = fs" if "length ss = length fs" for fs ss
    using that by (induction fs ss rule: list_induct2') (auto simp: contribution_def)
  then have names: "map fc_factor (mb_factors b) = RANKING_FACTORS"
    unfolding fs using len by simp
  have "\<exists>g s. f = contribution g s" if "f \<in> set (mb_factors b)" for f
    using that unfolding fs by (auto simp: set_zip)
  then have "js_within 0 (of_int (factor_bound (fc_factor f))) (fc_contribution f)"
    if "f \<in> set (mb_factors b)" for f
    using that scoreMatch_range [OF assms] contribution_range by (fastforce simp: contribution_def)
  moreover have "assertRankingWeightsSumToOne" "assertNeutralDefaultsInRange"
    by code_simp+
  ultimately show ?thesis
    using names scoreMatch_range [OF assms] by blast
qed

text \<open>The ranking of the eligible capacities is a permutation of them, numbered 1 to n, from the
  highest total down, equal totals in ascending order of the identifier; and every entry names
  exactly the other capacities with the same total.\<close>

theorem rankMatches_ranks:
  assumes "rankMatches p caps x = Inr ms" "\<forall>c \<in> set caps. rankable x c"
  shows "mset (map rm_capacityId ms) = mset (map mc_id caps) \<and>
    map rm_rank ms = [1..<length caps + 1] \<and>
    (\<forall>i j. i < j \<and> j < length ms \<longrightarrow>
       js_lt (mb_total (rm_breakdown (ms ! j))) (mb_total (rm_breakdown (ms ! i))) \<or>
       mb_total (rm_breakdown (ms ! j)) = mb_total (rm_breakdown (ms ! i)) \<and>
         rm_capacityId (ms ! i) \<le> rm_capacityId (ms ! j)) \<and>
    (\<forall>m \<in> set ms. set (rm_tiedWith m) = {rm_capacityId o' | o'. o' \<in> set ms \<and>
       rm_capacityId o' \<noteq> rm_capacityId m \<and> mb_total (rm_breakdown o') = mb_total (rm_breakdown m)})"
proof -
  obtain scored where ok: "\<forall>e \<in> set scored. scored_ok e" and ids: "map fst scored = map mc_id caps"
    and ms: "ms = map2 (ranked_entry (js_sort rank_order scored)) [0..<length (js_sort rank_order scored)]
      (js_sort rank_order scored)"
    using assms by (elim rankMatches_ok)
  define srt where "srt = js_sort rank_order scored"
  have perm: "mset srt = mset scored" and elems: "set srt = set scored"
    by (simp_all add: srt_def match_ranking.mset_js_sort match_ranking.set_js_sort)
  have len: "length ms = length srt" "length srt = length caps"
    using mset_eq_length [OF perm] arg_cong [OF ids, of length] unfolding ms srt_def [symmetric] by simp_all
  have nth: "ms ! i = ranked_entry srt i (srt ! i)" if "i < length ms" for i
    using that len unfolding ms srt_def [symmetric] by simp
  have srt_ok: "scored_ok (srt ! i)" if "i < length ms" for i
    using that len(1) ok elems by (metis nth_mem)
  have "map rm_capacityId ms = map fst srt"
    by (rule nth_equalityI) (simp_all add: nth len(1) ranked_entry_def)
  moreover have "map rm_rank ms = [1..<length srt + 1]"
    by (rule nth_equalityI) (simp_all add: nth len(1) ranked_entry_def del: upt_Suc)
  moreover have "mset (map fst srt) = mset (map mc_id caps)"
    using perm unfolding ids [symmetric] by simp
  ultimately have "mset (map rm_capacityId ms) = mset (map mc_id caps)" "map rm_rank ms = [1..<length caps + 1]"
    unfolding len(2) by simp_all
  moreover have proj: "rm_capacityId (ms ! i) = fst (srt ! i)" "rm_breakdown (ms ! i) = snd (srt ! i)"
    if "i < length ms" for i
    using nth [OF that] by (simp_all add: ranked_entry_def)
  have "js_lt (mb_total (rm_breakdown (ms ! j))) (mb_total (rm_breakdown (ms ! i))) \<or>
      mb_total (rm_breakdown (ms ! j)) = mb_total (rm_breakdown (ms ! i)) \<and>
      rm_capacityId (ms ! i) \<le> rm_capacityId (ms ! j)"
    if "i < j \<and> j < length ms" for i j
  proof -
    have "sorted (map (\<lambda>e. (- total_of e, fst e)) srt)"
      unfolding srt_def by (rule match_ranking.sorted_js_sort)
    then have le: "(- total_of (srt ! i), fst (srt ! i)) \<le> (- total_of (srt ! j), fst (srt ! j))"
      using that len(1) sorted_nth_mono [of "map (\<lambda>e. (- total_of e, fst e)) srt" i j] by simp
    have "i < length ms" "j < length ms"
      using that by auto
    then obtain q r where "mb_total (snd (srt ! i)) = Fin (dbl q)" "total_of (srt ! i) = dbl q"
      "mb_total (snd (srt ! j)) = Fin (dbl r)" "total_of (srt ! j) = dbl r"
      using scored_ok_total [OF srt_ok] by blast
    then show ?thesis
      using le proj [OF \<open>i < length ms\<close>] proj [OF \<open>j < length ms\<close>] by (auto simp: less_eq_prod_def)
  qed
  moreover have "set (rm_tiedWith m) = {rm_capacityId o' | o'. o' \<in> set ms \<and>
       rm_capacityId o' \<noteq> rm_capacityId m \<and> mb_total (rm_breakdown o') = mb_total (rm_breakdown m)}"
    if "m \<in> set ms" for m
  proof -
    obtain i where "i < length ms" "m = ms ! i"
      using \<open>m \<in> set ms\<close> unfolding in_set_conv_nth by blast
    then have i: "m = ranked_entry srt i (srt ! i)"
      using nth by simp
    have "map (\<lambda>o'. (rm_capacityId o', rm_breakdown o')) ms = srt"
      by (rule nth_equalityI) (simp_all add: proj len(1))
    then have image: "(\<lambda>o'. (rm_capacityId o', rm_breakdown o')) ` set ms = set srt"
      by (metis set_map)
    have "js_eq (mb_total (snd e)) (mb_total b) \<longleftrightarrow> mb_total (snd e) = mb_total b" if "e \<in> set srt" for e b
    proof -
      have "scored_ok e"
        using ok elems \<open>e \<in> set srt\<close> by blast
      then show ?thesis
        by (auto simp: js_eq_def dest: scored_ok_total)
    qed
    then have "{e \<in> set srt. fst e \<noteq> rm_capacityId m \<and> js_eq (mb_total (snd e)) (mb_total (rm_breakdown m))} =
        {e \<in> set srt. fst e \<noteq> rm_capacityId m \<and> mb_total (snd e) = mb_total (rm_breakdown m)}"
      by blast
    then have "set (rm_tiedWith m) = {fst e | e. e \<in> set srt \<and> fst e \<noteq> rm_capacityId m \<and>
        mb_total (snd e) = mb_total (rm_breakdown m)}"
      unfolding i ranked_entry_def by (simp add: image_Collect)
    also have "\<dots> = {rm_capacityId o' | o'. o' \<in> set ms \<and>
       rm_capacityId o' \<noteq> rm_capacityId m \<and> mb_total (rm_breakdown o') = mb_total (rm_breakdown m)}"
      unfolding image [symmetric] by auto
    finally show ?thesis .
  qed
  ultimately show ?thesis
    by blast
qed

text \<open>The ranking does not depend on the order in which the capacities are supplied.\<close>

theorem rankMatches_order_independent:
  assumes "mset caps = mset caps'" "distinct (map mc_id caps)" "\<forall>c \<in> set caps. rankable x c"
    "rankMatches p caps x = Inr ms"
  shows "rankMatches p caps' x = Inr ms"
proof -
  let ?f = "\<lambda>capacity. ebind (scoreMatch p capacity x) (\<lambda>b. Inr (mc_id capacity, b))"
  let ?g = "\<lambda>c. projr (?f c)"
  obtain scored where scored: "emap ?f caps = Inr scored" "\<forall>e \<in> set scored. scored_ok e"
    "map fst scored = map mc_id caps"
    and ms: "ms = map2 (ranked_entry (js_sort rank_order scored)) [0..<length (js_sort rank_order scored)]
      (js_sort rank_order scored)"
    using assms(4,3) by (elim rankMatches_ok)
  have same: "scored = map ?g caps" "emap ?f caps' = Inr (map ?g caps')"
    using scored(1) mset_eq_setD [OF assms(1)] unfolding emap_map by simp_all
  have perm: "mset scored = mset (map ?g caps')"
    unfolding same(1) using assms(1) by (simp only: mset_map)
  have "distinct (map fst scored)"
    using assms(2) scored(3) by simp
  then have "inj_on (\<lambda>e. (- total_of e, fst e)) (set scored)"
    by (auto simp: distinct_map inj_on_def)
  then have sort: "js_sort rank_order scored = js_sort rank_order (map ?g caps')"
    using perm by (intro match_ranking.js_sort_permutation)
  have "\<forall>e \<in> set (map ?g caps'). scored_ok e"
    using scored(2) unfolding mset_eq_setD [OF perm] .
  then show ?thesis
    unfolding rankMatches_def same(2) ebind_simps Let_def ms by (simp only: ordered_scored sort)
qed

section \<open>Ranking never fails on validated capacities\<close>

lemma normalize_total:
  "a \<noteq> b \<Longrightarrow> \<exists>s. normalize v (Fin a) (Fin b) = Inr s" "a \<noteq> b \<Longrightarrow> \<exists>s. normalizeInvert v (Fin a) (Fin b) = Inr s"
  by (auto simp: normalize_def normalizeInvert_def js_eq_def)

lemma scoreMatch_total:
  assumes "isFreshnessClassLike (mc_freshnessClass c)"
  shows "\<exists>b. scoreMatch p c x = Inr b"
proof -
  have "\<exists>s. scoreVolumeTicketFit p c = Inr s"
    using normalize_total(1) [of 1 5] by (auto simp: scoreVolumeTicketFit_def matching_config Let_def ebind_eq_Inr)
  moreover have "\<exists>s. scoreSettlementCurrencyFit p c = Inr s"
    using normalize_total(2) [of 1 10] by (auto simp: scoreSettlementCurrencyFit_def matching_config ebind_eq_Inr)
  moreover have "\<exists>s. scoreCommercialUtility c = Inr s"
    using normalize_total(2) [of 80 450]
    by (auto simp: scoreCommercialUtility_def matching_config ebind_eq_Inr split: option.split)
  moreover have "\<exists>s. scoreProviderReliabilityFreshness c = Inr s"
    using assms by (auto simp: scoreProviderReliabilityFreshness_def scoreByFreshness_def
        isFreshnessClassLike_def matching_FRESHNESS_CLASSES_def)
  ultimately show ?thesis
    unfolding scoreMatch_def Let_def ebind_eq_Inr by blast
qed

lemma rankMatches_total:
  assumes "\<forall>c \<in> set caps. isFreshnessClassLike (mc_freshnessClass c)"
  shows "\<exists>ms. rankMatches p caps x = Inr ms"
proof -
  have "\<forall>c \<in> set caps. \<exists>y. ebind (scoreMatch p c x) (\<lambda>b. Inr (mc_id c, b)) = Inr y"
    using assms scoreMatch_total by (auto simp: ebind_eq_Inr)
  then have "\<exists>scored. emap (\<lambda>capacity. ebind (scoreMatch p capacity x) (\<lambda>b. Inr (mc_id capacity, b))) caps = Inr scored"
    unfolding emap_map by blast
  then show ?thesis
    by (auto simp: rankMatches_def Let_def)
qed

section \<open>Examples\<close>

definition example_capacities :: "MatchCapacityInput list" where
  "example_capacities = [example_capacity\<lparr>mc_id := ''cap-b''\<rparr>, example_capacity]"

lemma example_capacities_rankable: "\<forall>c \<in> set example_capacities. rankable example_match_context c"
proof -
  have "js_trim ''SEPA'' \<noteq> []"
    by code_simp
  then show ?thesis
    by (auto simp: example_capacities_def rankable_def validateCapacity_ok example_capacity_def rates_ok_def
        isFreshnessClassLike_def matching_FRESHNESS_CLASSES_def example_match_context_def)
qed

lemma example_ranks: "\<exists>ms. rankMatches example_opportunity example_capacities example_match_context = Inr ms"
  by (rule rankMatches_total)
    (simp add: example_capacities_def example_capacity_def isFreshnessClassLike_def matching_FRESHNESS_CLASSES_def)

theorem match_scores_bounded_witness:
  "\<exists>b. scoreMatch example_opportunity example_capacity example_match_context = Inr b \<and> js_within 0 100 (mb_total b)"
proof -
  have c: "example_capacity \<in> set example_capacities" "isFreshnessClassLike (mc_freshnessClass example_capacity)"
    by (simp_all add: example_capacities_def example_capacity_def isFreshnessClassLike_def matching_FRESHNESS_CLASSES_def)
  then obtain b where "scoreMatch example_opportunity example_capacity example_match_context = Inr b"
    using scoreMatch_total by blast
  then show ?thesis
    using match_scores_bounded example_capacities_rankable c(1) by blast
qed

theorem rankMatches_ranks_witness:
  "\<exists>ms. rankMatches example_opportunity example_capacities example_match_context = Inr ms \<and>
     map rm_rank ms = [1, 2]"
proof -
  obtain ms where "rankMatches example_opportunity example_capacities example_match_context = Inr ms"
    using example_ranks by blast
  moreover from this have "map rm_rank ms = [1..<length example_capacities + 1]"
    using rankMatches_ranks example_capacities_rankable by blast
  ultimately show ?thesis
    by (simp add: example_capacities_def)
qed

theorem rankMatches_order_independent_witness:
  "\<exists>ms. rankMatches example_opportunity example_capacities example_match_context = Inr ms \<and>
     rankMatches example_opportunity (rev example_capacities) example_match_context = Inr ms"
proof -
  obtain ms where "rankMatches example_opportunity example_capacities example_match_context = Inr ms"
    using example_ranks by blast
  moreover have "mset example_capacities = mset (rev example_capacities)" "distinct (map mc_id example_capacities)"
    by (simp_all add: example_capacities_def example_capacity_def)
  ultimately show ?thesis
    using rankMatches_order_independent example_capacities_rankable by blast
qed

end
