(* ===== verification/Attribution.thy ===== *)
theory Attribution
  imports Matching_Ranking Claim_States
begin

text \<open>
  \<open>packages/attribution/src\<close>: the four-factor score of an attribution claim, the ranking of
  competing claims and the label of a score. Values the code checks at run time are strings here;
  \<open>parse\<close> stands for \<open>Date.parse\<close> (\<open>None\<close> for NaN), whose result for text that is not
  an ISO date is up to the implementation.
\<close>

section \<open>Configuration\<close>

definition attribution_algorithmVersion :: string where
  "attribution_algorithmVersion = ''attribution-v1''"

definition weight_history :: js_number where
  "weight_history = js_fl (4 / 10)"

definition weight_proximity :: js_number where
  "weight_proximity = js_fl (3 / 10)"

definition weight_evidence :: js_number where
  "weight_evidence = js_fl (2 / 10)"

definition weight_time :: js_number where
  "weight_time = js_fl (1 / 10)"

definition historyMonthsBand :: "js_number \<times> js_number" where
  "historyMonthsBand = (Fin 0, Fin 36)"

definition submissionLagDaysBand :: "js_number \<times> js_number" where
  "submissionLagDaysBand = (Fin 0, Fin 60)"

definition proximityScoreByTier :: "(string \<times> js_number) list" where
  "proximityScoreByTier =
     [(''D5'', Fin 100), (''D4'', Fin 80), (''D3'', Fin 60), (''D2'', Fin 35), (''D1'', Fin 15), (''D0'', Fin 0)]"

definition evidenceBasePoints :: "(string \<times> js_number) list" where
  "evidenceBasePoints =
     [(''CONTRACT'', Fin 40), (''COUNTERPARTY_ACKNOWLEDGMENT'', Fin 35), (''EMAIL_THREAD'', Fin 20),
      (''CRM_RECORD'', Fin 15), (''OTHER'', Fin 5)]"

definition evidenceVerificationMultiplier :: "(string \<times> js_number) list" where
  "evidenceVerificationMultiplier =
     [(''SELF_REPORTED'', js_fl (4 / 10)), (''DOCUMENT_EXTRACTED'', js_fl (7 / 10)),
      (''API_VERIFIED'', js_fl (9 / 10)), (''COUNTERPARTY_CONFIRMED'', Fin 1), (''OPERATOR_VERIFIED'', Fin 1)]"

definition evidenceScoreCeiling :: js_number where
  "evidenceScoreCeiling = Fin 100"

definition zeroAttributionTiers :: "string list" where
  "zeroAttributionTiers = [''D0'']"

definition assertWeightsSumToOne :: bool where
  "assertWeightsSumToOne =
     (let sum = js_add (js_add (js_add weight_history weight_proximity) weight_evidence) weight_time
      in \<not> js_lt (js_fl (1 / 10 ^ 9)) (js_abs (js_sub sum (Fin 1))))"

section \<open>Claim scoring\<close>

definition attribution_DIRECTNESS_TIERS :: "string list" where
  "attribution_DIRECTNESS_TIERS = [''D5'', ''D4'', ''D3'', ''D2'', ''D1'', ''D0'']"

definition attribution_isDirectnessTier :: "string \<Rightarrow> bool" where
  "attribution_isDirectnessTier value = (value \<in> set attribution_DIRECTNESS_TIERS)"

definition CLAIM_EVIDENCE_TYPES_literals :: "string list" where
  "CLAIM_EVIDENCE_TYPES_literals =
     [''CONTRACT'', ''COUNTERPARTY_ACKNOWLEDGMENT'', ''EMAIL_THREAD'', ''CRM_RECORD'', ''OTHER'']"

definition EVIDENCE_VERIFICATION_STATES_literals :: "string list" where
  "EVIDENCE_VERIFICATION_STATES_literals =
     [''SELF_REPORTED'', ''DOCUMENT_EXTRACTED'', ''API_VERIFIED'', ''COUNTERPARTY_CONFIRMED'', ''OPERATOR_VERIFIED'']"

record ClaimEvidenceInput =
  ei_evidenceType :: string
  ei_verificationState :: string

record ClaimEvidenceContribution =
  ec_index :: nat
  ec_evidenceType :: string
  ec_verificationState :: string
  ec_basePoints :: js_number
  ec_multiplier :: js_number
  ec_contribution :: js_number

record ClaimScoringInput =
  si_priorCommercialHistoryMonths :: js_number
  si_directnessTier :: string
  si_evidenceItems :: "ClaimEvidenceInput list"
  si_submissionLagDays :: js_number
  si_inputVersions :: "string list option"

record EvidenceScoreResult =
  es_total :: js_number
  es_rawTotal :: js_number
  es_items :: "ClaimEvidenceContribution list"

record ClaimScoreBreakdown =
  sb_history :: js_number
  sb_proximity :: js_number
  sb_evidence :: js_number
  sb_time :: js_number
  sb_weighted :: js_number
  sb_total :: js_number
  sb_evidenceBreakdown :: "ClaimEvidenceContribution list"
  sb_algorithmVersion :: string
  sb_inputVersions :: "string list"
  sb_cappedFrom :: "js_number option"
  sb_evidenceRawTotal :: "js_number option"

datatype ClaimScoringInputError =
    notFiniteInput string
  | negativeInput string
  | unknownTier
  | unknownEvidenceType nat
  | unknownVerificationState nat
  | degenerateScoringBand

definition clamp01 :: "js_number \<Rightarrow> js_number" where
  "clamp01 n = js_max (Fin 0) (js_min (Fin 1) n)"

definition claim_normalize :: "js_number \<Rightarrow> js_number \<Rightarrow> js_number \<Rightarrow> ClaimScoringInputError + js_number" where
  "claim_normalize value mn mx =
     (if js_eq mx mn then Inl degenerateScoringBand
      else Inr (js_mul (clamp01 (js_div (js_sub value mn) (js_sub mx mn))) (Fin 100)))"

definition claim_normalizeInvert :: "js_number \<Rightarrow> js_number \<Rightarrow> js_number \<Rightarrow> ClaimScoringInputError + js_number" where
  "claim_normalizeInvert value mn mx =
     (if js_eq mx mn then Inl degenerateScoringBand
      else Inr (js_mul (clamp01 (js_sub (Fin 1) (js_div (js_sub value mn) (js_sub mx mn)))) (Fin 100)))"

definition claim_round1 :: "js_number \<Rightarrow> js_number" where
  "claim_round1 n = js_div (js_round (js_mul n (Fin 10))) (Fin 10)"

definition claim_assertFiniteNonNegative :: "js_number \<Rightarrow> string \<Rightarrow> ClaimScoringInputError + unit" where
  "claim_assertFiniteNonNegative value fieldName =
     ebind (throw_if (\<not> js_isFinite value) (notFiniteInput fieldName)) (\<lambda>_.
       throw_if (js_lt value (Fin 0)) (negativeInput fieldName))"

text \<open>
  A key is looked up in an object literal, so the names every object inherits are found too: their
  values are functions (or the prototype), which count as NaN in arithmetic.
\<close>

definition inherited_names :: "string list" where
  "inherited_names =
     [''constructor'', ''__defineGetter__'', ''__defineSetter__'', ''hasOwnProperty'', ''__lookupGetter__'',
      ''__lookupSetter__'', ''isPrototypeOf'', ''propertyIsEnumerable'', ''toString'', ''valueOf'',
      ''__proto__'', ''toLocaleString'']"

definition object_lookup :: "(string \<times> js_number) list \<Rightarrow> string \<Rightarrow> js_number option" where
  "object_lookup table key =
     (case map_of table key of
        Some v \<Rightarrow> Some v
      | None \<Rightarrow> if key \<in> set inherited_names then Some NaN else None)"

definition scoreEvidenceItem ::
  "nat \<times> ClaimEvidenceInput \<Rightarrow> ClaimScoringInputError + ClaimEvidenceContribution" where
  "scoreEvidenceItem = (\<lambda>(index, item).
     case object_lookup evidenceBasePoints (ei_evidenceType item) of
       None \<Rightarrow> Inl (unknownEvidenceType index)
     | Some base \<Rightarrow>
         (case object_lookup evidenceVerificationMultiplier (ei_verificationState item) of
            None \<Rightarrow> Inl (unknownVerificationState index)
          | Some multiplier \<Rightarrow>
              Inr \<lparr>ec_index = index, ec_evidenceType = ei_evidenceType item,
                   ec_verificationState = ei_verificationState item, ec_basePoints = base,
                   ec_multiplier = multiplier, ec_contribution = claim_round1 (js_mul base multiplier)\<rparr>))"

definition scoreEvidence :: "ClaimEvidenceInput list \<Rightarrow> ClaimScoringInputError + EvidenceScoreResult" where
  "scoreEvidence items =
     ebind (emap scoreEvidenceItem (enumerate 0 items)) (\<lambda>contributions.
       let rawTotal = claim_round1 (foldl (\<lambda>sum c. js_add sum (ec_contribution c)) (Fin 0) contributions)
       in Inr \<lparr>es_total = js_min evidenceScoreCeiling rawTotal, es_rawTotal = rawTotal,
               es_items = contributions\<rparr>)"

definition scoreClaim :: "ClaimScoringInput \<Rightarrow> ClaimScoringInputError + ClaimScoreBreakdown" where
  "scoreClaim input =
     ebind (claim_assertFiniteNonNegative (si_priorCommercialHistoryMonths input) ''priorCommercialHistoryMonths'') (\<lambda>_.
     ebind (claim_assertFiniteNonNegative (si_submissionLagDays input) ''submissionLagDays'') (\<lambda>_.
     ebind (throw_if (\<not> attribution_isDirectnessTier (si_directnessTier input)) unknownTier) (\<lambda>_.
     ebind (claim_normalize (si_priorCommercialHistoryMonths input) (fst historyMonthsBand) (snd historyMonthsBand)) (\<lambda>history.
     let proximity = (case map_of proximityScoreByTier (si_directnessTier input) of Some v \<Rightarrow> v | None \<Rightarrow> NaN) in
     ebind (scoreEvidence (si_evidenceItems input)) (\<lambda>evidenceResult.
     ebind (claim_normalizeInvert (si_submissionLagDays input) (fst submissionLagDaysBand) (snd submissionLagDaysBand)) (\<lambda>time.
       let weighted = js_add (js_add (js_add (js_mul history weight_history) (js_mul proximity weight_proximity))
             (js_mul (es_total evidenceResult) weight_evidence)) (js_mul time weight_time);
           isZeroAttributionTier = (si_directnessTier input \<in> set zeroAttributionTiers);
           roundedWeighted = claim_round1 weighted;
           total = (if isZeroAttributionTier then Fin 0 else roundedWeighted)
       in Inr \<lparr>sb_history = claim_round1 history, sb_proximity = claim_round1 proximity,
               sb_evidence = claim_round1 (es_total evidenceResult), sb_time = claim_round1 time,
               sb_weighted = roundedWeighted, sb_total = total,
               sb_evidenceBreakdown = es_items evidenceResult,
               sb_algorithmVersion = attribution_algorithmVersion,
               sb_inputVersions = (case si_inputVersions input of Some v \<Rightarrow> v | None \<Rightarrow> []),
               sb_cappedFrom = (if isZeroAttributionTier \<and> js_lt (Fin 0) roundedWeighted
                 then Some roundedWeighted else None),
               sb_evidenceRawTotal = (if js_lt (es_total evidenceResult) (es_rawTotal evidenceResult)
                 then Some (es_rawTotal evidenceResult) else None)\<rparr>))))))"

datatype AttributionTier = strong | moderate | negligible

definition attributionTier :: "js_number \<Rightarrow> AttributionTier" where
  "attributionTier score =
     (if js_le (Fin 70) score then strong else if js_le (Fin 40) score then moderate else negligible)"

section \<open>Ranking of competing claims\<close>

record RankableClaim =
  rc_claimId :: string
  rc_total :: js_number
  rc_submittedAt :: string

record ClaimRankEntry =
  cre_claimId :: string
  cre_rank :: nat
  cre_total :: js_number
  cre_tiedWith :: "string list"

datatype ClaimRankingInputError = unparseableSubmittedAt string

definition checkSubmittedAt ::
  "(string \<Rightarrow> int option) \<Rightarrow> RankableClaim \<Rightarrow> ClaimRankingInputError + unit" where
  "checkSubmittedAt parse claim =
     throw_if (parse (rc_submittedAt claim) = None) (unparseableSubmittedAt (rc_claimId claim))"

text \<open>The comparator. Every date was checked, so the instants are numbers; their difference and its
  sign are exact.\<close>

definition claim_cmp :: "(string \<Rightarrow> int option) \<Rightarrow> RankableClaim \<Rightarrow> RankableClaim \<Rightarrow> int" where
  "claim_cmp parse a b =
     (if \<not> js_eq (rc_total b) (rc_total a) then js_sign (js_sub (rc_total b) (rc_total a))
      else let submittedDelta = the (parse (rc_submittedAt a)) - the (parse (rc_submittedAt b)) in
        if submittedDelta \<noteq> 0 then submittedDelta
        else if rc_claimId a < rc_claimId b then - 1 else if rc_claimId b < rc_claimId a then 1 else 0)"

definition claim_entry ::
  "(string \<Rightarrow> int option) \<Rightarrow> RankableClaim list \<Rightarrow> nat \<Rightarrow> RankableClaim \<Rightarrow> ClaimRankEntry" where
  "claim_entry parse ranking i claim =
     \<lparr>cre_claimId = rc_claimId claim, cre_rank = i + 1, cre_total = rc_total claim,
      cre_tiedWith = map rc_claimId (filter (\<lambda>other. rc_claimId other \<noteq> rc_claimId claim \<and>
        js_eq (rc_total other) (rc_total claim) \<and>
        parse (rc_submittedAt other) = parse (rc_submittedAt claim)) ranking)\<rparr>"

definition rankClaims ::
  "(string \<Rightarrow> int option) \<Rightarrow> RankableClaim list \<Rightarrow> ClaimRankingInputError + ClaimRankEntry list" where
  "rankClaims parse claims =
     ebind (efor (checkSubmittedAt parse) claims) (\<lambda>_.
       let ranking = js_sort (claim_cmp parse) claims
       in Inr (map2 (claim_entry parse ranking) [0..<length ranking] ranking))"

section \<open>Scores stay within 0 and 100\<close>

lemma claim_round1_eq: "claim_round1 = round1"
  by (simp add: fun_eq_iff claim_round1_def round1_def)

lemma clamp01_range: "n \<noteq> NaN \<Longrightarrow> js_within 0 1 (clamp01 n)"
  by (cases n) (auto simp: clamp01_def js_max_def js_min_def)

lemma percent_range: "js_within 0 1 n \<Longrightarrow> score_range (js_mul n (Fin 100))"
  using js_within_fl_int [of 0 _ 100] by (auto elim!: js_withinE)

lemma claim_normalize_range:
  assumes "b \<in> {36, 60}"
  shows "claim_normalize (Fin v) (Fin 0) (Fin b) = Inr s \<Longrightarrow> score_range s"
    "claim_normalizeInvert (Fin v) (Fin 0) (Fin b) = Inr s \<Longrightarrow> score_range s"
    "\<exists>s. claim_normalize (Fin v) (Fin 0) (Fin b) = Inr s"
    "\<exists>s. claim_normalizeInvert (Fin v) (Fin 0) (Fin b) = Inr s"
proof -
  have "js_sub (Fin b) (Fin 0) = Fin b" "b \<noteq> 0"
    using assms js_Number_small [of 36] js_Number_small [of 60] by (auto simp: js_sub_def js_Number_def)
  then show "claim_normalize (Fin v) (Fin 0) (Fin b) = Inr s \<Longrightarrow> score_range s"
    "claim_normalizeInvert (Fin v) (Fin 0) (Fin b) = Inr s \<Longrightarrow> score_range s"
    by (auto simp: claim_normalize_def claim_normalizeInvert_def split: if_splits
        intro!: percent_range clamp01_range)
  show "\<exists>s. claim_normalize (Fin v) (Fin 0) (Fin b) = Inr s"
    "\<exists>s. claim_normalizeInvert (Fin v) (Fin 0) (Fin b) = Inr s"
    using \<open>b \<noteq> 0\<close> by (auto simp: claim_normalize_def claim_normalizeInvert_def js_eq_def)
qed

text \<open>Items whose type and verification state are in the vocabularies; their points are at most 40.\<close>

definition item_ok :: "ClaimEvidenceInput \<Rightarrow> bool" where
  "item_ok item \<longleftrightarrow> ei_evidenceType item \<in> set CLAIM_EVIDENCE_TYPES_literals \<and>
     ei_verificationState item \<in> set EVIDENCE_VERIFICATION_STATES_literals"

lemma points_range:
  assumes "(k, b) \<in> set evidenceBasePoints" "(l, m) \<in> set evidenceVerificationMultiplier"
  shows "js_within 0 40 (claim_round1 (js_mul b m))"
proof -
  have "js_within 0 1 (js_fl q)" if "0 \<le> q" "q \<le> 1" for q
    using that js_within_fl_int [of 0 q 1] by simp
  then have "js_within 0 40 b" "js_within 0 1 m"
    using assms by (auto simp: evidenceBasePoints_def evidenceVerificationMultiplier_def)
  then obtain u v where uv: "b = Fin u" "0 \<le> u" "u \<le> 40" "m = Fin v" "0 \<le> v" "v \<le> 1"
    by (auto elim!: js_withinE)
  then have "u * v \<le> 40"
    using mult_mono [of u 40 v 1] by simp
  then have "js_within (of_int 0) (of_int 40) (js_fl (u * v))"
    using uv by (intro js_within_fl_int) auto
  then show ?thesis
    using round1_Fin [of _ 40] uv(1,4) by (auto simp: claim_round1_eq elim!: js_withinE)
qed

lemma tables_cover:
  "map fst evidenceBasePoints = CLAIM_EVIDENCE_TYPES_literals"
  "map fst evidenceVerificationMultiplier = EVIDENCE_VERIFICATION_STATES_literals"
  "map fst proximityScoreByTier = attribution_DIRECTNESS_TIERS"
  by code_simp+

lemma lookup_known:
  assumes "k \<in> fst ` set table"
  shows "\<exists>v. object_lookup table k = Some v \<and> (k, v) \<in> set table"
proof -
  obtain v where "map_of table k = Some v"
    using assms by (cases "map_of table k") (simp_all add: map_of_eq_None_iff)
  then show ?thesis
    using map_of_SomeD by (fastforce simp: object_lookup_def)
qed

lemma scoreEvidenceItem_ok:
  assumes "item_ok item"
  shows "\<exists>c. scoreEvidenceItem (i, item) = Inr c \<and> js_within 0 40 (ec_contribution c)"
proof -
  obtain b where b: "object_lookup evidenceBasePoints (ei_evidenceType item) = Some b"
    "(ei_evidenceType item, b) \<in> set evidenceBasePoints"
    using lookup_known assms unfolding item_ok_def tables_cover [symmetric] set_map by blast
  obtain m where m: "object_lookup evidenceVerificationMultiplier (ei_verificationState item) = Some m"
    "(ei_verificationState item, m) \<in> set evidenceVerificationMultiplier"
    using lookup_known assms unfolding item_ok_def tables_cover [symmetric] set_map by blast
  show ?thesis
    using b(1) m(1) points_range [OF b(2) m(2)] by (simp add: scoreEvidenceItem_def)
qed

lemma js_min_range: "js_within 0 (of_int n) x \<Longrightarrow> 0 \<le> n \<Longrightarrow> score_range (js_min (Fin 100) x)"
  by (auto simp: js_min_def elim!: js_withinE)

lemma sum_points_range:
  assumes "\<forall>c \<in> set cs. js_within 0 40 (ec_contribution c)" "length cs \<le> 2 ^ 32"
  shows "js_within 0 (of_int (40 * int (length cs)))
    (claim_round1 (foldl (\<lambda>sum c. js_add sum (ec_contribution c)) (Fin 0) cs))"
proof -
  let ?n = "40 * int (length cs)"
  have "int (length cs) \<le> int (2 ^ 32)"
    using assms(2) by (simp only: of_nat_le_iff)
  then have small: "?n \<le> 2 ^ 40"
    by simp
  have "list_all2 (\<lambda>c n. js_within 0 (of_int n) c \<and> 0 \<le> n) (map ec_contribution cs) (replicate (length cs) 40)"
    using assms(1) by (simp add: list_all2_conv_all_nth)
  moreover have "sum_list (replicate (length cs) 40) = ?n"
    by (simp add: sum_list_replicate)
  ultimately have "js_within 0 (of_int (0 + ?n)) (foldl js_add (Fin 0) (map ec_contribution cs))"
    using sum_range [of "map ec_contribution cs" "replicate (length cs) 40" 0 "Fin 0"] small by simp
  then obtain q where "foldl js_add (Fin 0) (map ec_contribution cs) = Fin q" "0 \<le> q" "q \<le> of_int ?n"
    by (auto elim: js_withinE)
  then show ?thesis
    using round1_Fin [of q ?n] small by (simp add: claim_round1_eq flip: foldl_map)
qed

lemma scoreEvidence_ok:
  assumes "\<forall>item \<in> set items. item_ok item" "length items \<le> 2 ^ 32"
  shows "\<exists>r. scoreEvidence items = Inr r \<and> score_range (es_total r)"
proof -
  have each: "\<forall>p \<in> set (enumerate 0 items). \<exists>c. scoreEvidenceItem p = Inr c \<and> js_within 0 40 (ec_contribution c)"
    using assms(1) scoreEvidenceItem_ok by (auto simp: in_set_enumerate_eq)
  let ?cs = "map (\<lambda>p. projr (scoreEvidenceItem p)) (enumerate 0 items)"
  have "emap scoreEvidenceItem (enumerate 0 items) = Inr ?cs"
    unfolding emap_map using each by blast
  moreover have "\<forall>c \<in> set ?cs. js_within 0 40 (ec_contribution c)" "length ?cs \<le> 2 ^ 32"
    using each assms(2) by fastforce+
  ultimately show ?thesis
    using sum_points_range [of ?cs] js_min_range [of "40 * int (length ?cs)"]
    by (simp add: scoreEvidence_def Let_def evidenceScoreCeiling_def)
qed

lemma proximity_range:
  assumes "attribution_isDirectnessTier t"
  shows "\<exists>v. map_of proximityScoreByTier t = Some v \<and> score_range v"
proof -
  have "list_all (\<lambda>e. case snd e of Fin q \<Rightarrow> 0 \<le> q \<and> q \<le> 100 | _ \<Rightarrow> False) proximityScoreByTier"
    by code_simp
  moreover obtain v where "map_of proximityScoreByTier t = Some v"
    using assms unfolding attribution_isDirectnessTier_def tables_cover(3) [symmetric]
    by (cases "map_of proximityScoreByTier t") (auto simp: map_of_eq_None_iff)
  ultimately show ?thesis
    by (fastforce simp: list_all_iff js_within_def dest: map_of_SomeD)
qed

lemma weighted_range:
  assumes "score_range s" "w = Fin q" "0 \<le> q" "q \<le> 1" "dbl (100 * q) \<le> of_int n" "0 \<le> n" "n \<le> 100"
  shows "js_within 0 (of_int n) (js_mul s w)"
proof -
  obtain v where v: "s = Fin v" "0 \<le> v" "v \<le> 100"
    using assms(1) by (auto elim: js_withinE)
  have vq: "0 \<le> v * q" "v * q \<le> 100 * q" "v * q \<le> of_int 100"
    using v assms(3,4) mult_mono [of v 100 q 1] by (auto intro: mult_right_mono)
  then have "js_within (of_int 0) (of_int 100) (js_fl (v * q))"
    by (intro js_within_fl_int) auto
  then have "js_fl (v * q) = Fin (dbl (v * q))"
    by (auto simp: js_fl_def Let_def split: if_splits)
  then show ?thesis
    using dbl_mono [OF vq(2)] dbl_nonneg [OF vq(1)] assms(2,5) v(1) by auto
qed

lemma claim_weights:
  "\<exists>q. weight_history = Fin q \<and> 0 \<le> q \<and> q \<le> 1 \<and> dbl (100 * q) \<le> of_int 40"
  "\<exists>q. weight_proximity = Fin q \<and> 0 \<le> q \<and> q \<le> 1 \<and> dbl (100 * q) \<le> of_int 30"
  "\<exists>q. weight_evidence = Fin q \<and> 0 \<le> q \<and> q \<le> 1 \<and> dbl (100 * q) \<le> of_int 20"
  "\<exists>q. weight_time = Fin q \<and> 0 \<le> q \<and> q \<le> 1 \<and> dbl (100 * q) \<le> of_int 10"
proof -
  have ex: "(case w of Fin q \<Rightarrow> P q | _ \<Rightarrow> False) \<Longrightarrow> \<exists>q. w = Fin q \<and> P q" for w P
    by (cases w) auto
  show "\<exists>q. weight_history = Fin q \<and> 0 \<le> q \<and> q \<le> 1 \<and> dbl (100 * q) \<le> of_int 40"
    "\<exists>q. weight_proximity = Fin q \<and> 0 \<le> q \<and> q \<le> 1 \<and> dbl (100 * q) \<le> of_int 30"
    "\<exists>q. weight_evidence = Fin q \<and> 0 \<le> q \<and> q \<le> 1 \<and> dbl (100 * q) \<le> of_int 20"
    "\<exists>q. weight_time = Fin q \<and> 0 \<le> q \<and> q \<le> 1 \<and> dbl (100 * q) \<le> of_int 10"
    by (rule ex, code_simp)+
qed

section \<open>What a score guarantees\<close>

lemma claim_assert_ok [result_simps]:
  "claim_assertFiniteNonNegative v f = Inr u \<longleftrightarrow> (\<exists>q. v = Fin q \<and> 0 \<le> q)"
  by (cases v) (auto simp: claim_assertFiniteNonNegative_def ebind_eq_Inr)

lemma weighted_total:
  assumes "score_range h" "score_range p" "score_range e" "score_range t"
  shows "total_ok (claim_round1 (js_add (js_add (js_add (js_mul h weight_history) (js_mul p weight_proximity))
    (js_mul e weight_evidence)) (js_mul t weight_time)))"
proof -
  have w: "js_within 0 (of_int n) (js_mul s w)"
    if "\<exists>q. w = Fin q \<and> 0 \<le> q \<and> q \<le> 1 \<and> dbl (100 * q) \<le> of_int n" "score_range s" "0 \<le> n" "n \<le> 100" for s w n
    using that weighted_range by blast
  have "js_within 0 (of_int 40) (js_mul h weight_history)" "js_within 0 (of_int 30) (js_mul p weight_proximity)"
    "js_within 0 (of_int 20) (js_mul e weight_evidence)" "js_within 0 (of_int 10) (js_mul t weight_time)"
    using w [OF claim_weights(1) assms(1)] w [OF claim_weights(2) assms(2)] w [OF claim_weights(3) assms(3)]
      w [OF claim_weights(4) assms(4)] by simp_all
  then have "js_within 0 (of_int (40 + 30 + 20 + 10)) (js_add (js_add (js_add (js_mul h weight_history)
      (js_mul p weight_proximity)) (js_mul e weight_evidence)) (js_mul t weight_time))"
    by (intro add_range) simp_all
  then show ?thesis
    using round1_Fin [of _ 100] by (auto simp: claim_round1_eq total_ok_def elim!: js_withinE)
qed

text \<open>Every well-formed claim gets a score, and all numbers of it stay in range: finite
  non-negative months and lag, a known directness tier and known evidence (at most 2^32 items, the
  longest array of the language) give four factors between 0 and 100 and a total between 0 and 100,
  in floating point and after all roundings.\<close>

theorem claim_score_bounded:
  assumes "si_priorCommercialHistoryMonths input = Fin m" "0 \<le> m" "si_submissionLagDays input = Fin d" "0 \<le> d"
    "attribution_isDirectnessTier (si_directnessTier input)"
    "\<forall>item \<in> set (si_evidenceItems input). item_ok item" "length (si_evidenceItems input) \<le> 2 ^ 32"
  shows "\<exists>b. scoreClaim input = Inr b \<and>
    list_all (js_within 0 100) [sb_history b, sb_proximity b, sb_evidence b, sb_time b, sb_weighted b, sb_total b]"
proof -
  obtain h where h: "claim_normalize (Fin m) (Fin 0) (Fin 36) = Inr h" "score_range h"
    using claim_normalize_range(1,3) [of 36 m] by auto
  obtain t where t: "claim_normalizeInvert (Fin d) (Fin 0) (Fin 60) = Inr t" "score_range t"
    using claim_normalize_range(2,4) [of 60 d] by auto
  obtain p where p: "map_of proximityScoreByTier (si_directnessTier input) = Some p" "score_range p"
    using proximity_range assms(5) by blast
  obtain r where r: "scoreEvidence (si_evidenceItems input) = Inr r" "score_range (es_total r)"
    using scoreEvidence_ok assms(6,7) by blast
  have checks: "claim_assertFiniteNonNegative (Fin m) f = Inr ()" "claim_assertFiniteNonNegative (Fin d) f = Inr ()" for f
    using assms(2,4) by (auto simp: claim_assert_ok)
  have "throw_if (\<not> attribution_isDirectnessTier (si_directnessTier input)) unknownTier = Inr ()"
    using assms(5) by simp
  note eqs = assms(1,3) checks this h(1) r(1) t(1)
  have "score_range (claim_round1 h)" "score_range (claim_round1 p)" "score_range (claim_round1 (es_total r))"
    "score_range (claim_round1 t)"
    using h(2) p(2) r(2) t(2) by (simp_all only: claim_round1_eq round1_range)
  moreover have "total_ok (claim_round1 (js_add (js_add (js_add (js_mul h weight_history) (js_mul p weight_proximity))
      (js_mul (es_total r) weight_evidence)) (js_mul t weight_time)))"
    using h(2) p(2) r(2) t(2) by (rule weighted_total)
  ultimately show ?thesis
    unfolding scoreClaim_def historyMonthsBand_def submissionLagDaysBand_def fst_conv snd_conv Let_def p(1) option.case
      eqs ebind_simps
    by - (rule exI, rule conjI, rule refl, simp add: total_ok_def)
qed

text \<open>Public knowledge earns nothing: a claim at directness tier D0 that is scored at all has total
  0 and the label negligible, whatever its history, its evidence and its timing; the suppressed score
  is shown exactly when it was positive.\<close>

theorem public_claim_scores_zero:
  assumes "scoreClaim input = Inr b" "si_directnessTier input = ''D0''"
  shows "sb_total b = Fin 0 \<and> attributionTier (sb_total b) = negligible \<and>
    sb_cappedFrom b = (if js_lt (Fin 0) (sb_weighted b) then Some (sb_weighted b) else None)"
proof -
  have "sb_total b = Fin 0 \<and> sb_cappedFrom b = (if js_lt (Fin 0) (sb_weighted b) then Some (sb_weighted b) else None)"
    using assms unfolding scoreClaim_def ebind_eq_Inr Let_def zeroAttributionTiers_def
    by (elim exE conjE) (simp only: sum.inject, auto)
  then show ?thesis
    by (simp add: attributionTier_def)
qed

text \<open>A name that every object inherits is not rejected as an unknown evidence type: the item is
  accepted and its points, and with them the whole score, are not a number.\<close>

theorem inherited_evidence_type_accepted:
  "\<exists>r. scoreEvidence [\<lparr>ei_evidenceType = ''constructor'', ei_verificationState = ''SELF_REPORTED''\<rparr>] = Inr r \<and>
     es_total r = NaN"
  "scoreEvidence [\<lparr>ei_evidenceType = ''INVOICE'', ei_verificationState = ''SELF_REPORTED''\<rparr>] =
     Inl (unknownEvidenceType 0)"
proof -
  have *: "object_lookup evidenceBasePoints ''constructor'' = Some NaN"
    "object_lookup evidenceBasePoints ''INVOICE'' = None"
    by code_simp+
  have "\<exists>v. object_lookup evidenceVerificationMultiplier ''SELF_REPORTED'' = Some v"
    by (simp add: object_lookup_def evidenceVerificationMultiplier_def)
  then obtain v where v: "object_lookup evidenceVerificationMultiplier ''SELF_REPORTED'' = Some v"
    by blast
  have nan: "js_mul NaN v = NaN" "js_add (Fin 0) NaN = NaN" "claim_round1 NaN = NaN" "js_min (Fin 100) NaN = NaN"
    by (cases v; simp add: claim_round1_def js_min_def)+
  show "\<exists>r. scoreEvidence [\<lparr>ei_evidenceType = ''constructor'', ei_verificationState = ''SELF_REPORTED''\<rparr>] = Inr r \<and>
     es_total r = NaN"
    by (simp add: scoreEvidence_def scoreEvidenceItem_def * v nan Let_def evidenceScoreCeiling_def)
  show "scoreEvidence [\<lparr>ei_evidenceType = ''INVOICE'', ei_verificationState = ''SELF_REPORTED''\<rparr>] =
     Inl (unknownEvidenceType 0)"
    by (simp add: scoreEvidence_def scoreEvidenceItem_def *)
qed

section \<open>The ranking of competing claims\<close>

definition claim_total :: "RankableClaim \<Rightarrow> rat" where
  "claim_total c = (case rc_total c of Fin q \<Rightarrow> q | _ \<Rightarrow> 0)"

definition claim_key :: "(string \<Rightarrow> int option) \<Rightarrow> RankableClaim \<Rightarrow> rat \<times> int \<times> string" where
  "claim_key parse c = (- claim_total c, the (parse (rc_submittedAt c)), rc_claimId c)"

definition claim_order :: "(string \<Rightarrow> int option) \<Rightarrow> RankableClaim \<Rightarrow> RankableClaim \<Rightarrow> int" where
  "claim_order parse a b = (if claim_key parse a \<le> claim_key parse b then
     if claim_key parse a = claim_key parse b then 0 else - 1 else 1)"

interpretation claim_ranking: js_comparator "claim_order parse" "claim_key parse" for parse
  by unfold_locales (simp add: claim_order_def)

lemma claim_cmp_sign:
  assumes "total_ok (rc_total a)" "total_ok (rc_total b)"
  shows "claim_cmp parse a b \<le> 0 \<longleftrightarrow> claim_order parse a b \<le> 0"
proof -
  obtain q r where qr: "rc_total a = Fin q" "claim_total a = q" "rc_total b = Fin r" "claim_total b = r"
    using assms by (auto elim!: total_okE simp: claim_total_def)
  then have "js_sign (js_sub (Fin r) (Fin q)) = (if q < r then 1 else if r < q then - 1 else 0)"
    using total_order assms by simp
  then show ?thesis
    unfolding claim_cmp_def claim_order_def claim_key_def qr
    by (auto simp: js_eq_def less_eq_prod_def Let_def)
qed

lemma js_insert_sign_cong:
  "\<forall>y \<in> set ys. cmp x y \<le> 0 \<longleftrightarrow> cmp' x y \<le> 0 \<Longrightarrow> js_insert cmp x ys = js_insert cmp' x ys"
  by (induction ys) auto

lemma claim_sort:
  assumes "\<forall>c \<in> set claims. total_ok (rc_total c)"
  shows "js_sort (claim_cmp parse) claims = js_sort (claim_order parse) claims"
  using assms
proof (induction claims)
  case (Cons c cs)
  have "set (foldr (js_insert (claim_order parse)) cs []) = set cs"
    using claim_ranking.set_js_sort [of parse cs] by (simp add: js_sort_def)
  then show ?case
    using Cons claim_cmp_sign by (auto simp: js_sort_def intro!: js_insert_sign_cong)
qed (simp add: js_sort_def)

text \<open>Competing claims are ranked by total score, then by the instant of submission, earliest
  first, then by identifier; the ranks are 1 to n; the outcome does not depend on the order in which
  the claims are supplied. A claim whose submission date does not parse makes the whole ranking fail
  instead of being sorted somewhere.\<close>

theorem rankClaims_deterministic:
  assumes "\<forall>c \<in> set claims. total_ok (rc_total c)" "distinct (map rc_claimId claims)"
    "mset claims = mset claims'"
  shows "(case rankClaims parse claims of
      Inr rs \<Rightarrow> rankClaims parse claims' = Inr rs \<and>
        map cre_claimId rs = map rc_claimId (sort_key (claim_key parse) claims) \<and>
        map cre_rank rs = [1..<length claims + 1] \<and>
        (\<forall>c \<in> set claims. parse (rc_submittedAt c) \<noteq> None)
    | Inl e \<Rightarrow> (\<exists>c \<in> set claims. parse (rc_submittedAt c) = None) \<and> (\<exists>e'. rankClaims parse claims' = Inl e'))"
proof -
  have same: "set claims = set claims'" "\<forall>c \<in> set claims'. total_ok (rc_total c)"
    using assms(1) mset_eq_setD [OF assms(3)] by simp_all
  have check: "efor (checkSubmittedAt parse) cs = Inr () \<longleftrightarrow> (\<forall>c \<in> set cs. parse (rc_submittedAt c) \<noteq> None)" for cs
    by (simp add: efor_eq_Inr checkSubmittedAt_def)
  have "inj_on (claim_key parse) (set claims)"
    using assms(2) by (auto simp: inj_on_def claim_key_def distinct_map)
  then have sort: "js_sort (claim_cmp parse) claims' = js_sort (claim_cmp parse) claims"
    "js_sort (claim_cmp parse) claims = sort_key (claim_key parse) claims"
    using claim_ranking.js_sort_permutation [OF assms(3), of parse] claim_sort [OF assms(1)] claim_sort [OF same(2)]
      claim_ranking.js_sort_sort_key [of parse claims] by simp_all
  show ?thesis
  proof (cases "efor (checkSubmittedAt parse) claims")
    case (Inl e)
    then have bad: "\<exists>c \<in> set claims. parse (rc_submittedAt c) = None"
      using check [of claims] by auto
    then obtain e' where "efor (checkSubmittedAt parse) claims' = Inl e'"
      using check [of claims'] same(1) by (cases "efor (checkSubmittedAt parse) claims'") auto
    then show ?thesis
      using Inl bad by (simp add: rankClaims_def)
  next
    case (Inr u)
    then have ok: "\<forall>c \<in> set claims. parse (rc_submittedAt c) \<noteq> None"
      using check [of claims] by simp
    then have ok': "efor (checkSubmittedAt parse) claims' = Inr ()" "efor (checkSubmittedAt parse) claims = Inr ()"
      using check [of claims'] check [of claims] same(1) by simp_all
    let ?l = "sort_key (claim_key parse) claims"
    have "map cre_claimId (map2 (claim_entry parse l) [0..<length l] l) = map rc_claimId l"
      "map cre_rank (map2 (claim_entry parse l) [0..<length l] l) = [1..<length l + 1]" for l
      by (rule nth_equalityI; simp add: claim_entry_def del: upt_Suc)+
    note this [of ?l]
    then show ?thesis
      using ok by (simp add: rankClaims_def ok' sort Let_def del: upt_Suc)
  qed
qed

section \<open>Examples\<close>

definition example_scoring :: "string \<Rightarrow> ClaimScoringInput" where
  "example_scoring tier =
     \<lparr>si_priorCommercialHistoryMonths = Fin 48, si_directnessTier = tier,
      si_evidenceItems = [\<lparr>ei_evidenceType = ''CONTRACT'', ei_verificationState = ''API_VERIFIED''\<rparr>],
      si_submissionLagDays = Fin 3, si_inputVersions = None\<rparr>"

theorem claim_score_bounded_witness:
  "\<exists>b. scoreClaim (example_scoring ''D4'') = Inr b \<and> js_within 0 100 (sb_total b)"
proof -
  have "attribution_isDirectnessTier ''D4''"
    "\<forall>item \<in> set (si_evidenceItems (example_scoring ''D4'')). item_ok item"
    "length (si_evidenceItems (example_scoring ''D4'')) \<le> 2 ^ 32"
    by (simp_all add: attribution_isDirectnessTier_def attribution_DIRECTNESS_TIERS_def example_scoring_def
        item_ok_def CLAIM_EVIDENCE_TYPES_literals_def EVIDENCE_VERIFICATION_STATES_literals_def)
  then show ?thesis
    using claim_score_bounded [of "example_scoring ''D4''" 48 3] by (auto simp: example_scoring_def)
qed

lemma example_public_scored: "\<exists>b. scoreClaim (example_scoring ''D0'') = Inr b"
proof -
  have "item_ok \<lparr>ei_evidenceType = ''CONTRACT'', ei_verificationState = ''API_VERIFIED''\<rparr>"
    by (simp add: item_ok_def CLAIM_EVIDENCE_TYPES_literals_def EVIDENCE_VERIFICATION_STATES_literals_def)
  then obtain r where r: "scoreEvidence (si_evidenceItems (example_scoring ''D0'')) = Inr r"
    using scoreEvidence_ok [of "si_evidenceItems (example_scoring ''D0'')"] by (auto simp: example_scoring_def)
  obtain h t where "claim_normalize (Fin 48) (Fin 0) (Fin 36) = Inr h" "claim_normalizeInvert (Fin 3) (Fin 0) (Fin 60) = Inr t"
    using claim_normalize_range(3) [of 36] claim_normalize_range(4) [of 60] by blast
  then show ?thesis
    using r by (simp add: scoreClaim_def example_scoring_def Let_def historyMonthsBand_def submissionLagDaysBand_def
        claim_assertFiniteNonNegative_def throw_if_def attribution_isDirectnessTier_def
        attribution_DIRECTNESS_TIERS_def)
qed

theorem public_claim_scores_zero_witness:
  "\<exists>b. scoreClaim (example_scoring ''D0'') = Inr b \<and> sb_total b = Fin 0"
proof -
  obtain b where b: "scoreClaim (example_scoring ''D0'') = Inr b"
    using example_public_scored by blast
  then have "sb_total b = Fin 0"
    using public_claim_scores_zero [OF b] by (simp add: example_scoring_def)
  then show ?thesis
    using b by blast
qed

definition example_claims :: "RankableClaim list" where
  "example_claims =
     [\<lparr>rc_claimId = ''b'', rc_total = js_fl 40, rc_submittedAt = ''2''\<rparr>,
      \<lparr>rc_claimId = ''a'', rc_total = js_fl 40, rc_submittedAt = ''1''\<rparr>]"

definition example_parse :: "string \<Rightarrow> int option" where
  "example_parse s = (if s = ''1'' then Some 1 else if s = ''2'' then Some 2 else None)"

theorem rankClaims_deterministic_witness:
  "\<exists>rs. rankClaims example_parse example_claims = Inr rs \<and>
     rankClaims example_parse (rev example_claims) = Inr rs \<and> map cre_rank rs = [1, 2]"
proof -
  have ok: "\<forall>c \<in> set example_claims. total_ok (rc_total c)" "distinct (map rc_claimId example_claims)"
    "mset example_claims = mset (rev example_claims)"
    "\<forall>c \<in> set example_claims. example_parse (rc_submittedAt c) \<noteq> None"
    using js_within_fl_int [of 0 40 100] by (auto simp: example_claims_def example_parse_def total_ok_def)
  show ?thesis
    using rankClaims_deterministic [OF ok(1-3), of example_parse] ok(4)
    by (cases "rankClaims example_parse example_claims") (auto simp: example_claims_def)
qed

end
