(* ===== verification/Json_Guards.thy ===== *)
theory Json_Guards
  imports Money
begin

text \<open>
  \<open>packages/db/src/json-guards.ts\<close>: the guards a repository runs before it writes a JSON column.
  A value may be an object graph with sharing and cycles, so objects live in an explicit heap (a list
  indexed by address) and a value refers to them. An object is the list of its own enumerable
  entries, as \<open>Object.entries\<close> returns them; arrays have no holes. The messages are reduced to
  the kind of the fault and the path to it.
\<close>

section \<open>Values and objects\<close>

datatype jsval =
    VNull | VUndefined | VBool bool | VNumber js_number | VString string | VBigInt int | VFunction | VSymbol
  | VRef nat

datatype jsobj = JArray "jsval list" | JObject "(string \<times> jsval) list"

datatype segment = Field string | Index nat

datatype shape_fault =
    mustBeArray | mustBeString | mustBePlainObject | notFiniteNumber | isBigInt | notRepresentable
  | circularReference | reservedKey string | mustNotBeNull

datatype JsonShapeError = JsonShapeError shape_fault "segment list"

definition DANGEROUS_JSON_KEYS :: "string list" where
  "DANGEROUS_JSON_KEYS = [''__proto__'', ''constructor'', ''prototype'']"

section \<open>The guards\<close>

text \<open>An address outside the heap does not occur; it is treated as an object without entries.\<close>

definition deref :: "jsobj list \<Rightarrow> nat \<Rightarrow> jsobj" where
  "deref heap a = (if a < length heap then heap ! a else JObject [])"

lemma efor_cong [fundef_cong]:
  "xs = ys \<Longrightarrow> (\<And>x. x \<in> set ys \<Longrightarrow> f x = g x) \<Longrightarrow> efor f xs = efor g ys"
  by (induction ys arbitrary: xs) auto

lemma remaining_pos: "a \<notin> set seen \<Longrightarrow> \<not> n \<le> a \<Longrightarrow> 0 < card ({..<(n::nat)} - set seen)"
  by (auto simp: card_gt_0_iff subset_iff not_le)

text \<open>\<open>seen\<close> holds the addresses on the path from the root: the source adds an object before it
  visits the entries and removes it afterwards.\<close>

function assertJsonSerializable ::
  "jsobj list \<Rightarrow> nat list \<Rightarrow> segment list \<Rightarrow> jsval \<Rightarrow> JsonShapeError + unit" where
  "assertJsonSerializable heap seen path value =
     (case value of
        VNull \<Rightarrow> Inr ()
      | VString _ \<Rightarrow> Inr ()
      | VBool _ \<Rightarrow> Inr ()
      | VNumber n \<Rightarrow> throw_if (\<not> js_isFinite n) (JsonShapeError notFiniteNumber path)
      | VBigInt _ \<Rightarrow> Inl (JsonShapeError isBigInt path)
      | VFunction \<Rightarrow> Inl (JsonShapeError notRepresentable path)
      | VSymbol \<Rightarrow> Inl (JsonShapeError notRepresentable path)
      | VUndefined \<Rightarrow> Inl (JsonShapeError notRepresentable path)
      | VRef a \<Rightarrow>
          if a \<in> set seen then Inl (JsonShapeError circularReference path)
          else if length heap \<le> a then Inr ()
          else (case heap ! a of
                  JArray items \<Rightarrow>
                    efor (\<lambda>(i, x). assertJsonSerializable heap (a # seen) (path @ [Index i]) x) (enumerate 0 items)
                | JObject entries \<Rightarrow>
                    efor (\<lambda>(k, x).
                      if k \<in> set DANGEROUS_JSON_KEYS then Inl (JsonShapeError (reservedKey k) (path @ [Field k]))
                      else assertJsonSerializable heap (a # seen) (path @ [Field k]) x) entries))"
  by pat_completeness auto

text \<open>The recursion ends on every heap, cyclic ones included: every nested call has one more object
  of the heap on its path, and an object already on the path is not entered again.\<close>

termination assertJsonSerializable
  by (relation "measure (\<lambda>(heap, seen, path, v). card ({..<length heap} - set seen))")
    (auto dest: remaining_pos)

declare assertJsonSerializable.simps [simp del]

definition assertStringArray :: "jsobj list \<Rightarrow> jsval \<Rightarrow> segment list \<Rightarrow> JsonShapeError + unit" where
  "assertStringArray heap value path =
     (case value of
        VRef a \<Rightarrow>
          (case deref heap a of
             JArray items \<Rightarrow>
               efor (\<lambda>(i, x). case x of VString _ \<Rightarrow> Inr ()
                 | _ \<Rightarrow> Inl (JsonShapeError mustBeString (path @ [Index i]))) (enumerate 0 items)
           | JObject _ \<Rightarrow> Inl (JsonShapeError mustBeArray path))
      | _ \<Rightarrow> Inl (JsonShapeError mustBeArray path))"

definition assertJsonSafePlainObject :: "jsobj list \<Rightarrow> jsval \<Rightarrow> segment list \<Rightarrow> JsonShapeError + unit" where
  "assertJsonSafePlainObject heap value path =
     (case value of
        VRef a \<Rightarrow>
          (case deref heap a of
             JArray _ \<Rightarrow> Inl (JsonShapeError mustBePlainObject path)
           | JObject _ \<Rightarrow> assertJsonSerializable heap [] path value)
      | _ \<Rightarrow> Inl (JsonShapeError mustBePlainObject path))"

definition assertJsonSafeObjectArray :: "jsobj list \<Rightarrow> jsval \<Rightarrow> segment list \<Rightarrow> JsonShapeError + unit" where
  "assertJsonSafeObjectArray heap value path =
     (case value of
        VRef a \<Rightarrow>
          (case deref heap a of
             JArray items \<Rightarrow>
               efor (\<lambda>(i, x). assertJsonSafePlainObject heap x (path @ [Index i])) (enumerate 0 items)
           | JObject _ \<Rightarrow> Inl (JsonShapeError mustBeArray path))
      | _ \<Rightarrow> Inl (JsonShapeError mustBeArray path))"

definition assertJsonSerializableValue :: "jsobj list \<Rightarrow> jsval \<Rightarrow> segment list \<Rightarrow> JsonShapeError + unit" where
  "assertJsonSerializableValue heap value path =
     (if value = VNull \<or> value = VUndefined then Inl (JsonShapeError mustNotBeNull path)
      else assertJsonSerializable heap [] path value)"

section \<open>What the guards accept\<close>

text \<open>The entries an object holds, and the values that denote a finite JSON tree.\<close>

fun children :: "jsobj \<Rightarrow> jsval list" where
  "children (JArray items) = items"
| "children (JObject entries) = map snd entries"

fun keys_ok :: "jsobj \<Rightarrow> bool" where
  "keys_ok (JArray items) = True"
| "keys_ok (JObject entries) = (set (map fst entries) \<inter> set DANGEROUS_JSON_KEYS = {})"

inductive json_tree :: "jsobj list \<Rightarrow> jsval \<Rightarrow> bool" for heap where
  tree_null: "json_tree heap VNull"
| tree_string: "json_tree heap (VString s)"
| tree_bool: "json_tree heap (VBool b)"
| tree_number: "js_isFinite n \<Longrightarrow> json_tree heap (VNumber n)"
| tree_object: "keys_ok (deref heap a) \<Longrightarrow> (\<And>x. x \<in> set (children (deref heap a)) \<Longrightarrow> json_tree heap x) \<Longrightarrow>
    json_tree heap (VRef a)"

inductive_cases json_tree_VRef: "json_tree heap (VRef a)"

inductive_simps json_tree_simps [simp]:
  "json_tree heap VNull" "json_tree heap (VString s)" "json_tree heap (VBool b)" "json_tree heap (VNumber n)"
  "json_tree heap VUndefined" "json_tree heap (VBigInt i)" "json_tree heap VFunction" "json_tree heap VSymbol"

text \<open>The step from an object to the objects its entries refer to.\<close>

definition points_to :: "jsobj list \<Rightarrow> nat \<Rightarrow> nat \<Rightarrow> bool" where
  "points_to heap a b \<longleftrightarrow> VRef b \<in> set (children (deref heap a))"

lemma tree_acyclic:
  assumes "json_tree heap v" "v = VRef a"
  shows "\<not> (points_to heap)\<^sup>+\<^sup>+ a a"
  using assms
proof (induction arbitrary: a rule: json_tree.induct)
  case (tree_object a')
  show ?case
  proof
    assume "(points_to heap)\<^sup>+\<^sup>+ a a"
    then obtain b where b: "points_to heap a b" "(points_to heap)\<^sup>*\<^sup>* b a"
      by (metis tranclpD)
    then have "(points_to heap)\<^sup>+\<^sup>+ b b"
      by (metis rtranclp_into_tranclp1)
    moreover have "VRef b \<in> set (children (deref heap a'))"
      using b(1) tree_object.prems by (simp add: points_to_def)
    then have "\<not> (points_to heap)\<^sup>+\<^sup>+ b b"
      using tree_object.IH by blast
    ultimately show False
      by blast
  qed
qed simp_all

lemma serializable_VRef:
  assumes "a \<notin> set seen" "a < length heap"
  shows "assertJsonSerializable heap seen path (VRef a) = Inr () \<longleftrightarrow>
    keys_ok (heap ! a) \<and> (case heap ! a of
      JArray items \<Rightarrow> \<forall>(i, x) \<in> set (enumerate 0 items). assertJsonSerializable heap (a # seen) (path @ [Index i]) x = Inr ()
    | JObject entries \<Rightarrow> \<forall>(k, x) \<in> set entries. assertJsonSerializable heap (a # seen) (path @ [Field k]) x = Inr ())"
  using assms
  by (subst assertJsonSerializable.simps) (force simp: efor_eq_Inr split: jsobj.split if_splits)

lemma serializable_sound:
  "assertJsonSerializable heap seen path v = Inr () \<Longrightarrow> json_tree heap v"
proof (induction heap seen path v rule: assertJsonSerializable.induct)
  case (1 heap seen path v)
  show ?case
  proof (cases v)
    case (VRef a)
    have fresh: "a \<notin> set seen"
      using 1(3) VRef by (subst (asm) assertJsonSerializable.simps) (auto split: if_splits)
    show ?thesis
    proof (cases "a < length heap")
      case True
      then have small: "\<not> length heap \<le> a"
        by simp
      note ok = 1(3) [unfolded VRef serializable_VRef [OF fresh True]]
      have "json_tree heap x" if x: "x \<in> set (children (heap ! a))" for x
      proof (cases "heap ! a")
        case (JArray items)
        then obtain i where i: "i < length items" "items ! i = x"
          using x by (auto simp: in_set_conv_nth)
        then have mem: "(i, x) \<in> set (enumerate 0 items)"
          by (simp add: in_set_enumerate_eq)
        then have "assertJsonSerializable heap (a # seen) (path @ [Index i]) x = Inr ()"
          using ok JArray by auto
        then show ?thesis
          using 1(1) [OF VRef fresh small JArray mem refl] by simp
      next
        case (JObject entries)
        then obtain k where mem: "(k, x) \<in> set entries"
          using x by auto
        then have "k \<notin> set DANGEROUS_JSON_KEYS" "assertJsonSerializable heap (a # seen) (path @ [Field k]) x = Inr ()"
          using ok JObject by (fastforce, auto)
        then show ?thesis
          using 1(2) [OF VRef fresh small JObject mem refl] by simp
      qed
      then show ?thesis
        using ok True unfolding VRef by (intro tree_object) (auto simp: deref_def)
    qed (auto simp: VRef deref_def intro!: tree_object)
  qed (use 1(3) in \<open>auto simp: assertJsonSerializable.simps\<close>)
qed

lemma serializable_complete:
  assumes "json_tree heap v"
    "\<And>a s. v = VRef a \<Longrightarrow> s \<in> set seen \<Longrightarrow> \<not> (points_to heap)\<^sup>*\<^sup>* a s"
  shows "assertJsonSerializable heap seen path v = Inr ()"
  using assms
proof (induction arbitrary: seen path rule: json_tree.induct)
  case (tree_object a)
  have fresh: "a \<notin> set seen"
    using tree_object.prems by blast
  have child: "assertJsonSerializable heap (a # seen) p x = Inr ()" if "x \<in> set (children (deref heap a))" for p x
  proof (rule tree_object.IH [OF that])
    fix b s
    assume b: "x = VRef b" and s: "s \<in> set (a # seen)"
    then have step: "points_to heap a b"
      using that by (simp add: points_to_def)
    have "json_tree heap (VRef a)"
      using tree_object.hyps by (rule json_tree.tree_object)
    then have "\<not> (points_to heap)\<^sup>*\<^sup>* b a"
      using tree_acyclic step by (metis rtranclp_into_tranclp2)
    then show "\<not> (points_to heap)\<^sup>*\<^sup>* b s"
      using s step tree_object.prems by (metis converse_rtranclp_into_rtranclp set_ConsD)
  qed
  show ?case
  proof (cases "a < length heap")
    case True
    show ?thesis
    proof (cases "heap ! a")
      case (JArray items)
      then show ?thesis
        unfolding serializable_VRef [OF fresh True] using child True
        by (auto simp: deref_def in_set_enumerate_eq)
    next
      case (JObject entries)
      then have "x \<in> set (children (deref heap a))" if "(k, x) \<in> set entries" for k x
        using that True by (force simp: deref_def)
      then show ?thesis
        unfolding serializable_VRef [OF fresh True] using child tree_object.hyps(1) True JObject
        by (auto simp: deref_def)
    qed
  qed (use fresh in \<open>simp add: assertJsonSerializable.simps\<close>)
qed (auto simp: assertJsonSerializable.simps)

text \<open>C40. The guard of a JSON column accepts a value exactly when it is an object that denotes a finite
  JSON tree: not an array, no reserved key, no bigint, function, symbol or undefined, no number that
  is not finite, and no cycle anywhere below it. Sharing without a cycle is accepted. The guard
  returns on every object graph, cyclic ones included, and an object that reaches itself is always
  refused.\<close>

theorem json_guard_exact:
  "(assertJsonSafePlainObject heap v path = Inr () \<longleftrightarrow>
     json_tree heap v \<and> (\<exists>a entries. v = VRef a \<and> deref heap a = JObject entries)) \<and>
   ((points_to heap)\<^sup>+\<^sup>+ a a \<longrightarrow> assertJsonSafePlainObject heap (VRef a) path \<noteq> Inr ())"
proof -
  have iff: "assertJsonSafePlainObject heap v path = Inr () \<longleftrightarrow>
      json_tree heap v \<and> (\<exists>a entries. v = VRef a \<and> deref heap a = JObject entries)" for v
  proof (cases v)
    case (VRef b)
    have "assertJsonSerializable heap [] path v = Inr () \<longleftrightarrow> json_tree heap v"
      using serializable_sound [of heap "[]" path v] serializable_complete [of heap v "[]" path] by auto
    then show ?thesis
      using VRef by (auto simp: assertJsonSafePlainObject_def split: jsobj.split)
  qed (simp_all add: assertJsonSafePlainObject_def)
  moreover have "\<not> json_tree heap (VRef a)" if "(points_to heap)\<^sup>+\<^sup>+ a a"
    using that tree_acyclic [of heap "VRef a" a] by auto
  ultimately show ?thesis
    by simp
qed

theorem json_guard_exact_witness:
  "assertJsonSafePlainObject [JObject [(''next'', VRef 0)]] (VRef 0) [] \<noteq> Inr ()"
proof -
  have "points_to [JObject [(''next'', VRef 0)]] 0 0"
    by (simp add: points_to_def deref_def)
  then have "(points_to [JObject [(''next'', VRef 0)]])\<^sup>+\<^sup>+ 0 0"
    by (rule tranclp.r_into_trancl)
  then show ?thesis
    using json_guard_exact [of "[JObject [(''next'', VRef 0)]]" VNull "[]" 0] by simp
qed

text \<open>A shared object below two keys is not a cycle.\<close>

lemma shared_object_accepted:
  "assertJsonSafePlainObject [JObject [(''a'', VRef 1), (''b'', VRef 1)], JObject []] (VRef 0) [] = Inr ()"
proof -
  have "json_tree [JObject [(''a'', VRef 1), (''b'', VRef 1)], JObject []] (VRef 1)"
    by (rule tree_object) (simp_all add: deref_def)
  then have "json_tree [JObject [(''a'', VRef 1), (''b'', VRef 1)], JObject []] (VRef 0)"
    by (intro tree_object) (auto simp: deref_def DANGEROUS_JSON_KEYS_def)
  then show ?thesis
    using serializable_complete [of _ "VRef 0" "[]"] by (simp add: assertJsonSafePlainObject_def deref_def)
qed

end
