(* ===== verification/Common_Store.thy ===== *)
theory Common_Store
  imports Idempotency Json_Guards
begin

text \<open>
  What the stores of the marketplace modules share: the identifier generator, the audit and timeline
  tables, and the three row operations of the Prisma client (find by key, insert under unique
  constraints, update by key). A table is the list of its rows in insertion order. A write that
  breaks a unique constraint fails with \<open>P2002\<close>, an update of a missing row with \<open>P2025\<close>.
  Foreign keys are not modelled.
\<close>

section \<open>Rows\<close>

datatype DbError = P2002 | P2025 | JsonShape JsonShapeError | NotReturned string

definition find_by :: "('r \<Rightarrow> 'k) \<Rightarrow> 'k \<Rightarrow> 'r list \<Rightarrow> 'r option" where
  "find_by key i rows = find (\<lambda>r. key r = i) rows"

text \<open>\<open>clash old new\<close> says which rows the unique constraints of the table keep apart.\<close>

definition insert_row :: "('r \<Rightarrow> 'r \<Rightarrow> bool) \<Rightarrow> 'r \<Rightarrow> 'r list \<Rightarrow> DbError + 'r list" where
  "insert_row clash r rows = (if \<exists>x \<in> set rows. clash x r then Inl P2002 else Inr (rows @ [r]))"

definition set_by :: "('r \<Rightarrow> 'k) \<Rightarrow> 'k \<Rightarrow> ('r \<Rightarrow> 'r) \<Rightarrow> 'r list \<Rightarrow> 'r list" where
  "set_by key i f rows = map (\<lambda>x. if key x = i then f x else x) rows"

definition update_by :: "('r \<Rightarrow> 'k) \<Rightarrow> 'k \<Rightarrow> ('r \<Rightarrow> 'r) \<Rightarrow> 'r list \<Rightarrow> DbError + 'r \<times> 'r list" where
  "update_by key i f rows =
     (case find_by key i rows of
        None \<Rightarrow> Inl P2025
      | Some r \<Rightarrow> Inr (f r, set_by key i f rows))"

section \<open>The common part of a store\<close>

record Base =
  bs_ids :: nat
  bs_audit :: "AuditEvent list"
  bs_timeline :: "DomainEvent list"

definition next_id :: "Env \<Rightarrow> 'a Base_scheme \<Rightarrow> string \<times> 'a Base_scheme" where
  "next_id env db = (uuid env (bs_ids db), db\<lparr>bs_ids := Suc (bs_ids db)\<rparr>)"

definition write_audit ::
  "Env \<Rightarrow> RequestContext option \<Rightarrow> AuditWriteInput \<Rightarrow> 'a Base_scheme \<Rightarrow> 'a Base_scheme" where
  "write_audit env ctx inp db =
     (let (i, db) = next_id env db in
      db\<lparr>bs_audit := bs_audit db @ [\<lparr>audit_id = i, audit_input = inp, audit_context = ctx\<rparr>]\<rparr>)"

definition write_event ::
  "Env \<Rightarrow> RequestContext option \<Rightarrow> TimelineWriteInput \<Rightarrow> 'a Base_scheme \<Rightarrow> 'a Base_scheme" where
  "write_event env ctx inp db =
     (let (i, db) = next_id env db in
      db\<lparr>bs_timeline := bs_timeline db @ [\<lparr>event_id = i, event_input = inp, event_context = ctx\<rparr>]\<rparr>)"

text \<open>The errors of the database and of a domain guard as failures of a service.\<close>

definition dbe :: "DbError + 'a \<Rightarrow> ('r, DbError) failure + 'a" where
  "dbe = map_err Unhandled"

definition domain :: "DomainTransitionError + 'a \<Rightarrow> ('r, DbError) failure + 'a" where
  "domain = map_err Transition"

definition cents :: "MoneyInvariantError + 'a \<Rightarrow> ('r, DbError) failure + 'a" where
  "cents = map_err MoneyFailure"

text \<open>\<open>findById\<close> followed by a \<open>throw\<close> when nothing was found.\<close>

definition require :: "'a option \<Rightarrow> 'e \<Rightarrow> 'e + 'a" where
  "require v e = (case v of None \<Rightarrow> Inl e | Some x \<Rightarrow> Inr x)"

text \<open>\<open>runUniqueConstraintSafe\<close>: the loser of a race on a unique constraint gets a retryable conflict.\<close>

definition uniqueSafe :: "('r, DbError) failure + 'a \<Rightarrow> ('r, DbError) failure + 'a" where
  "uniqueSafe = map_err (\<lambda>e. case e of Unhandled P2002 \<Rightarrow> Problem (conflict True) | _ \<Rightarrow> e)"

lemma lifted_ok [simp, result_simps]:
  "dbe r = Inr x \<longleftrightarrow> r = Inr x" "domain s = Inr y \<longleftrightarrow> s = Inr y" "cents m = Inr c \<longleftrightarrow> m = Inr c"
  "uniqueSafe u = Inr w \<longleftrightarrow> u = Inr w" "require v e = Inr z \<longleftrightarrow> v = Some z"
  by (simp_all add: dbe_def domain_def cents_def uniqueSafe_def require_def split: option.split)

lemma lifted_simps [simp]:
  "dbe (Inr x) = Inr x" "dbe (Inl e) = Inl (Unhandled e)" "domain (Inr y) = Inr y"
  "domain (Inl d) = Inl (Transition d)" "require None f = Inl f" "require (Some z) f = Inr z"
  by (simp_all add: dbe_def domain_def require_def)

section \<open>Laws of the row operations\<close>

lemma find_by_SomeD: "find_by key i rows = Some r \<Longrightarrow> r \<in> set rows \<and> key r = i"
  by (auto simp: find_by_def dest: find_SomeD)

lemma find_by_None: "find_by key i rows = None \<longleftrightarrow> (\<forall>r \<in> set rows. key r \<noteq> i)"
  by (auto simp: find_by_def find_None_iff)

lemma find_by_unique:
  assumes "distinct (map key rows)" and "r \<in> set rows"
  shows "find_by key (key r) rows = Some r"
  using assms by (induction rows) (auto simp: find_by_def rev_image_eqI)

lemma find_by_eq_iff:
  "distinct (map key rows) \<Longrightarrow> find_by key i rows = Some r \<longleftrightarrow> r \<in> set rows \<and> key r = i"
  using find_by_unique find_by_SomeD by metis

lemma find_by_append [simp]:
  "find_by key i (rows @ [r]) =
     (case find_by key i rows of Some x \<Rightarrow> Some x | None \<Rightarrow> if key r = i then Some r else None)"
  by (induction rows) (auto simp: find_by_def)

text \<open>An insert that went through kept every unique key unique.\<close>

lemma insert_row_ok: "insert_row clash r rows = Inr rows' \<longleftrightarrow> rows' = rows @ [r] \<and> (\<forall>x \<in> set rows. \<not> clash x r)"
  by (auto simp: insert_row_def)

lemma insert_row_distinct:
  assumes "insert_row clash r rows = Inr rows'" and "distinct (map key rows)"
    and "\<And>x. key x = key r \<Longrightarrow> clash x r"
  shows "distinct (map key rows')"
  using assms by (fastforce simp: insert_row_ok)

lemma update_by_ok:
  "update_by key i f rows = Inr (r, rows') \<longleftrightarrow>
     (\<exists>x. find_by key i rows = Some x \<and> r = f x \<and> rows' = set_by key i f rows)"
  by (auto simp: update_by_def split: option.split)

lemma find_by_set_by:
  assumes "\<And>x. key (f x) = key x"
  shows "find_by key j (set_by key i f rows) = map_option (\<lambda>x. if j = i then f x else x) (find_by key j rows)"
  using assms by (induction rows) (auto simp: find_by_def set_by_def)

lemma map_set_by: "(\<And>x. g (f x) = g x) \<Longrightarrow> map g (set_by key i f rows) = map g rows"
  by (simp add: set_by_def)

lemma set_set_by: "y \<in> set (set_by key i f rows) \<longleftrightarrow> (\<exists>x \<in> set rows. y = (if key x = i then f x else x))"
  by (simp only: set_by_def set_map image_iff)

lemma write_simps [simp]:
  "bs_audit (snd (next_id env db)) = bs_audit db" "bs_timeline (snd (next_id env db)) = bs_timeline db"
  by (simp_all add: next_id_def)

end
