(* ===== verification/Market_Store.thy ===== *)
theory Market_Store
  imports Common_Store Opportunity_States Rfq_States Deal_States
begin

text \<open>
  The tables of the marketplace: opportunities with their volume slices, RFQs with versions,
  recipients and quotes, and deal rooms with participants, conditions and decisions, and the
  repositories over them (\<open>packages/db/src/repositories\<close>). Rows hold the columns some operation
  reads or sets from its input; constant columns are left out. \<open>createdAt\<close> is the clock of the
  call. \<open>mk_organizations\<close> lists the identifiers of the organizations, \<open>mk_expiryJobs\<close> the
  delayed \<open>rfq-expiry\<close> jobs and \<open>mk_jobKeys\<close> the idempotency keys of that job.
\<close>

section \<open>Rows\<close>

type_synonym json_input = "jsobj list \<times> jsval"

record Opportunity =
  op_id :: string
  op_ownerOrgId :: string
  op_opportunityType :: string
  op_requestedService :: string
  op_status :: OpportunityStatus
  op_currency :: string
  op_totalPaymentVolumeMinor :: int
  op_totalCardGpvMinor :: int
  op_eligibleCardGpvMinor :: int
  op_offeredCardGpvMinor :: int
  op_movableNowMinor :: int
  op_movable30dMinor :: int
  op_movable90dMinor :: int
  op_jurisdictions :: "string list"
  op_mccs :: "string list"
  op_createdByUserId :: "string option"
  op_createdByOrgId :: "string option"
  op_updatedByUserId :: "string option"
  op_version :: int
  op_createdAt :: int

record VolumeSlice =
  vs_id :: string
  vs_opportunityId :: string
  vs_jurisdiction :: string
  vs_mcc :: string
  vs_cardOrigin :: string
  vs_channel :: string
  vs_currency :: string
  vs_amountMinor :: int
  vs_period :: string
  vs_createdByUserId :: "string option"
  vs_createdByOrgId :: "string option"

record RFQ =
  rf_id :: string
  rf_opportunityId :: string
  rf_status :: RfqStatus
  rf_dueAt :: int
  rf_currentVersionNumber :: int
  rf_createdByUserId :: "string option"
  rf_createdByOrgId :: "string option"
  rf_updatedByUserId :: "string option"
  rf_version :: int
  rf_createdAt :: int

datatype DisclosurePacketType =
    Packet_MATCH_SUMMARY | Packet_QUALIFIED_RFQ | Packet_DUE_DILIGENCE | Packet_RESTRICTED

record RFQVersion =
  vn_id :: string
  vn_rfqId :: string
  vn_versionNumber :: int
  vn_packetType :: DisclosurePacketType
  vn_disclosureSnapshot :: json_input
  vn_changeSummary :: "string option"
  vn_createdByUserId :: "string option"
  vn_createdByOrgId :: "string option"

record RFQRecipient =
  rc_id :: string
  rc_rfqId :: string
  rc_providerOrgId :: string
  rc_state :: RfqRecipientState
  rc_declineReason :: "string option"
  rc_createdByUserId :: "string option"
  rc_createdByOrgId :: "string option"
  rc_updatedByUserId :: "string option"
  rc_version :: int

record Quote =
  qt_id :: string
  qt_rfqId :: string
  qt_rfqRecipientId :: string
  qt_providerOrgId :: string
  qt_quoteVersion :: int
  qt_currency :: string
  qt_status :: QuoteStatus
  qt_validUntil :: int
  qt_terms :: json_input
  qt_createdByUserId :: "string option"
  qt_createdByOrgId :: "string option"
  qt_updatedByUserId :: "string option"
  qt_version :: int

record DealRoomRow =
  dl_id :: string
  dl_opportunityId :: string
  dl_rfqId :: string
  dl_selectedQuoteId :: string
  dl_merchantOrgId :: string
  dl_providerOrgId :: string
  dl_status :: DealRoomStatus
  dl_createdByUserId :: "string option"
  dl_createdByOrgId :: "string option"
  dl_updatedByUserId :: "string option"
  dl_version :: int
  dl_createdAt :: int

datatype DealParticipantRole = Party_MERCHANT | Party_PROVIDER

record DealRoomParticipant =
  pt_id :: string
  pt_dealRoomId :: string
  pt_organizationId :: string
  pt_participantRole :: DealParticipantRole
  pt_createdByUserId :: "string option"
  pt_createdByOrgId :: "string option"

record DealCondition =
  dc_id :: string
  dc_dealRoomId :: string
  dc_description :: string
  dc_ownerOrgId :: string
  dc_evidenceRef :: "string option"
  dc_dueAt :: "int option"
  dc_state :: DealConditionState
  dc_blocking :: bool
  dc_resolutionNote :: "string option"
  dc_createdByUserId :: "string option"
  dc_createdByOrgId :: "string option"
  dc_updatedByUserId :: "string option"
  dc_version :: int

record DealDecision =
  dd_id :: string
  dd_dealRoomId :: string
  dd_decisionType :: DealDecisionType
  dd_reason :: string
  dd_relatedQuoteId :: "string option"
  dd_comparisonSnapshot :: "(string \<times> jvalue) list option"
  dd_actorUserId :: "string option"
  dd_actorOrgId :: "string option"
  dd_actorRole :: "PersonaRole option"
  dd_decidedAt :: int

record MarketStore = Base +
  mk_organizations :: "string list"
  mk_opportunities :: "Opportunity list"
  mk_volumeSlices :: "VolumeSlice list"
  mk_rfqs :: "RFQ list"
  mk_rfqVersions :: "RFQVersion list"
  mk_recipients :: "RFQRecipient list"
  mk_quotes :: "Quote list"
  mk_dealRooms :: "DealRoomRow list"
  mk_participants :: "DealRoomParticipant list"
  mk_conditions :: "DealCondition list"
  mk_decisions :: "DealDecision list"
  mk_expiryJobs :: "(string \<times> int) list"
  mk_jobKeys :: "unit IdempotencyKey list"

section \<open>Organizations and opportunities\<close>

definition organization_findManyByIds :: "MarketStore \<Rightarrow> string list \<Rightarrow> string list" where
  "organization_findManyByIds db ids = filter (\<lambda>i. i \<in> set ids) (mk_organizations db)"

definition opportunity_findById :: "MarketStore \<Rightarrow> string \<Rightarrow> Opportunity option" where
  "opportunity_findById db i = find_by op_id i (mk_opportunities db)"

definition opportunity_listByOwnerOrg :: "MarketStore \<Rightarrow> string \<Rightarrow> Opportunity list" where
  "opportunity_listByOwnerOrg db org =
     sort_key (\<lambda>r. - op_createdAt r)
       (filter (\<lambda>r. op_ownerOrgId r = org \<and> op_status r \<noteq> Opp_CLOSED) (mk_opportunities db))"

definition opportunity_list :: "MarketStore \<Rightarrow> Opportunity list" where
  "opportunity_list db = take 100 (sort_key (\<lambda>r. - op_createdAt r) (mk_opportunities db))"

definition opportunity_insert :: "Opportunity \<Rightarrow> MarketStore \<Rightarrow> DbError + MarketStore" where
  "opportunity_insert r db =
     ebind (insert_row (\<lambda>x y. op_id x = op_id y) r (mk_opportunities db)) (\<lambda>rows.
       Inr (db\<lparr>mk_opportunities := rows\<rparr>))"

definition opportunity_updateStatus ::
  "string \<Rightarrow> OpportunityStatus \<Rightarrow> string option \<Rightarrow> MarketStore \<Rightarrow> DbError + Opportunity \<times> MarketStore" where
  "opportunity_updateStatus i status by db =
     ebind (update_by op_id i
         (\<lambda>r. r\<lparr>op_status := status, op_updatedByUserId := by, op_version := op_version r + 1\<rparr>)
         (mk_opportunities db)) (\<lambda>(r, rows).
       Inr (r, db\<lparr>mk_opportunities := rows\<rparr>))"

definition volumeSlice_listByOpportunity :: "MarketStore \<Rightarrow> string \<Rightarrow> VolumeSlice list" where
  "volumeSlice_listByOpportunity db i =
     sort_key (\<lambda>s. (vs_jurisdiction s, vs_mcc s, vs_period s))
       (filter (\<lambda>s. vs_opportunityId s = i) (mk_volumeSlices db))"

definition slice_cell :: "VolumeSlice \<Rightarrow> string \<times> string \<times> string \<times> string \<times> string \<times> string" where
  "slice_cell s = (vs_opportunityId s, vs_jurisdiction s, vs_mcc s, vs_cardOrigin s, vs_channel s, vs_period s)"

text \<open>A duplicate cell surfaces as the repository's own error, not as \<open>P2002\<close>.\<close>

definition volumeSlice_insert :: "VolumeSlice \<Rightarrow> MarketStore \<Rightarrow> DbError + MarketStore" where
  "volumeSlice_insert s db =
     ebind (map_err (\<lambda>_. NotReturned ''DuplicateVolumeSliceCellError'')
         (insert_row (\<lambda>x y. vs_id x = vs_id y \<or> slice_cell x = slice_cell y) s (mk_volumeSlices db))) (\<lambda>rows.
       Inr (db\<lparr>mk_volumeSlices := rows\<rparr>))"

definition volumeSlice_deleteAllByOpportunity :: "string \<Rightarrow> MarketStore \<Rightarrow> MarketStore" where
  "volumeSlice_deleteAllByOpportunity i db =
     db\<lparr>mk_volumeSlices := filter (\<lambda>s. vs_opportunityId s \<noteq> i) (mk_volumeSlices db)\<rparr>"

section \<open>RFQs\<close>

definition rfq_findById :: "MarketStore \<Rightarrow> string \<Rightarrow> RFQ option" where
  "rfq_findById db i = find_by rf_id i (mk_rfqs db)"

definition rfq_listByOpportunity :: "MarketStore \<Rightarrow> string \<Rightarrow> RFQ list" where
  "rfq_listByOpportunity db i =
     sort_key (\<lambda>r. - rf_createdAt r) (filter (\<lambda>r. rf_opportunityId r = i) (mk_rfqs db))"

definition rfq_list :: "MarketStore \<Rightarrow> RFQ list" where
  "rfq_list db = take 100 (sort_key (\<lambda>r. - rf_createdAt r) (mk_rfqs db))"

definition rfq_listByInvitedProvider :: "MarketStore \<Rightarrow> string \<Rightarrow> RFQ list" where
  "rfq_listByInvitedProvider db org =
     sort_key (\<lambda>r. - rf_createdAt r)
       (filter (\<lambda>r. \<exists>c \<in> set (mk_recipients db). rc_rfqId c = rf_id r \<and> rc_providerOrgId c = org) (mk_rfqs db))"

definition EXPIRABLE_STATUSES :: "RfqStatus list" where
  "EXPIRABLE_STATUSES = [Rfq_SENT, Rfq_ACKNOWLEDGED, Rfq_QUESTIONS, Rfq_QUOTED]"

definition rfq_listOverdue :: "MarketStore \<Rightarrow> int \<Rightarrow> nat \<Rightarrow> RFQ list" where
  "rfq_listOverdue db now_ms limit =
     take limit (sort_key rf_dueAt
       (filter (\<lambda>r. rf_dueAt r < now_ms \<and> rf_status r \<in> set EXPIRABLE_STATUSES) (mk_rfqs db)))"

definition rfq_insert :: "RFQ \<Rightarrow> MarketStore \<Rightarrow> DbError + MarketStore" where
  "rfq_insert r db =
     ebind (insert_row (\<lambda>x y. rf_id x = rf_id y) r (mk_rfqs db)) (\<lambda>rows. Inr (db\<lparr>mk_rfqs := rows\<rparr>))"

definition rfq_updateStatus ::
  "string \<Rightarrow> RfqStatus \<Rightarrow> string option \<Rightarrow> MarketStore \<Rightarrow> DbError + RFQ \<times> MarketStore" where
  "rfq_updateStatus i status by db =
     ebind (update_by rf_id i
         (\<lambda>r. r\<lparr>rf_status := status, rf_updatedByUserId := by, rf_version := rf_version r + 1\<rparr>)
         (mk_rfqs db)) (\<lambda>(r, rows).
       Inr (r, db\<lparr>mk_rfqs := rows\<rparr>))"

definition rfqVersion_findByRfqAndVersion :: "MarketStore \<Rightarrow> string \<Rightarrow> int \<Rightarrow> RFQVersion option" where
  "rfqVersion_findByRfqAndVersion db i n = find (\<lambda>v. vn_rfqId v = i \<and> vn_versionNumber v = n) (mk_rfqVersions db)"

definition rfqVersion_insert :: "RFQVersion \<Rightarrow> MarketStore \<Rightarrow> DbError + MarketStore" where
  "rfqVersion_insert v db =
     ebind (map_err JsonShape (assertJsonSafePlainObject (fst (vn_disclosureSnapshot v))
         (snd (vn_disclosureSnapshot v)) [])) (\<lambda>_.
     ebind (insert_row (\<lambda>x y. vn_id x = vn_id y \<or>
         vn_rfqId x = vn_rfqId y \<and> vn_versionNumber x = vn_versionNumber y) v (mk_rfqVersions db)) (\<lambda>rows.
       Inr (db\<lparr>mk_rfqVersions := rows\<rparr>)))"

definition recipient_findByRfqAndProviderOrg :: "MarketStore \<Rightarrow> string \<Rightarrow> string \<Rightarrow> RFQRecipient option" where
  "recipient_findByRfqAndProviderOrg db i org =
     find (\<lambda>c. rc_rfqId c = i \<and> rc_providerOrgId c = org) (mk_recipients db)"

definition recipient_listByRfq :: "MarketStore \<Rightarrow> string \<Rightarrow> RFQRecipient list" where
  "recipient_listByRfq db i = filter (\<lambda>c. rc_rfqId c = i) (mk_recipients db)"

definition recipient_insert :: "RFQRecipient \<Rightarrow> MarketStore \<Rightarrow> DbError + MarketStore" where
  "recipient_insert c db =
     ebind (insert_row (\<lambda>x y. rc_id x = rc_id y \<or>
         rc_rfqId x = rc_rfqId y \<and> rc_providerOrgId x = rc_providerOrgId y) c (mk_recipients db)) (\<lambda>rows.
       Inr (db\<lparr>mk_recipients := rows\<rparr>))"

text \<open>An empty or absent \<open>declineReason\<close> leaves the column as it was.\<close>

definition recipient_updateState ::
  "string \<Rightarrow> RfqRecipientState \<Rightarrow> string option \<Rightarrow> string option \<Rightarrow> MarketStore \<Rightarrow>
   DbError + RFQRecipient \<times> MarketStore" where
  "recipient_updateState i state by declineReason db =
     ebind (update_by rc_id i
         (\<lambda>c. c\<lparr>rc_state := state, rc_updatedByUserId := by, rc_version := rc_version c + 1,
            rc_declineReason := (if truthy declineReason then declineReason else rc_declineReason c)\<rparr>)
         (mk_recipients db)) (\<lambda>(c, rows).
       Inr (c, db\<lparr>mk_recipients := rows\<rparr>))"

section \<open>Quotes\<close>

definition quote_findById :: "MarketStore \<Rightarrow> string \<Rightarrow> Quote option" where
  "quote_findById db i = find_by qt_id i (mk_quotes db)"

definition quote_listByRfq :: "MarketStore \<Rightarrow> string \<Rightarrow> Quote list" where
  "quote_listByRfq db i =
     sort_key (\<lambda>q. (qt_providerOrgId q, qt_quoteVersion q)) (filter (\<lambda>q. qt_rfqId q = i) (mk_quotes db))"

definition nextQuoteVersion :: "MarketStore \<Rightarrow> string \<Rightarrow> int" where
  "nextQuoteVersion db i =
     (case sort_key (\<lambda>q. - qt_quoteVersion q) (filter (\<lambda>q. qt_rfqRecipientId q = i) (mk_quotes db)) of
        [] \<Rightarrow> 0 | latest # _ \<Rightarrow> qt_quoteVersion latest) + 1"

definition quote_insert :: "Quote \<Rightarrow> MarketStore \<Rightarrow> DbError + MarketStore" where
  "quote_insert q db =
     ebind (map_err JsonShape (assertJsonSafePlainObject (fst (qt_terms q)) (snd (qt_terms q)) [])) (\<lambda>_.
     ebind (insert_row (\<lambda>x y. qt_id x = qt_id y \<or>
         qt_rfqRecipientId x = qt_rfqRecipientId y \<and> qt_quoteVersion x = qt_quoteVersion y) q (mk_quotes db))
       (\<lambda>rows. Inr (db\<lparr>mk_quotes := rows\<rparr>)))"

definition quote_updateStatus ::
  "string \<Rightarrow> QuoteStatus \<Rightarrow> string option \<Rightarrow> MarketStore \<Rightarrow> DbError + Quote \<times> MarketStore" where
  "quote_updateStatus i status by db =
     ebind (update_by qt_id i
         (\<lambda>q. q\<lparr>qt_status := status, qt_updatedByUserId := by, qt_version := qt_version q + 1\<rparr>)
         (mk_quotes db)) (\<lambda>(q, rows).
       Inr (q, db\<lparr>mk_quotes := rows\<rparr>))"

section \<open>Deal rooms\<close>

definition dealRoomRow_findById :: "MarketStore \<Rightarrow> string \<Rightarrow> DealRoomRow option" where
  "dealRoomRow_findById db i = find_by dl_id i (mk_dealRooms db)"

definition dealRoom_listByOrg :: "MarketStore \<Rightarrow> string \<Rightarrow> DealRoomRow list" where
  "dealRoom_listByOrg db org =
     sort_key (\<lambda>d. - dl_createdAt d)
       (filter (\<lambda>d. dl_merchantOrgId d = org \<or> dl_providerOrgId d = org) (mk_dealRooms db))"

definition dealRoom_list :: "MarketStore \<Rightarrow> DealRoomRow list" where
  "dealRoom_list db = take 100 (sort_key (\<lambda>d. - dl_createdAt d) (mk_dealRooms db))"

definition dealRoom_insert :: "DealRoomRow \<Rightarrow> MarketStore \<Rightarrow> DbError + MarketStore" where
  "dealRoom_insert d db =
     ebind (insert_row (\<lambda>x y. dl_id x = dl_id y \<or> dl_rfqId x = dl_rfqId y \<or>
         dl_selectedQuoteId x = dl_selectedQuoteId y) d (mk_dealRooms db)) (\<lambda>rows.
       Inr (db\<lparr>mk_dealRooms := rows\<rparr>))"

definition dealRoom_updateStatus ::
  "string \<Rightarrow> DealRoomStatus \<Rightarrow> string option \<Rightarrow> MarketStore \<Rightarrow> DbError + DealRoomRow \<times> MarketStore" where
  "dealRoom_updateStatus i status by db =
     ebind (update_by dl_id i
         (\<lambda>d. d\<lparr>dl_status := status, dl_updatedByUserId := by, dl_version := dl_version d + 1\<rparr>)
         (mk_dealRooms db)) (\<lambda>(d, rows).
       Inr (d, db\<lparr>mk_dealRooms := rows\<rparr>))"

definition participant_findByDealRoomAndOrg :: "MarketStore \<Rightarrow> string \<Rightarrow> string \<Rightarrow> DealRoomParticipant option" where
  "participant_findByDealRoomAndOrg db d org =
     find (\<lambda>p. pt_dealRoomId p = d \<and> pt_organizationId p = org) (mk_participants db)"

definition participant_listByDealRoom :: "MarketStore \<Rightarrow> string \<Rightarrow> DealRoomParticipant list" where
  "participant_listByDealRoom db d = filter (\<lambda>p. pt_dealRoomId p = d) (mk_participants db)"

definition participant_insert :: "DealRoomParticipant \<Rightarrow> MarketStore \<Rightarrow> DbError + MarketStore" where
  "participant_insert p db =
     ebind (insert_row (\<lambda>x y. pt_id x = pt_id y \<or>
         pt_dealRoomId x = pt_dealRoomId y \<and> pt_organizationId x = pt_organizationId y) p (mk_participants db))
       (\<lambda>rows. Inr (db\<lparr>mk_participants := rows\<rparr>))"

definition condition_findById :: "MarketStore \<Rightarrow> string \<Rightarrow> DealCondition option" where
  "condition_findById db i = find_by dc_id i (mk_conditions db)"

definition condition_listByDealRoom :: "MarketStore \<Rightarrow> string \<Rightarrow> DealCondition list" where
  "condition_listByDealRoom db d = filter (\<lambda>c. dc_dealRoomId c = d) (mk_conditions db)"

definition condition_insert :: "DealCondition \<Rightarrow> MarketStore \<Rightarrow> DbError + MarketStore" where
  "condition_insert c db =
     ebind (insert_row (\<lambda>x y. dc_id x = dc_id y) c (mk_conditions db)) (\<lambda>rows.
       Inr (db\<lparr>mk_conditions := rows\<rparr>))"

definition condition_updateState ::
  "string \<Rightarrow> DealConditionState \<Rightarrow> string option \<Rightarrow> string option \<Rightarrow> MarketStore \<Rightarrow>
   DbError + DealCondition \<times> MarketStore" where
  "condition_updateState i state note by db =
     ebind (update_by dc_id i
         (\<lambda>c. c\<lparr>dc_state := state, dc_resolutionNote := note, dc_updatedByUserId := by,
            dc_version := dc_version c + 1\<rparr>) (mk_conditions db)) (\<lambda>(c, rows).
       Inr (c, db\<lparr>mk_conditions := rows\<rparr>))"

definition decision_listByDealRoom :: "MarketStore \<Rightarrow> string \<Rightarrow> DealDecision list" where
  "decision_listByDealRoom db d =
     sort_key dd_decidedAt (filter (\<lambda>x. dd_dealRoomId x = d) (mk_decisions db))"

definition decision_insert :: "DealDecision \<Rightarrow> MarketStore \<Rightarrow> DbError + MarketStore" where
  "decision_insert x db =
     ebind (insert_row (\<lambda>x y. dd_id x = dd_id y) x (mk_decisions db)) (\<lambda>rows.
       Inr (db\<lparr>mk_decisions := rows\<rparr>))"

text \<open>The timeline of several aggregates in the order the events were written.\<close>

definition event_listByAggregates :: "MarketStore \<Rightarrow> (string \<times> string) list \<Rightarrow> DomainEvent list" where
  "event_listByAggregates db pairs =
     filter (\<lambda>e. (tl_aggregateType (event_input e), tl_aggregateId (event_input e)) \<in> set pairs) (bs_timeline db)"

end
