(* ===== verification/Rfq_Service.thy ===== *)
theory Rfq_Service
  imports Market_Store
begin

text \<open>
  \<open>apps/api/src/modules/rfqs/service.ts\<close> and the job \<open>apps/worker/src/jobs/rfq-expiry.job.ts\<close>.
  \<open>snap\<close> is the state the reads before the transaction saw, \<open>db\<close> the state at the time the
  advisory lock of the RFQ is granted; a result is the state the transaction commits. Requests were
  validated by the schemas of \<open>packages/contracts\<close>.
\<close>

section \<open>Requests and results\<close>

datatype RfqProblem = OpportunityNotReady OpportunityStatus | UnknownProviders

type_synonym rfq_failure = "(RfqProblem, DbError) failure"

record CreateRfqRequest =
  cr_opportunityId :: string
  cr_providerOrgIds :: "string list"
  cr_dueAt :: int
  cr_packetType :: "DisclosurePacketType option"
  cr_disclosureSnapshot :: json_input

record SubmitQuoteRequest =
  sq_currency :: string
  sq_validUntil :: int
  sq_terms :: json_input

record RfqDetail =
  rd_rfq :: RFQ
  rd_merchantOrgId :: string
  rd_version :: "RFQVersion option"
  rd_recipients :: "RFQRecipient list"
  rd_quotes :: "Quote list"

definition CROSS_ORG_RFQ_ROLES :: "PersonaRole list" where
  "CROSS_ORG_RFQ_ROLES = [PLATFORM_OWNER, MARKETPLACE_OPERATOR, COMPLIANCE_REVIEWER, AUDITOR_READONLY]"

section \<open>Shared reads\<close>

text \<open>The first reads of every operation on one RFQ: the RFQ and its opportunity.\<close>

definition loadRfq :: "MarketStore \<Rightarrow> string \<Rightarrow> rfq_failure + RFQ \<times> Opportunity" where
  "loadRfq db rfqId =
     ebind (require (rfq_findById db rfqId) (Problem notFound)) (\<lambda>rfq.
     ebind (require (opportunity_findById db (rf_opportunityId rfq)) (Problem internal)) (\<lambda>opportunity.
     Inr (rfq, opportunity)))"

definition recipientOf :: "MarketStore \<Rightarrow> string \<Rightarrow> Actor \<Rightarrow> RFQRecipient option" where
  "recipientOf db rfqId actor =
     (if truthy (organizationId actor) then recipient_findByRfqAndProviderOrg db rfqId (the (organizationId actor))
      else None)"

definition as_participant :: "bool \<Rightarrow> AuthContext" where
  "as_participant p = \<lparr>isSelf = False, isParticipant = p\<rparr>"

section \<open>Reading\<close>

definition rfqs_getById :: "Actor \<Rightarrow> string \<Rightarrow> MarketStore \<Rightarrow> rfq_failure + RfqDetail" where
  "rfqs_getById actor i db =
     ebind (loadRfq db i) (\<lambda>(rfq, opportunity).
     ebind (authorize actor A_rfq_read R_rfq (Some (op_ownerOrgId opportunity))
       (as_participant (recipientOf db i actor \<noteq> None))) (\<lambda>_.
     Inr \<lparr>rd_rfq = rfq, rd_merchantOrgId = op_ownerOrgId opportunity,
          rd_version = rfqVersion_findByRfqAndVersion db i (rf_currentVersionNumber rfq),
          rd_recipients = recipient_listByRfq db i, rd_quotes = quote_listByRfq db i\<rparr>))"

definition rfqs_list :: "Actor \<Rightarrow> MarketStore \<Rightarrow> rfq_failure + RFQ list" where
  "rfqs_list actor db =
     ebind (authorize actor A_rfq_list R_rfq (organizationId actor) (as_participant True)) (\<lambda>_.
     Inr (if role actor \<in> Some ` set CROSS_ORG_RFQ_ROLES then rfq_list db
          else if role actor = Some ACQUIRER_PROVIDER_USER \<and> truthy (organizationId actor)
          then rfq_listByInvitedProvider db (the (organizationId actor))
          else if truthy (organizationId actor)
          then concat (map (\<lambda>opp. rfq_listByOpportunity db (op_id opp))
                 (opportunity_listByOwnerOrg db (the (organizationId actor))))
          else []))"

text \<open>Which quotes of an RFQ a viewer is shown (\<open>mapper.ts\<close>) and the handler of \<open>GET /rfqs/:id\<close>.\<close>

definition filterQuotesForViewer :: "Actor \<Rightarrow> string \<Rightarrow> Quote list \<Rightarrow> Quote list" where
  "filterQuotesForViewer actor merchantOrgId quotes =
     (if organizationId actor = Some merchantOrgId \<or> role actor \<in> Some ` set CROSS_ORG_RFQ_ROLES then quotes
      else filter (\<lambda>q. Some (qt_providerOrgId q) = organizationId actor) quotes)"

definition getRfqRoute :: "Actor \<Rightarrow> string \<Rightarrow> MarketStore \<Rightarrow> rfq_failure + RfqDetail" where
  "getRfqRoute actor i db =
     ebind (rfqs_getById actor i db) (\<lambda>detail.
     Inr (detail\<lparr>rd_quotes := filterQuotesForViewer actor (rd_merchantOrgId detail) (rd_quotes detail)\<rparr>))"

section \<open>Creating an RFQ\<close>

fun invite ::
  "Env \<Rightarrow> Actor \<Rightarrow> string \<Rightarrow> string list \<Rightarrow> MarketStore \<Rightarrow> DbError + RFQRecipient list \<times> MarketStore" where
  "invite env actor rfqId [] db = Inr ([], db)"
| "invite env actor rfqId (org # orgs) db =
     (let (i, db) = next_id env db;
          row = \<lparr>rc_id = i, rc_rfqId = rfqId, rc_providerOrgId = org, rc_state = Rcp_INVITED,
            rc_declineReason = None, rc_createdByUserId = Some (userId actor),
            rc_createdByOrgId = organizationId actor, rc_updatedByUserId = None, rc_version = 1\<rparr>
      in
      ebind (recipient_insert row db) (\<lambda>db.
      ebind (invite env actor rfqId orgs db) (\<lambda>(rows, db). Inr (row # rows, db))))"

definition new_rfq :: "Env \<Rightarrow> Actor \<Rightarrow> string \<Rightarrow> CreateRfqRequest \<Rightarrow> string \<Rightarrow> RFQ" where
  "new_rfq env actor i inp opportunityId =
     \<lparr>rf_id = i, rf_opportunityId = opportunityId, rf_status = Rfq_SENT, rf_dueAt = cr_dueAt inp,
      rf_currentVersionNumber = 1, rf_createdByUserId = Some (userId actor),
      rf_createdByOrgId = organizationId actor, rf_updatedByUserId = None, rf_version = 1,
      rf_createdAt = clock env\<rparr>"

definition first_version :: "Actor \<Rightarrow> string \<Rightarrow> string \<Rightarrow> CreateRfqRequest \<Rightarrow> RFQVersion" where
  "first_version actor i rfqId inp =
     \<lparr>vn_id = i, vn_rfqId = rfqId, vn_versionNumber = 1,
      vn_packetType = (case cr_packetType inp of None \<Rightarrow> Packet_QUALIFIED_RFQ | Some p \<Rightarrow> p),
      vn_disclosureSnapshot = cr_disclosureSnapshot inp, vn_changeSummary = None,
      vn_createdByUserId = Some (userId actor), vn_createdByOrgId = organizationId actor\<rparr>"

definition markInvited :: "Actor \<Rightarrow> Opportunity \<Rightarrow> MarketStore \<Rightarrow> rfq_failure + MarketStore" where
  "markInvited actor opportunity db =
     (if op_status opportunity = Opp_MATCH_READY
      then ebind (domain (assertValidOpportunityTransition ''MATCH_READY'' ''INVITED'')) (\<lambda>_.
           ebind (dbe (opportunity_updateStatus (op_id opportunity) Opp_INVITED (Some (userId actor)) db))
             (\<lambda>(_, db). Inr db))
      else Inr db)"

text \<open>The expiry timer is enqueued after the commit.\<close>

definition rfqs_create ::
  "Env \<Rightarrow> Actor \<Rightarrow> CreateRfqRequest \<Rightarrow> RequestContext \<Rightarrow> MarketStore \<Rightarrow> MarketStore \<Rightarrow>
   rfq_failure + RfqDetail \<times> MarketStore" where
  "rfqs_create env actor inp ctx snap db =
     ebind (require (opportunity_findById snap (cr_opportunityId inp)) (Problem notFound)) (\<lambda>opportunity.
     ebind (authorize actor A_rfq_create R_rfq (Some (op_ownerOrgId opportunity)) no_context) (\<lambda>_.
     ebind (throw_if (op_status opportunity \<noteq> Opp_MATCH_READY \<and> op_status opportunity \<noteq> Opp_INVITED)
       (Problem (badRequest (OpportunityNotReady (op_status opportunity))))) (\<lambda>_.
     ebind (throw_if (length (organization_findManyByIds snap (cr_providerOrgIds inp)) \<noteq>
         length (cr_providerOrgIds inp)) (Problem (badRequest UnknownProviders))) (\<lambda>_.
     let (i, db) = next_id env db; rfq = new_rfq env actor i inp (op_id opportunity) in
     ebind (dbe (rfq_insert rfq db)) (\<lambda>db.
     let (k, db) = next_id env db; version = first_version actor k i inp in
     ebind (dbe (rfqVersion_insert version db)) (\<lambda>db.
     ebind (dbe (invite env actor i (cr_providerOrgIds inp) db)) (\<lambda>(recipients, db).
     ebind (markInvited actor opportunity db) (\<lambda>db.
     let db = write_audit env (Some ctx) (audit_by actor (Some (op_ownerOrgId opportunity)) ''rfq.created'' ''rfq'' i
           [(''opportunityId'', JStr (op_id opportunity)), (''providerOrgIds'', JStrs (cr_providerOrgIds inp)),
            (''dueAt'', JStr (toISOString env (rf_dueAt rfq)))]) db;
         db = write_event env (Some ctx) (event_by actor ''rfq.sent'' ''rfq'' i
           [(''opportunityId'', JStr (op_id opportunity)), (''recipientOrgIds'', JStrs (cr_providerOrgIds inp)),
            (''versionNumber'', JNum 1)]) db;
         db = db\<lparr>mk_expiryJobs := mk_expiryJobs db @ [(i, rf_dueAt rfq - clock env)]\<rparr>
     in Inr (\<lparr>rd_rfq = rfq, rd_merchantOrgId = op_ownerOrgId opportunity, rd_version = Some version,
              rd_recipients = recipients, rd_quotes = []\<rparr>, db)))))))))"

section \<open>Declining\<close>

definition rfqs_decline ::
  "Env \<Rightarrow> Actor \<Rightarrow> string \<Rightarrow> string \<Rightarrow> RequestContext \<Rightarrow> MarketStore \<Rightarrow> MarketStore \<Rightarrow>
   rfq_failure + RFQRecipient \<times> MarketStore" where
  "rfqs_decline env actor rfqId declineReason ctx snap db =
     ebind (loadRfq snap rfqId) (\<lambda>(rfq, opportunity).
     ebind (authorize actor A_rfq_decline R_rfq (Some (op_ownerOrgId opportunity))
       (as_participant (recipientOf snap rfqId actor \<noteq> None))) (\<lambda>_.
     ebind (require (recipientOf snap rfqId actor) (Problem notFound)) (\<lambda>recipient.
     ebind (domain (assertValidRfqRecipientTransition (rfqRecipientState_name (rc_state recipient)) ''DECLINED'')) (\<lambda>_.
     ebind (dbe (recipient_updateState (rc_id recipient) Rcp_DECLINED (Some (userId actor)) (Some declineReason) db))
       (\<lambda>(updated, db).
     let db = write_audit env (Some ctx) ((audit_by actor (Some (op_ownerOrgId opportunity)) ''rfq.declined'' ''rfq''
           (rf_id rfq) [(''providerOrgId'', JStr (rc_providerOrgId recipient))])\<lparr>au_reason := Some declineReason\<rparr>) db;
         db = write_event env (Some ctx) (event_by actor ''rfq.declined'' ''rfq'' (rf_id rfq)
           [(''providerOrgId'', JStr (rc_providerOrgId recipient)), (''declineReason'', JStr declineReason)]) db
     in Inr (updated, db))))))"

section \<open>Quoting\<close>

definition new_quote :: "Actor \<Rightarrow> string \<Rightarrow> string \<Rightarrow> string \<Rightarrow> int \<Rightarrow> SubmitQuoteRequest \<Rightarrow> Quote" where
  "new_quote actor i rfqId recipientId n inp =
     \<lparr>qt_id = i, qt_rfqId = rfqId, qt_rfqRecipientId = recipientId,
      qt_providerOrgId = the (organizationId actor), qt_quoteVersion = n, qt_currency = sq_currency inp,
      qt_status = Qt_SUBMITTED, qt_validUntil = sq_validUntil inp, qt_terms = sq_terms inp,
      qt_createdByUserId = Some (userId actor), qt_createdByOrgId = organizationId actor,
      qt_updatedByUserId = None, qt_version = 1\<rparr>"

text \<open>The three status changes a quote brings about.\<close>

definition markRecipientQuoted :: "Actor \<Rightarrow> RFQRecipient \<Rightarrow> MarketStore \<Rightarrow> rfq_failure + MarketStore" where
  "markRecipientQuoted actor recipient db =
     (if rc_state recipient \<noteq> Rcp_QUOTED
      then ebind (dbe (recipient_updateState (rc_id recipient) Rcp_QUOTED (Some (userId actor)) None db))
             (\<lambda>(_, db). Inr db)
      else Inr db)"

definition markRfqQuoted :: "Actor \<Rightarrow> RFQ \<Rightarrow> string \<Rightarrow> MarketStore \<Rightarrow> rfq_failure + MarketStore" where
  "markRfqQuoted actor freshRfq rfqId db =
     (if rf_status freshRfq \<noteq> Rfq_QUOTED
      then ebind (domain (assertValidRfqTransition (rfqStatus_name (rf_status freshRfq)) ''QUOTED'')) (\<lambda>_.
           ebind (dbe (rfq_updateStatus rfqId Rfq_QUOTED (Some (userId actor)) db)) (\<lambda>(_, db). Inr db))
      else Inr db)"

definition markOpportunityQuoted :: "Actor \<Rightarrow> Opportunity \<Rightarrow> MarketStore \<Rightarrow> rfq_failure + MarketStore" where
  "markOpportunityQuoted actor opportunity db =
     (if op_status opportunity = Opp_INVITED
      then ebind (domain (assertValidOpportunityTransition ''INVITED'' ''QUOTED'')) (\<lambda>_.
           ebind (dbe (opportunity_updateStatus (op_id opportunity) Opp_QUOTED (Some (userId actor)) db))
             (\<lambda>(_, db). Inr db))
      else Inr db)"

text \<open>The transaction, after the lock on the RFQ was granted.\<close>

definition submitQuoteTx ::
  "Env \<Rightarrow> Actor \<Rightarrow> RFQ \<Rightarrow> Opportunity \<Rightarrow> RFQRecipient \<Rightarrow> SubmitQuoteRequest \<Rightarrow> RequestContext \<Rightarrow> MarketStore \<Rightarrow>
   rfq_failure + Quote \<times> MarketStore" where
  "submitQuoteTx env actor rfq opportunity recipient inp ctx db =
     ebind (require (rfq_findById db (rf_id rfq)) (Problem internal)) (\<lambda>freshRfq.
     ebind (throw_if (rf_status freshRfq \<in> {Rfq_SELECTED, Rfq_DECLINED, Rfq_EXPIRED}) (Problem (conflict False))) (\<lambda>_.
     let n = nextQuoteVersion db (rc_id recipient); (i, db) = next_id env db;
         quote = new_quote actor i (rf_id rfq) (rc_id recipient) n inp in
     ebind (dbe (quote_insert quote db)) (\<lambda>db.
     ebind (markRecipientQuoted actor recipient db) (\<lambda>db.
     ebind (markRfqQuoted actor freshRfq (rf_id rfq) db) (\<lambda>db.
     ebind (markOpportunityQuoted actor opportunity db) (\<lambda>db.
     let payload = [(''quoteId'', JStr i), (''providerOrgId'', JStr (the (organizationId actor))),
           (''quoteVersion'', JNum n)];
         db = write_audit env (Some ctx) (audit_by actor (Some (op_ownerOrgId opportunity)) ''quote.submitted'' ''rfq''
           (rf_id rfq) payload) db;
         db = write_event env (Some ctx) (event_by actor ''quote.submitted'' ''rfq'' (rf_id rfq) payload) db
     in Inr (quote, db)))))))"

definition submitQuote ::
  "Env \<Rightarrow> Actor \<Rightarrow> string \<Rightarrow> SubmitQuoteRequest \<Rightarrow> RequestContext \<Rightarrow> MarketStore \<Rightarrow> MarketStore \<Rightarrow>
   rfq_failure + Quote \<times> MarketStore" where
  "submitQuote env actor rfqId inp ctx snap db =
     ebind (loadRfq snap rfqId) (\<lambda>(rfq, opportunity).
     ebind (authorize actor A_rfq_submit_quote R_rfq (Some (op_ownerOrgId opportunity))
       (as_participant (recipientOf snap rfqId actor \<noteq> None))) (\<lambda>_.
     ebind (require (recipientOf snap rfqId actor) (Problem notFound)) (\<lambda>recipient.
     ebind (domain (assertValidRfqRecipientTransition (rfqRecipientState_name (rc_state recipient)) ''QUOTED'')) (\<lambda>_.
     uniqueSafe (submitQuoteTx env actor rfq opportunity recipient inp ctx db)))))"

section \<open>Withdrawing a quote\<close>

definition withdrawQuote ::
  "Env \<Rightarrow> Actor \<Rightarrow> string \<Rightarrow> string \<Rightarrow> RequestContext \<Rightarrow> MarketStore \<Rightarrow> MarketStore \<Rightarrow>
   rfq_failure + Quote \<times> MarketStore" where
  "withdrawQuote env actor rfqId quoteId ctx snap db =
     ebind (loadRfq snap rfqId) (\<lambda>(rfq, opportunity).
     ebind (require (quote_findById snap quoteId) (Problem notFound)) (\<lambda>quote.
     ebind (throw_if (qt_rfqId quote \<noteq> rf_id rfq) (Problem notFound)) (\<lambda>_.
     ebind (authorize actor A_rfq_withdraw_quote R_rfq (Some (op_ownerOrgId opportunity))
       (as_participant (recipientOf snap rfqId actor \<noteq> None))) (\<lambda>_.
     ebind (throw_if (Some (qt_providerOrgId quote) \<noteq> organizationId actor)
       (Problem (forbidden TenantIsolation))) (\<lambda>_.
     ebind (domain (assertValidQuoteTransition (quoteStatus_name (qt_status quote)) ''WITHDRAWN'')) (\<lambda>_.
     ebind (require (quote_findById db (qt_id quote)) (Problem internal)) (\<lambda>freshQuote.
     ebind (domain (assertValidQuoteTransition (quoteStatus_name (qt_status freshQuote)) ''WITHDRAWN'')) (\<lambda>_.
     ebind (dbe (quote_updateStatus (qt_id quote) Qt_WITHDRAWN (Some (userId actor)) db)) (\<lambda>(updated, db).
     let db = write_audit env (Some ctx) (audit_by actor (Some (op_ownerOrgId opportunity)) ''quote.withdrawn'' ''rfq''
           (rf_id rfq) [(''quoteId'', JStr (qt_id quote))]) db;
         db = write_event env (Some ctx) (event_by actor ''quote.withdrawn'' ''rfq'' (rf_id rfq)
           [(''quoteId'', JStr (qt_id quote)), (''providerOrgId'', JStr (qt_providerOrgId quote))]) db
     in Inr (updated, db))))))))))"

section \<open>Selecting a quote\<close>

definition new_dealRoom :: "Env \<Rightarrow> Actor \<Rightarrow> string \<Rightarrow> Opportunity \<Rightarrow> RFQ \<Rightarrow> Quote \<Rightarrow> DealRoomRow" where
  "new_dealRoom env actor i opportunity rfq quote =
     \<lparr>dl_id = i, dl_opportunityId = op_id opportunity, dl_rfqId = rf_id rfq, dl_selectedQuoteId = qt_id quote,
      dl_merchantOrgId = op_ownerOrgId opportunity, dl_providerOrgId = qt_providerOrgId quote,
      dl_status = Deal_OPEN, dl_createdByUserId = Some (userId actor),
      dl_createdByOrgId = organizationId actor, dl_updatedByUserId = None, dl_version = 1,
      dl_createdAt = clock env\<rparr>"

definition new_participant :: "Actor \<Rightarrow> string \<Rightarrow> string \<Rightarrow> string \<Rightarrow> DealParticipantRole \<Rightarrow> DealRoomParticipant" where
  "new_participant actor i room org r =
     \<lparr>pt_id = i, pt_dealRoomId = room, pt_organizationId = org, pt_participantRole = r,
      pt_createdByUserId = Some (userId actor), pt_createdByOrgId = organizationId actor\<rparr>"

text \<open>The writes of the transaction after the three status changes: the deal room, its two
  participants, the decision, the audit record and the five timeline events.\<close>

definition openDealRoom ::
  "Env \<Rightarrow> Actor \<Rightarrow> Opportunity \<Rightarrow> RFQ \<Rightarrow> Quote \<Rightarrow> string \<Rightarrow> string list \<Rightarrow> RequestContext \<Rightarrow> MarketStore \<Rightarrow>
   DbError + DealRoomRow \<times> MarketStore" where
  "openDealRoom env actor opportunity rfq selected reason considered ctx db =
     (let (i, db) = next_id env db;
          merchant = op_ownerOrgId opportunity; provider = qt_providerOrgId selected;
          room = new_dealRoom env actor i opportunity rfq selected in
      ebind (dealRoom_insert room db) (\<lambda>db.
      let (m, db) = next_id env db in
      ebind (participant_insert (new_participant actor m i merchant Party_MERCHANT) db) (\<lambda>db.
      let (p, db) = next_id env db in
      ebind (participant_insert (new_participant actor p i provider Party_PROVIDER) db) (\<lambda>db.
      let (d, db) = next_id env db in
      ebind (decision_insert
        \<lparr>dd_id = d, dd_dealRoomId = i, dd_decisionType = Dec_QUOTE_SELECTED, dd_reason = reason,
         dd_relatedQuoteId = Some (qt_id selected),
         dd_comparisonSnapshot = Some [(''consideredQuoteIds'', JStrs considered),
           (''selectedQuoteId'', JStr (qt_id selected))],
         dd_actorUserId = Some (userId actor), dd_actorOrgId = organizationId actor,
         dd_actorRole = role actor, dd_decidedAt = clock env\<rparr> db) (\<lambda>db.
      let db = write_audit env (Some ctx) ((audit_by actor (Some merchant) ''rfq.quote_selected'' ''rfq'' (rf_id rfq)
            [(''selectedQuoteId'', JStr (qt_id selected)), (''dealRoomId'', JStr i)])\<lparr>au_reason := Some reason\<rparr>) db;
          db = write_event env (Some ctx) (event_by actor ''quote.selected'' ''rfq'' (rf_id rfq)
            [(''quoteId'', JStr (qt_id selected)), (''dealRoomId'', JStr i)]) db;
          db = write_event env (Some ctx) (event_by actor ''deal.opened'' ''deal_room'' i
            [(''opportunityId'', JStr (op_id opportunity)), (''rfqId'', JStr (rf_id rfq)),
             (''selectedQuoteId'', JStr (qt_id selected)), (''merchantOrgId'', JStr merchant),
             (''providerOrgId'', JStr provider)]) db;
          db = write_event env (Some ctx) (event_by actor ''deal.participant_added'' ''deal_room'' i
            [(''organizationId'', JStr merchant), (''participantRole'', JStr ''MERCHANT'')]) db;
          db = write_event env (Some ctx) (event_by actor ''deal.participant_added'' ''deal_room'' i
            [(''organizationId'', JStr provider), (''participantRole'', JStr ''PROVIDER'')]) db;
          db = write_event env (Some ctx) (event_by actor ''deal.decision_recorded'' ''deal_room'' i
            [(''decisionId'', JStr d), (''decisionType'', JStr ''QUOTE_SELECTED''),
             (''relatedQuoteId'', JStr (qt_id selected))]) db
      in Inr (room, db))))))"

definition selectQuoteTx ::
  "Env \<Rightarrow> Actor \<Rightarrow> Opportunity \<Rightarrow> RFQ \<Rightarrow> Quote \<Rightarrow> string \<Rightarrow> string list \<Rightarrow> RequestContext \<Rightarrow> MarketStore \<Rightarrow>
   rfq_failure + DealRoomRow \<times> MarketStore" where
  "selectQuoteTx env actor opportunity rfq quote reason considered ctx db =
     ebind (require (quote_findById db (qt_id quote)) (Problem internal)) (\<lambda>freshQuote.
     ebind (domain (assertValidQuoteTransition (quoteStatus_name (qt_status freshQuote)) ''SELECTED'')) (\<lambda>_.
     ebind (dbe (quote_updateStatus (qt_id quote) Qt_SELECTED (Some (userId actor)) db)) (\<lambda>(selected, db).
     ebind (dbe (rfq_updateStatus (rf_id rfq) Rfq_SELECTED (Some (userId actor)) db)) (\<lambda>(_, db).
     ebind (dbe (opportunity_updateStatus (op_id opportunity) Opp_SELECTED (Some (userId actor)) db)) (\<lambda>(_, db).
     dbe (openDealRoom env actor opportunity rfq selected reason considered ctx db))))))"

definition selectQuote ::
  "Env \<Rightarrow> Actor \<Rightarrow> string \<Rightarrow> string \<Rightarrow> string \<Rightarrow> RequestContext \<Rightarrow> MarketStore \<Rightarrow> MarketStore \<Rightarrow>
   rfq_failure + DealRoomRow \<times> MarketStore" where
  "selectQuote env actor rfqId quoteId reason ctx snap db =
     ebind (loadRfq snap rfqId) (\<lambda>(rfq, opportunity).
     ebind (authorize actor A_rfq_select_quote R_rfq (Some (op_ownerOrgId opportunity)) no_context) (\<lambda>_.
     ebind (require (quote_findById snap quoteId) (Problem notFound)) (\<lambda>quote.
     ebind (throw_if (qt_rfqId quote \<noteq> rf_id rfq) (Problem notFound)) (\<lambda>_.
     ebind (domain (assertValidQuoteTransition (quoteStatus_name (qt_status quote)) ''SELECTED'')) (\<lambda>_.
     ebind (domain (assertValidRfqTransition (rfqStatus_name (rf_status rfq)) ''SELECTED'')) (\<lambda>_.
     ebind (domain (assertValidOpportunityTransition (opportunityStatus_name (op_status opportunity)) ''SELECTED'')) (\<lambda>_.
     uniqueSafe (selectQuoteTx env actor opportunity rfq quote reason
       (map qt_id (quote_listByRfq snap (rf_id rfq))) ctx db))))))))"

section \<open>The expiry job\<close>

record RfqExpiryJobResult =
  ex_scanned :: nat
  ex_expired :: nat

definition system_audit :: "string \<Rightarrow> string \<Rightarrow> string \<Rightarrow> (string \<times> jvalue) list \<Rightarrow> AuditWriteInput" where
  "system_audit act resType resId after =
     \<lparr>au_actorUserId = None, au_actorOrgId = None, au_actorRole = None, au_subjectOrgId = None,
      au_action = act, au_resourceType = resType, au_resourceId = Some resId, au_beforeValue = None,
      au_afterValue = Some after, au_reason = None\<rparr>"

definition system_event :: "string \<Rightarrow> string \<Rightarrow> string \<Rightarrow> (string \<times> jvalue) list \<Rightarrow> TimelineWriteInput" where
  "system_event etype atype aid payload =
     \<lparr>tl_eventType = etype, tl_aggregateType = atype, tl_aggregateId = aid, tl_payload = payload,
      tl_actorUserId = None, tl_actorOrgId = None, tl_actorRole = None\<rparr>"

text \<open>The handler that runs under the key of the job.\<close>

definition expire_handler ::
  "Env \<Rightarrow> string \<Rightarrow> RfqStatus \<Rightarrow> string \<Rightarrow> MarketStore \<Rightarrow> job_error + unit \<times> MarketStore" where
  "expire_handler env rfqId fromStatus dueAt db =
     ebind (map_err (\<lambda>_. JobFailed ''transition'') (assertValidRfqTransition (rfqStatus_name fromStatus) ''EXPIRED'')) (\<lambda>_.
     ebind (map_err (\<lambda>_. JobFailed ''store'') (rfq_updateStatus rfqId Rfq_EXPIRED None db)) (\<lambda>(_, db).
     let payload = [(''from'', JStr (rfqStatus_name fromStatus)), (''dueAt'', JStr dueAt)];
         db = write_audit env None (system_audit ''rfq.expired'' ''rfq'' rfqId payload) db;
         db = write_event env None (system_event ''rfq.expired'' ''rfq'' rfqId payload) db
     in Inr ((), db)))"

text \<open>\<open>hashPayload\<close> is the digest of the request payload; \<open>db\<close> is the state after the lock was
  granted. The identifier of the key row is drawn when the key is reserved.\<close>

definition expireOne ::
  "Env \<Rightarrow> (string list \<Rightarrow> string) \<Rightarrow> string \<Rightarrow> string \<Rightarrow> MarketStore \<Rightarrow> job_error + bool \<times> MarketStore" where
  "expireOne env hashPayload rfqId dueAtForKey db =
     (case rfq_findById db rfqId of
        None \<Rightarrow> Inr (False, db)
      | Some fresh \<Rightarrow>
          if rf_status fresh \<notin> set EXPIRABLE_STATUSES then Inr (False, db)
          else
            ebind (withJobIdempotency (uuid env (bs_ids db + 2)) (clock env) ''worker.rfq-expiry''
              (rfqId @ '':'' @ dueAtForKey)
              (hashPayload [rfqId, dueAtForKey, rfqStatus_name (rf_status fresh)])
              (expire_handler env rfqId (rf_status fresh) dueAtForKey) (mk_jobKeys db) db)
              (\<lambda>(keys, db', _). Inr (True, db'\<lparr>mk_jobKeys := keys,
                 bs_ids := (if length keys = length (mk_jobKeys db) then bs_ids db' else Suc (bs_ids db'))\<rparr>)))"

text \<open>The job for one RFQ; the due date is read before the lock.\<close>

definition rfqExpiryJob ::
  "Env \<Rightarrow> (string list \<Rightarrow> string) \<Rightarrow> string \<Rightarrow> MarketStore \<Rightarrow> MarketStore \<Rightarrow>
   job_error + RfqExpiryJobResult \<times> MarketStore" where
  "rfqExpiryJob env hashPayload rfqId snap db =
     (case rfq_findById snap rfqId of
        None \<Rightarrow> Inr (\<lparr>ex_scanned = 0, ex_expired = 0\<rparr>, db)
      | Some rfq \<Rightarrow>
          if rf_dueAt rfq > clock env then Inr (\<lparr>ex_scanned = 1, ex_expired = 0\<rparr>, db)
          else ebind (expireOne env hashPayload rfqId (toISOString env (rf_dueAt rfq)) db) (\<lambda>(done, db).
                 Inr (\<lparr>ex_scanned = 1, ex_expired = (if done then 1 else 0)\<rparr>, db)))"

text \<open>The sweep over the overdue RFQs: every one in a transaction of its own, so other requests may
  commit in between; \<open>between k\<close> is what they do before the \<open>k\<close>-th of them.\<close>

fun sweep ::
  "Env \<Rightarrow> (string list \<Rightarrow> string) \<Rightarrow> (nat \<Rightarrow> MarketStore \<Rightarrow> MarketStore) \<Rightarrow> nat \<Rightarrow> RFQ list \<Rightarrow> MarketStore \<Rightarrow>
   job_error + nat \<times> MarketStore" where
  "sweep env hashPayload between n [] db = Inr (n, db)"
| "sweep env hashPayload between n (rfq # rest) db =
     ebind (expireOne env hashPayload (rf_id rfq) (toISOString env (rf_dueAt rfq)) (between (length rest) db))
       (\<lambda>(done, db). sweep env hashPayload between (if done then n + 1 else n) rest db)"

definition rfqExpirySweep ::
  "Env \<Rightarrow> (string list \<Rightarrow> string) \<Rightarrow> (nat \<Rightarrow> MarketStore \<Rightarrow> MarketStore) \<Rightarrow> MarketStore \<Rightarrow>
   job_error + RfqExpiryJobResult \<times> MarketStore" where
  "rfqExpirySweep env hashPayload between db =
     (let overdue = rfq_listOverdue db (clock env) 500 in
      ebind (sweep env hashPayload between 0 overdue db) (\<lambda>(n, db).
        Inr (\<lparr>ex_scanned = length overdue, ex_expired = n\<rparr>, db)))"

end
