(* ===== verification/Deal_Service.thy ===== *)
theory Deal_Service
  imports Market_Store
begin

text \<open>
  \<open>apps/api/src/modules/deals/service.ts\<close>: the deal room and its conditions and decisions. \<open>snap\<close>
  is the state the reads before the transaction saw, \<open>db\<close> the state at the time the advisory lock
  of the deal room is granted.
\<close>

section \<open>Requests and results\<close>

datatype DealProblem = OwnerNotCounterparty

type_synonym deal_failure = "(DealProblem, DbError) failure"

record PostConditionRequest =
  pc_description :: string
  pc_ownerOrgId :: string
  pc_evidenceRef :: "string option"
  pc_dueAt :: "int option"
  pc_blocking :: "bool option"

record DealRoomDetail =
  dt_dealRoom :: DealRoomRow
  dt_participants :: "DealRoomParticipant list"
  dt_conditions :: "DealCondition list"
  dt_decisions :: "DealDecision list"

definition CROSS_ORG_DEAL_ROLES :: "PersonaRole list" where
  "CROSS_ORG_DEAL_ROLES = [PLATFORM_OWNER, MARKETPLACE_OPERATOR, COMPLIANCE_REVIEWER, AUDITOR_READONLY]"

section \<open>Loading and authorizing\<close>

definition loadDealRoomAndAuthContext ::
  "Actor \<Rightarrow> string \<Rightarrow> MarketStore \<Rightarrow> deal_failure + DealRoomRow \<times> bool" where
  "loadDealRoomAndAuthContext actor dealRoomId db =
     ebind (require (dealRoomRow_findById db dealRoomId) (Problem notFound)) (\<lambda>dealRoom.
     Inr (dealRoom, truthy (organizationId actor) \<and>
       participant_findByDealRoomAndOrg db dealRoomId (the (organizationId actor)) \<noteq> None))"

definition dealRoomFor ::
  "Actor \<Rightarrow> Action \<Rightarrow> string \<Rightarrow> MarketStore \<Rightarrow> deal_failure + DealRoomRow" where
  "dealRoomFor actor action dealRoomId db =
     ebind (loadDealRoomAndAuthContext actor dealRoomId db) (\<lambda>(dealRoom, participant).
     ebind (authorize actor action R_deal_room (Some (dl_merchantOrgId dealRoom))
       \<lparr>isSelf = False, isParticipant = participant\<rparr>) (\<lambda>_.
     Inr dealRoom))"

section \<open>Reading\<close>

definition deals_getById :: "Actor \<Rightarrow> string \<Rightarrow> MarketStore \<Rightarrow> deal_failure + DealRoomDetail" where
  "deals_getById actor i db =
     ebind (dealRoomFor actor A_deal_read i db) (\<lambda>dealRoom.
     Inr \<lparr>dt_dealRoom = dealRoom, dt_participants = participant_listByDealRoom db i,
          dt_conditions = condition_listByDealRoom db i, dt_decisions = decision_listByDealRoom db i\<rparr>)"

definition deals_list :: "Actor \<Rightarrow> MarketStore \<Rightarrow> deal_failure + DealRoomRow list" where
  "deals_list actor db =
     ebind (authorize actor A_deal_list R_deal_room (organizationId actor)
       \<lparr>isSelf = False, isParticipant = True\<rparr>) (\<lambda>_.
     Inr (if role actor \<in> Some ` set CROSS_ORG_DEAL_ROLES then dealRoom_list db
          else if truthy (organizationId actor) then dealRoom_listByOrg db (the (organizationId actor))
          else []))"

definition getTimeline :: "Actor \<Rightarrow> string \<Rightarrow> MarketStore \<Rightarrow> deal_failure + DomainEvent list" where
  "getTimeline actor i db =
     ebind (dealRoomFor actor A_deal_read i db) (\<lambda>dealRoom.
     Inr (event_listByAggregates db [(''deal_room'', dl_id dealRoom), (''rfq'', dl_rfqId dealRoom)]))"

section \<open>Posting a condition\<close>

definition new_condition :: "Actor \<Rightarrow> string \<Rightarrow> string \<Rightarrow> PostConditionRequest \<Rightarrow> DealCondition" where
  "new_condition actor i dealRoomId inp =
     \<lparr>dc_id = i, dc_dealRoomId = dealRoomId, dc_description = pc_description inp,
      dc_ownerOrgId = pc_ownerOrgId inp, dc_evidenceRef = pc_evidenceRef inp, dc_dueAt = pc_dueAt inp,
      dc_state = Cond_PENDING, dc_blocking = (case pc_blocking inp of None \<Rightarrow> True | Some b \<Rightarrow> b),
      dc_resolutionNote = None, dc_createdByUserId = Some (userId actor),
      dc_createdByOrgId = organizationId actor, dc_updatedByUserId = None, dc_version = 1\<rparr>"

definition stage_event :: "Actor \<Rightarrow> string \<Rightarrow> DealRoomStatus \<Rightarrow> DealRoomStatus \<Rightarrow> TimelineWriteInput" where
  "stage_event actor dealRoomId from to =
     event_by actor ''deal.stage_changed'' ''deal_room'' dealRoomId
       [(''from'', JStr (dealRoomStatus_name from)), (''to'', JStr (dealRoomStatus_name to))]"

text \<open>The first condition moves an open deal room to \<open>CONDITIONS\<close>.\<close>

definition openConditions :: "Actor \<Rightarrow> DealRoomRow \<Rightarrow> MarketStore \<Rightarrow> deal_failure + bool \<times> MarketStore" where
  "openConditions actor fresh db =
     (if dl_status fresh = Deal_OPEN
      then ebind (domain (assertValidDealRoomTransition ''OPEN'' ''CONDITIONS'')) (\<lambda>_.
           ebind (dbe (dealRoom_updateStatus (dl_id fresh) Deal_CONDITIONS (Some (userId actor)) db))
             (\<lambda>(_, db). Inr (True, db)))
      else Inr (False, db))"

definition postCondition ::
  "Env \<Rightarrow> Actor \<Rightarrow> string \<Rightarrow> PostConditionRequest \<Rightarrow> RequestContext \<Rightarrow> MarketStore \<Rightarrow> MarketStore \<Rightarrow>
   deal_failure + DealCondition \<times> MarketStore" where
  "postCondition env actor dealRoomId inp ctx snap db =
     ebind (dealRoomFor actor A_deal_post_condition dealRoomId snap) (\<lambda>dealRoom.
     ebind (throw_if (pc_ownerOrgId inp \<noteq> dl_merchantOrgId dealRoom \<and> pc_ownerOrgId inp \<noteq> dl_providerOrgId dealRoom)
       (Problem (badRequest OwnerNotCounterparty))) (\<lambda>_.
     let (i, db) = next_id env db; condition = new_condition actor i (dl_id dealRoom) inp in
     ebind (dbe (condition_insert condition db)) (\<lambda>db.
     ebind (require (dealRoomRow_findById db (dl_id dealRoom)) (Problem internal)) (\<lambda>fresh.
     ebind (openConditions actor fresh db) (\<lambda>(stageChanged, db).
     let payload = [(''conditionId'', JStr i), (''ownerOrgId'', JStr (dc_ownerOrgId condition)),
           (''blocking'', JBool (dc_blocking condition))];
         db = write_audit env (Some ctx) (audit_by actor (Some (dl_merchantOrgId dealRoom)) ''deal.condition_posted''
           ''deal_room'' (dl_id dealRoom) payload) db;
         db = write_event env (Some ctx) (event_by actor ''deal.condition_created'' ''deal_room'' (dl_id dealRoom)
           payload) db;
         db = (if stageChanged
               then write_event env (Some ctx) (stage_event actor (dl_id dealRoom) Deal_OPEN Deal_CONDITIONS) db
               else db)
     in Inr (condition, db))))))"

section \<open>Resolving a condition\<close>

definition resolveCondition ::
  "Env \<Rightarrow> Actor \<Rightarrow> string \<Rightarrow> string \<Rightarrow> DealConditionState \<Rightarrow> string option \<Rightarrow> RequestContext \<Rightarrow>
   MarketStore \<Rightarrow> MarketStore \<Rightarrow> deal_failure + DealCondition \<times> MarketStore" where
  "resolveCondition env actor dealRoomId conditionId state note ctx snap db =
     ebind (dealRoomFor actor A_deal_resolve_condition dealRoomId snap) (\<lambda>dealRoom.
     ebind (require (condition_findById snap conditionId) (Problem notFound)) (\<lambda>condition.
     ebind (throw_if (dc_dealRoomId condition \<noteq> dl_id dealRoom) (Problem notFound)) (\<lambda>_.
     ebind (domain (assertValidDealConditionTransition (dealConditionState_name (dc_state condition))
       (dealConditionState_name state))) (\<lambda>_.
     ebind (require (condition_findById db (dc_id condition)) (Problem internal)) (\<lambda>fresh.
     ebind (domain (assertValidDealConditionTransition (dealConditionState_name (dc_state fresh))
       (dealConditionState_name state))) (\<lambda>_.
     ebind (dbe (condition_updateState (dc_id condition) state note (Some (userId actor)) db)) (\<lambda>(updated, db).
     let db = write_audit env (Some ctx) ((audit_by actor (Some (dl_merchantOrgId dealRoom))
           ''deal.condition_resolved'' ''deal_room'' (dl_id dealRoom)
           [(''state'', JStr (dealConditionState_name (dc_state updated)))])
           \<lparr>au_beforeValue := Some [(''state'', JStr (dealConditionState_name (dc_state condition)))],
            au_reason := note\<rparr>) db;
         db = write_event env (Some ctx) (event_by actor ''deal.condition_resolved'' ''deal_room'' (dl_id dealRoom)
           [(''conditionId'', JStr (dc_id updated)),
            (''state'', JStr (dealConditionState_name (dc_state updated)))]) db
     in Inr (updated, db))))))))"

section \<open>Recording a decision\<close>

definition computeNextStatus :: "DealDecisionType \<Rightarrow> DealRoomStatus \<Rightarrow> DealRoomStatus option" where
  "computeNextStatus decision current =
     (if decision = Dec_APPROVAL \<and> (current = Deal_OPEN \<or> current = Deal_CONDITIONS) then Some Deal_APPROVED
      else if decision = Dec_DECLINE \<and> (current = Deal_OPEN \<or> current = Deal_CONDITIONS) then Some Deal_DECLINED
      else None)"

definition checkNext :: "DealRoomStatus \<Rightarrow> DealRoomStatus option \<Rightarrow> deal_failure + unit" where
  "checkNext current nextStatus =
     (case nextStatus of
        None \<Rightarrow> Inr ()
      | Some s \<Rightarrow> domain (assertValidDealRoomTransition (dealRoomStatus_name current) (dealRoomStatus_name s)))"

definition moveDealRoom ::
  "Actor \<Rightarrow> string \<Rightarrow> DealRoomStatus option \<Rightarrow> MarketStore \<Rightarrow> deal_failure + MarketStore" where
  "moveDealRoom actor dealRoomId nextStatus db =
     (case nextStatus of
        None \<Rightarrow> Inr db
      | Some s \<Rightarrow> ebind (dbe (dealRoom_updateStatus dealRoomId s (Some (userId actor)) db)) (\<lambda>(_, db). Inr db))"

definition recordDecision ::
  "Env \<Rightarrow> Actor \<Rightarrow> string \<Rightarrow> DealDecisionType \<Rightarrow> string \<Rightarrow> RequestContext \<Rightarrow> MarketStore \<Rightarrow> MarketStore \<Rightarrow>
   deal_failure + DealDecision \<times> MarketStore" where
  "recordDecision env actor dealRoomId decisionType reason ctx snap db =
     ebind (dealRoomFor actor A_deal_record_decision dealRoomId snap) (\<lambda>dealRoom.
     ebind (checkNext (dl_status dealRoom) (computeNextStatus decisionType (dl_status dealRoom))) (\<lambda>_.
     ebind (require (dealRoomRow_findById db (dl_id dealRoom)) (Problem internal)) (\<lambda>fresh.
     let nextStatus = computeNextStatus decisionType (dl_status fresh) in
     ebind (checkNext (dl_status fresh) nextStatus) (\<lambda>_.
     let (i, db) = next_id env db;
         row = \<lparr>dd_id = i, dd_dealRoomId = dl_id dealRoom, dd_decisionType = decisionType, dd_reason = reason,
           dd_relatedQuoteId = None, dd_comparisonSnapshot = None, dd_actorUserId = Some (userId actor),
           dd_actorOrgId = organizationId actor, dd_actorRole = role actor, dd_decidedAt = clock env\<rparr>
     in
     ebind (dbe (decision_insert row db)) (\<lambda>db.
     ebind (moveDealRoom actor (dl_id dealRoom) nextStatus db) (\<lambda>db.
     let db = write_audit env (Some ctx) ((audit_by actor (Some (dl_merchantOrgId dealRoom))
           ''deal.decision_recorded'' ''deal_room'' (dl_id dealRoom)
           [(''decisionId'', JStr i), (''decisionType'', JStr (dealDecisionType_name decisionType)),
            (''nextStatus'', case nextStatus of None \<Rightarrow> JNull | Some s \<Rightarrow> JStr (dealRoomStatus_name s))])
           \<lparr>au_reason := Some reason\<rparr>) db;
         db = write_event env (Some ctx) (event_by actor ''deal.decision_recorded'' ''deal_room'' (dl_id dealRoom)
           [(''decisionId'', JStr i), (''decisionType'', JStr (dealDecisionType_name decisionType))]) db;
         db = (case nextStatus of
                 None \<Rightarrow> db
               | Some s \<Rightarrow> write_event env (Some ctx) (stage_event actor (dl_id dealRoom) (dl_status fresh) s) db)
     in Inr (row, db)))))))"

end
