(* ===== verification/Opportunity_Service.thy ===== *)
theory Opportunity_Service
  imports Market_Store Volume_Reconciliation
begin

text \<open>
  \<open>apps/api/src/modules/opportunities/service.ts\<close>: reading, creating and the volume breakdown of an
  opportunity. As in the economics module an operation takes the state its first reads saw
  (\<open>snap\<close>) and the state its transaction runs on (\<open>db\<close>). No operation of this file has a
  \<open>badRequest\<close> of its own.
\<close>

section \<open>Requests\<close>

record CreateOpportunityRequest =
  co_opportunityType :: string
  co_requestedService :: string
  co_currency :: string
  co_totalPaymentVolumeMinor :: "string option"
  co_totalCardGpvMinor :: "string option"
  co_eligibleCardGpvMinor :: "string option"
  co_offeredCardGpvMinor :: "string option"
  co_movableNowMinor :: "string option"
  co_movable30dMinor :: "string option"
  co_movable90dMinor :: "string option"
  co_jurisdictions :: "string list option"
  co_mccs :: "string list option"

record SliceRequest =
  sr_jurisdiction :: string
  sr_mcc :: string
  sr_cardOrigin :: string
  sr_channel :: string
  sr_amountMinor :: string
  sr_period :: string

type_synonym opp_failure = "(unit, DbError) failure"

definition CROSS_ORG_READ_ROLES :: "PersonaRole list" where
  "CROSS_ORG_READ_ROLES =
     [PLATFORM_OWNER, MARKETPLACE_OPERATOR, COMPLIANCE_REVIEWER, UNDERWRITING_ANALYST, AUDITOR_READONLY]"

section \<open>Operations\<close>

definition opportunities_getById :: "Actor \<Rightarrow> string \<Rightarrow> MarketStore \<Rightarrow> opp_failure + Opportunity" where
  "opportunities_getById actor i db =
     ebind (require (opportunity_findById db i) (Problem notFound)) (\<lambda>opportunity.
     ebind (authorize actor A_opportunity_read R_opportunity (Some (op_ownerOrgId opportunity)) no_context) (\<lambda>_.
     Inr opportunity))"

definition opportunities_list :: "Actor \<Rightarrow> MarketStore \<Rightarrow> opp_failure + Opportunity list" where
  "opportunities_list actor db =
     ebind (authorize actor A_opportunity_list R_opportunity (organizationId actor) no_context) (\<lambda>_.
     Inr (if role actor \<in> Some ` set CROSS_ORG_READ_ROLES then opportunity_list db
          else case organizationId actor of
                 None \<Rightarrow> []
               | Some org \<Rightarrow> if org = [] then [] else opportunity_listByOwnerOrg db org))"

text \<open>The first refusal of \<open>create\<close> has a message of its own but the same response.\<close>

definition opportunities_create ::
  "Env \<Rightarrow> Actor \<Rightarrow> CreateOpportunityRequest \<Rightarrow> RequestContext \<Rightarrow> MarketStore \<Rightarrow>
   opp_failure + Opportunity \<times> MarketStore" where
  "opportunities_create env actor inp ctx db =
     ebind (throw_if (\<not> truthy (organizationId actor)) (Problem (forbidden NoActiveMembership))) (\<lambda>_.
     ebind (authorize actor A_opportunity_create R_opportunity (organizationId actor) no_context) (\<lambda>_.
     ebind (cents (parseBigIntMinorUnits (co_totalPaymentVolumeMinor inp) ''totalPaymentVolumeMinor'')) (\<lambda>volume.
     ebind (cents (parseBigIntMinorUnits (co_totalCardGpvMinor inp) ''totalCardGpvMinor'')) (\<lambda>card.
     ebind (cents (parseBigIntMinorUnits (co_eligibleCardGpvMinor inp) ''eligibleCardGpvMinor'')) (\<lambda>eligible.
     ebind (cents (parseBigIntMinorUnits (co_offeredCardGpvMinor inp) ''offeredCardGpvMinor'')) (\<lambda>offered.
     ebind (cents (parseBigIntMinorUnits (co_movableNowMinor inp) ''movableNowMinor'')) (\<lambda>m0.
     ebind (cents (parseBigIntMinorUnits (co_movable30dMinor inp) ''movable30dMinor'')) (\<lambda>m30.
     ebind (cents (parseBigIntMinorUnits (co_movable90dMinor inp) ''movable90dMinor'')) (\<lambda>m90.
     let (i, db) = next_id env db;
         created = \<lparr>op_id = i, op_ownerOrgId = the (organizationId actor),
           op_opportunityType = co_opportunityType inp, op_requestedService = co_requestedService inp,
           op_status = Opp_DRAFT, op_currency = co_currency inp, op_totalPaymentVolumeMinor = volume,
           op_totalCardGpvMinor = card, op_eligibleCardGpvMinor = eligible,
           op_offeredCardGpvMinor = offered, op_movableNowMinor = m0, op_movable30dMinor = m30,
           op_movable90dMinor = m90,
           op_jurisdictions = (case co_jurisdictions inp of None \<Rightarrow> [] | Some js \<Rightarrow> js),
           op_mccs = (case co_mccs inp of None \<Rightarrow> [] | Some ms \<Rightarrow> ms),
           op_createdByUserId = Some (userId actor), op_createdByOrgId = organizationId actor,
           op_updatedByUserId = None, op_version = 1, op_createdAt = clock env\<rparr>
     in
     ebind (dbe (opportunity_insert created db)) (\<lambda>db.
     let db = write_audit env (Some ctx) (audit_by actor (organizationId actor) ''opportunity.created''
           ''opportunity'' i
           [(''opportunityType'', JStr (op_opportunityType created)),
            (''requestedService'', JStr (op_requestedService created)),
            (''status'', JStr (opportunityStatus_name (op_status created)))]) db
     in Inr (created, db)))))))))))"

section \<open>The volume breakdown\<close>

definition slice_input :: "VolumeSlice \<Rightarrow> VolumeSliceInput" where
  "slice_input s =
     \<lparr>jurisdiction = vs_jurisdiction s, mcc = vs_mcc s, cardOrigin = vs_cardOrigin s,
      channel = vs_channel s, period = vs_period s, slice_currency = vs_currency s,
      slice_amountMinor = vs_amountMinor s\<rparr>"

definition volume_summary :: "Opportunity \<Rightarrow> OpportunityVolumeSummary" where
  "volume_summary opportunity =
     \<lparr>summary_currency = op_currency opportunity, offeredCardGpvMinor = op_offeredCardGpvMinor opportunity,
      movableNowMinor = op_movableNowMinor opportunity, movable30dMinor = op_movable30dMinor opportunity,
      movable90dMinor = op_movable90dMinor opportunity\<rparr>"

definition reconcileVolume :: "Opportunity \<Rightarrow> VolumeSlice list \<Rightarrow> opp_failure + VolumeReconciliationResult" where
  "reconcileVolume opportunity slices =
     cents (reconcileOpportunityVolume (map slice_input slices) (volume_summary opportunity))"

definition getVolumeSlices ::
  "Actor \<Rightarrow> string \<Rightarrow> MarketStore \<Rightarrow> opp_failure + VolumeSlice list \<times> VolumeReconciliationResult" where
  "getVolumeSlices actor i db =
     ebind (require (opportunity_findById db i) (Problem notFound)) (\<lambda>opportunity.
     ebind (authorize actor A_opportunity_read R_opportunity (Some (op_ownerOrgId opportunity)) no_context) (\<lambda>_.
     let slices = volumeSlice_listByOpportunity db i in
     ebind (reconcileVolume opportunity slices) (\<lambda>reconciliation.
     Inr (slices, reconciliation))))"

definition requested_slice :: "Opportunity \<Rightarrow> SliceRequest \<Rightarrow> opp_failure + VolumeSliceInput" where
  "requested_slice opportunity s =
     ebind (cents (parseBigIntMinorUnits (Some (sr_amountMinor s)) ''amountMinor'')) (\<lambda>amount.
     Inr \<lparr>jurisdiction = sr_jurisdiction s, mcc = sr_mcc s, cardOrigin = sr_cardOrigin s,
          channel = sr_channel s, period = sr_period s, slice_currency = op_currency opportunity,
          slice_amountMinor = amount\<rparr>)"

text \<open>The filter that keeps the first slice of every cell key.\<close>

fun first_of_cell :: "string list \<Rightarrow> VolumeSliceInput list \<Rightarrow> VolumeSliceInput list" where
  "first_of_cell seen [] = []"
| "first_of_cell seen (s # ss) =
     (if cellKey s \<in> set seen then first_of_cell seen ss
      else s # first_of_cell (cellKey s # seen) ss)"

definition slice_row :: "Actor \<Rightarrow> string \<Rightarrow> string \<Rightarrow> VolumeSliceInput \<Rightarrow> VolumeSlice" where
  "slice_row actor opportunityId i s =
     \<lparr>vs_id = i, vs_opportunityId = opportunityId, vs_jurisdiction = jurisdiction s, vs_mcc = mcc s,
      vs_cardOrigin = cardOrigin s, vs_channel = channel s, vs_currency = slice_currency s,
      vs_amountMinor = slice_amountMinor s, vs_period = period s,
      vs_createdByUserId = Some (userId actor), vs_createdByOrgId = organizationId actor\<rparr>"

fun insert_slices ::
  "Env \<Rightarrow> Actor \<Rightarrow> string \<Rightarrow> VolumeSliceInput list \<Rightarrow> MarketStore \<Rightarrow> DbError + VolumeSlice list \<times> MarketStore" where
  "insert_slices env actor i [] db = Inr ([], db)"
| "insert_slices env actor i (s # ss) db =
     (let (k, db) = next_id env db; row = slice_row actor i k s in
      ebind (volumeSlice_insert row db) (\<lambda>db.
      ebind (insert_slices env actor i ss db) (\<lambda>(rows, db). Inr (row # rows, db))))"

definition replaceVolumeSlices ::
  "Env \<Rightarrow> Actor \<Rightarrow> string \<Rightarrow> SliceRequest list \<Rightarrow> RequestContext \<Rightarrow> MarketStore \<Rightarrow> MarketStore \<Rightarrow>
   opp_failure + (VolumeSlice list \<times> VolumeReconciliationResult) \<times> MarketStore" where
  "replaceVolumeSlices env actor i inp ctx snap db =
     ebind (require (opportunity_findById snap i) (Problem notFound)) (\<lambda>opportunity.
     ebind (authorize actor A_opportunity_update R_opportunity (Some (op_ownerOrgId opportunity)) no_context) (\<lambda>_.
     ebind (emap (requested_slice opportunity) inp) (\<lambda>slices.
     ebind (cents (reconcileOpportunityVolume slices (volume_summary opportunity))) (\<lambda>reconciliation.
     let db = volumeSlice_deleteAllByOpportunity i db in
     ebind (dbe (insert_slices env actor i (first_of_cell [] slices) db)) (\<lambda>(rows, db).
     let db = write_audit env (Some ctx) (audit_by actor (Some (op_ownerOrgId opportunity))
           ''opportunity.volume_slices_replaced'' ''opportunity'' i
           [(''sliceCount'', JNum (int (length rows))),
            (''reconciled'', JBool (vol_reconciled reconciliation)),
            (''mismatchCount'', JNum (int (length (vol_mismatches reconciliation))))]) db
     in Inr ((rows, reconciliation), db))))))"

end
