(* ===== verification/Market_Effects.thy ===== *)
theory Market_Effects
  imports Rfq_Service Deal_Service Opportunity_Service
begin

text \<open>
  What a committed request of the marketplace changes: for every operation, the reads that let it
  pass and the tables it leaves behind. The invariants of the next theory rest on these facts only.
\<close>

section \<open>Repositories\<close>

named_theorems repo_results \<open>when a repository call returns, and the store it returns\<close>

lemma log_frames [simp]:
  "mk_organizations (write_audit env c a db) = mk_organizations db"
  "mk_opportunities (write_audit env c a db) = mk_opportunities db"
  "mk_volumeSlices (write_audit env c a db) = mk_volumeSlices db"
  "mk_rfqs (write_audit env c a db) = mk_rfqs db"
  "mk_recipients (write_audit env c a db) = mk_recipients db"
  "mk_quotes (write_audit env c a db) = mk_quotes db"
  "mk_dealRooms (write_audit env c a db) = mk_dealRooms db"
  "mk_participants (write_audit env c a db) = mk_participants db"
  "mk_conditions (write_audit env c a db) = mk_conditions db"
  "mk_organizations (write_event env c e db) = mk_organizations db"
  "mk_opportunities (write_event env c e db) = mk_opportunities db"
  "mk_volumeSlices (write_event env c e db) = mk_volumeSlices db"
  "mk_rfqs (write_event env c e db) = mk_rfqs db"
  "mk_recipients (write_event env c e db) = mk_recipients db"
  "mk_quotes (write_event env c e db) = mk_quotes db"
  "mk_dealRooms (write_event env c e db) = mk_dealRooms db"
  "mk_participants (write_event env c e db) = mk_participants db"
  "mk_conditions (write_event env c e db) = mk_conditions db"
  by (simp_all add: write_audit_def write_event_def next_id_def)

abbreviation opp_to :: "OpportunityStatus \<Rightarrow> string option \<Rightarrow> Opportunity \<Rightarrow> Opportunity" where
  "opp_to s u \<equiv> \<lambda>r. r\<lparr>op_status := s, op_updatedByUserId := u, op_version := op_version r + 1\<rparr>"

abbreviation rfq_to :: "RfqStatus \<Rightarrow> string option \<Rightarrow> RFQ \<Rightarrow> RFQ" where
  "rfq_to s u \<equiv> \<lambda>r. r\<lparr>rf_status := s, rf_updatedByUserId := u, rf_version := rf_version r + 1\<rparr>"

abbreviation quote_to :: "QuoteStatus \<Rightarrow> string option \<Rightarrow> Quote \<Rightarrow> Quote" where
  "quote_to s u \<equiv> \<lambda>q. q\<lparr>qt_status := s, qt_updatedByUserId := u, qt_version := qt_version q + 1\<rparr>"

abbreviation room_to :: "DealRoomStatus \<Rightarrow> string option \<Rightarrow> DealRoomRow \<Rightarrow> DealRoomRow" where
  "room_to s u \<equiv> \<lambda>d. d\<lparr>dl_status := s, dl_updatedByUserId := u, dl_version := dl_version d + 1\<rparr>"

abbreviation recipient_to :: "RfqRecipientState \<Rightarrow> string option \<Rightarrow> string option \<Rightarrow> RFQRecipient \<Rightarrow> RFQRecipient" where
  "recipient_to s u reason \<equiv> \<lambda>c. c\<lparr>rc_state := s, rc_updatedByUserId := u, rc_version := rc_version c + 1,
     rc_declineReason := (if truthy reason then reason else rc_declineReason c)\<rparr>"

abbreviation condition_to :: "DealConditionState \<Rightarrow> string option \<Rightarrow> string option \<Rightarrow> DealCondition \<Rightarrow> DealCondition" where
  "condition_to s note u \<equiv> \<lambda>c. c\<lparr>dc_state := s, dc_resolutionNote := note, dc_updatedByUserId := u,
     dc_version := dc_version c + 1\<rparr>"

lemma update_into:
  "ebind (update_by key i f rows) (\<lambda>(r, rows). Inr (r, put rows)) = Inr (x, db') \<longleftrightarrow>
     (\<exists>y. find_by key i rows = Some y \<and> x = f y \<and> db' = put (set_by key i f rows))"
  by (auto simp: ebind_eq_Inr update_by_ok)

lemma update_results [repo_results]:
  "opportunity_updateStatus i s u db = Inr (opp, db') \<longleftrightarrow>
     (\<exists>x. opportunity_findById db i = Some x \<and> opp = opp_to s u x \<and>
        db' = db\<lparr>mk_opportunities := set_by op_id i (opp_to s u) (mk_opportunities db)\<rparr>)"
  "rfq_updateStatus i s1 u db = Inr (rfq, db') \<longleftrightarrow>
     (\<exists>x. rfq_findById db i = Some x \<and> rfq = rfq_to s1 u x \<and>
        db' = db\<lparr>mk_rfqs := set_by rf_id i (rfq_to s1 u) (mk_rfqs db)\<rparr>)"
  "recipient_updateState i s2 u reason db = Inr (rcp, db') \<longleftrightarrow>
     (\<exists>x. find_by rc_id i (mk_recipients db) = Some x \<and> rcp = recipient_to s2 u reason x \<and>
        db' = db\<lparr>mk_recipients := set_by rc_id i (recipient_to s2 u reason) (mk_recipients db)\<rparr>)"
  "quote_updateStatus i s3 u db = Inr (q, db') \<longleftrightarrow>
     (\<exists>x. quote_findById db i = Some x \<and> q = quote_to s3 u x \<and>
        db' = db\<lparr>mk_quotes := set_by qt_id i (quote_to s3 u) (mk_quotes db)\<rparr>)"
  "dealRoom_updateStatus i s4 u db = Inr (d, db') \<longleftrightarrow>
     (\<exists>x. dealRoomRow_findById db i = Some x \<and> d = room_to s4 u x \<and>
        db' = db\<lparr>mk_dealRooms := set_by dl_id i (room_to s4 u) (mk_dealRooms db)\<rparr>)"
  "condition_updateState i s5 note u db = Inr (c, db') \<longleftrightarrow>
     (\<exists>x. condition_findById db i = Some x \<and> c = condition_to s5 note u x \<and>
        db' = db\<lparr>mk_conditions := set_by dc_id i (condition_to s5 note u) (mk_conditions db)\<rparr>)"
  unfolding opportunity_updateStatus_def rfq_updateStatus_def recipient_updateState_def
    quote_updateStatus_def dealRoom_updateStatus_def condition_updateState_def
    opportunity_findById_def rfq_findById_def quote_findById_def dealRoomRow_findById_def condition_findById_def
  by (rule update_into)+

lemma insert_results [repo_results]:
  "opportunity_insert opp db = Inr db' \<longleftrightarrow>
     db' = db\<lparr>mk_opportunities := mk_opportunities db @ [opp]\<rparr> \<and> (\<forall>x \<in> set (mk_opportunities db). op_id x \<noteq> op_id opp)"
  "rfq_insert rfq db = Inr db' \<longleftrightarrow>
     db' = db\<lparr>mk_rfqs := mk_rfqs db @ [rfq]\<rparr> \<and> (\<forall>x \<in> set (mk_rfqs db). rf_id x \<noteq> rf_id rfq)"
  "recipient_insert rcp db = Inr db' \<longleftrightarrow>
     db' = db\<lparr>mk_recipients := mk_recipients db @ [rcp]\<rparr> \<and> (\<forall>x \<in> set (mk_recipients db).
       rc_id x \<noteq> rc_id rcp \<and> \<not> (rc_rfqId x = rc_rfqId rcp \<and> rc_providerOrgId x = rc_providerOrgId rcp))"
  "dealRoom_insert d db = Inr db' \<longleftrightarrow>
     db' = db\<lparr>mk_dealRooms := mk_dealRooms db @ [d]\<rparr> \<and> (\<forall>x \<in> set (mk_dealRooms db).
       dl_id x \<noteq> dl_id d \<and> dl_rfqId x \<noteq> dl_rfqId d \<and> dl_selectedQuoteId x \<noteq> dl_selectedQuoteId d)"
  "participant_insert p db = Inr db' \<longleftrightarrow>
     db' = db\<lparr>mk_participants := mk_participants db @ [p]\<rparr> \<and> (\<forall>x \<in> set (mk_participants db).
       pt_id x \<noteq> pt_id p \<and> \<not> (pt_dealRoomId x = pt_dealRoomId p \<and> pt_organizationId x = pt_organizationId p))"
  "condition_insert c db = Inr db' \<longleftrightarrow>
     db' = db\<lparr>mk_conditions := mk_conditions db @ [c]\<rparr> \<and> (\<forall>x \<in> set (mk_conditions db). dc_id x \<noteq> dc_id c)"
  "decision_insert dd db = Inr db' \<longleftrightarrow>
     db' = db\<lparr>mk_decisions := mk_decisions db @ [dd]\<rparr> \<and> (\<forall>x \<in> set (mk_decisions db). dd_id x \<noteq> dd_id dd)"
  by (auto simp: opportunity_insert_def rfq_insert_def recipient_insert_def dealRoom_insert_def
      participant_insert_def condition_insert_def decision_insert_def ebind_eq_Inr insert_row_ok)

lemma guarded_insert_results [repo_results]:
  "rfqVersion_insert v db = Inr db' \<longleftrightarrow>
     assertJsonSafePlainObject (fst (vn_disclosureSnapshot v)) (snd (vn_disclosureSnapshot v)) [] = Inr () \<and>
     db' = db\<lparr>mk_rfqVersions := mk_rfqVersions db @ [v]\<rparr> \<and> (\<forall>x \<in> set (mk_rfqVersions db).
       vn_id x \<noteq> vn_id v \<and> \<not> (vn_rfqId x = vn_rfqId v \<and> vn_versionNumber x = vn_versionNumber v))"
  "quote_insert q db = Inr db' \<longleftrightarrow>
     assertJsonSafePlainObject (fst (qt_terms q)) (snd (qt_terms q)) [] = Inr () \<and>
     db' = db\<lparr>mk_quotes := mk_quotes db @ [q]\<rparr> \<and> (\<forall>x \<in> set (mk_quotes db).
       qt_id x \<noteq> qt_id q \<and> \<not> (qt_rfqRecipientId x = qt_rfqRecipientId q \<and> qt_quoteVersion x = qt_quoteVersion q))"
  "volumeSlice_insert s db = Inr db' \<longleftrightarrow>
     db' = db\<lparr>mk_volumeSlices := mk_volumeSlices db @ [s]\<rparr> \<and> (\<forall>x \<in> set (mk_volumeSlices db).
       vs_id x \<noteq> vs_id s \<and> slice_cell x \<noteq> slice_cell s)"
  by (auto simp: rfqVersion_insert_def quote_insert_def volumeSlice_insert_def ebind_eq_Inr insert_row_ok)

lemma loadRfq_ok:
  "loadRfq db i = Inr (rfq, opp) \<longleftrightarrow>
     rfq_findById db i = Some rfq \<and> opportunity_findById db (rf_opportunityId rfq) = Some opp"
  by (auto simp: loadRfq_def ebind_eq_Inr)

lemma found_ids:
  "rfq_findById db i = Some rfq \<Longrightarrow> rf_id rfq = i"
  "opportunity_findById db i = Some opp \<Longrightarrow> op_id opp = i"
  "quote_findById db i = Some q \<Longrightarrow> qt_id q = i"
  "dealRoomRow_findById db i = Some d \<Longrightarrow> dl_id d = i"
  "condition_findById db i = Some c \<Longrightarrow> dc_id c = i"
  by (auto simp: rfq_findById_def opportunity_findById_def quote_findById_def dealRoomRow_findById_def
      condition_findById_def dest: find_by_SomeD)

lemma recipientOf_SomeD:
  "recipientOf db i actor = Some c \<Longrightarrow>
   c \<in> set (mk_recipients db) \<and> rc_rfqId c = i \<and> organizationId actor = Some (rc_providerOrgId c)"
  by (cases "organizationId actor")
    (auto simp: recipientOf_def recipient_findByRfqAndProviderOrg_def split: if_splits dest: find_SomeD)

section \<open>Accepted transitions\<close>

lemma to_DECLINED: "assertValidRfqRecipientTransition (rfqRecipientState_name s) ''DECLINED'' = Inr u \<longleftrightarrow>
    s \<in> {Rcp_INVITED, Rcp_ACKNOWLEDGED, Rcp_QUOTED}"
  using recipient.guard_accepts [of s Rcp_DECLINED] by (cases s) simp_all

lemma to_recipient_QUOTED: "assertValidRfqRecipientTransition (rfqRecipientState_name s) ''QUOTED'' = Inr u \<longleftrightarrow>
    s \<in> {Rcp_INVITED, Rcp_ACKNOWLEDGED}"
  using recipient.guard_accepts [of s Rcp_QUOTED] by (cases s) simp_all

lemma to_WITHDRAWN: "assertValidQuoteTransition (quoteStatus_name s) ''WITHDRAWN'' = Inr u \<longleftrightarrow> s = Qt_SUBMITTED"
  using quote.guard_accepts [of s Qt_WITHDRAWN] by (cases s) simp_all

lemma to_quote_SELECTED: "assertValidQuoteTransition (quoteStatus_name s) ''SELECTED'' = Inr u \<longleftrightarrow> s = Qt_SUBMITTED"
  using quote.guard_accepts [of s Qt_SELECTED] by (cases s) simp_all

lemma to_rfq_QUOTED: "assertValidRfqTransition (rfqStatus_name s) ''QUOTED'' = Inr u \<longleftrightarrow>
    s \<in> {Rfq_SENT, Rfq_ACKNOWLEDGED, Rfq_QUESTIONS, Rfq_QUOTED}"
  using rfq.guard_accepts [of s Rfq_QUOTED] by (cases s) simp_all

lemma to_rfq_SELECTED: "assertValidRfqTransition (rfqStatus_name s) ''SELECTED'' = Inr u \<longleftrightarrow> s = Rfq_QUOTED"
  using rfq.guard_accepts [of s Rfq_SELECTED] by (cases s) simp_all

lemma to_EXPIRED: "assertValidRfqTransition (rfqStatus_name s) ''EXPIRED'' = Inr u \<longleftrightarrow> s \<in> set EXPIRABLE_STATUSES"
  using rfq.guard_accepts [of s Rfq_EXPIRED] by (cases s) (simp_all add: EXPIRABLE_STATUSES_def)

lemmas accepted_moves = to_DECLINED to_recipient_QUOTED to_WITHDRAWN to_quote_SELECTED to_rfq_QUOTED
  to_rfq_SELECTED to_EXPIRED

section \<open>RFQ operations\<close>

lemma mark_results [repo_results]:
  "markInvited actor opp db = Inr db' \<longleftrightarrow>
     (if op_status opp = Opp_MATCH_READY
      then (\<exists>x. opportunity_findById db (op_id opp) = Some x) \<and>
        db' = db\<lparr>mk_opportunities := set_by op_id (op_id opp) (opp_to Opp_INVITED (Some (userId actor))) (mk_opportunities db)\<rparr>
      else db' = db)"
  "markOpportunityQuoted actor opp db = Inr db' \<longleftrightarrow>
     (if op_status opp = Opp_INVITED
      then (\<exists>x. opportunity_findById db (op_id opp) = Some x) \<and>
        db' = db\<lparr>mk_opportunities := set_by op_id (op_id opp) (opp_to Opp_QUOTED (Some (userId actor))) (mk_opportunities db)\<rparr>
      else db' = db)"
  "markRfqQuoted actor fresh i db = Inr db' \<longleftrightarrow>
     (if rf_status fresh \<noteq> Rfq_QUOTED
      then rf_status fresh \<in> {Rfq_SENT, Rfq_ACKNOWLEDGED, Rfq_QUESTIONS} \<and> (\<exists>x. rfq_findById db i = Some x) \<and>
        db' = db\<lparr>mk_rfqs := set_by rf_id i (rfq_to Rfq_QUOTED (Some (userId actor))) (mk_rfqs db)\<rparr>
      else db' = db)"
  "markRecipientQuoted actor c db = Inr db' \<longleftrightarrow>
     (if rc_state c \<noteq> Rcp_QUOTED
      then (\<exists>x. find_by rc_id (rc_id c) (mk_recipients db) = Some x) \<and>
        db' = db\<lparr>mk_recipients := set_by rc_id (rc_id c) (recipient_to Rcp_QUOTED (Some (userId actor)) None) (mk_recipients db)\<rparr>
      else db' = db)"
proof -
  have inv: "assertValidOpportunityTransition ''MATCH_READY'' ''INVITED'' = Inr ()"
    "assertValidOpportunityTransition ''INVITED'' ''QUOTED'' = Inr ()"
    using opportunity.guard_accepts [of Opp_MATCH_READY Opp_INVITED] opportunity.guard_accepts [of Opp_INVITED Opp_QUOTED]
    by simp_all
  show "markInvited actor opp db = Inr db' \<longleftrightarrow>
     (if op_status opp = Opp_MATCH_READY
      then (\<exists>x. opportunity_findById db (op_id opp) = Some x) \<and>
        db' = db\<lparr>mk_opportunities := set_by op_id (op_id opp) (opp_to Opp_INVITED (Some (userId actor))) (mk_opportunities db)\<rparr>
      else db' = db)"
    by (auto simp: markInvited_def inv ebind_eq_Inr update_results)
  show "markOpportunityQuoted actor opp db = Inr db' \<longleftrightarrow>
     (if op_status opp = Opp_INVITED
      then (\<exists>x. opportunity_findById db (op_id opp) = Some x) \<and>
        db' = db\<lparr>mk_opportunities := set_by op_id (op_id opp) (opp_to Opp_QUOTED (Some (userId actor))) (mk_opportunities db)\<rparr>
      else db' = db)"
    by (auto simp: markOpportunityQuoted_def inv ebind_eq_Inr update_results)
qed (auto simp: markRfqQuoted_def markRecipientQuoted_def ebind_eq_Inr update_results accepted_moves)

lemma rfqs_decline_effect:
  assumes "rfqs_decline env actor i reason ctx snap db = Inr (updated, db')"
  obtains rfq opp c where "rfq_findById snap i = Some rfq" "opportunity_findById snap (rf_opportunityId rfq) = Some opp"
    "recipientOf snap i actor = Some c" "rc_state c \<in> {Rcp_INVITED, Rcp_ACKNOWLEDGED, Rcp_QUOTED}"
    "mk_recipients db' = set_by rc_id (rc_id c) (recipient_to Rcp_DECLINED (Some (userId actor)) (Some reason)) (mk_recipients db)"
    "mk_opportunities db' = mk_opportunities db" "mk_rfqs db' = mk_rfqs db" "mk_quotes db' = mk_quotes db"
    "mk_dealRooms db' = mk_dealRooms db" "mk_participants db' = mk_participants db" "mk_conditions db' = mk_conditions db"
  using assms unfolding rfqs_decline_def
  by (auto simp: result_simps repo_results loadRfq_ok accepted_moves Let_def simp del: truthy.simps)

lemma submitQuote_effect:
  assumes "submitQuote env actor i inp ctx snap db = Inr (q, db')"
  obtains rfq opp c fresh where "rfq_findById snap i = Some rfq" "opportunity_findById snap (rf_opportunityId rfq) = Some opp"
    "recipientOf snap i actor = Some c" "rc_state c \<in> {Rcp_INVITED, Rcp_ACKNOWLEDGED}"
    "rfq_findById db i = Some fresh" "rf_status fresh \<in> {Rfq_SENT, Rfq_ACKNOWLEDGED, Rfq_QUESTIONS, Rfq_QUOTED}"
    "q = new_quote actor (uuid env (bs_ids db)) i (rc_id c) (nextQuoteVersion db (rc_id c)) inp"
    "\<forall>x \<in> set (mk_quotes db). qt_id x \<noteq> qt_id q" "mk_quotes db' = mk_quotes db @ [q]"
    "mk_recipients db' = set_by rc_id (rc_id c) (recipient_to Rcp_QUOTED (Some (userId actor)) None) (mk_recipients db)"
    "\<exists>x. find_by rc_id (rc_id c) (mk_recipients db) = Some x"
    "mk_rfqs db' = (if rf_status fresh = Rfq_QUOTED then mk_rfqs db
       else set_by rf_id i (rfq_to Rfq_QUOTED (Some (userId actor))) (mk_rfqs db))"
    "mk_opportunities db' = (if op_status opp = Opp_INVITED
       then set_by op_id (op_id opp) (opp_to Opp_QUOTED (Some (userId actor))) (mk_opportunities db)
       else mk_opportunities db)"
    "mk_dealRooms db' = mk_dealRooms db" "mk_participants db' = mk_participants db" "mk_conditions db' = mk_conditions db"
proof -
  obtain rfq opp c where pre: "rfq_findById snap i = Some rfq" "opportunity_findById snap (rf_opportunityId rfq) = Some opp"
      "recipientOf snap i actor = Some c" "rc_state c \<in> {Rcp_INVITED, Rcp_ACKNOWLEDGED}"
    and tx: "submitQuoteTx env actor rfq opp c inp ctx db = Inr (q, db')"
    using assms unfolding submitQuote_def by (auto simp: result_simps loadRfq_ok accepted_moves)
  have id: "rf_id rfq = i" and nq: "rc_state c \<noteq> Rcp_QUOTED"
    using found_ids(1) [OF pre(1)] pre(4) by auto
  obtain fresh db1 db2 db3 db4 where steps: "rfq_findById db i = Some fresh"
      "rf_status fresh \<notin> {Rfq_SELECTED, Rfq_DECLINED, Rfq_EXPIRED}"
      "q = new_quote actor (uuid env (bs_ids db)) i (rc_id c) (nextQuoteVersion db (rc_id c)) inp"
      "quote_insert q (db\<lparr>bs_ids := Suc (bs_ids db)\<rparr>) = Inr db1"
      "markRecipientQuoted actor c db1 = Inr db2" "markRfqQuoted actor fresh i db2 = Inr db3"
      "markOpportunityQuoted actor opp db3 = Inr db4"
    and same: "mk_quotes db' = mk_quotes db4" "mk_recipients db' = mk_recipients db4" "mk_rfqs db' = mk_rfqs db4"
      "mk_opportunities db' = mk_opportunities db4" "mk_dealRooms db' = mk_dealRooms db4"
      "mk_participants db' = mk_participants db4" "mk_conditions db' = mk_conditions db4"
    using tx unfolding submitQuoteTx_def id next_id_def by (auto simp: ebind_eq_Inr Let_def)
  show thesis
  proof (rule that [OF pre steps(1) _ steps(3)])
    show "rf_status fresh \<in> {Rfq_SENT, Rfq_ACKNOWLEDGED, Rfq_QUESTIONS, Rfq_QUOTED}"
      using steps(6) by (auto simp: mark_results split: if_splits)
  qed (use steps same nq in \<open>auto simp: repo_results simp del: truthy.simps split: if_splits\<close>)
qed


lemma withdrawQuote_effect:
  assumes "withdrawQuote env actor i k ctx snap db = Inr (q, db')"
  obtains old fresh where "quote_findById snap k = Some old" "organizationId actor = Some (qt_providerOrgId old)"
    "quote_findById db k = Some fresh" "qt_status fresh = Qt_SUBMITTED"
    "mk_quotes db' = set_by qt_id k (quote_to Qt_WITHDRAWN (Some (userId actor))) (mk_quotes db)"
    "mk_recipients db' = mk_recipients db"
    "mk_opportunities db' = mk_opportunities db" "mk_rfqs db' = mk_rfqs db"
    "mk_dealRooms db' = mk_dealRooms db" "mk_participants db' = mk_participants db" "mk_conditions db' = mk_conditions db"
proof -
  obtain old where old: "quote_findById snap k = Some old"
    using assms unfolding withdrawQuote_def by (auto simp: result_simps)
  note id = found_ids(3) [OF old]
  show thesis
    using assms that [OF old] unfolding withdrawQuote_def
    by (auto simp: id old result_simps repo_results loadRfq_ok accepted_moves Let_def)
qed

lemma openDealRoom_effect:
  assumes "openDealRoom env actor opp rfq q reason considered ctx db = Inr (d, db')"
  shows "d = new_dealRoom env actor (uuid env (bs_ids db)) opp rfq q \<and>
    (\<forall>x \<in> set (mk_dealRooms db). dl_id x \<noteq> dl_id d \<and> dl_rfqId x \<noteq> dl_rfqId d \<and>
       dl_selectedQuoteId x \<noteq> dl_selectedQuoteId d) \<and>
    mk_dealRooms db' = mk_dealRooms db @ [d] \<and>
    mk_participants db' = mk_participants db @
      [new_participant actor (uuid env (Suc (bs_ids db))) (dl_id d) (op_ownerOrgId opp) Party_MERCHANT,
       new_participant actor (uuid env (Suc (Suc (bs_ids db)))) (dl_id d) (qt_providerOrgId q) Party_PROVIDER] \<and>
    mk_recipients db' = mk_recipients db \<and> mk_opportunities db' = mk_opportunities db \<and>
    mk_rfqs db' = mk_rfqs db \<and> mk_quotes db' = mk_quotes db \<and> mk_conditions db' = mk_conditions db"
  using assms unfolding openDealRoom_def next_id_def Let_def split
  by (auto simp: ebind_eq_Inr repo_results new_dealRoom_def)

lemma selectQuote_effect:
  assumes "selectQuote env actor i k reason ctx snap db = Inr (d, db')"
  obtains rfq opp old fresh where "rfq_findById snap i = Some rfq" "opportunity_findById snap (rf_opportunityId rfq) = Some opp"
    "rf_status rfq = Rfq_QUOTED" "assertValidOpportunityTransition (opportunityStatus_name (op_status opp)) ''SELECTED'' = Inr ()"
    "quote_findById snap k = Some old" "qt_rfqId old = i" "quote_findById db k = Some fresh" "qt_status fresh = Qt_SUBMITTED"
    "dl_rfqId d = i" "dl_opportunityId d = rf_opportunityId rfq" "dl_selectedQuoteId d = k" "dl_status d = Deal_OPEN"
    "dl_merchantOrgId d = op_ownerOrgId opp" "dl_providerOrgId d = qt_providerOrgId fresh"
    "\<forall>x \<in> set (mk_dealRooms db). dl_id x \<noteq> dl_id d \<and> dl_rfqId x \<noteq> i \<and> dl_selectedQuoteId x \<noteq> k"
    "mk_dealRooms db' = mk_dealRooms db @ [d]"
    "\<exists>p1 p2. mk_participants db' = mk_participants db @ [p1, p2] \<and> pt_dealRoomId p1 = dl_id d \<and> pt_dealRoomId p2 = dl_id d \<and>
       pt_organizationId p1 = dl_merchantOrgId d \<and> pt_participantRole p1 = Party_MERCHANT \<and>
       pt_organizationId p2 = dl_providerOrgId d \<and> pt_participantRole p2 = Party_PROVIDER"
    "mk_quotes db' = set_by qt_id k (quote_to Qt_SELECTED (Some (userId actor))) (mk_quotes db)"
    "mk_rfqs db' = set_by rf_id i (rfq_to Rfq_SELECTED (Some (userId actor))) (mk_rfqs db)"
    "\<exists>x. rfq_findById db i = Some x" "\<exists>x. opportunity_findById db (op_id opp) = Some x"
    "mk_opportunities db' = set_by op_id (op_id opp) (opp_to Opp_SELECTED (Some (userId actor))) (mk_opportunities db)"
    "mk_recipients db' = mk_recipients db" "mk_conditions db' = mk_conditions db"
proof -
  obtain rfq opp old considered where pre: "rfq_findById snap i = Some rfq" "opportunity_findById snap (rf_opportunityId rfq) = Some opp"
      "rf_status rfq = Rfq_QUOTED" "assertValidOpportunityTransition (opportunityStatus_name (op_status opp)) ''SELECTED'' = Inr ()"
      "quote_findById snap k = Some old" and rid: "qt_rfqId old = rf_id rfq"
    and tx: "selectQuoteTx env actor opp rfq old reason considered ctx db = Inr (d, db')"
    using assms unfolding selectQuote_def by (auto simp: result_simps loadRfq_ok accepted_moves)
  have ids: "rf_id rfq = i" "qt_id old = k" "op_id opp = rf_opportunityId rfq"
    using pre by (auto dest: found_ids)
  have rid: "qt_rfqId old = i"
    using rid ids by simp
  define db1 where "db1 = db\<lparr>mk_quotes := set_by qt_id k (quote_to Qt_SELECTED (Some (userId actor))) (mk_quotes db),
    mk_rfqs := set_by rf_id i (rfq_to Rfq_SELECTED (Some (userId actor))) (mk_rfqs db),
    mk_opportunities := set_by op_id (op_id opp) (opp_to Opp_SELECTED (Some (userId actor))) (mk_opportunities db)\<rparr>"
  obtain fresh where fresh: "quote_findById db k = Some fresh" "qt_status fresh = Qt_SUBMITTED"
    and found: "\<exists>x. rfq_findById db i = Some x" "\<exists>x. opportunity_findById db (op_id opp) = Some x"
    and room: "openDealRoom env actor opp rfq (quote_to Qt_SELECTED (Some (userId actor)) fresh) reason considered ctx db1 = Inr (d, db')"
    using tx unfolding selectQuoteTx_def ids db1_def
    by (auto simp: ebind_eq_Inr repo_results accepted_moves rfq_findById_def opportunity_findById_def)
  have db1: "mk_quotes db1 = set_by qt_id k (quote_to Qt_SELECTED (Some (userId actor))) (mk_quotes db)"
    "mk_rfqs db1 = set_by rf_id i (rfq_to Rfq_SELECTED (Some (userId actor))) (mk_rfqs db)"
    "mk_opportunities db1 = set_by op_id (op_id opp) (opp_to Opp_SELECTED (Some (userId actor))) (mk_opportunities db)"
    "mk_recipients db1 = mk_recipients db" "mk_dealRooms db1 = mk_dealRooms db" "mk_participants db1 = mk_participants db"
    "mk_conditions db1 = mk_conditions db"
    by (simp_all add: db1_def)
  note effect = openDealRoom_effect [OF room, unfolded db1]
  have sel: "dl_rfqId d = i" "dl_opportunityId d = rf_opportunityId rfq" "dl_selectedQuoteId d = k" "dl_status d = Deal_OPEN"
    "dl_merchantOrgId d = op_ownerOrgId opp" "dl_providerOrgId d = qt_providerOrgId fresh"
    using effect ids found_ids(3) [OF fresh(1)] by (simp_all add: new_dealRoom_def)
  show thesis
    by (rule that [OF pre rid fresh sel]) (use effect found sel in \<open>auto simp: new_participant_def\<close>)
qed


text \<open>The pair the table of the recipients keeps unique.\<close>

definition invitation :: "RFQRecipient \<Rightarrow> string \<times> string" where
  "invitation c = (rc_rfqId c, rc_providerOrgId c)"

lemma invite_effect:
  assumes "invite env actor i orgs db = Inr (rows, db')"
  shows "(\<exists>n. db' = db\<lparr>bs_ids := n, mk_recipients := mk_recipients db @ rows\<rparr>) \<and>
    (\<forall>c \<in> set rows. rc_rfqId c = i \<and> rc_state c = Rcp_INVITED) \<and> map rc_providerOrgId rows = orgs \<and>
    (distinct (map rc_id (mk_recipients db)) \<longrightarrow> distinct (map rc_id (mk_recipients db @ rows))) \<and>
    (distinct (map invitation (mk_recipients db)) \<longrightarrow> distinct (map invitation (mk_recipients db @ rows)))"
  using assms
proof (induction orgs arbitrary: db rows)
  case Nil
  then show ?case by (auto intro: exI [of _ "bs_ids db"])
next
  case (Cons org orgs)
  define c where "c = \<lparr>rc_id = uuid env (bs_ids db), rc_rfqId = i, rc_providerOrgId = org, rc_state = Rcp_INVITED,
    rc_declineReason = None, rc_createdByUserId = Some (userId actor), rc_createdByOrgId = organizationId actor,
    rc_updatedByUserId = None, rc_version = 1\<rparr>"
  define db1 where "db1 = db\<lparr>bs_ids := Suc (bs_ids db), mk_recipients := mk_recipients db @ [c]\<rparr>"
  obtain rest where rest: "invite env actor i orgs db1 = Inr (rest, db')" "rows = c # rest"
    and new: "\<forall>x \<in> set (mk_recipients db). rc_id x \<noteq> rc_id c \<and> invitation x \<noteq> invitation c"
    using Cons.prems by (auto simp: next_id_def Let_def ebind_eq_Inr insert_results c_def db1_def invitation_def)
  have c: "rc_rfqId c = i" "rc_state c = Rcp_INVITED" "rc_providerOrgId c = org"
    by (simp_all add: c_def)
  show ?case
    using Cons.IH [OF rest(1)] new by (auto simp: rest(2) db1_def c)
qed

lemma rfqs_create_effect:
  assumes "rfqs_create env actor inp ctx snap db = Inr (detail, db')"
  obtains opp rows where "opportunity_findById snap (cr_opportunityId inp) = Some opp"
    "op_status opp \<in> {Opp_MATCH_READY, Opp_INVITED}"
    "rd_rfq detail = new_rfq env actor (uuid env (bs_ids db)) inp (op_id opp)"
    "\<forall>x \<in> set (mk_rfqs db). rf_id x \<noteq> rf_id (rd_rfq detail)"
    "mk_rfqs db' = mk_rfqs db @ [rd_rfq detail]"
    "mk_recipients db' = mk_recipients db @ rows"
    "\<forall>c \<in> set rows. rc_rfqId c = rf_id (rd_rfq detail) \<and> rc_state c = Rcp_INVITED"
    "distinct (map rc_id (mk_recipients db)) \<longrightarrow> distinct (map rc_id (mk_recipients db @ rows))"
    "distinct (map invitation (mk_recipients db)) \<longrightarrow> distinct (map invitation (mk_recipients db @ rows))"
    "mk_opportunities db' = (if op_status opp = Opp_MATCH_READY
       then set_by op_id (op_id opp) (opp_to Opp_INVITED (Some (userId actor))) (mk_opportunities db)
       else mk_opportunities db)"
    "mk_quotes db' = mk_quotes db" "mk_dealRooms db' = mk_dealRooms db" "mk_participants db' = mk_participants db"
    "mk_conditions db' = mk_conditions db"
proof -
  define rfq where "rfq opp = new_rfq env actor (uuid env (bs_ids db)) inp (op_id opp)" for opp :: Opportunity
  obtain opp db1 db2 db3 rows where pre: "opportunity_findById snap (cr_opportunityId inp) = Some opp"
      "op_status opp \<in> {Opp_MATCH_READY, Opp_INVITED}" "rd_rfq detail = rfq opp"
    and steps: "rfq_insert (rfq opp) (db\<lparr>bs_ids := Suc (bs_ids db)\<rparr>) = Inr db1"
      "rfqVersion_insert (first_version actor (uuid env (bs_ids db1)) (uuid env (bs_ids db)) inp)
         (db1\<lparr>bs_ids := Suc (bs_ids db1)\<rparr>) = Inr db2"
      "invite env actor (uuid env (bs_ids db)) (cr_providerOrgIds inp) db2 = Inr (rows, db3)"
    and db': "\<exists>db4. markInvited actor opp db3 = Inr db4 \<and> mk_rfqs db' = mk_rfqs db4 \<and> mk_recipients db' = mk_recipients db4 \<and>
      mk_opportunities db' = mk_opportunities db4 \<and> mk_quotes db' = mk_quotes db4 \<and> mk_dealRooms db' = mk_dealRooms db4 \<and>
      mk_participants db' = mk_participants db4 \<and> mk_conditions db' = mk_conditions db4"
    using assms unfolding rfqs_create_def next_id_def Let_def split
    by (auto simp: result_simps rfq_def new_rfq_def)
  have id: "rf_id (rfq opp) = uuid env (bs_ids db)"
    by (simp add: rfq_def new_rfq_def)
  have db2: "mk_rfqs db2 = mk_rfqs db @ [rfq opp]" "\<forall>x \<in> set (mk_rfqs db). rf_id x \<noteq> rf_id (rfq opp)"
    "mk_recipients db2 = mk_recipients db" "mk_opportunities db2 = mk_opportunities db" "mk_quotes db2 = mk_quotes db"
    "mk_dealRooms db2 = mk_dealRooms db" "mk_participants db2 = mk_participants db" "mk_conditions db2 = mk_conditions db"
    using steps(1,2) by (auto simp: repo_results)
  note inv = invite_effect [OF steps(3), unfolded db2]
  then have db3: "mk_rfqs db3 = mk_rfqs db @ [rfq opp]" "mk_recipients db3 = mk_recipients db @ rows"
    "mk_opportunities db3 = mk_opportunities db" "mk_quotes db3 = mk_quotes db"
    "mk_dealRooms db3 = mk_dealRooms db" "mk_participants db3 = mk_participants db" "mk_conditions db3 = mk_conditions db"
    using db2 by auto
  from db' obtain db4 where mark: "markInvited actor opp db3 = Inr db4"
    and same: "mk_rfqs db' = mk_rfqs db4" "mk_recipients db' = mk_recipients db4" "mk_opportunities db' = mk_opportunities db4"
      "mk_quotes db' = mk_quotes db4" "mk_dealRooms db' = mk_dealRooms db4" "mk_participants db' = mk_participants db4"
      "mk_conditions db' = mk_conditions db4"
    by blast
  have db4: "mk_rfqs db' = mk_rfqs db @ [rfq opp]" "mk_recipients db' = mk_recipients db @ rows"
    "mk_opportunities db' = (if op_status opp = Opp_MATCH_READY
       then set_by op_id (op_id opp) (opp_to Opp_INVITED (Some (userId actor))) (mk_opportunities db)
       else mk_opportunities db)"
    "mk_quotes db' = mk_quotes db" "mk_dealRooms db' = mk_dealRooms db" "mk_participants db' = mk_participants db"
    "mk_conditions db' = mk_conditions db"
    using mark unfolding mark_results same by (simp_all add: db3 split: if_splits)
  show thesis
  proof (rule that [OF pre(1,2) _ _ _ db4(2) _ _ _ db4(3-7)])
    show "rd_rfq detail = new_rfq env actor (uuid env (bs_ids db)) inp (op_id opp)"
      by (simp only: pre(3) rfq_def)
    show "\<forall>c \<in> set rows. rc_rfqId c = rf_id (rd_rfq detail) \<and> rc_state c = Rcp_INVITED"
      using inv by (simp add: pre(3) id)
    show "\<forall>x \<in> set (mk_rfqs db). rf_id x \<noteq> rf_id (rd_rfq detail)"
      using db2(2) by (simp only: pre(3))
    show "mk_rfqs db' = mk_rfqs db @ [rd_rfq detail]"
      by (simp only: pre(3) db4(1))
    show "distinct (map rc_id (mk_recipients db)) \<longrightarrow> distinct (map rc_id (mk_recipients db @ rows))"
      using inv by blast
    show "distinct (map invitation (mk_recipients db)) \<longrightarrow> distinct (map invitation (mk_recipients db @ rows))"
      using inv by blast
  qed
qed

lemma expireOne_effect:
  assumes "expireOne env h i k db = Inr (fin, db')"
  shows "mk_opportunities db' = mk_opportunities db \<and> mk_recipients db' = mk_recipients db \<and>
    mk_quotes db' = mk_quotes db \<and> mk_dealRooms db' = mk_dealRooms db \<and> mk_participants db' = mk_participants db \<and>
    mk_conditions db' = mk_conditions db \<and>
    (mk_rfqs db' = mk_rfqs db \<or>
     (\<exists>fresh. rfq_findById db i = Some fresh \<and> rf_status fresh \<in> set EXPIRABLE_STATUSES \<and>
        mk_rfqs db' = set_by rf_id i (rfq_to Rfq_EXPIRED None) (mk_rfqs db)))"
proof (cases "rfq_findById db i")
  case (Some fresh)
  show ?thesis
  proof (cases "rf_status fresh \<in> set EXPIRABLE_STATUSES")
    case True
    obtain keys db1 where "withJobIdempotency (uuid env (bs_ids db + 2)) (clock env) ''worker.rfq-expiry'' (i @ '':'' @ k)
        (h [i, k, rfqStatus_name (rf_status fresh)]) (expire_handler env i (rf_status fresh) k) (mk_jobKeys db) db =
        Inr (keys, db1, ())"
      and same: "mk_opportunities db' = mk_opportunities db1" "mk_recipients db' = mk_recipients db1"
        "mk_quotes db' = mk_quotes db1" "mk_dealRooms db' = mk_dealRooms db1" "mk_participants db' = mk_participants db1"
        "mk_conditions db' = mk_conditions db1" "mk_rfqs db' = mk_rfqs db1"
      using assms Some True by (auto simp: expireOne_def ebind_eq_Inr)
    then have "db1 = db \<or> expire_handler env i (rf_status fresh) k db = Inr ((), db1)"
      unfolding withJobIdempotency_def
      by (auto simp: Let_def ebind_eq_Inr split: option.splits if_splits)
    then show ?thesis
      using same Some True by (auto simp: expire_handler_def Let_def result_simps repo_results)
  qed (use assms Some in \<open>auto simp: expireOne_def\<close>)
qed (use assms in \<open>simp add: expireOne_def\<close>)

lemma rfqExpiryJob_effect:
  assumes "rfqExpiryJob env h i snap db = Inr (r, db')"
  shows "db' = db \<or> (\<exists>k fin. expireOne env h i k db = Inr (fin, db'))"
  using assms by (auto simp: rfqExpiryJob_def ebind_eq_Inr split: option.splits if_splits)

section \<open>Deal operations\<close>

lemma dealRoomFor_ok:
  "dealRoomFor actor action i db = Inr d \<Longrightarrow> dealRoomRow_findById db i = Some d \<and> dl_id d = i"
  by (auto simp: dealRoomFor_def loadDealRoomAndAuthContext_def ebind_eq_Inr dest: found_ids)

lemma postCondition_effect:
  assumes "postCondition env actor i inp ctx snap db = Inr (c, db')"
  obtains d fresh where "dealRoomRow_findById snap i = Some d" "dealRoomRow_findById db i = Some fresh"
    "c = new_condition actor (uuid env (bs_ids db)) i inp" "pc_ownerOrgId inp \<in> {dl_merchantOrgId d, dl_providerOrgId d}"
    "\<forall>x \<in> set (mk_conditions db). dc_id x \<noteq> dc_id c" "mk_conditions db' = mk_conditions db @ [c]"
    "mk_dealRooms db' = (if dl_status fresh = Deal_OPEN
       then set_by dl_id i (room_to Deal_CONDITIONS (Some (userId actor))) (mk_dealRooms db) else mk_dealRooms db)"
    "mk_opportunities db' = mk_opportunities db" "mk_recipients db' = mk_recipients db" "mk_rfqs db' = mk_rfqs db"
    "mk_quotes db' = mk_quotes db" "mk_participants db' = mk_participants db"
proof -
  obtain d where d: "dealRoomFor actor A_deal_post_condition i snap = Inr d"
    and owner: "pc_ownerOrgId inp \<in> {dl_merchantOrgId d, dl_providerOrgId d}"
    using assms by (auto simp: postCondition_def ebind_eq_Inr)
  note ok = dealRoomFor_ok [OF d]
  define db1 where "db1 = db\<lparr>bs_ids := Suc (bs_ids db), mk_conditions := mk_conditions db @ [c]\<rparr>"
  have c: "c = new_condition actor (uuid env (bs_ids db)) i inp" "\<forall>x \<in> set (mk_conditions db). dc_id x \<noteq> dc_id c"
    using assms d ok by (auto simp: postCondition_def ebind_eq_Inr Let_def next_id_def insert_results)
  obtain fresh b db2 where fresh: "dealRoomRow_findById db1 i = Some fresh"
    and room: "openConditions actor fresh db1 = Inr (b, db2)"
    and same: "mk_conditions db' = mk_conditions db2" "mk_dealRooms db' = mk_dealRooms db2"
      "mk_opportunities db' = mk_opportunities db2" "mk_recipients db' = mk_recipients db2" "mk_rfqs db' = mk_rfqs db2"
      "mk_quotes db' = mk_quotes db2" "mk_participants db' = mk_participants db2"
    using assms d ok c
    by (auto simp: postCondition_def ebind_eq_Inr Let_def next_id_def insert_results db1_def split: if_splits)
  have "assertValidDealRoomTransition ''OPEN'' ''CONDITIONS'' = Inr ()"
    using deal_room.guard_accepts [of Deal_OPEN Deal_CONDITIONS] by simp
  then have db2: "db2 = (if dl_status fresh = Deal_OPEN
      then db1\<lparr>mk_dealRooms := set_by dl_id i (room_to Deal_CONDITIONS (Some (userId actor))) (mk_dealRooms db1)\<rparr> else db1)"
    using room found_ids(4) [OF fresh] by (auto simp: openConditions_def ebind_eq_Inr update_results split: if_splits)
  show thesis
    by (rule that [OF _ _ c(1) owner c(2)])
      (use ok fresh same db2 in \<open>auto simp: db1_def dealRoomRow_findById_def\<close>)
qed

lemma resolveCondition_effect:
  assumes "resolveCondition env actor i k s note ctx snap db = Inr (c, db')"
  obtains fresh where "condition_findById db k = Some fresh" "s \<in> set (DEAL_CONDITION_TRANSITIONS (dc_state fresh))"
    "mk_conditions db' = set_by dc_id k (condition_to s note (Some (userId actor))) (mk_conditions db)"
    "mk_dealRooms db' = mk_dealRooms db"
    "mk_opportunities db' = mk_opportunities db" "mk_recipients db' = mk_recipients db" "mk_rfqs db' = mk_rfqs db"
    "mk_quotes db' = mk_quotes db" "mk_participants db' = mk_participants db"
proof -
  obtain old where old: "condition_findById snap k = Some old"
    using assms by (auto simp: resolveCondition_def ebind_eq_Inr)
  note id = found_ids(5) [OF old]
  show thesis
    using assms that
    by (auto simp: resolveCondition_def id old ebind_eq_Inr Let_def update_results deal_condition.guard_accepts)
qed

lemma recordDecision_effect:
  assumes "recordDecision env actor i ty reason ctx snap db = Inr (row, db')"
  obtains fresh where "dealRoomRow_findById db i = Some fresh"
    "mk_dealRooms db' = (case computeNextStatus ty (dl_status fresh) of None \<Rightarrow> mk_dealRooms db
       | Some s \<Rightarrow> set_by dl_id i (room_to s (Some (userId actor))) (mk_dealRooms db))"
    "mk_conditions db' = mk_conditions db"
    "mk_opportunities db' = mk_opportunities db" "mk_recipients db' = mk_recipients db" "mk_rfqs db' = mk_rfqs db"
    "mk_quotes db' = mk_quotes db" "mk_participants db' = mk_participants db"
proof -
  obtain d where d: "dealRoomFor actor A_deal_record_decision i snap = Inr d"
    using assms by (auto simp: recordDecision_def ebind_eq_Inr)
  note ok = dealRoomFor_ok [OF d]
  show thesis
    using assms d ok that
    by (auto simp: recordDecision_def ebind_eq_Inr Let_def next_id_def insert_results moveDealRoom_def update_results
        split: option.splits)
qed

section \<open>Opportunity operations\<close>

lemma opportunities_create_effect:
  assumes "opportunities_create env actor inp ctx db = Inr (opp, db')"
  shows "op_status opp = Opp_DRAFT \<and> organizationId actor = Some (op_ownerOrgId opp) \<and>
    (\<forall>x \<in> set (mk_opportunities db). op_id x \<noteq> op_id opp) \<and> mk_opportunities db' = mk_opportunities db @ [opp] \<and>
    mk_recipients db' = mk_recipients db \<and> mk_rfqs db' = mk_rfqs db \<and> mk_quotes db' = mk_quotes db \<and>
    mk_dealRooms db' = mk_dealRooms db \<and> mk_participants db' = mk_participants db \<and> mk_conditions db' = mk_conditions db"
  using assms by (cases "organizationId actor")
    (auto simp: opportunities_create_def result_simps Let_def next_id_def insert_results)

lemma insert_slices_effect:
  assumes "insert_slices env actor i ss db = Inr (rows, db')"
  shows "(\<exists>n. db' = db\<lparr>bs_ids := n, mk_volumeSlices := mk_volumeSlices db @ rows\<rparr>) \<and>
    map slice_input rows = ss \<and> (\<forall>s \<in> set rows. vs_opportunityId s = i)"
  using assms
proof (induction ss arbitrary: db rows)
  case Nil
  then show ?case by (auto intro: exI [of _ "bs_ids db"])
next
  case (Cons s ss)
  define r where "r = slice_row actor i (uuid env (bs_ids db)) s"
  obtain rest where rest: "insert_slices env actor i ss
      (db\<lparr>bs_ids := Suc (bs_ids db), mk_volumeSlices := mk_volumeSlices db @ [r]\<rparr>) = Inr (rest, db')" "rows = r # rest"
    using Cons.prems by (auto simp: next_id_def Let_def ebind_eq_Inr guarded_insert_results r_def)
  show ?case
    using Cons.IH [OF rest(1)] by (auto simp: rest(2) r_def slice_row_def slice_input_def)
qed

lemma replaceVolumeSlices_effect:
  assumes "replaceVolumeSlices env actor i inp ctx snap db = Inr ((rows, rec), db')"
  obtains opp slices where "opportunity_findById snap i = Some opp" "emap (requested_slice opp) inp = Inr slices"
    "reconcileOpportunityVolume slices (volume_summary opp) = Inr rec"
    "map slice_input rows = first_of_cell [] slices" "\<forall>s \<in> set rows. vs_opportunityId s = i"
    "mk_volumeSlices db' = filter (\<lambda>s. vs_opportunityId s \<noteq> i) (mk_volumeSlices db) @ rows"
    "mk_opportunities db' = mk_opportunities db" "mk_recipients db' = mk_recipients db" "mk_rfqs db' = mk_rfqs db"
    "mk_quotes db' = mk_quotes db" "mk_dealRooms db' = mk_dealRooms db" "mk_participants db' = mk_participants db"
    "mk_conditions db' = mk_conditions db"
proof -
  obtain opp slices db1 where pre: "opportunity_findById snap i = Some opp" "emap (requested_slice opp) inp = Inr slices"
      "reconcileOpportunityVolume slices (volume_summary opp) = Inr rec"
    and ins: "insert_slices env actor i (first_of_cell [] slices) (volumeSlice_deleteAllByOpportunity i db) = Inr (rows, db1)"
    and same: "mk_volumeSlices db' = mk_volumeSlices db1" "mk_opportunities db' = mk_opportunities db1"
      "mk_recipients db' = mk_recipients db1" "mk_rfqs db' = mk_rfqs db1" "mk_quotes db' = mk_quotes db1"
      "mk_dealRooms db' = mk_dealRooms db1" "mk_participants db' = mk_participants db1" "mk_conditions db' = mk_conditions db1"
    using assms by (auto simp: replaceVolumeSlices_def result_simps Let_def)
  note e = insert_slices_effect [OF ins]
  show thesis
    by (rule that [OF pre]) (use e same in \<open>auto simp: volumeSlice_deleteAllByOpportunity_def\<close>)
qed

end
