(* ===== verification/Request_History.thy ===== *)
theory Request_History
  imports TOL_Prelude
begin

text \<open>
  Histories of a service that runs its requests against one database. A request first reads
  (\<open>snap\<close>) and later commits a transaction on the state \<open>db\<close> it finds then. A history lists
  the committed states, newest first. Without \<open>overlap\<close> a request reads the state it commits on;
  with it a request may have read any earlier state, so every interleaving is a history.
\<close>

inductive request_run :: "('s \<Rightarrow> 's \<Rightarrow> 's \<Rightarrow> bool) \<Rightarrow> ('s \<Rightarrow> bool) \<Rightarrow> bool \<Rightarrow> 's list \<Rightarrow> bool"
  for step start overlap where
  initial: "start db \<Longrightarrow> request_run step start overlap [db]"
| commit: "request_run step start overlap (db # hist) \<Longrightarrow> snap = db \<or> overlap \<and> snap \<in> set hist \<Longrightarrow>
    step snap db db' \<Longrightarrow> request_run step start overlap (db' # db # hist)"

inductive_cases request_run_Cons [elim]: "request_run step start overlap (db # hist)"

lemma request_run_not_Nil [simp]: "\<not> request_run step start overlap []"
  by (auto elim: request_run.cases)

lemma request_run_overlap: "request_run step start False hist \<Longrightarrow> request_run step start True hist"
  by (induction rule: request_run.induct) (auto intro: request_run.intros)

text \<open>The contract of a service: an invariant \<open>inv\<close> and a preorder \<open>keeps\<close> that relates every
  state to the later ones. A request may rely on both for the state it read.\<close>

locale request_history =
  fixes step :: "'s \<Rightarrow> 's \<Rightarrow> 's \<Rightarrow> bool" and start :: "'s \<Rightarrow> bool" and overlap :: bool
    and inv :: "'s \<Rightarrow> bool" and keeps :: "'s \<Rightarrow> 's \<Rightarrow> bool"
  assumes start_inv: "start db \<Longrightarrow> inv db"
    and keeps_refl: "keeps db db"
    and keeps_trans: "keeps a b \<Longrightarrow> keeps b c \<Longrightarrow> keeps a c"
    and step_inv: "step snap db db' \<Longrightarrow> inv snap \<Longrightarrow> keeps snap db \<Longrightarrow> inv db \<Longrightarrow> overlap \<or> snap = db \<Longrightarrow> inv db'"
    and step_keeps: "step snap db db' \<Longrightarrow> inv snap \<Longrightarrow> keeps snap db \<Longrightarrow> inv db \<Longrightarrow> overlap \<or> snap = db \<Longrightarrow> keeps db db'"
begin

lemma history:
  assumes "request_run step start overlap hist"
  shows "(\<forall>db \<in> set hist. inv db) \<and> sorted_wrt (\<lambda>later earlier. keeps earlier later) hist"
  using assms
proof induction
  case (initial db)
  then show ?case by (simp add: start_inv)
next
  case (commit db hist snap db')
  then have snap: "inv snap" "keeps snap db" "inv db" "overlap \<or> snap = db"
    using keeps_refl by auto
  then have "inv db'" "keeps db db'"
    using commit(3) step_inv step_keeps by blast+
  moreover have "keeps old db" if "old \<in> set hist" for old
    using commit.IH that by simp
  ultimately show ?case
    using commit.IH keeps_trans by (auto intro: keeps_trans)
qed

lemma run_inv: "request_run step start overlap hist \<Longrightarrow> db \<in> set hist \<Longrightarrow> inv db"
  using history by blast

lemma run_keeps:
  assumes "request_run step start overlap (later @ db' # between @ db # earlier)"
  shows "keeps db db'"
  using history [OF assms] by (simp add: sorted_wrt_append)

lemma run_step:
  assumes "request_run step start overlap (db # hist)" and "step snap db db'"
    and "snap = db \<or> overlap \<and> snap \<in> set hist"
  shows "inv snap \<and> keeps snap db \<and> inv db \<and> inv db' \<and> keeps db db'"
proof -
  have "request_run step start overlap (db' # db # hist)"
    using assms request_run.commit by metis
  then show ?thesis
    using history [of "db' # db # hist"] assms(3) keeps_refl by auto
qed

end

section \<open>Tables that only grow\<close>

text \<open>A table after a step: its old rows, each moved along \<open>R\<close>, followed by new ones.\<close>

definition grows :: "('r \<Rightarrow> 'r \<Rightarrow> bool) \<Rightarrow> 'r list \<Rightarrow> 'r list \<Rightarrow> 'r list \<Rightarrow> bool" where
  "grows R new rows rows' \<longleftrightarrow> (\<exists>old. rows' = old @ new \<and> list_all2 R rows old)"

lemma growsI: "list_all2 R rows old \<Longrightarrow> grows R new rows (old @ new)"
  by (auto simp: grows_def)

lemma grows_same: "(\<And>x. R x x) \<Longrightarrow> grows R [] rows rows"
  by (simp add: grows_def list_all2_same)

lemma grows_append: "(\<And>x. R x x) \<Longrightarrow> grows R new rows (rows @ new)"
  by (simp add: grows_def list_all2_same)

lemma grows_kept: "grows R new rows rows' \<Longrightarrow> x \<in> set rows \<Longrightarrow> \<exists>y \<in> set rows'. R x y"
  by (force simp: grows_def list_all2_conv_all_nth in_set_conv_nth nth_append)

lemma list_all2_origin: "list_all2 R xs ys \<Longrightarrow> y \<in> set ys \<Longrightarrow> \<exists>x \<in> set xs. R x y"
  by (induction rule: list_all2_induct) auto

lemma grows_origin: "grows R new rows rows' \<Longrightarrow> y \<in> set rows' \<Longrightarrow> y \<in> set new \<or> (\<exists>x \<in> set rows. R x y)"
  by (auto simp: grows_def dest: list_all2_origin)

lemma grows_mono: "grows R new rows rows' \<Longrightarrow> (\<And>x y. R x y \<Longrightarrow> S x y) \<Longrightarrow> grows S new rows rows'"
  unfolding grows_def by (metis list_all2_mono)

lemma grows_trans:
  assumes "grows R new a b" and "grows R new' b c" and "\<And>x y z. R x y \<Longrightarrow> R y z \<Longrightarrow> R x z"
  shows "\<exists>more. grows R more a c"
proof -
  obtain old where b: "b = old @ new" "list_all2 R a old"
    using assms(1) by (auto simp: grows_def)
  obtain old' where c: "c = old' @ new'" "list_all2 R (old @ new) old'"
    using assms(2) b(1) by (auto simp: grows_def)
  from c(2) obtain u v where split: "old' = u @ v" "list_all2 R old u"
    by (auto simp: list_all2_append1)
  have "list_all2 R a u"
    using list_all2_trans [of R R R] assms(3) b(2) split(2) by blast
  then show ?thesis
    unfolding c(1) split(1) by (auto intro: growsI)
qed

lemma grows_keys:
  assumes "grows R new rows rows'" and "\<And>x y. R x y \<Longrightarrow> key y = key x"
  shows "map key rows' = map key rows @ map key new"
proof -
  obtain old where "rows' = old @ new" "list_all2 R rows old"
    using assms(1) by (auto simp: grows_def)
  moreover have "map key old = map key rows"
    using calculation(2) assms(2) by (induction rule: list_all2_induct) auto
  ultimately show ?thesis by simp
qed

lemma grows_distinct:
  assumes "grows R new rows rows'" and "\<And>x y. R x y \<Longrightarrow> key y = key x"
    and "distinct (map key rows)" and "distinct (map key new)" and "\<forall>x \<in> set rows. key x \<notin> key ` set new"
  shows "distinct (map key rows')"
  using grows_keys [of R new rows rows' key] assms by auto

end
