(* ===== verification/Market_History.thy ===== *)
theory Market_History
  imports Market_Effects Request_History
begin

text \<open>
  The marketplace as a whole: which states its operations reach, the invariant that ties RFQs,
  quotes and deal rooms together and the order in which rows may change, both under every
  interleaving of requests and of the expiry job.
\<close>

section \<open>Requests\<close>

inductive market_step :: "MarketStore \<Rightarrow> MarketStore \<Rightarrow> MarketStore \<Rightarrow> bool" where
  create_opportunity: "opportunities_create env actor inp ctx db = Inr (opp, db') \<Longrightarrow> market_step snap db db'"
| replace_slices: "replaceVolumeSlices env actor i inp ctx snap db = Inr (r, db') \<Longrightarrow> market_step snap db db'"
| create_rfq: "rfqs_create env actor inp ctx snap db = Inr (detail, db') \<Longrightarrow> market_step snap db db'"
| decline: "rfqs_decline env actor i reason ctx snap db = Inr (c, db') \<Longrightarrow> market_step snap db db'"
| submit: "submitQuote env actor i inp ctx snap db = Inr (q, db') \<Longrightarrow> market_step snap db db'"
| withdraw: "withdrawQuote env actor i k ctx snap db = Inr (q, db') \<Longrightarrow> market_step snap db db'"
| select: "selectQuote env actor i k reason ctx snap db = Inr (d, db') \<Longrightarrow> market_step snap db db'"
| expiry_job: "rfqExpiryJob env h i snap db = Inr (r, db') \<Longrightarrow> market_step snap db db'"
| expire: "expireOne env h i due db = Inr (fin, db') \<Longrightarrow> market_step snap db db'"
| post_condition: "postCondition env actor i inp ctx snap db = Inr (c, db') \<Longrightarrow> market_step snap db db'"
| resolve_condition: "resolveCondition env actor i k s note ctx snap db = Inr (c, db') \<Longrightarrow> market_step snap db db'"
| record_decision: "recordDecision env actor i ty reason ctx snap db = Inr (row, db') \<Longrightarrow> market_step snap db db'"

text \<open>A marketplace before its first RFQ. Opportunities may be in any status.\<close>

definition market_start :: "MarketStore \<Rightarrow> bool" where
  "market_start db \<longleftrightarrow> distinct (map op_id (mk_opportunities db)) \<and> mk_rfqs db = [] \<and> mk_recipients db = [] \<and>
     mk_quotes db = [] \<and> mk_dealRooms db = [] \<and> mk_participants db = [] \<and> mk_conditions db = []"

section \<open>How rows move\<close>

abbreviation quote_steps :: "QuoteStatus \<Rightarrow> QuoteStatus \<Rightarrow> bool" where
  "quote_steps \<equiv> (\<lambda>s t. t \<in> set (QUOTE_TRANSITIONS s))\<^sup>*\<^sup>*"

abbreviation room_steps :: "DealRoomStatus \<Rightarrow> DealRoomStatus \<Rightarrow> bool" where
  "room_steps \<equiv> (\<lambda>s t. t \<in> set (DEAL_ROOM_TRANSITIONS s))\<^sup>*\<^sup>*"

abbreviation condition_steps :: "DealConditionState \<Rightarrow> DealConditionState \<Rightarrow> bool" where
  "condition_steps \<equiv> (\<lambda>s t. t \<in> set (DEAL_CONDITION_TRANSITIONS s))\<^sup>*\<^sup>*"

definition opp_moves :: "Opportunity \<Rightarrow> Opportunity \<Rightarrow> bool" where
  "opp_moves x y \<longleftrightarrow> op_id y = op_id x \<and> op_ownerOrgId y = op_ownerOrgId x"

definition rfq_moves :: "RFQ \<Rightarrow> RFQ \<Rightarrow> bool" where
  "rfq_moves x y \<longleftrightarrow> rf_id y = rf_id x \<and> rf_opportunityId y = rf_opportunityId x \<and> rf_dueAt y = rf_dueAt x \<and>
     (rf_status x = Rfq_SELECTED \<longrightarrow> rf_status y = Rfq_SELECTED)"

definition recipient_moves :: "RFQRecipient \<Rightarrow> RFQRecipient \<Rightarrow> bool" where
  "recipient_moves x y \<longleftrightarrow> rc_id y = rc_id x \<and> invitation y = invitation x \<and>
     (rc_state y \<in> {Rcp_INVITED, Rcp_ACKNOWLEDGED} \<longrightarrow> rc_state x \<in> {Rcp_INVITED, Rcp_ACKNOWLEDGED})"

definition quote_fixed :: "Quote \<Rightarrow> string \<times> string \<times> string \<times> string \<times> int \<times> string \<times> int \<times> json_input" where
  "quote_fixed q = (qt_id q, qt_rfqId q, qt_rfqRecipientId q, qt_providerOrgId q, qt_quoteVersion q, qt_currency q,
     qt_validUntil q, qt_terms q)"

definition quote_moves :: "Quote \<Rightarrow> Quote \<Rightarrow> bool" where
  "quote_moves x y \<longleftrightarrow> quote_fixed y = quote_fixed x \<and> quote_steps (qt_status x) (qt_status y)"

definition room_fixed :: "DealRoomRow \<Rightarrow> string \<times> string \<times> string \<times> string \<times> string \<times> string" where
  "room_fixed d = (dl_id d, dl_opportunityId d, dl_rfqId d, dl_selectedQuoteId d, dl_merchantOrgId d, dl_providerOrgId d)"

definition room_moves :: "DealRoomRow \<Rightarrow> DealRoomRow \<Rightarrow> bool" where
  "room_moves x y \<longleftrightarrow> room_fixed y = room_fixed x \<and> room_steps (dl_status x) (dl_status y)"

definition condition_fixed ::
  "DealCondition \<Rightarrow> string \<times> string \<times> string \<times> string \<times> string option \<times> int option \<times> bool" where
  "condition_fixed c = (dc_id c, dc_dealRoomId c, dc_description c, dc_ownerOrgId c, dc_evidenceRef c, dc_dueAt c,
     dc_blocking c)"

definition condition_moves :: "DealCondition \<Rightarrow> DealCondition \<Rightarrow> bool" where
  "condition_moves x y \<longleftrightarrow> condition_fixed y = condition_fixed x \<and> condition_steps (dc_state x) (dc_state y)"

definition market_keeps :: "MarketStore \<Rightarrow> MarketStore \<Rightarrow> bool" where
  "market_keeps db db' \<longleftrightarrow>
     (\<exists>new. grows opp_moves new (mk_opportunities db) (mk_opportunities db')) \<and>
     (\<exists>new. grows rfq_moves new (mk_rfqs db) (mk_rfqs db')) \<and>
     (\<exists>new. grows recipient_moves new (mk_recipients db) (mk_recipients db')) \<and>
     (\<exists>new. grows quote_moves new (mk_quotes db) (mk_quotes db')) \<and>
     (\<exists>new. grows room_moves new (mk_dealRooms db) (mk_dealRooms db')) \<and>
     (\<exists>new. grows (=) new (mk_participants db) (mk_participants db')) \<and>
     (\<exists>new. grows condition_moves new (mk_conditions db) (mk_conditions db'))"

lemma moves_refl [simp]:
  "opp_moves x1 x1" "rfq_moves x2 x2" "recipient_moves x3 x3" "quote_moves x4 x4" "room_moves x5 x5"
  "condition_moves x6 x6"
  by (simp_all add: opp_moves_def rfq_moves_def recipient_moves_def quote_moves_def room_moves_def condition_moves_def)

lemma moves_trans:
  "opp_moves a1 b1 \<Longrightarrow> opp_moves b1 c1 \<Longrightarrow> opp_moves a1 c1"
  "rfq_moves a2 b2 \<Longrightarrow> rfq_moves b2 c2 \<Longrightarrow> rfq_moves a2 c2"
  "recipient_moves a3 b3 \<Longrightarrow> recipient_moves b3 c3 \<Longrightarrow> recipient_moves a3 c3"
  "quote_moves a4 b4 \<Longrightarrow> quote_moves b4 c4 \<Longrightarrow> quote_moves a4 c4"
  "room_moves a5 b5 \<Longrightarrow> room_moves b5 c5 \<Longrightarrow> room_moves a5 c5"
  "condition_moves a6 b6 \<Longrightarrow> condition_moves b6 c6 \<Longrightarrow> condition_moves a6 c6"
  by (auto simp: opp_moves_def rfq_moves_def recipient_moves_def quote_moves_def room_moves_def condition_moves_def)

lemma moves_keys:
  "opp_moves x1 y1 \<Longrightarrow> op_id y1 = op_id x1" "rfq_moves x2 y2 \<Longrightarrow> rf_id y2 = rf_id x2"
  "recipient_moves x3 y3 \<Longrightarrow> rc_id y3 = rc_id x3" "recipient_moves x3 y3 \<Longrightarrow> invitation y3 = invitation x3"
  "quote_moves x4 y4 \<Longrightarrow> qt_id y4 = qt_id x4"
  "room_moves x5 y5 \<Longrightarrow> dl_id y5 = dl_id x5" "room_moves x5 y5 \<Longrightarrow> dl_rfqId y5 = dl_rfqId x5"
  "room_moves x5 y5 \<Longrightarrow> dl_selectedQuoteId y5 = dl_selectedQuoteId x5"
  "room_moves x5 y5 \<Longrightarrow> dl_opportunityId y5 = dl_opportunityId x5"
  "condition_moves x6 y6 \<Longrightarrow> dc_id y6 = dc_id x6"
  by (auto simp: opp_moves_def rfq_moves_def recipient_moves_def quote_moves_def quote_fixed_def room_moves_def
      room_fixed_def condition_moves_def condition_fixed_def)

lemma market_keeps_refl: "market_keeps db db"
  unfolding market_keeps_def by (intro conjI exI [of _ "[]"] grows_same moves_refl) simp_all

lemma market_keeps_trans: "market_keeps a b \<Longrightarrow> market_keeps b c \<Longrightarrow> market_keeps a c"
  unfolding market_keeps_def by (blast intro: grows_trans moves_trans)

text \<open>A status outside the keys of the table is final.\<close>

lemma steps_final:
  "quote_steps Qt_SELECTED s \<longleftrightarrow> s = Qt_SELECTED" "condition_steps Cond_SATISFIED c \<longleftrightarrow> c = Cond_SATISFIED"
  by (auto elim: converse_rtranclpE)

section \<open>The invariant\<close>

definition market_keys :: "MarketStore \<Rightarrow> bool" where
  "market_keys db \<longleftrightarrow> distinct (map op_id (mk_opportunities db)) \<and> distinct (map rf_id (mk_rfqs db)) \<and>
     distinct (map rc_id (mk_recipients db)) \<and> distinct (map invitation (mk_recipients db)) \<and>
     distinct (map qt_id (mk_quotes db)) \<and> distinct (map dl_id (mk_dealRooms db)) \<and>
     distinct (map dl_rfqId (mk_dealRooms db)) \<and> distinct (map dl_selectedQuoteId (mk_dealRooms db)) \<and>
     distinct (map dc_id (mk_conditions db))"

definition rfq_backed :: "MarketStore \<Rightarrow> RFQ \<Rightarrow> bool" where
  "rfq_backed db rf \<longleftrightarrow> (\<exists>opp \<in> set (mk_opportunities db). op_id opp = rf_opportunityId rf)"

definition recipient_backed :: "MarketStore \<Rightarrow> RFQRecipient \<Rightarrow> bool" where
  "recipient_backed db c \<longleftrightarrow> (\<exists>rf \<in> set (mk_rfqs db). rf_id rf = rc_rfqId c)"

definition quote_backed :: "MarketStore \<Rightarrow> Quote \<Rightarrow> bool" where
  "quote_backed db q \<longleftrightarrow> (\<exists>c \<in> set (mk_recipients db). rc_id c = qt_rfqRecipientId q \<and>
     invitation c = (qt_rfqId q, qt_providerOrgId q) \<and> rc_state c \<notin> {Rcp_INVITED, Rcp_ACKNOWLEDGED})"

definition room_backed :: "MarketStore \<Rightarrow> DealRoomRow \<Rightarrow> bool" where
  "room_backed db d \<longleftrightarrow>
     (\<exists>q \<in> set (mk_quotes db). qt_id q = dl_selectedQuoteId d \<and> qt_status q = Qt_SELECTED \<and> qt_rfqId q = dl_rfqId d \<and>
        qt_providerOrgId q = dl_providerOrgId d) \<and>
     (\<exists>rf \<in> set (mk_rfqs db). rf_id rf = dl_rfqId d \<and> rf_status rf = Rfq_SELECTED \<and>
        rf_opportunityId rf = dl_opportunityId d) \<and>
     (\<exists>opp \<in> set (mk_opportunities db). op_id opp = dl_opportunityId d \<and> op_ownerOrgId opp = dl_merchantOrgId d) \<and>
     map (\<lambda>p. (pt_organizationId p, pt_participantRole p)) (participant_listByDealRoom db (dl_id d)) =
       [(dl_merchantOrgId d, Party_MERCHANT), (dl_providerOrgId d, Party_PROVIDER)]"

definition condition_backed :: "MarketStore \<Rightarrow> DealCondition \<Rightarrow> bool" where
  "condition_backed db c \<longleftrightarrow> (\<exists>d \<in> set (mk_dealRooms db). dl_id d = dc_dealRoomId c \<and>
     dc_ownerOrgId c \<in> {dl_merchantOrgId d, dl_providerOrgId d})"

text \<open>What was selected has its deal room, and nobody takes part in a deal room that does not exist.\<close>

definition selections_open :: "MarketStore \<Rightarrow> bool" where
  "selections_open db \<longleftrightarrow>
     (\<forall>q \<in> set (mk_quotes db). qt_status q = Qt_SELECTED \<longrightarrow> (\<exists>d \<in> set (mk_dealRooms db). dl_selectedQuoteId d = qt_id q)) \<and>
     (\<forall>rf \<in> set (mk_rfqs db). rf_status rf = Rfq_SELECTED \<longrightarrow> (\<exists>d \<in> set (mk_dealRooms db). dl_rfqId d = rf_id rf)) \<and>
     (\<forall>p \<in> set (mk_participants db). \<exists>d \<in> set (mk_dealRooms db). dl_id d = pt_dealRoomId p)"

definition market_ok :: "MarketStore \<Rightarrow> bool" where
  "market_ok db \<longleftrightarrow> market_keys db \<and> (\<forall>rf \<in> set (mk_rfqs db). rfq_backed db rf) \<and>
     (\<forall>c \<in> set (mk_recipients db). recipient_backed db c) \<and>
     (\<forall>q \<in> set (mk_quotes db). quote_backed db q) \<and> (\<forall>d \<in> set (mk_dealRooms db). room_backed db d) \<and>
     (\<forall>c \<in> set (mk_conditions db). condition_backed db c) \<and> selections_open db"

lemma market_start_ok: "market_start db \<Longrightarrow> market_ok db"
  by (simp add: market_start_def market_ok_def market_keys_def selections_open_def)

section \<open>What survives a step\<close>

lemma grows_set_by:
  assumes "\<And>x. R x x" and "\<And>x. x \<in> set rows \<Longrightarrow> key x = i \<Longrightarrow> R x (f x)"
  shows "grows R [] rows (set_by key i f rows)"
  using assms by (simp add: grows_def set_by_def list.rel_map list.rel_refl_strong)

lemma grows_set_by_append:
  "grows R [] rows (set_by key i f rows) \<Longrightarrow> grows R new rows (set_by key i f rows @ new)"
  by (simp add: grows_def)

lemma grows_find:
  assumes "grows R new rows rows'" and "\<And>x y. R x y \<Longrightarrow> key y = key x" and "distinct (map key rows')"
    and "find_by key i rows = Some x"
  shows "\<exists>y. find_by key i rows' = Some y \<and> R x y"
proof -
  have x: "x \<in> set rows" "key x = i"
    using find_by_SomeD [OF assms(4)] by auto
  then obtain y where "y \<in> set rows'" "R x y"
    using grows_kept [OF assms(1)] by blast
  then show ?thesis
    using assms(2,3) x find_by_eq_iff by metis
qed

lemma keeps_tables:
  assumes "market_keeps db db'"
  shows "x1 \<in> set (mk_opportunities db) \<Longrightarrow> \<exists>y \<in> set (mk_opportunities db'). opp_moves x1 y"
    and "x2 \<in> set (mk_rfqs db) \<Longrightarrow> \<exists>y \<in> set (mk_rfqs db'). rfq_moves x2 y"
    and "x3 \<in> set (mk_recipients db) \<Longrightarrow> \<exists>y \<in> set (mk_recipients db'). recipient_moves x3 y"
    and "x4 \<in> set (mk_quotes db) \<Longrightarrow> \<exists>y \<in> set (mk_quotes db'). quote_moves x4 y"
    and "x5 \<in> set (mk_dealRooms db) \<Longrightarrow> \<exists>y \<in> set (mk_dealRooms db'). room_moves x5 y"
  using assms unfolding market_keeps_def by (blast dest: grows_kept)+

lemma backed_keeps:
  assumes keeps: "market_keeps db db'"
  shows "rfq_backed db x1 \<Longrightarrow> rfq_moves x1 y1 \<Longrightarrow> rfq_backed db' y1"
    and "recipient_backed db x2 \<Longrightarrow> recipient_moves x2 y2 \<Longrightarrow> recipient_backed db' y2"
    and "quote_backed db x3 \<Longrightarrow> quote_moves x3 y3 \<Longrightarrow> quote_backed db' y3"
    and "condition_backed db x4 \<Longrightarrow> condition_moves x4 y4 \<Longrightarrow> condition_backed db' y4"
proof -
  note kept = keeps_tables [OF keeps]
  show "rfq_backed db x1 \<Longrightarrow> rfq_moves x1 y1 \<Longrightarrow> rfq_backed db' y1"
    using kept(1) unfolding rfq_backed_def rfq_moves_def opp_moves_def by metis
  show "recipient_backed db x2 \<Longrightarrow> recipient_moves x2 y2 \<Longrightarrow> recipient_backed db' y2"
    using kept(2) unfolding recipient_backed_def recipient_moves_def rfq_moves_def invitation_def by (metis prod.inject)
  show "quote_backed db' y3" if "quote_backed db x3" and "quote_moves x3 y3"
  proof -
    obtain c where c: "c \<in> set (mk_recipients db)" "rc_id c = qt_rfqRecipientId x3"
      "invitation c = (qt_rfqId x3, qt_providerOrgId x3)" "rc_state c \<notin> {Rcp_INVITED, Rcp_ACKNOWLEDGED}"
      using \<open>quote_backed db x3\<close> by (auto simp: quote_backed_def)
    then obtain c' where "c' \<in> set (mk_recipients db')" "recipient_moves c c'"
      using kept(3) by blast
    with c that(2) show ?thesis
      unfolding quote_backed_def recipient_moves_def quote_moves_def quote_fixed_def by (intro bexI [of _ c']) auto
  qed
  show "condition_backed db' y4" if "condition_backed db x4" and "condition_moves x4 y4"
  proof -
    obtain d where d: "d \<in> set (mk_dealRooms db)" "dl_id d = dc_dealRoomId x4"
      "dc_ownerOrgId x4 \<in> {dl_merchantOrgId d, dl_providerOrgId d}"
      using \<open>condition_backed db x4\<close> by (auto simp: condition_backed_def)
    then obtain d' where "d' \<in> set (mk_dealRooms db')" "room_moves d d'"
      using kept(5) by blast
    with d that(2) show ?thesis
      unfolding condition_backed_def room_moves_def room_fixed_def condition_moves_def condition_fixed_def
      by (intro bexI [of _ d']) auto
  qed
qed

lemma room_backed_keeps:
  assumes keeps: "market_keeps db db'" and backed: "room_backed db x" and moves: "room_moves x y"
    and parties: "participant_listByDealRoom db' (dl_id x) = participant_listByDealRoom db (dl_id x)"
  shows "room_backed db' y"
proof -
  have fixed: "dl_id y = dl_id x" "dl_opportunityId y = dl_opportunityId x" "dl_rfqId y = dl_rfqId x"
    "dl_selectedQuoteId y = dl_selectedQuoteId x" "dl_merchantOrgId y = dl_merchantOrgId x"
    "dl_providerOrgId y = dl_providerOrgId x"
    using moves by (auto simp: room_moves_def room_fixed_def)
  obtain q rf opp where old: "q \<in> set (mk_quotes db)" "rf \<in> set (mk_rfqs db)" "opp \<in> set (mk_opportunities db)"
    and q: "qt_id q = dl_selectedQuoteId x" "qt_status q = Qt_SELECTED" "qt_rfqId q = dl_rfqId x"
      "qt_providerOrgId q = dl_providerOrgId x"
    and rf: "rf_id rf = dl_rfqId x" "rf_status rf = Rfq_SELECTED" "rf_opportunityId rf = dl_opportunityId x"
    and opp: "op_id opp = dl_opportunityId x" "op_ownerOrgId opp = dl_merchantOrgId x"
    using backed unfolding room_backed_def by blast
  obtain q' rf' opp' where new: "q' \<in> set (mk_quotes db')" "rf' \<in> set (mk_rfqs db')" "opp' \<in> set (mk_opportunities db')"
    and moved: "quote_moves q q'" "rfq_moves rf rf'" "opp_moves opp opp'"
    using keeps_tables [OF keeps] old by metis
  have "\<exists>q \<in> set (mk_quotes db'). qt_id q = dl_selectedQuoteId x \<and> qt_status q = Qt_SELECTED \<and> qt_rfqId q = dl_rfqId x \<and>
      qt_providerOrgId q = dl_providerOrgId x"
    using new(1) moved(1) q by (intro bexI [of _ q']) (auto simp: quote_moves_def quote_fixed_def steps_final)
  moreover have "\<exists>rf \<in> set (mk_rfqs db'). rf_id rf = dl_rfqId x \<and> rf_status rf = Rfq_SELECTED \<and>
      rf_opportunityId rf = dl_opportunityId x"
    using new(2) moved(2) rf by (intro bexI [of _ rf']) (auto simp: rfq_moves_def)
  moreover have "\<exists>opp \<in> set (mk_opportunities db'). op_id opp = dl_opportunityId x \<and> op_ownerOrgId opp = dl_merchantOrgId x"
    using new(3) moved(3) opp by (intro bexI [of _ opp']) (auto simp: opp_moves_def)
  ultimately show ?thesis
    using backed parties unfolding room_backed_def fixed by simp
qed

text \<open>The invariant after a step follows from what the step added.\<close>

lemma market_ok_step:
  assumes ok: "market_ok db" and keeps: "market_keeps db db'" and keys: "market_keys db'"
    and rfqs: "grows rfq_moves rs (mk_rfqs db) (mk_rfqs db')" "\<forall>x \<in> set rs. rfq_backed db' x"
    and recipients: "grows recipient_moves cs (mk_recipients db) (mk_recipients db')" "\<forall>x \<in> set cs. recipient_backed db' x"
    and quotes: "grows quote_moves qs (mk_quotes db) (mk_quotes db')" "\<forall>x \<in> set qs. quote_backed db' x"
    and rooms: "grows room_moves ds (mk_dealRooms db) (mk_dealRooms db')" "\<forall>x \<in> set ds. room_backed db' x"
    and conditions: "grows condition_moves ks (mk_conditions db) (mk_conditions db')" "\<forall>x \<in> set ks. condition_backed db' x"
    and parties: "\<forall>d \<in> set (mk_dealRooms db).
      participant_listByDealRoom db' (dl_id d) = participant_listByDealRoom db (dl_id d)"
    and selections: "selections_open db'"
  shows "market_ok db'"
proof -
  have "rfq_backed db' y" if "y \<in> set (mk_rfqs db')" for y
    using grows_origin [OF rfqs(1) that] rfqs(2) ok backed_keeps(1) [OF keeps] by (auto simp: market_ok_def)
  moreover have "recipient_backed db' y" if "y \<in> set (mk_recipients db')" for y
    using grows_origin [OF recipients(1) that] recipients(2) ok backed_keeps(2) [OF keeps] by (auto simp: market_ok_def)
  moreover have "quote_backed db' y" if "y \<in> set (mk_quotes db')" for y
    using grows_origin [OF quotes(1) that] quotes(2) ok backed_keeps(3) [OF keeps] by (auto simp: market_ok_def)
  moreover have "room_backed db' y" if "y \<in> set (mk_dealRooms db')" for y
    using grows_origin [OF rooms(1) that] rooms(2) ok parties room_backed_keeps [OF keeps] by (auto simp: market_ok_def)
  moreover have "condition_backed db' y" if "y \<in> set (mk_conditions db')" for y
    using grows_origin [OF conditions(1) that] conditions(2) ok backed_keeps(4) [OF keeps] by (auto simp: market_ok_def)
  ultimately show ?thesis
    using keys selections by (simp add: market_ok_def)
qed

text \<open>A step that selects nothing and opens no deal room.\<close>

lemma quiet_step:
  assumes ok: "market_ok db"
    and opps: "grows opp_moves os (mk_opportunities db) (mk_opportunities db')" "distinct (map op_id (mk_opportunities db'))"
    and rfqs: "grows (\<lambda>x y. rfq_moves x y \<and> (rf_status y = Rfq_SELECTED \<longrightarrow> rf_status x = Rfq_SELECTED)) rs
        (mk_rfqs db) (mk_rfqs db')"
      "distinct (map rf_id (mk_rfqs db'))" "\<forall>x \<in> set rs. rf_status x \<noteq> Rfq_SELECTED \<and> rfq_backed db' x"
    and recipients: "grows recipient_moves cs (mk_recipients db) (mk_recipients db')"
      "distinct (map rc_id (mk_recipients db'))" "distinct (map invitation (mk_recipients db'))"
      "\<forall>x \<in> set cs. recipient_backed db' x"
    and quotes: "grows (\<lambda>x y. quote_moves x y \<and> (qt_status y = Qt_SELECTED \<longrightarrow> qt_status x = Qt_SELECTED)) qs
        (mk_quotes db) (mk_quotes db')"
      "distinct (map qt_id (mk_quotes db'))" "\<forall>x \<in> set qs. qt_status x \<noteq> Qt_SELECTED \<and> quote_backed db' x"
    and rooms: "grows room_moves [] (mk_dealRooms db) (mk_dealRooms db')"
    and participants: "mk_participants db' = mk_participants db"
    and conditions: "grows condition_moves ks (mk_conditions db) (mk_conditions db')"
      "distinct (map dc_id (mk_conditions db'))" "\<forall>x \<in> set ks. condition_backed db' x"
  shows "market_ok db' \<and> market_keeps db db'"
proof
  have gR: "grows rfq_moves rs (mk_rfqs db) (mk_rfqs db')" and gQ: "grows quote_moves qs (mk_quotes db) (mk_quotes db')"
    using rfqs(1) quotes(1) by (auto elim: grows_mono)
  have gP: "grows (=) [] (mk_participants db) (mk_participants db')"
    by (simp add: participants grows_same)
  show keeps: "market_keeps db db'"
    unfolding market_keeps_def using opps(1) gR recipients(1) gQ rooms gP conditions(1) by blast
  have "map dl_id (mk_dealRooms db') = map dl_id (mk_dealRooms db)"
    "map dl_rfqId (mk_dealRooms db') = map dl_rfqId (mk_dealRooms db)"
    "map dl_selectedQuoteId (mk_dealRooms db') = map dl_selectedQuoteId (mk_dealRooms db)"
    using grows_keys [OF rooms, of dl_id] grows_keys [OF rooms, of dl_rfqId]
      grows_keys [OF rooms, of dl_selectedQuoteId] moves_keys(6-8) by simp_all
  then have keys: "market_keys db'"
    using ok opps(2) rfqs(2) recipients(2,3) quotes(2) conditions(2) by (simp add: market_ok_def market_keys_def)
  have old: "selections_open db"
    using ok by (simp add: market_ok_def)
  have kept: "\<exists>d' \<in> set (mk_dealRooms db'). room_moves d d'" if "d \<in> set (mk_dealRooms db)" for d
    using grows_kept [OF rooms that] .
  have "\<exists>d \<in> set (mk_dealRooms db'). dl_selectedQuoteId d = qt_id q"
    if "q \<in> set (mk_quotes db')" "qt_status q = Qt_SELECTED" for q
    using grows_origin [OF quotes(1) that(1)] quotes(3) that(2) old kept moves_keys(5,8)
    unfolding selections_open_def by metis
  moreover have "\<exists>d \<in> set (mk_dealRooms db'). dl_rfqId d = rf_id rf"
    if "rf \<in> set (mk_rfqs db')" "rf_status rf = Rfq_SELECTED" for rf
    using grows_origin [OF rfqs(1) that(1)] rfqs(3) that(2) old kept moves_keys(2,7)
    unfolding selections_open_def by metis
  moreover have "\<exists>d \<in> set (mk_dealRooms db'). dl_id d = pt_dealRoomId p" if "p \<in> set (mk_participants db')" for p
    using that old kept moves_keys(6) unfolding selections_open_def participants by metis
  ultimately have "selections_open db'"
    by (simp add: selections_open_def)
  then show "market_ok db'"
    using market_ok_step [OF ok keeps keys gR _ recipients(1,4) gQ _ rooms _ conditions(1,3)] rfqs(3) quotes(3)
    by (simp add: participant_listByDealRoom_def participants)
qed

section \<open>The operations keep the invariant\<close>

lemma keys_of: "market_ok db \<Longrightarrow> market_keys db"
  by (simp add: market_ok_def)

lemma snap_find:
  assumes "market_keeps snap db" and "market_keys db"
  shows "opportunity_findById snap i = Some x1 \<Longrightarrow> \<exists>y. opportunity_findById db i = Some y \<and> opp_moves x1 y"
    and "rfq_findById snap i = Some x2 \<Longrightarrow> \<exists>y. rfq_findById db i = Some y \<and> rfq_moves x2 y"
    and "find_by rc_id i (mk_recipients snap) = Some x3 \<Longrightarrow>
      \<exists>y. find_by rc_id i (mk_recipients db) = Some y \<and> recipient_moves x3 y"
    and "quote_findById snap i = Some x4 \<Longrightarrow> \<exists>y. quote_findById db i = Some y \<and> quote_moves x4 y"
    and "dealRoomRow_findById snap i = Some x5 \<Longrightarrow> \<exists>y. dealRoomRow_findById db i = Some y \<and> room_moves x5 y"
proof -
  obtain n1 n2 n3 n4 n5 where g: "grows opp_moves n1 (mk_opportunities snap) (mk_opportunities db)"
    "grows rfq_moves n2 (mk_rfqs snap) (mk_rfqs db)" "grows recipient_moves n3 (mk_recipients snap) (mk_recipients db)"
    "grows quote_moves n4 (mk_quotes snap) (mk_quotes db)" "grows room_moves n5 (mk_dealRooms snap) (mk_dealRooms db)"
    using assms(1) unfolding market_keeps_def by blast
  note d = assms(2) [unfolded market_keys_def]
  show "opportunity_findById snap i = Some x1 \<Longrightarrow> \<exists>y. opportunity_findById db i = Some y \<and> opp_moves x1 y"
    using grows_find [OF g(1), of op_id i x1] moves_keys(1) d by (simp add: opportunity_findById_def)
  show "rfq_findById snap i = Some x2 \<Longrightarrow> \<exists>y. rfq_findById db i = Some y \<and> rfq_moves x2 y"
    using grows_find [OF g(2), of rf_id i x2] moves_keys(2) d by (simp add: rfq_findById_def)
  show "find_by rc_id i (mk_recipients snap) = Some x3 \<Longrightarrow>
      \<exists>y. find_by rc_id i (mk_recipients db) = Some y \<and> recipient_moves x3 y"
    using grows_find [OF g(3), of rc_id i x3] moves_keys(3) d by simp
  show "quote_findById snap i = Some x4 \<Longrightarrow> \<exists>y. quote_findById db i = Some y \<and> quote_moves x4 y"
    using grows_find [OF g(4), of qt_id i x4] moves_keys(5) d by (simp add: quote_findById_def)
  show "dealRoomRow_findById snap i = Some x5 \<Longrightarrow> \<exists>y. dealRoomRow_findById db i = Some y \<and> room_moves x5 y"
    using grows_find [OF g(5), of dl_id i x5] moves_keys(6) d by (simp add: dealRoomRow_findById_def)
qed

lemma found_in:
  "opportunity_findById db i = Some x1 \<Longrightarrow> x1 \<in> set (mk_opportunities db)"
  "rfq_findById db i = Some x2 \<Longrightarrow> x2 \<in> set (mk_rfqs db)"
  "quote_findById db i = Some x3 \<Longrightarrow> x3 \<in> set (mk_quotes db)"
  "dealRoomRow_findById db i = Some x4 \<Longrightarrow> x4 \<in> set (mk_dealRooms db)"
  by (auto simp: opportunity_findById_def rfq_findById_def quote_findById_def dealRoomRow_findById_def dest: find_by_SomeD)

lemma quote_steps_SUBMITTED [simp]: "quote_steps Qt_SUBMITTED s"
  by (cases s) (auto intro: r_into_rtranclp)

lemma status_moves:
  "opp_moves x1 (opp_to s1 u x1)" "rf_status x2 \<noteq> Rfq_SELECTED \<Longrightarrow> rfq_moves x2 (rfq_to s2 u x2)"
  "rfq_moves x2 (rfq_to Rfq_SELECTED u x2)"
  "s3 \<notin> {Rcp_INVITED, Rcp_ACKNOWLEDGED} \<Longrightarrow> recipient_moves x3 (recipient_to s3 u r x3)"
  "qt_status x4 = Qt_SUBMITTED \<Longrightarrow> quote_moves x4 (quote_to s4 u x4)"
  "s5 \<in> set (DEAL_ROOM_TRANSITIONS (dl_status x5)) \<Longrightarrow> room_moves x5 (room_to s5 u x5)"
  "s6 \<in> set (DEAL_CONDITION_TRANSITIONS (dc_state x6)) \<Longrightarrow> condition_moves x6 (condition_to s6 n u x6)"
  by (auto simp: opp_moves_def rfq_moves_def recipient_moves_def invitation_def quote_moves_def quote_fixed_def
      room_moves_def room_fixed_def condition_moves_def condition_fixed_def)

lemma grows_opp_to: "grows opp_moves [] rows (set_by op_id i (opp_to s u) rows)"
  by (rule grows_set_by [where R = opp_moves]) (rule moves_refl, rule status_moves)

lemma grows_recipient_to:
  "s \<notin> {Rcp_INVITED, Rcp_ACKNOWLEDGED} \<Longrightarrow> grows recipient_moves [] rows (set_by rc_id i (recipient_to s u r) rows)"
  by (rule grows_set_by [where R = recipient_moves]) (rule moves_refl, rule status_moves)

text \<open>The tables a step leaves alone.\<close>

lemma untouched:
  assumes "market_ok db"
  shows "distinct (map op_id (mk_opportunities db))" "distinct (map rf_id (mk_rfqs db))"
    "distinct (map rc_id (mk_recipients db))" "distinct (map invitation (mk_recipients db))"
    "distinct (map qt_id (mk_quotes db))" "distinct (map dl_id (mk_dealRooms db))" "distinct (map dc_id (mk_conditions db))"
  using assms by (simp_all add: market_ok_def market_keys_def)

lemma found_by_key:
  assumes "market_ok db"
  shows "rfq_findById db i = Some x1 \<Longrightarrow> y1 \<in> set (mk_rfqs db) \<Longrightarrow> rf_id y1 = i \<Longrightarrow> y1 = x1"
    "quote_findById db i = Some x2 \<Longrightarrow> y2 \<in> set (mk_quotes db) \<Longrightarrow> qt_id y2 = i \<Longrightarrow> y2 = x2"
    "dealRoomRow_findById db i = Some x3 \<Longrightarrow> y3 \<in> set (mk_dealRooms db) \<Longrightarrow> dl_id y3 = i \<Longrightarrow> y3 = x3"
    "condition_findById db i = Some x4 \<Longrightarrow> y4 \<in> set (mk_conditions db) \<Longrightarrow> dc_id y4 = i \<Longrightarrow> y4 = x4"
    "opportunity_findById db i = Some x5 \<Longrightarrow> y5 \<in> set (mk_opportunities db) \<Longrightarrow> op_id y5 = i \<Longrightarrow> y5 = x5"
  using untouched [OF assms]
  by (auto simp: rfq_findById_def quote_findById_def dealRoomRow_findById_def condition_findById_def opportunity_findById_def
      find_by_eq_iff inj_on_def distinct_map)

lemma ids_set_by [simp]:
  "map op_id (set_by op_id i (opp_to s1 u) rows1) = map op_id rows1"
  "map rf_id (set_by rf_id i (rfq_to s2 u) rows2) = map rf_id rows2"
  "map rc_id (set_by rc_id i (recipient_to s3 u r) rows3) = map rc_id rows3"
  "map invitation (set_by rc_id i (recipient_to s3 u r) rows3) = map invitation rows3"
  "map qt_id (set_by qt_id i (quote_to s4 u) rows4) = map qt_id rows4"
  "map dc_id (set_by dc_id i (condition_to s6 n u) rows6) = map dc_id rows6"
  by (rule map_set_by, simp add: invitation_def)+

lemmas same_rows = grows_same [OF moves_refl(1)] grows_same [OF moves_refl(2)] grows_same [OF moves_refl(3)]
  grows_same [OF moves_refl(4)] grows_same [OF moves_refl(5)] grows_same [OF moves_refl(6)]

lemma opportunities_create_ok:
  assumes "opportunities_create env actor inp ctx db = Inr (opp, db')" and ok: "market_ok db"
  shows "market_ok db' \<and> market_keeps db db'"
proof -
  note e = opportunities_create_effect [OF assms(1)]
  show ?thesis
    by (rule quiet_step [OF ok, where os = "[opp]" and rs = "[]" and cs = "[]" and qs = "[]" and ks = "[]"])
      (use e untouched [OF ok] in \<open>auto intro: grows_append grows_same\<close>)
qed

text \<open>A step that adds no row at all and changes no quote and no RFQ.\<close>

lemma quiet_update:
  assumes ok: "market_ok db"
    and same: "mk_rfqs db' = mk_rfqs db" "mk_quotes db' = mk_quotes db" "mk_participants db' = mk_participants db"
    and opps: "grows opp_moves [] (mk_opportunities db) (mk_opportunities db')"
    and recipients: "grows recipient_moves [] (mk_recipients db) (mk_recipients db')"
    and rooms: "grows room_moves [] (mk_dealRooms db) (mk_dealRooms db')"
    and conditions: "grows condition_moves [] (mk_conditions db) (mk_conditions db')"
  shows "market_ok db' \<and> market_keeps db db'"
proof -
  have keys: "map op_id (mk_opportunities db') = map op_id (mk_opportunities db)"
    "map rc_id (mk_recipients db') = map rc_id (mk_recipients db)"
    "map invitation (mk_recipients db') = map invitation (mk_recipients db)"
    "map dc_id (mk_conditions db') = map dc_id (mk_conditions db)"
    using grows_keys [OF opps, of op_id] grows_keys [OF recipients, of rc_id] grows_keys [OF recipients, of invitation]
      grows_keys [OF conditions, of dc_id] moves_keys(1,3,4,10) by simp_all
  show ?thesis
    by (rule quiet_step [OF ok opps _ _ _ _ recipients _ _ _ _ _ _ rooms same(3) conditions, where rs = "[]" and qs = "[]"])
      (use untouched [OF ok] keys in \<open>simp_all add: same grows_same\<close>)
qed

lemma replaceVolumeSlices_ok:
  assumes "replaceVolumeSlices env actor i inp ctx snap db = Inr (r, db')" and ok: "market_ok db"
  shows "market_ok db' \<and> market_keeps db db'"
proof -
  obtain rows rec where r: "r = (rows, rec)" by (cases r)
  show ?thesis
    using assms(1) unfolding r
  proof (rule replaceVolumeSlices_effect)
    assume "mk_opportunities db' = mk_opportunities db" "mk_recipients db' = mk_recipients db" "mk_rfqs db' = mk_rfqs db"
      "mk_quotes db' = mk_quotes db" "mk_dealRooms db' = mk_dealRooms db" "mk_participants db' = mk_participants db"
      "mk_conditions db' = mk_conditions db"
    then show ?thesis
      by (intro quiet_update [OF ok]) (simp_all add: grows_same)
  qed
qed

lemma rfqs_decline_ok:
  assumes "rfqs_decline env actor i reason ctx snap db = Inr (x, db')" and ok: "market_ok db"
  shows "market_ok db' \<and> market_keeps db db'"
  using assms(1)
proof (rule rfqs_decline_effect)
  fix c
  assume e: "mk_recipients db' = set_by rc_id (rc_id c) (recipient_to Rcp_DECLINED (Some (userId actor)) (Some reason)) (mk_recipients db)"
    and same: "mk_opportunities db' = mk_opportunities db" "mk_rfqs db' = mk_rfqs db" "mk_quotes db' = mk_quotes db"
    "mk_dealRooms db' = mk_dealRooms db" "mk_participants db' = mk_participants db" "mk_conditions db' = mk_conditions db"
  have "grows recipient_moves [] (mk_recipients db) (mk_recipients db')"
    unfolding e by (rule grows_recipient_to) simp
  then show ?thesis
    using same by (intro quiet_update [OF ok]) (simp_all add: grows_same)
qed

lemma resolveCondition_ok:
  assumes "resolveCondition env actor i k s note ctx snap db = Inr (c, db')" and ok: "market_ok db"
  shows "market_ok db' \<and> market_keeps db db'"
  using assms(1)
proof (rule resolveCondition_effect)
  fix fresh
  assume fresh: "condition_findById db k = Some fresh" "s \<in> set (DEAL_CONDITION_TRANSITIONS (dc_state fresh))"
    and e: "mk_conditions db' = set_by dc_id k (condition_to s note (Some (userId actor))) (mk_conditions db)"
    and same: "mk_dealRooms db' = mk_dealRooms db"
    "mk_opportunities db' = mk_opportunities db" "mk_recipients db' = mk_recipients db" "mk_rfqs db' = mk_rfqs db"
    "mk_quotes db' = mk_quotes db" "mk_participants db' = mk_participants db"
  have "grows condition_moves [] (mk_conditions db) (mk_conditions db')"
    unfolding e using found_by_key(4) [OF ok fresh(1)] fresh(2) by (intro grows_set_by) (auto intro: status_moves)
  then show ?thesis
    using same by (intro quiet_update [OF ok]) (simp_all add: grows_same)
qed

lemma recordDecision_ok:
  assumes "recordDecision env actor i ty reason ctx snap db = Inr (row, db')" and ok: "market_ok db"
  shows "market_ok db' \<and> market_keeps db db'"
  using assms(1)
proof (rule recordDecision_effect)
  fix fresh
  assume fresh: "dealRoomRow_findById db i = Some fresh"
    and e: "mk_dealRooms db' = (case computeNextStatus ty (dl_status fresh) of None \<Rightarrow> mk_dealRooms db
       | Some s \<Rightarrow> set_by dl_id i (room_to s (Some (userId actor))) (mk_dealRooms db))"
    and same: "mk_conditions db' = mk_conditions db"
    "mk_opportunities db' = mk_opportunities db" "mk_recipients db' = mk_recipients db" "mk_rfqs db' = mk_rfqs db"
    "mk_quotes db' = mk_quotes db" "mk_participants db' = mk_participants db"
  have "s \<in> set (DEAL_ROOM_TRANSITIONS (dl_status fresh))" if "computeNextStatus ty (dl_status fresh) = Some s" for s
    using that by (auto simp: computeNextStatus_def split: if_splits)
  then have "grows room_moves [] (mk_dealRooms db) (mk_dealRooms db')"
    unfolding e using found_by_key(3) [OF ok fresh]
    by (auto split: option.split intro!: grows_set_by status_moves simp: grows_same)
  then show ?thesis
    using same by (intro quiet_update [OF ok]) (simp_all add: grows_same)
qed

lemma postCondition_ok:
  assumes "postCondition env actor i inp ctx snap db = Inr (c, db')" and ok: "market_ok db" and keeps: "market_keeps snap db"
  shows "market_ok db' \<and> market_keeps db db'"
  using assms(1)
proof (rule postCondition_effect)
  fix d fresh
  assume pre: "dealRoomRow_findById snap i = Some d" "dealRoomRow_findById db i = Some fresh"
    "c = new_condition actor (uuid env (bs_ids db)) i inp" "pc_ownerOrgId inp \<in> {dl_merchantOrgId d, dl_providerOrgId d}"
    "\<forall>x \<in> set (mk_conditions db). dc_id x \<noteq> dc_id c" "mk_conditions db' = mk_conditions db @ [c]"
    and e: "mk_dealRooms db' = (if dl_status fresh = Deal_OPEN
       then set_by dl_id i (room_to Deal_CONDITIONS (Some (userId actor))) (mk_dealRooms db) else mk_dealRooms db)"
    and same: "mk_opportunities db' = mk_opportunities db" "mk_recipients db' = mk_recipients db" "mk_rfqs db' = mk_rfqs db"
    "mk_quotes db' = mk_quotes db" "mk_participants db' = mk_participants db"
  have rooms: "grows room_moves [] (mk_dealRooms db) (mk_dealRooms db')"
    unfolding e using found_by_key(3) [OF ok pre(2)] by (auto intro!: grows_set_by status_moves simp: grows_same)
  obtain y where "dealRoomRow_findById db i = Some y" "room_moves d y"
    using snap_find(5) [OF keeps keys_of [OF ok] pre(1)] by blast
  then obtain y' where "y' \<in> set (mk_dealRooms db')" "room_moves d y'"
    using grows_kept [OF rooms] found_in(4) moves_trans(5) by metis
  then have backed: "condition_backed db' c"
    using pre(1,3,4) found_ids(4) [OF pre(1)]
    by (auto simp: condition_backed_def new_condition_def room_moves_def room_fixed_def intro!: bexI [of _ y'])
  show ?thesis
    by (rule quiet_step [OF ok _ _ _ _ _ _ _ _ _ _ _ _ rooms same(5), where os = "[]" and rs = "[]" and cs = "[]" and qs = "[]" and ks = "[c]"])
      (use untouched [OF ok] pre(5) backed in \<open>auto simp: same pre(6) grows_same grows_append\<close>)
qed

lemma expireOne_ok:
  assumes "expireOne env h i due db = Inr (fin, db')" and ok: "market_ok db"
  shows "market_ok db' \<and> market_keeps db db'"
proof -
  have same: "mk_opportunities db' = mk_opportunities db" "mk_recipients db' = mk_recipients db"
    "mk_quotes db' = mk_quotes db" "mk_dealRooms db' = mk_dealRooms db" "mk_participants db' = mk_participants db"
    "mk_conditions db' = mk_conditions db"
    and e: "mk_rfqs db' = mk_rfqs db \<or> (\<exists>fresh. rfq_findById db i = Some fresh \<and> rf_status fresh \<in> set EXPIRABLE_STATUSES \<and>
        mk_rfqs db' = set_by rf_id i (rfq_to Rfq_EXPIRED None) (mk_rfqs db))"
    using expireOne_effect [OF assms(1)] by auto
  have g: "grows (\<lambda>x y. rfq_moves x y \<and> (rf_status y = Rfq_SELECTED \<longrightarrow> rf_status x = Rfq_SELECTED)) [] (mk_rfqs db) (mk_rfqs db')"
    using e
  proof (elim disjE exE conjE)
    fix fresh
    assume f: "rfq_findById db i = Some fresh" "rf_status fresh \<in> set EXPIRABLE_STATUSES"
      and e: "mk_rfqs db' = set_by rf_id i (rfq_to Rfq_EXPIRED None) (mk_rfqs db)"
    have "rf_status fresh \<noteq> Rfq_SELECTED"
      using f(2) by (auto simp: EXPIRABLE_STATUSES_def)
    then show ?thesis
      unfolding e using found_by_key(1) [OF ok f(1)] by (intro grows_set_by) (auto intro: status_moves)
  qed (simp add: grows_same)
  have "map rf_id (mk_rfqs db') = map rf_id (mk_rfqs db)"
    using grows_keys [OF g, of rf_id] moves_keys(2) by simp
  then show ?thesis
    by (intro quiet_step [OF ok _ _ g, where os = "[]" and cs = "[]" and qs = "[]" and ks = "[]"])
      (use untouched [OF ok] in \<open>simp_all add: same grows_same\<close>)
qed

lemma withdrawQuote_ok:
  assumes "withdrawQuote env actor i k ctx snap db = Inr (q, db')" and ok: "market_ok db"
  shows "market_ok db' \<and> market_keeps db db'"
  using assms(1)
proof (rule withdrawQuote_effect)
  fix fresh
  assume f: "quote_findById db k = Some fresh" "qt_status fresh = Qt_SUBMITTED"
    and e: "mk_quotes db' = set_by qt_id k (quote_to Qt_WITHDRAWN (Some (userId actor))) (mk_quotes db)"
    and same: "mk_recipients db' = mk_recipients db"
    "mk_opportunities db' = mk_opportunities db" "mk_rfqs db' = mk_rfqs db"
    "mk_dealRooms db' = mk_dealRooms db" "mk_participants db' = mk_participants db" "mk_conditions db' = mk_conditions db"
  have g: "grows (\<lambda>x y. quote_moves x y \<and> (qt_status y = Qt_SELECTED \<longrightarrow> qt_status x = Qt_SELECTED)) [] (mk_quotes db) (mk_quotes db')"
    unfolding e using found_by_key(2) [OF ok f(1)] f(2) by (intro grows_set_by) (auto intro: status_moves)
  show ?thesis
    by (rule quiet_step [OF ok _ _ _ _ _ _ _ _ _ g, where os = "[]" and rs = "[]" and cs = "[]" and ks = "[]"])
      (use untouched [OF ok] in \<open>simp_all add: same e grows_same\<close>)
qed

lemma rfqs_create_ok:
  assumes "rfqs_create env actor inp ctx snap db = Inr (detail, db')" and ok: "market_ok db" and keeps: "market_keeps snap db"
  shows "market_ok db' \<and> market_keeps db db'"
  using assms(1)
proof (rule rfqs_create_effect)
  fix opp rows
  assume pre: "opportunity_findById snap (cr_opportunityId inp) = Some opp"
    and rfq: "rd_rfq detail = new_rfq env actor (uuid env (bs_ids db)) inp (op_id opp)"
    "\<forall>x \<in> set (mk_rfqs db). rf_id x \<noteq> rf_id (rd_rfq detail)" "mk_rfqs db' = mk_rfqs db @ [rd_rfq detail]"
    and recipients: "mk_recipients db' = mk_recipients db @ rows"
    "\<forall>c \<in> set rows. rc_rfqId c = rf_id (rd_rfq detail) \<and> rc_state c = Rcp_INVITED"
    "distinct (map rc_id (mk_recipients db)) \<longrightarrow> distinct (map rc_id (mk_recipients db @ rows))"
    "distinct (map invitation (mk_recipients db)) \<longrightarrow> distinct (map invitation (mk_recipients db @ rows))"
    and opps: "mk_opportunities db' = (if op_status opp = Opp_MATCH_READY
       then set_by op_id (op_id opp) (opp_to Opp_INVITED (Some (userId actor))) (mk_opportunities db)
       else mk_opportunities db)"
    and same: "mk_quotes db' = mk_quotes db" "mk_dealRooms db' = mk_dealRooms db" "mk_participants db' = mk_participants db"
    "mk_conditions db' = mk_conditions db"
  have g: "grows opp_moves [] (mk_opportunities db) (mk_opportunities db')"
    unfolding opps by (simp add: grows_same grows_opp_to)
  have ids: "map op_id (mk_opportunities db') = map op_id (mk_opportunities db)"
    using grows_keys [OF g, of op_id] moves_keys(1) by simp
  obtain y where y: "opportunity_findById db (cr_opportunityId inp) = Some y"
    using snap_find(1) [OF keeps keys_of [OF ok] pre] by blast
  have "op_id opp \<in> set (map op_id (mk_opportunities db'))"
    unfolding ids using found_in(1) [OF y] found_ids(2) [OF y] found_ids(2) [OF pre] by (auto intro: rev_image_eqI)
  then have "rfq_backed db' (rd_rfq detail)"
    by (auto simp: rfq_backed_def rfq(1) new_rfq_def)
  moreover have "rf_status (rd_rfq detail) = Rfq_SENT"
    by (simp add: rfq(1) new_rfq_def)
  moreover have "\<forall>c \<in> set rows. recipient_backed db' c"
    using recipients(2) rfq(3) by (auto simp: recipient_backed_def)
  ultimately show ?thesis
    by (intro quiet_step [OF ok g, where rs = "[rd_rfq detail]" and cs = rows and qs = "[]" and ks = "[]"])
      (use untouched [OF ok] recipients(3,4) rfq(2) in \<open>auto simp: same ids recipients(1) rfq(3) grows_same grows_append\<close>)
qed

lemma submitQuote_ok:
  assumes "submitQuote env actor i inp ctx snap db = Inr (q, db')" and ok: "market_ok db" and keeps: "market_keeps snap db"
  shows "market_ok db' \<and> market_keeps db db'"
  using assms(1)
proof (rule submitQuote_effect)
  fix opp c fresh
  assume pre: "recipientOf snap i actor = Some c"
    and fresh: "rfq_findById db i = Some fresh" "rf_status fresh \<in> {Rfq_SENT, Rfq_ACKNOWLEDGED, Rfq_QUESTIONS, Rfq_QUOTED}"
    and q: "q = new_quote actor (uuid env (bs_ids db)) i (rc_id c) (nextQuoteVersion db (rc_id c)) inp"
    "\<forall>x \<in> set (mk_quotes db). qt_id x \<noteq> qt_id q" "mk_quotes db' = mk_quotes db @ [q]"
    and recipients: "mk_recipients db' = set_by rc_id (rc_id c) (recipient_to Rcp_QUOTED (Some (userId actor)) None) (mk_recipients db)"
    and rfqs: "mk_rfqs db' = (if rf_status fresh = Rfq_QUOTED then mk_rfqs db
       else set_by rf_id i (rfq_to Rfq_QUOTED (Some (userId actor))) (mk_rfqs db))"
    and opps: "mk_opportunities db' = (if op_status opp = Opp_INVITED
       then set_by op_id (op_id opp) (opp_to Opp_QUOTED (Some (userId actor))) (mk_opportunities db)
       else mk_opportunities db)"
    and same: "mk_dealRooms db' = mk_dealRooms db" "mk_participants db' = mk_participants db" "mk_conditions db' = mk_conditions db"
  have gO: "grows opp_moves [] (mk_opportunities db) (mk_opportunities db')"
    unfolding opps by (simp add: grows_same grows_opp_to)
  have gC: "grows recipient_moves [] (mk_recipients db) (mk_recipients db')"
    unfolding recipients by (rule grows_recipient_to) simp
  have gR: "grows (\<lambda>x y. rfq_moves x y \<and> (rf_status y = Rfq_SELECTED \<longrightarrow> rf_status x = Rfq_SELECTED)) [] (mk_rfqs db) (mk_rfqs db')"
    unfolding rfqs using found_by_key(1) [OF ok fresh(1)] fresh(2)
    by (auto simp: grows_same intro!: grows_set_by status_moves)
  have ids: "map op_id (mk_opportunities db') = map op_id (mk_opportunities db)" "map rf_id (mk_rfqs db') = map rf_id (mk_rfqs db)"
    using grows_keys [OF gO, of op_id] grows_keys [OF gR, of rf_id] moves_keys(1,2) by simp_all
  note c = recipientOf_SomeD [OF pre]
  obtain y where y: "y \<in> set (mk_recipients db)" "recipient_moves c y"
    using keeps_tables(3) [OF keeps] c by blast
  then have "recipient_to Rcp_QUOTED (Some (userId actor)) None y \<in> set (mk_recipients db')"
    unfolding recipients set_set_by by (intro bexI [of _ y]) (auto simp: recipient_moves_def)
  then have "quote_backed db' q"
    unfolding quote_backed_def using y(2) c
    by (intro bexI [of _ "recipient_to Rcp_QUOTED (Some (userId actor)) None y"])
      (auto simp: q(1) new_quote_def recipient_moves_def invitation_def)
  moreover have "qt_status q = Qt_SUBMITTED"
    by (simp add: q(1) new_quote_def)
  ultimately show ?thesis
    by (intro quiet_step [OF ok gO _ gR _ _ gC, where qs = "[q]" and ks = "[]"])
      (use untouched [OF ok] q(2) in \<open>auto simp: same ids q(3) recipients grows_same grows_append simp del: truthy.simps\<close>)
qed

lemma selectQuote_ok:
  assumes "selectQuote env actor i k reason ctx snap db = Inr (d, db')" and ok: "market_ok db" and keeps: "market_keeps snap db"
  shows "market_ok db' \<and> market_keeps db db'"
  using assms(1)
proof (rule selectQuote_effect)
  fix rfq opp old fresh
  assume pre: "rfq_findById snap i = Some rfq" "opportunity_findById snap (rf_opportunityId rfq) = Some opp"
      "quote_findById snap k = Some old" "qt_rfqId old = i"
    and fresh: "quote_findById db k = Some fresh" "qt_status fresh = Qt_SUBMITTED"
    and d: "dl_rfqId d = i" "dl_opportunityId d = rf_opportunityId rfq" "dl_selectedQuoteId d = k"
      "dl_merchantOrgId d = op_ownerOrgId opp" "dl_providerOrgId d = qt_providerOrgId fresh"
    and unique: "\<forall>x \<in> set (mk_dealRooms db). dl_id x \<noteq> dl_id d \<and> dl_rfqId x \<noteq> i \<and> dl_selectedQuoteId x \<noteq> k"
    and rooms: "mk_dealRooms db' = mk_dealRooms db @ [d]"
    and parties: "\<exists>p1 p2. mk_participants db' = mk_participants db @ [p1, p2] \<and> pt_dealRoomId p1 = dl_id d \<and> pt_dealRoomId p2 = dl_id d \<and>
       pt_organizationId p1 = dl_merchantOrgId d \<and> pt_participantRole p1 = Party_MERCHANT \<and>
       pt_organizationId p2 = dl_providerOrgId d \<and> pt_participantRole p2 = Party_PROVIDER"
    and quotes: "mk_quotes db' = set_by qt_id k (quote_to Qt_SELECTED (Some (userId actor))) (mk_quotes db)"
    and rfqs: "mk_rfqs db' = set_by rf_id i (rfq_to Rfq_SELECTED (Some (userId actor))) (mk_rfqs db)"
    and opps: "mk_opportunities db' = set_by op_id (op_id opp) (opp_to Opp_SELECTED (Some (userId actor))) (mk_opportunities db)"
    and same: "mk_recipients db' = mk_recipients db" "mk_conditions db' = mk_conditions db"
  obtain p1 p2 where p: "mk_participants db' = mk_participants db @ [p1, p2]" "pt_dealRoomId p1 = dl_id d" "pt_dealRoomId p2 = dl_id d"
    "pt_organizationId p1 = dl_merchantOrgId d" "pt_participantRole p1 = Party_MERCHANT"
    "pt_organizationId p2 = dl_providerOrgId d" "pt_participantRole p2 = Party_PROVIDER"
    using parties by blast
  have gQ: "grows quote_moves [] (mk_quotes db) (mk_quotes db')"
    unfolding quotes using found_by_key(2) [OF ok fresh(1)] fresh(2) by (intro grows_set_by) (auto intro: status_moves)
  have gR: "grows rfq_moves [] (mk_rfqs db) (mk_rfqs db')"
    unfolding rfqs by (intro grows_set_by) (auto intro: status_moves)
  have gO: "grows opp_moves [] (mk_opportunities db) (mk_opportunities db')"
    unfolding opps by (rule grows_opp_to)
  have gD: "grows room_moves [d] (mk_dealRooms db) (mk_dealRooms db')"
    unfolding rooms by (simp add: grows_append)
  have gP: "grows (=) [p1, p2] (mk_participants db) (mk_participants db')"
    unfolding p(1) by (simp add: grows_append)
  have gC: "grows recipient_moves [] (mk_recipients db) (mk_recipients db')"
    and gK: "grows condition_moves [] (mk_conditions db) (mk_conditions db')"
    by (simp_all add: same grows_same)
  have keeps': "market_keeps db db'"
    unfolding market_keeps_def using gQ gR gO gD gP gC gK by blast
  have keys: "market_keys db'"
    using keys_of [OF ok] unique by (auto simp: market_keys_def quotes rfqs opps rooms same d)
  note kept = snap_find [OF keeps keys_of [OF ok]]
  obtain rf where rf: "rfq_findById db i = Some rf" "rfq_moves rfq rf"
    using kept(2) [OF pre(1)] by blast
  obtain op where op: "opportunity_findById db (rf_opportunityId rfq) = Some op" "opp_moves opp op"
    using kept(1) [OF pre(2)] by blast
  have moved: "quote_moves old fresh"
    using kept(4) [OF pre(3)] fresh(1) by auto
  have q': "quote_to Qt_SELECTED (Some (userId actor)) fresh \<in> set (mk_quotes db')"
    unfolding quotes set_set_by using found_in(3) [OF fresh(1)] found_ids(3) [OF fresh(1)] by (intro bexI [of _ fresh]) auto
  have rf': "rfq_to Rfq_SELECTED (Some (userId actor)) rf \<in> set (mk_rfqs db')"
    unfolding rfqs set_set_by using found_in(2) [OF rf(1)] found_ids(1) [OF rf(1)] by (intro bexI [of _ rf]) auto
  have op': "opp_to Opp_SELECTED (Some (userId actor)) op \<in> set (mk_opportunities db')"
    unfolding opps set_set_by using found_in(1) [OF op(1)] op(2) by (intro bexI [of _ op]) (auto simp: opp_moves_def)
  have old_open: "selections_open db"
    using ok by (simp add: market_ok_def)
  then have "\<forall>x \<in> set (mk_participants db). pt_dealRoomId x \<noteq> dl_id d"
    using unique unfolding selections_open_def by metis
  then have listed: "participant_listByDealRoom db' (dl_id d) = [p1, p2]"
    using p by (simp add: participant_listByDealRoom_def filter_empty_conv)
  have "room_backed db' d"
    unfolding room_backed_def listed using p(4-7)
    by (intro conjI bexI [OF _ q'] bexI [OF _ rf'] bexI [OF _ op'])
      (use d moved pre(4) found_ids(3) [OF fresh(1)] found_ids(1) [OF rf(1)] found_ids(2) [OF op(1)] rf(2) op(2) in
        \<open>auto simp: quote_moves_def quote_fixed_def rfq_moves_def opp_moves_def\<close>)
  moreover have "selections_open db'"
    unfolding selections_open_def
  proof (intro conjI ballI impI)
    fix y assume "y \<in> set (mk_quotes db')" and sel: "qt_status y = Qt_SELECTED"
    then obtain x where x: "x \<in> set (mk_quotes db)" "y = (if qt_id x = k then quote_to Qt_SELECTED (Some (userId actor)) x else x)"
      unfolding quotes set_set_by by blast
    then show "\<exists>d \<in> set (mk_dealRooms db'). dl_selectedQuoteId d = qt_id y"
      using old_open sel d(3) by (cases "qt_id x = k") (auto simp: selections_open_def rooms)
  next
    fix y assume "y \<in> set (mk_rfqs db')" and sel: "rf_status y = Rfq_SELECTED"
    then obtain x where x: "x \<in> set (mk_rfqs db)" "y = (if rf_id x = i then rfq_to Rfq_SELECTED (Some (userId actor)) x else x)"
      unfolding rfqs set_set_by by blast
    then show "\<exists>d \<in> set (mk_dealRooms db'). dl_rfqId d = rf_id y"
      using old_open sel d(1) by (cases "rf_id x = i") (auto simp: selections_open_def rooms)
  next
    fix y assume "y \<in> set (mk_participants db')"
    then show "\<exists>d \<in> set (mk_dealRooms db'). dl_id d = pt_dealRoomId y"
      using old_open p(1-3) by (auto simp: selections_open_def rooms)
  qed
  moreover have "\<forall>x \<in> set (mk_dealRooms db).
      participant_listByDealRoom db' (dl_id x) = participant_listByDealRoom db (dl_id x)"
    using unique p by (auto simp: participant_listByDealRoom_def)
  ultimately show ?thesis
    using market_ok_step [OF ok keeps' keys gR _ gC _ gQ _ gD _ gK] keeps' by simp
qed

section \<open>Histories\<close>

lemma market_step_ok:
  assumes "market_step snap db db'" and "market_keeps snap db" and "market_ok db"
  shows "market_ok db' \<and> market_keeps db db'"
  using assms(1)
proof cases
  case (create_opportunity env actor inp ctx opp)
  then show ?thesis using assms(3) by (rule opportunities_create_ok)
next
  case (replace_slices env actor i inp ctx r)
  then show ?thesis using assms(3) by (rule replaceVolumeSlices_ok)
next
  case (create_rfq env actor inp ctx detail)
  then show ?thesis using assms(3,2) by (rule rfqs_create_ok)
next
  case (decline env actor i reason ctx c)
  then show ?thesis using assms(3) by (rule rfqs_decline_ok)
next
  case (submit env actor i inp ctx q)
  then show ?thesis using assms(3,2) by (rule submitQuote_ok)
next
  case (withdraw env actor i k ctx q)
  then show ?thesis using assms(3) by (rule withdrawQuote_ok)
next
  case (select env actor i k reason ctx d)
  then show ?thesis using assms(3,2) by (rule selectQuote_ok)
next
  case (expiry_job env h i r)
  then show ?thesis
    using rfqExpiryJob_effect [OF expiry_job] expireOne_ok [OF _ assms(3)] assms(3) market_keeps_refl by blast
next
  case (expire env h i due fin)
  then show ?thesis using assms(3) by (rule expireOne_ok)
next
  case (post_condition env actor i inp ctx c)
  then show ?thesis using assms(3,2) by (rule postCondition_ok)
next
  case (resolve_condition env actor i k s resolution ctx c)
  then show ?thesis using assms(3) by (rule resolveCondition_ok)
next
  case (record_decision env actor i ty reason ctx row)
  then show ?thesis using assms(3) by (rule recordDecision_ok)
qed

abbreviation market_run :: "bool \<Rightarrow> MarketStore list \<Rightarrow> bool" where
  "market_run \<equiv> request_run market_step market_start"

interpretation market: request_history market_step market_start overlap market_ok market_keeps
  by unfold_locales (use market_start_ok market_keeps_refl market_keeps_trans market_step_ok in blast)+

end
