(* ===== verification/Market_Sequential.thy ===== *)
theory Market_Sequential
  imports Market_History
begin

text \<open>
  What holds in addition when requests do not overlap, that is, when every request reads the state
  it commits on: each status column follows the transition table of the domain package, and an
  opportunity never has two deal rooms. The operations re-read under their lock only part of what
  they checked, so these facts do not survive overlapping requests.
\<close>

section \<open>Lawful moves\<close>

abbreviation opp_steps :: "OpportunityStatus \<Rightarrow> OpportunityStatus \<Rightarrow> bool" where
  "opp_steps \<equiv> (\<lambda>s t. t \<in> set (OPPORTUNITY_TRANSITIONS s))\<^sup>*\<^sup>*"

abbreviation rfq_steps :: "RfqStatus \<Rightarrow> RfqStatus \<Rightarrow> bool" where
  "rfq_steps \<equiv> (\<lambda>s t. t \<in> set (RFQ_TRANSITIONS s))\<^sup>*\<^sup>*"

abbreviation recipient_steps :: "RfqRecipientState \<Rightarrow> RfqRecipientState \<Rightarrow> bool" where
  "recipient_steps \<equiv> (\<lambda>s t. t \<in> set (RFQ_RECIPIENT_TRANSITIONS s))\<^sup>*\<^sup>*"

definition lawful_opp :: "Opportunity \<Rightarrow> Opportunity \<Rightarrow> bool" where
  "lawful_opp x y \<longleftrightarrow> op_id y = op_id x \<and> opp_steps (op_status x) (op_status y) \<and>
     (op_status x \<in> {Opp_DRAFT, Opp_SELECTED} \<longrightarrow> op_status y = op_status x)"

definition lawful_rfq :: "RFQ \<Rightarrow> RFQ \<Rightarrow> bool" where
  "lawful_rfq x y \<longleftrightarrow> rf_id y = rf_id x \<and> rfq_steps (rf_status x) (rf_status y)"

definition lawful_recipient :: "RFQRecipient \<Rightarrow> RFQRecipient \<Rightarrow> bool" where
  "lawful_recipient x y \<longleftrightarrow> rc_id y = rc_id x \<and> recipient_steps (rc_state x) (rc_state y)"

definition lawful_keeps :: "MarketStore \<Rightarrow> MarketStore \<Rightarrow> bool" where
  "lawful_keeps db db' \<longleftrightarrow> market_keeps db db' \<and>
     (\<exists>new. grows lawful_opp new (mk_opportunities db) (mk_opportunities db')) \<and>
     (\<exists>new. grows lawful_rfq new (mk_rfqs db) (mk_rfqs db')) \<and>
     (\<exists>new. grows lawful_recipient new (mk_recipients db) (mk_recipients db'))"

lemma lawful_refl [simp]: "lawful_opp x x" "lawful_rfq y y" "lawful_recipient z z"
  by (simp_all add: lawful_opp_def lawful_rfq_def lawful_recipient_def)

lemma lawful_trans:
  "lawful_opp a1 b1 \<Longrightarrow> lawful_opp b1 c1 \<Longrightarrow> lawful_opp a1 c1"
  "lawful_rfq a2 b2 \<Longrightarrow> lawful_rfq b2 c2 \<Longrightarrow> lawful_rfq a2 c2"
  "lawful_recipient a3 b3 \<Longrightarrow> lawful_recipient b3 c3 \<Longrightarrow> lawful_recipient a3 c3"
  by (auto simp: lawful_opp_def lawful_rfq_def lawful_recipient_def)

lemma lawful_keeps_refl: "lawful_keeps db db"
  unfolding lawful_keeps_def by (intro conjI exI [of _ "[]"] grows_same lawful_refl market_keeps_refl)

lemma lawful_keeps_trans: "lawful_keeps a b \<Longrightarrow> lawful_keeps b c \<Longrightarrow> lawful_keeps a c"
  unfolding lawful_keeps_def by (blast intro: grows_trans lawful_trans market_keeps_trans)

section \<open>Deal rooms and their opportunities\<close>

definition rooms_settled :: "MarketStore \<Rightarrow> bool" where
  "rooms_settled db \<longleftrightarrow> distinct (map dl_opportunityId (mk_dealRooms db)) \<and>
     (\<forall>d \<in> set (mk_dealRooms db). \<exists>opp \<in> set (mk_opportunities db).
        op_id opp = dl_opportunityId d \<and> op_status opp = Opp_SELECTED)"

lemma rooms_settled_grows:
  assumes "rooms_settled db" and opps: "grows lawful_opp os (mk_opportunities db) (mk_opportunities db')"
    and rooms: "grows room_moves [] (mk_dealRooms db) (mk_dealRooms db')"
  shows "rooms_settled db'"
proof -
  have "\<exists>opp \<in> set (mk_opportunities db'). op_id opp = dl_opportunityId d \<and> op_status opp = Opp_SELECTED"
    if d: "d \<in> set (mk_dealRooms db')" for d
  proof -
    obtain x where x: "x \<in> set (mk_dealRooms db)" "room_moves x d"
      using grows_origin [OF rooms d] by auto
    then obtain opp where opp: "opp \<in> set (mk_opportunities db)" "op_id opp = dl_opportunityId x" "op_status opp = Opp_SELECTED"
      using assms(1) by (auto simp: rooms_settled_def)
    then obtain opp' where "opp' \<in> set (mk_opportunities db')" "lawful_opp opp opp'"
      using grows_kept [OF opps] by blast
    then show ?thesis
      using opp moves_keys(9) [OF x(2)] by (intro bexI [of _ opp']) (auto simp: lawful_opp_def)
  qed
  moreover have "map dl_opportunityId (mk_dealRooms db') = map dl_opportunityId (mk_dealRooms db)"
    using grows_keys [OF rooms, of dl_opportunityId] moves_keys(9) by simp
  ultimately show ?thesis
    using assms(1) by (simp add: rooms_settled_def)
qed

section \<open>Steps\<close>

text \<open>What one request does to the tables, when it read the state it commits on.\<close>

definition lawful_tables :: "MarketStore \<Rightarrow> MarketStore \<Rightarrow> bool" where
  "lawful_tables db db' \<longleftrightarrow>
     (\<exists>new. grows lawful_opp new (mk_opportunities db) (mk_opportunities db')) \<and>
     (\<exists>new. grows lawful_rfq new (mk_rfqs db) (mk_rfqs db')) \<and>
     (\<exists>new. grows lawful_recipient new (mk_recipients db) (mk_recipients db'))"

lemma lawful_same:
  "\<exists>new. grows lawful_opp new rows1 rows1" "\<exists>new. grows lawful_rfq new rows2 rows2"
  "\<exists>new. grows lawful_recipient new rows3 rows3"
  using grows_same lawful_refl by blast+

lemma lawful_added:
  "\<exists>new. grows lawful_opp new rows1 (rows1 @ more1)" "\<exists>new. grows lawful_rfq new rows2 (rows2 @ more2)"
  "\<exists>new. grows lawful_recipient new rows3 (rows3 @ more3)"
  using grows_append lawful_refl by blast+

lemma lawful_opp_to:
  assumes "market_ok db" and "opportunity_findById db (op_id opp) = Some opp" and "s \<in> set (OPPORTUNITY_TRANSITIONS (op_status opp))"
    and "op_status opp \<notin> {Opp_DRAFT, Opp_SELECTED}"
  shows "\<exists>new. grows lawful_opp new (mk_opportunities db) (set_by op_id (op_id opp) (opp_to s u) (mk_opportunities db))"
  using found_by_key(5) [OF assms(1,2)] assms(3,4)
  by (intro exI [of _ "[]"] grows_set_by) (auto simp: lawful_opp_def)

lemma lawful_rfq_to:
  assumes "market_ok db" and "rfq_findById db i = Some rf" and "s \<in> set (RFQ_TRANSITIONS (rf_status rf))"
  shows "\<exists>new. grows lawful_rfq new (mk_rfqs db) (set_by rf_id i (rfq_to s u) (mk_rfqs db))"
  using found_by_key(1) [OF assms(1,2)] assms(3)
  by (intro exI [of _ "[]"] grows_set_by) (auto simp: lawful_rfq_def)

lemma lawful_recipient_to:
  assumes "market_ok db" and "recipientOf db i actor = Some c" and "s \<in> set (RFQ_RECIPIENT_TRANSITIONS (rc_state c))"
  shows "\<exists>new. grows lawful_recipient new (mk_recipients db) (set_by rc_id (rc_id c) (recipient_to s u r) (mk_recipients db))"
proof -
  have "x = c" if "x \<in> set (mk_recipients db)" "rc_id x = rc_id c" for x
    using untouched(3) [OF assms(1)] recipientOf_SomeD [OF assms(2)] that by (auto simp: distinct_map inj_on_def)
  then show ?thesis
    using assms(3) by (intro exI [of _ "[]"] grows_set_by) (auto simp: lawful_recipient_def)
qed

lemma rfqs_create_lawful:
  assumes "rfqs_create env actor inp ctx db db = Inr (detail, db')" and ok: "market_ok db"
  shows "lawful_tables db db' \<and> mk_dealRooms db' = mk_dealRooms db"
  using assms(1)
proof (rule rfqs_create_effect)
  fix opp rows
  assume pre: "opportunity_findById db (cr_opportunityId inp) = Some opp"
    and e: "mk_rfqs db' = mk_rfqs db @ [rd_rfq detail]" "mk_recipients db' = mk_recipients db @ rows"
    "mk_opportunities db' = (if op_status opp = Opp_MATCH_READY
       then set_by op_id (op_id opp) (opp_to Opp_INVITED (Some (userId actor))) (mk_opportunities db)
       else mk_opportunities db)" "mk_dealRooms db' = mk_dealRooms db"
  show ?thesis
    using lawful_opp_to [OF ok, of opp Opp_INVITED] pre found_ids(2) [OF pre]
    by (simp add: lawful_tables_def e lawful_same lawful_added)
qed

lemma rfqs_decline_lawful:
  assumes "rfqs_decline env actor i reason ctx db db = Inr (x, db')" and ok: "market_ok db"
  shows "lawful_tables db db' \<and> mk_dealRooms db' = mk_dealRooms db"
  using assms(1)
proof (rule rfqs_decline_effect)
  fix c
  assume pre: "recipientOf db i actor = Some c" "rc_state c \<in> {Rcp_INVITED, Rcp_ACKNOWLEDGED, Rcp_QUOTED}"
    and e: "mk_recipients db' = set_by rc_id (rc_id c) (recipient_to Rcp_DECLINED (Some (userId actor)) (Some reason)) (mk_recipients db)"
    "mk_opportunities db' = mk_opportunities db" "mk_rfqs db' = mk_rfqs db" "mk_dealRooms db' = mk_dealRooms db"
  have "\<exists>new. grows lawful_recipient new (mk_recipients db) (mk_recipients db')"
    unfolding e(1) by (rule lawful_recipient_to [OF ok pre(1)]) (use pre(2) in auto)
  then show ?thesis
    by (simp add: lawful_tables_def e(2-4) lawful_same)
qed

lemma submitQuote_lawful:
  assumes "submitQuote env actor i inp ctx db db = Inr (q, db')" and ok: "market_ok db"
  shows "lawful_tables db db' \<and> mk_dealRooms db' = mk_dealRooms db"
  using assms(1)
proof (rule submitQuote_effect)
  fix rfq opp c fresh
  assume pre: "opportunity_findById db (rf_opportunityId rfq) = Some opp"
    "recipientOf db i actor = Some c" "rc_state c \<in> {Rcp_INVITED, Rcp_ACKNOWLEDGED}"
    "rfq_findById db i = Some fresh" "rf_status fresh \<in> {Rfq_SENT, Rfq_ACKNOWLEDGED, Rfq_QUESTIONS, Rfq_QUOTED}"
    and recipients: "mk_recipients db' = set_by rc_id (rc_id c) (recipient_to Rcp_QUOTED (Some (userId actor)) None) (mk_recipients db)"
    and rfqs: "mk_rfqs db' = (if rf_status fresh = Rfq_QUOTED then mk_rfqs db
       else set_by rf_id i (rfq_to Rfq_QUOTED (Some (userId actor))) (mk_rfqs db))"
    and opps: "mk_opportunities db' = (if op_status opp = Opp_INVITED
       then set_by op_id (op_id opp) (opp_to Opp_QUOTED (Some (userId actor))) (mk_opportunities db)
       else mk_opportunities db)"
    and same: "mk_dealRooms db' = mk_dealRooms db"
  have "\<exists>new. grows lawful_recipient new (mk_recipients db) (mk_recipients db')"
    unfolding recipients by (rule lawful_recipient_to [OF ok pre(2)]) (use pre(3) in auto)
  moreover have "\<exists>new. grows lawful_rfq new (mk_rfqs db) (mk_rfqs db')"
    unfolding rfqs using lawful_rfq_to [OF ok pre(4), of Rfq_QUOTED] pre(5) by (auto simp: lawful_same)
  moreover have "\<exists>new. grows lawful_opp new (mk_opportunities db) (mk_opportunities db')"
    unfolding opps using lawful_opp_to [OF ok, of opp Opp_QUOTED] pre(1) found_ids(2) [OF pre(1)] by (auto simp: lawful_same)
  ultimately show ?thesis
    by (simp add: lawful_tables_def same)
qed

lemma expireOne_lawful:
  assumes "expireOne env h i due db = Inr (fin, db')" and ok: "market_ok db"
  shows "lawful_tables db db' \<and> mk_dealRooms db' = mk_dealRooms db"
proof -
  note e = expireOne_effect [OF assms(1)]
  have "\<exists>new. grows lawful_rfq new (mk_rfqs db) (mk_rfqs db')"
    using e lawful_rfq_to [OF ok, of i _ Rfq_EXPIRED] by (auto simp: lawful_same EXPIRABLE_STATUSES_def)
  then show ?thesis
    using e by (simp add: lawful_tables_def lawful_same)
qed

lemma selectQuote_lawful:
  assumes "selectQuote env actor i k reason ctx db db = Inr (d, db')" and ok: "market_ok db" and settled: "rooms_settled db"
  shows "lawful_tables db db' \<and> rooms_settled db'"
  using assms(1)
proof (rule selectQuote_effect)
  fix rfq opp
  assume pre: "rfq_findById db i = Some rfq" "opportunity_findById db (rf_opportunityId rfq) = Some opp"
    "rf_status rfq = Rfq_QUOTED" "assertValidOpportunityTransition (opportunityStatus_name (op_status opp)) ''SELECTED'' = Inr ()"
    and d: "dl_opportunityId d = rf_opportunityId rfq" and rooms: "mk_dealRooms db' = mk_dealRooms db @ [d]"
    and rfqs: "mk_rfqs db' = set_by rf_id i (rfq_to Rfq_SELECTED (Some (userId actor))) (mk_rfqs db)"
    and opps: "mk_opportunities db' = set_by op_id (op_id opp) (opp_to Opp_SELECTED (Some (userId actor))) (mk_opportunities db)"
    and same: "mk_recipients db' = mk_recipients db"
  have to: "op_status opp \<in> {Opp_QUOTED, Opp_ACTIVATING}"
    using pre(4) opportunity.guard_accepts [of "op_status opp" Opp_SELECTED] by (cases "op_status opp") simp_all
  have id: "op_id opp = rf_opportunityId rfq" and opp_in: "opp \<in> set (mk_opportunities db)"
    using found_ids(2) [OF pre(2)] found_in(1) [OF pre(2)] by auto
  have gR: "\<exists>new. grows lawful_rfq new (mk_rfqs db) (mk_rfqs db')"
    unfolding rfqs using pre(3) by (intro lawful_rfq_to [OF ok pre(1)]) simp
  have gO: "\<exists>new. grows lawful_opp new (mk_opportunities db) (mk_opportunities db')"
    unfolding opps using pre(2) to id by (intro lawful_opp_to [OF ok]) auto
  have fresh: "dl_opportunityId x \<noteq> rf_opportunityId rfq" if "x \<in> set (mk_dealRooms db)" for x
    using settled that found_by_key(5) [OF ok pre(2)] to unfolding rooms_settled_def by fastforce
  have "opp_to Opp_SELECTED (Some (userId actor)) opp \<in> set (mk_opportunities db')"
    unfolding opps set_set_by using opp_in by (intro bexI [of _ opp]) auto
  then have new: "\<exists>o' \<in> set (mk_opportunities db'). op_id o' = dl_opportunityId d \<and> op_status o' = Opp_SELECTED"
    by (rule bexI [rotated]) (simp add: d id)
  have "\<exists>o' \<in> set (mk_opportunities db'). op_id o' = dl_opportunityId x \<and> op_status o' = Opp_SELECTED"
    if x: "x \<in> set (mk_dealRooms db)" for x
  proof -
    obtain o1 where o1: "o1 \<in> set (mk_opportunities db)" "op_id o1 = dl_opportunityId x" "op_status o1 = Opp_SELECTED"
      using settled x by (auto simp: rooms_settled_def)
    obtain o2 where "o2 \<in> set (mk_opportunities db')" "lawful_opp o1 o2"
      using gO grows_kept o1(1) by metis
    then show ?thesis
      using o1 by (intro bexI [of _ o2]) (auto simp: lawful_opp_def)
  qed
  moreover have "dl_opportunityId d \<notin> dl_opportunityId ` set (mk_dealRooms db)"
    unfolding d using fresh by (metis imageE)
  ultimately have "rooms_settled db'"
    using settled new by (simp add: rooms_settled_def rooms)
  then show ?thesis
    using gR gO by (simp add: lawful_tables_def same lawful_same)
qed

text \<open>The steps that leave the three tables and the number of deal rooms alone.\<close>

lemma lawful_frame:
  "mk_opportunities db' = mk_opportunities db \<Longrightarrow> mk_recipients db' = mk_recipients db \<Longrightarrow> mk_rfqs db' = mk_rfqs db \<Longrightarrow>
   lawful_tables db db'"
  by (simp add: lawful_tables_def lawful_same)

lemma deal_steps_lawful:
  "postCondition env actor i inp ctx snap db = Inr (c, db') \<Longrightarrow> lawful_tables db db'"
  "resolveCondition env actor i k s note ctx snap db = Inr (c, db') \<Longrightarrow> lawful_tables db db'"
  "recordDecision env actor i ty reason ctx snap db = Inr (row, db') \<Longrightarrow> lawful_tables db db'"
  "withdrawQuote env actor i k ctx snap db = Inr (q, db') \<Longrightarrow> lawful_tables db db'"
  by (auto elim!: postCondition_effect resolveCondition_effect recordDecision_effect withdrawQuote_effect intro: lawful_frame)

lemma quiet_rooms:
  assumes "market_ok db" and "market_keeps db db'" and "length (mk_dealRooms db') = length (mk_dealRooms db)"
  shows "grows room_moves [] (mk_dealRooms db) (mk_dealRooms db')"
proof -
  obtain new where g: "grows room_moves new (mk_dealRooms db) (mk_dealRooms db')"
    using assms(2) by (auto simp: market_keeps_def)
  have "new = []"
    using grows_keys [OF g, of dl_id] moves_keys(6) assms(3) by (metis append_Nil2 append_eq_append_conv length_map map_is_Nil_conv)
  with g show ?thesis by simp
qed

lemma deal_steps_rooms:
  "postCondition env actor i inp ctx snap db = Inr (c, db') \<Longrightarrow> length (mk_dealRooms db') = length (mk_dealRooms db)"
  "resolveCondition env actor i k s note ctx snap db = Inr (c, db') \<Longrightarrow> length (mk_dealRooms db') = length (mk_dealRooms db)"
  "recordDecision env actor i ty reason ctx snap db = Inr (row, db') \<Longrightarrow> length (mk_dealRooms db') = length (mk_dealRooms db)"
  "withdrawQuote env actor i k ctx snap db = Inr (q, db') \<Longrightarrow> length (mk_dealRooms db') = length (mk_dealRooms db)"
  by (auto elim!: postCondition_effect resolveCondition_effect recordDecision_effect withdrawQuote_effect
      simp: set_by_def split: option.splits if_splits)

lemma market_step_lawful:
  assumes step: "market_step db db db'" and ok: "market_ok db" and settled: "rooms_settled db"
  shows "lawful_keeps db db' \<and> rooms_settled db'"
proof -
  have keeps: "market_keeps db db'"
    using market_step_ok [OF step market_keeps_refl ok] by simp
  have main: "lawful_tables db db' \<and> (length (mk_dealRooms db') = length (mk_dealRooms db) \<or> rooms_settled db')"
    using step
  proof cases
    case (create_opportunity env actor inp ctx opp)
    then show ?thesis
      using opportunities_create_effect [OF create_opportunity(1)] by (simp add: lawful_tables_def lawful_same lawful_added)
  next
    case (replace_slices env actor i inp ctx r)
    then show ?thesis
      by (cases r) (auto elim!: replaceVolumeSlices_effect intro: lawful_frame)
  next
    case (create_rfq env actor inp ctx detail)
    then show ?thesis using rfqs_create_lawful [OF _ ok] by simp
  next
    case (decline env actor i reason ctx c)
    then show ?thesis using rfqs_decline_lawful [OF _ ok] by simp
  next
    case (submit env actor i inp ctx q)
    then show ?thesis using submitQuote_lawful [OF _ ok] by simp
  next
    case (withdraw env actor i k ctx q)
    then show ?thesis using deal_steps_lawful(4) deal_steps_rooms(4) by blast
  next
    case (select env actor i k reason ctx d)
    then show ?thesis using selectQuote_lawful [OF _ ok settled] by blast
  next
    case (expiry_job env h i r)
    then show ?thesis
      using rfqExpiryJob_effect [OF expiry_job] expireOne_lawful [OF _ ok] lawful_frame [of db db] by auto
  next
    case (expire env h i due fin)
    then show ?thesis using expireOne_lawful [OF _ ok] by simp
  next
    case (post_condition env actor i inp ctx c)
    then show ?thesis using deal_steps_lawful(1) deal_steps_rooms(1) by blast
  next
    case (resolve_condition env actor i k s resolution ctx c)
    show ?thesis
      using deal_steps_lawful(2) [OF resolve_condition] deal_steps_rooms(2) [OF resolve_condition] by simp
  next
    case (record_decision env actor i ty reason ctx row)
    then show ?thesis using deal_steps_lawful(3) deal_steps_rooms(3) by blast
  qed
  then have "lawful_keeps db db'"
    using keeps by (simp add: lawful_tables_def lawful_keeps_def)
  moreover have "rooms_settled db'"
    using main quiet_rooms [OF ok keeps] rooms_settled_grows [OF settled] by (auto simp: lawful_tables_def)
  ultimately show ?thesis by simp
qed

interpretation sequential: request_history market_step market_start False "\<lambda>db. market_ok db \<and> rooms_settled db" lawful_keeps
proof unfold_locales
  show "market_start db \<Longrightarrow> market_ok db \<and> rooms_settled db" for db
    using market_start_ok by (auto simp: market_start_def rooms_settled_def)
qed (use lawful_keeps_refl lawful_keeps_trans market_step_lawful market_step_ok [OF _ market_keeps_refl] in blast)+

end
