(* ===== verification/Market_Demo.thy ===== *)
theory Market_Demo
  imports Market_Sequential
begin

text \<open>
  Concrete runs of the marketplace: a merchant with one opportunity, an operator who sends the RFQs
  and two providers. They instantiate the guarantees and show where these end.
\<close>

section \<open>A concrete marketplace\<close>

definition demo_env :: Env where
  "demo_env = \<lparr>uuid = (\<lambda>n. replicate (Suc n) (CHR ''x'')), clock = 1000, toISOString = (\<lambda>_. ''t'')\<rparr>"

definition demo_context :: RequestContext where
  "demo_context = \<lparr>requestId = ''r'', correlationId = ''c'', ipClass = ''private'', userAgentClass = ''browser''\<rparr>"

definition demo_opportunity :: "OpportunityStatus \<Rightarrow> Opportunity" where
  "demo_opportunity s = \<lparr>op_id = ''opp'', op_ownerOrgId = ''shop'', op_opportunityType = ''NEW'', op_requestedService = ''CARDS'',
     op_status = s, op_currency = ''EUR'', op_totalPaymentVolumeMinor = 100, op_totalCardGpvMinor = 90,
     op_eligibleCardGpvMinor = 80, op_offeredCardGpvMinor = 70, op_movableNowMinor = 10, op_movable30dMinor = 20,
     op_movable90dMinor = 30, op_jurisdictions = [''DE''], op_mccs = [''5411''], op_createdByUserId = None,
     op_createdByOrgId = None, op_updatedByUserId = None, op_version = 1, op_createdAt = 0\<rparr>"

definition demo_store :: "OpportunityStatus \<Rightarrow> MarketStore" where
  "demo_store s = \<lparr>bs_ids = 0, bs_audit = [], bs_timeline = [], mk_organizations = [''shop'', ''acq'', ''psp''],
     mk_opportunities = [demo_opportunity s], mk_volumeSlices = [], mk_rfqs = [], mk_rfqVersions = [],
     mk_recipients = [], mk_quotes = [], mk_dealRooms = [], mk_participants = [], mk_conditions = [], mk_decisions = [],
     mk_expiryJobs = [], mk_jobKeys = []\<rparr>"

definition demo_merchant :: Actor where
  "demo_merchant = \<lparr>userId = ''m'', organizationId = Some ''shop'', role = Some MERCHANT_PSP_USER, membershipId = Some ''m1''\<rparr>"

definition demo_operator :: Actor where
  "demo_operator = \<lparr>userId = ''o'', organizationId = Some ''tol'', role = Some MARKETPLACE_OPERATOR, membershipId = Some ''m0''\<rparr>"

definition demo_provider :: "string \<Rightarrow> Actor" where
  "demo_provider org = \<lparr>userId = ''p'', organizationId = Some org, role = Some ACQUIRER_PROVIDER_USER, membershipId = Some ''m2''\<rparr>"

definition demo_rfq :: "string list \<Rightarrow> CreateRfqRequest" where
  "demo_rfq orgs = \<lparr>cr_opportunityId = ''opp'', cr_providerOrgIds = orgs, cr_dueAt = 5000, cr_packetType = None,
     cr_disclosureSnapshot = ([JObject []], VRef 0)\<rparr>"

definition demo_quote :: SubmitQuoteRequest where
  "demo_quote = \<lparr>sq_currency = ''EUR'', sq_validUntil = 9000, sq_terms = ([JObject []], VRef 0)\<rparr>"

text \<open>Runs, newest state first: one deal; a selection that overlaps the expiry of its RFQ; two
  selections for one opportunity that overlap each other.\<close>

definition demo_deal :: "rfq_failure + MarketStore list" where
  "demo_deal =
     (let db0 = demo_store Opp_MATCH_READY in
      ebind (rfqs_create demo_env demo_operator (demo_rfq [''acq'']) demo_context db0 db0) (\<lambda>(_, db1).
      ebind (submitQuote demo_env (demo_provider ''acq'') ''x'' demo_quote demo_context db1 db1) (\<lambda>(_, db2).
      ebind (selectQuote demo_env demo_merchant ''x'' ''xxxxxx'' ''best'' demo_context db2 db2) (\<lambda>(_, db3).
      Inr [db3, db2, db1, db0]))))"

definition demo_expiry_race :: "rfq_failure + MarketStore list" where
  "demo_expiry_race =
     (let db0 = demo_store Opp_MATCH_READY in
      ebind (rfqs_create demo_env demo_operator (demo_rfq [''acq'']) demo_context db0 db0) (\<lambda>(_, db1).
      ebind (submitQuote demo_env (demo_provider ''acq'') ''x'' demo_quote demo_context db1 db1) (\<lambda>(_, db2).
      ebind (map_err (\<lambda>_. Problem internal) (rfqExpiryJob (demo_env\<lparr>clock := 6000\<rparr>) concat ''x'' db2 db2)) (\<lambda>(_, db3).
      ebind (selectQuote demo_env demo_merchant ''x'' ''xxxxxx'' ''best'' demo_context db2 db3) (\<lambda>(_, db4).
      Inr [db4, db3, db2, db1, db0])))))"

definition demo_selection_race :: "rfq_failure + MarketStore list" where
  "demo_selection_race =
     (let db0 = demo_store Opp_MATCH_READY in
      ebind (rfqs_create demo_env demo_operator (demo_rfq [''acq'']) demo_context db0 db0) (\<lambda>(_, db1).
      ebind (rfqs_create demo_env demo_operator (demo_rfq [''psp'']) demo_context db1 db1) (\<lambda>(_, db2).
      ebind (submitQuote demo_env (demo_provider ''acq'') ''x'' demo_quote demo_context db2 db2) (\<lambda>(_, db3).
      ebind (submitQuote demo_env (demo_provider ''psp'') ''xxxxxx'' demo_quote demo_context db3 db3) (\<lambda>(_, db4).
      ebind (selectQuote demo_env demo_merchant ''x'' ''xxxxxxxxxxx'' ''best'' demo_context db4 db4) (\<lambda>(_, db5).
      ebind (selectQuote demo_env demo_merchant ''xxxxxx'' ''xxxxxxxxxxxxxx'' ''best'' demo_context db4 db5) (\<lambda>(_, db6).
      Inr [db6, db5, db4, db3, db2, db1, db0])))))))"

text \<open>Evaluation of the runs: a continuation is entered only when its argument is known.\<close>

lemma ebind_weak: "r = r' \<Longrightarrow> ebind r k = ebind r' k"
  by simp

lemma demo_actors [simp]:
  "userId demo_operator = ''o''" "organizationId demo_operator = Some ''tol''" "role demo_operator = Some MARKETPLACE_OPERATOR"
  "userId demo_merchant = ''m''" "organizationId demo_merchant = Some ''shop''" "role demo_merchant = Some MERCHANT_PSP_USER"
  "userId (demo_provider org) = ''p''" "organizationId (demo_provider org) = Some org"
  "role (demo_provider org) = Some ACQUIRER_PROVIDER_USER"
  by (simp_all add: demo_operator_def demo_merchant_def demo_provider_def)

lemma demo_grants:
  "(authorize demo_operator A_rfq_create R_rfq (Some ''shop'') no_context :: rfq_failure + unit) = Inr ()"
  "(authorize (demo_provider ''acq'') A_rfq_submit_quote R_rfq (Some ''shop'') (as_participant True) :: rfq_failure + unit) = Inr ()"
  "(authorize (demo_provider ''psp'') A_rfq_submit_quote R_rfq (Some ''shop'') (as_participant True) :: rfq_failure + unit) = Inr ()"
  "(authorize demo_merchant A_rfq_select_quote R_rfq (Some ''shop'') no_context :: rfq_failure + unit) = Inr ()"
  "(authorize (demo_provider ''acq'') A_rfq_read R_rfq (Some ''shop'') (as_participant True) :: rfq_failure + unit) = Inr ()"
  by (auto simp: authorize_def split: AuthDecision.split; code_simp)+

lemma demo_json: "assertJsonSafePlainObject [JObject []] (VRef 0) [] = Inr ()"
  by code_simp

lemma demo_moves:
  "assertValidRfqRecipientTransition ''INVITED'' ''QUOTED'' = Inr ()"
  "assertValidRfqTransition ''SENT'' ''QUOTED'' = Inr ()" "assertValidRfqTransition ''QUOTED'' ''SELECTED'' = Inr ()"
  "assertValidRfqTransition ''QUOTED'' ''EXPIRED'' = Inr ()"
  "assertValidQuoteTransition ''SUBMITTED'' ''SELECTED'' = Inr ()"
  "assertValidOpportunityTransition ''MATCH_READY'' ''INVITED'' = Inr ()"
  "assertValidOpportunityTransition ''INVITED'' ''QUOTED'' = Inr ()"
  "assertValidOpportunityTransition ''QUOTED'' ''SELECTED'' = Inr ()"
  by code_simp+

lemmas demo_eval = demo_env_def demo_rfq_def demo_context_def demo_store_def demo_opportunity_def demo_quote_def
  demo_json demo_grants demo_moves throw_if_def Let_def

lemmas repository_defs = opportunity_findById_def rfq_findById_def quote_findById_def find_by_def organization_findManyByIds_def
  next_id_def dbe_def insert_row_def rfq_insert_def rfqVersion_insert_def recipient_insert_def quote_insert_def
  opportunity_updateStatus_def rfq_updateStatus_def quote_updateStatus_def recipient_updateState_def
  dealRoom_insert_def participant_insert_def decision_insert_def update_by_def set_by_def write_audit_def write_event_def
  audit_by_def event_by_def recipientOf_def recipient_findByRfqAndProviderOrg_def nextQuoteVersion_def quote_listByRfq_def

lemmas operation_defs = rfqs_create_def new_rfq_def first_version_def markInvited_def submitQuote_def submitQuoteTx_def
  loadRfq_def new_quote_def markRecipientQuoted_def markRfqQuoted_def markOpportunityQuoted_def selectQuote_def
  selectQuoteTx_def openDealRoom_def new_dealRoom_def new_participant_def uniqueSafe_def

lemmas expiry_defs = rfqExpiryJob_def idempotency_find_def idempotency_reserve_def idempotency_complete_def expireOne_def expire_handler_def EXPIRABLE_STATUSES_def withJobIdempotency_def system_audit_def
  system_event_def

lemma demo_deal_value: "case demo_deal of
    Inr hist \<Rightarrow> map (map dl_status \<circ> mk_dealRooms) hist = [[Deal_OPEN], [], [], []] | Inl e \<Rightarrow> False"
  by (simp add: demo_deal_def demo_eval repository_defs operation_defs cong: ebind_weak)

lemma demo_deal_quotes: "case demo_deal of
    Inr hist \<Rightarrow> map (map (\<lambda>q. (qt_id q, qt_status q)) \<circ> mk_quotes) hist =
      [[(''xxxxxx'', Qt_SELECTED)], [(''xxxxxx'', Qt_SUBMITTED)], [], []] | Inl e \<Rightarrow> False"
  by (simp add: demo_deal_def demo_eval repository_defs operation_defs cong: ebind_weak)

lemma demo_deal_opportunity: "case demo_deal of
    Inr hist \<Rightarrow> map dl_opportunityId (mk_dealRooms (hd hist)) = [''opp''] | Inl e \<Rightarrow> False"
  by (simp add: demo_deal_def demo_eval repository_defs operation_defs cong: ebind_weak)

lemma demo_deal_provider: "case demo_deal of
    Inr hist \<Rightarrow> map (\<lambda>q. (qt_providerOrgId q, qt_status q)) (mk_quotes (hist ! 1)) = [(''acq'', Qt_SUBMITTED)] | Inl e \<Rightarrow> False"
  by (simp add: demo_deal_def demo_eval repository_defs operation_defs cong: ebind_weak)

lemma demo_deal_route: "case demo_deal of
    Inr hist \<Rightarrow> (case getRfqRoute (demo_provider ''acq'') ''x'' (hd hist) of
      Inr detail \<Rightarrow> rd_merchantOrgId detail = ''shop'' \<and> length (rd_quotes detail) = 1 | Inl e \<Rightarrow> False) | Inl e \<Rightarrow> False"
  by (simp add: demo_deal_def demo_eval repository_defs operation_defs getRfqRoute_def rfqs_getById_def
      filterQuotesForViewer_def rfqVersion_findByRfqAndVersion_def recipient_listByRfq_def cong: ebind_weak)

lemma demo_selection_value: "case demo_selection_race of
    Inr hist \<Rightarrow> map (map dl_opportunityId \<circ> mk_dealRooms) hist = [[''opp'', ''opp''], [''opp''], [], [], [], [], []] | Inl e \<Rightarrow> False"
  by (simp add: demo_selection_race_def demo_eval repository_defs operation_defs cong: ebind_weak)

lemma demo_expiry_value: "case demo_expiry_race of
    Inr hist \<Rightarrow> map (map rf_status \<circ> mk_rfqs) hist = [[Rfq_SELECTED], [Rfq_EXPIRED], [Rfq_QUOTED], [Rfq_SENT], []] | Inl e \<Rightarrow> False"
  by (simp add: demo_expiry_race_def demo_eval repository_defs operation_defs expiry_defs cong: ebind_weak)

text \<open>The runs are histories.\<close>

lemma demo_start: "market_start (demo_store s)"
  by (simp add: market_start_def demo_store_def)

lemma ebind_stepE:
  "ebind r (\<lambda>(x, db). k x db) = Inr y \<Longrightarrow> (\<And>x db. r = Inr (x, db) \<Longrightarrow> k x db = Inr y \<Longrightarrow> P) \<Longrightarrow> P"
  by (cases r) auto

lemmas market_commit = request_run.commit [where step = market_step and start = market_start]

lemma demo_deal_run:
  obtains db0 db1 db2 db3 where "demo_deal = Inr [db3, db2, db1, db0]" "market_run False [db3, db2, db1, db0]"
    "map (map dl_status \<circ> mk_dealRooms) [db3, db2, db1, db0] = [[Deal_OPEN], [], [], []]"
proof -
  obtain hist where h: "demo_deal = Inr hist" "map (map dl_status \<circ> mk_dealRooms) hist = [[Deal_OPEN], [], [], []]"
    using demo_deal_value by (auto split: sum.splits)
  obtain db1 db2 db3 x1 x2 x3 where hist: "hist = [db3, db2, db1, demo_store Opp_MATCH_READY]"
    and r: "rfqs_create demo_env demo_operator (demo_rfq [''acq'']) demo_context (demo_store Opp_MATCH_READY) (demo_store Opp_MATCH_READY) = Inr (x1, db1)"
      "submitQuote demo_env (demo_provider ''acq'') ''x'' demo_quote demo_context db1 db1 = Inr (x2, db2)"
      "selectQuote demo_env demo_merchant ''x'' ''xxxxxx'' ''best'' demo_context db2 db2 = Inr (x3, db3)"
    using h(1) unfolding demo_deal_def Let_def by (elim ebind_stepE) (rule that, auto)
  have "market_run False hist"
    unfolding hist using demo_start
    by (intro market_commit [OF _ _ market_step.select [OF r(3)]] market_commit [OF _ _ market_step.submit [OF r(2)]]
        market_commit [OF _ _ market_step.create_rfq [OF r(1)]] request_run.initial) auto
  then show thesis
    using h unfolding hist by (intro that)
qed

lemma demo_expiry_run:
  obtains db0 db1 db2 db3 db4 where "market_run True [db4, db3, db2, db1, db0]"
    "map (map rf_status \<circ> mk_rfqs) [db4, db3, db2, db1, db0] = [[Rfq_SELECTED], [Rfq_EXPIRED], [Rfq_QUOTED], [Rfq_SENT], []]"
proof -
  obtain hist where h: "demo_expiry_race = Inr hist"
    "map (map rf_status \<circ> mk_rfqs) hist = [[Rfq_SELECTED], [Rfq_EXPIRED], [Rfq_QUOTED], [Rfq_SENT], []]"
    using demo_expiry_value by (auto split: sum.splits)
  obtain db1 db2 db3 db4 x1 x2 x3 x4 where hist: "hist = [db4, db3, db2, db1, demo_store Opp_MATCH_READY]"
    and r: "rfqs_create demo_env demo_operator (demo_rfq [''acq'']) demo_context (demo_store Opp_MATCH_READY) (demo_store Opp_MATCH_READY) = Inr (x1, db1)"
      "submitQuote demo_env (demo_provider ''acq'') ''x'' demo_quote demo_context db1 db1 = Inr (x2, db2)"
      "rfqExpiryJob (demo_env\<lparr>clock := 6000\<rparr>) concat ''x'' db2 db2 = Inr (x3, db3)"
      "selectQuote demo_env demo_merchant ''x'' ''xxxxxx'' ''best'' demo_context db2 db3 = Inr (x4, db4)"
    using h(1) unfolding demo_expiry_race_def Let_def by (elim ebind_stepE) (rule that, auto)
  have "market_run True hist"
    unfolding hist using demo_start
    by (intro market_commit [OF _ _ market_step.select [OF r(4)]] market_commit [OF _ _ market_step.expiry_job [OF r(3)]]
        market_commit [OF _ _ market_step.submit [OF r(2)]] market_commit [OF _ _ market_step.create_rfq [OF r(1)]]
        request_run.initial) auto
  then show thesis
    using h(2) unfolding hist by (rule that)
qed

lemma demo_selection_run:
  obtains hist where "market_run True hist"
    "map (map dl_opportunityId \<circ> mk_dealRooms) hist = [[''opp'', ''opp''], [''opp''], [], [], [], [], []]"
proof -
  obtain hist where h: "demo_selection_race = Inr hist"
    "map (map dl_opportunityId \<circ> mk_dealRooms) hist = [[''opp'', ''opp''], [''opp''], [], [], [], [], []]"
    using demo_selection_value by (auto split: sum.splits)
  obtain db1 db2 db3 db4 db5 db6 x1 x2 x3 x4 x5 x6
    where hist: "hist = [db6, db5, db4, db3, db2, db1, demo_store Opp_MATCH_READY]"
    and r: "rfqs_create demo_env demo_operator (demo_rfq [''acq'']) demo_context (demo_store Opp_MATCH_READY) (demo_store Opp_MATCH_READY) = Inr (x1, db1)"
      "rfqs_create demo_env demo_operator (demo_rfq [''psp'']) demo_context db1 db1 = Inr (x2, db2)"
      "submitQuote demo_env (demo_provider ''acq'') ''x'' demo_quote demo_context db2 db2 = Inr (x3, db3)"
      "submitQuote demo_env (demo_provider ''psp'') ''xxxxxx'' demo_quote demo_context db3 db3 = Inr (x4, db4)"
      "selectQuote demo_env demo_merchant ''x'' ''xxxxxxxxxxx'' ''best'' demo_context db4 db4 = Inr (x5, db5)"
      "selectQuote demo_env demo_merchant ''xxxxxx'' ''xxxxxxxxxxxxxx'' ''best'' demo_context db4 db5 = Inr (x6, db6)"
    using h(1) unfolding demo_selection_race_def Let_def by (elim ebind_stepE) (rule that, auto)
  have "market_run True hist"
    unfolding hist using demo_start
    by (intro market_commit [OF _ _ market_step.select [OF r(6)]] market_commit [OF _ _ market_step.select [OF r(5)]]
        market_commit [OF _ _ market_step.submit [OF r(4)]] market_commit [OF _ _ market_step.submit [OF r(3)]]
        market_commit [OF _ _ market_step.create_rfq [OF r(2)]] market_commit [OF _ _ market_step.create_rfq [OF r(1)]]
        request_run.initial) auto
  then show thesis
    using h(2) by (rule that)
qed

end
