(* ===== verification/Market_Guarantees.thy ===== *)
theory Market_Guarantees
  imports Market_Demo
begin

text \<open>
  The guarantees of the marketplace modules, over the histories of the previous theories, and the
  overlaps of requests that break those which hold only without them.
\<close>

section \<open>Deal rooms\<close>

lemma find_all:
  assumes "market_ok db"
  shows "q \<in> set (mk_quotes db) \<Longrightarrow> quote_findById db (qt_id q) = Some q"
    and "rf \<in> set (mk_rfqs db) \<Longrightarrow> rfq_findById db (rf_id rf) = Some rf"
    and "opp \<in> set (mk_opportunities db) \<Longrightarrow> opportunity_findById db (op_id opp) = Some opp"
  using untouched [OF assms]
  by (auto simp: quote_findById_def rfq_findById_def opportunity_findById_def find_by_eq_iff)

text \<open>C27. In every state of every history of the marketplace, overlapping requests and the expiry
  job included, the deal rooms are exactly the selections: each deal room belongs to one selected
  quote of one selected RFQ, its merchant is the owner of the RFQ's opportunity, its provider the
  author of the quote, these two and nobody else take part in it, and no quote and no RFQ is
  selected without a deal room or has two.\<close>

theorem deal_rooms_are_selections:
  assumes "market_run overlap hist" and "db \<in> set hist"
  shows "distinct (map dl_selectedQuoteId (mk_dealRooms db)) \<and> distinct (map dl_rfqId (mk_dealRooms db)) \<and>
    dl_selectedQuoteId ` set (mk_dealRooms db) = qt_id ` {q \<in> set (mk_quotes db). qt_status q = Qt_SELECTED} \<and>
    dl_rfqId ` set (mk_dealRooms db) = rf_id ` {rf \<in> set (mk_rfqs db). rf_status rf = Rfq_SELECTED} \<and>
    list_all (\<lambda>d. \<exists>q rf opp. quote_findById db (dl_selectedQuoteId d) = Some q \<and> qt_rfqId q = dl_rfqId d \<and>
        rfq_findById db (dl_rfqId d) = Some rf \<and> rf_opportunityId rf = dl_opportunityId d \<and>
        opportunity_findById db (dl_opportunityId d) = Some opp \<and>
        dl_providerOrgId d = qt_providerOrgId q \<and> dl_merchantOrgId d = op_ownerOrgId opp \<and>
        map (\<lambda>p. (pt_organizationId p, pt_participantRole p)) (participant_listByDealRoom db (dl_id d)) =
          [(op_ownerOrgId opp, Party_MERCHANT), (qt_providerOrgId q, Party_PROVIDER)]) (mk_dealRooms db)"
proof -
  have ok: "market_ok db"
    using market.run_inv assms by blast
  have backed: "room_backed db d" if "d \<in> set (mk_dealRooms db)" for d
    using ok that by (simp add: market_ok_def)
  have quotes: "dl_selectedQuoteId ` set (mk_dealRooms db) = qt_id ` {q \<in> set (mk_quotes db). qt_status q = Qt_SELECTED}"
    using backed ok unfolding room_backed_def market_ok_def selections_open_def by (auto simp: image_iff) metis+
  have rfqs: "dl_rfqId ` set (mk_dealRooms db) = rf_id ` {rf \<in> set (mk_rfqs db). rf_status rf = Rfq_SELECTED}"
    using backed ok unfolding room_backed_def market_ok_def selections_open_def by (auto simp: image_iff) metis+
  have "\<exists>q rf opp. quote_findById db (dl_selectedQuoteId d) = Some q \<and> qt_rfqId q = dl_rfqId d \<and>
        rfq_findById db (dl_rfqId d) = Some rf \<and> rf_opportunityId rf = dl_opportunityId d \<and>
        opportunity_findById db (dl_opportunityId d) = Some opp \<and>
        dl_providerOrgId d = qt_providerOrgId q \<and> dl_merchantOrgId d = op_ownerOrgId opp \<and>
        map (\<lambda>p. (pt_organizationId p, pt_participantRole p)) (participant_listByDealRoom db (dl_id d)) =
          [(op_ownerOrgId opp, Party_MERCHANT), (qt_providerOrgId q, Party_PROVIDER)]"
    if "d \<in> set (mk_dealRooms db)" for d
    using backed [OF that] find_all [OF ok] unfolding room_backed_def by metis
  then show ?thesis
    using quotes rfqs ok by (simp add: market_ok_def market_keys_def list_all_iff)
qed

theorem deal_rooms_are_selections_witness:
  "\<exists>(db :: MarketStore) d. mk_dealRooms db = [d] \<and> {dl_selectedQuoteId d} = qt_id ` {q \<in> set (mk_quotes db). qt_status q = Qt_SELECTED}"
proof -
  obtain db0 db1 db2 db3 where run: "market_run False [db3, db2, db1, db0]"
    and "map (map dl_status \<circ> mk_dealRooms) [db3, db2, db1, db0] = [[Deal_OPEN], [], [], []]"
    by (rule demo_deal_run)
  then obtain d where d: "mk_dealRooms db3 = [d]"
    by auto
  show ?thesis
    using deal_rooms_are_selections [OF run, of db3] d by (intro exI [of _ db3] exI [of _ d]) simp
qed

section \<open>Rows are permanent\<close>

lemma keeps_conditions:
  assumes "market_keeps db db'" and "market_ok db'" and "condition_findById db i = Some c"
  shows "\<exists>y. condition_findById db' i = Some y \<and> condition_moves c y"
proof -
  obtain new where g: "grows condition_moves new (mk_conditions db) (mk_conditions db')"
    using assms(1) by (auto simp: market_keeps_def)
  show ?thesis
    using grows_find [OF g, of dc_id i c] moves_keys(10) untouched(7) [OF assms(2)] assms(3)
    by (simp add: condition_findById_def)
qed

text \<open>C28. Between any two states of a history no quote, deal room or condition is lost: the later state
  holds it under the same identifier with the same commercial terms and the same parties, and its
  status has moved only along the transition table of the domain package.\<close>

theorem market_rows_permanent:
  assumes "market_run overlap (later @ db' # between @ db # earlier)"
  shows "(quote_findById db i = Some q \<longrightarrow> (\<exists>q'. quote_findById db' i = Some q' \<and> quote_fixed q' = quote_fixed q \<and>
      (\<lambda>s t. t \<in> set (QUOTE_TRANSITIONS s))\<^sup>*\<^sup>* (qt_status q) (qt_status q'))) \<and>
    (dealRoomRow_findById db j = Some d \<longrightarrow> (\<exists>d'. dealRoomRow_findById db' j = Some d' \<and> room_fixed d' = room_fixed d \<and>
      (\<lambda>s t. t \<in> set (DEAL_ROOM_TRANSITIONS s))\<^sup>*\<^sup>* (dl_status d) (dl_status d'))) \<and>
    (condition_findById db k = Some c \<longrightarrow> (\<exists>c'. condition_findById db' k = Some c' \<and> condition_fixed c' = condition_fixed c \<and>
      (\<lambda>s t. t \<in> set (DEAL_CONDITION_TRANSITIONS s))\<^sup>*\<^sup>* (dc_state c) (dc_state c')))"
proof -
  have keeps: "market_keeps db db'" and ok: "market_ok db'"
    using market.run_keeps [OF assms] market.run_inv [OF assms, of db'] by auto
  note kept = snap_find [OF keeps keys_of [OF ok]]
  show ?thesis
    using kept(4) [of i q] kept(5) [of j d] keeps_conditions [OF keeps ok, of k c]
    by (auto simp: quote_moves_def room_moves_def condition_moves_def)
qed

theorem market_rows_permanent_witness:
  "\<exists>(db :: MarketStore) db' q q'. quote_findById db ''xxxxxx'' = Some q \<and> quote_findById db' ''xxxxxx'' = Some q' \<and>
     quote_fixed q' = quote_fixed q \<and> qt_status q = Qt_SUBMITTED \<and> qt_status q' = Qt_SELECTED"
proof -
  obtain db0 db1 db2 db3 where run: "market_run False [db3, db2, db1, db0]" and v: "demo_deal = Inr [db3, db2, db1, db0]"
    by (rule demo_deal_run)
  have "map (map (\<lambda>q. (qt_id q, qt_status q)) \<circ> mk_quotes) [db3, db2, db1, db0] =
      [[(''xxxxxx'', Qt_SELECTED)], [(''xxxxxx'', Qt_SUBMITTED)], [], []]"
    using demo_deal_quotes unfolding v by simp
  then obtain q where q: "quote_findById db2 ''xxxxxx'' = Some q" "qt_status q = Qt_SUBMITTED"
    and sel: "\<And>q'. quote_findById db3 ''xxxxxx'' = Some q' \<Longrightarrow> qt_status q' = Qt_SELECTED"
    by (auto simp: quote_findById_def find_by_def)
  obtain q' where "quote_findById db3 ''xxxxxx'' = Some q'" "quote_fixed q' = quote_fixed q"
    using market_rows_permanent [of False "[]" db3 "[]" db2 "[db1, db0]" "''xxxxxx''" q, THEN conjunct1] run q(1) by auto
  then show ?thesis
    using q sel by blast
qed

section \<open>Without overlap\<close>

text \<open>C29. When every request reads the state it commits on, the statuses of RFQs, recipients and
  opportunities follow the transition tables from state to state, and no opportunity ever has two
  deal rooms.\<close>

theorem sequential_requests_lawful:
  assumes "market_run False (later @ db' # between @ db # earlier)"
  shows "distinct (map dl_opportunityId (mk_dealRooms db')) \<and>
    (rfq_findById db i = Some rf \<longrightarrow> (\<exists>rf'. rfq_findById db' i = Some rf' \<and>
      (\<lambda>s t. t \<in> set (RFQ_TRANSITIONS s))\<^sup>*\<^sup>* (rf_status rf) (rf_status rf'))) \<and>
    (opportunity_findById db j = Some opp \<longrightarrow> (\<exists>opp'. opportunity_findById db' j = Some opp' \<and>
      (\<lambda>s t. t \<in> set (OPPORTUNITY_TRANSITIONS s))\<^sup>*\<^sup>* (op_status opp) (op_status opp'))) \<and>
    (find_by rc_id k (mk_recipients db) = Some c \<longrightarrow> (\<exists>c'. find_by rc_id k (mk_recipients db') = Some c' \<and>
      (\<lambda>s t. t \<in> set (RFQ_RECIPIENT_TRANSITIONS s))\<^sup>*\<^sup>* (rc_state c) (rc_state c')))"
proof -
  have keeps: "lawful_keeps db db'" and ok: "market_ok db'" and settled: "rooms_settled db'"
    using sequential.run_keeps [OF assms] sequential.run_inv [OF assms, of db'] by auto
  obtain n1 n2 n3 where g: "grows lawful_opp n1 (mk_opportunities db) (mk_opportunities db')"
    "grows lawful_rfq n2 (mk_rfqs db) (mk_rfqs db')" "grows lawful_recipient n3 (mk_recipients db) (mk_recipients db')"
    using keeps by (auto simp: lawful_keeps_def)
  note d = untouched [OF ok]
  show ?thesis
    using settled grows_find [OF g(1), of op_id j opp] grows_find [OF g(2), of rf_id i rf]
      grows_find [OF g(3), of rc_id k c] d(1-3)
    by (auto simp: rooms_settled_def lawful_opp_def lawful_rfq_def lawful_recipient_def rfq_findById_def opportunity_findById_def)
qed

theorem sequential_requests_lawful_witness:
  "\<exists>(db :: MarketStore). map dl_opportunityId (mk_dealRooms db) = [''opp''] \<and> distinct (map dl_opportunityId (mk_dealRooms db))"
proof -
  obtain db0 db1 db2 db3 where run: "market_run False [db3, db2, db1, db0]" and v: "demo_deal = Inr [db3, db2, db1, db0]"
    by (rule demo_deal_run)
  have "map dl_opportunityId (mk_dealRooms db3) = [''opp'']"
    using demo_deal_opportunity unfolding v by simp
  moreover have "distinct (map dl_opportunityId (mk_dealRooms db3))"
    using sequential_requests_lawful [of "[]" db3 "[]" db2 "[db1, db0]"] run by simp
  ultimately show ?thesis
    by (intro exI [of _ db3]) simp
qed

text \<open>With overlapping requests an RFQ the worker has already expired can still be selected:
  \<open>selectQuote\<close> checks the RFQ before it takes the lock and re-reads only the quote, so it overwrites the
  terminal status \<open>EXPIRED\<close>.\<close>

theorem expired_rfq_selected:
  "\<exists>db' db hist rf rf'. market_run True (db' # db # hist) \<and> rf_id rf' = rf_id rf \<and>
     mk_rfqs db = [rf] \<and> rf_status rf = Rfq_EXPIRED \<and> mk_rfqs db' = [rf'] \<and> rf_status rf' = Rfq_SELECTED"
proof -
  obtain db0 db1 db2 db3 db4 where run: "market_run True [db4, db3, db2, db1, db0]"
    and v: "map (map rf_status \<circ> mk_rfqs) [db4, db3, db2, db1, db0] = [[Rfq_SELECTED], [Rfq_EXPIRED], [Rfq_QUOTED], [Rfq_SENT], []]"
    by (rule demo_expiry_run)
  then obtain rf rf' where r: "mk_rfqs db3 = [rf]" "rf_status rf = Rfq_EXPIRED" "mk_rfqs db4 = [rf']" "rf_status rf' = Rfq_SELECTED"
    by auto
  have "market_keeps db3 db4"
    using market.run_keeps [of True "[]" db4 "[]" db3 "[db2, db1, db0]"] run by simp
  then have "rf_id rf' = rf_id rf"
    using keeps_tables(2) [of db3 db4 rf] r by (auto simp: rfq_moves_def)
  with run r show ?thesis by blast
qed

text \<open>C30. With overlapping requests one opportunity gets two deal rooms: the lock is keyed by the RFQ,
  two RFQs of the opportunity are selected at the same time, and neither transaction re-reads the
  status of the opportunity.\<close>

theorem opportunity_sold_twice:
  "\<exists>db hist. market_run True (db # hist) \<and> map dl_opportunityId (mk_dealRooms db) = [''opp'', ''opp''] \<and>
     distinct (map dl_rfqId (mk_dealRooms db))"
proof -
  obtain hist where run: "market_run True hist"
    and v: "map (map dl_opportunityId \<circ> mk_dealRooms) hist = [[''opp'', ''opp''], [''opp''], [], [], [], [], []]"
    by (rule demo_selection_run)
  then obtain db rest where h: "hist = db # rest" "map dl_opportunityId (mk_dealRooms db) = [''opp'', ''opp'']"
    by (cases hist) auto
  have "market_ok db"
    using market.run_inv [OF run] h(1) by simp
  then show ?thesis
    using run h by (auto simp: market_ok_def market_keys_def)
qed

section \<open>Quotes\<close>

lemma recipientOf_quoted:
  assumes ok: "market_ok db" and q: "q \<in> set (mk_quotes db)" and org: "organizationId actor = Some (qt_providerOrgId q)"
    and "qt_providerOrgId q \<noteq> []"
  shows "\<exists>c. recipientOf db (qt_rfqId q) actor = Some c \<and> rc_state c \<notin> {Rcp_INVITED, Rcp_ACKNOWLEDGED}"
proof -
  obtain c where c: "c \<in> set (mk_recipients db)" "invitation c = (qt_rfqId q, qt_providerOrgId q)"
    "rc_state c \<notin> {Rcp_INVITED, Rcp_ACKNOWLEDGED}"
    using ok q by (auto simp: market_ok_def quote_backed_def)
  have pair: "rc_rfqId x = qt_rfqId q \<and> rc_providerOrgId x = qt_providerOrgId q \<longleftrightarrow> invitation x = invitation c" for x
    using c(2) by (auto simp: invitation_def)
  have "find_by invitation (invitation c) (mk_recipients db) = Some c"
    using find_by_unique [OF untouched(4) [OF ok] c(1)] .
  then have "recipientOf db (qt_rfqId q) actor = Some c"
    using org assms(4) by (simp add: recipientOf_def recipient_findByRfqAndProviderOrg_def pair find_by_def)
  with c(3) show ?thesis by blast
qed

text \<open>A provider that has quoted on an RFQ cannot quote on it again, whatever became of the first
  quote (also after withdrawing it): the request is refused, by the authorization or by the transition
  guard of the recipient, which has no step from \<open>QUOTED\<close> to \<open>QUOTED\<close>.\<close>

theorem requote_refused:
  assumes "market_run overlap (db # hist)" and "q \<in> set (mk_quotes db)"
    and "organizationId actor = Some (qt_providerOrgId q)" and "qt_providerOrgId q \<noteq> []"
  shows "\<exists>e. submitQuote env actor (qt_rfqId q) inp ctx db db = Inl e \<and>
    (errorHandler e = \<lparr>response_status = 403, response_code = ''forbidden'', retryable = False\<rparr> \<or>
     errorHandler e = \<lparr>response_status = 400, response_code = ''invalid_state_transition'', retryable = False\<rparr>)"
proof -
  have ok: "market_ok db"
    using market.run_inv [OF assms(1), of db] by simp
  obtain c where c: "recipientOf db (qt_rfqId q) actor = Some c" "rc_state c \<notin> {Rcp_INVITED, Rcp_ACKNOWLEDGED}"
    using recipientOf_quoted [OF ok assms(2-4)] by blast
  have "c \<in> set (mk_recipients db)" "rc_rfqId c = qt_rfqId q"
    using recipientOf_SomeD [OF c(1)] by auto
  then obtain rf where rf: "rf \<in> set (mk_rfqs db)" "rf_id rf = qt_rfqId q"
    using ok by (auto simp: market_ok_def recipient_backed_def)
  then obtain opp where opp: "opp \<in> set (mk_opportunities db)" "op_id opp = rf_opportunityId rf"
    using ok by (auto simp: market_ok_def rfq_backed_def)
  have load: "loadRfq db (qt_rfqId q) = Inr (rf, opp)"
    using find_all(2) [OF ok rf(1)] find_all(3) [OF ok opp(1)] rf(2) opp(2) by (simp add: loadRfq_ok)
  have "assertValidRfqRecipientTransition (rfqRecipientState_name (rc_state c)) ''QUOTED'' \<noteq> Inr ()"
    using c(2) by (simp add: to_recipient_QUOTED)
  then obtain e where e: "assertValidRfqRecipientTransition (rfqRecipientState_name (rc_state c)) ''QUOTED'' = Inl e"
    by (cases "assertValidRfqRecipientTransition (rfqRecipientState_name (rc_state c)) ''QUOTED''") auto
  show ?thesis
  proof (cases "can actor A_rfq_submit_quote \<lparr>rtype = R_rfq, rid = None, ownerOrgId = Some (op_ownerOrgId opp), privacyClass = None\<rparr>
      (as_participant True)")
    case (allow r)
    then show ?thesis
      by (simp add: submitQuote_def load c(1) authorize_def e)
  next
    case (deny r)
    then show ?thesis
      by (simp add: submitQuote_def load c(1) authorize_def)
  qed
qed

theorem requote_refused_witness:
  "\<exists>(db :: MarketStore) q e. mk_quotes db = [q] \<and> qt_status q = Qt_SUBMITTED \<and>
     submitQuote demo_env (demo_provider (qt_providerOrgId q)) (qt_rfqId q) demo_quote demo_context db db = Inl e"
proof -
  obtain db0 db1 db2 db3 where run: "market_run False [db3, db2, db1, db0]" and v: "demo_deal = Inr [db3, db2, db1, db0]"
    by (rule demo_deal_run)
  have "map (\<lambda>q. (qt_providerOrgId q, qt_status q)) (mk_quotes db2) = [(''acq'', Qt_SUBMITTED)]"
    using demo_deal_provider unfolding v by simp
  then obtain q where q: "mk_quotes db2 = [q]" "qt_providerOrgId q = ''acq''" "qt_status q = Qt_SUBMITTED"
    by auto
  have run2: "market_run False (db2 # [db1, db0])"
    using run by (auto elim: request_run.cases)
  have "\<exists>e. submitQuote demo_env (demo_provider (qt_providerOrgId q)) (qt_rfqId q) demo_quote demo_context db2 db2 = Inl e"
    using requote_refused [OF run2, of q "demo_provider (qt_providerOrgId q)" demo_env demo_quote demo_context] q by auto
  then show ?thesis
    using q by blast
qed

text \<open>C31. Providers never see competing quotes: whoever reads an RFQ through the API and is neither the
  merchant nor in one of the four oversight roles is shown only the quotes of its own organization,
  and a contributor, merchant or provider from outside can read the RFQ only as an invited recipient.\<close>

theorem competing_quotes_hidden:
  assumes "getRfqRoute actor i db = Inr detail" and "organizationId actor \<noteq> Some (rd_merchantOrgId detail)"
  shows "(role actor \<in> Some ` set CROSS_ORG_RFQ_ROLES \<or>
      list_all (\<lambda>q. organizationId actor = Some (qt_providerOrgId q)) (rd_quotes detail)) \<and>
    (role actor \<in> Some ` set party_roles \<longrightarrow>
      (\<exists>c \<in> set (mk_recipients db). rc_rfqId c = i \<and> organizationId actor = Some (rc_providerOrgId c)))"
proof -
  obtain full where full: "rfqs_getById actor i db = Inr full"
    and detail: "detail = full\<lparr>rd_quotes := filterQuotesForViewer actor (rd_merchantOrgId full) (rd_quotes full)\<rparr>"
    using assms(1) by (auto simp: getRfqRoute_def ebind_eq_Inr)
  define invited where "invited = (recipientOf db i actor \<noteq> None)"
  obtain opp :: Opportunity where merchant: "rd_merchantOrgId full = op_ownerOrgId opp"
    and may: "allowed (can actor A_rfq_read \<lparr>rtype = R_rfq, rid = None, ownerOrgId = Some (op_ownerOrgId opp), privacyClass = None\<rparr>
        (as_participant invited))"
    using full unfolding rfqs_getById_def invited_def [symmetric] by (auto simp: ebind_eq_Inr authorize_ok)
  have outside: "organizationId actor \<noteq> Some (op_ownerOrgId opp)"
    using assms(2) by (simp add: detail merchant)
  have "invited" if "role actor \<in> Some ` set party_roles"
    using may
  proof (rule can_allow_cases)
    fix r org
    assume "role actor = Some r" "organizationId actor = Some org"
      "A_rfq_read \<in> set (crossOrgActions (AUTHORITY_MATRIX r)) \<or>
       isParticipant (as_participant invited) \<and> A_rfq_read \<in> set (participantActions (AUTHORITY_MATRIX r)) \<or>
       rtype \<lparr>rtype = R_rfq, rid = None, ownerOrgId = Some (op_ownerOrgId opp), privacyClass = None\<rparr> \<noteq> R_commission_accrual \<and>
       ownerOrgId \<lparr>rtype = R_rfq, rid = None, ownerOrgId = Some (op_ownerOrgId opp), privacyClass = None\<rparr> = Some org"
    then show ?thesis
      using that outside party_cross_org [of r] by (auto simp: as_participant_def)
  qed
  then show ?thesis
    using outside merchant
    by (auto simp: invited_def detail filterQuotesForViewer_def list_all_iff dest: recipientOf_SomeD)
qed

theorem competing_quotes_hidden_witness:
  "\<exists>(db :: MarketStore) detail. getRfqRoute (demo_provider ''acq'') ''x'' db = Inr detail \<and>
     list_all (\<lambda>q. Some ''acq'' = Some (qt_providerOrgId q)) (rd_quotes detail) \<and> length (rd_quotes detail) = 1"
proof -
  have "case demo_deal of Inr hist \<Rightarrow> (case getRfqRoute (demo_provider ''acq'') ''x'' (hd hist) of
      Inr detail \<Rightarrow> rd_merchantOrgId detail = ''shop'' \<and> length (rd_quotes detail) = 1 | Inl e \<Rightarrow> False) | Inl e \<Rightarrow> False"
    by (rule demo_deal_route)
  then obtain db detail where d: "getRfqRoute (demo_provider ''acq'') ''x'' db = Inr detail" "rd_merchantOrgId detail = ''shop''"
    "length (rd_quotes detail) = 1"
    by (auto split: sum.splits)
  then show ?thesis
    using competing_quotes_hidden [OF d(1)] by (auto simp: CROSS_ORG_RFQ_ROLES_def)
qed

section \<open>Drafts\<close>

text \<open>Opportunity \<open>i\<close> is a draft and nobody has been asked for a quote on it.\<close>

definition draft_only :: "string \<Rightarrow> MarketStore \<Rightarrow> bool" where
  "draft_only i db \<longleftrightarrow> (\<forall>opp \<in> set (mk_opportunities db). op_id opp = i \<longrightarrow> op_status opp = Opp_DRAFT) \<and>
     (\<forall>rf \<in> set (mk_rfqs db). rf_opportunityId rf \<noteq> i)"

lemma draft_other:
  assumes "draft_only i snap"
  shows "rfq_findById snap k = Some rf \<Longrightarrow> opportunity_findById snap (rf_opportunityId rf) = Some opp \<Longrightarrow> op_id opp \<noteq> i"
    and "opportunity_findById snap j = Some opp \<Longrightarrow> op_status opp \<noteq> Opp_DRAFT \<Longrightarrow> op_id opp \<noteq> i"
proof -
  show "op_id opp \<noteq> i" if "rfq_findById snap k = Some rf" "opportunity_findById snap (rf_opportunityId rf) = Some opp"
    using assms found_in(2) [OF that(1)] found_ids(2) [OF that(2)] by (auto simp: draft_only_def)
  show "op_id opp \<noteq> i" if "opportunity_findById snap j = Some opp" "op_status opp \<noteq> Opp_DRAFT"
    using assms found_in(1) [OF that(1)] that(2) by (auto simp: draft_only_def)
qed

lemma draft_only_tables:
  "draft_only i db \<Longrightarrow> j \<noteq> i \<Longrightarrow>
     \<forall>opp \<in> set (set_by op_id j (opp_to s u) (mk_opportunities db)). op_id opp = i \<longrightarrow> op_status opp = Opp_DRAFT"
  "draft_only i db \<Longrightarrow> \<forall>rf \<in> set (set_by rf_id k (rfq_to t u) (mk_rfqs db)). rf_opportunityId rf \<noteq> i"
  "draft_only i db \<Longrightarrow> \<forall>opp \<in> set (mk_opportunities db). op_id opp = i \<longrightarrow> op_status opp = Opp_DRAFT"
  "draft_only i db \<Longrightarrow> \<forall>rf \<in> set (mk_rfqs db). rf_opportunityId rf \<noteq> i"
  by (auto simp: draft_only_def set_by_def)

lemma draft_only_expire: "expireOne env h j due db = Inr (fin, db') \<Longrightarrow> draft_only i db \<Longrightarrow> draft_only i db'"
  by (drule expireOne_effect) (fastforce simp: draft_only_def set_by_def)

lemma draft_only_step:
  assumes "market_step snap db db'" and "draft_only i snap" and "draft_only i db"
  shows "draft_only i db'"
  using assms(1)
proof cases
  case (create_opportunity env actor inp ctx opp)
  then show ?thesis
    using opportunities_create_effect [OF create_opportunity] assms(3) by (auto simp: draft_only_def)
next
  case (replace_slices env actor j inp ctx r)
  then show ?thesis
    using assms(3) by (cases r) (auto elim!: replaceVolumeSlices_effect simp: draft_only_def)
next
  case (create_rfq env actor inp ctx detail)
  then show ?thesis
  proof (rule rfqs_create_effect)
    fix opp rows
    assume e: "opportunity_findById snap (cr_opportunityId inp) = Some opp" "op_status opp \<in> {Opp_MATCH_READY, Opp_INVITED}"
      "rd_rfq detail = new_rfq env actor (uuid env (bs_ids db)) inp (op_id opp)"
      "mk_rfqs db' = mk_rfqs db @ [rd_rfq detail]"
      "mk_opportunities db' = (if op_status opp = Opp_MATCH_READY
         then set_by op_id (op_id opp) (opp_to Opp_INVITED (Some (userId actor))) (mk_opportunities db)
         else mk_opportunities db)"
    have "op_id opp \<noteq> i"
      using draft_other(2) [OF assms(2) e(1)] e(2) by auto
    then show ?thesis
      using draft_only_tables [OF assms(3)] e(3) unfolding draft_only_def e(4,5) by (auto simp: new_rfq_def)
  qed
next
  case (decline env actor j reason ctx c)
  then show ?thesis
    using assms(3) by (auto elim!: rfqs_decline_effect simp: draft_only_def)
next
  case (submit env actor j inp ctx q)
  then show ?thesis
  proof (rule submitQuote_effect)
    fix rfq opp c fresh
    assume e: "rfq_findById snap j = Some rfq" "opportunity_findById snap (rf_opportunityId rfq) = Some opp"
      "mk_rfqs db' = (if rf_status fresh = Rfq_QUOTED then mk_rfqs db
         else set_by rf_id j (rfq_to Rfq_QUOTED (Some (userId actor))) (mk_rfqs db))"
      "mk_opportunities db' = (if op_status opp = Opp_INVITED
         then set_by op_id (op_id opp) (opp_to Opp_QUOTED (Some (userId actor))) (mk_opportunities db)
         else mk_opportunities db)"
    show ?thesis
      using draft_only_tables [OF assms(3)] draft_other(1) [OF assms(2) e(1,2)] unfolding draft_only_def e(3,4) by auto
  qed
next
  case (withdraw env actor j k ctx q)
  then show ?thesis
    using assms(3) by (auto elim!: withdrawQuote_effect simp: draft_only_def)
next
  case (select env actor j k reason ctx d)
  then show ?thesis
  proof (rule selectQuote_effect)
    fix rfq opp
    assume e: "rfq_findById snap j = Some rfq" "opportunity_findById snap (rf_opportunityId rfq) = Some opp"
      "mk_rfqs db' = set_by rf_id j (rfq_to Rfq_SELECTED (Some (userId actor))) (mk_rfqs db)"
      "mk_opportunities db' = set_by op_id (op_id opp) (opp_to Opp_SELECTED (Some (userId actor))) (mk_opportunities db)"
    show ?thesis
      using draft_only_tables [OF assms(3)] draft_other(1) [OF assms(2) e(1,2)] unfolding draft_only_def e(3,4) by auto
  qed
next
  case (expiry_job env h j r)
  then show ?thesis
    using rfqExpiryJob_effect [OF expiry_job] assms(3) draft_only_expire by blast
next
  case (expire env h j due fin)
  then show ?thesis
    using draft_only_expire expire assms(3) by blast
next
  case (post_condition env actor j inp ctx c)
  then show ?thesis
    using assms(3) by (auto elim!: postCondition_effect simp: draft_only_def)
next
  case (resolve_condition env actor j k s resolution ctx c)
  then show ?thesis
    using assms(3) by (auto elim!: resolveCondition_effect simp: draft_only_def)
next
  case (record_decision env actor j ty reason ctx row)
  then show ?thesis
    using assms(3) by (auto elim!: recordDecision_effect simp: draft_only_def)
qed

interpretation drafts: request_history market_step "\<lambda>db. market_start db \<and> draft_only i db" overlap "draft_only i" "\<lambda>a b. True"
  by unfold_locales (use draft_only_step in blast)+

lemma run_from:
  assumes "request_run step start overlap hist" and "start' (last hist)"
  shows "request_run step (\<lambda>db. start db \<and> start' db) overlap hist"
  using assms
proof induction
  case (initial db)
  then show ?case
    by (simp add: request_run.initial)
next
  case (commit db hist snap db')
  then show ?case
    by (simp add: request_run.commit)
qed

lemma run_suffix:
  assumes "request_run step start overlap (later @ db # earlier)"
  shows "request_run step start overlap (db # earlier)"
  using assms
proof (induction later)
  case (Cons x later)
  then show ?case
    by (cases later) auto
qed simp

text \<open>Before an opportunity is created nothing refers to its identifier.\<close>

lemma draft_before:
  assumes run: "market_run overlap (db # earlier)" and fresh: "\<forall>x \<in> set (mk_opportunities db). op_id x \<noteq> i"
    and old: "old \<in> set (db # earlier)"
  shows "draft_only i old"
proof -
  have "\<exists>new. grows opp_moves new (mk_opportunities old) (mk_opportunities db)"
  proof (cases "old = db")
    case False
    then obtain between rest where "earlier = between @ old # rest"
      using old by (auto dest: split_list)
    then show ?thesis
      using market.run_keeps [of overlap "[]" db between old rest] run by (auto simp: market_keeps_def)
  next
    case True
    then show ?thesis
      using grows_same [of opp_moves] by auto
  qed
  then obtain new where g: "grows opp_moves new (mk_opportunities old) (mk_opportunities db)" ..
  have absent: "\<forall>x \<in> set (mk_opportunities old). op_id x \<noteq> i"
    using grows_kept [OF g] fresh by (force simp: opp_moves_def)
  have "\<forall>rf \<in> set (mk_rfqs old). rfq_backed old rf"
    using market.run_inv [OF run old] by (simp add: market_ok_def)
  then show ?thesis
    using absent by (auto simp: draft_only_def rfq_backed_def)
qed

text \<open>C32. Nothing in the API moves an opportunity out of \<open>DRAFT\<close>: an opportunity created through the API,
  in whatever marketplace and whatever its users do afterwards, overlapping requests included, is still
  a draft in every later state, no RFQ and no deal room refers to it, and every request for an RFQ on
  it that reads such a state fails.\<close>

theorem drafts_never_tendered:
  assumes "market_run overlap (later @ created # db # earlier)"
    and "opportunities_create env actor inp ctx db = Inr (opp, created)"
    and "db' \<in> set (later @ [created])"
  shows "(\<exists>o'. opportunity_findById db' (op_id opp) = Some o' \<and> op_status o' = Opp_DRAFT) \<and>
    list_all (\<lambda>rf. rf_opportunityId rf \<noteq> op_id opp) (mk_rfqs db') \<and>
    list_all (\<lambda>d. dl_opportunityId d \<noteq> op_id opp) (mk_dealRooms db') \<and>
    (cr_opportunityId rq = op_id opp \<longrightarrow> isl (rfqs_create env' actor' rq ctx' db' db''))"
proof -
  let ?hist = "later @ created # db # earlier"
  note e = opportunities_create_effect [OF assms(2)]
  have "market_run overlap (db # earlier)"
    using run_suffix [of market_step market_start overlap "later @ [created]"] assms(1) by simp
  from draft_before [OF this, of "op_id opp" "last (db # earlier)"] e
  have "draft_only (op_id opp) (last ?hist)"
    by simp
  from run_from [OF assms(1), of "draft_only (op_id opp)", OF this] have draft: "draft_only (op_id opp) db'"
    using drafts.run_inv assms(3) by auto
  have ok: "market_ok db'"
    using market.run_inv [OF assms(1)] assms(3) by auto
  have keeps: "market_keeps created db'"
  proof (cases "db' = created")
    case False
    then obtain l between where "later = l @ db' # between"
      using assms(3) by (auto dest: split_list)
    then show ?thesis
      using market.run_keeps [of overlap l db' between created "db # earlier"] assms(1) by simp
  qed (simp add: market_keeps_refl)
  have "opp \<in> set (mk_opportunities created)"
    using e by simp
  moreover obtain new where g: "grows opp_moves new (mk_opportunities created) (mk_opportunities db')"
    using keeps by (auto simp: market_keeps_def)
  ultimately obtain o' where o': "o' \<in> set (mk_opportunities db')" "op_id o' = op_id opp"
    using grows_kept [OF g] by (auto simp: opp_moves_def)
  have "list_all (\<lambda>d. dl_opportunityId d \<noteq> op_id opp) (mk_dealRooms db')"
    using ok draft by (fastforce simp: market_ok_def room_backed_def draft_only_def list_all_iff)
  moreover have "isl (rfqs_create env' actor' rq ctx' db' db'')" if "cr_opportunityId rq = op_id opp"
  proof (cases "rfqs_create env' actor' rq ctx' db' db''")
    case (Inr r)
    obtain detail b where "r = (detail, b)"
      by (cases r)
    with Inr have "rfqs_create env' actor' rq ctx' db' db'' = Inr (detail, b)"
      by simp
    then show ?thesis
    proof (rule rfqs_create_effect)
      fix opp'
      assume o: "opportunity_findById db' (cr_opportunityId rq) = Some opp'" "op_status opp' \<in> {Opp_MATCH_READY, Opp_INVITED}"
      then show ?thesis
        using draft_other(2) [OF draft o(1)] found_ids(2) [OF o(1)] that by auto
    qed
  qed simp
  moreover have "opportunity_findById db' (op_id opp) = Some o'"
    using find_all(3) [OF ok o'(1)] o'(2) by simp
  ultimately show ?thesis
    using draft o' by (auto simp: draft_only_def list_all_iff)
qed

text \<open>In a marketplace with one opportunity ready for matching, the merchant creates a second one; an RFQ
  on the first succeeds and leaves the second a draft.\<close>

definition demo_creation :: CreateOpportunityRequest where
  "demo_creation = \<lparr>co_opportunityType = ''NEW'', co_requestedService = ''CARDS'', co_currency = ''EUR'',
     co_totalPaymentVolumeMinor = Some ''100'', co_totalCardGpvMinor = Some ''90'', co_eligibleCardGpvMinor = Some ''80'',
     co_offeredCardGpvMinor = Some ''70'', co_movableNowMinor = Some ''10'', co_movable30dMinor = Some ''20'',
     co_movable90dMinor = Some ''30'', co_jurisdictions = None, co_mccs = None\<rparr>"

lemma demo_creation_value:
  "case opportunities_create demo_env demo_merchant demo_creation demo_context (demo_store Opp_MATCH_READY) of
     Inr (opp, db1) \<Rightarrow> op_id opp = ''x'' \<and>
       (case rfqs_create demo_env demo_operator (demo_rfq [''acq'']) demo_context db1 db1 of
          Inr (detail, db2) \<Rightarrow> map rf_opportunityId (mk_rfqs db2) = [''opp''] | Inl e \<Rightarrow> False)
   | Inl e \<Rightarrow> False"
  by code_simp

theorem drafts_never_tendered_witness:
  "\<exists>db1 db2 opp x o'. opportunities_create demo_env demo_merchant demo_creation demo_context (demo_store Opp_MATCH_READY) = Inr (opp, db1) \<and>
     rfqs_create demo_env demo_operator (demo_rfq [''acq'']) demo_context db1 db1 = Inr (x, db2) \<and>
     length (mk_rfqs db2) = 1 \<and> opportunity_findById db2 ''x'' = Some o' \<and> op_status o' = Opp_DRAFT \<and>
     isl (rfqs_create demo_env demo_operator ((demo_rfq [''acq''])\<lparr>cr_opportunityId := ''x''\<rparr>) demo_context db2 db2)"
proof -
  let ?start = "demo_store Opp_MATCH_READY"
  obtain opp db1 where create: "opportunities_create demo_env demo_merchant demo_creation demo_context ?start = Inr (opp, db1)"
    using demo_creation_value by (auto split: sum.splits)
  moreover obtain x db2 where rfq: "rfqs_create demo_env demo_operator (demo_rfq [''acq'']) demo_context db1 db1 = Inr (x, db2)"
    using demo_creation_value create by (auto split: sum.splits)
  ultimately have vals: "op_id opp = ''x''" "map rf_opportunityId (mk_rfqs db2) = [''opp'']"
    using demo_creation_value by simp_all
  have run: "market_run True ([db2] @ db1 # ?start # [])"
    using demo_start market_step.create_opportunity [OF create, of ?start] market_step.create_rfq [OF rfq]
    by (auto intro!: request_run.intros)
  have "length (mk_rfqs db2) = 1"
    using arg_cong [OF vals(2), of length] by simp
  then show ?thesis
    using create rfq vals(1) drafts_never_tendered [OF run create, of db2 "(demo_rfq [''acq''])\<lparr>cr_opportunityId := ''x''\<rparr>"] by auto
qed

end
