(* ===== verification/Market_Jobs.thy ===== *)
theory Market_Jobs
  imports Market_Demo
begin

text \<open>
  What the expiry job and the volume breakdown achieve: the sweep ends with every RFQ it listed
  expired, and a breakdown reads back as it was stored.
\<close>

section \<open>The expiry sweep\<close>

text \<open>The keys the job has used for an RFQ: its identifier, a colon and the due date.\<close>

definition expiry_keyed :: "MarketStore \<Rightarrow> string \<Rightarrow> bool" where
  "expiry_keyed db i \<longleftrightarrow> (\<exists>r \<in> set (mk_jobKeys db). \<exists>d. ik_key r = i @ '':'' @ d)"

lemma before_colon:
  assumes "i @ '':'' @ d = j @ '':'' @ e" and "CHR '':'' \<notin> set i" and "CHR '':'' \<notin> set j"
  shows "i = j"
proof -
  have "takeWhile (\<lambda>c. c \<noteq> CHR '':'') (k @ '':'' @ f) = k" if "CHR '':'' \<notin> set k" for k f :: string
  proof -
    have "takeWhile (\<lambda>c. c \<noteq> CHR '':'') (k @ '':'' @ f) = k @ takeWhile (\<lambda>c. c \<noteq> CHR '':'') ('':'' @ f)"
      using that by (intro takeWhile_append2) auto
    then show ?thesis by simp
  qed
  then show ?thesis
    using assms by metis
qed

lemma expireOne_runs:
  assumes "rfq_findById db i = Some rf" and "rf_status rf \<in> set EXPIRABLE_STATUSES" and "\<not> expiry_keyed db i"
  obtains db' where "expireOne env h i due db = Inr (True, db')"
    "mk_rfqs db' = set_by rf_id i (rfq_to Rfq_EXPIRED None) (mk_rfqs db)"
    "ik_key ` set (mk_jobKeys db') = insert (i @ '':'' @ due) (ik_key ` set (mk_jobKeys db))"
proof -
  have none: "idempotency_find (mk_jobKeys db) ''worker.rfq-expiry'' (i @ '':'' @ due) = None"
    using assms(3) by (auto simp: idempotency_find_def find_None_iff expiry_keyed_def)
  have guard: "assertValidRfqTransition (rfqStatus_name (rf_status rf)) ''EXPIRED'' = Inr ()"
    using assms(2) by (simp add: to_EXPIRED)
  obtain db1 where h: "expire_handler env i (rf_status rf) due db = Inr ((), db1)"
    and db1: "mk_rfqs db1 = set_by rf_id i (rfq_to Rfq_EXPIRED None) (mk_rfqs db)"
    using assms(1) by (auto simp: expire_handler_def guard rfq_updateStatus_def update_by_def rfq_findById_def Let_def)
  define row :: "unit IdempotencyKey" where "row = \<lparr>ik_id = uuid env (bs_ids db + 2), ik_key = i @ '':'' @ due, ik_scope = ''worker.rfq-expiry'',
    ik_requestHash = h [i, due, rfqStatus_name (rf_status rf)], ik_response = None, ik_organizationId = None,
    ik_userId = None, ik_expiresAt = clock env + IDEMPOTENCY_KEY_TTL_MS\<rparr>"
  define keys where "keys = idempotency_complete ''worker.rfq-expiry'' (i @ '':'' @ due) () (mk_jobKeys db @ [row])"
  have "withJobIdempotency (uuid env (bs_ids db + 2)) (clock env) ''worker.rfq-expiry'' (i @ '':'' @ due)
      (h [i, due, rfqStatus_name (rf_status rf)]) (expire_handler env i (rf_status rf) due) (mk_jobKeys db) db = Inr (keys, db1, ())"
    by (simp add: withJobIdempotency_def none [simplified] h idempotency_reserve_def Let_def keys_def row_def)
  then have run: "expireOne env h i due db = Inr (True, db1\<lparr>mk_jobKeys := keys,
      bs_ids := (if length keys = length (mk_jobKeys db) then bs_ids db1 else Suc (bs_ids db1))\<rparr>)"
    using assms(1,2) by (simp add: expireOne_def)
  have "ik_key ` set keys = ik_key ` set (mk_jobKeys db @ [row])"
    unfolding keys_def idempotency_complete_def set_map image_image by (rule image_cong) auto
  then show thesis
    by (intro that [OF run]) (simp_all add: db1 row_def)
qed

lemma sweep_runs:
  assumes "distinct (map rf_id rfqs)"
    and "\<forall>rf \<in> set rfqs. CHR '':'' \<notin> set (rf_id rf) \<and> \<not> expiry_keyed db (rf_id rf) \<and>
      (\<exists>x. rfq_findById db (rf_id rf) = Some x \<and> rf_status x \<in> set EXPIRABLE_STATUSES)"
  shows "\<exists>db'. sweep env h (\<lambda>_ db. db) n rfqs db = Inr (n + length rfqs, db') \<and>
    mk_rfqs db' = map (\<lambda>x. if rf_id x \<in> rf_id ` set rfqs then rfq_to Rfq_EXPIRED None x else x) (mk_rfqs db)"
  using assms
proof (induction rfqs arbitrary: n db)
  case Nil
  then show ?case by simp
next
  case (Cons rf rfqs)
  define due where "due = toISOString env (rf_dueAt rf)"
  obtain x where x: "rfq_findById db (rf_id rf) = Some x" "rf_status x \<in> set EXPIRABLE_STATUSES" "\<not> expiry_keyed db (rf_id rf)"
    using Cons.prems(2) by auto
  obtain db1 where run: "expireOne env h (rf_id rf) due db = Inr (True, db1)"
    and rows: "mk_rfqs db1 = set_by rf_id (rf_id rf) (rfq_to Rfq_EXPIRED None) (mk_rfqs db)"
    and keys: "ik_key ` set (mk_jobKeys db1) = insert (rf_id rf @ '':'' @ due) (ik_key ` set (mk_jobKeys db))"
    by (rule expireOne_runs [OF x])
  have "CHR '':'' \<notin> set (rf_id y) \<and> \<not> expiry_keyed db1 (rf_id y) \<and>
      (\<exists>x. rfq_findById db1 (rf_id y) = Some x \<and> rf_status x \<in> set EXPIRABLE_STATUSES)" if y: "y \<in> set rfqs" for y
  proof -
    have other: "rf_id y \<noteq> rf_id rf"
      using Cons.prems(1) y by (metis distinct.simps(2) image_eqI list.simps(9) set_map)
    have "\<not> expiry_keyed db1 (rf_id y)"
    proof
      assume "expiry_keyed db1 (rf_id y)"
      then obtain d where "rf_id y @ '':'' @ d \<in> insert (rf_id rf @ '':'' @ due) (ik_key ` set (mk_jobKeys db))"
        unfolding expiry_keyed_def keys [symmetric] by force
      moreover have "\<not> expiry_keyed db (rf_id y)" "CHR '':'' \<notin> set (rf_id y)" "CHR '':'' \<notin> set (rf_id rf)"
        using Cons.prems(2) y by auto
      ultimately show False
        using before_colon [of "rf_id y" d "rf_id rf" due] other unfolding expiry_keyed_def by (metis imageE insertE)
    qed
    moreover have "\<exists>x. rfq_findById db1 (rf_id y) = Some x \<and> rf_status x \<in> set EXPIRABLE_STATUSES"
      using Cons.prems(2) y other by (auto simp: rfq_findById_def rows find_by_set_by)
    ultimately show ?thesis
      using Cons.prems(2) y by simp
  qed
  then obtain db' where rest: "sweep env h (\<lambda>_ db. db) (n + 1) rfqs db1 = Inr (n + 1 + length rfqs, db')"
    "mk_rfqs db' = map (\<lambda>x. if rf_id x \<in> rf_id ` set rfqs then rfq_to Rfq_EXPIRED None x else x) (mk_rfqs db1)"
    using Cons.IH [of db1 "n + 1"] Cons.prems(1) by auto
  have "mk_rfqs db' = map (\<lambda>x. if rf_id x \<in> rf_id ` set (rf # rfqs) then rfq_to Rfq_EXPIRED None x else x) (mk_rfqs db)"
    using Cons.prems(1) by (auto simp: rest(2) rows set_by_def)
  then show ?case
    using rest(1) run by (auto simp: due_def)
qed

text \<open>C33. When nothing else runs, one sweep of the expiry job ends without an error, expires every RFQ it
  listed as overdue and counts them, and if it listed fewer than its limit of 500, no overdue RFQ is
  left. The hypotheses are that identifiers contain no colon and that the job has not used a key for
  these RFQs before.\<close>

theorem overdue_rfqs_expire:
  assumes "distinct (map rf_id (mk_rfqs db))"
    and "\<forall>rf \<in> set (rfq_listOverdue db (clock env) 500). CHR '':'' \<notin> set (rf_id rf) \<and> \<not> expiry_keyed db (rf_id rf)"
  shows "\<exists>db'. rfqExpirySweep env h (\<lambda>_ db. db) db =
      Inr (\<lparr>ex_scanned = length (rfq_listOverdue db (clock env) 500), ex_expired = length (rfq_listOverdue db (clock env) 500)\<rparr>, db') \<and>
    (\<forall>rf \<in> set (rfq_listOverdue db (clock env) 500).
       map_option rf_status (rfq_findById db' (rf_id rf)) = Some Rfq_EXPIRED) \<and>
    (length (rfq_listOverdue db (clock env) 500) < 500 \<longrightarrow> rfq_listOverdue db' (clock env) 500 = [])"
proof -
  define all where "all = filter (\<lambda>r. rf_dueAt r < clock env \<and> rf_status r \<in> set EXPIRABLE_STATUSES) (mk_rfqs db)"
  define overdue where "overdue = rfq_listOverdue db (clock env) 500"
  have listed: "overdue = take 500 (sort_key rf_dueAt all)"
    by (simp add: overdue_def all_def rfq_listOverdue_def)
  have sub: "set overdue \<subseteq> set all"
    unfolding listed using set_take_subset [of 500 "sort_key rf_dueAt all"] by simp
  have "distinct (map rf_id all)"
    using assms(1) unfolding all_def by (rule distinct_map_filter)
  then have "distinct (map rf_id (sort_key rf_dueAt all))"
    by (simp add: distinct_map)
  then have dist: "distinct (map rf_id overdue)"
    unfolding listed by (simp add: take_map [symmetric])
  have found: "rfq_findById db (rf_id rf) = Some rf" if "rf \<in> set (mk_rfqs db)" for rf
    using assms(1) that by (simp add: rfq_findById_def find_by_unique)
  have "\<forall>rf \<in> set overdue. CHR '':'' \<notin> set (rf_id rf) \<and> \<not> expiry_keyed db (rf_id rf) \<and>
      (\<exists>x. rfq_findById db (rf_id rf) = Some x \<and> rf_status x \<in> set EXPIRABLE_STATUSES)"
    using assms(2) sub found unfolding overdue_def [symmetric] by (auto simp: all_def)
  from sweep_runs [OF dist this, of env h 0] obtain db' where run: "sweep env h (\<lambda>_ db. db) 0 overdue db = Inr (length overdue, db')"
    and rows: "mk_rfqs db' = map (\<lambda>x. if rf_id x \<in> rf_id ` set overdue then rfq_to Rfq_EXPIRED None x else x) (mk_rfqs db)"
    by auto
  have ids: "map rf_id (mk_rfqs db') = map rf_id (mk_rfqs db)"
    by (auto simp: rows)
  have expired: "map_option rf_status (rfq_findById db' (rf_id rf)) = Some Rfq_EXPIRED" if "rf \<in> set overdue" for rf
  proof -
    have "rfq_to Rfq_EXPIRED None rf \<in> set (mk_rfqs db')"
      using that sub by (force simp: rows all_def)
    then have "rfq_findById db' (rf_id (rfq_to Rfq_EXPIRED None rf)) = Some (rfq_to Rfq_EXPIRED None rf)"
      unfolding rfq_findById_def using assms(1) ids by (intro find_by_unique) simp_all
    then show ?thesis by simp
  qed
  have "rfq_listOverdue db' (clock env) 500 = []" if "length overdue < 500"
  proof -
    have "set overdue = set all"
      using that unfolding listed by simp
    then have "\<not> (rf_dueAt y < clock env \<and> rf_status y \<in> set EXPIRABLE_STATUSES)" if "y \<in> set (mk_rfqs db')" for y
      using that by (auto simp: rows all_def EXPIRABLE_STATUSES_def split: if_splits)
    then show ?thesis
      by (simp add: rfq_listOverdue_def filter_empty_conv)
  qed
  then show ?thesis
    using run expired unfolding overdue_def [symmetric] by (simp add: rfqExpirySweep_def overdue_def Let_def)
qed

theorem overdue_rfqs_expire_witness:
  "\<exists>db db'. map (\<lambda>rf. (rf_id rf, rf_status rf)) (mk_rfqs db) = [(''x'', Rfq_SENT)] \<and>
     rfqExpirySweep (demo_env\<lparr>clock := 6000\<rparr>) concat (\<lambda>_ db. db) db = Inr (\<lparr>ex_scanned = 1, ex_expired = 1\<rparr>, db') \<and>
     rfq_listOverdue db' 6000 500 = []"
proof -
  define rf where "rf = new_rfq demo_env demo_operator ''x'' (demo_rfq [''acq'']) ''opp''"
  define db where "db = (demo_store Opp_INVITED)\<lparr>mk_rfqs := [rf]\<rparr>"
  have rf: "rf_id rf = ''x''" "rf_dueAt rf = 5000" "rf_status rf = Rfq_SENT"
    by (simp_all add: rf_def new_rfq_def demo_rfq_def)
  have rows: "mk_rfqs db = [rf]" "mk_jobKeys db = []"
    by (simp_all add: db_def demo_store_def)
  have listed: "rfq_listOverdue db 6000 500 = [rf]"
    by (simp add: rfq_listOverdue_def rows rf EXPIRABLE_STATUSES_def)
  obtain db' where "rfqExpirySweep (demo_env\<lparr>clock := 6000\<rparr>) concat (\<lambda>_ db. db) db = Inr (\<lparr>ex_scanned = 1, ex_expired = 1\<rparr>, db')"
     "rfq_listOverdue db' 6000 500 = []"
    using overdue_rfqs_expire [of db "demo_env\<lparr>clock := 6000\<rparr>" concat]
    by (auto simp: rows rf listed expiry_keyed_def)
  then show ?thesis
    using rf rows by (intro exI [of _ db] exI [of _ db']) simp
qed

section \<open>The volume breakdown\<close>

lemma first_of_cell_subset: "length (first_of_cell seen ss) \<le> length ss"
  by (induction seen ss rule: first_of_cell.induct) auto

lemma first_of_cell_all:
  "length (first_of_cell seen ss) = length ss \<Longrightarrow> first_of_cell seen ss = ss"
proof (induction seen ss rule: first_of_cell.induct)
  case (2 seen s ss)
  then show ?case
    using first_of_cell_subset [of seen ss] by (auto split: if_splits)
qed simp

lemma first_of_cell_distinct:
  "distinct (map cellKey ss) \<Longrightarrow> set (map cellKey ss) \<inter> set seen = {} \<Longrightarrow> first_of_cell seen ss = ss"
  by (induction seen ss rule: first_of_cell.induct) auto

lemma volume_invariant_mset:
  assumes "mset ss = mset ts"
  shows "volume_invariant ss summary = volume_invariant ts summary"
proof -
  have "mset (map cellKey ss) = mset (map cellKey ts)" "mset (map slice_amountMinor ss) = mset (map slice_amountMinor ts)"
    using assms by simp_all
  then have "distinct (map cellKey ss) = distinct (map cellKey ts)" "set ss = set ts"
    "sum_list (map slice_amountMinor ss) = sum_list (map slice_amountMinor ts)"
    using assms mset_eq_setD mset_eq_imp_distinct_iff sum_mset_sum_list by metis+
  then show ?thesis
    by (simp add: volume_invariant_def)
qed

lemma emap_length: "emap f xs = Inr ys \<Longrightarrow> length ys = length xs"
  by (induction xs arbitrary: ys) (auto simp: ebind_eq_Inr)

text \<open>The volume breakdown reads back as it was stored: after a replacement the next reader of the
  opportunity gets exactly the stored slices and no others. A breakdown reported as reconciled reads
  back reconciled, and the verdicts agree whenever no slice was dropped as a repetition of a cell.\<close>

theorem volume_breakdown_reads_back:
  assumes "replaceVolumeSlices env actor i inp ctx snap db = Inr ((rows, rec), db')"
    and "getVolumeSlices reader i db' = Inr (shown, rec')" and "opportunity_findById db i = opportunity_findById snap i"
  shows "mset shown = mset rows \<and> (vol_reconciled rec \<longrightarrow> vol_reconciled rec') \<and>
    (length rows = length inp \<longrightarrow> vol_reconciled rec' = vol_reconciled rec)"
  using assms(1)
proof (rule replaceVolumeSlices_effect)
  fix opp slices
  assume opp: "opportunity_findById snap i = Some opp" and slices: "emap (requested_slice opp) inp = Inr slices"
    and rec: "reconcileOpportunityVolume slices (volume_summary opp) = Inr rec"
    and rows: "map slice_input rows = first_of_cell [] slices" "\<forall>s \<in> set rows. vs_opportunityId s = i"
    and stored: "mk_volumeSlices db' = filter (\<lambda>s. vs_opportunityId s \<noteq> i) (mk_volumeSlices db) @ rows"
    and same: "mk_opportunities db' = mk_opportunities db"
  have opp': "opportunity_findById db' i = Some opp"
    using opp assms(3) same by (simp add: opportunity_findById_def)
  have shown: "shown = volumeSlice_listByOpportunity db' i"
    and rec': "reconcileOpportunityVolume (map slice_input shown) (volume_summary opp) = Inr rec'"
    using assms(2) by (auto simp: getVolumeSlices_def opp' ebind_eq_Inr reconcileVolume_def Let_def)
  have m: "mset shown = mset rows"
    using rows(2) by (simp add: shown volumeSlice_listByOpportunity_def stored filter_empty_conv)
  then have "mset (map slice_input shown) = mset (first_of_cell [] slices)"
    unfolding rows(1) [symmetric] mset_map by simp
  then have verdict': "vol_reconciled rec' = volume_invariant (first_of_cell [] slices) (volume_summary opp)"
    using reconcile_volume_result [OF rec'] volume_invariant_mset by metis
  have verdict: "vol_reconciled rec = volume_invariant slices (volume_summary opp)"
    using reconcile_volume_result [OF rec] by simp
  have "first_of_cell [] slices = slices" if "vol_reconciled rec"
    using that unfolding verdict volume_invariant_def by (intro first_of_cell_distinct) auto
  moreover have "first_of_cell [] slices = slices" if "length rows = length inp"
    using that rows(1) emap_length [OF slices] by (intro first_of_cell_all) (metis length_map)
  ultimately show ?thesis
    using m verdict verdict' by metis
qed

definition demo_slice :: SliceRequest where
  "demo_slice = \<lparr>sr_jurisdiction = ''DE'', sr_mcc = ''5411'', sr_cardOrigin = ''EEA'', sr_channel = ''ECOM'',
     sr_amountMinor = ''70'', sr_period = ''2026-01''\<rparr>"

lemma demo_slices_value:
  "case replaceVolumeSlices demo_env demo_merchant ''opp'' [demo_slice] demo_context (demo_store Opp_DRAFT) (demo_store Opp_DRAFT) of
     Inr ((rows, rec), db') \<Rightarrow> vol_reconciled rec \<and> length rows = 1 \<and> \<not> isl (getVolumeSlices demo_merchant ''opp'' db')
   | Inl e \<Rightarrow> False"
  by code_simp

theorem volume_breakdown_reads_back_witness:
  "\<exists>db' shown rec'. getVolumeSlices demo_merchant ''opp'' db' = Inr (shown, rec') \<and> length shown = 1 \<and> vol_reconciled rec'"
proof -
  obtain rows rec db' where
    r: "replaceVolumeSlices demo_env demo_merchant ''opp'' [demo_slice] demo_context (demo_store Opp_DRAFT) (demo_store Opp_DRAFT) = Inr ((rows, rec), db')"
    and ok: "vol_reconciled rec" "length rows = 1" and g: "\<not> isl (getVolumeSlices demo_merchant ''opp'' db')"
    using demo_slices_value by (auto split: sum.splits)
  from g obtain shown rec' where g: "getVolumeSlices demo_merchant ''opp'' db' = Inr (shown, rec')"
    by (cases "getVolumeSlices demo_merchant ''opp'' db'") auto
  have "mset shown = mset rows" "vol_reconciled rec'"
    using volume_breakdown_reads_back [OF r g refl] ok by auto
  then show ?thesis
    using g ok(2) mset_eq_length by metis
qed

end
