(* ===== verification/Json_Text.thy ===== *)
theory Json_Text
  imports TOL_Prelude
begin

text \<open>
  What the lockbox module uses of the language: \<open>JSON.stringify\<close> of strings, \<open>JSON.parse\<close>, and the
  UTF-8 coding of \<open>Buffer.from(s, "utf8")\<close> and \<open>buffer.toString("utf8")\<close>. A string is the list of
  its UTF-16 code units, a buffer the list of its bytes, both as natural numbers. Numbers in a text
  are recognized but their value is not kept, because nothing reads it.
\<close>

type_synonym units = "nat list"

definition ascii :: "string \<Rightarrow> units" where
  "ascii s = map of_char s"

definition is_high :: "nat \<Rightarrow> bool" where
  "is_high c \<longleftrightarrow> 0xD800 \<le> c \<and> c \<le> 0xDBFF"

definition is_low :: "nat \<Rightarrow> bool" where
  "is_low c \<longleftrightarrow> 0xDC00 \<le> c \<and> c \<le> 0xDFFF"

section \<open>Writing strings\<close>

definition hex_unit :: "nat \<Rightarrow> nat" where
  "hex_unit d = (if d < 10 then 48 + d else 87 + d)"

definition unicode_escape :: "nat \<Rightarrow> units" where
  "unicode_escape c = [0x5C, 0x75, hex_unit (c div 4096), hex_unit (c div 256 mod 16), hex_unit (c div 16 mod 16),
     hex_unit (c mod 16)]"

definition short_escape :: "nat \<Rightarrow> nat option" where
  "short_escape c =
     (if c = 0x22 \<or> c = 0x5C then Some c else if c = 8 then Some 0x62 else if c = 9 then Some 0x74
      else if c = 10 then Some 0x6E else if c = 12 then Some 0x66 else if c = 13 then Some 0x72 else None)"

text \<open>The content of a string literal: control characters and lone surrogates are escaped.\<close>

fun quote_units :: "units \<Rightarrow> units" where
  "quote_units [] = []"
| "quote_units (c # cs) =
     (case short_escape c of
        Some e \<Rightarrow> 0x5C # e # quote_units cs
      | None \<Rightarrow>
          if c < 0x20 then unicode_escape c @ quote_units cs
          else if is_high c then
            (case cs of
               d # ds \<Rightarrow> if is_low d then c # d # quote_units ds else unicode_escape c @ quote_units cs
             | [] \<Rightarrow> unicode_escape c)
          else if is_low c then unicode_escape c @ quote_units cs
          else c # quote_units cs)"

definition string_literal :: "units \<Rightarrow> units" where
  "string_literal s = 0x22 # quote_units s @ [0x22]"

section \<open>UTF-8\<close>

definition code_point :: "nat \<Rightarrow> nat \<Rightarrow> nat" where
  "code_point hi lo = 0x10000 + (hi - 0xD800) * 0x400 + (lo - 0xDC00)"

text \<open>A lone surrogate is written as the replacement character.\<close>

fun utf8_encode :: "units \<Rightarrow> nat list" where
  "utf8_encode [] = []"
| "utf8_encode (c # cs) =
     (if c < 0x80 then c # utf8_encode cs
      else if c < 0x800 then (0xC0 + c div 64) # (0x80 + c mod 64) # utf8_encode cs
      else if is_high c then
        (case cs of
           d # ds \<Rightarrow>
             if is_low d then
               let p = code_point c d in
               (0xF0 + p div 262144) # (0x80 + p div 4096 mod 64) # (0x80 + p div 64 mod 64) # (0x80 + p mod 64) #
               utf8_encode ds
             else [0xEF, 0xBF, 0xBD] @ utf8_encode cs
         | [] \<Rightarrow> [0xEF, 0xBF, 0xBD])
      else if is_low c then [0xEF, 0xBF, 0xBD] @ utf8_encode cs
      else (0xE0 + c div 4096) # (0x80 + c div 64 mod 64) # (0x80 + c mod 64) # utf8_encode cs)"

text \<open>The continuation bytes of a sequence: how many are due, the range of the next one, and the
  code point so far. An unexpected byte ends the sequence and is looked at again.\<close>

fun continuation :: "nat \<Rightarrow> nat \<Rightarrow> nat \<Rightarrow> nat \<Rightarrow> nat list \<Rightarrow> nat option \<times> nat list" where
  "continuation 0 lo hi p bs = (Some p, bs)"
| "continuation (Suc n) lo hi p [] = (None, [])"
| "continuation (Suc n) lo hi p (b # bs) =
     (if lo \<le> b \<and> b \<le> hi then continuation n 0x80 0xBF (p * 64 + b mod 64) bs else (None, b # bs))"

lemma continuation_shorter: "length (snd (continuation n lo hi p bs)) \<le> length bs"
  by (induction n lo hi p bs rule: continuation.induct) (auto intro: le_SucI)

definition sequence :: "nat \<Rightarrow> nat list \<Rightarrow> nat option \<times> nat list" where
  "sequence b bs =
     (if b < 0x80 then (Some b, bs)
      else if 0xC2 \<le> b \<and> b \<le> 0xDF then continuation 1 0x80 0xBF (b - 0xC0) bs
      else if 0xE0 \<le> b \<and> b \<le> 0xEF
      then continuation 2 (if b = 0xE0 then 0xA0 else 0x80) (if b = 0xED then 0x9F else 0xBF) (b - 0xE0) bs
      else if 0xF0 \<le> b \<and> b \<le> 0xF4
      then continuation 3 (if b = 0xF0 then 0x90 else 0x80) (if b = 0xF4 then 0x8F else 0xBF) (b - 0xF0) bs
      else (None, bs))"

definition units_of :: "nat option \<Rightarrow> units" where
  "units_of p =
     (case p of
        None \<Rightarrow> [0xFFFD]
      | Some p \<Rightarrow> if p < 0x10000 then [p] else [0xD800 + (p - 0x10000) div 0x400, 0xDC00 + (p - 0x10000) mod 0x400])"

function utf8_decode :: "nat list \<Rightarrow> units" where
  "utf8_decode [] = []"
| "utf8_decode (b # bs) = (let (p, rest) = sequence b bs in units_of p @ utf8_decode rest)"
  by pat_completeness auto
termination
proof (relation "measure length")
  fix b bs x p rest
  assume "x = sequence b bs" and "(p, rest) = x"
  then have "rest = snd (sequence b bs)"
    by (metis snd_conv)
  then have "length rest \<le> length bs"
    using continuation_shorter by (auto simp: sequence_def)
  then show "(rest, b # bs) \<in> measure length"
    by simp
qed simp

section \<open>Reading\<close>

datatype jtext = Jnull | Jtrue | Jfalse | Jnum | Jtxt units | Jarr "jtext list" | Jobj "(units \<times> jtext) list"

definition is_space :: "nat \<Rightarrow> bool" where
  "is_space c \<longleftrightarrow> c = 0x20 \<or> c = 9 \<or> c = 10 \<or> c = 13"

definition skip :: "units \<Rightarrow> units" where
  "skip s = dropWhile is_space s"

definition is_digit :: "nat \<Rightarrow> bool" where
  "is_digit c \<longleftrightarrow> 48 \<le> c \<and> c \<le> 57"

definition hex_of :: "nat \<Rightarrow> nat option" where
  "hex_of c = (if is_digit c then Some (c - 48) else if 97 \<le> c \<and> c \<le> 102 then Some (c - 87)
     else if 65 \<le> c \<and> c \<le> 70 then Some (c - 55) else None)"

definition hex4 :: "nat \<Rightarrow> nat \<Rightarrow> nat \<Rightarrow> nat \<Rightarrow> nat option" where
  "hex4 a b c d =
     (case (hex_of a, hex_of b, hex_of c, hex_of d) of
        (Some a, Some b, Some c, Some d) \<Rightarrow> Some (((a * 16 + b) * 16 + c) * 16 + d)
      | _ \<Rightarrow> None)"

definition simple_escape :: "nat \<Rightarrow> nat option" where
  "simple_escape e =
     (if e = 0x22 \<or> e = 0x5C \<or> e = 0x2F then Some e else if e = 0x62 then Some 8 else if e = 0x66 then Some 12
      else if e = 0x6E then Some 10 else if e = 0x72 then Some 13 else if e = 0x74 then Some 9 else None)"

text \<open>The rest of a string literal after its opening quote.\<close>

fun parse_str :: "units \<Rightarrow> (units \<times> units) option" where
  "parse_str [] = None"
| "parse_str (c # cs) =
     (if c = 0x22 then Some ([], cs)
      else if c < 0x20 then None
      else if c = 0x5C then
        (case cs of
           [] \<Rightarrow> None
         | e # es \<Rightarrow>
             (case simple_escape e of
                Some u \<Rightarrow> map_option (\<lambda>(s, r). (u # s, r)) (parse_str es)
              | None \<Rightarrow>
                  (case es of
                     a # b # c' # d # ds \<Rightarrow>
                       if e = 0x75 then
                         (case hex4 a b c' d of
                            Some u \<Rightarrow> map_option (\<lambda>(s, r). (u # s, r)) (parse_str ds)
                          | None \<Rightarrow> None)
                       else None
                   | _ \<Rightarrow> None)))
      else map_option (\<lambda>(s, r). (c # s, r)) (parse_str cs))"

definition digits :: "units \<Rightarrow> units option" where
  "digits s = (case s of c # cs \<Rightarrow> if is_digit c then Some (dropWhile is_digit cs) else None | [] \<Rightarrow> None)"

definition integer_part :: "units \<Rightarrow> units option" where
  "integer_part s = (case s of c # cs \<Rightarrow> if c = 48 then Some cs else digits s | [] \<Rightarrow> None)"

definition fraction_part :: "units \<Rightarrow> units option" where
  "fraction_part s = (case s of c # cs \<Rightarrow> if c = 0x2E then digits cs else Some s | [] \<Rightarrow> Some s)"

definition exponent_part :: "units \<Rightarrow> units option" where
  "exponent_part s =
     (case s of
        c # cs \<Rightarrow>
          if c = 0x65 \<or> c = 0x45
          then digits (case cs of d # ds \<Rightarrow> if d = 0x2B \<or> d = 0x2D then ds else cs | [] \<Rightarrow> cs)
          else Some s
      | [] \<Rightarrow> Some s)"

definition parse_number :: "units \<Rightarrow> units option" where
  "parse_number s =
     Option.bind (integer_part (case s of c # cs \<Rightarrow> if c = 0x2D then cs else s | [] \<Rightarrow> s)) (\<lambda>s.
     Option.bind (fraction_part s) exponent_part)"

definition keyword :: "string \<Rightarrow> jtext \<Rightarrow> units \<Rightarrow> (jtext \<times> units) option" where
  "keyword w v s = (if take (length w) s = ascii w then Some (v, drop (length w) s) else None)"

text \<open>A call consumes a character at least every second time the fuel is spent, so twice the length
  of the text is enough.\<close>

fun parse_value :: "nat \<Rightarrow> units \<Rightarrow> (jtext \<times> units) option"
  and parse_elements :: "nat \<Rightarrow> units \<Rightarrow> (jtext list \<times> units) option"
  and parse_members :: "nat \<Rightarrow> units \<Rightarrow> ((units \<times> jtext) list \<times> units) option" where
  "parse_value 0 s = None"
| "parse_value (Suc n) s =
     (case skip s of
        [] \<Rightarrow> None
      | c # cs \<Rightarrow>
          if c = 0x22 then map_option (\<lambda>(t, r). (Jtxt t, r)) (parse_str cs)
          else if c = 0x7B then
            (case skip cs of
               d # ds \<Rightarrow> if d = 0x7D then Some (Jobj [], ds)
                         else map_option (\<lambda>(ms, r). (Jobj ms, r)) (parse_members n cs)
             | [] \<Rightarrow> None)
          else if c = 0x5B then
            (case skip cs of
               d # ds \<Rightarrow> if d = 0x5D then Some (Jarr [], ds)
                         else map_option (\<lambda>(es, r). (Jarr es, r)) (parse_elements n cs)
             | [] \<Rightarrow> None)
          else if c = 0x6E then keyword ''null'' Jnull (c # cs)
          else if c = 0x74 then keyword ''true'' Jtrue (c # cs)
          else if c = 0x66 then keyword ''false'' Jfalse (c # cs)
          else map_option (\<lambda>r. (Jnum, r)) (parse_number (c # cs)))"
| "parse_elements 0 s = None"
| "parse_elements (Suc n) s =
     (case parse_value n s of
        None \<Rightarrow> None
      | Some (v, r) \<Rightarrow>
          (case skip r of
             d # ds \<Rightarrow>
               if d = 0x5D then Some ([v], ds)
               else if d = 0x2C then map_option (\<lambda>(vs, r). (v # vs, r)) (parse_elements n ds)
               else None
           | [] \<Rightarrow> None))"
| "parse_members 0 s = None"
| "parse_members (Suc n) s =
     (case skip s of
        q # cs \<Rightarrow>
          if q \<noteq> 0x22 then None
          else (case parse_str cs of
             None \<Rightarrow> None
           | Some (k, r) \<Rightarrow>
               (case skip r of
                  e # es \<Rightarrow>
                    if e \<noteq> 0x3A then None
                    else (case parse_value n es of
                       None \<Rightarrow> None
                     | Some (v, r) \<Rightarrow>
                         (case skip r of
                            d # ds \<Rightarrow>
                              if d = 0x7D then Some ([(k, v)], ds)
                              else if d = 0x2C then map_option (\<lambda>(ms, r). ((k, v) # ms, r)) (parse_members n ds)
                              else None
                          | [] \<Rightarrow> None))
                | [] \<Rightarrow> None))
      | [] \<Rightarrow> None)"

definition JSON_parse :: "units \<Rightarrow> jtext option" where
  "JSON_parse s =
     (case parse_value (2 * length s + 2) s of
        Some (v, r) \<Rightarrow> if skip r = [] then Some v else None
      | None \<Rightarrow> None)"

text \<open>A repeated member replaces the earlier one.\<close>

definition member :: "(units \<times> jtext) list \<Rightarrow> string \<Rightarrow> jtext option" where
  "member ms k = map_of (rev ms) (ascii k)"

section \<open>Coding round trip\<close>

text \<open>Texts in which every surrogate is part of a pair.\<close>

fun paired :: "units \<Rightarrow> bool" where
  "paired [] \<longleftrightarrow> True"
| "paired (c # cs) \<longleftrightarrow>
     (if is_high c then (case cs of d # ds \<Rightarrow> is_low d \<and> paired ds | [] \<Rightarrow> False)
      else \<not> is_low c \<and> c < 0x10000 \<and> paired cs)"

lemma paired_append: "paired xs \<Longrightarrow> paired ys \<Longrightarrow> paired (xs @ ys)"
  by (induction xs rule: paired.induct) (auto split: list.splits if_splits)

lemma paired_low: "\<forall>c \<in> set xs. c < 0xD800 \<Longrightarrow> paired xs"
  by (induction xs) (auto simp: is_high_def is_low_def)

lemma paired_quote: "\<forall>c \<in> set s. c < 0x10000 \<Longrightarrow> paired (quote_units s)"
proof (induction s rule: quote_units.induct)
  case (2 c cs)
  have esc: "paired (unicode_escape x @ ys)" if "x < 0x10000" "paired ys" for x ys
  proof (rule paired_append [OF paired_low])
    show "\<forall>c \<in> set (unicode_escape x). c < 0xD800"
      using that(1) by (auto simp: unicode_escape_def hex_unit_def)
  qed (rule that(2))
  have low: "e < 128" if "short_escape c = Some e" for e
    using that by (auto simp: short_escape_def split: if_splits)
  show ?case
  proof (cases "short_escape c")
    case (Some e)
    then show ?thesis
      using 2 low by (auto simp: is_high_def is_low_def)
  next
    case None
    then show ?thesis
      using 2 esc [of c "[]"] esc by (auto simp: is_high_def split: list.split)
  qed
qed simp

lemma continuation_step:
  "b < 64 \<Longrightarrow> lo \<le> 0x80 + b \<Longrightarrow> 0x80 + b \<le> hi \<Longrightarrow>
     continuation (Suc n) lo hi p ((0x80 + b) # bs) = continuation n 0x80 0xBF (p * 64 + b) bs"
proof -
  assume "b < 64" and range: "lo \<le> 0x80 + b" "0x80 + b \<le> hi"
  then have "(0x80 + b) mod 64 = b"
    using mod_mult_self2 [of b 64 2] by (simp add: add.commute)
  then show ?thesis
    using range by simp
qed

lemma sequence_two:
  assumes "2 \<le> a" "a < 32" "b < 64"
  shows "sequence (0xC0 + a) ((0x80 + b) # bs) = (Some (a * 64 + b), bs)"
  using assms by (simp add: sequence_def continuation_step del: continuation.simps(3))

lemma sequence_three:
  assumes "a < 16" "b < 64" "c < 64" "a = 0 \<Longrightarrow> 32 \<le> b" "a = 13 \<Longrightarrow> b < 32"
  shows "sequence (0xE0 + a) ((0x80 + b) # (0x80 + c) # bs) = (Some ((a * 64 + b) * 64 + c), bs)"
  using assms by (cases "a = 13") (auto simp: sequence_def numeral_2_eq_2 continuation_step simp del: continuation.simps(3))

lemma sequence_four:
  assumes "a < 5" "b < 64" "c < 64" "d < 64" "a = 0 \<Longrightarrow> 16 \<le> b" "a = 4 \<Longrightarrow> b < 16"
  shows "sequence (0xF0 + a) ((0x80 + b) # (0x80 + c) # (0x80 + d) # bs) =
    (Some (((a * 64 + b) * 64 + c) * 64 + d), bs)"
  using assms by (cases "a = 4") (auto simp: sequence_def numeral_3_eq_3 continuation_step simp del: continuation.simps(3))

lemma utf8_decode_sequence:
  "sequence b (xs @ bs) = (Some p, bs) \<Longrightarrow> utf8_decode (b # xs @ bs) = units_of (Some p) @ utf8_decode bs"
  by simp

lemma decode_one: "c < 0x80 \<Longrightarrow> utf8_decode (c # bs) = c # utf8_decode bs"
  by (simp add: sequence_def units_of_def)

lemma decode_two:
  assumes "0x80 \<le> c" "c < 0x800"
  shows "utf8_decode ((0xC0 + c div 64) # (0x80 + c mod 64) # bs) = c # utf8_decode bs"
proof -
  have "2 \<le> c div 64" "c div 64 < 32" "c mod 64 < 64"
    using assms by auto
  from sequence_two [OF this] show ?thesis
    using assms by (simp add: units_of_def)
qed

lemma decode_three:
  assumes "0x800 \<le> c" "c < 0x10000" "\<not> is_high c" "\<not> is_low c"
  shows "utf8_decode ((0xE0 + c div 4096) # (0x80 + c div 64 mod 64) # (0x80 + c mod 64) # bs) = c # utf8_decode bs"
proof -
  have d: "c div 4096 = c div 64 div 64"
    by (simp add: div_mult2_eq [symmetric])
  have p: "(c div 4096 * 64 + c div 64 mod 64) * 64 + c mod 64 = c"
    unfolding d by simp
  have "c div 4096 < 16" "c div 64 mod 64 < 64" "c mod 64 < 64"
    using assms by auto
  moreover have "32 \<le> c div 64 mod 64" if "c div 4096 = 0"
    using that assms(1) by (simp add: d)
  moreover have "c div 64 mod 64 < 32" if "c div 4096 = 13"
  proof -
    have "c mod 4096 < 4096" "13 * 4096 + c mod 4096 = c"
      using div_mult_mod_eq [of c 4096] that by simp_all
    then have "c < 0xE000"
      by linarith
    then have "c < 0xD800"
      using assms(3,4) unfolding is_high_def is_low_def by linarith
    then show ?thesis
      using that div_mult_mod_eq [of c 4096] div_mult_mod_eq [of "c div 64" 64] by (simp add: d)
  qed
  ultimately have "sequence (0xE0 + c div 4096) ((0x80 + c div 64 mod 64) # (0x80 + c mod 64) # bs) = (Some c, bs)"
    using sequence_three [of "c div 4096" "c div 64 mod 64" "c mod 64" bs] by (simp only: p)
  then show ?thesis
    using assms(2) by (simp add: units_of_def)
qed

lemma decode_four:
  assumes "is_high c" "is_low d"
  defines "p \<equiv> code_point c d"
  shows "utf8_decode ((0xF0 + p div 262144) # (0x80 + p div 4096 mod 64) # (0x80 + p div 64 mod 64) # (0x80 + p mod 64) # bs)
    = c # d # utf8_decode bs"
proof -
  have "0x10000 \<le> p" "p < 0x110000"
    using assms(1,2) by (auto simp: p_def code_point_def is_high_def is_low_def)
  have dd: "p div 4096 = p div 64 div 64" "p div 262144 = p div 64 div 64 div 64"
    by (simp_all add: div_mult2_eq [symmetric])
  have q: "((p div 262144 * 64 + p div 4096 mod 64) * 64 + p div 64 mod 64) * 64 + p mod 64 = p"
    unfolding dd by simp
  have "p div 262144 < 5" "p div 4096 mod 64 < 64" "p div 64 mod 64 < 64" "p mod 64 < 64"
    using \<open>p < 0x110000\<close> by auto
  moreover have "16 \<le> p div 4096 mod 64" if "p div 262144 = 0"
    using that \<open>0x10000 \<le> p\<close> by (simp add: dd)
  moreover have "p div 4096 mod 64 < 16" if "p div 262144 = 4"
  proof -
    have "p div 4096 < 272"
      using \<open>p < 0x110000\<close> by (simp add: less_mult_imp_div_less)
    then show ?thesis
      using that div_mult_mod_eq [of "p div 4096" 64] unfolding dd by simp
  qed
  ultimately have "sequence (0xF0 + p div 262144)
      ((0x80 + p div 4096 mod 64) # (0x80 + p div 64 mod 64) # (0x80 + p mod 64) # bs) = (Some p, bs)"
    using sequence_four [of "p div 262144" "p div 4096 mod 64" "p div 64 mod 64" "p mod 64" bs] by (simp only: q)
  moreover have "units_of (Some p) = [c, d]"
  proof -
    define a b where "a = c - 0xD800" and "b = d - 0xDC00"
    then have "c = 0xD800 + a" "d = 0xDC00 + b" "b < 1024"
      using assms(1,2) by (auto simp: is_high_def is_low_def)
    then show ?thesis
      by (simp add: units_of_def p_def code_point_def)
  qed
  ultimately show ?thesis by simp
qed

text \<open>What a paired text is written to reads back as that text.\<close>

lemma utf8_roundtrip: "paired s \<Longrightarrow> utf8_decode (utf8_encode s) = s"
proof (induction s rule: paired.induct)
  case (2 c cs)
  show ?case
  proof (cases "is_high c")
    case True
    then obtain d ds where cs: "cs = d # ds" "is_low d" "paired ds"
      using 2 by (auto split: list.splits)
    have "\<not> c < 0x800"
      using True by (simp add: is_high_def)
    then show ?thesis
      using True cs 2 decode_four [of c d] by (simp add: Let_def del: utf8_decode.simps)
  next
    case False
    then have "\<not> is_low c" "c < 0x10000" "utf8_decode (utf8_encode cs) = cs"
      using 2 by simp_all
    then show ?thesis
      using False decode_one [of c] decode_two [of c] decode_three [of c] by (simp del: utf8_decode.simps)
  qed
qed simp

lemma utf8_bytes: "\<forall>c \<in> set s. c < 0x10000 \<Longrightarrow> \<forall>b \<in> set (utf8_encode s). b < 256"
proof (induction s rule: utf8_encode.induct)
  case (2 c cs)
  have m: "128 + x mod 64 < 256" for x :: nat
    using mod_less_divisor [of 64 x] by linarith
  have c: "c < 0x800 \<Longrightarrow> 192 + c div 64 < 256" "224 + c div 4096 < 256"
    using "2.prems" by (auto simp: less_mult_imp_div_less)
  have "240 + code_point c d div 262144 < 256" if "is_high c" "is_low d" for d
    using that by (auto simp: code_point_def is_high_def is_low_def)
  then show ?case
    using 2 m c by (cases cs) (simp_all add: Let_def)
qed simp

section \<open>String literals read back\<close>

lemma hex_unit_hex: "d < 16 \<Longrightarrow> hex_of (hex_unit d) = Some d"
  by (auto simp: hex_of_def hex_unit_def is_digit_def)

lemma parse_escape:
  assumes "c < 0x10000"
  shows "parse_str (unicode_escape c @ r) = map_option (\<lambda>(s, r). (c # s, r)) (parse_str r)"
proof -
  have "c div 4096 < 16" "c div 256 mod 16 < 16" "c div 16 mod 16 < 16" "c mod 16 < 16"
    using assms by auto
  then have "hex4 (hex_unit (c div 4096)) (hex_unit (c div 256 mod 16)) (hex_unit (c div 16 mod 16)) (hex_unit (c mod 16)) =
      Some (((c div 4096 * 16 + c div 256 mod 16) * 16 + c div 16 mod 16) * 16 + c mod 16)"
    by (simp add: hex4_def hex_unit_hex)
  moreover have "((c div 4096 * 16 + c div 256 mod 16) * 16 + c div 16 mod 16) * 16 + c mod 16 = c"
    using div_mult2_eq [of c 16 16] div_mult2_eq [of c 256 16] by simp
  ultimately show ?thesis
    by (simp add: unicode_escape_def simple_escape_def)
qed

lemma parse_short_escape:
  "short_escape c = Some e \<Longrightarrow> parse_str (0x5C # e # r) = map_option (\<lambda>(s, r). (c # s, r)) (parse_str r)"
  by (auto simp: short_escape_def simple_escape_def split: if_splits)

lemma parse_plain:
  "short_escape c = None \<Longrightarrow> \<not> c < 0x20 \<Longrightarrow> parse_str (c # r) = map_option (\<lambda>(s, r). (c # s, r)) (parse_str r)"
  by (auto simp: short_escape_def split: if_splits)

lemma parse_end: "parse_str (0x22 # r) = Some ([], r)"
  by simp

text \<open>A quoted string is read back whatever follows its closing quote.\<close>

lemma parse_quoted: "\<forall>c \<in> set s. c < 0x10000 \<Longrightarrow> parse_str (quote_units s @ 0x22 # r) = Some (s, r)"
proof (induction s rule: quote_units.induct)
  case (2 c cs)
  show ?case
  proof (cases "short_escape c")
    case (Some e)
    then show ?thesis
      using 2 parse_short_escape [OF Some] by (simp del: parse_str.simps)
  next
    case None
    have low: "short_escape d = None" "\<not> d < 0x20" if "is_low d" for d
      using that by (auto simp: is_low_def short_escape_def)
    have high: "\<not> c < 0x20" if "is_high c"
      using that by (auto simp: is_high_def)
    show ?thesis
      using 2 None low high parse_plain parse_escape parse_end
      by (auto simp del: parse_str.simps split: list.split)
  qed
qed simp

section \<open>The fuel of the reader is enough\<close>

lemma skip_length: "length (skip s) \<le> length s"
  by (simp add: skip_def length_dropWhile_le)

lemma skip_shorter: "skip s = c # cs \<Longrightarrow> length cs < length s"
  using skip_length [of s] by simp

lemma parse_str_shorter: "parse_str s = Some (t, r) \<Longrightarrow> length r < length s"
proof (induction s arbitrary: t r rule: measure_induct_rule [of length])
  case (less s)
  then obtain c cs where s: "s = c # cs"
    by (cases s) auto
  note parsed = less.prems [unfolded s]
  have rest: "length r < length s" if "length y < length s" "parse_str y = Some (u, r)" for y u
    using less.IH [OF that] that(1) by simp
  consider "c = 0x22" | "c \<noteq> 0x22" "c \<noteq> 0x5C" | "c = 0x5C"
    by blast
  then show ?case
  proof cases
    case 1
    then show ?thesis using parsed s by simp
  next
    case 2
    then obtain u where "parse_str cs = Some (u, r)"
      using parsed by (auto split: if_splits)
    then show ?thesis
      using rest [of cs u] s by simp
  next
    case 3
    then obtain e es where cs: "cs = e # es"
      using parsed by (auto split: list.splits)
    show ?thesis
    proof (cases "simple_escape e")
      case (Some x)
      then obtain u where "parse_str es = Some (u, r)"
        using parsed 3 cs by auto
      then show ?thesis
        using rest [of es u] s cs by simp
    next
      case None
      then obtain a b d f ds where es: "es = a # b # d # f # ds"
        using parsed 3 cs by (auto split: list.splits)
      then obtain u where "parse_str ds = Some (u, r)"
        using parsed 3 cs None by (auto split: if_splits option.splits)
      then show ?thesis
        using rest [of ds u] s cs es by simp
    qed
  qed
qed

lemma digits_shorter: "digits s = Some r \<Longrightarrow> length r < length s"
  by (auto simp: digits_def less_Suc_eq_le length_dropWhile_le split: list.splits if_splits)

lemma parse_number_shorter: "parse_number s = Some r \<Longrightarrow> length r < length s"
proof -
  have i: "integer_part s = Some r \<Longrightarrow> length r < length s" for s r
    using digits_shorter [of s r] by (auto simp: integer_part_def split: list.splits if_splits)
  have f: "fraction_part s = Some r \<Longrightarrow> length r \<le> length s" for s r
    using digits_shorter by (fastforce simp: fraction_part_def split: list.splits if_splits)
  have e: "exponent_part s = Some r \<Longrightarrow> length r \<le> length s" for s r
    using digits_shorter by (fastforce simp: exponent_part_def split: list.splits if_splits)
  assume "parse_number s = Some r"
  then obtain a b where "integer_part (case s of c # cs \<Rightarrow> if c = 0x2D then cs else s | [] \<Rightarrow> s) = Some a"
      "fraction_part a = Some b" "exponent_part b = Some r"
    by (auto simp: parse_number_def bind_eq_Some_conv)
  then have "length r < length (case s of c # cs \<Rightarrow> if c = 0x2D then cs else s | [] \<Rightarrow> s)"
    using i f e by (meson le_less_trans order_trans)
  then show ?thesis
    by (auto split: list.splits if_splits)
qed

lemma keyword_shorter: "keyword w v s = Some (x, r) \<Longrightarrow> w \<noteq> [] \<Longrightarrow> length r < length s"
  by (cases s; cases w) (auto simp: keyword_def ascii_def split: if_splits)

lemma parsed_shorter:
  "parse_value n s = Some (v, r) \<Longrightarrow> length r < length s"
  "parse_elements n s = Some (vs, r) \<Longrightarrow> length r < length s"
  "parse_members n s = Some (ms, r) \<Longrightarrow> length r < length s"
proof (induction n arbitrary: s v r vs ms)
  case (Suc n)
  have sk: "length cs < length s" if "skip s = c # cs" for s c cs
    by (rule skip_shorter [OF that])
  {
    case 1
    then obtain c cs where c: "skip s = c # cs"
      by (auto split: list.splits)
    have rest: "length r < length s" if "length r < length (c # cs)"
      using that skip_length [of s] c by simp
    consider t where "parse_str cs = Some (t, r)" | ms where "parse_members n cs = Some (ms, r)"
      | vs where "parse_elements n cs = Some (vs, r)" | d where "skip cs = d # r"
      | "parse_number (c # cs) = Some r" 
      | "keyword ''null'' Jnull (c # cs) = Some (v, r)" | "keyword ''true'' Jtrue (c # cs) = Some (v, r)"
      | "keyword ''false'' Jfalse (c # cs) = Some (v, r)"
      using 1 c by (auto split: if_splits list.splits)
    then show ?case
    proof cases
      case 1
      then show ?thesis using parse_str_shorter [OF 1] rest by simp
    next
      case (2 ms)
      then show ?thesis using Suc.IH(3) [OF 2] rest by simp
    next
      case (3 vs)
      then show ?thesis using Suc.IH(2) [OF 3] rest by simp
    next
      case 4
      then show ?thesis using sk [OF 4] rest by simp
    next
      case 5
      then show ?thesis using parse_number_shorter [OF 5] rest by simp
    next
      case 6
      then show ?thesis using keyword_shorter [OF 6] rest by simp
    next
      case 7
      then show ?thesis using keyword_shorter [OF 7] rest by simp
    next
      case 8
      then show ?thesis using keyword_shorter [OF 8] rest by simp
    qed
  next
    case 2
    then obtain w r' d ds where "parse_value n s = Some (w, r')" "skip r' = d # ds"
        "d = 0x5D \<and> r = ds \<or> (\<exists>vs. parse_elements n ds = Some (vs, r))"
      by (auto split: option.splits list.splits if_splits)
    then show ?case
      using Suc.IH(1) [of s w r'] Suc.IH(2) [of ds _ r] sk [of r'] by fastforce
  next
    case 3
    then obtain q cs k r1 e es w r2 d ds where "skip s = q # cs" "parse_str cs = Some (k, r1)" "skip r1 = e # es"
        "parse_value n es = Some (w, r2)" "skip r2 = d # ds"
        "d = 0x7D \<and> r = ds \<or> (\<exists>ms. parse_members n ds = Some (ms, r))"
      by (auto split: option.splits list.splits if_splits)
    then show ?case
      using Suc.IH(1) [of es w r2] Suc.IH(3) [of ds _ r] parse_str_shorter [of cs k r1] sk [of s] sk [of r1] sk [of r2] by fastforce
  }
qed simp_all

lemma fuel_step:
  "2 * length s < n \<Longrightarrow> parse_value (Suc n) s = parse_value n s"
  "2 * length s + 1 < n \<Longrightarrow> parse_elements (Suc n) s = parse_elements n s"
  "2 * length s < n \<Longrightarrow> parse_members (Suc n) s = parse_members n s"
proof (induction n arbitrary: s)
  case (Suc n)
  note one = parse_value.simps(2) [of "Suc n"] parse_value.simps(2) [of n]
    and two = parse_elements.simps(2) [of "Suc n"] parse_elements.simps(2) [of n]
    and three = parse_members.simps(2) [of "Suc n"] parse_members.simps(2) [of n]
  {
    case 1
    show ?case
    proof (cases "skip s")
      case (Cons c cs)
      then have "2 * length cs + 1 < n"
        using skip_shorter [OF Cons] 1 by simp
      then show ?thesis
        using Suc.IH(2,3) [of cs] by (simp only: one Cons list.case)
    qed (simp add: one del: parse_value.simps)
  next
    case 2
    have v: "parse_value (Suc n) s = parse_value n s"
      using Suc.IH(1) [of s] 2 by simp
    have "parse_elements (Suc n) ds = parse_elements n ds" if "parse_value n s = Some (w, r)" "skip r = d # ds" for w r d ds
      using Suc.IH(2) [of ds] 2 parsed_shorter(1) [OF that(1)] skip_shorter [OF that(2)] by simp
    then show ?case
      by (simp only: two v) (auto split: option.split list.split simp del: parse_elements.simps)
  next
    case 3
    have "parse_value (Suc n) es = parse_value n es"
      if "skip s = q # cs" "parse_str cs = Some (k, r)" "skip r = e # es" for q cs k r e es
      using Suc.IH(1) [of es] 3 skip_shorter [OF that(1)] parse_str_shorter [OF that(2)] skip_shorter [OF that(3)] by simp
    moreover have "parse_members (Suc n) ds = parse_members n ds"
      if "skip s = q # cs" "parse_str cs = Some (k, r)" "skip r = e # es" "parse_value n es = Some (w, t)" "skip t = d # ds"
      for q cs k r e es w t d ds
      using Suc.IH(3) [of ds] 3 skip_shorter [OF that(1)] parse_str_shorter [OF that(2)] skip_shorter [OF that(3)]
        parsed_shorter(1) [OF that(4)] skip_shorter [OF that(5)] by simp
    ultimately show ?case
      by (simp only: three) (auto split: option.split list.split simp del: parse_members.simps parse_value.simps)
  }
qed simp_all

text \<open>More fuel than \<open>JSON_parse\<close> gives changes nothing.\<close>

lemma fuel_enough: "2 * length s < n \<Longrightarrow> parse_value (n + k) s = parse_value n s"
proof (induction k)
  case (Suc k)
  then show ?case
    using fuel_step(1) [of s "n + k"] by (simp del: parse_value.simps)
qed simp

end
