(* ===== verification/Lockbox_Payload.thy ===== *)
theory Lockbox_Payload
  imports Json_Text "HOL-Library.Word"
begin

text \<open>
  The plaintext of a lockbox: \<open>LockboxPayloadSchema\<close> of \<open>packages/contracts/src/lockbox.ts\<close> and the
  functions \<open>serializePayload\<close> and \<open>deserializePayload\<close> of the lockbox service. A field is a string
  in UTF-16 code units, and the lengths of the schema count units.
\<close>

record LockboxPayload =
  counterpartyPrivate :: units
  evidenceSummary :: units
  priorDealHistory :: units

definition bounded :: "nat \<Rightarrow> units \<Rightarrow> bool" where
  "bounded n s \<longleftrightarrow> 1 \<le> length s \<and> length s \<le> n"

text \<open>What the schema admits.\<close>

definition payload_valid :: "LockboxPayload \<Rightarrow> bool" where
  "payload_valid p \<longleftrightarrow> bounded 2000 (counterpartyPrivate p) \<and> bounded 4000 (evidenceSummary p) \<and>
     bounded 4000 (priorDealHistory p)"

text \<open>Code units have 16 bits.\<close>

definition units_ok :: "LockboxPayload \<Rightarrow> bool" where
  "units_ok p \<longleftrightarrow> (\<forall>c \<in> set (counterpartyPrivate p @ evidenceSummary p @ priorDealHistory p). c < 0x10000)"

definition payload_text :: "LockboxPayload \<Rightarrow> units" where
  "payload_text p =
     0x7B # string_literal (ascii ''counterpartyPrivate'') @ 0x3A # string_literal (counterpartyPrivate p) @
     0x2C # string_literal (ascii ''evidenceSummary'') @ 0x3A # string_literal (evidenceSummary p) @
     0x2C # string_literal (ascii ''priorDealHistory'') @ 0x3A # string_literal (priorDealHistory p) @ [0x7D]"

definition serializePayload :: "LockboxPayload \<Rightarrow> 8 word list" where
  "serializePayload payload = map of_nat (utf8_encode (payload_text payload))"

definition text_field :: "jtext \<Rightarrow> string \<Rightarrow> nat \<Rightarrow> units option" where
  "text_field parsed k n =
     (case parsed of
        Jobj ms \<Rightarrow> (case member ms k of Some (Jtxt s) \<Rightarrow> if bounded n s then Some s else None | _ \<Rightarrow> None)
      | _ \<Rightarrow> None)"

text \<open>\<open>None\<close> where the text is no JSON or does not match the schema.\<close>

definition deserializePayload :: "8 word list \<Rightarrow> LockboxPayload option" where
  "deserializePayload plaintext =
     Option.bind (JSON_parse (utf8_decode (map unat plaintext))) (\<lambda>parsed.
     Option.bind (text_field parsed ''counterpartyPrivate'' 2000) (\<lambda>c.
     Option.bind (text_field parsed ''evidenceSummary'' 4000) (\<lambda>e.
     Option.bind (text_field parsed ''priorDealHistory'' 4000) (\<lambda>p.
     Some \<lparr>counterpartyPrivate = c, evidenceSummary = e, priorDealHistory = p\<rparr>))))"

section \<open>The payload reads back\<close>

definition word16 :: "units \<Rightarrow> bool" where
  "word16 s \<longleftrightarrow> (\<forall>c \<in> set s. c < 0x10000)"

lemma word16_ascii [simp]: "word16 (ascii s)"
proof -
  have "(of_char c :: nat) < 256" for c
    using of_char_mod_256 [of c, where 'a = nat] mod_less_divisor [of 256 "of_char c :: nat"] by simp
  then have "(of_char c :: nat) < 0x10000" for c
    using order_less_trans [of "of_char c" 256 "0x10000 :: nat"] by simp
  then show ?thesis
    by (simp add: word16_def ascii_def)
qed

lemma skip_mark [simp]: "\<not> is_space c \<Longrightarrow> skip (c # s) = c # s"
  by (simp add: skip_def)

lemma marks [simp]:
  "\<not> is_space 0x22" "\<not> is_space 0x3A" "\<not> is_space 0x2C" "\<not> is_space 0x7D" "\<not> is_space 0x7B"
  by (simp_all add: is_space_def)

lemma parse_literal: "word16 s \<Longrightarrow> parse_str (quote_units s @ 0x22 # r) = Some (s, r)"
  by (simp add: parse_quoted word16_def)

lemma parse_value_literal:
  "word16 s \<Longrightarrow> parse_value (Suc n) (string_literal s @ r) = Some (Jtxt s, r)"
  by (simp add: string_literal_def parse_literal del: parse_str.simps)

lemma parse_member:
  assumes "word16 k" "word16 s"
  shows "parse_members (Suc (Suc n)) (string_literal k @ 0x3A # string_literal s @ 0x2C # r) =
      map_option (\<lambda>(ms, r). ((k, Jtxt s) # ms, r)) (parse_members (Suc n) r)"
    "parse_members (Suc (Suc n)) (string_literal k @ 0x3A # string_literal s @ 0x7D # r) = Some ([(k, Jtxt s)], r)"
  using assms parse_value_literal [OF assms(2), of n]
  by (simp_all add: parse_literal string_literal_def del: parse_str.simps parse_value.simps)

lemma JSON_parse_payload:
  assumes "units_ok p"
  shows "JSON_parse (payload_text p) =
    Some (Jobj [(ascii ''counterpartyPrivate'', Jtxt (counterpartyPrivate p)),
      (ascii ''evidenceSummary'', Jtxt (evidenceSummary p)), (ascii ''priorDealHistory'', Jtxt (priorDealHistory p))])"
proof -
  have w: "word16 (counterpartyPrivate p)" "word16 (evidenceSummary p)" "word16 (priorDealHistory p)"
    using assms by (auto simp: units_ok_def word16_def)
  let ?t = "tl (payload_text p)"
  obtain n where n: "2 * length (payload_text p) + 2 = Suc (Suc (Suc (Suc (Suc n))))"
    by (auto simp: payload_text_def intro!: that)
  have "parse_members (Suc (Suc (Suc (Suc n)))) ?t =
      Some ([(ascii ''counterpartyPrivate'', Jtxt (counterpartyPrivate p)),
      (ascii ''evidenceSummary'', Jtxt (evidenceSummary p)), (ascii ''priorDealHistory'', Jtxt (priorDealHistory p))], [])"
    using w by (simp add: payload_text_def parse_member del: parse_members.simps)
  moreover have "payload_text p = 0x7B # ?t" "\<exists>ts. ?t = 0x22 # ts"
    by (simp_all add: payload_text_def string_literal_def)
  ultimately show ?thesis
    unfolding JSON_parse_def n by (auto simp: skip_def simp del: parse_members.simps)
qed

lemma paired_payload_text: "units_ok p \<Longrightarrow> paired (payload_text p)"
proof -
  assume "units_ok p"
  then have w: "word16 (counterpartyPrivate p)" "word16 (evidenceSummary p)" "word16 (priorDealHistory p)"
    by (auto simp: units_ok_def word16_def)
  have mark: "paired (c # ys)" if "c < 128" "paired ys" for c ys
    using that by (simp add: is_high_def is_low_def)
  have lit: "paired (string_literal s @ ys)" if "word16 s" "paired ys" for s ys
    using that paired_quote [of s] unfolding string_literal_def append_Cons append_assoc
    by (intro mark paired_append) (simp_all add: word16_def is_high_def is_low_def)
  show ?thesis
    unfolding payload_text_def by (intro mark lit w word16_ascii paired.simps(1) [THEN iffD2] TrueI) simp_all
qed

lemma paired_units: "paired s \<Longrightarrow> \<forall>c \<in> set s. c < 0x10000"
  by (induction s rule: paired.induct) (auto simp: is_high_def is_low_def split: if_splits list.splits)

lemma utf8_bytes_roundtrip:
  assumes "paired s"
  shows "utf8_decode (map unat (map (of_nat :: nat \<Rightarrow> 8 word) (utf8_encode s))) = s"
proof -
  have "map unat (map (of_nat :: nat \<Rightarrow> 8 word) (utf8_encode s)) = utf8_encode s"
    using utf8_bytes [OF paired_units [OF assms]] unfolding map_map by (intro map_idI) (simp add: unat_of_nat)
  then show ?thesis
    by (simp only: utf8_roundtrip [OF assms])
qed

theorem payload_roundtrip:
  assumes "payload_valid p" and "units_ok p"
  shows "deserializePayload (serializePayload p) = Some p"
proof -
  have "utf8_decode (map unat (serializePayload p)) = payload_text p"
    using utf8_bytes_roundtrip [OF paired_payload_text [OF assms(2)]] by (simp add: serializePayload_def)
  moreover have "ascii ''counterpartyPrivate'' \<noteq> ascii ''evidenceSummary''"
      "ascii ''counterpartyPrivate'' \<noteq> ascii ''priorDealHistory''" "ascii ''evidenceSummary'' \<noteq> ascii ''priorDealHistory''"
    by (simp_all add: ascii_def)
  ultimately show ?thesis
    using assms by (simp add: deserializePayload_def JSON_parse_payload text_field_def member_def payload_valid_def)
qed

text \<open>What is accepted satisfies the schema.\<close>

lemma text_field_bounded: "text_field v k n = Some s \<Longrightarrow> bounded n s"
  by (auto simp: text_field_def split: jtext.splits option.splits if_splits)

lemma deserialized_valid: "deserializePayload b = Some p \<Longrightarrow> payload_valid p"
  using text_field_bounded by (fastforce simp: deserializePayload_def bind_eq_Some_conv payload_valid_def)

end
