(* ===== verification/Lockbox_Service.thy ===== *)
theory Lockbox_Service
  imports Lockbox_Payload Envelope Receipt Common_Store
begin

text \<open>
  \<open>apps/api/src/modules/lockbox/service.ts\<close> over the tables of its repositories. \<open>node_crypto\<close> and
  \<open>hmac\<close> stand for \<open>node:crypto\<close>; the keys come from the configuration. \<open>k\<close> numbers the calls of
  the random generator so far. \<open>snap\<close> is the state the reads before the transaction saw, \<open>db\<close> the
  state at the time the advisory lock of the lockbox is granted.
\<close>

section \<open>Tables\<close>

record LockboxRow =
  lb_id :: string
  lb_sealerOrgId :: string
  lb_relationshipType :: LockboxRelationshipType
  lb_region :: LockboxRegion
  lb_status :: LockboxStatus
  lb_metadataSummary :: "string option"
  lb_iv :: "byte list"
  lb_ciphertext :: "byte list"
  lb_authTag :: "byte list"
  lb_aad :: "byte list"
  lb_ciphertextHash :: string
  lb_sealedAt :: int
  lb_withdrawnAt :: "int option"
  lb_withdrawnByUserId :: "string option"
  lb_withdrawReason :: "string option"
  lb_recipientOrgId :: "string option"
  lb_releasedAt :: "int option"
  lb_conditionRef :: "string option"
  lb_createdByUserId :: "string option"
  lb_createdByOrgId :: "string option"
  lb_updatedByUserId :: "string option"
  lb_version :: int
  lb_createdAt :: int

record LockboxKeyShareRow =
  ks_id :: string
  ks_lockboxId :: string
  ks_holderRole :: LockboxShareRole
  ks_shareIndex :: nat
  ks_threshold :: nat
  ks_totalShares :: nat
  ks_wrapped :: "AesGcmCiphertext option"
  ks_destroyedAt :: "int option"
  ks_destroyedReason :: "string option"

record LockboxReceiptRow =
  lr_id :: string
  lr_lockboxId :: string
  lr_version :: int
  lr_ciphertextHash :: string
  lr_sealerOrgId :: string
  lr_sealedAt :: int
  lr_signature :: string
  lr_algorithm :: string

record LockboxReleaseEvidenceRow =
  le_id :: string
  le_lockboxId :: string
  le_recipientOrgId :: string
  le_releasedAt :: int
  le_authorizedByUserId :: string
  le_authorizedRoles :: "LockboxShareRole list"
  le_conditionRef :: string
  le_ciphertextHash :: string
  le_receiptId :: "string option"

record LockboxStore = Base +
  lk_organizations :: "string list"
  lk_lockboxes :: "LockboxRow list"
  lk_shares :: "LockboxKeyShareRow list"
  lk_receipts :: "LockboxReceiptRow list"
  lk_evidence :: "LockboxReleaseEvidenceRow list"

section \<open>Repositories\<close>

definition lockbox_findById :: "LockboxStore \<Rightarrow> string \<Rightarrow> LockboxRow option" where
  "lockbox_findById db i = find_by lb_id i (lk_lockboxes db)"

definition lockbox_listBySealer :: "LockboxStore \<Rightarrow> string \<Rightarrow> LockboxRow list" where
  "lockbox_listBySealer db org =
     sort_key (\<lambda>r. - lb_createdAt r) (filter (\<lambda>r. lb_sealerOrgId r = org) (lk_lockboxes db))"

definition lockbox_list :: "LockboxStore \<Rightarrow> LockboxRow list" where
  "lockbox_list db = take 100 (sort_key (\<lambda>r. - lb_createdAt r) (lk_lockboxes db))"

definition lockbox_createSealed :: "LockboxRow \<Rightarrow> LockboxStore \<Rightarrow> DbError + LockboxStore" where
  "lockbox_createSealed r db =
     ebind (insert_row (\<lambda>x y. lb_id x = lb_id y) r (lk_lockboxes db)) (\<lambda>rows. Inr (db\<lparr>lk_lockboxes := rows\<rparr>))"

definition lockbox_updateStatus ::
  "string \<Rightarrow> LockboxStatus \<Rightarrow> string option \<Rightarrow> LockboxStore \<Rightarrow> DbError + LockboxRow \<times> LockboxStore" where
  "lockbox_updateStatus i status by db =
     ebind (update_by lb_id i
         (\<lambda>r. r\<lparr>lb_status := status, lb_updatedByUserId := by, lb_version := lb_version r + 1\<rparr>)
         (lk_lockboxes db)) (\<lambda>(r, rows).
       Inr (r, db\<lparr>lk_lockboxes := rows\<rparr>))"

definition lockbox_withdraw ::
  "string \<Rightarrow> int \<Rightarrow> string \<Rightarrow> string option \<Rightarrow> LockboxStore \<Rightarrow> DbError + LockboxRow \<times> LockboxStore" where
  "lockbox_withdraw i withdrawnAt by reason db =
     ebind (update_by lb_id i
         (\<lambda>r. r\<lparr>lb_status := Lbx_WITHDRAWN, lb_withdrawnAt := Some withdrawnAt, lb_withdrawnByUserId := Some by,
            lb_withdrawReason := reason, lb_updatedByUserId := Some by, lb_version := lb_version r + 1\<rparr>)
         (lk_lockboxes db)) (\<lambda>(r, rows).
       Inr (r, db\<lparr>lk_lockboxes := rows\<rparr>))"

definition lockbox_markOpened ::
  "string \<Rightarrow> int \<Rightarrow> string \<Rightarrow> string \<Rightarrow> string \<Rightarrow> LockboxStore \<Rightarrow> DbError + LockboxRow \<times> LockboxStore" where
  "lockbox_markOpened i releasedAt recipientOrgId conditionRef by db =
     ebind (update_by lb_id i
         (\<lambda>r. r\<lparr>lb_status := Lbx_OPENED, lb_releasedAt := Some releasedAt, lb_recipientOrgId := Some recipientOrgId,
            lb_conditionRef := Some conditionRef, lb_updatedByUserId := Some by, lb_version := lb_version r + 1\<rparr>)
         (lk_lockboxes db)) (\<lambda>(r, rows).
       Inr (r, db\<lparr>lk_lockboxes := rows\<rparr>))"

text \<open>One statement for all shares; a clash on \<open>(lockboxId, holderRole)\<close> fails it as a whole.\<close>

fun keyShare_createMany ::
  "Env \<Rightarrow> (string \<Rightarrow> LockboxKeyShareRow) list \<Rightarrow> LockboxStore \<Rightarrow> DbError + LockboxStore" where
  "keyShare_createMany env [] db = Inr db"
| "keyShare_createMany env (mk # mks) db =
     (let (i, db) = next_id env db in
      ebind (insert_row (\<lambda>x y. ks_id x = ks_id y \<or> ks_lockboxId x = ks_lockboxId y \<and> ks_holderRole x = ks_holderRole y)
        (mk i) (lk_shares db)) (\<lambda>rows.
      keyShare_createMany env mks (db\<lparr>lk_shares := rows\<rparr>)))"

definition keyShare_findActive ::
  "LockboxStore \<Rightarrow> string \<Rightarrow> LockboxShareRole list \<Rightarrow> LockboxKeyShareRow list" where
  "keyShare_findActive db i roles =
     filter (\<lambda>s. ks_lockboxId s = i \<and> ks_holderRole s \<in> set roles \<and> ks_wrapped s \<noteq> None) (lk_shares db)"

definition keyShare_destroyAll :: "string \<Rightarrow> int \<Rightarrow> string \<Rightarrow> LockboxStore \<Rightarrow> nat \<times> LockboxStore" where
  "keyShare_destroyAll i destroyedAt reason db =
     (length (filter (\<lambda>s. ks_lockboxId s = i \<and> ks_wrapped s \<noteq> None) (lk_shares db)),
      db\<lparr>lk_shares := map (\<lambda>s. if ks_lockboxId s = i \<and> ks_wrapped s \<noteq> None
        then s\<lparr>ks_wrapped := None, ks_destroyedAt := Some destroyedAt, ks_destroyedReason := Some reason\<rparr> else s)
        (lk_shares db)\<rparr>)"

definition receipt_insert :: "LockboxReceiptRow \<Rightarrow> LockboxStore \<Rightarrow> DbError + LockboxStore" where
  "receipt_insert r db =
     ebind (insert_row (\<lambda>x y. lr_id x = lr_id y) r (lk_receipts db)) (\<lambda>rows. Inr (db\<lparr>lk_receipts := rows\<rparr>))"

definition receipt_findLatest :: "LockboxStore \<Rightarrow> string \<Rightarrow> LockboxReceiptRow option" where
  "receipt_findLatest db i =
     (case sort_key (\<lambda>r. - lr_version r) (filter (\<lambda>r. lr_lockboxId r = i) (lk_receipts db)) of
        [] \<Rightarrow> None | r # _ \<Rightarrow> Some r)"

definition evidence_insert :: "LockboxReleaseEvidenceRow \<Rightarrow> LockboxStore \<Rightarrow> DbError + LockboxStore" where
  "evidence_insert r db =
     ebind (insert_row (\<lambda>x y. le_id x = le_id y) r (lk_evidence db)) (\<lambda>rows. Inr (db\<lparr>lk_evidence := rows\<rparr>))"

section \<open>Errors, requests and keys\<close>

datatype LockboxProblem = UnknownRecipient

datatype LockboxUnhandled = LbDb DbError | LbKey MissingKeyMaterialError | LbCrypto CryptoError

type_synonym lockbox_failure = "(LockboxProblem, LockboxUnhandled) failure"

definition ldb :: "DbError + 'a \<Rightarrow> lockbox_failure + 'a" where
  "ldb = map_err (\<lambda>e. Unhandled (LbDb e))"

definition ltrans :: "DomainTransitionError + 'a \<Rightarrow> lockbox_failure + 'a" where
  "ltrans = map_err Transition"

record SealLockboxRequest =
  sl_relationshipType :: LockboxRelationshipType
  sl_region :: LockboxRegion
  sl_metadataSummary :: "string option"
  sl_payload :: LockboxPayload

record ReleaseLockboxRequest =
  rl_recipientOrgId :: string
  rl_conditionRef :: string

record ReleaseResult =
  rs_lockbox :: LockboxRow
  rs_releaseEvidence :: LockboxReleaseEvidenceRow
  rs_disclosedPayload :: LockboxPayload

record LockboxConfig =
  lockboxKekSealer :: "string option"
  lockboxKekOperator :: "string option"
  lockboxKekEscrow :: "string option"
  lockboxReceiptHmacKey :: "string option"

definition loadRoleKeks :: "LockboxConfig \<Rightarrow> lockbox_failure + RoleKeks" where
  "loadRoleKeks cfg =
     map_err (\<lambda>e. Unhandled (LbKey e))
       (ebind (parseKeyHex (lockboxKekSealer cfg) ''LOCKBOX_KEK_SEALER'') (\<lambda>s.
        ebind (parseKeyHex (lockboxKekOperator cfg) ''LOCKBOX_KEK_OPERATOR'') (\<lambda>opr.
        ebind (parseKeyHex (lockboxKekEscrow cfg) ''LOCKBOX_KEK_ESCROW'') (\<lambda>e.
        Inr \<lparr>kek_SEALER = s, kek_OPERATOR = opr, kek_ESCROW = e\<rparr>))))"

definition loadReceiptHmacKey :: "LockboxConfig \<Rightarrow> lockbox_failure + byte list" where
  "loadReceiptHmacKey cfg =
     map_err (\<lambda>e. Unhandled (LbKey e)) (parseKeyHex (lockboxReceiptHmacKey cfg) ''LOCKBOX_RECEIPT_HMAC_KEY'')"

text \<open>The additional data of the encryption: the identifier in UTF-8 (identifiers are ASCII).\<close>

definition lockboxAad :: "string \<Rightarrow> byte list" where
  "lockboxAad i = map (\<lambda>c. of_nat c) (utf8_encode (ascii i))"

definition CROSS_ORG_LOCKBOX_ROLES :: "PersonaRole list" where
  "CROSS_ORG_LOCKBOX_ROLES = [PLATFORM_OWNER, MARKETPLACE_OPERATOR, COMPLIANCE_REVIEWER, AUDITOR_READONLY]"

definition RELEASE_AUTHORIZING_ROLES :: "LockboxShareRole list" where
  "RELEASE_AUTHORIZING_ROLES = [Shr_OPERATOR, Shr_ESCROW]"

section \<open>Reading\<close>

definition lockbox_listAll :: "Actor \<Rightarrow> LockboxStore \<Rightarrow> lockbox_failure + LockboxRow list" where
  "lockbox_listAll actor db =
     ebind (authorize actor A_lockbox_read_receipt R_lockbox (organizationId actor) no_context) (\<lambda>_.
     Inr (if role actor \<in> Some ` set CROSS_ORG_LOCKBOX_ROLES then lockbox_list db
          else if \<not> truthy (organizationId actor) then []
          else lockbox_listBySealer db (the (organizationId actor))))"

definition lockbox_getById :: "Actor \<Rightarrow> string \<Rightarrow> LockboxStore \<Rightarrow> lockbox_failure + LockboxRow" where
  "lockbox_getById actor i db =
     ebind (require (lockbox_findById db i) (Problem notFound)) (\<lambda>lockbox.
     ebind (authorize actor A_lockbox_read_receipt R_lockbox (Some (lb_sealerOrgId lockbox)) no_context) (\<lambda>_.
     Inr lockbox))"

definition getReceipt :: "Actor \<Rightarrow> string \<Rightarrow> LockboxStore \<Rightarrow> lockbox_failure + LockboxReceiptRow" where
  "getReceipt actor i db =
     ebind (require (lockbox_findById db i) (Problem notFound)) (\<lambda>lockbox.
     ebind (authorize actor A_lockbox_read_receipt R_lockbox (Some (lb_sealerOrgId lockbox)) no_context) (\<lambda>_.
     require (receipt_findLatest db i) (Problem internal)))"

section \<open>Sealing\<close>

definition relationshipJ :: "LockboxRelationshipType \<Rightarrow> jvalue" where
  "relationshipJ t = JStr (lockboxRelationshipType_name t)"

definition regionJ :: "LockboxRegion \<Rightarrow> jvalue" where
  "regionJ r = JStr (lockboxRegion_name r)"

definition optJ :: "string option \<Rightarrow> jvalue" where
  "optJ v = (case v of None \<Rightarrow> Service_Base.JNull | Some s \<Rightarrow> JStr s)"

definition sealed_row :: "Env \<Rightarrow> Actor \<Rightarrow> string \<Rightarrow> SealLockboxRequest \<Rightarrow> SealedEnvelope \<Rightarrow> LockboxRow" where
  "sealed_row env actor i inp sealed =
     \<lparr>lb_id = i, lb_sealerOrgId = the (organizationId actor), lb_relationshipType = sl_relationshipType inp,
      lb_region = sl_region inp, lb_status = Lbx_SEALED, lb_metadataSummary = sl_metadataSummary inp,
      lb_iv = env_iv sealed, lb_ciphertext = env_ciphertext sealed, lb_authTag = env_authTag sealed,
      lb_aad = lockboxAad i, lb_ciphertextHash = ciphertextHash sealed, lb_sealedAt = clock env,
      lb_withdrawnAt = None, lb_withdrawnByUserId = None, lb_withdrawReason = None, lb_recipientOrgId = None,
      lb_releasedAt = None, lb_conditionRef = None, lb_createdByUserId = Some (userId actor),
      lb_createdByOrgId = organizationId actor, lb_updatedByUserId = None, lb_version = 1,
      lb_createdAt = clock env\<rparr>"

definition share_row :: "string \<Rightarrow> WrappedShare \<Rightarrow> string \<Rightarrow> LockboxKeyShareRow" where
  "share_row lockboxId s i =
     \<lparr>ks_id = i, ks_lockboxId = lockboxId, ks_holderRole = share_role s, ks_shareIndex = share_index s,
      ks_threshold = 2, ks_totalShares = 3, ks_wrapped = Some (wrapped s), ks_destroyedAt = None,
      ks_destroyedReason = None\<rparr>"

definition receipt_payload :: "Env \<Rightarrow> Actor \<Rightarrow> string \<Rightarrow> SealedEnvelope \<Rightarrow> LockboxReceiptPayload" where
  "receipt_payload env actor i sealed =
     \<lparr>receipt_lockboxId = i, receipt_ciphertextHash = ciphertextHash sealed,
      receipt_sealerOrgId = the (organizationId actor), receipt_sealedAt = toISOString env (clock env),
      receipt_state = ''SEALED''\<rparr>"

definition lockbox_seal ::
  "node_crypto \<Rightarrow> nat \<Rightarrow> (byte list \<Rightarrow> string \<Rightarrow> string) \<Rightarrow> LockboxConfig \<Rightarrow> Env \<Rightarrow> Actor \<Rightarrow> SealLockboxRequest \<Rightarrow>
   RequestContext \<Rightarrow> LockboxStore \<Rightarrow> lockbox_failure + LockboxRow \<times> LockboxStore" where
  "lockbox_seal nc k hmac cfg env actor inp ctx db =
     ebind (throw_if (\<not> truthy (organizationId actor)) (Problem (forbidden NoActiveMembership))) (\<lambda>_.
     ebind (authorize actor A_lockbox_seal R_lockbox (organizationId actor) no_context) (\<lambda>_.
     let (lockboxId, db) = next_id env db in
     ebind (loadRoleKeks cfg) (\<lambda>keks.
     ebind (map_err (\<lambda>e. Unhandled (LbCrypto e))
       (sealPayload nc k (serializePayload (sl_payload inp)) keks (Some (lockboxAad lockboxId)))) (\<lambda>sealed.
     ebind (loadReceiptHmacKey cfg) (\<lambda>hmacKey.
     let signature = signReceipt hmac (receipt_payload env actor lockboxId sealed) hmacKey;
         row = sealed_row env actor lockboxId inp sealed
     in
     ebind (ldb (lockbox_createSealed row db)) (\<lambda>db.
     ebind (ldb (keyShare_createMany env (map (share_row lockboxId) (shares sealed)) db)) (\<lambda>db.
     let (receiptId, db) = next_id env db in
     ebind (ldb (receipt_insert
        \<lparr>lr_id = receiptId, lr_lockboxId = lockboxId, lr_version = 1, lr_ciphertextHash = ciphertextHash sealed,
         lr_sealerOrgId = the (organizationId actor), lr_sealedAt = clock env, lr_signature = signature,
         lr_algorithm = ''HMAC-SHA256''\<rparr> db)) (\<lambda>db.
     let db = write_audit env (Some ctx) (audit_by actor (organizationId actor) ''lockbox.sealed'' ''lockbox'' lockboxId
           [(''relationshipType'', relationshipJ (sl_relationshipType inp)), (''region'', regionJ (sl_region inp)),
            (''ciphertextHash'', JStr (ciphertextHash sealed)), (''metadataSummary'', optJ (sl_metadataSummary inp))]) db;
         db = write_event env (Some ctx) (event_by actor ''lockbox.sealed'' ''lockbox'' lockboxId
           [(''sealerOrgId'', optJ (organizationId actor)), (''relationshipType'', relationshipJ (sl_relationshipType inp)),
            (''region'', regionJ (sl_region inp)), (''ciphertextHash'', JStr (ciphertextHash sealed))]) db
     in Inr (row, db)))))))))"

section \<open>Withdrawing\<close>

definition withdrawReason_check :: "LockboxRow \<Rightarrow> lockbox_failure + unit" where
  "withdrawReason_check lockbox =
     ebind (throw_if (\<not> canWithdrawFrom (lb_status lockbox)) (Problem (conflict False))) (\<lambda>_.
     ltrans (assertValidLockboxTransition (lockboxStatus_name (lb_status lockbox)) ''WITHDRAWN''))"

definition destroyReason :: "Actor \<Rightarrow> string" where
  "destroyReason actor =
     ''withdrawn by sealer org '' @ (case organizationId actor of None \<Rightarrow> ''null'' | Some org \<Rightarrow> org)"

definition withdraw ::
  "Env \<Rightarrow> Actor \<Rightarrow> string \<Rightarrow> string option \<Rightarrow> RequestContext \<Rightarrow> LockboxStore \<Rightarrow> LockboxStore \<Rightarrow>
   lockbox_failure + LockboxRow \<times> LockboxStore" where
  "withdraw env actor lockboxId withdrawReason ctx snap db =
     ebind (require (lockbox_findById snap lockboxId) (Problem notFound)) (\<lambda>lockbox.
     ebind (authorize actor A_lockbox_withdraw R_lockbox (Some (lb_sealerOrgId lockbox)) no_context) (\<lambda>_.
     ebind (withdrawReason_check lockbox) (\<lambda>_.
     ebind (require (lockbox_findById db lockboxId) (Problem internal)) (\<lambda>freshLockbox.
     ebind (withdrawReason_check freshLockbox) (\<lambda>_.
     ebind (ldb (lockbox_withdraw lockboxId (clock env) (userId actor) withdrawReason db)) (\<lambda>(updated, db).
     let (destroyedCount, db) = keyShare_destroyAll lockboxId (clock env)
           (destroyReason actor) db in
     ebind (throw_if (destroyedCount \<noteq> 3) (Problem internal)) (\<lambda>_.
     let db = write_audit env (Some ctx) ((audit_by actor (Some (lb_sealerOrgId lockbox)) ''lockbox.withdrawn'' ''lockbox''
           lockboxId [(''withdrawReason'', optJ withdrawReason), (''sharesDestroyed'', JNum (int destroyedCount))])
           \<lparr>au_reason := withdrawReason\<rparr>) db;
         db = write_event env (Some ctx) (event_by actor ''lockbox.withdrawn'' ''lockbox'' lockboxId
           [(''withdrawReason'', optJ withdrawReason)]) db
     in Inr (updated, db))))))))"

section \<open>Releasing\<close>

text \<open>The loop over the hops of the cascade before the last one.\<close>

fun releaseHops ::
  "string \<Rightarrow> Actor \<Rightarrow> LockboxStatus \<Rightarrow> LockboxStatus list \<Rightarrow> LockboxStore \<Rightarrow> lockbox_failure + LockboxStatus \<times> LockboxStore" where
  "releaseHops i actor currentStatus [] db = Inr (currentStatus, db)"
| "releaseHops i actor currentStatus (nextStatus # hops) db =
     ebind (ltrans (assertValidLockboxTransition (lockboxStatus_name currentStatus) (lockboxStatus_name nextStatus))) (\<lambda>_.
     ebind (ldb (lockbox_updateStatus i nextStatus (Some (userId actor)) db)) (\<lambda>(_, db).
     releaseHops i actor nextStatus hops db))"

definition hops_after :: "LockboxStatus \<Rightarrow> LockboxStatus list" where
  "hops_after s =
     (case index_of LOCKBOX_RELEASE_CASCADE s of
        None \<Rightarrow> butlast LOCKBOX_RELEASE_CASCADE
      | Some startIdx \<Rightarrow> drop (startIdx + 1) (butlast LOCKBOX_RELEASE_CASCADE))"

definition as_wrapped :: "LockboxKeyShareRow \<Rightarrow> WrappedShare" where
  "as_wrapped s = \<lparr>share_role = ks_holderRole s, share_index = ks_shareIndex s, wrapped = the (ks_wrapped s)\<rparr>"

text \<open>The cryptographic part: every error of \<open>releasePayload\<close> becomes one final problem.\<close>

definition openEnvelope ::
  "node_crypto \<Rightarrow> RoleKeks \<Rightarrow> LockboxRow \<Rightarrow> LockboxStore \<Rightarrow> lockbox_failure + LockboxPayload" where
  "openEnvelope nc keks freshLockbox db =
     (let activeShares = keyShare_findActive db (lb_id freshLockbox) RELEASE_AUTHORIZING_ROLES in
      ebind (throw_if (length activeShares < 2) (Problem (conflict False))) (\<lambda>_.
      ebind (map_err (\<lambda>_. Problem internalFinal)
        (releasePayload nc \<lparr>iv = lb_iv freshLockbox, ciphertext = lb_ciphertext freshLockbox,
           authTag = lb_authTag freshLockbox\<rparr> (map as_wrapped activeShares) keks
           (Some (lockboxAad (lb_id freshLockbox))))) (\<lambda>plaintext.
      require (deserializePayload plaintext) (Problem internal))))"

definition release ::
  "node_crypto \<Rightarrow> LockboxConfig \<Rightarrow> Env \<Rightarrow> Actor \<Rightarrow> string \<Rightarrow> ReleaseLockboxRequest \<Rightarrow> RequestContext \<Rightarrow>
   LockboxStore \<Rightarrow> LockboxStore \<Rightarrow> lockbox_failure + ReleaseResult \<times> LockboxStore" where
  "release nc cfg env actor lockboxId inp ctx snap db =
     ebind (require (lockbox_findById snap lockboxId) (Problem notFound)) (\<lambda>lockbox.
     ebind (authorize actor A_lockbox_release R_lockbox (Some (lb_sealerOrgId lockbox)) no_context) (\<lambda>_.
     ebind (throw_if (rl_recipientOrgId inp \<notin> set (lk_organizations snap)) (Problem (badRequest UnknownRecipient))) (\<lambda>_.
     ebind (ltrans (assertValidLockboxReleaseCascade (lb_status lockbox))) (\<lambda>_.
     ebind (loadRoleKeks cfg) (\<lambda>keks.
     ebind (require (lockbox_findById db lockboxId) (Problem internal)) (\<lambda>freshLockbox.
     ebind (ltrans (assertValidLockboxReleaseCascade (lb_status freshLockbox))) (\<lambda>_.
     ebind (openEnvelope nc keks freshLockbox db) (\<lambda>disclosedPayload.
     ebind (releaseHops lockboxId actor (lb_status freshLockbox) (hops_after (lb_status freshLockbox)) db) (\<lambda>(currentStatus, db).
     ebind (ltrans (assertValidLockboxTransition (lockboxStatus_name currentStatus) ''OPENED'')) (\<lambda>_.
     ebind (ldb (lockbox_markOpened lockboxId (clock env) (rl_recipientOrgId inp) (rl_conditionRef inp) (userId actor) db))
       (\<lambda>(updatedLockbox, db).
     let receipt = receipt_findLatest db lockboxId; (i, db) = next_id env db;
         evidence = \<lparr>le_id = i, le_lockboxId = lockboxId, le_recipientOrgId = rl_recipientOrgId inp,
           le_releasedAt = clock env, le_authorizedByUserId = userId actor,
           le_authorizedRoles = RELEASE_AUTHORIZING_ROLES, le_conditionRef = rl_conditionRef inp,
           le_ciphertextHash = lb_ciphertextHash freshLockbox, le_receiptId = map_option lr_id receipt\<rparr>
     in
     ebind (ldb (evidence_insert evidence db)) (\<lambda>db.
     let roles = JStrs (map lockboxShareRole_name RELEASE_AUTHORIZING_ROLES);
         disclosure = [(''recipientOrgId'', JStr (rl_recipientOrgId inp)), (''conditionRef'', JStr (rl_conditionRef inp)),
           (''authorizedRoles'', roles), (''ciphertextHash'', JStr (lb_ciphertextHash freshLockbox))];
         db = write_audit env (Some ctx) (audit_by actor (Some (lb_sealerOrgId lockbox)) ''lockbox.released'' ''lockbox''
           lockboxId disclosure) db;
         db = write_event env (Some ctx) (event_by actor ''lockbox.committed'' ''lockbox'' lockboxId
           [(''ciphertextHash'', JStr (lb_ciphertextHash freshLockbox))]) db;
         db = write_event env (Some ctx) (event_by actor ''lockbox.opened'' ''lockbox'' lockboxId disclosure) db
     in Inr (\<lparr>rs_lockbox = updatedLockbox, rs_releaseEvidence = evidence, rs_disclosedPayload = disclosedPayload\<rparr>, db)))))))))))))"

end
