(* ===== verification/Row_Updates.thy ===== *)
theory Row_Updates
  imports Common_Store Request_History
begin

text \<open>
  Laws of the row updates that the histories of the lockbox, claims and passport services share: an update by a
  unique key touches one row, keeps the other rows and their order, and commutes with a selection it
  does not affect.
\<close>

lemma set_by_twice:
  "(\<And>x. key (f x) = key x) \<Longrightarrow> set_by key i f' (set_by key i f rows) = set_by key i (\<lambda>x. f' (f x)) rows"
  by (simp add: set_by_def)

lemma set_by_row:
  assumes "distinct (map key rows)" and "find_by key i rows = Some old" and "y \<in> set (set_by key i f rows)"
  shows "y = f old \<or> y \<in> set rows \<and> key y \<noteq> i"
proof -
  obtain x where x: "x \<in> set rows" "y = (if key x = i then f x else x)"
    using assms(3) by (auto simp: set_set_by)
  show ?thesis
  proof (cases "key x = i")
    case True
    then have "x = old"
      using find_by_unique [OF assms(1) x(1)] assms(2) by simp
    then show ?thesis using x True by simp
  qed (use x in simp)
qed

lemma set_by_grows:
  assumes "distinct (map key rows)" and "find_by key i rows = Some old" and "R old (f old)" and "\<And>x. R x x"
  shows "grows R [] rows (set_by key i f rows)"
proof -
  have "R x (if key x = i then f x else x)" if "x \<in> set rows" for x
    using find_by_unique [OF assms(1) that] assms(2-4) by auto
  then show ?thesis
    by (simp add: grows_def set_by_def list_all2_map2 list.rel_refl_strong)
qed

lemma set_by_missing: "\<forall>x \<in> set rows. key x \<noteq> i \<Longrightarrow> set_by key i f rows = rows"
  by (induction rows) (auto simp: set_by_def)

lemma set_by_append: "set_by key i f (xs @ zs) = set_by key i f xs @ set_by key i f zs"
  by (simp add: set_by_def)

lemma set_by_last:
  assumes "distinct (map key (rows @ [x]))"
  shows "set_by key (key x) f (rows @ [x]) = rows @ [f x]"
proof -
  have "\<forall>r \<in> set rows. key r \<noteq> key x"
    using assms by (auto simp: image_iff)
  then show ?thesis
    by (simp add: set_by_append set_by_missing) (simp add: set_by_def)
qed

lemma filter_set_by: "(\<And>x. P (f x) = P x) \<Longrightarrow> filter P (set_by key i f rows) = set_by key i f (filter P rows)"
  by (induction rows) (auto simp: set_by_def)

lemma filter_set_by_same:
  assumes "\<And>x. P (f x) = P x" and "\<And>x. x \<in> set rows \<Longrightarrow> P x \<Longrightarrow> key x \<noteq> i"
  shows "filter P (set_by key i f rows) = filter P rows"
proof -
  have "filter P (set_by key i f rows) = set_by key i f (filter P rows)"
    using assms(1) by (rule filter_set_by)
  also have "\<dots> = filter P rows"
    by (rule set_by_missing) (use assms(2) in auto)
  finally show ?thesis .
qed

lemma find_filter: "find (\<lambda>x. P x \<and> Q x) rows = find Q (filter P rows)"
  by (induction rows) auto

end
