(* ===== verification/Lockbox_History.thy ===== *)
theory Lockbox_History
  imports Lockbox_Service Row_Updates
begin

text \<open>
  What a successful request of the lockbox service writes, the invariant of its tables and the order
  in which their rows may change, under every interleaving of sealing, withdrawing and releasing.
\<close>

lemma lifted_lockbox [simp, result_simps]:
  "ldb r = Inr x \<longleftrightarrow> r = Inr x" "ltrans s = Inr y \<longleftrightarrow> s = Inr y" "ldb (Inr x) = Inr x" "ltrans (Inr y) = Inr y"
  by (simp_all add: ldb_def ltrans_def)

section \<open>Sealing\<close>

lemma wrapShares_roles:
  "wrapShares nc keks k ss = Inr ws \<Longrightarrow> list_all2 (\<lambda>s w. roleToIndex (share_role w) = index s) ss ws"
proof (induction ss arbitrary: k ws)
  case (Cons s ss)
  then show ?case
    by (auto simp: ebind_eq_Inr indexToRole_total split: prod.splits)
qed simp

lemma seal_roles:
  assumes "sealPayload nc k pt keks aad = Inr env"
  shows "map share_role (shares env) = [Shr_SEALER, Shr_OPERATOR, Shr_ESCROW]"
proof -
  obtain coeffs dek j where ws: "wrapShares nc keks j (map (share_at coeffs dek) [1..<4]) = Inr (shares env)"
    using assms
    by (auto simp: sealPayload_def ebind_eq_Inr Let_def splitSecret_eq LOCKBOX_SHARE_THRESHOLD_def LOCKBOX_SHARE_TOTAL_def
        generateKey_def split: sum.splits if_splits)
  have "[1..<4] = [1, 2, 3 :: nat]"
    by (simp add: upt_conv_Cons)
  then have raw: "map index (map (share_at coeffs dek) [1..<4]) = [1, 2, 3]"
    by simp
  have eq: "map index ss = map roleToIndex (map share_role ws)"
    if "list_all2 (\<lambda>s w. roleToIndex (share_role w) = index s) ss ws" for ss ws
    using that by (induction rule: list_all2_induct) auto
  then have "map roleToIndex (map share_role (shares env)) = map roleToIndex [Shr_SEALER, Shr_OPERATOR, Shr_ESCROW]"
    unfolding eq [OF wrapShares_roles [OF ws], symmetric] raw by (simp add: roleToIndex_values)
  moreover have "inj roleToIndex"
    by (simp add: inj_def roleToIndex_inject)
  ultimately show ?thesis
    by (metis inj_map_eq_map)
qed

lemma createMany_ok:
  "keyShare_createMany env mks db = Inr db' \<Longrightarrow>
   \<exists>n ids. length ids = length mks \<and> db' = db\<lparr>bs_ids := n, lk_shares := lk_shares db @ map2 (\<lambda>mk i. mk i) mks ids\<rparr> \<and>
     (\<forall>x \<in> set (lk_shares db). \<forall>y \<in> set (map2 (\<lambda>mk i. mk i) mks ids).
        \<not> (ks_lockboxId x = ks_lockboxId y \<and> ks_holderRole x = ks_holderRole y))"
proof (induction mks arbitrary: db)
  case (Cons mk mks)
  let ?i = "uuid env (bs_ids db)"
  let ?db = "db\<lparr>bs_ids := Suc (bs_ids db), lk_shares := lk_shares db @ [mk ?i]\<rparr>"
  have new: "\<forall>x \<in> set (lk_shares db). \<not> (ks_lockboxId x = ks_lockboxId (mk ?i) \<and> ks_holderRole x = ks_holderRole (mk ?i))"
    and rest: "keyShare_createMany env mks ?db = Inr db'"
    using Cons.prems by (auto simp: next_id_def ebind_eq_Inr insert_row_ok)
  from Cons.IH [OF rest] obtain n ids where ids: "length ids = length mks"
      "db' = ?db\<lparr>bs_ids := n, lk_shares := lk_shares ?db @ map2 (\<lambda>mk i. mk i) mks ids\<rparr>"
      "\<forall>x \<in> set (lk_shares ?db). \<forall>y \<in> set (map2 (\<lambda>mk i. mk i) mks ids).
        \<not> (ks_lockboxId x = ks_lockboxId y \<and> ks_holderRole x = ks_holderRole y)"
    by blast
  show ?case
    by (rule exI [of _ n], rule exI [of _ "?i # ids"]) (use ids new in auto)
qed (auto intro: exI [of _ "bs_ids db'"])

lemma audit_tables [simp]:
  fixes db :: LockboxStore
  shows "lk_lockboxes (write_audit env ctx a db) = lk_lockboxes db" "lk_shares (write_audit env ctx a db) = lk_shares db"
    "lk_receipts (write_audit env ctx a db) = lk_receipts db" "lk_evidence (write_audit env ctx a db) = lk_evidence db"
    "lk_lockboxes (write_event env ctx e db) = lk_lockboxes db" "lk_shares (write_event env ctx e db) = lk_shares db"
    "lk_receipts (write_event env ctx e db) = lk_receipts db" "lk_evidence (write_event env ctx e db) = lk_evidence db"
  by (simp_all add: write_audit_def write_event_def next_id_def)

text \<open>The rows a seal adds: the lockbox, its three shares and its receipt.\<close>

definition seal_writes :: "LockboxRow \<Rightarrow> LockboxKeyShareRow list \<Rightarrow> LockboxReceiptRow \<Rightarrow> LockboxStore \<Rightarrow> LockboxStore \<Rightarrow> bool" where
  "seal_writes row ks rc db db' \<longleftrightarrow>
     lk_lockboxes db' = lk_lockboxes db @ [row] \<and> lk_shares db' = lk_shares db @ ks \<and> lk_receipts db' = lk_receipts db @ [rc] \<and>
     lk_evidence db' = lk_evidence db \<and>
     (\<forall>x \<in> set (lk_lockboxes db). lb_id x \<noteq> lb_id row) \<and> lb_status row = Lbx_SEALED \<and>
     (\<forall>k \<in> set ks. ks_lockboxId k = lb_id row \<and> ks_wrapped k \<noteq> None) \<and>
     map ks_holderRole ks = [Shr_SEALER, Shr_OPERATOR, Shr_ESCROW] \<and>
     (\<forall>x \<in> set (lk_shares db). ks_lockboxId x \<noteq> lb_id row) \<and> lr_lockboxId rc = lb_id row"

lemma seal_effect:
  assumes "lockbox_seal nc k hmac cfg env actor inp ctx db = Inr (row, db')"
  shows "\<exists>keks key sealed ids receiptId.
    loadRoleKeks cfg = Inr keks \<and> loadReceiptHmacKey cfg = Inr key \<and>
    sealPayload nc k (serializePayload (sl_payload inp)) keks (Some (lockboxAad (lb_id row))) = Inr sealed \<and>
    row = sealed_row env actor (lb_id row) inp sealed \<and> length ids = 3 \<and>
    seal_writes row (map2 (share_row (lb_id row)) (shares sealed) ids)
      \<lparr>lr_id = receiptId, lr_lockboxId = lb_id row, lr_version = 1, lr_ciphertextHash = ciphertextHash sealed,
       lr_sealerOrgId = the (organizationId actor), lr_sealedAt = clock env,
       lr_signature = signReceipt hmac (receipt_payload env actor (lb_id row) sealed) key,
       lr_algorithm = ''HMAC-SHA256''\<rparr> db db'"
proof -
  let ?i = "uuid env (bs_ids db)"
  let ?db = "db\<lparr>bs_ids := Suc (bs_ids db)\<rparr>"
  obtain keks key sealed db1 db2 db3 receiptId where steps: "loadRoleKeks cfg = Inr keks" "loadReceiptHmacKey cfg = Inr key"
      "sealPayload nc k (serializePayload (sl_payload inp)) keks (Some (lockboxAad ?i)) = Inr sealed"
      "lockbox_createSealed (sealed_row env actor ?i inp sealed) ?db = Inr db1"
      "keyShare_createMany env (map (share_row ?i) (shares sealed)) db1 = Inr db2"
      "receipt_insert \<lparr>lr_id = receiptId, lr_lockboxId = ?i, lr_version = 1, lr_ciphertextHash = ciphertextHash sealed,
         lr_sealerOrgId = the (organizationId actor), lr_sealedAt = clock env,
         lr_signature = signReceipt hmac (receipt_payload env actor ?i sealed) key,
         lr_algorithm = ''HMAC-SHA256''\<rparr> (db2\<lparr>bs_ids := Suc (bs_ids db2)\<rparr>) = Inr db3"
      "lk_lockboxes db' = lk_lockboxes db3" "lk_shares db' = lk_shares db3" "lk_receipts db' = lk_receipts db3"
      "lk_evidence db' = lk_evidence db3" "row = sealed_row env actor ?i inp sealed"
    using assms by (auto simp: lockbox_seal_def ebind_eq_Inr next_id_def Let_def)
  have db1: "db1 = ?db\<lparr>lk_lockboxes := lk_lockboxes db @ [row]\<rparr>" and row: "lb_id row = ?i"
    and new: "\<forall>x \<in> set (lk_lockboxes db). lb_id x \<noteq> ?i"
    using steps(4,11) by (auto simp: lockbox_createSealed_def ebind_eq_Inr insert_row_ok sealed_row_def)
  obtain n ids where ids: "length ids = length (shares sealed)"
      "db2 = db1\<lparr>bs_ids := n, lk_shares := lk_shares db1 @ map2 (\<lambda>mk i. mk i) (map (share_row ?i) (shares sealed)) ids\<rparr>"
      "\<forall>x \<in> set (lk_shares db1). \<forall>y \<in> set (map2 (\<lambda>mk i. mk i) (map (share_row ?i) (shares sealed)) ids).
        \<not> (ks_lockboxId x = ks_lockboxId y \<and> ks_holderRole x = ks_holderRole y)"
    using createMany_ok [OF steps(5)] by auto
  let ?ks = "map2 (share_row ?i) (shares sealed) ids"
  have ks: "map2 (\<lambda>mk i. mk i) (map (share_row ?i) (shares sealed)) ids = ?ks"
    by (simp add: zip_map1 case_prod_unfold comp_def)
  obtain s1 s2 s3 a b c where three: "shares sealed = [s1, s2, s3]" "ids = [a, b, c]"
    using seal_roles [OF steps(3)] ids(1) by (auto simp: map_eq_Cons_conv length_Suc_conv)
  have roles: "share_role s1 = Shr_SEALER" "share_role s2 = Shr_OPERATOR" "share_role s3 = Shr_ESCROW"
    using seal_roles [OF steps(3)] three by simp_all
  have "ks_lockboxId x \<noteq> ?i" if "x \<in> set (lk_shares db)" for x
  proof -
    have "\<forall>y \<in> set ?ks. \<not> (ks_lockboxId x = ks_lockboxId y \<and> ks_holderRole x = ks_holderRole y)"
      using ids(3) that unfolding ks db1 by simp
    then show ?thesis
      by (cases "ks_holderRole x") (simp_all add: three share_row_def roles)
  qed
  then have "seal_writes row ?ks \<lparr>lr_id = receiptId, lr_lockboxId = ?i, lr_version = 1, lr_ciphertextHash = ciphertextHash sealed,
       lr_sealerOrgId = the (organizationId actor), lr_sealedAt = clock env,
       lr_signature = signReceipt hmac (receipt_payload env actor ?i sealed) key, lr_algorithm = ''HMAC-SHA256''\<rparr> db db'"
    using steps(6-11) new ids(2) unfolding seal_writes_def ks db1 row
    by (auto simp: receipt_insert_def ebind_eq_Inr insert_row_ok three share_row_def roles sealed_row_def)
  moreover have "length ids = 3"
    using three(2) by simp
  ultimately show ?thesis
    using steps(1-3,11) unfolding row by blast
qed

section \<open>Withdrawing\<close>

definition withdrawn_row :: "Env \<Rightarrow> Actor \<Rightarrow> string option \<Rightarrow> LockboxRow \<Rightarrow> LockboxRow" where
  "withdrawn_row env actor reason r =
     r\<lparr>lb_status := Lbx_WITHDRAWN, lb_withdrawnAt := Some (clock env), lb_withdrawnByUserId := Some (userId actor),
       lb_withdrawReason := reason, lb_updatedByUserId := Some (userId actor), lb_version := lb_version r + 1\<rparr>"

definition destroyed_share :: "string \<Rightarrow> Env \<Rightarrow> string \<Rightarrow> LockboxKeyShareRow \<Rightarrow> LockboxKeyShareRow" where
  "destroyed_share i env why s =
     (if ks_lockboxId s = i \<and> ks_wrapped s \<noteq> None
      then s\<lparr>ks_wrapped := None, ks_destroyedAt := Some (clock env), ks_destroyedReason := Some why\<rparr> else s)"

lemma destroyAll_eq:
  "keyShare_destroyAll i (clock env) why db =
     (length (filter (\<lambda>s. ks_lockboxId s = i \<and> ks_wrapped s \<noteq> None) (lk_shares db)),
      db\<lparr>lk_shares := map (destroyed_share i env why) (lk_shares db)\<rparr>)"
  by (simp add: keyShare_destroyAll_def destroyed_share_def [abs_def])

lemma withdraw_effect:
  assumes "withdraw env actor i reason ctx snap db = Inr (updated, db')"
  shows "\<exists>seen old why. lockbox_findById snap i = Some seen \<and> lockbox_findById db i = Some old \<and>
    allowed (can actor A_lockbox_withdraw \<lparr>rtype = R_lockbox, rid = None, ownerOrgId = Some (lb_sealerOrgId seen),
      privacyClass = None\<rparr> no_context) \<and>
    canWithdrawFrom (lb_status old) \<and> updated = withdrawn_row env actor reason old \<and>
    lk_lockboxes db' = set_by lb_id i (withdrawn_row env actor reason) (lk_lockboxes db) \<and>
    lk_shares db' = map (destroyed_share i env why) (lk_shares db) \<and>
    length (filter (\<lambda>s. ks_lockboxId s = i \<and> ks_wrapped s \<noteq> None) (lk_shares db)) = 3 \<and>
    lk_receipts db' = lk_receipts db \<and> lk_evidence db' = lk_evidence db"
proof -
  obtain seen old db1 where steps: "lockbox_findById snap i = Some seen" "lockbox_findById db i = Some old"
      "allowed (can actor A_lockbox_withdraw \<lparr>rtype = R_lockbox, rid = None, ownerOrgId = Some (lb_sealerOrgId seen),
        privacyClass = None\<rparr> no_context)" "canWithdrawFrom (lb_status old)"
      "lockbox_withdraw i (clock env) (userId actor) reason db = Inr (updated, db1)"
      "length (filter (\<lambda>s. ks_lockboxId s = i \<and> ks_wrapped s \<noteq> None) (lk_shares db1)) = 3"
      "lk_lockboxes db' = lk_lockboxes db1" "lk_receipts db' = lk_receipts db1" "lk_evidence db' = lk_evidence db1"
      "lk_shares db' = map (destroyed_share i env (destroyReason actor)) (lk_shares db1)"
    using assms
    by (clarsimp simp: withdraw_def withdrawReason_check_def ebind_eq_Inr authorize_ok destroyAll_eq Let_def)
  from steps(5) have "updated = withdrawn_row env actor reason old"
      "db1 = db\<lparr>lk_lockboxes := set_by lb_id i (withdrawn_row env actor reason) (lk_lockboxes db)\<rparr>"
    using steps(2)
    by (auto simp: lockbox_withdraw_def ebind_eq_Inr update_by_ok lockbox_findById_def withdrawn_row_def [abs_def])
  then show ?thesis
    using steps by auto
qed

section \<open>Releasing\<close>

definition opened_row :: "Env \<Rightarrow> Actor \<Rightarrow> ReleaseLockboxRequest \<Rightarrow> int \<Rightarrow> LockboxRow \<Rightarrow> LockboxRow" where
  "opened_row env actor inp n r =
     r\<lparr>lb_status := Lbx_OPENED, lb_releasedAt := Some (clock env), lb_recipientOrgId := Some (rl_recipientOrgId inp),
       lb_conditionRef := Some (rl_conditionRef inp), lb_updatedByUserId := Some (userId actor),
       lb_version := lb_version r + n\<rparr>"

lemma hop_ok:
  "lockbox_updateStatus i s by db = Inr (r, db') \<longleftrightarrow>
   (\<exists>x. find_by lb_id i (lk_lockboxes db) = Some x \<and>
      r = x\<lparr>lb_status := s, lb_updatedByUserId := by, lb_version := lb_version x + 1\<rparr> \<and>
      db' = db\<lparr>lk_lockboxes := set_by lb_id i
        (\<lambda>x. x\<lparr>lb_status := s, lb_updatedByUserId := by, lb_version := lb_version x + 1\<rparr>) (lk_lockboxes db)\<rparr>)"
  by (auto simp: lockbox_updateStatus_def ebind_eq_Inr update_by_ok)

lemma mark_ok:
  "lockbox_markOpened i (clock env) (rl_recipientOrgId inp) (rl_conditionRef inp) (userId actor) db = Inr (r, db') \<longleftrightarrow>
   (\<exists>x. find_by lb_id i (lk_lockboxes db) = Some x \<and> r = opened_row env actor inp 1 x \<and>
      db' = db\<lparr>lk_lockboxes := set_by lb_id i (opened_row env actor inp 1) (lk_lockboxes db)\<rparr>)"
  by (auto simp: lockbox_markOpened_def ebind_eq_Inr update_by_ok opened_row_def [abs_def])

lemma hops_from:
  "hops_after Lbx_SEALED = [Lbx_COMMITTED, Lbx_FROZEN]" "hops_after Lbx_COMMITTED = [Lbx_FROZEN]" "hops_after Lbx_FROZEN = []"
  by (simp_all add: hops_after_def LOCKBOX_RELEASE_CASCADE_def)

text \<open>The hops and the last write together: one update of the row.\<close>

lemma cascade_effect:
  assumes "releaseHops i actor s (hops_after s) db = Inr (c, db1)" and "s \<in> {Lbx_SEALED, Lbx_COMMITTED, Lbx_FROZEN}"
    and "lockbox_markOpened i (clock env) (rl_recipientOrgId inp) (rl_conditionRef inp) (userId actor) db1 = Inr (r, db2)"
  shows "\<exists>n. db2 = db\<lparr>lk_lockboxes := set_by lb_id i (opened_row env actor inp n) (lk_lockboxes db)\<rparr> \<and>
    (\<exists>x. lockbox_findById db i = Some x \<and> r = opened_row env actor inp n x)"
proof -
  have same: "opened_row env actor inp k (x\<lparr>lb_status := s, lb_updatedByUserId := u, lb_version := lb_version x + 1\<rparr>) =
      opened_row env actor inp (k + 1) x" "opened_row env actor inp k (x\<lparr>lb_status := s, lb_updatedByUserId := u,
      lb_version := m + lb_version x\<rparr>) = opened_row env actor inp (k + m) x" for k m s u x
    by (simp_all add: opened_row_def)
  consider "s = Lbx_SEALED" | "s = Lbx_COMMITTED" | "s = Lbx_FROZEN"
    using assms(2) by blast
  then show ?thesis
  proof cases
    case 1
    then show ?thesis
      using assms(1,3) by (auto simp: hops_from ebind_eq_Inr hop_ok mark_ok set_by_twice find_by_set_by same lockbox_findById_def
          intro!: exI [of _ 3])
  next
    case 2
    then show ?thesis
      using assms(1,3) by (auto simp: hops_from ebind_eq_Inr hop_ok mark_ok set_by_twice find_by_set_by same lockbox_findById_def
          intro!: exI [of _ 2])
  next
    case 3
    then show ?thesis
      using assms(1,3) by (auto simp: hops_from mark_ok lockbox_findById_def)
  qed
qed

lemma release_effect:
  assumes "release nc cfg env actor i inp ctx snap db = Inr (res, db')"
  shows "\<exists>seen old keks n. lockbox_findById snap i = Some seen \<and> lockbox_findById db i = Some old \<and>
    allowed (can actor A_lockbox_release \<lparr>rtype = R_lockbox, rid = None, ownerOrgId = Some (lb_sealerOrgId seen),
      privacyClass = None\<rparr> no_context) \<and> rl_recipientOrgId inp \<in> set (lk_organizations snap) \<and>
    lb_status old \<in> {Lbx_SEALED, Lbx_COMMITTED, Lbx_FROZEN} \<and> loadRoleKeks cfg = Inr keks \<and>
    openEnvelope nc keks old db = Inr (rs_disclosedPayload res) \<and>
    lk_lockboxes db' = set_by lb_id i (opened_row env actor inp n) (lk_lockboxes db) \<and>
    rs_lockbox res = opened_row env actor inp n old \<and>
    lk_shares db' = lk_shares db \<and> lk_receipts db' = lk_receipts db \<and>
    lk_evidence db' = lk_evidence db @ [rs_releaseEvidence res] \<and>
    le_lockboxId (rs_releaseEvidence res) = i \<and> le_recipientOrgId (rs_releaseEvidence res) = rl_recipientOrgId inp \<and>
    le_authorizedByUserId (rs_releaseEvidence res) = userId actor \<and>
    le_ciphertextHash (rs_releaseEvidence res) = lb_ciphertextHash old"
proof -
  obtain seen old keks c db1 db2 db3 ev where steps: "lockbox_findById snap i = Some seen" "lockbox_findById db i = Some old"
      "allowed (can actor A_lockbox_release \<lparr>rtype = R_lockbox, rid = None, ownerOrgId = Some (lb_sealerOrgId seen),
        privacyClass = None\<rparr> no_context)" "rl_recipientOrgId inp \<in> set (lk_organizations snap)"
      "assertValidLockboxReleaseCascade (lb_status old) = Inr ()" "loadRoleKeks cfg = Inr keks"
      "openEnvelope nc keks old db = Inr (rs_disclosedPayload res)"
      "releaseHops i actor (lb_status old) (hops_after (lb_status old)) db = Inr (c, db1)"
      "lockbox_markOpened i (clock env) (rl_recipientOrgId inp) (rl_conditionRef inp) (userId actor) db1 = Inr (rs_lockbox res, db2)"
      "evidence_insert (rs_releaseEvidence res) (db2\<lparr>bs_ids := Suc (bs_ids db2)\<rparr>) = Inr db3"
      "le_lockboxId (rs_releaseEvidence res) = i" "le_recipientOrgId (rs_releaseEvidence res) = rl_recipientOrgId inp"
      "le_authorizedByUserId (rs_releaseEvidence res) = userId actor"
      "le_ciphertextHash (rs_releaseEvidence res) = lb_ciphertextHash old"
      "lk_lockboxes db' = lk_lockboxes db3" "lk_receipts db' = lk_receipts db3" "lk_evidence db' = lk_evidence db3"
      "lk_shares db' = lk_shares db3"
    using assms by (clarsimp simp: release_def ebind_eq_Inr authorize_ok Let_def next_id_def)
  have s: "lb_status old \<in> {Lbx_SEALED, Lbx_COMMITTED, Lbx_FROZEN}"
    using steps(5) release_cascade_accepts by blast
  show ?thesis
    using cascade_effect [OF steps(8) s steps(9)] steps s
    by (clarsimp simp: evidence_insert_def ebind_eq_Inr insert_row_ok) blast
qed

end
