(* ===== verification/Lockbox_Invariant.thy ===== *)
theory Lockbox_Invariant
  imports Lockbox_History
begin

text \<open>
  The lockbox service as a whole: the states its operations reach under every interleaving, the
  invariant that ties lockboxes, key shares, receipts and release evidence together, and what no
  later request can change.
\<close>

inductive lockbox_step :: "LockboxStore \<Rightarrow> LockboxStore \<Rightarrow> LockboxStore \<Rightarrow> bool" where
  seal: "lockbox_seal nc k hmac cfg env actor inp ctx db = Inr (row, db') \<Longrightarrow> lockbox_step snap db db'"
| withdraw: "withdraw env actor i reason ctx snap db = Inr (row, db') \<Longrightarrow> lockbox_step snap db db'"
| release: "release nc cfg env actor i inp ctx snap db = Inr (res, db') \<Longrightarrow> lockbox_step snap db db'"

definition lockbox_start :: "LockboxStore \<Rightarrow> bool" where
  "lockbox_start db \<longleftrightarrow> lk_lockboxes db = [] \<and> lk_shares db = [] \<and> lk_receipts db = [] \<and> lk_evidence db = []"

section \<open>How rows move\<close>

definition row_fixed :: "LockboxRow \<Rightarrow> string \<times> string \<times> byte list \<times> byte list \<times> byte list \<times> string \<times> int" where
  "row_fixed r = (lb_id r, lb_sealerOrgId r, lb_iv r, lb_ciphertext r, lb_authTag r, lb_ciphertextHash r, lb_sealedAt r)"

definition row_moves :: "LockboxRow \<Rightarrow> LockboxRow \<Rightarrow> bool" where
  "row_moves x y \<longleftrightarrow> row_fixed y = row_fixed x \<and> (lb_status x \<noteq> Lbx_SEALED \<longrightarrow> lb_status y = lb_status x)"

definition share_fixed :: "LockboxKeyShareRow \<Rightarrow> string \<times> string \<times> LockboxShareRole \<times> nat" where
  "share_fixed s = (ks_id s, ks_lockboxId s, ks_holderRole s, ks_shareIndex s)"

definition share_moves :: "LockboxKeyShareRow \<Rightarrow> LockboxKeyShareRow \<Rightarrow> bool" where
  "share_moves x y \<longleftrightarrow> share_fixed y = share_fixed x \<and> (ks_wrapped y = ks_wrapped x \<or> ks_wrapped y = None)"

definition lockbox_keeps :: "LockboxStore \<Rightarrow> LockboxStore \<Rightarrow> bool" where
  "lockbox_keeps db db' \<longleftrightarrow>
     (\<exists>new. grows row_moves new (lk_lockboxes db) (lk_lockboxes db')) \<and>
     (\<exists>new. grows share_moves new (lk_shares db) (lk_shares db')) \<and>
     (\<exists>new. lk_receipts db' = lk_receipts db @ new) \<and> (\<exists>new. lk_evidence db' = lk_evidence db @ new)"

section \<open>The invariant\<close>

definition shares_of :: "LockboxStore \<Rightarrow> string \<Rightarrow> LockboxKeyShareRow list" where
  "shares_of db i = filter (\<lambda>s. ks_lockboxId s = i) (lk_shares db)"

definition receipts_of :: "LockboxStore \<Rightarrow> string \<Rightarrow> LockboxReceiptRow list" where
  "receipts_of db i = filter (\<lambda>r. lr_lockboxId r = i) (lk_receipts db)"

definition evidence_of :: "LockboxStore \<Rightarrow> string \<Rightarrow> LockboxReleaseEvidenceRow list" where
  "evidence_of db i = filter (\<lambda>e. le_lockboxId e = i) (lk_evidence db)"

definition row_ok :: "LockboxStore \<Rightarrow> LockboxRow \<Rightarrow> bool" where
  "row_ok db r \<longleftrightarrow>
     lb_status r \<in> {Lbx_SEALED, Lbx_OPENED, Lbx_WITHDRAWN} \<and>
     map ks_holderRole (shares_of db (lb_id r)) = [Shr_SEALER, Shr_OPERATOR, Shr_ESCROW] \<and>
     (\<forall>s \<in> set (shares_of db (lb_id r)). ks_wrapped s = None \<longleftrightarrow> lb_status r = Lbx_WITHDRAWN) \<and>
     length (receipts_of db (lb_id r)) = 1 \<and>
     map (\<lambda>e. Some (le_recipientOrgId e)) (evidence_of db (lb_id r)) =
       (if lb_status r = Lbx_OPENED then [lb_recipientOrgId r] else [])"

definition lockbox_ok :: "LockboxStore \<Rightarrow> bool" where
  "lockbox_ok db \<longleftrightarrow> distinct (map lb_id (lk_lockboxes db)) \<and> (\<forall>r \<in> set (lk_lockboxes db). row_ok db r) \<and>
     (\<forall>s \<in> set (lk_shares db). ks_lockboxId s \<in> lb_id ` set (lk_lockboxes db)) \<and>
     (\<forall>c \<in> set (lk_receipts db). lr_lockboxId c \<in> lb_id ` set (lk_lockboxes db)) \<and>
     (\<forall>e \<in> set (lk_evidence db). le_lockboxId e \<in> lb_id ` set (lk_lockboxes db))"

lemmas rows_of = shares_of_def receipts_of_def evidence_of_def

lemma row_ok_cong:
  assumes "shares_of db' (lb_id r) = shares_of db (lb_id r)" and "receipts_of db' (lb_id r) = receipts_of db (lb_id r)"
    and "evidence_of db' (lb_id r) = evidence_of db (lb_id r)"
  shows "row_ok db' r \<longleftrightarrow> row_ok db r"
  unfolding row_ok_def assms by (rule refl)

lemma seal_tables:
  assumes "seal_writes row ks rc db db'"
  shows "shares_of db' i = shares_of db i @ (if i = lb_id row then ks else [])"
    "receipts_of db' i = receipts_of db i @ (if i = lb_id row then [rc] else [])"
    "evidence_of db' i = evidence_of db i"
  using assms by (auto simp: seal_writes_def rows_of filter_id_conv filter_empty_conv)

lemma ok_refs:
  assumes "lockbox_ok db"
  shows "ks_lockboxId ` set (lk_shares db) \<subseteq> lb_id ` set (lk_lockboxes db)"
    "lr_lockboxId ` set (lk_receipts db) \<subseteq> lb_id ` set (lk_lockboxes db)"
    "le_lockboxId ` set (lk_evidence db) \<subseteq> lb_id ` set (lk_lockboxes db)"
  using assms unfolding lockbox_ok_def image_subset_iff by simp_all

lemma lockbox_okI:
  assumes "distinct (map lb_id (lk_lockboxes db))" and "\<And>r. r \<in> set (lk_lockboxes db) \<Longrightarrow> row_ok db r"
    and "ks_lockboxId ` set (lk_shares db) \<subseteq> lb_id ` set (lk_lockboxes db)"
    and "lr_lockboxId ` set (lk_receipts db) \<subseteq> lb_id ` set (lk_lockboxes db)"
    and "le_lockboxId ` set (lk_evidence db) \<subseteq> lb_id ` set (lk_lockboxes db)"
  shows "lockbox_ok db"
  using assms unfolding lockbox_ok_def image_subset_iff by simp

lemma seal_keeps_ok:
  assumes ok: "lockbox_ok db" and w: "seal_writes row ks rc db db'"
  shows "lockbox_ok db'"
proof -
  have rows: "lk_lockboxes db' = lk_lockboxes db @ [row]" "lk_shares db' = lk_shares db @ ks"
      "lk_receipts db' = lk_receipts db @ [rc]" "lk_evidence db' = lk_evidence db"
    and new: "lb_id row \<notin> lb_id ` set (lk_lockboxes db)" "ks_lockboxId ` set ks \<subseteq> {lb_id row}" "lr_lockboxId rc = lb_id row"
    using w unfolding seal_writes_def by fastforce+
  have none: "shares_of db (lb_id row) = []" "receipts_of db (lb_id row) = []" "evidence_of db (lb_id row) = []"
    using ok_refs [OF ok] new(1) unfolding rows_of filter_empty_conv image_subset_iff by metis+
  have "row_ok db' row"
    using w unfolding row_ok_def seal_tables [OF w] none by (simp add: seal_writes_def)
  moreover have "row_ok db' r" if "r \<in> set (lk_lockboxes db)" for r
  proof -
    have "lb_id r \<noteq> lb_id row" "row_ok db r"
      using that new(1) ok by (metis image_eqI) (use that ok in \<open>simp add: lockbox_ok_def\<close>)
    then show ?thesis
      using row_ok_cong [of db' r db] by (simp add: seal_tables [OF w])
  qed
  moreover have "distinct (map lb_id (lk_lockboxes db))"
    using ok by (simp add: lockbox_ok_def)
  ultimately show ?thesis
    using ok_refs [OF ok] new by (intro lockbox_okI) (auto simp: rows)
qed

lemma seal_keeps: "seal_writes row ks rc db db' \<Longrightarrow> lockbox_keeps db db'"
  unfolding lockbox_keeps_def seal_writes_def by (auto intro!: exI grows_append simp: row_moves_def share_moves_def)

text \<open>A request that updates one lockbox: the invariant has to be shown for its new row only.\<close>

lemma update_ok:
  assumes ok: "lockbox_ok db" and found: "lockbox_findById db i = Some old"
    and rows: "lk_lockboxes db' = set_by lb_id i f (lk_lockboxes db)" and key: "\<And>x. lb_id (f x) = lb_id x"
    and new: "row_ok db' (f old)"
    and other: "\<And>j. j \<noteq> i \<Longrightarrow> shares_of db' j = shares_of db j \<and> receipts_of db' j = receipts_of db j \<and> evidence_of db' j = evidence_of db j"
    and refs: "ks_lockboxId ` set (lk_shares db') \<subseteq> insert i (ks_lockboxId ` set (lk_shares db))"
      "lr_lockboxId ` set (lk_receipts db') \<subseteq> insert i (lr_lockboxId ` set (lk_receipts db))"
      "le_lockboxId ` set (lk_evidence db') \<subseteq> insert i (le_lockboxId ` set (lk_evidence db))"
  shows "lockbox_ok db'"
proof -
  have d: "distinct (map lb_id (lk_lockboxes db))" and all: "\<forall>r \<in> set (lk_lockboxes db). row_ok db r"
    using ok by (simp_all add: lockbox_ok_def)
  have f: "find_by lb_id i (lk_lockboxes db) = Some old"
    using found by (simp add: lockbox_findById_def)
  have keys: "map lb_id (lk_lockboxes db') = map lb_id (lk_lockboxes db)"
    unfolding rows by (rule map_set_by) (rule key)
  then have ids: "lb_id ` set (lk_lockboxes db') = lb_id ` set (lk_lockboxes db)"
    by (metis list.set_map)
  have i: "i \<in> lb_id ` set (lk_lockboxes db)"
    using find_by_SomeD [OF f] by blast
  have "row_ok db' y" if y: "y \<in> set (lk_lockboxes db')" for y
    using set_by_row [OF d f y [unfolded rows]]
  proof
    assume "y \<in> set (lk_lockboxes db) \<and> lb_id y \<noteq> i"
    then show ?thesis
      using row_ok_cong [of db' y db] other [of "lb_id y"] all by simp
  qed (use new in simp)
  moreover have "ks_lockboxId ` set (lk_shares db') \<subseteq> lb_id ` set (lk_lockboxes db)"
      "lr_lockboxId ` set (lk_receipts db') \<subseteq> lb_id ` set (lk_lockboxes db)"
      "le_lockboxId ` set (lk_evidence db') \<subseteq> lb_id ` set (lk_lockboxes db)"
    using order_trans [OF refs(1)] order_trans [OF refs(2)] order_trans [OF refs(3)] i ok_refs [OF ok] by simp_all
  ultimately show ?thesis
    using d unfolding keys [symmetric] ids [symmetric] by (intro lockbox_okI)
qed

lemma found_row:
  assumes "lockbox_ok db" and "lockbox_findById db i = Some old"
  shows "old \<in> set (lk_lockboxes db)" "lb_id old = i" "row_ok db old"
  using assms find_by_SomeD [of lb_id i "lk_lockboxes db" old] by (auto simp: lockbox_ok_def lockbox_findById_def)

lemma update_grows:
  assumes "lockbox_ok db" and "lockbox_findById db i = Some old" and "row_moves old (f old)"
  shows "grows row_moves [] (lk_lockboxes db) (set_by lb_id i f (lk_lockboxes db))"
  using assms by (intro set_by_grows) (auto simp: lockbox_ok_def lockbox_findById_def row_moves_def)

lemma destroyed_simps [simp]:
  "ks_lockboxId (destroyed_share i env why s) = ks_lockboxId s" "ks_holderRole (destroyed_share i env why s) = ks_holderRole s"
  "share_fixed (destroyed_share i env why s) = share_fixed s"
  "ks_lockboxId s = i \<Longrightarrow> ks_wrapped (destroyed_share i env why s) = None"
  "ks_lockboxId s \<noteq> i \<Longrightarrow> destroyed_share i env why s = s"
  by (simp_all add: destroyed_share_def share_fixed_def)

lemma withdraw_keeps_ok:
  assumes ok: "lockbox_ok db" and w: "withdraw env actor i reason ctx snap db = Inr (updated, db')"
  shows "lockbox_ok db' \<and> lockbox_keeps db db'"
proof -
  obtain old why where e: "lockbox_findById db i = Some old" "canWithdrawFrom (lb_status old)"
      "lk_lockboxes db' = set_by lb_id i (withdrawn_row env actor reason) (lk_lockboxes db)"
      "lk_shares db' = map (destroyed_share i env why) (lk_shares db)"
      "lk_receipts db' = lk_receipts db" "lk_evidence db' = lk_evidence db"
    using withdraw_effect [OF w] by blast
  note old = found_row [OF ok e(1)]
  have sealed: "lb_status old = Lbx_SEALED"
    using old(3) e(2) by (auto simp: row_ok_def canWithdrawFrom_def)
  have shares: "shares_of db' j = map (destroyed_share i env why) (shares_of db j)" for j
    unfolding shares_of_def e(4) filter_map comp_def destroyed_simps by (rule refl)
  have same: "receipts_of db' j = receipts_of db j" "evidence_of db' j = evidence_of db j" for j
    by (simp_all add: rows_of e(5,6))
  have "row_ok db' (withdrawn_row env actor reason old)"
    using old(2,3) sealed unfolding row_ok_def shares same
    by (auto simp: withdrawn_row_def shares_of_def comp_def)
  moreover have "shares_of db' j = shares_of db j" if "j \<noteq> i" for j
    unfolding shares by (rule map_idI) (use that in \<open>auto simp: shares_of_def\<close>)
  ultimately have "lockbox_ok db'"
    using same by (intro update_ok [OF ok e(1,3)]) (auto simp: withdrawn_row_def e(4-6))
  moreover have "row_moves old (withdrawn_row env actor reason old)"
    using sealed by (simp add: row_moves_def row_fixed_def withdrawn_row_def)
  then have "grows row_moves [] (lk_lockboxes db) (lk_lockboxes db')"
    unfolding e(3) by (rule update_grows [OF ok e(1)])
  moreover have "grows share_moves [] (lk_shares db) (lk_shares db')"
    unfolding e(4) grows_def by (auto simp: list_all2_map2 share_moves_def destroyed_share_def share_fixed_def intro!: list.rel_refl)
  ultimately show ?thesis
    unfolding lockbox_keeps_def e(5,6) by (auto intro: exI [of _ "[]"])
qed

lemma release_keeps_ok:
  assumes ok: "lockbox_ok db" and w: "release nc cfg env actor i inp ctx snap db = Inr (res, db')"
  shows "lockbox_ok db' \<and> lockbox_keeps db db'"
proof -
  obtain old n where e: "lockbox_findById db i = Some old" "lb_status old \<in> {Lbx_SEALED, Lbx_COMMITTED, Lbx_FROZEN}"
      "lk_lockboxes db' = set_by lb_id i (opened_row env actor inp n) (lk_lockboxes db)"
      "lk_shares db' = lk_shares db" "lk_receipts db' = lk_receipts db"
      "lk_evidence db' = lk_evidence db @ [rs_releaseEvidence res]"
      "le_lockboxId (rs_releaseEvidence res) = i" "le_recipientOrgId (rs_releaseEvidence res) = rl_recipientOrgId inp"
    using release_effect [OF w] by blast
  note old = found_row [OF ok e(1)]
  have sealed: "lb_status old = Lbx_SEALED"
    using old(3) e(2) by (auto simp: row_ok_def)
  have same: "shares_of db' j = shares_of db j" "receipts_of db' j = receipts_of db j"
      "evidence_of db' j = evidence_of db j @ (if j = i then [rs_releaseEvidence res] else [])" for j
    by (simp_all add: rows_of e(4-7))
  have "row_ok db' (opened_row env actor inp n old)"
    using old(2,3) sealed unfolding row_ok_def same by (simp add: opened_row_def e(8))
  then have "lockbox_ok db'"
    using same by (intro update_ok [OF ok e(1,3)]) (auto simp: opened_row_def e(4-7))
  moreover have "row_moves old (opened_row env actor inp n old)"
    using sealed by (simp add: row_moves_def row_fixed_def opened_row_def)
  then have "grows row_moves [] (lk_lockboxes db) (lk_lockboxes db')"
    unfolding e(3) by (rule update_grows [OF ok e(1)])
  moreover have "grows share_moves [] (lk_shares db) (lk_shares db')"
    unfolding e(4) by (rule grows_same) (simp add: share_moves_def)
  ultimately show ?thesis
    unfolding lockbox_keeps_def e(5,6) by blast
qed

section \<open>Histories\<close>

lemma lockbox_step_keeps:
  assumes "lockbox_step snap db db'" and "lockbox_ok db"
  shows "lockbox_ok db' \<and> lockbox_keeps db db'"
  using assms
proof cases
  case (seal nc k hmac cfg env actor inp ctx row)
  then show ?thesis
    using seal_effect [OF seal] seal_keeps_ok [OF assms(2)] seal_keeps by blast
next
  case withdraw
  then show ?thesis
    using withdraw_keeps_ok [OF assms(2)] by blast
next
  case release
  then show ?thesis
    using release_keeps_ok [OF assms(2)] by blast
qed

lemma row_moves_trans: "row_moves x y \<Longrightarrow> row_moves y z \<Longrightarrow> row_moves x z"
  by (auto simp: row_moves_def)

lemma share_moves_trans: "share_moves x y \<Longrightarrow> share_moves y z \<Longrightarrow> share_moves x z"
  by (auto simp: share_moves_def)

lemma lockbox_keeps_trans:
  assumes ab: "lockbox_keeps a b" and bc: "lockbox_keeps b c"
  shows "lockbox_keeps a c"
  unfolding lockbox_keeps_def
proof (intro conjI)
  show "\<exists>new. grows row_moves new (lk_lockboxes a) (lk_lockboxes c)"
    using ab bc grows_trans row_moves_trans unfolding lockbox_keeps_def by meson
  show "\<exists>new. grows share_moves new (lk_shares a) (lk_shares c)"
    using ab bc grows_trans share_moves_trans unfolding lockbox_keeps_def by meson
  show "\<exists>new. lk_receipts c = lk_receipts a @ new" "\<exists>new. lk_evidence c = lk_evidence a @ new"
    using ab bc unfolding lockbox_keeps_def by force+
qed

interpretation lockbox: request_history lockbox_step lockbox_start True lockbox_ok lockbox_keeps
proof unfold_locales
  show "lockbox_keeps db db" for db
    by (auto simp: lockbox_keeps_def row_moves_def share_moves_def intro!: exI grows_same)
  show "lockbox_keeps a c" if "lockbox_keeps a b" "lockbox_keeps b c" for a b c
    using that by (rule lockbox_keeps_trans)
qed (use lockbox_step_keeps in \<open>auto simp: lockbox_start_def lockbox_ok_def\<close>)

end
