(* ===== verification/Lockbox_Guarantees.thy ===== *)
theory Lockbox_Guarantees
  imports Lockbox_Invariant
begin

text \<open>
  What the lockbox service promises over whole histories: a sealed payload is disclosed exactly, a
  withdrawn one never, a lockbox is released at most once and only by the two operating roles, and
  the receipt of a seal stays available and verifies.
\<close>

context request_history
begin

text \<open>The newest state of a history keeps what any of its states had.\<close>

lemma newest_keeps:
  assumes "request_run step start overlap (newer @ db # earlier)" and "old \<in> set (db # earlier)"
  shows "keeps old (hd (newer @ [db]))" "inv (hd (newer @ [db]))" "inv old"
proof -
  have h: "\<forall>x \<in> set (newer @ db # earlier). inv x"
      "sorted_wrt (\<lambda>later earlier. keeps earlier later) (newer @ db # earlier)"
    using history [OF assms(1)] by blast+
  then show "inv old" "inv (hd (newer @ [db]))"
    using assms(2) by (cases newer; auto)+
  show "keeps old (hd (newer @ [db]))"
    using h(2) assms(2) keeps_refl by (cases newer) (auto simp: sorted_wrt_append)
qed

lemma newest_keeps_newer:
  assumes "request_run step start overlap (newer @ db # earlier)" and "snap \<in> set (newer @ [db])"
  shows "keeps snap (hd (newer @ [db]))" "keeps db snap" "inv snap"
proof -
  have h: "\<forall>x \<in> set (newer @ db # earlier). inv x"
      "sorted_wrt (\<lambda>later earlier. keeps earlier later) (newer @ db # earlier)"
    using history [OF assms(1)] by blast+
  then show "inv snap"
    using assms(2) by auto
  show "keeps db snap" "keeps snap (hd (newer @ [db]))"
    using h(2) assms(2) keeps_refl by (cases newer; auto simp: sorted_wrt_append)+
qed

end

section \<open>A lockbox and its shares in later states\<close>

lemma list_all2_filter:
  assumes "list_all2 R as bs" and "\<And>x y. R x y \<Longrightarrow> P x \<longleftrightarrow> Q y"
  shows "list_all2 R (filter P as) (filter Q bs)"
  using assms by (induction rule: list_all2_induct) auto

lemma row_later:
  assumes "lockbox_keeps db db'" and "lockbox_ok db'" and "r \<in> set (lk_lockboxes db)"
  obtains r' where "lockbox_findById db' (lb_id r) = Some r'" "row_moves r r'"
proof -
  obtain new where "grows row_moves new (lk_lockboxes db) (lk_lockboxes db')"
    using assms(1) by (auto simp: lockbox_keeps_def)
  then obtain r' where r': "r' \<in> set (lk_lockboxes db')" "row_moves r r'"
    using grows_kept assms(3) by metis
  moreover have "lb_id r' = lb_id r"
    using r'(2) by (simp add: row_moves_def row_fixed_def)
  moreover have "distinct (map lb_id (lk_lockboxes db'))"
    using assms(2) by (simp add: lockbox_ok_def)
  ultimately show thesis
    using that find_by_unique unfolding lockbox_findById_def by metis
qed

lemma shares_later:
  assumes keeps: "lockbox_keeps db db'" and ok: "lockbox_ok db" "lockbox_ok db'" and r: "r \<in> set (lk_lockboxes db)"
  shows "list_all2 share_moves (shares_of db (lb_id r)) (shares_of db' (lb_id r))"
proof -
  obtain new where "grows share_moves new (lk_shares db) (lk_shares db')"
    using keeps by (auto simp: lockbox_keeps_def)
  then obtain old where old: "lk_shares db' = old @ new" "list_all2 share_moves (lk_shares db) old"
    by (auto simp: grows_def)
  have l: "list_all2 share_moves (shares_of db (lb_id r)) (filter (\<lambda>s. ks_lockboxId s = lb_id r) old)"
    unfolding shares_of_def by (rule list_all2_filter [OF old(2)]) (auto simp: share_moves_def share_fixed_def)
  obtain r' where r': "lockbox_findById db' (lb_id r) = Some r'" "row_moves r r'"
    using row_later [OF keeps ok(2) r] .
  have "row_ok db r" "row_ok db' r'" "lb_id r' = lb_id r"
    using ok(1) r found_row [OF ok(2) r'(1)] by (auto simp: lockbox_ok_def)
  then have "length (shares_of db (lb_id r)) = 3" "length (shares_of db' (lb_id r)) = 3"
    unfolding row_ok_def by (metis length_map length_Cons list.size(3) numeral_3_eq_3)+
  then have "filter (\<lambda>s. ks_lockboxId s = lb_id r) new = []"
    using list_all2_lengthD [OF l] by (simp add: shares_of_def old(1))
  then show ?thesis
    using l by (simp add: shares_of_def old(1))
qed

text \<open>As long as the lockbox is not withdrawn its shares are the ones it was sealed with.\<close>

lemma shares_kept:
  assumes keeps: "lockbox_keeps db db'" and ok: "lockbox_ok db" "lockbox_ok db'" and r: "r \<in> set (lk_lockboxes db)"
    and live: "lockbox_findById db' (lb_id r) = Some r'" "lb_status r' \<noteq> Lbx_WITHDRAWN"
  shows "map as_wrapped (shares_of db' (lb_id r)) = map as_wrapped (shares_of db (lb_id r))"
    "\<forall>s \<in> set (shares_of db' (lb_id r)). ks_wrapped s \<noteq> None"
proof -
  have "row_ok db' r'" "lb_id r' = lb_id r"
    using found_row [OF ok(2) live(1)] by simp_all
  then show w: "\<forall>s \<in> set (shares_of db' (lb_id r)). ks_wrapped s \<noteq> None"
    using live(2) by (simp add: row_ok_def)
  have same: "as_wrapped y = as_wrapped x" if "share_moves x y" "ks_wrapped y \<noteq> None" for x y
    using that by (auto simp: share_moves_def share_fixed_def as_wrapped_def)
  have "map as_wrapped bs = map as_wrapped as" if "list_all2 share_moves as bs" "\<forall>s \<in> set bs. ks_wrapped s \<noteq> None" for as bs
    using that by (induction rule: list_all2_induct) (auto simp: same)
  then show "map as_wrapped (shares_of db' (lb_id r)) = map as_wrapped (shares_of db (lb_id r))"
    using shares_later [OF keeps ok r] w by blast
qed

section \<open>Opening what was sealed\<close>

lemma parsed_key_length: "parseKeyHex h l = Inr key \<Longrightarrow> length key = 32"
  using parseKeyHex_exact [where hex = h and label = l] by auto

lemma loaded_keks_ok: "loadRoleKeks cfg = Inr keks \<Longrightarrow> keks_ok keks"
  by (auto simp: loadRoleKeks_def ebind_eq_Inr keks_ok_def dest: parsed_key_length)

lemma stored_shares: "length ss = length ids \<Longrightarrow> map as_wrapped (map2 (share_row i) ss ids) = ss"
  by (induction ss ids rule: list_induct2) (simp_all add: as_wrapped_def share_row_def)

lemma sealed_store:
  assumes "lockbox_seal nc k hmac cfg env actor inp ctx db = Inr (row, db1)" and "lockbox_ok db"
  obtains keks sealed where "loadRoleKeks cfg = Inr keks"
    "sealPayload nc k (serializePayload (sl_payload inp)) keks (Some (lockboxAad (lb_id row))) = Inr sealed"
    "row = sealed_row env actor (lb_id row) inp sealed" "row \<in> set (lk_lockboxes db1)" "lockbox_ok db1"
    "map as_wrapped (shares_of db1 (lb_id row)) = shares sealed"
proof -
  obtain keks sealed ids rc where e: "loadRoleKeks cfg = Inr keks"
      "sealPayload nc k (serializePayload (sl_payload inp)) keks (Some (lockboxAad (lb_id row))) = Inr sealed"
      "row = sealed_row env actor (lb_id row) inp sealed" "length ids = 3"
    and w: "seal_writes row (map2 (share_row (lb_id row)) (shares sealed) ids) rc db db1"
    using seal_effect [OF assms(1)] by blast
  have "shares_of db (lb_id row) = []"
    using w unfolding seal_writes_def shares_of_def filter_empty_conv by blast
  then have "shares_of db1 (lb_id row) = map2 (share_row (lb_id row)) (shares sealed) ids"
    using seal_tables(1) [OF w, of "lb_id row"] by simp
  moreover have "length (shares sealed) = length ids"
    using seal_roles [OF e(2)] e(4) by (metis length_map length_Cons list.size(3) numeral_3_eq_3)
  then have "map as_wrapped (map2 (share_row (lb_id row)) (shares sealed) ids) = shares sealed"
    by (rule stored_shares)
  moreover have "row \<in> set (lk_lockboxes db1)"
    using w unfolding seal_writes_def by simp
  ultimately show thesis
    using that e seal_keeps_ok [OF assms(2) w] by metis
qed

lemma open_sealed:
  assumes nc: "gcm_correct nc" "random_sized nc" and payload: "payload_valid (sl_payload inp)" "units_ok (sl_payload inp)"
    and seal: "lockbox_seal nc k hmac cfg env actor inp ctx db = Inr (row, db1)" and ok: "lockbox_ok db" "lockbox_ok db2"
    and keeps: "lockbox_keeps db1 db2"
    and live: "lockbox_findById db2 (lb_id row) = Some r" "lb_status r \<noteq> Lbx_WITHDRAWN" and keks: "loadRoleKeks cfg = Inr keks"
  shows "openEnvelope nc keks r db2 = Inr (sl_payload inp)"
proof -
  obtain sealed where e:
      "sealPayload nc k (serializePayload (sl_payload inp)) keks (Some (lockboxAad (lb_id row))) = Inr sealed"
      "row = sealed_row env actor (lb_id row) inp sealed" "row \<in> set (lk_lockboxes db1)" "lockbox_ok db1"
      "map as_wrapped (shares_of db1 (lb_id row)) = shares sealed"
    using sealed_store [OF seal ok(1)] keks by (metis sum.inject(2))
  have sealed: "sealed_as nc keks (serializePayload (sl_payload inp)) (Some (lockboxAad (lb_id row))) sealed"
    using sealPayload_ok [OF nc loaded_keks_ok [OF keks], of k] e(1) by (metis sum.inject(2))
  note kept = shares_kept [OF keeps e(4) ok(2) e(3) live, unfolded e(5)]
  let ?active = "keyShare_findActive db2 (lb_id row) RELEASE_AUTHORIZING_ROLES"
  have "?active = filter (\<lambda>s. ks_holderRole s \<in> set RELEASE_AUTHORIZING_ROLES) (shares_of db2 (lb_id row))"
    using kept(2) unfolding keyShare_findActive_def shares_of_def filter_filter by (intro filter_cong) auto
  then have "map as_wrapped ?active = filter (\<lambda>w. share_role w \<in> set RELEASE_AUTHORIZING_ROLES) (shares sealed)"
    unfolding kept(1) [symmetric] filter_map by (simp add: comp_def as_wrapped_def)
  moreover obtain s1 s2 s3 where three: "shares sealed = [s1, s2, s3]" "share_role s1 = Shr_SEALER"
      "share_role s2 = Shr_OPERATOR" "share_role s3 = Shr_ESCROW"
    using seal_roles [OF e(1)] by (auto simp: map_eq_Cons_conv)
  ultimately have active: "map as_wrapped ?active = [s2, s3]"
    by (simp add: RELEASE_AUTHORIZING_ROLES_def)
  then have len: "length ?active = 2"
    by (metis length_map length_Cons list.size(3) numeral_2_eq_2)
  obtain r' where "lockbox_findById db2 (lb_id row) = Some r'" "row_moves row r'"
    using row_later [OF keeps ok(2) e(3)] .
  then have "row_fixed r = row_fixed row"
    using live(1) by (simp add: row_moves_def)
  then have fixed: "lb_id r = lb_id row"
      "\<lparr>iv = lb_iv r, ciphertext = lb_ciphertext r, authTag = lb_authTag r\<rparr> = payload_part sealed"
    using e(2) by (auto simp: row_fixed_def payload_part_def sealed_row_def) (metis LockboxRow.select_convs(7,8,9))+
  have "releasePayload nc (payload_part sealed) [s2, s3] keks (Some (lockboxAad (lb_id row))) =
      Inr (serializePayload (sl_payload inp))"
    by (rule release_sealed [OF sealed]) (simp_all add: three)
  then show ?thesis
    unfolding openEnvelope_def Let_def fixed active using len payload_roundtrip [OF payload] by (simp add: throw_if_def)
qed

lemma cascade_runs:
  fixes env :: Env and inp :: ReleaseLockboxRequest and actor :: Actor
  assumes "lockbox_findById db i = Some r"
  obtains db1 x db2 where "releaseHops i actor Lbx_SEALED (hops_after Lbx_SEALED) db = Inr (Lbx_FROZEN, db1)"
    "lockbox_markOpened i (clock env) (rl_recipientOrgId inp) (rl_conditionRef inp) (userId actor) db1 = Inr (x, db2)"
    "lk_evidence db2 = lk_evidence db" "bs_ids db2 = bs_ids db"
proof -
  define f :: "LockboxStatus \<Rightarrow> LockboxRow \<Rightarrow> LockboxRow" where
    "f = (\<lambda>s x. x\<lparr>lb_status := s, lb_updatedByUserId := Some (userId actor), lb_version := lb_version x + 1\<rparr>)"
  have key: "lb_id (f s x) = lb_id x" for s x
    by (simp add: f_def)
  have hop: "lockbox_updateStatus i s (Some (userId actor)) d =
      Inr (f s x, d\<lparr>lk_lockboxes := set_by lb_id i (f s) (lk_lockboxes d)\<rparr>)"
    if "find_by lb_id i (lk_lockboxes d) = Some x" for d s x
    using that by (auto simp: hop_ok f_def)
  let ?db = "db\<lparr>lk_lockboxes := set_by lb_id i (f Lbx_FROZEN) (set_by lb_id i (f Lbx_COMMITTED) (lk_lockboxes db))\<rparr>"
  have r: "find_by lb_id i (lk_lockboxes db) = Some r"
      "find_by lb_id i (set_by lb_id i (f Lbx_COMMITTED) (lk_lockboxes db)) = Some (f Lbx_COMMITTED r)"
      "find_by lb_id i (lk_lockboxes ?db) = Some (f Lbx_FROZEN (f Lbx_COMMITTED r))"
    using assms by (simp_all add: lockbox_findById_def find_by_set_by key)
  show thesis
  proof (rule that)
    show "releaseHops i actor Lbx_SEALED (hops_after Lbx_SEALED) db = Inr (Lbx_FROZEN, ?db)"
      using hop [of db r Lbx_COMMITTED] r hop [of "db\<lparr>lk_lockboxes := set_by lb_id i (f Lbx_COMMITTED) (lk_lockboxes db)\<rparr>"]
      by (simp add: hops_from cascade_edges)
    show "lockbox_markOpened i (clock env) (rl_recipientOrgId inp) (rl_conditionRef inp) (userId actor) ?db =
        Inr (opened_row env actor inp 1 (f Lbx_FROZEN (f Lbx_COMMITTED r)),
          ?db\<lparr>lk_lockboxes := set_by lb_id i (opened_row env actor inp 1) (lk_lockboxes ?db)\<rparr>)"
      using r(3) by (auto simp: mark_ok)
  qed simp_all
qed

lemma release_succeeds:
  assumes "lockbox_findById snap i = Some seen" and "lb_status seen = Lbx_SEALED"
    and "allowed (can actor A_lockbox_release \<lparr>rtype = R_lockbox, rid = None, ownerOrgId = Some (lb_sealerOrgId seen),
      privacyClass = None\<rparr> no_context)"
    and "rl_recipientOrgId inp \<in> set (lk_organizations snap)" and "loadRoleKeks cfg = Inr keks"
    and "lockbox_findById db i = Some r" and "lb_status r = Lbx_SEALED" and "openEnvelope nc keks r db = Inr payload"
    and "uuid env (bs_ids db) \<notin> le_id ` set (lk_evidence db)"
  shows "\<exists>res db'. release nc cfg env actor i inp ctx snap db = Inr (res, db')"
proof -
  obtain db1 x db2 where c: "releaseHops i actor Lbx_SEALED (hops_after Lbx_SEALED) db = Inr (Lbx_FROZEN, db1)"
      "lockbox_markOpened i (clock env) (rl_recipientOrgId inp) (rl_conditionRef inp) (userId actor) db1 = Inr (x, db2)"
      "lk_evidence db2 = lk_evidence db" "bs_ids db2 = bs_ids db"
    using cascade_runs [OF assms(6)] .
  have ins: "evidence_insert ev (db2\<lparr>bs_ids := n\<rparr>) = Inr (db2\<lparr>bs_ids := n, lk_evidence := lk_evidence db @ [ev]\<rparr>)"
    if "le_id ev = uuid env (bs_ids db)" for ev n
  proof -
    have "\<not> (\<exists>x \<in> set (lk_evidence db). le_id x = le_id ev)"
      using that assms(9) by (metis image_eqI)
    then show ?thesis
      using c(3) by (simp add: evidence_insert_def insert_row_def)
  qed
  have cascade: "assertValidLockboxReleaseCascade Lbx_SEALED = Inr ()"
    by (simp add: release_cascade_accepts)
  have auth: "authorize actor A_lockbox_release R_lockbox (Some (lb_sealerOrgId seen)) no_context = (Inr () :: lockbox_failure + unit)"
    using assms(3) by (simp add: authorize_ok)
  show ?thesis
    using assms(1,2,4-8) c auth cascade cascade_edges(3)
    by (simp add: release_def next_id_def Let_def ins throw_if_def)
qed

section \<open>Guarantees\<close>

text \<open>C16. In every state of every history the lockboxes are sealed, opened or withdrawn and nothing in
  between, each has one key share per custodian role, whose bytes are there exactly until it is withdrawn,
  one receipt, and one release record exactly when it is opened, for the recipient it names.\<close>

theorem lockbox_tables_consistent:
  assumes "request_run lockbox_step lockbox_start True hist" and "db \<in> set hist" and "r \<in> set (lk_lockboxes db)"
  shows "lb_status r \<in> {Lbx_SEALED, Lbx_OPENED, Lbx_WITHDRAWN} \<and>
    map ks_holderRole (shares_of db (lb_id r)) = [Shr_SEALER, Shr_OPERATOR, Shr_ESCROW] \<and>
    (\<forall>s \<in> set (shares_of db (lb_id r)). ks_wrapped s = None \<longleftrightarrow> lb_status r = Lbx_WITHDRAWN) \<and>
    length (receipts_of db (lb_id r)) = 1 \<and>
    map (\<lambda>e. Some (le_recipientOrgId e)) (evidence_of db (lb_id r)) =
      (if lb_status r = Lbx_OPENED then [lb_recipientOrgId r] else [])"
  using lockbox.run_inv [OF assms(1,2)] assms(3) unfolding lockbox_ok_def row_ok_def by blast

text \<open>C13. What was sealed is what is released. After a seal, in every later state and whatever state the
  release had read before, a release with the same keys that succeeds discloses exactly the sealed
  payload; and it does succeed for an authorized caller and a known recipient as long as the lockbox is sealed,
  provided the release record gets a fresh identifier. The hypotheses on the primitives are that
  decryption inverts encryption and that the random generator returns the bytes asked for.\<close>

theorem sealed_payload_released:
  assumes nc: "gcm_correct nc" "random_sized nc" and payload: "payload_valid (sl_payload inp)" "units_ok (sl_payload inp)"
    and run: "request_run lockbox_step lockbox_start True (newer @ db1 # db # earlier)"
    and seal: "lockbox_seal nc k hmac cfg env actor inp ctx db = Inr (row, db1)"
  shows "(\<forall>env' actor' req ctx' snap res db'.
      release nc cfg env' actor' (lb_id row) req ctx' snap (hd (newer @ [db1])) = Inr (res, db') \<longrightarrow>
      rs_disclosedPayload res = sl_payload inp) \<and>
    (\<forall>env' actor' req ctx' snap r.
      lockbox_findById (hd (newer @ [db1])) (lb_id row) = Some r \<longrightarrow> lb_status r = Lbx_SEALED \<longrightarrow>
      snap \<in> set (newer @ [db1]) \<longrightarrow> rl_recipientOrgId req \<in> set (lk_organizations snap) \<longrightarrow>
      allowed (can actor' A_lockbox_release \<lparr>rtype = R_lockbox, rid = None, ownerOrgId = Some (lb_sealerOrgId row),
        privacyClass = None\<rparr> no_context) \<longrightarrow>
      uuid env' (bs_ids (hd (newer @ [db1]))) \<notin> le_id ` set (lk_evidence (hd (newer @ [db1]))) \<longrightarrow>
      (\<exists>res db'. release nc cfg env' actor' (lb_id row) req ctx' snap (hd (newer @ [db1])) = Inr (res, db')))"
proof -
  let ?new = "hd (newer @ [db1])"
  have ok: "lockbox_ok db" "lockbox_ok ?new" and keeps: "lockbox_keeps db1 ?new"
    using lockbox.newest_keeps [OF run, of db1] lockbox.run_inv [OF run, of db] by simp_all
  obtain keks where keks: "loadRoleKeks cfg = Inr keks" and row: "row \<in> set (lk_lockboxes db1)"
    using sealed_store [OF seal ok(1)] by metis
  note opens = open_sealed [OF nc payload seal ok keeps _ _ keks]
  have "rs_disclosedPayload res = sl_payload inp"
    if rel: "release nc cfg env' actor' (lb_id row) req ctx' snap ?new = Inr (res, db')" for env' actor' req ctx' snap res db'
  proof -
    obtain old where "lockbox_findById ?new (lb_id row) = Some old" "lb_status old \<in> {Lbx_SEALED, Lbx_COMMITTED, Lbx_FROZEN}"
        "openEnvelope nc keks old ?new = Inr (rs_disclosedPayload res)"
      using release_effect [OF rel] keks by (metis sum.inject(2))
    then show ?thesis
      using opens [of old] by auto
  qed
  moreover have "\<exists>res db'. release nc cfg env' actor' (lb_id row) req ctx' snap ?new = Inr (res, db')"
    if r: "lockbox_findById ?new (lb_id row) = Some r" "lb_status r = Lbx_SEALED" and snap: "snap \<in> set (newer @ [db1])"
      and org: "rl_recipientOrgId req \<in> set (lk_organizations snap)"
      and auth: "allowed (can actor' A_lockbox_release \<lparr>rtype = R_lockbox, rid = None, ownerOrgId = Some (lb_sealerOrgId row),
        privacyClass = None\<rparr> no_context)"
      and fresh: "uuid env' (bs_ids ?new) \<notin> le_id ` set (lk_evidence ?new)" for env' actor' req ctx' snap r
  proof -
    note s = lockbox.newest_keeps_newer [OF run snap]
    obtain seen where seen: "lockbox_findById snap (lb_id row) = Some seen" "row_moves row seen"
      using row_later [OF s(2,3) row] .
    obtain r' where "lockbox_findById ?new (lb_id seen) = Some r'" "row_moves seen r'"
      using row_later [OF s(1) ok(2) found_row(1) [OF s(3) seen(1)]] .
    then have "lb_status seen = Lbx_SEALED" "lb_sealerOrgId seen = lb_sealerOrgId row"
      using seen(2) r by (auto simp: row_moves_def row_fixed_def)
    then show ?thesis
      using release_succeeds [OF seen(1) _ _ org keks r opens [OF r(1)] fresh] auth r(2) by simp
  qed
  ultimately show ?thesis
    by blast
qed

lemma release_refused:
  assumes "lockbox_findById db i = Some r" and "lb_status r \<in> {Lbx_WITHDRAWN, Lbx_OPENED}"
  shows "release nc cfg env actor i req ctx snap db \<noteq> Inr (res, db')"
  using release_effect [of nc cfg env actor i req ctx snap db res db'] assms by force

lemma withdraw_refused:
  assumes "lockbox_findById db i = Some r" and "lb_status r \<in> {Lbx_WITHDRAWN, Lbx_OPENED}"
  shows "withdraw env actor i reason ctx snap db \<noteq> Inr (row, db')"
  using withdraw_effect [of env actor i reason ctx snap db row db'] assms by (force simp: canWithdrawFrom_def)

text \<open>A lockbox whose status is final keeps it.\<close>

lemma final_status:
  assumes run: "request_run lockbox_step lockbox_start True (newer @ db1 # earlier)"
    and row: "r \<in> set (lk_lockboxes db1)" "lb_status r \<noteq> Lbx_SEALED"
  obtains r' where "lockbox_findById (hd (newer @ [db1])) (lb_id r) = Some r'" "lb_status r' = lb_status r"
    "row_ok (hd (newer @ [db1])) r'" "lb_id r' = lb_id r"
proof -
  have k: "lockbox_keeps db1 (hd (newer @ [db1]))" "lockbox_ok (hd (newer @ [db1]))"
    using lockbox.newest_keeps [OF run, of db1] by simp_all
  obtain r' where r': "lockbox_findById (hd (newer @ [db1])) (lb_id r) = Some r'" "row_moves r r'"
    using row_later [OF k row(1)] .
  then show thesis
    using that row(2) found_row [OF k(2) r'(1)] by (auto simp: row_moves_def)
qed

text \<open>C14. Withdrawal is final and destroys the keys. Once a withdrawal has committed, in every later state and
  under every interleaving (the release may have read the lockbox while it was sealed) no release of that
  lockbox succeeds, whoever asks and with whatever keys, and no share of it holds any bytes. The
  withdrawal was asked for by the organization that had sealed it.\<close>

theorem withdrawn_never_released:
  assumes run: "request_run lockbox_step lockbox_start True (newer @ db1 # db # earlier)"
    and snap: "snap \<in> set (db # earlier)" and w: "withdraw env actor i reason ctx snap db = Inr (row, db1)"
  shows "(\<forall>nc cfg env' actor' req ctx' snap' res db'.
      release nc cfg env' actor' i req ctx' snap' (hd (newer @ [db1])) \<noteq> Inr (res, db')) \<and>
    (\<forall>s \<in> set (lk_shares (hd (newer @ [db1]))). ks_lockboxId s = i \<longrightarrow> ks_wrapped s = None) \<and>
    organizationId actor = Some (lb_sealerOrgId row)"
proof -
  have run': "request_run lockbox_step lockbox_start True (db # earlier)"
    using run by (induction newer) (auto elim: request_run.cases)
  have k: "lockbox_keeps snap db" "lockbox_ok db" "lockbox_ok snap"
    using lockbox.newest_keeps [of "[]" db earlier snap] run' snap by simp_all
  obtain seen old where e: "lockbox_findById snap i = Some seen" "lockbox_findById db i = Some old"
      "allowed (can actor A_lockbox_withdraw \<lparr>rtype = R_lockbox, rid = None, ownerOrgId = Some (lb_sealerOrgId seen),
        privacyClass = None\<rparr> no_context)" "row = withdrawn_row env actor reason old"
      "lk_lockboxes db1 = set_by lb_id i (withdrawn_row env actor reason) (lk_lockboxes db)"
    using withdraw_effect [OF w] by blast
  note seen = found_row [OF k(3) e(1)] and old = found_row [OF k(2) e(2)]
  obtain old' where "lockbox_findById db (lb_id seen) = Some old'" "row_moves seen old'"
    using row_later [OF k(1,2) seen(1)] .
  then have "lb_sealerOrgId row = lb_sealerOrgId seen"
    using e(2,4) seen(2) by (simp add: row_moves_def row_fixed_def withdrawn_row_def)
  moreover have "organizationId actor = Some (lb_sealerOrgId seen)"
    using e(3) by (rule can_allow_cases) (use withdraw_not_cross_org in auto)
  moreover have "row \<in> set (lk_lockboxes db1)" "lb_id row = i" "lb_status row = Lbx_WITHDRAWN"
    using old e(4,5) by (auto simp: set_set_by withdrawn_row_def)
  then obtain r where r: "lockbox_findById (hd (newer @ [db1])) i = Some r" "lb_status r = Lbx_WITHDRAWN"
      "row_ok (hd (newer @ [db1])) r" "lb_id r = i"
    using final_status [OF run, of row] by auto
  moreover have "ks_wrapped s = None" if "s \<in> set (lk_shares (hd (newer @ [db1])))" "ks_lockboxId s = i" for s
    using r(2-4) that unfolding row_ok_def shares_of_def by auto
  ultimately show ?thesis
    using release_refused [OF r(1)] by auto
qed

lemma release_grants: "A_lockbox_release \<in> set (allowedActions (AUTHORITY_MATRIX r)) \<longleftrightarrow> r \<in> {PLATFORM_OWNER, MARKETPLACE_OPERATOR}"
  by (cases r; simp add: grant_defs)

text \<open>C15. A lockbox is opened once. Only a platform owner or marketplace operator releases; after the release no later
  request withdraws the lockbox or releases it again, and in every later state the one release record of the lockbox is the
  one this release wrote, naming its recipient and the user who authorized it.\<close>

theorem lockbox_released_once:
  assumes run: "request_run lockbox_step lockbox_start True (newer @ db1 # db # earlier)"
    and rel: "release nc cfg env actor i inp ctx snap db = Inr (res, db1)"
  shows "role actor \<in> {Some PLATFORM_OWNER, Some MARKETPLACE_OPERATOR} \<and>
    evidence_of (hd (newer @ [db1])) i = [rs_releaseEvidence res] \<and>
    le_recipientOrgId (rs_releaseEvidence res) = rl_recipientOrgId inp \<and>
    le_authorizedByUserId (rs_releaseEvidence res) = userId actor \<and>
    (\<forall>nc' cfg' env' actor' req ctx' snap' res' db'.
      release nc' cfg' env' actor' i req ctx' snap' (hd (newer @ [db1])) \<noteq> Inr (res', db')) \<and>
    (\<forall>env' actor' reason ctx' snap' row db'.
      withdraw env' actor' i reason ctx' snap' (hd (newer @ [db1])) \<noteq> Inr (row, db'))"
proof -
  obtain seen :: LockboxRow and old n where e: "lockbox_findById db i = Some old"
      "allowed (can actor A_lockbox_release \<lparr>rtype = R_lockbox, rid = None, ownerOrgId = Some (lb_sealerOrgId seen),
        privacyClass = None\<rparr> no_context)"
      "lk_lockboxes db1 = set_by lb_id i (opened_row env actor inp n) (lk_lockboxes db)"
      "lk_evidence db1 = lk_evidence db @ [rs_releaseEvidence res]" "le_lockboxId (rs_releaseEvidence res) = i"
      "le_recipientOrgId (rs_releaseEvidence res) = rl_recipientOrgId inp"
      "le_authorizedByUserId (rs_releaseEvidence res) = userId actor"
    using release_effect [OF rel] by blast
  have ok: "lockbox_ok db" "lockbox_keeps db1 (hd (newer @ [db1]))"
    using lockbox.run_inv [OF run, of db] lockbox.newest_keeps [OF run, of db1] by simp_all
  note old = found_row [OF ok(1) e(1)]
  have "role actor \<in> {Some PLATFORM_OWNER, Some MARKETPLACE_OPERATOR}"
    using e(2) by (rule can_allow_cases) (use release_grants in auto)
  moreover have "opened_row env actor inp n old \<in> set (lk_lockboxes db1)"
    using old e(3) by (auto simp: set_set_by)
  then obtain r where r: "lockbox_findById (hd (newer @ [db1])) i = Some r" "lb_status r = Lbx_OPENED"
      "row_ok (hd (newer @ [db1])) r" "lb_id r = i"
    using final_status [OF run, of "opened_row env actor inp n old"] old(2) by (auto simp: opened_row_def)
  moreover have "evidence_of (hd (newer @ [db1])) i = [rs_releaseEvidence res]"
  proof -
    obtain new where "lk_evidence (hd (newer @ [db1])) = lk_evidence db1 @ new"
      using ok(2) by (auto simp: lockbox_keeps_def)
    then have "rs_releaseEvidence res \<in> set (evidence_of (hd (newer @ [db1])) i)"
      using e(4,5) by (simp add: evidence_of_def)
    moreover have "length (evidence_of (hd (newer @ [db1])) i) = 1"
      using r(2-4) unfolding row_ok_def by (metis length_map length_Cons list.size(3) One_nat_def)
    ultimately show ?thesis
      by (auto simp: length_Suc_conv)
  qed
  ultimately show ?thesis
    using release_refused [OF r(1)] withdraw_refused [OF r(1)] e(6,7) by auto
qed

lemma sealed_hash: "sealPayload nc k pt keks aad = Inr sealed \<Longrightarrow> ciphertextHash sealed = sha256_hex nc (env_ciphertext sealed)"
  by (auto simp: sealPayload_def ebind_eq_Inr Let_def splitSecret_eq LOCKBOX_SHARE_THRESHOLD_def LOCKBOX_SHARE_TOTAL_def
      generateKey_def split: sum.splits if_splits)

text \<open>The receipt of a seal is permanent and verifies. After a seal, in every later state an authorized reader gets the
  receipt issued then: it names the digest of the stored ciphertext and the sealing organization, and its signature
  verifies under the receipt key for exactly these data and the time of sealing.\<close>

theorem sealed_receipt_verifies:
  assumes hmac: "hmac_hex_digest hmac"
    and run: "request_run lockbox_step lockbox_start True (newer @ db1 # db # earlier)"
    and seal: "lockbox_seal nc k hmac cfg env actor inp ctx db = Inr (row, db1)"
    and auth: "allowed (can reader A_lockbox_read_receipt \<lparr>rtype = R_lockbox, rid = None,
      ownerOrgId = Some (lb_sealerOrgId row), privacyClass = None\<rparr> no_context)"
  shows "\<exists>rc key. getReceipt reader (lb_id row) (hd (newer @ [db1])) = Inr rc \<and> loadReceiptHmacKey cfg = Inr key \<and>
    lr_ciphertextHash rc = sha256_hex nc (lb_ciphertext row) \<and> Some (lr_sealerOrgId rc) = organizationId actor \<and>
    verifyReceipt hmac \<lparr>receipt_lockboxId = lb_id row, receipt_ciphertextHash = lr_ciphertextHash rc,
      receipt_sealerOrgId = lr_sealerOrgId rc, receipt_sealedAt = toISOString env (lr_sealedAt rc),
      receipt_state = ''SEALED''\<rparr> (lr_signature rc) key"
proof -
  let ?new = "hd (newer @ [db1])"
  have ok: "lockbox_ok db" "lockbox_ok ?new" and keeps: "lockbox_keeps db1 ?new"
    using lockbox.run_inv [OF run, of db] lockbox.newest_keeps [OF run, of db1] by simp_all
  obtain keks key sealed ids receiptId where e: "loadReceiptHmacKey cfg = Inr key"
      "sealPayload nc k (serializePayload (sl_payload inp)) keks (Some (lockboxAad (lb_id row))) = Inr sealed"
      "row = sealed_row env actor (lb_id row) inp sealed"
      "seal_writes row (map2 (share_row (lb_id row)) (shares sealed) ids)
        \<lparr>lr_id = receiptId, lr_lockboxId = lb_id row, lr_version = 1, lr_ciphertextHash = ciphertextHash sealed,
         lr_sealerOrgId = the (organizationId actor), lr_sealedAt = clock env,
         lr_signature = signReceipt hmac (receipt_payload env actor (lb_id row) sealed) key,
         lr_algorithm = ''HMAC-SHA256''\<rparr> db db1" (is "seal_writes _ _ ?rc _ _")
    using seal_effect [OF seal] by blast
  have row: "row \<in> set (lk_lockboxes db1)" "?rc \<in> set (lk_receipts db1)"
    using e(4) unfolding seal_writes_def by simp_all
  obtain r where r: "lockbox_findById ?new (lb_id row) = Some r" "row_moves row r"
    using row_later [OF keeps ok(2) row(1)] .
  have "?rc \<in> set (receipts_of ?new (lb_id row))"
    using keeps row(2) by (auto simp: lockbox_keeps_def receipts_of_def)
  moreover have "length (receipts_of ?new (lb_id row)) = 1"
    using found_row [OF ok(2) r(1)] by (simp add: row_ok_def)
  ultimately have "receipts_of ?new (lb_id row) = [?rc]"
    by (auto simp: length_Suc_conv)
  then have "receipt_findLatest ?new (lb_id row) = Some ?rc"
    by (simp add: receipt_findLatest_def receipts_of_def)
  moreover have "lb_sealerOrgId r = lb_sealerOrgId row"
    using r(2) by (simp add: row_moves_def row_fixed_def)
  ultimately have "getReceipt reader (lb_id row) ?new = Inr ?rc"
    using r(1) auth by (simp add: getReceipt_def ebind_eq_Inr authorize_ok)
  moreover have "ciphertextHash sealed = sha256_hex nc (lb_ciphertext row)"
    using sealed_hash [OF e(2)] by (subst e(3)) (simp add: sealed_row_def)
  moreover have "organizationId actor \<noteq> None"
    using seal by (cases "organizationId actor") (simp_all add: lockbox_seal_def throw_if_def)
  moreover have "is_hex (signReceipt hmac p key)" "map to_lower (signReceipt hmac p key) = signReceipt hmac p key" for p
    using hmac hexOf_is_hex to_lower_hexOf unfolding hmac_hex_digest_def signReceipt_def by metis+
  ultimately show ?thesis
    using e(1) by (auto simp: verifyReceipt_iff [OF hmac] receipt_payload_def)
qed

section \<open>A concrete run\<close>

definition demo_config :: LockboxConfig where
  "demo_config = \<lparr>lockboxKekSealer = Some (replicate 64 (CHR ''1'')), lockboxKekOperator = Some (replicate 64 (CHR ''2'')),
     lockboxKekEscrow = Some (replicate 64 (CHR ''3'')), lockboxReceiptHmacKey = Some (replicate 64 (CHR ''4''))\<rparr>"

definition demo_env :: Env where
  "demo_env = \<lparr>uuid = (\<lambda>n. replicate (Suc n) (CHR ''x'')), clock = 1000, toISOString = (\<lambda>_. ''t'')\<rparr>"

definition demo_request :: SealLockboxRequest where
  "demo_request = \<lparr>sl_relationshipType = Rel_PSP_RELATIONSHIP, sl_region = Reg_EU, sl_metadataSummary = None,
     sl_payload = \<lparr>counterpartyPrivate = [0x41, 0x22, 0xE9], evidenceSummary = [0xD83D, 0xDE00], priorDealHistory = [0xD800]\<rparr>\<rparr>"

definition demo_release :: ReleaseLockboxRequest where
  "demo_release = \<lparr>rl_recipientOrgId = ''r'', rl_conditionRef = ''c''\<rparr>"

definition demo_context :: RequestContext where
  "demo_context = \<lparr>requestId = ''q'', correlationId = ''q'', ipClass = ''i'', userAgentClass = ''a''\<rparr>"

definition demo_start :: LockboxStore where
  "demo_start = \<lparr>bs_ids = 0, bs_audit = [], bs_timeline = [], lk_organizations = [''r''], lk_lockboxes = [], lk_shares = [],
     lk_receipts = [], lk_evidence = []\<rparr>"

definition demo_hmac :: "byte list \<Rightarrow> string \<Rightarrow> string" where
  "demo_hmac key m = hexOf (replicate 32 7)"

abbreviation merchant :: Actor where "merchant \<equiv> example_actor MERCHANT_PSP_USER ''m''"
abbreviation operator :: Actor where "operator \<equiv> example_actor MARKETPLACE_OPERATOR ''t''"

definition demo_sealed :: "lockbox_failure + LockboxRow \<times> LockboxStore" where
  "demo_sealed = lockbox_seal demo_crypto 0 demo_hmac demo_config demo_env merchant demo_request demo_context demo_start"

lemma demo_keys: "\<exists>keks key. loadRoleKeks demo_config = Inr keks \<and> loadReceiptHmacKey demo_config = Inr key"
proof -
  have k: "\<exists>key. parseKeyHex (Some (replicate 64 c)) l = Inr key" if c: "c \<in> {CHR ''1'', CHR ''2'', CHR ''3'', CHR ''4''}" for c l
  proof -
    have "\<not> js_whitespace c" "digit_value c \<noteq> None"
      using c by (auto simp: js_whitespace_def digit_value_def)
    then have "js_trim (replicate 64 c) = replicate 64 c" "is_hex (replicate 64 c)"
      by (auto intro!: js_trim_plain simp: is_hex_def list_all_iff)
    then show ?thesis
      by (simp add: parseKeyHex_def KEY_HEX_LENGTH_def)
  qed
  obtain a b c d where "parseKeyHex (Some (replicate 64 (CHR ''1''))) ''LOCKBOX_KEK_SEALER'' = Inr a"
      "parseKeyHex (Some (replicate 64 (CHR ''2''))) ''LOCKBOX_KEK_OPERATOR'' = Inr b"
      "parseKeyHex (Some (replicate 64 (CHR ''3''))) ''LOCKBOX_KEK_ESCROW'' = Inr c"
      "parseKeyHex (Some (replicate 64 (CHR ''4''))) ''LOCKBOX_RECEIPT_HMAC_KEY'' = Inr d"
    using k [of "CHR ''1''" "''LOCKBOX_KEK_SEALER''"] k [of "CHR ''2''" "''LOCKBOX_KEK_OPERATOR''"]
      k [of "CHR ''3''" "''LOCKBOX_KEK_ESCROW''"] k [of "CHR ''4''" "''LOCKBOX_RECEIPT_HMAC_KEY''"] by auto
  then show ?thesis
    by (simp add: loadRoleKeks_def loadReceiptHmacKey_def demo_config_def)
qed

lemma demo_allowed:
  "allowed (can merchant A_lockbox_seal \<lparr>rtype = R_lockbox, rid = None, ownerOrgId = Some ''m'', privacyClass = None\<rparr> no_context)"
  "allowed (can merchant A_lockbox_withdraw \<lparr>rtype = R_lockbox, rid = None, ownerOrgId = Some ''m'', privacyClass = None\<rparr> no_context)"
  "allowed (can merchant A_lockbox_read_receipt \<lparr>rtype = R_lockbox, rid = None, ownerOrgId = Some ''m'', privacyClass = None\<rparr> no_context)"
  "allowed (can operator A_lockbox_release \<lparr>rtype = R_lockbox, rid = None, ownerOrgId = Some ''m'', privacyClass = None\<rparr> no_context)"
  by (simp_all add: can_def example_actor_def grant_defs no_context_def)

lemma demo_sealed_ok: "\<exists>row db1. demo_sealed = Inr (row, db1) \<and> lb_sealerOrgId row = ''m'' \<and> lb_status row = Lbx_SEALED \<and>
  lk_organizations db1 = [''r''] \<and> lk_evidence db1 = []"
proof -
  obtain keks key where keys: "loadRoleKeks demo_config = Inr keks" "loadReceiptHmacKey demo_config = Inr key"
    using demo_keys by blast
  have id: "uuid demo_env 0 = ''x''" "uuid demo_env (Suc 0) = ''xx''" "uuid demo_env (Suc (Suc 0)) = ''xxx''"
      "uuid demo_env (Suc (Suc (Suc 0))) = ''xxxx''"
    by (simp_all add: demo_env_def)
  obtain sealed where sealed: "sealPayload demo_crypto 0 (serializePayload (sl_payload demo_request)) keks (Some (lockboxAad ''x'')) = Inr sealed"
    using sealPayload_ok [OF demo_crypto_ok(1,2) loaded_keks_ok [OF keys(1)]] by blast
  obtain s1 s2 s3 where three: "shares sealed = [s1, s2, s3]" "share_role s1 = Shr_SEALER"
      "share_role s2 = Shr_OPERATOR" "share_role s3 = Shr_ESCROW"
    using seal_roles [OF sealed] by (auto simp: map_eq_Cons_conv)
  have auth: "authorize merchant A_lockbox_seal R_lockbox (Some ''m'') no_context = (Inr () :: lockbox_failure + unit)"
    using demo_allowed(1) by (simp add: authorize_ok)
  have org: "organizationId merchant = Some ''m''"
    by (simp add: example_actor_def)
  show ?thesis
    unfolding demo_sealed_def lockbox_seal_def org
    using keys sealed three auth
    by (simp add: throw_if_def next_id_def demo_start_def id lockbox_createSealed_def insert_row_def receipt_insert_def
        share_row_def sealed_row_def write_audit_def write_event_def org Let_def)
qed

definition demo_row :: LockboxRow where
  "demo_row = fst (projr demo_sealed)"

definition demo_store :: LockboxStore where
  "demo_store = snd (projr demo_sealed)"

lemma demo_facts:
  "lockbox_seal demo_crypto 0 demo_hmac demo_config demo_env merchant demo_request demo_context demo_start =
     Inr (demo_row, demo_store)"
  "lb_sealerOrgId demo_row = ''m''" "lb_status demo_row = Lbx_SEALED" "lk_organizations demo_store = [''r'']"
  "lk_evidence demo_store = []"
proof -
  obtain row db1 where d: "demo_sealed = Inr (row, db1)" "lb_sealerOrgId row = ''m''" "lb_status row = Lbx_SEALED"
      "lk_organizations db1 = [''r'']" "lk_evidence db1 = []"
    using demo_sealed_ok by blast
  have "demo_row = row" "demo_store = db1"
    unfolding demo_row_def demo_store_def d(1) sum.sel by simp_all
  with d show "lockbox_seal demo_crypto 0 demo_hmac demo_config demo_env merchant demo_request demo_context demo_start =
      Inr (demo_row, demo_store)" "lb_sealerOrgId demo_row = ''m''" "lb_status demo_row = Lbx_SEALED"
      "lk_organizations demo_store = [''r'']" "lk_evidence demo_store = []"
    by (simp_all add: demo_sealed_def)
qed

lemma demo_run: "request_run lockbox_step lockbox_start True [demo_store, demo_start]"
proof (rule request_run.commit)
  show "request_run lockbox_step lockbox_start True [demo_start]"
    by (rule request_run.initial) (simp add: lockbox_start_def demo_start_def)
  show "lockbox_step demo_start demo_start demo_store"
    by (rule lockbox_step.seal [OF demo_facts(1)])
qed simp

lemma demo_payload: "payload_valid (sl_payload demo_request)" "units_ok (sl_payload demo_request)"
  by (simp_all add: payload_valid_def units_ok_def bounded_def demo_request_def)

lemma demo_found: "lockbox_ok demo_start" "lockbox_ok demo_store" "lockbox_findById demo_store (lb_id demo_row) = Some demo_row"
proof -
  show ok: "lockbox_ok demo_start" "lockbox_ok demo_store"
    using lockbox.run_inv [OF demo_run] by simp_all
  have "demo_row \<in> set (lk_lockboxes demo_store)"
    using sealed_store [OF demo_facts(1) ok(1)] by metis
  then show "lockbox_findById demo_store (lb_id demo_row) = Some demo_row"
    using ok(2) by (simp add: lockbox_findById_def find_by_unique lockbox_ok_def)
qed

definition demo_opened :: "lockbox_failure + ReleaseResult \<times> LockboxStore" where
  "demo_opened = release demo_crypto demo_config demo_env operator (lb_id demo_row) demo_release demo_context demo_store demo_store"

lemma demo_opened_ok: "\<exists>res db'. demo_opened = Inr (res, db')"
proof -
  obtain keks where keks: "loadRoleKeks demo_config = Inr keks"
    using demo_keys by blast
  have "openEnvelope demo_crypto keks demo_row demo_store = Inr (sl_payload demo_request)"
    using open_sealed [OF demo_crypto_ok(1,2) demo_payload demo_facts(1) demo_found(1,2) _ demo_found(3) _ keks]
      lockbox.keeps_refl demo_facts(3) by simp
  then show ?thesis
    unfolding demo_opened_def
    using release_succeeds [OF demo_found(3) demo_facts(3) _ _ keks demo_found(3) demo_facts(3)] demo_allowed(4) demo_facts
    by (simp add: demo_release_def)
qed

definition demo_withdrawn :: "lockbox_failure + LockboxRow \<times> LockboxStore" where
  "demo_withdrawn = withdraw demo_env merchant (lb_id demo_row) None demo_context demo_store demo_store"

lemma demo_withdrawn_ok: "\<exists>row db'. demo_withdrawn = Inr (row, db')"
proof -
  have row: "row_ok demo_store demo_row"
    by (rule found_row [OF demo_found(2,3)])
  then have "filter (\<lambda>s. ks_lockboxId s = lb_id demo_row \<and> ks_wrapped s \<noteq> None) (lk_shares demo_store) = shares_of demo_store (lb_id demo_row)"
    using demo_facts(3) unfolding row_ok_def shares_of_def by (intro filter_cong) auto
  moreover have "length (shares_of demo_store (lb_id demo_row)) = 3"
    using row unfolding row_ok_def by (metis length_map length_Cons list.size(3) numeral_3_eq_3)
  ultimately have n: "length (filter (\<lambda>s. ks_lockboxId s = lb_id demo_row \<and> ks_wrapped s \<noteq> None) (lk_shares demo_store)) = 3"
    by simp
  have auth: "authorize merchant A_lockbox_withdraw R_lockbox (Some ''m'') no_context = (Inr () :: lockbox_failure + unit)"
    using demo_allowed(2) by (simp add: authorize_ok)
  have "assertValidLockboxTransition ''SEALED'' ''WITHDRAWN'' = Inr ()" "canWithdrawFrom Lbx_SEALED"
    using canWithdrawFrom_guard [of Lbx_SEALED] by (simp_all add: canWithdrawFrom_def)
  then show ?thesis
    using demo_found(3) demo_facts(2,3) auth n
    by (simp add: demo_withdrawn_def withdraw_def withdrawReason_check_def throw_if_def lockbox_withdraw_def update_by_def
        lockbox_findById_def keyShare_destroyAll_def Let_def)
qed

theorem lockbox_tables_consistent_witness:
  "map ks_holderRole (shares_of demo_store (lb_id demo_row)) = [Shr_SEALER, Shr_OPERATOR, Shr_ESCROW]"
  using lockbox_tables_consistent [OF demo_run _ found_row(1) [OF demo_found(2,3)]] by simp

theorem sealed_payload_released_witness:
  "\<exists>res db'. release demo_crypto demo_config demo_env operator (lb_id demo_row) demo_release demo_context demo_store demo_store =
     Inr (res, db') \<and> rs_disclosedPayload res = sl_payload demo_request"
proof -
  obtain res db' where r: "release demo_crypto demo_config demo_env operator (lb_id demo_row) demo_release demo_context demo_store
      demo_store = Inr (res, db')"
    using demo_opened_ok unfolding demo_opened_def by blast
  moreover have "rs_disclosedPayload res = sl_payload demo_request"
    using sealed_payload_released [OF demo_crypto_ok(1,2) demo_payload, of "[]"] demo_run demo_facts(1) r by fastforce
  ultimately show ?thesis by blast
qed

theorem withdrawn_never_released_witness:
  "\<exists>row db'. demo_withdrawn = Inr (row, db') \<and>
     release demo_crypto demo_config demo_env operator (lb_id demo_row) demo_release demo_context demo_store db' \<noteq> demo_opened"
proof -
  obtain row db' where w: "demo_withdrawn = Inr (row, db')"
    using demo_withdrawn_ok by blast
  have "request_run lockbox_step lockbox_start True [db', demo_store, demo_start]"
    using request_run.commit [OF demo_run _ lockbox_step.withdraw [OF w [unfolded demo_withdrawn_def]]] by simp
  then have "\<forall>res db2. release demo_crypto demo_config demo_env operator (lb_id demo_row) demo_release demo_context demo_store db' \<noteq> Inr (res, db2)"
    using withdrawn_never_released [of "[]" db' demo_store "[demo_start]" demo_store] w by (simp add: demo_withdrawn_def)
  with w demo_opened_ok show ?thesis by metis
qed

theorem lockbox_released_once_witness:
  "\<exists>res db'. demo_opened = Inr (res, db') \<and> evidence_of db' (lb_id demo_row) = [rs_releaseEvidence res]"
proof -
  obtain res db' where w: "demo_opened = Inr (res, db')"
    using demo_opened_ok by blast
  have "request_run lockbox_step lockbox_start True [db', demo_store, demo_start]"
    using request_run.commit [OF demo_run _ lockbox_step.release [OF w [unfolded demo_opened_def]]] by simp
  then show ?thesis
    using lockbox_released_once [of "[]" db' demo_store "[demo_start]"] w by (auto simp: demo_opened_def)
qed

theorem sealed_receipt_verifies_witness:
  "\<exists>rc. getReceipt merchant (lb_id demo_row) demo_store = Inr rc \<and> lr_sealerOrgId rc = ''m''"
proof -
  have "hmac_hex_digest demo_hmac"
    unfolding hmac_hex_digest_def demo_hmac_def by (metis length_replicate)
  then show ?thesis
    using sealed_receipt_verifies [of demo_hmac "[]" demo_store demo_start "[]", OF _ _ demo_facts(1)] demo_run demo_allowed(3) demo_facts(2)
    by (fastforce simp: example_actor_def)
qed

end
