(* ===== verification/Claim_Service.thy ===== *)
theory Claim_Service
  imports Attribution Common_Store
begin

text \<open>
  \<open>apps/api/src/modules/claims/service.ts\<close> over the tables of its repositories. Scoring and ranking
  are the functions of \<open>packages/attribution\<close>. Of organizations and opportunities only the identifiers
  matter here. \<open>snap\<close> is the state the reads before the transaction saw, \<open>db\<close> the state at the
  time the advisory lock of the claim is granted. \<open>parse\<close> stands for \<open>Date.parse\<close>.
\<close>

section \<open>Tables\<close>

text \<open>Columns that the operations only fill with the default of the schema and never read (the
  privacy class and source of a claim, the appeal status and end date of a decision) are left out.\<close>

type_synonym json_column = "jsobj list \<times> jsval"

record Claim =
  cl_id :: string
  cl_claimantOrgId :: string
  cl_claimantUserId :: string
  cl_subjectOrgId :: string
  cl_relationshipType :: string
  cl_directnessTier :: DirectnessTier
  cl_opportunityId :: "string option"
  cl_claimScope :: json_column
  cl_status :: ClaimStatus
  cl_priorCommercialHistoryMonths :: int
  cl_submissionLagDays :: int
  cl_scoreBreakdown :: "ClaimScoreBreakdown option"
  cl_scoreTotal :: "js_number option"
  cl_algorithmVersion :: "string option"
  cl_inputVersions :: "string list"
  cl_scoredAt :: "int option"
  cl_provisionalExpiresAt :: "int option"
  cl_createdByUserId :: "string option"
  cl_createdByOrgId :: "string option"
  cl_updatedByUserId :: "string option"
  cl_version :: int
  cl_createdAt :: int

record ClaimEvidence =
  ce_id :: string
  ce_claimId :: string
  ce_evidenceType :: ClaimEvidenceType
  ce_assertedFact :: string
  ce_verificationState :: EvidenceVerificationState
  ce_evidenceRef :: "string option"
  ce_createdByUserId :: "string option"
  ce_createdByOrgId :: "string option"
  ce_createdAt :: int

record ClaimDecision =
  cd_id :: string
  cd_claimId :: string
  cd_disputeId :: "string option"
  cd_decision :: ClaimDecisionOutcome
  cd_scoreBreakdown :: ClaimScoreBreakdown
  cd_algorithmVersion :: string
  cd_ruleVersion :: string
  cd_reviewerUserId :: string
  cd_reviewerOrgId :: string
  cd_reason :: string
  cd_effectiveFrom :: int
  cd_createdAt :: int

record ClaimDispute =
  di_id :: string
  di_claimId :: string
  di_challengerOrgId :: string
  di_challengerUserId :: string
  di_basis :: string
  di_evidence :: json_column
  di_status :: ClaimDisputeStatus
  di_resolution :: "ClaimDisputeResolution option"
  di_createdByUserId :: "string option"
  di_createdByOrgId :: "string option"
  di_updatedByUserId :: "string option"
  di_version :: int
  di_createdAt :: int

record ClaimStore = Base +
  cs_organizations :: "string list"
  cs_opportunities :: "string list"
  cs_claims :: "Claim list"
  cs_evidence :: "ClaimEvidence list"
  cs_decisions :: "ClaimDecision list"
  cs_disputes :: "ClaimDispute list"

section \<open>Repositories\<close>

definition claim_findById :: "ClaimStore \<Rightarrow> string \<Rightarrow> Claim option" where
  "claim_findById db i = find_by cl_id i (cs_claims db)"

definition claim_listByClaimant :: "ClaimStore \<Rightarrow> string \<Rightarrow> Claim list" where
  "claim_listByClaimant db org = sort_key (\<lambda>c. - cl_createdAt c) (filter (\<lambda>c. cl_claimantOrgId c = org) (cs_claims db))"

definition claim_listBySubject :: "ClaimStore \<Rightarrow> string \<Rightarrow> string option \<Rightarrow> Claim list" where
  "claim_listBySubject db org opp =
     take 500 (sort_key cl_createdAt (filter (\<lambda>c. cl_subjectOrgId c = org \<and> cl_opportunityId c = opp) (cs_claims db)))"

definition claim_list :: "ClaimStore \<Rightarrow> Claim list" where
  "claim_list db = take 100 (sort_key (\<lambda>c. - cl_createdAt c) (cs_claims db))"

definition claim_insert :: "Claim \<Rightarrow> ClaimStore \<Rightarrow> DbError + ClaimStore" where
  "claim_insert c db =
     ebind (map_err JsonShape (assertJsonSafePlainObject (fst (cl_claimScope c)) (snd (cl_claimScope c)) [])) (\<lambda>_.
     ebind (insert_row (\<lambda>x y. cl_id x = cl_id y) c (cs_claims db)) (\<lambda>rows. Inr (db\<lparr>cs_claims := rows\<rparr>)))"

text \<open>The object of a score breakdown: the root, the arrays of its evidence and of its input versions,
  and one object per evidence item.\<close>

definition contribution_object :: "ClaimEvidenceContribution \<Rightarrow> jsobj" where
  "contribution_object c =
     JObject [(''index'', VNumber (js_Number (int (ec_index c)))), (''evidenceType'', VString (ec_evidenceType c)),
       (''verificationState'', VString (ec_verificationState c)), (''basePoints'', VNumber (ec_basePoints c)),
       (''multiplier'', VNumber (ec_multiplier c)), (''contribution'', VNumber (ec_contribution c))]"

definition optional_field :: "string \<Rightarrow> js_number option \<Rightarrow> (string \<times> jsval) list" where
  "optional_field k v = (case v of None \<Rightarrow> [] | Some n \<Rightarrow> [(k, VNumber n)])"

definition breakdown_column :: "ClaimScoreBreakdown \<Rightarrow> json_column" where
  "breakdown_column b =
     ([JObject ([(''history'', VNumber (sb_history b)), (''proximity'', VNumber (sb_proximity b)),
         (''evidence'', VNumber (sb_evidence b)), (''time'', VNumber (sb_time b)), (''weighted'', VNumber (sb_weighted b)),
         (''total'', VNumber (sb_total b)), (''evidenceBreakdown'', VRef 1),
         (''algorithmVersion'', VString (sb_algorithmVersion b)), (''inputVersions'', VRef 2)] @
         optional_field ''cappedFrom'' (sb_cappedFrom b) @ optional_field ''evidenceRawTotal'' (sb_evidenceRawTotal b)),
       JArray (map (\<lambda>i. VRef (i + 3)) [0..<length (sb_evidenceBreakdown b)]),
       JArray (map VString (sb_inputVersions b))] @
      map contribution_object (sb_evidenceBreakdown b), VRef 0)"

definition assertBreakdown :: "ClaimScoreBreakdown \<Rightarrow> DbError + unit" where
  "assertBreakdown b =
     map_err JsonShape (assertJsonSafePlainObject (fst (breakdown_column b)) (snd (breakdown_column b)) [])"

definition claim_markScored ::
  "string \<Rightarrow> ClaimScoreBreakdown \<Rightarrow> int \<Rightarrow> int \<Rightarrow> string option \<Rightarrow> ClaimStore \<Rightarrow> DbError + Claim \<times> ClaimStore" where
  "claim_markScored i breakdown scoredAt expiresAt by db =
     ebind (assertBreakdown breakdown) (\<lambda>_.
     ebind (map_err JsonShape (assertStringArray [JArray (map VString (sb_inputVersions breakdown))] (VRef 0) [])) (\<lambda>_.
     ebind (update_by cl_id i
       (\<lambda>c. c\<lparr>cl_status := Clm_SCORED, cl_scoreBreakdown := Some breakdown, cl_scoreTotal := Some (sb_total breakdown),
          cl_algorithmVersion := Some (sb_algorithmVersion breakdown), cl_inputVersions := sb_inputVersions breakdown,
          cl_scoredAt := Some scoredAt, cl_provisionalExpiresAt := Some expiresAt, cl_updatedByUserId := by,
          cl_version := cl_version c + 1\<rparr>) (cs_claims db)) (\<lambda>(c, rows).
     Inr (c, db\<lparr>cs_claims := rows\<rparr>))))"

definition claim_updateStatus ::
  "string \<Rightarrow> ClaimStatus \<Rightarrow> string option \<Rightarrow> ClaimStore \<Rightarrow> DbError + Claim \<times> ClaimStore" where
  "claim_updateStatus i status by db =
     ebind (update_by cl_id i (\<lambda>c. c\<lparr>cl_status := status, cl_updatedByUserId := by, cl_version := cl_version c + 1\<rparr>)
       (cs_claims db)) (\<lambda>(c, rows).
     Inr (c, db\<lparr>cs_claims := rows\<rparr>))"

definition evidence_listByClaim :: "ClaimStore \<Rightarrow> string \<Rightarrow> ClaimEvidence list" where
  "evidence_listByClaim db i = sort_key ce_createdAt (filter (\<lambda>e. ce_claimId e = i) (cs_evidence db))"

fun evidence_createMany ::
  "Env \<Rightarrow> (string \<Rightarrow> ClaimEvidence) list \<Rightarrow> ClaimStore \<Rightarrow> DbError + ClaimStore" where
  "evidence_createMany env [] db = Inr db"
| "evidence_createMany env (mk # mks) db =
     (let (i, db) = next_id env db in
      ebind (insert_row (\<lambda>x y. ce_id x = ce_id y) (mk i) (cs_evidence db)) (\<lambda>rows.
      evidence_createMany env mks (db\<lparr>cs_evidence := rows\<rparr>)))"

definition claimDecision_listByClaim :: "ClaimStore \<Rightarrow> string \<Rightarrow> ClaimDecision list" where
  "claimDecision_listByClaim db i = sort_key (\<lambda>d. - cd_createdAt d) (filter (\<lambda>d. cd_claimId d = i) (cs_decisions db))"

definition claimDecision_insert :: "ClaimDecision \<Rightarrow> ClaimStore \<Rightarrow> DbError + ClaimStore" where
  "claimDecision_insert d db =
     ebind (assertBreakdown (cd_scoreBreakdown d)) (\<lambda>_.
     ebind (insert_row (\<lambda>x y. cd_id x = cd_id y) d (cs_decisions db)) (\<lambda>rows. Inr (db\<lparr>cs_decisions := rows\<rparr>)))"

definition dispute_listByClaim :: "ClaimStore \<Rightarrow> string \<Rightarrow> ClaimDispute list" where
  "dispute_listByClaim db i = sort_key (\<lambda>d. - di_createdAt d) (filter (\<lambda>d. di_claimId d = i) (cs_disputes db))"

definition dispute_findOpenByClaim :: "ClaimStore \<Rightarrow> string \<Rightarrow> ClaimDispute option" where
  "dispute_findOpenByClaim db i = find (\<lambda>d. di_claimId d = i \<and> di_status d = Dsp_OPEN) (cs_disputes db)"

definition dispute_insert :: "ClaimDispute \<Rightarrow> ClaimStore \<Rightarrow> DbError + ClaimStore" where
  "dispute_insert d db =
     ebind (map_err JsonShape (assertJsonSafeObjectArray (fst (di_evidence d)) (snd (di_evidence d)) [])) (\<lambda>_.
     ebind (insert_row (\<lambda>x y. di_id x = di_id y) d (cs_disputes db)) (\<lambda>rows. Inr (db\<lparr>cs_disputes := rows\<rparr>)))"

definition dispute_markDecided ::
  "string \<Rightarrow> ClaimDisputeResolution \<Rightarrow> string option \<Rightarrow> ClaimStore \<Rightarrow> DbError + ClaimDispute \<times> ClaimStore" where
  "dispute_markDecided i resolution by db =
     ebind (update_by di_id i
       (\<lambda>d. d\<lparr>di_status := Dsp_DECIDED, di_resolution := Some resolution, di_updatedByUserId := by,
          di_version := di_version d + 1\<rparr>) (cs_disputes db)) (\<lambda>(d, rows).
     Inr (d, db\<lparr>cs_disputes := rows\<rparr>))"

section \<open>Errors and requests\<close>

datatype ClaimProblem = UnknownSubjectOrg | UnknownOpportunity | OwnClaim

datatype ClaimUnhandled = ClmDb DbError | ClmScoring ClaimScoringInputError | ClmRanking ClaimRankingInputError

type_synonym claim_failure = "(ClaimProblem, ClaimUnhandled) failure"

definition cdb :: "DbError + 'a \<Rightarrow> claim_failure + 'a" where
  "cdb = map_err (\<lambda>e. Unhandled (ClmDb e))"

definition ctrans :: "DomainTransitionError + 'a \<Rightarrow> claim_failure + 'a" where
  "ctrans = map_err Transition"

record ClaimEvidenceItemInput =
  it_evidenceType :: ClaimEvidenceType
  it_assertedFact :: string
  it_verificationState :: "EvidenceVerificationState option"
  it_evidenceRef :: "string option"

record CreateClaimRequest =
  cq_subjectOrgId :: string
  cq_relationshipType :: string
  cq_directnessTier :: DirectnessTier
  cq_opportunityId :: "string option"
  cq_claimScope :: "json_column option"
  cq_priorCommercialHistoryMonths :: int
  cq_submissionLagDays :: int
  cq_evidenceItems :: "ClaimEvidenceItemInput list"

text \<open>What the request schemas of \<open>contracts/src/claim.ts\<close> let through; the types above carry the
  enumerations.\<close>

definition text_within :: "nat \<Rightarrow> nat \<Rightarrow> string \<Rightarrow> bool" where
  "text_within lo hi s \<longleftrightarrow> lo \<le> length s \<and> length s \<le> hi"

definition scope_limits :: "(string \<times> nat) list" where
  "scope_limits = [(''geography'', 100), (''channel'', 100), (''product'', 100), (''programId'', 200)]"

fun scope_entry :: "string \<times> jsval \<Rightarrow> bool" where
  "scope_entry (k, VString s) = (case map_of scope_limits k of None \<Rightarrow> False | Some n \<Rightarrow> text_within 0 n s)"
| "scope_entry _ = False"

fun ClaimScopeSchema :: "json_column \<Rightarrow> bool" where
  "ClaimScopeSchema ([JObject entries], VRef 0) = (distinct (map fst entries) \<and> list_all scope_entry entries)"
| "ClaimScopeSchema _ = False"

definition ClaimEvidenceItemInputSchema :: "ClaimEvidenceItemInput \<Rightarrow> bool" where
  "ClaimEvidenceItemInputSchema item \<longleftrightarrow>
     text_within 1 2000 (it_assertedFact item) \<and>
     (case it_evidenceRef item of None \<Rightarrow> True | Some s \<Rightarrow> text_within 0 500 s)"

definition CreateClaimRequestSchema :: "CreateClaimRequest \<Rightarrow> bool" where
  "CreateClaimRequestSchema inp \<longleftrightarrow>
     text_within 1 100 (cq_relationshipType inp) \<and>
     (case cq_claimScope inp of None \<Rightarrow> True | Some v \<Rightarrow> ClaimScopeSchema v) \<and>
     0 \<le> cq_priorCommercialHistoryMonths inp \<and> cq_priorCommercialHistoryMonths inp \<le> 600 \<and>
     0 \<le> cq_submissionLagDays inp \<and> cq_submissionLagDays inp \<le> 3650 \<and>
     length (cq_evidenceItems inp) \<le> 50 \<and> list_all ClaimEvidenceItemInputSchema (cq_evidenceItems inp)"

record FileClaimDisputeRequest =
  fd_basis :: string
  fd_evidence :: "json_column option"

record DecideClaimRequest =
  dr_decision :: ClaimDecisionOutcome
  dr_reason :: string

record ClaimDetail =
  dt_claim :: Claim
  dt_evidence :: "ClaimEvidence list"
  dt_decisions :: "ClaimDecision list"
  dt_disputes :: "ClaimDispute list"
  dt_rank :: "ClaimRankEntry option"

definition CROSS_ORG_CLAIM_READ_ROLES :: "PersonaRole list" where
  "CROSS_ORG_CLAIM_READ_ROLES =
     [PLATFORM_OWNER, MARKETPLACE_OPERATOR, PARTNERSHIP_LEAD, UNDERWRITING_ANALYST, COMPLIANCE_REVIEWER,
      FINANCE_OPERATOR, AUDITOR_READONLY]"

definition PROVISIONAL_WINDOW_DAYS :: int where
  "PROVISIONAL_WINDOW_DAYS = 30"

fun decisionEventType :: "ClaimDecisionOutcome \<Rightarrow> string" where
  "decisionEventType Out_VERIFIED = ''claim.verified''"
| "decisionEventType Out_PARTIAL = ''claim.partial''"
| "decisionEventType Out_REJECTED = ''claim.rejected''"

fun disputeResolutionFor :: "ClaimDecisionOutcome \<Rightarrow> ClaimDisputeResolution" where
  "disputeResolutionFor Out_VERIFIED = Res_UPHELD_ORIGINAL"
| "disputeResolutionFor Out_PARTIAL = Res_PARTIAL_ATTRIBUTION"
| "disputeResolutionFor Out_REJECTED = Res_REJECTED_ORIGINAL"

text \<open>A decision outcome is also a status of the claim.\<close>

fun outcome_status :: "ClaimDecisionOutcome \<Rightarrow> ClaimStatus" where
  "outcome_status Out_VERIFIED = Clm_VERIFIED"
| "outcome_status Out_PARTIAL = Clm_PARTIAL"
| "outcome_status Out_REJECTED = Clm_REJECTED"

definition computeDisputeStanding :: "ClaimStore \<Rightarrow> string \<Rightarrow> Claim \<Rightarrow> bool" where
  "computeDisputeStanding db challengerOrgId claim =
     (cl_subjectOrgId claim = challengerOrgId \<or>
      list_ex (\<lambda>c. cl_claimantOrgId c = challengerOrgId \<and> cl_id c \<noteq> cl_id claim)
        (claim_listBySubject db (cl_subjectOrgId claim) (cl_opportunityId claim)))"

section \<open>Reading\<close>

definition claims_list :: "Actor \<Rightarrow> ClaimStore \<Rightarrow> claim_failure + Claim list" where
  "claims_list actor db =
     ebind (authorize actor A_claim_list R_claim (organizationId actor) no_context) (\<lambda>_.
     Inr (if role actor \<in> Some ` set CROSS_ORG_CLAIM_READ_ROLES then claim_list db
          else if \<not> truthy (organizationId actor) then []
          else claim_listByClaimant db (the (organizationId actor))))"

definition rankable :: "Env \<Rightarrow> Claim \<Rightarrow> RankableClaim list" where
  "rankable env c =
     (case cl_scoreTotal c of
        None \<Rightarrow> []
      | Some t \<Rightarrow> [\<lparr>rc_claimId = cl_id c, rc_total = t, rc_submittedAt = toISOString env (cl_createdAt c)\<rparr>])"

definition claim_rank :: "(string \<Rightarrow> int option) \<Rightarrow> Env \<Rightarrow> Claim \<Rightarrow> ClaimStore \<Rightarrow> claim_failure + ClaimRankEntry option" where
  "claim_rank parse env claim db =
     (let rs = concat (map (rankable env) (claim_listBySubject db (cl_subjectOrgId claim) (cl_opportunityId claim))) in
      if rs = [] then Inr None
      else ebind (map_err (\<lambda>e. Unhandled (ClmRanking e)) (rankClaims parse rs)) (\<lambda>ranked.
        Inr (find (\<lambda>r. cre_claimId r = cl_id claim) ranked)))"

definition claims_getById ::
  "(string \<Rightarrow> int option) \<Rightarrow> Env \<Rightarrow> Actor \<Rightarrow> string \<Rightarrow> ClaimStore \<Rightarrow> claim_failure + ClaimDetail" where
  "claims_getById parse env actor i db =
     ebind (require (claim_findById db i) (Problem notFound)) (\<lambda>claim.
     ebind (authorize actor A_claim_read R_claim (Some (cl_claimantOrgId claim)) no_context) (\<lambda>_.
     ebind (if role actor \<in> Some ` set CROSS_ORG_CLAIM_READ_ROLES then claim_rank parse env claim db else Inr None) (\<lambda>rank.
     Inr \<lparr>dt_claim = claim, dt_evidence = evidence_listByClaim db i, dt_decisions = claimDecision_listByClaim db i,
          dt_disputes = dispute_listByClaim db i, dt_rank = rank\<rparr>)))"

section \<open>Filing a claim\<close>

definition item_state :: "ClaimEvidenceItemInput \<Rightarrow> EvidenceVerificationState" where
  "item_state item = (case it_verificationState item of Some s \<Rightarrow> s | None \<Rightarrow> Vs_SELF_REPORTED)"

definition scoring_input :: "string \<Rightarrow> CreateClaimRequest \<Rightarrow> ClaimScoringInput" where
  "scoring_input claimId inp =
     \<lparr>si_priorCommercialHistoryMonths = js_Number (cq_priorCommercialHistoryMonths inp),
      si_directnessTier = directnessTier_name (cq_directnessTier inp),
      si_evidenceItems = map (\<lambda>item. \<lparr>ei_evidenceType = claimEvidenceType_name (it_evidenceType item),
         ei_verificationState = evidenceVerificationState_name (item_state item)\<rparr>) (cq_evidenceItems inp),
      si_submissionLagDays = js_Number (cq_submissionLagDays inp),
      si_inputVersions = Some [''claim-scoring-input:'' @ claimId @ '':v1'']\<rparr>"

definition filed_claim :: "Env \<Rightarrow> Actor \<Rightarrow> string \<Rightarrow> CreateClaimRequest \<Rightarrow> Claim" where
  "filed_claim env actor i inp =
     \<lparr>cl_id = i, cl_claimantOrgId = the (organizationId actor), cl_claimantUserId = userId actor,
      cl_subjectOrgId = cq_subjectOrgId inp, cl_relationshipType = cq_relationshipType inp,
      cl_directnessTier = cq_directnessTier inp, cl_opportunityId = cq_opportunityId inp,
      cl_claimScope = (case cq_claimScope inp of Some v \<Rightarrow> v | None \<Rightarrow> ([JObject []], VRef 0)), cl_status = Clm_FILED,
      cl_priorCommercialHistoryMonths = cq_priorCommercialHistoryMonths inp,
      cl_submissionLagDays = cq_submissionLagDays inp, cl_scoreBreakdown = None, cl_scoreTotal = None,
      cl_algorithmVersion = None, cl_inputVersions = [], cl_scoredAt = None, cl_provisionalExpiresAt = None,
      cl_createdByUserId = Some (userId actor), cl_createdByOrgId = organizationId actor, cl_updatedByUserId = None,
      cl_version = 1, cl_createdAt = clock env\<rparr>"

definition evidence_row :: "Env \<Rightarrow> Actor \<Rightarrow> string \<Rightarrow> ClaimEvidenceItemInput \<Rightarrow> string \<Rightarrow> ClaimEvidence" where
  "evidence_row env actor claimId item i =
     \<lparr>ce_id = i, ce_claimId = claimId, ce_evidenceType = it_evidenceType item, ce_assertedFact = it_assertedFact item,
      ce_verificationState = item_state item, ce_evidenceRef = it_evidenceRef item,
      ce_createdByUserId = Some (userId actor), ce_createdByOrgId = organizationId actor, ce_createdAt = clock env\<rparr>"

definition nullable :: "string option \<Rightarrow> jvalue" where
  "nullable v = (case v of None \<Rightarrow> Service_Base.JNull | Some s \<Rightarrow> JStr s)"

definition claim_subject :: "CreateClaimRequest \<Rightarrow> (string \<times> jvalue) list" where
  "claim_subject inp =
     [(''subjectOrgId'', JStr (cq_subjectOrgId inp)), (''relationshipType'', JStr (cq_relationshipType inp)),
      (''directnessTier'', JStr (directnessTier_name (cq_directnessTier inp))), (''opportunityId'', nullable (cq_opportunityId inp))]"

definition claim_score_json :: "ClaimScoreBreakdown \<Rightarrow> (string \<times> jvalue) list" where
  "claim_score_json b = [(''scoreTotal'', JDouble (sb_total b)), (''algorithmVersion'', JStr (sb_algorithmVersion b))]"

definition claims_create ::
  "Env \<Rightarrow> Actor \<Rightarrow> CreateClaimRequest \<Rightarrow> RequestContext \<Rightarrow> ClaimStore \<Rightarrow> ClaimStore \<Rightarrow> claim_failure + Claim \<times> ClaimStore" where
  "claims_create env actor inp ctx snap db =
     ebind (throw_if (\<not> truthy (organizationId actor)) (Problem (forbidden NoActiveMembership))) (\<lambda>_.
     ebind (authorize actor A_claim_create R_claim (organizationId actor) no_context) (\<lambda>_.
     ebind (throw_if (cq_subjectOrgId inp \<notin> set (cs_organizations snap)) (Problem (badRequest UnknownSubjectOrg))) (\<lambda>_.
     ebind (throw_if (truthy (cq_opportunityId inp) \<and> the (cq_opportunityId inp) \<notin> set (cs_opportunities snap))
       (Problem (badRequest UnknownOpportunity))) (\<lambda>_.
     let (claimId, db) = next_id env db in
     ebind (map_err (\<lambda>e. Unhandled (ClmScoring e)) (scoreClaim (scoring_input claimId inp))) (\<lambda>breakdown.
     ebind (cdb (claim_insert (filed_claim env actor claimId inp) db)) (\<lambda>db.
     ebind (ctrans (assertValidClaimTransition (claimStatus_name (cl_status (filed_claim env actor claimId inp))) ''SCORED'')) (\<lambda>_.
     ebind (cdb (if cq_evidenceItems inp \<noteq> []
                 then evidence_createMany env (map (evidence_row env actor claimId) (cq_evidenceItems inp)) db else Inr db)) (\<lambda>db.
     ebind (cdb (claim_markScored claimId breakdown (clock env) (clock env + PROVISIONAL_WINDOW_DAYS * 24 * 60 * 60 * 1000)
       (Some (userId actor)) db)) (\<lambda>(scored, db).
     let db = write_audit env (Some ctx) (audit_by actor (organizationId actor) ''claim.submitted'' ''claim'' claimId
           (claim_subject inp @ [(''evidenceItemCount'', JNum (int (length (cq_evidenceItems inp))))])) db;
         db = write_event env (Some ctx) (event_by actor ''claim.submitted'' ''claim'' claimId
           ((''claimantOrgId'', nullable (organizationId actor)) # claim_subject inp)) db;
         db = write_audit env (Some ctx) (audit_by actor (organizationId actor) ''claim.scored'' ''claim'' claimId
           (claim_score_json breakdown)) db;
         db = write_event env (Some ctx) (event_by actor ''claim.scored'' ''claim'' claimId (claim_score_json breakdown)) db
     in Inr (scored, db))))))))))"

section \<open>Disputing\<close>

text \<open>The checks made before the transaction and again inside it.\<close>

definition disputable :: "ClaimStore \<Rightarrow> Claim \<Rightarrow> claim_failure + unit" where
  "disputable db claim =
     ebind (throw_if (dispute_findOpenByClaim db (cl_id claim) \<noteq> None) (Problem (conflict False))) (\<lambda>_.
     ctrans (assertValidClaimTransition (claimStatus_name (cl_status claim)) ''DISPUTED''))"

definition new_dispute :: "Env \<Rightarrow> Actor \<Rightarrow> string \<Rightarrow> FileClaimDisputeRequest \<Rightarrow> string \<Rightarrow> ClaimDispute" where
  "new_dispute env actor claimId inp i =
     \<lparr>di_id = i, di_claimId = claimId, di_challengerOrgId = the (organizationId actor), di_challengerUserId = userId actor,
      di_basis = fd_basis inp, di_evidence = (case fd_evidence inp of Some v \<Rightarrow> v | None \<Rightarrow> ([JArray []], VRef 0)),
      di_status = Dsp_OPEN, di_resolution = None, di_createdByUserId = Some (userId actor),
      di_createdByOrgId = organizationId actor, di_updatedByUserId = None, di_version = 1, di_createdAt = clock env\<rparr>"

definition fileDispute ::
  "Env \<Rightarrow> Actor \<Rightarrow> string \<Rightarrow> FileClaimDisputeRequest \<Rightarrow> RequestContext \<Rightarrow> ClaimStore \<Rightarrow> ClaimStore \<Rightarrow>
   claim_failure + ClaimDispute \<times> ClaimStore" where
  "fileDispute env actor claimId inp ctx snap db =
     ebind (throw_if (\<not> truthy (organizationId actor)) (Problem (forbidden NoActiveMembership))) (\<lambda>_.
     ebind (require (claim_findById snap claimId) (Problem notFound)) (\<lambda>claim.
     ebind (throw_if (Some (cl_claimantOrgId claim) = organizationId actor) (Problem (badRequest OwnClaim))) (\<lambda>_.
     ebind (authorize actor A_claim_dispute R_claim (Some (cl_claimantOrgId claim))
       \<lparr>isSelf = False, isParticipant = computeDisputeStanding snap (the (organizationId actor)) claim\<rparr>) (\<lambda>_.
     ebind (disputable snap claim) (\<lambda>_.
     let (disputeId, db) = next_id env db in
     ebind (require (claim_findById db claimId) (Problem internal)) (\<lambda>freshClaim.
     ebind (disputable db freshClaim) (\<lambda>_.
     let dispute = new_dispute env actor claimId inp disputeId in
     ebind (cdb (dispute_insert dispute db)) (\<lambda>db.
     ebind (cdb (claim_updateStatus claimId Clm_DISPUTED (Some (userId actor)) db)) (\<lambda>(_, db).
     let db = write_audit env (Some ctx) ((audit_by actor (Some (cl_claimantOrgId claim)) ''claim.disputed'' ''claim'' claimId
           [(''challengerOrgId'', nullable (organizationId actor)), (''disputeId'', JStr disputeId)])
           \<lparr>au_reason := Some (fd_basis inp)\<rparr>) db;
         db = write_event env (Some ctx) (event_by actor ''claim.disputed'' ''claim'' claimId
           [(''challengerOrgId'', nullable (organizationId actor)), (''basis'', JStr (fd_basis inp))]) db
     in Inr (dispute, db))))))))))"

section \<open>Deciding\<close>

definition decidable :: "ClaimDecisionOutcome \<Rightarrow> Claim \<Rightarrow> claim_failure + ClaimScoreBreakdown \<times> string" where
  "decidable decision claim =
     ebind (throw_if (cl_status claim \<noteq> Clm_SCORED \<and> cl_status claim \<noteq> Clm_DISPUTED) (Problem (conflict False))) (\<lambda>_.
     ebind (ctrans (assertValidClaimTransition (claimStatus_name (cl_status claim)) (claimDecisionOutcome_name decision))) (\<lambda>_.
     case cl_scoreBreakdown claim of
       None \<Rightarrow> Inl (Problem internal)
     | Some b \<Rightarrow> if truthy (cl_algorithmVersion claim) then Inr (b, the (cl_algorithmVersion claim)) else Inl (Problem internal)))"

definition decision_row ::
  "Env \<Rightarrow> Actor \<Rightarrow> string \<Rightarrow> DecideClaimRequest \<Rightarrow> ClaimScoreBreakdown \<times> string \<Rightarrow> string option \<Rightarrow> string \<Rightarrow> ClaimDecision" where
  "decision_row env actor claimId inp score disputeId i =
     \<lparr>cd_id = i, cd_claimId = claimId, cd_disputeId = disputeId, cd_decision = dr_decision inp,
      cd_scoreBreakdown = fst score, cd_algorithmVersion = snd score, cd_ruleVersion = ''attribution-rules-v1'',
      cd_reviewerUserId = userId actor, cd_reviewerOrgId = the (organizationId actor), cd_reason = dr_reason inp,
      cd_effectiveFrom = clock env, cd_createdAt = clock env\<rparr>"

definition openDispute :: "ClaimStore \<Rightarrow> Claim \<Rightarrow> claim_failure + ClaimDispute option" where
  "openDispute db claim =
     (if cl_status claim = Clm_DISPUTED
      then (case dispute_findOpenByClaim db (cl_id claim) of None \<Rightarrow> Inl (Problem internal) | Some d \<Rightarrow> Inr (Some d))
      else Inr None)"

definition closeDispute ::
  "Env \<Rightarrow> Actor \<Rightarrow> Claim \<Rightarrow> DecideClaimRequest \<Rightarrow> RequestContext \<Rightarrow> ClaimDispute option \<Rightarrow> ClaimStore \<Rightarrow>
   claim_failure + ClaimStore" where
  "closeDispute env actor claim inp ctx dispute db =
     (case dispute of
        None \<Rightarrow> Inr db
      | Some d \<Rightarrow>
          let resolution = disputeResolutionFor (dr_decision inp);
              resolved = (''resolution'', JStr (claimDisputeResolution_name resolution));
              reviewer = (''reviewerOrgId'', nullable (organizationId actor))
          in ebind (cdb (dispute_markDecided (di_id d) resolution (Some (userId actor)) db)) (\<lambda>(_, db).
            let db = write_audit env (Some ctx) ((audit_by actor (Some (cl_claimantOrgId claim)) ''claim.dispute_decided''
                  ''claim_dispute'' (di_id d) [resolved, reviewer])\<lparr>au_reason := Some (dr_reason inp)\<rparr>) db;
                db = write_event env (Some ctx) (event_by actor ''claim.dispute_decided'' ''claim'' (cl_id claim)
                  [(''disputeId'', JStr (di_id d)), resolved, reviewer]) db
            in Inr db))"

definition decide ::
  "Env \<Rightarrow> Actor \<Rightarrow> string \<Rightarrow> DecideClaimRequest \<Rightarrow> RequestContext \<Rightarrow> ClaimStore \<Rightarrow> ClaimStore \<Rightarrow>
   claim_failure + ClaimDecision \<times> ClaimStore" where
  "decide env actor claimId inp ctx snap db =
     ebind (require (claim_findById snap claimId) (Problem notFound)) (\<lambda>claim.
     ebind (authorize actor A_claim_decide R_claim (Some (cl_claimantOrgId claim)) no_context) (\<lambda>_.
     ebind (throw_if (organizationId actor \<noteq> None \<and> organizationId actor = Some (cl_claimantOrgId claim))
       (Problem (forbidden SelfCertification))) (\<lambda>_.
     ebind (decidable (dr_decision inp) claim) (\<lambda>_.
     ebind (require (claim_findById db claimId) (Problem internal)) (\<lambda>freshClaim.
     ebind (decidable (dr_decision inp) freshClaim) (\<lambda>score.
     ebind (openDispute db freshClaim) (\<lambda>freshOpenDispute.
     let (i, db) = next_id env db;
         row = decision_row env actor claimId inp score (map_option di_id freshOpenDispute) i
     in
     ebind (cdb (claimDecision_insert row db)) (\<lambda>db.
     ebind (cdb (claim_updateStatus claimId (outcome_status (dr_decision inp)) (Some (userId actor)) db)) (\<lambda>(_, db).
     ebind (closeDispute env actor freshClaim inp ctx freshOpenDispute db) (\<lambda>db.
     let eventType = decisionEventType (dr_decision inp);
         reviewer = (''reviewerOrgId'', nullable (organizationId actor));
         db = write_audit env (Some ctx) ((audit_by actor (Some (cl_claimantOrgId freshClaim)) eventType ''claim'' claimId
           [(''decision'', JStr (claimDecisionOutcome_name (dr_decision inp))), reviewer])\<lparr>au_reason := Some (dr_reason inp)\<rparr>) db;
         db = write_event env (Some ctx) (event_by actor eventType ''claim'' claimId
           [reviewer, (''reason'', JStr (dr_reason inp)), (''disputeId'', nullable (map_option di_id freshOpenDispute))]) db
     in Inr (row, db)))))))))))"

end
