(* ===== verification/Claim_History.thy ===== *)
theory Claim_History
  imports Claim_Service Row_Updates
begin

text \<open>
  What a successful request of the claims service writes: the effects of filing, disputing and
  deciding on the four tables.
\<close>

lemma lifted_claim [simp, result_simps]:
  "cdb r = Inr x \<longleftrightarrow> r = Inr x" "ctrans s = Inr y \<longleftrightarrow> s = Inr y" "cdb (Inr x) = Inr x" "ctrans (Inr y) = Inr y"
  by (simp_all add: cdb_def ctrans_def)

lemma claim_tables_written [simp]:
  fixes db :: ClaimStore
  shows "cs_claims (write_audit env ctx a db) = cs_claims db" "cs_evidence (write_audit env ctx a db) = cs_evidence db"
    "cs_decisions (write_audit env ctx a db) = cs_decisions db" "cs_disputes (write_audit env ctx a db) = cs_disputes db"
    "cs_claims (write_event env ctx e db) = cs_claims db" "cs_evidence (write_event env ctx e db) = cs_evidence db"
    "cs_decisions (write_event env ctx e db) = cs_decisions db" "cs_disputes (write_event env ctx e db) = cs_disputes db"
  by (simp_all add: write_audit_def write_event_def next_id_def)

section \<open>Filing\<close>

definition scored_claim :: "Env \<Rightarrow> Actor \<Rightarrow> ClaimScoreBreakdown \<Rightarrow> Claim \<Rightarrow> Claim" where
  "scored_claim env actor b c =
     c\<lparr>cl_status := Clm_SCORED, cl_scoreBreakdown := Some b, cl_scoreTotal := Some (sb_total b),
       cl_algorithmVersion := Some (sb_algorithmVersion b), cl_inputVersions := sb_inputVersions b,
       cl_scoredAt := Some (clock env),
       cl_provisionalExpiresAt := Some (clock env + PROVISIONAL_WINDOW_DAYS * 24 * 60 * 60 * 1000),
       cl_updatedByUserId := Some (userId actor), cl_version := cl_version c + 1\<rparr>"

lemma evidence_createMany_ok:
  "evidence_createMany env mks db = Inr db' \<Longrightarrow>
   \<exists>n ids. length ids = length mks \<and> db' = db\<lparr>bs_ids := n, cs_evidence := cs_evidence db @ map2 (\<lambda>mk i. mk i) mks ids\<rparr>"
proof (induction mks arbitrary: db)
  case (Cons mk mks)
  let ?i = "uuid env (bs_ids db)"
  let ?db = "db\<lparr>bs_ids := Suc (bs_ids db), cs_evidence := cs_evidence db @ [mk ?i]\<rparr>"
  have "evidence_createMany env mks ?db = Inr db'"
    using Cons.prems by (auto simp: next_id_def ebind_eq_Inr insert_row_ok)
  from Cons.IH [OF this] obtain n ids where "length ids = length mks"
      "db' = ?db\<lparr>bs_ids := n, cs_evidence := cs_evidence ?db @ map2 (\<lambda>mk i. mk i) mks ids\<rparr>"
    by blast
  then show ?case
    by (intro exI [of _ n] exI [of _ "?i # ids"]) simp
qed (auto intro: exI [of _ "bs_ids db'"])

lemma claim_markScored_ok:
  "claim_markScored i b (clock env) (clock env + PROVISIONAL_WINDOW_DAYS * 24 * 60 * 60 * 1000) (Some (userId actor)) db =
     Inr (c, db') \<Longrightarrow>
   assertBreakdown b = Inr () \<and> db' = db\<lparr>cs_claims := set_by cl_id i (scored_claim env actor b) (cs_claims db)\<rparr> \<and>
   (\<exists>old. find_by cl_id i (cs_claims db) = Some old \<and> c = scored_claim env actor b old)"
  by (auto simp: claim_markScored_def ebind_eq_Inr update_by_ok scored_claim_def [abs_def])

lemma create_effect:
  assumes "claims_create env actor inp ctx snap db = Inr (c, db')"
  shows "\<exists>b new. scoreClaim (scoring_input (cl_id c) inp) = Inr b \<and> assertBreakdown b = Inr () \<and>
    c = scored_claim env actor b (filed_claim env actor (cl_id c) inp) \<and>
    truthy (organizationId actor) \<and>
    allowed (can actor A_claim_create \<lparr>rtype = R_claim, rid = None, ownerOrgId = organizationId actor, privacyClass = None\<rparr> no_context) \<and>
    cq_subjectOrgId inp \<in> set (cs_organizations snap) \<and>
    (\<forall>x \<in> set (cs_claims db). cl_id x \<noteq> cl_id c) \<and> cs_claims db' = cs_claims db @ [c] \<and>
    cs_evidence db' = cs_evidence db @ new \<and>
    map (\<lambda>e. (ce_claimId e, ce_evidenceType e, ce_verificationState e)) new =
      map (\<lambda>item. (cl_id c, it_evidenceType item, item_state item)) (cq_evidenceItems inp) \<and>
    cs_decisions db' = cs_decisions db \<and> cs_disputes db' = cs_disputes db"
proof -
  let ?i = "uuid env (bs_ids db)"
  let ?filed = "filed_claim env actor ?i inp"
  let ?db = "db\<lparr>bs_ids := Suc (bs_ids db)\<rparr>"
  obtain b db1 db2 db3 where steps: "scoreClaim (scoring_input ?i inp) = Inr b" "truthy (organizationId actor)"
      "allowed (can actor A_claim_create \<lparr>rtype = R_claim, rid = None, ownerOrgId = organizationId actor, privacyClass = None\<rparr> no_context)"
      "cq_subjectOrgId inp \<in> set (cs_organizations snap)" "claim_insert ?filed ?db = Inr db1"
      "(if cq_evidenceItems inp \<noteq> [] then evidence_createMany env (map (evidence_row env actor ?i) (cq_evidenceItems inp)) db1
        else Inr db1) = Inr db2"
      "claim_markScored ?i b (clock env) (clock env + PROVISIONAL_WINDOW_DAYS * 24 * 60 * 60 * 1000) (Some (userId actor)) db2 = Inr (c, db3)"
      "cs_claims db' = cs_claims db3" "cs_evidence db' = cs_evidence db3" "cs_decisions db' = cs_decisions db3"
      "cs_disputes db' = cs_disputes db3"
    using assms by (auto simp: claims_create_def ebind_eq_Inr next_id_def Let_def authorize_ok simp del: evidence_createMany.simps)
  have db1: "db1 = ?db\<lparr>cs_claims := cs_claims db @ [?filed]\<rparr>" and fresh: "\<forall>x \<in> set (cs_claims db). cl_id x \<noteq> ?i"
    using steps(5) by (auto simp: claim_insert_def ebind_eq_Inr insert_row_ok filed_claim_def)
  obtain n new where db2: "db2 = db1\<lparr>bs_ids := n, cs_evidence := cs_evidence db @ new\<rparr>"
      "map (\<lambda>e. (ce_claimId e, ce_evidenceType e, ce_verificationState e)) new =
         map (\<lambda>item. (?i, it_evidenceType item, item_state item)) (cq_evidenceItems inp)"
  proof (cases "cq_evidenceItems inp = []")
    case True
    moreover have "db1 = db1\<lparr>bs_ids := bs_ids db1, cs_evidence := cs_evidence db1 @ []\<rparr>" "cs_evidence db1 = cs_evidence db"
      by (simp_all add: db1)
    ultimately show ?thesis
      using that [of "[]" "bs_ids db1"] steps(6) by simp
  next
    case False
    then obtain n ids where ids: "length ids = length (map (evidence_row env actor ?i) (cq_evidenceItems inp))"
        "db2 = db1\<lparr>bs_ids := n, cs_evidence := cs_evidence db1 @ map2 (\<lambda>mk i. mk i) (map (evidence_row env actor ?i) (cq_evidenceItems inp)) ids\<rparr>"
      using evidence_createMany_ok [of env "map (evidence_row env actor ?i) (cq_evidenceItems inp)" db1 db2] steps(6) by auto
    have "map (\<lambda>e. (ce_claimId e, ce_evidenceType e, ce_verificationState e)) (map2 (\<lambda>mk i. mk i) (map (evidence_row env actor ?i) items) is) =
        map (\<lambda>item. (?i, it_evidenceType item, item_state item)) items"
      if "length is = length items" for items "is"
      using that by (induction "is" items rule: list_induct2) (simp_all add: evidence_row_def)
    moreover have "cs_evidence db1 = cs_evidence db"
      by (simp add: db1)
    ultimately show ?thesis
      using ids by (intro that [of "map2 (\<lambda>mk i. mk i) (map (evidence_row env actor ?i) (cq_evidenceItems inp)) ids" n]) simp_all
  qed
  note scored = claim_markScored_ok [OF steps(7)]
  have id: "cl_id ?filed = ?i"
    by (simp add: filed_claim_def)
  have "set_by cl_id ?i (scored_claim env actor b) (cs_claims db @ [?filed]) = cs_claims db @ [scored_claim env actor b ?filed]"
    using fresh by (simp add: set_by_append set_by_missing) (simp add: set_by_def id)
  moreover have "find_by cl_id ?i (cs_claims db @ [?filed]) = Some ?filed"
    using fresh id by (simp add: find_by_None [THEN iffD2])
  ultimately have c: "c = scored_claim env actor b ?filed" "cs_claims db3 = cs_claims db @ [c]"
    using scored unfolding db2(1) db1 by auto
  have "cl_id c = ?i"
    unfolding c(1) by (simp add: scored_claim_def id)
  then show ?thesis
    using steps scored c fresh db2 by (intro exI [of _ b] exI [of _ new]) (simp add: db1)
qed

section \<open>Disputing and deciding\<close>

definition status_set :: "ClaimStatus \<Rightarrow> Actor \<Rightarrow> Claim \<Rightarrow> Claim" where
  "status_set s actor c = c\<lparr>cl_status := s, cl_updatedByUserId := Some (userId actor), cl_version := cl_version c + 1\<rparr>"

lemma claim_updateStatus_ok:
  "claim_updateStatus i s (Some (userId actor)) db = Inr (c, db') \<longleftrightarrow>
   (\<exists>old. claim_findById db i = Some old \<and> c = status_set s actor old) \<and>
   db' = db\<lparr>cs_claims := set_by cl_id i (status_set s actor) (cs_claims db)\<rparr>"
  by (auto simp: claim_updateStatus_def claim_findById_def ebind_eq_Inr update_by_ok status_set_def [abs_def])

lemma claim_transition_ok:
  "assertValidClaimTransition (claimStatus_name s) (claimStatus_name t) = Inr () \<longleftrightarrow> t \<in> set (CLAIM_TRANSITIONS s)"
  by (simp add: claim_st.guard_accepts)


lemma fileDispute_effect:
  assumes "fileDispute env actor i inp ctx snap db = Inr (d, db')"
  shows "\<exists>seen old org. claim_findById snap i = Some seen \<and> claim_findById db i = Some old \<and>
    organizationId actor = Some org \<and> org \<noteq> cl_claimantOrgId seen \<and>
    allowed (can actor A_claim_dispute \<lparr>rtype = R_claim, rid = None, ownerOrgId = Some (cl_claimantOrgId seen), privacyClass = None\<rparr>
      \<lparr>isSelf = False, isParticipant = computeDisputeStanding snap org seen\<rparr>) \<and>
    dispute_findOpenByClaim db (cl_id old) = None \<and> Clm_DISPUTED \<in> set (CLAIM_TRANSITIONS (cl_status old)) \<and>
    d = new_dispute env actor i inp (di_id d) \<and> (\<forall>x \<in> set (cs_disputes db). di_id x \<noteq> di_id d) \<and>
    cs_disputes db' = cs_disputes db @ [d] \<and>
    cs_claims db' = set_by cl_id i (status_set Clm_DISPUTED actor) (cs_claims db) \<and>
    cs_evidence db' = cs_evidence db \<and> cs_decisions db' = cs_decisions db"
proof -
  let ?j = "uuid env (bs_ids db)"
  let ?d = "new_dispute env actor i inp ?j"
  let ?db = "db\<lparr>bs_ids := Suc (bs_ids db)\<rparr>"
  obtain org where org: "organizationId actor = Some org"
    using assms by (cases "organizationId actor") (auto simp: fileDispute_def ebind_eq_Inr)
  have guard: "assertValidClaimTransition (claimStatus_name s) ''DISPUTED'' = Inr () \<longleftrightarrow> Clm_DISPUTED \<in> set (CLAIM_TRANSITIONS s)" for s
    using claim_transition_ok [of s Clm_DISPUTED] by simp
  obtain seen old db1 db2 c where steps: "claim_findById snap i = Some seen" "org \<noteq> cl_claimantOrgId seen"
      "allowed (can actor A_claim_dispute \<lparr>rtype = R_claim, rid = None, ownerOrgId = Some (cl_claimantOrgId seen), privacyClass = None\<rparr>
         \<lparr>isSelf = False, isParticipant = computeDisputeStanding snap org seen\<rparr>)"
      "claim_findById ?db i = Some old" "dispute_findOpenByClaim ?db (cl_id old) = None"
      "Clm_DISPUTED \<in> set (CLAIM_TRANSITIONS (cl_status old))"
      "dispute_insert ?d ?db = Inr db1" "claim_updateStatus i Clm_DISPUTED (Some (userId actor)) db1 = Inr (c, db2)"
      "d = ?d" "cs_claims db' = cs_claims db2" "cs_evidence db' = cs_evidence db2" "cs_decisions db' = cs_decisions db2"
      "cs_disputes db' = cs_disputes db2"
    using assms org
    by (auto simp: fileDispute_def disputable_def ebind_eq_Inr next_id_def Let_def authorize_ok guard)
  have db1: "db1 = ?db\<lparr>cs_disputes := cs_disputes db @ [?d]\<rparr>" and fresh: "\<forall>x \<in> set (cs_disputes db). di_id x \<noteq> ?j"
    using steps(7) by (auto simp: dispute_insert_def ebind_eq_Inr insert_row_ok new_dispute_def)
  have db2: "db2 = db1\<lparr>cs_claims := set_by cl_id i (status_set Clm_DISPUTED actor) (cs_claims db)\<rparr>"
    using steps(8) by (simp add: claim_updateStatus_ok db1)
  have reads: "claim_findById ?db i = claim_findById db i" "dispute_findOpenByClaim ?db (cl_id old) = dispute_findOpenByClaim db (cl_id old)"
    by (simp_all add: claim_findById_def dispute_findOpenByClaim_def)
  have "di_id d = ?j"
    by (simp add: steps(9) new_dispute_def)
  then show ?thesis
    using steps org fresh unfolding reads by (simp add: db1 db2)
qed

definition decided_dispute :: "ClaimDecisionOutcome \<Rightarrow> Actor \<Rightarrow> ClaimDispute \<Rightarrow> ClaimDispute" where
  "decided_dispute outcome actor d =
     d\<lparr>di_status := Dsp_DECIDED, di_resolution := Some (disputeResolutionFor outcome), di_updatedByUserId := Some (userId actor),
       di_version := di_version d + 1\<rparr>"

lemma closeDispute_ok:
  assumes "closeDispute env actor claim inp ctx dispute db = Inr db'"
  shows "cs_claims db' = cs_claims db" "cs_evidence db' = cs_evidence db" "cs_decisions db' = cs_decisions db"
    "cs_disputes db' = (case dispute of None \<Rightarrow> cs_disputes db
       | Some d \<Rightarrow> set_by di_id (di_id d) (decided_dispute (dr_decision inp) actor) (cs_disputes db))"
  using assms
  by (auto simp: closeDispute_def Let_def ebind_eq_Inr dispute_markDecided_def update_by_ok decided_dispute_def [abs_def]
      split: option.splits)

lemma outcome_name: "claimDecisionOutcome_name v = claimStatus_name (outcome_status v)"
  by (cases v) simp_all

lemma decidable_ok:
  "decidable v c = Inr (b, ver) \<longleftrightarrow>
   (cl_status c = Clm_SCORED \<or> cl_status c = Clm_DISPUTED) \<and> outcome_status v \<in> set (CLAIM_TRANSITIONS (cl_status c)) \<and>
   cl_scoreBreakdown c = Some b \<and> cl_algorithmVersion c = Some ver \<and> ver \<noteq> []"
  unfolding decidable_def outcome_name ebind_eq_Inr
  by (cases "cl_algorithmVersion c") (auto simp: claim_transition_ok split: option.splits)

lemma decide_effect:
  assumes "decide env actor i inp ctx snap db = Inr (d, db')"
  shows "\<exists>seen old b ver dispute. claim_findById snap i = Some seen \<and> claim_findById db i = Some old \<and>
    allowed (can actor A_claim_decide \<lparr>rtype = R_claim, rid = None, ownerOrgId = Some (cl_claimantOrgId seen), privacyClass = None\<rparr> no_context) \<and>
    organizationId actor \<noteq> Some (cl_claimantOrgId seen) \<and>
    decidable (dr_decision inp) old = Inr (b, ver) \<and> openDispute db old = Inr dispute \<and>
    d = decision_row env actor i inp (b, ver) (map_option di_id dispute) (cd_id d) \<and>
    cs_decisions db' = cs_decisions db @ [d] \<and>
    cs_claims db' = set_by cl_id i (status_set (outcome_status (dr_decision inp)) actor) (cs_claims db) \<and>
    cs_disputes db' = (case dispute of None \<Rightarrow> cs_disputes db
       | Some p \<Rightarrow> set_by di_id (di_id p) (decided_dispute (dr_decision inp) actor) (cs_disputes db)) \<and>
    cs_evidence db' = cs_evidence db"
proof -
  let ?j = "uuid env (bs_ids db)"
  let ?db = "db\<lparr>bs_ids := Suc (bs_ids db)\<rparr>"
  obtain seen old score dispute db1 db2 db3 c where steps: "claim_findById snap i = Some seen"
      "allowed (can actor A_claim_decide \<lparr>rtype = R_claim, rid = None, ownerOrgId = Some (cl_claimantOrgId seen), privacyClass = None\<rparr> no_context)"
      "organizationId actor \<noteq> Some (cl_claimantOrgId seen)" "claim_findById db i = Some old"
      "decidable (dr_decision inp) old = Inr score" "openDispute db old = Inr dispute"
      "claimDecision_insert (decision_row env actor i inp score (map_option di_id dispute) ?j) ?db = Inr db1"
      "claim_updateStatus i (outcome_status (dr_decision inp)) (Some (userId actor)) db1 = Inr (c, db2)"
      "closeDispute env actor old inp ctx dispute db2 = Inr db3"
      "d = decision_row env actor i inp score (map_option di_id dispute) ?j"
      "cs_claims db' = cs_claims db3" "cs_evidence db' = cs_evidence db3" "cs_decisions db' = cs_decisions db3"
      "cs_disputes db' = cs_disputes db3"
    using assms by (auto simp: decide_def ebind_eq_Inr next_id_def Let_def authorize_ok)
  have db1: "db1 = ?db\<lparr>cs_decisions := cs_decisions db @ [d]\<rparr>"
    using steps(7,10) by (auto simp: claimDecision_insert_def ebind_eq_Inr insert_row_ok)
  have db2: "db2 = db1\<lparr>cs_claims := set_by cl_id i (status_set (outcome_status (dr_decision inp)) actor) (cs_claims db)\<rparr>"
    using steps(8) by (simp add: claim_updateStatus_ok db1)
  have "cd_id d = ?j"
    by (simp add: steps(10) decision_row_def)
  moreover obtain b ver where "score = (b, ver)"
    by (cases score)
  ultimately show ?thesis
    using steps(1-6,10-14) closeDispute_ok [OF steps(9)]
    by (intro exI [of _ seen] exI [of _ old] exI [of _ b] exI [of _ ver] exI [of _ dispute])
      (simp add: db1 db2 split: option.split)
qed

end
