(* ===== verification/Claim_Invariant.thy ===== *)
theory Claim_Invariant
  imports Claim_History
begin

text \<open>
  The claims service as a whole. The status of a claim is a function of its log of disputes and
  decisions; the invariant says that every committed state agrees with that function, that each
  decided dispute has its decision, and that nobody decides or disputes a claim of the own organization.
\<close>

inductive claim_step :: "ClaimStore \<Rightarrow> ClaimStore \<Rightarrow> ClaimStore \<Rightarrow> bool" where
  create: "claims_create env actor inp ctx snap db = Inr (c, db') \<Longrightarrow> claim_step snap db db'"
| dispute: "fileDispute env actor i req ctx snap db = Inr (p, db') \<Longrightarrow> claim_step snap db db'"
| decide: "decide env actor i dec ctx snap db = Inr (d, db') \<Longrightarrow> claim_step snap db db'"

definition claim_start :: "ClaimStore \<Rightarrow> bool" where
  "claim_start db \<longleftrightarrow> cs_claims db = [] \<and> cs_evidence db = [] \<and> cs_decisions db = [] \<and> cs_disputes db = []"

section \<open>How rows move\<close>

definition claim_record :: "Claim \<Rightarrow> Claim" where
  "claim_record c = c\<lparr>cl_status := Clm_FILED, cl_updatedByUserId := None, cl_version := 0\<rparr>"

definition claim_moves :: "Claim \<Rightarrow> Claim \<Rightarrow> bool" where
  "claim_moves x y \<longleftrightarrow> claim_record y = claim_record x \<and> (\<lambda>s t. t \<in> set (CLAIM_TRANSITIONS s))\<^sup>*\<^sup>* (cl_status x) (cl_status y)"

definition dispute_record :: "ClaimDispute \<Rightarrow> ClaimDispute" where
  "dispute_record d = d\<lparr>di_status := Dsp_OPEN, di_resolution := None, di_updatedByUserId := None, di_version := 0\<rparr>"

definition dispute_moves :: "ClaimDispute \<Rightarrow> ClaimDispute \<Rightarrow> bool" where
  "dispute_moves x y \<longleftrightarrow> y = x \<or> di_status x = Dsp_OPEN \<and> di_status y = Dsp_DECIDED \<and> dispute_record y = dispute_record x"

definition claim_keeps :: "ClaimStore \<Rightarrow> ClaimStore \<Rightarrow> bool" where
  "claim_keeps db db' \<longleftrightarrow>
     (\<exists>new. grows claim_moves new (cs_claims db) (cs_claims db')) \<and>
     (\<exists>new. grows dispute_moves new (cs_disputes db) (cs_disputes db')) \<and>
     (\<exists>new. cs_evidence db' = cs_evidence db @ new) \<and> (\<exists>new. cs_decisions db' = cs_decisions db @ new)"

lemma claim_moves_same [simp]: "claim_moves c c"
  by (simp add: claim_moves_def)

lemma dispute_moves_same [simp]: "dispute_moves d d"
  by (simp add: dispute_moves_def)

lemma claim_moves_trans: "claim_moves x y \<Longrightarrow> claim_moves y z \<Longrightarrow> claim_moves x z"
  by (auto simp: claim_moves_def)

lemma dispute_moves_trans: "dispute_moves x y \<Longrightarrow> dispute_moves y z \<Longrightarrow> dispute_moves x z"
  by (auto simp: dispute_moves_def)

lemma claim_moves_fixed:
  assumes "claim_moves x y"
  shows "cl_id y = cl_id x" "cl_claimantOrgId y = cl_claimantOrgId x"
proof -
  have "claim_record y = claim_record x"
    using assms by (simp add: claim_moves_def)
  from arg_cong [OF this, of cl_id] arg_cong [OF this, of cl_claimantOrgId]
  show "cl_id y = cl_id x" "cl_claimantOrgId y = cl_claimantOrgId x"
    by (simp_all add: claim_record_def)
qed

lemma status_set_simps [simp]:
  "cl_id (status_set s actor c) = cl_id c" "cl_status (status_set s actor c) = s"
  "claim_record (status_set s actor c) = claim_record c" "cl_claimantOrgId (status_set s actor c) = cl_claimantOrgId c"
  "cl_scoreBreakdown (status_set s actor c) = cl_scoreBreakdown c" "cl_scoreTotal (status_set s actor c) = cl_scoreTotal c"
  "cl_algorithmVersion (status_set s actor c) = cl_algorithmVersion c"
  by (simp_all add: status_set_def claim_record_def)

lemma decided_dispute_simps [simp]:
  "di_id (decided_dispute v actor d) = di_id d" "di_claimId (decided_dispute v actor d) = di_claimId d"
  "di_status (decided_dispute v actor d) = Dsp_DECIDED" "di_challengerOrgId (decided_dispute v actor d) = di_challengerOrgId d"
  "di_resolution (decided_dispute v actor d) = Some (disputeResolutionFor v)"
  "dispute_record (decided_dispute v actor d) = dispute_record d"
  by (simp_all add: decided_dispute_def dispute_record_def)

section \<open>The log of a claim\<close>

definition decisions_of :: "ClaimStore \<Rightarrow> string \<Rightarrow> ClaimDecision list" where
  "decisions_of db i = filter (\<lambda>d. cd_claimId d = i) (cs_decisions db)"

definition disputes_of :: "ClaimStore \<Rightarrow> string \<Rightarrow> ClaimDispute list" where
  "disputes_of db i = filter (\<lambda>d. di_claimId d = i) (cs_disputes db)"

text \<open>The abstract status: disputed while a dispute is open, otherwise the outcome of the last decision.\<close>

definition log_status :: "ClaimDecision list \<Rightarrow> ClaimDispute list \<Rightarrow> ClaimStatus" where
  "log_status ds ps =
     (if \<exists>p \<in> set ps. di_status p = Dsp_OPEN then Clm_DISPUTED
      else if ds = [] then Clm_SCORED else outcome_status (cd_decision (last ds)))"

text \<open>Every dispute but the last is decided, and the decided ones are, in order, those the decisions name.\<close>

definition log_matches :: "ClaimDecision list \<Rightarrow> ClaimDispute list \<Rightarrow> bool" where
  "log_matches ds ps \<longleftrightarrow>
     (\<forall>p \<in> set (butlast ps). di_status p = Dsp_DECIDED) \<and>
     (\<forall>p \<in> set ps. di_status p = Dsp_OPEN \<longrightarrow> di_resolution p = None) \<and>
     map (\<lambda>p. (Some (di_id p), di_resolution p)) (filter (\<lambda>p. di_status p = Dsp_DECIDED) ps) =
       map (\<lambda>d. (cd_disputeId d, Some (disputeResolutionFor (cd_decision d)))) (filter (\<lambda>d. cd_disputeId d \<noteq> None) ds)"

definition score_ok :: "ClaimDecision list \<Rightarrow> Claim \<Rightarrow> bool" where
  "score_ok ds c \<longleftrightarrow>
     (\<exists>b. cl_scoreBreakdown c = Some b \<and> cl_scoreTotal c = Some (sb_total b) \<and>
        cl_algorithmVersion c = Some (sb_algorithmVersion b) \<and> sb_algorithmVersion b \<noteq> [] \<and> assertBreakdown b = Inr () \<and>
        (\<forall>d \<in> set ds. cd_scoreBreakdown d = b \<and> cd_algorithmVersion d = sb_algorithmVersion b))"

definition claim_row_ok :: "ClaimStore \<Rightarrow> Claim \<Rightarrow> bool" where
  "claim_row_ok db c \<longleftrightarrow>
     cl_status c = log_status (decisions_of db (cl_id c)) (disputes_of db (cl_id c)) \<and>
     log_matches (decisions_of db (cl_id c)) (disputes_of db (cl_id c)) \<and>
     score_ok (decisions_of db (cl_id c)) c \<and>
     (\<forall>d \<in> set (decisions_of db (cl_id c)). cd_reviewerOrgId d \<noteq> cl_claimantOrgId c) \<and>
     (\<forall>p \<in> set (disputes_of db (cl_id c)). di_challengerOrgId p \<noteq> cl_claimantOrgId c)"

definition claim_ok :: "ClaimStore \<Rightarrow> bool" where
  "claim_ok db \<longleftrightarrow> distinct (map cl_id (cs_claims db)) \<and> distinct (map di_id (cs_disputes db)) \<and>
     (\<forall>c \<in> set (cs_claims db). claim_row_ok db c) \<and>
     cd_claimId ` set (cs_decisions db) \<subseteq> cl_id ` set (cs_claims db) \<and>
     di_claimId ` set (cs_disputes db) \<subseteq> cl_id ` set (cs_claims db)"

lemma claim_ok_parts:
  assumes "claim_ok db"
  shows "distinct (map cl_id (cs_claims db))" "distinct (map di_id (cs_disputes db))"
    "c \<in> set (cs_claims db) \<Longrightarrow> claim_row_ok db c"
    "cd_claimId ` set (cs_decisions db) \<subseteq> cl_id ` set (cs_claims db)"
    "di_claimId ` set (cs_disputes db) \<subseteq> cl_id ` set (cs_claims db)"
  using assms by (simp_all add: claim_ok_def)

lemma claim_row_ok_cong:
  assumes "decisions_of db' (cl_id c) = decisions_of db (cl_id c)" and "disputes_of db' (cl_id c) = disputes_of db (cl_id c)"
  shows "claim_row_ok db' c \<longleftrightarrow> claim_row_ok db c"
  unfolding claim_row_ok_def assms by (rule refl)

lemma found_claim:
  assumes "claim_ok db" and "claim_findById db i = Some old"
  shows "old \<in> set (cs_claims db)" "cl_id old = i" "claim_row_ok db old"
  using assms find_by_SomeD [of cl_id i "cs_claims db" old] by (auto simp: claim_ok_def claim_findById_def)

section \<open>The transitions of the log\<close>

lemma log_matches_open:
  assumes "log_matches ds ps" and "p \<in> set ps" and "di_status p = Dsp_OPEN"
  shows "ps = butlast ps @ [p]"
proof -
  have "ps \<noteq> []" "p \<notin> set (butlast ps)"
    using assms by (auto simp: log_matches_def)
  then have "set ps = insert (last ps) (set (butlast ps))" "ps = butlast ps @ [last ps]"
    by (metis append_butlast_last_id list.simps(15) rotate1.simps(2) set_rotate1) (simp add: \<open>ps \<noteq> []\<close>)
  then show ?thesis
    using assms(2) \<open>p \<notin> set (butlast ps)\<close> by auto
qed

text \<open>A new dispute on a claim without an open one.\<close>

lemma log_dispute:
  assumes "log_matches ds ps" and "\<forall>x \<in> set ps. di_status x \<noteq> Dsp_OPEN" and "di_status p = Dsp_OPEN" and "di_resolution p = None"
  shows "log_matches ds (ps @ [p])" "log_status ds (ps @ [p]) = Clm_DISPUTED"
proof -
  have "\<forall>x \<in> set ps. di_status x = Dsp_DECIDED"
    using assms(2) ClaimDisputeStatus.exhaust by metis
  then show "log_matches ds (ps @ [p])" "log_status ds (ps @ [p]) = Clm_DISPUTED"
    using assms by (auto simp: log_matches_def log_status_def)
qed

text \<open>A decision of an undisputed claim, and one that closes the open dispute.\<close>

lemma log_decision:
  assumes "log_matches ds ps" and "\<forall>x \<in> set ps. di_status x \<noteq> Dsp_OPEN" and "cd_disputeId d = None"
  shows "log_matches (ds @ [d]) ps" "log_status (ds @ [d]) ps = outcome_status (cd_decision d)"
  using assms by (auto simp: log_matches_def log_status_def)

lemma log_resolution:
  assumes m: "log_matches ds (ps @ [p])" and p: "di_status p = Dsp_OPEN"
    and q: "di_status q = Dsp_DECIDED" "di_id q = di_id p" "di_resolution q = Some (disputeResolutionFor (cd_decision d))"
    and d: "cd_disputeId d = Some (di_id p)"
  shows "log_matches (ds @ [d]) (ps @ [q])" "log_status (ds @ [d]) (ps @ [q]) = outcome_status (cd_decision d)"
proof -
  have closed: "\<forall>x \<in> set ps. di_status x = Dsp_DECIDED"
    using m by (simp add: log_matches_def)
  then show "log_status (ds @ [d]) (ps @ [q]) = outcome_status (cd_decision d)"
    using q by (auto simp: log_status_def)
  show "log_matches (ds @ [d]) (ps @ [q])"
    using m p q d closed by (auto simp: log_matches_def)
qed

text \<open>A request that read an older state still knows who filed the claim.\<close>

lemma same_claimant:
  assumes ok: "claim_ok db" and "claim_ok snap" and kept: "claim_keeps snap db"
    and seen: "claim_findById snap i = Some seen" and old: "claim_findById db i = Some old"
  shows "cl_claimantOrgId old = cl_claimantOrgId seen"
proof -
  note s = found_claim [OF assms(2) seen] and o = found_claim [OF ok old]
  obtain c where c: "c \<in> set (cs_claims db)" "claim_moves seen c"
    using kept s(1) grows_kept unfolding claim_keeps_def by metis
  then have "cl_id c = i"
    using claim_moves_fixed(1) s(2) by simp
  then have "c = old"
    using find_by_unique [OF claim_ok_parts(1) [OF ok] c(1)] old by (simp add: claim_findById_def)
  then show ?thesis
    using claim_moves_fixed(2) [OF c(2)] by simp
qed

section \<open>Every request keeps the invariant\<close>

lemma scoreClaim_version: "scoreClaim input = Inr b \<Longrightarrow> sb_algorithmVersion b = attribution_algorithmVersion"
  unfolding scoreClaim_def ebind_eq_Inr Let_def by (elim exE conjE) (simp only: sum.inject, auto)

lemma create_keeps_ok:
  assumes ok: "claim_ok db" and w: "claims_create env actor inp ctx snap db = Inr (c, db')"
  shows "claim_ok db' \<and> claim_keeps db db'"
proof -
  obtain b new where e: "scoreClaim (scoring_input (cl_id c) inp) = Inr b" "assertBreakdown b = Inr ()"
      "c = scored_claim env actor b (filed_claim env actor (cl_id c) inp)"
      "\<forall>x \<in> set (cs_claims db). cl_id x \<noteq> cl_id c" "cs_claims db' = cs_claims db @ [c]" "cs_evidence db' = cs_evidence db @ new"
      "cs_decisions db' = cs_decisions db" "cs_disputes db' = cs_disputes db"
    using create_effect [OF w] by blast
  note parts = claim_ok_parts [OF ok]
  have logs: "decisions_of db' j = decisions_of db j" "disputes_of db' j = disputes_of db j" for j
    by (simp_all add: decisions_of_def disputes_of_def e(7,8))
  have "cl_id c \<notin> cl_id ` set (cs_claims db)"
    using e(4) by (auto simp: image_iff)
  then have none: "decisions_of db (cl_id c) = []" "disputes_of db (cl_id c) = []"
    using parts(4,5) unfolding decisions_of_def disputes_of_def filter_empty_conv image_subset_iff by metis+
  have "sb_algorithmVersion b \<noteq> []"
    using scoreClaim_version [OF e(1)] by (simp add: attribution_algorithmVersion_def)
  moreover have fields: "cl_status c = Clm_SCORED" "cl_scoreBreakdown c = Some b" "cl_scoreTotal c = Some (sb_total b)"
      "cl_algorithmVersion c = Some (sb_algorithmVersion b)"
    by (subst e(3), simp add: scored_claim_def)+
  ultimately have "claim_row_ok db' c"
    using e(2) unfolding claim_row_ok_def logs none by (simp add: log_status_def log_matches_def score_ok_def)
  then have "claim_ok db'"
    using parts e(4) claim_row_ok_cong [OF logs] unfolding claim_ok_def e(5,7,8) by (auto simp: image_iff)
  moreover have "claim_keeps db db'"
    unfolding claim_keeps_def e(5-8) by (auto intro!: exI grows_append grows_same)
  ultimately show ?thesis by blast
qed

lemma claim_update_ok:
  assumes ok: "claim_ok db" and found: "claim_findById db i = Some old"
    and rows: "cs_claims db' = set_by cl_id i f (cs_claims db)" and key: "\<And>x. cl_id (f x) = cl_id x"
    and new: "claim_row_ok db' (f old)"
    and other: "\<And>j. j \<noteq> i \<Longrightarrow> decisions_of db' j = decisions_of db j \<and> disputes_of db' j = disputes_of db j"
    and refs: "cd_claimId ` set (cs_decisions db') \<subseteq> insert i (cd_claimId ` set (cs_decisions db))"
      "di_claimId ` set (cs_disputes db') \<subseteq> insert i (di_claimId ` set (cs_disputes db))"
    and distinct: "distinct (map di_id (cs_disputes db'))"
  shows "claim_ok db'"
proof -
  note parts = claim_ok_parts [OF ok]
  have f: "find_by cl_id i (cs_claims db) = Some old"
    using found by (simp add: claim_findById_def)
  have keys: "map cl_id (cs_claims db') = map cl_id (cs_claims db)"
    unfolding rows by (rule map_set_by) (rule key)
  then have ids: "cl_id ` set (cs_claims db') = cl_id ` set (cs_claims db)"
    by (metis list.set_map)
  have i: "i \<in> cl_id ` set (cs_claims db)"
    using find_by_SomeD [OF f] by blast
  have "claim_row_ok db' y" if y: "y \<in> set (cs_claims db')" for y
    using set_by_row [OF parts(1) f y [unfolded rows]]
  proof
    assume "y \<in> set (cs_claims db) \<and> cl_id y \<noteq> i"
    then show ?thesis
      using claim_row_ok_cong [of db' y db] other [of "cl_id y"] parts(3) by simp
  qed (use new in simp)
  moreover have "cd_claimId ` set (cs_decisions db') \<subseteq> cl_id ` set (cs_claims db)"
      "di_claimId ` set (cs_disputes db') \<subseteq> cl_id ` set (cs_claims db)"
    using order_trans [OF refs(1)] order_trans [OF refs(2)] i parts(4,5) by simp_all
  ultimately show ?thesis
    using parts(1) distinct unfolding claim_ok_def keys ids by blast
qed

lemma claim_update_grows:
  assumes "claim_ok db" and "claim_findById db i = Some old" and "s \<in> set (CLAIM_TRANSITIONS (cl_status old))"
  shows "grows claim_moves [] (cs_claims db) (set_by cl_id i (status_set s actor) (cs_claims db))"
  using assms by (intro set_by_grows) (auto simp: claim_ok_def claim_findById_def claim_moves_def)

lemma no_open_dispute:
  "dispute_findOpenByClaim db i = None \<longleftrightarrow> (\<forall>p \<in> set (disputes_of db i). di_status p \<noteq> Dsp_OPEN)"
  by (auto simp: dispute_findOpenByClaim_def disputes_of_def find_None_iff)

lemma fileDispute_keeps_ok:
  assumes ok: "claim_ok db" and seen_ok: "claim_ok snap" and kept: "claim_keeps snap db"
    and w: "fileDispute env actor i inp ctx snap db = Inr (d, db')"
  shows "claim_ok db' \<and> claim_keeps db db'"
proof -
  obtain seen old org where e: "claim_findById snap i = Some seen" "claim_findById db i = Some old"
      "organizationId actor = Some org" "org \<noteq> cl_claimantOrgId seen"
      "dispute_findOpenByClaim db (cl_id old) = None" "Clm_DISPUTED \<in> set (CLAIM_TRANSITIONS (cl_status old))"
      "d = new_dispute env actor i inp (di_id d)" "\<forall>x \<in> set (cs_disputes db). di_id x \<noteq> di_id d"
      "cs_disputes db' = cs_disputes db @ [d]"
      "cs_claims db' = set_by cl_id i (status_set Clm_DISPUTED actor) (cs_claims db)"
      "cs_evidence db' = cs_evidence db" "cs_decisions db' = cs_decisions db"
    using fileDispute_effect [OF w] by blast
  note old = found_claim [OF ok e(2)]
  have claimant: "cl_claimantOrgId old = cl_claimantOrgId seen"
    using same_claimant [OF ok seen_ok kept e(1,2)] .
  have d: "di_claimId d = i" "di_status d = Dsp_OPEN" "di_resolution d = None" "di_challengerOrgId d = org"
    by (subst e(7), simp add: new_dispute_def e(3))+
  have logs: "decisions_of db' j = decisions_of db j" "disputes_of db' j = disputes_of db j @ (if j = i then [d] else [])" for j
    by (simp_all add: decisions_of_def disputes_of_def e(9,12) d)
  have "\<forall>p \<in> set (disputes_of db i). di_status p \<noteq> Dsp_OPEN"
    using e(5) old(2) by (simp add: no_open_dispute)
  moreover have "log_matches (decisions_of db i) (disputes_of db i)"
    using old by (simp add: claim_row_ok_def)
  ultimately have "log_matches (decisions_of db i) (disputes_of db i @ [d])"
      "log_status (decisions_of db i) (disputes_of db i @ [d]) = Clm_DISPUTED"
    using log_dispute d(2,3) by blast+
  then have "claim_row_ok db' (status_set Clm_DISPUTED actor old)"
    using old(2,3) e(4) claimant d(4) unfolding claim_row_ok_def logs by (simp add: score_ok_def)
  then have "claim_ok db'"
    using claim_ok_parts(2) [OF ok] e(8) logs d(1)
    by (intro claim_update_ok [OF ok e(2,10)]) (auto simp: e(9,12) image_iff)
  moreover have "claim_keeps db db'"
    using claim_update_grows [OF ok e(2,6), of actor] unfolding claim_keeps_def e(9-12)
    by (auto intro!: exI grows_append)
  ultimately show ?thesis by blast
qed

lemma can_has_org: "allowed (can actor action resource context) \<Longrightarrow> organizationId actor \<noteq> None"
  by (auto simp: can_def split: option.splits if_splits)

text \<open>Closing the open dispute of a claim changes the last row of its log and no other log.\<close>

lemma close_log:
  assumes ok: "claim_ok db" and row: "log_matches (decisions_of db i) (disputes_of db i)"
    and p: "dispute_findOpenByClaim db i = Some p"
    and rows: "cs_disputes db' = set_by di_id (di_id p) (decided_dispute v actor) (cs_disputes db)"
  shows "di_status p = Dsp_OPEN" "disputes_of db i = butlast (disputes_of db i) @ [p]"
    "disputes_of db' i = butlast (disputes_of db i) @ [decided_dispute v actor p]"
    "j \<noteq> i \<Longrightarrow> disputes_of db' j = disputes_of db j"
    "grows dispute_moves [] (cs_disputes db) (cs_disputes db')"
proof -
  note d = claim_ok_parts(2) [OF ok]
  have mem: "p \<in> set (cs_disputes db)" "di_claimId p = i" and opn: "di_status p = Dsp_OPEN"
    using p by (auto simp: dispute_findOpenByClaim_def dest: find_SomeD)
  show "di_status p = Dsp_OPEN" by (rule opn)
  have "p \<in> set (disputes_of db i)"
    using mem by (simp add: disputes_of_def)
  from log_matches_open [OF row this opn]
  show split: "disputes_of db i = butlast (disputes_of db i) @ [p]" .
  have dd: "distinct (map di_id (disputes_of db i))"
    using d by (simp add: disputes_of_def distinct_map_filter)
  have "disputes_of db' i = set_by di_id (di_id p) (decided_dispute v actor) (disputes_of db i)"
    unfolding disputes_of_def rows by (rule filter_set_by) simp
  also have "\<dots> = butlast (disputes_of db i) @ [decided_dispute v actor p]"
    using set_by_last [of di_id "butlast (disputes_of db i)" p] dd split by metis
  finally show "disputes_of db' i = butlast (disputes_of db i) @ [decided_dispute v actor p]" .
  have found: "find_by di_id (di_id p) (cs_disputes db) = Some p"
    by (rule find_by_unique [OF d mem(1)])
  show "disputes_of db' j = disputes_of db j" if "j \<noteq> i"
    unfolding disputes_of_def rows
  proof (rule filter_set_by_same)
    fix x
    assume x: "x \<in> set (cs_disputes db)" "di_claimId x = j"
    show "di_id x \<noteq> di_id p"
    proof
      assume "di_id x = di_id p"
      then have "x = p"
        using find_by_unique [OF d x(1)] found by (metis option.inject)
      then show False
        using x(2) mem(2) that by simp
    qed
  qed simp
  show "grows dispute_moves [] (cs_disputes db) (cs_disputes db')"
    unfolding rows using d found opn by (intro set_by_grows) (auto simp: dispute_moves_def)
qed

lemma decide_keeps_ok:
  assumes ok: "claim_ok db" and seen_ok: "claim_ok snap" and kept: "claim_keeps snap db"
    and w: "decide env actor i inp ctx snap db = Inr (d, db')"
  shows "claim_ok db' \<and> claim_keeps db db'"
proof -
  let ?v = "dr_decision inp"
  obtain seen old b ver dispute where e: "claim_findById snap i = Some seen" "claim_findById db i = Some old"
      "allowed (can actor A_claim_decide \<lparr>rtype = R_claim, rid = None, ownerOrgId = Some (cl_claimantOrgId seen), privacyClass = None\<rparr> no_context)"
      "organizationId actor \<noteq> Some (cl_claimantOrgId seen)"
      "decidable ?v old = Inr (b, ver)" "openDispute db old = Inr dispute"
      "d = decision_row env actor i inp (b, ver) (map_option di_id dispute) (cd_id d)"
      "cs_decisions db' = cs_decisions db @ [d]"
      "cs_claims db' = set_by cl_id i (status_set (outcome_status ?v) actor) (cs_claims db)"
      "cs_disputes db' = (case dispute of None \<Rightarrow> cs_disputes db
         | Some p \<Rightarrow> set_by di_id (di_id p) (decided_dispute ?v actor) (cs_disputes db))"
      "cs_evidence db' = cs_evidence db"
    using decide_effect [OF w] by blast
  note old = found_claim [OF ok e(2)] and dec = e(5) [unfolded decidable_ok]
  have d: "cd_claimId d = i" "cd_decision d = ?v" "cd_disputeId d = map_option di_id dispute" "cd_scoreBreakdown d = b"
      "cd_algorithmVersion d = ver" "cd_reviewerOrgId d = the (organizationId actor)"
    by (subst e(7), simp add: decision_row_def)+
  have org: "cd_reviewerOrgId d \<noteq> cl_claimantOrgId old"
    using can_has_org [OF e(3)] e(4) d(6) same_claimant [OF ok seen_ok kept e(1,2)] by auto
  have log: "log_matches (decisions_of db i) (disputes_of db i)" "cl_status old = log_status (decisions_of db i) (disputes_of db i)"
    using old by (simp_all add: claim_row_ok_def)
  have decs: "decisions_of db' j = decisions_of db j @ (if j = i then [d] else [])" for j
    by (simp add: decisions_of_def e(8) d(1))
  have disp: "log_matches (decisions_of db i @ [d]) (disputes_of db' i) \<and>
      log_status (decisions_of db i @ [d]) (disputes_of db' i) = outcome_status ?v \<and>
      (\<forall>j. j \<noteq> i \<longrightarrow> disputes_of db' j = disputes_of db j) \<and> grows dispute_moves [] (cs_disputes db) (cs_disputes db') \<and>
      di_challengerOrgId ` set (disputes_of db' i) \<subseteq> di_challengerOrgId ` set (disputes_of db i) \<and>
      map (\<lambda>p. (di_id p, di_claimId p)) (cs_disputes db') = map (\<lambda>p. (di_id p, di_claimId p)) (cs_disputes db)"
  proof (cases dispute)
    case None
    then have "cl_status old = Clm_SCORED"
      using e(6) dec by (auto simp: openDispute_def split: if_splits option.splits)
    then have "\<forall>p \<in> set (disputes_of db i). di_status p \<noteq> Dsp_OPEN"
      using log(2) by (auto simp: log_status_def split: if_splits)
    moreover have "cs_disputes db' = cs_disputes db"
      using e(10) None by simp
    ultimately show ?thesis
      using log_decision [OF log(1), of d] d(2,3) None by (auto simp: disputes_of_def intro: grows_same)
  next
    case (Some p)
    then have p: "dispute_findOpenByClaim db i = Some p"
      using e(6) old(2) by (auto simp: openDispute_def split: if_splits option.splits)
    have rows: "cs_disputes db' = set_by di_id (di_id p) (decided_dispute ?v actor) (cs_disputes db)"
      using e(10) Some by simp
    note c = close_log [OF ok log(1) p rows]
    have "log_matches (decisions_of db i) (butlast (disputes_of db i) @ [p])"
      using log(1) c(2) by simp
    note r = log_resolution [OF this c(1), of "decided_dispute ?v actor p" d]
    have "di_challengerOrgId ` set (disputes_of db i) = insert (di_challengerOrgId p) (di_challengerOrgId ` set (butlast (disputes_of db i)))"
      by (subst c(2)) simp
    moreover have "map (\<lambda>p. (di_id p, di_claimId p)) (cs_disputes db') = map (\<lambda>p. (di_id p, di_claimId p)) (cs_disputes db)"
      unfolding rows by (rule map_set_by) simp
    ultimately show ?thesis
      using r c(3-5) d(2,3) Some by simp
  qed
  have "score_ok (decisions_of db i @ [d]) (status_set (outcome_status ?v) actor old)"
    using old dec d(4,5) by (auto simp: claim_row_ok_def score_ok_def)
  then have "claim_row_ok db' (status_set (outcome_status ?v) actor old)"
    using old org disp unfolding claim_row_ok_def decs by (auto simp: image_subset_iff)
  moreover have pairs: "map (\<lambda>p. (di_id p, di_claimId p)) (cs_disputes db') = map (\<lambda>p. (di_id p, di_claimId p)) (cs_disputes db)"
    using disp by blast
  have ids: "map di_id (cs_disputes db') = map di_id (cs_disputes db)"
    using arg_cong [OF pairs, of "map fst"] by (simp add: comp_def)
  have "map di_claimId (cs_disputes db') = map di_claimId (cs_disputes db)"
    using arg_cong [OF pairs, of "map snd"] by (simp add: comp_def)
  then have "di_claimId ` set (cs_disputes db') = di_claimId ` set (cs_disputes db)"
    by (metis list.set_map)
  ultimately have "claim_ok db'"
    using claim_ok_parts(2) [OF ok] disp decs d(1)
    by (intro claim_update_ok [OF ok e(2,9)]) (simp_all add: e(8) ids subset_insertI)
  moreover have "claim_keeps db db'"
    using claim_update_grows [OF ok e(2), of "outcome_status ?v" actor] dec disp unfolding claim_keeps_def e(8,9,11) by blast
  ultimately show ?thesis by blast
qed

section \<open>Histories\<close>

lemma claim_keeps_trans:
  assumes ab: "claim_keeps a b" and bc: "claim_keeps b c"
  shows "claim_keeps a c"
  unfolding claim_keeps_def
proof (intro conjI)
  show "\<exists>new. grows claim_moves new (cs_claims a) (cs_claims c)"
    using ab bc grows_trans claim_moves_trans unfolding claim_keeps_def by meson
  show "\<exists>new. grows dispute_moves new (cs_disputes a) (cs_disputes c)"
    using ab bc grows_trans dispute_moves_trans unfolding claim_keeps_def by meson
  show "\<exists>new. cs_evidence c = cs_evidence a @ new" "\<exists>new. cs_decisions c = cs_decisions a @ new"
    using ab bc unfolding claim_keeps_def by force+
qed

lemma claim_step_keeps:
  assumes "claim_step snap db db'" and "claim_ok snap" and "claim_keeps snap db" and "claim_ok db"
  shows "claim_ok db' \<and> claim_keeps db db'"
  using assms(1)
proof cases
  case create
  then show ?thesis by (rule create_keeps_ok [OF assms(4)])
next
  case dispute
  then show ?thesis by (rule fileDispute_keeps_ok [OF assms(4,2,3)])
next
  case decide
  then show ?thesis by (rule decide_keeps_ok [OF assms(4,2,3)])
qed

interpretation claims: request_history claim_step claim_start True claim_ok claim_keeps
proof unfold_locales
  show "claim_keeps db db" for db
    by (auto simp: claim_keeps_def intro!: exI grows_same)
  show "claim_keeps a c" if "claim_keeps a b" "claim_keeps b c" for a b c
    using that by (rule claim_keeps_trans)
qed (use claim_step_keeps in \<open>auto simp: claim_start_def claim_ok_def\<close>)

end
