(* ===== verification/Claim_Filing.thy ===== *)
theory Claim_Filing
  imports Claim_History
begin

text \<open>
  Filing a claim returns: every number of a score breakdown is finite, so the breakdown passes the
  guard of its JSON column, and a request the schema lets through is scored and stored.
\<close>

section \<open>The numbers of a breakdown\<close>

lemma within_finite: "js_within lo hi n \<Longrightarrow> js_isFinite n"
  by (auto elim!: js_withinE)

definition contribution_finite :: "ClaimEvidenceContribution \<Rightarrow> bool" where
  "contribution_finite c \<longleftrightarrow> js_isFinite (ec_basePoints c) \<and> js_isFinite (ec_multiplier c) \<and> js_isFinite (ec_contribution c) \<and>
     js_isFinite (js_Number (int (ec_index c)))"

definition breakdown_finite :: "ClaimScoreBreakdown \<Rightarrow> bool" where
  "breakdown_finite b \<longleftrightarrow>
     list_all js_isFinite [sb_history b, sb_proximity b, sb_evidence b, sb_time b, sb_weighted b, sb_total b] \<and>
     pred_option js_isFinite (sb_cappedFrom b) \<and> pred_option js_isFinite (sb_evidenceRawTotal b) \<and>
     list_all contribution_finite (sb_evidenceBreakdown b)"

lemma scoreEvidenceItem_finite:
  assumes ok: "item_ok item" and c: "scoreEvidenceItem (i, item) = Inr c" and i: "i < 2 ^ 32"
  shows "contribution_finite c" "js_within 0 40 (ec_contribution c)"
proof -
  obtain b where b: "object_lookup evidenceBasePoints (ei_evidenceType item) = Some b"
    "(ei_evidenceType item, b) \<in> set evidenceBasePoints"
    using lookup_known ok unfolding item_ok_def tables_cover [symmetric] set_map by blast
  obtain m where m: "object_lookup evidenceVerificationMultiplier (ei_verificationState item) = Some m"
    "(ei_verificationState item, m) \<in> set evidenceVerificationMultiplier"
    using lookup_known ok unfolding item_ok_def tables_cover [symmetric] set_map by blast
  show r: "js_within 0 40 (ec_contribution c)"
    using c b(1) m(1) points_range [OF b(2) m(2)] by (auto simp: scoreEvidenceItem_def)
  have fl: "js_isFinite (js_fl q)" if "0 \<le> q" "q \<le> 1" for q
    using that js_within_fl_int [of 0 q 1] within_finite by simp
  have "js_isFinite b" "js_isFinite m"
    using b(2) m(2) fl by (auto simp: evidenceBasePoints_def evidenceVerificationMultiplier_def)
  moreover have "ec_basePoints c = b" "ec_multiplier c = m" "ec_index c = i"
    using c b(1) m(1) by (auto simp: scoreEvidenceItem_def)
  moreover have "js_isFinite (js_Number (int i))"
    using i by (subst js_Number_small) auto
  ultimately show "contribution_finite c"
    using within_finite [OF r] by (simp add: contribution_finite_def)
qed

lemma scoreEvidence_finite:
  assumes ok: "\<forall>item \<in> set items. item_ok item" and n: "length items < 2 ^ 32" and r: "scoreEvidence items = Inr r"
  shows "js_isFinite (es_rawTotal r)" "list_all contribution_finite (es_items r)"
proof -
  obtain cs where cs: "list_all2 (\<lambda>p c. scoreEvidenceItem p = Inr c) (enumerate 0 items) cs" "es_items r = cs"
      "es_rawTotal r = claim_round1 (foldl (\<lambda>sum c. js_add sum (ec_contribution c)) (Fin 0) cs)"
    using r by (auto simp: scoreEvidence_def ebind_eq_Inr Let_def emap_eq_Inr)
  have each: "contribution_finite c \<and> js_within 0 40 (ec_contribution c)" if c: "c \<in> set cs" for c
  proof -
    obtain k where k: "k < length items" "scoreEvidenceItem (k, items ! k) = Inr c"
      using cs(1) c by (auto simp: list_all2_conv_all_nth in_set_conv_nth nth_enumerate_eq)
    moreover have "item_ok (items ! k)" "k < 2 ^ 32"
      using ok n k(1) by auto
    ultimately show ?thesis
      using scoreEvidenceItem_finite by blast
  qed
  then show "list_all contribution_finite (es_items r)"
    by (simp add: cs(2) list_all_iff)
  have "length cs = length items"
    using cs(1) by (auto dest: list_all2_lengthD)
  then show "js_isFinite (es_rawTotal r)"
    using sum_points_range [of cs] each n within_finite unfolding cs(3) by fastforce
qed

lemma scoreClaim_finite:
  assumes m: "si_priorCommercialHistoryMonths input = Fin m" "0 \<le> m" and d: "si_submissionLagDays input = Fin d" "0 \<le> d"
    and tier: "attribution_isDirectnessTier (si_directnessTier input)"
    and items: "\<forall>item \<in> set (si_evidenceItems input). item_ok item" "length (si_evidenceItems input) < 2 ^ 32"
  shows "\<exists>b. scoreClaim input = Inr b \<and> breakdown_finite b"
proof -
  obtain h where h: "claim_normalize (Fin m) (Fin 0) (Fin 36) = Inr h" "score_range h"
    using claim_normalize_range(1,3) [of 36 m] by auto
  obtain t where t: "claim_normalizeInvert (Fin d) (Fin 0) (Fin 60) = Inr t" "score_range t"
    using claim_normalize_range(2,4) [of 60 d] by auto
  obtain p where p: "map_of proximityScoreByTier (si_directnessTier input) = Some p" "score_range p"
    using proximity_range tier by blast
  obtain r where r: "scoreEvidence (si_evidenceItems input) = Inr r" "score_range (es_total r)"
    using scoreEvidence_ok items by fastforce
  note e = scoreEvidence_finite [OF items r(1)]
  have checks: "claim_assertFiniteNonNegative (Fin m) f = Inr ()" "claim_assertFiniteNonNegative (Fin d) f = Inr ()" for f
    using m(2) d(2) by (auto simp: claim_assert_ok)
  have "throw_if (\<not> attribution_isDirectnessTier (si_directnessTier input)) unknownTier = Inr ()"
    using tier by simp
  note eqs = m(1) d(1) checks this h(1) r(1) t(1)
  have "js_isFinite (claim_round1 h)" "js_isFinite (claim_round1 p)" "js_isFinite (claim_round1 (es_total r))" "js_isFinite (claim_round1 t)"
    using h(2) p(2) r(2) t(2) by (simp_all only: claim_round1_eq within_finite [OF round1_range])
  moreover have "total_ok (claim_round1 (js_add (js_add (js_add (js_mul h weight_history) (js_mul p weight_proximity))
      (js_mul (es_total r) weight_evidence)) (js_mul t weight_time)))" (is "total_ok ?w")
    using h(2) p(2) r(2) t(2) by (rule weighted_total)
  then have "js_isFinite ?w"
    by (auto simp: total_ok_def dest: within_finite)
  ultimately show ?thesis
    using e unfolding scoreClaim_def historyMonthsBand_def submissionLagDaysBand_def fst_conv snd_conv Let_def p(1) option.case
      eqs ebind_simps
    by - (rule exI, rule conjI, rule refl, simp add: breakdown_finite_def)
qed

section \<open>The breakdown as a JSON column\<close>

lemma breakdown_json:
  assumes "breakdown_finite b"
  shows "assertBreakdown b = Inr ()"
proof -
  obtain heap root where col: "breakdown_column b = (heap, VRef 0)" and root: "deref heap 0 = JObject root"
    and parts: "deref heap 1 = JArray (map (\<lambda>i. VRef (i + 3)) [0..<length (sb_evidenceBreakdown b)])"
      "deref heap 2 = JArray (map VString (sb_inputVersions b))"
      "\<And>i. i < length (sb_evidenceBreakdown b) \<Longrightarrow> deref heap (i + 3) = contribution_object (sb_evidenceBreakdown b ! i)"
    and entries: "root = [(''history'', VNumber (sb_history b)), (''proximity'', VNumber (sb_proximity b)),
         (''evidence'', VNumber (sb_evidence b)), (''time'', VNumber (sb_time b)), (''weighted'', VNumber (sb_weighted b)),
         (''total'', VNumber (sb_total b)), (''evidenceBreakdown'', VRef 1),
         (''algorithmVersion'', VString (sb_algorithmVersion b)), (''inputVersions'', VRef 2)] @
         optional_field ''cappedFrom'' (sb_cappedFrom b) @ optional_field ''evidenceRawTotal'' (sb_evidenceRawTotal b)"
    by (rule that [OF breakdown_column_def]) (auto simp: deref_def nth_append)
  have item: "json_tree heap (VRef (i + 3))" if i: "i < length (sb_evidenceBreakdown b)" for i
  proof (rule json_tree.tree_object)
    have "contribution_finite (sb_evidenceBreakdown b ! i)"
      using assms i by (simp add: breakdown_finite_def list_all_length)
    then show "json_tree heap x" if "x \<in> set (children (deref heap (i + 3)))" for x
      using that by (auto simp: parts(3) [OF i] contribution_object_def contribution_finite_def)
    show "keys_ok (deref heap (i + 3))"
      by (simp add: parts(3) [OF i] contribution_object_def DANGEROUS_JSON_KEYS_def)
  qed
  have arrays: "json_tree heap (VRef 1)" "json_tree heap (VRef 2)"
    by (rule json_tree.tree_object; use item parts(1,2) in auto)+
  have "json_tree heap (VRef 0)"
  proof (rule json_tree.tree_object)
    show "keys_ok (deref heap 0)"
      by (auto simp: root entries optional_field_def DANGEROUS_JSON_KEYS_def split: option.split)
    show "json_tree heap x" if "x \<in> set (children (deref heap 0))" for x
      using that assms arrays
      by (auto simp: root entries optional_field_def breakdown_finite_def pred_option_def split: option.splits)
  qed
  then show ?thesis
    using serializable_complete [of heap "VRef 0" "[]" "[]"]
    by (simp add: assertBreakdown_def col assertJsonSafePlainObject_def root)
qed

section \<open>A valid request is stored\<close>

text \<open>The identifier generator: it repeats nothing, and nothing of what it has left is in the tables.\<close>

definition ids_fresh :: "Env \<Rightarrow> ClaimStore \<Rightarrow> bool" where
  "ids_fresh env db \<longleftrightarrow> inj (uuid env) \<and>
     (\<forall>n. bs_ids db \<le> n \<longrightarrow> uuid env n \<notin> cl_id ` set (cs_claims db) \<union> ce_id ` set (cs_evidence db) \<union>
        cd_id ` set (cs_decisions db) \<union> di_id ` set (cs_disputes db))"

lemma evidence_createMany_succeeds:
  assumes "inj (uuid env)" and "\<forall>n. bs_ids db \<le> n \<longrightarrow> uuid env n \<notin> ce_id ` set (cs_evidence db)"
    and "\<forall>mk \<in> set mks. \<forall>i. ce_id (mk i) = i"
  shows "\<exists>db'. evidence_createMany env mks db = Inr db'"
  using assms(2,3)
proof (induction mks arbitrary: db)
  case (Cons mk mks)
  let ?i = "uuid env (bs_ids db)"
  let ?db = "db\<lparr>bs_ids := Suc (bs_ids db), cs_evidence := cs_evidence db @ [mk ?i]\<rparr>"
  have "ce_id (mk ?i) = ?i"
    using Cons.prems(2) by simp
  moreover have "?i \<notin> ce_id ` set (cs_evidence db)"
    using Cons.prems(1) by blast
  ultimately have "insert_row (\<lambda>x y. ce_id x = ce_id y) (mk ?i) (cs_evidence db) = Inr (cs_evidence db @ [mk ?i])"
    by (auto simp: insert_row_def image_iff)
  moreover have "uuid env n \<notin> ce_id ` set (cs_evidence ?db)" if "bs_ids ?db \<le> n" for n
  proof -
    have "uuid env n \<noteq> ?i" "uuid env n \<notin> ce_id ` set (cs_evidence db)"
      using that injD [OF assms(1), of n "bs_ids db"] Cons.prems(1) by auto
    then show ?thesis
      using \<open>ce_id (mk ?i) = ?i\<close> by auto
  qed
  then have "\<exists>db'. evidence_createMany env mks ?db = Inr db'"
    using Cons.prems(2) by (intro Cons.IH) auto
  ultimately show ?case
    by (simp add: next_id_def)
qed simp

lemma tier_known: "attribution_isDirectnessTier (directnessTier_name t)"
  by (cases t) (simp_all add: attribution_isDirectnessTier_def attribution_DIRECTNESS_TIERS_def)

lemma item_known:
  "item_ok \<lparr>ei_evidenceType = claimEvidenceType_name t, ei_verificationState = evidenceVerificationState_name v\<rparr>"
  by (cases t; cases v) (simp_all add: item_ok_def CLAIM_EVIDENCE_TYPES_literals_def EVIDENCE_VERIFICATION_STATES_literals_def)

lemma scope_json:
  assumes "ClaimScopeSchema v"
  shows "assertJsonSafePlainObject (fst v) (snd v) [] = Inr ()"
proof -
  obtain entries where v: "v = ([JObject entries], VRef 0)" and ok: "list_all scope_entry entries"
    using assms by (auto elim: ClaimScopeSchema.elims)
  have entry: "k \<in> fst ` set scope_limits \<and> (\<exists>s. x = VString s)" if "scope_entry (k, x)" for k x
  proof -
    have "(\<exists>s. x = VString s) \<and> map_of scope_limits k \<noteq> None"
      using that by (cases x) (auto split: option.splits)
    then show ?thesis
      by (metis map_of_eq_None_iff)
  qed
  have known: "k \<in> fst ` set scope_limits" "\<exists>s. x = VString s" if "(k, x) \<in> set entries" for k x
    using entry ok that by (auto simp: list_all_iff)
  have "json_tree [JObject entries] (VRef 0)"
  proof (rule json_tree.tree_object)
    show "keys_ok (deref [JObject entries] 0)"
      using known(1) by (fastforce simp: deref_def DANGEROUS_JSON_KEYS_def scope_limits_def)
    show "json_tree [JObject entries] x" if "x \<in> set (children (deref [JObject entries] 0))" for x
      using known(2) that by (fastforce simp: deref_def)
  qed
  then show ?thesis
    using serializable_complete [of "[JObject entries]" "VRef 0" "[]" "[]"]
    by (simp add: v assertJsonSafePlainObject_def deref_def)
qed

lemma empty_scope_json: "assertJsonSafePlainObject [JObject []] (VRef 0) [] = Inr ()"
  using scope_json [of "([JObject []], VRef 0)"] by simp

lemma valid_request_scored:
  assumes "CreateClaimRequestSchema inp"
  shows "\<exists>b. scoreClaim (scoring_input i inp) = Inr b \<and> breakdown_finite b"
proof (rule scoreClaim_finite)
  show "si_priorCommercialHistoryMonths (scoring_input i inp) = Fin (of_int (cq_priorCommercialHistoryMonths inp))"
    "si_submissionLagDays (scoring_input i inp) = Fin (of_int (cq_submissionLagDays inp))"
    using assms by (auto simp: scoring_input_def CreateClaimRequestSchema_def intro!: js_Number_small)
qed (use assms in \<open>auto simp: scoring_input_def CreateClaimRequestSchema_def tier_known item_known\<close>)

lemma create_succeeds:
  assumes valid: "CreateClaimRequestSchema inp" and org: "organizationId actor = Some org" "org \<noteq> []"
    and auth: "allowed (can actor A_claim_create \<lparr>rtype = R_claim, rid = None, ownerOrgId = Some org, privacyClass = None\<rparr> no_context)"
    and refs: "cq_subjectOrgId inp \<in> set (cs_organizations snap)"
      "truthy (cq_opportunityId inp) \<Longrightarrow> the (cq_opportunityId inp) \<in> set (cs_opportunities snap)"
    and ids: "ids_fresh env db"
  shows "\<exists>c db'. claims_create env actor inp ctx snap db = Inr (c, db')"
proof -
  let ?i = "uuid env (bs_ids db)"
  let ?filed = "filed_claim env actor ?i inp"
  let ?db = "db\<lparr>bs_ids := Suc (bs_ids db), cs_claims := cs_claims db @ [?filed]\<rparr>"
  obtain b where b: "scoreClaim (scoring_input ?i inp) = Inr b" "breakdown_finite b"
    using valid_request_scored [OF valid] by blast
  have scope: "assertJsonSafePlainObject (fst (cl_claimScope ?filed)) (snd (cl_claimScope ?filed)) [] = Inr ()"
    using valid scope_json empty_scope_json by (auto simp: CreateClaimRequestSchema_def filed_claim_def split: option.splits)
  have id: "cl_id ?filed = ?i"
    by (simp add: filed_claim_def)
  have "?i \<notin> cl_id ` set (cs_claims db)"
    using ids unfolding ids_fresh_def by blast
  then have insert: "claim_insert ?filed (db\<lparr>bs_ids := Suc (bs_ids db)\<rparr>) = Inr ?db"
    using scope id by (auto simp: claim_insert_def insert_row_def image_iff)
  obtain db2 where db2: "(if cq_evidenceItems inp \<noteq> []
      then evidence_createMany env (map (evidence_row env actor ?i) (cq_evidenceItems inp)) ?db else Inr ?db) = Inr db2"
      "find_by cl_id ?i (cs_claims db2) = Some ?filed"
  proof -
    have "\<exists>db2. evidence_createMany env (map (evidence_row env actor ?i) (cq_evidenceItems inp)) ?db = Inr db2"
      using ids by (intro evidence_createMany_succeeds) (auto simp: ids_fresh_def evidence_row_def)
    then obtain db2 where e: "evidence_createMany env (map (evidence_row env actor ?i) (cq_evidenceItems inp)) ?db = Inr db2"
      by blast
    then have "cs_claims db2 = cs_claims db @ [?filed]"
      using evidence_createMany_ok by fastforce
    moreover have "find_by cl_id ?i (cs_claims db @ [?filed]) = Some ?filed"
      using find_by_None [of cl_id ?i "cs_claims db"] \<open>?i \<notin> cl_id ` set (cs_claims db)\<close> id by (simp add: image_iff eq_commute)
    ultimately show thesis
      using that [of db2] that [of ?db] e by (cases "cq_evidenceItems inp = []") simp_all
  qed
  have strings: "assertStringArray [JArray (map VString vs)] (VRef 0) [] = Inr ()" for vs
    by (auto simp: assertStringArray_def deref_def efor_eq_Inr in_set_enumerate_eq)
  obtain c db3 where "claim_markScored ?i b (clock env) (clock env + PROVISIONAL_WINDOW_DAYS * 24 * 60 * 60 * 1000)
      (Some (userId actor)) db2 = Inr (c, db3)"
    using breakdown_json [OF b(2)] strings db2(2) by (simp add: claim_markScored_def update_by_def)
  moreover have "assertValidClaimTransition (claimStatus_name (cl_status ?filed)) ''SCORED'' = Inr ()"
    using claim_transition_ok [of Clm_FILED Clm_SCORED] by (simp add: filed_claim_def)
  moreover have "authorize actor A_claim_create R_claim (Some org) no_context = (Inr () :: claim_failure + unit)"
    using auth by (simp add: authorize_ok)
  ultimately show ?thesis
    using org refs b(1) insert db2(1) unfolding claims_create_def next_id_def
    by (simp add: Let_def throw_if_def)
qed

end
