(* ===== verification/Claim_Guarantees.thy ===== *)
theory Claim_Guarantees
  imports Claim_Invariant Claim_Filing
begin

text \<open>
  What the claims service guarantees in every history of filing, disputing and deciding, and for the
  reads; at the end a history that shows the hypotheses can hold.
\<close>

section \<open>Facts about the roles, the scores and the last write\<close>

lemma claim_readers:
  "r \<notin> set CROSS_ORG_CLAIM_READ_ROLES \<Longrightarrow> A_claim_read \<notin> set (crossOrgActions (AUTHORITY_MATRIX r))"
  by (cases r) (simp_all add: CROSS_ORG_CLAIM_READ_ROLES_def grant_defs)

lemma scored_multipliers:
  assumes "scoreClaim input = Inr b" and "\<forall>item \<in> set (si_evidenceItems input). item_ok item"
  shows "map (\<lambda>x. Some (ec_multiplier x)) (sb_evidenceBreakdown b) =
    map (\<lambda>item. map_of evidenceVerificationMultiplier (ei_verificationState item)) (si_evidenceItems input)"
proof -
  obtain r where r: "scoreEvidence (si_evidenceItems input) = Inr r" "sb_evidenceBreakdown b = es_items r"
    using assms(1) unfolding scoreClaim_def ebind_eq_Inr Let_def by (elim exE conjE) (simp only: sum.inject, auto)
  have all: "list_all2 (\<lambda>p c. scoreEvidenceItem p = Inr c) (enumerate 0 (si_evidenceItems input)) (es_items r)"
    using r(1) by (auto simp: scoreEvidence_def ebind_eq_Inr Let_def emap_eq_Inr)
  show ?thesis
  proof (rule nth_equalityI)
    show len: "length (map (\<lambda>x. Some (ec_multiplier x)) (sb_evidenceBreakdown b)) =
        length (map (\<lambda>item. map_of evidenceVerificationMultiplier (ei_verificationState item)) (si_evidenceItems input))"
      using list_all2_lengthD [OF all] by (simp add: r(2))
    fix k
    assume "k < length (map (\<lambda>x. Some (ec_multiplier x)) (sb_evidenceBreakdown b))"
    then have k: "k < length (es_items r)" "k < length (si_evidenceItems input)"
      using len by (simp_all add: r(2))
    let ?item = "si_evidenceItems input ! k"
    have score: "scoreEvidenceItem (k, ?item) = Inr (es_items r ! k)"
      using all k by (simp add: list_all2_conv_all_nth nth_enumerate_eq)
    have "ei_verificationState ?item \<in> fst ` set evidenceVerificationMultiplier"
      using assms(2) k(2) tables_cover(2) unfolding item_ok_def by (metis list.set_map nth_mem)
    then obtain m where m: "map_of evidenceVerificationMultiplier (ei_verificationState ?item) = Some m"
      by (metis map_of_eq_None_iff not_None_eq)
    then have "ec_multiplier x = m" if "scoreEvidenceItem (k, ?item) = Inr x" for x
      using that by (auto simp: scoreEvidenceItem_def object_lookup_def split: option.splits if_splits)
    from this [OF score] show "map (\<lambda>x. Some (ec_multiplier x)) (sb_evidenceBreakdown b) ! k =
        map (\<lambda>item. map_of evidenceVerificationMultiplier (ei_verificationState item)) (si_evidenceItems input) ! k"
      using k m by (simp add: r(2))
  qed
qed

lemma outcome_allowed:
  "s = Clm_SCORED \<or> s = Clm_DISPUTED \<Longrightarrow> outcome_status v \<in> set (CLAIM_TRANSITIONS s)"
  by (cases v) auto

lemma decide_appends:
  assumes "decide env actor i inp ctx snap db = Inr (d, db')"
  shows "cs_decisions db' = cs_decisions db @ [d]" "cd_claimId d = i"
proof -
  obtain b ver and dispute :: "ClaimDispute option" where d: "d = decision_row env actor i inp (b, ver) (map_option di_id dispute) (cd_id d)"
      "cs_decisions db' = cs_decisions db @ [d]"
    using decide_effect [OF assms] by blast
  show "cs_decisions db' = cs_decisions db @ [d]"
    by (rule d(2))
  show "cd_claimId d = i"
    by (subst d(1)) (simp add: decision_row_def)
qed

lemma decide_succeeds:
  assumes ok: "claim_ok db" and found: "claim_findById db i = Some c"
    and status: "cl_status c = Clm_SCORED \<or> cl_status c = Clm_DISPUTED"
    and auth: "allowed (can actor A_claim_decide \<lparr>rtype = R_claim, rid = None, ownerOrgId = Some (cl_claimantOrgId c), privacyClass = None\<rparr> no_context)"
    and other: "organizationId actor \<noteq> Some (cl_claimantOrgId c)" and ids: "ids_fresh env db"
  shows "\<exists>d db'. decide env actor i inp ctx db db = Inr (d, db')"
proof -
  let ?j = "uuid env (bs_ids db)"
  note row = found_claim [OF ok found]
  obtain b where b: "cl_scoreBreakdown c = Some b" "cl_algorithmVersion c = Some (sb_algorithmVersion b)"
      "sb_algorithmVersion b \<noteq> []" "assertBreakdown b = Inr ()"
    using row(3) by (auto simp: claim_row_ok_def score_ok_def)
  have dec: "decidable (dr_decision inp) c = Inr (b, sb_algorithmVersion b)"
    unfolding decidable_ok using status b outcome_allowed by simp
  obtain dispute where dispute: "openDispute db c = Inr dispute"
      "\<And>p. dispute = Some p \<Longrightarrow> \<exists>q. find_by di_id (di_id p) (cs_disputes db) = Some q"
  proof (cases "cl_status c = Clm_DISPUTED")
    case True
    then have "\<exists>p \<in> set (disputes_of db i). di_status p = Dsp_OPEN"
      using row by (auto simp: claim_row_ok_def log_status_def split: if_splits)
       (metis ClaimStatus.distinct outcome_status.elims)+
    then obtain p where p: "dispute_findOpenByClaim db i = Some p"
      using no_open_dispute by (metis not_None_eq)
    then have "p \<in> set (cs_disputes db)"
      by (auto simp: dispute_findOpenByClaim_def dest: find_SomeD)
    then have "find_by di_id (di_id p) (cs_disputes db) = Some p"
      by (rule find_by_unique [OF claim_ok_parts(2) [OF ok]])
    then show ?thesis
      using that [of "Some p"] p True row(2) by (simp add: openDispute_def)
  next
    case False
    then show ?thesis
      using that [of None] by (simp add: openDispute_def)
  qed
  let ?row = "decision_row env actor i inp (b, sb_algorithmVersion b) (map_option di_id dispute) ?j"
  let ?db = "db\<lparr>bs_ids := Suc (bs_ids db), cs_decisions := cs_decisions db @ [?row]\<rparr>"
  have "?j \<notin> cd_id ` set (cs_decisions db)"
    using ids unfolding ids_fresh_def by blast
  then have insert: "claimDecision_insert ?row (db\<lparr>bs_ids := Suc (bs_ids db)\<rparr>) = Inr ?db"
    using b(4) by (auto simp: claimDecision_insert_def decision_row_def insert_row_def image_iff)
  let ?db2 = "?db\<lparr>cs_claims := set_by cl_id i (status_set (outcome_status (dr_decision inp)) actor) (cs_claims db)\<rparr>"
  have update: "claim_updateStatus i (outcome_status (dr_decision inp)) (Some (userId actor)) ?db =
      Inr (status_set (outcome_status (dr_decision inp)) actor c, ?db2)"
    unfolding claim_updateStatus_ok using found by (simp add: claim_findById_def)
  have "\<exists>db3. closeDispute env actor c inp ctx dispute ?db2 = Inr db3"
    using dispute(2) by (cases dispute) (auto simp: closeDispute_def dispute_markDecided_def update_by_def Let_def)
  then obtain db3 where "closeDispute env actor c inp ctx dispute ?db2 = Inr db3"
    by blast
  moreover have "authorize actor A_claim_decide R_claim (Some (cl_claimantOrgId c)) no_context = (Inr () :: claim_failure + unit)"
    using auth by (simp add: authorize_ok)
  ultimately show ?thesis
    using found other dec dispute(1) insert update by (simp add: decide_def next_id_def Let_def throw_if_def)
qed

section \<open>Histories\<close>

text \<open>C17. The status of a claim is its log, in every state the service reaches under every interleaving of
  filing, disputing and deciding: a claim is DISPUTED exactly while it has an open dispute, of which
  there is then exactly one; otherwise it has the outcome of its last decision, or is SCORED when there
  is none. The disputes that are decided are, one to one and in order, those the decisions refer to,
  each with the resolution that belongs to the outcome.\<close>

theorem claim_status_is_its_log:
  assumes "request_run claim_step claim_start True hist" and "db \<in> set hist" and "c \<in> set (cs_claims db)"
  shows "cl_status c = log_status (decisions_of db (cl_id c)) (disputes_of db (cl_id c)) \<and>
    length (filter (\<lambda>p. di_status p = Dsp_OPEN) (disputes_of db (cl_id c))) = (if cl_status c = Clm_DISPUTED then 1 else 0) \<and>
    map (\<lambda>p. (Some (di_id p), di_resolution p)) (filter (\<lambda>p. di_status p = Dsp_DECIDED) (disputes_of db (cl_id c))) =
      map (\<lambda>d. (cd_disputeId d, Some (disputeResolutionFor (cd_decision d))))
        (filter (\<lambda>d. cd_disputeId d \<noteq> None) (decisions_of db (cl_id c)))"
proof -
  let ?ds = "decisions_of db (cl_id c)" and ?ps = "disputes_of db (cl_id c)"
  have "claim_row_ok db c"
    using claims.run_inv [OF assms(1,2)] assms(3) by (rule claim_ok_parts(3))
  then have status: "cl_status c = log_status ?ds ?ps" and log: "log_matches ?ds ?ps"
    by (simp_all add: claim_row_ok_def)
  have "length (filter (\<lambda>p. di_status p = Dsp_OPEN) ?ps) = (if log_status ?ds ?ps = Clm_DISPUTED then 1 else 0)"
  proof (cases "\<exists>p \<in> set ?ps. di_status p = Dsp_OPEN")
    case True
    then obtain p where p: "p \<in> set ?ps" "di_status p = Dsp_OPEN"
      by blast
    have closed: "\<forall>q \<in> set (butlast ?ps). di_status q = Dsp_DECIDED"
      using log by (simp add: log_matches_def)
    have "length (filter (\<lambda>p. di_status p = Dsp_OPEN) (butlast ?ps @ [p])) = 1"
      using closed p(2) by simp
    then show ?thesis
      using True log_matches_open [OF log p] by (simp add: log_status_def)
  next
    case False
    then have "log_status ?ds ?ps \<noteq> Clm_DISPUTED"
      by (cases "cd_decision (last ?ds)") (auto simp: log_status_def)
    then show ?thesis
      using False by (simp add: filter_empty_conv)
  qed
  then show ?thesis
    using status log by (simp add: log_matches_def)
qed

text \<open>C18. Nobody certifies itself: in every reachable state each decision belongs to a stored claim that
  another organization filed and keeps a copy of the score breakdown of that claim, and each dispute
  was filed by another organization than the claimant.\<close>

theorem no_self_certification:
  assumes "request_run claim_step claim_start True hist" and "db \<in> set hist"
  shows "(\<forall>d \<in> set (cs_decisions db). \<exists>c. claim_findById db (cd_claimId d) = Some c \<and>
      cd_reviewerOrgId d \<noteq> cl_claimantOrgId c \<and> cl_scoreBreakdown c = Some (cd_scoreBreakdown d)) \<and>
    (\<forall>p \<in> set (cs_disputes db). \<exists>c. claim_findById db (di_claimId p) = Some c \<and> di_challengerOrgId p \<noteq> cl_claimantOrgId c)"
proof -
  note ok = claims.run_inv [OF assms] and parts = claim_ok_parts [OF claims.run_inv [OF assms]]
  have find: "claim_findById db (cl_id c) = Some c" if "c \<in> set (cs_claims db)" for c
    using find_by_unique [OF parts(1) that] by (simp add: claim_findById_def)
  have "\<exists>c. claim_findById db (cd_claimId d) = Some c \<and> cd_reviewerOrgId d \<noteq> cl_claimantOrgId c \<and>
      cl_scoreBreakdown c = Some (cd_scoreBreakdown d)" if d: "d \<in> set (cs_decisions db)" for d
  proof -
    obtain c where c: "c \<in> set (cs_claims db)" "cd_claimId d = cl_id c"
      using parts(4) d by blast
    moreover have "d \<in> set (decisions_of db (cl_id c))"
      using d c(2) by (simp add: decisions_of_def)
    ultimately show ?thesis
      using parts(3) [OF c(1)] find by (auto simp: claim_row_ok_def score_ok_def)
  qed
  moreover have "\<exists>c. claim_findById db (di_claimId p) = Some c \<and> di_challengerOrgId p \<noteq> cl_claimantOrgId c"
    if p: "p \<in> set (cs_disputes db)" for p
  proof -
    obtain c where c: "c \<in> set (cs_claims db)" "di_claimId p = cl_id c"
      using parts(5) p by blast
    moreover have "p \<in> set (disputes_of db (cl_id c))"
      using p c(2) by (simp add: disputes_of_def)
    ultimately show ?thesis
      using parts(3) [OF c(1)] find by (auto simp: claim_row_ok_def)
  qed
  ultimately show ?thesis by blast
qed

text \<open>A filed claim is permanent: in every later state it is still there with the same claimant, subject,
  scope, scoring input, score breakdown and expiry; its status has only moved along the transitions of
  the claim lifecycle, so a rejection is final; its decisions are an extension of what they were, and
  the evidence table only grows.\<close>

theorem claim_record_permanent:
  assumes "request_run claim_step claim_start True (later @ db' # between @ db # earlier)" and "c \<in> set (cs_claims db)"
  shows "\<exists>c'. claim_findById db' (cl_id c) = Some c' \<and> claim_record c' = claim_record c \<and>
    (\<lambda>s t. t \<in> set (CLAIM_TRANSITIONS s))\<^sup>*\<^sup>* (cl_status c) (cl_status c') \<and>
    (cl_status c = Clm_REJECTED \<longrightarrow> cl_status c' = Clm_REJECTED) \<and>
    (\<exists>new. decisions_of db' (cl_id c) = decisions_of db (cl_id c) @ new) \<and> (\<exists>new. cs_evidence db' = cs_evidence db @ new)"
proof -
  have kept: "claim_keeps db db'"
    by (rule claims.run_keeps [OF assms(1)])
  have ok: "claim_ok db'"
    by (rule claims.run_inv [OF assms(1)]) simp
  obtain c' where c': "c' \<in> set (cs_claims db')" "claim_moves c c'"
    using kept assms(2) grows_kept unfolding claim_keeps_def by metis
  have "claim_findById db' (cl_id c) = Some c'"
    using find_by_unique [OF claim_ok_parts(1) [OF ok] c'(1)] claim_moves_fixed(1) [OF c'(2)] by (simp add: claim_findById_def)
  moreover have "\<exists>new. decisions_of db' (cl_id c) = decisions_of db (cl_id c) @ new"
    using kept by (auto simp: claim_keeps_def decisions_of_def)
  moreover have "\<exists>new. cs_evidence db' = cs_evidence db @ new"
    using kept unfolding claim_keeps_def by (elim conjE)
  moreover have moved: "claim_record c' = claim_record c" "(\<lambda>s t. t \<in> set (CLAIM_TRANSITIONS s))\<^sup>*\<^sup>* (cl_status c) (cl_status c')"
    using c'(2) by (simp_all add: claim_moves_def)
  moreover have "t = Clm_REJECTED" if "(\<lambda>s t. t \<in> set (CLAIM_TRANSITIONS s))\<^sup>*\<^sup>* Clm_REJECTED t" for t
    using that by (induction rule: rtranclp_induct) auto
  then have "cl_status c = Clm_REJECTED \<longrightarrow> cl_status c' = Clm_REJECTED"
    using moved(2) by metis
  ultimately show ?thesis
    by (intro exI [of _ c'] conjI)
qed

text \<open>C19. An open claim can always be closed: in every reachable state a claim that is SCORED or DISPUTED can
  be decided, with any of the three outcomes, by every reviewer the matrix allows who is not of the
  claimant's organization. The request succeeds (none of the consistency errors of the code can occur),
  the claim has the outcome afterwards and no dispute of it is open.\<close>

theorem open_claim_decidable:
  assumes run: "request_run claim_step claim_start True hist" "db \<in> set hist" and found: "claim_findById db i = Some c"
    and status: "cl_status c = Clm_SCORED \<or> cl_status c = Clm_DISPUTED"
    and auth: "allowed (can actor A_claim_decide \<lparr>rtype = R_claim, rid = None, ownerOrgId = Some (cl_claimantOrgId c), privacyClass = None\<rparr> no_context)"
    and other: "organizationId actor \<noteq> Some (cl_claimantOrgId c)" and ids: "ids_fresh env db"
  shows "\<exists>d db' c'. decide env actor i inp ctx db db = Inr (d, db') \<and> claim_findById db' i = Some c' \<and>
    cl_status c' = outcome_status (dr_decision inp) \<and> dispute_findOpenByClaim db' i = None"
proof -
  note ok = claims.run_inv [OF run]
  obtain d db' where w: "decide env actor i inp ctx db db = Inr (d, db')"
    using decide_succeeds [OF ok found status auth other ids] by blast
  have ok': "claim_ok db'"
    using decide_keeps_ok [OF ok ok claims.keeps_refl w] by blast
  have "cs_claims db' = set_by cl_id i (status_set (outcome_status (dr_decision inp)) actor) (cs_claims db)"
    using decide_effect [OF w] by blast
  then have c': "claim_findById db' i = Some (status_set (outcome_status (dr_decision inp)) actor c)"
    using found find_by_set_by [of cl_id "status_set (outcome_status (dr_decision inp)) actor" i i "cs_claims db"]
    by (simp add: claim_findById_def)
  have "log_status (decisions_of db' i) (disputes_of db' i) = outcome_status (dr_decision inp)"
    using found_claim(2,3) [OF ok' c'] by (simp add: claim_row_ok_def)
  then have "\<forall>p \<in> set (disputes_of db' i). di_status p \<noteq> Dsp_OPEN"
    by (cases "dr_decision inp") (auto simp: log_status_def split: if_splits)
  then show ?thesis
    using w c' by (simp add: no_open_dispute)
qed

section \<open>Filing and reading\<close>

text \<open>Filing succeeds: every request the schema accepts, from an actor the matrix allows, about a known
  organization and, if given, a known opportunity, is scored and stored. The arithmetic never leaves
  the finite numbers, so neither the scoring checks nor the guards of the JSON columns refuse it; the
  new claim is SCORED, belongs to the organization of the actor, and expires 30 days after scoring.\<close>

theorem claim_filing_succeeds:
  assumes valid: "CreateClaimRequestSchema inp" and org: "organizationId actor = Some org" "org \<noteq> []"
    and auth: "allowed (can actor A_claim_create \<lparr>rtype = R_claim, rid = None, ownerOrgId = Some org, privacyClass = None\<rparr> no_context)"
    and refs: "cq_subjectOrgId inp \<in> set (cs_organizations snap)"
      "cq_opportunityId inp = None \<or> the (cq_opportunityId inp) \<in> set (cs_opportunities snap)"
    and ids: "ids_fresh env db"
  shows "\<exists>c db'. claims_create env actor inp ctx snap db = Inr (c, db') \<and> cs_claims db' = cs_claims db @ [c] \<and>
    cl_status c = Clm_SCORED \<and> cl_claimantOrgId c = org \<and> cl_provisionalExpiresAt c = Some (clock env + 2592000000) \<and>
    (\<exists>b. cl_scoreBreakdown c = Some b \<and> breakdown_finite b)"
proof -
  have "truthy (cq_opportunityId inp) \<Longrightarrow> the (cq_opportunityId inp) \<in> set (cs_opportunities snap)"
    using refs(2) by auto
  then obtain c db' where w: "claims_create env actor inp ctx snap db = Inr (c, db')"
    using create_succeeds [OF valid org auth refs(1) _ ids] by blast
  obtain b where e: "scoreClaim (scoring_input (cl_id c) inp) = Inr b"
      "c = scored_claim env actor b (filed_claim env actor (cl_id c) inp)" "cs_claims db' = cs_claims db @ [c]"
    using create_effect [OF w] by blast
  have "breakdown_finite b"
    using valid_request_scored [OF valid, of "cl_id c"] e(1) by auto
  moreover have "cl_status c = Clm_SCORED" "cl_claimantOrgId c = org" "cl_provisionalExpiresAt c = Some (clock env + 2592000000)"
      "cl_scoreBreakdown c = Some b"
    by (subst e(2), simp add: scored_claim_def filed_claim_def org(1) PROVISIONAL_WINDOW_DAYS_def)+
  ultimately show ?thesis
    using w e(3) by blast
qed

text \<open>Competing records stay private: whoever does not hold one of the cross-organization reader roles
  reads and lists only claims of its own organization and is never shown a rank.\<close>

theorem claim_reads_isolated:
  assumes "claims_getById parse env actor i db = Inr detail" and "claims_list actor db' = Inr cs"
    and reader: "role actor \<notin> Some ` set CROSS_ORG_CLAIM_READ_ROLES"
  shows "organizationId actor = Some (cl_claimantOrgId (dt_claim detail)) \<and> dt_rank detail = None \<and>
    (\<forall>c \<in> set cs. organizationId actor = Some (cl_claimantOrgId c))"
proof -
  have auth: "allowed (can actor A_claim_read \<lparr>rtype = R_claim, rid = None,
      ownerOrgId = Some (cl_claimantOrgId (dt_claim detail)), privacyClass = None\<rparr> no_context)" and rank: "dt_rank detail = None"
    using assms(1) reader by (auto simp: claims_getById_def ebind_eq_Inr authorize_ok)
  have "organizationId actor = Some (cl_claimantOrgId (dt_claim detail))"
    using auth
  proof (rule can_allow_cases)
    fix r org
    assume "role actor = Some r" and "organizationId actor = Some org"
      and "A_claim_read \<in> set (crossOrgActions (AUTHORITY_MATRIX r)) \<or>
        isParticipant no_context \<and> A_claim_read \<in> set (participantActions (AUTHORITY_MATRIX r)) \<or>
        rtype \<lparr>rtype = R_claim, rid = None, ownerOrgId = Some (cl_claimantOrgId (dt_claim detail)), privacyClass = None\<rparr> \<noteq> R_commission_accrual \<and>
        ownerOrgId \<lparr>rtype = R_claim, rid = None, ownerOrgId = Some (cl_claimantOrgId (dt_claim detail)), privacyClass = None\<rparr> = Some org"
    then show ?thesis
      using reader claim_readers [of r] by (auto simp: no_context_def)
  qed
  moreover have "organizationId actor = Some (cl_claimantOrgId c)" if "c \<in> set cs" for c
    using assms(2) reader that
    by (cases "organizationId actor") (auto simp: claims_list_def claim_listByClaimant_def ebind_eq_Inr split: if_splits)
  ultimately show ?thesis
    using rank by blast
qed

text \<open>C20. The claimant grades its own evidence: whatever verification state the request gives for an item is
  stored and decides the weight of that item in the score, so a claimant that writes OPERATOR_VERIFIED
  gets the full weight although no operator has looked at the item.\<close>

theorem claimed_verification_trusted:
  assumes "claims_create env actor inp ctx snap db = Inr (c, db')"
  shows "\<exists>b new. cs_evidence db' = cs_evidence db @ new \<and>
    map (\<lambda>e. (ce_claimId e, ce_evidenceType e, ce_verificationState e)) new =
      map (\<lambda>item. (cl_id c, it_evidenceType item, item_state item)) (cq_evidenceItems inp) \<and>
    cl_scoreBreakdown c = Some b \<and>
    map (\<lambda>x. Some (ec_multiplier x)) (sb_evidenceBreakdown b) =
      map (\<lambda>item. map_of evidenceVerificationMultiplier (evidenceVerificationState_name (item_state item))) (cq_evidenceItems inp)"
proof -
  obtain b new where e: "scoreClaim (scoring_input (cl_id c) inp) = Inr b"
      "c = scored_claim env actor b (filed_claim env actor (cl_id c) inp)" "cs_evidence db' = cs_evidence db @ new"
      "map (\<lambda>e. (ce_claimId e, ce_evidenceType e, ce_verificationState e)) new =
        map (\<lambda>item. (cl_id c, it_evidenceType item, item_state item)) (cq_evidenceItems inp)"
    using create_effect [OF assms] by blast
  have "\<forall>item \<in> set (si_evidenceItems (scoring_input (cl_id c) inp)). item_ok item"
    by (auto simp: scoring_input_def item_known)
  note scored_multipliers [OF e(1) this]
  moreover have "cl_scoreBreakdown c = Some b"
    by (subst e(2)) (simp add: scored_claim_def)
  ultimately show ?thesis
    using e(3,4) by (intro exI [of _ b] exI [of _ new]) (simp add: scoring_input_def comp_def)
qed

section \<open>A history\<close>

definition claim_env :: Env where
  "claim_env = \<lparr>uuid = (\<lambda>n. replicate (Suc n) (CHR ''x'')), clock = 0, toISOString = (\<lambda>_. ''t'')\<rparr>"

definition claim_ctx :: RequestContext where
  "claim_ctx = \<lparr>requestId = ''q'', correlationId = ''q'', ipClass = ''i'', userAgentClass = ''u''\<rparr>"

definition claim_request :: "ClaimEvidenceItemInput list \<Rightarrow> CreateClaimRequest" where
  "claim_request items =
     \<lparr>cq_subjectOrgId = ''s'', cq_relationshipType = ''referral'', cq_directnessTier = Tier_D4, cq_opportunityId = None,
      cq_claimScope = None, cq_priorCommercialHistoryMonths = 24, cq_submissionLagDays = 5, cq_evidenceItems = items\<rparr>"

definition verified_item :: ClaimEvidenceItemInput where
  "verified_item = \<lparr>it_evidenceType = Ev_CONTRACT, it_assertedFact = ''f'', it_verificationState = Some Vs_OPERATOR_VERIFIED,
     it_evidenceRef = None\<rparr>"

definition verify_request :: DecideClaimRequest where
  "verify_request = \<lparr>dr_decision = Out_VERIFIED, dr_reason = ''r''\<rparr>"

definition no_claims :: ClaimStore where
  "no_claims = \<lparr>bs_ids = 0, bs_audit = [], bs_timeline = [], cs_organizations = [''s''], cs_opportunities = [],
     cs_claims = [], cs_evidence = [], cs_decisions = [], cs_disputes = []\<rparr>"

abbreviation agent :: Actor where
  "agent \<equiv> example_actor CONTRIBUTOR_AGENT ''c''"

abbreviation reviewer :: Actor where
  "reviewer \<equiv> example_actor MARKETPLACE_OPERATOR ''t''"

lemma claim_demo_auth:
  "allowed (can agent A_claim_create \<lparr>rtype = R_claim, rid = None, ownerOrgId = Some ''c'', privacyClass = None\<rparr> no_context)"
  "allowed (can agent A_claim_read \<lparr>rtype = R_claim, rid = None, ownerOrgId = Some ''c'', privacyClass = None\<rparr> no_context)"
  "allowed (can agent A_claim_list \<lparr>rtype = R_claim, rid = None, ownerOrgId = Some ''c'', privacyClass = None\<rparr> no_context)"
  "allowed (can reviewer A_claim_decide \<lparr>rtype = R_claim, rid = None, ownerOrgId = Some ''c'', privacyClass = None\<rparr> no_context)"
  by (simp_all add: can_def example_actor_def grant_defs no_context_def)

lemma claim_demo_start:
  "ids_fresh claim_env no_claims" "claim_start no_claims" "organizationId agent = Some ''c''" "organizationId reviewer = Some ''t''"
  "cq_subjectOrgId (claim_request items) \<in> set (cs_organizations no_claims)" "cq_opportunityId (claim_request items) = None"
  by (simp_all add: ids_fresh_def claim_env_def no_claims_def claim_start_def example_actor_def claim_request_def inj_def)

lemma claim_demo_valid: "CreateClaimRequestSchema (claim_request [])" "CreateClaimRequestSchema (claim_request [verified_item])"
  by (simp_all add: CreateClaimRequestSchema_def claim_request_def text_within_def ClaimEvidenceItemInputSchema_def verified_item_def)

lemma claim_demo_created:
  assumes "items = [] \<or> items = [verified_item]"
  shows "\<exists>c db. claims_create claim_env agent (claim_request items) claim_ctx no_claims no_claims = Inr (c, db)"
  using assms claim_demo_valid claim_demo_auth(1) claim_demo_start
    create_succeeds [of "claim_request items" agent "''c''" no_claims claim_env no_claims claim_ctx] by fastforce

definition demo_filed :: "claim_failure + Claim \<times> ClaimStore" where
  "demo_filed = claims_create claim_env agent (claim_request []) claim_ctx no_claims no_claims"

definition demo_claim :: Claim where
  "demo_claim = fst (projr demo_filed)"

definition demo_claims :: ClaimStore where
  "demo_claims = snd (projr demo_filed)"

lemma demo_filed_eq: "claims_create claim_env agent (claim_request []) claim_ctx no_claims no_claims = Inr (demo_claim, demo_claims)"
  using claim_demo_created [of "[]"] by (auto simp: demo_claim_def demo_claims_def demo_filed_def)

lemma demo_filed_run: "request_run claim_step claim_start True [demo_claims, no_claims]"
proof (rule request_run.commit)
  show "request_run claim_step claim_start True [no_claims]"
    by (rule request_run.initial) (rule claim_demo_start(2))
  show "claim_step no_claims no_claims demo_claims"
    by (rule claim_step.create [OF demo_filed_eq])
qed simp

text \<open>The generator of the later request.\<close>

definition later_env :: Env where
  "later_env = \<lparr>uuid = (\<lambda>n. cl_id demo_claim @ replicate (Suc n) (CHR ''y'')), clock = 1, toISOString = (\<lambda>_. ''t'')\<rparr>"

lemma demo_filed_facts:
  "cs_claims demo_claims = [demo_claim]" "cl_status demo_claim = Clm_SCORED" "cl_claimantOrgId demo_claim = ''c''"
  "claim_findById demo_claims (cl_id demo_claim) = Some demo_claim" "ids_fresh later_env demo_claims" "demo_claim \<in> set (cs_claims demo_claims)"
  "cs_decisions demo_claims = []"
proof -
  obtain b new where e: "demo_claim = scored_claim claim_env agent b (filed_claim claim_env agent (cl_id demo_claim) (claim_request []))"
      "cs_claims demo_claims = cs_claims no_claims @ [demo_claim]" "cs_evidence demo_claims = cs_evidence no_claims @ new"
      "map (\<lambda>e. (ce_claimId e, ce_evidenceType e, ce_verificationState e)) new =
        map (\<lambda>item. (cl_id demo_claim, it_evidenceType item, item_state item)) (cq_evidenceItems (claim_request []))"
      "cs_decisions demo_claims = cs_decisions no_claims" "cs_disputes demo_claims = cs_disputes no_claims"
    using create_effect [OF demo_filed_eq] by blast
  show rows: "cs_claims demo_claims = [demo_claim]" "demo_claim \<in> set (cs_claims demo_claims)"
    by (simp_all add: e(2) no_claims_def)
  show "cl_status demo_claim = Clm_SCORED" "cl_claimantOrgId demo_claim = ''c''"
    by (subst e(1), simp add: scored_claim_def filed_claim_def claim_demo_start)+
  show "claim_findById demo_claims (cl_id demo_claim) = Some demo_claim"
    by (simp add: claim_findById_def rows(1) find_by_def)
  have "new = []"
    using e(4) by (simp add: claim_request_def)
  then have empty: "cs_evidence demo_claims = []" "cs_decisions demo_claims = []" "cs_disputes demo_claims = []"
    using e(3,5,6) by (simp_all add: no_claims_def)
  show "cs_decisions demo_claims = []"
    by (rule empty(2))
  have "inj (uuid later_env)"
    unfolding later_env_def inj_def by (simp add: replicate_eq_replicate)
  then show "ids_fresh later_env demo_claims"
    by (simp add: ids_fresh_def rows(1) empty) (simp add: later_env_def)
qed

lemma demo_decided:
  "\<exists>d db. decide later_env reviewer (cl_id demo_claim) verify_request claim_ctx demo_claims demo_claims = Inr (d, db) \<and>
     cs_decisions db = [d] \<and> cd_claimId d = cl_id demo_claim \<and> request_run claim_step claim_start True [db, demo_claims, no_claims]"
proof -
  have ok: "claim_ok demo_claims"
    using claims.run_inv [OF demo_filed_run] by simp
  obtain d db where w: "decide later_env reviewer (cl_id demo_claim) verify_request claim_ctx demo_claims demo_claims = Inr (d, db)"
    using decide_succeeds [OF ok demo_filed_facts(4) _ _ _ demo_filed_facts(5)] demo_filed_facts(2,3) claim_demo_auth(4) claim_demo_start(4)
    by fastforce
  note decide_appends [OF w]
  moreover have "request_run claim_step claim_start True [db, demo_claims, no_claims]"
    using request_run.commit [OF demo_filed_run _ claim_step.decide [OF w]] by simp
  ultimately show ?thesis
    using w demo_filed_facts(7) by auto
qed

theorem claim_status_is_its_log_witness:
  "log_status (decisions_of demo_claims (cl_id demo_claim)) (disputes_of demo_claims (cl_id demo_claim)) = Clm_SCORED"
  using claim_status_is_its_log [OF demo_filed_run _ demo_filed_facts(6)] demo_filed_facts(2) by simp

theorem no_self_certification_witness:
  "\<exists>d db c. cs_decisions db = [d] \<and> claim_findById db (cl_id demo_claim) = Some c \<and> cd_reviewerOrgId d \<noteq> cl_claimantOrgId c"
proof -
  obtain d db where d: "cs_decisions db = [d]" "cd_claimId d = cl_id demo_claim" "request_run claim_step claim_start True [db, demo_claims, no_claims]"
    using demo_decided by blast
  then show ?thesis
    using no_self_certification [OF d(3), of db] by fastforce
qed

theorem claim_record_permanent_witness:
  "\<exists>db c'. cs_decisions db \<noteq> [] \<and> claim_findById db (cl_id demo_claim) = Some c' \<and> claim_record c' = claim_record demo_claim"
proof -
  obtain d db where d: "cs_decisions db = [d]" "request_run claim_step claim_start True [db, demo_claims, no_claims]"
    using demo_decided by blast
  then have "request_run claim_step claim_start True ([] @ db # [] @ demo_claims # [no_claims])"
    by simp
  from claim_record_permanent [OF this demo_filed_facts(6)] d(1) show ?thesis
    by (metis not_Cons_self2)
qed

theorem open_claim_decidable_witness:
  "\<exists>d db c'. decide later_env reviewer (cl_id demo_claim) verify_request claim_ctx demo_claims demo_claims = Inr (d, db) \<and>
     claim_findById db (cl_id demo_claim) = Some c' \<and> cl_status c' = Clm_VERIFIED"
proof -
  have "cl_status demo_claim = Clm_SCORED \<or> cl_status demo_claim = Clm_DISPUTED" "organizationId reviewer \<noteq> Some (cl_claimantOrgId demo_claim)"
    "allowed (can reviewer A_claim_decide \<lparr>rtype = R_claim, rid = None, ownerOrgId = Some (cl_claimantOrgId demo_claim), privacyClass = None\<rparr> no_context)"
    using demo_filed_facts(2,3) claim_demo_auth(4) claim_demo_start(4) by simp_all
  then have "\<exists>d db c'. decide later_env reviewer (cl_id demo_claim) verify_request claim_ctx demo_claims demo_claims = Inr (d, db) \<and>
      claim_findById db (cl_id demo_claim) = Some c' \<and> cl_status c' = outcome_status (dr_decision verify_request) \<and>
      dispute_findOpenByClaim db (cl_id demo_claim) = None"
    using open_claim_decidable [OF demo_filed_run _ demo_filed_facts(4) _ _ _ demo_filed_facts(5)] by simp
  then show ?thesis
    by (auto simp: verify_request_def)
qed

theorem claim_filing_succeeds_witness:
  "\<exists>c db. claims_create claim_env agent (claim_request [verified_item]) claim_ctx no_claims no_claims = Inr (c, db) \<and>
     cl_provisionalExpiresAt c = Some 2592000000"
  using claim_filing_succeeds [OF claim_demo_valid(2) claim_demo_start(3) _ claim_demo_auth(1) claim_demo_start(5) _ claim_demo_start(1)]
    claim_demo_start(6) by (fastforce simp: claim_env_def)

theorem claim_reads_isolated_witness:
  "\<exists>detail cs. claims_getById (\<lambda>_. None) claim_env agent (cl_id demo_claim) demo_claims = Inr detail \<and>
     claims_list agent demo_claims = Inr cs \<and> dt_rank detail = None"
proof -
  have role: "role agent \<notin> Some ` set CROSS_ORG_CLAIM_READ_ROLES"
    by (auto simp: example_actor_def CROSS_ORG_CLAIM_READ_ROLES_def)
  have "authorize agent A_claim_read R_claim (Some ''c'') no_context = (Inr () :: claim_failure + unit)"
      "authorize agent A_claim_list R_claim (Some ''c'') no_context = (Inr () :: claim_failure + unit)"
    using claim_demo_auth(2,3) by (simp_all add: authorize_ok)
  then obtain detail cs where r: "claims_getById (\<lambda>_. None) claim_env agent (cl_id demo_claim) demo_claims = Inr detail"
      "claims_list agent demo_claims = Inr cs"
    using role demo_filed_facts(3,4) claim_demo_start(3) by (simp add: claims_getById_def claims_list_def)
  then show ?thesis
    using claim_reads_isolated [OF r role] by blast
qed

theorem claimed_verification_trusted_witness:
  "\<exists>c db e b x. claims_create claim_env agent (claim_request [verified_item]) claim_ctx no_claims no_claims = Inr (c, db) \<and>
     cs_evidence db = [e] \<and> ce_verificationState e = Vs_OPERATOR_VERIFIED \<and>
     cl_scoreBreakdown c = Some b \<and> sb_evidenceBreakdown b = [x] \<and> ec_multiplier x = Fin 1"
proof -
  obtain c db where w: "claims_create claim_env agent (claim_request [verified_item]) claim_ctx no_claims no_claims = Inr (c, db)"
    using claim_demo_created by blast
  have none: "cs_evidence no_claims = []" "cq_evidenceItems (claim_request [verified_item]) = [verified_item]"
    by (simp_all add: no_claims_def claim_request_def)
  have "map_of evidenceVerificationMultiplier (evidenceVerificationState_name (item_state verified_item)) = Some (Fin 1)"
      "item_state verified_item = Vs_OPERATOR_VERIFIED"
    by (simp_all add: verified_item_def item_state_def evidenceVerificationMultiplier_def)
  then show ?thesis
    using claimed_verification_trusted [OF w] w unfolding none by (fastforce simp: map_eq_Cons_conv)
qed

end
