(* ===== verification/Passport_Service.thy ===== *)
theory Passport_Service
  imports Evidence Row_Updates
begin

text \<open>
  \<open>apps/api/src/modules/passport/service.ts\<close> and \<open>apps/worker/src/jobs/passport-readiness.job.ts\<close>
  over the tables of their repositories. The readiness engine is that of \<open>Evidence\<close>, the decision
  about the status that of \<open>Passport_States\<close>. \<open>snap\<close> is the state the reads before the transaction
  saw, \<open>db\<close> the state at the time the advisory lock of the passport is granted. The jobs an
  operation enqueues after its commit run as requests of their own.
\<close>

section \<open>Tables\<close>

text \<open>Columns that are only filled with the default of the schema and never read are left out.\<close>

record Passport =
  ps_id :: string
  ps_organizationId :: string
  ps_status :: PassportStatus
  ps_createdByUserId :: "string option"
  ps_createdByOrgId :: "string option"
  ps_updatedByUserId :: "string option"
  ps_version :: int
  ps_createdAt :: int

record Fact =
  pf_id :: string
  pf_passportId :: string
  pf_sectionType :: PassportSectionType
  pf_fieldKey :: string
  pf_value :: "jsobj list \<times> jsval"
  pf_verification :: FactProvenance
  pf_evidenceId :: "string option"
  pf_createdByUserId :: "string option"
  pf_createdByOrgId :: "string option"
  pf_updatedByUserId :: "string option"
  pf_version :: int
  pf_updatedAt :: int

record PassportEvidence =
  pe_id :: string
  pe_passportId :: string
  pe_type :: EvidenceSourceKind
  pe_objectRef :: string
  pe_checksum :: "string option"
  pe_issuer :: "string option"
  pe_collectedAt :: int
  pe_expiresAt :: "int option"
  pe_createdByUserId :: "string option"
  pe_createdByOrgId :: "string option"
  pe_createdAt :: int

record ReadinessResult =
  rd_id :: string
  rd_passportId :: string
  rd_score :: js_number
  rd_blockers :: "ReadinessNote list"
  rd_warnings :: "ReadinessNote list"
  rd_ruleVersion :: string
  rd_algorithmVersion :: string
  rd_inputVersions :: "string list"
  rd_computedAt :: int
  rd_createdByUserId :: "string option"
  rd_createdByOrgId :: "string option"
  rd_sourceType :: string

record PassportStore = Base +
  pp_passports :: "Passport list"
  pp_facts :: "Fact list"
  pp_evidence :: "PassportEvidence list"
  pp_readiness :: "ReadinessResult list"
  pp_jobKeys :: "bool IdempotencyKey list"

section \<open>Repositories\<close>

definition passport_findById :: "PassportStore \<Rightarrow> string \<Rightarrow> Passport option" where
  "passport_findById db i = find_by ps_id i (pp_passports db)"

definition passport_findByOrganizationId :: "PassportStore \<Rightarrow> string \<Rightarrow> Passport option" where
  "passport_findByOrganizationId db org = find_by ps_organizationId org (pp_passports db)"

definition passport_list :: "PassportStore \<Rightarrow> nat \<Rightarrow> Passport list" where
  "passport_list db limit = take limit (sort_key (\<lambda>p. - ps_createdAt p) (pp_passports db))"

definition passport_insert :: "Passport \<Rightarrow> PassportStore \<Rightarrow> DbError + PassportStore" where
  "passport_insert p db =
     ebind (insert_row (\<lambda>x y. ps_id x = ps_id y \<or> ps_organizationId x = ps_organizationId y) p (pp_passports db)) (\<lambda>rows.
     Inr (db\<lparr>pp_passports := rows\<rparr>))"

definition passport_updateStatus ::
  "string \<Rightarrow> PassportStatus \<Rightarrow> string option \<Rightarrow> PassportStore \<Rightarrow> DbError + Passport \<times> PassportStore" where
  "passport_updateStatus i status by db =
     ebind (update_by ps_id i (\<lambda>p. p\<lparr>ps_status := status, ps_updatedByUserId := by, ps_version := ps_version p + 1\<rparr>)
       (pp_passports db)) (\<lambda>(p, rows).
     Inr (p, db\<lparr>pp_passports := rows\<rparr>))"

text \<open>\<open>orderBy: [sectionType, fieldKey]\<close>: the order of the enumeration, then of the text.\<close>

fun section_rank :: "PassportSectionType \<Rightarrow> nat" where
  "section_rank Sec_IDENTITY = 0"
| "section_rank Sec_RELATIONSHIP_HISTORY = 1"
| "section_rank Sec_PROCESSING_METRICS = 2"
| "section_rank Sec_RISK = 3"
| "section_rank Sec_COMMERCIAL = 4"
| "section_rank Sec_TECHNICAL = 5"

definition fact_listByPassport :: "PassportStore \<Rightarrow> string \<Rightarrow> Fact list" where
  "fact_listByPassport db i =
     sort_key (\<lambda>f. section_rank (pf_sectionType f)) (sort_key pf_fieldKey (filter (\<lambda>f. pf_passportId f = i) (pp_facts db)))"

definition fact_same :: "Fact \<Rightarrow> Fact \<Rightarrow> bool" where
  "fact_same f f' \<longleftrightarrow> pf_passportId f = pf_passportId f' \<and> pf_fieldKey f = pf_fieldKey f'"

definition fact_replace :: "Fact \<Rightarrow> Fact \<Rightarrow> Fact" where
  "fact_replace new f =
     f\<lparr>pf_sectionType := pf_sectionType new, pf_value := pf_value new, pf_verification := pf_verification new,
       pf_evidenceId := pf_evidenceId new, pf_updatedByUserId := pf_updatedByUserId new, pf_version := pf_version f + 1,
       pf_updatedAt := pf_updatedAt new\<rparr>"

text \<open>Insert or replace by passport and field key; \<open>new\<close> carries the input.\<close>

definition fact_upsert :: "Fact \<Rightarrow> PassportStore \<Rightarrow> DbError + Fact \<times> PassportStore" where
  "fact_upsert new db =
     ebind (map_err JsonShape (assertJsonSerializableValue (fst (pf_value new)) (snd (pf_value new)) [])) (\<lambda>_.
     case find (fact_same new) (pp_facts db) of
       Some f \<Rightarrow> Inr (fact_replace new f,
         db\<lparr>pp_facts := map (\<lambda>f. if fact_same new f then fact_replace new f else f) (pp_facts db)\<rparr>)
     | None \<Rightarrow>
         ebind (insert_row (\<lambda>x y. pf_id x = pf_id y) (new\<lparr>pf_updatedByUserId := None\<rparr>) (pp_facts db)) (\<lambda>rows.
         Inr (new\<lparr>pf_updatedByUserId := None\<rparr>, db\<lparr>pp_facts := rows\<rparr>)))"

definition pevidence_findById :: "PassportStore \<Rightarrow> string \<Rightarrow> PassportEvidence option" where
  "pevidence_findById db i = find_by pe_id i (pp_evidence db)"

definition pevidence_listByPassport :: "PassportStore \<Rightarrow> string \<Rightarrow> PassportEvidence list" where
  "pevidence_listByPassport db i =
     take 500 (sort_key (\<lambda>e. - pe_createdAt e) (filter (\<lambda>e. pe_passportId e = i) (pp_evidence db)))"

definition pevidence_insert :: "PassportEvidence \<Rightarrow> PassportStore \<Rightarrow> DbError + PassportStore" where
  "pevidence_insert e db =
     ebind (insert_row (\<lambda>x y. pe_id x = pe_id y) e (pp_evidence db)) (\<lambda>rows. Inr (db\<lparr>pp_evidence := rows\<rparr>))"

definition readiness_findLatest :: "PassportStore \<Rightarrow> string \<Rightarrow> ReadinessResult option" where
  "readiness_findLatest db i =
     (case sort_key (\<lambda>r. - rd_computedAt r) (filter (\<lambda>r. rd_passportId r = i) (pp_readiness db)) of
        [] \<Rightarrow> None | r # _ \<Rightarrow> Some r)"

text \<open>The blockers and warnings as JSON columns: an array of objects of three strings. The name of the
  message stands for its text.\<close>

fun readinessMessage_name :: "ReadinessMessage \<Rightarrow> string" where
  "readinessMessage_name MissingFact = ''missing''"
| "readinessMessage_name ExpiredFact = ''expired''"
| "readinessMessage_name ApproachingExpiry = ''approaching expiry''"
| "readinessMessage_name SelfReportedOnly = ''self-reported only''"

definition note_object :: "ReadinessNote \<Rightarrow> jsobj" where
  "note_object n =
     JObject [(''fieldKey'', VString (rn_fieldKey n)), (''sectionType'', VString (passportSectionType_name (rn_sectionType n))),
       (''message'', VString (readinessMessage_name (rn_message n)))]"

definition notes_heap :: "ReadinessNote list \<Rightarrow> jsobj list" where
  "notes_heap ns = JArray (map (\<lambda>i. VRef (Suc i)) [0..<length ns]) # map note_object ns"

definition readiness_insert :: "ReadinessResult \<Rightarrow> PassportStore \<Rightarrow> DbError + PassportStore" where
  "readiness_insert r db =
     ebind (map_err JsonShape (assertJsonSafeObjectArray (notes_heap (rd_blockers r)) (VRef 0) [])) (\<lambda>_.
     ebind (map_err JsonShape (assertJsonSafeObjectArray (notes_heap (rd_warnings r)) (VRef 0) [])) (\<lambda>_.
     ebind (map_err JsonShape (assertStringArray [JArray (map VString (rd_inputVersions r))] (VRef 0) [])) (\<lambda>_.
     ebind (insert_row (\<lambda>x y. rd_id x = rd_id y) r (pp_readiness db)) (\<lambda>rows. Inr (db\<lparr>pp_readiness := rows\<rparr>)))))"

section \<open>Errors and requests\<close>

datatype PassportProblem = ForeignEvidence

datatype PassportUnhandled = PspDb DbError | PspReadiness ReadinessError | PspAge | PspInvalidDate

type_synonym passport_failure = "(PassportProblem, PassportUnhandled) failure"

definition pdb :: "DbError + 'a \<Rightarrow> passport_failure + 'a" where
  "pdb = map_err (\<lambda>e. Unhandled (PspDb e))"

definition ptrans :: "DomainTransitionError + 'a \<Rightarrow> passport_failure + 'a" where
  "ptrans = map_err Transition"

record UpsertFactRequest =
  uq_sectionType :: PassportSectionType
  uq_fieldKey :: string
  uq_normalizedValue :: "jsobj list \<times> jsval"
  uq_verification :: "FactProvenance option"
  uq_evidenceId :: "string option"

record CreateEvidenceRequest =
  eq_type :: EvidenceSourceKind
  eq_objectRef :: string
  eq_checksum :: "string option"
  eq_issuer :: "string option"
  eq_collectedAt :: string
  eq_expiresAt :: "string option"

record PassportDetail =
  pd_passport :: Passport
  pd_facts :: "Fact list"
  pd_evidence :: "PassportEvidence list"
  pd_readiness :: "ReadinessResult option"

definition CROSS_ORG_PASSPORT_READ_ROLES :: "PersonaRole list" where
  "CROSS_ORG_PASSPORT_READ_ROLES =
     [PLATFORM_OWNER, MARKETPLACE_OPERATOR, PARTNERSHIP_LEAD, UNDERWRITING_ANALYST, COMPLIANCE_REVIEWER, AUDITOR_READONLY]"

definition READINESS_STALE_AFTER_DAYS :: int where
  "READINESS_STALE_AFTER_DAYS = 90"

section \<open>Recomputing the readiness\<close>

text \<open>The evidence a fact points at; an empty identifier counts as none.\<close>

definition fact_evidence :: "PassportStore \<Rightarrow> Fact \<Rightarrow> PassportEvidence option" where
  "fact_evidence db f = (if truthy (pf_evidenceId f) then pevidence_findById db (the (pf_evidenceId f)) else None)"

definition fact_expiry :: "PassportStore \<Rightarrow> Fact \<Rightarrow> int option" where
  "fact_expiry db f = (case fact_evidence db f of None \<Rightarrow> None | Some e \<Rightarrow> pe_expiresAt e)"

definition fact_snapshot :: "PassportStore \<Rightarrow> Fact \<Rightarrow> FactSnapshot" where
  "fact_snapshot db f =
     \<lparr>fs_fieldKey = pf_fieldKey f, fs_sectionType = pf_sectionType f, fs_hasValue = (snd (pf_value f) \<noteq> VNull),
      fs_verification = pf_verification f, fs_expiresAt = fact_expiry db f, fs_updatedAt = pf_updatedAt f\<rparr>"

definition buildSnapshots :: "PassportStore \<Rightarrow> string \<Rightarrow> FactSnapshot list" where
  "buildSnapshots db i = map (fact_snapshot db) (fact_listByPassport db i)"

definition readiness_row ::
  "string \<Rightarrow> string \<Rightarrow> ReadinessResultShape \<Rightarrow> int \<Rightarrow> string option \<Rightarrow> string option \<Rightarrow> string \<Rightarrow> ReadinessResult" where
  "readiness_row i passportId result now user org source =
     \<lparr>rd_id = i, rd_passportId = passportId, rd_score = rr_score result, rd_blockers = rr_blockers result,
      rd_warnings = rr_warnings result, rd_ruleVersion = rr_ruleVersion result,
      rd_algorithmVersion = rr_algorithmVersion result, rd_inputVersions = rr_inputVersions result, rd_computedAt = now,
      rd_createdByUserId = user, rd_createdByOrgId = org, rd_sourceType = source\<rparr>"

definition readiness_counts :: "ReadinessResultShape \<Rightarrow> (string \<times> jvalue) list" where
  "readiness_counts result =
     [(''score'', JDouble (rr_score result)), (''blockerCount'', JNum (int (length (rr_blockers result)))),
      (''warningCount'', JNum (int (length (rr_warnings result))))]"

definition passport_event ::
  "string option \<Rightarrow> string option \<Rightarrow> string \<Rightarrow> string \<Rightarrow> (string \<times> jvalue) list \<Rightarrow> TimelineWriteInput" where
  "passport_event user org etype i payload =
     \<lparr>tl_eventType = etype, tl_aggregateType = ''passport'', tl_aggregateId = i, tl_payload = payload,
      tl_actorUserId = user, tl_actorOrgId = org, tl_actorRole = None\<rparr>"

text \<open>What the service and the job do alike once they have read the facts: they differ in who acts, in
  the source and in the trigger they record.\<close>

definition recompute_with ::
  "Env \<Rightarrow> RequestContext option \<Rightarrow> string option \<Rightarrow> string option \<Rightarrow> string \<Rightarrow> (string \<times> jvalue) list \<Rightarrow> int \<Rightarrow>
   Passport \<Rightarrow> string list \<Rightarrow> PassportStore \<Rightarrow> passport_failure + (ReadinessResult \<times> PassportStatus) \<times> PassportStore" where
  "recompute_with env ctx user org source trigger now passport inputVersions db =
     (let i = ps_id passport; facts = fact_listByPassport db i in
      ebind (map_err (\<lambda>e. Unhandled (PspReadiness e))
        (computeReadiness (buildSnapshots db i) now inputVersions requiredFacts)) (\<lambda>result.
      let (rid, db) = next_id env db; row = readiness_row rid i result now user org source in
      ebind (pdb (readiness_insert row db)) (\<lambda>db.
      let db = write_audit env ctx \<lparr>au_actorUserId = user, au_actorOrgId = org, au_actorRole = None,
            au_subjectOrgId = Some (ps_organizationId passport), au_action = ''passport.readiness_computed'',
            au_resourceType = ''passport'', au_resourceId = Some i, au_beforeValue = None,
            au_afterValue = Some (readiness_counts result @ trigger), au_reason = None\<rparr> db;
          db = write_event env ctx (passport_event user org ''passport.readiness_computed'' i
            (readiness_counts result @ [(''algorithmVersion'', JStr (rr_algorithmVersion result))])) db;
          target = targetStatusAfterRecompute (ps_status passport) (facts \<noteq> []) (isReadinessBlocked result)
      in
      if target = ps_status passport then Inr ((row, target), db)
      else
        ebind (ptrans (assertValidPassportTransition (passportStatus_name (ps_status passport)) (passportStatus_name target))) (\<lambda>_.
        ebind (pdb (passport_updateStatus i target user db)) (\<lambda>(_, db).
        let db = write_event env ctx (passport_event user org ''passport.status_changed'' i
              [(''from'', JStr (passportStatus_name (ps_status passport))), (''to'', JStr (passportStatus_name target))]) db
        in Inr ((row, target), db))))))"

definition fact_version :: "Fact \<Rightarrow> string" where
  "fact_version f = ''fact:'' @ pf_id f @ '':v'' @ decimal (pf_version f)"

definition recomputeReadinessAndStatus ::
  "Env \<Rightarrow> Passport \<Rightarrow> string \<Rightarrow> string \<Rightarrow> RequestContext \<Rightarrow> PassportStore \<Rightarrow>
   passport_failure + (ReadinessResult \<times> PassportStatus) \<times> PassportStore" where
  "recomputeReadinessAndStatus env passport actorUserId actorOrgId ctx db =
     recompute_with env (Some ctx) (Some actorUserId) (Some actorOrgId) ''PLATFORM'' [] (clock env) passport
       (map fact_version (fact_listByPassport db (ps_id passport))) db"

section \<open>Reading\<close>

definition readinessStale :: "Env \<Rightarrow> PassportStatus \<Rightarrow> ReadinessResult option \<Rightarrow> passport_failure + bool" where
  "readinessStale env status latest =
     (case latest of
        None \<Rightarrow> Inr False
      | Some r \<Rightarrow>
          (case isPassportReadinessStale status (Some (rd_computedAt r)) (clock env) READINESS_STALE_AFTER_DAYS of
             None \<Rightarrow> Inl (Unhandled PspAge)
           | Some b \<Rightarrow> Inr b))"

text \<open>The transaction a read opens when the passport it saw has aged.\<close>

definition staleTx ::
  "Env \<Rightarrow> Passport \<Rightarrow> ReadinessResult option \<Rightarrow> PassportStore \<Rightarrow>
   passport_failure + (Passport \<times> ReadinessResult option) \<times> PassportStore" where
  "staleTx env passport latest db =
     (case passport_findById db (ps_id passport) of
        None \<Rightarrow> Inr ((passport, latest), db)
      | Some fresh \<Rightarrow>
          let freshReadiness = readiness_findLatest db (ps_id passport);
              freshLatest = (case freshReadiness of None \<Rightarrow> latest | Some r \<Rightarrow> Some r)
          in ebind (readinessStale env (ps_status fresh) freshReadiness) (\<lambda>stale.
             if \<not> stale then Inr ((fresh, freshLatest), db)
             else ebind (ptrans (assertValidPassportTransition (passportStatus_name (ps_status fresh)) ''STALE'')) (\<lambda>_.
                  ebind (pdb (passport_updateStatus (ps_id passport) Psp_STALE None db)) (\<lambda>(p, db).
                  Inr ((p, freshLatest), db)))))"

definition loadDetailWithStalenessCheck ::
  "Env \<Rightarrow> Actor \<Rightarrow> Passport \<Rightarrow> PassportStore \<Rightarrow> PassportStore \<Rightarrow> passport_failure + PassportDetail \<times> PassportStore" where
  "loadDetailWithStalenessCheck env actor passport snap db =
     ebind (authorize actor A_passport_read R_passport (Some (ps_organizationId passport)) no_context) (\<lambda>_.
     let latest = readiness_findLatest snap (ps_id passport) in
     ebind (readinessStale env (ps_status passport) latest) (\<lambda>stale.
     ebind (if stale then staleTx env passport latest db else Inr ((passport, latest), db)) (\<lambda>((current, readiness), db).
     Inr (\<lparr>pd_passport = current, pd_facts = fact_listByPassport db (ps_id passport),
            pd_evidence = pevidence_listByPassport db (ps_id passport), pd_readiness = readiness\<rparr>, db))))"

definition passports_list :: "Actor \<Rightarrow> PassportStore \<Rightarrow> passport_failure + Passport list" where
  "passports_list actor db =
     ebind (authorize actor A_passport_list R_passport (organizationId actor) no_context) (\<lambda>_.
     Inr (if role actor \<in> Some ` set CROSS_ORG_PASSPORT_READ_ROLES then passport_list db 100
          else if \<not> truthy (organizationId actor) then []
          else (case passport_findByOrganizationId db (the (organizationId actor)) of None \<Rightarrow> [] | Some own \<Rightarrow> [own])))"

definition passports_getById ::
  "Env \<Rightarrow> Actor \<Rightarrow> string \<Rightarrow> PassportStore \<Rightarrow> PassportStore \<Rightarrow> passport_failure + PassportDetail \<times> PassportStore" where
  "passports_getById env actor i snap db =
     ebind (require (passport_findById snap i) (Problem notFound)) (\<lambda>passport.
     loadDetailWithStalenessCheck env actor passport snap db)"

definition passports_getByOrganizationId ::
  "Env \<Rightarrow> Actor \<Rightarrow> string \<Rightarrow> PassportStore \<Rightarrow> PassportStore \<Rightarrow> passport_failure + PassportDetail \<times> PassportStore" where
  "passports_getByOrganizationId env actor org snap db =
     ebind (require (passport_findByOrganizationId snap org) (Problem notFound)) (\<lambda>passport.
     loadDetailWithStalenessCheck env actor passport snap db)"

section \<open>Creating and maintaining\<close>

definition new_passport :: "Env \<Rightarrow> Actor \<Rightarrow> string \<Rightarrow> Passport" where
  "new_passport env actor i =
     \<lparr>ps_id = i, ps_organizationId = the (organizationId actor), ps_status = Psp_DRAFT, ps_createdByUserId = Some (userId actor),
      ps_createdByOrgId = organizationId actor, ps_updatedByUserId = None, ps_version = 1, ps_createdAt = clock env\<rparr>"

definition passports_create ::
  "Env \<Rightarrow> Actor \<Rightarrow> RequestContext \<Rightarrow> PassportStore \<Rightarrow> PassportStore \<Rightarrow> passport_failure + Passport \<times> PassportStore" where
  "passports_create env actor ctx snap db =
     ebind (throw_if (\<not> truthy (organizationId actor)) (Problem (forbidden NoActiveMembership))) (\<lambda>_.
     ebind (authorize actor A_passport_create R_passport (organizationId actor) no_context) (\<lambda>_.
     ebind (throw_if (passport_findByOrganizationId snap (the (organizationId actor)) \<noteq> None) (Problem (conflict False))) (\<lambda>_.
     let (i, db) = next_id env db; created = new_passport env actor i in
     ebind (pdb (passport_insert created db)) (\<lambda>db.
     let orgv = [(''organizationId'', JStr (the (organizationId actor)))];
         db = write_audit env (Some ctx) (audit_by actor (organizationId actor) ''passport.created'' ''passport'' i orgv) db;
         db = write_event env (Some ctx) (event_by actor ''passport.created'' ''passport'' i orgv) db
     in
     ebind (recomputeReadinessAndStatus env created (userId actor) (the (organizationId actor)) ctx db) (\<lambda>(_, db).
     Inr (created, db))))))"

definition input_fact :: "Env \<Rightarrow> Actor \<Rightarrow> string \<Rightarrow> UpsertFactRequest \<Rightarrow> string \<Rightarrow> Fact" where
  "input_fact env actor passportId inp i =
     \<lparr>pf_id = i, pf_passportId = passportId, pf_sectionType = uq_sectionType inp, pf_fieldKey = uq_fieldKey inp,
      pf_value = uq_normalizedValue inp,
      pf_verification = (case uq_verification inp of Some v \<Rightarrow> v | None \<Rightarrow> Prov_SELF_REPORTED),
      pf_evidenceId = uq_evidenceId inp, pf_createdByUserId = Some (userId actor), pf_createdByOrgId = organizationId actor,
      pf_updatedByUserId = Some (userId actor), pf_version = 1, pf_updatedAt = clock env\<rparr>"

definition evidence_belongs :: "PassportStore \<Rightarrow> string \<Rightarrow> string option \<Rightarrow> bool" where
  "evidence_belongs db passportId evidenceId =
     (truthy evidenceId \<longrightarrow> (case pevidence_findById db (the evidenceId) of None \<Rightarrow> False | Some e \<Rightarrow> pe_passportId e = passportId))"

record UpsertFactResult =
  ur_fact :: Fact
  ur_readiness :: ReadinessResult
  ur_status :: PassportStatus

definition upsertFact ::
  "Env \<Rightarrow> Actor \<Rightarrow> string \<Rightarrow> UpsertFactRequest \<Rightarrow> RequestContext \<Rightarrow> PassportStore \<Rightarrow> PassportStore \<Rightarrow>
   passport_failure + UpsertFactResult \<times> PassportStore" where
  "upsertFact env actor passportId inp ctx snap db =
     ebind (require (passport_findById snap passportId) (Problem notFound)) (\<lambda>passport.
     ebind (authorize actor A_passport_update R_passport (Some (ps_organizationId passport)) no_context) (\<lambda>_.
     ebind (throw_if (\<not> evidence_belongs snap passportId (uq_evidenceId inp)) (Problem (badRequest ForeignEvidence))) (\<lambda>_.
     ebind (require (passport_findById db passportId) (Problem internal)) (\<lambda>freshPassport.
     let (i, db) = next_id env db in
     ebind (pdb (fact_upsert (input_fact env actor passportId inp i) db)) (\<lambda>(fact, db).
     let after = [(''fieldKey'', JStr (uq_fieldKey inp)), (''sectionType'', JStr (passportSectionType_name (uq_sectionType inp))),
           (''verification'', JStr (factProvenance_name (pf_verification fact)))];
         db = write_audit env (Some ctx) (audit_by actor (Some (ps_organizationId passport)) ''passport.fact_updated''
           ''passport'' passportId after) db;
         db = write_event env (Some ctx) (event_by actor ''passport.fact_updated'' ''passport'' passportId after) db
     in
     ebind (recomputeReadinessAndStatus env freshPassport (userId actor) (ps_organizationId freshPassport) ctx db)
       (\<lambda>((readiness, newStatus), db).
     Inr (\<lparr>ur_fact = fact, ur_readiness = readiness, ur_status = newStatus\<rparr>, db)))))))"

text \<open>\<open>new Date(s)\<close>: an invalid date is refused by the database client.\<close>

definition js_date :: "(string \<Rightarrow> int option) \<Rightarrow> string \<Rightarrow> passport_failure + int" where
  "js_date parse s = (case parse s of None \<Rightarrow> Inl (Unhandled PspInvalidDate) | Some t \<Rightarrow> Inr t)"

definition addEvidence ::
  "(string \<Rightarrow> int option) \<Rightarrow> Env \<Rightarrow> Actor \<Rightarrow> string \<Rightarrow> CreateEvidenceRequest \<Rightarrow> RequestContext \<Rightarrow> PassportStore \<Rightarrow>
   PassportStore \<Rightarrow> passport_failure + PassportEvidence \<times> PassportStore" where
  "addEvidence parse env actor passportId inp ctx snap db =
     ebind (require (passport_findById snap passportId) (Problem notFound)) (\<lambda>passport.
     ebind (authorize actor A_passport_update R_passport (Some (ps_organizationId passport)) no_context) (\<lambda>_.
     ebind (js_date parse (eq_collectedAt inp)) (\<lambda>collected.
     ebind (if truthy (eq_expiresAt inp) then ebind (js_date parse (the (eq_expiresAt inp))) (\<lambda>t. Inr (Some t)) else Inr None)
       (\<lambda>expires.
     let (i, db) = next_id env db;
         row = \<lparr>pe_id = i, pe_passportId = passportId, pe_type = eq_type inp, pe_objectRef = eq_objectRef inp,
           pe_checksum = eq_checksum inp, pe_issuer = eq_issuer inp, pe_collectedAt = collected, pe_expiresAt = expires,
           pe_createdByUserId = Some (userId actor), pe_createdByOrgId = organizationId actor, pe_createdAt = clock env\<rparr>
     in
     ebind (pdb (pevidence_insert row db)) (\<lambda>db.
     let after = [(''evidenceId'', JStr i), (''type'', JStr (evidenceSourceKind_name (eq_type inp)))];
         db = write_audit env (Some ctx) (audit_by actor (Some (ps_organizationId passport)) ''passport.evidence_added''
           ''passport'' passportId after) db;
         db = write_event env (Some ctx) (event_by actor ''passport.evidence_added'' ''passport'' passportId after) db
     in Inr (row, db))))))"

definition verify ::
  "Env \<Rightarrow> Actor \<Rightarrow> string \<Rightarrow> string \<Rightarrow> RequestContext \<Rightarrow> PassportStore \<Rightarrow> PassportStore \<Rightarrow>
   passport_failure + Passport \<times> PassportStore" where
  "verify env actor passportId reason ctx snap db =
     ebind (require (passport_findById snap passportId) (Problem notFound)) (\<lambda>passport.
     ebind (authorize actor A_passport_verify R_passport (Some (ps_organizationId passport)) no_context) (\<lambda>_.
     ebind (throw_if (ps_status passport \<noteq> Psp_READY) (Problem (conflict False))) (\<lambda>_.
     ebind (require (passport_findById db passportId) (Problem internal)) (\<lambda>fresh.
     ebind (throw_if (ps_status fresh \<noteq> Psp_READY) (Problem (conflict False))) (\<lambda>_.
     ebind (ptrans (assertValidPassportTransition (passportStatus_name (ps_status fresh)) ''VERIFIED'')) (\<lambda>_.
     ebind (pdb (passport_updateStatus passportId Psp_VERIFIED (Some (userId actor)) db)) (\<lambda>(updated, db).
     let reviewer = (''reviewerOrgId'', JStr (the (organizationId actor)));
         db = write_audit env (Some ctx) ((audit_by actor (Some (ps_organizationId passport)) ''passport.verified'' ''passport''
           passportId [reviewer])\<lparr>au_reason := Some reason\<rparr>) db;
         db = write_event env (Some ctx) (event_by actor ''passport.verified'' ''passport'' passportId
           [reviewer, (''reason'', JStr reason)]) db
     in Inr (updated, db))))))))"

section \<open>The readiness job\<close>

definition job_version :: "PassportStore \<Rightarrow> int \<Rightarrow> Fact \<Rightarrow> string" where
  "job_version db now f =
     fact_version f @ '':'' @ freshnessClass_name (classifyFactFreshness (fact_expiry db f) now factFreshnessWarnWithinDays)"

fun join_with :: "string \<Rightarrow> string list \<Rightarrow> string" where
  "join_with sep [] = []"
| "join_with sep [s] = s"
| "join_with sep (s # t # ss) = s @ sep @ join_with sep (t # ss)"

definition job_versions :: "PassportStore \<Rightarrow> int \<Rightarrow> string \<Rightarrow> string list" where
  "job_versions db now i = map (job_version db now) (fact_listByPassport db i)"

definition readiness_key :: "Passport \<Rightarrow> string list \<Rightarrow> string" where
  "readiness_key p versions =
     ps_id p @ '':'' @ passportStatus_name (ps_status p) @ '':'' @ (if join_with '','' versions = [] then ''no-facts'' else join_with '','' versions)"

text \<open>The identifier of the key row is taken after those the handler may use.\<close>

definition recomputePassport ::
  "Env \<Rightarrow> (string list \<Rightarrow> string) \<Rightarrow> int \<Rightarrow> string \<Rightarrow> PassportStore \<Rightarrow> job_error + PassportStore" where
  "recomputePassport env hashPayload now passportId db =
     (case passport_findById db passportId of
        None \<Rightarrow> Inr db
      | Some passport \<Rightarrow>
          let versions = job_versions db now (ps_id passport) in
          ebind (withJobIdempotency (uuid env (bs_ids db + 4)) (clock env) ''worker.passport-readiness''
            (readiness_key passport versions) (hashPayload ([ps_id passport, passportStatus_name (ps_status passport)] @ versions))
            (\<lambda>db. map_err (\<lambda>_. JobFailed ''recompute'')
              (ebind (recompute_with env None None None ''SYSTEM'' [(''trigger'', JStr ''worker'')] now passport versions db)
                (\<lambda>(_, db). Inr (True, db))))
            (pp_jobKeys db) db) (\<lambda>(tab, db', _).
          Inr (db'\<lparr>pp_jobKeys := tab, bs_ids := (if length tab = length (pp_jobKeys db) then bs_ids db' else bs_ids db + 5)\<rparr>)))"

definition needsSweepRecompute :: "PassportStatus \<Rightarrow> ReadinessResult option \<Rightarrow> int \<Rightarrow> bool" where
  "needsSweepRecompute status latest now =
     (case latest of
        None \<Rightarrow> True
      | Some r \<Rightarrow> status = Psp_STALE \<or>
          isPassportReadinessStale status (Some (rd_computedAt r)) now READINESS_STALE_AFTER_DAYS = Some True)"

record PassportReadinessJobResult =
  pj_scanned :: nat
  pj_recomputed :: nat

definition passportReadinessJob ::
  "Env \<Rightarrow> (string list \<Rightarrow> string) \<Rightarrow> int \<Rightarrow> string \<Rightarrow> PassportStore \<Rightarrow> PassportStore \<Rightarrow>
   job_error + PassportReadinessJobResult \<times> PassportStore" where
  "passportReadinessJob env hashPayload now passportId snap db =
     (case passport_findById snap passportId of
        None \<Rightarrow> Inr (\<lparr>pj_scanned = 0, pj_recomputed = 0\<rparr>, db)
      | Some _ \<Rightarrow> ebind (recomputePassport env hashPayload now passportId db) (\<lambda>db.
          Inr (\<lparr>pj_scanned = 1, pj_recomputed = 1\<rparr>, db)))"

text \<open>The sweep: every passport in a transaction of its own; \<open>between k\<close> is what other requests commit
  before the \<open>k\<close>-th of them.\<close>

fun readiness_sweep ::
  "Env \<Rightarrow> (string list \<Rightarrow> string) \<Rightarrow> int \<Rightarrow> (nat \<Rightarrow> PassportStore \<Rightarrow> PassportStore) \<Rightarrow> nat \<Rightarrow> Passport list \<Rightarrow> PassportStore \<Rightarrow>
   job_error + nat \<times> PassportStore" where
  "readiness_sweep env hashPayload now between n [] db = Inr (n, db)"
| "readiness_sweep env hashPayload now between n (p # rest) db =
     (let db = between (length rest) db in
      if needsSweepRecompute (ps_status p) (readiness_findLatest db (ps_id p)) now
      then ebind (recomputePassport env hashPayload now (ps_id p) db)
        (\<lambda>db. readiness_sweep env hashPayload now between (n + 1) rest db)
      else readiness_sweep env hashPayload now between n rest db)"

definition passportReadinessSweep ::
  "Env \<Rightarrow> (string list \<Rightarrow> string) \<Rightarrow> int \<Rightarrow> (nat \<Rightarrow> PassportStore \<Rightarrow> PassportStore) \<Rightarrow> PassportStore \<Rightarrow>
   job_error + PassportReadinessJobResult \<times> PassportStore" where
  "passportReadinessSweep env hashPayload now between db =
     (let passports = passport_list db 500 in
      ebind (readiness_sweep env hashPayload now between 0 passports db) (\<lambda>(n, db).
      Inr (\<lparr>pj_scanned = length passports, pj_recomputed = n\<rparr>, db)))"

end
