(* ===== verification/Passport_History.thy ===== *)
theory Passport_History
  imports Passport_Service
begin

text \<open>
  What a successful request of the passport service or its job writes, and the laws of a readiness
  recompute that all of them share.
\<close>

lemma lifted_passport [simp, result_simps]:
  "pdb r = Inr x \<longleftrightarrow> r = Inr x" "ptrans s = Inr y \<longleftrightarrow> s = Inr y" "pdb (Inr x) = Inr x" "ptrans (Inr y) = Inr y"
  by (simp_all add: pdb_def ptrans_def)

lemma passport_tables_written [simp]:
  fixes db :: PassportStore
  shows "pp_passports (write_audit env ctx a db) = pp_passports db" "pp_facts (write_audit env ctx a db) = pp_facts db"
    "pp_evidence (write_audit env ctx a db) = pp_evidence db" "pp_readiness (write_audit env ctx a db) = pp_readiness db"
    "pp_jobKeys (write_audit env ctx a db) = pp_jobKeys db"
    "pp_passports (write_event env ctx e db) = pp_passports db" "pp_facts (write_event env ctx e db) = pp_facts db"
    "pp_evidence (write_event env ctx e db) = pp_evidence db" "pp_readiness (write_event env ctx e db) = pp_readiness db"
    "pp_jobKeys (write_event env ctx e db) = pp_jobKeys db"
  by (simp_all add: write_audit_def write_event_def next_id_def)

text \<open>Two states with the same four content tables.\<close>

definition same_content :: "PassportStore \<Rightarrow> PassportStore \<Rightarrow> bool" where
  "same_content db db' \<longleftrightarrow> pp_passports db' = pp_passports db \<and> pp_facts db' = pp_facts db \<and>
     pp_evidence db' = pp_evidence db \<and> pp_readiness db' = pp_readiness db"

lemma content_reads:
  assumes "pp_facts db' = pp_facts db"
  shows "fact_listByPassport db' i = fact_listByPassport db i"
  by (simp add: fact_listByPassport_def assms)

lemma snapshot_reads:
  assumes "pp_facts db' = pp_facts db" and "pp_evidence db' = pp_evidence db"
  shows "buildSnapshots db' i = buildSnapshots db i"
  by (simp add: buildSnapshots_def fact_snapshot_def [abs_def] fact_expiry_def fact_evidence_def pevidence_findById_def
      content_reads [OF assms(1)] assms(2))

section \<open>Status updates\<close>

definition passport_set :: "PassportStatus \<Rightarrow> string option \<Rightarrow> Passport \<Rightarrow> Passport" where
  "passport_set s user p = p\<lparr>ps_status := s, ps_updatedByUserId := user, ps_version := ps_version p + 1\<rparr>"

lemma passport_set_simps [simp]:
  "ps_id (passport_set s user p) = ps_id p" "ps_organizationId (passport_set s user p) = ps_organizationId p"
  "ps_status (passport_set s user p) = s"
  by (simp_all add: passport_set_def)

lemma passport_updateStatus_ok:
  "passport_updateStatus i s user db = Inr (p, db') \<longleftrightarrow>
   (\<exists>old. passport_findById db i = Some old \<and> p = passport_set s user old) \<and>
   db' = db\<lparr>pp_passports := set_by ps_id i (passport_set s user) (pp_passports db)\<rparr>"
  by (auto simp: passport_updateStatus_def passport_findById_def ebind_eq_Inr update_by_ok passport_set_def [abs_def])

lemma passport_transition_ok:
  "assertValidPassportTransition (passportStatus_name s) (passportStatus_name t) = Inr () \<longleftrightarrow> t \<in> set (PASSPORT_TRANSITIONS s)"
  by (simp add: passport_st.guard_accepts)

section \<open>Recomputing\<close>

definition recomputed :: "PassportStatus \<Rightarrow> string option \<Rightarrow> Passport \<Rightarrow> Passport" where
  "recomputed target user p = (if target = ps_status p then p else passport_set target user p)"

lemma recomputed_simps [simp]:
  "ps_id (recomputed t user p) = ps_id p" "ps_organizationId (recomputed t user p) = ps_organizationId p"
  "ps_status (recomputed t user p) = t"
  by (simp_all add: recomputed_def)

lemma readiness_insert_ok:
  "readiness_insert r db = Inr db' \<Longrightarrow> db' = db\<lparr>pp_readiness := pp_readiness db @ [r]\<rparr>"
  by (auto simp: readiness_insert_def ebind_eq_Inr insert_row_ok)

lemma recompute_effect:
  assumes "recompute_with env ctx user org source trigger now p versions db = Inr ((row, target), db')"
    and "distinct (map ps_id (pp_passports db))" and "passport_findById db (ps_id p) = Some p"
  shows "\<exists>result. computeReadiness (buildSnapshots db (ps_id p)) now versions requiredFacts = Inr result \<and>
    row = readiness_row (rd_id row) (ps_id p) result now user org source \<and>
    target = targetStatusAfterRecompute (ps_status p) (fact_listByPassport db (ps_id p) \<noteq> []) (isReadinessBlocked result) \<and>
    (target = ps_status p \<or> target \<in> set (PASSPORT_TRANSITIONS (ps_status p))) \<and>
    pp_passports db' = set_by ps_id (ps_id p) (recomputed target user) (pp_passports db) \<and>
    pp_readiness db' = pp_readiness db @ [row] \<and> pp_facts db' = pp_facts db \<and> pp_evidence db' = pp_evidence db \<and>
    pp_jobKeys db' = pp_jobKeys db"
proof -
  let ?i = "ps_id p"
  let ?db = "db\<lparr>bs_ids := Suc (bs_ids db)\<rparr>"
  obtain result where result: "computeReadiness (buildSnapshots db ?i) now versions requiredFacts = Inr result"
    using assms(1) by (auto simp: recompute_with_def Let_def ebind_eq_Inr)
  let ?row = "readiness_row (uuid env (bs_ids db)) ?i result now user org source"
  let ?target = "targetStatusAfterRecompute (ps_status p) (fact_listByPassport db ?i \<noteq> []) (isReadinessBlocked result)"
  obtain db1 where db1: "readiness_insert ?row ?db = Inr db1"
    using assms(1) result by (auto simp: recompute_with_def Let_def ebind_eq_Inr next_id_def split: if_splits)
  note ins = readiness_insert_ok [OF db1]
  have row: "row = ?row" "target = ?target"
    using assms(1) result db1 by (auto simp: recompute_with_def Let_def ebind_eq_Inr next_id_def split: if_splits)
  have id: "rd_id ?row = uuid env (bs_ids db)"
    by (simp add: readiness_row_def)
  show ?thesis
  proof (cases "?target = ps_status p")
    case True
    then have "pp_passports db' = pp_passports db1" "pp_readiness db' = pp_readiness db1" "pp_facts db' = pp_facts db1"
        "pp_evidence db' = pp_evidence db1" "pp_jobKeys db' = pp_jobKeys db1"
      using assms(1) result db1 by (auto simp: recompute_with_def Let_def next_id_def)
    moreover have "set_by ps_id ?i (recomputed target user) (pp_passports db) = pp_passports db"
    proof -
      have "recomputed target user x = x" if "x \<in> set (pp_passports db)" "ps_id x = ?i" for x
        using find_by_unique [OF assms(2) that(1)] that(2) assms(3) True row(2)
        by (simp add: passport_findById_def recomputed_def)
      then show ?thesis
        by (simp add: set_by_def map_idI)
    qed
    ultimately show ?thesis
      using result row True id ins by simp
  next
    case False
    obtain q db2 where moved: "?target \<in> set (PASSPORT_TRANSITIONS (ps_status p))"
        "passport_updateStatus ?i ?target user
          (write_event env ctx (passport_event user org ''passport.readiness_computed'' ?i
            (readiness_counts result @ [(''algorithmVersion'', JStr (rr_algorithmVersion result))]))
          (write_audit env ctx \<lparr>au_actorUserId = user, au_actorOrgId = org, au_actorRole = None,
            au_subjectOrgId = Some (ps_organizationId p), au_action = ''passport.readiness_computed'',
            au_resourceType = ''passport'', au_resourceId = Some ?i, au_beforeValue = None,
            au_afterValue = Some (readiness_counts result @ trigger), au_reason = None\<rparr> db1)) = Inr (q, db2)"
        "pp_passports db' = pp_passports db2" "pp_readiness db' = pp_readiness db2" "pp_facts db' = pp_facts db2"
        "pp_evidence db' = pp_evidence db2" "pp_jobKeys db' = pp_jobKeys db2"
      using assms(1) result db1 False
      by (auto simp: recompute_with_def Let_def ebind_eq_Inr next_id_def passport_transition_ok)
    have "pp_passports db2 = set_by ps_id ?i (passport_set ?target user) (pp_passports db)"
        "pp_readiness db2 = pp_readiness db @ [?row]" "pp_facts db2 = pp_facts db" "pp_evidence db2 = pp_evidence db"
        "pp_jobKeys db2 = pp_jobKeys db"
      using moved(2) ins by (auto simp: passport_updateStatus_ok)
    moreover have "set_by ps_id ?i (passport_set ?target user) (pp_passports db) = set_by ps_id ?i (recomputed target user) (pp_passports db)"
    proof -
      have "passport_set ?target user x = recomputed target user x" if "x \<in> set (pp_passports db)" "ps_id x = ?i" for x
        using find_by_unique [OF assms(2) that(1)] that(2) assms(3) False row(2)
        by (simp add: passport_findById_def recomputed_def)
      then show ?thesis
        by (simp add: set_by_def)
    qed
    ultimately show ?thesis
      using result row moved id by simp
  qed
qed

section \<open>The requests\<close>

lemma create_passport_effect:
  assumes "passports_create env actor ctx snap db = Inr (p, db')"
  shows "\<exists>org db1 out. organizationId actor = Some org \<and>
    allowed (can actor A_passport_create \<lparr>rtype = R_passport, rid = None, ownerOrgId = Some org, privacyClass = None\<rparr> no_context) \<and>
    p = new_passport env actor (ps_id p) \<and>
    (\<forall>x \<in> set (pp_passports db). ps_id x \<noteq> ps_id p \<and> ps_organizationId x \<noteq> org) \<and>
    pp_passports db1 = pp_passports db @ [p] \<and> pp_facts db1 = pp_facts db \<and> pp_evidence db1 = pp_evidence db \<and>
    pp_readiness db1 = pp_readiness db \<and> pp_jobKeys db1 = pp_jobKeys db \<and>
    recomputeReadinessAndStatus env p (userId actor) org ctx db1 = Inr (out, db')"
proof -
  let ?i = "uuid env (bs_ids db)"
  obtain org where org: "organizationId actor = Some org"
    using assms by (cases "organizationId actor") (auto simp: passports_create_def ebind_eq_Inr)
  let ?orgv = "[(''organizationId'', JStr org)]"
  obtain db1 out where steps: "passport_insert (new_passport env actor ?i) (db\<lparr>bs_ids := Suc (bs_ids db)\<rparr>) = Inr db1"
      "allowed (can actor A_passport_create \<lparr>rtype = R_passport, rid = None, ownerOrgId = Some org, privacyClass = None\<rparr> no_context)"
      "recomputeReadinessAndStatus env (new_passport env actor ?i) (userId actor) org ctx
        (write_event env (Some ctx) (event_by actor ''passport.created'' ''passport'' ?i ?orgv)
          (write_audit env (Some ctx) (audit_by actor (Some org) ''passport.created'' ''passport'' ?i ?orgv) db1)) = Inr (out, db')"
      "p = new_passport env actor ?i"
    using assms org by (auto simp: passports_create_def ebind_eq_Inr next_id_def Let_def authorize_ok)
  have id: "ps_id (new_passport env actor ?i) = ?i" "ps_organizationId (new_passport env actor ?i) = org"
    by (simp_all add: new_passport_def org)
  have "db1 = db\<lparr>bs_ids := Suc (bs_ids db), pp_passports := pp_passports db @ [p]\<rparr>"
      "\<forall>x \<in> set (pp_passports db). ps_id x \<noteq> ?i \<and> ps_organizationId x \<noteq> org"
    using steps(1,4) id by (auto simp: passport_insert_def ebind_eq_Inr insert_row_ok)
  then show ?thesis
    using org steps(2-4) id(1)
    by (intro exI [of _ org] exI [of _ "write_event env (Some ctx) (event_by actor ''passport.created'' ''passport'' ?i ?orgv)
          (write_audit env (Some ctx) (audit_by actor (Some org) ''passport.created'' ''passport'' ?i ?orgv) db1)"] exI [of _ out]) simp
qed

text \<open>The fact table after an upsert.\<close>

definition upsert_rows :: "Fact \<Rightarrow> Fact list \<Rightarrow> Fact list" where
  "upsert_rows new rows =
     (if \<exists>f \<in> set rows. fact_same new f then map (\<lambda>f. if fact_same new f then fact_replace new f else f) rows
      else rows @ [new\<lparr>pf_updatedByUserId := None\<rparr>])"

lemma fact_upsert_ok:
  assumes "fact_upsert new db = Inr (f, db')"
  shows "db' = db\<lparr>pp_facts := upsert_rows new (pp_facts db)\<rparr>"
    "snd (pf_value new) \<noteq> VNull" "pf_value f = pf_value new" "pf_verification f = pf_verification new"
proof -
  have guard: "assertJsonSerializableValue (fst (pf_value new)) (snd (pf_value new)) [] = Inr ()"
    using assms by (auto simp: fact_upsert_def ebind_eq_Inr)
  then show "snd (pf_value new) \<noteq> VNull"
    by (auto simp: assertJsonSerializableValue_def)
  show "db' = db\<lparr>pp_facts := upsert_rows new (pp_facts db)\<rparr>" "pf_value f = pf_value new" "pf_verification f = pf_verification new"
    using assms guard
    by (auto simp: fact_upsert_def ebind_eq_Inr insert_row_ok upsert_rows_def fact_replace_def find_None_iff find_Some_iff
        split: option.splits)
qed

lemma upsertFact_effect:
  assumes "upsertFact env actor i inp ctx snap db = Inr (out, db')"
  shows "\<exists>seen p j db1. passport_findById snap i = Some seen \<and> passport_findById db i = Some p \<and>
    allowed (can actor A_passport_update \<lparr>rtype = R_passport, rid = None, ownerOrgId = Some (ps_organizationId seen), privacyClass = None\<rparr> no_context) \<and>
    evidence_belongs snap i (uq_evidenceId inp) \<and>
    pf_value (ur_fact out) = uq_normalizedValue inp \<and> snd (uq_normalizedValue inp) \<noteq> VNull \<and>
    pp_facts db1 = upsert_rows (input_fact env actor i inp j) (pp_facts db) \<and> pp_passports db1 = pp_passports db \<and>
    pp_evidence db1 = pp_evidence db \<and> pp_readiness db1 = pp_readiness db \<and> pp_jobKeys db1 = pp_jobKeys db \<and>
    recomputeReadinessAndStatus env p (userId actor) (ps_organizationId p) ctx db1 = Inr ((ur_readiness out, ur_status out), db')"
proof -
  let ?j = "uuid env (bs_ids db)"
  let ?db = "db\<lparr>bs_ids := Suc (bs_ids db)\<rparr>"
  obtain seen p fact db1 where steps: "passport_findById snap i = Some seen" "passport_findById db i = Some p"
      "allowed (can actor A_passport_update \<lparr>rtype = R_passport, rid = None, ownerOrgId = Some (ps_organizationId seen), privacyClass = None\<rparr> no_context)"
      "evidence_belongs snap i (uq_evidenceId inp)" "fact_upsert (input_fact env actor i inp ?j) ?db = Inr (fact, db1)"
    using assms by (auto simp: upsertFact_def ebind_eq_Inr next_id_def Let_def authorize_ok)
  let ?after = "[(''fieldKey'', JStr (uq_fieldKey inp)), (''sectionType'', JStr (passportSectionType_name (uq_sectionType inp))),
     (''verification'', JStr (factProvenance_name (pf_verification fact)))]"
  have last: "recomputeReadinessAndStatus env p (userId actor) (ps_organizationId p) ctx
      (write_event env (Some ctx) (event_by actor ''passport.fact_updated'' ''passport'' i ?after)
        (write_audit env (Some ctx) (audit_by actor (Some (ps_organizationId seen)) ''passport.fact_updated'' ''passport'' i ?after) db1))
      = Inr ((ur_readiness out, ur_status out), db')" "ur_fact out = fact"
    using assms steps by (auto simp: upsertFact_def ebind_eq_Inr next_id_def Let_def)
  note up = fact_upsert_ok [OF steps(5)]
  have "pf_value (input_fact env actor i inp ?j) = uq_normalizedValue inp"
    by (simp add: input_fact_def)
  then show ?thesis
    using steps(1-4) last up
    by (intro exI [of _ seen] exI [of _ p] exI [of _ ?j]
        exI [of _ "write_event env (Some ctx) (event_by actor ''passport.fact_updated'' ''passport'' i ?after)
          (write_audit env (Some ctx) (audit_by actor (Some (ps_organizationId seen)) ''passport.fact_updated'' ''passport'' i ?after) db1)"])
      simp
qed

lemma addEvidence_effect:
  assumes "addEvidence parse env actor i inp ctx snap db = Inr (e, db')"
  shows "(\<exists>seen. passport_findById snap i = Some seen) \<and> pe_passportId e = i \<and>
    (\<forall>x \<in> set (pp_evidence db). pe_id x \<noteq> pe_id e) \<and> pp_evidence db' = pp_evidence db @ [e] \<and>
    pp_passports db' = pp_passports db \<and> pp_facts db' = pp_facts db \<and> pp_readiness db' = pp_readiness db \<and>
    pp_jobKeys db' = pp_jobKeys db"
  using assms
  by (auto simp: addEvidence_def ebind_eq_Inr next_id_def Let_def pevidence_insert_def insert_row_ok)

lemma verify_effect:
  assumes "verify env actor i reason ctx snap db = Inr (p, db')"
  shows "\<exists>seen fresh. passport_findById snap i = Some seen \<and> passport_findById db i = Some fresh \<and>
    allowed (can actor A_passport_verify \<lparr>rtype = R_passport, rid = None, ownerOrgId = Some (ps_organizationId seen), privacyClass = None\<rparr> no_context) \<and>
    ps_status seen = Psp_READY \<and> ps_status fresh = Psp_READY \<and>
    pp_passports db' = set_by ps_id i (passport_set Psp_VERIFIED (Some (userId actor))) (pp_passports db) \<and>
    pp_facts db' = pp_facts db \<and> pp_evidence db' = pp_evidence db \<and> pp_readiness db' = pp_readiness db \<and>
    pp_jobKeys db' = pp_jobKeys db"
  using assms
  by (auto simp: verify_def ebind_eq_Inr Let_def authorize_ok passport_updateStatus_ok)

lemma readinessStale_ok:
  "readinessStale env s latest = Inr stale \<longleftrightarrow>
   (stale \<longleftrightarrow> s \<in> {Psp_READY, Psp_VERIFIED} \<and> (\<exists>r. latest = Some r \<and> clock env - rd_computedAt r > 90 * 86400000))"
  by (auto simp: readinessStale_def isPassportReadinessStale_def READINESS_STALE_AFTER_DAYS_def split: option.splits)

lemma load_effect:
  assumes "loadDetailWithStalenessCheck env actor p snap db = Inr (d, db')"
  shows "allowed (can actor A_passport_read \<lparr>rtype = R_passport, rid = None, ownerOrgId = Some (ps_organizationId p), privacyClass = None\<rparr> no_context) \<and>
    pp_facts db' = pp_facts db \<and> pp_evidence db' = pp_evidence db \<and> pp_readiness db' = pp_readiness db \<and> pp_jobKeys db' = pp_jobKeys db \<and>
    (pp_passports db' = pp_passports db \<or>
     (\<exists>fresh. passport_findById db (ps_id p) = Some fresh \<and> ps_status fresh \<in> {Psp_READY, Psp_VERIFIED} \<and>
        pp_passports db' = set_by ps_id (ps_id p) (passport_set Psp_STALE None) (pp_passports db)))"
  using assms
  by (auto simp: loadDetailWithStalenessCheck_def staleTx_def ebind_eq_Inr Let_def authorize_ok readinessStale_ok
      passport_updateStatus_ok split: if_splits option.splits)

lemma job_effect:
  assumes "recomputePassport env h now i db = Inr db'"
  shows "(db' = db \<and> passport_findById db i = None) \<or> (\<exists>p. passport_findById db i = Some p \<and>
    (let k = readiness_key p (job_versions db now (ps_id p)); hash = h ([ps_id p, passportStatus_name (ps_status p)] @ job_versions db now (ps_id p)) in
     (same_content db db' \<and> pp_jobKeys db' = pp_jobKeys db \<and>
        (\<exists>r b. idempotency_find (pp_jobKeys db) ''worker.passport-readiness'' k = Some r \<and> ik_response r = Some b \<and> ik_requestHash r = hash)) \<or>
     (\<exists>out db1 keyId. recompute_with env None None None ''SYSTEM'' [(''trigger'', JStr ''worker'')] now p (job_versions db now (ps_id p)) db = Inr (out, db1) \<and>
        same_content db1 db' \<and>
        ((\<exists>r. idempotency_find (pp_jobKeys db) ''worker.passport-readiness'' k = Some r \<and> ik_response r = None) \<or>
         idempotency_find (pp_jobKeys db) ''worker.passport-readiness'' k = None \<and>
         pp_jobKeys db' = idempotency_complete ''worker.passport-readiness'' k True (pp_jobKeys db @ [\<lparr>ik_id = keyId, ik_key = k,
           ik_scope = ''worker.passport-readiness'', ik_requestHash = hash, ik_response = None, ik_organizationId = None, ik_userId = None,
           ik_expiresAt = clock env + IDEMPOTENCY_KEY_TTL_MS\<rparr>])))))"
proof (cases "passport_findById db i")
  case None
  then show ?thesis
    using assms by (simp add: recomputePassport_def)
next
  case (Some p)
  then show ?thesis
    using assms
    by (auto simp: recomputePassport_def ebind_eq_Inr withJobIdempotency_def idempotency_reserve_def same_content_def map_err_eq_Inr Let_def
        split: option.splits if_splits)
qed

end
