(* ===== verification/Passport_Invariant.thy ===== *)
theory Passport_Invariant
  imports Passport_History
begin

text \<open>
  The passport service and its job as a whole: the states they reach under every interleaving of
  requests, reads and jobs. The invariant says that the last readiness result of a passport is what
  the engine computes from the facts the passport has now, and that the status agrees with it.
\<close>

inductive passport_step :: "PassportStore \<Rightarrow> PassportStore \<Rightarrow> PassportStore \<Rightarrow> bool" where
  create: "passports_create env actor ctx snap db = Inr (p, db') \<Longrightarrow> passport_step snap db db'"
| fact: "upsertFact env actor i inp ctx snap db = Inr (out, db') \<Longrightarrow> passport_step snap db db'"
| evidence: "addEvidence parse env actor i req ctx snap db = Inr (e, db') \<Longrightarrow> passport_step snap db db'"
| verify: "verify env actor i reason ctx snap db = Inr (p, db') \<Longrightarrow> passport_step snap db db'"
| read: "passports_getById env actor i snap db = Inr (d, db') \<Longrightarrow> passport_step snap db db'"
| read_org: "passports_getByOrganizationId env actor i snap db = Inr (d, db') \<Longrightarrow> passport_step snap db db'"
| job: "recomputePassport env h now i db = Inr db' \<Longrightarrow> passport_step snap db db'"

definition passport_start :: "PassportStore \<Rightarrow> bool" where
  "passport_start db \<longleftrightarrow> pp_passports db = [] \<and> pp_facts db = [] \<and> pp_evidence db = [] \<and> pp_readiness db = [] \<and> pp_jobKeys db = []"

section \<open>The invariant\<close>

definition facts_of :: "PassportStore \<Rightarrow> string \<Rightarrow> Fact list" where
  "facts_of db i = filter (\<lambda>f. pf_passportId f = i) (pp_facts db)"

definition readiness_of :: "PassportStore \<Rightarrow> string \<Rightarrow> ReadinessResult list" where
  "readiness_of db i = filter (\<lambda>r. rd_passportId r = i) (pp_readiness db)"

definition status_fits :: "PassportStatus \<Rightarrow> bool \<Rightarrow> bool \<Rightarrow> bool" where
  "status_fits s hasFacts blocked \<longleftrightarrow>
     s \<in> (if \<not> hasFacts then {Psp_DRAFT} else if blocked then {Psp_INCOMPLETE} else {Psp_READY, Psp_VERIFIED, Psp_STALE})"

text \<open>The last readiness result is the one the engine gives for the facts of now at the time of the result.\<close>

definition settled :: "PassportStore \<Rightarrow> Passport \<Rightarrow> bool" where
  "settled db p \<longleftrightarrow>
     readiness_of db (ps_id p) \<noteq> [] \<and>
     (let r = last (readiness_of db (ps_id p)) in
      \<exists>shape. computeReadiness (buildSnapshots db (ps_id p)) (rd_computedAt r) (rd_inputVersions r) requiredFacts = Inr shape \<and>
        rd_score r = rr_score shape \<and> rd_blockers r = rr_blockers shape \<and> rd_warnings r = rr_warnings shape \<and>
        status_fits (ps_status p) (facts_of db (ps_id p) \<noteq> []) (rd_blockers r \<noteq> []))"

definition keyed_facts :: "Fact list \<Rightarrow> (string \<times> string) list" where
  "keyed_facts fs = map (\<lambda>f. (pf_passportId f, pf_fieldKey f)) fs"

definition tables_ok :: "PassportStore \<Rightarrow> bool" where
  "tables_ok db \<longleftrightarrow>
     distinct (map ps_id (pp_passports db)) \<and> distinct (map ps_organizationId (pp_passports db)) \<and>
     distinct (keyed_facts (pp_facts db)) \<and> pf_passportId ` set (pp_facts db) \<subseteq> ps_id ` set (pp_passports db) \<and>
     (\<forall>f \<in> set (pp_facts db). evidence_belongs db (pf_passportId f) (pf_evidenceId f) \<and> snd (pf_value f) \<noteq> VNull) \<and>
     (\<forall>k \<in> set (pp_jobKeys db). ik_response k \<noteq> None)"

text \<open>Everything holds but for the passport \<open>x\<close>, which may be waiting for its recompute.\<close>

definition pending :: "PassportStore \<Rightarrow> string option \<Rightarrow> bool" where
  "pending db x \<longleftrightarrow> tables_ok db \<and>
     (\<forall>p \<in> set (pp_passports db).
        (Some (ps_id p) \<noteq> x \<longrightarrow> settled db p) \<and> ps_status p \<noteq> Psp_SUSPENDED \<and> (facts_of db (ps_id p) = [] \<longrightarrow> ps_status p = Psp_DRAFT))"

definition passport_ok :: "PassportStore \<Rightarrow> bool" where
  "passport_ok db \<longleftrightarrow> pending db None"

lemma tables_okD:
  assumes "tables_ok db"
  shows "distinct (map ps_id (pp_passports db))" "distinct (map ps_organizationId (pp_passports db))"
    "distinct (keyed_facts (pp_facts db))" "pf_passportId ` set (pp_facts db) \<subseteq> ps_id ` set (pp_passports db)"
    "f \<in> set (pp_facts db) \<Longrightarrow> evidence_belongs db (pf_passportId f) (pf_evidenceId f)"
    "f \<in> set (pp_facts db) \<Longrightarrow> snd (pf_value f) \<noteq> VNull" "k \<in> set (pp_jobKeys db) \<Longrightarrow> ik_response k \<noteq> None"
  using assms by (simp_all add: tables_ok_def)

lemma pendingD:
  assumes "pending db x"
  shows "tables_ok db" "p \<in> set (pp_passports db) \<Longrightarrow> Some (ps_id p) \<noteq> x \<Longrightarrow> settled db p"
    "p \<in> set (pp_passports db) \<Longrightarrow> ps_status p \<noteq> Psp_SUSPENDED"
    "p \<in> set (pp_passports db) \<Longrightarrow> facts_of db (ps_id p) = [] \<Longrightarrow> ps_status p = Psp_DRAFT"
  using assms by (simp_all add: pending_def)

lemma pendingI:
  assumes "tables_ok db" and "\<And>p. p \<in> set (pp_passports db) \<Longrightarrow> Some (ps_id p) \<noteq> x \<Longrightarrow> settled db p"
    and "\<And>p. p \<in> set (pp_passports db) \<Longrightarrow> ps_status p \<noteq> Psp_SUSPENDED"
    and "\<And>p. p \<in> set (pp_passports db) \<Longrightarrow> facts_of db (ps_id p) = [] \<Longrightarrow> ps_status p = Psp_DRAFT"
  shows "pending db x"
  using assms by (simp add: pending_def)

lemma pending_weaken: "passport_ok db \<Longrightarrow> pending db x"
  by (simp add: passport_ok_def pending_def)

lemma listByPassport_facts: "set (fact_listByPassport db i) = set (facts_of db i)" "fact_listByPassport db i = [] \<longleftrightarrow> facts_of db i = []"
proof -
  show "set (fact_listByPassport db i) = set (facts_of db i)"
    by (simp add: fact_listByPassport_def facts_of_def)
  then show "fact_listByPassport db i = [] \<longleftrightarrow> facts_of db i = []"
    by (metis set_empty)
qed

lemma settled_cong:
  assumes "ps_id q = ps_id p" and "readiness_of db' (ps_id p) = readiness_of db (ps_id p)"
    and "facts_of db' (ps_id p) = facts_of db (ps_id p)" and "buildSnapshots db' (ps_id p) = buildSnapshots db (ps_id p)"
    and "\<And>h b. status_fits (ps_status p) h b \<Longrightarrow> status_fits (ps_status q) h b" and "settled db p"
  shows "settled db' q"
  using assms(5,6) unfolding settled_def assms(1-4) Let_def by blast

lemma listByPassport_cong:
  "facts_of db' i = facts_of db i \<Longrightarrow> fact_listByPassport db' i = fact_listByPassport db i"
  by (simp add: fact_listByPassport_def facts_of_def)

lemma found_passport:
  assumes "pending db x" and "passport_findById db i = Some p"
  shows "p \<in> set (pp_passports db)" "ps_id p = i"
  using find_by_SomeD assms(2) by (fastforce simp: passport_findById_def)+

lemma same_content_ok:
  assumes ok: "passport_ok db" and same: "same_content db db'" and jobs: "\<And>r. r \<in> set (pp_jobKeys db') \<Longrightarrow> ik_response r \<noteq> None"
  shows "passport_ok db'"
proof -
  note e = same [unfolded same_content_def]
  have cong: "facts_of db' k = facts_of db k" "readiness_of db' k = readiness_of db k" "buildSnapshots db' k = buildSnapshots db k" for k
    using snapshot_reads [of db' db] e by (simp_all add: facts_of_def readiness_of_def)
  have "settled db' q = settled db q" for q
    by (simp add: settled_def cong)
  moreover have "tables_ok db'" if "tables_ok db"
    using that e jobs by (simp add: tables_ok_def evidence_belongs_def pevidence_findById_def)
  ultimately show ?thesis
    using ok e by (simp add: passport_ok_def pending_def cong)
qed

lemma idempotency_row: "idempotency_find keys sc k = Some r \<Longrightarrow> r \<in> set keys"
  using find_SomeD unfolding idempotency_find_def by metis

section \<open>A recompute settles the passport\<close>

lemma no_facts_blocked:
  assumes "computeReadiness [] now versions requiredFacts = Inr shape"
  shows "rr_blockers shape \<noteq> []"
  using assms
  by (auto simp: computeReadiness_def requiredFacts_def requiredFact_def checkRequiredFact_def factByKey_def pushNote_def Let_def)

lemma target_fits:
  assumes "s \<noteq> Psp_SUSPENDED" and "\<not> hasFacts \<Longrightarrow> s = Psp_DRAFT \<and> blocked"
  shows "status_fits (targetStatusAfterRecompute s hasFacts blocked) hasFacts blocked"
    "targetStatusAfterRecompute s hasFacts blocked \<noteq> Psp_SUSPENDED"
  using assms by (cases s; cases hasFacts; cases blocked; simp add: status_fits_def targetStatusAfterRecompute_def)+

lemma recompute_settles:
  assumes pend: "pending db (Some (ps_id p))" and found: "passport_findById db (ps_id p) = Some p"
    and w: "recompute_with env ctx user org source trigger now p versions db = Inr ((row, target), db')"
  shows "passport_ok db'"
proof -
  let ?i = "ps_id p"
  note t = pendingD(1) [OF pend] and d = tables_okD [OF pendingD(1) [OF pend]]
  obtain result where e: "computeReadiness (buildSnapshots db ?i) now versions requiredFacts = Inr result"
      "row = readiness_row (rd_id row) ?i result now user org source"
      "target = targetStatusAfterRecompute (ps_status p) (fact_listByPassport db ?i \<noteq> []) (isReadinessBlocked result)"
      "pp_passports db' = set_by ps_id ?i (recomputed target user) (pp_passports db)"
      "pp_readiness db' = pp_readiness db @ [row]" "pp_facts db' = pp_facts db" "pp_evidence db' = pp_evidence db"
      "pp_jobKeys db' = pp_jobKeys db"
    using recompute_effect [OF w d(1) found] by blast
  have facts: "facts_of db' j = facts_of db j" "buildSnapshots db' j = buildSnapshots db j" for j
    using snapshot_reads [of db' db] e(6,7) by (simp_all add: facts_of_def)
  have ready: "readiness_of db' j = readiness_of db j @ (if j = ?i then [row] else [])" for j
  proof -
    have "rd_passportId row = ?i"
      by (subst e(2)) (simp add: readiness_row_def)
    then show ?thesis
      by (simp add: readiness_of_def e(5))
  qed
  note p = found_passport [OF pend found]
  have blocked: "isReadinessBlocked result" if "facts_of db ?i = []"
    using no_facts_blocked e(1) listByPassport_facts(2) [of db ?i] that
    by (auto simp: buildSnapshots_def isReadinessBlocked_def)
  note fits = target_fits [of "ps_status p" "fact_listByPassport db ?i \<noteq> []" "isReadinessBlocked result"]
  have fit: "status_fits target (facts_of db ?i \<noteq> []) (rr_blockers result \<noteq> [])" "target \<noteq> Psp_SUSPENDED"
    using fits pendingD(3,4) [OF pend p(1)] blocked unfolding e(3) listByPassport_facts(2) isReadinessBlocked_def by simp_all
  have f: "find_by ps_id ?i (pp_passports db) = Some p"
    using found by (simp add: passport_findById_def)
  have rowed: "q = recomputed target user p \<or> q \<in> set (pp_passports db) \<and> ps_id q \<noteq> ?i" if "q \<in> set (pp_passports db')" for q
    using set_by_row [OF d(1) f that [unfolded e(4)]] .
  have "settled db' (recomputed target user p)"
  proof -
    have iv: "rr_inputVersions result = versions"
      using e(1) by (auto simp: computeReadiness_def ebind_eq_Inr Let_def)
    have "rd_computedAt row = now" "rd_inputVersions row = versions" "rd_score row = rr_score result"
        "rd_blockers row = rr_blockers result" "rd_warnings row = rr_warnings result"
      by (subst e(2), simp add: readiness_row_def iv)+
    then show ?thesis
      using e(1) fit(1) by (simp add: settled_def ready facts)
  qed
  moreover have "settled db' q" if "q \<in> set (pp_passports db)" "ps_id q \<noteq> ?i" for q
    using pendingD(2) [OF pend that(1)] that(2) by (intro settled_cong [of q q db' db]) (simp_all add: ready facts)
  ultimately have settled: "settled db' q" if "q \<in> set (pp_passports db')" for q
    using rowed [OF that] by auto
  have "ps_status q \<noteq> Psp_SUSPENDED" "facts_of db' (ps_id q) = [] \<Longrightarrow> ps_status q = Psp_DRAFT" if "q \<in> set (pp_passports db')" for q
    using rowed [OF that] fit pendingD(3,4) [OF pend, of q] by (auto simp: facts status_fits_def split: if_splits)
  moreover have "tables_ok db'"
  proof -
    have "map ps_id (pp_passports db') = map ps_id (pp_passports db)" "map ps_organizationId (pp_passports db') = map ps_organizationId (pp_passports db)"
      unfolding e(4) by (rule map_set_by; simp)+
    moreover from this(1) have "ps_id ` set (pp_passports db') = ps_id ` set (pp_passports db)"
      by (metis list.set_map)
    ultimately show ?thesis
      using t by (simp add: tables_ok_def e(6-8) evidence_belongs_def pevidence_findById_def)
  qed
  ultimately show ?thesis
    unfolding passport_ok_def using settled by (intro pendingI)
qed

section \<open>The requests keep the invariant\<close>

lemma create_passport_ok:
  assumes ok: "passport_ok db" and w: "passports_create env actor ctx snap db = Inr (p, db')"
  shows "passport_ok db'"
proof -
  obtain org db1 out where e: "organizationId actor = Some org" "p = new_passport env actor (ps_id p)"
      "\<forall>x \<in> set (pp_passports db). ps_id x \<noteq> ps_id p \<and> ps_organizationId x \<noteq> org"
      "pp_passports db1 = pp_passports db @ [p]" "pp_facts db1 = pp_facts db" "pp_evidence db1 = pp_evidence db"
      "pp_readiness db1 = pp_readiness db" "pp_jobKeys db1 = pp_jobKeys db"
      "recomputeReadinessAndStatus env p (userId actor) org ctx db1 = Inr (out, db')"
    using create_passport_effect [OF w] by blast
  have t: "tables_ok db" and pend: "pending db x" for x
    using ok pending_weaken [OF ok] by (simp_all add: passport_ok_def pending_def)
  have p: "ps_status p = Psp_DRAFT" "ps_organizationId p = org"
    by (subst e(2), simp add: new_passport_def e(1))+
  have "pf_passportId f \<noteq> ps_id p" if "f \<in> set (pp_facts db)" for f
    using tables_okD(4) [OF t] that e(3) by fastforce
  then have none: "facts_of db1 (ps_id p) = []"
    by (auto simp: facts_of_def e(5) filter_empty_conv)
  have same: "facts_of db1 j = facts_of db j" "readiness_of db1 j = readiness_of db j" "buildSnapshots db1 j = buildSnapshots db j" for j
    using snapshot_reads [of db1 db] e(5,6) by (simp_all add: facts_of_def readiness_of_def e(5,7))
  have "tables_ok db1"
    using tables_okD [OF t] e(3) p(2)
    by (auto simp: tables_ok_def e(4-8) evidence_belongs_def pevidence_findById_def image_iff)
  then have "pending db1 (Some (ps_id p))"
  proof (rule pendingI)
    fix q
    assume q: "q \<in> set (pp_passports db1)"
    then have or: "q \<in> set (pp_passports db) \<or> q = p"
      by (auto simp: e(4))
    show "settled db1 q" if "Some (ps_id q) \<noteq> Some (ps_id p)"
      using or that pendingD(2) [OF pend, of q None] by (intro settled_cong [of q q db1 db]) (auto simp: same)
    show "ps_status q \<noteq> Psp_SUSPENDED"
      using or p(1) pendingD(3) [OF pend, of q] by auto
    show "ps_status q = Psp_DRAFT" if "facts_of db1 (ps_id q) = []"
      using or p(1) that pendingD(4) [OF pend, of q] by (auto simp: same)
  qed
  moreover have "passport_findById db1 (ps_id p) = Some p"
    using find_by_None [of ps_id "ps_id p" "pp_passports db"] e(3) by (simp add: passport_findById_def e(4))
  moreover obtain row target where "out = (row, target)"
    by (cases out)
  ultimately show ?thesis
    using e(9) unfolding recomputeReadinessAndStatus_def by (blast intro: recompute_settles)
qed

text \<open>What an upsert does to the fact table.\<close>

lemma fact_replace_simps [simp]:
  "pf_passportId (fact_replace new f) = pf_passportId f" "pf_fieldKey (fact_replace new f) = pf_fieldKey f"
  "pf_id (fact_replace new f) = pf_id f" "pf_value (fact_replace new f) = pf_value new"
  "pf_evidenceId (fact_replace new f) = pf_evidenceId new" "pf_version (fact_replace new f) = pf_version f + 1"
  by (simp_all add: fact_replace_def)

lemma upsert_keys:
  "keyed_facts (upsert_rows new rows) =
     (if (pf_passportId new, pf_fieldKey new) \<in> set (keyed_facts rows) then keyed_facts rows
      else keyed_facts rows @ [(pf_passportId new, pf_fieldKey new)])"
proof -
  have "(pf_passportId new, pf_fieldKey new) \<in> set (keyed_facts rows) \<longleftrightarrow> (\<exists>f \<in> set rows. fact_same new f)"
    by (auto simp: keyed_facts_def fact_same_def image_iff)
  then show ?thesis
    by (simp add: upsert_rows_def keyed_facts_def)
qed

lemma upsert_mem:
  assumes "f \<in> set (upsert_rows new rows)"
  shows "f \<in> set rows \<or> pf_passportId f = pf_passportId new \<and> pf_value f = pf_value new \<and> pf_evidenceId f = pf_evidenceId new"
  using assms by (auto simp: upsert_rows_def fact_same_def split: if_splits)

lemma upsert_other:
  assumes "j \<noteq> pf_passportId new"
  shows "filter (\<lambda>f. pf_passportId f = j) (upsert_rows new rows) = filter (\<lambda>f. pf_passportId f = j) rows"
proof -
  have "filter (\<lambda>f. pf_passportId f = j) (map (\<lambda>f. if fact_same new f then fact_replace new f else f) rows) =
      filter (\<lambda>f. pf_passportId f = j) rows"
    using assms by (induction rows) (auto simp: fact_same_def)
  then show ?thesis
    using assms by (simp add: upsert_rows_def)
qed

lemma upsert_present: "filter (\<lambda>f. pf_passportId f = pf_passportId new) (upsert_rows new rows) \<noteq> []"
proof (cases "\<exists>f \<in> set rows. fact_same new f")
  case True
  then obtain f where "f \<in> set rows" "fact_same new f"
    by blast
  then have "pf_passportId (fact_replace new f) = pf_passportId new"
    by (simp add: fact_same_def)
  moreover from \<open>f \<in> set rows\<close> \<open>fact_same new f\<close> have "fact_replace new f \<in> set (upsert_rows new rows)"
    by (auto simp: upsert_rows_def image_iff)
  ultimately show ?thesis
    unfolding filter_empty_conv by blast
next
  case False
  then show ?thesis
    by (simp add: upsert_rows_def)
qed

lemma snapshot_facts_cong:
  assumes "facts_of db' i = facts_of db i" and "\<And>f. f \<in> set (facts_of db i) \<Longrightarrow> fact_expiry db' f = fact_expiry db f"
  shows "buildSnapshots db' i = buildSnapshots db i"
  unfolding buildSnapshots_def listByPassport_cong [OF assms(1)]
  by (rule map_cong) (use assms(2) in \<open>auto simp: fact_snapshot_def listByPassport_facts\<close>)

lemma upsertFact_ok:
  assumes ok: "passport_ok db" and belongs: "evidence_belongs db i (uq_evidenceId inp)"
    and w: "upsertFact env actor i inp ctx snap db = Inr (out, db')"
  shows "passport_ok db'"
proof -
  obtain p j db1 where e: "passport_findById db i = Some p" "snd (uq_normalizedValue inp) \<noteq> VNull"
      "pp_facts db1 = upsert_rows (input_fact env actor i inp j) (pp_facts db)" "pp_passports db1 = pp_passports db"
      "pp_evidence db1 = pp_evidence db" "pp_readiness db1 = pp_readiness db" "pp_jobKeys db1 = pp_jobKeys db"
      "recomputeReadinessAndStatus env p (userId actor) (ps_organizationId p) ctx db1 = Inr ((ur_readiness out, ur_status out), db')"
    using upsertFact_effect [OF w] by blast
  let ?new = "input_fact env actor i inp j"
  have new: "pf_passportId ?new = i" "pf_value ?new = uq_normalizedValue inp" "pf_evidenceId ?new = uq_evidenceId inp"
    by (simp_all add: input_fact_def)
  have t: "tables_ok db" and pend: "pending db x" for x
    using ok pending_weaken [OF ok] by (simp_all add: passport_ok_def pending_def)
  note p = found_passport [OF pend [of None] e(1)] and d = tables_okD [OF t]
  have other: "facts_of db1 k = facts_of db k" if "k \<noteq> i" for k
    using upsert_other [of k ?new] that new(1) by (simp add: facts_of_def e(3))
  have some: "facts_of db1 i \<noteq> []"
    using upsert_present [of ?new] new(1) by (simp add: facts_of_def e(3))
  have snaps: "buildSnapshots db1 k = buildSnapshots db k" if "k \<noteq> i" for k
    by (rule snapshot_facts_cong [OF other [OF that]]) (simp add: fact_expiry_def fact_evidence_def pevidence_findById_def e(5))
  have ready: "readiness_of db1 k = readiness_of db k" for k
    by (simp add: readiness_of_def e(6))
  have belongs1: "evidence_belongs db1 k v = evidence_belongs db k v" for k v
    by (simp add: evidence_belongs_def pevidence_findById_def e(5))
  have rows: "evidence_belongs db (pf_passportId f) (pf_evidenceId f) \<and> snd (pf_value f) \<noteq> VNull \<and>
      pf_passportId f \<in> ps_id ` set (pp_passports db)" if f: "f \<in> set (pp_facts db1)" for f
    using upsert_mem [OF f [unfolded e(3)]]
  proof
    assume "f \<in> set (pp_facts db)"
    then show ?thesis
      using d(4-6) by blast
  next
    assume "pf_passportId f = pf_passportId ?new \<and> pf_value f = pf_value ?new \<and> pf_evidenceId f = pf_evidenceId ?new"
    then show ?thesis
      using belongs e(2) p by (auto simp: new)
  qed
  have "tables_ok db1"
    unfolding tables_ok_def
  proof (intro conjI)
    show "distinct (keyed_facts (pp_facts db1))"
      using d(3) by (simp add: e(3) upsert_keys)
    show "\<forall>f \<in> set (pp_facts db1). evidence_belongs db1 (pf_passportId f) (pf_evidenceId f) \<and> snd (pf_value f) \<noteq> VNull"
      using rows by (simp add: belongs1)
    show "pf_passportId ` set (pp_facts db1) \<subseteq> ps_id ` set (pp_passports db1)"
      using rows by (auto simp: e(4))
  qed (use d(1,2,7) in \<open>simp_all add: e(4,7)\<close>)
  then have "pending db1 (Some (ps_id p))"
  proof (rule pendingI)
    fix q
    assume "q \<in> set (pp_passports db1)"
    then have q: "q \<in> set (pp_passports db)"
      by (simp add: e(4))
    show "settled db1 q" if "Some (ps_id q) \<noteq> Some (ps_id p)"
      using that p(2) q pendingD(2) [OF pend, of q None] by (intro settled_cong [of q q db1 db]) (auto simp: other snaps ready)
    show "ps_status q \<noteq> Psp_SUSPENDED"
      using q pendingD(3) [OF pend] by blast
    show "ps_status q = Psp_DRAFT" if "facts_of db1 (ps_id q) = []"
      using that some q other pendingD(4) [OF pend q] by (cases "ps_id q = i") auto
  qed
  moreover have "passport_findById db1 (ps_id p) = Some p"
    using e(1) p(2) by (simp add: passport_findById_def e(4))
  ultimately show ?thesis
    using e(8) unfolding recomputeReadinessAndStatus_def by (blast intro: recompute_settles)
qed

lemma addEvidence_ok:
  assumes ok: "passport_ok db" and w: "addEvidence parse env actor i inp ctx snap db = Inr (e, db')"
  shows "passport_ok db'"
proof -
  have e: "\<forall>x \<in> set (pp_evidence db). pe_id x \<noteq> pe_id e" "pp_evidence db' = pp_evidence db @ [e]"
      "pp_passports db' = pp_passports db" "pp_facts db' = pp_facts db" "pp_readiness db' = pp_readiness db" "pp_jobKeys db' = pp_jobKeys db"
    using addEvidence_effect [OF w] by simp_all
  have t: "tables_ok db"
    using ok by (simp add: passport_ok_def pending_def)
  have belongs: "evidence_belongs db' k v" if "evidence_belongs db k v" for k v
    using that by (auto simp: evidence_belongs_def pevidence_findById_def e(2) split: option.splits)
  have "fact_expiry db' f = fact_expiry db f" if "f \<in> set (pp_facts db)" for f
    using tables_okD(5) [OF t that]
    by (auto simp: fact_expiry_def fact_evidence_def evidence_belongs_def pevidence_findById_def e(2) split: option.splits)
  then have same: "facts_of db' k = facts_of db k" "readiness_of db' k = readiness_of db k" "buildSnapshots db' k = buildSnapshots db k" for k
    by (auto intro!: snapshot_facts_cong simp: facts_of_def readiness_of_def e(4,5))
  have "settled db' q" if "settled db q" for q
    using that by (rule settled_cong [OF refl same(2,1,3), rotated]) simp
  moreover have "tables_ok db'"
    using t belongs by (simp add: tables_ok_def e(3,4,6))
  ultimately show ?thesis
    using ok by (simp add: passport_ok_def pending_def e(3) same)
qed

text \<open>A status write that stays within the class of the status: verifying, and marking as stale.\<close>

lemma status_write_ok:
  assumes ok: "passport_ok db" and found: "passport_findById db i = Some p"
    and cls: "ps_status p \<in> {Psp_READY, Psp_VERIFIED}" "s \<in> {Psp_READY, Psp_VERIFIED, Psp_STALE}"
    and rows: "pp_passports db' = set_by ps_id i (passport_set s user) (pp_passports db)"
    and same: "pp_facts db' = pp_facts db" "pp_evidence db' = pp_evidence db" "pp_readiness db' = pp_readiness db" "pp_jobKeys db' = pp_jobKeys db"
  shows "passport_ok db'"
proof -
  have pend: "pending db None" and t: "tables_ok db"
    using ok by (simp_all add: passport_ok_def pending_def)
  note p = found_passport [OF pend found] and d = tables_okD [OF t]
  have cong: "facts_of db' k = facts_of db k" "readiness_of db' k = readiness_of db k" "buildSnapshots db' k = buildSnapshots db k" for k
    using snapshot_reads [of db' db] same by (simp_all add: facts_of_def readiness_of_def)
  have rowed: "q = passport_set s user p \<or> q \<in> set (pp_passports db) \<and> ps_id q \<noteq> i" if "q \<in> set (pp_passports db')" for q
    using set_by_row [OF d(1) found [unfolded passport_findById_def] that [unfolded rows]] .
  have "settled db' (passport_set s user p)"
  proof (rule settled_cong [of _ p])
    show "settled db p"
      using pendingD(2) [OF pend p(1)] by simp
    show "status_fits (ps_status (passport_set s user p)) h b" if "status_fits (ps_status p) h b" for h b
      using that cls by (auto simp: status_fits_def split: if_splits)
  qed (simp_all add: cong)
  moreover have "settled db' q" if "q \<in> set (pp_passports db)" for q
    using pendingD(2) [OF pend that] by (intro settled_cong [of q q db' db]) (simp_all add: cong)
  moreover have "facts_of db i \<noteq> []"
    using pendingD(4) [OF pend p(1)] p(2) cls(1) by auto
  moreover have "tables_ok db'"
  proof -
    have "map ps_id (pp_passports db') = map ps_id (pp_passports db)" "map ps_organizationId (pp_passports db') = map ps_organizationId (pp_passports db)"
      unfolding rows by (rule map_set_by; simp)+
    moreover from this(1) have "ps_id ` set (pp_passports db') = ps_id ` set (pp_passports db)"
      by (metis list.set_map)
    ultimately show ?thesis
      using t by (simp add: tables_ok_def same evidence_belongs_def pevidence_findById_def)
  qed
  ultimately show ?thesis
    unfolding passport_ok_def using rowed cls(2) p(2) pendingD(3,4) [OF pend]
    by (intro pendingI) (fastforce simp: cong)+
qed

text \<open>A read may mark the passport as stale; a job recomputes it unless its key was used.\<close>

lemma load_ok:
  assumes ok: "passport_ok db" and w: "loadDetailWithStalenessCheck env actor p snap db = Inr (d, db')"
  shows "passport_ok db'"
proof -
  have t: "tables_ok db"
    using ok by (simp add: passport_ok_def pending_def)
  note e = load_effect [OF w]
  then consider "pp_passports db' = pp_passports db"
    | fresh where "passport_findById db (ps_id p) = Some fresh" "ps_status fresh \<in> {Psp_READY, Psp_VERIFIED}"
        "pp_passports db' = set_by ps_id (ps_id p) (passport_set Psp_STALE None) (pp_passports db)"
    by blast
  then show ?thesis
  proof cases
    case 1
    then show ?thesis
      using e tables_okD(7) [OF t] by (intro same_content_ok [OF ok]) (simp_all add: same_content_def)
  next
    case 2
    then show ?thesis
      using e by (intro status_write_ok [OF ok 2(1,2) _ 2(3)]) simp_all
  qed
qed

lemma job_keys_complete:
  assumes "idempotency_find keys sc k = None" and "r \<in> set (idempotency_complete sc k b (keys @ [row]))"
    and "\<And>r. r \<in> set keys \<Longrightarrow> ik_response r \<noteq> None" and "ik_scope row = sc" "ik_key row = k"
  shows "ik_response r \<noteq> None"
  using assms by (auto simp: idempotency_complete_def)

text \<open>The outcomes of a job: no such passport, a key that was used, a recompute.\<close>

abbreviation job_scope :: string where
  "job_scope \<equiv> ''worker.passport-readiness''"

definition job_key :: "PassportStore \<Rightarrow> int \<Rightarrow> Passport \<Rightarrow> string" where
  "job_key db now p = readiness_key p (job_versions db now (ps_id p))"

definition job_hash :: "(string list \<Rightarrow> string) \<Rightarrow> PassportStore \<Rightarrow> int \<Rightarrow> Passport \<Rightarrow> string" where
  "job_hash h db now p = h ([ps_id p, passportStatus_name (ps_status p)] @ job_versions db now (ps_id p))"

definition job_row :: "string \<Rightarrow> string \<Rightarrow> string \<Rightarrow> int \<Rightarrow> bool IdempotencyKey" where
  "job_row i k hash expires = \<lparr>ik_id = i, ik_key = k, ik_scope = job_scope, ik_requestHash = hash, ik_response = None,
     ik_organizationId = None, ik_userId = None, ik_expiresAt = expires\<rparr>"

lemma job_cases:
  assumes "recomputePassport env h now i db = Inr db'"
  obtains (missing) "db' = db" "passport_findById db i = None"
  | (used) p r b where "passport_findById db i = Some p" "same_content db db'" "pp_jobKeys db' = pp_jobKeys db"
      "idempotency_find (pp_jobKeys db) job_scope (job_key db now p) = Some r" "ik_response r = Some b" "ik_requestHash r = job_hash h db now p"
  | (reserved) p out db1 r where "passport_findById db i = Some p"
      "recompute_with env None None None ''SYSTEM'' [(''trigger'', JStr ''worker'')] now p (job_versions db now (ps_id p)) db = Inr (out, db1)"
      "same_content db1 db'" "idempotency_find (pp_jobKeys db) job_scope (job_key db now p) = Some r" "ik_response r = None"
  | (recomputes) p out db1 keyId expires where "passport_findById db i = Some p"
      "recompute_with env None None None ''SYSTEM'' [(''trigger'', JStr ''worker'')] now p (job_versions db now (ps_id p)) db = Inr (out, db1)"
      "same_content db1 db'" "idempotency_find (pp_jobKeys db) job_scope (job_key db now p) = None"
      "pp_jobKeys db' = idempotency_complete job_scope (job_key db now p) True
         (pp_jobKeys db @ [job_row keyId (job_key db now p) (job_hash h db now p) expires])"
  using job_effect [OF assms] unfolding Let_def job_key_def [symmetric] job_hash_def [symmetric]
proof (elim disjE exE conjE)
  fix p out db1 keyId
  assume "passport_findById db i = Some p"
      "recompute_with env None None None ''SYSTEM'' [(''trigger'', JStr ''worker'')] now p (job_versions db now (ps_id p)) db = Inr (out, db1)"
      "same_content db1 db'" "idempotency_find (pp_jobKeys db) job_scope (job_key db now p) = None"
    and keys: "pp_jobKeys db' = idempotency_complete job_scope (job_key db now p) True (pp_jobKeys db @ [\<lparr>ik_id = keyId, ik_key = job_key db now p,
      ik_scope = job_scope, ik_requestHash = job_hash h db now p, ik_response = None, ik_organizationId = None, ik_userId = None,
      ik_expiresAt = clock env + IDEMPOTENCY_KEY_TTL_MS\<rparr>])"
  then show thesis
    by (intro recomputes) (simp_all only: job_row_def)
qed (rule missing used reserved; assumption)+

lemma job_ok:
  assumes ok: "passport_ok db" and w: "recomputePassport env h now i db = Inr db'"
  shows "passport_ok db'"
proof -
  have t: "tables_ok db"
    using ok by (simp add: passport_ok_def pending_def)
  have settles: "passport_ok db1" if "passport_findById db i = Some p"
    "recompute_with env None None None ''SYSTEM'' [(''trigger'', JStr ''worker'')] now p (job_versions db now (ps_id p)) db = Inr (out, db1)" for p out db1
  proof -
    have pend: "pending db (Some (ps_id p))"
      using ok by (rule pending_weaken)
    have "ps_id p = i"
      using found_passport [OF pend that(1)] by simp
    moreover obtain row target where "out = (row, target)"
      by (cases out)
    ultimately show ?thesis
      using recompute_settles [OF pend] that by simp
  qed
  show ?thesis
    using w
  proof (cases rule: job_cases)
    case (used p r b)
    then show ?thesis
      using tables_okD(7) [OF t] by (intro same_content_ok [OF ok]) simp_all
  next
    case (reserved p out db1 r)
    then show ?thesis
      using tables_okD(7) [OF t idempotency_row] by blast
  next
    case (recomputes p out db1 keyId expires)
    have "ik_response r \<noteq> None" if "r \<in> set (pp_jobKeys db')" for r
      using job_keys_complete [OF recomputes(4) that [unfolded recomputes(5)] tables_okD(7) [OF t]] by (simp add: job_row_def)
    then show ?thesis
      by (intro same_content_ok [OF settles [OF recomputes(1,2)] recomputes(3)])
  qed (use ok in simp)
qed

end
