(* ===== verification/Passport_Keeps.thy ===== *)
theory Passport_Keeps
  imports Passport_Invariant
begin

text \<open>
  What a later state of the passport tables keeps of an earlier one, and the history of the passport
  service: every step keeps the invariant of \<open>Passport_Invariant\<close> and this relation.
\<close>

section \<open>What later states keep\<close>

definition status_step :: "PassportStatus \<Rightarrow> PassportStatus \<Rightarrow> bool" where
  "status_step s t \<longleftrightarrow> t \<in> set (PASSPORT_TRANSITIONS s)"

definition passport_moves :: "Passport \<Rightarrow> Passport \<Rightarrow> bool" where
  "passport_moves p p' \<longleftrightarrow> ps_id p' = ps_id p \<and> ps_organizationId p' = ps_organizationId p \<and> ps_version p \<le> ps_version p' \<and>
     status_step\<^sup>*\<^sup>* (ps_status p) (ps_status p')"

definition fact_moves :: "Fact \<Rightarrow> Fact \<Rightarrow> bool" where
  "fact_moves f f' \<longleftrightarrow> pf_id f' = pf_id f \<and> pf_passportId f' = pf_passportId f \<and> pf_fieldKey f' = pf_fieldKey f \<and> pf_version f \<le> pf_version f'"

definition passport_keeps :: "PassportStore \<Rightarrow> PassportStore \<Rightarrow> bool" where
  "passport_keeps db db' \<longleftrightarrow>
     (\<exists>new. grows passport_moves new (pp_passports db) (pp_passports db')) \<and>
     (\<exists>new. grows fact_moves new (pp_facts db) (pp_facts db')) \<and>
     (\<exists>new. pp_evidence db' = pp_evidence db @ new) \<and> (\<exists>new. pp_readiness db' = pp_readiness db @ new) \<and>
     (\<forall>k r. idempotency_find (pp_jobKeys db) job_scope k = Some r \<longrightarrow> idempotency_find (pp_jobKeys db') job_scope k = Some r)"

lemma passport_moves_refl [simp]: "passport_moves p p" "fact_moves f f"
  by (simp_all add: passport_moves_def fact_moves_def)

lemma passport_moves_trans:
  "passport_moves p q \<Longrightarrow> passport_moves q r \<Longrightarrow> passport_moves p r" "fact_moves f g \<Longrightarrow> fact_moves g h \<Longrightarrow> fact_moves f h"
  by (auto simp: passport_moves_def fact_moves_def)

lemma passport_keeps_refl: "passport_keeps db db"
  unfolding passport_keeps_def using grows_same [of passport_moves] grows_same [of fact_moves] by auto

lemma passport_keeps_trans:
  assumes "passport_keeps a b" and "passport_keeps b c"
  shows "passport_keeps a c"
proof -
  have "\<exists>new. grows passport_moves new (pp_passports a) (pp_passports c)" "\<exists>new. grows fact_moves new (pp_facts a) (pp_facts c)"
    using assms unfolding passport_keeps_def by (blast intro: grows_trans passport_moves_trans)+
  then show ?thesis
    using assms by (auto simp: passport_keeps_def)
qed

lemma passport_keepsI:
  assumes "grows passport_moves n1 (pp_passports db) (pp_passports db')" and "grows fact_moves n2 (pp_facts db) (pp_facts db')"
    and "pp_evidence db' = pp_evidence db @ n3" and "pp_readiness db' = pp_readiness db @ n4"
    and "\<And>k r. idempotency_find (pp_jobKeys db) job_scope k = Some r \<Longrightarrow> idempotency_find (pp_jobKeys db') job_scope k = Some r"
  shows "passport_keeps db db'"
  using assms unfolding passport_keeps_def by blast

lemma same_content_keeps:
  "passport_keeps db db1 \<Longrightarrow> same_content db1 db' \<Longrightarrow>
   (\<And>k r. idempotency_find (pp_jobKeys db) job_scope k = Some r \<Longrightarrow> idempotency_find (pp_jobKeys db') job_scope k = Some r) \<Longrightarrow>
   passport_keeps db db'"
  by (simp add: passport_keeps_def same_content_def)

lemma later_evidence:
  assumes "passport_keeps snap db" and "evidence_belongs snap i e"
  shows "evidence_belongs db i e"
proof -
  obtain new where "pp_evidence db = pp_evidence snap @ new"
    using assms(1) by (auto simp: passport_keeps_def)
  then show ?thesis
    using assms(2) by (cases "find_by pe_id (the e) (pp_evidence snap)")
      (auto simp: evidence_belongs_def pevidence_findById_def find_by_def find_append_Some)
qed

lemma recompute_keeps:
  assumes d: "distinct (map ps_id (pp_passports db))" and found: "passport_findById db (ps_id p) = Some p"
    and w: "recompute_with env ctx user org source trigger now p versions db = Inr (out, db')"
  shows "passport_keeps db db'"
proof -
  obtain row target where out: "out = (row, target)"
    by (cases out)
  have e: "target = ps_status p \<or> target \<in> set (PASSPORT_TRANSITIONS (ps_status p))"
      "pp_passports db' = set_by ps_id (ps_id p) (recomputed target user) (pp_passports db)"
      "pp_readiness db' = pp_readiness db @ [row]" "pp_facts db' = pp_facts db" "pp_evidence db' = pp_evidence db" "pp_jobKeys db' = pp_jobKeys db"
    using recompute_effect [OF w [unfolded out] d found] by blast+
  have "passport_moves p (recomputed target user p)"
    using e(1) by (auto simp: passport_moves_def recomputed_def passport_set_def status_step_def)
  then have "grows passport_moves [] (pp_passports db) (pp_passports db')"
    unfolding e(2) using found by (intro set_by_grows [OF d]) (simp_all add: passport_findById_def)
  moreover have "grows fact_moves [] (pp_facts db) (pp_facts db')"
    unfolding e(4) by (rule grows_same) simp
  ultimately show ?thesis
    using e(3,5,6) by (intro passport_keepsI [where ?n3.0 = "[]" and ?n4.0 = "[row]"]) simp_all
qed

lemma status_write_keeps:
  assumes d: "distinct (map ps_id (pp_passports db))" and found: "passport_findById db i = Some p"
    and s: "s \<in> set (PASSPORT_TRANSITIONS (ps_status p))"
    and rows: "pp_passports db' = set_by ps_id i (passport_set s user) (pp_passports db)"
    and same: "pp_facts db' = pp_facts db" "pp_evidence db' = pp_evidence db" "pp_readiness db' = pp_readiness db" "pp_jobKeys db' = pp_jobKeys db"
  shows "passport_keeps db db'"
proof -
  have "passport_moves p (passport_set s user p)"
    using s by (auto simp: passport_moves_def passport_set_def status_step_def)
  then have "grows passport_moves [] (pp_passports db) (pp_passports db')"
    unfolding rows using found by (intro set_by_grows [OF d]) (simp_all add: passport_findById_def)
  moreover have "grows fact_moves [] (pp_facts db) (pp_facts db')"
    unfolding same(1) by (rule grows_same) simp
  ultimately show ?thesis
    using same by (intro passport_keepsI [where ?n3.0 = "[]" and ?n4.0 = "[]"]) simp_all
qed

lemma upsert_grows: "\<exists>n. grows fact_moves n rows (upsert_rows new rows)"
proof -
  have "fact_moves f (if fact_same new f then fact_replace new f else f)" for f
    by (simp add: fact_moves_def)
  then have "list_all2 fact_moves rows (map (\<lambda>f. if fact_same new f then fact_replace new f else f) rows)"
    by (simp add: list_all2_map2 list.rel_refl)
  then have "grows fact_moves [] rows (map (\<lambda>f. if fact_same new f then fact_replace new f else f) rows)"
    by (simp add: grows_def)
  moreover have "grows fact_moves [x] rows (rows @ [x])" for x
    by (rule grows_append) simp
  ultimately show ?thesis
    by (cases "\<exists>f \<in> set rows. fact_same new f") (auto simp only: upsert_rows_def if_True if_False)
qed

lemma job_keeps:
  assumes ok: "passport_ok db" and w: "recomputePassport env h now i db = Inr db'"
  shows "passport_keeps db db'"
proof -
  have t: "tables_ok db" and pend: "pending db None"
    using ok by (simp_all add: passport_ok_def pending_def)
  show ?thesis
    using w
  proof (cases rule: job_cases)
    case missing
    then show ?thesis by (simp add: passport_keeps_refl)
  next
    case (used p r b)
    then show ?thesis
      by (intro same_content_keeps [OF passport_keeps_refl]) simp_all
  next
    case (reserved p out db1 r)
    then show ?thesis
      using tables_okD(7) [OF t idempotency_row] by blast
  next
    case (recomputes p out db1 keyId expires)
    have "passport_findById db (ps_id p) = Some p"
      using found_passport [OF pend recomputes(1)] recomputes(1) by simp
    then have "passport_keeps db db1"
      using recompute_keeps [OF tables_okD(1) [OF t]] recomputes(2) by blast
    moreover have "idempotency_find (pp_jobKeys db') job_scope k = Some r"
      if "idempotency_find (pp_jobKeys db) job_scope k = Some r" for k r
    proof -
      have "k \<noteq> job_key db now p"
        using that recomputes(4) by auto
      then show ?thesis
        using that unfolding recomputes(5) idempotency_find_complete by (simp add: idempotency_find_def find_append_Some)
    qed
    ultimately show ?thesis
      by (rule same_content_keeps [OF _ recomputes(3)])
  qed
qed

section \<open>Every step\<close>

lemma passport_step_ok:
  assumes "passport_step snap db db'" and keeps: "passport_keeps snap db" and ok: "passport_ok db"
  shows "passport_ok db'"
  using assms(1)
proof cases
  case (create env actor ctx p)
  then show ?thesis using create_passport_ok [OF ok] by blast
next
  case (fact env actor i inp ctx out)
  have "evidence_belongs snap i (uq_evidenceId inp)"
    using upsertFact_effect [OF fact] by blast
  then show ?thesis
    using upsertFact_ok [OF ok _ fact] later_evidence [OF keeps] by blast
next
  case (evidence parse env actor i req ctx e)
  then show ?thesis using addEvidence_ok [OF ok] by blast
next
  case (verify env actor i reason ctx p)
  then obtain fresh where "passport_findById db i = Some fresh" "ps_status fresh = Psp_READY"
      "pp_passports db' = set_by ps_id i (passport_set Psp_VERIFIED (Some (userId actor))) (pp_passports db)"
      "pp_facts db' = pp_facts db" "pp_evidence db' = pp_evidence db" "pp_readiness db' = pp_readiness db" "pp_jobKeys db' = pp_jobKeys db"
    using verify_effect by blast
  then show ?thesis
    by (intro status_write_ok [OF ok, of i fresh Psp_VERIFIED db' "Some (userId actor)"]) simp_all
next
  case (read env actor i d)
  then show ?thesis
    using load_ok [OF ok] by (auto simp: passports_getById_def ebind_eq_Inr)
next
  case (read_org env actor i d)
  then show ?thesis
    using load_ok [OF ok] by (auto simp: passports_getByOrganizationId_def ebind_eq_Inr)
next
  case (job env h now i)
  then show ?thesis using job_ok [OF ok] by blast
qed

lemma create_keeps:
  assumes ok: "passport_ok db" and w: "passports_create env actor ctx snap db = Inr (p, db')"
  shows "passport_keeps db db'"
proof -
  obtain org db1 out where e: "\<forall>x \<in> set (pp_passports db). ps_id x \<noteq> ps_id p \<and> ps_organizationId x \<noteq> org"
      "pp_passports db1 = pp_passports db @ [p]" "pp_facts db1 = pp_facts db" "pp_evidence db1 = pp_evidence db"
      "pp_readiness db1 = pp_readiness db" "pp_jobKeys db1 = pp_jobKeys db"
      "recomputeReadinessAndStatus env p (userId actor) org ctx db1 = Inr (out, db')"
    using create_passport_effect [OF w] by blast
  have d: "distinct (map ps_id (pp_passports db1))"
    using ok e(1) by (auto simp: passport_ok_def pending_def tables_ok_def e(2))
  have "passport_findById db1 (ps_id p) = Some p"
    using find_by_None [of ps_id "ps_id p" "pp_passports db"] e(1) by (simp add: passport_findById_def e(2))
  then have "passport_keeps db1 db'"
    using recompute_keeps [OF d] e(7) unfolding recomputeReadinessAndStatus_def by blast
  moreover have "grows passport_moves [p] (pp_passports db) (pp_passports db1)" "grows fact_moves [] (pp_facts db) (pp_facts db1)"
    unfolding e(2,3) by (rule grows_append grows_same; simp)+
  then have "passport_keeps db db1"
    using e(4-6) by (intro passport_keepsI [where ?n3.0 = "[]" and ?n4.0 = "[]"]) simp_all
  ultimately show ?thesis
    using passport_keeps_trans by blast
qed

lemma fact_keeps:
  assumes ok: "passport_ok db" and w: "upsertFact env actor i inp ctx snap db = Inr (out, db')"
  shows "passport_keeps db db'"
proof -
  obtain p j db1 where e: "passport_findById db i = Some p"
      "pp_facts db1 = upsert_rows (input_fact env actor i inp j) (pp_facts db)" "pp_passports db1 = pp_passports db"
      "pp_evidence db1 = pp_evidence db" "pp_readiness db1 = pp_readiness db" "pp_jobKeys db1 = pp_jobKeys db"
      "recomputeReadinessAndStatus env p (userId actor) (ps_organizationId p) ctx db1 = Inr ((ur_readiness out, ur_status out), db')"
    using upsertFact_effect [OF w] by blast
  have d: "distinct (map ps_id (pp_passports db1))" and pend: "pending db None"
    using ok by (auto simp: passport_ok_def pending_def tables_ok_def e(3))
  have "passport_findById db1 (ps_id p) = Some p"
    using found_passport [OF pend e(1)] e(1) by (simp add: passport_findById_def e(3))
  then have "passport_keeps db1 db'"
    using recompute_keeps [OF d] e(7) unfolding recomputeReadinessAndStatus_def by blast
  moreover obtain n where "grows fact_moves n (pp_facts db) (pp_facts db1)"
    using upsert_grows unfolding e(2) by blast
  moreover have "grows passport_moves [] (pp_passports db) (pp_passports db1)"
    unfolding e(3) by (rule grows_same) simp
  then have "passport_keeps db db1"
    using calculation(2) e(4-6) by (intro passport_keepsI [where ?n3.0 = "[]" and ?n4.0 = "[]"]) simp_all
  ultimately show ?thesis
    using passport_keeps_trans by blast
qed

lemma load_keeps:
  assumes ok: "passport_ok db" and w: "loadDetailWithStalenessCheck env actor p snap db = Inr (d, db')"
  shows "passport_keeps db db'"
proof -
  note e = load_effect [OF w]
  have dist: "distinct (map ps_id (pp_passports db))"
    using ok by (simp add: passport_ok_def pending_def tables_ok_def)
  from e consider "pp_passports db' = pp_passports db"
    | fresh where "passport_findById db (ps_id p) = Some fresh" "ps_status fresh \<in> {Psp_READY, Psp_VERIFIED}"
        "pp_passports db' = set_by ps_id (ps_id p) (passport_set Psp_STALE None) (pp_passports db)"
    by blast
  then show ?thesis
  proof cases
    case 1
    then show ?thesis
      using e by (intro same_content_keeps [OF passport_keeps_refl]) (simp_all add: same_content_def)
  next
    case 2
    moreover have "Psp_STALE \<in> set (PASSPORT_TRANSITIONS (ps_status fresh))"
      using 2(2) by auto
    ultimately show ?thesis
      using e by (intro status_write_keeps [OF dist 2(1) _ 2(3)]) simp_all
  qed
qed

lemma passport_step_keeps:
  assumes "passport_step snap db db'" and ok: "passport_ok db"
  shows "passport_keeps db db'"
  using assms(1)
proof cases
  case (create env actor ctx p)
  then show ?thesis using create_keeps [OF ok] by blast
next
  case (fact env actor i inp ctx out)
  then show ?thesis using fact_keeps [OF ok] by blast
next
  case (evidence parse env actor i req ctx e)
  have "grows passport_moves [] (pp_passports db) (pp_passports db')" "grows fact_moves [] (pp_facts db) (pp_facts db')"
    using addEvidence_effect [OF evidence] grows_same [of passport_moves] grows_same [of fact_moves] by simp_all
  then show ?thesis
    using addEvidence_effect [OF evidence] by (intro passport_keepsI [where ?n3.0 = "[e]" and ?n4.0 = "[]"]) simp_all
next
  case (verify env actor i reason ctx p)
  then obtain fresh where "passport_findById db i = Some fresh" "ps_status fresh = Psp_READY"
      "pp_passports db' = set_by ps_id i (passport_set Psp_VERIFIED (Some (userId actor))) (pp_passports db)"
      "pp_facts db' = pp_facts db" "pp_evidence db' = pp_evidence db" "pp_readiness db' = pp_readiness db" "pp_jobKeys db' = pp_jobKeys db"
    using verify_effect by blast
  then show ?thesis
    using ok by (intro status_write_keeps [of db i fresh Psp_VERIFIED]) (simp_all add: passport_ok_def pending_def tables_ok_def)
next
  case (read env actor i d)
  then show ?thesis
    using load_keeps [OF ok] by (auto simp: passports_getById_def ebind_eq_Inr)
next
  case (read_org env actor i d)
  then show ?thesis
    using load_keeps [OF ok] by (auto simp: passports_getByOrganizationId_def ebind_eq_Inr)
next
  case (job env h now i)
  then show ?thesis using job_keeps [OF ok] by blast
qed

interpretation passports: request_history passport_step passport_start True passport_ok passport_keeps
proof unfold_locales
  show "passport_keeps db db" for db
    by (rule passport_keeps_refl)
  show "passport_keeps a c" if "passport_keeps a b" "passport_keeps b c" for a b c
    using that by (rule passport_keeps_trans)
  show "passport_ok db" if "passport_start db" for db
    using that by (simp add: passport_start_def passport_ok_def pending_def tables_ok_def keyed_facts_def)
  show "passport_ok db'" if "passport_step snap db db'" "passport_keeps snap db" "passport_ok db" for snap db db'
    using that by (rule passport_step_ok)
qed (rule passport_step_keeps)

end
