(* ===== verification/Passport_Progress.thy ===== *)
theory Passport_Progress
  imports Passport_Keeps
begin

text \<open>
  What a request of the passport service needs to succeed: besides the permission and a value that can
  be stored, nothing but new identifiers. The readiness engine accepts the facts of every reachable
  state and its result always passes the guards of the JSON columns.
\<close>

section \<open>The readiness row can be stored\<close>

lemma notes_heap_safe: "assertJsonSafeObjectArray (notes_heap ns) (VRef 0) [] = Inr ()"
proof -
  have "assertJsonSafePlainObject (notes_heap ns) (VRef (Suc j)) path = Inr ()" if "j < length ns" for j path
    using that
    by (simp add: assertJsonSafePlainObject_def deref_def notes_heap_def note_object_def assertJsonSerializable.simps
        DANGEROUS_JSON_KEYS_def)
  then show ?thesis
    by (auto simp: assertJsonSafeObjectArray_def deref_def notes_heap_def [of ns, THEN arg_cong [of _ _ "\<lambda>h. h ! 0"]]
        notes_heap_def efor_eq_Inr in_set_enumerate_eq)
qed

lemma string_array_safe: "assertStringArray [JArray (map VString vs)] (VRef 0) [] = Inr ()"
  by (auto simp: assertStringArray_def deref_def efor_eq_Inr in_set_enumerate_eq)

lemma readiness_insert_succeeds:
  assumes "rd_id r \<notin> rd_id ` set (pp_readiness db)"
  shows "readiness_insert r db = Inr (db\<lparr>pp_readiness := pp_readiness db @ [r]\<rparr>)"
  using assms by (auto simp: readiness_insert_def notes_heap_safe string_array_safe insert_row_def image_iff)

section \<open>The engine accepts the facts of a reachable state\<close>

lemma distinct_field_keys:
  assumes "distinct (keyed_facts (pp_facts db))"
  shows "distinct (map fs_fieldKey (buildSnapshots db i))"
proof -
  have "distinct (map pf_fieldKey (facts_of db i))"
    using assms unfolding facts_of_def keyed_facts_def
    by (induction "pp_facts db" arbitrary: db rule: list.induct) (auto simp: distinct_map inj_on_def)
  moreover have "map fs_fieldKey (buildSnapshots db i) = map pf_fieldKey (fact_listByPassport db i)"
    by (simp add: buildSnapshots_def fact_snapshot_def)
  ultimately show ?thesis
    by (simp add: fact_listByPassport_def facts_of_def distinct_map)
qed

definition psp_ids_fresh :: "Env \<Rightarrow> PassportStore \<Rightarrow> bool" where
  "psp_ids_fresh env db \<longleftrightarrow>
     (\<forall>n \<ge> bs_ids db. uuid env n \<notin> ps_id ` set (pp_passports db) \<union> pf_id ` set (pp_facts db) \<union>
        pe_id ` set (pp_evidence db) \<union> rd_id ` set (pp_readiness db))"

lemma recompute_succeeds:
  assumes keys: "distinct (keyed_facts (pp_facts db))" and found: "passport_findById db (ps_id p) = Some p"
    and id: "uuid env (bs_ids db) \<notin> rd_id ` set (pp_readiness db)"
  shows "\<exists>out db'. recompute_with env ctx user org source trigger now p versions db = Inr (out, db')"
proof -
  let ?i = "ps_id p"
  obtain result where r: "computeReadiness (buildSnapshots db ?i) now versions requiredFacts = Inr result"
    using checkDistinctKeys_ok [of "{}" "buildSnapshots db ?i" "()"] distinct_field_keys [OF keys]
    by (simp add: computeReadiness_def Let_def)
  let ?target = "targetStatusAfterRecompute (ps_status p) (fact_listByPassport db ?i \<noteq> []) (isReadinessBlocked result)"
  have legal: "?target = ps_status p \<or> ?target \<in> set (PASSPORT_TRANSITIONS (ps_status p))"
    using recompute_target_legal [of "ps_status p"] by (simp add: passport_transition_ok)
  have ins: "readiness_insert (readiness_row (uuid env (bs_ids db)) ?i result now user org source) (db\<lparr>bs_ids := Suc (bs_ids db)\<rparr>) =
      Inr (db\<lparr>bs_ids := Suc (bs_ids db),
        pp_readiness := pp_readiness db @ [readiness_row (uuid env (bs_ids db)) ?i result now user org source]\<rparr>)"
    using id by (subst readiness_insert_succeeds) (simp_all add: readiness_row_def)
  have update: "\<exists>q db2. passport_updateStatus ?i ?target user db1 = Inr (q, db2)" if "pp_passports db1 = pp_passports db" for db1
    using found that passport_updateStatus_ok [of ?i ?target user db1] by (auto simp: passport_findById_def)
  show ?thesis
    using legal r ins update by (auto simp: recompute_with_def Let_def next_id_def ebind_eq_Inr passport_transition_ok)
qed

section \<open>Requests that succeed\<close>

lemma ids_grow [simp]:
  fixes db :: PassportStore
  shows "bs_ids db \<le> bs_ids (write_audit env ctx a db)" "bs_ids db \<le> bs_ids (write_event env ctx e db)"
  by (simp_all add: write_audit_def write_event_def next_id_def)

lemma fact_upsert_succeeds:
  assumes "assertJsonSerializableValue (fst (pf_value new)) (snd (pf_value new)) [] = Inr ()"
    and "pf_id new \<notin> pf_id ` set (pp_facts db)"
  shows "\<exists>f. fact_upsert new db = Inr (f, db\<lparr>pp_facts := upsert_rows new (pp_facts db)\<rparr>)"
proof -
  have "\<exists>f db'. fact_upsert new db = Inr (f, db')"
    using assms by (auto simp: fact_upsert_def insert_row_def image_iff split: option.splits)
  then show ?thesis
    using fact_upsert_ok(1) by blast
qed

lemma upsertFact_succeeds:
  assumes ok: "passport_ok db" and found: "passport_findById db i = Some p"
    and auth: "allowed (can actor A_passport_update \<lparr>rtype = R_passport, rid = None, ownerOrgId = Some (ps_organizationId p), privacyClass = None\<rparr> no_context)"
    and evidence: "evidence_belongs db i (uq_evidenceId inp)"
    and json: "assertJsonSerializableValue (fst (uq_normalizedValue inp)) (snd (uq_normalizedValue inp)) [] = Inr ()"
    and ids: "psp_ids_fresh env db"
  shows "\<exists>out db'. upsertFact env actor i inp ctx db db = Inr (out, db')"
proof -
  let ?j = "uuid env (bs_ids db)"
  let ?new = "input_fact env actor i inp ?j"
  let ?db1 = "db\<lparr>bs_ids := Suc (bs_ids db), pp_facts := upsert_rows ?new (pp_facts db)\<rparr>"
  have pend: "pending db None" and t: "tables_ok db"
    using ok by (simp_all add: passport_ok_def pending_def)
  have p: "ps_id p = i"
    using found_passport [OF pend found] by simp
  have "?j \<notin> pf_id ` set (pp_facts db)"
    using ids by (auto simp: psp_ids_fresh_def)
  then obtain f where f: "fact_upsert ?new (db\<lparr>bs_ids := Suc (bs_ids db)\<rparr>) = Inr (f, ?db1)"
    using fact_upsert_succeeds [of ?new "db\<lparr>bs_ids := Suc (bs_ids db)\<rparr>"] json by (auto simp: input_fact_def)
  let ?after = "[(''fieldKey'', JStr (uq_fieldKey inp)), (''sectionType'', JStr (passportSectionType_name (uq_sectionType inp))),
     (''verification'', JStr (factProvenance_name (pf_verification f)))]"
  let ?db2 = "write_event env (Some ctx) (event_by actor ''passport.fact_updated'' ''passport'' i ?after)
     (write_audit env (Some ctx) (audit_by actor (Some (ps_organizationId p)) ''passport.fact_updated'' ''passport'' i ?after) ?db1)"
  have "bs_ids db \<le> bs_ids ?db2"
    by (simp add: write_audit_def write_event_def next_id_def)
  moreover have "distinct (keyed_facts (pp_facts ?db2))"
    using tables_okD(3) [OF t] by (simp add: upsert_keys)
  ultimately obtain out db' where "recomputeReadinessAndStatus env p (userId actor) (ps_organizationId p) ctx ?db2 = Inr (out, db')"
    using recompute_succeeds [of ?db2 p env] ids found p
    unfolding recomputeReadinessAndStatus_def psp_ids_fresh_def by (fastforce simp: passport_findById_def)
  then show ?thesis
    using found auth evidence f by (cases out) (auto simp: upsertFact_def ebind_eq_Inr next_id_def Let_def authorize_ok)
qed

lemma create_passport_succeeds:
  assumes ok: "passport_ok db" and org: "organizationId actor = Some org" "org \<noteq> []"
    and auth: "allowed (can actor A_passport_create \<lparr>rtype = R_passport, rid = None, ownerOrgId = Some org, privacyClass = None\<rparr> no_context)"
    and none: "passport_findByOrganizationId db org = None" and ids: "psp_ids_fresh env db"
  shows "\<exists>p db'. passports_create env actor ctx db db = Inr (p, db')"
proof -
  let ?i = "uuid env (bs_ids db)"
  let ?p = "new_passport env actor ?i"
  have p: "ps_id ?p = ?i" "ps_organizationId ?p = org"
    by (simp_all add: new_passport_def org)
  let ?db1 = "db\<lparr>bs_ids := Suc (bs_ids db), pp_passports := pp_passports db @ [?p]\<rparr>"
  have fresh: "?i \<notin> ps_id ` set (pp_passports db)" "\<forall>x \<in> set (pp_passports db). ps_organizationId x \<noteq> org"
    using ids none by (auto simp: psp_ids_fresh_def passport_findByOrganizationId_def find_by_None)
  then have ins: "passport_insert ?p (db\<lparr>bs_ids := Suc (bs_ids db)\<rparr>) = Inr ?db1"
    by (auto simp: passport_insert_def insert_row_def p image_iff)
  let ?orgv = "[(''organizationId'', JStr org)]"
  let ?db2 = "write_event env (Some ctx) (event_by actor ''passport.created'' ''passport'' ?i ?orgv)
     (write_audit env (Some ctx) (audit_by actor (Some org) ''passport.created'' ''passport'' ?i ?orgv) ?db1)"
  have "bs_ids db \<le> bs_ids ?db2"
    by (simp add: write_audit_def write_event_def next_id_def)
  moreover have "passport_findById ?db2 ?i = Some ?p"
    using fresh(1) find_by_None [of ps_id ?i "pp_passports db"] by (auto simp: passport_findById_def p image_iff)
  moreover have "distinct (keyed_facts (pp_facts ?db2))"
    using ok by (simp add: passport_ok_def pending_def tables_ok_def)
  ultimately obtain out db' where "recomputeReadinessAndStatus env ?p (userId actor) org ctx ?db2 = Inr (out, db')"
    using recompute_succeeds [of ?db2 ?p env] ids p
    unfolding recomputeReadinessAndStatus_def psp_ids_fresh_def by fastforce
  then show ?thesis
    using ins none org auth
    by (cases out) (auto simp: passports_create_def ebind_eq_Inr next_id_def Let_def authorize_ok)
qed

lemma verify_succeeds:
  assumes found: "passport_findById db i = Some p" and ready: "ps_status p = Psp_READY"
    and auth: "allowed (can actor A_passport_verify \<lparr>rtype = R_passport, rid = None, ownerOrgId = Some (ps_organizationId p), privacyClass = None\<rparr> no_context)"
  shows "\<exists>q db'. verify env actor i reason ctx db db = Inr (q, db')"
proof -
  have "assertValidPassportTransition (passportStatus_name Psp_READY) ''VERIFIED'' = Inr ()"
    using passport_transition_ok [of Psp_READY Psp_VERIFIED] by simp
  then show ?thesis
    using found ready auth by (auto simp: verify_def ebind_eq_Inr Let_def authorize_ok passport_updateStatus_ok)
qed

end
