(* ===== verification/Passport_Guarantees.thy ===== *)
theory Passport_Guarantees
  imports Passport_Progress
begin

text \<open>
  What the passport service and its job promise over whole histories: the stored readiness never lags
  behind the facts, only a reviewer makes a passport verified, an aged one is never shown as ready, and
  an owner can always update the facts; and where the promises end.
\<close>

context request_history
begin

text \<open>The state a request read, and the one it commits on.\<close>

lemma read_kept:
  assumes "request_run step start overlap (db # hist)" and "snap \<in> set (db # hist)"
  shows "inv snap" "keeps snap db" "inv db"
  using history [OF assms(1)] assms(2) keeps_refl by auto

end

section \<open>The result of one request\<close>

lemma recompute_result:
  assumes "recompute_with env ctx user org source trigger now p versions db = Inr ((row, target), db')"
    and "distinct (map ps_id (pp_passports db))" and "passport_findById db (ps_id p) = Some p"
  shows "passport_findById db' (ps_id p) = Some (recomputed target user p)"
    "last (readiness_of db' (ps_id p)) = row" "rd_computedAt row = now" "pp_facts db' = pp_facts db"
    "target = targetStatusAfterRecompute (ps_status p) (facts_of db (ps_id p) \<noteq> []) (rd_blockers row \<noteq> [])"
proof -
  obtain result where e: "row = readiness_row (rd_id row) (ps_id p) result now user org source"
      "target = targetStatusAfterRecompute (ps_status p) (fact_listByPassport db (ps_id p) \<noteq> []) (isReadinessBlocked result)"
      "pp_passports db' = set_by ps_id (ps_id p) (recomputed target user) (pp_passports db)"
      "pp_readiness db' = pp_readiness db @ [row]" "pp_facts db' = pp_facts db"
    using recompute_effect [OF assms] by blast
  show "pp_facts db' = pp_facts db"
    by (rule e(5))
  have row: "rd_passportId row = ps_id p" "rd_computedAt row = now" "rd_blockers row = rr_blockers result"
    by (subst e(1), simp add: readiness_row_def)+
  show "rd_computedAt row = now"
    by (rule row(2))
  show "last (readiness_of db' (ps_id p)) = row"
    by (simp add: readiness_of_def e(4) row(1))
  show "passport_findById db' (ps_id p) = Some (recomputed target user p)"
    using assms(3) by (simp add: passport_findById_def e(3) find_by_set_by)
  show "target = targetStatusAfterRecompute (ps_status p) (facts_of db (ps_id p) \<noteq> []) (rd_blockers row \<noteq> [])"
    unfolding e(2) row(3) listByPassport_facts(2) isReadinessBlocked_def ..
qed

lemma upsert_result:
  assumes ok: "passport_ok db" and w: "upsertFact env actor i inp ctx snap db = Inr (out, db')"
  obtains p p' j where "passport_findById db i = Some p" "passport_findById db' i = Some p'" "ps_status p' = ur_status out"
    "ps_organizationId p' = ps_organizationId p" "last (readiness_of db' i) = ur_readiness out"
    "rd_computedAt (ur_readiness out) = clock env" "pp_facts db' = upsert_rows (input_fact env actor i inp j) (pp_facts db)"
    "ur_status out = targetStatusAfterRecompute (ps_status p) True (rd_blockers (ur_readiness out) \<noteq> [])"
proof -
  obtain p j db1 where e: "passport_findById db i = Some p"
      "pp_facts db1 = upsert_rows (input_fact env actor i inp j) (pp_facts db)" "pp_passports db1 = pp_passports db"
      "recomputeReadinessAndStatus env p (userId actor) (ps_organizationId p) ctx db1 = Inr ((ur_readiness out, ur_status out), db')"
    using upsertFact_effect [OF w] by blast
  have d: "distinct (map ps_id (pp_passports db1))" and pend: "pending db None"
    using ok by (auto simp: passport_ok_def pending_def tables_ok_def e(3))
  have p: "ps_id p = i"
    using found_passport [OF pend e(1)] by simp
  have "passport_findById db1 (ps_id p) = Some p"
    using e(1) p by (simp add: passport_findById_def e(3))
  note r = recompute_result [OF e(4) [unfolded recomputeReadinessAndStatus_def] d this, unfolded p]
  have "facts_of db1 i \<noteq> []"
    using upsert_present [of "input_fact env actor i inp j"] by (simp add: facts_of_def e(2) input_fact_def)
  then show thesis
    using that e(1,2) r by simp
qed

text \<open>The fact an update answers with is the one stored.\<close>

lemma fact_upsert_stored:
  assumes "fact_upsert new db = Inr (f, db')"
  shows "f \<in> set (pp_facts db')" "pf_passportId f = pf_passportId new" "pf_fieldKey f = pf_fieldKey new"
    "pf_value f = pf_value new" "pf_verification f = pf_verification new" "pf_evidenceId f = pf_evidenceId new"
  using assms find_SomeD
  by (fastforce simp: fact_upsert_def ebind_eq_Inr insert_row_def fact_replace_def fact_same_def
      split: option.splits if_splits)+

lemma upsert_answered:
  assumes ok: "passport_ok db" and w: "upsertFact env actor i inp ctx snap db = Inr (out, db')"
  shows "ur_fact out \<in> set (facts_of db' i)" "pf_fieldKey (ur_fact out) = uq_fieldKey inp"
    "pf_value (ur_fact out) = uq_normalizedValue inp"
    "pf_verification (ur_fact out) = (case uq_verification inp of None \<Rightarrow> Prov_SELF_REPORTED | Some v \<Rightarrow> v)"
    "pf_evidenceId (ur_fact out) = uq_evidenceId inp"
proof -
  let ?new = "input_fact env actor i inp (uuid env (bs_ids db))"
  obtain p au ev db1 where e: "passport_findById db i = Some p"
      "fact_upsert ?new (db\<lparr>bs_ids := Suc (bs_ids db)\<rparr>) = Inr (ur_fact out, db1)"
      "recomputeReadinessAndStatus env p (userId actor) (ps_organizationId p) ctx
         (write_event env (Some ctx) ev (write_audit env (Some ctx) au db1)) = Inr ((ur_readiness out, ur_status out), db')"
    using w by (auto simp: upsertFact_def ebind_eq_Inr next_id_def Let_def)
  let ?db2 = "write_event env (Some ctx) ev (write_audit env (Some ctx) au db1)"
  note up = fact_upsert_ok(1) [OF e(2)] and stored = fact_upsert_stored [OF e(2)]
  have same: "pp_passports db1 = pp_passports db" "pp_passports ?db2 = pp_passports db1" "pp_facts ?db2 = pp_facts db1"
    by (simp_all add: up)
  have pend: "pending db None" and d: "distinct (map ps_id (pp_passports ?db2))"
    using ok same(1) by (auto simp: passport_ok_def pending_def tables_ok_def)
  have "ps_id p = i"
    using found_passport [OF pend e(1)] by simp
  then have "passport_findById ?db2 (ps_id p) = Some p"
    using e(1) by (simp add: passport_findById_def same)
  from recompute_result(4) [OF e(3) [unfolded recomputeReadinessAndStatus_def] d this]
  have "pp_facts db' = pp_facts db1"
    by (simp add: same)
  with stored show "ur_fact out \<in> set (facts_of db' i)" "pf_fieldKey (ur_fact out) = uq_fieldKey inp"
    "pf_value (ur_fact out) = uq_normalizedValue inp"
    "pf_verification (ur_fact out) = (case uq_verification inp of None \<Rightarrow> Prov_SELF_REPORTED | Some v \<Rightarrow> v)"
    "pf_evidenceId (ur_fact out) = uq_evidenceId inp"
    by (simp_all add: facts_of_def input_fact_def split: option.split)
qed

text \<open>Everything but \<open>verify\<close> leaves the verified passports as they were or takes them down.\<close>

lemma recompute_verifies_none:
  assumes "recompute_with env ctx user org source trigger now p versions db = Inr (out, db')"
    and "distinct (map ps_id (pp_passports db))" and found: "passport_findById db (ps_id p) = Some p"
    and "p' \<in> set (pp_passports db')" "ps_status p' = Psp_VERIFIED"
  shows "\<exists>q \<in> set (pp_passports db). ps_id q = ps_id p' \<and> ps_status q = Psp_VERIFIED"
proof -
  obtain row target where out: "out = (row, target)"
    by (cases out)
  obtain hasFacts blocked where e: "target = targetStatusAfterRecompute (ps_status p) hasFacts blocked"
      "pp_passports db' = set_by ps_id (ps_id p) (recomputed target user) (pp_passports db)"
    using recompute_effect [OF assms(1) [unfolded out] assms(2,3)] by blast
  have p: "p \<in> set (pp_passports db)"
    using find_by_SomeD found by (fastforce simp: passport_findById_def)
  have "ps_status p = Psp_VERIFIED" if "target = Psp_VERIFIED"
    using that unfolding e(1) by (simp add: targetStatusAfterRecompute_def split: if_splits)
  then show ?thesis
    using set_by_row [OF assms(2) found [unfolded passport_findById_def] assms(4) [unfolded e(2)]] assms(5) p by auto
qed

lemma load_verifies_none:
  assumes ok: "passport_ok db" and w: "loadDetailWithStalenessCheck env actor p snap db = Inr (d, db')"
    and new: "p' \<in> set (pp_passports db')" "ps_status p' = Psp_VERIFIED"
  shows "p' \<in> set (pp_passports db)"
proof -
  have dist: "distinct (map ps_id (pp_passports db))"
    using ok by (simp add: passport_ok_def pending_def tables_ok_def)
  from load_effect [OF w] consider "pp_passports db' = pp_passports db"
    | fresh where "passport_findById db (ps_id p) = Some fresh"
        "pp_passports db' = set_by ps_id (ps_id p) (passport_set Psp_STALE None) (pp_passports db)"
    by blast
  then show ?thesis
  proof cases
    case (2 fresh)
    then show ?thesis
      using set_by_row [OF dist, of "ps_id p" fresh p' "passport_set Psp_STALE None"] new by (auto simp: passport_findById_def)
  qed (use new in simp)
qed

lemma only_verify_verifies:
  assumes ok: "passport_ok db" and step: "passport_step snap db db'"
    and new: "p' \<in> set (pp_passports db')" "ps_status p' = Psp_VERIFIED"
    and old: "\<forall>q \<in> set (pp_passports db). ps_id q = ps_id p' \<longrightarrow> ps_status q \<noteq> Psp_VERIFIED"
  shows "\<exists>env actor reason ctx q. verify env actor (ps_id p') reason ctx snap db = Inr (q, db')"
proof -
  have d: "distinct (map ps_id (pp_passports db))" and t: "tables_ok db" and pend: "pending db None"
    using ok by (auto simp: passport_ok_def pending_def tables_ok_def)
  have no: False if "p' \<in> set (pp_passports db)"
    using old new that by auto
  have none: False if "recompute_with env c user org source trigger now p versions db1 = Inr (out, db2)"
    "pp_passports db1 = pp_passports db" "passport_findById db (ps_id p) = Some p" "pp_passports db' = pp_passports db2"
    for env c user org source trigger now p versions db1 out db2
    using recompute_verifies_none [OF that(1), of p'] that d old new by (auto simp: passport_findById_def)
  show ?thesis
    using step
  proof cases
    case (create env actor ctx p)
    obtain org db1 out where e: "p = new_passport env actor (ps_id p)" "\<forall>x \<in> set (pp_passports db). ps_id x \<noteq> ps_id p \<and> ps_organizationId x \<noteq> org"
        "pp_passports db1 = pp_passports db @ [p]" "recomputeReadinessAndStatus env p (userId actor) org ctx db1 = Inr (out, db')"
      using create_passport_effect [OF create] by blast
    have "ps_status p = Psp_DRAFT"
      by (subst e(1)) (simp add: new_passport_def)
    moreover have "distinct (map ps_id (pp_passports db1))" "passport_findById db1 (ps_id p) = Some p"
      using d e(2) find_by_None [of ps_id "ps_id p" "pp_passports db"] by (auto simp: passport_findById_def e(3))
    ultimately show ?thesis
      using recompute_verifies_none [OF e(4) [unfolded recomputeReadinessAndStatus_def] _ _ new] old by (auto simp: e(3))
  next
    case (fact env actor i inp ctx out)
    then obtain p db1 where e: "passport_findById db i = Some p" "pp_passports db1 = pp_passports db"
        "recomputeReadinessAndStatus env p (userId actor) (ps_organizationId p) ctx db1 = Inr ((ur_readiness out, ur_status out), db')"
      using upsertFact_effect by blast
    have "passport_findById db (ps_id p) = Some p"
      using found_passport [OF pend e(1)] e(1) by simp
    from none [OF e(3) [unfolded recomputeReadinessAndStatus_def] e(2) this refl] show ?thesis ..
  next
    case (evidence parse env actor i req ctx e)
    then show ?thesis
      using no addEvidence_effect [OF evidence] new by simp
  next
    case (verify env actor i reason ctx p)
    then obtain fresh where e: "passport_findById db i = Some fresh"
        "pp_passports db' = set_by ps_id i (passport_set Psp_VERIFIED (Some (userId actor))) (pp_passports db)"
      using verify_effect by blast
    have "p' = passport_set Psp_VERIFIED (Some (userId actor)) fresh"
      using set_by_row [OF d e(1) [unfolded passport_findById_def] new(1) [unfolded e(2)]] no by blast
    then have "ps_id p' = i"
      using found_passport [OF pend e(1)] by simp
    then show ?thesis
      using verify by blast
  next
    case (read env actor i d')
    then obtain p where "loadDetailWithStalenessCheck env actor p snap db = Inr (d', db')"
      by (auto simp: passports_getById_def ebind_eq_Inr)
    from no [OF load_verifies_none [OF ok this new]] show ?thesis ..
  next
    case (read_org env actor i d')
    then obtain p where "loadDetailWithStalenessCheck env actor p snap db = Inr (d', db')"
      by (auto simp: passports_getByOrganizationId_def ebind_eq_Inr)
    from no [OF load_verifies_none [OF ok this new]] show ?thesis ..
  next
    case (job env h now i)
    then show ?thesis
    proof (cases rule: job_cases)
      case (reserved p out db1 r)
      then show ?thesis
        using tables_okD(7) [OF t idempotency_row] by blast
    next
      case (recomputes p out db1 keyId expires)
      then show ?thesis
        using none [OF recomputes(2) refl] found_passport [OF pend recomputes(1)] by (simp add: same_content_def)
    qed (use no new in \<open>simp_all add: same_content_def\<close>)
  qed
qed

text \<open>What a read shows: the passport it saw, or the one its own transaction found or wrote.\<close>

lemma load_shows:
  assumes w: "loadDetailWithStalenessCheck env actor p snap db = Inr (d, db')"
    and kept: "passport_findById db (ps_id p) \<noteq> None"
    and shown: "ps_status (pd_passport d) \<in> {Psp_READY, Psp_VERIFIED}"
    and latest: "ps_status p \<in> {Psp_READY, Psp_VERIFIED} \<Longrightarrow> readiness_findLatest snap (ps_id p) \<noteq> None"
      "readiness_findLatest snap (ps_id p) \<noteq> None \<Longrightarrow> readiness_findLatest db (ps_id p) \<noteq> None"
  shows "\<exists>r. pd_readiness d = Some r \<and> clock env - rd_computedAt r \<le> 90 * 86400000"
proof -
  obtain stale where stale: "readinessStale env (ps_status p) (readiness_findLatest snap (ps_id p)) = Inr stale"
    using w by (auto simp: loadDetailWithStalenessCheck_def Let_def ebind_eq_Inr)
  show ?thesis
  proof (cases stale)
    case False
    then show ?thesis
      using w stale shown latest(1)
      by (auto simp: loadDetailWithStalenessCheck_def Let_def ebind_eq_Inr readinessStale_ok)
  next
    case True
    obtain fresh where fresh: "passport_findById db (ps_id p) = Some fresh"
      using kept by blast
    have "readiness_findLatest db (ps_id p) \<noteq> None"
      using latest(2) stale True by (auto simp: readinessStale_ok)
    then show ?thesis
      using w stale True shown fresh
      by (auto simp: loadDetailWithStalenessCheck_def staleTx_def Let_def ebind_eq_Inr readinessStale_ok passport_updateStatus_ok
          split: if_splits)
  qed
qed

lemma verifier_roles:
  assumes "allowed (can actor A_passport_verify \<lparr>rtype = R_passport, rid = None, ownerOrgId = owner, privacyClass = None\<rparr> no_context)"
  shows "role actor \<in> {Some PLATFORM_OWNER, Some MARKETPLACE_OPERATOR, Some COMPLIANCE_REVIEWER}"
proof -
  obtain r where r: "role actor = Some r" "A_passport_verify \<in> set (allowedActions (AUTHORITY_MATRIX r))"
    using can_allow_cases [OF assms] by metis
  from r(2) have "r \<in> {PLATFORM_OWNER, MARKETPLACE_OPERATOR, COMPLIANCE_REVIEWER}"
    by (cases r) (simp_all add: grant_defs)
  then show ?thesis
    using r(1) by simp
qed

lemma latest_exists: "readiness_findLatest db i \<noteq> None \<longleftrightarrow> readiness_of db i \<noteq> []"
proof -
  have "sort_key (\<lambda>r. - rd_computedAt r) (readiness_of db i) = [] \<longleftrightarrow> readiness_of db i = []"
    by (metis length_0_conv length_sort)
  then show ?thesis
    by (cases "sort_key (\<lambda>r. - rd_computedAt r) (readiness_of db i)") (simp_all add: readiness_findLatest_def readiness_of_def)
qed

lemma passport_kept:
  assumes "passport_keeps snap db" and "p \<in> set (pp_passports snap)"
  shows "passport_findById db (ps_id p) \<noteq> None"
proof -
  obtain new where "grows passport_moves new (pp_passports snap) (pp_passports db)"
    using assms(1) by (auto simp: passport_keeps_def)
  then obtain q where "q \<in> set (pp_passports db)" "passport_moves p q"
    using grows_kept assms(2) by metis
  then show ?thesis
    by (auto simp: passport_findById_def find_by_None passport_moves_def)
qed

text \<open>A job whose key has been completed for the same payload returns the stored answer.\<close>

lemma job_replay:
  assumes "passport_findById db i = Some p" and "idempotency_find (pp_jobKeys db) job_scope (job_key db now p) = Some r"
    and "ik_response r = Some b" and "ik_requestHash r = job_hash h db now p"
  shows "recomputePassport env h now i db = Inr db"
  using assms by (simp add: recomputePassport_def withJobIdempotency_def job_key_def job_hash_def Let_def)

section \<open>Properties\<close>

text \<open>C21. The stored readiness never lags behind the facts: in every state the service and the job reach,
  under every interleaving of requests, reads and jobs, the newest readiness result of a passport holds
  the score, the blockers and the warnings the engine computes from the facts the passport has now (at
  the time of that result), and the status agrees with it: a draft exactly without facts, incomplete
  exactly when something blocks, and otherwise ready, verified or stale.\<close>

theorem readiness_never_lags:
  assumes "request_run passport_step passport_start True hist" and "db \<in> set hist" and "p \<in> set (pp_passports db)"
  shows "readiness_of db (ps_id p) \<noteq> [] \<and>
    (let r = last (readiness_of db (ps_id p)) in
     \<exists>shape. computeReadiness (buildSnapshots db (ps_id p)) (rd_computedAt r) (rd_inputVersions r) requiredFacts = Inr shape \<and>
       rd_score r = rr_score shape \<and> rd_blockers r = rr_blockers shape \<and> rd_warnings r = rr_warnings shape \<and>
       ps_status p \<in> (if facts_of db (ps_id p) = [] then {Psp_DRAFT}
         else if rd_blockers r \<noteq> [] then {Psp_INCOMPLETE} else {Psp_READY, Psp_VERIFIED, Psp_STALE}))"
proof -
  have "passport_ok db"
    using passports.run_inv assms(1,2) by blast
  then have "settled db p"
    using assms(3) by (simp add: passport_ok_def pending_def)
  then show ?thesis
    by (simp add: settled_def status_fits_def)
qed

text \<open>C22. A passport becomes verified only by the reviewer step: if a step of the service or the job, whatever
  it read earlier, leaves a passport verified that was not, then the step was \<open>verify\<close> for this passport by
  a platform owner, a marketplace operator or a compliance reviewer, the passport was ready, and nothing
  blocked it. No recompute restores the verification, not even of a stale passport.\<close>

theorem verified_only_by_reviewer:
  assumes run: "request_run passport_step passport_start True (db # hist)"
    and step: "passport_step snap db db'" "snap \<in> set (db # hist)"
    and new: "p' \<in> set (pp_passports db')" "ps_status p' = Psp_VERIFIED"
    and old: "passport_findById db (ps_id p') = Some p" "ps_status p \<noteq> Psp_VERIFIED"
  shows "(\<exists>env actor reason ctx q. verify env actor (ps_id p') reason ctx snap db = Inr (q, db') \<and>
      role actor \<in> {Some PLATFORM_OWNER, Some MARKETPLACE_OPERATOR, Some COMPLIANCE_REVIEWER}) \<and>
    ps_status p = Psp_READY \<and> rd_blockers (last (readiness_of db (ps_id p'))) = []"
proof -
  have ok: "passport_ok db"
    using passports.run_inv [OF run] by simp
  then have pend: "pending db None" and d: "distinct (map ps_id (pp_passports db))"
    by (auto simp: passport_ok_def pending_def tables_ok_def)
  note p = found_passport [OF pend old(1)]
  have "ps_status q \<noteq> Psp_VERIFIED" if "q \<in> set (pp_passports db)" "ps_id q = ps_id p'" for q
    using find_by_unique [OF d that(1)] old that(2) by (simp add: passport_findById_def)
  then obtain env actor reason ctx q where v: "verify env actor (ps_id p') reason ctx snap db = Inr (q, db')"
    using only_verify_verifies [OF ok step(1) new] by blast
  obtain owner where e: "ps_status p = Psp_READY"
      "allowed (can actor A_passport_verify \<lparr>rtype = R_passport, rid = None, ownerOrgId = Some owner, privacyClass = None\<rparr> no_context)"
    using verify_effect [OF v] old(1) by auto
  have "settled db p"
    using pendingD(2) [OF pend p(1)] by simp
  then have "rd_blockers (last (readiness_of db (ps_id p'))) = []"
    using e(1) p(2) by (auto simp: settled_def status_fits_def Let_def split: if_splits)
  moreover have "role actor \<in> {Some PLATFORM_OWNER, Some MARKETPLACE_OPERATOR, Some COMPLIANCE_REVIEWER}"
    using e(2) by (rule verifier_roles)
  ultimately show ?thesis
    using v e(1) by blast
qed

text \<open>C23. Opening a passport, by its id or by its organization, never shows an aged one as ready: whatever
  state the read began on and whatever was committed since, a detail that shows a passport as ready or
  verified carries a readiness result of at most ninety days. (The list of passports makes no such check:
  \<open>listed_as_stored\<close> below.)\<close>

theorem aged_never_shown_ready:
  assumes run: "request_run passport_step passport_start True (db # hist)" and snap: "snap \<in> set (db # hist)"
    and w: "passports_getById env actor i snap db = Inr (d, db') \<or> passports_getByOrganizationId env actor org snap db = Inr (d, db')"
    and shown: "ps_status (pd_passport d) \<in> {Psp_READY, Psp_VERIFIED}"
  shows "\<exists>r. pd_readiness d = Some r \<and> clock env - rd_computedAt r \<le> 90 * 86400000"
proof -
  note k = passports.read_kept [OF run snap]
  obtain p where p: "p \<in> set (pp_passports snap)" "loadDetailWithStalenessCheck env actor p snap db = Inr (d, db')"
    using w by (auto simp: passports_getById_def passports_getByOrganizationId_def passport_findById_def
        passport_findByOrganizationId_def ebind_eq_Inr dest: find_by_SomeD)
  have "settled snap p"
    using k(1) p(1) by (simp add: passport_ok_def pending_def)
  then have "readiness_of snap (ps_id p) \<noteq> []"
    by (simp add: settled_def)
  moreover have "readiness_of db (ps_id p) \<noteq> []" if "readiness_of snap (ps_id p) \<noteq> []"
    using k(2) that by (auto simp: passport_keeps_def readiness_of_def)
  ultimately show ?thesis
    using load_shows [OF p(2) passport_kept [OF k(2) p(1)] shown] unfolding latest_exists by blast
qed

text \<open>C24. The owner can always maintain the facts: in every reachable state a fact update by an actor who may
  update the passport, with a value that can be stored and without evidence or with evidence of this
  passport, succeeds; the fact it answers with is stored and has this key, value and evidence and this
  verification, self-reported by default, and the passport has the status and the readiness of the answer.\<close>

theorem fact_update_succeeds:
  assumes run: "request_run passport_step passport_start True (db # hist)" and found: "passport_findById db i = Some p"
    and auth: "allowed (can actor A_passport_update \<lparr>rtype = R_passport, rid = None, ownerOrgId = Some (ps_organizationId p), privacyClass = None\<rparr> no_context)"
    and evidence: "evidence_belongs db i (uq_evidenceId inp)"
    and json: "assertJsonSerializableValue (fst (uq_normalizedValue inp)) (snd (uq_normalizedValue inp)) [] = Inr ()"
    and ids: "psp_ids_fresh env db"
  shows "\<exists>out db' f p'. upsertFact env actor i inp ctx db db = Inr (out, db') \<and>
    f = ur_fact out \<and> f \<in> set (facts_of db' i) \<and> pf_fieldKey f = uq_fieldKey inp \<and> pf_value f = uq_normalizedValue inp \<and>
    pf_verification f = (case uq_verification inp of None \<Rightarrow> Prov_SELF_REPORTED | Some v \<Rightarrow> v) \<and>
    pf_evidenceId f = uq_evidenceId inp \<and>
    passport_findById db' i = Some p' \<and> ps_status p' = ur_status out \<and> last (readiness_of db' i) = ur_readiness out"
proof -
  have ok: "passport_ok db"
    using passports.run_inv [OF run] by simp
  obtain out db' where w: "upsertFact env actor i inp ctx db db = Inr (out, db')"
    using upsertFact_succeeds [OF ok found auth evidence json ids] by blast
  obtain p' where "passport_findById db' i = Some p'" "ps_status p' = ur_status out" "last (readiness_of db' i) = ur_readiness out"
    using upsert_result [OF ok w] by blast
  then show ?thesis
    using w upsert_answered [OF ok w] by (intro exI [of _ out] exI [of _ db'] exI [of _ "ur_fact out"] exI [of _ p']) simp
qed

text \<open>C25. A verification outlives what was verified: an update of a fact by the owner, whatever it writes,
  leaves a verified passport verified as long as the engine finds no blocker, and makes it incomplete
  otherwise. It never takes it back to ready for another review.\<close>

theorem verified_survives_replacement:
  assumes run: "request_run passport_step passport_start True (db # hist)"
    and found: "passport_findById db i = Some p" "ps_status p = Psp_VERIFIED"
    and w: "upsertFact env actor i inp ctx snap db = Inr (out, db')"
  shows "\<exists>p'. passport_findById db' i = Some p' \<and>
    ps_status p' = (if rd_blockers (last (readiness_of db' i)) = [] then Psp_VERIFIED else Psp_INCOMPLETE)"
proof -
  have ok: "passport_ok db"
    using passports.run_inv [OF run] by simp
  obtain q p' where e: "passport_findById db i = Some q" "passport_findById db' i = Some p'" "ps_status p' = ur_status out"
      "last (readiness_of db' i) = ur_readiness out"
      "ur_status out = targetStatusAfterRecompute (ps_status q) True (rd_blockers (ur_readiness out) \<noteq> [])"
    using upsert_result [OF ok w] by metis
  have "ps_status q = Psp_VERIFIED"
    using e(1) found by simp
  then show ?thesis
    using e(2-5) by (auto simp: targetStatusAfterRecompute_def)
qed

text \<open>C26. A recompute by the job happens once for a status and a set of fact versions, for ever: once the job
  has run for a passport, it changes nothing in any later state in which the passport has the same
  status and the facts the same versions and freshness. The key has a time to live, but no read of it
  looks at that; so of the recomputes that the sweep owes to an aging passport only the first happens.\<close>

theorem recompute_once_per_key:
  assumes run: "request_run passport_step passport_start True (db # hist)"
    and first: "passport_findById db i = Some p" "recomputePassport env h now i db = Inr db1"
    and later: "request_run passport_step passport_start True (db2 # hist2)" "db1 \<in> set (db2 # hist2)"
    and same: "passport_findById db2 i = Some q" "ps_status q = ps_status p" "job_versions db2 now2 i = job_versions db now i"
  shows "recomputePassport env2 h now2 i db2 = Inr db2"
proof -
  have ok: "passport_ok db" "passport_ok db2" and keeps: "passport_keeps db1 db2"
    using passports.run_inv [OF run] passports.read_kept [OF later] by simp_all
  have t: "tables_ok db" and pend: "pending db None" "pending db2 None"
    using ok by (simp_all add: passport_ok_def pending_def)
  have i: "ps_id p = i" "ps_id q = i"
    using found_passport [OF pend(1) first(1)] found_passport [OF pend(2) same(1)] by simp_all
  have key: "job_key db2 now2 q = job_key db now p" "job_hash h db2 now2 q = job_hash h db now p"
    by (simp_all add: job_key_def job_hash_def readiness_key_def i same(2,3))
  have "\<exists>r b. idempotency_find (pp_jobKeys db1) job_scope (job_key db now p) = Some r \<and> ik_response r = Some b \<and> ik_requestHash r = job_hash h db now p"
    using first(2)
  proof (cases rule: job_cases)
    case (reserved p' out db' r)
    then show ?thesis
      using tables_okD(7) [OF t idempotency_row] by blast
  next
    case (recomputes p' out db' keyId expires)
    then have "idempotency_find (pp_jobKeys db @ [job_row keyId (job_key db now p) (job_hash h db now p) expires]) job_scope (job_key db now p) =
        Some (job_row keyId (job_key db now p) (job_hash h db now p) expires)"
      using first(1) by (simp add: idempotency_find_def find_append_None job_row_def)
    then show ?thesis
      using first(1) recomputes(1) unfolding recomputes(5) idempotency_find_complete
      by (intro exI [of _ "job_row keyId (job_key db now p) (job_hash h db now p) expires\<lparr>ik_response := Some True\<rparr>"] exI [of _ True])
        (simp add: job_row_def)
  qed (use first(1) in auto)
  then obtain r b where "idempotency_find (pp_jobKeys db2) job_scope (job_key db2 now2 q) = Some r" "ik_response r = Some b"
      "ik_requestHash r = job_hash h db2 now2 q"
    using keeps key unfolding passport_keeps_def by metis
  then show ?thesis
    using job_replay [OF same(1)] by blast
qed

section \<open>A merchant's passport\<close>

text \<open>Every state has an environment with new identifiers.\<close>

definition fresh_env :: "int \<Rightarrow> PassportStore \<Rightarrow> Env" where
  "fresh_env t db = \<lparr>uuid = (\<lambda>n. concat (map ps_id (pp_passports db) @ map pf_id (pp_facts db) @ map pe_id (pp_evidence db) @
       map rd_id (pp_readiness db)) @ replicate (Suc n) (CHR ''x'')),
     clock = t, toISOString = (\<lambda>_. ''t'')\<rparr>"

lemma fresh_env_fresh: "psp_ids_fresh (fresh_env t db) db" and clock_fresh_env [simp]: "clock (fresh_env t db) = t"
proof -
  have "concat ids @ replicate (Suc n) c \<notin> set ids" for n and c :: char and ids
  proof
    assume "concat ids @ replicate (Suc n) c \<in> set ids"
    then have "length (concat ids @ replicate (Suc n) c) \<le> length (concat ids)"
      by (simp only: length_concat member_le_sum_list set_map image_eqI)
    then show False by simp
  qed
  from this [of "map ps_id (pp_passports db) @ map pf_id (pp_facts db) @ map pe_id (pp_evidence db) @ map rd_id (pp_readiness db)"]
  show "psp_ids_fresh (fresh_env t db) db"
    unfolding psp_ids_fresh_def fresh_env_def by (simp add: Un_assoc)
qed (simp add: fresh_env_def)

definition psp_ctx :: RequestContext where
  "psp_ctx = \<lparr>requestId = ''r'', correlationId = ''c'', ipClass = ''private'', userAgentClass = ''browser''\<rparr>"

definition no_passports :: PassportStore where
  "no_passports = \<lparr>bs_ids = 0, bs_audit = [], bs_timeline = [], pp_passports = [], pp_facts = [], pp_evidence = [],
     pp_readiness = [], pp_jobKeys = []\<rparr>"

abbreviation shop_user :: Actor where
  "shop_user \<equiv> example_actor MERCHANT_PSP_USER ''shop''"

abbreviation psp_reviewer :: Actor where
  "psp_reviewer \<equiv> example_actor COMPLIANCE_REVIEWER ''tol''"

definition shop_fact :: "string \<Rightarrow> UpsertFactRequest" where
  "shop_fact k = \<lparr>uq_sectionType = Sec_IDENTITY, uq_fieldKey = k, uq_normalizedValue = ([], VString ''yes''),
     uq_verification = None, uq_evidenceId = None\<rparr>"

lemma shop_auth:
  "allowed (can shop_user A_passport_create \<lparr>rtype = R_passport, rid = None, ownerOrgId = Some ''shop'', privacyClass = None\<rparr> no_context)"
  "allowed (can shop_user A_passport_update \<lparr>rtype = R_passport, rid = None, ownerOrgId = Some ''shop'', privacyClass = None\<rparr> no_context)"
  "allowed (can shop_user A_passport_read \<lparr>rtype = R_passport, rid = None, ownerOrgId = Some ''shop'', privacyClass = None\<rparr> no_context)"
  "allowed (can psp_reviewer A_passport_verify \<lparr>rtype = R_passport, rid = None, ownerOrgId = Some ''shop'', privacyClass = None\<rparr> no_context)"
  "organizationId shop_user = Some ''shop''"
  by (simp_all add: can_def example_actor_def grant_defs no_context_def)

lemma shop_fact_simps [simp]:
  "uq_evidenceId (shop_fact k) = None" "uq_fieldKey (shop_fact k) = k" "evidence_belongs db i None"
  "assertJsonSerializableValue (fst (uq_normalizedValue (shop_fact k))) (snd (uq_normalizedValue (shop_fact k))) [] = Inr ()"
  by (simp_all add: shop_fact_def evidence_belongs_def assertJsonSerializableValue_def assertJsonSerializable.simps)

lemma shop_created:
  "\<exists>db i p. request_run passport_step passport_start True [db, no_passports] \<and> passport_findById db i = Some p \<and>
     ps_organizationId p = ''shop'' \<and> ps_status p = Psp_DRAFT \<and> rd_computedAt (last (readiness_of db i)) = 1 \<and>
     pp_facts db = [] \<and> pp_jobKeys db = []"
proof -
  have start: "request_run passport_step passport_start True [no_passports]"
    by (rule request_run.initial) (simp add: passport_start_def no_passports_def)
  then have ok: "passport_ok no_passports"
    using passports.run_inv by fastforce
  have "passport_findByOrganizationId no_passports ''shop'' = None"
    by (simp add: passport_findByOrganizationId_def no_passports_def find_by_def)
  then obtain p db where w: "passports_create (fresh_env 1 no_passports) shop_user psp_ctx no_passports no_passports = Inr (p, db)"
    using create_passport_succeeds [OF ok shop_auth(5) _ shop_auth(1) _ fresh_env_fresh] by blast
  have run: "request_run passport_step passport_start True [db, no_passports]"
    using request_run.commit [OF start _ passport_step.create [OF w]] by simp
  obtain org db1 row target where e: "organizationId shop_user = Some org" "p = new_passport (fresh_env 1 no_passports) shop_user (ps_id p)"
      "pp_passports db1 = pp_passports no_passports @ [p]" "pp_facts db1 = pp_facts no_passports" "pp_jobKeys db1 = pp_jobKeys no_passports"
      "recomputeReadinessAndStatus (fresh_env 1 no_passports) p (userId shop_user) org psp_ctx db1 = Inr ((row, target), db)"
    using create_passport_effect [OF w] by (metis surj_pair)
  have rows: "pp_passports db1 = [p]" "pp_facts db1 = []" "pp_jobKeys db1 = []"
    using e(3-5) by (simp_all add: no_passports_def)
  have d: "distinct (map ps_id (pp_passports db1))" "passport_findById db1 (ps_id p) = Some p"
    by (simp_all add: rows passport_findById_def find_by_def)
  note r = recompute_result [OF e(6) [unfolded recomputeReadinessAndStatus_def] d]
  have keys: "pp_jobKeys db = []"
    using recompute_effect [OF e(6) [unfolded recomputeReadinessAndStatus_def] d] rows(3) by metis
  have p: "ps_organizationId p = ''shop''"
    by (subst e(2)) (simp add: new_passport_def example_actor_def)
  have "passport_ok db"
    using passports.run_inv [OF run] by simp
  then have pend: "pending db None"
    by (simp add: passport_ok_def)
  have "facts_of db (ps_id p) = []"
    using r(4) rows(2) by (simp add: facts_of_def)
  then have "ps_status (recomputed target (Some (userId shop_user)) p) = Psp_DRAFT"
    using pendingD(4) [OF pend found_passport(1) [OF pend r(1)]] found_passport(2) [OF pend r(1)] by simp
  then show ?thesis
    using run r rows(2) keys p by (intro exI [of _ db] exI [of _ "ps_id p"] exI [of _ "recomputed target (Some (userId shop_user)) p"]) simp
qed

text \<open>The facts are filled in one after the other.\<close>

definition filled :: "PassportStore list \<Rightarrow> string \<Rightarrow> string list \<Rightarrow> bool" where
  "filled hist i ks \<longleftrightarrow> request_run passport_step passport_start True hist \<and>
     (\<exists>p. passport_findById (hd hist) i = Some p \<and> ps_organizationId p = ''shop'' \<and> ps_status p \<in> {Psp_DRAFT, Psp_INCOMPLETE, Psp_READY}) \<and>
     rd_computedAt (last (readiness_of (hd hist) i)) = 1 \<and>
     (\<forall>f \<in> set (facts_of (hd hist) i). pf_evidenceId f = None) \<and> (\<forall>k \<in> set ks. \<exists>f \<in> set (facts_of (hd hist) i). pf_fieldKey f = k)"

lemma upsert_covers:
  "(\<exists>f \<in> set (upsert_rows new rows). pf_passportId f = i \<and> pf_fieldKey f = k) \<longleftrightarrow>
   pf_passportId new = i \<and> pf_fieldKey new = k \<or> (\<exists>f \<in> set rows. pf_passportId f = i \<and> pf_fieldKey f = k)"
proof -
  have "(\<exists>f \<in> set fs. pf_passportId f = i \<and> pf_fieldKey f = k) \<longleftrightarrow> (i, k) \<in> set (keyed_facts fs)" for fs
    by (auto simp: keyed_facts_def image_iff)
  then show ?thesis
    by (auto simp: upsert_keys)
qed

lemma upserted:
  assumes ok: "passport_ok db" and found: "passport_findById db i = Some p" "ps_organizationId p = ''shop''"
    and old: "\<forall>f \<in> set (facts_of db i). pf_evidenceId f = None"
  shows "\<exists>out db' p'. upsertFact (fresh_env 1 db) shop_user i (shop_fact k) psp_ctx db db = Inr (out, db') \<and>
    passport_findById db' i = Some p' \<and> ps_organizationId p' = ''shop'' \<and>
    (ps_status p \<in> {Psp_DRAFT, Psp_INCOMPLETE, Psp_READY} \<longrightarrow> ps_status p' \<in> {Psp_DRAFT, Psp_INCOMPLETE, Psp_READY}) \<and>
    rd_computedAt (last (readiness_of db' i)) = 1 \<and> (\<forall>f \<in> set (facts_of db' i). pf_evidenceId f = None) \<and>
    (\<forall>k'. (\<exists>f \<in> set (facts_of db' i). pf_fieldKey f = k') \<longleftrightarrow> k' = k \<or> (\<exists>f \<in> set (facts_of db i). pf_fieldKey f = k'))"
proof -
  have auth: "allowed (can shop_user A_passport_update \<lparr>rtype = R_passport, rid = None, ownerOrgId = Some (ps_organizationId p), privacyClass = None\<rparr> no_context)"
    unfolding found(2) by (rule shop_auth(2))
  obtain out db' where w: "upsertFact (fresh_env 1 db) shop_user i (shop_fact k) psp_ctx db db = Inr (out, db')"
    using upsertFact_succeeds [OF ok found(1) auth _ shop_fact_simps(4) fresh_env_fresh] by (metis shop_fact_simps(1,3))
  obtain q p' j where e: "passport_findById db i = Some q" "passport_findById db' i = Some p'" "ps_status p' = ur_status out"
      "ps_organizationId p' = ps_organizationId q" "last (readiness_of db' i) = ur_readiness out"
      "rd_computedAt (ur_readiness out) = clock (fresh_env 1 db)" "pp_facts db' = upsert_rows (input_fact (fresh_env 1 db) shop_user i (shop_fact k) j) (pp_facts db)"
      "ur_status out = targetStatusAfterRecompute (ps_status q) True (rd_blockers (ur_readiness out) \<noteq> [])"
    using upsert_result [OF ok w] by metis
  let ?new = "input_fact (fresh_env 1 db) shop_user i (shop_fact k) j"
  have new: "pf_passportId ?new = i" "pf_fieldKey ?new = k" "pf_evidenceId ?new = None"
    by (simp_all add: input_fact_def)
  have "pf_evidenceId f = None" if "f \<in> set (facts_of db' i)" for f
    using that upsert_mem [of f ?new "pp_facts db"] old new by (auto simp: facts_of_def e(7))
  moreover have "(\<exists>f \<in> set (facts_of db' i). pf_fieldKey f = k') \<longleftrightarrow> k' = k \<or> (\<exists>f \<in> set (facts_of db i). pf_fieldKey f = k')" for k'
    using upsert_covers [of ?new "pp_facts db" i k'] new by (auto simp: facts_of_def e(7))
  moreover have "ps_status p' \<in> {Psp_DRAFT, Psp_INCOMPLETE, Psp_READY}" if "ps_status p \<in> {Psp_DRAFT, Psp_INCOMPLETE, Psp_READY}"
    using e(1,3,8) found(1) that by (auto simp: targetStatusAfterRecompute_def)
  ultimately show ?thesis
    using w e(1,2,4-6) found by simp
qed

lemma shop_filled: "\<exists>hist i. filled hist i ks"
proof (induction ks)
  case Nil
  obtain db i p where d: "request_run passport_step passport_start True [db, no_passports]" "passport_findById db i = Some p"
      "ps_organizationId p = ''shop''" "ps_status p = Psp_DRAFT" "rd_computedAt (last (readiness_of db i)) = 1" "pp_facts db = []"
    using shop_created by blast
  then have "filled [db, no_passports] i []"
    by (simp add: filled_def facts_of_def)
  then show ?case by blast
next
  case (Cons k ks)
  then obtain hist i where h: "filled hist i ks"
    by blast
  obtain db rest where hist: "hist = db # rest"
    using h by (cases hist) (auto simp: filled_def)
  obtain p where p: "passport_findById db i = Some p" "ps_organizationId p = ''shop''" "ps_status p \<in> {Psp_DRAFT, Psp_INCOMPLETE, Psp_READY}"
    using h by (auto simp: filled_def hist)
  have run: "request_run passport_step passport_start True (db # rest)"
    using h by (simp add: filled_def hist)
  then have ok: "passport_ok db"
    using passports.run_inv by fastforce
  have old: "\<forall>f \<in> set (facts_of db i). pf_evidenceId f = None"
    using h by (simp add: filled_def hist)
  obtain out db' p' where w: "upsertFact (fresh_env 1 db) shop_user i (shop_fact k) psp_ctx db db = Inr (out, db')"
    and e: "passport_findById db' i = Some p'" "ps_organizationId p' = ''shop''"
      "ps_status p \<in> {Psp_DRAFT, Psp_INCOMPLETE, Psp_READY} \<longrightarrow> ps_status p' \<in> {Psp_DRAFT, Psp_INCOMPLETE, Psp_READY}"
      "rd_computedAt (last (readiness_of db' i)) = 1" "\<forall>f \<in> set (facts_of db' i). pf_evidenceId f = None"
      "\<forall>k'. (\<exists>f \<in> set (facts_of db' i). pf_fieldKey f = k') \<longleftrightarrow> k' = k \<or> (\<exists>f \<in> set (facts_of db i). pf_fieldKey f = k')"
    using upserted [OF ok p(1,2) old, of k] by (elim exE conjE)
  have "request_run passport_step passport_start True (db' # db # rest)"
    using request_run.commit [OF run _ passport_step.fact [OF w]] by simp
  moreover have "ps_status p' \<in> {Psp_DRAFT, Psp_INCOMPLETE, Psp_READY}"
    using e(3) p(3) by (rule mp)
  ultimately have "filled (db' # hist) i (k # ks)"
    using h e(1,2,4-6) unfolding filled_def hist by simp
  then show ?case by blast
qed

text \<open>With every blocking fact there and nothing that expires, nothing blocks.\<close>

lemma covered_unblocked:
  assumes ok: "passport_ok db" and p: "p \<in> set (pp_passports db)" and time: "rd_computedAt (last (readiness_of db (ps_id p))) = 1"
    and facts: "\<forall>f \<in> set (facts_of db (ps_id p)). pf_evidenceId f = None"
      "\<forall>k \<in> set (map rf_fieldKey requiredFacts). \<exists>f \<in> set (facts_of db (ps_id p)). pf_fieldKey f = k"
  shows "rd_blockers (last (readiness_of db (ps_id p))) = []" "ps_status p \<in> {Psp_READY, Psp_VERIFIED, Psp_STALE}"
proof -
  let ?snaps = "buildSnapshots db (ps_id p)" and ?r = "last (readiness_of db (ps_id p))"
  have t: "tables_ok db" and "settled db p"
    using ok p by (simp_all add: passport_ok_def pending_def)
  then obtain shape where shape: "computeReadiness ?snaps 1 (rd_inputVersions ?r) requiredFacts = Inr shape" "rd_blockers ?r = rr_blockers shape"
      "status_fits (ps_status p) (facts_of db (ps_id p) \<noteq> []) (rd_blockers ?r \<noteq> [])"
    using time by (auto simp: settled_def Let_def)
  have snap: "fact_snapshot db f \<in> set ?snaps" "fs_expiresAt (fact_snapshot db f) = None" "fs_fieldKey (fact_snapshot db f) = pf_fieldKey f"
      "fs_hasValue (fact_snapshot db f)" if "f \<in> set (facts_of db (ps_id p))" for f
    using that facts(1) tables_okD(6) [OF t, of f]
    by (auto simp: buildSnapshots_def listByPassport_facts fact_snapshot_def fact_expiry_def fact_evidence_def) (simp add: facts_of_def)
  have "fs_expiresAt s = None" if "s \<in> set ?snaps" for s
    using that snap(2) by (auto simp: buildSnapshots_def listByPassport_facts)
  then have inst: "instants_ok ?snaps 1"
    by (simp add: instants_ok_def)
  have "fact_met ?snaps 1 req" if req: "req \<in> set requiredFacts" for req
  proof -
    obtain f where f: "f \<in> set (facts_of db (ps_id p))" "pf_fieldKey f = rf_fieldKey req"
      using facts(2) req by auto
    then show ?thesis
      using snap [OF f(1)] unfolding fact_met_def by (intro bexI [of _ "fact_snapshot db f"]) simp_all
  qed
  then have "filter (\<lambda>req. rf_blocking req \<and> \<not> fact_met ?snaps 1 req) requiredFacts = []"
    by (simp add: filter_empty_conv)
  then have "rr_blockers shape = []"
    using shape(1) readiness_loop(1) [OF distinct_field_keys [OF tables_okD(3) [OF t]] inst, of requiredFacts]
    by (auto simp: computeReadiness_def ebind_eq_Inr Let_def)
  then show "rd_blockers ?r = []"
    using shape(2) by simp
  moreover have "facts_of db (ps_id p) \<noteq> []"
    using facts(2) by (auto simp: requiredFacts_def)
  ultimately show "ps_status p \<in> {Psp_READY, Psp_VERIFIED, Psp_STALE}"
    using shape(3) by (simp add: status_fits_def)
qed

lemma shop_ready:
  "\<exists>db rest i p. request_run passport_step passport_start True (db # rest) \<and> passport_findById db i = Some p \<and>
     p \<in> set (pp_passports db) \<and> ps_id p = i \<and> ps_organizationId p = ''shop'' \<and> ps_status p = Psp_READY \<and>
     (\<forall>f \<in> set (facts_of db i). pf_evidenceId f = None) \<and>
     (\<forall>k \<in> set (map rf_fieldKey requiredFacts). \<exists>f \<in> set (facts_of db i). pf_fieldKey f = k)"
proof -
  obtain hist i where h: "filled hist i (map rf_fieldKey requiredFacts)"
    using shop_filled by blast
  obtain db rest where hist: "hist = db # rest"
    using h by (cases hist) (auto simp: filled_def)
  obtain p where p: "passport_findById db i = Some p" "ps_organizationId p = ''shop''" "ps_status p \<in> {Psp_DRAFT, Psp_INCOMPLETE, Psp_READY}"
    using h by (auto simp: filled_def hist)
  have run: "request_run passport_step passport_start True (db # rest)"
    using h by (simp add: filled_def hist)
  then have ok: "passport_ok db"
    using passports.run_inv by fastforce
  then have pend: "pending db None"
    by (simp add: passport_ok_def)
  note f = found_passport [OF pend p(1)]
  have rest: "rd_computedAt (last (readiness_of db i)) = 1" "\<forall>f \<in> set (facts_of db i). pf_evidenceId f = None"
      "\<forall>k \<in> set (map rf_fieldKey requiredFacts). \<exists>f \<in> set (facts_of db i). pf_fieldKey f = k"
    using h by (simp_all add: filled_def hist)
  have "ps_status p = Psp_READY"
    using covered_unblocked(2) [OF ok f(1)] rest p(3) f(2) by auto
  then show ?thesis
    using run p f rest by blast
qed

lemma shop_verified:
  "\<exists>db db' rest i p p' q. request_run passport_step passport_start True (db' # db # rest) \<and>
     verify (fresh_env 2 db) psp_reviewer i ''checked'' psp_ctx db db = Inr (q, db') \<and> passport_findById db i = Some p \<and> ps_status p = Psp_READY \<and>
     passport_findById db' i = Some p' \<and> p' \<in> set (pp_passports db') \<and> ps_id p' = i \<and> ps_organizationId p' = ''shop'' \<and> ps_status p' = Psp_VERIFIED \<and>
     (\<forall>f \<in> set (facts_of db' i). pf_evidenceId f = None) \<and>
     (\<forall>k \<in> set (map rf_fieldKey requiredFacts). \<exists>f \<in> set (facts_of db' i). pf_fieldKey f = k)"
proof -
  obtain db rest i p where d: "request_run passport_step passport_start True (db # rest)" "passport_findById db i = Some p"
      "p \<in> set (pp_passports db)" "ps_id p = i" "ps_organizationId p = ''shop''" "ps_status p = Psp_READY"
      "\<forall>f \<in> set (facts_of db i). pf_evidenceId f = None"
      "\<forall>k \<in> set (map rf_fieldKey requiredFacts). \<exists>f \<in> set (facts_of db i). pf_fieldKey f = k"
    using shop_ready by (elim exE conjE)
  obtain q db' where w: "verify (fresh_env 2 db) psp_reviewer i ''checked'' psp_ctx db db = Inr (q, db')"
    using verify_succeeds [OF d(2,6)] shop_auth(4) unfolding d(5) by metis
  have run: "request_run passport_step passport_start True (db' # db # rest)"
    using request_run.commit [OF d(1) _ passport_step.verify [OF w]] by simp
  have e: "pp_passports db' = set_by ps_id i (passport_set Psp_VERIFIED (Some (userId psp_reviewer))) (pp_passports db)" "pp_facts db' = pp_facts db"
    using verify_effect [OF w] by metis+
  have "passport_findById db' i = Some (passport_set Psp_VERIFIED (Some (userId psp_reviewer)) p)"
    using d(2) by (simp add: passport_findById_def e(1) find_by_set_by)
  moreover from this have "passport_set Psp_VERIFIED (Some (userId psp_reviewer)) p \<in> set (pp_passports db')"
    using find_by_SomeD by (fastforce simp: passport_findById_def)
  moreover have "facts_of db' i = facts_of db i"
    by (simp add: facts_of_def e(2))
  ultimately show ?thesis
    using w run d
    by (intro exI [of _ db] exI [of _ db'] exI [of _ rest] exI [of _ i] exI [of _ p]
        exI [of _ "passport_set Psp_VERIFIED (Some (userId psp_reviewer)) p"] exI [of _ q]) simp
qed

text \<open>A request of the owner on the verified passport.\<close>

lemma shop_replaced:
  "\<exists>db rest i p out db'. request_run passport_step passport_start True (db # rest) \<and> passport_findById db i = Some p \<and>
     ps_status p = Psp_VERIFIED \<and> upsertFact (fresh_env 1 db) shop_user i (shop_fact k) psp_ctx db db = Inr (out, db') \<and>
     rd_blockers (last (readiness_of db' i)) = []"
proof -
  obtain db rest i p where d: "request_run passport_step passport_start True (db # rest)" "passport_findById db i = Some p"
      "ps_organizationId p = ''shop''" "ps_status p = Psp_VERIFIED" "\<forall>f \<in> set (facts_of db i). pf_evidenceId f = None"
      "\<forall>k \<in> set (map rf_fieldKey requiredFacts). \<exists>f \<in> set (facts_of db i). pf_fieldKey f = k"
    using shop_verified by (elim exE conjE)
  have ok: "passport_ok db"
    using passports.run_inv [OF d(1)] by simp
  obtain out db' p' where w: "upsertFact (fresh_env 1 db) shop_user i (shop_fact k) psp_ctx db db = Inr (out, db')"
    and e: "passport_findById db' i = Some p'" "rd_computedAt (last (readiness_of db' i)) = 1" "\<forall>f \<in> set (facts_of db' i). pf_evidenceId f = None"
      "\<forall>k'. (\<exists>f \<in> set (facts_of db' i). pf_fieldKey f = k') \<longleftrightarrow> k' = k \<or> (\<exists>f \<in> set (facts_of db i). pf_fieldKey f = k')"
    using upserted [OF ok d(2,3,5), of k] by (elim exE conjE)
  have "passport_ok db'"
    using passports.run_inv [OF request_run.commit [OF d(1) _ passport_step.fact [OF w]], of db'] by simp
  moreover from this have "pending db' None"
    by (simp add: passport_ok_def)
  note f = found_passport [OF this e(1)]
  ultimately have "rd_blockers (last (readiness_of db' i)) = []"
    using covered_unblocked(1) [OF _ f(1)] f(2) e(2-4) d(6) by simp
  then show ?thesis
    using w d(1,2,4) by blast
qed

section \<open>The promises at work\<close>

theorem readiness_never_lags_witness:
  "\<exists>db p. p \<in> set (pp_passports db) \<and> ps_status p = Psp_READY \<and> rd_blockers (last (readiness_of db (ps_id p))) = []"
proof -
  obtain db rest i p where d: "request_run passport_step passport_start True (db # rest)" "p \<in> set (pp_passports db)" "ps_status p = Psp_READY"
    using shop_ready by (elim exE conjE)
  then show ?thesis
    using readiness_never_lags [OF d(1) _ d(2)] by (intro exI [of _ db] exI [of _ p]) (auto simp: Let_def split: if_splits)
qed

theorem verified_only_by_reviewer_witness:
  "\<exists>db db' i env actor reason ctx q. verify env actor i reason ctx db db = Inr (q, db') \<and> rd_blockers (last (readiness_of db i)) = [] \<and>
     role actor \<in> {Some PLATFORM_OWNER, Some MARKETPLACE_OPERATOR, Some COMPLIANCE_REVIEWER}"
proof -
  obtain db db' rest i p p' q where d: "request_run passport_step passport_start True (db' # db # rest)"
      "verify (fresh_env 2 db) psp_reviewer i ''checked'' psp_ctx db db = Inr (q, db')" "passport_findById db i = Some p" "ps_status p = Psp_READY"
      "p' \<in> set (pp_passports db')" "ps_id p' = i" "ps_status p' = Psp_VERIFIED"
    using shop_verified by (elim exE conjE)
  have "request_run passport_step passport_start True (db # rest)"
    using d(1) by (cases rule: request_run.cases) auto
  from verified_only_by_reviewer [OF this passport_step.verify [OF d(2)] _ d(5,7)] d(3,4,6) show ?thesis
    by fastforce
qed

theorem aged_never_shown_ready_witness:
  "\<exists>env i d db db' r. passports_getById env shop_user i db db = Inr (d, db') \<and> ps_status (pd_passport d) = Psp_READY \<and>
     pd_readiness d = Some r \<and> clock env - rd_computedAt r \<le> 90 * 86400000"
proof -
  obtain db rest i p where d: "request_run passport_step passport_start True (db # rest)" "passport_findById db i = Some p"
      "p \<in> set (pp_passports db)" "ps_id p = i" "ps_organizationId p = ''shop''" "ps_status p = Psp_READY"
    using shop_ready by (elim exE conjE)
  have "passport_ok db"
    using passports.run_inv [OF d(1)] by simp
  then have "settled db p"
    using d(3) by (simp add: passport_ok_def pending_def)
  then obtain r where r: "readiness_findLatest db i = Some r"
    using latest_exists [of db i] d(4) by (auto simp: settled_def)
  let ?env = "fresh_env (rd_computedAt r) db"
  have "readinessStale ?env Psp_READY (Some r) = Inr False"
    by (simp add: readinessStale_ok)
  then obtain det where det: "passports_getById ?env shop_user i db db = Inr (det, db)" "ps_status (pd_passport det) = Psp_READY"
    using d shop_auth(3) r
    by (auto simp: passports_getById_def loadDetailWithStalenessCheck_def authorize_ok Let_def ebind_eq_Inr)
  then show ?thesis
    using aged_never_shown_ready [OF d(1) _ disjI1 [OF det(1)]] by fastforce
qed

text \<open>The list shows a reviewer every passport with its stored status, however old the readiness behind it:
  neither the readiness table nor the clock enters.\<close>

lemma listed_as_stored:
  assumes "p \<in> set (pp_passports db)" and "length (pp_passports db) \<le> 100"
  shows "\<exists>ps. passports_list psp_reviewer db = Inr ps \<and> p \<in> set ps"
proof -
  have "allowed (can psp_reviewer A_passport_list \<lparr>rtype = R_passport, rid = None, ownerOrgId = organizationId psp_reviewer,
      privacyClass = None\<rparr> no_context)"
    by (simp add: can_def example_actor_def grant_defs no_context_def)
  then have "passports_list psp_reviewer db = Inr (passport_list db 100)"
    by (simp add: passports_list_def authorize_ok ebind_eq_Inr)
      (simp add: example_actor_def CROSS_ORG_PASSPORT_READ_ROLES_def)
  then show ?thesis
    using assms by (simp add: passport_list_def)
qed

theorem fact_update_succeeds_witness:
  "\<exists>out db i f db'. upsertFact (fresh_env 1 db) shop_user i (shop_fact ''settlementCapability'') psp_ctx db db = Inr (out, db') \<and>
     f \<in> set (facts_of db' i) \<and> pf_verification f = Prov_SELF_REPORTED"
proof -
  obtain db i p where d: "request_run passport_step passport_start True [db, no_passports]" "passport_findById db i = Some p" "ps_organizationId p = ''shop''"
    using shop_created by (elim exE conjE)
  have auth: "allowed (can shop_user A_passport_update \<lparr>rtype = R_passport, rid = None, ownerOrgId = Some (ps_organizationId p), privacyClass = None\<rparr> no_context)"
    unfolding d(3) by (rule shop_auth(2))
  have "evidence_belongs db i (uq_evidenceId (shop_fact ''settlementCapability''))" "uq_verification (shop_fact ''settlementCapability'') = None"
    by (simp, simp add: shop_fact_def)
  then obtain out db' f where "upsertFact (fresh_env 1 db) shop_user i (shop_fact ''settlementCapability'') psp_ctx db db = Inr (out, db')"
      "f \<in> set (facts_of db' i)" "pf_verification f = Prov_SELF_REPORTED"
    using fact_update_succeeds [OF d(1,2) auth _ shop_fact_simps(4) fresh_env_fresh [of 1], of "''settlementCapability''" psp_ctx] by auto
  then show ?thesis
    by (intro exI [of _ out] exI [of _ db] exI [of _ i] exI [of _ f] exI [of _ db']) simp
qed

theorem verified_survives_replacement_witness:
  "\<exists>db i out db' p'. upsertFact (fresh_env 1 db) shop_user i (shop_fact ''riskProfileSummary'') psp_ctx db db = Inr (out, db') \<and>
     passport_findById db' i = Some p' \<and> ps_status p' = Psp_VERIFIED"
proof -
  obtain db rest i p out db' where d: "request_run passport_step passport_start True (db # rest)" "passport_findById db i = Some p"
      "ps_status p = Psp_VERIFIED" "upsertFact (fresh_env 1 db) shop_user i (shop_fact ''riskProfileSummary'') psp_ctx db db = Inr (out, db')"
      "rd_blockers (last (readiness_of db' i)) = []"
    using shop_replaced [of "''riskProfileSummary''"] by (elim exE conjE)
  then obtain p' where "passport_findById db' i = Some p'" "ps_status p' = Psp_VERIFIED"
    using verified_survives_replacement [OF d(1-4)] by auto
  then show ?thesis
    using d(4) by (intro exI [of _ db] exI [of _ i] exI [of _ out] exI [of _ db'] exI [of _ p']) simp
qed

theorem recompute_once_per_key_witness:
  "\<exists>db i db1. recomputePassport (fresh_env 5 db) concat 5 i db = Inr db1 \<and> pp_readiness db1 \<noteq> pp_readiness db \<and>
     recomputePassport (fresh_env 9 db1) concat 9 i db1 = Inr db1"
proof -
  obtain db i p where d: "request_run passport_step passport_start True [db, no_passports]" "passport_findById db i = Some p"
      "ps_status p = Psp_DRAFT" "pp_facts db = []" "pp_jobKeys db = []"
    using shop_created by (elim exE conjE)
  have ok: "passport_ok db"
    using passports.run_inv [OF d(1)] by simp
  then have pend: "pending db None" and dist: "distinct (map ps_id (pp_passports db))"
    by (auto simp: passport_ok_def pending_def tables_ok_def)
  have found: "passport_findById db (ps_id p) = Some p"
    using found_passport [OF pend d(2)] d(2) by simp
  have keyless: "idempotency_find (pp_jobKeys db) sc k = None" for sc k
    by (simp add: d(5) idempotency_find_def)
  have "uuid (fresh_env 5 db) (bs_ids db) \<notin> rd_id ` set (pp_readiness db)"
    using fresh_env_fresh [of 5 db] by (auto simp: psp_ids_fresh_def)
  then obtain out db0 where r: "recompute_with (fresh_env 5 db) None None None ''SYSTEM'' [(''trigger'', JStr ''worker'')] 5 p (job_versions db 5 (ps_id p)) db = Inr (out, db0)"
    using recompute_succeeds [OF _ found, of "fresh_env 5 db"] d(4) by (fastforce simp: keyed_facts_def)
  obtain row target where out: "out = (row, target)"
    by (cases out)
  have rows: "pp_readiness db0 = pp_readiness db @ [row]"
    using recompute_effect [OF r [unfolded out] dist found] by metis
  obtain db1 where w: "recomputePassport (fresh_env 5 db) concat 5 i db = Inr db1" "pp_readiness db1 = pp_readiness db0"
    using d(2) r keyless
    by (auto simp: recomputePassport_def withJobIdempotency_def idempotency_reserve_def map_err_def Let_def)
  have run: "request_run passport_step passport_start True [db1, db, no_passports]"
    using request_run.commit [OF d(1) _ passport_step.job [OF w(1), where snap = db]] by simp
  have ok1: "passport_ok db1" and keeps: "passport_keeps db db1"
    using passports.run_inv [OF run] job_keeps [OF ok w(1)] by simp_all
  then have pend1: "pending db1 None"
    by (simp add: passport_ok_def)
  obtain q where q: "passport_findById db1 i = Some q"
    using passport_kept [OF keeps found_passport(1) [OF pend d(2)]] found_passport(2) [OF pend d(2)] by auto
  have "pp_facts db1 = []"
    using w(1)
  proof (cases rule: job_cases)
    case (recomputes p' out' db' keyId expires)
    then have "p' = p"
      using d(2) by simp
    with recomputes(2) have "pp_facts db' = pp_facts db"
      using recompute_effect [OF _ dist found] by (metis surj_pair)
    then show ?thesis
      using recomputes(3) d(4) by (simp add: same_content_def)
  qed (use d keyless in \<open>simp_all add: same_content_def\<close>)
  then have none: "facts_of db1 i = []" "job_versions db1 9 i = job_versions db 5 i"
    by (simp_all add: facts_of_def job_versions_def fact_listByPassport_def d(4))
  have "ps_status q = ps_status p"
    using pendingD(4) [OF pend1 found_passport(1) [OF pend1 q]] found_passport(2) [OF pend1 q] none(1) d(3) by simp
  then have "recomputePassport (fresh_env 9 db1) concat 9 i db1 = Inr db1"
    using recompute_once_per_key [OF d(1,2) w(1) run _ q _ none(2)] by simp
  then show ?thesis
    using w rows by (intro exI [of _ db] exI [of _ i] exI [of _ db1]) simp
qed

end
