(* ===== verification/Matching_Service.thy ===== *)
theory Matching_Service
  imports Passport_Service Market_Store Matching_Ranking
begin

text \<open>
  \<open>apps/api/src/modules/matching/service.ts\<close>, \<open>modules/capacity/service.ts\<close> and the worker job
  \<open>capacity-freshness.job.ts\<close> over the tables they read and write. The engines are those of
  \<open>Matching_Eligibility\<close>, \<open>Matching_Ranking\<close> and \<open>Evidence\<close>; the opportunities and passports they
  read belong to other services. Integer columns have 32 bits.
\<close>

section \<open>Tables\<close>

record CommercialTerms =
  tm_mdrBps :: int
  tm_fixedFeeMinor :: int
  tm_model :: string

record CapacityProfile =
  cp_id :: string
  cp_providerOrgId :: string
  cp_asOf :: int
  cp_freshnessClass :: FreshnessClass
  cp_acceptingNewVolume :: bool
  cp_jurisdictions :: "string list"
  cp_mccsAccepted :: "string list"
  cp_mccsExcluded :: "string list"
  cp_currency :: string
  cp_monthlyCapacityMinor :: int
  cp_minTicketMinor :: int
  cp_maxTicketMinor :: int
  cp_maxChargebackBps :: int
  cp_maxFraudBps :: int
  cp_maxRefundBps :: int
  cp_settlementRail :: string
  cp_settlementCadenceDays :: int
  cp_commercialTerms :: "CommercialTerms option"
  cp_active :: bool
  cp_sourceType :: string
  cp_createdByUserId :: "string option"
  cp_createdByOrgId :: "string option"
  cp_updatedByUserId :: "string option"
  cp_version :: int
  cp_createdAt :: int

record MatchResult =
  mr_id :: string
  mr_opportunityId :: string
  mr_capacityId :: string
  mr_eligible :: bool
  mr_eligibilityResults :: "RuleResult list"
  mr_ruleVersion :: string
  mr_rankingBreakdown :: "MatchRankingBreakdown option"
  mr_rank :: "nat option"
  mr_totalScore :: "js_number option"
  mr_algorithmVersion :: "string option"
  mr_inputVersions :: "string list"
  mr_evaluatedAt :: int
  mr_createdByUserId :: "string option"
  mr_createdByOrgId :: "string option"

record MatchingStore = Base +
  mt_opportunities :: "Opportunity list"
  mt_passports :: "Passport list"
  mt_readiness :: "ReadinessResult list"
  mt_capacities :: "CapacityProfile list"
  mt_results :: "MatchResult list"
  mt_jobKeys :: "bool IdempotencyKey list"

section \<open>Errors\<close>

datatype MatchingProblem = OpportunityNotOpen

datatype MatchingUnhandled =
    MtDb DbError | MtIntegerRange | MtEligibility EligibilityInputError | MtRanking RankingInputError
  | MatchResultInputError

type_synonym matching_failure = "(MatchingProblem, MatchingUnhandled) failure"

definition mdb :: "DbError + 'a \<Rightarrow> matching_failure + 'a" where
  "mdb = map_err (\<lambda>e. Unhandled (MtDb e))"

section \<open>Capacity profiles\<close>

definition capacity_findById :: "MatchingStore \<Rightarrow> string \<Rightarrow> CapacityProfile option" where
  "capacity_findById db i = find_by cp_id i (mt_capacities db)"

definition capacity_listByProviderOrg :: "MatchingStore \<Rightarrow> string \<Rightarrow> CapacityProfile list" where
  "capacity_listByProviderOrg db org =
     sort_key (\<lambda>c. - cp_createdAt c) (filter (\<lambda>c. cp_providerOrgId c = org \<and> cp_active c) (mt_capacities db))"

definition capacity_list :: "MatchingStore \<Rightarrow> nat \<Rightarrow> CapacityProfile list" where
  "capacity_list db limit = take limit (sort_key (\<lambda>c. - cp_createdAt c) (filter cp_active (mt_capacities db)))"

definition fits_int4 :: "int \<Rightarrow> bool" where
  "fits_int4 n \<longleftrightarrow> - (2 ^ 31) \<le> n \<and> n < 2 ^ 31"

definition string_array :: "string list \<Rightarrow> matching_failure + unit" where
  "string_array ss = mdb (map_err JsonShape (assertStringArray [JArray (map VString ss)] (VRef 0) []))"

definition terms_object :: "CommercialTerms \<Rightarrow> jsobj list" where
  "terms_object t = [JObject [(''mdrBps'', VNumber (js_Number (tm_mdrBps t))), (''fixedFeeMinor'', VNumber (js_Number (tm_fixedFeeMinor t))),
     (''model'', VString (tm_model t))]]"

definition capacity_insert :: "CapacityProfile \<Rightarrow> MatchingStore \<Rightarrow> matching_failure + MatchingStore" where
  "capacity_insert c db =
     ebind (string_array (cp_jurisdictions c)) (\<lambda>_.
     ebind (string_array (cp_mccsAccepted c)) (\<lambda>_.
     ebind (string_array (cp_mccsExcluded c)) (\<lambda>_.
     ebind (case cp_commercialTerms c of None \<Rightarrow> Inr ()
            | Some t \<Rightarrow> mdb (map_err JsonShape (assertJsonSafePlainObject (terms_object t) (VRef 0) []))) (\<lambda>_.
     ebind (throw_if (\<not> list_all fits_int4 [cp_minTicketMinor c, cp_maxTicketMinor c, cp_maxChargebackBps c, cp_maxFraudBps c,
       cp_maxRefundBps c, cp_settlementCadenceDays c]) (Unhandled MtIntegerRange)) (\<lambda>_.
     ebind (mdb (insert_row (\<lambda>x y. cp_id x = cp_id y) c (mt_capacities db))) (\<lambda>rows.
     Inr (db\<lparr>mt_capacities := rows\<rparr>)))))))"

definition updateFreshnessClass ::
  "string \<Rightarrow> FreshnessClass \<Rightarrow> string option \<Rightarrow> MatchingStore \<Rightarrow> DbError + CapacityProfile \<times> MatchingStore" where
  "updateFreshnessClass i f user db =
     ebind (update_by cp_id i (\<lambda>c. c\<lparr>cp_freshnessClass := f, cp_updatedByUserId := user, cp_version := cp_version c + 1\<rparr>)
       (mt_capacities db)) (\<lambda>(c, rows).
     Inr (c, db\<lparr>mt_capacities := rows\<rparr>))"

definition capacity_CROSS_ORG_READ_ROLES :: "PersonaRole list" where
  "capacity_CROSS_ORG_READ_ROLES =
     [PLATFORM_OWNER, MARKETPLACE_OPERATOR, PARTNERSHIP_LEAD, COMPLIANCE_REVIEWER, AUDITOR_READONLY]"

definition liveFreshness :: "CapacityProfile \<Rightarrow> int \<Rightarrow> FreshnessClass" where
  "liveFreshness c now =
     classifyCapacityFreshness \<lparr>cf_asOf = cp_asOf c, cf_sourceType = cp_sourceType c\<rparr> now capacityFreshnessWindowDays"

definition capacity_getById ::
  "Env \<Rightarrow> Actor \<Rightarrow> string \<Rightarrow> MatchingStore \<Rightarrow> matching_failure + CapacityProfile \<times> FreshnessClass" where
  "capacity_getById env actor i db =
     ebind (require (capacity_findById db i) (Problem notFound)) (\<lambda>c.
     ebind (authorize actor A_capacity_read R_capacity_profile (Some (cp_providerOrgId c)) no_context) (\<lambda>_.
     Inr (c, liveFreshness c (clock env))))"

definition capacities_list ::
  "Env \<Rightarrow> Actor \<Rightarrow> MatchingStore \<Rightarrow> matching_failure + (CapacityProfile \<times> FreshnessClass) list" where
  "capacities_list env actor db =
     ebind (authorize actor A_capacity_list R_capacity_profile (organizationId actor) no_context) (\<lambda>_.
     let profiles = (if role actor \<in> Some ` set capacity_CROSS_ORG_READ_ROLES then capacity_list db 100
           else if truthy (organizationId actor) then capacity_listByProviderOrg db (the (organizationId actor)) else [])
     in Inr (map (\<lambda>c. (c, liveFreshness c (clock env))) profiles))"

record CreateCapacityProfileRequest =
  cc_acceptingNewVolume :: "bool option"
  cc_jurisdictions :: "string list option"
  cc_mccsAccepted :: "string list option"
  cc_mccsExcluded :: "string list option"
  cc_currency :: string
  cc_monthlyCapacityMinor :: "string option"
  cc_minTicketMinor :: "int option"
  cc_maxTicketMinor :: "int option"
  cc_maxChargebackBps :: "int option"
  cc_maxFraudBps :: "int option"
  cc_maxRefundBps :: "int option"
  cc_settlementRail :: string
  cc_settlementCadenceDays :: "int option"
  cc_commercialTerms :: "CommercialTerms option"

text \<open>What the schema of the request accepts.\<close>

definition bps_ok :: "int \<Rightarrow> bool" where
  "bps_ok n \<longleftrightarrow> 0 \<le> n \<and> n \<le> 1000000"

definition codes_ok :: "nat \<Rightarrow> string list option \<Rightarrow> bool" where
  "codes_ok least v \<longleftrightarrow> (case v of None \<Rightarrow> True
     | Some ss \<Rightarrow> length ss \<le> 50 \<and> list_all (\<lambda>s. least \<le> length s \<and> length s \<le> 8) ss)"

definition CreateCapacityProfileRequestSchema :: "CreateCapacityProfileRequest \<Rightarrow> bool" where
  "CreateCapacityProfileRequestSchema inp \<longleftrightarrow>
     codes_ok 2 (cc_jurisdictions inp) \<and> codes_ok 1 (cc_mccsAccepted inp) \<and> codes_ok 1 (cc_mccsExcluded inp) \<and>
     length (cc_currency inp) = 3 \<and>
     pred_option (\<lambda>s. s \<noteq> [] \<and> list_all (\<lambda>c. c \<in> set ''0123456789'') s) (cc_monthlyCapacityMinor inp) \<and>
     pred_option (\<lambda>n. 0 \<le> n) (cc_minTicketMinor inp) \<and> pred_option (\<lambda>n. 0 \<le> n) (cc_maxTicketMinor inp) \<and>
     pred_option bps_ok (cc_maxChargebackBps inp) \<and> pred_option bps_ok (cc_maxFraudBps inp) \<and> pred_option bps_ok (cc_maxRefundBps inp) \<and>
     cc_settlementRail inp \<noteq> [] \<and> length (cc_settlementRail inp) \<le> 50 \<and> pred_option (\<lambda>n. 0 \<le> n) (cc_settlementCadenceDays inp) \<and>
     pred_option (\<lambda>t. bps_ok (tm_mdrBps t) \<and> 0 \<le> tm_fixedFeeMinor t \<and>
       tm_model t \<in> {''blended'', ''interchange_plus'', ''flat''}) (cc_commercialTerms inp)"

fun or_else :: "'a option \<Rightarrow> 'a \<Rightarrow> 'a" where
  "or_else None d = d"
| "or_else (Some v) d = v"

definition new_capacity :: "Env \<Rightarrow> Actor \<Rightarrow> string \<Rightarrow> int \<Rightarrow> CreateCapacityProfileRequest \<Rightarrow> CapacityProfile" where
  "new_capacity env actor i monthly inp =
     \<lparr>cp_id = i, cp_providerOrgId = the (organizationId actor), cp_asOf = clock env,
      cp_freshnessClass = classifyCapacityFreshness \<lparr>cf_asOf = clock env, cf_sourceType = ''PLATFORM''\<rparr> (clock env) capacityFreshnessWindowDays,
      cp_acceptingNewVolume = or_else (cc_acceptingNewVolume inp) True, cp_jurisdictions = or_else (cc_jurisdictions inp) [],
      cp_mccsAccepted = or_else (cc_mccsAccepted inp) [], cp_mccsExcluded = or_else (cc_mccsExcluded inp) [],
      cp_currency = cc_currency inp, cp_monthlyCapacityMinor = monthly, cp_minTicketMinor = or_else (cc_minTicketMinor inp) 0,
      cp_maxTicketMinor = or_else (cc_maxTicketMinor inp) 0, cp_maxChargebackBps = or_else (cc_maxChargebackBps inp) 0,
      cp_maxFraudBps = or_else (cc_maxFraudBps inp) 0, cp_maxRefundBps = or_else (cc_maxRefundBps inp) 0,
      cp_settlementRail = cc_settlementRail inp, cp_settlementCadenceDays = or_else (cc_settlementCadenceDays inp) 1,
      cp_commercialTerms = cc_commercialTerms inp, cp_active = True, cp_sourceType = ''PLATFORM'',
      cp_createdByUserId = Some (userId actor), cp_createdByOrgId = organizationId actor, cp_updatedByUserId = None,
      cp_version = 1, cp_createdAt = clock env\<rparr>"

definition capacity_create ::
  "Env \<Rightarrow> Actor \<Rightarrow> CreateCapacityProfileRequest \<Rightarrow> RequestContext \<Rightarrow> MatchingStore \<Rightarrow>
   matching_failure + (CapacityProfile \<times> FreshnessClass) \<times> MatchingStore" where
  "capacity_create env actor inp ctx db =
     ebind (throw_if (\<not> truthy (organizationId actor)) (Problem (forbidden NoActiveMembership))) (\<lambda>_.
     ebind (authorize actor A_capacity_create R_capacity_profile (organizationId actor) no_context) (\<lambda>_.
     ebind (map_err MoneyFailure (parseBigIntMinorUnits (cc_monthlyCapacityMinor inp) ''monthlyCapacityMinor'')) (\<lambda>monthly.
     let (i, db) = next_id env db; created = new_capacity env actor i monthly inp in
     ebind (capacity_insert created db) (\<lambda>db.
     let db = write_audit env (Some ctx) (audit_by actor (organizationId actor) ''capacity_profile.created'' ''capacity_profile'' i
           [(''freshnessClass'', JStr (freshnessClass_name (cp_freshnessClass created))), (''currency'', JStr (cp_currency created))]) db
     in Inr ((created, cp_freshnessClass created), db)))))"

section \<open>The freshness job\<close>

definition capacity_event :: "CapacityProfile \<Rightarrow> FreshnessClass \<Rightarrow> string \<Rightarrow> TimelineWriteInput" where
  "capacity_event c f trigger =
     \<lparr>tl_eventType = ''capacity_profile.freshness_recomputed'', tl_aggregateType = ''capacity_profile'', tl_aggregateId = cp_id c,
      tl_payload = [(''providerOrgId'', JStr (cp_providerOrgId c)), (''previousFreshnessClass'', JStr (freshnessClass_name (cp_freshnessClass c))),
        (''newFreshnessClass'', JStr (freshnessClass_name f)), (''trigger'', JStr trigger)],
      tl_actorUserId = None, tl_actorOrgId = None, tl_actorRole = None\<rparr>"

definition recomputeOne ::
  "Env \<Rightarrow> (string list \<Rightarrow> string) \<Rightarrow> int \<Rightarrow> string \<Rightarrow> string \<Rightarrow> MatchingStore \<Rightarrow> job_error + bool \<times> MatchingStore" where
  "recomputeOne env hashPayload now trigger profileId db =
     (case capacity_findById db profileId of
        None \<Rightarrow> Inr (False, db)
      | Some fresh \<Rightarrow>
          let f = liveFreshness fresh now; asOf = toISOString env (cp_asOf fresh) in
          if f = cp_freshnessClass fresh then Inr (False, db)
          else ebind (withJobIdempotency (uuid env (bs_ids db + 1)) (clock env) ''worker.capacity-freshness''
              (cp_id fresh @ '':'' @ asOf @ '':'' @ freshnessClass_name f) (hashPayload [cp_id fresh, asOf, freshnessClass_name f])
              (\<lambda>db. map_err (\<lambda>_. JobFailed ''recompute'')
                (ebind (updateFreshnessClass (cp_id fresh) f None db) (\<lambda>(_, db).
                 Inr (True, write_event env None (capacity_event fresh f trigger) db))))
              (mt_jobKeys db) db) (\<lambda>(tab, db', _).
            Inr (True, db'\<lparr>mt_jobKeys := tab, bs_ids := (if length tab = length (mt_jobKeys db) then bs_ids db' else bs_ids db + 2)\<rparr>)))"

record CapacityFreshnessJobResult =
  cj_scanned :: nat
  cj_reclassified :: nat

definition capacityFreshnessJob ::
  "Env \<Rightarrow> (string list \<Rightarrow> string) \<Rightarrow> int \<Rightarrow> string \<Rightarrow> MatchingStore \<Rightarrow> MatchingStore \<Rightarrow>
   job_error + CapacityFreshnessJobResult \<times> MatchingStore" where
  "capacityFreshnessJob env hashPayload now profileId snap db =
     (case capacity_findById snap profileId of
        None \<Rightarrow> Inr (\<lparr>cj_scanned = 0, cj_reclassified = 0\<rparr>, db)
      | Some _ \<Rightarrow> ebind (recomputeOne env hashPayload now ''event'' profileId db) (\<lambda>(changed, db).
          Inr (\<lparr>cj_scanned = 1, cj_reclassified = (if changed then 1 else 0)\<rparr>, db)))"

text \<open>The sweep; \<open>between k\<close> is what other requests commit before the \<open>k\<close>-th of its transactions.\<close>

fun freshness_sweep ::
  "Env \<Rightarrow> (string list \<Rightarrow> string) \<Rightarrow> int \<Rightarrow> (nat \<Rightarrow> MatchingStore \<Rightarrow> MatchingStore) \<Rightarrow> nat \<Rightarrow> CapacityProfile list \<Rightarrow> MatchingStore \<Rightarrow>
   job_error + nat \<times> MatchingStore" where
  "freshness_sweep env hashPayload now between n [] db = Inr (n, db)"
| "freshness_sweep env hashPayload now between n (c # rest) db =
     ebind (recomputeOne env hashPayload now ''sweep'' (cp_id c) (between (length rest) db)) (\<lambda>(changed, db).
     freshness_sweep env hashPayload now between (if changed then n + 1 else n) rest db)"

definition capacityFreshnessSweep ::
  "Env \<Rightarrow> (string list \<Rightarrow> string) \<Rightarrow> int \<Rightarrow> (nat \<Rightarrow> MatchingStore \<Rightarrow> MatchingStore) \<Rightarrow> MatchingStore \<Rightarrow>
   job_error + CapacityFreshnessJobResult \<times> MatchingStore" where
  "capacityFreshnessSweep env hashPayload now between db =
     (let profiles = capacity_list db 500 in
      ebind (freshness_sweep env hashPayload now between 0 profiles db) (\<lambda>(n, db).
      Inr (\<lparr>cj_scanned = length profiles, cj_reclassified = n\<rparr>, db)))"

end
