(* ===== verification/Matching_Evaluation.thy ===== *)
theory Matching_Evaluation
  imports Matching_Service
begin

text \<open>
  \<open>apps/api/src/modules/matching/service.ts\<close> with \<open>match-result.repository.ts\<close>: one pass evaluates
  every active capacity against an opportunity, ranks the eligible ones once and appends a row for
  each; the list shows the newest row of each capacity. \<open>snap\<close> is the state the reads before the
  transaction saw, \<open>db\<close> the state it runs on. The texts of findings and notes are not modelled.
\<close>

section \<open>Match results\<close>

fun ruleFamily_name :: "EligibilityRuleFamily \<Rightarrow> string" where
  "ruleFamily_name ROLE = ''ROLE''"
| "ruleFamily_name JURISDICTION = ''JURISDICTION''"
| "ruleFamily_name MCC_PRODUCT = ''MCC_PRODUCT''"
| "ruleFamily_name VOLUME_TICKET = ''VOLUME_TICKET''"
| "ruleFamily_name EVIDENCE_LICENSE = ''EVIDENCE_LICENSE''"
| "ruleFamily_name RISK = ''RISK''"
| "ruleFamily_name SETTLEMENT = ''SETTLEMENT''"
| "ruleFamily_name TECHNICAL = ''TECHNICAL''"
| "ruleFamily_name FRESHNESS = ''FRESHNESS''"
| "ruleFamily_name COMPLIANCE_HOLD = ''COMPLIANCE_HOLD''"

fun ruleStatus_name :: "RuleResultStatus \<Rightarrow> string" where
  "ruleStatus_name PASS = ''PASS''"
| "ruleStatus_name INELIGIBLE = ''INELIGIBLE''"
| "ruleStatus_name BLOCKED = ''BLOCKED''"
| "ruleStatus_name REFRESH_REQUIRED = ''REFRESH_REQUIRED''"
| "ruleStatus_name UNKNOWN = ''UNKNOWN''"

fun rankingFactor_name :: "RankingFactor \<Rightarrow> string" where
  "rankingFactor_name mccProductFit = ''mccProductFit''"
| "rankingFactor_name geographyLicensingFit = ''geographyLicensingFit''"
| "rankingFactor_name volumeTicketFit = ''volumeTicketFit''"
| "rankingFactor_name riskHistoryFit = ''riskHistoryFit''"
| "rankingFactor_name settlementCurrencyFit = ''settlementCurrencyFit''"
| "rankingFactor_name commercialUtility = ''commercialUtility''"
| "rankingFactor_name technicalLaunchFit = ''technicalLaunchFit''"
| "rankingFactor_name providerReliabilityFreshness = ''providerReliabilityFreshness''"
| "rankingFactor_name outcomeCalibratedLikelihood = ''outcomeCalibratedLikelihood''"

definition rule_object :: "RuleResult \<Rightarrow> jsobj" where
  "rule_object r =
     JObject [(''rule'', VString (ruleFamily_name (ru_rule r))), (''code'', VString (ru_code r)), (''status'', VString (ruleStatus_name (ru_status r))),
       (''blocking'', VBool (ru_blocking r)), (''overridable'', VBool (ru_overridable r)), (''message'', VString '''')]"

definition results_heap :: "RuleResult list \<Rightarrow> jsobj list" where
  "results_heap rs = JArray (map (\<lambda>i. VRef (Suc i)) [0..<length rs]) # map rule_object rs"

definition factor_object :: "RankingFactorContribution \<Rightarrow> jsobj" where
  "factor_object f =
     JObject [(''factor'', VString (rankingFactor_name (fc_factor f))), (''score'', VNumber (fc_score f)), (''weight'', VNumber (fc_weight f)),
       (''contribution'', VNumber (fc_contribution f)), (''note'', VString '''')]"

definition breakdown_heap :: "MatchRankingBreakdown \<Rightarrow> jsobj list" where
  "breakdown_heap b =
     JObject [(''factors'', VRef 1), (''total'', VNumber (mb_total b)), (''algorithmVersion'', VString (mb_algorithmVersion b)),
       (''inputVersions'', VRef 2)] #
     JArray (map (\<lambda>i. VRef (i + 3)) [0..<length (mb_factors b)]) # JArray (map VString (mb_inputVersions b)) # map factor_object (mb_factors b)"

definition matchResult_insert :: "MatchResult \<Rightarrow> MatchingStore \<Rightarrow> matching_failure + MatchingStore" where
  "matchResult_insert r db =
     ebind (mdb (map_err JsonShape (assertJsonSafeObjectArray (results_heap (mr_eligibilityResults r)) (VRef 0) []))) (\<lambda>_.
     ebind (string_array (mr_inputVersions r)) (\<lambda>_.
     let hasRankingData = (mr_rankingBreakdown r \<noteq> None \<or> mr_rank r \<noteq> None \<or> mr_totalScore r \<noteq> None \<or> mr_algorithmVersion r \<noteq> None);
         hasAllRankingData = (mr_rankingBreakdown r \<noteq> None \<and> mr_rank r \<noteq> None \<and> mr_totalScore r \<noteq> None \<and> mr_algorithmVersion r \<noteq> None)
     in
     ebind (throw_if (\<not> mr_eligible r \<and> hasRankingData) (Unhandled MatchResultInputError)) (\<lambda>_.
     ebind (throw_if (mr_eligible r \<and> \<not> hasAllRankingData) (Unhandled MatchResultInputError)) (\<lambda>_.
     ebind (case mr_rankingBreakdown r of None \<Rightarrow> Inr ()
            | Some b \<Rightarrow> mdb (map_err JsonShape (assertJsonSafePlainObject (breakdown_heap b) (VRef 0) []))) (\<lambda>_.
     ebind (mdb (insert_row (\<lambda>x y. mr_id x = mr_id y) r (mt_results db))) (\<lambda>rows.
     Inr (db\<lparr>mt_results := rows\<rparr>)))))))"

text \<open>The newest evaluation of each capacity. The comparator subtracts the ranks, with infinity for none:
  the difference of two infinities is not a number, and the sort takes that for equal.\<close>

fun first_of_capacity :: "string list \<Rightarrow> MatchResult list \<Rightarrow> MatchResult list" where
  "first_of_capacity seen [] = []"
| "first_of_capacity seen (r # rs) =
     (if mr_capacityId r \<in> set seen then first_of_capacity seen rs
      else r # first_of_capacity (mr_capacityId r # seen) rs)"

definition rank_number :: "MatchResult \<Rightarrow> js_number" where
  "rank_number r = (case mr_rank r of None \<Rightarrow> PosInfinity | Some n \<Rightarrow> Fin (of_nat n))"

definition result_cmp :: "MatchResult \<Rightarrow> MatchResult \<Rightarrow> int" where
  "result_cmp a b =
     (if mr_eligible a \<noteq> mr_eligible b then (if mr_eligible a then - 1 else 1)
      else let rankDelta = js_sub (rank_number a) (rank_number b) in
        if \<not> js_eq rankDelta (Fin 0) then js_sign rankDelta
        else if mr_capacityId a < mr_capacityId b then - 1 else if mr_capacityId b < mr_capacityId a then 1 else 0)"

definition newest_of :: "MatchResult list \<Rightarrow> MatchResult \<Rightarrow> bool" where
  "newest_of rows r \<longleftrightarrow> list_all (\<lambda>x. mr_capacityId x = mr_capacityId r \<longrightarrow> mr_evaluatedAt x \<le> mr_evaluatedAt r) rows"

definition listLatestByOpportunity :: "MatchingStore \<Rightarrow> string \<Rightarrow> MatchResult list" where
  "listLatestByOpportunity db opportunityId =
     (let own = filter (\<lambda>r. mr_opportunityId r = opportunityId) (mt_results db);
          rows = sort_key (\<lambda>r. - mr_evaluatedAt r) (sort_key mr_id (filter (newest_of own) own))
      in js_sort result_cmp (first_of_capacity [] rows))"

section \<open>Evaluating\<close>

record EvaluateMatchesRequest =
  ev_averageTicketMinor :: "int option"
  ev_requiredSettlementRail :: "string option"

definition CROSS_ORG_MATCH_READ_ROLES :: "PersonaRole list" where
  "CROSS_ORG_MATCH_READ_ROLES =
     [PLATFORM_OWNER, MARKETPLACE_OPERATOR, PARTNERSHIP_LEAD, UNDERWRITING_ANALYST, COMPLIANCE_REVIEWER, AUDITOR_READONLY]"

definition MAX_CANDIDATE_CAPACITIES :: nat where
  "MAX_CANDIDATE_CAPACITIES = 500"

definition toMatchOpportunityInput :: "Opportunity \<Rightarrow> MatchOpportunityInput" where
  "toMatchOpportunityInput o' =
     \<lparr>mo_id = op_id o', mo_currency = op_currency o', mo_jurisdictions = op_jurisdictions o', mo_mccs = op_mccs o',
      mo_movable30dMinor = op_movable30dMinor o'\<rparr>"

definition terms_input :: "CommercialTerms \<Rightarrow> MatchCommercialTerms" where
  "terms_input t = \<lparr>ct_mdrBps = js_Number (tm_mdrBps t), ct_fixedFeeMinor = js_Number (tm_fixedFeeMinor t), ct_model = tm_model t\<rparr>"

definition toMatchCapacityInput :: "CapacityProfile \<Rightarrow> FreshnessClass \<Rightarrow> MatchCapacityInput" where
  "toMatchCapacityInput c freshness =
     \<lparr>mc_id = cp_id c, mc_currency = cp_currency c, mc_jurisdictions = cp_jurisdictions c, mc_mccsAccepted = cp_mccsAccepted c,
      mc_mccsExcluded = cp_mccsExcluded c, mc_acceptingNewVolume = cp_acceptingNewVolume c,
      mc_monthlyCapacityMinor = cp_monthlyCapacityMinor c, mc_minTicketMinor = js_Number (cp_minTicketMinor c),
      mc_maxTicketMinor = js_Number (cp_maxTicketMinor c), mc_maxChargebackBps = js_Number (cp_maxChargebackBps c),
      mc_maxFraudBps = js_Number (cp_maxFraudBps c), mc_maxRefundBps = js_Number (cp_maxRefundBps c),
      mc_settlementRail = cp_settlementRail c, mc_settlementCadenceDays = js_Number (cp_settlementCadenceDays c),
      mc_freshnessClass = freshnessClass_name freshness, mc_commercialTerms = map_option terms_input (cp_commercialTerms c)\<rparr>"

definition latest_readiness :: "MatchingStore \<Rightarrow> string \<Rightarrow> ReadinessResult option" where
  "latest_readiness db i =
     (case sort_key (\<lambda>r. - rd_computedAt r) (filter (\<lambda>r. rd_passportId r = i) (mt_readiness db)) of [] \<Rightarrow> None | r # _ \<Rightarrow> Some r)"

definition liveProviderPassportStatus :: "MatchingStore \<Rightarrow> string \<Rightarrow> int \<Rightarrow> PassportStatus option" where
  "liveProviderPassportStatus db org now =
     (case find_by ps_organizationId org (mt_passports db) of
        None \<Rightarrow> None
      | Some p \<Rightarrow>
          (case latest_readiness db (ps_id p) of
             None \<Rightarrow> Some (ps_status p)
           | Some r \<Rightarrow>
               if isPassportReadinessStale (ps_status p) (Some (rd_computedAt r)) now READINESS_STALE_AFTER_DAYS = Some True
               then Some Psp_STALE else Some (ps_status p)))"

definition match_context :: "int \<Rightarrow> PassportStatus option \<Rightarrow> int option \<Rightarrow> string option \<Rightarrow> string list \<Rightarrow> MatchContext" where
  "match_context now status ticket rail versions =
     \<lparr>mx_now = now, mx_providerPassportStatus = status, mx_merchantRiskProfile = None,
      mx_averageTicketMinor = map_option js_Number ticket, mx_requiredSettlementRail = rail, mx_complianceHold = None,
      mx_ruleVersion = None, mx_inputVersions = Some versions\<rparr>"

definition opportunity_version :: "Opportunity \<Rightarrow> string" where
  "opportunity_version o' = ''opportunity:'' @ op_id o' @ '':v'' @ decimal (op_version o')"

definition capacity_version :: "CapacityProfile \<Rightarrow> string" where
  "capacity_version c = ''capacity:'' @ cp_id c @ '':v'' @ decimal (cp_version c)"

record Evaluated =
  el_capacity :: CapacityProfile
  el_matchCapacity :: MatchCapacityInput
  el_eligibility :: EligibilityResult

definition evaluated_one ::
  "int \<Rightarrow> EvaluateMatchesRequest \<Rightarrow> MatchingStore \<Rightarrow> Opportunity \<Rightarrow> CapacityProfile \<Rightarrow> matching_failure + Evaluated" where
  "evaluated_one now inp db opportunity capacity =
     (let status = liveProviderPassportStatus db (cp_providerOrgId capacity) now;
          matchCapacity = toMatchCapacityInput capacity (liveFreshness capacity now);
          matchContext = match_context now status (ev_averageTicketMinor inp) (ev_requiredSettlementRail inp)
            [opportunity_version opportunity, capacity_version capacity]
      in ebind (map_err (\<lambda>e. Unhandled (MtEligibility e))
           (evaluateEligibility (toMatchOpportunityInput opportunity) matchCapacity matchContext)) (\<lambda>eligibility.
         Inr \<lparr>el_capacity = capacity, el_matchCapacity = matchCapacity, el_eligibility = eligibility\<rparr>))"

definition rank_eligible ::
  "int \<Rightarrow> EvaluateMatchesRequest \<Rightarrow> Opportunity \<Rightarrow> Evaluated list \<Rightarrow> matching_failure + RankedMatch list" where
  "rank_eligible now inp opportunity entries =
     (if entries = [] then Inr []
      else map_err (\<lambda>e. Unhandled (MtRanking e)) (rankMatches (toMatchOpportunityInput opportunity) (map el_matchCapacity entries)
        (match_context now None (ev_averageTicketMinor inp) None [opportunity_version opportunity])))"

definition result_row :: "Actor \<Rightarrow> int \<Rightarrow> Opportunity \<Rightarrow> (string \<Rightarrow> RankedMatch option) \<Rightarrow> string \<Rightarrow> Evaluated \<Rightarrow> MatchResult" where
  "result_row actor now opportunity rankByCapacityId i entry =
     (let rankEntry = rankByCapacityId (cp_id (el_capacity entry)) in
      \<lparr>mr_id = i, mr_opportunityId = op_id opportunity, mr_capacityId = cp_id (el_capacity entry),
       mr_eligible = er_eligible (el_eligibility entry), mr_eligibilityResults = er_results (el_eligibility entry),
       mr_ruleVersion = er_ruleVersion (el_eligibility entry), mr_rankingBreakdown = map_option rm_breakdown rankEntry,
       mr_rank = map_option rm_rank rankEntry, mr_totalScore = map_option (\<lambda>r. mb_total (rm_breakdown r)) rankEntry,
       mr_algorithmVersion = map_option (\<lambda>r. mb_algorithmVersion (rm_breakdown r)) rankEntry,
       mr_inputVersions = er_inputVersions (el_eligibility entry), mr_evaluatedAt = now,
       mr_createdByUserId = Some (userId actor), mr_createdByOrgId = Some (op_ownerOrgId opportunity)\<rparr>)"

fun create_results ::
  "Env \<Rightarrow> (string \<Rightarrow> Evaluated \<Rightarrow> MatchResult) \<Rightarrow> Evaluated list \<Rightarrow> MatchingStore \<Rightarrow> matching_failure + MatchResult list \<times> MatchingStore" where
  "create_results env mk [] db = Inr ([], db)"
| "create_results env mk (entry # rest) db =
     (let (i, db) = next_id env db in
      ebind (matchResult_insert (mk i entry) db) (\<lambda>db.
      ebind (create_results env mk rest db) (\<lambda>(rows, db).
      Inr (mk i entry # rows, db))))"

definition evaluate ::
  "Env \<Rightarrow> Actor \<Rightarrow> string \<Rightarrow> EvaluateMatchesRequest \<Rightarrow> RequestContext \<Rightarrow> MatchingStore \<Rightarrow> MatchingStore \<Rightarrow>
   matching_failure + MatchResult list \<times> MatchingStore" where
  "evaluate env actor opportunityId inp ctx snap db =
     ebind (require (find_by op_id opportunityId (mt_opportunities snap)) (Problem notFound)) (\<lambda>opportunity.
     ebind (authorize actor A_matching_evaluate R_match_result (Some (op_ownerOrgId opportunity)) no_context) (\<lambda>_.
     ebind (throw_if (op_status opportunity \<noteq> Opp_MATCH_READY \<and> op_status opportunity \<noteq> Opp_INVITED)
       (Problem (badRequest OpportunityNotOpen))) (\<lambda>_.
     let now = clock env; candidates = capacity_list snap MAX_CANDIDATE_CAPACITIES in
     ebind (emap (evaluated_one now inp snap opportunity) candidates) (\<lambda>evaluated.
     let eligibleEntries = filter (\<lambda>e. er_eligible (el_eligibility e)) evaluated in
     ebind (rank_eligible now inp opportunity eligibleEntries) (\<lambda>ranked.
     let rankByCapacityId = map_of (rev (map (\<lambda>r. (rm_capacityId r, r)) ranked)) in
     ebind (create_results env (result_row actor now opportunity rankByCapacityId) evaluated db) (\<lambda>(created, db).
     let summary = [(''opportunityId'', JStr (op_id opportunity)), (''candidateCount'', JNum (int (length candidates))),
           (''eligibleCount'', JNum (int (length eligibleEntries))), (''ruleVersion'', JStr matching_ruleVersion),
           (''algorithmVersion'', JStr matching_algorithmVersion)];
         db = write_audit env (Some ctx) ((audit_by actor (Some (op_ownerOrgId opportunity)) ''matching.evaluated'' ''match_result'' '''' summary)
           \<lparr>au_resourceId := None\<rparr>) db;
         db = write_event env (Some ctx) (event_by actor ''match.computed'' ''opportunity'' (op_id opportunity) summary) db
     in Inr (created, db)))))))"

definition matches_list :: "Actor \<Rightarrow> string \<Rightarrow> MatchingStore \<Rightarrow> matching_failure + MatchResult list" where
  "matches_list actor opportunityId db =
     ebind (require (find_by op_id opportunityId (mt_opportunities db)) (Problem notFound)) (\<lambda>opportunity.
     ebind (authorize actor A_match_list R_match_result (Some (op_ownerOrgId opportunity)) \<lparr>isSelf = False, isParticipant = True\<rparr>) (\<lambda>_.
     let rows = listLatestByOpportunity db opportunityId in
     Inr (if role actor \<in> Some ` set CROSS_ORG_MATCH_READ_ROLES then rows
          else if organizationId actor = Some (op_ownerOrgId opportunity) then rows
          else if role actor = Some ACQUIRER_PROVIDER_USER \<and> truthy (organizationId actor)
          then (let myCapacityIds = cp_id ` set (capacity_listByProviderOrg db (the (organizationId actor)))
                in filter (\<lambda>m. mr_capacityId m \<in> myCapacityIds) rows)
          else [])))"

end
