(* ===== verification/Matching_History.thy ===== *)
theory Matching_History
  imports Matching_Evaluation
begin

text \<open>
  Every history of the matching and capacity services and the freshness job, with arbitrary changes
  to opportunities and passports by the other services: the invariant of the two tables and what
  their rows keep.
\<close>

section \<open>Histories\<close>

inductive match_step :: "MatchingStore \<Rightarrow> MatchingStore \<Rightarrow> MatchingStore \<Rightarrow> bool" where
  capacity: "CreateCapacityProfileRequestSchema inp \<Longrightarrow> capacity_create env actor inp ctx db = Inr (c, db') \<Longrightarrow> match_step snap db db'"
| evaluation: "evaluate env actor i req ctx snap db = Inr (rows, db') \<Longrightarrow> match_step snap db db'"
| freshness: "recomputeOne env h now trigger i db = Inr (changed, db') \<Longrightarrow> match_step snap db db'"
| elsewhere: "mt_capacities db' = mt_capacities db \<Longrightarrow> mt_results db' = mt_results db \<Longrightarrow> mt_jobKeys db' = mt_jobKeys db \<Longrightarrow>
    match_step snap db db'"

definition match_start :: "MatchingStore \<Rightarrow> bool" where
  "match_start db \<longleftrightarrow> mt_capacities db = [] \<and> mt_results db = []"

text \<open>Ranking data is stored with exactly the eligible rows.\<close>

definition ranked_iff_eligible :: "MatchResult \<Rightarrow> bool" where
  "ranked_iff_eligible r \<longleftrightarrow>
     (mr_rank r \<noteq> None \<longleftrightarrow> mr_eligible r) \<and> (mr_rankingBreakdown r \<noteq> None \<longleftrightarrow> mr_eligible r) \<and>
     (mr_totalScore r \<noteq> None \<longleftrightarrow> mr_eligible r) \<and> (mr_algorithmVersion r \<noteq> None \<longleftrightarrow> mr_eligible r)"

text \<open>What the request schema, the service and the columns guarantee of a stored profile; they check neither the
  order of the ticket bounds nor that the rail is more than blanks.\<close>

definition capacity_sane :: "CapacityProfile \<Rightarrow> bool" where
  "capacity_sane c \<longleftrightarrow> length (cp_currency c) = 3 \<and> 0 \<le> cp_monthlyCapacityMinor c \<and>
     list_all (\<lambda>n. 0 \<le> n \<and> fits_int4 n) [cp_minTicketMinor c, cp_maxTicketMinor c, cp_maxChargebackBps c, cp_maxFraudBps c,
       cp_maxRefundBps c, cp_settlementCadenceDays c] \<and>
     pred_option (\<lambda>t. bps_ok (tm_mdrBps t)) (cp_commercialTerms c)"

definition match_ok :: "MatchingStore \<Rightarrow> bool" where
  "match_ok db \<longleftrightarrow> distinct (map cp_id (mt_capacities db)) \<and> distinct (map mr_id (mt_results db)) \<and>
     (\<forall>c \<in> set (mt_capacities db). capacity_sane c) \<and>
    (\<forall>r \<in> set (mt_results db). ranked_iff_eligible r \<and> mr_capacityId r \<in> cp_id ` set (mt_capacities db))"

text \<open>A profile changes in its cached freshness only.\<close>

definition capacity_moves :: "CapacityProfile \<Rightarrow> CapacityProfile \<Rightarrow> bool" where
  "capacity_moves c c' \<longleftrightarrow> (\<exists>f user v. c' = c\<lparr>cp_freshnessClass := f, cp_updatedByUserId := user, cp_version := v\<rparr>)"

definition match_keeps :: "MatchingStore \<Rightarrow> MatchingStore \<Rightarrow> bool" where
  "match_keeps db db' \<longleftrightarrow>
     (\<exists>new. grows capacity_moves new (mt_capacities db) (mt_capacities db')) \<and> (\<exists>new. mt_results db' = mt_results db @ new)"

lemma capacity_moves_refl [simp]: "capacity_moves c c"
  unfolding capacity_moves_def by (rule exI [of _ "cp_freshnessClass c"], rule exI [of _ "cp_updatedByUserId c"], rule exI [of _ "cp_version c"]) simp

lemma capacity_moves_trans: "capacity_moves a b \<Longrightarrow> capacity_moves b c \<Longrightarrow> capacity_moves a c"
  unfolding capacity_moves_def by (elim exE) (rule exI, rule exI, rule exI, simp)

lemma capacity_moves_fixed:
  assumes "capacity_moves c c'"
  shows "cp_id c' = cp_id c" "cp_active c' = cp_active c" "cp_minTicketMinor c' = cp_minTicketMinor c"
    "cp_maxTicketMinor c' = cp_maxTicketMinor c" "cp_providerOrgId c' = cp_providerOrgId c"
    "capacity_sane c' = capacity_sane c"
  using assms by (auto simp: capacity_moves_def capacity_sane_def)

lemma match_keeps_refl: "match_keeps db db"
  unfolding match_keeps_def using grows_same [of capacity_moves] by auto

lemma match_keeps_trans:
  assumes ab: "match_keeps a b" and bc: "match_keeps b c"
  shows "match_keeps a c"
  unfolding match_keeps_def
proof (intro conjI)
  show "\<exists>new. grows capacity_moves new (mt_capacities a) (mt_capacities c)"
    using ab bc grows_trans capacity_moves_trans unfolding match_keeps_def by meson
  show "\<exists>new. mt_results c = mt_results a @ new"
    using ab bc unfolding match_keeps_def by force
qed

section \<open>What a request writes\<close>

lemma lifted_matching [simp, result_simps]: "mdb r = Inr x \<longleftrightarrow> r = Inr x" "mdb (Inr x) = Inr x"
  by (simp_all add: mdb_def)

lemma matching_tables_written [simp]:
  fixes db :: MatchingStore
  shows "mt_capacities (write_audit env ctx a db) = mt_capacities db" "mt_results (write_audit env ctx a db) = mt_results db"
    "mt_jobKeys (write_audit env ctx a db) = mt_jobKeys db"
    "mt_capacities (write_event env ctx e db) = mt_capacities db" "mt_results (write_event env ctx e db) = mt_results db"
    "mt_jobKeys (write_event env ctx e db) = mt_jobKeys db"
  by (simp_all add: write_audit_def write_event_def next_id_def)

lemma capacity_create_effect:
  assumes "capacity_create env actor inp ctx db = Inr ((c, f), db')"
  shows "(\<exists>monthly. 0 \<le> monthly \<and> c = new_capacity env actor (cp_id c) monthly inp) \<and> (\<forall>x \<in> set (mt_capacities db). cp_id x \<noteq> cp_id c) \<and>
    mt_capacities db' = mt_capacities db @ [c] \<and> mt_results db' = mt_results db \<and>
    list_all fits_int4 [cp_minTicketMinor c, cp_maxTicketMinor c, cp_maxChargebackBps c, cp_maxFraudBps c, cp_maxRefundBps c,
      cp_settlementCadenceDays c]"
proof -
  have "0 \<le> n" if "parseBigIntMinorUnits s f = Inr n" for s f n
    using parseBigIntMinorUnits_roundtrip that by blast
  then show ?thesis
    using assms
    by (auto simp: capacity_create_def ebind_eq_Inr next_id_def Let_def capacity_insert_def insert_row_ok new_capacity_def map_err_eq_Inr)
qed

lemma matchResult_insert_ok:
  assumes "matchResult_insert r db = Inr db'"
  shows "db' = db\<lparr>mt_results := mt_results db @ [r]\<rparr> \<and> (\<forall>x \<in> set (mt_results db). mr_id x \<noteq> mr_id r) \<and>
    (mr_eligible r \<longrightarrow> mr_rankingBreakdown r \<noteq> None \<and> mr_rank r \<noteq> None \<and> mr_totalScore r \<noteq> None \<and> mr_algorithmVersion r \<noteq> None) \<and>
    (\<not> mr_eligible r \<longrightarrow> mr_rankingBreakdown r = None \<and> mr_rank r = None \<and> mr_totalScore r = None \<and> mr_algorithmVersion r = None)"
  using assms by (auto simp: matchResult_insert_def ebind_eq_Inr Let_def insert_row_ok)

lemma inserted_ranked: "matchResult_insert r db = Inr db' \<Longrightarrow> ranked_iff_eligible r"
  using matchResult_insert_ok [of r db db'] by (auto simp: ranked_iff_eligible_def)

lemma create_results_ok:
  assumes "create_results env mk entries db = Inr (rows, db')" and "\<And>i e. mr_id (mk i e) = i"
  shows "(\<exists>ids. length ids = length entries \<and> rows = map2 mk ids entries) \<and> mt_results db' = mt_results db @ rows \<and>
    mt_capacities db' = mt_capacities db \<and> mt_jobKeys db' = mt_jobKeys db \<and>
    (distinct (map mr_id (mt_results db)) \<longrightarrow> distinct (map mr_id (mt_results db @ rows))) \<and> (\<forall>r \<in> set rows. ranked_iff_eligible r)"
  using assms(1)
proof (induction entries arbitrary: db rows db')
  case (Cons e es)
  let ?r = "mk (uuid env (bs_ids db)) e"
  obtain db1 rest where e: "matchResult_insert ?r (db\<lparr>bs_ids := Suc (bs_ids db)\<rparr>) = Inr db1" "create_results env mk es db1 = Inr (rest, db')"
      "rows = ?r # rest"
    using Cons.prems by (auto simp: next_id_def ebind_eq_Inr Let_def)
  note i = matchResult_insert_ok [OF e(1)] inserted_ranked [OF e(1)]
  obtain ids where ids: "length ids = length es" "rest = map2 mk ids es"
    using Cons.IH [OF e(2)] by blast
  have "\<exists>ids. length ids = length (e # es) \<and> rows = map2 mk ids (e # es)"
    using ids e(3) by (intro exI [of _ "uuid env (bs_ids db) # ids"]) simp
  moreover have rows1: "mt_results db1 = mt_results db @ [?r]" "mt_capacities db1 = mt_capacities db" "mt_jobKeys db1 = mt_jobKeys db"
    using i(1) by auto
  moreover have "distinct (map mr_id (mt_results db1))" if "distinct (map mr_id (mt_results db))"
    using that i(1) unfolding rows1 by auto
  ultimately show ?case
    using Cons.IH [OF e(2)] i(2) e(3) by simp
qed simp

lemma result_row_simps [simp]:
  "mr_id (result_row actor now p rk i e) = i" "mr_capacityId (result_row actor now p rk i e) = cp_id (el_capacity e)"
  "mr_eligible (result_row actor now p rk i e) = er_eligible (el_eligibility e)"
  "mr_eligibilityResults (result_row actor now p rk i e) = er_results (el_eligibility e)"
  "mr_opportunityId (result_row actor now p rk i e) = op_id p" "mr_evaluatedAt (result_row actor now p rk i e) = now"
  "mr_rank (result_row actor now p rk i e) = map_option rm_rank (rk (cp_id (el_capacity e)))"
  "mr_totalScore (result_row actor now p rk i e) = map_option (\<lambda>r. mb_total (rm_breakdown r)) (rk (cp_id (el_capacity e)))"
  by (simp_all add: result_row_def Let_def)

lemma evaluate_effect:
  assumes "evaluate env actor i inp ctx snap db = Inr (rows, db')"
  obtains p entries ranked ids where "find_by op_id i (mt_opportunities snap) = Some p" "op_status p \<in> {Opp_MATCH_READY, Opp_INVITED}"
    "allowed (can actor A_matching_evaluate \<lparr>rtype = R_match_result, rid = None, ownerOrgId = Some (op_ownerOrgId p), privacyClass = None\<rparr> no_context)"
    "emap (evaluated_one (clock env) inp snap p) (capacity_list snap 500) = Inr entries"
    "rank_eligible (clock env) inp p (filter (\<lambda>e. er_eligible (el_eligibility e)) entries) = Inr ranked" "length ids = length entries"
    "rows = map2 (result_row actor (clock env) p (map_of (rev (map (\<lambda>r. (rm_capacityId r, r)) ranked)))) ids entries"
    "mt_results db' = mt_results db @ rows" "mt_capacities db' = mt_capacities db"
    "distinct (map mr_id (mt_results db)) \<longrightarrow> distinct (map mr_id (mt_results db @ rows))" "\<forall>r \<in> set rows. ranked_iff_eligible r"
proof -
  obtain p entries ranked db1 where e: "find_by op_id i (mt_opportunities snap) = Some p" "op_status p \<in> {Opp_MATCH_READY, Opp_INVITED}"
    "allowed (can actor A_matching_evaluate \<lparr>rtype = R_match_result, rid = None, ownerOrgId = Some (op_ownerOrgId p), privacyClass = None\<rparr> no_context)"
    "emap (evaluated_one (clock env) inp snap p) (capacity_list snap 500) = Inr entries"
    "rank_eligible (clock env) inp p (filter (\<lambda>e. er_eligible (el_eligibility e)) entries) = Inr ranked"
    "create_results env (result_row actor (clock env) p (map_of (rev (map (\<lambda>r. (rm_capacityId r, r)) ranked)))) entries db = Inr (rows, db1)"
    "mt_results db' = mt_results db1" "mt_capacities db' = mt_capacities db1"
    using assms by (auto simp: evaluate_def ebind_eq_Inr Let_def authorize_ok MAX_CANDIDATE_CAPACITIES_def)
  have c: "(\<exists>ids. length ids = length entries \<and> rows = map2 (result_row actor (clock env) p (map_of (rev (map (\<lambda>r. (rm_capacityId r, r)) ranked)))) ids entries) \<and>
    mt_results db1 = mt_results db @ rows \<and> mt_capacities db1 = mt_capacities db \<and> mt_jobKeys db1 = mt_jobKeys db \<and>
    (distinct (map mr_id (mt_results db)) \<longrightarrow> distinct (map mr_id (mt_results db @ rows))) \<and> (\<forall>r \<in> set rows. ranked_iff_eligible r)"
    by (rule create_results_ok [OF e(6)]) simp
  then obtain ids where "length ids = length entries"
    "rows = map2 (result_row actor (clock env) p (map_of (rev (map (\<lambda>r. (rm_capacityId r, r)) ranked)))) ids entries"
    by (elim conjE exE)
  then show thesis
    by (rule that [OF e(1-5)]) (use c e(7,8) in simp_all)
qed

lemma entries_of:
  assumes "emap (evaluated_one now inp snap p) cs = Inr entries"
  shows "map el_capacity entries = cs"
    "e \<in> set entries \<Longrightarrow> evaluated_one now inp snap p (el_capacity e) = Inr e"
proof -
  have l: "list_all2 (\<lambda>c e. evaluated_one now inp snap p c = Inr e) cs entries"
    using assms by (simp add: emap_eq_Inr)
  have cap: "el_capacity e = c" if "evaluated_one now inp snap p c = Inr e" for c e
    using that by (auto simp: evaluated_one_def Let_def ebind_eq_Inr)
  show "map el_capacity entries = cs"
    using l cap by (induction rule: list_all2_induct) auto
  show "evaluated_one now inp snap p (el_capacity e) = Inr e" if "e \<in> set entries"
    using list_all2_origin [OF l that] cap by auto
qed

section \<open>The invariant\<close>

lemma match_okD:
  assumes "match_ok db"
  shows "distinct (map cp_id (mt_capacities db))" "distinct (map mr_id (mt_results db))"
    "c \<in> set (mt_capacities db) \<Longrightarrow> capacity_sane c"
    "r \<in> set (mt_results db) \<Longrightarrow> ranked_iff_eligible r \<and> mr_capacityId r \<in> cp_id ` set (mt_capacities db)"
  using assms unfolding match_ok_def by blast+

lemma keeps_capacity:
  assumes "match_keeps db db'" "c \<in> set (mt_capacities db)"
  shows "\<exists>c' \<in> set (mt_capacities db'). capacity_moves c c'"
  using assms grows_kept unfolding match_keeps_def by fast

lemma candidates_known: "c \<in> set (capacity_list db n) \<Longrightarrow> c \<in> set (mt_capacities db) \<and> cp_active c"
  unfolding capacity_list_def by (auto dest: in_set_takeD)

lemma recomputeOne_effect:
  assumes "recomputeOne env h now trigger i db = Inr (changed, db')"
  shows "mt_results db' = mt_results db \<and> (mt_capacities db' = mt_capacities db \<or>
    (\<exists>c. capacity_findById db i = Some c \<and> mt_capacities db' =
       set_by cp_id i (\<lambda>x. x\<lparr>cp_freshnessClass := liveFreshness c now, cp_updatedByUserId := None, cp_version := cp_version x + 1\<rparr>)
         (mt_capacities db)))"
proof (cases "capacity_findById db i")
  case None
  then show ?thesis
    using assms by (simp add: recomputeOne_def)
next
  case (Some c)
  then have "cp_id c = i"
    by (auto simp: capacity_findById_def dest: find_by_SomeD)
  then show ?thesis
    using assms Some
    by (auto simp: recomputeOne_def ebind_eq_Inr withJobIdempotency_def map_err_eq_Inr updateFreshnessClass_def update_by_ok Let_def
        split: option.splits if_splits)
qed

lemma or_else_all: "pred_option P v \<Longrightarrow> P d \<Longrightarrow> P (or_else v d)"
  by (cases v) simp_all

lemma new_capacity_sane:
  assumes "CreateCapacityProfileRequestSchema inp" and "0 \<le> monthly" and c: "c = new_capacity env actor i monthly inp"
    and "list_all fits_int4 [cp_minTicketMinor c, cp_maxTicketMinor c, cp_maxChargebackBps c, cp_maxFraudBps c, cp_maxRefundBps c,
      cp_settlementCadenceDays c]"
  shows "capacity_sane c"
proof -
  have nonneg: "0 \<le> or_else v d" if "pred_option bps_ok v \<or> pred_option (\<lambda>n. 0 \<le> n) v" "0 \<le> d" for v :: "int option" and d
    using that by (cases v) (auto simp: bps_ok_def)
  have "pred_option (\<lambda>t. bps_ok (tm_mdrBps t)) (cc_commercialTerms inp)"
    using assms(1) by (cases "cc_commercialTerms inp") (auto simp: CreateCapacityProfileRequestSchema_def)
  then show ?thesis
    using assms(1,2,4) unfolding capacity_sane_def c new_capacity_def CreateCapacityProfileRequestSchema_def by (simp add: nonneg)
qed

lemma capacity_create_ok:
  assumes ok: "match_ok db" and schema: "CreateCapacityProfileRequestSchema inp"
    and create: "capacity_create env actor inp ctx db = Inr ((c, f), db')"
  shows "match_ok db' \<and> match_keeps db db'"
proof -
  note e = capacity_create_effect [OF create]
  obtain monthly where c: "0 \<le> monthly" "c = new_capacity env actor (cp_id c) monthly inp"
    using e by blast
  have "capacity_sane c"
    by (rule new_capacity_sane [OF schema c]) (use e in blast)
  moreover have "grows capacity_moves [c] (mt_capacities db) (mt_capacities db')"
    using e grows_append [of capacity_moves "[c]" "mt_capacities db"] by simp
  ultimately show ?thesis
    using ok e unfolding match_ok_def match_keeps_def by auto
qed

lemma recomputeOne_ok:
  assumes ok: "match_ok db" and run: "recomputeOne env h now trigger i db = Inr (changed, db')"
  shows "match_ok db' \<and> match_keeps db db'"
proof -
  note e = recomputeOne_effect [OF run]
  have m: "capacity_moves c (c\<lparr>cp_freshnessClass := f, cp_updatedByUserId := None, cp_version := cp_version c + 1\<rparr>)" for c f
    unfolding capacity_moves_def by blast
  have g: "grows capacity_moves [] (mt_capacities db) (mt_capacities db')"
  proof (cases "mt_capacities db' = mt_capacities db")
    case True
    then show ?thesis
      by (simp add: grows_same)
  next
    case False
    then obtain c where c: "find_by cp_id i (mt_capacities db) = Some c" "mt_capacities db' =
       set_by cp_id i (\<lambda>x. x\<lparr>cp_freshnessClass := liveFreshness c now, cp_updatedByUserId := None, cp_version := cp_version x + 1\<rparr>)
         (mt_capacities db)"
      using e unfolding capacity_findById_def by blast
    show ?thesis
      unfolding c(2) by (rule set_by_grows [where R = capacity_moves, OF match_okD(1) [OF ok] c(1)]) (rule m, rule capacity_moves_refl)
  qed
  then have ids: "map cp_id (mt_capacities db') = map cp_id (mt_capacities db)"
    using grows_keys [OF g, of cp_id] capacity_moves_fixed(1) by simp
  have "\<exists>x \<in> set (mt_capacities db). capacity_moves x c" if "c \<in> set (mt_capacities db')" for c
    using grows_origin [OF g that] by simp
  then have "\<forall>c \<in> set (mt_capacities db'). capacity_sane c"
    using match_okD(3) [OF ok] capacity_moves_fixed(6) by metis
  moreover have "cp_id ` set (mt_capacities db') = cp_id ` set (mt_capacities db)"
    using arg_cong [OF ids, of set] by simp
  ultimately show ?thesis
    using match_okD(4) [OF ok] e by (simp add: match_ok_def match_keeps_def ids match_okD(1,2) [OF ok]) (use g in blast)
qed

lemma rows_project:
  assumes "length ids = length entries" and "\<And>i e. g (mk i e) = h e" and "\<And>i e. P (mk i e) = Q e"
  shows "map g (filter P (map2 mk ids entries)) = map h (filter Q entries)"
  using assms(1) by (induction ids entries rule: list_induct2) (simp_all add: assms(2,3))

lemma evaluate_capacities:
  assumes "evaluate env actor i inp ctx snap db = Inr (rows, db')"
  shows "map mr_capacityId rows = map cp_id (capacity_list snap 500)"
proof -
  obtain p entries ranked ids where e: "emap (evaluated_one (clock env) inp snap p) (capacity_list snap 500) = Inr entries"
      "length ids = length entries"
      "rows = map2 (result_row actor (clock env) p (map_of (rev (map (\<lambda>r. (rm_capacityId r, r)) ranked)))) ids entries"
    using assms by (elim evaluate_effect)
  have "map mr_capacityId (filter (\<lambda>_. True) rows) = map (\<lambda>e. cp_id (el_capacity e)) (filter (\<lambda>_. True) entries)"
    unfolding e(3) by (rule rows_project [OF e(2)]) simp_all
  then have "map mr_capacityId rows = map (\<lambda>e. cp_id (el_capacity e)) entries"
    by simp
  also have "\<dots> = map cp_id (map el_capacity entries)"
    by simp
  finally show ?thesis
    unfolding entries_of(1) [OF e(1)] .
qed

lemma evaluate_ok:
  assumes ok: "match_ok db" and keeps: "match_keeps snap db" and run: "evaluate env actor i inp ctx snap db = Inr (rows, db')"
  shows "match_ok db' \<and> match_keeps db db'"
proof -
  obtain e: "mt_results db' = mt_results db @ rows" "mt_capacities db' = mt_capacities db"
    "distinct (map mr_id (mt_results db)) \<longrightarrow> distinct (map mr_id (mt_results db @ rows))" "\<forall>r \<in> set rows. ranked_iff_eligible r"
    using run by (rule evaluate_effect)
  have "mr_capacityId r \<in> cp_id ` set (mt_capacities db)" if "r \<in> set rows" for r
  proof -
    have "mr_capacityId r \<in> set (map cp_id (capacity_list snap 500))"
      using that unfolding evaluate_capacities [OF run, symmetric] by simp
    then obtain c where "c \<in> set (mt_capacities snap)" "mr_capacityId r = cp_id c"
      using candidates_known by auto
    moreover from this obtain c' where "c' \<in> set (mt_capacities db)" "capacity_moves c c'"
      using keeps_capacity [OF keeps] by blast
    ultimately show ?thesis
      using capacity_moves_fixed(1) by (intro image_eqI [of _ _ c']) simp_all
  qed
  then show ?thesis
    using ok e grows_same [of capacity_moves] unfolding match_ok_def match_keeps_def by auto
qed

lemma match_step_ok:
  assumes "match_step snap db db'" and "match_ok db" and "match_keeps snap db"
  shows "match_ok db' \<and> match_keeps db db'"
  using assms(1)
proof cases
  case (capacity inp env actor ctx c)
  then show ?thesis
    using capacity_create_ok [OF assms(2)] by (cases c) blast
next
  case evaluation
  then show ?thesis
    using evaluate_ok [OF assms(2,3)] by blast
next
  case freshness
  then show ?thesis
    using recomputeOne_ok [OF assms(2)] by blast
next
  case elsewhere
  then show ?thesis
    using assms(2) grows_same [of capacity_moves] unfolding match_ok_def match_keeps_def by auto
qed

interpretation matching: request_history match_step match_start True match_ok match_keeps
proof unfold_locales
  show "match_keeps db db" for db
    by (rule match_keeps_refl)
  show "match_keeps a c" if "match_keeps a b" "match_keeps b c" for a b c
    using that by (rule match_keeps_trans)
  show "match_ok db" if "match_start db" for db
    using that by (simp add: match_start_def match_ok_def)
  show "match_ok db'" "match_keeps db db'" if "match_step snap db db'" "match_keeps snap db" "match_ok db" for snap db db'
    using match_step_ok [OF that(1,3,2)] by simp_all
qed

end
