(* ===== verification/Matching_Passes.thy ===== *)
theory Matching_Passes
  imports Matching_History
begin

text \<open>
  What an evaluation pass computes: the findings and the ranks of its rows, which profiles the engine
  refuses, and that on all others the pass succeeds, the guards of the JSON columns included.
\<close>

section \<open>The rows of a pass\<close>

lemma js_Number_bps: "bps_ok n \<Longrightarrow> js_isFinite (js_Number n)"
  using js_Number_small [of n] by (simp add: bps_ok_def)

lemma evaluated_ok:
  assumes "evaluated_one now inp db p c = Inr e"
  shows "el_capacity e = c" "el_matchCapacity e = toMatchCapacityInput c (liveFreshness c now)"
    "evaluateEligibility (toMatchOpportunityInput p) (toMatchCapacityInput c (liveFreshness c now))
       (match_context now (liveProviderPassportStatus db (cp_providerOrgId c) now) (ev_averageTicketMinor inp) (ev_requiredSettlementRail inp)
         [opportunity_version p, capacity_version c]) = Inr (el_eligibility e)"
  using assms by (auto simp: evaluated_one_def Let_def ebind_eq_Inr map_err_eq_Inr)

lemma evaluated_rankable:
  assumes "evaluated_one now inp db p c = Inr e" and "capacity_sane c"
  shows "rankable (match_context now status ticket rail versions) (el_matchCapacity e)"
proof -
  have "validateCapacity (el_matchCapacity e) = Inr ()"
    using evaluated_ok(2,3) [OF assms(1)] by (auto elim: evaluateEligibility_ok)
  then show ?thesis
    using assms(2) js_Number_bps unfolding rankable_def rates_ok_def
    by (auto simp: capacity_sane_def match_context_def evaluated_ok(2) [OF assms(1)] toMatchCapacityInput_def terms_input_def split: option.split)
qed

lemma eligible_checks:
  assumes "evaluateEligibility p c x = Inr r"
  shows "length (er_results r) = 11" "er_eligible r \<longleftrightarrow> \<not> (\<exists>f \<in> set (er_results r). blocks f)"
    "er_eligible r \<Longrightarrow> mx_providerPassportStatus x \<in> {Some Psp_READY, Some Psp_VERIFIED} \<and> mc_freshnessClass c \<in> {''FRESH'', ''AGING''}"
proof -
  obtain ticket risk fresh where ok: "checkFreshness c = Inr fresh"
    "er_results r = [checkRole, checkJurisdiction p c, checkMccProduct p c, checkHeadroom p c, ticket,
       checkEvidenceLicense x, risk, checkSettlement p c x, checkTechnical, fresh, checkComplianceHold x]"
    "er_blockers r = filter blocks (er_results r)" "er_eligible r \<longleftrightarrow> er_blockers r = []"
    using assms by (elim evaluateEligibility_ok)
  show "length (er_results r) = 11"
    by (simp add: ok(2))
  show e: "er_eligible r \<longleftrightarrow> \<not> (\<exists>f \<in> set (er_results r). blocks f)"
    unfolding ok(4) ok(3) by (simp only: filter_empty_conv) blast
  assume "er_eligible r"
  then have "\<not> blocks (checkEvidenceLicense x)" "\<not> blocks fresh"
    unfolding e ok(2) by simp_all
  then show "mx_providerPassportStatus x \<in> {Some Psp_READY, Some Psp_VERIFIED} \<and> mc_freshnessClass c \<in> {''FRESH'', ''AGING''}"
    unfolding other_blocks(3) checkFreshness_blocks [OF ok(1)] by blast
qed

lemma capacity_list_distinct: "distinct (map cp_id (mt_capacities db)) \<Longrightarrow> distinct (map cp_id (capacity_list db n))"
proof -
  assume "distinct (map cp_id (mt_capacities db))"
  then have "distinct (map cp_id (filter cp_active (mt_capacities db)))"
    by (rule distinct_map_filter)
  moreover have "mset (map cp_id (sort_key (\<lambda>c. - cp_createdAt c) (filter cp_active (mt_capacities db)))) =
      mset (map cp_id (filter cp_active (mt_capacities db)))"
    by simp
  ultimately have "distinct (map cp_id (sort_key (\<lambda>c. - cp_createdAt c) (filter cp_active (mt_capacities db))))"
    by (metis mset_eq_imp_distinct_iff)
  then show ?thesis
    by (simp add: capacity_list_def take_map [symmetric] distinct_take)
qed

text \<open>Looking a row up in the ranking by its capacity.\<close>

lemma map_of_rev_unique:
  assumes "distinct (map k xs)" and "x \<in> set xs"
  shows "map_of (rev (map (\<lambda>r. (k r, r)) xs)) (k x) = Some x"
proof -
  have "distinct (map fst (rev (map (\<lambda>r. (k r, r)) xs)))"
    using assms(1) by (simp add: rev_map [symmetric] comp_def)
  then show ?thesis
    using assms(2) by (simp add: map_of_eq_Some_iff)
qed

lemma map_of_rev_absent: "i \<notin> k ` set xs \<Longrightarrow> map_of (rev (map (\<lambda>r. (k r, r)) xs)) i = None"
  by (auto simp: map_of_eq_None_iff image_iff)

lemma rank_eligible_ranks:
  assumes "rank_eligible now inp p entries = Inr ranked"
  shows "rankMatches (toMatchOpportunityInput p) (map el_matchCapacity entries)
    (match_context now None (ev_averageTicketMinor inp) None [opportunity_version p]) = Inr ranked"
proof (cases "entries = []")
  case True
  then show ?thesis
    using assms by (simp add: rank_eligible_def rankMatches_def js_sort_def)
next
  case False
  then show ?thesis
    using assms by (simp add: rank_eligible_def map_err_eq_Inr)
qed

lemma ranking_of_pass:
  assumes run: "evaluate env actor i inp ctx snap db = Inr (rows, db')" and ok: "match_ok snap"
  obtains ranked :: "RankedMatch list" where
    "mset (map mr_capacityId (filter mr_eligible rows)) = mset (map rm_capacityId ranked)"
    "distinct (map rm_capacityId ranked)" "map rm_rank ranked = [1..<length ranked + 1]"
    "\<forall>a b. a < b \<and> b < length ranked \<longrightarrow>
       js_lt (mb_total (rm_breakdown (ranked ! b))) (mb_total (rm_breakdown (ranked ! a))) \<or>
       mb_total (rm_breakdown (ranked ! b)) = mb_total (rm_breakdown (ranked ! a)) \<and> rm_capacityId (ranked ! a) \<le> rm_capacityId (ranked ! b)"
    "\<forall>r \<in> set rows. mr_eligible r \<longrightarrow> (\<exists>m \<in> set ranked. rm_capacityId m = mr_capacityId r \<and>
       mr_rank r = Some (rm_rank m) \<and> mr_totalScore r = Some (mb_total (rm_breakdown m)))"
proof -
  let ?E = "\<lambda>e. er_eligible (el_eligibility e)"
  obtain p entries ranked ids where e: "emap (evaluated_one (clock env) inp snap p) (capacity_list snap 500) = Inr entries"
      "rank_eligible (clock env) inp p (filter ?E entries) = Inr ranked" "length ids = length entries"
      "rows = map2 (result_row actor (clock env) p (map_of (rev (map (\<lambda>r. (rm_capacityId r, r)) ranked)))) ids entries"
    using run by (elim evaluate_effect)
  let ?rk = "map_of (rev (map (\<lambda>r. (rm_capacityId r, r)) ranked))"
  let ?x = "match_context (clock env) None (ev_averageTicketMinor inp) None [opportunity_version p]"
  have "rankable ?x c" if c: "c \<in> set (map el_matchCapacity (filter ?E entries))" for c
  proof -
    obtain entry where "entry \<in> set entries" "c = el_matchCapacity entry"
      using c by auto
    moreover from this have "el_capacity entry \<in> set (capacity_list snap 500)"
      unfolding entries_of(1) [OF e(1), symmetric] by simp
    ultimately show ?thesis
      using evaluated_rankable [OF entries_of(2) [OF e(1)]] candidates_known match_okD(3) [OF ok] by blast
  qed
  then have ranks: "mset (map rm_capacityId ranked) = mset (map mc_id (map el_matchCapacity (filter ?E entries))) \<and>
      map rm_rank ranked = [1..<length (map el_matchCapacity (filter ?E entries)) + 1] \<and>
      (\<forall>a b. a < b \<and> b < length ranked \<longrightarrow>
       js_lt (mb_total (rm_breakdown (ranked ! b))) (mb_total (rm_breakdown (ranked ! a))) \<or>
       mb_total (rm_breakdown (ranked ! b)) = mb_total (rm_breakdown (ranked ! a)) \<and> rm_capacityId (ranked ! a) \<le> rm_capacityId (ranked ! b))"
    using rankMatches_ranks [OF rank_eligible_ranks [OF e(2)]] by blast
  have key: "mc_id (el_matchCapacity entry) = cp_id (el_capacity entry)" if "entry \<in> set entries" for entry
    using evaluated_ok(2) [OF entries_of(2) [OF e(1) that]] by (simp add: toMatchCapacityInput_def)
  have "map mc_id (map el_matchCapacity (filter ?E entries)) = map (\<lambda>e. cp_id (el_capacity e)) (filter ?E entries)"
    using key by simp
  moreover have "map mr_capacityId (filter mr_eligible rows) = map (\<lambda>e. cp_id (el_capacity e)) (filter ?E entries)"
    unfolding e(4) by (rule rows_project [OF e(3)]) simp_all
  ultimately have m: "mset (map mr_capacityId (filter mr_eligible rows)) = mset (map rm_capacityId ranked)"
    using ranks [THEN conjunct1] by (simp only:)
  have "distinct (map mr_capacityId rows)"
    unfolding evaluate_capacities [OF run] by (rule capacity_list_distinct [OF match_okD(1) [OF ok]])
  then have d: "distinct (map rm_capacityId ranked)"
    using mset_eq_imp_distinct_iff [OF m] distinct_map_filter by blast
  have n: "length (map el_matchCapacity (filter ?E entries)) = length ranked"
    using ranks by (metis mset_eq_length length_map)
  have "\<exists>m \<in> set ranked. rm_capacityId m = mr_capacityId r \<and> mr_rank r = Some (rm_rank m) \<and>
      mr_totalScore r = Some (mb_total (rm_breakdown m))" if r: "r \<in> set rows" "mr_eligible r" for r
  proof -
    have "mr_capacityId r \<in> set (map rm_capacityId ranked)"
      using r mset_eq_setD [OF m] by auto
    then obtain m where m: "m \<in> set ranked" "rm_capacityId m = mr_capacityId r"
      by auto
    obtain entry j where "r = result_row actor (clock env) p ?rk j entry"
      using r(1) unfolding e(4) by (auto simp: set_zip)
    then have "mr_rank r = map_option rm_rank (?rk (mr_capacityId r))"
      "mr_totalScore r = map_option (\<lambda>r. mb_total (rm_breakdown r)) (?rk (mr_capacityId r))"
      by simp_all
    then show ?thesis
      using m map_of_rev_unique [OF d m(1)] by force
  qed
  then show thesis
    using that [OF m d] ranks [THEN conjunct2] unfolding n by blast
qed

text \<open>The ranks of the eligible rows, through the ranking.\<close>

lemma ranks_of_pass:
  assumes run: "evaluate env actor i inp ctx snap db = Inr (rows, db')" and ok: "match_ok snap"
  shows "mset (map (\<lambda>r. the (mr_rank r)) (filter mr_eligible rows)) = mset [1..<length (filter mr_eligible rows) + 1]"
    "a \<in> set rows \<Longrightarrow> b \<in> set rows \<Longrightarrow> mr_eligible a \<Longrightarrow> mr_eligible b \<Longrightarrow> the (mr_rank a) < the (mr_rank b) \<Longrightarrow>
      js_lt (the (mr_totalScore b)) (the (mr_totalScore a)) \<or> mr_totalScore a = mr_totalScore b \<and> mr_capacityId a \<le> mr_capacityId b"
proof -
  obtain ranked :: "RankedMatch list" where k: "mset (map mr_capacityId (filter mr_eligible rows)) = mset (map rm_capacityId ranked)"
    "distinct (map rm_capacityId ranked)" "map rm_rank ranked = [1..<length ranked + 1]"
    and desc: "\<forall>a b. a < b \<and> b < length ranked \<longrightarrow>
       js_lt (mb_total (rm_breakdown (ranked ! b))) (mb_total (rm_breakdown (ranked ! a))) \<or>
       mb_total (rm_breakdown (ranked ! b)) = mb_total (rm_breakdown (ranked ! a)) \<and> rm_capacityId (ranked ! a) \<le> rm_capacityId (ranked ! b)"
    and row: "\<forall>r \<in> set rows. mr_eligible r \<longrightarrow> (\<exists>m \<in> set ranked. rm_capacityId m = mr_capacityId r \<and>
       mr_rank r = Some (rm_rank m) \<and> mr_totalScore r = Some (mb_total (rm_breakdown m)))"
    using run ok by (rule ranking_of_pass)
  define rank_of where "rank_of j = rm_rank (the (map_of (map (\<lambda>m. (rm_capacityId m, m)) ranked) j))" for j
  have lookup: "rank_of (rm_capacityId m) = rm_rank m" if "m \<in> set ranked" for m
  proof -
    have "map_of (map (\<lambda>m. (rm_capacityId m, m)) ranked) (rm_capacityId m) = Some m"
      using that k(2) by (simp add: map_of_eq_Some_iff comp_def)
    then show ?thesis
      by (simp add: rank_of_def)
  qed
  have "the (mr_rank r) = rank_of (mr_capacityId r)" if "r \<in> set (filter mr_eligible rows)" for r
    using row that lookup by fastforce
  then have "map (\<lambda>r. the (mr_rank r)) (filter mr_eligible rows) = map rank_of (map mr_capacityId (filter mr_eligible rows))"
    by simp
  then have "mset (map (\<lambda>r. the (mr_rank r)) (filter mr_eligible rows)) = image_mset rank_of (mset (map rm_capacityId ranked))"
    unfolding k(1) [symmetric] by (simp only: mset_map)
  also have "\<dots> = mset (map rank_of (map rm_capacityId ranked))"
    by (simp only: mset_map)
  also have "map rank_of (map rm_capacityId ranked) = map rm_rank ranked"
    using lookup by simp
  finally show "mset (map (\<lambda>r. the (mr_rank r)) (filter mr_eligible rows)) = mset [1..<length (filter mr_eligible rows) + 1]"
    unfolding k(3) using mset_eq_length [OF k(1)] by (simp only: length_map)
  assume ab: "a \<in> set rows" "b \<in> set rows" "mr_eligible a" "mr_eligible b" "the (mr_rank a) < the (mr_rank b)"
  have place: "ranked ! j \<in> set ranked \<and> rm_rank (ranked ! j) = j + 1" if "j < length ranked" for j
    using that arg_cong [OF k(3), of "\<lambda>xs. xs ! j"] by (simp del: upt_Suc)
  obtain m n where mn: "m \<in> set ranked" "n \<in> set ranked" "rm_capacityId m = mr_capacityId a" "rm_capacityId n = mr_capacityId b"
    "mr_rank a = Some (rm_rank m)" "mr_rank b = Some (rm_rank n)"
    "mr_totalScore a = Some (mb_total (rm_breakdown m))" "mr_totalScore b = Some (mb_total (rm_breakdown n))"
    using row ab(1-4) by blast
  obtain u v where uv: "m = ranked ! u" "u < length ranked" "n = ranked ! v" "v < length ranked"
    using mn(1,2) by (auto simp: in_set_conv_nth)
  have "u < v"
    using ab(5) place [OF uv(2)] place [OF uv(4)] unfolding mn(5,6) uv(1,3) by simp
  then show "js_lt (the (mr_totalScore b)) (the (mr_totalScore a)) \<or> mr_totalScore a = mr_totalScore b \<and> mr_capacityId a \<le> mr_capacityId b"
    using desc [rule_format, of u v] uv(4) unfolding mn(7,8) mn(3,4) [symmetric] uv(1,3) by (auto simp: eq_commute)
qed

lemma checks_of_pass:
  assumes run: "evaluate env actor i inp ctx snap db = Inr (rows, db')" and ok: "match_ok snap" and r: "r \<in> set rows"
  shows "length (mr_eligibilityResults r) = 11 \<and> (mr_eligible r \<longleftrightarrow> \<not> (\<exists>f \<in> set (mr_eligibilityResults r). blocks f)) \<and>
    mr_evaluatedAt r = clock env \<and> mr_opportunityId r = i \<and>
    (mr_eligible r \<longrightarrow> (\<exists>c. capacity_findById snap (mr_capacityId r) = Some c \<and> cp_active c \<and>
       liveProviderPassportStatus snap (cp_providerOrgId c) (clock env) \<in> {Some Psp_READY, Some Psp_VERIFIED} \<and>
       liveFreshness c (clock env) \<in> {Fr_FRESH, Fr_AGING}))"
proof -
  obtain p entries ranked ids where e: "find_by op_id i (mt_opportunities snap) = Some p"
      "emap (evaluated_one (clock env) inp snap p) (capacity_list snap 500) = Inr entries"
      "rows = map2 (result_row actor (clock env) p (map_of (rev (map (\<lambda>r. (rm_capacityId r, r)) ranked)))) ids entries"
    using run by (elim evaluate_effect)
  obtain entry j where entry: "entry \<in> set entries" "r = result_row actor (clock env) p (map_of (rev (map (\<lambda>r. (rm_capacityId r, r)) ranked))) j entry"
    using r unfolding e(3) by (force dest: set_zip_leftD set_zip_rightD)
  let ?c = "el_capacity entry"
  have "?c \<in> set (capacity_list snap 500)"
    using entry(1) unfolding entries_of(1) [OF e(2), symmetric] by simp
  then have c: "?c \<in> set (mt_capacities snap)" "cp_active ?c"
    using candidates_known by blast+
  then have found: "capacity_findById snap (cp_id ?c) = Some ?c"
    unfolding capacity_findById_def using find_by_unique [OF match_okD(1) [OF ok]] by blast
  note checks = eligible_checks [OF evaluated_ok(3) [OF entries_of(2) [OF e(2) entry(1)]]]
  have "op_id p = i"
    using e(1) by (auto dest: find_by_SomeD)
  moreover have "f \<in> {Fr_FRESH, Fr_AGING}" if "freshnessClass_name f \<in> {''FRESH'', ''AGING''}" for f
    using that by (cases f) simp_all
  ultimately show ?thesis
    using checks found c(2) unfolding entry(2) result_row_simps
    by (simp add: match_context_def toMatchCapacityInput_def)
qed

section \<open>Profiles the engine refuses\<close>

definition capacity_usable :: "CapacityProfile \<Rightarrow> bool" where
  "capacity_usable c \<longleftrightarrow> js_trim (cp_settlementRail c) \<noteq> [] \<and> (cp_maxTicketMinor c = 0 \<or> cp_minTicketMinor c \<le> cp_maxTicketMinor c)"

lemma valid_iff_usable:
  assumes "capacity_sane c"
  shows "validateCapacity (toMatchCapacityInput c f) = Inr u \<longleftrightarrow> capacity_usable c"
proof -
  have "js_Number n = Fin (of_int n)" if "fits_int4 n" for n
    using that by (auto simp: fits_int4_def intro!: js_Number_small)
  moreover have "isFreshnessClassLike (freshnessClass_name f)"
    by (cases f) (simp_all add: isFreshnessClassLike_def matching_FRESHNESS_CLASSES_def)
  ultimately show ?thesis
    using assms unfolding validateCapacity_ok capacity_usable_def capacity_sane_def by (auto simp: toMatchCapacityInput_def)
qed

lemma evaluated_one_unusable:
  assumes "capacity_sane c" "\<not> capacity_usable c"
  shows "evaluated_one now inp db p c \<noteq> Inr e"
proof
  assume "evaluated_one now inp db p c = Inr e"
  then have "validateCapacity (toMatchCapacityInput c (liveFreshness c now)) = Inr ()"
    by (rule evaluated_ok(3) [THEN evaluateEligibility_ok])
  then show False
    using valid_iff_usable [OF assms(1)] assms(2) by simp
qed

lemma emap_fails:
  assumes "x \<in> set xs" "\<And>y. f x \<noteq> Inr y" "\<And>x e. f x = Inl e \<Longrightarrow> E e"
  shows "\<exists>e. emap f xs = Inl e \<and> E e"
  using assms(1)
proof (induction xs)
  case (Cons y ys)
  show ?case
  proof (cases "f y")
    case Inl
    then show ?thesis
      using assms(3) by simp
  next
    case (Inr z)
    then have "x \<in> set ys"
      using Cons.prems assms(2) by auto
    then show ?thesis
      using Cons.IH Inr by auto
  qed
qed simp

section \<open>Sorting with any comparator\<close>

lemma mset_js_insert: "mset (js_insert cmp x xs) = add_mset x (mset xs)"
  by (induction xs) auto

lemma any_sort_set: "set (js_sort cmp xs) = set xs" and any_sort_mset: "mset (js_sort cmp xs) = mset xs"
proof -
  show "mset (js_sort cmp xs) = mset xs"
    unfolding js_sort_def by (induction xs) (simp_all add: mset_js_insert)
  then show "set (js_sort cmp xs) = set xs"
    by (rule mset_eq_setD)
qed

section \<open>When a pass succeeds\<close>

lemma serializable_tree: "json_tree heap v \<Longrightarrow> assertJsonSerializable heap [] path v = Inr ()"
  by (rule serializable_complete) simp_all

lemma leaf_object:
  assumes "a < length heap" "heap ! a = JObject entries" "set (map fst entries) \<inter> set DANGEROUS_JSON_KEYS = {}" "\<forall>x \<in> set (map snd entries). json_tree heap x"
  shows "json_tree heap (VRef a)"
  by (rule tree_object) (use assms in \<open>auto simp: deref_def\<close>)

lemma leaf_array:
  assumes "a < length heap" "heap ! a = JArray items" "\<forall>x \<in> set items. json_tree heap x"
  shows "json_tree heap (VRef a)"
  by (rule tree_object) (use assms in \<open>auto simp: deref_def\<close>)

lemma string_array_ok [simp]: "string_array ss = Inr ()"
  by (auto simp: string_array_def assertStringArray_def deref_def mdb_def efor_eq_Inr map_err_eq_Inr enumerate_eq_zip set_zip)

lemma results_guard: "assertJsonSafeObjectArray (results_heap rs) (VRef 0) path = Inr ()"
proof -
  have item: "assertJsonSafePlainObject (results_heap rs) (VRef (Suc j)) p = Inr ()" if j: "j < length rs" for j p
  proof -
    have at_j: "results_heap rs ! Suc j = rule_object (rs ! j)" "Suc j < length (results_heap rs)"
      using j by (simp_all add: results_heap_def)
    have "json_tree (results_heap rs) (VRef (Suc j))"
      using at_j unfolding rule_object_def by (intro leaf_object) (auto simp: DANGEROUS_JSON_KEYS_def)
    then show ?thesis
      using at_j serializable_tree by (simp add: assertJsonSafePlainObject_def deref_def rule_object_def)
  qed
  have root: "deref (results_heap rs) 0 = JArray (map (\<lambda>i. VRef (Suc i)) [0..<length rs])"
    by (simp add: results_heap_def deref_def)
  show ?thesis
    unfolding assertJsonSafeObjectArray_def jsval.case root jsobj.case efor_eq_Inr
    using item by (auto simp: enumerate_eq_zip set_zip)
qed

definition breakdown_finite :: "MatchRankingBreakdown \<Rightarrow> bool" where
  "breakdown_finite b \<longleftrightarrow> js_isFinite (mb_total b) \<and>
     (\<forall>f \<in> set (mb_factors b). js_isFinite (fc_score f) \<and> js_isFinite (fc_weight f) \<and> js_isFinite (fc_contribution f))"

lemma breakdown_guard:
  assumes "breakdown_finite b"
  shows "assertJsonSafePlainObject (breakdown_heap b) (VRef 0) path = Inr ()"
proof -
  let ?h = "breakdown_heap b" and ?n = "length (mb_factors b)"
  have heap: "?h ! 0 = JObject [(''factors'', VRef 1), (''total'', VNumber (mb_total b)), (''algorithmVersion'', VString (mb_algorithmVersion b)),
       (''inputVersions'', VRef 2)]" "?h ! 1 = JArray (map (\<lambda>i. VRef (i + 3)) [0..<?n])" "?h ! 2 = JArray (map VString (mb_inputVersions b))"
    "length ?h = ?n + 3"
    by (simp_all add: breakdown_heap_def)
  have item: "json_tree ?h (VRef (j + 3))" if j: "j < ?n" for j
  proof -
    have "?h ! (j + 3) = factor_object (mb_factors b ! j)"
      using j by (simp add: breakdown_heap_def numeral_3_eq_3)
    moreover have "mb_factors b ! j \<in> set (mb_factors b)"
      using j by simp
    ultimately show ?thesis
      using assms j heap(4) unfolding factor_object_def breakdown_finite_def by (intro leaf_object) (auto simp: DANGEROUS_JSON_KEYS_def)
  qed
  have "json_tree ?h (VRef 1)"
    by (rule leaf_array) (use heap item in auto)
  moreover have "json_tree ?h (VRef 2)"
    by (rule leaf_array) (use heap in auto)
  ultimately have "json_tree ?h (VRef 0)"
    using heap assms by (intro leaf_object) (auto simp: DANGEROUS_JSON_KEYS_def breakdown_finite_def)
  then show ?thesis
    using heap(1,4) serializable_tree by (simp add: assertJsonSafePlainObject_def deref_def)
qed

definition storable :: "MatchResult \<Rightarrow> bool" where
  "storable r \<longleftrightarrow> ranked_iff_eligible r \<and> pred_option breakdown_finite (mr_rankingBreakdown r)"

lemma matchResult_insert_total:
  assumes "storable r" and "\<forall>x \<in> set (mt_results db). mr_id x \<noteq> mr_id r"
  shows "matchResult_insert r db = Inr (db\<lparr>mt_results := mt_results db @ [r]\<rparr>)"
proof -
  have i: "insert_row (\<lambda>x y. mr_id x = mr_id y) r (mt_results db) = Inr (mt_results db @ [r])"
    using assms(2) by (simp add: insert_row_ok)
  show ?thesis
    using assms(1) i breakdown_guard results_guard
    by (cases "mr_rankingBreakdown r") (auto simp: matchResult_insert_def storable_def ranked_iff_eligible_def throw_if_def mdb_def map_err_def)
qed

definition match_ids_fresh :: "Env \<Rightarrow> MatchingStore \<Rightarrow> bool" where
  "match_ids_fresh env db \<longleftrightarrow> inj (uuid env) \<and> (\<forall>n \<ge> bs_ids db. \<forall>x \<in> set (mt_results db). mr_id x \<noteq> uuid env n)"

lemma create_results_total:
  assumes "match_ids_fresh env db" and "\<forall>e \<in> set entries. \<forall>i. storable (mk i e)" and id: "\<And>i e. mr_id (mk i e) = i"
  shows "\<exists>res. create_results env mk entries db = Inr res"
  using assms(1,2)
proof (induction entries arbitrary: db)
  case (Cons e es)
  let ?r = "mk (uuid env (bs_ids db)) e" and ?db = "db\<lparr>bs_ids := Suc (bs_ids db)\<rparr>"
  have "matchResult_insert ?r ?db = Inr (?db\<lparr>mt_results := mt_results ?db @ [?r]\<rparr>)"
    using Cons.prems by (intro matchResult_insert_total) (auto simp: match_ids_fresh_def id)
  moreover have "match_ids_fresh env (?db\<lparr>mt_results := mt_results ?db @ [?r]\<rparr>)"
    using Cons.prems(1) by (auto simp: match_ids_fresh_def id inj_eq)
  then have "\<exists>res. create_results env mk es (?db\<lparr>mt_results := mt_results ?db @ [?r]\<rparr>) = Inr res"
    using Cons.IH Cons.prems(2) by simp
  ultimately show ?case
    by (auto simp: next_id_def)
qed simp

lemma evaluated_one_total:
  assumes sane: "capacity_sane c" and usable: "capacity_usable c" and p: "length (op_currency p) = 3" "0 \<le> op_movable30dMinor p"
    and ticket: "pred_option (\<lambda>n. 0 \<le> n \<and> n \<le> 2 ^ 53) (ev_averageTicketMinor inp)"
  shows "\<exists>e. evaluated_one now inp db p c = Inr e"
proof -
  let ?p = "toMatchOpportunityInput p" and ?c = "toMatchCapacityInput c (liveFreshness c now)"
  let ?x = "match_context now (liveProviderPassportStatus db (cp_providerOrgId c) now) (ev_averageTicketMinor inp) (ev_requiredSettlementRail inp)
      [opportunity_version p, capacity_version c]"
  have "validateOpportunity ?p = Inr ()"
    using p by (simp add: validateOpportunity_def toMatchOpportunityInput_def assertNonNegativeBigInt_def throw_if_def)
  moreover have "validateCapacity ?c = Inr ()"
    using valid_iff_usable [OF sane] usable by blast
  moreover have "\<exists>t. checkTicket ?c ?x = Inr t"
  proof (cases "ev_averageTicketMinor inp")
    case (Some n)
    then show ?thesis
      using ticket js_Number_small [of n]
      by (auto simp: checkTicket_def match_context_def assertFiniteNonNegative_def throw_if_def Let_def ebind_eq_Inr)
  qed (simp add: checkTicket_def match_context_def)
  moreover have "\<exists>r. checkRisk ?c ?x = Inr r"
    by (simp add: checkRisk_def match_context_def)
  moreover have "\<exists>f. checkFreshness ?c = Inr f"
    by (cases "liveFreshness c now") (simp_all add: checkFreshness_def toMatchCapacityInput_def)
  ultimately show ?thesis
    by (auto simp: evaluated_one_def Let_def evaluateEligibility_def checkVolumeTicket_def simp del: filter.simps)
qed

lemma emap_total: "\<forall>x \<in> set xs. \<exists>y. f x = Inr y \<Longrightarrow> \<exists>ys. emap f xs = Inr ys"
  unfolding emap_map by blast

lemma ranked_breakdowns:
  assumes "rankMatches p caps x = Inr ms" "\<forall>c \<in> set caps. rankable x c" "m \<in> set ms"
  shows "breakdown_finite (rm_breakdown m)"
proof -
  obtain scored where scored: "list_all2 (\<lambda>c e. scoreMatch p c x = Inr (snd e) \<and> fst e = mc_id c) caps scored"
    and ms: "ms = map2 (ranked_entry (js_sort rank_order scored)) [0..<length (js_sort rank_order scored)] (js_sort rank_order scored)"
    using assms(1,2) by (elim rankMatches_ok)
  have "\<exists>e \<in> set (js_sort rank_order scored). rm_breakdown m = snd e"
    using assms(3) unfolding ms by (force simp: ranked_entry_def dest: set_zip_rightD)
  then obtain e where e: "e \<in> set scored" "rm_breakdown m = snd e"
    by (auto simp: any_sort_set)
  obtain c where c: "c \<in> set caps" "scoreMatch p c x = Inr (snd e)"
    using list_all2_origin [OF scored e(1)] by blast
  have "rankable x c"
    using assms(2) c(1) by blast
  note range = scoreMatch_range [OF c(2) this]
  have "\<exists>g s. f = contribution g s" if "f \<in> set (mb_factors (snd e))" for f
    using c(2) by (elim scoreMatch_ok) (use that in \<open>auto simp: set_zip\<close>)
  then have "js_isFinite (fc_score f) \<and> js_isFinite (fc_weight f) \<and> js_isFinite (fc_contribution f)" if f: "f \<in> set (mb_factors (snd e))" for f
  proof -
    obtain g s where g: "f = contribution g s"
      using f \<open>\<And>f. f \<in> set (mb_factors (snd e)) \<Longrightarrow> \<exists>g s. f = contribution g s\<close> by blast
    have s: "score_range s"
      using range f unfolding g by (auto simp: contribution_def)
    obtain w where "rankingWeights g = Fin w"
      using weights_evaluated by blast
    then show ?thesis
      using s contribution_range [OF s, of g] unfolding g by (auto simp: contribution_def elim!: js_withinE)
  qed
  then show ?thesis
    using range unfolding breakdown_finite_def e(2) by (auto elim!: js_withinE)
qed
lemma evaluate_total:
  assumes ok: "match_ok snap"
    and p: "find_by op_id i (mt_opportunities snap) = Some p" "length (op_currency p) = 3" "0 \<le> op_movable30dMinor p"
      "op_status p \<in> {Opp_MATCH_READY, Opp_INVITED}"
    and auth: "allowed (can actor A_matching_evaluate \<lparr>rtype = R_match_result, rid = None, ownerOrgId = Some (op_ownerOrgId p), privacyClass = None\<rparr> no_context)"
    and ticket: "pred_option (\<lambda>n. 0 \<le> n \<and> n \<le> 2 ^ 53) (ev_averageTicketMinor inp)"
    and ids: "match_ids_fresh env db" and usable: "\<forall>c \<in> set (capacity_list snap 500). capacity_usable c"
  shows "\<exists>rows db'. evaluate env actor i inp ctx snap db = Inr (rows, db')"
proof -
  let ?E = "\<lambda>e. er_eligible (el_eligibility e)"
  have sane: "capacity_sane c" if "c \<in> set (capacity_list snap 500)" for c
    using candidates_known [OF that] match_okD(3) [OF ok] by blast
  have "\<forall>c \<in> set (capacity_list snap 500). \<exists>e. evaluated_one (clock env) inp snap p c = Inr e"
    using evaluated_one_total sane usable p(2,3) ticket by blast
  then obtain entries where e: "emap (evaluated_one (clock env) inp snap p) (capacity_list snap 500) = Inr entries"
    using emap_total by blast
  let ?caps = "map el_matchCapacity (filter ?E entries)"
  let ?x = "match_context (clock env) None (ev_averageTicketMinor inp) None [opportunity_version p]"
  have entry: "el_capacity y \<in> set (capacity_list snap 500)" if "y \<in> set entries" for y
    using that unfolding entries_of(1) [OF e, symmetric] by simp
  have rankable: "rankable ?x c" if c: "c \<in> set ?caps" for c
  proof -
    obtain y where "y \<in> set entries" "c = el_matchCapacity y"
      using c by auto
    then show ?thesis
      using evaluated_rankable [OF entries_of(2) [OF e] sane] entry by blast
  qed
  then have "\<forall>c \<in> set ?caps. isFreshnessClassLike (mc_freshnessClass c)"
    by (simp add: rankable_def validateCapacity_ok)
  then obtain ranked where ranked: "rankMatches (toMatchOpportunityInput p) ?caps ?x = Inr ranked"
    using rankMatches_total by blast
  then have r: "rank_eligible (clock env) inp p (filter ?E entries) = Inr ranked"
    by (cases "filter ?E entries = []") (simp_all add: rank_eligible_def rankMatches_def js_sort_def)
  let ?rk = "map_of (rev (map (\<lambda>r. (rm_capacityId r, r)) ranked))"
  have ranked_ids: "rm_capacityId ` set ranked = (\<lambda>y. cp_id (el_capacity y)) ` {y \<in> set entries. ?E y}"
  proof -
    have "mset (map rm_capacityId ranked) = mset (map mc_id ?caps)"
      using rankMatches_ranks [OF ranked] rankable by blast
    then have "rm_capacityId ` set ranked = mc_id ` set ?caps"
      by (metis mset_eq_setD set_map)
    moreover have "mc_id (el_matchCapacity y) = cp_id (el_capacity y)" if "y \<in> set entries" for y
      using evaluated_ok(2) [OF entries_of(2) [OF e that]] by (simp add: toMatchCapacityInput_def)
    ultimately show ?thesis
      by (simp add: image_image)
  qed
  have caps: "distinct (map (\<lambda>y. cp_id (el_capacity y)) entries)"
    using capacity_list_distinct [OF match_okD(1) [OF ok], of 500] unfolding entries_of(1) [OF e, symmetric] by (simp add: comp_def)
  have "storable (result_row actor (clock env) p ?rk j y)" if y: "y \<in> set entries" for y j
  proof (cases "?rk (cp_id (el_capacity y))")
    case None
    then have "cp_id (el_capacity y) \<notin> rm_capacityId ` set ranked"
      by (auto simp: map_of_eq_None_iff image_iff)
    then have "\<not> ?E y"
      using y unfolding ranked_ids by blast
    then show ?thesis
      using None by (simp add: storable_def ranked_iff_eligible_def result_row_def Let_def)
  next
    case (Some m)
    then have m: "m \<in> set ranked" "rm_capacityId m = cp_id (el_capacity y)"
      by (auto dest!: map_of_SomeD)
    then obtain z where z: "z \<in> set entries" "?E z" "cp_id (el_capacity z) = cp_id (el_capacity y)"
      using ranked_ids by (metis (mono_tags, lifting) imageE imageI mem_Collect_eq)
    then have "?E y"
      using caps y by (metis distinct_map inj_onD)
    moreover have "breakdown_finite (rm_breakdown m)"
      using ranked_breakdowns [OF ranked _ m(1)] rankable by blast
    ultimately show ?thesis
      using Some by (simp add: storable_def ranked_iff_eligible_def result_row_def Let_def)
  qed
  then obtain rows db1 where "create_results env (result_row actor (clock env) p ?rk) entries db = Inr (rows, db1)"
    using create_results_total [OF ids, of entries "result_row actor (clock env) p ?rk"] by auto
  moreover have "authorize actor A_matching_evaluate R_match_result (Some (op_ownerOrgId p)) no_context = (Inr () :: matching_failure + unit)"
    using auth by (simp add: authorize_ok)
  ultimately show ?thesis
    using e r p(1,4) by (auto simp: evaluate_def MAX_CANDIDATE_CAPACITIES_def throw_if_def Let_def)
qed

end
