(* ===== verification/Matching_Guarantees.thy ===== *)
theory Matching_Guarantees
  imports Matching_Passes
begin

text \<open>
  What an evaluation pass stores and what the list shows, in every state of a history; when a pass
  succeeds, and how one capacity profile stops all matching.
\<close>

section \<open>The list\<close>

lemma first_of_capacity:
  "set (first_of_capacity seen rs) \<subseteq> set rs"
  "distinct (map mr_capacityId (first_of_capacity seen rs)) \<and> mr_capacityId ` set (first_of_capacity seen rs) \<inter> set seen = {}"
  by (induction rs arbitrary: seen) (auto split: if_splits, fastforce+)

lemma listed_rows:
  "distinct (map mr_capacityId (listLatestByOpportunity db i))"
  "r \<in> set (listLatestByOpportunity db i) \<Longrightarrow> r \<in> set (mt_results db) \<and> mr_opportunityId r = i \<and>
     (\<forall>x \<in> set (mt_results db). mr_opportunityId x = i \<and> mr_capacityId x = mr_capacityId r \<longrightarrow> mr_evaluatedAt x \<le> mr_evaluatedAt r)"
proof -
  let ?own = "filter (\<lambda>r. mr_opportunityId r = i) (mt_results db)"
  let ?rows = "sort_key (\<lambda>r. - mr_evaluatedAt r) (sort_key mr_id (filter (newest_of ?own) ?own))"
  have l: "listLatestByOpportunity db i = js_sort result_cmp (first_of_capacity [] ?rows)"
    by (simp add: listLatestByOpportunity_def)
  have "mset (map mr_capacityId (listLatestByOpportunity db i)) = mset (map mr_capacityId (first_of_capacity [] ?rows))"
    unfolding l by (simp add: any_sort_mset)
  then show "distinct (map mr_capacityId (listLatestByOpportunity db i))"
    using first_of_capacity(2) by (metis mset_eq_imp_distinct_iff)
  assume "r \<in> set (listLatestByOpportunity db i)"
  then have "r \<in> set ?rows"
    using first_of_capacity(1) unfolding l any_sort_set by blast
  then show "r \<in> set (mt_results db) \<and> mr_opportunityId r = i \<and>
     (\<forall>x \<in> set (mt_results db). mr_opportunityId x = i \<and> mr_capacityId x = mr_capacityId r \<longrightarrow> mr_evaluatedAt x \<le> mr_evaluatedAt r)"
    by (auto simp: newest_of_def list_all_iff)
qed

lemma first_of_capacity_ids: "mr_capacityId ` set (first_of_capacity seen rs) = mr_capacityId ` set rs - set seen"
  by (induction rs arbitrary: seen) auto

lemma newest_exists:
  assumes "x \<in> set rows"
  shows "\<exists>y \<in> set rows. mr_capacityId y = mr_capacityId x \<and> newest_of rows y"
proof -
  let ?same = "{y \<in> set rows. mr_capacityId y = mr_capacityId x}"
  have "Max (mr_evaluatedAt ` ?same) \<in> mr_evaluatedAt ` ?same"
    using assms by (intro Max_in) auto
  then obtain y where "y \<in> ?same" "mr_evaluatedAt y = Max (mr_evaluatedAt ` ?same)"
    by auto
  then show ?thesis
    by (auto simp: newest_of_def list_all_iff intro!: bexI [of _ y])
qed

text \<open>No capacity that was ever evaluated for the opportunity is missing.\<close>

lemma listed_capacities:
  "mr_capacityId ` set (listLatestByOpportunity db i) = mr_capacityId ` {x \<in> set (mt_results db). mr_opportunityId x = i}"
proof -
  let ?own = "filter (\<lambda>r. mr_opportunityId r = i) (mt_results db)"
  have "mr_capacityId ` set (listLatestByOpportunity db i) = mr_capacityId ` set (filter (newest_of ?own) ?own)"
    by (simp add: listLatestByOpportunity_def Let_def any_sort_set first_of_capacity_ids del: set_filter)
  also have "\<dots> = mr_capacityId ` set ?own"
    using newest_exists [of _ ?own] by (auto simp: image_iff) metis
  finally show ?thesis
    by simp
qed

lemma own_capacity_found:
  assumes "match_ok db"
  shows "j \<in> cp_id ` set (capacity_listByProviderOrg db org) \<longleftrightarrow>
     (\<exists>c. capacity_findById db j = Some c \<and> cp_active c \<and> cp_providerOrgId c = org)"
proof -
  have "capacity_findById db j = Some c \<longleftrightarrow> c \<in> set (mt_capacities db) \<and> cp_id c = j" for c
    using find_by_eq_iff [OF match_okD(1) [OF assms]] by (auto simp: capacity_findById_def)
  then show ?thesis
    by (auto simp: capacity_listByProviderOrg_def)
qed

section \<open>The properties\<close>

text \<open>C34. An evaluation pass appends one row for every active capacity of the state it read, newest
  profile first, up to 500, whatever the other requests committed meanwhile. Each row carries the
  eleven findings; it is eligible exactly when none of them blocks, and then the provider's passport is READY
  or VERIFIED and the capacity FRESH or AGING at the time of the pass, by live computation. Exactly
  the eligible rows carry ranking data, their ranks are 1 to n, and a better rank means a higher
  total, or the same total and the smaller identifier.\<close>

theorem evaluation_exact:
  assumes "request_run match_step match_start True hist" "snap \<in> set hist"
    and "evaluate env actor i inp ctx snap db = Inr (rows, db')"
  shows "map mr_capacityId rows = map cp_id (capacity_list snap 500) \<and> mt_results db' = mt_results db @ rows \<and>
    (\<forall>r \<in> set rows. length (mr_eligibilityResults r) = 11 \<and> (mr_eligible r \<longleftrightarrow> \<not> (\<exists>f \<in> set (mr_eligibilityResults r). blocks f)) \<and>
       mr_evaluatedAt r = clock env \<and> mr_opportunityId r = i \<and>
       (mr_eligible r \<longrightarrow> (\<exists>c. capacity_findById snap (mr_capacityId r) = Some c \<and> cp_active c \<and>
         liveProviderPassportStatus snap (cp_providerOrgId c) (clock env) \<in> {Some Psp_READY, Some Psp_VERIFIED} \<and>
         liveFreshness c (clock env) \<in> {Fr_FRESH, Fr_AGING}))) \<and>
    (\<forall>r \<in> set rows. ranked_iff_eligible r) \<and>
    mset (map (\<lambda>r. the (mr_rank r)) (filter mr_eligible rows)) = mset [1..<length (filter mr_eligible rows) + 1] \<and>
    (\<forall>a \<in> set rows. \<forall>b \<in> set rows. mr_eligible a \<and> mr_eligible b \<and> the (mr_rank a) < the (mr_rank b) \<longrightarrow>
       js_lt (the (mr_totalScore b)) (the (mr_totalScore a)) \<or> mr_totalScore a = mr_totalScore b \<and> mr_capacityId a \<le> mr_capacityId b)"
proof -
  have ok: "match_ok snap"
    using matching.run_inv [OF assms(1,2)] .
  obtain new: "mt_results db' = mt_results db @ rows" "\<forall>r \<in> set rows. ranked_iff_eligible r"
    using assms(3) by (rule evaluate_effect)
  have order: "js_lt (the (mr_totalScore b)) (the (mr_totalScore a)) \<or> mr_totalScore a = mr_totalScore b \<and> mr_capacityId a \<le> mr_capacityId b"
    if "a \<in> set rows" "b \<in> set rows" "mr_eligible a \<and> mr_eligible b \<and> the (mr_rank a) < the (mr_rank b)" for a b
    using ranks_of_pass(2) [OF assms(3) ok that(1,2)] that(3) by blast
  show ?thesis
    by (intro conjI ballI impI evaluate_capacities [OF assms(3)] new(1) ranks_of_pass(1) [OF assms(3) ok] order)
      (use new(2) checks_of_pass [OF assms(3) ok] in \<open>simp_all del: upt_Suc\<close>)
qed

text \<open>What the reader is shown, and which capacities these rows are of.\<close>

lemma matches_list_rows:
  assumes "matches_list actor i db = Inr rows" and "find_by op_id i (mt_opportunities db) = Some p"
  shows "rows = (if role actor \<in> Some ` set CROSS_ORG_MATCH_READ_ROLES then listLatestByOpportunity db i
      else if organizationId actor = Some (op_ownerOrgId p) then listLatestByOpportunity db i
      else if role actor = Some ACQUIRER_PROVIDER_USER \<and> truthy (organizationId actor)
      then filter (\<lambda>m. mr_capacityId m \<in> cp_id ` set (capacity_listByProviderOrg db (the (organizationId actor))))
        (listLatestByOpportunity db i) else [])"
  using assms(1) unfolding matches_list_def assms(2)
  by (simp only: require_def option.case ebind_simps ebind_eq_Inr Let_def sum.inject) blast

lemma matches_list_ids:
  assumes ok: "match_ok db" and shown: "matches_list actor i db = Inr rows" "find_by op_id i (mt_opportunities db) = Some p"
  shows "mr_capacityId ` set rows = {j. (\<exists>x \<in> set (mt_results db). mr_opportunityId x = i \<and> mr_capacityId x = j) \<and>
       (role actor \<in> Some ` set CROSS_ORG_MATCH_READ_ROLES \<or> organizationId actor = Some (op_ownerOrgId p) \<or>
        role actor = Some ACQUIRER_PROVIDER_USER \<and> (\<exists>c. capacity_findById db j = Some c \<and> cp_active c \<and>
          organizationId actor = Some (cp_providerOrgId c) \<and> cp_providerOrgId c \<noteq> []))}"
proof -
  have all: "(\<exists>x \<in> set (mt_results db). mr_opportunityId x = i \<and> mr_capacityId x = j) \<longleftrightarrow>
      j \<in> mr_capacityId ` set (listLatestByOpportunity db i)" for j
    unfolding listed_capacities by auto
  show ?thesis
    unfolding matches_list_rows [OF shown] all
    by (cases "organizationId actor") (auto simp: own_capacity_found [OF ok])
qed

text \<open>C37. The list of matches of an opportunity shows one row per capacity, the newest stored for it. With
  a cross-organisation role or in the organisation that owns the opportunity, a reader sees every capacity that was
  ever evaluated for it; a provider outside it sees those of them that are active capacities of its own
  organisation, all of them and no others; anyone else sees none.\<close>

theorem match_list_scoped:
  assumes "request_run match_step match_start True hist" "db \<in> set hist"
    and "matches_list actor i db = Inr rows" "find_by op_id i (mt_opportunities db) = Some p"
  shows "distinct (map mr_capacityId rows) \<and>
    (\<forall>r \<in> set rows. r \<in> set (mt_results db) \<and> mr_opportunityId r = i \<and> ranked_iff_eligible r \<and>
       (\<forall>x \<in> set (mt_results db). mr_opportunityId x = i \<and> mr_capacityId x = mr_capacityId r \<longrightarrow> mr_evaluatedAt x \<le> mr_evaluatedAt r)) \<and>
    mr_capacityId ` set rows = {j. (\<exists>x \<in> set (mt_results db). mr_opportunityId x = i \<and> mr_capacityId x = j) \<and>
       (role actor \<in> Some ` set CROSS_ORG_MATCH_READ_ROLES \<or> organizationId actor = Some (op_ownerOrgId p) \<or>
        role actor = Some ACQUIRER_PROVIDER_USER \<and> (\<exists>c. capacity_findById db j = Some c \<and> cp_active c \<and>
          organizationId actor = Some (cp_providerOrgId c) \<and> cp_providerOrgId c \<noteq> []))} \<and>
    (role actor \<notin> Some ` set CROSS_ORG_MATCH_READ_ROLES \<and> organizationId actor \<noteq> Some (op_ownerOrgId p) \<longrightarrow>
       (\<forall>r \<in> set rows. \<exists>c. capacity_findById db (mr_capacityId r) = Some c \<and> cp_active c \<and> organizationId actor = Some (cp_providerOrgId c)))"
proof -
  have ok: "match_ok db"
    using matching.run_inv [OF assms(1,2)] .
  note rows = matches_list_rows [OF assms(3,4)] and ids = matches_list_ids [OF ok assms(3,4)]
  have "distinct (map mr_capacityId rows)"
    unfolding rows using listed_rows(1) [of db i] by (auto intro: distinct_map_filter)
  moreover have "r \<in> set (mt_results db) \<and> mr_opportunityId r = i \<and> ranked_iff_eligible r \<and>
       (\<forall>x \<in> set (mt_results db). mr_opportunityId x = i \<and> mr_capacityId x = mr_capacityId r \<longrightarrow> mr_evaluatedAt x \<le> mr_evaluatedAt r)"
    if "r \<in> set rows" for r
  proof -
    have "r \<in> set (listLatestByOpportunity db i)"
      using that unfolding rows by (auto split: if_splits)
    then show ?thesis
      using listed_rows(2) [of r db i] match_okD(4) [OF ok] by blast
  qed
  moreover have "mr_capacityId r \<in> mr_capacityId ` set rows" if "r \<in> set rows" for r
    using that by simp
  ultimately show ?thesis
    unfolding ids by blast
qed

text \<open>C35. When an evaluation succeeds: over every history, if the opportunity is open with valid data, the actor is
  authorised, the request valid and the identifiers fresh, the pass succeeds if and only if every active
  capacity it reads has a settlement rail that is not blank and a ticket range that is not inverted.
  Nothing else can fail: not the ranking, and not the guards of the JSON columns, since every factor,
  weight and total that floating point produces is finite.\<close>

theorem evaluation_succeeds_iff:
  assumes "request_run match_step match_start True hist" "snap \<in> set hist"
    and p: "find_by op_id i (mt_opportunities snap) = Some p" "length (op_currency p) = 3" "0 \<le> op_movable30dMinor p"
      "op_status p \<in> {Opp_MATCH_READY, Opp_INVITED}"
    and auth: "allowed (can actor A_matching_evaluate \<lparr>rtype = R_match_result, rid = None, ownerOrgId = Some (op_ownerOrgId p), privacyClass = None\<rparr> no_context)"
    and ticket: "pred_option (\<lambda>n. 0 \<le> n \<and> n \<le> 2 ^ 53) (ev_averageTicketMinor inp)"
    and ids: "match_ids_fresh env db"
  shows "(\<exists>rows db'. evaluate env actor i inp ctx snap db = Inr (rows, db')) \<longleftrightarrow> (\<forall>c \<in> set (capacity_list snap 500). capacity_usable c)"
proof
  have ok: "match_ok snap"
    using matching.run_inv [OF assms(1,2)] .
  have sane: "capacity_sane c" if "c \<in> set (capacity_list snap 500)" for c
    using candidates_known [OF that] match_okD(3) [OF ok] by blast
  {
    assume "\<exists>rows db'. evaluate env actor i inp ctx snap db = Inr (rows, db')"
    then obtain rows db' where "evaluate env actor i inp ctx snap db = Inr (rows, db')"
      by blast
    then obtain q entries where e: "emap (evaluated_one (clock env) inp snap q) (capacity_list snap 500) = Inr entries"
      by (rule evaluate_effect)
    show "\<forall>c \<in> set (capacity_list snap 500). capacity_usable c"
    proof
      fix c assume c: "c \<in> set (capacity_list snap 500)"
      then obtain y where "evaluated_one (clock env) inp snap q c = Inr y"
        using e unfolding emap_map by blast
      then show "capacity_usable c"
        using evaluated_one_unusable [OF sane [OF c]] by blast
    qed
  }
  assume usable: "\<forall>c \<in> set (capacity_list snap 500). capacity_usable c"
  show "\<exists>rows db'. evaluate env actor i inp ctx snap db = Inr (rows, db')"
    by (rule evaluate_total [OF ok p auth ticket ids usable])
qed

text \<open>C36. One provider can stop matching for everybody: the schema accepts a capacity request whose
  maximum ticket is positive and below its minimum, and the service stores it. From then on every
  evaluation, by whomever and for whatever opportunity, fails as long as at most 500 capacities are
  active: the eligibility engine throws on the profile, and no candidate's error is caught.\<close>

theorem one_capacity_blocks_matching:
  assumes "request_run match_step match_start True (later @ snap # between @ created # earlier)"
    and "capacity_create env0 provider req ctx0 prev = Inr ((c, f), created)"
    and "cc_minTicketMinor req = Some mn" "cc_maxTicketMinor req = Some mx" "0 < mx" "mx < mn"
    and "length (filter cp_active (mt_capacities snap)) \<le> 500"
  shows "(\<exists>e. evaluate env actor i inp ctx snap db = Inl e) \<and>
    (\<forall>p. find_by op_id i (mt_opportunities snap) = Some p \<and> op_status p \<in> {Opp_MATCH_READY, Opp_INVITED} \<and>
       allowed (can actor A_matching_evaluate \<lparr>rtype = R_match_result, rid = None, ownerOrgId = Some (op_ownerOrgId p), privacyClass = None\<rparr> no_context) \<longrightarrow>
       (\<exists>e. evaluate env actor i inp ctx snap db = Inl (Unhandled (MtEligibility e))))"
proof -
  note made = capacity_create_effect [OF assms(2)]
  obtain monthly where "c = new_capacity env0 provider (cp_id c) monthly req"
    using made by (elim conjE exE)
  then have c: "cp_minTicketMinor c = mn \<and> cp_maxTicketMinor c = mx \<and> cp_active c"
    using assms(3,4) by (metis CapacityProfile.select_convs(11,12,19) new_capacity_def or_else.simps(2))
  have "match_keeps created snap"
    using matching.run_keeps [OF assms(1)] .
  then obtain c' where c': "c' \<in> set (mt_capacities snap)" "capacity_moves c c'"
    using keeps_capacity made by (metis in_set_conv_decomp)
  have cand: "c' \<in> set (capacity_list snap 500)"
    using c' c assms(7) capacity_moves_fixed(2) [OF c'(2)] by (simp add: capacity_list_def)
  have "match_ok snap"
    by (rule matching.run_inv [OF assms(1)]) simp
  then have bad: "evaluated_one now inp snap p c' \<noteq> Inr e" for now p e
    using match_okD(3) c'(1) capacity_moves_fixed(3,4) [OF c'(2)] c assms(5,6)
    by (intro evaluated_one_unusable) (simp_all add: capacity_usable_def)
  have fails: "\<exists>e. emap (evaluated_one (clock env) inp snap p) (capacity_list snap 500) = Inl e \<and> (\<exists>e'. e = Unhandled (MtEligibility e'))" for p
    by (rule emap_fails [OF cand]) (rule bad, auto simp: evaluated_one_def Let_def ebind_def map_err_def split: sum.splits)
  have "evaluate env actor i inp ctx snap db \<noteq> Inr (rows, db')" for rows db'
  proof
    assume "evaluate env actor i inp ctx snap db = Inr (rows, db')"
    then obtain p entries where "emap (evaluated_one (clock env) inp snap p) (capacity_list snap 500) = Inr entries"
      by (rule evaluate_effect)
    then show False
      using fails [of p] by simp
  qed
  then have "\<exists>e. evaluate env actor i inp ctx snap db = Inl e"
    by (cases "evaluate env actor i inp ctx snap db") auto
  moreover have "\<exists>e. evaluate env actor i inp ctx snap db = Inl (Unhandled (MtEligibility e))"
    if "find_by op_id i (mt_opportunities snap) = Some p" "op_status p \<in> {Opp_MATCH_READY, Opp_INVITED}"
      "allowed (can actor A_matching_evaluate \<lparr>rtype = R_match_result, rid = None, ownerOrgId = Some (op_ownerOrgId p), privacyClass = None\<rparr> no_context)" for p
  proof -
    have "authorize actor A_matching_evaluate R_match_result (Some (op_ownerOrgId p)) no_context = (Inr () :: matching_failure + unit)"
      using that(3) by (simp add: authorize_ok)
    then show ?thesis
      using fails [of p] that(1,2) by (auto simp: evaluate_def MAX_CANDIDATE_CAPACITIES_def Let_def throw_if_def)
  qed
  ultimately show ?thesis
    by blast
qed

section \<open>An example market\<close>

definition match_env :: Env where
  "match_env = \<lparr>uuid = (\<lambda>n. replicate (Suc n) (CHR ''m'')), clock = 1700000000000, toISOString = (\<lambda>_. [])\<rparr>"

definition match_request :: RequestContext where
  "match_request = \<lparr>requestId = [], correlationId = [], ipClass = [], userAgentClass = []\<rparr>"

definition shop_opportunity :: Opportunity where
  "shop_opportunity = \<lparr>op_id = ''opp'', op_ownerOrgId = ''shop'', op_opportunityType = ''NEW'', op_requestedService = ''CARDS'',
     op_status = Opp_MATCH_READY, op_currency = ''EUR'', op_totalPaymentVolumeMinor = 100, op_totalCardGpvMinor = 90,
     op_eligibleCardGpvMinor = 80, op_offeredCardGpvMinor = 70, op_movableNowMinor = 10, op_movable30dMinor = 20,
     op_movable90dMinor = 30, op_jurisdictions = [''DE''], op_mccs = [''5411''], op_createdByUserId = None,
     op_createdByOrgId = None, op_updatedByUserId = None, op_version = 1, op_createdAt = 0\<rparr>"

definition acquirer_passport :: Passport where
  "acquirer_passport = \<lparr>ps_id = ''pp'', ps_organizationId = ''acq'', ps_status = Psp_READY, ps_createdByUserId = None,
     ps_createdByOrgId = None, ps_updatedByUserId = None, ps_version = 1, ps_createdAt = 0\<rparr>"

definition open_market :: MatchingStore where
  "open_market = \<lparr>bs_ids = 0, bs_audit = [], bs_timeline = [], mt_opportunities = [shop_opportunity], mt_passports = [acquirer_passport],
     mt_readiness = [], mt_capacities = [], mt_results = [], mt_jobKeys = []\<rparr>"

definition acquirer_request :: "int \<Rightarrow> int \<Rightarrow> CreateCapacityProfileRequest" where
  "acquirer_request least most = \<lparr>cc_acceptingNewVolume = None, cc_jurisdictions = Some [''DE''], cc_mccsAccepted = Some [''5411''], cc_mccsExcluded = None,
     cc_currency = ''EUR'', cc_monthlyCapacityMinor = Some ''100'', cc_minTicketMinor = Some least, cc_maxTicketMinor = Some most,
     cc_maxChargebackBps = None, cc_maxFraudBps = None, cc_maxRefundBps = None, cc_settlementRail = ''SEPA'',
     cc_settlementCadenceDays = None, cc_commercialTerms = None\<rparr>"

abbreviation acquirer :: Actor where
  "acquirer \<equiv> example_actor ACQUIRER_PROVIDER_USER ''acq''"

abbreviation operator :: Actor where
  "operator \<equiv> example_actor MARKETPLACE_OPERATOR ''tol''"


definition any_match :: EvaluateMatchesRequest where
  "any_match = \<lparr>ev_averageTicketMinor = None, ev_requiredSettlementRail = None\<rparr>"

definition offered_capacity :: "int \<Rightarrow> int \<Rightarrow> matching_failure + (CapacityProfile \<times> FreshnessClass) \<times> MatchingStore" where
  "offered_capacity least most = capacity_create match_env acquirer (acquirer_request least most) match_request open_market"

lemma offered_run:
  assumes "\<not> isl (offered_capacity least most)" "0 \<le> least" "0 \<le> most"
  obtains c f db where "offered_capacity least most = Inr ((c, f), db)" "request_run match_step match_start True [db, open_market]"
proof -
  obtain c f db where e: "offered_capacity least most = Inr ((c, f), db)"
    using assms(1) by (cases "offered_capacity least most") auto
  have "match_start open_market"
    by (simp add: match_start_def open_market_def)
  then have "request_run match_step match_start True [open_market]"
    by (rule request_run.initial)
  moreover have "CreateCapacityProfileRequestSchema (acquirer_request least most)"
    using assms(2,3) by (simp add: CreateCapacityProfileRequestSchema_def acquirer_request_def codes_ok_def)
  then have "match_step open_market open_market db"
    using e unfolding offered_capacity_def by (rule match_step.capacity)
  ultimately show thesis
    using that [OF e] request_run.commit [of match_step match_start True open_market "[]" open_market db] by simp
qed

lemma offers_accepted: "\<not> isl (offered_capacity 1 0)" "\<not> isl (offered_capacity 500 100)"
  by code_simp+

lemma offered_row:
  assumes "offered_capacity least most = Inr ((c, f), db)"
  shows "mt_capacities db = [c]" "mt_results db = []" "capacity_list db 500 = [c]" "cp_active c" "cp_providerOrgId c = ''acq''"
    "cp_minTicketMinor c = least" "cp_maxTicketMinor c = most" "cp_settlementRail c = ''SEPA''"
proof -
  note e = capacity_create_effect [OF assms [unfolded offered_capacity_def]]
  obtain monthly where c: "c = new_capacity match_env acquirer (cp_id c) monthly (acquirer_request least most)"
    using e by (elim conjE exE)
  show rows: "mt_capacities db = [c]" "mt_results db = []"
    using e by (simp_all add: open_market_def)
  show "cp_active c" "cp_providerOrgId c = ''acq''" "cp_minTicketMinor c = least" "cp_maxTicketMinor c = most" "cp_settlementRail c = ''SEPA''"
    by (subst c, simp add: new_capacity_def acquirer_request_def example_actor_def)+
  then show "capacity_list db 500 = [c]"
    by (simp add: capacity_list_def rows)
qed

lemma demo_authorised:
  "allowed (can operator A_matching_evaluate \<lparr>rtype = R_match_result, rid = None, ownerOrgId = Some (op_ownerOrgId shop_opportunity), privacyClass = None\<rparr> no_context)"
  "allowed (can acquirer A_match_list \<lparr>rtype = R_match_result, rid = None, ownerOrgId = Some (op_ownerOrgId shop_opportunity), privacyClass = None\<rparr>
     \<lparr>isSelf = False, isParticipant = True\<rparr>)"
  by (simp_all add: can_def example_actor_def grant_defs no_context_def shop_opportunity_def)

lemma blank_rail: "js_trim ''SEPA'' \<noteq> []"
  by code_simp

lemma demo_ids: "mt_results db = [] \<Longrightarrow> match_ids_fresh match_env db"
  by (simp add: match_ids_fresh_def match_env_def inj_def)

lemma demo_tables: "offered_capacity least most = Inr ((c, f), db) \<Longrightarrow>
    find_by op_id ''opp'' (mt_opportunities db) = Some shop_opportunity \<and> mt_passports db = [acquirer_passport] \<and> mt_readiness db = []"
  by (auto simp: offered_capacity_def capacity_create_def capacity_insert_def ebind_eq_Inr Let_def next_id_def write_audit_def insert_row_ok
      open_market_def shop_opportunity_def find_by_def)

lemma demo_eligible: "(case offered_capacity 1 0 of Inl _ \<Rightarrow> False | Inr ((c, f), db) \<Rightarrow>
    (case evaluated_one 1700000000000 any_match db shop_opportunity c of Inl _ \<Rightarrow> False | Inr e \<Rightarrow> er_eligible (el_eligibility e)))"
  by code_simp

text \<open>One capacity is offered and one pass evaluates it.\<close>

lemma demo_pass:
  obtains c f db rows db' where "offered_capacity 1 0 = Inr ((c, f), db)" "request_run match_step match_start True [db, open_market]"
    "evaluate match_env operator ''opp'' any_match match_request db db = Inr (rows, db')" "map mr_eligible rows = [True]"
proof -
  obtain c f db where o': "offered_capacity 1 0 = Inr ((c, f), db)" "request_run match_step match_start True [db, open_market]"
    using offered_run [of 1 0] offers_accepted(1) by auto
  note row = offered_row [OF o'(1)]
  have usable: "\<forall>c' \<in> set (capacity_list db 500). capacity_usable c'"
    unfolding row(3) using row(7,8) blank_rail by (simp add: capacity_usable_def)
  have opp: "find_by op_id ''opp'' (mt_opportunities db) = Some shop_opportunity"
    using demo_tables [OF o'(1)] by blast
  have "match_ok db"
    using matching.run_inv [OF o'(2)] by simp
  then obtain rows db' where e: "evaluate match_env operator ''opp'' any_match match_request db db = Inr (rows, db')"
    using evaluate_total [OF _ opp _ _ _ demo_authorised(1) _ demo_ids [OF row(2)] usable, of any_match match_request]
    by (auto simp: shop_opportunity_def any_match_def)
  obtain p entries ranked ids where pass: "find_by op_id ''opp'' (mt_opportunities db) = Some p"
      "emap (evaluated_one (clock match_env) any_match db p) (capacity_list db 500) = Inr entries" "length ids = length entries"
      "rows = map2 (result_row operator (clock match_env) p (map_of (rev (map (\<lambda>r. (rm_capacityId r, r)) ranked)))) ids entries"
    using e by (rule evaluate_effect)
  have "p = shop_opportunity"
    using pass(1) opp by simp
  then obtain y where y: "entries = [y]" "evaluated_one 1700000000000 any_match db shop_opportunity c = Inr y"
    using pass(2) unfolding row(3) by (auto simp: ebind_eq_Inr match_env_def)
  have "er_eligible (el_eligibility y)"
    using demo_eligible unfolding o'(1) by (simp add: y(2))
  then have "map mr_eligible rows = [True]"
    using pass(3) unfolding pass(4) y(1) by (cases ids) auto
  then show thesis
    by (rule that [OF o' e])
qed

theorem evaluation_exact_witness:
  "\<exists>db rows db'. evaluate match_env operator ''opp'' any_match match_request db db = Inr (rows, db') \<and>
     map mr_eligible rows = [True] \<and> map mr_rank rows = [Some 1]"
proof -
  obtain db rows db' where d: "request_run match_step match_start True [db, open_market]"
    "evaluate match_env operator ''opp'' any_match match_request db db = Inr (rows, db')" "map mr_eligible rows = [True]"
    by (rule demo_pass)
  obtain r where r: "rows = [r]" "mr_eligible r"
    using d(3) by (cases rows) auto
  have "(\<forall>r \<in> set rows. ranked_iff_eligible r) \<and>
      mset (map (\<lambda>r. the (mr_rank r)) (filter mr_eligible rows)) = mset [1..<length (filter mr_eligible rows) + 1]"
    using evaluation_exact [OF d(1) _ d(2)] by simp
  then have "mr_rank r = Some 1"
    using r by (auto simp: ranked_iff_eligible_def)
  then show ?thesis
    using d(2,3) r(1) by (intro exI [of _ db] exI [of _ rows] exI [of _ db']) simp
qed

theorem match_list_scoped_witness:
  "\<exists>db r c. matches_list acquirer ''opp'' db = Inr [r] \<and> capacity_findById db (mr_capacityId r) = Some c \<and> cp_providerOrgId c = ''acq''"
proof -
  obtain c f db rows db' where d: "offered_capacity 1 0 = Inr ((c, f), db)" "request_run match_step match_start True [db, open_market]"
    "evaluate match_env operator ''opp'' any_match match_request db db = Inr (rows, db')" "map mr_eligible rows = [True]"
    by (rule demo_pass)
  note row = offered_row [OF d(1)]
  obtain written: "mt_results db' = mt_results db @ rows" "mt_capacities db' = mt_capacities db"
    using d(3) by (rule evaluate_effect)
  obtain r where r: "rows = [r]"
    using d(4) by (cases rows) auto
  have of_r: "mr_opportunityId r = ''opp''" "mr_capacityId r = cp_id c"
    using checks_of_pass [OF d(3) matching.run_inv [OF d(2)]] evaluate_capacities [OF d(3)] unfolding r row(3) by simp_all
  define db2 where "db2 = db'\<lparr>mt_opportunities := [shop_opportunity]\<rparr>"
  have db2: "mt_results db2 = [r]" "mt_capacities db2 = [c]" "find_by op_id ''opp'' (mt_opportunities db2) = Some shop_opportunity"
    using written by (simp_all add: db2_def row(1,2) r find_by_def) (simp add: shop_opportunity_def)
  have "request_run match_step match_start True [db', db, open_market]"
    using request_run.commit [OF d(2) _ match_step.evaluation [OF d(3)]] by simp
  moreover have "match_step db' db' db2"
    by (rule match_step.elsewhere) (simp_all add: db2_def)
  ultimately have run: "request_run match_step match_start True [db2, db', db, open_market]"
    using request_run.commit [of match_step match_start True db' "[db, open_market]" db' db2] by simp
  have listed: "listLatestByOpportunity db2 ''opp'' = [r]"
    by (simp add: listLatestByOpportunity_def db2 of_r newest_of_def js_sort_def)
  have "authorize acquirer A_match_list R_match_result (Some (op_ownerOrgId shop_opportunity)) \<lparr>isSelf = False, isParticipant = True\<rparr> =
      (Inr () :: matching_failure + unit)"
    using demo_authorised(2) by (simp add: authorize_ok)
  moreover have who: "role acquirer \<notin> Some ` set CROSS_ORG_MATCH_READ_ROLES" "organizationId acquirer \<noteq> Some (op_ownerOrgId shop_opportunity)"
    "role acquirer = Some ACQUIRER_PROVIDER_USER" "organizationId acquirer = Some ''acq''"
    by (auto simp: example_actor_def CROSS_ORG_MATCH_READ_ROLES_def shop_opportunity_def)
  moreover have "mr_capacityId r \<in> cp_id ` set (capacity_listByProviderOrg db2 ''acq'')"
    by (simp add: capacity_listByProviderOrg_def db2 row(4,5) of_r)
  ultimately have l: "matches_list acquirer ''opp'' db2 = Inr [r]"
    by (simp add: matches_list_def db2(3) listed Let_def)
  then obtain c' where c': "capacity_findById db2 (mr_capacityId r) = Some c'" "organizationId acquirer = Some (cp_providerOrgId c')"
    using match_list_scoped [OF run _ l db2(3)] who by auto
  then have "cp_providerOrgId c' = ''acq''"
    unfolding who(4) by simp
  then show ?thesis
    using l c'(1) by (intro exI [of _ db2] exI [of _ r] exI [of _ c']) simp
qed

theorem evaluation_succeeds_iff_witness:
  "\<exists>c f db rows db'. offered_capacity 1 0 = Inr ((c, f), db) \<and> capacity_list db 500 = [c] \<and> capacity_usable c \<and>
     evaluate match_env operator ''opp'' any_match match_request db db = Inr (rows, db')"
proof -
  obtain c f db where o': "offered_capacity 1 0 = Inr ((c, f), db)" "request_run match_step match_start True [db, open_market]"
    using offered_run [of 1 0] offers_accepted(1) by auto
  note row = offered_row [OF o'(1)]
  have usable: "capacity_usable c"
    using row(7,8) blank_rail by (simp add: capacity_usable_def)
  have opp: "find_by op_id ''opp'' (mt_opportunities db) = Some shop_opportunity"
    using demo_tables [OF o'(1)] by blast
  have "length (op_currency shop_opportunity) = 3" "0 \<le> op_movable30dMinor shop_opportunity"
    "op_status shop_opportunity \<in> {Opp_MATCH_READY, Opp_INVITED}" "pred_option (\<lambda>n. 0 \<le> n \<and> n \<le> 2 ^ 53) (ev_averageTicketMinor any_match)"
    by (simp_all add: shop_opportunity_def any_match_def)
  from evaluation_succeeds_iff [OF o'(2) _ opp this(1-3) demo_authorised(1) this(4) demo_ids [OF row(2)], of match_request]
  show ?thesis
    using usable o'(1) row(3) by auto
qed

theorem one_capacity_blocks_matching_witness:
  "\<exists>c f created e. CreateCapacityProfileRequestSchema (acquirer_request 500 100) \<and> offered_capacity 500 100 = Inr ((c, f), created) \<and>
     evaluate match_env operator ''opp'' any_match match_request created created = Inl (Unhandled (MtEligibility e))"
proof -
  obtain c f db where o': "offered_capacity 500 100 = Inr ((c, f), db)" "request_run match_step match_start True [db, open_market]"
    using offered_run [of 500 100] offers_accepted(2) by auto
  note row = offered_row [OF o'(1)]
  have "match_step db db db"
    by (rule match_step.elsewhere) simp_all
  then have run: "request_run match_step match_start True ([] @ db # [] @ db # [open_market])"
    using request_run.commit [of match_step match_start True db "[open_market]" db db] o'(2) by simp
  have opp: "find_by op_id ''opp'' (mt_opportunities db) = Some shop_opportunity"
    using demo_tables [OF o'(1)] by blast
  have "op_status shop_opportunity \<in> {Opp_MATCH_READY, Opp_INVITED}" "length (filter cp_active (mt_capacities db)) \<le> 500"
    "cc_minTicketMinor (acquirer_request 500 100) = Some 500" "cc_maxTicketMinor (acquirer_request 500 100) = Some 100"
    by (simp_all add: shop_opportunity_def acquirer_request_def row(1,4))
  moreover have "CreateCapacityProfileRequestSchema (acquirer_request 500 100)"
    by (simp add: CreateCapacityProfileRequestSchema_def acquirer_request_def codes_ok_def)
  ultimately show ?thesis
    using one_capacity_blocks_matching [OF run o'(1) [unfolded offered_capacity_def], of 500 100 match_env operator "''opp''" any_match match_request db]
      opp demo_authorised(1) o'(1) by auto
qed

end
