(* ===== verification/Spec2Isabelle.thy ===== *)
theory Spec2Isabelle
  imports Opportunity_States Rfq_States Deal_States Claim_States Lockbox_States Passport_States
    Economics_Engine Volume_Reconciliation Envelope Receipt Authz Idempotency Economics_Guarantees
    Attribution Market_Guarantees Market_Jobs Lockbox_Guarantees Claim_Guarantees
    Passport_Guarantees Matching_Guarantees
begin

text \<open>
  Verification of the core of the TOL platform, a marketplace in which merchants tender payment
  processing volume to acquirers.

  \<^bold>\<open>The program.\<close> An API server (\<^verbatim>\<open>apps/api\<close>) has one service per module; each handler loads rows,
  asks \<^verbatim>\<open>packages/authz\<close> for a decision, checks the state machines of \<^verbatim>\<open>packages/domain\<close>, and writes
  rows, audit records and timeline events in one transaction through the repositories of
  \<^verbatim>\<open>packages/db\<close>. A worker (\<^verbatim>\<open>apps/worker\<close>) runs the recurring jobs. The pure engines are packages of
  their own: \<^verbatim>\<open>domain\<close> (state machines, money, commission split, volume reconciliation), \<^verbatim>\<open>crypto\<close>
  (secret sharing, envelope encryption, receipts), \<^verbatim>\<open>authz\<close>, \<^verbatim>\<open>evidence\<close>, \<^verbatim>\<open>matching\<close>, \<^verbatim>\<open>attribution\<close>.

  \<^bold>\<open>Theories and sources.\<close>
  \<^item> TOL_Prelude: named collections (\<^verbatim>\<open>service_simps\<close> and others), list, option and word lemmas.
  \<^item> Transition_Guard, Opportunity_States, Rfq_States, Deal_States, Claim_States, Lockbox_States,
    Passport_States, Economics_States: \<^verbatim>\<open>packages/domain/src/*-states.ts\<close>. Each vocabulary is a datatype
    with its name function, each table a function, each guard a function into errors; the locale of
    Transition_Guard derives reachability facts from a table and is interpreted for every machine.
  \<^item> Money, Economics_Engine, Volume_Reconciliation: the files of the same names in
    \<^verbatim>\<open>packages/domain/src\<close>. The split is exact, fair to one minor unit and independent of the order of
    its components; period figures agree with the figures per accrual.
  \<^item> Field_Interpolation, GF256, Shamir, Envelope, Receipt: \<^verbatim>\<open>packages/crypto/src\<close>. Multiplication by
    tables is multiplication modulo the polynomial, any threshold of shares reconstructs, fewer say
    nothing about the secret, sealing and releasing is a round trip, receipts bind their content.
  \<^item> Authz_Vocabulary, Authz: \<^verbatim>\<open>packages/authz/src\<close>, the full authority matrix, \<^verbatim>\<open>can\<close>, field classes.
  \<^item> Service_Base, Idempotency: \<^verbatim>\<open>apps/api/src/shared\<close> and the job key table of the worker.
  \<^item> Economics_Store, Economics_Service, Economics_Accrual_Job, Economics_Ledger,
    Economics_Guarantees: the economics module, its repositories and its job. The ledger is refined
    to accounts with an outstanding amount; the invariants hold in every reachable state.
  \<^item> JS_Number, Matching_Eligibility, Matching_Ranking, Attribution, Evidence, Json_Guards: the
    matching, attribution and evidence engines and the guard on stored JSON.
  \<^item> Common_Store, Market_Store, Opportunity_Service, Rfq_Service, Deal_Service: the repositories and
    services of the tender, and the RFQ expiry job. Market_Effects says what a successful request
    writes; Request_History defines histories of requests and the locale in which their invariants
    are proved once; Market_History and Market_Sequential interpret it for interleaved and for
    sequential requests; Market_Demo evaluates concrete histories; Market_Guarantees and Market_Jobs
    hold the resulting theorems.
  \<^item> Json_Text, Lockbox_Payload, Lockbox_Service: the text of JSON strings and objects in UTF-16 and
    UTF-8, the stored payload, and the lockbox module with its repositories. Lockbox_History gives
    the effect of sealing, withdrawing and releasing, Lockbox_Invariant ties lockboxes, shares,
    receipts and release records together in every history, and Lockbox_Guarantees shows that the
    sealed payload is what a release discloses, that a withdrawal destroys it for good, and that a
    lockbox is released at most once.
  \<^item> Row_Updates: laws of updates by key that the histories of lockboxes, claims and passports share.
  \<^item> Claim_Service: the claims module (\<^verbatim>\<open>modules/claims/service.ts\<close>) with its repositories and its
    request schema. Claim_History gives the effects of filing, disputing and deciding,
    Claim_Invariant refines the status of a claim to a function of its log of disputes and decisions,
    Claim_Filing shows that every valid request is scored with finite numbers and stored, and
    Claim_Guarantees holds the theorems, among them that nobody decides a claim of the own
    organization and that every open claim can be decided.
  \<^item> Passport_Service: the passport module (\<^verbatim>\<open>modules/passport/service.ts\<close>) with its repositories and
    the worker job \<^verbatim>\<open>passport-readiness.job.ts\<close> with its sweep. Passport_History gives the effect of
    each request, read and job and of the recompute they share; Passport_Invariant shows that the
    stored readiness is always that of the current facts, Passport_Keeps what later states keep,
    Passport_Progress that requests succeed, and Passport_Guarantees who verifies a passport, what a
    read shows, and the two places where the status falls behind: a verification that outlives its
    facts, and a recompute that happens once for each status.
  \<^item> Matching_Service: capacity profiles (\<^verbatim>\<open>modules/capacity/service.ts\<close>) with their repository, the
    schema of the create request, and the worker job \<^verbatim>\<open>capacity-freshness.job.ts\<close> with its sweep.
    Matching_Evaluation: the evaluation pass and the match list (\<^verbatim>\<open>modules/matching/service.ts\<close>) with the
    match result repository. Matching_History gives the invariant of the two tables over every
    interleaving with the other services, Matching_Passes what a pass computes, which profiles the
    engine refuses, and that on all others the pass succeeds, and Matching_Guarantees shows what is
    stored and ranked, who sees which rows, and that one badly formed profile stops all matching.

  \<^bold>\<open>Modelling conventions.\<close> A struct is a record, a union a datatype, a status string is kept as a string
  where the code takes strings and as the datatype where the column is an enum. Unbounded integers
  (\<^verbatim>\<open>bigint\<close>) are \<^typ>\<open>int\<close>, bytes are 8-bit words, numbers are IEEE doubles as exact rationals with
  infinities and NaN, rounded to nearest even (the sign of zero is not represented; no modelled
  computation reads it). A thrown error is the left value of a sum. A handler takes two databases:
  \<^verbatim>\<open>snap\<close>, the committed state its reads before the transaction see, and \<^verbatim>\<open>db\<close>, the state its transaction
  runs in. A handler that fails leaves no state. A history lets the two differ arbitrarily (every
  earlier state of the same history may be the snapshot), which covers every interleaving of
  requests whose transactions are serialized by the locks the code takes; a sequential history has
  them equal. Tables are lists in insertion order with the unique constraints of the schema.

  \<^bold>\<open>Parameters and hypotheses.\<close> Fresh identifiers are a function of a counter, assumed injective where
  uniqueness matters. The clock, AES-GCM, SHA-256, HMAC and the random generator are arguments; the
  hypotheses are that decryption inverts encryption under the same key, nonce and data, and that
  generated bytes have the requested number. The request hash is an argument. Each hypothesis has a
  witness that instantiates it. The parser of the dates of an evidence request (\<^verbatim>\<open>new Date\<close>) is an argument.

  \<^bold>\<open>Bounds and fuel.\<close> Loops are structural or have a termination proof. The expiry sweep handles at
  most 500 RFQs, the limit of its query; the liveness theorem states what is left then. The JSON
  guard terminates on cyclic graphs because it records the path it is on. The JSON parser of lockbox
  payloads runs with fuel twice the length of the text plus two; the lemma \<^verbatim>\<open>fuel_enough\<close> shows that
  this is enough for every text the serializer writes.

  \<^bold>\<open>Not modelled.\<close> Error messages and reason texts; the zod schemas other than those of lockbox payloads,
  claim requests and capacity requests (parsed requests are inputs); Fastify, Redis and BullMQ wiring, logging, rate
  limits; the web application; seed data and migrations (their unique constraints are in the
  repositories). The services of memberships, organizations, the market browser and sessions are
  not modelled.

  \<^bold>\<open>Simplifications.\<close> The reads a handler makes before its transaction see one committed state: the pass
  of the matching service reads the passports of its candidates one by one, and opening a passport
  reads the passport and then its readiness. When a job finds that another one inserted
  its idempotency key first, \<^verbatim>\<open>withJobIdempotency\<close> swallows the error and keeps the effect of its
  handler, as the code does; that Postgres marks the transaction as aborted after a failed insert, so
  that its commit would undo this effect, is not represented.
\<close>

end
